(* ===== verification/Prelude.thy ===== *)
theory Prelude
  imports Main
begin

text \<open>
  Shared vocabulary of the development.  A Python \<open>str\<close> is a list of code
  points (\<open>nat\<close>), so \<open>len\<close>, slicing and comparison count what Python counts;
  the strings are sequences of Unicode scalar values, that is, hold no lone
  surrogate (Python refuses to encode one).  \<open>U ''abc''\<close> is the literal
  \<open>"abc"\<close>.  The operations are those of \<open>str\<close> that the program uses, each with
  the lemmas the components rest on.  A Python \<open>dict\<close> is an association list in
  insertion order, read with \<open>map_of\<close> and updated with \<open>dict_set\<close>.
\<close>

named_theorems py_simps \<open>evaluation of the string operations\<close>
named_theorems strip_intros \<open>facts about trimmed strings\<close>

section \<open>Strings\<close>

type_synonym cpoint = nat
type_synonym str = "cpoint list"

definition U :: "string \<Rightarrow> str" where
  "U s = map of_char s"

lemma U_Nil [simp]: "U [] = []"
  by (simp add: U_def)

lemma U_append [simp]: "U (s @ t) = U s @ U t"
  by (simp add: U_def)

lemma length_U [simp]: "length (U s) = length s"
  by (simp add: U_def)

lemma U_eq_Nil_iff [simp]: "U s = [] \<longleftrightarrow> s = []"
  by (simp add: U_def)

lemma U_inject [simp]: "U s = U t \<longleftrightarrow> s = t"
proof -
  have "inj (of_char :: char \<Rightarrow> nat)"
    by (rule inj_of_char)
  then show ?thesis
    by (auto simp: U_def dest: map_injective)
qed

text \<open>\<open>str.isspace\<close>, and \<open>\s\<close> of a \<open>str\<close> pattern.\<close>

definition py_space :: "cpoint \<Rightarrow> bool" where
  "py_space c \<longleftrightarrow> (9 \<le> c \<and> c \<le> 13) \<or> (28 \<le> c \<and> c \<le> 32) \<or> c = 133 \<or> c = 160 \<or> c = 5760 \<or>
     (8192 \<le> c \<and> c \<le> 8202) \<or> c = 8232 \<or> c = 8233 \<or> c = 8239 \<or> c = 8287 \<or> c = 12288"

text \<open>The characters \<open>str.splitlines\<close> ends a line at.\<close>

definition line_break :: "cpoint \<Rightarrow> bool" where
  "line_break c \<longleftrightarrow> (10 \<le> c \<and> c \<le> 13) \<or> (28 \<le> c \<and> c \<le> 30) \<or> c = 133 \<or> c = 8232 \<or> c = 8233"

definition ascii_digit :: "cpoint \<Rightarrow> bool" where
  "ascii_digit c \<longleftrightarrow> 48 \<le> c \<and> c \<le> 57"

subsection \<open>Trimming\<close>

definition lstrip_by :: "(cpoint \<Rightarrow> bool) \<Rightarrow> str \<Rightarrow> str" where
  "lstrip_by p s = dropWhile p s"

definition rstrip_by :: "(cpoint \<Rightarrow> bool) \<Rightarrow> str \<Rightarrow> str" where
  "rstrip_by p s = rev (dropWhile p (rev s))"

definition strip_by :: "(cpoint \<Rightarrow> bool) \<Rightarrow> str \<Rightarrow> str" where
  "strip_by p s = rstrip_by p (lstrip_by p s)"

definition strip :: "str \<Rightarrow> str" where
  "strip s = strip_by py_space s"

text \<open>A string neither of whose ends satisfies \<open>p\<close>.\<close>

definition trimmed_by :: "(cpoint \<Rightarrow> bool) \<Rightarrow> str \<Rightarrow> bool" where
  "trimmed_by p s \<longleftrightarrow> s = [] \<or> \<not> p (hd s) \<and> \<not> p (last s)"

lemma rstrip_by_Nil [simp]: "rstrip_by p [] = []"
  by (simp add: rstrip_by_def)

lemma rstrip_by_snoc [simp]:
  "rstrip_by p (s @ [c]) = (if p c then rstrip_by p s else s @ [c])"
  by (simp add: rstrip_by_def)

lemma rstrip_by_prefix: "\<exists>t. s = rstrip_by p s @ t \<and> (\<forall>c \<in> set t. p c)"
proof (induction s rule: rev_induct)
  case Nil
  then show ?case by simp
next
  case (snoc c s)
  then obtain t where t: "s = rstrip_by p s @ t" "\<forall>c \<in> set t. p c" by blast
  show ?case
  proof (cases "p c")
    case True
    with t have "s @ [c] = rstrip_by p (s @ [c]) @ (t @ [c])" by simp
    with True t show ?thesis by (intro exI [of _ "t @ [c]"]) auto
  qed simp
qed

lemma length_rstrip_by [simp]: "length (rstrip_by p s) \<le> length s"
  unfolding rstrip_by_def by (metis length_dropWhile_le length_rev)

lemma length_strip_by: "length (strip_by p s) \<le> length s"
  unfolding strip_by_def lstrip_by_def
  by (meson length_dropWhile_le length_rstrip_by order_trans)

lemma set_rstrip_by: "set (rstrip_by p s) \<subseteq> set s"
  by (auto simp: rstrip_by_def dest: set_dropWhileD)

lemma set_strip_by: "set (strip_by p s) \<subseteq> set s"
  unfolding strip_by_def lstrip_by_def
  by (metis (no_types, lifting) set_dropWhileD set_rstrip_by subsetD subsetI)

lemma rstrip_by_last: "rstrip_by p s \<noteq> [] \<Longrightarrow> \<not> p (last (rstrip_by p s))"
  by (simp add: rstrip_by_def last_rev hd_dropWhile)

lemma rstrip_by_hd: "rstrip_by p s \<noteq> [] \<Longrightarrow> hd (rstrip_by p s) = hd s"
  by (metis append_Nil2 hd_append2 rstrip_by_prefix)

lemma strip_by_trimmed [strip_intros]: "trimmed_by p (strip_by p s)"
proof (cases "strip_by p s = []")
  case False
  then have "lstrip_by p s \<noteq> []"
    by (auto simp: strip_by_def)
  then have "\<not> p (hd (lstrip_by p s))"
    by (simp add: lstrip_by_def hd_dropWhile)
  with False show ?thesis
    by (simp add: trimmed_by_def strip_by_def rstrip_by_hd rstrip_by_last)
qed (simp add: trimmed_by_def)

lemma strip_by_id: "trimmed_by p s \<Longrightarrow> strip_by p s = s"
proof (cases s rule: rev_cases)
  case Nil
  then show ?thesis by (simp add: strip_by_def lstrip_by_def)
next
  case (snoc t c)
  assume tr: "trimmed_by p s"
  then have "dropWhile p s = s"
    using snoc by (metis dropWhile_eq_self_iff trimmed_by_def)
  with tr snoc show ?thesis
    by (simp add: strip_by_def lstrip_by_def trimmed_by_def)
qed

lemma strip_by_idem [simp]: "strip_by p (strip_by p s) = strip_by p s"
  by (rule strip_by_id [OF strip_by_trimmed])

lemma strip_by_eq_Nil_iff: "strip_by p s = [] \<longleftrightarrow> (\<forall>c \<in> set s. p c)"
proof
  assume "strip_by p s = []"
  then have "\<forall>c \<in> set (lstrip_by p s). p c"
    by (metis append_Nil rstrip_by_prefix strip_by_def)
  then show "\<forall>c \<in> set s. p c"
    unfolding lstrip_by_def by (metis dropWhile_eq_Nil_conv hd_dropWhile hd_in_set)
next
  assume "\<forall>c \<in> set s. p c"
  then show "strip_by p s = []"
    by (simp add: strip_by_def lstrip_by_def dropWhile_eq_Nil_conv [THEN iffD2])
qed

lemma strip_idem [simp]: "strip (strip s) = strip s"
  by (simp add: strip_def)

lemma strip_Nil [simp]: "strip [] = []"
  by (simp add: strip_def strip_by_def lstrip_by_def)

lemma length_dropWhile_Suc [termination_simp]: "length (dropWhile p s) < Suc (length s)"
  by (simp add: length_dropWhile_le less_Suc_eq_le)

subsection \<open>Prefixes and suffixes\<close>

definition startswith :: "str \<Rightarrow> str \<Rightarrow> bool" where
  "startswith s p \<longleftrightarrow> take (length p) s = p"

definition endswith :: "str \<Rightarrow> str \<Rightarrow> bool" where
  "endswith s p \<longleftrightarrow> startswith (rev s) (rev p)"

definition removesuffix :: "str \<Rightarrow> str \<Rightarrow> str" where
  "removesuffix s p = (if endswith s p then take (length s - length p) s else s)"

lemma startswith_append [simp]: "startswith (p @ s) p"
  by (simp add: startswith_def)

lemma startswith_iff: "startswith s p \<longleftrightarrow> (\<exists>t. s = p @ t)"
  unfolding startswith_def by (metis append_eq_conv_conj append_take_drop_id)

lemma startswith_Nil [simp]: "startswith s []"
  by (simp add: startswith_def)

lemma startswith_refl [simp]: "startswith s s"
  by (simp add: startswith_def)

lemma endswith_iff: "endswith s p \<longleftrightarrow> (\<exists>t. s = t @ p)"
  unfolding endswith_def startswith_iff by (metis rev_append rev_rev_ident)

subsection \<open>Splitting and joining\<close>

text \<open>\<open>str.split(sep)\<close> for a one-character separator, and \<open>sep.join\<close>.\<close>

fun split_on :: "cpoint \<Rightarrow> str \<Rightarrow> str list" where
  "split_on c [] = [[]]"
| "split_on c (x # xs) =
     (if x = c then [] # split_on c xs
      else (case split_on c xs of [] \<Rightarrow> [[x]] | p # ps \<Rightarrow> (x # p) # ps))"

fun join :: "str \<Rightarrow> str list \<Rightarrow> str" where
  "join sep [] = []"
| "join sep [p] = p"
| "join sep (p # q # ps) = p @ sep @ join sep (q # ps)"

lemma split_on_not_Nil [simp]: "split_on c s \<noteq> []"
  by (induction s) (auto split: list.splits)

lemma join_Cons: "ps \<noteq> [] \<Longrightarrow> join sep (p # ps) = p @ sep @ join sep ps"
  by (cases ps) simp_all

lemma join_split_on: "join [c] (split_on c s) = s"
proof (induction s)
  case (Cons x xs)
  show ?case
  proof (cases "split_on c xs")
    case Nil
    then show ?thesis by simp
  next
    case (Cons p ps)
    with \<open>join [c] (split_on c xs) = xs\<close> show ?thesis
      by (cases ps) (auto simp: join_Cons)
  qed
qed simp

lemma split_on_no_sep: "p \<in> set (split_on c s) \<Longrightarrow> c \<notin> set p"
proof (induction s arbitrary: p)
  case (Cons x xs)
  then show ?case
    by (cases "split_on c xs") (auto split: if_splits)
qed simp

lemma set_split_on: "p \<in> set (split_on c s) \<Longrightarrow> set p \<subseteq> set s"
proof (induction s arbitrary: p)
  case (Cons x xs)
  then show ?case
    by (cases "split_on c xs") (fastforce split: if_splits)+
qed simp

lemma split_on_free: "c \<notin> set s \<Longrightarrow> split_on c s = [s]"
  by (induction s) auto

lemma split_on_append: "c \<notin> set p \<Longrightarrow> split_on c (p @ c # s) = p # split_on c s"
  by (induction p) auto

lemma split_on_join:
  "ps \<noteq> [] \<Longrightarrow> (\<forall>p \<in> set ps. c \<notin> set p) \<Longrightarrow> split_on c (join [c] ps) = ps"
proof (induction ps)
  case (Cons p ps)
  then show ?case
    by (cases ps) (auto simp: split_on_free split_on_append)
qed simp

text \<open>\<open>str.splitlines(keepends=True)\<close>.\<close>

fun splitlines_keep :: "str \<Rightarrow> str list" where
  "splitlines_keep [] = []"
| "splitlines_keep (x # xs) =
     (if x = 13 \<and> xs \<noteq> [] \<and> hd xs = 10 then [13, 10] # splitlines_keep (tl xs)
      else if line_break x then [x] # splitlines_keep xs
      else (case splitlines_keep xs of [] \<Rightarrow> [[x]] | l # ls \<Rightarrow> (x # l) # ls))"

lemma concat_splitlines_keep [simp]: "concat (splitlines_keep s) = s"
proof (induction s rule: splitlines_keep.induct)
  case (2 x xs)
  show ?case
  proof (cases "x = 13 \<and> xs \<noteq> [] \<and> hd xs = 10")
    case True
    then have "xs = 10 # tl xs" by (cases xs) auto
    with True 2 show ?thesis by auto
  next
    case False
    with 2 show ?thesis by (auto split: list.splits)
  qed
qed simp

text \<open>\<open>str.partition(sep)\<close> and \<open>str.rpartition(sep)\<close> for a one-character separator: the
  part before, whether the separator was found, the part after.\<close>

definition partition_on :: "cpoint \<Rightarrow> str \<Rightarrow> str \<times> bool \<times> str" where
  "partition_on c s =
     (if c \<in> set s
      then (takeWhile (\<lambda>x. x \<noteq> c) s, True, tl (dropWhile (\<lambda>x. x \<noteq> c) s))
      else (s, False, []))"

definition rpartition_on :: "cpoint \<Rightarrow> str \<Rightarrow> str \<times> bool \<times> str" where
  "rpartition_on c s =
     (if c \<in> set s
      then (rev (tl (dropWhile (\<lambda>x. x \<noteq> c) (rev s))), True, rev (takeWhile (\<lambda>x. x \<noteq> c) (rev s)))
      else ([], False, s))"

lemma rpartition_on_split:
  "rpartition_on c s = (a, True, b) \<Longrightarrow> s = a @ [c] @ b \<and> c \<notin> set b"
proof -
  assume r: "rpartition_on c s = (a, True, b)"
  then have c: "c \<in> set (rev s)"
    by (auto simp: rpartition_on_def split: if_splits)
  obtain d where d: "dropWhile (\<lambda>x. x \<noteq> c) (rev s) = c # d"
    using c by (metis (mono_tags, lifting) dropWhile_eq_Nil_conv hd_dropWhile list.exhaust_sel)
  have "rev s = takeWhile (\<lambda>x. x \<noteq> c) (rev s) @ c # d"
    using d by (metis takeWhile_dropWhile_id)
  then have "s = rev d @ [c] @ rev (takeWhile (\<lambda>x. x \<noteq> c) (rev s))"
    by (metis append.assoc append_Cons append_Nil rev.simps(2) rev_append rev_rev_ident)
  with r c d show ?thesis
    by (auto simp: rpartition_on_def dest: set_takeWhileD)
qed

section \<open>Lists, options and dictionaries\<close>

text \<open>\<open>list(dict.fromkeys(xs))\<close>: the first occurrence of each element, in order.\<close>

fun fromkeys_from :: "'a list \<Rightarrow> 'a list \<Rightarrow> 'a list" where
  "fromkeys_from acc [] = acc"
| "fromkeys_from acc (x # xs) = fromkeys_from (if x \<in> set acc then acc else acc @ [x]) xs"

lemma set_fromkeys_from [simp]: "set (fromkeys_from acc xs) = set acc \<union> set xs"
  by (induction xs arbitrary: acc) auto

lemma distinct_fromkeys_from [simp]: "distinct acc \<Longrightarrow> distinct (fromkeys_from acc xs)"
  by (induction xs arbitrary: acc) auto

lemma fromkeys_from_fix: "distinct (acc @ xs) \<Longrightarrow> fromkeys_from acc xs = acc @ xs"
  by (induction xs arbitrary: acc) auto

text \<open>A dictionary: an association list with distinct keys, in insertion order.\<close>

type_synonym ('k, 'v) dict = "('k \<times> 'v) list"

abbreviation dget :: "('k, 'v) dict \<Rightarrow> 'k \<Rightarrow> 'v option" where
  "dget d k \<equiv> map_of d k"

abbreviation dkeys :: "('k, 'v) dict \<Rightarrow> 'k list" where
  "dkeys d \<equiv> map fst d"

fun dict_set :: "('k, 'v) dict \<Rightarrow> 'k \<Rightarrow> 'v \<Rightarrow> ('k, 'v) dict" where
  "dict_set [] k v = [(k, v)]"
| "dict_set ((k', v') # d) k v = (if k' = k then (k, v) # d else (k', v') # dict_set d k v)"

definition dict_pop :: "('k, 'v) dict \<Rightarrow> 'k \<Rightarrow> ('k, 'v) dict" where
  "dict_pop d k = filter (\<lambda>p. fst p \<noteq> k) d"

lemma dget_dict_set [simp]: "dget (dict_set d k v) k' = (if k' = k then Some v else dget d k')"
  by (induction d) auto

lemma dget_dict_pop [simp]: "dget (dict_pop d k) k' = (if k' = k then None else dget d k')"
  by (induction d) (auto simp: dict_pop_def)

lemma dkeys_dict_set:
  "dkeys (dict_set d k v) = (if k \<in> set (dkeys d) then dkeys d else dkeys d @ [k])"
  by (induction d) force+

lemma distinct_dict_set [simp]: "distinct (dkeys d) \<Longrightarrow> distinct (dkeys (dict_set d k v))"
  by (simp add: dkeys_dict_set)

lemma distinct_dict_pop [simp]: "distinct (dkeys d) \<Longrightarrow> distinct (dkeys (dict_pop d k))"
  by (induction d) (auto simp: dict_pop_def)

lemma dget_None_iff: "dget d k = None \<longleftrightarrow> k \<notin> set (dkeys d)"
  by (induction d) auto

text \<open>The result of the first element a check fails on: the shape of every validator that
  raises at the first offending item of a list.\<close>

lemma foldl_inv: "P a \<Longrightarrow> (\<And>a x. x \<in> set xs \<Longrightarrow> P a \<Longrightarrow> P (f a x)) \<Longrightarrow> P (foldl f a xs)"
  by (induction xs arbitrary: a) simp_all

fun first_error :: "('a \<Rightarrow> 'e option) \<Rightarrow> 'a list \<Rightarrow> 'e option" where
  "first_error f [] = None"
| "first_error f (x # xs) = (case f x of Some e \<Rightarrow> Some e | None \<Rightarrow> first_error f xs)"

lemma first_error_None_iff [simp]: "first_error f xs = None \<longleftrightarrow> (\<forall>x \<in> set xs. f x = None)"
  by (induction xs) (auto split: option.splits)

lemma first_error_SomeD: "first_error f xs = Some e \<Longrightarrow> \<exists>x \<in> set xs. f x = Some e"
  by (induction xs) (auto split: option.splits)

text \<open>Sequencing of fallible steps in the sum type.\<close>

definition ebind :: "'e + 'a \<Rightarrow> ('a \<Rightarrow> 'e + 'b) \<Rightarrow> 'e + 'b" where
  "ebind r f = (case r of Inl e \<Rightarrow> Inl e | Inr x \<Rightarrow> f x)"

lemma ebind_simps [simp]: "ebind (Inl e) f = Inl e" "ebind (Inr x) f = f x"
  by (simp_all add: ebind_def)

lemma ebind_Inr_iff: "ebind r f = Inr y \<longleftrightarrow> (\<exists>x. r = Inr x \<and> f x = Inr y)"
  by (cases r) simp_all

lemma ebind_Inl_iff: "ebind r f = Inl e \<longleftrightarrow> r = Inl e \<or> (\<exists>x. r = Inr x \<and> f x = Inl e)"
  by (cases r) simp_all


section \<open>Results\<close>

text \<open>Going on with a result, or passing its error on.\<close>

definition sbind :: "'e + 'a \<Rightarrow> ('a \<Rightarrow> 'e + 'b) \<Rightarrow> 'e + 'b" where
  "sbind r f = (case r of Inl e \<Rightarrow> Inl e | Inr x \<Rightarrow> f x)"

lemma sbind_simps [simp]: "sbind (Inl e) f = Inl e" "sbind (Inr x) f = f x"
  by (simp_all add: sbind_def)

lemma sbind_Inr_iff: "sbind r f = Inr y \<longleftrightarrow> (\<exists>x. r = Inr x \<and> f x = Inr y)"
  by (cases r) auto

end
