(* ===== verification/PyDate.thy ===== *)
theory PyDate
  imports Prelude "HOL-Library.List_Lexorder"
begin

text \<open>
  Calendar dates and times of day as the program uses them from Python's
  \<open>datetime\<close> module: construction checks, \<open>isoformat\<close>, \<open>date.fromisoformat\<close> and
  \<open>datetime.fromisoformat\<close> (Python 3.12).  Text is compared as Python compares
  \<open>str\<close>, lexicographically by code point (\<open>List_Lexorder\<close>).  The main facts are
  the round trips between dates and their ISO text and that the order of ISO
  texts is the order of the dates, which the metadata filters rely on.
\<close>

section \<open>Decimal text\<close>

text \<open>\<open>str(n)\<close> for a natural number, and the zero-padded form of width \<open>k\<close>.\<close>

fun dec :: "nat \<Rightarrow> str" where
  "dec n = (if n < 10 then [48 + n] else dec (n div 10) @ [48 + n mod 10])"

declare dec.simps [simp del]

fun pad :: "nat \<Rightarrow> nat \<Rightarrow> str" where
  "pad 0 n = []"
| "pad (Suc k) n = pad k (n div 10) @ [48 + n mod 10]"

fun digits_val :: "nat \<Rightarrow> str \<Rightarrow> nat option" where
  "digits_val acc [] = Some acc"
| "digits_val acc (c # cs) =
     (if ascii_digit c then digits_val (10 * acc + (c - 48)) cs else None)"

text \<open>The value of a run of ASCII digits, as \<open>int(s)\<close> reads it; no digits is an error.\<close>

definition parse_digits :: "str \<Rightarrow> nat option" where
  "parse_digits s = (if s = [] then None else digits_val 0 s)"

lemma length_pad [simp]: "length (pad k n) = k"
  by (induction k arbitrary: n) auto

lemma digits_val_append:
  "digits_val acc (s @ t) = (case digits_val acc s of None \<Rightarrow> None | Some a \<Rightarrow> digits_val a t)"
  by (induction s arbitrary: acc) auto

lemma digits_val_pad: "digits_val acc (pad k n) = Some (acc * 10 ^ k + n mod 10 ^ k)"
proof (induction k arbitrary: n)
  case 0
  then show ?case by simp
next
  case (Suc k)
  have "n mod 10 ^ Suc k = 10 * (n div 10 mod 10 ^ k) + n mod 10"
    by (simp add: mod_mult2_eq)
  with Suc show ?case
    by (simp add: digits_val_append ascii_digit_def algebra_simps)
qed

lemma parse_digits_pad: "0 < k \<Longrightarrow> n < 10 ^ k \<Longrightarrow> parse_digits (pad k n) = Some n"
  using length_pad [of k n] by (auto simp: parse_digits_def digits_val_pad simp del: length_pad)

lemma digits_val_bound: "digits_val acc s = Some n \<Longrightarrow> n < (acc + 1) * 10 ^ length s"
proof (induction s arbitrary: acc)
  case (Cons c cs)
  then have d: "ascii_digit c" "n < (10 * acc + (c - 48) + 1) * 10 ^ length cs"
    by (auto split: if_splits)
  have "(10 * acc + (c - 48) + 1) * 10 ^ length cs \<le> (10 * acc + 10) * 10 ^ length cs"
    using d(1) by (intro mult_le_mono1) (auto simp: ascii_digit_def)
  with d(2) show ?case by (simp add: algebra_simps)
qed simp

lemma pad_digits_val:
  "digits_val acc s = Some n \<Longrightarrow> pad (length s) n = s \<and> n div 10 ^ length s = acc"
proof (induction s arbitrary: n rule: rev_induct)
  case (snoc c s)
  then obtain a where a: "digits_val acc s = Some a" and c: "ascii_digit c"
      and n: "n = 10 * a + (c - 48)"
    by (auto simp: digits_val_append split: option.splits if_splits)
  from c obtain k where k: "c = 48 + k" "k < 10"
    by (auto simp: ascii_digit_def intro: that [of "c - 48"])
  then have r: "n mod 10 = k" "n div 10 = a"
    by (auto simp: n)
  from snoc.IH [OF a] r k show ?case
    by (simp add: div_mult2_eq)
qed simp

text \<open>\<open>str\<close> of an \<open>int\<close>.\<close>

definition int_str :: "int \<Rightarrow> str" where
  "int_str i = (if i < 0 then 45 # dec (nat (- i)) else dec (nat i))"

lemma dec_digits: "c \<in> set (dec n) \<Longrightarrow> ascii_digit c"
proof (induction n rule: dec.induct)
  case (1 n)
  then show ?case
    by (auto simp: ascii_digit_def dec.simps [of n] split: if_splits)
qed

lemma digits_val_dec: "digits_val 0 (dec n) = Some n"
proof (induction n rule: dec.induct)
  case (1 n)
  show ?case
  proof (cases "n < 10")
    case True
    then show ?thesis by (subst dec.simps) (simp add: ascii_digit_def)
  next
    case False
    with 1 show ?thesis by (subst dec.simps) (simp add: digits_val_append ascii_digit_def)
  qed
qed

lemma dec_inject [simp]: "dec m = dec n \<longleftrightarrow> m = n"
  by (metis digits_val_dec option.inject)

lemma dec_not_Nil [simp]: "dec n \<noteq> []"
  by (subst dec.simps) simp

section \<open>Dates\<close>

datatype date = Date (yr: nat) (mo: nat) (dy: nat)

definition leap :: "nat \<Rightarrow> bool" where
  "leap y \<longleftrightarrow> y mod 4 = 0 \<and> (y mod 100 \<noteq> 0 \<or> y mod 400 = 0)"

definition days_in_month :: "nat \<Rightarrow> nat \<Rightarrow> nat" where
  "days_in_month y m =
     (if m = 2 then (if leap y then 29 else 28)
      else if m \<in> {4, 6, 9, 11} then 30 else 31)"

text \<open>The range checks of the \<open>date\<close> constructor.\<close>

definition mk_date :: "nat \<Rightarrow> nat \<Rightarrow> nat \<Rightarrow> date option" where
  "mk_date y m d =
     (if 1 \<le> y \<and> y \<le> 9999 \<and> 1 \<le> m \<and> m \<le> 12 \<and> 1 \<le> d \<and> d \<le> days_in_month y m
      then Some (Date y m d) else None)"

definition valid_date :: "date \<Rightarrow> bool" where
  "valid_date d \<longleftrightarrow> mk_date (yr d) (mo d) (dy d) = Some d"

lemma mk_date_Some: "mk_date y m d = Some x \<Longrightarrow> x = Date y m d \<and> valid_date x"
  by (auto simp: mk_date_def valid_date_def split: if_splits)

lemma valid_date_bounds:
  "valid_date d \<Longrightarrow> 1 \<le> yr d \<and> yr d \<le> 9999 \<and> 1 \<le> mo d \<and> mo d \<le> 12 \<and> 1 \<le> dy d \<and> dy d \<le> 31"
  by (auto simp: valid_date_def mk_date_def days_in_month_def split: if_splits)

instantiation date :: linorder
begin
definition less_eq_date :: "date \<Rightarrow> date \<Rightarrow> bool" where
  "less_eq_date a b \<longleftrightarrow> [yr a, mo a, dy a] \<le> [yr b, mo b, dy b]"
definition less_date :: "date \<Rightarrow> date \<Rightarrow> bool" where
  "less_date a b \<longleftrightarrow> [yr a, mo a, dy a] < [yr b, mo b, dy b]"
instance
proof
  fix a b c :: date
  show "(a < b) = (a \<le> b \<and> \<not> b \<le> a)"
    unfolding less_eq_date_def less_date_def by (rule less_le_not_le)
  show "a \<le> a"
    unfolding less_eq_date_def by simp
  show "a \<le> b \<Longrightarrow> b \<le> c \<Longrightarrow> a \<le> c"
    unfolding less_eq_date_def by (rule order_trans)
  show "a \<le> b \<Longrightarrow> b \<le> a \<Longrightarrow> a = b"
    unfolding less_eq_date_def by (cases a; cases b) (auto dest: order_antisym)
  show "a \<le> b \<or> b \<le> a"
    unfolding less_eq_date_def by (rule linear)
qed
end

text \<open>\<open>date.isoformat\<close>.\<close>

definition date_iso :: "date \<Rightarrow> str" where
  "date_iso d = pad 4 (yr d) @ U ''-'' @ pad 2 (mo d) @ U ''-'' @ pad 2 (dy d)"

lemma length_date_iso [simp]: "length (date_iso d) = 10"
  by (simp add: date_iso_def)

text \<open>\<open>date.fromisocalendar\<close>: the Monday of week 1 as an ordinal, then the day of the year.\<close>

definition days_before_year :: "nat \<Rightarrow> nat" where
  "days_before_year y = (y - 1) * 365 + (y - 1) div 4 - (y - 1) div 100 + (y - 1) div 400"

fun day_of_year :: "nat \<Rightarrow> nat \<Rightarrow> nat \<Rightarrow> nat \<Rightarrow> date option" where
  "day_of_year 0 y m d = None"
| "day_of_year (Suc k) y m d =
     (if d \<le> days_in_month y m then mk_date y m d
      else day_of_year k y (Suc m) (d - days_in_month y m))"

definition date_of_ordinal :: "nat \<Rightarrow> nat \<Rightarrow> date option" where
  "date_of_ordinal y n =
     (if n \<le> days_before_year y then day_of_year 12 (y - 1) 1 (n - days_before_year (y - 1))
      else if n \<le> days_before_year (Suc y) then day_of_year 12 y 1 (n - days_before_year y)
      else day_of_year 12 (Suc y) 1 (n - days_before_year (Suc y)))"

definition iso_week_date :: "nat \<Rightarrow> nat \<Rightarrow> nat \<Rightarrow> date option" where
  "iso_week_date y w d =
     (let first = days_before_year y + 1; wd = (first + 6) mod 7;
          long = (first mod 7 = 4 \<or> first mod 7 = 3 \<and> leap y);
          monday = (if 3 < wd then first + 7 - wd else first - wd)
      in if 1 \<le> y \<and> y \<le> 9999 \<and> (1 \<le> w \<and> w \<le> 52 \<or> w = 53 \<and> long) \<and> 1 \<le> d \<and> d \<le> 7
         then date_of_ordinal y (monday + (w - 1) * 7 + (d - 1)) else None)"

text \<open>
  \<open>date.fromisoformat\<close> on a text of ten characters (its only use here):
  \<open>YYYY-MM-DD\<close> or \<open>YYYY-Www-D\<close>.
\<close>

definition date_fromiso10 :: "str \<Rightarrow> date option" where
  "date_fromiso10 s =
     (if length s \<noteq> 10 \<or> s ! 4 \<noteq> 45 then None
      else case parse_digits (take 4 s) of None \<Rightarrow> None | Some y \<Rightarrow>
        if s ! 5 = 87 then
          (if s ! 8 \<noteq> 45 then None
           else case (parse_digits (take 2 (drop 6 s)), parse_digits (drop 9 s)) of
             (Some w, Some d) \<Rightarrow> iso_week_date y w d | _ \<Rightarrow> None)
        else if s ! 7 \<noteq> 45 then None
        else case (parse_digits (take 2 (drop 5 s)), parse_digits (drop 8 s)) of
          (Some m, Some d) \<Rightarrow> mk_date y m d | _ \<Rightarrow> None)"

lemma pad_digit: "c \<in> set (pad k n) \<Longrightarrow> ascii_digit c"
  by (induction k arbitrary: n) (auto simp: ascii_digit_def)

lemma date_fromiso10_iso: "valid_date d \<Longrightarrow> date_fromiso10 (date_iso d) = Some d"
proof -
  assume v: "valid_date d"
  note b = valid_date_bounds [OF v]
  have y: "parse_digits (pad 4 (yr d)) = Some (yr d)"
    and m: "parse_digits (pad 2 (mo d)) = Some (mo d)"
    and dd: "parse_digits (pad 2 (dy d)) = Some (dy d)"
    using b by (intro parse_digits_pad; simp)+
  have s: "take 4 (date_iso d) = pad 4 (yr d)" "take 2 (drop 5 (date_iso d)) = pad 2 (mo d)"
    "drop 8 (date_iso d) = pad 2 (dy d)" "date_iso d ! 4 = 45" "date_iso d ! 7 = 45"
    by (simp_all add: date_iso_def U_def nth_append)
  have "date_iso d ! 5 = pad 2 (mo d) ! 0"
    by (simp add: date_iso_def U_def nth_append)
  then have "ascii_digit (date_iso d ! 5)"
    using pad_digit [of "pad 2 (mo d) ! 0" 2 "mo d"] by (simp add: nth_mem)
  then have "date_iso d ! 5 \<noteq> 87"
    by (auto simp: ascii_digit_def)
  with s y m dd v show ?thesis
    by (simp add: date_fromiso10_def valid_date_def)
qed

lemma date_fromiso10_dashed:
  assumes "date_fromiso10 s = Some d" and "s ! 4 = 45" and "s ! 7 = 45"
  shows "date_iso d = s \<and> valid_date d"
proof -
  from assms have len: "length s = 10" by (auto simp: date_fromiso10_def split: if_splits)
  have w: "s ! 5 \<noteq> 87"
  proof
    assume "s ! 5 = 87"
    with assms obtain w where "parse_digits (take 2 (drop 6 s)) = Some w"
      by (auto simp: date_fromiso10_def split: if_splits option.splits)
    then have "digits_val 0 [s ! 6, s ! 7] = Some w"
      using len by (auto simp: parse_digits_def take_Suc_conv_app_nth numeral_2_eq_2 nth_via_drop
            split: if_splits)
    with assms(3) show False
      by (auto simp: ascii_digit_def split: if_splits)
  qed
  with assms len obtain y m dd where p: "parse_digits (take 4 s) = Some y"
      "parse_digits (take 2 (drop 5 s)) = Some m" "parse_digits (drop 8 s) = Some dd"
      and mk: "mk_date y m dd = Some d"
    by (auto simp: date_fromiso10_def split: if_splits option.splits)
  have "pad 4 y = take 4 s" "pad 2 m = take 2 (drop 5 s)" "pad 2 dd = drop 8 s"
    using p len by (auto simp: parse_digits_def split: if_splits dest!: pad_digits_val)
  moreover have "s = take 4 s @ [s ! 4] @ take 2 (drop 5 s) @ [s ! 7] @ drop 8 s"
    using len by (intro nth_equalityI) (auto simp: nth_append less_Suc_eq numeral_eq_Suc)
  ultimately show ?thesis
    using mk_date_Some [OF mk] assms(2,3) by (auto simp: date_iso_def U_def)
qed

text \<open>The order of ISO texts is the order of the dates.\<close>

lemma pad_append_le:
  "m < 10 ^ k \<Longrightarrow> n < 10 ^ k \<Longrightarrow> pad k m @ s \<le> pad k n @ t \<longleftrightarrow> m < n \<or> m = n \<and> s \<le> t"
proof (induction k arbitrary: m n s t)
  case (Suc k)
  then have IH: "pad k (m div 10) @ (48 + m mod 10) # s \<le> pad k (n div 10) @ (48 + n mod 10) # t
      \<longleftrightarrow> m div 10 < n div 10 \<or> m div 10 = n div 10 \<and> (48 + m mod 10) # s \<le> (48 + n mod 10) # t"
    by (intro Suc.IH) auto
  have "m = n \<longleftrightarrow> m div 10 = n div 10 \<and> m mod 10 = n mod 10"
    by (metis div_mult_mod_eq)
  moreover have "m < n \<longleftrightarrow> m div 10 < n div 10 \<or> m div 10 = n div 10 \<and> m mod 10 < n mod 10"
    using div_mult_mod_eq [of m 10] div_mult_mod_eq [of n 10]
      mod_less_divisor [of 10 m] mod_less_divisor [of 10 n] by linarith
  ultimately show ?case using IH by auto
qed simp

lemma date_iso_le_iff:
  assumes "valid_date a" and "valid_date b"
  shows "date_iso a \<le> date_iso b \<longleftrightarrow> a \<le> b"
  using valid_date_bounds [OF assms(1)] valid_date_bounds [OF assms(2)]
    pad_append_le [of "dy a" 2 "dy b" "[]" "[]"]
  by (simp add: date_iso_def U_def pad_append_le less_eq_date_def)

lemma date_iso_inject:
  "valid_date a \<Longrightarrow> valid_date b \<Longrightarrow> date_iso a = date_iso b \<longleftrightarrow> a = b"
  by (metis date_fromiso10_iso option.inject)

section \<open>Times of day\<close>

text \<open>The parsers follow the library's own reference implementation, \<open>_pydatetime\<close>.\<close>

datatype ptime = Time (hr: nat) (mi: nat) (se: nat)

definition time_iso :: "ptime \<Rightarrow> str" where
  "time_iso t = pad 2 (hr t) @ U '':'' @ pad 2 (mi t) @ U '':'' @ pad 2 (se t)"

definition valid_time :: "ptime \<Rightarrow> bool" where
  "valid_time t \<longleftrightarrow> hr t < 24 \<and> mi t < 60 \<and> se t < 60"

text \<open>
  The component parser of \<open>fromisoformat\<close>: \<open>HH[:?MM[:?SS[.,]f+]]\<close>.  The fraction is
  checked and dropped, since every caller replaces the microsecond by 0.
\<close>

fun hms_parse :: "nat \<Rightarrow> bool \<Rightarrow> nat list \<Rightarrow> str \<Rightarrow> (nat list \<times> str) option" where
  "hms_parse 0 sep acc s = Some (acc, s)"
| "hms_parse (Suc k) sep acc s =
     (case parse_digits (take 2 s) of None \<Rightarrow> None
      | Some v \<Rightarrow>
         if length s < 2 then None
         else let rest = drop 2 s;
                  sep' = (if acc = [] then rest \<noteq> [] \<and> hd rest = 58 else sep)
              in if rest = [] \<or> k = 0 then Some (acc @ [v], rest)
                 else if sep' \<and> hd rest \<noteq> 58 then None
                 else hms_parse k sep' (acc @ [v]) (if sep' then tl rest else rest))"

definition hms :: "str \<Rightarrow> (nat \<times> nat \<times> nat) option" where
  "hms s = (case hms_parse 3 False [] s of None \<Rightarrow> None
     | Some (vs, rest) \<Rightarrow>
        if rest = [] \<or>
           (hd rest = 46 \<or> hd rest = 44) \<and> tl rest \<noteq> [] \<and> list_all ascii_digit (tl rest)
        then Some (vs ! 0, if 1 < length vs then vs ! 1 else 0, if 2 < length vs then vs ! 2 else 0)
        else None)"

text \<open>
  \<open>time.fromisoformat\<close>: the time and whether it carries a UTC offset.  The zone starts at
  the first \<open>-\<close>, else the first \<open>+\<close>, else the first \<open>Z\<close>; an offset is smaller than a day.
\<close>

definition zone_mark :: "str \<Rightarrow> cpoint option" where
  "zone_mark s = (if 45 \<in> set s then Some 45 else if 43 \<in> set s then Some 43
                  else if 90 \<in> set s then Some 90 else None)"

definition zone_ok :: "str \<Rightarrow> bool" where
  "zone_ok z \<longleftrightarrow> length z \<notin> {0, 1, 3} \<and>
     (case hms z of None \<Rightarrow> False | Some (h, m, s) \<Rightarrow> h * 3600 + m * 60 + s < 86400)"

definition time_fromiso :: "str \<Rightarrow> (ptime \<times> bool) option" where
  "time_fromiso s =
     (let (t, found, z) = (case zone_mark s of None \<Rightarrow> (s, False, []) | Some c \<Rightarrow> partition_on c s)
      in case hms t of None \<Rightarrow> None
         | Some (h, m, sec) \<Rightarrow>
            if h < 24 \<and> m < 60 \<and> sec < 60 \<and>
               (found \<longrightarrow> zone_mark s = Some 90 \<and> z = [] \<or> zone_ok z)
            then Some (Time h m sec, found) else None)"

text \<open>\<open>time.fromisoformat\<close> proper: one leading \<open>T\<close> is allowed.\<close>

definition time_fromiso_full :: "str \<Rightarrow> (ptime \<times> bool) option" where
  "time_fromiso_full s = time_fromiso (if s \<noteq> [] \<and> hd s = 84 then tl s else s)"

text \<open>
  \<open>datetime.fromisoformat\<close> on a text with a dash at positions 4 and 7 and one separator
  character at position 10.
\<close>

definition datetime_fromiso :: "str \<Rightarrow> (date \<times> ptime \<times> bool) option" where
  "datetime_fromiso s =
     (case date_fromiso10 (take 10 s) of None \<Rightarrow> None
      | Some d \<Rightarrow> if drop 11 s = [] then Some (d, Time 0 0 0, False)
          else (case time_fromiso (drop 11 s) of None \<Rightarrow> None | Some (t, tz) \<Rightarrow> Some (d, t, tz)))"

text \<open>\<open>datetime.strftime("%Y-%m-%dT%H:%M:%S")\<close>; the year has at least four digits here.\<close>

definition datetime_iso :: "date \<Rightarrow> ptime \<Rightarrow> str" where
  "datetime_iso d t = date_iso d @ U ''T'' @ time_iso t"

lemma length_time_iso [simp]: "length (time_iso t) = 8"
  by (simp add: time_iso_def)

lemma time_iso_chars: "c \<in> set (time_iso t) \<Longrightarrow> ascii_digit c \<or> c = 58"
  by (auto simp: time_iso_def U_def dest: pad_digit)

lemma zone_mark_time_iso: "zone_mark (time_iso t) = None"
  using time_iso_chars [of 45 t] time_iso_chars [of 43 t] time_iso_chars [of 90 t]
  by (auto simp: zone_mark_def ascii_digit_def)

lemma hms_time_iso: "valid_time t \<Longrightarrow> hms (time_iso t) = Some (hr t, mi t, se t)"
  by (simp add: hms_def numeral_3_eq_3 time_iso_def U_def parse_digits_pad valid_time_def)

lemma time_fromiso_iso: "valid_time t \<Longrightarrow> time_fromiso (time_iso t) = Some (t, False)"
  by (simp add: time_fromiso_def zone_mark_time_iso hms_time_iso) (simp add: valid_time_def)

lemma datetime_fromiso_iso:
  "valid_date d \<Longrightarrow> valid_time t \<Longrightarrow> datetime_fromiso (datetime_iso d t) = Some (d, t, False)"
  by (simp add: datetime_fromiso_def datetime_iso_def date_fromiso10_iso time_fromiso_iso length_0_conv [symmetric] del: length_0_conv)

end
