(* ===== verification/Naming.thy ===== *)
theory Naming
  imports PyDate
begin

text \<open>
  \<open>coppermind/naming.py\<close>: portable file and folder names.  Python's Unicode tables
  are the parameter \<open>unicode\<close>: NFC normalisation of a text, and the per-character
  \<open>casefold\<close> and \<open>upper\<close> (both are character by character in Python).  The lemmas show
  that every sanitised name is portable (no forbidden or control character, no dot or
  space at either end, at most 120 characters and 252 bytes), that the
  collision loop returns, and that what it returns is free.
\<close>

record unicode =
  nfc :: "str \<Rightarrow> str"
  fold1 :: "cpoint \<Rightarrow> str"
  upper1 :: "cpoint \<Rightarrow> str"

definition casefold :: "unicode \<Rightarrow> str \<Rightarrow> str" where
  "casefold uc s = concat (map (fold1 uc) s)"

definition upper :: "unicode \<Rightarrow> str \<Rightarrow> str" where
  "upper uc s = concat (map (upper1 uc) s)"

text \<open>The tables on ASCII text, used for concrete inputs.\<close>

definition ascii_unicode :: unicode where
  "ascii_unicode = \<lparr>nfc = (\<lambda>s. s),
     fold1 = (\<lambda>c. if 65 \<le> c \<and> c \<le> 90 then [c + 32] else [c]),
     upper1 = (\<lambda>c. if 97 \<le> c \<and> c \<le> 122 then [c - 32] else [c])\<rparr>"

text \<open>The number of bytes of a text's UTF-8 encoding.\<close>

definition utf8_width :: "cpoint \<Rightarrow> nat" where
  "utf8_width c = (if c < 128 then 1 else if c < 2048 then 2 else if c < 65536 then 3 else 4)"

definition utf8_len :: "str \<Rightarrow> nat" where
  "utf8_len s = sum_list (map utf8_width s)"

lemma utf8_len_Nil [simp]: "utf8_len [] = 0"
  by (simp add: utf8_len_def)

lemma utf8_len_append [simp]: "utf8_len (s @ t) = utf8_len s + utf8_len t"
  by (simp add: utf8_len_def)

lemma utf8_len_Cons [simp]: "utf8_len (c # s) = utf8_width c + utf8_len s"
  by (simp add: utf8_len_def)

lemma utf8_len_ge: "length s \<le> utf8_len s"
  by (induction s) (auto simp: utf8_width_def)

lemma utf8_len_ascii: "(\<forall>c \<in> set s. c < 128) \<Longrightarrow> utf8_len s = length s"
  by (induction s) (auto simp: utf8_width_def)

section \<open>The sanitiser\<close>

text \<open>
  \<open>_FORBIDDEN\<close>: the characters Windows forbids (less, greater, colon, double quote, slash,
  backslash, bar, question mark, star), and the control range.
\<close>

definition forbidden :: "cpoint \<Rightarrow> bool" where
  "forbidden c \<longleftrightarrow> c \<in> {60, 62, 58, 34, 47, 92, 124, 63, 42} \<or> c < 32"

definition reserved_names :: "str list" where
  "reserved_names = [U ''CON'', U ''PRN'', U ''AUX'', U ''NUL''] @
     map (\<lambda>n. U ''COM'' @ dec n) [1..<10] @ map (\<lambda>n. U ''LPT'' @ dec n) [1..<10]"

definition MAX_STEM_LENGTH :: int where
  "MAX_STEM_LENGTH = 120"

definition MAX_COMPONENT_BYTES :: int where
  "MAX_COMPONENT_BYTES = 255"

definition MAX_STEM_BYTES :: int where
  "MAX_STEM_BYTES = MAX_COMPONENT_BYTES - int (length (U ''.md''))"

definition dot_space :: "cpoint \<Rightarrow> bool" where
  "dot_space c \<longleftrightarrow> c = 46 \<or> c = 32"

text \<open>The loop of \<open>_fit\<close>: drop the last code point while the encoding is too long.\<close>

function trim_bytes :: "int \<Rightarrow> str \<Rightarrow> str" where
  "trim_bytes m s = (if s \<noteq> [] \<and> m < int (utf8_len s) then trim_bytes m (butlast s) else s)"
  by pat_completeness auto
termination
  by (relation "measure (\<lambda>(m, s). length s)") auto

declare trim_bytes.simps [simp del]

definition fit :: "str \<Rightarrow> int \<Rightarrow> int \<Rightarrow> str" where
  "fit stem max_chars max_bytes =
     (if max_chars \<le> 0 \<or> max_bytes \<le> 0 then []
      else let stem = (if max_chars < int (length stem) then take (nat max_chars) stem else stem);
               stem = trim_bytes max_bytes stem
           in strip (rstrip_by dot_space stem))"

text \<open>\<open>_WHITESPACE.sub(" ", s)\<close>: every run of whitespace becomes one space.\<close>

fun collapse_ws :: "str \<Rightarrow> str" where
  "collapse_ws [] = []"
| "collapse_ws (c # s) =
     (if py_space c then 32 # collapse_ws (dropWhile py_space s) else c # collapse_ws s)"

definition sanitize_stem :: "unicode \<Rightarrow> str \<Rightarrow> str \<Rightarrow> str" where
  "sanitize_stem uc val fallback =
     (let stem = nfc uc val;
          stem = map (\<lambda>c. if forbidden c then 32 else c) stem;
          stem = strip (collapse_ws stem);
          stem = strip (strip_by dot_space stem)
      in if stem = [] then fallback
         else let stem =
                (if upper uc stem \<in> set reserved_names \<or>
                    hd (split_on 46 (upper uc stem)) \<in> set reserved_names
                 then stem @ U '' (name)'' else stem);
                  stem = fit stem MAX_STEM_LENGTH MAX_STEM_BYTES
              in if stem = [] then fallback else stem)"

definition untitled :: str where
  "untitled = U ''Untitled''"

definition note_stem :: "unicode \<Rightarrow> str \<Rightarrow> date option \<Rightarrow> bool \<Rightarrow> str" where
  "note_stem uc title note_date dated =
     (let stem = sanitize_stem uc title untitled
      in case note_date of
           Some d \<Rightarrow>
             if dated then
               (let prefix = date_iso d @ U '' '';
                    fitted = fit stem (MAX_STEM_LENGTH - int (length prefix))
                                      (MAX_STEM_BYTES - int (utf8_len prefix));
                    stem = (if fitted = [] then untitled else fitted)
                in prefix @ stem)
             else stem
         | None \<Rightarrow> stem)"

text \<open>One candidate of the collision loop, \<open>stem (n)\<close> trimmed to fit.\<close>

definition tail_of :: "nat \<Rightarrow> str" where
  "tail_of n = U '' ('' @ dec n @ U '')''"

definition candidate :: "str \<Rightarrow> nat \<Rightarrow> str" where
  "candidate stem n =
     fit stem (MAX_STEM_LENGTH - int (length (tail_of n)))
              (MAX_STEM_BYTES - int (utf8_len (tail_of n))) @ tail_of n"

text \<open>The \<open>while True\<close> loop; a loop that never finds a free name is \<open>None\<close>.\<close>

partial_function (option) unique_from :: "unicode \<Rightarrow> str list \<Rightarrow> str \<Rightarrow> nat \<Rightarrow> str option" where
  "unique_from uc lowered stem suffix =
     (if casefold uc (candidate stem suffix) \<notin> set lowered then Some (candidate stem suffix)
      else unique_from uc lowered stem (Suc suffix))"

definition unique_stem :: "unicode \<Rightarrow> str \<Rightarrow> str list \<Rightarrow> str option" where
  "unique_stem uc stem taken =
     (let lowered = map (casefold uc) taken
      in if casefold uc stem \<notin> set lowered then Some stem
         else unique_from uc lowered stem 2)"

definition sanitize_folder :: "unicode \<Rightarrow> str \<Rightarrow> str" where
  "sanitize_folder uc val =
     (let segments = map (\<lambda>part. sanitize_stem uc part [])
            (split_on 47 (map (\<lambda>c. if c = 92 then 47 else c) val))
      in join (U ''/'')
           (filter (\<lambda>part. part \<noteq> [] \<and> part \<noteq> U ''.'' \<and> part \<noteq> U ''..'') segments))"

section \<open>Portability\<close>

definition portable :: "str \<Rightarrow> bool" where
  "portable s \<longleftrightarrow> s \<noteq> [] \<and> (\<forall>c \<in> set s. \<not> forbidden c \<and> (py_space c \<longrightarrow> c = 32)) \<and>
     trimmed_by dot_space s \<and>
     int (length s) \<le> MAX_STEM_LENGTH \<and> int (utf8_len s) \<le> MAX_STEM_BYTES"

lemmas naming_limits = MAX_STEM_LENGTH_def MAX_COMPONENT_BYTES_def MAX_STEM_BYTES_def

lemma trim_bytes_prefix: "\<exists>t. s = trim_bytes m s @ t"
proof (induction m s rule: trim_bytes.induct)
  case (1 m s)
  show ?case
  proof (cases "s \<noteq> [] \<and> m < int (utf8_len s)")
    case True
    with 1 obtain t where "butlast s = trim_bytes m (butlast s) @ t" by blast
    moreover have "s = butlast s @ [last s]" and "trim_bytes m s = trim_bytes m (butlast s)"
      using True by (simp_all add: trim_bytes.simps [of m s])
    ultimately have "s = trim_bytes m s @ t @ [last s]"
      by (metis append.assoc)
    then show ?thesis by blast
  next
    case False
    then have "trim_bytes m s = s" by (auto simp: trim_bytes.simps [of m s])
    then show ?thesis by simp
  qed
qed

lemma trim_bytes_len: "0 \<le> m \<Longrightarrow> int (utf8_len (trim_bytes m s)) \<le> m"
proof (induction m s rule: trim_bytes.induct)
  case (1 m s)
  then show ?case
    by (cases "s \<noteq> [] \<and> m < int (utf8_len s)") (auto simp: trim_bytes.simps [of m s])
qed

text \<open>\<open>_fit\<close> keeps a prefix, satisfies both budgets, and ends in neither dot nor space.\<close>

lemma strip_no_ws: "(\<forall>c \<in> set s. py_space c \<longrightarrow> c = 32) \<Longrightarrow> trimmed_by dot_space s \<Longrightarrow> strip s = s"
  unfolding strip_def by (rule strip_by_id) (auto simp: trimmed_by_def dot_space_def)

lemma utf8_len_prefix: "s = p @ t \<Longrightarrow> utf8_len p \<le> utf8_len s"
  by simp

lemma fit_rstrip:
  assumes "\<forall>c \<in> set stem. py_space c \<longrightarrow> c = 32" and "stem \<noteq> [] \<longrightarrow> \<not> dot_space (hd stem)"
  shows "\<exists>t. stem = fit stem mc mb @ t"
    and "trimmed_by dot_space (fit stem mc mb)"
    and "fit stem mc mb = [] \<or> int (length (fit stem mc mb)) \<le> mc \<and> int (utf8_len (fit stem mc mb)) \<le> mb"
proof -
  have "(\<exists>t. stem = fit stem mc mb @ t) \<and> trimmed_by dot_space (fit stem mc mb) \<and>
      (fit stem mc mb = [] \<or> int (length (fit stem mc mb)) \<le> mc \<and> int (utf8_len (fit stem mc mb)) \<le> mb)"
  proof (cases "mc \<le> 0 \<or> mb \<le> 0")
    case True
    then show ?thesis by (auto simp: fit_def trimmed_by_def)
  next
    case False
    define a where "a = (if mc < int (length stem) then take (nat mc) stem else stem)"
    define b where "b = trim_bytes mb a"
    define r where "r = rstrip_by dot_space b"
    obtain ta where ta: "stem = a @ ta"
      unfolding a_def by (metis append_Nil2 append_take_drop_id)
    obtain tb where tb: "a = b @ tb"
      using trim_bytes_prefix [of a mb] by (auto simp: b_def)
    obtain tr where tr: "b = r @ tr"
      using rstrip_by_prefix [of b dot_space] by (auto simp: r_def)
    have pre: "stem = r @ tr @ tb @ ta"
      using ta tb tr by simp
    have trim: "trimmed_by dot_space r"
      using assms(2) pre rstrip_by_last [of dot_space b]
      by (cases r) (auto simp: trimmed_by_def r_def)
    have "set r \<subseteq> set stem"
      using pre by auto
    then have "strip r = r"
      using assms(1) trim by (intro strip_no_ws) auto
    then have fit: "fit stem mc mb = r"
      using False by (simp add: fit_def a_def [symmetric] b_def [symmetric] r_def [symmetric])
    have "int (length a) \<le> mc"
      using False by (auto simp: a_def)
    then have "int (length r) \<le> mc"
      using tb tr by simp
    moreover have "int (utf8_len b) \<le> mb"
      using False trim_bytes_len [of mb a] by (simp add: b_def)
    then have "int (utf8_len r) \<le> mb"
      using utf8_len_prefix [OF tr] by linarith
    ultimately show ?thesis
      using fit pre trim by auto
  qed
  then show "\<exists>t. stem = fit stem mc mb @ t" and "trimmed_by dot_space (fit stem mc mb)"
    and "fit stem mc mb = [] \<or> int (length (fit stem mc mb)) \<le> mc \<and> int (utf8_len (fit stem mc mb)) \<le> mb"
    by blast+
qed


lemma collapse_ws_space: "c \<in> set (collapse_ws s) \<Longrightarrow> py_space c \<Longrightarrow> c = 32"
  by (induction s rule: collapse_ws.induct) (auto split: if_splits)

lemma set_collapse_ws: "set (collapse_ws s) \<subseteq> insert 32 (set s)"
  by (induction s rule: collapse_ws.induct) (auto dest: set_dropWhileD)

text \<open>The stem after the substitutions, before the device suffix and the fit.\<close>

definition clean_stem :: "unicode \<Rightarrow> str \<Rightarrow> str" where
  "clean_stem uc val = strip (strip_by dot_space
     (strip (collapse_ws (map (\<lambda>c. if forbidden c then 32 else c) (nfc uc val)))))"

lemma not_forbidden_space [simp]: "\<not> forbidden 32"
  by (simp add: forbidden_def)

lemma clean_stem_chars:
  assumes "c \<in> set (clean_stem uc val)"
  shows "\<not> forbidden c" and "py_space c \<longrightarrow> c = 32"
proof -
  let ?m = "map (\<lambda>c. if forbidden c then 32 else c) (nfc uc val)"
  have c: "c \<in> set (collapse_ws ?m)"
    using assms set_strip_by unfolding clean_stem_def strip_def by blast
  then show "py_space c \<longrightarrow> c = 32"
    by (blast dest: collapse_ws_space)
  from c have "c = 32 \<or> c \<in> set ?m"
    using set_collapse_ws by blast
  then show "\<not> forbidden c"
    by (auto split: if_splits)
qed

lemma clean_stem_trimmed: "trimmed_by dot_space (clean_stem uc val)"
proof -
  let ?s = "strip_by dot_space
     (strip (collapse_ws (map (\<lambda>c. if forbidden c then 32 else c) (nfc uc val))))"
  have "\<forall>c \<in> set ?s. py_space c \<longrightarrow> c = 32"
    using set_strip_by collapse_ws_space unfolding strip_def by blast
  then have "strip ?s = ?s"
    by (intro strip_no_ws strip_by_trimmed)
  then show ?thesis
    by (simp add: clean_stem_def strip_by_trimmed)
qed

lemma sanitize_stem_alt:
  "sanitize_stem uc val fallback =
     (let stem = clean_stem uc val
      in if stem = [] then fallback
         else let stem = fit (stem @
                (if upper uc stem \<in> set reserved_names \<or>
                    hd (split_on 46 (upper uc stem)) \<in> set reserved_names
                 then U '' (name)'' else [])) MAX_STEM_LENGTH MAX_STEM_BYTES
              in if stem = [] then fallback else stem)"
  by (simp add: sanitize_stem_def clean_stem_def Let_def)

text \<open>A sanitised val is the fallback or a portable name.\<close>

lemma sanitize_stem_cases:
  "sanitize_stem uc val fallback = fallback \<or> portable (sanitize_stem uc val fallback)"
proof -
  define stem where "stem = clean_stem uc val"
  define tail where "tail = (if upper uc stem \<in> set reserved_names \<or>
      hd (split_on 46 (upper uc stem)) \<in> set reserved_names then U '' (name)'' else [])"
  define r where "r = fit (stem @ tail) MAX_STEM_LENGTH MAX_STEM_BYTES"
  have res: "sanitize_stem uc val fallback = (if stem = [] \<or> r = [] then fallback else r)"
    by (simp add: sanitize_stem_alt Let_def stem_def [symmetric] tail_def [symmetric] r_def)
  show ?thesis
  proof (cases "stem = [] \<or> r = []")
    case True
    then show ?thesis by (simp add: res)
  next
    case False
    have tail: "\<forall>c \<in> set tail. \<not> forbidden c \<and> (py_space c \<longrightarrow> c = 32)"
      by (auto simp: tail_def U_def forbidden_def py_space_def)
    have ws: "\<forall>c \<in> set (stem @ tail). py_space c \<longrightarrow> c = 32"
      using tail clean_stem_chars(2) by (auto simp: stem_def)
    have hd: "stem @ tail \<noteq> [] \<longrightarrow> \<not> dot_space (hd (stem @ tail))"
      using False clean_stem_trimmed [of uc val] by (auto simp: stem_def trimmed_by_def)
    note f = fit_rstrip [OF ws hd, of MAX_STEM_LENGTH MAX_STEM_BYTES, folded r_def]
    from f(1) have "set r \<subseteq> set (stem @ tail)"
      by (metis set_append sup_ge1)
    then have "\<forall>c \<in> set r. \<not> forbidden c \<and> (py_space c \<longrightarrow> c = 32)"
      using tail clean_stem_chars by (auto simp: stem_def)
    with f False show ?thesis
      by (simp add: res portable_def)
  qed
qed

lemma portable_untitled: "portable untitled"
  by (simp add: portable_def untitled_def U_def forbidden_def trimmed_by_def dot_space_def
      naming_limits utf8_width_def py_space_def)

text \<open>Every name \<open>sanitize_stem\<close> gives is portable when its fallback is: it is not empty, holds no
  forbidden or control character and no whitespace but plain spaces, has neither a dot nor a space
  at either end, and fits both limits, 120 characters and the bytes left beside \<open>.md\<close>.\<close>

theorem sanitize_stem_portable:
  "portable fallback \<Longrightarrow> portable (sanitize_stem uc val fallback)"
  using sanitize_stem_cases by metis

theorem sanitize_stem_portable_witness:
  "portable (sanitize_stem ascii_unicode (U ''CON: notes/2026 '') untitled)"
  by (rule sanitize_stem_portable [OF portable_untitled])

lemma portable_no_space_but_blank:
  "sanitize_stem uc val fallback \<noteq> fallback \<Longrightarrow> portable (sanitize_stem uc val fallback)"
  using sanitize_stem_cases by metis

subsection \<open>Folders\<close>

lemma portable_no_slash: "portable s \<Longrightarrow> 47 \<notin> set s"
proof -
  have "forbidden 47" by (simp add: forbidden_def)
  then show "portable s \<Longrightarrow> 47 \<notin> set s" by (auto simp: portable_def)
qed

lemma portable_not_dots: "portable s \<Longrightarrow> s \<noteq> U ''.'' \<and> s \<noteq> U ''..''"
  by (cases "s = U ''.'' \<or> s = U ''..''") (auto simp: portable_def trimmed_by_def dot_space_def U_def)

lemma sanitize_folder_segments:
  assumes "sanitize_folder uc val \<noteq> []" and "seg \<in> set (split_on 47 (sanitize_folder uc val))"
  shows "portable seg"
proof -
  define segs where "segs = filter (\<lambda>part. part \<noteq> [] \<and> part \<noteq> U ''.'' \<and> part \<noteq> U ''..'')
      (map (\<lambda>part. sanitize_stem uc part [])
        (split_on 47 (map (\<lambda>c. if c = 92 then 47 else c) val)))"
  have f: "sanitize_folder uc val = join [47] segs"
    by (simp add: sanitize_folder_def segs_def Let_def U_def)
  have p: "\<forall>s \<in> set segs. portable s"
    using portable_no_space_but_blank by (auto simp: segs_def)
  have "segs \<noteq> []"
    using assms(1) f by auto
  then have "split_on 47 (sanitize_folder uc val) = segs"
    using p portable_no_slash by (auto simp: f intro!: split_on_join)
  with assms(2) p show ?thesis by simp
qed

subsection \<open>The collision loop\<close>

text \<open>What the tables must satisfy: Python's case folding fixes the characters of a suffix.\<close>

definition fold_plain :: "unicode \<Rightarrow> bool" where
  "fold_plain uc \<longleftrightarrow> (\<forall>c. ascii_digit c \<or> c \<in> {32, 40, 41} \<longrightarrow> fold1 uc c = [c])"

lemma casefold_append: "casefold uc (s @ t) = casefold uc s @ casefold uc t"
  by (simp add: casefold_def)

lemma casefold_dec: "fold_plain uc \<Longrightarrow> casefold uc (dec n) = dec n"
proof -
  assume "fold_plain uc"
  then have "\<forall>c \<in> set (dec n). fold1 uc c = [c]"
    using dec_digits by (auto simp: fold_plain_def)
  then have "concat (map (fold1 uc) (dec n)) = concat (map (\<lambda>c. [c]) (dec n))"
    by (metis (mono_tags, lifting) map_eq_conv)
  then show ?thesis by (simp add: casefold_def)
qed

lemma casefold_tail: "fold_plain uc \<Longrightarrow> casefold uc (tail_of n) = tail_of n"
  using casefold_dec [of uc n]
  by (simp add: tail_of_def casefold_append) (simp add: casefold_def U_def fold_plain_def)

lemma tail_of_inject: "s @ tail_of m = t @ tail_of n \<Longrightarrow> m = n"
proof -
  assume "s @ tail_of m = t @ tail_of n"
  then have "rev (s @ tail_of m) = rev (t @ tail_of n)" by simp
  then have "rev (dec m) @ 40 # 32 # rev s = rev (dec n) @ 40 # 32 # rev t"
    by (simp add: tail_of_def U_def)
  then have "takeWhile ascii_digit (rev (dec m) @ 40 # 32 # rev s) =
      takeWhile ascii_digit (rev (dec n) @ 40 # 32 # rev t)" by simp
  moreover have "takeWhile ascii_digit (rev (dec k) @ 40 # u) = rev (dec k)" for k u
    using dec_digits [of _ k] by (subst takeWhile_append2) (auto simp: ascii_digit_def [of 40])
  ultimately have "rev (dec m) = rev (dec n)"
    by simp
  then show ?thesis by simp
qed

lemma candidate_folds_differ:
  "fold_plain uc \<Longrightarrow> casefold uc (candidate stem m) = casefold uc (candidate stem n) \<Longrightarrow> m = n"
  by (auto simp: candidate_def casefold_append casefold_tail dest: tail_of_inject)

text \<open>Among \<open>length taken + 1\<close> consecutive suffixes one is free.\<close>

lemma free_suffix:
  assumes "fold_plain uc"
  shows "\<exists>k \<le> length lowered. casefold uc (candidate stem (2 + k)) \<notin> set lowered"
proof (rule ccontr)
  assume "\<not> ?thesis"
  then have sub: "(\<lambda>k. casefold uc (candidate stem (2 + k))) ` {..length lowered} \<subseteq> set lowered"
    by auto
  have "inj_on (\<lambda>k. casefold uc (candidate stem (2 + k))) {..length lowered}"
    using candidate_folds_differ [OF assms] by (fastforce intro: inj_onI)
  then have "card ((\<lambda>k. casefold uc (candidate stem (2 + k))) ` {..length lowered}) = Suc (length lowered)"
    by (simp add: card_image)
  moreover have "card ((\<lambda>k. casefold uc (candidate stem (2 + k))) ` {..length lowered}) \<le> length lowered"
    using card_mono [OF _ sub] card_length [of lowered] by simp
  ultimately show False by simp
qed

lemma unique_from_returns:
  "casefold uc (candidate stem (n + k)) \<notin> set lowered \<Longrightarrow>
     \<exists>r. unique_from uc lowered stem n = Some r \<and> casefold uc r \<notin> set lowered \<and>
         (\<exists>m \<le> n + k. n \<le> m \<and> r = candidate stem m)"
proof (induction k arbitrary: n)
  case 0
  then show ?case by (subst unique_from.simps) auto
next
  case (Suc k)
  show ?case
  proof (cases "casefold uc (candidate stem n) \<in> set lowered")
    case True
    from Suc.prems have "casefold uc (candidate stem (Suc n + k)) \<notin> set lowered" by simp
    from Suc.IH [OF this] obtain r m where "unique_from uc lowered stem (Suc n) = Some r"
      "casefold uc r \<notin> set lowered" "m \<le> Suc n + k" "Suc n \<le> m" "r = candidate stem m" by blast
    with True show ?thesis
      by (subst unique_from.simps) (auto intro!: exI [of _ m])
  next
    case False
    then show ?thesis by (subst unique_from.simps) (auto intro!: exI [of _ n])
  qed
qed

lemma unique_stem_total:
  assumes "fold_plain uc"
  shows "\<exists>r. unique_stem uc stem taken = Some r \<and>
     casefold uc r \<notin> set (map (casefold uc) taken) \<and>
     (r = stem \<or> (\<exists>m \<le> length taken + 2. 2 \<le> m \<and> r = candidate stem m))"
proof (cases "casefold uc stem \<in> set (map (casefold uc) taken)")
  case True
  obtain k where k: "k \<le> length taken"
      "casefold uc (candidate stem (2 + k)) \<notin> set (map (casefold uc) taken)"
    using free_suffix [OF assms, of "map (casefold uc) taken" stem] by auto
  from unique_from_returns [OF k(2)] True k(1) show ?thesis
    by (fastforce simp: unique_stem_def Let_def)
qed (auto simp: unique_stem_def Let_def)


section \<open>The properties of names\<close>

lemma date_iso_plain:
  "c \<in> set (date_iso d) \<Longrightarrow> \<not> forbidden c \<and> \<not> py_space c \<and> \<not> dot_space c \<and> c < 128"
proof -
  assume "c \<in> set (date_iso d)"
  then have "ascii_digit c \<or> c = 45"
    by (auto simp: date_iso_def U_def dest: pad_digit)
  then show ?thesis
    by (auto simp: forbidden_def py_space_def dot_space_def ascii_digit_def)
qed

text \<open>What follows the date: the fitted stem, or \<open>Untitled\<close> when nothing is left of it.\<close>

lemma fitted_stem:
  assumes "portable s" and "8 \<le> mc" and "8 \<le> mb" and "r = (if fit s mc mb = [] then untitled else fit s mc mb)"
  shows "r \<noteq> [] \<and> (\<forall>c \<in> set r. \<not> forbidden c \<and> (py_space c \<longrightarrow> c = 32)) \<and> \<not> dot_space (last r) \<and>
     int (length r) \<le> mc \<and> int (utf8_len r) \<le> mb"
proof (cases "fit s mc mb = []")
  case True
  have "utf8_len untitled = 8" "length untitled = 8"
    by (simp_all add: untitled_def U_def utf8_width_def)
  with True assms portable_untitled show ?thesis
    by (auto simp: portable_def trimmed_by_def)
next
  case False
  have "\<forall>c \<in> set s. py_space c \<longrightarrow> c = 32" "s \<noteq> [] \<longrightarrow> \<not> dot_space (hd s)"
    using assms(1) by (auto simp: portable_def trimmed_by_def)
  note f = fit_rstrip [OF this, of mc mb]
  from f(1) have "set (fit s mc mb) \<subseteq> set s"
    by (metis set_append sup_ge1)
  with f False assms show ?thesis
    by (auto simp: portable_def trimmed_by_def)
qed

lemma dated_stem_portable:
  assumes "portable s"
  shows "portable (date_iso day @ U '' '' @
     (if fit s 109 241 = [] then untitled else fit s 109 241))"
proof -
  define r where "r = (if fit s 109 241 = [] then untitled else fit s 109 241)"
  have r: "r \<noteq> []" "\<forall>c \<in> set r. \<not> forbidden c \<and> (py_space c \<longrightarrow> c = 32)" "\<not> dot_space (last r)"
      "int (length r) \<le> 109" "int (utf8_len r) \<le> 241"
    using fitted_stem [OF assms _ _ r_def] by auto
  have d: "date_iso day \<noteq> []" "utf8_len (date_iso day) = 10"
    using date_iso_plain [of _ day] utf8_len_ascii [of "date_iso day"]
    by (auto simp: length_0_conv [symmetric] simp del: length_0_conv)
  then have "\<not> dot_space (hd (date_iso day))"
    using date_iso_plain hd_in_set by blast
  with r d date_iso_plain [of _ day] show ?thesis
    unfolding r_def [symmetric] portable_def
    by (auto simp: trimmed_by_def naming_limits U_def utf8_width_def)
qed

lemma utf8_len_date_prefix: "utf8_len (date_iso day @ U '' '') = 11"
  using date_iso_plain [of _ day] utf8_len_ascii [of "date_iso day"] by (simp add: U_def utf8_width_def)

text \<open>The stem of a note is portable whatever the title, with or without the date in front.\<close>

theorem note_stem_portable: "portable (note_stem uc title d dated)"
proof -
  let ?s = "sanitize_stem uc title untitled"
  have s: "portable ?s"
    using sanitize_stem_cases [of uc title untitled] portable_untitled by metis
  show ?thesis
  proof (cases "d \<noteq> None \<and> dated")
    case False
    with s show ?thesis by (auto simp: note_stem_def Let_def split: option.splits)
  next
    case True
    then obtain day where "d = Some day" "dated" by blast
    then show ?thesis
      using dated_stem_portable [OF s, of day] utf8_len_date_prefix [of day]
      by (cases "fit ?s 109 241 = []") (simp_all add: note_stem_def Let_def naming_limits)
  qed
qed

text \<open>Every segment of a sanitised folder is a portable name, so no segment is empty, \<open>.\<close> or
  \<open>..\<close>: a folder never climbs out of the vault, whatever slashes, backslashes or dots it was
  asked for with.\<close>

theorem sanitize_folder_confined:
  "sanitize_folder uc val \<noteq> [] \<Longrightarrow>
     list_all (\<lambda>seg. portable seg \<and> seg \<noteq> U ''.'' \<and> seg \<noteq> U ''..'')
       (split_on 47 (sanitize_folder uc val))"
  using sanitize_folder_segments portable_not_dots by (simp only: list_all_iff) blast

lemma reserved_names_list:
  "reserved_names =
    [U ''CON'', U ''PRN'', U ''AUX'', U ''NUL'', U ''COM1'', U ''COM2'', U ''COM3'', U
     ''COM4'', U ''COM5'', U ''COM6'', U ''COM7'', U ''COM8'', U ''COM9'', U ''LPT1'', U
     ''LPT2'', U ''LPT3'', U ''LPT4'', U ''LPT5'', U ''LPT6'', U ''LPT7'', U ''LPT8'', U
     ''LPT9'']"
proof -
  have "[1..<10] = [1, 2, 3, 4, 5, 6, 7, 8, 9 :: nat]"
    by (simp add: upt_rec)
  then show ?thesis
    by (simp add: reserved_names_def U_def dec.simps del: upt_Suc)
qed

lemma folder_example: "sanitize_folder ascii_unicode (U ''../work'') = U ''work''"
  by (simp add: sanitize_folder_def sanitize_stem_def ascii_unicode_def U_def forbidden_def py_space_def
      strip_def strip_by_def lstrip_by_def rstrip_by_def dot_space_def upper_def reserved_names_list fit_def
      naming_limits trim_bytes.simps utf8_width_def Let_def)

theorem sanitize_folder_confined_witness:
  "sanitize_folder ascii_unicode (U ''../work'') = U ''work'' \<and>
   list_all (\<lambda>seg. portable seg \<and> seg \<noteq> U ''.'' \<and> seg \<noteq> U ''..'') (split_on 47 (U ''work''))"
  using sanitize_folder_confined [of ascii_unicode "U ''../work''"] by (simp add: folder_example)

text \<open>\<open>unique_stem\<close> returns, and what it returns folds to none of the names taken: the stem itself, or
  the stem with a number from 2 on, found within one more trial than there are names.\<close>

theorem unique_stem_free:
  "fold_plain uc \<Longrightarrow> \<exists>r. unique_stem uc stem taken = Some r \<and>
     casefold uc r \<notin> set (map (casefold uc) taken) \<and>
     (r = stem \<or> (\<exists>m \<le> length taken + 2. 2 \<le> m \<and> r = candidate stem m))"
  by (rule unique_stem_total)

lemma ascii_fold_plain: "fold_plain ascii_unicode"
  by (auto simp: fold_plain_def ascii_unicode_def ascii_digit_def)

theorem unique_stem_free_witness:
  "\<exists>r. unique_stem ascii_unicode (U ''Plan'') [U ''plan'', U ''PLAN (2)''] = Some r \<and>
     casefold ascii_unicode r \<notin> set (map (casefold ascii_unicode) [U ''plan'', U ''PLAN (2)''])"
  using unique_stem_free [OF ascii_fold_plain, of "U ''Plan''" "[U ''plan'', U ''PLAN (2)'']"] by blast

text \<open>
  The guard against device names looks at the part before the first dot, but the suffix
  goes to the end of the stem, so the name Windows reserves is still there.
\<close>

lemma reserved_name_remains:
  "sanitize_stem ascii_unicode (U ''con.notes'') [] = U ''con.notes (name)'' \<and>
   hd (split_on 46 (upper ascii_unicode (U ''con.notes (name)''))) \<in> set reserved_names"
proof
  show "sanitize_stem ascii_unicode (U ''con.notes'') [] = U ''con.notes (name)''"
    by (simp add: sanitize_stem_def ascii_unicode_def U_def forbidden_def py_space_def strip_def
        strip_by_def lstrip_by_def rstrip_by_def dot_space_def upper_def reserved_names_def fit_def
        naming_limits trim_bytes.simps utf8_width_def)
  show "hd (split_on 46 (upper ascii_unicode (U ''con.notes (name)''))) \<in> set reserved_names"
    by (simp add: ascii_unicode_def U_def upper_def reserved_names_def)
qed

end
