(* ===== verification/Values.thy ===== *)
theory Values
  imports PyDate
begin

text \<open>
  The values a note's frontmatter holds once its YAML is read: text, booleans, whole
  numbers, dates, date-and-times, lists and mappings.  Any other Python object (a
  float, a set, bytes) is \<open>POther\<close> with the number of its equality class, which is
  equal to nothing of another shape; floats with an integral value are left out.
\<close>

text \<open>
  The zone of a date-and-time: none, an offset that the YAML reader recorded beside a
  naive value (\<open>_yaml["tz"]\<close>), or a \<open>tzinfo\<close> with its offset from UTC in seconds.
\<close>

datatype zone = Naive | YamlZone | Aware int

datatype pyval =
    PNone
  | PBool bool
  | PInt int
  | PStr str
  | PDate date
  | PDateTime date ptime nat zone
  | PList "pyval list"
  | PMap "(str \<times> pyval) list"
  | POther nat

type_synonym fmap = "(str, pyval) dict"

text \<open>\<open>frontmatter.get(key)\<close>: the value, or \<open>None\<close>.\<close>

definition fget :: "fmap \<Rightarrow> str \<Rightarrow> pyval" where
  "fget fm k = (case dget fm k of None \<Rightarrow> PNone | Some v \<Rightarrow> v)"

definition fhas :: "fmap \<Rightarrow> str \<Rightarrow> bool" where
  "fhas fm k \<longleftrightarrow> dget fm k \<noteq> None"

fun is_str :: "pyval \<Rightarrow> bool" where
  "is_str (PStr s) = True"
| "is_str _ = False"

fun is_list :: "pyval \<Rightarrow> bool" where
  "is_list (PList vs) = True"
| "is_list _ = False"

fun is_bool :: "pyval \<Rightarrow> bool" where
  "is_bool (PBool b) = True"
| "is_bool _ = False"

text \<open>\<open>isinstance(value, int)\<close> holds of \<open>bool\<close> too.\<close>

fun is_int :: "pyval \<Rightarrow> bool" where
  "is_int (PInt i) = True"
| "is_int (PBool b) = True"
| "is_int _ = False"

fun the_list :: "pyval \<Rightarrow> pyval list" where
  "the_list (PList vs) = vs"
| "the_list _ = []"

text \<open>Lists and mappings have no hash: a set or a dict lookup of one raises \<open>TypeError\<close>.\<close>

fun hashable :: "pyval \<Rightarrow> bool" where
  "hashable (PList vs) = False"
| "hashable (PMap d) = False"
| "hashable _ = True"

text \<open>
  Python's \<open>==\<close>: \<open>True == 1\<close>, a \<open>date\<close> is never equal to a \<open>datetime\<close>, and mappings are
  equal whatever the order of their keys.
\<close>

fun py_eq :: "pyval \<Rightarrow> pyval \<Rightarrow> bool"
  and py_eq_list :: "pyval list \<Rightarrow> pyval list \<Rightarrow> bool"
  and py_eq_items :: "(str \<times> pyval) list \<Rightarrow> (str \<times> pyval) list \<Rightarrow> bool" where
  "py_eq (PBool a) (PInt i) = (of_bool a = i)"
| "py_eq (PInt i) (PBool a) = (of_bool a = i)"
| "py_eq (PList xs) (PList ys) = py_eq_list xs ys"
| "py_eq (PMap d) (PMap e) = (length d = length e \<and> py_eq_items d e)"
| "py_eq v w = (v = w)"
| "py_eq_list [] ys = (ys = [])"
| "py_eq_list (x # xs) ys = (case ys of [] \<Rightarrow> False | y # ys' \<Rightarrow> py_eq x y \<and> py_eq_list xs ys')"
| "py_eq_items [] e = True"
| "py_eq_items (p # d) e =
     ((case map_of e (fst p) of None \<Rightarrow> False | Some w \<Rightarrow> py_eq (snd p) w) \<and> py_eq_items d e)"

definition py_in :: "pyval \<Rightarrow> pyval list \<Rightarrow> bool" where
  "py_in v vs \<longleftrightarrow> list_ex (py_eq v) vs"

lemma py_eq_str [simp]: "py_eq (PStr s) v \<longleftrightarrow> v = PStr s" "py_eq v (PStr s) \<longleftrightarrow> v = PStr s"
  by (cases v; auto)+

lemma py_in_str [simp]: "py_in (PStr s) vs \<longleftrightarrow> PStr s \<in> set vs"
  by (auto simp: py_in_def list_ex_iff)

lemma fget_dict_set [simp]: "fget (dict_set fm k v) k' = (if k' = k then v else fget fm k')"
  by (simp add: fget_def)

lemma fget_dict_pop [simp]: "fget (dict_pop fm k) k' = (if k' = k then PNone else fget fm k')"
  by (simp add: fget_def)

lemma fhas_dict_set [simp]: "fhas (dict_set fm k v) k' \<longleftrightarrow> k' = k \<or> fhas fm k'"
  by (simp add: fhas_def)

lemma fget_absent: "\<not> fhas fm k \<Longrightarrow> fget fm k = PNone"
  by (simp add: fhas_def fget_def)

end
