(* ===== verification/Schema.thy ===== *)
theory Schema
  imports Values
begin

text \<open>
  \<open>coppermind/schema.py\<close>: the frontmatter schema, its validators, the checks a note's
  frontmatter must pass, tag normalisation and closed tags, and the reading of the
  \<open>date\<close> and legacy \<open>time\<close> properties.  A problem is the key it is about and a value of
  \<open>problem\<close>, one constructor per message template; a model validator's \<open>ValueError\<close> is
  a value of \<open>schema_error\<close>.
\<close>

section \<open>The schema\<close>

datatype key_kind = KString | KInt | KDate | KBool | KEnum | KList

record key_def =
  kd_name :: str
  kd_kind :: key_kind
  required :: bool
  default_val :: pyval
  vocabulary :: "str list"
  vocabulary_meanings :: "(str, str) dict"
  description :: str
  guidance :: str
  required_when :: "str option"
  required_when_values :: "str list"

text \<open>A \<open>KeyDefinition\<close> with the model's defaults.\<close>

definition key_def0 :: "str \<Rightarrow> key_def" where
  "key_def0 n = \<lparr>kd_name = n, kd_kind = KString, required = False, default_val = PNone,
     vocabulary = [], vocabulary_meanings = [], description = [], guidance = [],
     required_when = None, required_when_values = []\<rparr>"

datatype tag_mode = TagsOpen | TagsClosed

record schema =
  schema_version :: int
  sc_keys :: "key_def list"
  roles :: "(str, str) dict"
  tags :: "(str, str) dict"
  tag_aliases :: "(str, str) dict"
  sc_tag_mode :: tag_mode

datatype schema_error =
    StrayMeanings str "str list"
  | BadTags "str list"
  | AliasOfItself str
  | AliasListed str
  | AliasOfAlias str str
  | AliasUnlisted str str
  | MissingRoles "str list"
  | UnknownRoleKeys "(str \<times> str) list"

definition ROLE_NAMES :: "str list" where
  "ROLE_NAMES = [U ''id_key'', U ''date_key'', U ''type_key'', U ''context_key'',
     U ''account_key'', U ''reviewed_key'', U ''sources_key'', U ''tags_key'',
     U ''schema_version_key'']"

definition OPTIONAL_ROLES :: "(str, str) dict" where
  "OPTIONAL_ROLES = [(U ''kind_key'', U ''kind''), (U ''artifacts_key'', U ''artifacts'')]"

definition NOTE_KIND :: str where
  "NOTE_KIND = U ''note''"

definition ARTIFACT_KIND :: str where
  "ARTIFACT_KIND = U ''artifact''"

definition KINDS :: "str list" where
  "KINDS = [NOTE_KIND, ARTIFACT_KIND]"

text \<open>\<open>KEY_NAME_PATTERN\<close> and \<open>TAG_PATTERN\<close>, matched against the whole text.\<close>

definition ascii_alpha :: "cpoint \<Rightarrow> bool" where
  "ascii_alpha c \<longleftrightarrow> 65 \<le> c \<and> c \<le> 90 \<or> 97 \<le> c \<and> c \<le> 122"

definition key_name_ok :: "str \<Rightarrow> bool" where
  "key_name_ok s = (case s of [] \<Rightarrow> False
     | c # cs \<Rightarrow> (ascii_alpha c \<or> c = 95) \<and>
         list_all (\<lambda>x. ascii_alpha x \<or> ascii_digit x \<or> x = 95 \<or> x = 45) cs)"

definition tag_ok :: "str \<Rightarrow> bool" where
  "tag_ok s = (case s of [] \<Rightarrow> False
     | c # cs \<Rightarrow> \<not> py_space c \<and> c \<noteq> 44 \<and> c \<noteq> 35 \<and> list_all (\<lambda>x. \<not> py_space x \<and> x \<noteq> 44) cs)"

section \<open>Model validators\<close>

definition validate_meanings :: "key_def \<Rightarrow> schema_error option" where
  "validate_meanings kd =
     (let stray = filter (\<lambda>v. v \<notin> set (vocabulary kd)) (dkeys (vocabulary_meanings kd))
      in if stray \<noteq> [] then Some (StrayMeanings (kd_name kd) stray) else None)"

definition alias_error :: "schema \<Rightarrow> str \<times> str \<Rightarrow> schema_error option" where
  "alias_error sc p =
     (let (alias, canonical) = p
      in if alias = canonical then Some (AliasOfItself alias)
         else if alias \<in> set (dkeys (tags sc)) then Some (AliasListed alias)
         else if canonical \<in> set (dkeys (tag_aliases sc)) then Some (AliasOfAlias alias canonical)
         else if sc_tag_mode sc = TagsClosed \<and> canonical \<notin> set (dkeys (tags sc))
              then Some (AliasUnlisted alias canonical)
         else None)"

definition validate_tags :: "schema \<Rightarrow> schema_error option" where
  "validate_tags sc =
     (let bad = filter (\<lambda>t. \<not> tag_ok t) (dkeys (tags sc) @ dkeys (tag_aliases sc)) @
                filter (\<lambda>t. \<not> tag_ok t) (map snd (tag_aliases sc))
      in if bad \<noteq> [] then Some (BadTags bad) else first_error (alias_error sc) (tag_aliases sc))"

definition validate_roles :: "schema \<Rightarrow> schema_error option" where
  "validate_roles sc =
     (let missing = filter (\<lambda>r. dget (roles sc) r = None) ROLE_NAMES
      in if missing \<noteq> [] then Some (MissingRoles missing)
         else let unknown = filter (\<lambda>(r, k). k \<notin> set (map kd_name (sc_keys sc)))
                              (map (\<lambda>r. (r, the (dget (roles sc) r))) ROLE_NAMES)
              in if unknown \<noteq> [] then Some (UnknownRoleKeys unknown) else None)"

text \<open>Construction of the model: the key definitions first, then the two validators in order.\<close>

definition schema_errors :: "schema \<Rightarrow> schema_error option" where
  "schema_errors sc =
     (case first_error validate_meanings (sc_keys sc) of
        Some e \<Rightarrow> Some e
      | None \<Rightarrow> (case validate_tags sc of Some e \<Rightarrow> Some e | None \<Rightarrow> validate_roles sc))"

definition valid_schema :: "schema \<Rightarrow> bool" where
  "valid_schema sc \<longleftrightarrow> schema_errors sc = None"

text \<open>\<open>role\<close> raises \<open>KeyError\<close> for a role the schema does not hold; every role asked for is one of
  \<open>ROLE_NAMES\<close>, which a constructed schema holds.\<close>

definition role_opt :: "schema \<Rightarrow> str \<Rightarrow> str option" where
  "role_opt sc r = dget (roles sc) r"

definition role :: "schema \<Rightarrow> string \<Rightarrow> str" where
  "role sc r = the (role_opt sc (U r))"

definition optional_role :: "schema \<Rightarrow> string \<Rightarrow> str" where
  "optional_role sc r =
     (case dget (roles sc) (U r) of Some k \<Rightarrow> k | None \<Rightarrow> the (dget OPTIONAL_ROLES (U r)))"

section \<open>Dates and times in frontmatter\<close>

record note_time =
  present :: bool
  nt_valid :: bool
  date_value :: "date option"
  time_value :: "ptime option"
  has_offset :: bool

definition parse_date_value :: "pyval \<Rightarrow> date option" where
  "parse_date_value v =
     (case v of PDate d \<Rightarrow> Some d
      | PStr s \<Rightarrow> (let text = strip s in if length text \<noteq> 10 then None else date_fromiso10 text)
      | _ \<Rightarrow> None)"

text \<open>A run of exactly \<open>k\<close> digits at position \<open>i\<close>.\<close>

definition digits_at :: "str \<Rightarrow> nat \<Rightarrow> nat \<Rightarrow> bool" where
  "digits_at s i k \<longleftrightarrow> length (take k (drop i s)) = k \<and> list_all ascii_digit (take k (drop i s))"

text \<open>\<open>_LEGACY_TIME_PATTERN\<close> and \<open>_LOCAL_DATETIME_PREFIX\<close>.  Both are asked only of a text that
  \<open>fromisoformat\<close> accepted, whose digits are ASCII.\<close>

definition legacy_time_pattern :: "str \<Rightarrow> bool" where
  "legacy_time_pattern s \<longleftrightarrow>
     digits_at s 0 2 \<and> digits_at s 3 2 \<and> s ! 2 = 58 \<and>
     (length s = 5 \<or> length s = 8 \<and> s ! 5 = 58 \<and> digits_at s 6 2)"

definition local_datetime_prefix :: "str \<Rightarrow> bool" where
  "local_datetime_prefix s \<longleftrightarrow>
     digits_at s 0 4 \<and> digits_at s 5 2 \<and> digits_at s 8 2 \<and> length s > 10 \<and>
     s ! 4 = 45 \<and> s ! 7 = 45 \<and> s ! 10 \<in> {84, 116, 32} \<and> legacy_time_pattern (drop 11 s)"

definition no_time :: "bool \<Rightarrow> note_time" where
  "no_time p = \<lparr>present = p, nt_valid = False, date_value = None, time_value = None,
     has_offset = False\<rparr>"

definition parse_note_time :: "pyval \<Rightarrow> note_time" where
  "parse_note_time v =
     (case v of
        PNone \<Rightarrow> no_time False
      | PDateTime d t us z \<Rightarrow>
          \<lparr>present = True, nt_valid = (z = Naive), date_value = Some d, time_value = Some t,
           has_offset = (z \<noteq> Naive)\<rparr>
      | PDate d \<Rightarrow> \<lparr>present = True, nt_valid = True, date_value = Some d, time_value = None,
           has_offset = False\<rparr>
      | PStr s \<Rightarrow>
          (let text = strip s
           in if text = [] then no_time False
              else if length text = 10 \<and> text ! 4 = 45 \<and> text ! 7 = 45 then
                (let day = parse_date_value (PStr text)
                 in \<lparr>present = True, nt_valid = (day \<noteq> None), date_value = day, time_value = None,
                     has_offset = False\<rparr>)
              else if 10 < length text \<and> text ! 4 = 45 \<and> text ! 7 = 45 \<and> text ! 10 \<in> {84, 116, 32} then
                (case datetime_fromiso text of
                   None \<Rightarrow> no_time True
                 | Some (d, t, tz) \<Rightarrow>
                     if tz \<or> endswith text (U ''Z'') \<or> endswith text (U ''z'') then
                       \<lparr>present = True, nt_valid = False, date_value = Some d, time_value = Some t,
                        has_offset = True\<rparr>
                     else if \<not> local_datetime_prefix text then no_time True
                     else \<lparr>present = True, nt_valid = True, date_value = Some d, time_value = Some t,
                           has_offset = False\<rparr>)
              else
                (case time_fromiso_full text of
                   None \<Rightarrow> no_time True
                 | Some (t, tz) \<Rightarrow>
                     if tz \<or> endswith text (U ''Z'') \<or> endswith text (U ''z'') then
                       \<lparr>present = True, nt_valid = False, date_value = None, time_value = Some t,
                        has_offset = True\<rparr>
                     else if \<not> legacy_time_pattern text then no_time True
                     else \<lparr>present = True, nt_valid = True, date_value = None, time_value = Some t,
                           has_offset = False\<rparr>))
      | _ \<Rightarrow> no_time True)"

definition is_date_value :: "pyval \<Rightarrow> bool" where
  "is_date_value v = (let parsed = parse_note_time v in nt_valid parsed \<and> date_value parsed \<noteq> None)"

section \<open>Checking frontmatter\<close>

datatype problem =
    ExpectedList
  | ExpectedTextEntries
  | Required
  | RequiredWhen str "str list"
  | ExpectedBool
  | ExpectedInt
  | OffsetDate
  | ExpectedDate
  | ExpectedText
  | NotOneOf str "str list"
  | ArtifactNeverNote

text \<open>The non-blank text entries of a list, trimmed, without repeats, in order.\<close>

fun account_names :: "pyval list \<Rightarrow> str list \<Rightarrow> str list" where
  "account_names [] names = names"
| "account_names (PStr s # items) names =
     account_names items
       (if strip s \<noteq> [] \<and> strip s \<notin> set names then names @ [strip s] else names)"
| "account_names (_ # items) names = account_names items names"

definition account_list :: "pyval \<Rightarrow> str list" where
  "account_list v =
     account_names (case v of PStr s \<Rightarrow> [v] | PList items \<Rightarrow> items | _ \<Rightarrow> []) []"

text \<open>\<open>_requires\<close>: an empty \<open>required_when\<close> is no condition.\<close>

definition requires_now :: "key_def \<Rightarrow> fmap \<Rightarrow> bool" where
  "requires_now kd fm =
     (case required_when kd of
        None \<Rightarrow> False
      | Some other \<Rightarrow> other \<noteq> [] \<and>
          (case fget fm other of PStr s \<Rightarrow> s \<in> set (required_when_values kd) | _ \<Rightarrow> False))"

text \<open>\<open>datetime.isoformat\<close>, with the offset as a signed clock.\<close>

definition offset_text :: "int \<Rightarrow> str" where
  "offset_text secs =
     (let n = nat (abs secs)
      in (if secs < 0 then U ''-'' else U ''+'') @ pad 2 (n div 3600) @ U '':'' @ pad 2 (n div 60 mod 60) @
         (if n mod 60 = 0 then [] else U '':'' @ pad 2 (n mod 60)))"

definition datetime_text :: "date \<Rightarrow> ptime \<Rightarrow> nat \<Rightarrow> zone \<Rightarrow> str" where
  "datetime_text d t us z =
     datetime_iso d t @ (if us = 0 then [] else U ''.'' @ pad 6 us) @
     (case z of Aware secs \<Rightarrow> offset_text secs | _ \<Rightarrow> [])"

definition check_value :: "key_def \<Rightarrow> pyval \<Rightarrow> problem list" where
  "check_value kd v =
     (if kd_kind kd = KBool \<and> \<not> is_bool v then [ExpectedBool]
      else if kd_kind kd = KInt \<and> (is_bool v \<or> \<not> is_int v) then [ExpectedInt]
      else if kd_kind kd = KList \<and> \<not> is_list v then [ExpectedList]
      else if kd_kind kd = KDate \<and> has_offset (parse_note_time v) then [OffsetDate]
      else if kd_kind kd = KDate \<and> \<not> is_date_value v then [ExpectedDate]
      else if kd_kind kd = KString \<or> kd_kind kd = KEnum then
        (case (case v of PDateTime d t us z \<Rightarrow> PStr (datetime_text d t us z) | _ \<Rightarrow> v) of
           PStr s \<Rightarrow>
             if kd_kind kd = KEnum \<and> vocabulary kd \<noteq> [] \<and> s \<notin> set (vocabulary kd)
             then [NotOneOf s (vocabulary kd)] else []
         | _ \<Rightarrow> [ExpectedText])
      else [])"

definition kind_problem :: "schema \<Rightarrow> fmap \<Rightarrow> problem option" where
  "kind_problem sc fm =
     (let v = fget fm (optional_role sc ''kind_key'')
      in if v = PNone \<or> v = PStr NOTE_KIND then None
         else if v = PStr ARTIFACT_KIND then Some ArtifactNeverNote else None)"

text \<open>\<open>defaults\<close>: a dict built key by key, so the last definition of a name wins.\<close>

definition defaults :: "schema \<Rightarrow> fmap" where
  "defaults sc = foldl (\<lambda>out kd. if default_val kd \<noteq> PNone
       then dict_set out (kd_name kd) (default_val kd) else out) [] (sc_keys sc)"

definition date_satisfied_by_time :: "fmap \<Rightarrow> bool" where
  "date_satisfied_by_time fm \<longleftrightarrow> date_value (parse_note_time (fget fm (U ''time''))) \<noteq> None"

definition required_keys :: "schema \<Rightarrow> fmap \<Rightarrow> str list" where
  "required_keys sc fm =
     map kd_name (filter (\<lambda>kd. (required kd \<or> requires_now kd fm) \<and>
         \<not> (kd_name kd = role sc ''date_key'' \<and> date_satisfied_by_time fm)) (sc_keys sc))"

text \<open>What \<open>_problems\<close> appends for one key definition.\<close>

definition key_problems :: "schema \<Rightarrow> fmap \<Rightarrow> key_def \<Rightarrow> (str \<times> problem) list" where
  "key_problems sc fm kd =
     (let name = kd_name kd; here = fhas fm name; v = fget fm name;
          account = (name = role sc ''account_key'' \<and> here \<and> v \<noteq> PNone)
      in if account \<and> \<not> is_str v \<and> \<not> is_list v then [(name, ExpectedList)]
         else if account \<and> \<not> list_all is_str (if is_str v then [v] else the_list v)
              then [(name, ExpectedTextEntries)]
         else if account \<and> account_list v \<noteq> [] then []
         else let here = (here \<and> \<not> account); v = (if account then PNone else v)
              in if required kd \<and> (\<not> here \<or> v = PNone) then
                   (if name = role sc ''date_key'' \<and> date_satisfied_by_time fm then []
                    else [(name, Required)])
                 else if \<not> here \<or> v = PNone then
                   (if required_when kd \<noteq> None \<and> required_when kd \<noteq> Some [] \<and> requires_now kd fm
                    then [(name, RequiredWhen (the (required_when kd)) (required_when_values kd))]
                    else [])
                 else map (Pair name) (check_value kd v))"

definition problems :: "schema \<Rightarrow> fmap \<Rightarrow> (str \<times> problem) list" where
  "problems sc fm =
     concat (map (key_problems sc fm) (sc_keys sc)) @
     (case kind_problem sc fm of None \<Rightarrow> []
      | Some p \<Rightarrow> [(optional_role sc ''kind_key'', p)])"

definition validate_frontmatter :: "schema \<Rightarrow> fmap \<Rightarrow> problem list" where
  "validate_frontmatter sc fm = map snd (problems sc fm)"

definition invalid_keys :: "schema \<Rightarrow> fmap \<Rightarrow> str list" where
  "invalid_keys sc fm = sort (remdups (map fst (problems sc fm)))"

datatype edit_problem =
    DefinedTwice str
  | EnumWithoutValues str
  | ValuesNotApplicable str
  | WhenValuesWithoutKey str
  | RequiredBySelf str
  | RequiredByUnknown str str
  | RequiredWhenNoValues str

definition edit_problems_of :: "str list \<Rightarrow> key_def \<Rightarrow> edit_problem list" where
  "edit_problems_of names kd =
     (let name = kd_name kd
      in (if kd_kind kd = KEnum \<and> vocabulary kd = [] then [EnumWithoutValues name] else []) @
         (if vocabulary kd \<noteq> [] \<and> kd_kind kd \<noteq> KEnum \<and> kd_kind kd \<noteq> KString
          then [ValuesNotApplicable name] else []) @
         (case required_when kd of
            None \<Rightarrow> if required_when_values kd \<noteq> [] then [WhenValuesWithoutKey name] else []
          | Some w \<Rightarrow>
              (if w = name then [RequiredBySelf name]
               else if w \<notin> set names then [RequiredByUnknown name w] else []) @
              (if required_when_values kd = [] then [RequiredWhenNoValues name] else [])))"

definition edit_problems :: "schema \<Rightarrow> edit_problem list" where
  "edit_problems sc =
     (let names = map kd_name (sc_keys sc)
      in map DefinedTwice (filter (\<lambda>n. 1 < count_list names n) (sort (remdups names))) @
         concat (map (edit_problems_of names) (sc_keys sc)))"

section \<open>Tags\<close>

definition canonical_tag :: "schema \<Rightarrow> pyval \<Rightarrow> pyval" where
  "canonical_tag sc v =
     (case v of PStr s \<Rightarrow> PStr (case dget (tag_aliases sc) s of Some c \<Rightarrow> c | None \<Rightarrow> s) | _ \<Rightarrow> v)"

fun normalize_from :: "schema \<Rightarrow> pyval list \<Rightarrow> pyval list \<Rightarrow> pyval list" where
  "normalize_from sc [] normalized = normalized"
| "normalize_from sc (v # vs) normalized =
     normalize_from sc vs
       (if py_in (canonical_tag sc v) normalized then normalized
        else normalized @ [canonical_tag sc v])"

definition normalize_tags :: "schema \<Rightarrow> pyval list \<Rightarrow> pyval list" where
  "normalize_tags sc vs = normalize_from sc vs []"

datatype tag_outcome = TagTypeError | TagProblems "pyval list"

text \<open>
  \<open>tag_problems\<close>: the tags refused, or the \<open>TypeError\<close> Python raises when it hashes a list
  or a mapping standing as a tag.
\<close>

definition tag_listed :: "schema \<Rightarrow> pyval \<Rightarrow> bool" where
  "tag_listed sc v = (case v of PStr s \<Rightarrow> s \<in> set (dkeys (tags sc)) | _ \<Rightarrow> False)"

definition tag_problems :: "schema \<Rightarrow> fmap \<Rightarrow> fmap option \<Rightarrow> tag_outcome" where
  "tag_problems sc fm current =
     (if sc_tag_mode sc \<noteq> TagsClosed then TagProblems []
      else case fget fm (role sc ''tags_key'') of
        PList vs \<Rightarrow>
          (let carried = (case current of None \<Rightarrow> PNone
                          | Some cur \<Rightarrow> if cur = [] then PNone else fget cur (role sc ''tags_key''));
               already = map (canonical_tag sc) (the_list carried);
               wanted = normalize_tags sc vs
           in if \<not> list_all hashable already \<or> \<not> list_all hashable wanted then TagTypeError
              else TagProblems (filter (\<lambda>t. \<not> tag_listed sc t \<and> \<not> py_in t already) wanted))
      | _ \<Rightarrow> TagProblems [])"

definition aliases_of :: "schema \<Rightarrow> str \<Rightarrow> str list" where
  "aliases_of sc tag = map fst (filter (\<lambda>p. snd p = tag) (tag_aliases sc))"

section \<open>The note's day and start time\<close>

definition note_date :: "fmap \<Rightarrow> schema \<Rightarrow> date option" where
  "note_date fm sc =
     (let explicit = parse_note_time (fget fm (role sc ''date_key''))
      in if nt_valid explicit \<and> date_value explicit \<noteq> None then date_value explicit
         else let parsed = parse_note_time (fget fm (U ''time''))
              in if nt_valid parsed then date_value parsed else None)"

definition note_date_mismatch :: "fmap \<Rightarrow> schema \<Rightarrow> (date \<times> date) option" where
  "note_date_mismatch fm sc =
     (let parsed = parse_note_time (fget fm (U ''time''));
          explicit = parse_note_time (fget fm (role sc ''date_key''))
      in if nt_valid parsed \<and> nt_valid explicit then
           (case (date_value explicit, date_value parsed) of
              (Some e, Some p) \<Rightarrow> if e \<noteq> p then Some (e, p) else None
            | _ \<Rightarrow> None)
         else None)"

definition note_start_time :: "fmap \<Rightarrow> schema \<Rightarrow> ptime option" where
  "note_start_time fm sc =
     (let explicit = parse_note_time (fget fm (role sc ''date_key''))
      in if nt_valid explicit \<and> date_value explicit \<noteq> None \<and> time_value explicit \<noteq> None
         then time_value explicit
         else let legacy = parse_note_time (fget fm (U ''time''))
              in if nt_valid legacy then time_value legacy else None)"

datatype date_problem = DateHasOffset str | NotAValidDate | TimeHasOffset

definition date_field_problem :: "fmap \<Rightarrow> schema \<Rightarrow> date_problem option" where
  "date_field_problem fm sc =
     (let date_key = role sc ''date_key''; raw = fget fm date_key; parsed = parse_note_time raw;
          given = (raw \<noteq> PNone \<and> (case raw of PStr s \<Rightarrow> strip s \<noteq> [] | _ \<Rightarrow> True))
      in if given \<and> has_offset parsed then Some (DateHasOffset date_key)
         else if given \<and> (\<not> nt_valid parsed \<or> date_value parsed = None) then Some NotAValidDate
         else if has_offset (parse_note_time (fget fm (U ''time''))) then Some TimeHasOffset
         else None)"

definition format_note_time :: "date \<Rightarrow> ptime \<Rightarrow> str" where
  "format_note_time d t = datetime_iso d t"

text \<open>\<open>py_str\<close> is the text Python's \<open>str\<close> gives an object that is not a text.\<close>

definition normalize_note_time :: "(pyval \<Rightarrow> str) \<Rightarrow> pyval \<Rightarrow> date option \<Rightarrow> str" where
  "normalize_note_time py_str v fallback_date =
     (let parsed = parse_note_time v;
          text = (case v of PStr s \<Rightarrow> s | _ \<Rightarrow> py_str v)
      in if \<not> nt_valid parsed then (if v = PNone then [] else strip text)
         else let day = (case date_value parsed of Some d \<Rightarrow> Some d | None \<Rightarrow> fallback_date);
                  clock = (case time_value parsed of Some t \<Rightarrow> t | None \<Rightarrow> Time 0 0 0)
              in if day \<noteq> None \<and> (date_value parsed \<noteq> None \<or> time_value parsed \<noteq> None)
                 then datetime_iso (the day) clock
                 else case time_value parsed of Some t \<Rightarrow> time_iso t | None \<Rightarrow> strip text)"

definition field_suggestion_changes ::
  "(pyval \<Rightarrow> str) \<Rightarrow> fmap \<Rightarrow> schema \<Rightarrow> str \<Rightarrow> pyval \<Rightarrow> fmap \<times> str list" where
  "field_suggestion_changes py_str fm sc field v =
     (let date_key = role sc ''date_key''; account_key = role sc ''account_key''
      in if field = date_key \<or> field = U ''time'' then
           (let parsed = parse_note_time v;
                written = (if nt_valid parsed \<and> time_value parsed \<noteq> None
                           then PStr (normalize_note_time py_str v (note_date fm sc)) else v)
            in ([(date_key, written)], [U ''time'', U ''timezone'']))
         else if field = account_key then
           (let names = account_list (fget fm account_key);
                names = names @ filter (\<lambda>n. n \<notin> set names) (account_list v)
            in ([(account_key, PList (map PStr names))], []))
         else ([(field, v)], []))"

end
