(* ===== verification/SchemaShipped.thy ===== *)
theory SchemaShipped
  imports Schema
begin

text \<open>
  The schema a fresh install runs with and the definitions an upgrade replaces
  (\<open>coppermind/schema.py\<close>: \<open>default_schema\<close>, \<open>kind_key_definition\<close>,
  \<open>artifacts_key_definition\<close>, \<open>shipped_key_upgrades\<close>), with the facts that every shipped
  value passes the checks the code runs on it.
\<close>

definition REFERENCE_TAG :: str where
  "REFERENCE_TAG = U ''reference''"

definition REFERENCE_TAG_MEANING :: str where
  "REFERENCE_TAG_MEANING =
     U ''Reference material: a how-to you wrote, an upgrade deck, a paper. A note or an '' @
     U ''artifact can carry it; it changes nothing about storage or filing.''"

definition kind_key_definition :: key_def where
  "kind_key_definition = (key_def0 (the (dget OPTIONAL_ROLES (U ''kind_key''))))
     \<lparr>kd_kind := KEnum, required := False, default_val := PStr NOTE_KIND, vocabulary := KINDS,
      vocabulary_meanings :=
        [(NOTE_KIND, U ''Something you wrote, by hand or through a recorder: editable Markdown.''),
         (ARTIFACT_KIND,
          U ''A static file or link stored byte for byte through POST /v1/artifacts. '' @
          U ''Never a note; a note cites it.'')],
      description := U ''What kind of thing this file is. Notes are always note.''\<rparr>"

definition artifacts_key_definition :: key_def where
  "artifacts_key_definition = (key_def0 (the (dget OPTIONAL_ROLES (U ''artifacts_key''))))
     \<lparr>kd_kind := KList, required := False,
      description := U ''Identifiers of the artifacts this note cites.''\<rparr>"

definition default_schema :: schema where
  "default_schema = \<lparr>
     schema_version = 1,
     sc_keys = [
       (key_def0 (U ''schema_version''))\<lparr>kd_kind := KInt, required := True, default_val := PInt 1,
         description := U ''Note file format version.''\<rparr>,
       (key_def0 (U ''id''))\<lparr>kd_kind := KString, required := True,
         description := U ''Permanent identifier. Never edit this by hand.''\<rparr>,
       (key_def0 (U ''date''))\<lparr>kd_kind := KDate, required := False,
         description := U ''Note date, YYYY-MM-DD, or date and local start time, '' @
           U ''YYYY-MM-DDTHH:MM:SS with no UTC offset.''\<rparr>,
       (key_def0 (U ''type''))\<lparr>kd_kind := KEnum, required := True,
         default_val := PStr (U ''reference''),
         vocabulary := [U ''work'', U ''personal'', U ''reference'', U ''journal''],
         description := U ''What the note is.''\<rparr>,
       (key_def0 (U ''context''))\<lparr>kd_kind := KEnum, required := True,
         default_val := PStr (U ''internal''),
         vocabulary := [U ''internal'', U ''external'', U ''personal''],
         description := U ''Where the note files.''\<rparr>,
       (key_def0 (U ''account''))\<lparr>kd_kind := KList, required := False,
         required_when := Some (U ''context''), required_when_values := [U ''external''],
         description := U ''Customer names, a list. A plain name is read as a one-item list. '' @
           U ''Needs at least one entry when context is external.''\<rparr>,
       (key_def0 (U ''reviewed''))\<lparr>kd_kind := KBool, required := True, default_val := PBool False,
         description :=
           U ''Set to true on a device when the note has been read and corrected.''\<rparr>,
       (key_def0 (U ''sources''))\<lparr>kd_kind := KList, required := True, default_val := PList [],
         description := U ''Identifiers of the source bundles this note came from.''\<rparr>,
       (key_def0 (U ''tags''))\<lparr>kd_kind := KList, required := False, default_val := PList [],
         description := U ''Free tags. `reference` marks reference material of either kind.''\<rparr>,
       kind_key_definition,
       artifacts_key_definition],
     roles = [
       (U ''schema_version_key'', U ''schema_version''), (U ''id_key'', U ''id''),
       (U ''date_key'', U ''date''), (U ''type_key'', U ''type''),
       (U ''context_key'', U ''context''), (U ''account_key'', U ''account''),
       (U ''reviewed_key'', U ''reviewed''), (U ''sources_key'', U ''sources''),
       (U ''tags_key'', U ''tags'')] @ OPTIONAL_ROLES,
     tags = [(REFERENCE_TAG, REFERENCE_TAG_MEANING)],
     tag_aliases = [],
     sc_tag_mode = TagsOpen\<rparr>"

text \<open>\<open>shipped[name]\<close>: the shipped definition of a key.\<close>

definition shipped_key :: "string \<Rightarrow> key_def" where
  "shipped_key n = hd (filter (\<lambda>kd. kd_name kd = U n) (sc_keys default_schema))"

definition shipped_key_upgrades :: "(str, key_def list \<times> key_def option) dict" where
  "shipped_key_upgrades = [
     (U ''account'',
      [(key_def0 (U ''account''))\<lparr>kd_kind := KString, required := False,
         required_when := Some (U ''context''), required_when_values := [U ''external''],
         description := U ''Customer name. Required when context is external.''\<rparr>],
      Some (shipped_key ''account'')),
     (U ''date'',
      [(key_def0 (U ''date''))\<lparr>kd_kind := KDate, required := False,
         description :=
           U ''Optional note date (YYYY-MM-DD); derived from time when omitted.''\<rparr>],
      Some (shipped_key ''date'')),
     (U ''time'',
      [(key_def0 (U ''time''))\<lparr>kd_kind := KString,
         description := U ''Local meeting start time, HH:MM''\<rparr>,
       (key_def0 (U ''time''))\<lparr>kd_kind := KString,
         description := U ''Note date and local start time, YYYY-MM-DDTHH:MM:SS''\<rparr>],
      Some ((key_def0 (U ''time''))\<lparr>kd_kind := KString,
        description := U ''Legacy start time, HH:MM or a full datetime. Read only when a note '' @
          U ''has no usable date; date is the one field for a note's date and start time.''\<rparr>)),
     (U ''timezone'',
      [(key_def0 (U ''timezone''))\<lparr>kd_kind := KString,
         description := U ''Meeting timezone, for example America/Chicago''\<rparr>],
      None)]"

lemmas shipped_defs = default_schema_def kind_key_definition_def artifacts_key_definition_def
  key_def0_def OPTIONAL_ROLES_def KINDS_def NOTE_KIND_def ARTIFACT_KIND_def REFERENCE_TAG_def

lemma default_schema_sel [simp]:
  "tags default_schema = [(REFERENCE_TAG, REFERENCE_TAG_MEANING)]"
  "tag_aliases default_schema = []" "sc_tag_mode default_schema = TagsOpen"
  "role default_schema ''date_key'' = U ''date''" "role default_schema ''id_key'' = U ''id''"
  "role default_schema ''type_key'' = U ''type''" "role default_schema ''tags_key'' = U ''tags''"
  "role default_schema ''account_key'' = U ''account''"
  "role default_schema ''reviewed_key'' = U ''reviewed''"
  "role default_schema ''sources_key'' = U ''sources''"
  "optional_role default_schema ''kind_key'' = U ''kind''"
  "optional_role default_schema ''artifacts_key'' = U ''artifacts''"
  by (simp_all add: default_schema_def role_def role_opt_def optional_role_def OPTIONAL_ROLES_def)

lemma default_schema_valid: "valid_schema default_schema"
proof -
  have "tag_ok REFERENCE_TAG"
    by (simp add: tag_ok_def REFERENCE_TAG_def U_def py_space_def)
  then show ?thesis
    by (simp add: valid_schema_def schema_errors_def validate_meanings_def validate_tags_def
        validate_roles_def shipped_defs ROLE_NAMES_def)
qed

lemma count_list_distinct_le: "distinct xs \<Longrightarrow> \<not> 1 < count_list xs x"
  by (induction xs) (auto simp: count_list_0_iff)

lemma edit_problems_distinct:
  "distinct (map kd_name (sc_keys sc)) \<Longrightarrow>
     edit_problems sc = concat (map (edit_problems_of (map kd_name (sc_keys sc))) (sc_keys sc))"
  using count_list_distinct_le [of "map kd_name (sc_keys sc)"]
  by (auto simp: edit_problems_def Let_def filter_empty_conv)

lemma default_schema_editable: "edit_problems default_schema = []"
proof -
  have "distinct (map kd_name (sc_keys default_schema))"
    by (simp add: shipped_defs)
  then show ?thesis
    by (simp add: edit_problems_distinct) (simp add: edit_problems_of_def shipped_defs)
qed


end
