(* ===== verification/SchemaLaws.thy ===== *)
theory SchemaLaws
  imports SchemaShipped
begin

text \<open>
  What the schema module guarantees: account lists are trimmed and free of repeats,
  tag normalisation is canonical and idempotent, closed tags never refuse a tag the
  note already carries, the two readings of "required" agree, unknown keys change
  nothing, and the date and time texts round-trip.
\<close>

section \<open>Accounts\<close>

text \<open>A name worth keeping: not blank, nothing to trim.\<close>

definition clean_name :: "str \<Rightarrow> bool" where
  "clean_name n \<longleftrightarrow> n \<noteq> [] \<and> strip n = n"

lemma clean_name_strip [simp]: "clean_name (strip s) \<longleftrightarrow> strip s \<noteq> []"
  by (simp add: clean_name_def)

lemma account_names_props:
  "distinct names \<Longrightarrow> list_all clean_name names \<Longrightarrow>
     distinct (account_names items names) \<and> list_all clean_name (account_names items names)"
  by (induction items names rule: account_names.induct) auto

lemma account_names_prefix: "\<exists>t. account_names items names = names @ t"
  by (induction items names rule: account_names.induct) (auto split: if_splits)

lemma account_names_texts:
  "distinct (names @ ns) \<Longrightarrow> list_all clean_name ns \<Longrightarrow>
     account_names (map PStr ns) names = names @ ns"
proof (induction ns arbitrary: names)
  case (Cons n ns)
  then have "strip n = n" "n \<noteq> []" by (auto simp: clean_name_def)
  with Cons show ?case by simp
qed simp

lemma account_list_props: "distinct (account_list v)" "list_all clean_name (account_list v)"
  using account_names_props [of "[]"] by (simp_all add: account_list_def)

lemma account_list_texts:
  "distinct ns \<Longrightarrow> list_all clean_name ns \<Longrightarrow> account_list (PList (map PStr ns)) = ns"
  using account_names_texts [of "[]" ns] by (simp add: account_list_def)

lemma account_list_idem: "account_list (PList (map PStr (account_list v))) = account_list v"
  by (intro account_list_texts account_list_props)

section \<open>Tags\<close>

lemma schema_valid_tags: "valid_schema sc \<Longrightarrow> validate_tags sc = None"
  by (auto simp: valid_schema_def schema_errors_def split: option.splits)

lemma schema_valid_roles: "valid_schema sc \<Longrightarrow> validate_roles sc = None"
  by (auto simp: valid_schema_def schema_errors_def split: option.splits)

text \<open>Aliases point at tags, never at aliases.\<close>

lemma alias_target:
  assumes "validate_tags sc = None" and "dget (tag_aliases sc) s = Some c"
  shows "dget (tag_aliases sc) c = None" "sc_tag_mode sc = TagsClosed \<Longrightarrow> c \<in> set (dkeys (tags sc))"
proof -
  from assms(2) have "(s, c) \<in> set (tag_aliases sc)"
    by (rule map_of_SomeD)
  moreover from assms(1) have "\<forall>p \<in> set (tag_aliases sc). alias_error sc p = None"
    by (auto simp: validate_tags_def Let_def split: if_splits)
  ultimately have "alias_error sc (s, c) = None"
    by blast
  then show "dget (tag_aliases sc) c = None"
    and "sc_tag_mode sc = TagsClosed \<Longrightarrow> c \<in> set (dkeys (tags sc))"
    by (auto simp: alias_error_def dget_None_iff split: if_splits)
qed

lemma canonical_tag_idem [simp]:
  "validate_tags sc = None \<Longrightarrow> canonical_tag sc (canonical_tag sc v) = canonical_tag sc v"
  by (auto simp: canonical_tag_def alias_target split: pyval.splits option.splits)

lemma canonical_tag_not_alias:
  "validate_tags sc = None \<Longrightarrow> canonical_tag sc v = PStr s \<Longrightarrow> dget (tag_aliases sc) s = None"
  by (auto simp: canonical_tag_def alias_target split: pyval.splits option.splits)

text \<open>A list none of whose entries repeats an earlier one.\<close>

abbreviation unrepeated :: "pyval list \<Rightarrow> bool" where
  "unrepeated vs \<equiv> sorted_wrt (\<lambda>a b. \<not> py_eq b a) vs"

lemma normalize_from_set:
  "set (normalize_from sc vs acc) \<subseteq> set acc \<union> canonical_tag sc ` set vs"
  by (induction sc vs acc rule: normalize_from.induct) auto

lemma normalize_from_unrepeated: "unrepeated acc \<Longrightarrow> unrepeated (normalize_from sc vs acc)"
  by (induction sc vs acc rule: normalize_from.induct)
    (auto simp: sorted_wrt_append py_in_def list_ex_iff)

lemma normalize_from_fixed:
  "unrepeated (acc @ vs) \<Longrightarrow> list_all (\<lambda>v. canonical_tag sc v = v) vs \<Longrightarrow>
     normalize_from sc vs acc = acc @ vs"
proof (induction vs arbitrary: acc)
  case (Cons v vs)
  then have v: "canonical_tag sc v = v" by simp
  have "\<not> py_in v acc"
    using Cons.prems(1) by (auto simp: sorted_wrt_append py_in_def list_ex_iff)
  moreover have "normalize_from sc vs (acc @ [v]) = (acc @ [v]) @ vs"
    using Cons by (intro Cons.IH) auto
  ultimately show ?case by (simp add: v)
qed simp

lemma normalize_tags_set: "v \<in> set (normalize_tags sc vs) \<Longrightarrow> \<exists>u \<in> set vs. v = canonical_tag sc u"
  using normalize_from_set [of sc vs "[]"] by (auto simp: normalize_tags_def)

lemma normalize_tags_unrepeated: "unrepeated (normalize_tags sc vs)"
  unfolding normalize_tags_def by (rule normalize_from_unrepeated) simp

lemma normalize_tags_clean:
  "unrepeated vs \<Longrightarrow> list_all (\<lambda>v. canonical_tag sc v = v) vs \<Longrightarrow> normalize_tags sc vs = vs"
  using normalize_from_fixed [of "[]"] by (simp add: normalize_tags_def)

text \<open>Tag normalisation is idempotent, and its result holds no alias and no repeat.\<close>

theorem normalize_tags_canonical:
  assumes "valid_schema sc"
  shows "normalize_tags sc (normalize_tags sc vs) = normalize_tags sc vs \<and>
     sorted_wrt (\<lambda>a b. \<not> py_eq b a) (normalize_tags sc vs) \<and>
     (\<forall>s. PStr s \<in> set (normalize_tags sc vs) \<longrightarrow> dget (tag_aliases sc) s = None)"
proof (intro conjI allI impI)
  note valid = schema_valid_tags [OF assms]
  have fixed: "canonical_tag sc v = v" if "v \<in> set (normalize_tags sc vs)" for v
    using normalize_tags_set [OF that] valid by auto
  show "normalize_tags sc (normalize_tags sc vs) = normalize_tags sc vs"
    by (rule normalize_tags_clean [OF normalize_tags_unrepeated]) (simp add: fixed list_all_iff)
  show "unrepeated (normalize_tags sc vs)"
    by (rule normalize_tags_unrepeated)
  show "dget (tag_aliases sc) s = None" if "PStr s \<in> set (normalize_tags sc vs)" for s
    using canonical_tag_not_alias [OF valid fixed [OF that]] .
qed

text \<open>A schema with an alias, for the concrete instances.\<close>

definition alias_schema :: schema where
  "alias_schema = default_schema
     \<lparr>tag_aliases := [(U ''ref'', U ''reference'')], sc_tag_mode := TagsClosed\<rparr>"

lemma alias_schema_valid: "valid_schema alias_schema"
proof -
  have "tag_ok (U ''reference'')" "tag_ok (U ''ref'')"
    by (simp_all add: tag_ok_def U_def py_space_def)
  moreover have "first_error validate_meanings (sc_keys default_schema) = None"
    and "validate_roles default_schema = None"
    using default_schema_valid by (auto simp: valid_schema_def schema_errors_def split: option.splits)
  moreover have "sc_keys alias_schema = sc_keys default_schema"
    and "validate_roles alias_schema = validate_roles default_schema"
    by (simp_all add: alias_schema_def validate_roles_def Let_def)
  moreover have "validate_tags alias_schema = None" if "tag_ok (U ''reference'')" "tag_ok (U ''ref'')"
    using that by (simp add: validate_tags_def alias_error_def alias_schema_def REFERENCE_TAG_def)
  ultimately show ?thesis
    unfolding valid_schema_def schema_errors_def by (simp only: option.case)
qed

theorem normalize_tags_canonical_witness:
  "normalize_tags alias_schema [PStr (U ''ref''), PStr (U ''reference''), PStr (U ''x'')] =
     [PStr (U ''reference''), PStr (U ''x'')] \<and>
   normalize_tags alias_schema [PStr (U ''reference''), PStr (U ''x'')] =
     [PStr (U ''reference''), PStr (U ''x'')]"
proof -
  have n: "normalize_tags alias_schema [PStr (U ''ref''), PStr (U ''reference''), PStr (U ''x'')] =
     [PStr (U ''reference''), PStr (U ''x'')]"
    by (simp add: normalize_tags_def canonical_tag_def alias_schema_def)
  show ?thesis
    using normalize_tags_canonical [OF alias_schema_valid,
        of "[PStr (U ''ref''), PStr (U ''reference''), PStr (U ''x'')]"] n by simp
qed

lemma py_eq_refl: "hashable v \<Longrightarrow> py_eq v v"
  by (cases v) auto

lemma hashable_canonical: "hashable (canonical_tag sc v) \<longleftrightarrow> hashable v"
  by (auto simp: canonical_tag_def split: pyval.splits)

lemma normalize_tags_hashable: "list_all hashable vs \<Longrightarrow> list_all hashable (normalize_tags sc vs)"
  using normalize_tags_set hashable_canonical by (fastforce simp: list_all_iff)

text \<open>Closed tags: a write that keeps the tags the note carries is never refused for a tag,
  and what a refusal names is a normalised tag of the write that is neither listed nor carried.\<close>

theorem closed_tags_keep_carried:
  assumes "fget cur (role sc ''tags_key'') = PList vs" and "list_all hashable vs"
    and "fget fm (role sc ''tags_key'') = PList ws" and "list_all hashable ws"
    and "set ws \<subseteq> set vs \<union> {PStr s | s. s \<in> set (dkeys (tags sc)) \<and> dget (tag_aliases sc) s = None}"
  shows "tag_problems sc fm (Some cur) = TagProblems []"
proof -
  have cur: "cur \<noteq> []"
    using assms(1) by (auto simp: fget_def)
  have "tag_listed sc t \<or> py_in t (map (canonical_tag sc) vs)" if t: "t \<in> set (normalize_tags sc ws)" for t
  proof -
    from normalize_tags_set [OF t] obtain u where u: "u \<in> set ws" "t = canonical_tag sc u" by blast
    show ?thesis
    proof (cases "u \<in> set vs")
      case True
      with assms(2) u have "py_eq t t"
        by (auto simp: list_all_iff hashable_canonical intro: py_eq_refl)
      with True u show ?thesis
        by (auto simp: py_in_def list_ex_iff)
    next
      case False
      with u(1) assms(5) obtain s where "u = PStr s" "s \<in> set (dkeys (tags sc))"
          "dget (tag_aliases sc) s = None" by blast
      with u(2) show ?thesis
        by (simp add: canonical_tag_def tag_listed_def)
    qed
  qed
  moreover have "list_all hashable (map (canonical_tag sc) vs)"
    using assms(2) by (auto simp: list_all_iff hashable_canonical)
  ultimately show ?thesis
    using assms(1,3) cur normalize_tags_hashable [OF assms(4), of sc]
    by (auto simp: tag_problems_def Let_def filter_empty_conv)
qed

theorem closed_tags_keep_carried_witness:
  "tag_problems alias_schema [(U ''tags'', PList [PStr (U ''old''), PStr (U ''reference'')])]
     (Some [(U ''tags'', PList [PStr (U ''old'')])]) = TagProblems []"
proof -
  have r: "role alias_schema ''tags_key'' = U ''tags''"
    using default_schema_sel(7) by (simp add: role_def role_opt_def alias_schema_def)
  have l: "U ''reference'' \<in> set (dkeys (tags alias_schema))"
      "dget (tag_aliases alias_schema) (U ''reference'') = None"
    by (simp_all add: alias_schema_def REFERENCE_TAG_def)
  show ?thesis
    by (rule closed_tags_keep_carried [of _ _ "[PStr (U ''old'')]" _
          "[PStr (U ''old''), PStr (U ''reference'')]"])
      (use l in \<open>auto simp: r fget_def\<close>)
qed

text \<open>A list or mapping standing as a tag makes the closed check raise.\<close>

lemma closed_tags_unhashable:
  "tag_problems alias_schema [(U ''tags'', PList [PList []])] None = TagTypeError"
  using default_schema_sel(7)
  by (simp add: tag_problems_def alias_schema_def fget_def role_def role_opt_def
      normalize_tags_def canonical_tag_def py_in_def)

section \<open>What is required\<close>

text \<open>The key carries no value the checks would accept as present.\<close>

definition missing_value :: "schema \<Rightarrow> fmap \<Rightarrow> str \<Rightarrow> bool" where
  "missing_value sc fm n \<longleftrightarrow>
     fget fm n = PNone \<or>
     n = role sc ''account_key'' \<and>
       (\<exists>s. fget fm n = PStr s \<and> strip s = [] \<or>
         (\<exists>vs. fget fm n = PList vs \<and> list_all is_str vs \<and> account_list (PList vs) = []))"

definition is_required :: "problem \<Rightarrow> bool" where
  "is_required p \<longleftrightarrow> p = Required \<or> (\<exists>w vs. p = RequiredWhen w vs)"

lemma check_value_not_required: "p \<in> set (check_value kd v) \<Longrightarrow> \<not> is_required p"
  by (auto simp: check_value_def is_required_def split: if_splits pyval.splits)

lemma requires_now_when: "requires_now kd fm \<Longrightarrow> required_when kd \<noteq> None \<and> required_when kd \<noteq> Some []"
  by (auto simp: requires_now_def split: option.splits)

lemma account_list_str: "account_list (PStr s) = (if strip s = [] then [] else [strip s])"
  by (simp add: account_list_def)

lemma key_problems_required:
  "(\<exists>p. (kd_name kd, p) \<in> set (key_problems sc fm kd) \<and> is_required p) \<longleftrightarrow>
     missing_value sc fm (kd_name kd) \<and>
     (if required kd then \<not> (kd_name kd = role sc ''date_key'' \<and> date_satisfied_by_time fm)
      else requires_now kd fm)"
proof (cases "kd_name kd = role sc ''account_key'' \<and> fhas fm (kd_name kd) \<and> fget fm (kd_name kd) \<noteq> PNone")
  case True
  then show ?thesis
    using requires_now_when [of kd fm]
    by (cases "fget fm (kd_name kd)")
      (auto simp: key_problems_def Let_def missing_value_def is_required_def account_list_str)
next
  case False
  then have m: "missing_value sc fm (kd_name kd) \<longleftrightarrow> \<not> fhas fm (kd_name kd) \<or> fget fm (kd_name kd) = PNone"
    using fget_absent by (fastforce simp: missing_value_def)
  with False show ?thesis
    using requires_now_when [of kd fm] check_value_not_required [of _ kd "fget fm (kd_name kd)"]
    unfolding key_problems_def Let_def
    by (cases "\<not> fhas fm (kd_name kd) \<or> fget fm (kd_name kd) = PNone") (auto simp: is_required_def)
qed

lemma key_problems_name: "(n, p) \<in> set (key_problems sc fm kd) \<Longrightarrow> n = kd_name kd"
  by (auto simp: key_problems_def Let_def split: if_splits)

text \<open>The required keys are the ones validation reports: as long as the date key carries no
  condition of its own, a key is reported as required exactly when it is one of
  \<open>required_keys\<close> and carries no value.\<close>

theorem required_keys_agree:
  assumes "\<And>kd. kd \<in> set (sc_keys sc) \<Longrightarrow> kd_name kd = role sc ''date_key'' \<Longrightarrow> required_when kd = None"
  shows "(\<exists>p. (n, p) \<in> set (problems sc fm) \<and> is_required p) \<longleftrightarrow>
     n \<in> set (required_keys sc fm) \<and> missing_value sc fm n"
proof -
  have kind: "kind_problem sc fm = Some p \<Longrightarrow> \<not> is_required p" for p
    by (auto simp: kind_problem_def is_required_def Let_def split: if_splits)
  have "(\<exists>p. (n, p) \<in> set (problems sc fm) \<and> is_required p) \<longleftrightarrow>
      (\<exists>kd \<in> set (sc_keys sc). kd_name kd = n \<and>
         (\<exists>p. (kd_name kd, p) \<in> set (key_problems sc fm kd) \<and> is_required p))"
  proof -
    have "(n, p) \<in> set (problems sc fm) \<longleftrightarrow>
        (\<exists>kd \<in> set (sc_keys sc). (n, p) \<in> set (key_problems sc fm kd)) \<or>
        kind_problem sc fm = Some p \<and> n = optional_role sc ''kind_key''" for p
      by (auto simp: problems_def split: option.splits)
    then show ?thesis using kind key_problems_name by blast
  qed
  also have "\<dots> \<longleftrightarrow> (\<exists>kd \<in> set (sc_keys sc). kd_name kd = n \<and> missing_value sc fm n \<and>
      (required kd \<or> requires_now kd fm) \<and> \<not> (n = role sc ''date_key'' \<and> date_satisfied_by_time fm))"
    using assms by (auto simp: key_problems_required dest: requires_now_when)
  also have "\<dots> \<longleftrightarrow> n \<in> set (required_keys sc fm) \<and> missing_value sc fm n"
    by (auto simp: required_keys_def)
  finally show ?thesis .
qed

text \<open>The shipped schema meets the condition.\<close>

lemma default_date_unconditional:
  "kd \<in> set (sc_keys default_schema) \<Longrightarrow> kd_name kd = role default_schema ''date_key'' \<Longrightarrow>
     required_when kd = None"
proof -
  have "\<forall>kd \<in> set (sc_keys default_schema). kd_name kd = U ''date'' \<longrightarrow> required_when kd = None"
    by (simp add: shipped_defs)
  then show "kd \<in> set (sc_keys default_schema) \<Longrightarrow>
      kd_name kd = role default_schema ''date_key'' \<Longrightarrow> required_when kd = None" by auto
qed

theorem required_keys_agree_witness:
  "(\<exists>p. (U ''id'', p) \<in> set (problems default_schema []) \<and> is_required p) \<longleftrightarrow>
     U ''id'' \<in> set (required_keys default_schema []) \<and> missing_value default_schema [] (U ''id'')"
  by (rule required_keys_agree [OF default_date_unconditional])

text \<open>
  With a condition on the date key the two readings part: validation reports the key as
  required although \<open>required_keys\<close> leaves it out because the legacy \<open>time\<close> carries a day.
\<close>

definition dated_schema :: schema where
  "dated_schema = default_schema\<lparr>sc_keys := [(key_def0 (U ''date''))
     \<lparr>kd_kind := KDate, required_when := Some (U ''type''), required_when_values := [U ''work'']\<rparr>]\<rparr>"

definition timed_note :: fmap where
  "timed_note = [(U ''type'', PStr (U ''work'')), (U ''time'', PDate (Date 2026 9 8))]"

lemma required_keys_differ:
  "required_keys dated_schema timed_note = [] \<and>
   problems dated_schema timed_note =
     [(U ''date'', RequiredWhen (U ''type'') [U ''work''])]"
proof -
  have r: "role dated_schema ''date_key'' = U ''date''" "role dated_schema ''account_key'' = U ''account''"
      "optional_role dated_schema ''kind_key'' = U ''kind''"
    using default_schema_sel
    by (simp_all add: role_def role_opt_def dated_schema_def optional_role_def del: default_schema_sel)
  have t: "date_satisfied_by_time timed_note" "fget timed_note (U ''kind'') = PNone"
    by (simp_all add: date_satisfied_by_time_def timed_note_def fget_def parse_note_time_def)
  show ?thesis
    by (simp add: required_keys_def problems_def kind_problem_def r t)
      (simp add: dated_schema_def key_def0_def key_problems_def requires_now_def timed_note_def
        fget_def fhas_def r [unfolded dated_schema_def])
qed

text \<open>The keys validation looks at.\<close>

definition watched :: "schema \<Rightarrow> str \<Rightarrow> bool" where
  "watched sc n \<longleftrightarrow> n = U ''time'' \<or> n = optional_role sc ''kind_key'' \<or>
     (\<exists>kd \<in> set (sc_keys sc). kd_name kd = n \<or> required_when kd = Some n)"

lemma key_problems_unwatched:
  assumes "\<not> watched sc n" and "kd \<in> set (sc_keys sc)"
  shows "key_problems sc (dict_set fm n v) kd = key_problems sc fm kd"
proof -
  have "kd_name kd \<noteq> n" "required_when kd \<noteq> Some n" "n \<noteq> U ''time''"
    using assms by (auto simp: watched_def)
  then have "requires_now kd (dict_set fm n v) = requires_now kd fm"
    and "date_satisfied_by_time (dict_set fm n v) = date_satisfied_by_time fm"
    and "fget (dict_set fm n v) (kd_name kd) = fget fm (kd_name kd)"
    and "fhas (dict_set fm n v) (kd_name kd) = fhas fm (kd_name kd)"
    by (auto simp: requires_now_def date_satisfied_by_time_def split: option.splits)
  then show ?thesis
    by (simp only: key_problems_def Let_def)
qed

text \<open>Unknown keys are not problems: writing a key that the schema neither defines nor
  watches, and that is not the legacy \<open>time\<close>, changes no answer of validation.\<close>

theorem unknown_keys_are_free:
  assumes "\<not> watched sc n"
  shows "validate_frontmatter sc (dict_set fm n v) = validate_frontmatter sc fm"
proof -
  have "map (key_problems sc (dict_set fm n v)) (sc_keys sc) = map (key_problems sc fm) (sc_keys sc)"
    using key_problems_unwatched [OF assms] by simp
  moreover have "kind_problem sc (dict_set fm n v) = kind_problem sc fm"
    using assms by (auto simp: kind_problem_def watched_def Let_def)
  ultimately show ?thesis
    unfolding validate_frontmatter_def problems_def by (simp only:)
qed

theorem unknown_keys_are_free_witness:
  "validate_frontmatter default_schema (dict_set [] (U ''mood'') (PStr (U ''calm''))) =
     validate_frontmatter default_schema []"
proof (rule unknown_keys_are_free)
  show "\<not> watched default_schema (U ''mood'')"
    by (simp add: watched_def) (simp add: shipped_defs)
qed

section \<open>Dates and times\<close>

lemma strip_text_id: "s \<noteq> [] \<Longrightarrow> \<not> py_space (hd s) \<Longrightarrow> \<not> py_space (last s) \<Longrightarrow> strip s = s"
  by (simp add: strip_def strip_by_id trimmed_by_def)

lemma digit_not_space: "ascii_digit c \<Longrightarrow> \<not> py_space c"
  by (auto simp: ascii_digit_def py_space_def)

lemma pad_not_Nil: "0 < k \<Longrightarrow> pad k n \<noteq> []"
  by (metis length_0_conv length_pad less_not_refl)

lemma pad_ends: "0 < k \<Longrightarrow> ascii_digit (hd (pad k n))" "0 < k \<Longrightarrow> ascii_digit (last (pad k n))"
  by (metis hd_in_set pad_digit pad_not_Nil) (metis last_in_set pad_digit pad_not_Nil)

lemma datetime_iso_ends:
  "ascii_digit (hd (datetime_iso d t))" "ascii_digit (last (datetime_iso d t))" "datetime_iso d t \<noteq> []"
  using pad_ends [of 4 "yr d"] pad_ends [of 2 "se t"] pad_not_Nil [of 4 "yr d"] pad_not_Nil [of 2 "se t"]
  by (simp_all add: datetime_iso_def date_iso_def time_iso_def)

lemma strip_datetime_iso: "strip (datetime_iso d t) = datetime_iso d t"
  by (intro strip_text_id datetime_iso_ends digit_not_space)

lemma pad_all_digits: "list_all ascii_digit (pad k n)"
  using pad_digit by (auto simp: list_all_iff)

lemma legacy_time_iso: "legacy_time_pattern (time_iso t)"
  using pad_all_digits [of 2]
  by (simp add: legacy_time_pattern_def digits_at_def time_iso_def U_def numeral_2_eq_2 nth_append)

lemma local_datetime_iso: "local_datetime_prefix (datetime_iso d t)"
  using legacy_time_iso [of t] pad_all_digits [of 4] pad_all_digits [of 2]
  by (simp add: local_datetime_prefix_def digits_at_def datetime_iso_def date_iso_def U_def
      nth_append del: pad.simps)

lemma datetime_iso_no_zone:
  "\<not> endswith (datetime_iso d t) (U ''Z'')" "\<not> endswith (datetime_iso d t) (U ''z'')"
  using datetime_iso_ends(2) [of d t] by (auto simp: endswith_iff U_def ascii_digit_def)

lemma format_note_time_parsed:
  assumes "valid_date d" and "valid_time t"
  shows "parse_note_time (PStr (format_note_time d t)) =
     \<lparr>present = True, nt_valid = True, date_value = Some d, time_value = Some t, has_offset = False\<rparr>"
proof -
  have "datetime_iso d t ! 4 = 45" "datetime_iso d t ! 7 = 45" "datetime_iso d t ! 10 = 84"
    "length (datetime_iso d t) = 19" "datetime_iso d t \<noteq> []"
    by (simp_all add: datetime_iso_def date_iso_def U_def nth_append)
  then show ?thesis
    using datetime_fromiso_iso [OF assms]
    by (simp add: parse_note_time_def format_note_time_def strip_datetime_iso datetime_iso_no_zone
        local_datetime_iso Let_def)
qed

text \<open>The canonical text of a date and time is read back as exactly that date and time.\<close>

theorem format_note_time_roundtrip:
  "valid_date d \<Longrightarrow> valid_time t \<Longrightarrow> parse_note_time (PStr (format_note_time d t)) =
     \<lparr>present = True, nt_valid = True, date_value = Some d, time_value = Some t, has_offset = False\<rparr>"
  by (rule format_note_time_parsed)

theorem format_note_time_roundtrip_witness:
  "parse_note_time (PStr (format_note_time (Date 2026 9 8) (Time 14 30 0))) =
     \<lparr>present = True, nt_valid = True, date_value = Some (Date 2026 9 8),
      time_value = Some (Time 14 30 0), has_offset = False\<rparr>"
  by (rule format_note_time_roundtrip)
    (simp_all add: valid_date_def mk_date_def days_in_month_def valid_time_def)

text \<open>The dates and times a value carries are real ones, whatever text they were read from.\<close>

fun wf_value :: "pyval \<Rightarrow> bool" where
  "wf_value (PDate d) = valid_date d"
| "wf_value (PDateTime d t us z) = (valid_date d \<and> valid_time t)"
| "wf_value _ = True"

lemma day_of_year_valid: "day_of_year k y m d = Some x \<Longrightarrow> valid_date x"
  by (induction k y m d rule: day_of_year.induct) (auto dest: mk_date_Some split: if_splits)

lemma iso_week_date_valid: "iso_week_date y w d = Some x \<Longrightarrow> valid_date x"
  by (auto simp: iso_week_date_def date_of_ordinal_def Let_def dest: day_of_year_valid split: if_splits)

lemma date_fromiso10_valid: "date_fromiso10 s = Some d \<Longrightarrow> valid_date d"
  unfolding date_fromiso10_def
  by (auto dest: mk_date_Some iso_week_date_valid split: if_splits option.splits)

lemma time_fromiso_valid: "time_fromiso s = Some (t, z) \<Longrightarrow> valid_time t"
  unfolding time_fromiso_def Let_def
  by (auto simp: valid_time_def split: option.splits if_splits prod.splits)

lemma datetime_fromiso_valid: "datetime_fromiso s = Some (d, t, z) \<Longrightarrow> valid_date d \<and> valid_time t"
  unfolding datetime_fromiso_def
  by (auto simp: valid_time_def dest: date_fromiso10_valid time_fromiso_valid
      split: option.splits if_splits)

definition wf_time :: "note_time \<Rightarrow> bool" where
  "wf_time nt \<longleftrightarrow> (\<forall>d. date_value nt = Some d \<longrightarrow> valid_date d) \<and>
     (\<forall>t. time_value nt = Some t \<longrightarrow> valid_time t)"

lemma no_time_wf [simp]: "wf_time (no_time b)"
  by (simp add: wf_time_def no_time_def)

lemma parse_date_value_valid: "parse_date_value (PStr s) = Some d \<Longrightarrow> valid_date d"
  by (auto simp: parse_date_value_def Let_def dest: date_fromiso10_valid split: if_splits)

lemma wf_time_mk:
  "(\<And>x. d = Some x \<Longrightarrow> valid_date x) \<Longrightarrow> (\<And>x. t = Some x \<Longrightarrow> valid_time x) \<Longrightarrow>
     wf_time \<lparr>present = p, nt_valid = v, date_value = d, time_value = t, has_offset = h\<rparr>"
  by (simp add: wf_time_def)

lemma wf_time_if: "wf_time a \<Longrightarrow> wf_time b \<Longrightarrow> wf_time (if c then a else b)"
  by simp

lemma datetime_case_wf:
  "(\<And>d t z. valid_date d \<Longrightarrow> valid_time t \<Longrightarrow> wf_time (f d t z)) \<Longrightarrow>
     wf_time (case datetime_fromiso x of None \<Rightarrow> no_time True | Some (d, t, z) \<Rightarrow> f d t z)"
  using datetime_fromiso_valid [of x] by (cases "datetime_fromiso x") auto

lemma time_case_wf:
  "(\<And>t z. valid_time t \<Longrightarrow> wf_time (f t z)) \<Longrightarrow>
     wf_time (case time_fromiso_full x of None \<Rightarrow> no_time True | Some (t, z) \<Rightarrow> f t z)"
  unfolding time_fromiso_full_def
  using time_fromiso_valid [of "if x \<noteq> [] \<and> hd x = 84 then tl x else x"]
  by (cases "time_fromiso (if x \<noteq> [] \<and> hd x = 84 then tl x else x)") auto

lemma parse_note_time_wf: "wf_value v \<Longrightarrow> wf_time (parse_note_time v)"
proof (cases v)
  case (PStr s)
  show ?thesis
    unfolding PStr parse_note_time_def pyval.case Let_def
    by (intro wf_time_if datetime_case_wf time_case_wf wf_time_mk no_time_wf)
      (simp_all add: parse_date_value_valid)
qed (auto simp: parse_note_time_def wf_time_def no_time_def)

text \<open>Normalising is stable: a value that carries its own day, once normalised, reads back as the
  same day and time (midnight when it had none), with nothing left for the fallback date.\<close>

theorem normalize_note_time_stable:
  assumes "wf_value v" and "nt_valid (parse_note_time v)" and "date_value (parse_note_time v) = Some d"
  shows "parse_note_time (PStr (normalize_note_time py_str v fb)) =
     \<lparr>present = True, nt_valid = True, date_value = Some d,
      time_value = Some (case time_value (parse_note_time v) of Some t \<Rightarrow> t | None \<Rightarrow> Time 0 0 0),
      has_offset = False\<rparr>"
proof -
  let ?t = "case time_value (parse_note_time v) of Some t \<Rightarrow> t | None \<Rightarrow> Time 0 0 0"
  have wf: "valid_date d" "valid_time ?t"
    using parse_note_time_wf [OF assms(1)] assms(3)
    by (auto simp: wf_time_def valid_time_def split: option.split)
  have "normalize_note_time py_str v fb = format_note_time d ?t"
    using assms by (simp add: normalize_note_time_def format_note_time_def Let_def)
  then show ?thesis
    using format_note_time_parsed [OF wf] by simp
qed

theorem normalize_note_time_stable_witness:
  "parse_note_time (PStr (normalize_note_time (\<lambda>v. []) (PDate (Date 2026 9 8)) None)) =
     \<lparr>present = True, nt_valid = True, date_value = Some (Date 2026 9 8),
      time_value = Some (Time 0 0 0), has_offset = False\<rparr>"
  using normalize_note_time_stable [of "PDate (Date 2026 9 8)" "Date 2026 9 8" "\<lambda>v. []" None]
  by (simp add: parse_note_time_def valid_date_def mk_date_def days_in_month_def)

section \<open>Accepting an account suggestion\<close>

text \<open>Applying the changes of a suggestion: the keys set, then the keys removed.\<close>

definition apply_changes :: "fmap \<Rightarrow> fmap \<times> str list \<Rightarrow> fmap" where
  "apply_changes fm ch = fold (\<lambda>k d. dict_pop d k) (snd ch) (fold (\<lambda>(k, v) d. dict_set d k v) (fst ch) fm)"

lemma account_suggestion:
  assumes "role sc ''account_key'' \<noteq> role sc ''date_key''" and "role sc ''account_key'' \<noteq> U ''time''"
  shows "field_suggestion_changes py_str fm sc (role sc ''account_key'') v =
     ([(role sc ''account_key'', PList (map PStr (account_list (fget fm (role sc ''account_key'')) @
        filter (\<lambda>n. n \<notin> set (account_list (fget fm (role sc ''account_key'')))) (account_list v))))], [])"
  using assms by (simp add: field_suggestion_changes_def Let_def)

lemma merged_accounts:
  "account_list (PList (map PStr (account_list a @ filter (\<lambda>n. n \<notin> set (account_list a)) (account_list b)))) =
     account_list a @ filter (\<lambda>n. n \<notin> set (account_list a)) (account_list b)"
  using account_list_props [of a] account_list_props [of b]
  by (intro account_list_texts) (auto simp: list_all_iff)

text \<open>Accepting a suggested account never loses an account the note has: the earlier names stay,
  in order, in front; every suggested name is there; no name is repeated; and accepting the same
  suggestion again changes nothing.\<close>

theorem account_suggestion_merges:
  assumes "role sc ''account_key'' \<noteq> role sc ''date_key''" and "role sc ''account_key'' \<noteq> U ''time''"
    and "fm' = apply_changes fm (field_suggestion_changes py_str fm sc (role sc ''account_key'') v)"
  shows "(\<exists>more. account_list (fget fm' (role sc ''account_key'')) =
            account_list (fget fm (role sc ''account_key'')) @ more) \<and>
     set (account_list v) \<subseteq> set (account_list (fget fm' (role sc ''account_key''))) \<and>
     distinct (account_list (fget fm' (role sc ''account_key''))) \<and>
     fget (apply_changes fm' (field_suggestion_changes py_str fm' sc (role sc ''account_key'') v))
       (role sc ''account_key'') = fget fm' (role sc ''account_key'')"
proof -
  let ?k = "role sc ''account_key''"
  let ?old = "account_list (fget fm ?k)"
  let ?more = "filter (\<lambda>n. n \<notin> set ?old) (account_list v)"
  have new: "fget fm' ?k = PList (map PStr (?old @ ?more))"
    using assms(3) by (simp add: account_suggestion [OF assms(1,2)] apply_changes_def)
  have acc: "account_list (fget fm' ?k) = ?old @ ?more"
    unfolding new by (rule merged_accounts)
  have none: "filter (\<lambda>n. n \<notin> set (?old @ ?more)) (account_list v) = []"
    by (auto simp: filter_empty_conv)
  have again: "fget (apply_changes fm' (field_suggestion_changes py_str fm' sc ?k v)) ?k = fget fm' ?k"
    unfolding account_suggestion [OF assms(1,2)] acc none by (simp add: apply_changes_def new)
  show ?thesis
    using acc again account_list_props(1) by auto
qed

theorem account_suggestion_merges_witness:
  "fget (apply_changes [(U ''account'', PStr (U ''Acme''))]
      (field_suggestion_changes (\<lambda>v. []) [(U ''account'', PStr (U ''Acme''))] default_schema
         (U ''account'') (PList [PStr (U ''Acme''), PStr (U ''Beta'')]))) (U ''account'') =
    PList [PStr (U ''Acme''), PStr (U ''Beta'')] \<and>
   distinct [U ''Acme'', U ''Beta'']"
proof -
  have r: "role default_schema ''account_key'' = U ''account''" "role default_schema ''date_key'' = U ''date''"
    by simp_all
  have s: "strip (U ''Acme'') = U ''Acme''" "strip (U ''Beta'') = U ''Beta''"
    by (intro strip_text_id; simp add: U_def py_space_def)+
  have f: "fget (apply_changes [(U ''account'', PStr (U ''Acme''))]
      (field_suggestion_changes (\<lambda>v. []) [(U ''account'', PStr (U ''Acme''))] default_schema
         (U ''account'') (PList [PStr (U ''Acme''), PStr (U ''Beta'')]))) (U ''account'') =
    PList [PStr (U ''Acme''), PStr (U ''Beta'')]"
    by (simp add: field_suggestion_changes_def r apply_changes_def account_list_def s fget_def)
  show ?thesis
    using account_suggestion_merges [of default_schema
        "apply_changes [(U ''account'', PStr (U ''Acme''))]
          (field_suggestion_changes (\<lambda>v. []) [(U ''account'', PStr (U ''Acme''))] default_schema
             (U ''account'') (PList [PStr (U ''Acme''), PStr (U ''Beta'')]))"
        "[(U ''account'', PStr (U ''Acme''))]" "\<lambda>v. []" "PList [PStr (U ''Acme''), PStr (U ''Beta'')]"]
    by (simp add: r f)
qed

end
