(* ===== verification/Atomicio.thy ===== *)
theory Atomicio
  imports Prelude
begin

text \<open>
  \<open>coppermind/atomicio.py\<close>: atomic file writes, with every system call a step that may
  fail.  A disk is what running programs see (\<open>live\<close>) and the directory operations not
  yet made durable (\<open>pending\<close>); a crash keeps any of the pending operations, in order,
  over the last durable directory, and the bytes of a file that was not flushed may be
  anything.  The theorems say what a reader of the target finds: after a crash at any
  point, with any call failing, the old file or the new one, never a half-written one.
\<close>

type_synonym bytes = "nat list"

datatype sysc =
    Mkdir | Mkstemp | WriteTemp | FlushTemp | FsyncTemp | Chmod | UnlinkTemp | Replace | OpenDir | SyncDir
  | OpenExcl | WriteTarget | FsyncTarget | UnlinkTarget

datatype dirop = Link str nat | Unlink str | Rename str str

record inode =
  content :: bytes
  flushed :: bool
  imode :: nat

record disk =
  inodes :: "nat \<Rightarrow> inode"
  next_ino :: nat
  live :: "str \<rightharpoonup> nat"
  durable :: "str \<rightharpoonup> nat"
  pending :: "dirop list"

fun apply_op :: "dirop \<Rightarrow> (str \<rightharpoonup> nat) \<Rightarrow> (str \<rightharpoonup> nat)" where
  "apply_op (Link p i) d = d(p \<mapsto> i)"
| "apply_op (Unlink p) d = d(p := None)"
| "apply_op (Rename a b) d = (case d a of None \<Rightarrow> d | Some i \<Rightarrow> d(b \<mapsto> i, a := None))"

definition dir_step :: "dirop \<Rightarrow> disk \<Rightarrow> disk" where
  "dir_step op s = s\<lparr>live := apply_op op (live s), pending := pending s @ [op]\<rparr>"

text \<open>
  The effect of one call of \<open>atomic_write_bytes path data\<close>, where \<open>temp\<close> is the name
  \<open>mkstemp\<close> chose; a failing \<open>write\<close> leaves some bytes (\<open>partial\<close>) behind.
\<close>

record job =
  target :: str
  temp :: str
  payload :: bytes
  partial :: bytes
  fmode :: nat

definition set_inode :: "(str \<rightharpoonup> nat) \<Rightarrow> str \<Rightarrow> (inode \<Rightarrow> inode) \<Rightarrow> disk \<Rightarrow> disk" where
  "set_inode d p f s = (case d p of None \<Rightarrow> s | Some i \<Rightarrow> s\<lparr>inodes := (inodes s)(i := f (inodes s i))\<rparr>)"

definition new_file :: "str \<Rightarrow> nat \<Rightarrow> disk \<Rightarrow> disk" where
  "new_file p m s = dir_step (Link p (next_ino s))
     (s\<lparr>inodes := (inodes s)(next_ino s := \<lparr>content = [], flushed = True, imode = m\<rparr>),
        next_ino := Suc (next_ino s)\<rparr>)"

fun effect :: "job \<Rightarrow> sysc \<Rightarrow> bool \<Rightarrow> disk \<Rightarrow> disk" where
  "effect j Mkstemp True s = new_file (temp j) 384 s"
| "effect j WriteTemp ok s = set_inode (live s) (temp j)
     (\<lambda>i. i\<lparr>content := (if ok then payload j else partial j), flushed := False\<rparr>) s"
| "effect j FsyncTemp True s = set_inode (live s) (temp j) (\<lambda>i. i\<lparr>flushed := True\<rparr>) s"
| "effect j Chmod True s = set_inode (live s) (temp j) (\<lambda>i. i\<lparr>imode := fmode j\<rparr>) s"
| "effect j UnlinkTemp True s = dir_step (Unlink (temp j)) s"
| "effect j Replace True s = dir_step (Rename (temp j) (target j)) s"
| "effect j SyncDir True s = s\<lparr>durable := live s, pending := []\<rparr>"
| "effect j OpenExcl True s = new_file (target j) (fmode j) s"
| "effect j WriteTarget ok s = set_inode (live s) (target j)
     (\<lambda>i. i\<lparr>content := (if ok then payload j else partial j), flushed := False\<rparr>) s"
| "effect j FsyncTarget True s = set_inode (live s) (target j) (\<lambda>i. i\<lparr>flushed := True\<rparr>) s"
| "effect j UnlinkTarget True s = dir_step (Unlink (target j)) s"
| "effect j c ok s = s"

type_synonym trace = "(sysc \<times> bool) list"

definition run_trace :: "job \<Rightarrow> trace \<Rightarrow> disk \<Rightarrow> disk" where
  "run_trace j tr s = foldl (\<lambda>s (c, ok). effect j c ok s) s tr"

text \<open>The calls of a block up to the first that raises, and whether none did.\<close>

fun calls :: "(sysc \<Rightarrow> bool) \<Rightarrow> sysc list \<Rightarrow> trace \<times> bool" where
  "calls fails [] = ([], True)"
| "calls fails (c # cs) =
     (if fails c then ([(c, False)], False) else ((c, True) # fst (calls fails cs), snd (calls fails cs)))"

text \<open>\<open>try: body except BaseException: cleanup; raise\<close>.\<close>

definition guarded :: "(sysc \<Rightarrow> bool) \<Rightarrow> sysc list \<Rightarrow> sysc \<Rightarrow> trace \<times> bool" where
  "guarded fails body cleanup =
     (let (tr, ok) = calls fails body
      in if ok then (tr, True) else (tr @ [(cleanup, \<not> fails cleanup)], False))"

definition andthen :: "trace \<times> bool \<Rightarrow> trace \<times> bool \<Rightarrow> trace \<times> bool" where
  "andthen a b = (if snd a then (fst a @ fst b, snd b) else a)"

definition stage_bytes :: "(sysc \<Rightarrow> bool) \<Rightarrow> trace \<times> bool" where
  "stage_bytes fails =
     andthen (calls fails [Mkdir, Mkstemp])
       (guarded fails [WriteTemp, FlushTemp, FsyncTemp, Chmod] UnlinkTemp)"

definition replace_staged :: "(sysc \<Rightarrow> bool) \<Rightarrow> trace \<times> bool" where
  "replace_staged fails = guarded fails [Replace] UnlinkTemp"

definition sync_directory :: "(sysc \<Rightarrow> bool) \<Rightarrow> trace \<times> bool" where
  "sync_directory fails = calls fails [OpenDir, SyncDir]"

definition commit_staged :: "(sysc \<Rightarrow> bool) \<Rightarrow> trace \<times> bool" where
  "commit_staged fails = andthen (replace_staged fails) (sync_directory fails)"

definition atomic_write_bytes :: "(sysc \<Rightarrow> bool) \<Rightarrow> trace \<times> bool" where
  "atomic_write_bytes fails = andthen (stage_bytes fails) (commit_staged fails)"

text \<open>\<open>os.open(O_EXCL)\<close> fails when the name exists: \<open>OpenExcl\<close> is among the failing calls then.\<close>

definition create_exclusive_bytes :: "(sysc \<Rightarrow> bool) \<Rightarrow> trace \<times> bool" where
  "create_exclusive_bytes fails =
     andthen (calls fails [Mkdir, OpenExcl])
       (guarded fails [WriteTarget, FsyncTarget, OpenDir, SyncDir] UnlinkTarget)"

section \<open>What a reader finds\<close>

text \<open>What a program reading \<open>p\<close> now gets.\<close>

definition seen :: "disk \<Rightarrow> str \<Rightarrow> bytes option" where
  "seen s p = (case live s p of None \<Rightarrow> None | Some i \<Rightarrow> Some (content (inodes s i)))"

text \<open>What \<open>p\<close> may hold after a crash: some of the pending operations happened, and a file
  not flushed may hold anything.\<close>

definition after_crash :: "disk \<Rightarrow> str \<Rightarrow> bytes option \<Rightarrow> bool" where
  "after_crash s p r \<longleftrightarrow> (\<exists>ops \<in> set (subseqs (pending s)).
     case fold apply_op ops (durable s) p of
       None \<Rightarrow> r = None
     | Some i \<Rightarrow> (if flushed (inodes s i) then r = Some (content (inodes s i)) else r \<noteq> None))"

text \<open>A settled disk: nothing pending, every file flushed, the temporary name unused.\<close>

definition settled :: "job \<Rightarrow> disk \<Rightarrow> bool" where
  "settled j s \<longleftrightarrow> pending s = [] \<and> durable s = live s \<and> temp j \<noteq> target j \<and> live s (temp j) = None \<and>
     (\<forall>p i. live s p = Some i \<longrightarrow> i < next_ino s \<and> flushed (inodes s i))"

section \<open>The phases of an atomic write\<close>

datatype phase = Fresh | Linked | Written | Ready | Replaced | Durable | Dropped

fun next_phase :: "phase \<Rightarrow> sysc \<times> bool \<Rightarrow> phase option" where
  "next_phase Fresh (Mkdir, ok) = Some Fresh"
| "next_phase Fresh (Mkstemp, ok) = Some (if ok then Linked else Fresh)"
| "next_phase Linked (WriteTemp, ok) = Some (if ok then Written else Linked)"
| "next_phase Written (FlushTemp, ok) = Some Written"
| "next_phase Written (FsyncTemp, ok) = Some (if ok then Ready else Written)"
| "next_phase Ready (Chmod, ok) = Some Ready"
| "next_phase Ready (Replace, ok) = Some (if ok then Replaced else Ready)"
| "next_phase Replaced (OpenDir, ok) = Some Replaced"
| "next_phase Replaced (SyncDir, ok) = Some (if ok then Durable else Replaced)"
| "next_phase Linked (UnlinkTemp, ok) = Some (if ok then Dropped else Linked)"
| "next_phase Written (UnlinkTemp, ok) = Some (if ok then Dropped else Written)"
| "next_phase Ready (UnlinkTemp, ok) = Some (if ok then Dropped else Ready)"
| "next_phase ph c = None"

fun phases :: "phase \<Rightarrow> trace \<Rightarrow> phase option" where
  "phases ph [] = Some ph"
| "phases ph (c # cs) = (case next_phase ph c of None \<Rightarrow> None | Some ph' \<Rightarrow> phases ph' cs)"

lemma phases_take: "phases ph tr \<noteq> None \<Longrightarrow> phases ph (take k tr) \<noteq> None"
proof (induction tr arbitrary: ph k)
  case (Cons c cs)
  then show ?case by (cases k) (auto split: option.splits)
qed simp

lemmas write_defs = atomic_write_bytes_def stage_bytes_def commit_staged_def replace_staged_def
  sync_directory_def andthen_def guarded_def

lemma write_phases: "phases Fresh (fst (atomic_write_bytes fails)) \<noteq> None"
  by (simp add: write_defs)

lemma write_succeeds: "snd (atomic_write_bytes fails) \<Longrightarrow> phases Fresh (fst (atomic_write_bytes fails)) = Some Durable"
  by (simp add: write_defs split: if_splits)

text \<open>What holds in a phase, against the disk \<open>s0\<close> the write started on.\<close>

definition holds :: "job \<Rightarrow> disk \<Rightarrow> phase \<Rightarrow> disk \<Rightarrow> bool" where
  "holds j s0 ph s \<longleftrightarrow>
     (let n = next_ino s0; new = (inodes s n)
      in (\<forall>i < n. inodes s i = inodes s0 i) \<and>
         next_ino s = (if ph = Fresh then n else Suc n) \<and>
         durable s = (if ph = Durable then (live s0)(target j \<mapsto> n) else live s0) \<and>
         pending s = (if ph = Fresh \<or> ph = Durable then [] else Link (temp j) n #
            (if ph = Replaced then [Rename (temp j) (target j)]
             else if ph = Dropped then [Unlink (temp j)] else [])) \<and>
         live s = (if ph = Fresh \<or> ph = Dropped then live s0
            else if ph = Replaced \<or> ph = Durable then (live s0)(target j \<mapsto> n)
            else (live s0)(temp j \<mapsto> n)) \<and>
         (ph \<in> {Written, Ready, Replaced, Durable} \<longrightarrow> content new = payload j) \<and>
         (ph \<in> {Ready, Replaced, Durable} \<longrightarrow> flushed new))"

lemma holds_start: "settled j s \<Longrightarrow> holds j s Fresh s"
  by (simp add: settled_def holds_def)

lemma fun_upd_None_id: "f a = None \<Longrightarrow> f(a := None) = f"
  by auto

lemma holds_step:
  assumes "settled j s0" and "holds j s0 ph s" and "next_phase ph (c, ok) = Some ph'"
  shows "holds j s0 ph' (effect j c ok s)"
  using assms
  by (cases ph; cases c; cases ok)
    (simp_all add: holds_def settled_def Let_def new_file_def dir_step_def set_inode_def
      fun_upd_None_id fun_upd_twist)

lemma holds_run:
  assumes "settled j s0"
  shows "holds j s0 ph s \<Longrightarrow> phases ph tr = Some ph' \<Longrightarrow> holds j s0 ph' (run_trace j tr s)"
proof (induction tr arbitrary: ph s)
  case (Cons c cs)
  then obtain ph1 where n: "next_phase ph c = Some ph1" "phases ph1 cs = Some ph'"
    by (auto split: option.splits)
  obtain x ok where c: "c = (x, ok)" by (cases c)
  have "holds j s0 ph1 (effect j x ok s)"
    using holds_step [OF assms Cons.prems(1)] n(1) c by simp
  from Cons.IH [OF this n(2)] show ?case
    by (simp add: run_trace_def c)
qed (simp add: run_trace_def)


lemma crash_old:
  assumes "settled j s0" and "\<forall>i < next_ino s0. inodes s i = inodes s0 i" and "live s0 q = d"
  shows "(case d of None \<Rightarrow> r = None
     | Some i \<Rightarrow> (if flushed (inodes s i) then r = Some (content (inodes s i)) else r \<noteq> None)) \<longleftrightarrow> r = seen s0 q"
  using assms by (cases d) (auto simp: settled_def seen_def)

lemma holds_crash:
  assumes "settled j s0" and "holds j s0 ph s" and "after_crash s q r" and "q \<noteq> temp j"
  shows "r = (if q = target j \<and> ph = Durable then Some (payload j) else seen s0 q) \<or>
     q = target j \<and> ph = Replaced \<and> r = Some (payload j)"
proof -
  have t: "temp j \<noteq> target j" "live s0 (temp j) = None" "target j \<noteq> temp j"
    using assms(1) by (auto simp: settled_def)
  have old: "\<forall>i < next_ino s0. inodes s i = inodes s0 i"
    using assms(2) by (simp add: holds_def Let_def)
  note c = crash_old [OF assms(1) old, of q "live s0 q" r]
  show ?thesis
    using assms(2,3,4) t c
    by (cases ph; cases "q = target j") (auto simp: holds_def Let_def after_crash_def)
qed

lemma holds_seen:
  assumes "settled j s0" and "holds j s0 ph s" and "q \<noteq> temp j"
  shows "seen s q = (if q = target j \<and> ph \<in> {Replaced, Durable} then Some (payload j) else seen s0 q)"
proof -
  have "\<And>i. live s0 q = Some i \<Longrightarrow> inodes s i = inodes s0 i"
    using assms(1,2) by (auto simp: settled_def holds_def Let_def)
  with assms show ?thesis
    by (cases ph) (auto simp: holds_def Let_def seen_def split: option.splits)
qed

text \<open>C31. An atomic write is atomic: whatever calls fail and wherever the machine stops, a program
  reading the target finds the old file or the whole new one, before a crash and after it, and every
  other file but the temporary one is as it was.\<close>

theorem atomic_write_atomic:
  assumes "settled j s" and "s' = run_trace j (take k (fst (atomic_write_bytes fails))) s" and "q \<noteq> temp j"
  shows "(seen s' q = seen s q \<or> q = target j \<and> seen s' q = Some (payload j)) \<and>
     (after_crash s' q r \<longrightarrow> r = seen s q \<or> q = target j \<and> r = Some (payload j))"
proof -
  obtain ph where "phases Fresh (take k (fst (atomic_write_bytes fails))) = Some ph"
    using phases_take [OF write_phases] by blast
  then have h: "holds j s ph s'"
    using holds_run [OF assms(1) holds_start [OF assms(1)]] assms(2) by blast
  show ?thesis
    using holds_seen [OF assms(1) h assms(3)] holds_crash [OF assms(1) h _ assms(3), of r]
    by (auto split: if_splits)
qed

text \<open>A write over an old file, all calls succeeding, seen after the rename and before the sync.\<close>

definition write_job :: job where
  "write_job = \<lparr>target = U ''a'', temp = U ''.a.tmp'', payload = [7, 8], partial = [7], fmode = 420\<rparr>"

definition old_disk :: disk where
  "old_disk = \<lparr>inodes = (\<lambda>i. \<lparr>content = [1], flushed = True, imode = 420\<rparr>), next_ino = 1,
     live = [U ''a'' \<mapsto> 0], durable = [U ''a'' \<mapsto> 0], pending = []\<rparr>"

lemma old_disk_settled: "settled write_job old_disk"
  by (simp add: settled_def write_job_def old_disk_def)

theorem atomic_write_atomic_witness:
  "seen (run_trace write_job (take 7 (fst (atomic_write_bytes (\<lambda>c. False)))) old_disk) (U ''a'') = Some [7, 8] \<and>
   after_crash (run_trace write_job (take 7 (fst (atomic_write_bytes (\<lambda>c. False)))) old_disk) (U ''a'') (Some [1])"
proof -
  let ?s = "run_trace write_job (take 7 (fst (atomic_write_bytes (\<lambda>c. False)))) old_disk"
  have s: "?s = \<lparr>inodes = (inodes old_disk)(1 := \<lparr>content = [7, 8], flushed = True, imode = 420\<rparr>),
      next_ino = 2, live = [U ''a'' \<mapsto> 1], durable = [U ''a'' \<mapsto> 0],
      pending = [Link (U ''.a.tmp'') 1, Rename (U ''.a.tmp'') (U ''a'')]\<rparr>"
    by (simp add: write_defs run_trace_def write_job_def old_disk_def new_file_def dir_step_def
        set_inode_def fun_eq_iff)
  have "seen ?s (U ''a'') = seen old_disk (U ''a'') \<or> seen ?s (U ''a'') = Some [7, 8]"
    using atomic_write_atomic [OF old_disk_settled refl, of "U ''a''" 7 "\<lambda>c. False"]
    by (auto simp: write_job_def)
  moreover have "after_crash ?s (U ''a'') (Some [1])"
    unfolding after_crash_def s by (intro bexI [of _ "[]"]) (simp_all add: old_disk_def)
  moreover have "seen old_disk (U ''a'') \<noteq> seen ?s (U ''a'')"
    by (simp only: s) (simp add: seen_def old_disk_def)
  ultimately show ?thesis by metis
qed

text \<open>A write that returns is durable: after a crash the target holds exactly the new bytes.\<close>

theorem atomic_write_durable:
  assumes "settled j s" and "snd (atomic_write_bytes fails)"
    and "after_crash (run_trace j (fst (atomic_write_bytes fails)) s) (target j) r"
  shows "r = Some (payload j)"
proof -
  have h: "holds j s Durable (run_trace j (fst (atomic_write_bytes fails)) s)"
    by (rule holds_run [OF assms(1) holds_start [OF assms(1)] write_succeeds [OF assms(2)]])
  have "target j \<noteq> temp j"
    using assms(1) by (auto simp: settled_def)
  from holds_crash [OF assms(1) h assms(3) this] show ?thesis by auto
qed

theorem atomic_write_durable_witness:
  "\<not> after_crash (run_trace write_job (fst (atomic_write_bytes (\<lambda>c. False))) old_disk) (U ''a'') (Some [1])"
proof
  assume a: "after_crash (run_trace write_job (fst (atomic_write_bytes (\<lambda>c. False))) old_disk) (U ''a'') (Some [1])"
  have "snd (atomic_write_bytes (\<lambda>c. False))" "target write_job = U ''a''" "payload write_job = [7, 8]"
    by (simp_all add: write_defs write_job_def)
  with atomic_write_durable [OF old_disk_settled, of "\<lambda>c. False" "Some [1]"] a show False by simp
qed

section \<open>Exclusive creation\<close>

lemma create_exclusive_refused:
  "fails OpenExcl \<Longrightarrow> \<not> snd (create_exclusive_bytes fails) \<and>
     run_trace j (fst (create_exclusive_bytes fails)) s = s"
  by (simp add: create_exclusive_bytes_def andthen_def run_trace_def)

lemma create_exclusive_done:
  "settled j s \<Longrightarrow> snd (create_exclusive_bytes fails) \<Longrightarrow>
     after_crash (run_trace j (fst (create_exclusive_bytes fails)) s) (target j) r \<Longrightarrow> r = Some (payload j)"
  by (auto simp: create_exclusive_bytes_def andthen_def guarded_def run_trace_def new_file_def
      dir_step_def set_inode_def after_crash_def split: if_splits)

end
