(* ===== verification/StateFiles.thy ===== *)
theory StateFiles
  imports Values Atomicio "HOL-Library.Countable"
begin

text \<open>
  \<open>coppermind/statefiles.py\<close>: the control state files.  The state directory is the map
  from file names to their text and mode; a write is the atomic replacement of
  \<open>Atomicio\<close>, done under the directory lock, so a sequence of writes is a sequence of
  whole steps.  The texts are read and written by \<open>json\<close>, \<open>ruamel.yaml\<close> and \<open>int\<close>, which
  are the parameter \<open>codec\<close>.  The locale \<open>revisioned_store\<close> is the contract its clients
  rest on: a write that names the current revision wins and every other is refused.
\<close>

record codec =
  load_text :: "bool \<Rightarrow> str \<Rightarrow> pyval option"
  dump_text :: "bool \<Rightarrow> fmap \<Rightarrow> str"
  py_int :: "pyval \<Rightarrow> int option"

type_synonym files = "(str, str \<times> nat) dict"

datatype state_error =
    UnknownState str
  | NotFound str
  | Unparsable str
  | NotMapping str
  | BadRevision str
  | BadSchemaVersion
  | RevisionConflict int

record state_file =
  sf_name :: str
  sf_revision :: int
  sf_body :: fmap

definition STATE_FILES :: "(str, str) dict" where
  "STATE_FILES = [(U ''settings'', U ''yaml''), (U ''schema'', U ''yaml''), (U ''rules'', U ''yaml''),
     (U ''keys'', U ''json''), (U ''admin'', U ''json''), (U ''reconciler_exclusions'', U ''json''),
     (U ''reconciler_notices'', U ''json'')]"

definition path_for :: "str \<Rightarrow> state_error + str" where
  "path_for name = (case dget STATE_FILES name of
     None \<Rightarrow> Inl (UnknownState name) | Some ext \<Rightarrow> Inr (name @ U ''.'' @ ext))"

definition mode_for :: "str \<Rightarrow> nat" where
  "mode_for name = (if name \<in> {U ''keys'', U ''admin''} then 384 else 420)"

definition is_json :: "str \<Rightarrow> bool" where
  "is_json path = endswith path (U ''.json'')"

definition load_file :: "codec \<Rightarrow> str \<Rightarrow> str \<Rightarrow> state_error + fmap" where
  "load_file c path text =
     (case load_text c (is_json path) text of
        None \<Rightarrow> Inl (Unparsable path)
      | Some v \<Rightarrow> (case v of PMap d \<Rightarrow> Inr d | _ \<Rightarrow> Inl (NotMapping path)))"

definition dump_file :: "codec \<Rightarrow> str \<Rightarrow> fmap \<Rightarrow> str" where
  "dump_file c path body = dump_text c (is_json path) body"

definition dget_or :: "fmap \<Rightarrow> str \<Rightarrow> pyval \<Rightarrow> pyval" where
  "dget_or d k v = (case dget d k of None \<Rightarrow> v | Some w \<Rightarrow> w)"

definition read_state :: "codec \<Rightarrow> files \<Rightarrow> str \<Rightarrow> state_error + state_file" where
  "read_state c fs name =
     (case path_for name of Inl e \<Rightarrow> Inl e
      | Inr path \<Rightarrow> (case dget fs path of None \<Rightarrow> Inl (NotFound path)
        | Some (text, mode) \<Rightarrow> (case load_file c path text of Inl e \<Rightarrow> Inl e
          | Inr loaded \<Rightarrow> (case py_int c (dget_or loaded (U ''revision'') (PInt 1)) of
              None \<Rightarrow> Inl (BadRevision path)
            | Some r \<Rightarrow> Inr \<lparr>sf_name = name, sf_revision = r, sf_body = loaded\<rparr>))))"

text \<open>The record a write dumps: the two counters first, then the rest of the body.\<close>

definition state_record :: "int \<Rightarrow> int \<Rightarrow> fmap \<Rightarrow> fmap" where
  "state_record version revision body =
     [(U ''schema_version'', PInt version), (U ''revision'', PInt revision)] @
     filter (\<lambda>(k, v). k \<notin> {U ''schema_version'', U ''revision''}) body"

definition write_locked ::
  "codec \<Rightarrow> files \<Rightarrow> str \<Rightarrow> fmap \<Rightarrow> int option \<Rightarrow> (state_error + state_file) \<times> files" where
  "write_locked c fs name body if_revision =
     (case path_for name of Inl e \<Rightarrow> (Inl e, fs)
      | Inr path \<Rightarrow>
         (case (if dget fs path = None then Inr None
                else case read_state c fs name of Inl e \<Rightarrow> Inl e | Inr f \<Rightarrow> Inr (Some f)) of
            Inl e \<Rightarrow> (Inl e, fs)
          | Inr current \<Rightarrow>
             if current = None \<and> if_revision \<noteq> None then (Inl (RevisionConflict 0), fs)
             else if current \<noteq> None \<and>
                 (if_revision = None \<or> if_revision \<noteq> Some (sf_revision (the current)))
             then (Inl (RevisionConflict (sf_revision (the current))), fs)
             else let next = (if current = None then 1 else sf_revision (the current) + 1)
                  in (case py_int c (dget_or body (U ''schema_version'') (PInt 1)) of
                        None \<Rightarrow> (Inl BadSchemaVersion, fs)
                      | Some version \<Rightarrow>
                          let record = state_record version next body
                          in (Inr \<lparr>sf_name = name, sf_revision = next, sf_body = record\<rparr>,
                              dict_set fs path (dump_file c path record, mode_for name)))))"

text \<open>\<open>write\<close> takes the directory lock and writes; the lock is held to the end.\<close>

definition write_state ::
  "codec \<Rightarrow> files \<Rightarrow> str \<Rightarrow> fmap \<Rightarrow> int option \<Rightarrow> (state_error + state_file) \<times> files" where
  "write_state c fs name body if_revision = write_locked c fs name body if_revision"

definition ensure_state ::
  "codec \<Rightarrow> files \<Rightarrow> str \<Rightarrow> fmap \<Rightarrow> (state_error + state_file) \<times> files" where
  "ensure_state c fs name body =
     (case path_for name of Inl e \<Rightarrow> (Inl e, fs)
      | Inr path \<Rightarrow> if dget fs path \<noteq> None then (read_state c fs name, fs)
          else write_state c fs name body None)"

section \<open>The contract of a revisioned store\<close>

text \<open>
  \<open>ok s n\<close>: the file \<open>n\<close> is absent or reads; \<open>current s n\<close>: its revision and body;
  \<open>put s n b i\<close>: a write naming the revision \<open>i\<close>; \<open>stamp r b\<close>: the body the store keeps.
\<close>

locale revisioned_store =
  fixes ok :: "'s \<Rightarrow> 'n \<Rightarrow> bool"
    and current :: "'s \<Rightarrow> 'n \<Rightarrow> (int \<times> 'b) option"
    and put :: "'s \<Rightarrow> 'n \<Rightarrow> 'b \<Rightarrow> int option \<Rightarrow> ('e + int) \<times> 's"
    and conflict :: "int \<Rightarrow> 'e"
    and stamp :: "int \<Rightarrow> 'b \<Rightarrow> 'b"
    and good :: "'n \<Rightarrow> 'b \<Rightarrow> bool"
  assumes put_current:
      "ok s n \<Longrightarrow> good n b \<Longrightarrow> put s n b (map_option fst (current s n)) = (res, s') \<Longrightarrow>
         (let r = (case current s n of None \<Rightarrow> 1 | Some (r0, b0) \<Rightarrow> r0 + 1)
          in res = Inr r \<and> ok s' n \<and> current s' n = Some (r, stamp r b))"
    and put_stale:
      "ok s n \<Longrightarrow> i \<noteq> map_option fst (current s n) \<Longrightarrow>
         put s n b i = (Inl (conflict (case current s n of None \<Rightarrow> 0 | Some (r0, b0) \<Rightarrow> r0)), s)"
    and put_other: "m \<noteq> n \<Longrightarrow> put s n b i = (res, s') \<Longrightarrow> ok s' m = ok s m \<and> current s' m = current s m"

text \<open>Several writers, one after the other, that all name the same revision: their answers.\<close>

fun race :: "('s \<Rightarrow> 'n \<Rightarrow> 'b \<Rightarrow> int option \<Rightarrow> ('e + int) \<times> 's) \<Rightarrow> 'n \<Rightarrow> int option \<Rightarrow> 's \<Rightarrow> 'b list \<Rightarrow> ('e + int) list" where
  "race put n i s [] = []"
| "race put n i s (b # bs) = (let (res, s') = put s n b i in res # race put n i s' bs)"

definition won :: "'e + 'a \<Rightarrow> bool" where
  "won res = (case res of Inl e \<Rightarrow> False | Inr r \<Rightarrow> True)"

context revisioned_store
begin

lemma put_wins_iff:
  assumes "ok s n" and "good n b"
  shows "won (fst (put s n b i)) \<longleftrightarrow> i = map_option fst (current s n)"
proof (cases "i = map_option fst (current s n)")
  case True
  obtain res s' where p: "put s n b i = (res, s')" by fastforce
  with put_current [OF assms] True show ?thesis by (simp add: won_def Let_def)
next
  case False
  then show ?thesis
    using put_stale [OF assms(1) False] by (simp add: won_def)
qed

lemma put_ok: "ok s n \<Longrightarrow> good n b \<Longrightarrow> ok (snd (put s n b i)) n"
  using put_current [of s n b] put_stale [of s n i b]
  by (cases "i = map_option fst (current s n)") (auto simp: Let_def prod_eq_iff)

lemma race_beaten:
  "ok s n \<Longrightarrow> list_all (good n) bs \<Longrightarrow> i \<noteq> map_option fst (current s n) \<Longrightarrow>
     list_all (\<lambda>res. \<not> won res) (race put n i s bs)"
proof (induction bs arbitrary: s)
  case (Cons b bs)
  with put_stale [OF Cons.prems(1,3)] show ?case by (simp add: won_def)
qed simp

lemma one_winner:
  "ok s n \<Longrightarrow> list_all (good n) bs \<Longrightarrow> length (filter won (race put n i s bs)) \<le> 1"
proof (induction bs arbitrary: s)
  case (Cons b bs)
  obtain res s' where p: "put s n b i = (res, s')" by fastforce
  from Cons.prems have g: "good n b" "list_all (good n) bs" by auto
  show ?case
  proof (cases "i = map_option fst (current s n)")
    case True
    have "ok s' n" "i \<noteq> map_option fst (current s' n)"
      using put_current [OF Cons.prems(1) g(1), of res s'] p True
      by (auto simp: Let_def split: option.splits)
    then have "filter won (race put n i s' bs) = []"
      using race_beaten [OF _ g(2)] by (auto simp: filter_empty_conv list_all_iff)
    with p show ?thesis by simp
  next
    case False
    with put_stale [OF Cons.prems(1) False] p have "\<not> won res" "s' = s" by (auto simp: won_def)
    with p Cons.IH [OF Cons.prems(1) g(2)] show ?thesis by simp
  qed
qed simp

end

section \<open>The state directory keeps the contract\<close>

text \<open>What the readers and writers of the texts must do: read back the record a write dumps.\<close>

fun storable :: "pyval \<Rightarrow> bool" where
  "storable (PList vs) = list_all storable vs"
| "storable (PMap d) = (distinct (map fst d) \<and> list_all (\<lambda>p. storable (snd p)) d)"
| "storable (PDate d) = False"
| "storable (PDateTime d t us z) = False"
| "storable (POther n) = False"
| "storable v = True"

definition codec_ok :: "codec \<Rightarrow> bool" where
  "codec_ok c \<longleftrightarrow> (\<forall>j d. storable (PMap d) \<longrightarrow> load_text c j (dump_text c j d) = Some (PMap d)) \<and>
     (\<forall>i. py_int c (PInt i) = Some i)"

definition state_ok :: "codec \<Rightarrow> files \<Rightarrow> str \<Rightarrow> bool" where
  "state_ok c fs name \<longleftrightarrow> (case path_for name of Inl e \<Rightarrow> False
     | Inr path \<Rightarrow> dget fs path = None \<or> won (read_state c fs name))"

definition state_current :: "codec \<Rightarrow> files \<Rightarrow> str \<Rightarrow> (int \<times> fmap) option" where
  "state_current c fs name = (case read_state c fs name of
     Inl e \<Rightarrow> None | Inr f \<Rightarrow> Some (sf_revision f, sf_body f))"

definition state_put :: "codec \<Rightarrow> files \<Rightarrow> str \<Rightarrow> fmap \<Rightarrow> int option \<Rightarrow> (state_error + int) \<times> files" where
  "state_put c fs name body i = (case write_state c fs name body i of
     (Inl e, fs') \<Rightarrow> (Inl e, fs') | (Inr f, fs') \<Rightarrow> (Inr (sf_revision f), fs'))"

definition state_version :: "codec \<Rightarrow> fmap \<Rightarrow> int option" where
  "state_version c body = py_int c (dget_or body (U ''schema_version'') (PInt 1))"

definition state_stamp :: "codec \<Rightarrow> int \<Rightarrow> fmap \<Rightarrow> fmap" where
  "state_stamp c r body = state_record (the (state_version c body)) r body"

definition state_good :: "codec \<Rightarrow> str \<Rightarrow> fmap \<Rightarrow> bool" where
  "state_good c name body \<longleftrightarrow> codec_ok c \<and> storable (PMap body) \<and> state_version c body \<noteq> None"

lemma path_for_inject: "path_for m = Inr p \<Longrightarrow> path_for n = Inr p \<Longrightarrow> m = n"
  by (auto simp: path_for_def STATE_FILES_def U_def split: option.splits if_splits)

lemma distinct_filter_keys: "distinct (map fst d) \<Longrightarrow> distinct (map fst (filter P d))"
  by (induction d) auto

lemma storable_record: "storable (PMap body) \<Longrightarrow> storable (PMap (state_record v r body))"
  by (auto simp: state_record_def distinct_filter_keys list_all_iff)

lemma record_revision: "dget_or (state_record v r body) (U ''revision'') d = PInt r"
  by (simp add: dget_or_def state_record_def)

lemma read_written:
  "codec_ok c \<Longrightarrow> storable (PMap body) \<Longrightarrow> path_for name = Inr path \<Longrightarrow>
     read_state c (dict_set fs path (dump_file c path (state_record v r body), m)) name =
       Inr \<lparr>sf_name = name, sf_revision = r, sf_body = state_record v r body\<rparr>"
  using storable_record [of body v r]
  by (simp add: read_state_def load_file_def dump_file_def codec_ok_def record_revision)

lemma read_other:
  "path_for name = Inr path \<Longrightarrow> m \<noteq> name \<Longrightarrow> read_state c (dict_set fs path x) m = read_state c fs m"
  using path_for_inject [of m path name] by (auto simp: read_state_def split: sum.splits)

lemma state_ok_cases:
  assumes "state_ok c fs name"
  obtains (absent) path where "path_for name = Inr path" "dget fs path = None" "state_current c fs name = None"
  | (there) path f where "path_for name = Inr path" "dget fs path \<noteq> None" "read_state c fs name = Inr f"
      "state_current c fs name = Some (sf_revision f, sf_body f)"
proof -
  obtain path where p: "path_for name = Inr path" "dget fs path = None \<or> won (read_state c fs name)"
    using assms by (auto simp: state_ok_def split: sum.splits)
  show ?thesis
  proof (cases "dget fs path")
    case None
    then have "state_current c fs name = None"
      by (simp add: state_current_def read_state_def p(1))
    with None p(1) show ?thesis by (rule_tac absent)
  next
    case (Some x)
    with p(2) obtain f where f: "read_state c fs name = Inr f"
      by (auto simp: won_def split: sum.splits)
    then have "state_current c fs name = Some (sf_revision f, sf_body f)"
      by (simp add: state_current_def)
    with Some f p(1) show ?thesis by (intro there) auto
  qed
qed

lemma write_current:
  assumes "state_ok c fs name" and "state_good c name body"
    and "i = map_option fst (state_current c fs name)"
    and "r = (case state_current c fs name of None \<Rightarrow> 1 | Some (r0, b0) \<Rightarrow> r0 + 1)"
    and "path_for name = Inr path"
  shows "write_state c fs name body i =
     (Inr \<lparr>sf_name = name, sf_revision = r, sf_body = state_stamp c r body\<rparr>,
      dict_set fs path (dump_file c path (state_stamp c r body), mode_for name))"
proof -
  obtain v where v: "py_int c (dget_or body (U ''schema_version'') (PInt 1)) = Some v"
    using assms(2) by (auto simp: state_good_def state_version_def)
  from assms(1) show ?thesis
    by (cases rule: state_ok_cases)
      (use assms(3-) v in \<open>auto simp: write_state_def write_locked_def state_stamp_def state_version_def Let_def\<close>)
qed

interpretation state: revisioned_store "state_ok c" "state_current c" "state_put c" RevisionConflict
  "state_stamp c" "state_good c"
proof unfold_locales
  fix fs :: files and name :: str and body :: fmap and res and fs' :: files
  assume ok: "state_ok c fs name" and good: "state_good c name body"
    and put: "state_put c fs name body (map_option fst (state_current c fs name)) = (res, fs')"
  define r where "r = (case state_current c fs name of None \<Rightarrow> 1 | Some (r0, b0) \<Rightarrow> r0 + 1)"
  obtain path where path: "path_for name = Inr path"
    using ok by (auto simp: state_ok_def split: sum.splits)
  note w = write_current [OF ok good refl r_def path]
  have c: "codec_ok c" "storable (PMap body)"
    using good by (auto simp: state_good_def)
  have res: "res = Inr r" and fs': "fs' = dict_set fs path (dump_file c path (state_stamp c r body), mode_for name)"
    using put w by (auto simp: state_put_def)
  have "read_state c fs' name = Inr \<lparr>sf_name = name, sf_revision = r, sf_body = state_stamp c r body\<rparr>"
    unfolding fs' state_stamp_def by (rule read_written [OF c path])
  then have "state_ok c fs' name" "state_current c fs' name = Some (r, state_stamp c r body)"
    using path by (simp_all add: state_ok_def state_current_def won_def)
  then show "let r = (case state_current c fs name of None \<Rightarrow> 1 | Some (r0, b0) \<Rightarrow> r0 + 1)
      in res = Inr r \<and> state_ok c fs' name \<and> state_current c fs' name = Some (r, state_stamp c r body)"
    unfolding r_def [symmetric] Let_def using res by blast
next
  fix fs :: files and name :: str and body :: fmap and i :: "int option"
  assume ok: "state_ok c fs name" and i: "i \<noteq> map_option fst (state_current c fs name)"
  from ok show "state_put c fs name body i =
      (Inl (RevisionConflict (case state_current c fs name of None \<Rightarrow> 0 | Some (r0, b0) \<Rightarrow> r0)), fs)"
    by (cases rule: state_ok_cases) (use i in \<open>auto simp: state_put_def write_state_def write_locked_def\<close>)
next
  fix m name :: str and fs fs' :: files and body :: fmap and i :: "int option" and res
  assume m: "m \<noteq> name" and put: "state_put c fs name body i = (res, fs')"
  have "fs' = fs \<or> (\<exists>path x. path_for name = Inr path \<and> fs' = dict_set fs path x)"
    using put by (auto simp: state_put_def write_state_def write_locked_def Let_def
        split: sum.splits option.splits if_splits prod.splits)
  then show "state_ok c fs' m = state_ok c fs m \<and> state_current c fs' m = state_current c fs m"
  proof
    assume "\<exists>path x. path_for name = Inr path \<and> fs' = dict_set fs path x"
    then obtain path x where p: "path_for name = Inr path" "fs' = dict_set fs path x" by blast
    have r: "read_state c fs' m = read_state c fs m"
      unfolding p(2) by (rule read_other [OF p(1) m])
    have "path_for m = Inr q \<Longrightarrow> dget fs' q = dget fs q" for q
      using path_for_inject [of m q name] p m by auto
    with r show ?thesis
      by (simp add: state_ok_def state_current_def split: sum.splits)
  qed simp
qed

text \<open>A reader and writer of texts that meets the hypothesis: it writes the number of the value.\<close>

instance date :: countable
  by countable_datatype

instance ptime :: countable
  by countable_datatype

instance zone :: countable
  by countable_datatype

instance pyval :: countable
  by countable_datatype

definition number_codec :: codec where
  "number_codec = \<lparr>load_text = (\<lambda>j t. Some (PMap (from_nat (hd t)))), dump_text = (\<lambda>j d. [to_nat d]),
     py_int = (\<lambda>v. case v of PInt i \<Rightarrow> Some i | _ \<Rightarrow> None)\<rparr>"

lemma number_codec_ok: "codec_ok number_codec"
  unfolding codec_ok_def number_codec_def by simp

text \<open>A state write that names the current revision is kept: reading the file back gives the next
  revision and the body that was written, with the two counters in front.\<close>

theorem state_write_read:
  assumes "state_ok c fs name" and "state_good c name body"
    and "write_state c fs name body (map_option fst (state_current c fs name)) = (res, fs')"
  shows "\<exists>f. res = Inr f \<and> read_state c fs' name = Inr f \<and>
     sf_revision f = (case state_current c fs name of None \<Rightarrow> 1 | Some (r, b) \<Rightarrow> r + 1) \<and>
     sf_body f = state_stamp c (sf_revision f) body"
proof -
  obtain path where path: "path_for name = Inr path"
    using assms(1) by (auto simp: state_ok_def split: sum.splits)
  have c: "codec_ok c" "storable (PMap body)"
    using assms(2) by (auto simp: state_good_def)
  show ?thesis
    using write_current [OF assms(1,2) refl refl path] assms(3) read_written [OF c path]
    by (auto simp: state_stamp_def)
qed

lemma number_codec_int [simp]: "py_int number_codec (PInt i) = Some i"
  by (simp add: number_codec_def)

lemma fresh_state: "state_ok number_codec [] (U ''keys'')" "state_current number_codec [] (U ''keys'') = None"
  "state_good number_codec (U ''keys'') [(U ''keys'', PList [])]"
  by (simp_all add: state_ok_def state_current_def path_for_def STATE_FILES_def read_state_def
      state_good_def number_codec_ok state_version_def dget_or_def)

theorem state_write_read_witness:
  "\<exists>f. fst (write_state number_codec [] (U ''keys'') [(U ''keys'', PList [])] None) = Inr f \<and>
     sf_revision f = 1"
  using state_write_read [OF fresh_state(1,3) surjective_pairing] fresh_state(2) by auto

text \<open>C32. No update is lost: of any number of writers that read the same revision, at most one
  succeeds, whatever order they come in.\<close>

theorem state_one_winner:
  assumes "state_ok c fs name" and "list_all (state_good c name) bodies"
  shows "length (filter won (race (state_put c) name i fs bodies)) \<le> 1"
  by (rule state.one_winner [OF assms])

theorem state_one_winner_witness:
  "length (filter won (race (state_put number_codec) (U ''keys'') None []
     [[(U ''keys'', PList [])], [(U ''keys'', PList [])]])) \<le> 1"
  by (rule state_one_winner) (simp_all add: fresh_state)

text \<open>A write that names another revision is refused with the current one, and changes nothing.\<close>

theorem state_stale_refused:
  assumes "state_ok c fs name" and "i \<noteq> map_option fst (state_current c fs name)"
  shows "write_state c fs name body i =
     (Inl (RevisionConflict (case state_current c fs name of None \<Rightarrow> 0 | Some (r, b) \<Rightarrow> r)), fs)"
  using state.put_stale [OF assms, of body] by (auto simp: state_put_def split: prod.splits sum.splits)

theorem state_stale_refused_witness:
  "write_state number_codec [] (U ''keys'') [] (Some 3) = (Inl (RevisionConflict 0), [])"
  using state_stale_refused [of number_codec "[]" "U ''keys''" "Some 3" "[]"] fresh_state by simp

lemma ensure_keeps:
  "path_for name = Inr path \<Longrightarrow> dget fs path \<noteq> None \<Longrightarrow> ensure_state c fs name body = (read_state c fs name, fs)"
  by (simp add: ensure_state_def)

end
