(* ===== verification/ApiKeys.thy ===== *)
theory ApiKeys
  imports StateFiles
begin

text \<open>
  \<open>coppermind/api_keys.py\<close> and the bootstrap key of \<open>coppermind_store/keys.py\<close>.  Argon2 is
  the parameter \<open>hasher\<close>, Pydantic's reading and writing of a key set the parameter
  \<open>keys_model\<close>; the random id, the random secret and the clock are arguments.  The key
  operations are clients of the revisioned store of \<open>StateFiles\<close>.
\<close>

record hasher =
  hash_secret :: "str \<Rightarrow> str"
  verify_hash :: "str \<Rightarrow> str \<Rightarrow> bool option"

definition API_SCOPES :: "str list" where
  "API_SCOPES = [U ''entities:read'', U ''entities:write'', U ''sources:read'', U ''sources:write'',
     U ''notes:read'', U ''notes:write'', U ''notes:move'', U ''notes:delete'', U ''artifacts:read'',
     U ''artifacts:write'', U ''journal:read'', U ''journal:write'', U ''search:read'', U ''admin:read'',
     U ''admin:write'', U ''admin:purge'']"

definition DEFAULT_SCOPES :: "str list" where
  "DEFAULT_SCOPES = filter (\<lambda>s. s \<notin> {U ''admin:purge'', U ''entities:read'', U ''entities:write''}) API_SCOPES"

definition key_id_pattern :: "str \<Rightarrow> bool" where
  "key_id_pattern s \<longleftrightarrow> length s = 16 \<and> list_all (\<lambda>c. 97 \<le> c \<and> c \<le> 122 \<or> ascii_digit c) s"

definition KEY_PREFIX :: str where
  "KEY_PREFIX = U ''cm_''"

record api_key =
  key_id :: str
  key_name :: str
  key_hash :: str
  scopes :: "str list"
  created_at :: str
  revoked_at :: "str option"
  bootstrap_default :: bool

record key_set =
  ks_version :: int
  ks_revision :: int
  ks_keys :: "api_key list"

datatype key_error =
    KState state_error
  | BadKeyId
  | EmptyName
  | UnknownScopes "str list"
  | RepeatedScopes
  | RepeatedKeyIds
  | NoSuchKey str
  | UnreadableKeys

definition validate_key_id :: "str \<Rightarrow> key_error option" where
  "validate_key_id v = (if key_id_pattern v then None else Some BadKeyId)"

definition validate_scopes :: "str list \<Rightarrow> key_error option" where
  "validate_scopes v =
     (let unknown = filter (\<lambda>s. s \<notin> set API_SCOPES) v
      in if unknown \<noteq> [] then Some (UnknownScopes (sort (remdups unknown)))
         else if \<not> distinct v then Some RepeatedScopes else None)"

text \<open>Construction of a record: the field validators, then \<open>min_length=1\<close> of the name.\<close>

definition api_key_errors :: "api_key \<Rightarrow> key_error option" where
  "api_key_errors k =
     (case validate_key_id (key_id k) of Some e \<Rightarrow> Some e
      | None \<Rightarrow> (case validate_scopes (scopes k) of Some e \<Rightarrow> Some e
        | None \<Rightarrow> if key_name k = [] then Some EmptyName else None))"

definition unique_key_ids :: "key_set \<Rightarrow> key_error option" where
  "unique_key_ids ks = (if distinct (map key_id (ks_keys ks)) then None else Some RepeatedKeyIds)"

definition key_set_errors :: "key_set \<Rightarrow> key_error option" where
  "key_set_errors ks = (case first_error api_key_errors (ks_keys ks) of Some e \<Rightarrow> Some e
     | None \<Rightarrow> unique_key_ids ks)"

text \<open>\<open>ApiKeySet.model_validate\<close>: the fields read from the body, then the validators.\<close>

record keys_model =
  from_body :: "fmap \<Rightarrow> key_set option"
  to_body :: "key_set \<Rightarrow> fmap"

definition model_validate :: "keys_model \<Rightarrow> fmap \<Rightarrow> key_error + key_set" where
  "model_validate m body =
     (case from_body m body of None \<Rightarrow> Inl UnreadableKeys
      | Some ks \<Rightarrow> (case key_set_errors ks of Some e \<Rightarrow> Inl e | None \<Rightarrow> Inr ks))"

definition split_max2 :: "cpoint \<Rightarrow> str \<Rightarrow> str list" where
  "split_max2 c s =
     (case partition_on c s of (a, found, rest) \<Rightarrow>
        if \<not> found then [a]
        else (case partition_on c rest of (b, found2, rest2) \<Rightarrow>
          if \<not> found2 then [a, b] else [a, b, rest2]))"

definition split_credential :: "str \<Rightarrow> (str \<times> str) option" where
  "split_credential credential =
     (if \<not> startswith credential KEY_PREFIX then None
      else let parts = split_max2 95 credential
           in if length parts \<noteq> 3 \<or> \<not> key_id_pattern (parts ! 1) \<or> parts ! 2 = [] then None
              else Some (parts ! 1, parts ! 2))"

definition create_key ::
  "hasher \<Rightarrow> str \<Rightarrow> str list \<Rightarrow> str \<Rightarrow> str \<Rightarrow> str \<Rightarrow> bool \<Rightarrow> key_error + api_key \<times> str" where
  "create_key h name scs kid secret now boot =
     (let k = \<lparr>key_id = kid, key_name = name, key_hash = hash_secret h secret, scopes = scs,
               created_at = now, revoked_at = None, bootstrap_default = boot\<rparr>
      in case api_key_errors k of Some e \<Rightarrow> Inl e
         | None \<Rightarrow> Inr (k, KEY_PREFIX @ kid @ U ''_'' @ secret))"

definition verify_secret :: "hasher \<Rightarrow> str \<Rightarrow> str \<Rightarrow> bool" where
  "verify_secret h encoded secret = (verify_hash h encoded secret = Some True)"

definition keys_file :: str where
  "keys_file = U ''keys''"

definition load_keys :: "codec \<Rightarrow> keys_model \<Rightarrow> files \<Rightarrow> key_error + key_set" where
  "load_keys c m fs =
     (case read_state c fs keys_file of
        Inl (NotFound p) \<Rightarrow> Inr \<lparr>ks_version = 1, ks_revision = 0, ks_keys = []\<rparr>
      | Inl e \<Rightarrow> Inl (KState e)
      | Inr f \<Rightarrow> model_validate m (sf_body f))"

definition add_key ::
  "codec \<Rightarrow> keys_model \<Rightarrow> hasher \<Rightarrow> files \<Rightarrow> str \<Rightarrow> str list \<Rightarrow> str \<Rightarrow> str \<Rightarrow> str \<Rightarrow> int \<Rightarrow>
     (key_error + str) \<times> files" where
  "add_key c m h fs name scs kid secret now if_revision =
     (case load_keys c m fs of Inl e \<Rightarrow> (Inl e, fs)
      | Inr ks \<Rightarrow>
         if ks_revision ks \<noteq> if_revision then (Inl (KState (RevisionConflict (ks_revision ks))), fs)
         else (case create_key h name scs kid secret now False of Inl e \<Rightarrow> (Inl e, fs)
           | Inr (k, credential) \<Rightarrow>
              (case write_state c fs keys_file (to_body m (ks\<lparr>ks_keys := ks_keys ks @ [k]\<rparr>))
                   (if if_revision = 0 then None else Some if_revision) of
                 (Inl e, fs') \<Rightarrow> (Inl (KState e), fs')
               | (Inr f, fs') \<Rightarrow> (Inr credential, fs'))))"

definition has_key :: "str \<Rightarrow> api_key list \<Rightarrow> bool" where
  "has_key kid ks \<longleftrightarrow> kid \<in> set (map key_id ks)"

text \<open>The first record of the id, its \<open>revoked_at\<close> set.\<close>

fun revoke_first :: "str \<Rightarrow> str \<Rightarrow> api_key list \<Rightarrow> api_key list" where
  "revoke_first kid now [] = []"
| "revoke_first kid now (k # ks) =
     (if key_id k = kid then k\<lparr>revoked_at := Some now\<rparr> # ks else k # revoke_first kid now ks)"

definition revoke_key ::
  "codec \<Rightarrow> keys_model \<Rightarrow> files \<Rightarrow> str \<Rightarrow> str \<Rightarrow> int \<Rightarrow> (key_error + unit) \<times> files" where
  "revoke_key c m fs kid now if_revision =
     (case load_keys c m fs of Inl e \<Rightarrow> (Inl e, fs)
      | Inr ks \<Rightarrow>
         if ks_revision ks \<noteq> if_revision then (Inl (KState (RevisionConflict (ks_revision ks))), fs)
         else (case find (\<lambda>k. key_id k = kid) (ks_keys ks) of
            None \<Rightarrow> (Inl (NoSuchKey kid), fs)
          | Some k \<Rightarrow>
             if revoked_at k \<noteq> None then (Inr (), fs)
             else (case write_state c fs keys_file
                      (to_body m (ks\<lparr>ks_keys := revoke_first kid now (ks_keys ks)\<rparr>)) (Some if_revision) of
                (Inl e, fs') \<Rightarrow> (Inl (KState e), fs') | (Inr f, fs') \<Rightarrow> (Inr (), fs'))))"

section \<open>The bootstrap key\<close>

definition DEFAULT_KEY_NAME :: str where
  "DEFAULT_KEY_NAME = U ''bootstrap default''"

definition REVOKED_NOTICE :: str where
  "REVOKED_NOTICE = U ''the default API key was revoked; create a new key with: '' @
     U ''python3 -m coppermind_store.keys create''"

definition UNRECOVERABLE_NOTICE :: str where
  "UNRECOVERABLE_NOTICE = U ''the default API key credential was lost and cannot be recovered; '' @
     U ''create a new key with: python3 -m coppermind_store.keys create''"

text \<open>\<open>_load_keys\<close> of \<open>keys.py\<close>: an absent file is an empty set at revision 1.\<close>

definition load_existing :: "codec \<Rightarrow> keys_model \<Rightarrow> files \<Rightarrow> key_error + key_set \<times> bool" where
  "load_existing c m fs =
     (case path_for keys_file of Inl e \<Rightarrow> Inl (KState e)
      | Inr path \<Rightarrow>
         if dget fs path = None then Inr (\<lparr>ks_version = 1, ks_revision = 1, ks_keys = []\<rparr>, False)
         else (case read_state c fs keys_file of Inl e \<Rightarrow> Inl (KState e)
           | Inr f \<Rightarrow> (case model_validate m (sf_body f) of Inl e \<Rightarrow> Inl e | Inr ks \<Rightarrow> Inr (ks, True))))"

definition reveals :: "hasher \<Rightarrow> str option \<Rightarrow> api_key \<Rightarrow> bool" where
  "reveals h secret_file k =
     (case secret_file of None \<Rightarrow> False
      | Some text \<Rightarrow> text \<noteq> [] \<and>
          (case split_credential (strip text) of None \<Rightarrow> False
           | Some (kid, secret) \<Rightarrow> kid = key_id k \<and> verify_secret h (key_hash k) secret))"

datatype bootstrap_outcome = Revoked | Kept | Unrecoverable | Generated

text \<open>The state directory and the reveal file, before and after.\<close>

definition ensure_default_key ::
  "codec \<Rightarrow> keys_model \<Rightarrow> hasher \<Rightarrow> files \<times> str option \<Rightarrow> str \<Rightarrow> str \<Rightarrow> str \<Rightarrow>
     (key_error + bootstrap_outcome) \<times> (files \<times> str option)" where
  "ensure_default_key c m h w kid secret now =
     (let (fs, secret_file) = w
      in case load_existing c m fs of Inl e \<Rightarrow> (Inl e, w)
         | Inr (ks, exists) \<Rightarrow>
            (case find bootstrap_default (ks_keys ks) of
               Some k \<Rightarrow>
                 if revoked_at k \<noteq> None then (Inr Revoked, fs, Some (REVOKED_NOTICE @ [10]))
                 else if reveals h secret_file k then (Inr Kept, w)
                 else (Inr Unrecoverable, fs, Some (UNRECOVERABLE_NOTICE @ [10]))
             | None \<Rightarrow>
                (case create_key h DEFAULT_KEY_NAME DEFAULT_SCOPES kid secret now True of Inl e \<Rightarrow> (Inl e, w)
                 | Inr (k, credential) \<Rightarrow>
                    (case write_state c fs keys_file (to_body m (ks\<lparr>ks_keys := ks_keys ks @ [k]\<rparr>))
                        (if exists then Some (ks_revision ks) else None) of
                       (Inl e, fs') \<Rightarrow> (Inl (KState e), fs', Some (credential @ [10]))
                     | (Inr f, fs') \<Rightarrow> (Inr Generated, fs', Some (credential @ [10]))))))"

section \<open>The key set a state directory holds\<close>

definition hasher_ok :: "hasher \<Rightarrow> bool" where
  "hasher_ok h \<longleftrightarrow> (\<forall>s. verify_hash h (hash_secret h s) s = Some True)"

text \<open>What is asked of the model library: it reads back the body it wrote, the revision replaced.\<close>

definition keys_model_ok :: "keys_model \<Rightarrow> bool" where
  "keys_model_ok m \<longleftrightarrow>
     (\<forall>ks r. from_body m (state_record (ks_version ks) r (to_body m ks)) = Some (ks\<lparr>ks_revision := r\<rparr>)) \<and>
     (\<forall>ks. storable (PMap (to_body m ks)) \<and>
        dget (to_body m ks) (U ''schema_version'') = Some (PInt (ks_version ks)))"

definition keys_path :: str where
  "keys_path = U ''keys.json''"

lemma keys_path [simp]: "path_for keys_file = Inr keys_path"
  by (simp add: path_for_def STATE_FILES_def keys_file_def keys_path_def U_def)

definition no_keys :: key_set where
  "no_keys = \<lparr>ks_version = 1, ks_revision = 0, ks_keys = []\<rparr>"

text \<open>The abstraction: no file is the empty set at revision 0; a file is what a write dumped.\<close>

definition keys_hold :: "codec \<Rightarrow> keys_model \<Rightarrow> files \<Rightarrow> key_set \<Rightarrow> bool" where
  "keys_hold c m fs ks \<longleftrightarrow> codec_ok c \<and> keys_model_ok m \<and> key_set_errors ks = None \<and>
     (dget fs keys_path = None \<and> ks = no_keys \<or>
      dget fs keys_path \<noteq> None \<and> 1 \<le> ks_revision ks \<and>
        (\<exists>r0. read_state c fs keys_file = Inr \<lparr>sf_name = keys_file, sf_revision = ks_revision ks,
             sf_body = state_record (ks_version ks) (ks_revision ks) (to_body m (ks\<lparr>ks_revision := r0\<rparr>))\<rparr>))"

lemma keys_hold_load: "keys_hold c m fs ks \<Longrightarrow> load_keys c m fs = Inr ks"
proof -
  assume k: "keys_hold c m fs ks"
  then have "keys_model_ok m" by (simp add: keys_hold_def)
  then have "from_body m (state_record (ks_version (ks\<lparr>ks_revision := r0\<rparr>)) (ks_revision ks) (to_body m (ks\<lparr>ks_revision := r0\<rparr>))) = Some ks" for r0
    unfolding keys_model_ok_def by (metis key_set.surjective key_set.update_convs(2) old.unit.exhaust)
  then have f: "from_body m (state_record (ks_version ks) (ks_revision ks) (to_body m (ks\<lparr>ks_revision := r0\<rparr>))) = Some ks" for r0
    by simp
  show ?thesis
  proof (cases "dget fs keys_path")
    case None
    with k show ?thesis by (simp add: keys_hold_def load_keys_def read_state_def no_keys_def)
  next
    case (Some x)
    with k f show ?thesis by (auto simp: keys_hold_def load_keys_def model_validate_def)
  qed
qed

lemma keys_hold_current:
  "keys_hold c m fs ks \<Longrightarrow> state_ok c fs keys_file \<and>
     map_option fst (state_current c fs keys_file) = (if ks_revision ks = 0 then None else Some (ks_revision ks)) \<and>
     (case state_current c fs keys_file of None \<Rightarrow> 1 | Some (r, b) \<Rightarrow> r + 1) = ks_revision ks + 1"
  by (auto simp: keys_hold_def state_ok_def state_current_def won_def no_keys_def)
    (simp_all add: read_state_def)

lemma key_set_errors_iff:
  "key_set_errors ks = None \<longleftrightarrow>
     (\<forall>k \<in> set (ks_keys ks). api_key_errors k = None) \<and> distinct (map key_id (ks_keys ks))"
proof (cases "first_error api_key_errors (ks_keys ks) = None")
  case True
  then have "key_set_errors ks = unique_key_ids ks"
    by (simp only: key_set_errors_def option.case)
  with True show ?thesis
    by (simp add: unique_key_ids_def)
next
  case False
  then obtain e where e: "first_error api_key_errors (ks_keys ks) = Some e" by blast
  with first_error_SomeD [OF e] show ?thesis
    by (auto simp: key_set_errors_def)
qed

text \<open>One write of a key set at the current revision.\<close>

lemma keys_hold_write:
  assumes "keys_hold c m fs ks" and "key_set_errors ks' = None"
    and "i = (if ks_revision ks = 0 then None else Some (ks_revision ks))"
  shows "\<exists>f fs'. write_state c fs keys_file (to_body m ks') i = (Inr f, fs') \<and>
     dget fs' keys_path \<noteq> None \<and> keys_hold c m fs' (ks'\<lparr>ks_revision := ks_revision ks + 1\<rparr>)"
proof -
  note cur = keys_hold_current [OF assms(1)]
  have mc: "codec_ok c" "keys_model_ok m"
    using assms(1) by (auto simp: keys_hold_def)
  have v: "state_version c (to_body m ks') = Some (ks_version ks')"
    using mc by (simp add: state_version_def dget_or_def keys_model_ok_def codec_ok_def)
  have good: "state_good c keys_file (to_body m ks')"
    using mc v by (simp add: state_good_def keys_model_ok_def)
  have i: "i = map_option fst (state_current c fs keys_file)"
    using cur assms(3) by simp
  define body where "body = state_stamp c (ks_revision ks + 1) (to_body m ks')"
  define fs' where "fs' = dict_set fs keys_path (dump_file c keys_path body, mode_for keys_file)"
  have w: "write_state c fs keys_file (to_body m ks') i =
      (Inr \<lparr>sf_name = keys_file, sf_revision = ks_revision ks + 1, sf_body = body\<rparr>, fs')"
    using write_current [OF _ good i _ keys_path, of "ks_revision ks + 1"] cur
    by (simp add: body_def fs'_def)
  have body: "body = state_record (ks_version ks') (ks_revision ks + 1) (to_body m ks')"
    using v by (simp add: body_def state_stamp_def)
  have "read_state c fs' keys_file = Inr \<lparr>sf_name = keys_file, sf_revision = ks_revision ks + 1, sf_body = body\<rparr>"
    unfolding fs'_def body using mc by (intro read_written) (simp_all add: keys_model_ok_def)
  moreover have "0 \<le> ks_revision ks"
    using assms(1) by (auto simp: keys_hold_def no_keys_def)
  moreover have "key_set_errors (ks'\<lparr>ks_revision := ks_revision ks + 1\<rparr>) = None"
    using assms(2) by (simp add: key_set_errors_iff)
  ultimately have "keys_hold c m fs' (ks'\<lparr>ks_revision := ks_revision ks + 1\<rparr>)"
    using mc body by (auto simp: keys_hold_def fs'_def intro!: exI [of _ "ks_revision ks'"])
  with w show ?thesis
    by (simp add: fs'_def)
qed

section \<open>Credentials\<close>

lemma partition_on_append: "c \<notin> set a \<Longrightarrow> partition_on c (a @ c # b) = (a, True, b)"
  by (simp add: partition_on_def takeWhile_append2 dropWhile_append2 takeWhile_eq_all_conv [THEN iffD2]
      dropWhile_eq_Nil_conv [THEN iffD2] dropWhile_append)

lemma key_id_no_underscore: "key_id_pattern s \<Longrightarrow> 95 \<notin> set s"
  by (auto simp: key_id_pattern_def list_all_iff ascii_digit_def)

lemma split_credential_made:
  assumes "key_id_pattern kid" and "secret \<noteq> []"
  shows "split_credential (KEY_PREFIX @ kid @ U ''_'' @ secret) = Some (kid, secret)"
proof -
  have "split_max2 95 (KEY_PREFIX @ kid @ U ''_'' @ secret) = [U ''cm'', kid, secret]"
    using partition_on_append [of 95 "U ''cm''" "kid @ 95 # secret"]
      partition_on_append [OF key_id_no_underscore [OF assms(1)], of secret]
    by (simp add: split_max2_def KEY_PREFIX_def U_def)
  with assms show ?thesis
    by (simp add: split_credential_def)
qed

lemma create_key_credential:
  "create_key h name scs kid secret now boot = Inr (k, credential) \<Longrightarrow> secret \<noteq> [] \<Longrightarrow> hasher_ok h \<Longrightarrow>
     key_id k = kid \<and> bootstrap_default k = boot \<and> revoked_at k = None \<and> api_key_errors k = None \<and>
     split_credential credential = Some (kid, secret) \<and> verify_secret h (key_hash k) secret"
  using split_credential_made [of kid secret]
  by (auto simp: create_key_def api_key_errors_def validate_key_id_def verify_secret_def hasher_ok_def Let_def
      split: option.splits if_splits)

lemma create_key_text:
  "create_key h name scs kid secret now boot = Inr (k, credential) \<Longrightarrow>
     credential = KEY_PREFIX @ kid @ U ''_'' @ secret"
  by (auto simp: create_key_def Let_def split: option.splits)

lemma api_key_errors_revoked [simp]: "api_key_errors (k\<lparr>revoked_at := t\<rparr>) = api_key_errors k"
  by (simp add: api_key_errors_def cong: option.case_cong)

section \<open>Adding and revoking\<close>

lemma keys_hold_append:
  assumes "keys_hold c m fs ks" and "api_key_errors k = None" and "\<not> has_key (key_id k) (ks_keys ks)"
  shows "key_set_errors (ks\<lparr>ks_keys := ks_keys ks @ [k]\<rparr>) = None"
  using assms by (simp add: keys_hold_def key_set_errors_iff has_key_def ball_Un)

text \<open>Adding a key at the displayed revision appends exactly that key and keeps every other record, and
  the credential shown once is the one that reads back as the new id and a secret its hash accepts.\<close>

theorem add_key_appends:
  assumes "keys_hold c m fs ks" and "hasher_ok h" and "secret \<noteq> []"
    and "create_key h name scs kid secret now False = Inr (k, credential)"
    and "\<not> has_key kid (ks_keys ks)"
  shows "\<exists>fs'. add_key c m h fs name scs kid secret now (ks_revision ks) = (Inr credential, fs') \<and>
     keys_hold c m fs' (ks\<lparr>ks_keys := ks_keys ks @ [k], ks_revision := ks_revision ks + 1\<rparr>) \<and>
     split_credential credential = Some (key_id k, secret) \<and> verify_secret h (key_hash k) secret"
proof -
  note k = create_key_credential [OF assms(4,3,2)]
  from keys_hold_write [OF assms(1) keys_hold_append [OF assms(1), of k] refl] k assms(5)
  obtain f fs' where "write_state c fs keys_file (to_body m (ks\<lparr>ks_keys := ks_keys ks @ [k]\<rparr>))
        (if ks_revision ks = 0 then None else Some (ks_revision ks)) = (Inr f, fs')"
      "keys_hold c m fs' (ks\<lparr>ks_keys := ks_keys ks @ [k], ks_revision := ks_revision ks + 1\<rparr>)"
    by auto
  with k show ?thesis
    by (simp add: add_key_def keys_hold_load [OF assms(1)] assms(4))
qed

lemma revoke_first_props:
  "map key_id (revoke_first kid now ks) = map key_id ks"
  "filter (\<lambda>k. key_id k \<noteq> kid) (revoke_first kid now ks) = filter (\<lambda>k. key_id k \<noteq> kid) ks"
  by (induction ks) auto

lemma revoke_first_valid:
  "(\<forall>k \<in> set ks. api_key_errors k = None) \<Longrightarrow> \<forall>k \<in> set (revoke_first kid now ks). api_key_errors k = None"
  by (induction ks) auto

lemma revoke_first_revokes:
  "distinct (map key_id ks) \<Longrightarrow> k \<in> set (revoke_first kid now ks) \<Longrightarrow> key_id k = kid \<Longrightarrow> revoked_at k = Some now"
proof (induction ks)
  case (Cons x ks)
  show ?case
  proof (cases "key_id x = kid")
    case True
    with Cons.prems have "k \<notin> set ks" by auto
    with Cons.prems True show ?thesis by auto
  next
    case False
    with Cons show ?thesis by auto
  qed
qed simp

text \<open>Revoking a key at the displayed revision retains every record, in order: only the record of
  that id changes, it ends revoked, and a record already revoked keeps its time with nothing written.\<close>

theorem revoke_key_retains:
  assumes "keys_hold c m fs ks" and "has_key kid (ks_keys ks)"
  shows "\<exists>fs' ks'. revoke_key c m fs kid now (ks_revision ks) = (Inr (), fs') \<and> keys_hold c m fs' ks' \<and>
     map key_id (ks_keys ks') = map key_id (ks_keys ks) \<and>
     filter (\<lambda>k. key_id k \<noteq> kid) (ks_keys ks') = filter (\<lambda>k. key_id k \<noteq> kid) (ks_keys ks) \<and>
     (\<forall>k \<in> set (ks_keys ks'). key_id k = kid \<longrightarrow> revoked_at k \<noteq> None) \<and>
     (fs' = fs \<or> ks_keys ks' = revoke_first kid now (ks_keys ks))"
proof -
  have valid: "\<forall>k \<in> set (ks_keys ks). api_key_errors k = None" and dist: "distinct (map key_id (ks_keys ks))"
    using assms(1) by (simp_all add: keys_hold_def key_set_errors_iff)
  obtain k where f: "find (\<lambda>k. key_id k = kid) (ks_keys ks) = Some k"
    using assms(2) by (cases "find (\<lambda>k. key_id k = kid) (ks_keys ks)") (auto simp: has_key_def find_None_iff)
  then have k: "k \<in> set (ks_keys ks)" "key_id k = kid"
    by (auto simp: find_Some_iff)
  show ?thesis
  proof (cases "revoked_at k")
    case None
    let ?ks = "ks\<lparr>ks_keys := revoke_first kid now (ks_keys ks)\<rparr>"
    have "key_set_errors ?ks = None"
      using revoke_first_valid [OF valid, of kid now] dist by (simp add: key_set_errors_iff revoke_first_props)
    moreover have pos: "ks_revision ks \<noteq> 0"
      using assms by (auto simp: keys_hold_def no_keys_def has_key_def)
    ultimately obtain st fs' where w: "write_state c fs keys_file (to_body m ?ks) (Some (ks_revision ks)) = (Inr st, fs')"
        "keys_hold c m fs' (?ks\<lparr>ks_revision := ks_revision ks + 1\<rparr>)"
      using keys_hold_write [OF assms(1), of ?ks] by auto
    then show ?thesis
      using f None revoke_first_revokes [OF dist, of _ kid now]
      by (intro exI [of _ fs'] exI [of _ "?ks\<lparr>ks_revision := ks_revision ks + 1\<rparr>"])
        (auto simp: revoke_key_def keys_hold_load [OF assms(1)] revoke_first_props)
  next
    case (Some t)
    have "\<forall>k' \<in> set (ks_keys ks). key_id k' = kid \<longrightarrow> k' = k"
      using dist k by (auto simp: distinct_map dest: inj_onD)
    then show ?thesis
      using f Some assms(1) by (intro exI [of _ fs] exI [of _ ks])
        (auto simp: revoke_key_def keys_hold_load [OF assms(1)])
  qed
qed

section \<open>The bootstrap key is minted once\<close>

lemma load_existing_holds:
  "keys_hold c m fs ks \<Longrightarrow> load_existing c m fs =
     Inr (if dget fs keys_path = None then (ks\<lparr>ks_revision := 1\<rparr>, False) else (ks, True))"
  using keys_hold_load [of c m fs ks]
  by (auto simp: load_existing_def keys_hold_def no_keys_def load_keys_def split: sum.splits)

lemma strip_credential:
  assumes "secret \<noteq> []" and "list_all (\<lambda>c. \<not> py_space c) secret"
  shows "strip ((KEY_PREFIX @ kid @ U ''_'' @ secret) @ [10]) = KEY_PREFIX @ kid @ U ''_'' @ secret"
proof -
  obtain c r where r: "rev secret = c # r"
    using assms(1) by (cases "rev secret") auto
  then have "c \<in> set secret"
    by (metis list.set_intros(1) set_rev)
  then have "\<not> py_space c"
    using assms(2) by (simp add: list_all_iff)
  then have "dropWhile py_space (rev secret @ x) = rev secret @ x" for x
    by (simp add: r)
  moreover have "\<not> py_space 99" "py_space 10"
    by (simp_all add: py_space_def)
  ultimately show ?thesis
    by (simp add: strip_def strip_by_def lstrip_by_def rstrip_by_def KEY_PREFIX_def U_def)
qed

lemma default_scopes_valid: "validate_scopes DEFAULT_SCOPES = None"
  by (simp add: validate_scopes_def DEFAULT_SCOPES_def API_SCOPES_def)

lemma default_key_made:
  "key_id_pattern kid \<Longrightarrow> \<exists>k. create_key h DEFAULT_KEY_NAME DEFAULT_SCOPES kid secret now True =
     Inr (k, KEY_PREFIX @ kid @ U ''_'' @ secret)"
  using default_scopes_valid
  by (simp add: create_key_def api_key_errors_def validate_key_id_def DEFAULT_KEY_NAME_def Let_def)

text \<open>A directory that has a bootstrap record: nothing is minted and the keys stay as they are.\<close>

lemma bootstrap_keeps:
  assumes "keys_hold c m fs ks" and "find bootstrap_default (ks_keys ks) = Some k"
  shows "\<exists>out sf'. ensure_default_key c m h (fs, sf) kid secret now = (Inr out, fs, sf') \<and> out \<noteq> Generated \<and>
     (out = Kept \<longleftrightarrow> revoked_at k = None \<and> reveals h sf k) \<and> (out = Kept \<longrightarrow> sf' = sf)"
proof -
  have "ks \<noteq> no_keys" using assms(2) by (auto simp: no_keys_def)
  then have "load_existing c m fs = Inr (ks, True)"
    using load_existing_holds [OF assms(1)] assms(1) by (auto simp: keys_hold_def)
  with assms(2) show ?thesis
    by (simp add: ensure_default_key_def)
qed

lemma bootstrap_mints:
  assumes "keys_hold c m fs ks" and "find bootstrap_default (ks_keys ks) = None"
    and "key_id_pattern kid" and "\<not> has_key kid (ks_keys ks)" and "hasher_ok h"
    and "secret \<noteq> []" and "list_all (\<lambda>c. \<not> py_space c) secret"
  shows "\<exists>fs' ks' k text. ensure_default_key c m h (fs, sf) kid secret now = (Inr Generated, fs', Some text) \<and>
     keys_hold c m fs' ks' \<and> ks_keys ks' = ks_keys ks @ [k] \<and> bootstrap_default k \<and>
     revoked_at k = None \<and> reveals h (Some text) k"
proof -
  let ?cred = "KEY_PREFIX @ kid @ U ''_'' @ secret"
  obtain k where k: "create_key h DEFAULT_KEY_NAME DEFAULT_SCOPES kid secret now True = Inr (k, ?cred)"
    using default_key_made [OF assms(3)] by blast
  note p = create_key_credential [OF k assms(6,5)]
  define ks1 where "ks1 = (if dget fs keys_path = None then ks\<lparr>ks_revision := 1\<rparr> else ks)"
  have same: "ks_keys ks1 = ks_keys ks" "ks_version ks1 = ks_version ks"
    by (simp_all add: ks1_def)
  have valid: "key_set_errors (ks1\<lparr>ks_keys := ks_keys ks1 @ [k]\<rparr>) = None"
    using keys_hold_append [OF assms(1), of k] p assms(4) by (simp add: key_set_errors_iff same)
  have i: "(if dget fs keys_path \<noteq> None then Some (ks_revision ks1) else None) =
      (if ks_revision ks = 0 then None else Some (ks_revision ks))"
    using assms(1) by (auto simp: ks1_def keys_hold_def no_keys_def)
  obtain f fs' where w: "write_state c fs keys_file (to_body m (ks1\<lparr>ks_keys := ks_keys ks1 @ [k]\<rparr>))
        (if dget fs keys_path \<noteq> None then Some (ks_revision ks1) else None) = (Inr f, fs')"
      "keys_hold c m fs' (ks1\<lparr>ks_keys := ks_keys ks1 @ [k], ks_revision := ks_revision ks + 1\<rparr>)"
    using keys_hold_write [OF assms(1) valid i] by auto
  have r: "reveals h (Some (?cred @ [10])) k"
    using p strip_credential [OF assms(6,7), of kid] by (simp add: reveals_def)
  have "ensure_default_key c m h (fs, sf) kid secret now = (Inr Generated, fs', Some (?cred @ [10]))"
    using w(1) assms(2) k load_existing_holds [OF assms(1)]
    by (auto simp: ensure_default_key_def ks1_def split: if_splits)
  with w(2) p r show ?thesis
    by (intro exI [of _ fs'] exI [of _ "ks1\<lparr>ks_keys := ks_keys ks1 @ [k], ks_revision := ks_revision ks + 1\<rparr>"]
        exI [of _ k] exI [of _ "?cred @ [10]"]) (simp add: same)
qed

text \<open>Bootstrap mints its key once: on a directory with no bootstrap record it adds one and leaves the
  credential in the reveal file, and running it again, with whatever fresh id and secret, keeps both
  the directory and the reveal file as they are.\<close>

theorem bootstrap_mints_once:
  assumes "keys_hold c m fs ks" and "find bootstrap_default (ks_keys ks) = None"
    and "key_id_pattern kid" and "\<not> has_key kid (ks_keys ks)" and "hasher_ok h"
    and "secret \<noteq> []" and "list_all (\<lambda>c. \<not> py_space c) secret"
  shows "\<exists>w. ensure_default_key c m h (fs, sf) kid secret now = (Inr Generated, w) \<and>
     ensure_default_key c m h w kid2 secret2 now2 = (Inr Kept, w)"
proof -
  obtain fs' ks' k shown where g: "ensure_default_key c m h (fs, sf) kid secret now = (Inr Generated, fs', Some shown)"
      "keys_hold c m fs' ks'" "ks_keys ks' = ks_keys ks @ [k]" "bootstrap_default k" "revoked_at k = None"
      "reveals h (Some shown) k"
    using bootstrap_mints [OF assms] by blast
  have "find bootstrap_default (ks_keys ks') = Some k"
    using assms(2) g(3,4) by (auto simp: find_None_iff find_Some_iff nth_append intro!: exI [of _ "length (ks_keys ks)"])
  from bootstrap_keeps [OF g(2) this, of h "Some shown" kid2 secret2 now2] g show ?thesis by auto
qed

text \<open>C38. Once a bootstrap record exists no run mints another: a revoked default stays revoked, a lost
  credential is reported, and the key file is never written.\<close>

theorem bootstrap_never_replaces:
  assumes "keys_hold c m fs ks" and "find bootstrap_default (ks_keys ks) = Some k"
  shows "\<exists>out sf'. ensure_default_key c m h (fs, sf) kid secret now = (Inr out, fs, sf') \<and>
     out = (if revoked_at k \<noteq> None then Revoked else if reveals h sf k then Kept else Unrecoverable)"
proof -
  have "ks \<noteq> no_keys" using assms(2) by (auto simp: no_keys_def)
  then have "load_existing c m fs = Inr (ks, True)"
    using load_existing_holds [OF assms(1)] assms(1) by (auto simp: keys_hold_def)
  with assms(2) show ?thesis
    by (simp add: ensure_default_key_def)
qed

section \<open>Concrete instances\<close>

definition text_of :: "pyval \<Rightarrow> str" where
  "text_of v = (case v of PStr s \<Rightarrow> s | _ \<Rightarrow> [])"

definition key_body :: "api_key \<Rightarrow> pyval" where
  "key_body k = PMap [(U ''key_id'', PStr (key_id k)), (U ''name'', PStr (key_name k)),
     (U ''hash'', PStr (key_hash k)), (U ''scopes'', PList (map PStr (scopes k))),
     (U ''created_at'', PStr (created_at k)),
     (U ''revoked_at'', case revoked_at k of None \<Rightarrow> PNone | Some t \<Rightarrow> PStr t),
     (U ''bootstrap_default'', PBool (bootstrap_default k))]"

definition body_key :: "pyval \<Rightarrow> api_key" where
  "body_key v = (let d = (case v of PMap d \<Rightarrow> d | _ \<Rightarrow> []) in
     \<lparr>key_id = text_of (fget d (U ''key_id'')), key_name = text_of (fget d (U ''name'')),
      key_hash = text_of (fget d (U ''hash'')), scopes = map text_of (the_list (fget d (U ''scopes''))),
      created_at = text_of (fget d (U ''created_at'')),
      revoked_at = (case fget d (U ''revoked_at'') of PStr t \<Rightarrow> Some t | _ \<Rightarrow> None),
      bootstrap_default = (fget d (U ''bootstrap_default'') = PBool True)\<rparr>)"

definition plain_model :: keys_model where
  "plain_model = \<lparr>from_body = (\<lambda>d. case (fget d (U ''schema_version''), fget d (U ''revision'')) of
       (PInt v, PInt r) \<Rightarrow> Some \<lparr>ks_version = v, ks_revision = r,
          ks_keys = map body_key (the_list (fget d (U ''keys'')))\<rparr> | _ \<Rightarrow> None),
     to_body = (\<lambda>ks. [(U ''schema_version'', PInt (ks_version ks)), (U ''revision'', PInt (ks_revision ks)),
       (U ''keys'', PList (map key_body (ks_keys ks)))])\<rparr>"

lemma body_key_body: "body_key (key_body k) = k"
  by (cases k) (auto simp: body_key_def key_body_def fget_def text_of_def comp_def split: option.splits)

lemma storable_key_body: "storable (key_body k)"
  by (simp add: key_body_def list_all_iff split: option.splits)

lemma body_keys: "body_key \<circ> key_body = id"
  by (simp add: fun_eq_iff body_key_body)

lemma plain_model_ok: "keys_model_ok plain_model"
  using storable_key_body
  by (simp add: keys_model_ok_def plain_model_def state_record_def fget_def body_keys list_all_iff)

definition plain_hasher :: hasher where
  "plain_hasher = \<lparr>hash_secret = (\<lambda>s. s), verify_hash = (\<lambda>e s. if e = s then Some True else None)\<rparr>"

lemma plain_hasher_ok: "hasher_ok plain_hasher"
  by (simp add: hasher_ok_def plain_hasher_def)

lemma fresh_keys: "keys_hold number_codec plain_model [] no_keys"
  by (simp add: keys_hold_def number_codec_ok plain_model_ok no_keys_def key_set_errors_def unique_key_ids_def)

definition sample_id :: str where
  "sample_id = U ''0123456789abcdef''"

lemma sample_id: "key_id_pattern sample_id"
  by (simp add: sample_id_def key_id_pattern_def U_def ascii_digit_def)

theorem add_key_appends_witness:
  "\<exists>fs k credential. add_key number_codec plain_model plain_hasher [] (U ''phone'') [U ''notes:read''] sample_id
       (U ''s'') (U ''t'') 0 = (Inr credential, fs) \<and>
     keys_hold number_codec plain_model fs \<lparr>ks_version = 1, ks_revision = 1, ks_keys = [k]\<rparr>"
proof -
  have s: "validate_scopes [U ''notes:read''] = None"
    by (simp add: validate_scopes_def API_SCOPES_def)
  obtain k credential where k: "create_key plain_hasher (U ''phone'') [U ''notes:read''] sample_id (U ''s'') (U ''t'') False
      = Inr (k, credential)"
    using sample_id s by (simp add: create_key_def api_key_errors_def validate_key_id_def Let_def)
  show ?thesis
    using add_key_appends [OF fresh_keys plain_hasher_ok _ k]
    by (auto simp: has_key_def no_keys_def)
qed

theorem bootstrap_mints_once_witness:
  "\<exists>w. ensure_default_key number_codec plain_model plain_hasher ([], None) sample_id (U ''s'') (U ''t'') = (Inr Generated, w) \<and>
     ensure_default_key number_codec plain_model plain_hasher w sample_id (U ''x'') (U ''u'') = (Inr Kept, w)"
proof -
  have s: "list_all (\<lambda>c. \<not> py_space c) (U ''s'')"
    by (simp add: U_def py_space_def)
  show ?thesis
    by (rule bootstrap_mints_once [OF fresh_keys _ sample_id _ plain_hasher_ok _ s])
      (simp_all add: no_keys_def has_key_def)
qed

text \<open>A directory with one revoked bootstrap record.\<close>

definition revoked_key :: api_key where
  "revoked_key = \<lparr>key_id = sample_id, key_name = U ''k'', key_hash = U ''h'', scopes = [], created_at = U ''t'',
     revoked_at = Some (U ''u''), bootstrap_default = True\<rparr>"

lemma revoked_files: "\<exists>fs. keys_hold number_codec plain_model fs \<lparr>ks_version = 1, ks_revision = 1, ks_keys = [revoked_key]\<rparr>"
proof -
  have "key_set_errors (no_keys\<lparr>ks_keys := [revoked_key]\<rparr>) = None"
    using sample_id by (simp add: key_set_errors_iff api_key_errors_def validate_key_id_def revoked_key_def
        validate_scopes_def no_keys_def)
  from keys_hold_write [OF fresh_keys this refl] show ?thesis
    by (auto simp: no_keys_def)
qed

theorem revoke_key_retains_witness:
  "\<exists>fs fs' ks'. revoke_key number_codec plain_model fs sample_id (U ''z'') 1 = (Inr (), fs') \<and>
     keys_hold number_codec plain_model fs' ks' \<and> map key_id (ks_keys ks') = [sample_id]"
proof -
  obtain fs where fs: "keys_hold number_codec plain_model fs \<lparr>ks_version = 1, ks_revision = 1, ks_keys = [revoked_key]\<rparr>"
    using revoked_files by blast
  show ?thesis
  proof -
    have "has_key sample_id (ks_keys \<lparr>ks_version = 1, ks_revision = 1, ks_keys = [revoked_key]\<rparr>)"
      by (simp add: has_key_def revoked_key_def)
    moreover have "map key_id [revoked_key] = [sample_id]"
      by (simp add: revoked_key_def)
    ultimately show ?thesis
      using revoke_key_retains [OF fs, of sample_id "U ''z''"] by (simp only: key_set.select_convs) metis
  qed
qed

theorem bootstrap_never_replaces_witness:
  "\<exists>fs sf'. ensure_default_key number_codec plain_model plain_hasher (fs, None) sample_id (U ''x'') (U ''u'') =
     (Inr Revoked, fs, sf') \<and> fs \<noteq> []"
proof -
  obtain fs where fs: "keys_hold number_codec plain_model fs \<lparr>ks_version = 1, ks_revision = 1, ks_keys = [revoked_key]\<rparr>"
    using revoked_files by blast
  then have "fs \<noteq> []" by (auto simp: keys_hold_def no_keys_def)
  then show ?thesis
    using bootstrap_never_replaces [OF fs, of revoked_key plain_hasher None sample_id "U ''x''" "U ''u''"]
    by (auto simp: revoked_key_def)
qed

end
