(* ===== verification/ApiAuth.thy ===== *)
theory ApiAuth
  imports ApiKeys
begin

text \<open>
  \<open>coppermind_api/auth.py\<close>: the bearer-key authenticator with its two caches.  The state
  is the authenticator's fields with the clock; a step is what runs between two awaits of
  a request (the event loop runs nothing in between), so requests, loads and slow
  verifications interleave freely.  Waiters resume, with the records just read, before
  another load can end.  \<open>sha\<close> is SHA-256, a parameter of which nothing is assumed.  The
  invariant is that every cached decision stands on the key records in force; it gives
  the bound on how long a revoked key can still be let in.
\<close>

record principal =
  pr_key :: str
  pr_scopes :: "str list"

definition has_scopes :: "principal \<Rightarrow> str list \<Rightarrow> bool" where
  "has_scopes p required \<longleftrightarrow> list_all (\<lambda>s. s \<in> set (pr_scopes p)) required"

record verified_entry =
  ve_principal :: principal
  ve_expires :: nat

text \<open>A request in flight: waiting for the records, or in the Argon2 thread with the generation and
  the expiry it read before.\<close>

datatype request =
    WantsRecords str str str
  | Verifying str str str api_key nat nat

record authenticator =
  clock :: nat
  ttl :: nat
  records :: "(str, api_key) dict"
  records_expire :: nat
  generation :: nat
  verified :: "(str, verified_entry) dict"
  requests :: "request list"

definition new_authenticator :: "nat \<Rightarrow> nat \<Rightarrow> authenticator" where
  "new_authenticator t now = \<lparr>clock = now, ttl = t, records = [], records_expire = 0, generation = 0,
     verified = [], requests = []\<rparr>"

text \<open>\<open>{record.key_id: record for record in key_set.keys}\<close>: the last record of an id wins.\<close>

definition records_of :: "api_key list \<Rightarrow> (str, api_key) dict" where
  "records_of ks = foldl (\<lambda>d k. dict_set d (key_id k) k) [] ks"

definition principal_of :: "api_key \<Rightarrow> principal" where
  "principal_of k = \<lparr>pr_key = key_id k, pr_scopes = remdups (scopes k)\<rparr>"

datatype answer = Denied | Granted principal | Unavailable

text \<open>The header: the credential of a bearer authorization, with its key id and secret.\<close>

definition bearer :: "str option \<Rightarrow> (str \<times> str \<times> str) option" where
  "bearer authorization =
     (case authorization of None \<Rightarrow> None
      | Some a \<Rightarrow>
          if \<not> startswith a (U ''Bearer '') then None
          else let credential = strip (drop 7 a)
               in (case split_credential credential of None \<Rightarrow> None
                   | Some (kid, secret) \<Rightarrow> Some (credential, kid, secret)))"

text \<open>The start of \<open>authenticate\<close>, up to its first await: an answer, or a request in flight.\<close>

definition begin_request :: "(str \<Rightarrow> str) \<Rightarrow> authenticator \<Rightarrow> str option \<Rightarrow> answer + request" where
  "begin_request sha s authorization =
     (case bearer authorization of None \<Rightarrow> Inl Denied
      | Some (credential, kid, secret) \<Rightarrow>
          (case dget (verified s) (sha credential) of
             Some e \<Rightarrow> if clock s < ve_expires e then Inl (Granted (ve_principal e))
                        else Inr (WantsRecords credential kid secret)
           | None \<Rightarrow> Inr (WantsRecords credential kid secret)))"

text \<open>The loop body up to the Argon2 await, once the records are at hand.\<close>

definition examine :: "authenticator \<Rightarrow> str \<Rightarrow> str \<Rightarrow> str \<Rightarrow> answer + request" where
  "examine s credential kid secret =
     (case dget (records s) kid of None \<Rightarrow> Inl Denied
      | Some k \<Rightarrow> if revoked_at k \<noteq> None then Inl Denied
          else Inr (Verifying credential kid secret k (generation s) (records_expire s)))"

text \<open>What follows the Argon2 await: refused, once more round the loop, or kept and granted.\<close>

definition conclude ::
  "hasher \<Rightarrow> (str \<Rightarrow> str) \<Rightarrow> authenticator \<Rightarrow> request \<Rightarrow> (answer + request) \<times> authenticator" where
  "conclude h sha s r =
     (case r of WantsRecords credential kid secret \<Rightarrow> (Inr r, s)
      | Verifying credential kid secret k gen until \<Rightarrow>
          if \<not> verify_secret h (key_hash k) secret then (Inl Denied, s)
          else if generation s \<noteq> gen then (Inr (WantsRecords credential kid secret), s)
          else (Inl (Granted (principal_of k)),
                s\<lparr>verified := dict_set (verified s) (sha credential)
                    \<lparr>ve_principal = principal_of k, ve_expires = until\<rparr>\<rparr>))"

text \<open>\<open>_read_key_set\<close>, when the store answered with the keys \<open>ks\<close>.\<close>

definition loaded :: "authenticator \<Rightarrow> api_key list \<Rightarrow> authenticator" where
  "loaded s ks = s\<lparr>records := records_of ks, records_expire := clock s + ttl s,
     generation := Suc (generation s), verified := []\<rparr>"

definition settle :: "authenticator \<Rightarrow> request list \<Rightarrow> answer + request \<Rightarrow> authenticator" where
  "settle s rest out = s\<lparr>requests := (case out of Inl a \<Rightarrow> rest | Inr r \<Rightarrow> r # rest)\<rparr>"

definition answer_of :: "answer + request \<Rightarrow> answer option" where
  "answer_of out = (case out of Inl a \<Rightarrow> Some a | Inr r \<Rightarrow> None)"

text \<open>
  A step of the authenticator: time passes; a request begins; a waiting request goes on,
  with the records at hand when they have not expired, or with those its load brings;
  the store answers (with keys \<open>gives\<close> admits) or fails; a verification ends.  The label is
  the answer given, if one is.  Requests that joined a load go on with the records at hand.
\<close>

inductive auth_step ::
  "hasher \<Rightarrow> (str \<Rightarrow> str) \<Rightarrow> (api_key list \<Rightarrow> bool) \<Rightarrow> authenticator \<Rightarrow> answer option \<Rightarrow> authenticator \<Rightarrow> bool"
  for h sha gives where
  tick: "clock s \<le> t \<Longrightarrow> auth_step h sha gives s None (s\<lparr>clock := t\<rparr>)"
| start: "begin_request sha s a = out \<Longrightarrow> auth_step h sha gives s (answer_of out) (settle s (requests s) out)"
| at_hand: "r \<in> set (requests s) \<Longrightarrow> r = WantsRecords credential kid secret \<Longrightarrow> clock s < records_expire s \<Longrightarrow>
    examine s credential kid secret = out \<Longrightarrow>
    auth_step h sha gives s (answer_of out) (settle s (remove1 r (requests s)) out)"
| load: "r \<in> set (requests s) \<Longrightarrow> r = WantsRecords credential kid secret \<Longrightarrow> records_expire s \<le> clock s \<Longrightarrow>
    gives ks \<Longrightarrow> s1 = loaded s ks \<Longrightarrow> examine s1 credential kid secret = out \<Longrightarrow>
    auth_step h sha gives s (answer_of out) (settle s1 (remove1 r (requests s1)) out)"
| unavailable: "r \<in> set (requests s) \<Longrightarrow> r = WantsRecords credential kid secret \<Longrightarrow>
    auth_step h sha gives s (Some Unavailable) (s\<lparr>requests := remove1 r (requests s)\<rparr>)"
| decide: "r \<in> set (requests s) \<Longrightarrow> r = Verifying credential kid secret k gen until \<Longrightarrow>
    conclude h sha s r = (out, s1) \<Longrightarrow>
    auth_step h sha gives s (answer_of out) (settle s1 (remove1 r (requests s)) out)"

inductive auth_reach ::
  "hasher \<Rightarrow> (str \<Rightarrow> str) \<Rightarrow> (api_key list \<Rightarrow> bool) \<Rightarrow> authenticator \<Rightarrow> authenticator \<Rightarrow> bool"
  for h sha gives s0 where
  here: "auth_reach h sha gives s0 s0"
| more: "auth_reach h sha gives s0 s \<Longrightarrow> auth_step h sha gives s a s' \<Longrightarrow> auth_reach h sha gives s0 s'"

inductive_cases auth_stepE: "auth_step h sha gives s a s'"

section \<open>Cached decisions stand on the records in force\<close>

text \<open>The credential was accepted for an unrevoked record of the snapshot in force.\<close>

definition stands :: "hasher \<Rightarrow> authenticator \<Rightarrow> str \<Rightarrow> principal \<Rightarrow> bool" where
  "stands h s credential p \<longleftrightarrow> (\<exists>kid secret k. split_credential credential = Some (kid, secret) \<and>
     dget (records s) kid = Some k \<and> revoked_at k = None \<and> verify_secret h (key_hash k) secret \<and>
     p = principal_of k)"

definition entry_ok :: "hasher \<Rightarrow> (str \<Rightarrow> str) \<Rightarrow> authenticator \<Rightarrow> str \<times> verified_entry \<Rightarrow> bool" where
  "entry_ok h sha s e \<longleftrightarrow> ve_expires (snd e) = records_expire s \<and>
     (\<exists>credential. fst e = sha credential \<and> stands h s credential (ve_principal (snd e)))"

fun request_ok :: "authenticator \<Rightarrow> request \<Rightarrow> bool" where
  "request_ok s (WantsRecords credential kid secret) = (split_credential credential = Some (kid, secret))"
| "request_ok s (Verifying credential kid secret k gen until) =
     (split_credential credential = Some (kid, secret) \<and> gen \<le> generation s \<and>
      (gen = generation s \<longrightarrow> until = records_expire s \<and> dget (records s) kid = Some k \<and> revoked_at k = None))"

definition auth_inv :: "hasher \<Rightarrow> (str \<Rightarrow> str) \<Rightarrow> authenticator \<Rightarrow> bool" where
  "auth_inv h sha s \<longleftrightarrow> list_all (entry_ok h sha s) (verified s) \<and> list_all (request_ok s) (requests s) \<and>
     list_all (\<lambda>(i, k). key_id k = i) (records s) \<and> records_expire s \<le> clock s + ttl s"

lemma bearer_credential: "bearer a = Some (credential, kid, secret) \<Longrightarrow> split_credential credential = Some (kid, secret)"
  by (auto simp: bearer_def Let_def split: option.splits if_splits)

lemma dict_set_all: "list_all P d \<Longrightarrow> P (k, v) \<Longrightarrow> list_all P (dict_set d k v)"
  by (induction d k v rule: dict_set.induct) auto

lemma list_all_remove1: "list_all P xs \<Longrightarrow> list_all P (remove1 x xs)"
  using set_remove1_subset by (fastforce simp: list_all_iff)

lemma begin_ok: "begin_request sha s a = Inr r \<Longrightarrow> request_ok s r"
  using bearer_credential
  by (auto simp: begin_request_def split: option.splits if_splits prod.splits)

lemma examine_ok:
  "split_credential credential = Some (kid, secret) \<Longrightarrow> examine s credential kid secret = Inr r \<Longrightarrow> request_ok s r"
  by (auto simp: examine_def split: option.splits if_splits)

lemma entry_ok_more [simp]:
  "entry_ok h sha (s\<lparr>requests := rs\<rparr>) = entry_ok h sha s" "entry_ok h sha (s\<lparr>clock := t\<rparr>) = entry_ok h sha s"
  "entry_ok h sha (s\<lparr>verified := vs\<rparr>) = entry_ok h sha s"
  by (simp_all add: fun_eq_iff entry_ok_def stands_def)

lemma request_ok_more [simp]:
  "request_ok (s\<lparr>requests := rs\<rparr>) = request_ok s" "request_ok (s\<lparr>clock := t\<rparr>) = request_ok s"
  "request_ok (s\<lparr>verified := vs\<rparr>) = request_ok s"
  by (auto simp: fun_eq_iff elim!: request_ok.elims)

lemma request_ok_loaded: "request_ok s r \<Longrightarrow> request_ok (loaded s ks) r"
  by (cases r) (auto simp: loaded_def)

lemma records_of_from:
  "\<forall>e \<in> set d. key_id (snd e) = fst e \<Longrightarrow>
     \<forall>e \<in> set (foldl (\<lambda>d k. dict_set d (key_id k) k) d ks). key_id (snd e) = fst e \<and>
        (e \<in> set d \<or> snd e \<in> set ks)"
proof (induction ks arbitrary: d)
  case (Cons k ks)
  have set: "set (dict_set d (key_id k) k) \<subseteq> insert (key_id k, k) (set d)"
    by (induction d "key_id k" k rule: dict_set.induct) auto
  with Cons.prems have "\<forall>e \<in> set (dict_set d (key_id k) k). key_id (snd e) = fst e"
    by auto
  from Cons.IH [OF this] set show ?case by fastforce
qed simp

lemma records_of_ids: "e \<in> set (records_of ks) \<Longrightarrow> key_id (snd e) = fst e \<and> snd e \<in> set ks"
  using records_of_from [of "[]" ks] by (auto simp: records_of_def)

lemma loaded_inv: "auth_inv h sha s \<Longrightarrow> auth_inv h sha (loaded s ks)"
  using request_ok_loaded [of s _ ks] records_of_ids [of _ ks]
  by (auto simp: auth_inv_def list_all_iff) (auto simp: loaded_def)

lemma settle_inv:
  "auth_inv h sha s \<Longrightarrow> list_all (request_ok s) rest \<Longrightarrow> (\<And>r. out = Inr r \<Longrightarrow> request_ok s r) \<Longrightarrow>
     auth_inv h sha (settle s rest out)"
  by (auto simp: auth_inv_def settle_def split: sum.splits)

lemma settle_same: "\<lbrakk>auth_inv h sha s; \<And>r. out = Inr r \<Longrightarrow> request_ok s r\<rbrakk> \<Longrightarrow> auth_inv h sha (settle s (requests s) out)"
  by (rule settle_inv) (auto simp: auth_inv_def)

lemma conclude_inv:
  assumes "auth_inv h sha s" and "request_ok s r" and "conclude h sha s r = (out, s1)"
  shows "auth_inv h sha s1 \<and> (\<forall>r'. out = Inr r' \<longrightarrow> request_ok s1 r') \<and> requests s1 = requests s"
proof (cases r)
  case (Verifying credential kid secret k gen until)
  have "entry_ok h sha s (sha credential, \<lparr>ve_principal = principal_of k, ve_expires = until\<rparr>)"
    if "verify_secret h (key_hash k) secret" "generation s = gen"
    using that assms(2) Verifying by (auto simp: entry_ok_def stands_def)
  then show ?thesis
    using assms Verifying by (auto simp: conclude_def auth_inv_def split: if_splits intro!: dict_set_all)
qed (use assms in \<open>auto simp: conclude_def\<close>)

lemma auth_step_inv:
  assumes "auth_step h sha gives s a s'" and "auth_inv h sha s"
  shows "auth_inv h sha s'"
proof -
  have req: "r \<in> set (requests s) \<Longrightarrow> request_ok s r" for r
    using assms(2) by (auto simp: auth_inv_def list_all_iff)
  have rest: "list_all (request_ok s) (remove1 r (requests s))" for r
    using assms(2) by (simp add: auth_inv_def list_all_remove1)
  from assms(1) show ?thesis
  proof cases
    case (tick t)
    with assms(2) show ?thesis by (simp add: auth_inv_def)
  next
    case (start ha out)
    with assms(2) begin_ok show ?thesis by (auto intro!: settle_same)
  next
    case (at_hand r credential kid secret out)
    with req [of r] rest assms(2) examine_ok show ?thesis by (auto intro!: settle_inv)
  next
    case (load r credential kid secret ks s1 out)
    have i: "auth_inv h sha s1"
      using loaded_inv assms(2) load by simp
    moreover have "list_all (request_ok s1) (remove1 r (requests s1))"
      using i by (simp add: auth_inv_def list_all_remove1)
    ultimately show ?thesis
      using load req [of r] examine_ok by (auto intro!: settle_inv)
  next
    case (unavailable r)
    with rest assms(2) show ?thesis by (simp add: auth_inv_def)
  next
    case (decide r credential kid secret k gen until out s1)
    then have r: "request_ok s r" "conclude h sha s r = (out, s1)" using req [of r] by simp_all
    note c = conclude_inv [OF assms(2) r]
    then have "list_all (request_ok s1) (remove1 r (requests s))"
      by (metis auth_inv_def list_all_remove1)
    with c decide show ?thesis by (auto intro!: settle_inv)
  qed
qed

lemma auth_reach_inv: "auth_reach h sha gives s0 s \<Longrightarrow> auth_inv h sha s0 \<Longrightarrow> auth_inv h sha s"
  by (induction rule: auth_reach.induct) (auto intro: auth_step_inv)

lemma new_inv: "auth_inv h sha (new_authenticator t now)"
  by (simp add: auth_inv_def new_authenticator_def)

text \<open>The keys the store gives hold no live record of the id.\<close>

definition dead :: "str \<Rightarrow> api_key list \<Rightarrow> bool" where
  "dead kid ks \<longleftrightarrow> list_all (\<lambda>k. key_id k = kid \<longrightarrow> revoked_at k \<noteq> None) ks"

lemma dead_records:
  "dead kid ks \<Longrightarrow> e \<in> set (records_of ks) \<Longrightarrow> key_id (snd e) = kid \<Longrightarrow> revoked_at (snd e) \<noteq> None"
  using records_of_ids [of e ks] by (auto simp: dead_def list_all_iff)

definition gone :: "str \<Rightarrow> authenticator \<Rightarrow> bool" where
  "gone kid s \<longleftrightarrow> dead kid (map snd (records s))"

lemma gone_loaded: "dead kid ks \<Longrightarrow> gone kid (loaded s ks)"
  using dead_records [of kid ks] by (auto simp: gone_def dead_def loaded_def list_all_iff)

text \<open>From the time the store stopped giving the key: the snapshot in force is one without it, or
  expires within one cache life of that time.\<close>

lemma revoked_step:
  assumes "auth_step h sha gives s a s'" and "\<forall>ks. gives ks \<longrightarrow> dead kid ks"
    and "gone kid s \<or> records_expire s \<le> t + ttl s"
  shows "gone kid s' \<or> records_expire s' \<le> t + ttl s'"
  using assms(1)
proof cases
  case (load r credential k secret ks s1 out)
  then have "gone kid s1"
    using gone_loaded assms(2) by simp
  with load show ?thesis by (simp add: settle_def gone_def)
next
  case (decide r credential k secret ke gen until out s1)
  then have "records s1 = records s" "records_expire s1 = records_expire s" "ttl s1 = ttl s"
    by (auto simp: conclude_def split: if_splits)
  with decide assms(3) show ?thesis by (simp add: settle_def gone_def)
qed (use assms(3) in \<open>auto simp: settle_def gone_def\<close>)

lemma step_times: "auth_step h sha gives s a s' \<Longrightarrow> ttl s' = ttl s \<and> clock s \<le> clock s'"
  by (erule auth_stepE) (auto simp: settle_def loaded_def conclude_def split: if_splits)

lemma revoked_reach:
  assumes "auth_reach h sha gives s0 s" and "\<forall>ks. gives ks \<longrightarrow> dead kid ks" and "auth_inv h sha s0"
  shows "ttl s = ttl s0 \<and> clock s0 \<le> clock s \<and> (gone kid s \<or> records_expire s \<le> clock s0 + ttl s)"
  using assms(1)
proof induction
  case here
  with assms(3) show ?case by (simp add: auth_inv_def)
next
  case (more s a s')
  with revoked_step [OF more.hyps(2) assms(2), of "clock s0"] step_times [OF more.hyps(2)] show ?case by auto
qed

lemma gone_examine: "auth_inv h sha s \<Longrightarrow> gone kid s \<Longrightarrow> examine s credential kid secret = Inl Denied"
  by (fastforce simp: examine_def gone_def dead_def auth_inv_def list_all_iff dest!: map_of_SomeD split: option.splits)

lemma gone_stands: "gone kid s \<Longrightarrow> stands h s credential p \<Longrightarrow> pr_key p \<noteq> kid"
  by (auto simp: stands_def gone_def dead_def principal_of_def list_all_iff dest!: map_of_SomeD)

text \<open>C37. A revoked key is let in by the caches for at most one cache life: from a state on, let the store
  give no live record of the key; then once the life has passed, no cached decision grants it, and
  any request that has yet to look at the key records is denied, whatever runs in between.\<close>

theorem revocation_takes_effect:
  assumes "auth_inv h sha s0" and "auth_reach h sha gives s0 s" and "\<forall>ks. gives ks \<longrightarrow> dead kid ks"
    and "clock s0 + ttl s0 \<le> clock s"
  shows "(\<forall>a p. begin_request sha s a = Inl (Granted p) \<longrightarrow> pr_key p \<noteq> kid) \<and>
     (clock s < records_expire s \<longrightarrow> examine s credential kid secret = Inl Denied) \<and>
     (gives ks \<longrightarrow> examine (loaded s ks) credential kid secret = Inl Denied)"
proof -
  have inv: "auth_inv h sha s"
    by (rule auth_reach_inv [OF assms(2,1)])
  have r: "ttl s = ttl s0" "gone kid s \<or> records_expire s \<le> clock s0 + ttl s"
    using revoked_reach [OF assms(2,3,1)] by auto
  have in_force: "gone kid s" if "clock s < records_expire s"
    using that r assms(4) by auto
  have "pr_key p \<noteq> kid" if b: "begin_request sha s a = Inl (Granted p)" for a p
  proof -
    from b obtain x e where "dget (verified s) x = Some e" "clock s < ve_expires e" "p = ve_principal e"
      by (auto simp: begin_request_def split: option.splits if_splits prod.splits)
    moreover from this inv have "entry_ok h sha s (x, e)"
      by (auto simp: auth_inv_def list_all_iff dest!: map_of_SomeD)
    ultimately have "gone kid s" "\<exists>c. stands h s c p"
      using in_force by (auto simp: entry_ok_def)
    then show ?thesis
      using gone_stands by blast
  qed
  moreover have "examine (loaded s ks) credential kid secret = Inl Denied" if "gives ks"
    using that assms(3) gone_loaded loaded_inv [OF inv] gone_examine by blast
  ultimately show ?thesis
    using in_force gone_examine [OF inv] by blast
qed

theorem revocation_takes_effect_witness:
  "examine (loaded (new_authenticator 300 5) [revoked_key]) (U ''x'') sample_id (U ''y'') = Inl Denied"
proof -
  let ?s0 = "new_authenticator 0 5"
  have "auth_reach plain_hasher id (\<lambda>ks. ks = [revoked_key]) ((new_authenticator 300 5)\<lparr>clock := 5\<rparr>) 
      ((new_authenticator 300 5)\<lparr>clock := 5, clock := 400\<rparr>)"
    by (rule auth_reach.more [OF auth_reach.here auth_step.tick]) (simp add: new_authenticator_def)
  then have r: "auth_reach plain_hasher id (\<lambda>ks. ks = [revoked_key]) (new_authenticator 300 5) ((new_authenticator 300 5)\<lparr>clock := 400\<rparr>)"
    by (simp add: new_authenticator_def)
  have "examine (loaded ((new_authenticator 300 5)\<lparr>clock := 400\<rparr>) [revoked_key]) (U ''x'') sample_id (U ''y'') = Inl Denied"
    using revocation_takes_effect [OF new_inv r, of sample_id "U ''x''" "U ''y''" "[revoked_key]"]
    by (simp add: dead_def revoked_key_def) (simp add: new_authenticator_def)
  then show ?thesis
    by (simp add: examine_def loaded_def new_authenticator_def records_of_def revoked_key_def)
qed

text \<open>Nobody is let in without a secret: whenever a step grants a principal, the snapshot in force
  holds an unrevoked record with that id and scopes whose hash accepts the secret of a credential
  with the same SHA-256 as the one presented, for cached and fresh decisions alike.\<close>

theorem granted_is_verified:
  assumes "auth_reach h sha gives (new_authenticator t now) s" and "auth_step h sha gives s (Some (Granted p)) s'"
  shows "\<exists>credential. stands h s credential p"
proof -
  have inv: "auth_inv h sha s"
    by (rule auth_reach_inv [OF assms(1) new_inv])
  from assms(2) show ?thesis
  proof cases
    case (start a out)
    then obtain x e where "dget (verified s) x = Some e" "p = ve_principal e"
      by (auto simp: begin_request_def answer_of_def split: option.splits if_splits prod.splits sum.splits)
    with inv have "entry_ok h sha s (x, e)"
      by (auto simp: auth_inv_def list_all_iff dest!: map_of_SomeD)
    with \<open>p = ve_principal e\<close> show ?thesis by (auto simp: entry_ok_def)
  next
    case (decide r credential kid secret k gen until out s1)
    then have "request_ok s r" using inv by (auto simp: auth_inv_def list_all_iff)
    with decide have "stands h s credential p"
      by (auto simp: conclude_def answer_of_def stands_def split: if_splits sum.splits)
    then show ?thesis by blast
  qed (auto simp: examine_def answer_of_def split: option.splits if_splits sum.splits)
qed

lemma requests_add: "requests (settle s (requests s) (Inr r)) = r # requests s"
  by (simp add: settle_def)

text \<open>A request let in: it begins, loads the keys and its secret verifies.\<close>

definition live_key :: api_key where
  "live_key = revoked_key\<lparr>revoked_at := None\<rparr>"

definition live_credential :: str where
  "live_credential = KEY_PREFIX @ sample_id @ U ''_'' @ U ''h''"

theorem granted_is_verified_witness:
  "\<exists>s s'. auth_step plain_hasher id (\<lambda>ks. ks = [live_key]) s (Some (Granted (principal_of live_key))) s' \<and>
     (\<exists>credential. stands plain_hasher s credential (principal_of live_key))"
proof -
  let ?gives = "\<lambda>ks. ks = [live_key]"
  let ?c = live_credential
  define s0 where "s0 = new_authenticator 300 5"
  define r where "r = WantsRecords ?c sample_id (U ''h'')"
  have sp: "split_credential ?c = Some (sample_id, U ''h'')"
    unfolding live_credential_def by (rule split_credential_made [OF sample_id]) simp
  have st: "strip ?c = ?c"
  proof -
    have "?c = 99 # tl ?c" "last ?c = 104"
      by (simp_all add: live_credential_def KEY_PREFIX_def U_def)
    then have "?c \<noteq> []" "hd ?c = 99" "last ?c = 104"
      by (metis list.distinct(1), metis list.sel(1), simp)
    then show ?thesis
      unfolding strip_def by (intro strip_by_id) (simp add: trimmed_by_def py_space_def)
  qed
  have "bearer (Some (U ''Bearer '' @ ?c)) = Some (?c, sample_id, U ''h'')"
    by (simp add: bearer_def st sp)
  then have b: "begin_request id s0 (Some (U ''Bearer '' @ ?c)) = Inr r"
    by (simp add: begin_request_def s0_def new_authenticator_def r_def)
  define s1 where "s1 = settle s0 (requests s0) (Inr r)"
  define v where "v = Verifying ?c sample_id (U ''h'') live_key 1 305"
  define s2 where "s2 = settle (loaded s1 [live_key]) (remove1 r (requests (loaded s1 [live_key]))) (Inr v)"
  have 1: "auth_step plain_hasher id ?gives s0 None s1"
    using auth_step.start [OF b, of plain_hasher ?gives] by (simp add: answer_of_def s1_def)
  have "examine (loaded s1 [live_key]) ?c sample_id (U ''h'') = Inr v"
    by (simp add: examine_def loaded_def s1_def s0_def new_authenticator_def settle_def records_of_def
        live_key_def revoked_key_def v_def)
  from auth_step.load [of r s1 ?c sample_id "U ''h''" ?gives "[live_key]", OF _ r_def _ refl refl this, of plain_hasher id]
  have 2: "auth_step plain_hasher id ?gives s1 None s2"
    by (simp add: answer_of_def s2_def s1_def settle_def s0_def new_authenticator_def)
  have reach: "auth_reach plain_hasher id ?gives (new_authenticator 300 5) s2"
    using auth_reach.more [OF auth_reach.more [OF auth_reach.here 1] 2] by (simp add: s0_def)
  have v2: "v \<in> set (requests s2)"
    by (simp add: s2_def settle_def)
  have "fst (conclude plain_hasher id s2 v) = Inl (Granted (principal_of live_key))"
    by (simp add: conclude_def v_def s2_def settle_def loaded_def s1_def s0_def new_authenticator_def
        verify_secret_def plain_hasher_def live_key_def revoked_key_def)
  then obtain s3 where "conclude plain_hasher id s2 v = (Inl (Granted (principal_of live_key)), s3)"
    by (metis prod.collapse)
  from auth_step.decide [OF v2 v_def this, of ?gives] obtain s' where
    g: "auth_step plain_hasher id ?gives s2 (Some (Granted (principal_of live_key))) s'"
    by (auto simp: answer_of_def)
  from granted_is_verified [OF reach g] g show ?thesis by blast
qed

end
