(* ===== verification/AdminAuth.thy ===== *)
theory AdminAuth
  imports StateFiles
begin

text \<open>
  \<open>coppermind_admin/auth.py\<close>: the one admin record, the claim that creates it, and the
  signed sessions.  Argon2, HMAC with its text encoding, the random secrets and the clock
  are parameters.  A claim has two parts, the checks and the exclusive creation of
  \<open>admin.json\<close>; two processes may run them in any order, so the theorems are about
  sequences of creations.
\<close>

datatype verify_outcome = Match | Mismatch | Malformed

record crypto =
  hash_password :: "str \<Rightarrow> str"
  verify_hash_outcome :: "str \<Rightarrow> str \<Rightarrow> verify_outcome"
  mac :: "nat list \<Rightarrow> str \<Rightarrow> str"
  mac_hex :: "nat list \<Rightarrow> str \<Rightarrow> str"

datatype admin_error =
    AlreadyClaimed
  | InvalidClaimCode
  | AdminRecordUnreadable
  | ClaimCodeUnreadable
  | ClaimStateUnwritable

text \<open>The claim code as the volume gives it: absent, refused by the system, or its text.\<close>

datatype code_file = CodeAbsent | CodeRefused | CodeText str

record volume =
  vol_files :: files
  claim_code :: code_file

definition admin_path :: str where
  "admin_path = U ''admin.json''"

definition is_claimed :: "volume \<Rightarrow> bool" where
  "is_claimed v \<longleftrightarrow> dget (vol_files v) admin_path \<noteq> None"

text \<open>The checks before the password is hashed.\<close>

definition claim_checks :: "volume \<Rightarrow> str \<Rightarrow> admin_error option" where
  "claim_checks v code =
     (if is_claimed v then Some AlreadyClaimed
      else case claim_code v of
        CodeAbsent \<Rightarrow> Some InvalidClaimCode
      | CodeRefused \<Rightarrow> Some ClaimCodeUnreadable
      | CodeText text \<Rightarrow> (let expected = strip text
          in if expected = [] \<or> strip code \<noteq> expected then Some InvalidClaimCode else None))"

definition claim_body :: "crypto \<Rightarrow> str \<Rightarrow> str \<Rightarrow> str \<Rightarrow> fmap" where
  "claim_body k password secret now =
     [(U ''schema_version'', PInt 1), (U ''revision'', PInt 1),
      (U ''password_hash'', PStr (hash_password k password)),
      (U ''session_secret'', PStr secret), (U ''claimed_at'', PStr now)]"

text \<open>
  The creation and the removal of the code.  \<open>refused\<close> is an \<open>OSError\<close> of the exclusive
  create, \<open>kept\<close> one of the unlink, which the code suppresses.
\<close>

definition claim_create ::
  "codec \<Rightarrow> crypto \<Rightarrow> bool \<Rightarrow> bool \<Rightarrow> volume \<Rightarrow> str \<Rightarrow> str \<Rightarrow> str \<Rightarrow> admin_error option \<times> volume" where
  "claim_create c k refused kept v password secret now =
     (if is_claimed v then (Some AlreadyClaimed, v)
      else if refused then (Some ClaimStateUnwritable, v)
      else (None, v\<lparr>vol_files := dict_set (vol_files v) admin_path
                      (dump_file c admin_path (claim_body k password secret now), 384),
                    claim_code := (if kept then claim_code v else CodeAbsent)\<rparr>))"

definition claim ::
  "codec \<Rightarrow> crypto \<Rightarrow> bool \<Rightarrow> bool \<Rightarrow> volume \<Rightarrow> str \<Rightarrow> str \<Rightarrow> str \<Rightarrow> str \<Rightarrow> admin_error option \<times> volume" where
  "claim c k refused kept v code password secret now =
     (case claim_checks v code of Some e \<Rightarrow> (Some e, v)
      | None \<Rightarrow> claim_create c k refused kept v password secret now)"

definition admin_record :: "codec \<Rightarrow> volume \<Rightarrow> admin_error + fmap" where
  "admin_record c v = (case read_state c (vol_files v) (U ''admin'') of
     Inl e \<Rightarrow> Inl AdminRecordUnreadable | Inr f \<Rightarrow> Inr (sf_body f))"

definition ascii_text :: "str \<Rightarrow> bool" where
  "ascii_text s \<longleftrightarrow> list_all (\<lambda>c. c < 128) s"

definition verify_password :: "codec \<Rightarrow> crypto \<Rightarrow> volume \<Rightarrow> str \<Rightarrow> admin_error + bool" where
  "verify_password c k v password =
     (case admin_record c v of Inl e \<Rightarrow> Inl e
      | Inr body \<Rightarrow> (case fget body (U ''password_hash'') of
          PStr encoded \<Rightarrow> if \<not> ascii_text encoded then Inl AdminRecordUnreadable
             else (case verify_hash_outcome k encoded password of
                 Match \<Rightarrow> Inr True | Mismatch \<Rightarrow> Inr False | Malformed \<Rightarrow> Inl AdminRecordUnreadable)
        | _ \<Rightarrow> Inl AdminRecordUnreadable))"

definition hex_digit :: "cpoint \<Rightarrow> nat option" where
  "hex_digit c = (if ascii_digit c then Some (c - 48)
     else if 97 \<le> c \<and> c \<le> 102 then Some (c - 87) else if 65 \<le> c \<and> c \<le> 70 then Some (c - 55) else None)"

text \<open>\<open>bytes.fromhex\<close>: pairs of digits, with ASCII whitespace between the pairs.\<close>

fun fromhex :: "str \<Rightarrow> nat list option" where
  "fromhex [] = Some []"
| "fromhex (c # s) =
     (if (9 \<le> c \<and> c \<le> 13) \<or> c = 32 then fromhex s
      else case s of [] \<Rightarrow> None
        | d # s' \<Rightarrow> (case (hex_digit c, hex_digit d, fromhex s') of
            (Some a, Some b, Some r) \<Rightarrow> Some ((16 * a + b) # r) | _ \<Rightarrow> None))"

definition session_secret :: "codec \<Rightarrow> volume \<Rightarrow> admin_error + nat list" where
  "session_secret c v =
     (case admin_record c v of Inl e \<Rightarrow> Inl e
      | Inr body \<Rightarrow> (case fget body (U ''session_secret'') of
          PStr encoded \<Rightarrow> if length encoded \<noteq> 64 then Inl AdminRecordUnreadable
             else (case fromhex encoded of None \<Rightarrow> Inl AdminRecordUnreadable
               | Some secret \<Rightarrow> if length secret \<noteq> 32 then Inl AdminRecordUnreadable else Inr secret)
        | _ \<Rightarrow> Inl AdminRecordUnreadable))"

section \<open>Signed sessions\<close>

text \<open>\<open>int\<close> of a text: it allows spaces around, a sign, single underscores.\<close>

definition int_text :: "str \<Rightarrow> int option" where
  "int_text s =
     (let t = strip s;
          body = (if t \<noteq> [] \<and> (hd t = 45 \<or> hd t = 43) then tl t else t);
          parts = split_on 95 body
      in if list_all (\<lambda>p. p \<noteq> [] \<and> list_all ascii_digit p) parts
         then (case digits_val 0 (concat parts) of None \<Rightarrow> None
               | Some n \<Rightarrow> Some (if t \<noteq> [] \<and> hd t = 45 then - int n else int n))
         else None)"

text \<open>Times are whole microseconds since the epoch.\<close>

definition seconds :: "int \<Rightarrow> int" where
  "seconds t = t div 1000000"

definition session_payload :: "str \<Rightarrow> str \<Rightarrow> str" where
  "session_payload expires nonce = U ''v1.'' @ expires @ U ''.'' @ nonce"

definition create_session :: "codec \<Rightarrow> crypto \<Rightarrow> volume \<Rightarrow> int \<Rightarrow> int \<Rightarrow> str \<Rightarrow> admin_error + str" where
  "create_session c k v now lifetime nonce =
     (let payload = session_payload (int_str (seconds (now + lifetime))) nonce
      in case session_secret c v of Inl e \<Rightarrow> Inl e
         | Inr secret \<Rightarrow> Inr (payload @ U ''.'' @ mac k secret payload))"

definition valid_session :: "codec \<Rightarrow> crypto \<Rightarrow> volume \<Rightarrow> int \<Rightarrow> str \<Rightarrow> admin_error + bool" where
  "valid_session c k v now token =
     (if 512 < length token \<or> \<not> ascii_text token then Inr False
      else case split_on 46 token of
        [version, expires, nonce, signature] \<Rightarrow>
          (case int_text expires of None \<Rightarrow> Inr False
           | Some expiry \<Rightarrow>
               if version \<noteq> U ''v1'' \<or> nonce = [] \<or> expiry \<le> seconds now then Inr False
               else (case session_secret c v of Inl e \<Rightarrow> Inl e
                 | Inr secret \<Rightarrow>
                     Inr (signature = mac k secret (version @ U ''.'' @ expires @ U ''.'' @ nonce))))
      | _ \<Rightarrow> Inr False)"

definition csrf_token :: "codec \<Rightarrow> crypto \<Rightarrow> volume \<Rightarrow> str \<Rightarrow> admin_error + str" where
  "csrf_token c k v token =
     (case session_secret c v of Inl e \<Rightarrow> Inl e | Inr secret \<Rightarrow> Inr (mac_hex k secret (U ''csrf.'' @ token)))"

section \<open>One claimant\<close>

text \<open>Creations by several claimants, one after the other: the answers and the volume left.\<close>

fun creations ::
  "codec \<Rightarrow> crypto \<Rightarrow> volume \<Rightarrow> (bool \<times> bool \<times> str \<times> str \<times> str) list \<Rightarrow> admin_error option list \<times> volume" where
  "creations c k v [] = ([], v)"
| "creations c k v ((refused, kept, password, secret, now) # rest) =
     (let (out, v1) = claim_create c k refused kept v password secret now;
          (outs, v2) = creations c k v1 rest
      in (out # outs, v2))"

lemma creations_claimed:
  "is_claimed v \<Longrightarrow> creations c k v cs = (replicate (length cs) (Some AlreadyClaimed), v)"
  by (induction c k v cs rule: creations.induct) (auto simp: claim_create_def)

lemma create_claims: "claim_create c k refused kept v password secret now = (None, v') \<Longrightarrow> is_claimed v'"
  by (auto simp: claim_create_def is_claimed_def split: if_splits)

lemma creations_one_winner: "length (filter (\<lambda>out. out = None) (fst (creations c k v cs))) \<le> 1"
proof (induction c k v cs rule: creations.induct)
  case (2 c k v refused kept password secret now rest)
  obtain out v1 where cr: "claim_create c k refused kept v password secret now = (out, v1)" by fastforce
  show ?case
  proof (cases "out = None")
    case True
    with cr have "is_claimed v1" using create_claims by blast
    with cr True show ?thesis by (simp add: creations_claimed)
  next
    case False
    then obtain e where "out = Some e" by blast
    with cr 2 [OF cr [symmetric] refl] show ?thesis by (simp add: split_beta)
  qed
qed simp

lemma claim_keeps_claimed: "is_claimed v \<Longrightarrow> claim c k refused kept v code password secret now = (Some AlreadyClaimed, v)"
  by (simp add: claim_def claim_checks_def)

text \<open>Admin is claimed by one person: of any number of claimants who pass the checks, in any order
  and with any failures, at most one creates the admin record.\<close>

theorem claim_one_winner:
  "length (filter (\<lambda>out. out = None) (fst (creations c k v cs))) \<le> 1"
  by (rule creations_one_winner)

text \<open>What is asked of the parameters: the hash accepts its password, the signature text is
  base64 without padding.\<close>

definition crypto_ok :: "crypto \<Rightarrow> bool" where
  "crypto_ok k \<longleftrightarrow> (\<forall>p. verify_hash_outcome k (hash_password k p) p = Match \<and> ascii_text (hash_password k p)) \<and>
     (\<forall>s m. ascii_text (mac k s m) \<and> 46 \<notin> set (mac k s m) \<and> length (mac k s m) = 43)"

definition sample_crypto :: crypto where
  "sample_crypto = \<lparr>hash_password = (\<lambda>p. map (\<lambda>c. 49) p),
     verify_hash_outcome = (\<lambda>e p. if e = map (\<lambda>c. 49) p then Match else Mismatch),
     mac = (\<lambda>s m. replicate 43 (48 + length m mod 10)), mac_hex = (\<lambda>s m. m)\<rparr>"

lemma sample_crypto_ok: "crypto_ok sample_crypto"
  by (auto simp: crypto_ok_def sample_crypto_def ascii_text_def list_all_iff)

lemma claim_body_record:
  "claim_body k password secret now = state_record 1 1
     [(U ''password_hash'', PStr (hash_password k password)), (U ''session_secret'', PStr secret),
      (U ''claimed_at'', PStr now)]"
  by (simp add: claim_body_def state_record_def)

lemma claimed_record:
  assumes "codec_ok c" and "claim_create c k refused kept v password secret now = (None, v')"
  shows "admin_record c v' = Inr (claim_body k password secret now)"
proof -
  have p: "path_for (U ''admin'') = Inr admin_path"
    by (simp add: path_for_def STATE_FILES_def admin_path_def U_def)
  have v': "vol_files v' = dict_set (vol_files v) admin_path
      (dump_file c admin_path (claim_body k password secret now), 384)"
    using assms(2) by (auto simp: claim_create_def split: if_splits)
  show ?thesis
    unfolding admin_record_def v' claim_body_record
    by (subst read_written [OF assms(1) _ p]) (simp_all add: claim_body_record)
qed

text \<open>A claim that succeeds leaves an admin record the claimant's password opens, with the claim
  code gone unless the system refused to remove it.\<close>

theorem claim_then_sign_in:
  assumes "codec_ok c" and "crypto_ok k" and "claim c k refused kept v code password secret now = (None, v')"
  shows "verify_password c k v' password = Inr True \<and> is_claimed v' \<and> (claim_code v' = CodeAbsent \<or> kept)"
proof -
  have cr: "claim_create c k refused kept v password secret now = (None, v')"
    using assms(3) by (auto simp: claim_def split: option.splits)
  have "verify_password c k v' password = Inr True"
    using assms(2) unfolding verify_password_def claimed_record [OF assms(1) cr]
    by (simp add: claim_body_def fget_def crypto_ok_def)
  moreover have "claim_code v' = CodeAbsent \<or> kept"
    using cr by (auto simp: claim_create_def split: if_splits)
  ultimately show ?thesis
    using create_claims [OF cr] by blast
qed

definition fresh_volume :: volume where
  "fresh_volume = \<lparr>vol_files = [], claim_code = CodeText (U ''abc'')\<rparr>"

lemma fresh_claim:
  "\<exists>v'. claim number_codec sample_crypto False False fresh_volume (U ''abc'') (U ''pw'') secret now = (None, v')"
proof -
  have "strip (U ''abc'') = U ''abc''"
    by (simp add: strip_def strip_by_id trimmed_by_def U_def py_space_def)
  then show ?thesis
    by (simp add: claim_def claim_checks_def is_claimed_def fresh_volume_def claim_create_def)
qed

theorem claim_then_sign_in_witness:
  "\<exists>v'. claim number_codec sample_crypto False False fresh_volume (U ''abc'') (U ''pw'') [] [] = (None, v') \<and>
     verify_password number_codec sample_crypto v' (U ''pw'') = Inr True"
proof -
  obtain v' where v': "claim number_codec sample_crypto False False fresh_volume (U ''abc'') (U ''pw'') [] [] = (None, v')"
    using fresh_claim by blast
  show ?thesis
    using claim_then_sign_in [OF number_codec_ok sample_crypto_ok v'] v' by blast
qed

section \<open>Sessions\<close>

lemma dec_all_digits: "list_all ascii_digit (dec n)"
  using dec_digits by (auto simp: list_all_iff)

lemma digits_trimmed: "list_all ascii_digit s \<Longrightarrow> s \<noteq> [] \<Longrightarrow> strip s = s"
proof -
  assume a: "list_all ascii_digit s" "s \<noteq> []"
  then have "ascii_digit (hd s)" "ascii_digit (last s)"
    by (simp_all add: list_all_iff)
  then have "\<not> py_space (hd s)" "\<not> py_space (last s)"
    by (auto simp: ascii_digit_def py_space_def)
  then show ?thesis
    unfolding strip_def by (intro strip_by_id) (simp add: trimmed_by_def)
qed

lemma int_text_dec: "int_text (dec n) = Some (int n)"
proof -
  have d: "ascii_digit (hd (dec n))"
    using dec_digits [of "hd (dec n)" n] by simp
  have "95 \<notin> set (dec n)"
    using dec_digits [of 95 n] by (auto simp: ascii_digit_def)
  then have "split_on 95 (dec n) = [dec n]"
    by (rule split_on_free)
  moreover have "strip (dec n) = dec n"
    by (intro digits_trimmed dec_all_digits) simp
  moreover have "hd (dec n) \<noteq> 45" "hd (dec n) \<noteq> 43"
    using d by (auto simp: ascii_digit_def)
  ultimately show ?thesis
    by (simp add: int_text_def Let_def dec_all_digits digits_val_dec)
qed

lemma split_session:
  assumes "46 \<notin> set expires" and "46 \<notin> set nonce" and "46 \<notin> set sig"
  shows "split_on 46 (session_payload expires nonce @ U ''.'' @ sig) = [U ''v1'', expires, nonce, sig]"
  using assms split_on_append [of 46 expires "nonce @ 46 # sig"] split_on_append [of 46 nonce sig]
  by (simp add: session_payload_def U_def split_on_free)

text \<open>A session is valid until its lifetime has passed and no longer: the token of a session made at
  \<open>t0\<close> for \<open>lifetime\<close> is accepted at \<open>t\<close> exactly when \<open>t\<close> lies before the second \<open>t0 + lifetime\<close> is in.\<close>

theorem session_valid_until:
  assumes "crypto_ok k" and "session_secret c v = Inr secret" and "0 \<le> t0 + lifetime"
    and "nonce \<noteq> []" and "list_all (\<lambda>ch. ch < 128 \<and> ch \<noteq> 46) nonce"
    and "length nonce + length (dec (nat (seconds (t0 + lifetime)))) \<le> 464"
    and "create_session c k v t0 lifetime nonce = Inr token"
  shows "valid_session c k v t token = Inr (seconds t < seconds (t0 + lifetime))"
proof -
  let ?n = "nat (seconds (t0 + lifetime))"
  have pos: "0 \<le> seconds (t0 + lifetime)"
    using assms(3) by (simp add: seconds_def)
  then have e: "int_str (seconds (t0 + lifetime)) = dec ?n"
    by (simp add: int_str_def)
  have tok: "token = session_payload (dec ?n) nonce @ U ''.'' @ mac k secret (session_payload (dec ?n) nonce)"
    using assms(7) by (simp add: create_session_def assms(2) Let_def e)
  have digits: "46 \<notin> set (dec ?n)" "ascii_text (dec ?n)"
  proof -
    show "46 \<notin> set (dec ?n)"
      using dec_digits [of 46 ?n] by (auto simp: ascii_digit_def)
    have "c < 128" if "c \<in> set (dec ?n)" for c
      using dec_digits [OF that] by (simp add: ascii_digit_def)
    then show "ascii_text (dec ?n)"
      by (simp add: ascii_text_def list_all_iff)
  qed
  have sig: "ascii_text (mac k secret m)" "46 \<notin> set (mac k secret m)" "length (mac k secret m) = 43" for m
    using assms(1) by (auto simp: crypto_ok_def)
  have nn: "46 \<notin> set nonce" "ascii_text nonce"
    using assms(5) by (auto simp: list_all_iff ascii_text_def)
  have "split_on 46 token = [U ''v1'', dec ?n, nonce, mac k secret (session_payload (dec ?n) nonce)]"
    unfolding tok by (rule split_session [OF digits(1) nn(1) sig(2)])
  moreover have "length token \<le> 512" "ascii_text token"
    using assms(6) sig digits(2) nn(2) by (simp_all add: tok session_payload_def ascii_text_def U_def)
  ultimately show ?thesis
    using assms(2,4) pos by (auto simp: valid_session_def int_text_dec session_payload_def U_def)
qed

text \<open>Only a signed token is valid: one that is accepted is a payload of this Admin, its expiry yet to
  come, followed by the signature of exactly that payload under the session secret of the record.\<close>

theorem session_is_signed:
  assumes "valid_session c k v now token = Inr True"
  shows "\<exists>expires nonce secret expiry. session_secret c v = Inr secret \<and> nonce \<noteq> [] \<and>
     int_text expires = Some expiry \<and> seconds now < expiry \<and>
     token = session_payload expires nonce @ U ''.'' @ mac k secret (session_payload expires nonce)"
proof -
  obtain version expires nonce signature where s: "split_on 46 token = [version, expires, nonce, signature]"
    using assms by (auto simp: valid_session_def split: if_splits list.splits)
  with assms obtain expiry secret where "int_text expires = Some expiry" "version = U ''v1''" "nonce \<noteq> []"
      "seconds now < expiry" "session_secret c v = Inr secret"
      "signature = mac k secret (version @ U ''.'' @ expires @ U ''.'' @ nonce)"
    by (auto simp: valid_session_def split: if_splits option.splits sum.splits)
  moreover have "token = join [46] [version, expires, nonce, signature]"
    using join_split_on [of 46 token] s by simp
  ultimately show ?thesis
    by (auto simp: session_payload_def U_def)
qed

text \<open>A volume whose record has a readable session secret.\<close>

lemma sample_secret:
  "\<exists>v. session_secret number_codec v = Inr (replicate 32 0)"
proof -
  obtain v where "claim number_codec sample_crypto False False fresh_volume (U ''abc'') (U ''pw'') (replicate 64 48) [] = (None, v)"
    using fresh_claim by blast
  then have "claim_create number_codec sample_crypto False False fresh_volume (U ''pw'') (replicate 64 48) [] = (None, v)"
    by (auto simp: claim_def split: option.splits)
  note r = claimed_record [OF number_codec_ok this]
  have "fromhex (replicate (2 * n) 48) = Some (replicate n 0)" for n
    by (induction n) (simp_all add: hex_digit_def ascii_digit_def)
  from this [of 32] have "fromhex (replicate 64 48) = Some (replicate 32 0)"
    by simp
  then have "session_secret number_codec v = Inr (replicate 32 0)"
    unfolding session_secret_def r by (simp add: claim_body_def fget_def)
  then show ?thesis by blast
qed

lemma sample_token:
  assumes "session_secret number_codec v = Inr (replicate 32 0)"
  shows "create_session number_codec sample_crypto v 0 5000000 (U ''n'') =
     Inr (session_payload (dec 5) (U ''n'') @ U ''.'' @ mac sample_crypto (replicate 32 0) (session_payload (dec 5) (U ''n'')))"
  by (simp add: create_session_def assms seconds_def int_str_def Let_def)

theorem session_valid_until_witness:
  "\<exists>v token. create_session number_codec sample_crypto v 0 5000000 (U ''n'') = Inr token \<and>
     valid_session number_codec sample_crypto v 4999999 token = Inr True \<and>
     valid_session number_codec sample_crypto v 5000000 token = Inr False"
proof -
  obtain v where v: "session_secret number_codec v = Inr (replicate 32 0)"
    using sample_secret by blast
  have d: "length (dec 5) = 1" by (simp add: dec.simps)
  have n: "list_all (\<lambda>ch. ch < 128 \<and> ch \<noteq> 46) (U ''n'')"
    by (simp add: U_def)
  have l: "length (U ''n'') + length (dec (nat (seconds (0 + 5000000)))) \<le> 464"
    using d by (simp add: seconds_def)
  note sv = session_valid_until [OF sample_crypto_ok v _ _ n l sample_token [OF v]]
  show ?thesis
    using sv [of 4999999] sv [of 5000000] sample_token [OF v] by (auto simp: seconds_def)
qed

theorem session_is_signed_witness:
  "\<exists>v token. valid_session number_codec sample_crypto v 0 token = Inr True \<and>
     (\<exists>expires nonce secret. token = session_payload expires nonce @ U ''.'' @ mac sample_crypto secret (session_payload expires nonce))"
proof -
  obtain v where v: "session_secret number_codec v = Inr (replicate 32 0)"
    using sample_secret by blast
  let ?p = "session_payload (dec 5) (U ''n'')"
  let ?t = "?p @ U ''.'' @ mac sample_crypto (replicate 32 0) ?p"
  have s: "split_on 46 ?t = [U ''v1'', dec 5, U ''n'', mac sample_crypto (replicate 32 0) ?p]"
    by (rule split_session) (simp_all add: dec.simps U_def sample_crypto_def)
  have l: "length ?t \<le> 512" "ascii_text ?t"
    by (simp_all add: session_payload_def sample_crypto_def ascii_text_def U_def dec.simps list_all_iff)
  then have "\<not> (512 < length ?t \<or> \<not> ascii_text ?t)"
    by linarith
  then have "valid_session number_codec sample_crypto v 0 ?t = Inr True"
    unfolding valid_session_def s by (simp only: if_False list.case int_text_dec option.case v sum.case)
      (simp add: session_payload_def seconds_def U_def)
  with session_is_signed [OF this] show ?thesis by blast
qed

end
