(* ===== verification/GitSettings.thy ===== *)
theory GitSettings
  imports Values
begin

text \<open>
  \<open>coppermind_git/settings.py\<close>: the Git helper's own reading of \<open>settings.yaml\<close>.  The YAML
  library is the argument \<open>yaml\<close>; what it gives for an empty document is \<open>PNone\<close>.
\<close>

record helper_settings =
  enabled :: bool
  debounce_s :: int
  poll_interval_s :: int
  identity_name :: str
  identity_email :: str
  gc_auto :: bool
  sources_folder :: str
  trash_folder :: str

definition shipped_settings :: helper_settings where
  "shipped_settings = \<lparr>enabled = True, debounce_s = 60, poll_interval_s = 300,
     identity_name = U ''Coppermind'', identity_email = U ''coppermind@localhost'', gc_auto = True,
     sources_folder = U ''_Sources'', trash_folder = U ''_Trash''\<rparr>"

datatype settings_error =
    SettingsUnreadable
  | SettingsNotYaml
  | SettingsNotMapping
  | ExpectedMapping str
  | ExpectedFlag str
  | ExpectedSeconds str
  | ExpectedLine str
  | ExpectedFolder str

datatype text_file = FileAbsent | FileRefused | FileText str

definition section_of :: "fmap \<Rightarrow> string \<Rightarrow> settings_error + fmap" where
  "section_of document name =
     (case fget document (U name) of PNone \<Rightarrow> Inr [] | PMap d \<Rightarrow> Inr d | _ \<Rightarrow> Inl (ExpectedMapping (U name)))"

text \<open>\<open>dotted.split(".", 1)[1]\<close> is the key within the section.\<close>

definition value_of :: "fmap \<Rightarrow> str \<Rightarrow> pyval \<Rightarrow> pyval" where
  "value_of section dotted dflt =
     (let v = fget section (snd (snd (partition_on 46 dotted))) in if v = PNone then dflt else v)"

definition flag :: "fmap \<Rightarrow> string \<Rightarrow> bool \<Rightarrow> settings_error + bool" where
  "flag section dotted dflt =
     (case value_of section (U dotted) (PBool dflt) of PBool b \<Rightarrow> Inr b | _ \<Rightarrow> Inl (ExpectedFlag (U dotted)))"

definition whole_seconds :: "fmap \<Rightarrow> string \<Rightarrow> int \<Rightarrow> settings_error + int" where
  "whole_seconds section dotted dflt =
     (case value_of section (U dotted) (PInt dflt) of
        PInt i \<Rightarrow> if i < 1 then Inl (ExpectedSeconds (U dotted)) else Inr i
      | _ \<Rightarrow> Inl (ExpectedSeconds (U dotted)))"

definition line_of :: "fmap \<Rightarrow> string \<Rightarrow> str \<Rightarrow> settings_error + str" where
  "line_of section dotted dflt =
     (case value_of section (U dotted) (PStr dflt) of
        PStr s \<Rightarrow> if strip s = [] \<or> 10 \<in> set s \<or> 13 \<in> set s then Inl (ExpectedLine (U dotted)) else Inr (strip s)
      | _ \<Rightarrow> Inl (ExpectedLine (U dotted)))"

definition strip_slashes :: "str \<Rightarrow> str" where
  "strip_slashes s = strip_by (\<lambda>c. c = 47) s"

definition folder_of :: "fmap \<Rightarrow> string \<Rightarrow> str \<Rightarrow> settings_error + str" where
  "folder_of section dotted dflt =
     sbind (line_of section dotted dflt) (\<lambda>v.
       if list_ex (\<lambda>part. strip part \<in> {[], U ''.'', U ''..''}) (split_on 47 (strip_slashes v))
       then Inl (ExpectedFolder (U dotted)) else Inr (strip_slashes v))"

definition settings_of :: "fmap \<Rightarrow> settings_error + helper_settings" where
  "settings_of document =
     sbind (section_of document ''git'') (\<lambda>git.
     sbind (section_of document ''notes'') (\<lambda>notes.
     sbind (flag git ''git.enabled'' (enabled shipped_settings)) (\<lambda>en.
     sbind (whole_seconds git ''git.debounce_s'' (debounce_s shipped_settings)) (\<lambda>deb.
     sbind (whole_seconds git ''git.poll_interval_s'' (poll_interval_s shipped_settings)) (\<lambda>poll.
     sbind (line_of git ''git.identity_name'' (identity_name shipped_settings)) (\<lambda>name.
     sbind (line_of git ''git.identity_email'' (identity_email shipped_settings)) (\<lambda>email.
     sbind (flag git ''git.gc_auto'' (gc_auto shipped_settings)) (\<lambda>gc.
     sbind (folder_of notes ''notes.sources_folder'' (sources_folder shipped_settings)) (\<lambda>sources.
     sbind (folder_of notes ''notes.trash_folder'' (trash_folder shipped_settings)) (\<lambda>trash.
     Inr \<lparr>enabled = en, debounce_s = deb, poll_interval_s = poll, identity_name = name,
          identity_email = email, gc_auto = gc, sources_folder = sources, trash_folder = trash\<rparr>))))))))))"

definition load_settings :: "(str \<Rightarrow> pyval option) \<Rightarrow> text_file \<Rightarrow> settings_error + helper_settings" where
  "load_settings yaml f =
     (case f of FileAbsent \<Rightarrow> Inr shipped_settings
      | FileRefused \<Rightarrow> Inl SettingsUnreadable
      | FileText text \<Rightarrow> (case yaml text of None \<Rightarrow> Inl SettingsNotYaml
          | Some v \<Rightarrow> (case v of PNone \<Rightarrow> Inr shipped_settings | PMap d \<Rightarrow> settings_of d
              | _ \<Rightarrow> Inl SettingsNotMapping)))"

section \<open>What settings that load are good for\<close>

text \<open>A folder whose every segment is a name: never the whole work tree, never out of it.\<close>

definition inner_folder :: "str \<Rightarrow> bool" where
  "inner_folder f \<longleftrightarrow> list_all (\<lambda>part. strip part \<noteq> [] \<and> strip part \<noteq> U ''.'' \<and> strip part \<noteq> U ''..'')
     (split_on 47 f)"

definition usable :: "helper_settings \<Rightarrow> bool" where
  "usable st \<longleftrightarrow> 1 \<le> debounce_s st \<and> 1 \<le> poll_interval_s st \<and>
     strip (identity_name st) \<noteq> [] \<and> strip (identity_email st) \<noteq> [] \<and>
     inner_folder (sources_folder st) \<and> inner_folder (trash_folder st)"

lemma whole_seconds_ok: "whole_seconds s d i = Inr x \<Longrightarrow> 1 \<le> x"
  by (auto simp: whole_seconds_def split: pyval.splits if_splits)

lemma line_of_ok: "line_of s d i = Inr x \<Longrightarrow> strip x \<noteq> []"
  by (auto simp: line_of_def split: pyval.splits if_splits)

lemma folder_of_ok: "folder_of s d i = Inr x \<Longrightarrow> inner_folder x"
  by (auto simp: folder_of_def sbind_Inr_iff inner_folder_def list_ex_iff list_all_iff split: if_splits)

lemma settings_of_usable: "settings_of document = Inr st \<Longrightarrow> usable st"
  unfolding settings_of_def sbind_Inr_iff
  by (auto simp: usable_def dest: whole_seconds_ok line_of_ok folder_of_ok)

lemma strip_plain: "s \<noteq> [] \<Longrightarrow> list_all (\<lambda>c. \<not> py_space c) s \<Longrightarrow> strip s = s"
  unfolding strip_def by (rule strip_by_id) (simp add: trimmed_by_def list_all_iff)

lemma shipped_usable: "usable shipped_settings"
proof -
  have "strip (U ''Coppermind'') = U ''Coppermind''" "strip (U ''coppermind@localhost'') = U ''coppermind@localhost''"
    "strip (U ''_Sources'') = U ''_Sources''" "strip (U ''_Trash'') = U ''_Trash''"
    by (rule strip_plain; simp add: U_def py_space_def)+
  moreover have "split_on 47 (U ''_Sources'') = [U ''_Sources'']" "split_on 47 (U ''_Trash'') = [U ''_Trash'']"
    by (simp_all add: split_on_free U_def)
  ultimately show ?thesis
    by (simp add: usable_def shipped_settings_def inner_folder_def)
qed

lemma load_usable: "load_settings yaml f = Inr st \<Longrightarrow> usable st"
  using shipped_usable settings_of_usable
  by (auto simp: load_settings_def split: text_file.splits option.splits pyval.splits)

text \<open>Settings the helper accepts can be used: both intervals are at least a second, the identity is not
  blank, and neither excluded folder is the work tree itself or leads out of it, so a snapshot never
  records every note as deleted.\<close>

theorem loaded_settings_usable: "load_settings yaml f = Inr st \<Longrightarrow> usable st"
  by (rule load_usable)

theorem loaded_settings_usable_witness:
  "\<exists>st. load_settings (\<lambda>t. Some (PMap [(U ''git'', PMap [(U ''debounce_s'', PInt 5)])])) (FileText []) = Inr st \<and>
     debounce_s st = 5 \<and> usable st"
proof -
  let ?f = "(\<lambda>t. Some (PMap [(U ''git'', PMap [(U ''debounce_s'', PInt 5)])])) :: str \<Rightarrow> pyval option"
  have p: "partition_on 46 (U ''git.enabled'') = (U ''git'', True, U ''enabled'')"
    "partition_on 46 (U ''git.debounce_s'') = (U ''git'', True, U ''debounce_s'')"
    "partition_on 46 (U ''git.poll_interval_s'') = (U ''git'', True, U ''poll_interval_s'')"
    "partition_on 46 (U ''git.identity_name'') = (U ''git'', True, U ''identity_name'')"
    "partition_on 46 (U ''git.identity_email'') = (U ''git'', True, U ''identity_email'')"
    "partition_on 46 (U ''git.gc_auto'') = (U ''git'', True, U ''gc_auto'')"
    by (simp_all add: partition_on_def U_def)
  have l: "line_of [(U ''debounce_s'', PInt 5)] ''git.identity_name'' (U ''Coppermind'') = Inr (U ''Coppermind'')"
    "line_of [(U ''debounce_s'', PInt 5)] ''git.identity_email'' (U ''coppermind@localhost'') = Inr (U ''coppermind@localhost'')"
    by (simp_all add: line_of_def value_of_def p fget_def) (simp_all add: strip_plain U_def py_space_def)
  have "line_of [] n s = Inr s" if "s \<noteq> []" "list_all (\<lambda>c. \<not> py_space c \<and> c \<noteq> 10 \<and> c \<noteq> 13) s" for n s
    using that strip_plain [of s] by (auto simp: line_of_def value_of_def fget_def list_all_iff)
  moreover have "list_all (\<lambda>c. \<not> py_space c \<and> c \<noteq> 10 \<and> c \<noteq> 13) (U ''_Sources'')"
    "list_all (\<lambda>c. \<not> py_space c \<and> c \<noteq> 10 \<and> c \<noteq> 13) (U ''_Trash'')"
    by (simp_all add: U_def py_space_def)
  ultimately have f: "folder_of [] n (U ''_Sources'') = Inr (U ''_Sources'')"
    "folder_of [] n (U ''_Trash'') = Inr (U ''_Trash'')" for n
    by (simp_all add: folder_of_def strip_slashes_def strip_by_id trimmed_by_def split_on_free U_def
        strip_plain py_space_def)
  have "\<exists>st. load_settings ?f (FileText []) = Inr st \<and> debounce_s st = 5"
    by (simp add: load_settings_def settings_of_def section_of_def fget_def flag_def whole_seconds_def
        value_of_def p shipped_settings_def l f)
  then show ?thesis
    using loaded_settings_usable by blast
qed

end
