(* ===== verification/Lines.thy ===== *)
theory Lines
  imports Prelude
begin

text \<open>
  Lines of a text as \<open>str.splitlines\<close> gives them: which strings they are, how they come back
  from a join, and how the lines of two texts put together are the lines of each.
\<close>

definition newline :: str where
  "newline = [10]"

text \<open>\<open>str.splitlines()\<close>: the lines without their ends.\<close>

definition drop_end :: "str \<Rightarrow> str" where
  "drop_end l = (if endswith l [13, 10] then take (length l - 2) l
     else if l \<noteq> [] \<and> line_break (last l) then butlast l else l)"

definition splitlines :: "str \<Rightarrow> str list" where
  "splitlines s = map drop_end (splitlines_keep s)"

text \<open>\<open>str.split()\<close>: the words between runs of whitespace.\<close>

fun words_from :: "str \<Rightarrow> str \<Rightarrow> str list" where
  "words_from w [] = (if w = [] then [] else [w])"
| "words_from w (c # s) =
     (if py_space c then (if w = [] then words_from [] s else w # words_from [] s) else words_from (w @ [c]) s)"

definition words :: "str \<Rightarrow> str list" where
  "words s = words_from [] s"

definition unbroken :: "str \<Rightarrow> bool" where
  "unbroken l \<longleftrightarrow> list_all (\<lambda>c. \<not> line_break c) l"

lemma splitlines_keep_line: "unbroken l \<Longrightarrow> splitlines_keep (l @ 10 # s) = (l @ [10]) # splitlines_keep s"
proof (induction l)
  case Nil
  then show ?case by (simp add: line_break_def)
next
  case (Cons c l)
  then have "\<not> line_break c" "splitlines_keep (l @ 10 # s) = (l @ [10]) # splitlines_keep s"
    by (auto simp: unbroken_def)
  moreover from this have "c \<noteq> 13" by (auto simp: line_break_def)
  ultimately show ?case by simp
qed

lemma drop_end_line: "unbroken l \<Longrightarrow> drop_end (l @ [10]) = l"
proof -
  assume u: "unbroken l"
  have "\<not> endswith (l @ [10]) [13, 10]"
  proof
    assume "endswith (l @ [10]) [13, 10]"
    then obtain t where "l @ [10] = t @ [13, 10]" by (auto simp: endswith_iff)
    then have "l = t @ [13]" by simp
    with u show False by (simp add: unbroken_def line_break_def)
  qed
  then show ?thesis by (simp add: drop_end_def line_break_def)
qed

lemma splitlines_join:
  "ls \<noteq> [] \<Longrightarrow> list_all unbroken ls \<Longrightarrow> splitlines (join newline ls @ newline) = ls"
proof (induction ls)
  case (Cons l ls)
  show ?case
  proof (cases "ls = []")
    case True
    with Cons show ?thesis
      using splitlines_keep_line [of l "[]"] by (simp add: splitlines_def newline_def drop_end_line)
  next
    case False
    with Cons show ?thesis
      using splitlines_keep_line [of l "join newline ls @ newline"]
      by (simp add: splitlines_def newline_def drop_end_line join_Cons)
  qed
qed simp

definition kept_line :: "str \<Rightarrow> bool" where
  "kept_line l \<longleftrightarrow> (\<exists>m e. l = m @ e \<and> unbroken m \<and> (e = [] \<or> (\<exists>c. e = [c] \<and> line_break c) \<or> e = [13, 10]))"

lemma kept_line_Cons: "\<not> line_break x \<Longrightarrow> kept_line l \<Longrightarrow> kept_line (x # l)"
proof -
  assume x: "\<not> line_break x" and "kept_line l"
  then obtain m e where "l = m @ e" "unbroken m" "e = [] \<or> (\<exists>c. e = [c] \<and> line_break c) \<or> e = [13, 10]"
    by (auto simp: kept_line_def)
  with x have "x # l = (x # m) @ e" "unbroken (x # m)"
    by (simp_all add: unbroken_def)
  with \<open>e = [] \<or> _\<close> show ?thesis
    unfolding kept_line_def by blast
qed

lemma kept_line_end: "line_break x \<Longrightarrow> kept_line [x]" "\<not> line_break x \<Longrightarrow> kept_line [x]" "kept_line [13, 10]"
proof -
  show "kept_line [x]" if "line_break x"
    unfolding kept_line_def using that by (intro exI [of _ "[]"] exI [of _ "[x]"]) (simp add: unbroken_def)
  show "kept_line [x]" if "\<not> line_break x"
    unfolding kept_line_def using that by (intro exI [of _ "[x]"] exI [of _ "[]"]) (simp add: unbroken_def)
  show "kept_line [13, 10]"
    unfolding kept_line_def by (intro exI [of _ "[]"] exI [of _ "[13, 10]"]) (simp add: unbroken_def)
qed

lemma splitlines_keep_kept: "l \<in> set (splitlines_keep s) \<Longrightarrow> kept_line l"
proof (induction s arbitrary: l rule: splitlines_keep.induct)
  case (2 x xs)
  then show ?case
    by (cases "splitlines_keep xs") (auto split: if_splits intro: kept_line_Cons kept_line_end)
qed simp

lemma unbroken_no_crlf: "unbroken m \<Longrightarrow> \<not> endswith m [13, 10]" "unbroken m \<Longrightarrow> \<not> endswith (m @ [c]) [13, 10]"
  by (auto simp: endswith_iff unbroken_def line_break_def)

lemma drop_end_kept: "kept_line l \<Longrightarrow> unbroken (drop_end l)"
proof -
  assume "kept_line l"
  then obtain m e where l: "l = m @ e" "unbroken m" "e = [] \<or> (\<exists>c. e = [c] \<and> line_break c) \<or> e = [13, 10]"
    by (auto simp: kept_line_def)
  have "m \<noteq> [] \<Longrightarrow> \<not> line_break (last m)"
    using l(2) by (simp add: unbroken_def list_all_iff)
  moreover have "endswith (m @ [13, 10]) [13, 10]"
    by (auto simp: endswith_iff)
  ultimately show ?thesis
    using l unbroken_no_crlf [OF l(2)] by (auto simp: drop_end_def)
qed

lemma drop_end_unbroken: "l \<in> set (splitlines_keep s) \<Longrightarrow> unbroken (drop_end l)"
  by (rule drop_end_kept [OF splitlines_keep_kept])

lemma splitlines_unbroken: "list_all unbroken (splitlines s)"
  using drop_end_unbroken by (auto simp: splitlines_def list_all_iff)

lemma splitlines_keep_append:
  "a = [] \<or> line_break (last a) \<and> \<not> (last a = 13 \<and> b \<noteq> [] \<and> hd b = 10) \<Longrightarrow>
     splitlines_keep (a @ b) = splitlines_keep a @ splitlines_keep b"
proof (induction a rule: splitlines_keep.induct)
  case (2 x xs)
  show ?case
  proof (cases "x = 13 \<and> xs \<noteq> [] \<and> hd xs = 10")
    case True
    then have xs: "xs = 10 # tl xs" by (cases xs) auto
    show ?thesis
    proof (cases "tl xs = []")
      case True
      with xs show ?thesis using \<open>x = 13 \<and> _\<close> by simp
    next
      case False
      then have "last (tl xs) = last (x # xs)" using xs by (metis last_ConsR last_tl list.distinct(1))
      with 2(1) [OF True] 2(4) False have "splitlines_keep (tl xs @ b) = splitlines_keep (tl xs) @ splitlines_keep b"
        by auto
      with True xs show ?thesis by auto
    qed
  next
    case no: False
    show ?thesis
    proof (cases "xs = []")
      case True
      with 2(4) show ?thesis by auto
    next
      case False
      then have l: "last (x # xs) = last xs" by simp
      have IH: "splitlines_keep (xs @ b) = splitlines_keep xs @ splitlines_keep b"
        using 2(2,3) no 2(4) False l by (cases "line_break x") auto
      have ne: "splitlines_keep xs \<noteq> []"
        using False by (metis concat.simps(1) concat_splitlines_keep)
      show ?thesis
        using no False IH ne by (cases "splitlines_keep xs") auto
    qed
  qed
qed simp

lemma splitlines_prefix_break:
  "splitlines_keep s = pre @ l # post \<Longrightarrow> pre = [] \<or> concat pre \<noteq> [] \<and> line_break (last (concat pre))"
proof (induction s arbitrary: pre rule: splitlines_keep.induct)
  case (2 x xs)
  show ?case
  proof (cases pre)
    case (Cons p ps)
    consider (crlf) "x = 13 \<and> xs \<noteq> [] \<and> hd xs = 10" | (brk) "\<not> (x = 13 \<and> xs \<noteq> [] \<and> hd xs = 10)" "line_break x"
      | (plain) "\<not> (x = 13 \<and> xs \<noteq> [] \<and> hd xs = 10)" "\<not> line_break x" by blast
    then show ?thesis
    proof cases
      case crlf
      with 2(4) Cons have p: "p = [13, 10]" "splitlines_keep (tl xs) = ps @ l # post" by auto
      from 2(1) [OF crlf p(2)] show ?thesis
        by (auto simp: Cons p(1) line_break_def)
    next
      case brk
      with 2(4) Cons have p: "p = [x]" "splitlines_keep xs = ps @ l # post" by auto
      from 2(2) [OF brk p(2)] show ?thesis
        by (auto simp: Cons p(1) brk(2))
    next
      case plain
      with 2(4) Cons obtain q where q: "splitlines_keep xs = (q # ps) @ l # post" "p = x # q"
        by (cases "splitlines_keep xs") auto
      from 2(3) [OF plain q(1)] show ?thesis
        by (auto simp: Cons q(2))
    qed
  qed simp
qed simp

lemma splitlines_keep_nonempty: "[] \<notin> set (splitlines_keep t)"
  by (induction t rule: splitlines_keep.induct) (auto split: list.splits if_splits)

text \<open>The lines before and from one that does not start with a line feed are the lines of the two pieces.\<close>

lemma splitlines_keep_pieces:
  assumes "splitlines_keep s = pre @ l # post" and "hd l \<noteq> 10"
  shows "splitlines_keep (concat pre) = pre" "splitlines_keep (concat (l # post)) = l # post"
    and "concat pre = [] \<or> line_break (last (concat pre))"
proof -
  have s: "s = concat pre @ concat (l # post)"
    using assms(1) by (metis concat_append concat_splitlines_keep)
  show brk: "concat pre = [] \<or> line_break (last (concat pre))"
    using splitlines_prefix_break [OF assms(1)] by auto
  have "l \<noteq> []"
    using splitlines_keep_nonempty [of s] assms(1) by auto
  then have pre: "splitlines_keep (concat pre) @ splitlines_keep (concat (l # post)) = pre @ l # post"
    using splitlines_keep_append [of "concat pre" "concat (l # post)"] brk assms by (auto simp: s)
  then obtain us where us: "splitlines_keep (concat pre) = pre @ us \<and> us @ splitlines_keep (concat (l # post)) = l # post \<or>
      splitlines_keep (concat pre) @ us = pre \<and> splitlines_keep (concat (l # post)) = us @ l # post"
    by (auto simp: append_eq_append_conv2)
  from us have "concat us = []"
    by (metis append_self_conv concat_append concat_splitlines_keep)
  moreover have "[] \<notin> set us"
    using us splitlines_keep_nonempty [of "concat pre"] splitlines_keep_nonempty [of "concat (l # post)"]
    by (auto dest: arg_cong [of _ _ set])
  ultimately have "us = []"
    by (cases us) auto
  with us show "splitlines_keep (concat pre) = pre" "splitlines_keep (concat (l # post)) = l # post"
    by auto
qed

text \<open>The lines of a text that ends with a line feed are the lines of its pieces.\<close>

lemma splitlines_append: "splitlines (a @ 10 # s) = splitlines (a @ [10]) @ splitlines s"
  using splitlines_keep_append [of "a @ [10]" s] by (simp add: splitlines_def line_break_def)

lemma splitlines_joined:
  "splitlines (join newline (xs @ [[]])) = concat (map (\<lambda>x. splitlines (x @ newline)) xs)"
proof (induction xs)
  case (Cons x xs)
  have j: "join newline ((x # xs) @ [[]]) = x @ 10 # join newline (xs @ [[]])"
    by (cases xs) (simp_all add: newline_def)
  have "splitlines (join newline ((x # xs) @ [[]])) = splitlines (x @ [10]) @ splitlines (join newline (xs @ [[]]))"
    unfolding j by (rule splitlines_append)
  with Cons show ?case by (simp add: newline_def)
qed (simp add: splitlines_def)

end
