(* ===== verification/GitRepo.thy ===== *)
theory GitRepo
  imports GitSettings Lines
begin

text \<open>
  \<open>coppermind_git/repo.py\<close>: the notes filesystem as a Git repository.  The \<open>git\<close> program is
  the argument \<open>run\<close>: it is given the arguments, configuration, identity and standard
  input, and answers with an exit code and an output, changing the rest of the state as
  it will.  The state holds what the helper itself reads and writes beside Git: the work
  tree, leftover lock files and \<open>info/exclude\<close>.
\<close>

section \<open>Exclusions\<close>

definition EXCLUDE_BEGIN :: str where
  "EXCLUDE_BEGIN = U ''# BEGIN coppermind-git: rewritten by the helper, keep your own rules outside''"

definition EXCLUDE_END :: str where
  "EXCLUDE_END = U ''# END coppermind-git''"

definition TEMP_FILES :: str where
  "TEMP_FILES = U ''.*.tmp''"

definition STALE_LOCKS :: "str list" where
  "STALE_LOCKS = [U ''index.lock'', U ''HEAD.lock'', U ''packed-refs.lock'']"

definition LISTED_CHANGES :: nat where
  "LISTED_CHANGES = 50"

definition kept_out :: "helper_settings \<Rightarrow> str list" where
  "kept_out st = [U ''.obsidian'', U ''.trash'', strip_slashes (sources_folder st), strip_slashes (trash_folder st)]"

definition kept_out_pathspec :: "helper_settings \<Rightarrow> str list" where
  "kept_out_pathspec st = map (\<lambda>n. U '':(literal)'' @ n) (kept_out st) @ [U '':(glob)**/'' @ TEMP_FILES]"

text \<open>\<open>_escape\<close>: a backslash before each of backslash, star, question mark, brackets, bang, hash, space.\<close>

definition escape_rule :: "str \<Rightarrow> str" where
  "escape_rule name = concat (map (\<lambda>c. if c \<in> {92, 42, 63, 91, 93, 33, 35, 32} then [92, c] else [c]) name)"

definition exclude_block :: "helper_settings \<Rightarrow> str" where
  "exclude_block st =
     join newline ([EXCLUDE_BEGIN] @ map (\<lambda>n. U ''/'' @ escape_rule n @ U ''/'') (kept_out st) @
       [TEMP_FILES, EXCLUDE_END])"

definition last_index :: "'a \<Rightarrow> 'a list \<Rightarrow> nat" where
  "last_index x xs = length xs - 1 - length (takeWhile (\<lambda>y. y \<noteq> x) (rev xs))"

text \<open>The lines without the last managed block, and without the blank lines at their end.\<close>

definition cut_block :: "str list \<Rightarrow> str list" where
  "cut_block ls =
     (if EXCLUDE_BEGIN \<in> set ls then
        (let start = last_index EXCLUDE_BEGIN ls; later = drop start ls
         in if EXCLUDE_END \<in> set later
            then take start ls @ drop (Suc (length (takeWhile (\<lambda>l. l \<noteq> EXCLUDE_END) later))) later
            else ls)
      else ls)"

definition drop_blank_end :: "str list \<Rightarrow> str list" where
  "drop_blank_end ls = rev (dropWhile (\<lambda>l. strip l = []) (rev ls))"

definition merge_block :: "str \<Rightarrow> str \<Rightarrow> str" where
  "merge_block existing block =
     (let ls = drop_blank_end (cut_block (splitlines existing))
      in join newline (if ls \<noteq> [] then ls @ [[], block] else [block]) @ newline)"

definition commit_message :: "(str \<times> str) list \<Rightarrow> str" where
  "commit_message changes =
     (let count = length changes;
          ls = [U ''Coppermind snapshot: '' @ dec count @ U '' file'' @ (if count = 1 then [] else U ''s''), []] @
               map (\<lambda>(status, path). U ''  '' @ status @ U ''  '' @ path) (take LISTED_CHANGES changes) @
               (if LISTED_CHANGES < count then [U ''  and '' @ dec (count - LISTED_CHANGES) @ U '' more''] else [])
      in join newline ls @ newline)"

section \<open>Running Git\<close>

record git_call =
  args :: "str list"
  git_config :: "str list"
  git_identity :: "(str \<times> str) option"
  stdin :: str

record 'r repo_state =
  notes_there :: bool
  dot_git :: bool
  lock_files :: "str list"
  exclude_file :: "str option"
  opened :: bool
  write_refused :: bool
  git_state :: 'r

datatype git_error = GitFailed str | NoNotesFilesystem | NotTopOfRepository | SystemError

record 'r git_exec =
  run :: "git_call \<Rightarrow> 'r repo_state \<Rightarrow> (nat \<times> str) \<times> 'r repo_state"
  resolved_work_tree :: str
  resolve :: "str \<Rightarrow> str"

type_synonym ('r, 'a) git_op = "'r repo_state \<Rightarrow> (git_error + 'a) \<times> 'r repo_state"

definition ebind :: "('r, 'a) git_op \<Rightarrow> ('a \<Rightarrow> ('r, 'b) git_op) \<Rightarrow> ('r, 'b) git_op" where
  "ebind m f s = (case m s of (Inl e, s') \<Rightarrow> (Inl e, s') | (Inr x, s') \<Rightarrow> f x s')"

definition give :: "'a \<Rightarrow> ('r, 'a) git_op" where
  "give x s = (Inr x, s)"

text \<open>\<open>git\<close> with \<open>check=True\<close>: the guard settings come first, and a failure is an error that names
  the command.\<close>

definition guard_config :: "'r git_exec \<Rightarrow> str list" where
  "guard_config g = [U ''safe.directory='' @ resolved_work_tree g, U ''core.hooksPath=/dev/null'',
     U ''core.fsmonitor=false'', U ''core.quotePath=false'', U ''commit.gpgSign=false'']"

definition git_checked :: "'r git_exec \<Rightarrow> str list \<Rightarrow> str list \<Rightarrow> (str \<times> str) option \<Rightarrow> str \<Rightarrow> ('r, str) git_op" where
  "git_checked g as config ident input s =
     (case run g \<lparr>args = as, git_config = guard_config g @ config, git_identity = ident, stdin = input\<rparr> s of
        ((code, out), s') \<Rightarrow> (if code \<noteq> 0 then Inl (GitFailed (hd as)) else Inr out, s'))"

definition git :: "'r git_exec \<Rightarrow> string list \<Rightarrow> ('r, str) git_op" where
  "git g as = git_checked g (map U as) [] None []"

definition stale_locks :: "'r repo_state \<Rightarrow> str list" where
  "stale_locks s = filter (\<lambda>n. n \<in> set (lock_files s)) STALE_LOCKS @
     sort (filter (\<lambda>n. startswith n (U ''refs/'') \<and> endswith n (U ''.lock'')) (lock_files s))"

definition clear_locks :: "('r, str list) git_op" where
  "clear_locks s =
     (if opened s then (Inr [], s)
      else (Inr (map (\<lambda>n. U ''removed a stale '' @ n) (stale_locks s)),
            s\<lparr>lock_files := filter (\<lambda>n. n \<notin> set (stale_locks s)) (lock_files s), opened := True\<rparr>))"

definition write_exclude :: "helper_settings \<Rightarrow> ('r, unit) git_op" where
  "write_exclude st s =
     (let current = (case exclude_file s of None \<Rightarrow> [] | Some t \<Rightarrow> t);
          wanted = merge_block current (exclude_block st)
      in if wanted = current then (Inr (), s)
         else if write_refused s then (Inl SystemError, s)
         else (Inr (), s\<lparr>exclude_file := Some wanted\<rparr>))"

definition ensure_repo :: "'r git_exec \<Rightarrow> helper_settings \<Rightarrow> ('r, str list) git_op" where
  "ensure_repo g st =
     ebind (\<lambda>s. (if notes_there s then Inr () else Inl NoNotesFilesystem, s)) (\<lambda>_.
     ebind (\<lambda>s. if dot_git s then (Inr [], s)
                 else ebind (git g [''init'', ''--quiet'', ''--initial-branch=main''])
                        (\<lambda>_. give [U ''initialised a new repository'']) s) (\<lambda>done.
     ebind (git g [''rev-parse'', ''--show-toplevel'']) (\<lambda>top.
     ebind (\<lambda>s. (if resolve g (strip top) = resolved_work_tree g then Inr () else Inl NotTopOfRepository, s)) (\<lambda>_.
     ebind (git g [''rev-parse'', ''--absolute-git-dir'']) (\<lambda>_.
     ebind clear_locks (\<lambda>removed.
     ebind (write_exclude st) (\<lambda>_. give (done @ removed))))))))"

record snapshot =
  tree :: str
  changes :: "(str \<times> str) list"

text \<open>\<open>--name-status -z\<close>: status and path in turn, each ended by a zero byte.\<close>

fun pairs_of :: "str list \<Rightarrow> (str \<times> str) list" where
  "pairs_of (status # path # rest) = (status, path) # pairs_of rest"
| "pairs_of parts = []"

definition stage :: "'r git_exec \<Rightarrow> helper_settings \<Rightarrow> ('r, snapshot) git_op" where
  "stage g st =
     ebind (git g [''add'', ''--all'']) (\<lambda>_.
     ebind (git_checked g (map U [''rm'', ''-r'', ''--cached'', ''--force'', ''--quiet'', ''--ignore-unmatch'', ''--''] @
              kept_out_pathspec st) [] None []) (\<lambda>_.
     ebind (git g [''write-tree'']) (\<lambda>t.
     ebind (git g [''diff'', ''--cached'', ''--name-status'', ''--no-renames'', ''-z'']) (\<lambda>fields.
     give \<lparr>tree = strip t, changes = pairs_of (split_on 0 fields)\<rparr>))))"

definition commit :: "'r git_exec \<Rightarrow> helper_settings \<Rightarrow> snapshot \<Rightarrow> ('r, str) git_op" where
  "commit g st snap =
     ebind (git_checked g (map U [''commit'', ''--quiet'', ''--no-verify'', ''--cleanup=whitespace'', ''--file=-''])
              (map U [''gc.autoDetach=false'', ''maintenance.autoDetach=false''] @
               (if gc_auto st then [] else map U [''gc.auto=0'', ''maintenance.auto=false'']))
              (Some (identity_name st, identity_email st)) (commit_message (changes snap))) (\<lambda>_.
     ebind (git g [''rev-parse'', ''HEAD'']) (\<lambda>out. give (strip out)))"

text \<open>\<open>last_commit\<close> runs without \<open>check\<close>, so a failure is \<open>None\<close>.\<close>

definition last_commit_of :: "'r git_exec \<Rightarrow> 'r repo_state \<Rightarrow> (str \<times> str) option \<times> 'r repo_state" where
  "last_commit_of g s =
     (case run g \<lparr>args = map U [''log'', ''-1'', ''--format=%H %cI''], git_config = guard_config g,
            git_identity = None, stdin = []\<rparr> s of
        ((code, out), s') \<Rightarrow>
          (let fields = words out
           in if code = 0 \<and> length fields = 2 then Some (fields ! 0, fields ! 1) else None, s'))"

section \<open>The managed block\<close>

lemma last_index_app: "x \<notin> set ys \<Longrightarrow> last_index x (xs @ x # ys) = length xs"
  by (simp add: last_index_def takeWhile_append)

lemma cut_block_managed:
  assumes "EXCLUDE_BEGIN \<notin> set mid" and "EXCLUDE_END \<notin> set mid"
  shows "cut_block (xs @ EXCLUDE_BEGIN # mid @ [EXCLUDE_END]) = xs"
proof -
  have ne: "EXCLUDE_END \<noteq> EXCLUDE_BEGIN"
    by (simp add: EXCLUDE_BEGIN_def EXCLUDE_END_def)
  then have "last_index EXCLUDE_BEGIN (xs @ EXCLUDE_BEGIN # mid @ [EXCLUDE_END]) = length xs"
    using assms by (intro last_index_app) auto
  moreover have "takeWhile (\<lambda>l. l \<noteq> EXCLUDE_END) (EXCLUDE_BEGIN # mid @ [EXCLUDE_END]) = EXCLUDE_BEGIN # mid"
    using ne assms by (auto simp: takeWhile_append)
  ultimately show ?thesis
    by (simp add: cut_block_def)
qed

lemma drop_blank_end_idem: "drop_blank_end (drop_blank_end ls @ [[]]) = drop_blank_end ls"
  "drop_blank_end (drop_blank_end ls) = drop_blank_end ls"
  by (simp_all add: drop_blank_end_def)

text \<open>What a person's own rules are: every line outside the managed block, up to trailing blank lines.\<close>

definition own_rules :: "str \<Rightarrow> str list" where
  "own_rules s = drop_blank_end (cut_block (splitlines s))"

lemma set_cut_block: "set (cut_block ls) \<subseteq> set ls"
  by (auto simp: cut_block_def Let_def dest: in_set_takeD in_set_dropD)

lemma own_rules_unbroken: "list_all unbroken (own_rules s)"
proof -
  have "set (own_rules s) \<subseteq> set (cut_block (splitlines s))"
    by (auto simp: own_rules_def drop_blank_end_def dest: set_dropWhileD)
  then have "set (own_rules s) \<subseteq> set (splitlines s)"
    using set_cut_block by blast
  then show ?thesis
    using splitlines_unbroken by (auto simp: list_all_iff)
qed

lemma merged_lines:
  assumes "list_all unbroken (EXCLUDE_BEGIN # mid @ [EXCLUDE_END])"
  shows "splitlines (merge_block s (join newline (EXCLUDE_BEGIN # mid @ [EXCLUDE_END]))) =
     own_rules s @ (if own_rules s = [] then [] else [[]]) @ EXCLUDE_BEGIN # mid @ [EXCLUDE_END]"
proof -
  let ?b = "EXCLUDE_BEGIN # mid @ [EXCLUDE_END]"
  have j: "join newline (xs @ [[], join newline ?b]) = join newline (xs @ [] # ?b)" if "xs \<noteq> []" for xs
    using that
  proof (induction xs)
    case (Cons x xs)
    then show ?case by (cases xs) (simp_all add: join_Cons newline_def)
  qed simp
  have "merge_block s (join newline ?b) = join newline
      (own_rules s @ (if own_rules s = [] then [] else [[]]) @ ?b) @ newline"
    using j [of "own_rules s"] by (auto simp: merge_block_def own_rules_def Let_def)
  then show ?thesis
    using splitlines_join [of "own_rules s @ (if own_rules s = [] then [] else [[]]) @ ?b"]
      own_rules_unbroken [of s] assms by (simp add: unbroken_def)
qed

lemma merged_rules:
  assumes "list_all unbroken (EXCLUDE_BEGIN # mid @ [EXCLUDE_END])"
    and "EXCLUDE_BEGIN \<notin> set mid" and "EXCLUDE_END \<notin> set mid"
  shows "own_rules (merge_block s (join newline (EXCLUDE_BEGIN # mid @ [EXCLUDE_END]))) = own_rules s"
proof -
  have "drop_blank_end (own_rules s) = own_rules s" "drop_blank_end (own_rules s @ [[]]) = own_rules s"
    by (simp_all add: own_rules_def drop_blank_end_idem)
  then show ?thesis
    using cut_block_managed [OF assms(2,3), of "own_rules s"]
      cut_block_managed [OF assms(2,3), of "own_rules s @ [[]]"]
    by (cases "own_rules s = []") (simp_all add: own_rules_def [of "merge_block s x" for x] merged_lines [OF assms(1)])
qed

text \<open>The block the helper writes has one begin and one end, and no folder breaks a line of it.\<close>

lemma exclude_block_lines:
  assumes "unbroken (strip_slashes (sources_folder st))" and "unbroken (strip_slashes (trash_folder st))"
  shows "\<exists>mid. exclude_block st = join newline (EXCLUDE_BEGIN # mid @ [EXCLUDE_END]) \<and>
     list_all unbroken (EXCLUDE_BEGIN # mid @ [EXCLUDE_END]) \<and> EXCLUDE_BEGIN \<notin> set mid \<and> EXCLUDE_END \<notin> set mid"
proof -
  let ?rule = "\<lambda>n. U ''/'' @ escape_rule n @ U ''/''"
  let ?mid = "map ?rule (kept_out st) @ [TEMP_FILES]"
  have esc: "unbroken n \<Longrightarrow> unbroken (escape_rule n)" for n
    by (auto simp: unbroken_def escape_rule_def list_all_iff line_break_def)
  have u: "unbroken (U ''/'')" "unbroken TEMP_FILES" "unbroken EXCLUDE_BEGIN" "unbroken EXCLUDE_END"
    "unbroken (U ''.obsidian'')" "unbroken (U ''.trash'')"
    by (simp_all add: unbroken_def TEMP_FILES_def EXCLUDE_BEGIN_def EXCLUDE_END_def U_def line_break_def)
  have app: "unbroken (a @ b) \<longleftrightarrow> unbroken a \<and> unbroken b" for a b
    by (simp add: unbroken_def)
  have "list_all unbroken (map ?rule (kept_out st))"
    using u esc assms by (simp add: kept_out_def app)
  moreover have "EXCLUDE_BEGIN \<notin> set ?mid" "EXCLUDE_END \<notin> set ?mid"
    by (auto simp: EXCLUDE_BEGIN_def EXCLUDE_END_def TEMP_FILES_def U_def)
  ultimately show ?thesis
    using u by (intro exI [of _ ?mid]) (simp add: exclude_block_def)
qed

text \<open>Rewriting \<open>info/exclude\<close> keeps a person's own rules: the lines outside the managed block are
  the same, in order, the block is there once at the end, and writing it again changes nothing.\<close>

theorem merge_block_keeps_rules:
  assumes "unbroken (strip_slashes (sources_folder st))" and "unbroken (strip_slashes (trash_folder st))"
    and "merged = merge_block s (exclude_block st)"
  shows "own_rules merged = own_rules s \<and> merge_block merged (exclude_block st) = merged \<and>
     (\<exists>front. merged = front @ exclude_block st @ newline)"
proof -
  obtain mid where m: "exclude_block st = join newline (EXCLUDE_BEGIN # mid @ [EXCLUDE_END])"
      "list_all unbroken (EXCLUDE_BEGIN # mid @ [EXCLUDE_END])" "EXCLUDE_BEGIN \<notin> set mid" "EXCLUDE_END \<notin> set mid"
    using exclude_block_lines [OF assms(1,2)] by blast
  have own: "own_rules merged = own_rules s"
    unfolding assms(3) m(1) by (rule merged_rules [OF m(2-4)])
  have mb: "merge_block t b = join newline (if own_rules t \<noteq> [] then own_rules t @ [[], b] else [b]) @ newline" for t b
    by (simp add: merge_block_def own_rules_def Let_def)
  have "join newline (xs @ [[], b]) = join newline (xs @ [[]]) @ newline @ b" for xs b
  proof (induction xs)
    case (Cons x xs)
    then show ?case by (simp add: join_Cons)
  qed simp
  then show ?thesis
    using own by (auto simp: assms(3) mb)
qed

theorem merge_block_keeps_rules_witness:
  "own_rules (merge_block (U ''*.log'') (exclude_block shipped_settings)) = own_rules (U ''*.log'') \<and>
   (\<exists>front. merge_block (U ''*.log'') (exclude_block shipped_settings) = front @ exclude_block shipped_settings @ newline)"
proof -
  have "unbroken (strip_slashes (sources_folder shipped_settings))" "unbroken (strip_slashes (trash_folder shipped_settings))"
    by (simp_all add: shipped_settings_def strip_slashes_def strip_by_id trimmed_by_def U_def unbroken_def line_break_def)
  from merge_block_keeps_rules [OF this refl, of "U ''*.log''"] show ?thesis by blast
qed

text \<open>
  The lines outside the block do not stay byte for byte: \<open>splitlines\<close> ends a line at a form feed
  too, and the join writes a line feed in its place.
\<close>

lemma merge_block_rewrites_breaks:
  "merge_block [97, 12, 98] b = [97, 10, 98, 10, 10] @ b @ [10]"
  by (simp add: merge_block_def splitlines_def line_break_def drop_end_def endswith_def startswith_def
      cut_block_def drop_blank_end_def EXCLUDE_BEGIN_def U_def newline_def strip_def strip_by_def
      lstrip_by_def rstrip_by_def py_space_def)

end
