(* ===== verification/GitHelper.thy ===== *)
theory GitHelper
  imports GitRepo Complex_Main
begin

text \<open>
  \<open>coppermind_git/main.py\<close>: the Git helper's polling loop.  Its state is the fields of
  \<open>Helper\<close> with the repository; times are rational seconds.  A tick reads the settings
  file, scans when a scan is due and answers with the seconds to wait.  Between ticks the
  notes filesystem changes as it likes.  The invariant ties \<open>pending_tree\<close> to the hist of
  past scans, so a snapshot is recorded only when two scans, a debounce apart, staged the
  same tree.
\<close>

record 'r helper =
  settings :: helper_settings
  settings_error :: "settings_error option"
  scan_error :: "git_error option"
  last_scan_at :: "rat option"
  last_run_at :: "rat option"
  pending_tree :: "str option"
  dirty_files :: nat
  last_commit :: "(str \<times> str) option"
  repo :: "'r repo_state"

definition new_helper :: "'r repo_state \<Rightarrow> 'r helper" where
  "new_helper r = \<lparr>settings = shipped_settings, settings_error = None, scan_error = None,
     last_scan_at = None, last_run_at = None, pending_tree = None, dirty_files = 0,
     last_commit = None, repo = r\<rparr>"

definition HEARTBEAT_S :: rat where
  "HEARTBEAT_S = 30"

definition seconds_until_scan :: "'r helper \<Rightarrow> rat \<Rightarrow> rat" where
  "seconds_until_scan h now =
     (if \<not> enabled (settings h) then HEARTBEAT_S
      else case last_scan_at h of None \<Rightarrow> 0
        | Some t \<Rightarrow>
            (let settling = (pending_tree h \<noteq> None \<or> scan_error h \<noteq> None);
                 wait = (if settling then debounce_s (settings h) else poll_interval_s (settings h))
             in t + of_int wait - now))"

definition refresh_settings :: "(str \<Rightarrow> pyval option) \<Rightarrow> text_file \<Rightarrow> 'r helper \<Rightarrow> 'r helper" where
  "refresh_settings yaml f h =
     (case load_settings yaml f of
        Inl e \<Rightarrow> h\<lparr>settings_error := Some e\<rparr>
      | Inr st \<Rightarrow> h\<lparr>settings := st, settings_error := None\<rparr>)"

datatype scan_outcome = Failed | Clean | Waiting str | Committed str

definition scan_failed :: "git_error \<Rightarrow> 'r repo_state \<Rightarrow> 'r helper \<Rightarrow> 'r helper \<times> scan_outcome" where
  "scan_failed e r h = (h\<lparr>scan_error := Some e, repo := r\<rparr>, Failed)"

text \<open>What follows the staging when nothing failed: the count, the time and no error.\<close>

definition scan_done ::
  "rat \<Rightarrow> snapshot \<Rightarrow> str option \<Rightarrow> 'r repo_state \<Rightarrow> 'r helper \<Rightarrow> scan_outcome \<Rightarrow> 'r helper \<times> scan_outcome" where
  "scan_done now snap pend r h out =
     (h\<lparr>pending_tree := pend, repo := r,
        dirty_files := (if pend \<noteq> None \<and> pend \<noteq> Some [] then length (changes snap) else 0),
        last_run_at := Some now, scan_error := None\<rparr>, out)"

definition scan :: "'r git_exec \<Rightarrow> rat \<Rightarrow> 'r helper \<Rightarrow> 'r helper \<times> scan_outcome" where
  "scan g now h =
     (let h = h\<lparr>last_scan_at := Some now\<rparr>
      in case ensure_repo g (settings h) (repo h) of
        (Inl e, r) \<Rightarrow> scan_failed e r h
      | (Inr actions, r) \<Rightarrow>
         (let (seen, r) = (if last_commit h = None then last_commit_of g r else (last_commit h, r));
              h = h\<lparr>last_commit := seen\<rparr>
          in case stage g (settings h) r of
            (Inl e, r) \<Rightarrow> scan_failed e r h
          | (Inr snap, r) \<Rightarrow>
             if changes snap = [] then scan_done now snap None r h Clean
             else if Some (tree snap) = pending_tree h then
               (case commit g (settings h) snap r of
                  (Inl e, r) \<Rightarrow> scan_failed e r h
                | (Inr sha, r) \<Rightarrow>
                   (let (seen, r) = last_commit_of g r
                    in scan_done now snap None r (h\<lparr>last_commit := seen\<rparr>) (Committed (tree snap))))
             else scan_done now snap (Some (tree snap)) r h (Waiting (tree snap))))"

text \<open>A tick: the seconds to wait, the helper after it, and the scan it did, for the log.\<close>

type_synonym log_entry = "rat \<times> rat \<times> scan_outcome"

definition tick ::
  "'r git_exec \<Rightarrow> (str \<Rightarrow> pyval option) \<Rightarrow> text_file \<Rightarrow> rat \<Rightarrow> 'r helper \<Rightarrow> rat \<times> 'r helper \<times> log_entry list" where
  "tick g yaml f now h =
     (let h = refresh_settings yaml f h;
          (h', ev) = (if seconds_until_scan h now \<le> 0
             then (case scan g now h of (h', out) \<Rightarrow> (h', [(now, of_int (debounce_s (settings h)), out)]))
             else (h, []))
      in (max 1 (min HEARTBEAT_S (seconds_until_scan h' now)), h', ev))"

text \<open>The status file, field by field.\<close>

record status =
  st_enabled :: bool
  st_last_run_at :: "rat option"
  st_last_commit :: "(str \<times> str) option"
  st_dirty_files :: nat
  st_error :: "(git_error + settings_error) option"
  st_debounce_s :: int

definition status_of :: "'r helper \<Rightarrow> status" where
  "status_of h = \<lparr>st_enabled = enabled (settings h), st_last_run_at = last_run_at h,
     st_last_commit = last_commit h, st_dirty_files = dirty_files h,
     st_error = (case scan_error h of Some e \<Rightarrow> Some (Inl e)
        | None \<Rightarrow> map_option Inr (settings_error h)),
     st_debounce_s = debounce_s (settings h)\<rparr>"

text \<open>Runs of the helper: before each tick the settings file, the time and the repository are
  whatever they are.  The log holds the scans, the last one first.\<close>

inductive helper_run :: "'r git_exec \<Rightarrow> (str \<Rightarrow> pyval option) \<Rightarrow> 'r helper \<Rightarrow> log_entry list \<Rightarrow> bool"
  for g yaml where
  start: "helper_run g yaml (new_helper r) []"
| again: "helper_run g yaml h hist \<Longrightarrow> tick g yaml f now (h\<lparr>repo := r\<rparr>) = (secs, h', ev) \<Longrightarrow>
    helper_run g yaml h' (ev @ hist)"

section \<open>Snapshots settle\<close>

text \<open>The tree the scans of a log left pending: a failed scan leaves it as it was.\<close>

fun pending_of :: "log_entry list \<Rightarrow> str option" where
  "pending_of [] = None"
| "pending_of ((t, d, out) # hist) =
     (case out of Failed \<Rightarrow> pending_of hist | Waiting x \<Rightarrow> Some x | _ \<Rightarrow> None)"

fun failing_of :: "log_entry list \<Rightarrow> bool" where
  "failing_of [] = False"
| "failing_of ((t, d, out) # hist) = (out = Failed)"

definition helper_inv :: "'r helper \<Rightarrow> log_entry list \<Rightarrow> bool" where
  "helper_inv h hist \<longleftrightarrow> usable (settings h) \<and> pending_tree h = pending_of hist \<and>
     last_scan_at h = (case hist of [] \<Rightarrow> None | (t, d, out) # l \<Rightarrow> Some t) \<and>
     (scan_error h \<noteq> None \<longleftrightarrow> failing_of hist)"

text \<open>A log entry is settled: a snapshot was waiting in the log before it, and its scan came at least
  the debounce then in force after the last one.\<close>

definition settled_entry :: "log_entry \<Rightarrow> log_entry list \<Rightarrow> bool" where
  "settled_entry e before = (case e of (t, d, out) \<Rightarrow>
     (case out of Committed x \<Rightarrow> pending_of before = Some x \<and> 1 \<le> d \<and>
         (case before of [] \<Rightarrow> False | (t0, d0, out0) # l \<Rightarrow> t0 + d \<le> t)
      | _ \<Rightarrow> True))"

fun settled_log :: "log_entry list \<Rightarrow> bool" where
  "settled_log [] = True"
| "settled_log (e # hist) = (settled_entry e hist \<and> settled_log hist)"

lemma refresh_usable: "usable (settings h) \<Longrightarrow> usable (settings (refresh_settings yaml f h))"
  using load_usable by (auto simp: refresh_settings_def split: sum.splits)

lemma refresh_fields [simp]:
  "pending_tree (refresh_settings yaml f h) = pending_tree h"
  "last_scan_at (refresh_settings yaml f h) = last_scan_at h"
  "scan_error (refresh_settings yaml f h) = scan_error h"
  "repo (refresh_settings yaml f h) = repo h"
  by (simp_all add: refresh_settings_def split: sum.splits)

lemma scan_effects:
  assumes "scan g now h = (h', out)"
  shows "settings h' = settings h \<and> last_scan_at h' = Some now \<and>
     (scan_error h' \<noteq> None \<longleftrightarrow> out = Failed) \<and>
     pending_tree h' = (case out of Failed \<Rightarrow> pending_tree h | Waiting x \<Rightarrow> Some x | _ \<Rightarrow> None) \<and>
     (\<forall>x. out = Committed x \<longrightarrow> pending_tree h = Some x)"
  using assms
  by (auto simp: scan_def scan_failed_def scan_done_def Let_def split: prod.splits sum.splits if_splits)

lemma helper_run_inv: "helper_run g yaml h hist \<Longrightarrow> helper_inv h hist \<and> settled_log hist"
proof (induction rule: helper_run.induct)
  case (start r)
  then show ?case
    using shipped_usable by (simp add: helper_inv_def new_helper_def)
next
  case (again h hist f now r secs h' ev)
  define h1 where "h1 = refresh_settings yaml f (h\<lparr>repo := r\<rparr>)"
  have u: "usable (settings h1)"
    using again.IH refresh_usable [of "h\<lparr>repo := r\<rparr>" yaml f] by (simp add: helper_inv_def h1_def)
  have same: "pending_tree h1 = pending_tree h" "last_scan_at h1 = last_scan_at h" "scan_error h1 = scan_error h"
    by (simp_all add: h1_def)
  have inv1: "helper_inv h1 hist"
    using again.IH u by (simp add: helper_inv_def same)
  show ?case
  proof (cases "seconds_until_scan h1 now \<le> 0")
    case False
    then have "h' = h1" "ev = []"
      using again.hyps(2) by (auto simp: tick_def h1_def Let_def)
    with inv1 again.IH show ?thesis by simp
  next
    case True
    obtain h2 out where sc: "scan g now h1 = (h2, out)" by fastforce
    have h': "h' = h2" and ev: "ev = [(now, of_int (debounce_s (settings h1)), out)]"
      using again.hyps(2) True sc by (auto simp: tick_def h1_def Let_def)
    note e = scan_effects [OF sc]
    have "helper_inv h2 (ev @ hist)"
      using e inv1 u by (auto simp: helper_inv_def ev split: scan_outcome.splits)
    moreover have "settled_entry (now, of_int (debounce_s (settings h1)), out) hist"
    proof (cases "\<exists>x. out = Committed x")
      case True
      then obtain x where x: "out = Committed x" "pending_tree h1 = Some x"
        using e by blast
      then have p: "pending_of hist = Some x"
        using inv1 by (simp add: helper_inv_def)
      then obtain t0 d0 o0 l where l: "hist = (t0, d0, o0) # l"
        by (cases hist) auto
      have "last_scan_at h1 = Some t0"
        using inv1 l by (simp add: helper_inv_def)
      then have "enabled (settings h1) \<Longrightarrow> t0 + of_int (debounce_s (settings h1)) \<le> now"
        using \<open>seconds_until_scan h1 now \<le> 0\<close> x(2) by (simp add: seconds_until_scan_def)
      moreover have "enabled (settings h1)"
        using \<open>seconds_until_scan h1 now \<le> 0\<close> by (auto simp: seconds_until_scan_def HEARTBEAT_S_def split: if_splits)
      ultimately show ?thesis
        using p l x(1) u by (simp add: settled_entry_def usable_def)
    qed (auto simp: settled_entry_def split: scan_outcome.splits)
    ultimately show ?thesis
      using again.IH by (simp add: h' ev)
  qed
qed

text \<open>C35. Only settled changes are recorded: in every run of the helper, a scan that commits a tree
  comes at least the debounce in force, and so at least a second, after the scan before it, and the
  last scan that worked staged that same tree and left it waiting.\<close>

theorem commits_are_settled:
  assumes "helper_run g yaml h (later @ (t, d, Committed x) # before)"
  shows "pending_of before = Some x \<and> 1 \<le> d \<and> (\<exists>t0 d0 o0 l. before = (t0, d0, o0) # l \<and> t0 + d \<le> t)"
proof -
  have "settled_log (later @ (t, d, Committed x) # before)"
    using helper_run_inv [OF assms] by blast
  then have "settled_entry (t, d, Committed x) before"
    by (induction later) auto
  then show ?thesis
    by (auto simp: settled_entry_def split: list.splits)
qed

text \<open>The waiting time is between one second and a heartbeat, whatever the clock does.\<close>

lemma tick_bounds: "1 \<le> fst (tick g yaml f now h)" "fst (tick g yaml f now h) \<le> HEARTBEAT_S"
  by (simp_all add: tick_def Let_def HEARTBEAT_S_def split: prod.splits)

lemma refresh_keeps_last_good:
  "load_settings yaml f = Inl e \<Longrightarrow> settings (refresh_settings yaml f h) = settings h"
  by (simp add: refresh_settings_def)

text \<open>A repository in which one note is always changed, for a concrete run.\<close>

definition sample_git :: "unit git_exec" where
  "sample_git = \<lparr>run = (\<lambda>call s. ((0, if hd (args call) = U ''write-tree'' then U ''t1''
       else if hd (args call) = U ''diff'' then [77, 0, 97, 0] else []), s)),
     resolved_work_tree = [], resolve = (\<lambda>p. p)\<rparr>"

definition good_repo :: "unit repo_state \<Rightarrow> bool" where
  "good_repo r \<longleftrightarrow> notes_there r \<and> dot_git r \<and> \<not> write_refused r"

definition sample_repo :: "unit repo_state" where
  "sample_repo = \<lparr>notes_there = True, dot_git = True, lock_files = [], exclude_file = None, opened = False,
     write_refused = False, git_state = ()\<rparr>"

lemma sample_git_out:
  "git sample_git as s = (Inr (if map U as \<noteq> [] \<and> hd as = ''write-tree'' then U ''t1''
     else if map U as \<noteq> [] \<and> hd as = ''diff'' then [77, 0, 97, 0] else []), s)" if "as \<noteq> []"
  using that by (cases as) (auto simp: git_def git_checked_def sample_git_def)

lemma sample_ensure: "good_repo r \<Longrightarrow> \<exists>actions r'. ensure_repo sample_git st r = (Inr actions, r') \<and> good_repo r'"
proof -
  assume r: "good_repo r"
  have w: "\<exists>s'. write_exclude st s = (Inr (), s') \<and> good_repo s'" if "good_repo s" for s :: "unit repo_state"
    using that by (auto simp: write_exclude_def good_repo_def Let_def)
  have c: "\<exists>xs s'. clear_locks r = (Inr xs, s') \<and> good_repo s'"
    using r by (auto simp: clear_locks_def good_repo_def)
  then obtain xs s1 where s1: "clear_locks r = (Inr xs, s1)" "good_repo s1" by blast
  obtain s2 where s2: "write_exclude st s1 = (Inr (), s2)" "good_repo s2" using w [OF s1(2)] by blast
  have "resolve sample_git [] = resolved_work_tree sample_git"
    by (simp add: sample_git_def)
  then show ?thesis
    using r s1 s2 by (simp add: ensure_repo_def ebind_def give_def sample_git_out good_repo_def)
qed

lemma sample_stage:
  "\<exists>r'. stage sample_git st r = (Inr \<lparr>tree = U ''t1'', changes = [([77], [97])]\<rparr>, r') \<and> (good_repo r \<longrightarrow> good_repo r')"
proof -
  have s: "strip (U ''t1'') = U ''t1''" by (rule strip_plain) (simp_all add: U_def py_space_def)
  have "git_checked sample_git (map U [''rm'', ''-r'', ''--cached'', ''--force'', ''--quiet'', ''--ignore-unmatch'', ''--''] @
      kept_out_pathspec st) [] None [] r = (Inr [], r)"
    by (simp add: git_checked_def sample_git_def)
  then show ?thesis
    by (simp add: stage_def ebind_def give_def sample_git_out s)
qed

lemma sample_commit: "\<exists>sha. commit sample_git st snap r = (Inr sha, r)"
proof -
  have "git_checked sample_git as cf id inp r = (Inr (if hd as = U ''write-tree'' then U ''t1''
       else if hd as = U ''diff'' then [77, 0, 97, 0] else []), r)" for as cf id inp
    by (simp add: git_checked_def sample_git_def)
  then show ?thesis
    by (simp add: commit_def ebind_def give_def sample_git_out)
qed

lemma sample_last: "\<exists>c. last_commit_of sample_git r = (c, r)"
  by (simp add: last_commit_of_def sample_git_def)

lemma sample_scan:
  assumes "good_repo (repo h)"
  shows "\<exists>h'. scan sample_git now h = (h', if pending_tree h = Some (U ''t1'') then Committed (U ''t1'') else Waiting (U ''t1''))
     \<and> good_repo (repo h')"
proof -
  obtain acts r1 where e: "ensure_repo sample_git (settings h) (repo h) = (Inr acts, r1)" "good_repo r1"
    using sample_ensure [OF assms] by blast
  obtain r2 where st: "stage sample_git (settings h) r1 = (Inr \<lparr>tree = U ''t1'', changes = [([77], [97])]\<rparr>, r2)" "good_repo r2"
    using sample_stage e(2) by blast
  obtain c1 where l: "last_commit_of sample_git r1 = (c1, r1)" using sample_last by blast
  obtain c2 where l2: "last_commit_of sample_git r2 = (c2, r2)" using sample_last by blast
  obtain sha where cm: "commit sample_git (settings h) \<lparr>tree = U ''t1'', changes = [([77], [97])]\<rparr> r2 = (Inr sha, r2)"
    using sample_commit by blast
  show ?thesis
    using e st l l2 cm by (auto simp: scan_def scan_done_def Let_def split: prod.splits)
qed

theorem commits_are_settled_witness:
  "\<exists>h before. helper_run sample_git (\<lambda>t. None) h ((60, 60, Committed (U ''t1'')) # before) \<and>
     pending_of before = Some (U ''t1'')"
proof -
  have load: "load_settings (\<lambda>t. None) FileAbsent = Inr shipped_settings"
    by (simp add: load_settings_def)
  let ?h0 = "new_helper sample_repo"
  have g0: "good_repo (repo ?h0)" by (simp add: good_repo_def new_helper_def sample_repo_def)
  have rf: "refresh_settings (\<lambda>t. None) FileAbsent h = h\<lparr>settings := shipped_settings, settings_error := None\<rparr>" for h :: "unit helper"
    by (simp add: refresh_settings_def load)
  let ?h0' = "?h0\<lparr>settings := shipped_settings, settings_error := None\<rparr>"
  obtain h1 where h1: "scan sample_git 0 ?h0' = (h1, Waiting (U ''t1''))" "good_repo (repo h1)"
    using sample_scan [of ?h0' 0] g0 by (auto simp: new_helper_def)
  note e1 = scan_effects [OF h1(1)]
  have d0: "seconds_until_scan ?h0' 0 = 0"
    by (simp add: seconds_until_scan_def new_helper_def shipped_settings_def)
  obtain secs where t1: "tick sample_git (\<lambda>t. None) FileAbsent 0 (?h0\<lparr>repo := sample_repo\<rparr>) =
      (secs, h1, [(0, 60, Waiting (U ''t1''))])"
    using h1 d0 by (simp add: tick_def rf Let_def new_helper_def shipped_settings_def)
  have r1: "helper_run sample_git (\<lambda>t. None) h1 ([(0, 60, Waiting (U ''t1''))] @ [])"
    by (rule helper_run.again [OF helper_run.start t1])
  let ?h1' = "h1\<lparr>repo := repo h1, settings := shipped_settings, settings_error := None\<rparr>"
  obtain h2 where h2: "scan sample_git 60 ?h1' = (h2, Committed (U ''t1''))"
    using sample_scan [of ?h1' 60] h1(2) e1 by auto
  have d1: "seconds_until_scan ?h1' 60 = 0"
    using e1 by (simp add: seconds_until_scan_def shipped_settings_def)
  obtain secs2 where t2: "tick sample_git (\<lambda>t. None) FileAbsent 60 (h1\<lparr>repo := repo h1\<rparr>) =
      (secs2, h2, [(60, 60, Committed (U ''t1''))])"
    using h2 d1 by (simp add: tick_def rf Let_def) (simp add: shipped_settings_def)
  have c: "helper_run sample_git (\<lambda>t. None) h2 ([] @ (60, 60, Committed (U ''t1'')) # [(0, 60, Waiting (U ''t1''))])"
    using helper_run.again [OF r1 t2] by simp
  show ?thesis
    using commits_are_settled [OF c] c by (intro exI [of _ h2] exI [of _ "[(0, 60, Waiting (U ''t1''))]"]) simp
qed

end
