(* ===== verification/Contract.thy ===== *)
theory Contract
  imports Schema Lines
begin

text \<open>
  The store contract: the typed errors and request checks of \<open>coppermind/store_protocol.py\<close>,
  the error envelope of \<open>coppermind/errors.py\<close>, and the way \<open>coppermind/store_client.py\<close> turns
  an envelope back into a typed error.  A request's \<open>ValueError\<close> is a value of
  \<open>request_error\<close>; base64 and \<open>urlsplit\<close> are arguments.
\<close>

section \<open>Typed errors\<close>

datatype store_error =
    FieldIndexNotReady str
  | PurgeConflict
  | FilterCursorConflict
  | NotFoundNote str
  | PathCollision str
  | SourceClaimMissing str str
  | SourceNotFound str
  | ArtifactNotFound str int str
  | ArtifactMissing str
  | ArtifactsFilesystemUnavailable str
  | ProjectionNotPlaced str int str
  | IncompleteRevision str
  | PayloadTooLarge int
  | VersionConflict str
  | PreconditionRequired
  | ValidationFailed "str list"
  | MetadataUnavailable str
  | NoteUnparseable str str
  | NotesFilesystemUnavailable str
  | SourcesFilesystemUnavailable str
  | StoreUnavailable str
  | PlainStoreError str

text \<open>\<open>str(error)\<close>.\<close>

fun error_text :: "store_error \<Rightarrow> str" where
  "error_text (FieldIndexNotReady j) = U ''declared-field index is not ready; inspect or retry its rebuild in Admin''"
| "error_text PurgeConflict = U ''The purge list or its files changed. Run a new preview before confirming.''"
| "error_text FilterCursorConflict = U ''filters or schema changed; restart pagination''"
| "error_text (NotFoundNote i) = U ''no note with id '' @ i"
| "error_text (PathCollision p) = U ''path already in use: '' @ p"
| "error_text (SourceClaimMissing p x) = U ''the durable claim for source '' @ p @ U ''/'' @ x @
     U '' is missing while its database row survives, so nothing was written; restore /data/sources '' @
     U ''and the database from the same point in time, or remove the stale row, then retry''"
| "error_text (SourceNotFound s) = U ''no source with id '' @ s"
| "error_text (ArtifactNotFound s r n) =
     U ''source '' @ s @ U '' revision '' @ int_str r @ U '' has no artifact '' @ n"
| "error_text (ArtifactMissing a) = U ''no artifact with id '' @ a"
| "error_text (ArtifactsFilesystemUnavailable c) = c"
| "error_text (ProjectionNotPlaced s r p) =
     U ''source '' @ s @ U '' revision '' @ int_str r @ U '' is stored, but its readable page could not '' @
     U ''be placed: '' @ p @ U '' is occupied by a file this store did not generate, and the recorded '' @
     U ''path may not name this page until then. Ingest the source again to place the page at a free '' @
     U ''name and repair the mirror.''"
| "error_text (IncompleteRevision p) = U ''the source bundle holds the revision directory '' @ p @
     U '', which its manifest does not record, so an earlier revision write was interrupted; nothing '' @
     U ''was written and nothing was removed. Inspect that directory, remove it, then retry''"
| "error_text (PayloadTooLarge n) = U ''the payload exceeds the '' @ int_str n @ U '' byte limit''"
| "error_text (VersionConflict e) = U ''the note has changed since it was read; read it again and retry''"
| "error_text PreconditionRequired = U ''an If-Match header carrying the note's current ETag is required''"
| "error_text (ValidationFailed es) = join (U ''; '') es"
| "error_text (MetadataUnavailable c) = c"
| "error_text (NoteUnparseable i r) = U ''the frontmatter of note '' @ i @
     U '' could not be parsed; Coppermind has not modified the file''"
| "error_text (NotesFilesystemUnavailable c) = c"
| "error_text (SourcesFilesystemUnavailable c) = c"
| "error_text (StoreUnavailable c) = c"
| "error_text (PlainStoreError c) = c"

section \<open>The envelope\<close>

definition METADATA_UNAVAILABLE_MESSAGE :: str where
  "METADATA_UNAVAILABLE_MESSAGE =
     U ''the metadata database is unavailable; if this was a write, its outcome is unknown and '' @
     U ''reconciliation converges the notes filesystem once the database returns''"

definition NOTES_FILESYSTEM_UNAVAILABLE_MESSAGE :: str where
  "NOTES_FILESYSTEM_UNAVAILABLE_MESSAGE =
     U ''the notes filesystem could not be read or written; this operation did not succeed and can be '' @
     U ''retried once the volume is healthy''"

definition SOURCES_FILESYSTEM_UNAVAILABLE_MESSAGE :: str where
  "SOURCES_FILESYSTEM_UNAVAILABLE_MESSAGE =
     U ''the source bundle filesystem could not be read or written; this source operation can be '' @
     U ''retried once the volume is healthy''"

definition ARTIFACTS_FILESYSTEM_UNAVAILABLE_MESSAGE :: str where
  "ARTIFACTS_FILESYSTEM_UNAVAILABLE_MESSAGE =
     U ''the artifact archive or its records could not be read or written; this artifact operation '' @
     U ''can be retried once the volume is healthy''"

definition STORE_UNAVAILABLE_MESSAGE :: str where
  "STORE_UNAVAILABLE_MESSAGE =
     U ''the store could not be reached; if this was a write, its outcome is unknown and '' @
     U ''reconciliation converges the notes filesystem once the store returns''"

datatype surface = Public | Internal

definition code_for_status :: "nat \<Rightarrow> str" where
  "code_for_status c = (if c = 404 then U ''not_found'' else if c = 405 then U ''method_not_allowed'' else U ''error'')"

definition envelope :: "string \<Rightarrow> str \<Rightarrow> (string \<times> pyval) list \<Rightarrow> fmap" where
  "envelope code message extra =
     [(U ''error'', PStr (U code)), (U ''message'', PStr message)] @ map (\<lambda>(k, v). (U k, v)) extra"

definition to_http :: "store_error \<Rightarrow> surface \<Rightarrow> nat \<times> fmap" where
  "to_http e surface =
     (let shown = error_text e;
          cause = (if surface = Internal then [(''detail'', PStr shown)] else [])
      in case e of
        FieldIndexNotReady j \<Rightarrow> (503, envelope ''field_index_not_ready'' shown [(''job_id'', PStr j)])
      | PurgeConflict \<Rightarrow> (409, envelope ''purge_conflict'' shown [])
      | FilterCursorConflict \<Rightarrow> (409, envelope ''filter_cursor_conflict'' shown [])
      | NotFoundNote i \<Rightarrow> (404, envelope ''not_found'' shown [(''note_id'', PStr i)])
      | SourceNotFound s \<Rightarrow> (404, envelope ''not_found'' shown [(''source_id'', PStr s)])
      | ArtifactNotFound s r n \<Rightarrow> (404, envelope ''not_found'' shown
          [(''source_id'', PStr s), (''revision'', PInt r), (''name'', PStr n)])
      | ArtifactMissing a \<Rightarrow> (404, envelope ''not_found'' shown [(''artifact_id'', PStr a)])
      | ValidationFailed es \<Rightarrow> (422, envelope ''validation_error'' shown [(''errors'', PList (map PStr es))])
      | PathCollision p \<Rightarrow> (409, envelope ''path_collision'' shown [(''existing_path'', PStr p)])
      | SourceClaimMissing p x \<Rightarrow> (409, envelope ''source_claim_missing'' shown
          [(''provider'', PStr p), (''external_source_id'', PStr x)])
      | ProjectionNotPlaced s r p \<Rightarrow> (409, envelope ''projection_not_placed'' shown
          [(''source_id'', PStr s), (''revision'', PInt r), (''path'', PStr p)])
      | IncompleteRevision p \<Rightarrow> (409, envelope ''incomplete_revision'' shown [(''path'', PStr p)])
      | PayloadTooLarge n \<Rightarrow> (413, envelope ''payload_too_large'' shown [(''limit_bytes'', PInt n)])
      | VersionConflict t \<Rightarrow> (409, envelope ''version_conflict'' shown [(''current_version'', PStr t)])
      | PreconditionRequired \<Rightarrow> (428, envelope ''precondition_required'' shown [])
      | NoteUnparseable i r \<Rightarrow> (409, envelope ''note_unparseable'' shown
          ([(''note_id'', PStr i)] @ (if surface = Internal then [(''reason'', PStr r)] else [])))
      | MetadataUnavailable c \<Rightarrow> (503, envelope ''metadata_unavailable'' METADATA_UNAVAILABLE_MESSAGE [])
      | NotesFilesystemUnavailable c \<Rightarrow>
          (503, envelope ''notes_filesystem_unavailable'' NOTES_FILESYSTEM_UNAVAILABLE_MESSAGE cause)
      | SourcesFilesystemUnavailable c \<Rightarrow>
          (503, envelope ''sources_filesystem_unavailable'' SOURCES_FILESYSTEM_UNAVAILABLE_MESSAGE cause)
      | ArtifactsFilesystemUnavailable c \<Rightarrow>
          (503, envelope ''artifacts_filesystem_unavailable'' ARTIFACTS_FILESYSTEM_UNAVAILABLE_MESSAGE cause)
      | StoreUnavailable c \<Rightarrow> (503, envelope ''store_unavailable'' STORE_UNAVAILABLE_MESSAGE cause)
      | PlainStoreError c \<Rightarrow> (500, envelope ''internal_error'' (U ''unexpected store error'') cause))"

section \<open>Reading an envelope\<close>

text \<open>\<open>payload.get(key, default)\<close>, at the type the envelope gives the key.\<close>

definition text_field :: "fmap \<Rightarrow> string \<Rightarrow> str \<Rightarrow> str" where
  "text_field p k d = (case dget p (U k) of Some (PStr s) \<Rightarrow> s | _ \<Rightarrow> d)"

definition int_field :: "fmap \<Rightarrow> string \<Rightarrow> int" where
  "int_field p k = (case dget p (U k) of Some (PInt i) \<Rightarrow> i | _ \<Rightarrow> 0)"

definition list_field :: "fmap \<Rightarrow> string \<Rightarrow> str list \<Rightarrow> str list" where
  "list_field p k d = (case dget p (U k) of
     Some (PList vs) \<Rightarrow> map (\<lambda>v. case v of PStr s \<Rightarrow> s | _ \<Rightarrow> []) vs | _ \<Rightarrow> d)"

definition has_field :: "fmap \<Rightarrow> string \<Rightarrow> bool" where
  "has_field p k \<longleftrightarrow> dget p (U k) \<noteq> None"

text \<open>\<open>_as_typed_error\<close>: the payload, empty when the answer is not JSON, and the answer's text.\<close>

definition as_typed_error :: "nat \<Rightarrow> fmap \<Rightarrow> str \<Rightarrow> store_error" where
  "as_typed_error code payload shown =
     (let err = text_field payload ''error'' []; message = text_field payload ''message'' shown
      in if code = 404 \<and> has_field payload ''source_id'' \<and> has_field payload ''name'' then
           ArtifactNotFound (text_field payload ''source_id'' []) (int_field payload ''revision'') (text_field payload ''name'' [])
         else if code = 404 \<and> has_field payload ''source_id'' then SourceNotFound (text_field payload ''source_id'' [])
         else if code = 404 \<and> has_field payload ''artifact_id'' then ArtifactMissing (text_field payload ''artifact_id'' [])
         else if code = 404 then NotFoundNote (text_field payload ''note_id'' message)
         else if err = U ''field_index_not_ready'' then FieldIndexNotReady (text_field payload ''job_id'' [])
         else if err = U ''purge_conflict'' then PurgeConflict
         else if err = U ''filter_cursor_conflict'' then FilterCursorConflict
         else if err = U ''path_collision'' then PathCollision (text_field payload ''existing_path'' message)
         else if err = U ''source_claim_missing'' then
           SourceClaimMissing (text_field payload ''provider'' []) (text_field payload ''external_source_id'' [])
         else if err = U ''projection_not_placed'' then
           ProjectionNotPlaced (text_field payload ''source_id'' []) (int_field payload ''revision'') (text_field payload ''path'' message)
         else if err = U ''incomplete_revision'' then IncompleteRevision (text_field payload ''path'' message)
         else if err = U ''payload_too_large'' then PayloadTooLarge (int_field payload ''limit_bytes'')
         else if err = U ''sources_filesystem_unavailable'' then
           SourcesFilesystemUnavailable (text_field payload ''detail'' message)
         else if err = U ''artifacts_filesystem_unavailable'' then
           ArtifactsFilesystemUnavailable (text_field payload ''detail'' message)
         else if err = U ''version_conflict'' then VersionConflict (text_field payload ''current_version'' [])
         else if err = U ''precondition_required'' then PreconditionRequired
         else if err = U ''note_unparseable'' then
           NoteUnparseable (text_field payload ''note_id'' []) (text_field payload ''reason'' message)
         else if err = U ''validation_error'' then ValidationFailed (list_field payload ''errors'' [message])
         else if err = U ''notes_filesystem_unavailable'' then
           NotesFilesystemUnavailable (text_field payload ''detail'' message)
         else if err = U ''metadata_unavailable'' \<or> code = 503 then MetadataUnavailable message
         else PlainStoreError (text_field payload ''detail''
           (U ''store returned '' @ dec code @ U '': '' @ message)))"

lemmas envelope_defs = to_http_def as_typed_error_def envelope_def text_field_def int_field_def
  list_field_def has_field_def Let_def

text \<open>What comes back over the internal surface: the error itself; an unreachable database or store is
  the metadata error with the envelope's message.\<close>

definition over_wire :: "store_error \<Rightarrow> store_error" where
  "over_wire e = (case e of MetadataUnavailable c \<Rightarrow> MetadataUnavailable METADATA_UNAVAILABLE_MESSAGE
     | StoreUnavailable c \<Rightarrow> MetadataUnavailable STORE_UNAVAILABLE_MESSAGE | _ \<Rightarrow> e)"

lemma texts_back: "map ((\<lambda>v. case v of PStr s \<Rightarrow> s | _ \<Rightarrow> []) \<circ> PStr) es = es"
  by (simp add: comp_def)

text \<open>C40. The HTTP boundary is transparent for errors: every typed error the store raises reaches the
  client as the same error with the same fields (the two outages as the metadata error).\<close>

theorem errors_round_trip:
  "as_typed_error (fst (to_http e Internal)) (snd (to_http e Internal)) shown = over_wire e"
  by (cases e) (simp_all add: envelope_defs over_wire_def comp_def)

text \<open>The error without the text that may quote a path of the container or a note.\<close>

definition without_cause :: "store_error \<Rightarrow> store_error" where
  "without_cause e = (case e of
     ArtifactsFilesystemUnavailable c \<Rightarrow> ArtifactsFilesystemUnavailable []
   | MetadataUnavailable c \<Rightarrow> MetadataUnavailable []
   | NoteUnparseable i r \<Rightarrow> NoteUnparseable i []
   | NotesFilesystemUnavailable c \<Rightarrow> NotesFilesystemUnavailable []
   | SourcesFilesystemUnavailable c \<Rightarrow> SourcesFilesystemUnavailable []
   | StoreUnavailable c \<Rightarrow> StoreUnavailable []
   | PlainStoreError c \<Rightarrow> PlainStoreError []
   | _ \<Rightarrow> e)"

text \<open>The public surface leaks no cause: its answer to an error is the answer to that error with
  the system's or the parser's text erased, and it carries neither a detail nor a reason.\<close>

theorem public_hides_cause:
  "to_http e Public = to_http (without_cause e) Public \<and>
   \<not> has_field (snd (to_http e Public)) ''detail'' \<and> \<not> has_field (snd (to_http e Public)) ''reason''"
  by (cases e) (simp_all add: to_http_def envelope_def without_cause_def has_field_def Let_def)

section \<open>Requests\<close>

datatype request_error =
    NotAFilename
  | ContentForms
  | BadBase64
  | BlankIdentity
  | NeedsTimezone
  | RepeatedNames
  | BadTagWord
  | BadMediaType
  | NotWebUrl
  | UrlHasControls
  | KindMissing
  | KindWrong
  | UrlOrContent
  | FilenameRequired
  | LinkHasNoFile
  | NotSingleLine
  | NoSearchWord
  | TooShort

definition collapse_title :: "str \<Rightarrow> str" where
  "collapse_title s = join (U '' '') (words s)"

text \<open>\<open>PurePath(value).name == value\<close> of a non-empty value: no slash, and not \<open>.\<close>.\<close>

definition plain_name :: "str \<Rightarrow> bool" where
  "plain_name v \<longleftrightarrow> 47 \<notin> set v \<and> v \<noteq> [] \<and> v \<noteq> U ''.''"

definition safe_name :: "str \<Rightarrow> request_error + str" where
  "safe_name v =
     (if v = U ''.'' \<or> v = U ''..'' \<or> \<not> plain_name v \<or> 92 \<in> set v \<or> 0 \<in> set v then Inl NotAFilename else Inr v)"

definition safe_filename :: "str \<Rightarrow> request_error + str" where
  "safe_filename v =
     (let name = strip v
      in if name = [] \<or> name = U ''.'' \<or> name = U ''..'' \<or> \<not> plain_name name \<or> 92 \<in> set name \<or>
            47 \<in> set name \<or> 0 \<in> set name \<or> list_ex (\<lambda>c. c < 32) name
         then Inl NotAFilename else Inr name)"

record ingest_artifact =
  ia_name :: str
  ia_mime_type :: str
  ia_content :: "str option"
  ia_base64 :: "str option"

definition one_content_form :: "(str \<Rightarrow> nat list option) \<Rightarrow> ingest_artifact \<Rightarrow> request_error option" where
  "one_content_form b64 a =
     (if (ia_content a = None) = (ia_base64 a = None) then Some ContentForms
      else case ia_base64 a of None \<Rightarrow> None
        | Some t \<Rightarrow> if b64 t = None then Some BadBase64 else None)"

text \<open>The library reports every refused field at once; the first one refuses the request.\<close>

definition ingest_artifact_error :: "(str \<Rightarrow> nat list option) \<Rightarrow> ingest_artifact \<Rightarrow> request_error option" where
  "ingest_artifact_error b64 a =
     (if ia_name a = [] \<or> ia_mime_type a = [] then Some TooShort
      else case safe_name (ia_name a) of Inl e \<Rightarrow> Some e | Inr n \<Rightarrow> one_content_form b64 a)"

definition artifact_bytes :: "(str \<Rightarrow> nat list) \<Rightarrow> (str \<Rightarrow> nat list option) \<Rightarrow> ingest_artifact \<Rightarrow> nat list option" where
  "artifact_bytes utf8 b64 a =
     (case ia_content a of Some t \<Rightarrow> Some (utf8 t)
      | None \<Rightarrow> b64 (case ia_base64 a of Some t \<Rightarrow> t | None \<Rightarrow> []))"

definition trimmed_identity :: "str \<Rightarrow> request_error + str" where
  "trimmed_identity v = (if strip v = [] then Inl BlankIdentity else Inr (strip v))"

record ingest_source =
  is_provider :: str
  is_external :: str
  is_captured :: "(date \<times> ptime \<times> bool) option"
  is_artifacts :: "ingest_artifact list"

definition ingest_source_error :: "(str \<Rightarrow> nat list option) \<Rightarrow> ingest_source \<Rightarrow> request_error option" where
  "ingest_source_error b64 s =
     (if is_artifacts s = [] then Some TooShort else
      case trimmed_identity (is_provider s) of Inl e \<Rightarrow> Some e | Inr _ \<Rightarrow>
      (case trimmed_identity (is_external s) of Inl e \<Rightarrow> Some e | Inr _ \<Rightarrow>
       (case is_captured s of Some (d, t, False) \<Rightarrow> Some NeedsTimezone | _ \<Rightarrow>
        (case first_error (ingest_artifact_error b64) (is_artifacts s) of Some e \<Rightarrow> Some e
         | None \<Rightarrow> if distinct (map ia_name (is_artifacts s)) then None else Some RepeatedNames))))"

record create_artifact =
  ca_kind :: "str option"
  ca_title :: "str option"
  ca_tags :: "str list"
  ca_url :: "str option"
  ca_filename :: "str option"
  ca_mime_type :: "str option"
  ca_base64 :: "str option"

fun tags_are_words :: "str list \<Rightarrow> str list \<Rightarrow> request_error + str list" where
  "tags_are_words [] cleaned = Inr cleaned"
| "tags_are_words (t # ts) cleaned =
     (if strip t = [] \<or> list_ex (\<lambda>c. c \<in> {32, 44, 35, 9, 10}) t then Inl BadTagWord
      else tags_are_words ts (if t \<in> set cleaned then cleaned else cleaned @ [t]))"

definition mime_type_is_a_token :: "(str \<Rightarrow> str) \<Rightarrow> str \<Rightarrow> request_error + str" where
  "mime_type_is_a_token lower v =
     (let token = strip v
      in if token = [] \<or> 47 \<notin> set token \<or> list_ex (\<lambda>c. c < 33 \<or> 126 < c) token then Inl BadMediaType
         else Inr (lower token))"

definition url_is_web :: "(str \<Rightarrow> str \<times> str) \<Rightarrow> str \<Rightarrow> request_error + str" where
  "url_is_web urlsplit v =
     (let (scheme, netloc) = urlsplit (strip v)
      in if (scheme \<noteq> U ''http'' \<and> scheme \<noteq> U ''https'') \<or> netloc = [] then Inl NotWebUrl
         else if list_ex (\<lambda>c. c < 33) (strip v) then Inl UrlHasControls
         else Inr (strip v))"

definition declared_kind_and_one_body :: "(str \<Rightarrow> nat list option) \<Rightarrow> create_artifact \<Rightarrow> request_error option" where
  "declared_kind_and_one_body b64 a =
     (if ca_kind a = None then Some KindMissing
      else if ca_kind a \<noteq> Some (U ''artifact'') then Some KindWrong
      else if (ca_url a = None) = (ca_base64 a = None) then Some UrlOrContent
      else if ca_base64 a \<noteq> None \<and> ca_filename a = None then Some FilenameRequired
      else if ca_base64 a \<noteq> None \<and> b64 (the (ca_base64 a)) = None then Some BadBase64
      else if ca_url a \<noteq> None \<and> ca_filename a \<noteq> None then Some LinkHasNoFile
      else None)"

definition rename_title :: "str \<Rightarrow> request_error + str" where
  "rename_title v = (if list_ex (\<lambda>c. c \<in> {13, 10, 0}) v then Inl NotSingleLine else Inr (collapse_title v))"

definition has_words :: "str \<Rightarrow> request_error + str" where
  "has_words v = (if strip v = [] then Inl NoSearchWord else Inr v)"

definition etag_from_if_match :: "str option \<Rightarrow> store_error + str" where
  "etag_from_if_match header =
     (case header of None \<Rightarrow> Inl PreconditionRequired
      | Some h \<Rightarrow>
          (let v = strip h;
               v' = (if 2 \<le> length v \<and> hd v = 34 \<and> last v = 34 then butlast (tl v) else v)
           in if v = [] \<or> v' = [] then Inl PreconditionRequired else Inr v'))"

definition artifact_text :: "(str \<Rightarrow> str) \<Rightarrow> (nat list \<Rightarrow> str option) \<Rightarrow> nat list \<Rightarrow> str \<Rightarrow> str option" where
  "artifact_text casefold decode data mime =
     (let base = casefold (strip (fst (partition_on 59 mime)))
      in if \<not> (startswith base (U ''text/'') \<or> base = U ''application/json'') then None else decode data)"

text \<open>A name that cannot leave the directory it is put in.\<close>

definition contained_name :: "str \<Rightarrow> bool" where
  "contained_name n \<longleftrightarrow> n \<noteq> [] \<and> n \<noteq> U ''.'' \<and> n \<noteq> U ''..'' \<and> 47 \<notin> set n \<and> 92 \<notin> set n \<and> 0 \<notin> set n"

text \<open>A stored file's name never leaves its directory: a name an ingest or an artifact upload accepts
  is not empty, not \<open>.\<close> or \<open>..\<close>, and holds no slash, backslash or NUL; accepting it again gives it back.\<close>

theorem accepted_names_contained:
  "(case safe_name v of Inl e \<Rightarrow> True | Inr n \<Rightarrow> contained_name n \<and> safe_name n = Inr n) \<and>
   (case safe_filename v of Inl e \<Rightarrow> True | Inr n \<Rightarrow> contained_name n \<and> safe_filename n = Inr n)"
  by (auto simp: safe_name_def safe_filename_def contained_name_def plain_name_def Let_def)

lemma etag_quoted: "t \<noteq> [] \<Longrightarrow> etag_from_if_match (Some ([34] @ t @ [34])) = Inr t"
proof -
  have "strip ([34] @ t @ [34]) = [34] @ t @ [34]"
    unfolding strip_def by (rule strip_by_id) (simp add: trimmed_by_def py_space_def)
  then show "t \<noteq> [] \<Longrightarrow> etag_from_if_match (Some ([34] @ t @ [34])) = Inr t"
    by (simp add: etag_from_if_match_def)
qed

end
