(* ===== verification/Settings.thy ===== *)
theory Settings
  imports Naming StateFiles
begin

text \<open>
  \<open>coppermind/settings.py\<close>: the operator's product settings, their shipped defaults and the checks
  a value passes before it is used, and the deployment wiring.  The model library reads the fields;
  the check of a section lists what it refuses, in field order.  The zone database, SQLAlchemy's
  URL parser and the secret files are arguments.
\<close>

section \<open>The sections\<close>

datatype sync_plan = Standard | Plus

record notes_settings =
  ns_notes_folder :: str
  ns_review_folder :: str
  ns_trash_folder :: str
  ns_sources_folder :: str
  ns_artifacts_folder :: str
  ns_attachments_folder :: str
  ns_journal_folder :: str
  ns_dated_types :: "str list"

record reconcile_settings =
  rs_scan_interval_s :: int
  rs_quiet_period_s :: int
  rs_full_rehash_daily_at :: str
  rs_excluded_folders :: "str list"
  rs_excluded_patterns :: "str list"

record git_settings =
  gs_enabled :: bool
  gs_debounce_s :: int
  gs_poll_interval_s :: int
  gs_identity_name :: str
  gs_identity_email :: str
  gs_gc_auto :: bool

datatype sync_mode = Bidirectional | PullOnly | MirrorRemote

datatype conflict_strategy = MergeEdits | KeepConflict

record sync_settings =
  ss_plan :: sync_plan
  ss_max_file_bytes :: "int option"
  ss_max_total_bytes :: "int option"
  ss_device_name :: str
  ss_mode :: sync_mode
  ss_conflict_strategy :: conflict_strategy
  ss_excluded_folders :: "str list"
  ss_file_types :: "str list"
  ss_sync_configs :: "str list"

record curator_settings =
  cs_enabled :: bool
  cs_sweep_interval_s :: int
  cs_inbox_only :: bool

record indexer_settings =
  xs_enabled :: bool
  xs_language :: str
  xs_reconcile_interval_s :: int

record event_settings =
  es_retention_days :: int
  es_poll_fallback_s :: int

record limit_settings =
  ls_calendar_max_events :: int
  ls_calendar_import_memory_mib :: int
  ls_ingest_max_bytes :: int
  ls_artifact_max_bytes :: int
  ls_attachment_max_bytes :: "int option"

record product_settings =
  ps_schema_version :: int
  ps_timezone :: str
  ps_notes :: notes_settings
  ps_reconcile :: reconcile_settings
  ps_git :: git_settings
  ps_sync :: sync_settings
  ps_curator :: curator_settings
  ps_indexer :: indexer_settings
  ps_retention_days :: int
  ps_events :: event_settings
  ps_limits :: limit_settings
  ps_session_hours :: int

definition MIB :: int where
  "MIB = 1024 * 1024"

definition default_notes :: notes_settings where
  "default_notes = \<lparr>ns_notes_folder = U ''Notes'', ns_review_folder = U ''Review'',
     ns_trash_folder = U ''_Trash'', ns_sources_folder = U ''_Sources'',
     ns_artifacts_folder = U ''Artifacts'', ns_attachments_folder = U ''_Attachments'',
     ns_journal_folder = U ''Journal'', ns_dated_types = [U ''work'', U ''journal'']\<rparr>"

definition default_reconcile :: reconcile_settings where
  "default_reconcile = \<lparr>rs_scan_interval_s = 60, rs_quiet_period_s = 30,
     rs_full_rehash_daily_at = U ''03:30'', rs_excluded_folders = [U ''Templates'', U ''_Templates''],
     rs_excluded_patterns = [U ''*.excalidraw.md'', U ''*.canvas'', U ''*.kanban.md'']\<rparr>"

definition default_git :: git_settings where
  "default_git = \<lparr>gs_enabled = True, gs_debounce_s = 60, gs_poll_interval_s = 300,
     gs_identity_name = U ''Coppermind'', gs_identity_email = U ''coppermind@localhost'', gs_gc_auto = True\<rparr>"

definition default_sync :: sync_settings where
  "default_sync = \<lparr>ss_plan = Standard, ss_max_file_bytes = None, ss_max_total_bytes = None,
     ss_device_name = U ''coppermind-server'', ss_mode = Bidirectional, ss_conflict_strategy = MergeEdits,
     ss_excluded_folders = [U ''_Trash''],
     ss_file_types = [U ''image'', U ''audio'', U ''video'', U ''pdf'', U ''unsupported''],
     ss_sync_configs = []\<rparr>"

definition default_curator :: curator_settings where
  "default_curator = \<lparr>cs_enabled = True, cs_sweep_interval_s = 300, cs_inbox_only = True\<rparr>"

definition default_indexer :: indexer_settings where
  "default_indexer = \<lparr>xs_enabled = True, xs_language = U ''english'', xs_reconcile_interval_s = 600\<rparr>"

definition default_events :: event_settings where
  "default_events = \<lparr>es_retention_days = 7, es_poll_fallback_s = 5\<rparr>"

definition default_limits :: limit_settings where
  "default_limits = \<lparr>ls_calendar_max_events = 50000, ls_calendar_import_memory_mib = 1024,
     ls_ingest_max_bytes = 25 * MIB, ls_artifact_max_bytes = 10 * MIB, ls_attachment_max_bytes = None\<rparr>"

definition default_settings :: product_settings where
  "default_settings = \<lparr>ps_schema_version = 1, ps_timezone = U ''America/Chicago'', ps_notes = default_notes,
     ps_reconcile = default_reconcile, ps_git = default_git, ps_sync = default_sync,
     ps_curator = default_curator, ps_indexer = default_indexer, ps_retention_days = 30,
     ps_events = default_events, ps_limits = default_limits, ps_session_hours = 12\<rparr>"

section \<open>The checks\<close>

datatype settings_problem =
    UnknownTimezone str
  | NoUsableFolder str
  | FolderRespelled str str
  | RootCollides str str str
  | NoFolder str
  | ExcludedNotRelative
  | BlankPattern
  | BlankIdentityField
  | SyncFolderNotRelative
  | DeviceNameNotLine
  | OutOfRange string

definition validate_timezone :: "(str \<Rightarrow> bool) \<Rightarrow> str \<Rightarrow> settings_problem option" where
  "validate_timezone zone_known v = (if zone_known v then None else Some (UnknownTimezone v))"

definition validate_notes_folder :: "unicode \<Rightarrow> str \<Rightarrow> settings_problem option" where
  "validate_notes_folder uc v =
     (let portable = sanitize_folder uc v
      in if portable = [] \<or> list_ex (\<lambda>part. startswith part (U ''.'')) (split_on 47 portable)
         then Some (NoUsableFolder v)
         else if portable \<noteq> v then Some (FolderRespelled v portable) else None)"

text \<open>Both the artifacts and the sources folder: a folder name, spelled the way the disk will hold it.\<close>

definition validate_artifacts_folder :: "unicode \<Rightarrow> str \<Rightarrow> settings_problem option" where
  "validate_artifacts_folder uc v =
     (let portable = sanitize_folder uc v
      in if portable = [] then Some (NoFolder v)
         else if portable \<noteq> v then Some (FolderRespelled v portable) else None)"

definition validate_sources_folder :: "unicode \<Rightarrow> str \<Rightarrow> settings_problem option" where
  "validate_sources_folder uc v =
     (let portable = sanitize_folder uc v
      in if portable = [] then Some (NoFolder v)
         else if portable \<noteq> v then Some (FolderRespelled v portable) else None)"

definition reserved_roots :: "notes_settings \<Rightarrow> (str \<times> str) list" where
  "reserved_roots ns = [(U ''review_folder'', ns_review_folder ns), (U ''trash_folder'', ns_trash_folder ns),
     (U ''sources_folder'', ns_sources_folder ns), (U ''attachments_folder'', ns_attachments_folder ns),
     (U ''artifacts_folder'', ns_artifacts_folder ns), (U ''journal_folder'', ns_journal_folder ns),
     (U ''Dropbox'', U ''Dropbox'')]"

definition roots_meet :: "str \<Rightarrow> str \<Rightarrow> bool" where
  "roots_meet a b \<longleftrightarrow> a = b \<or> startswith a (b @ U ''/'') \<or> startswith b (a @ U ''/'')"

definition notes_folder_collision :: "unicode \<Rightarrow> notes_settings \<Rightarrow> settings_problem option" where
  "notes_folder_collision uc ns =
     (let root = casefold uc (sanitize_folder uc (ns_notes_folder ns))
      in first_error (\<lambda>(label, candidate).
           let other = casefold uc (sanitize_folder uc candidate)
           in if other \<noteq> [] \<and> roots_meet root other
              then Some (RootCollides (ns_notes_folder ns) candidate label) else None)
         (reserved_roots ns))"

definition notes_problem :: "unicode \<Rightarrow> notes_settings \<Rightarrow> settings_problem option" where
  "notes_problem uc ns =
     (case validate_notes_folder uc (ns_notes_folder ns) of Some e \<Rightarrow> Some e | None \<Rightarrow>
      (case validate_sources_folder uc (ns_sources_folder ns) of Some e \<Rightarrow> Some e | None \<Rightarrow>
       (case validate_artifacts_folder uc (ns_artifacts_folder ns) of Some e \<Rightarrow> Some e | None \<Rightarrow>
        notes_folder_collision uc ns)))"

definition in_range :: "string \<Rightarrow> int \<Rightarrow> int option \<Rightarrow> int \<Rightarrow> settings_problem option" where
  "in_range name low high v =
     (if v < low \<or> (case high of None \<Rightarrow> False | Some h \<Rightarrow> h < v) then Some (OutOfRange name) else None)"

text \<open>\<open>^([01]\d|2[0-3]):[0-5]\d$\<close>, where \<open>digit\<close> says what the model library's \<open>\d\<close> matches.\<close>

definition clock_text :: "(cpoint \<Rightarrow> bool) \<Rightarrow> str \<Rightarrow> bool" where
  "clock_text digit s \<longleftrightarrow> length s = 5 \<and> s ! 2 = 58 \<and> digit (s ! 4) \<and>
     ((s ! 0 = 48 \<or> s ! 0 = 49) \<and> digit (s ! 1) \<or> s ! 0 = 50 \<and> 48 \<le> s ! 1 \<and> s ! 1 \<le> 51) \<and>
     48 \<le> s ! 3 \<and> s ! 3 \<le> 53"

definition validate_excluded_folders :: "str list \<Rightarrow> settings_problem option" where
  "validate_excluded_folders vs =
     first_error (\<lambda>v. if list_ex (\<lambda>part. part \<in> {[], U ''.'', U ''..''})
            (split_on 47 (rstrip_by (\<lambda>c. c = 47) v)) \<or> 92 \<in> set v
          then Some ExcludedNotRelative else None) vs"

definition validate_excluded_patterns :: "str list \<Rightarrow> settings_problem option" where
  "validate_excluded_patterns vs = (if list_ex (\<lambda>v. strip v = []) vs then Some BlankPattern else None)"

definition reconcile_problem :: "(cpoint \<Rightarrow> bool) \<Rightarrow> reconcile_settings \<Rightarrow> settings_problem option" where
  "reconcile_problem digit rs =
     (case in_range ''scan_interval_s'' 1 None (rs_scan_interval_s rs) of Some e \<Rightarrow> Some e | None \<Rightarrow>
      (case in_range ''quiet_period_s'' 0 None (rs_quiet_period_s rs) of Some e \<Rightarrow> Some e | None \<Rightarrow>
       (if \<not> clock_text digit (rs_full_rehash_daily_at rs) then Some (OutOfRange ''full_rehash_daily_at'') else
        (case validate_excluded_folders (rs_excluded_folders rs) of Some e \<Rightarrow> Some e | None \<Rightarrow>
         validate_excluded_patterns (rs_excluded_patterns rs)))))"

definition validate_identity :: "str \<Rightarrow> settings_problem option" where
  "validate_identity v = (if strip v = [] then Some BlankIdentityField else None)"

definition git_problem :: "git_settings \<Rightarrow> settings_problem option" where
  "git_problem gs =
     (case in_range ''debounce_s'' 1 None (gs_debounce_s gs) of Some e \<Rightarrow> Some e | None \<Rightarrow>
      (case in_range ''poll_interval_s'' 1 None (gs_poll_interval_s gs) of Some e \<Rightarrow> Some e | None \<Rightarrow>
       (case validate_identity (gs_identity_name gs) of Some e \<Rightarrow> Some e | None \<Rightarrow>
        validate_identity (gs_identity_email gs))))"

definition validate_sync_excluded :: "str list \<Rightarrow> settings_problem + str list" where
  "validate_sync_excluded vs =
     (if list_ex (\<lambda>f. f = [] \<or> startswith f (U ''/'') \<or> 92 \<in> set f \<or>
            list_ex (\<lambda>part. part \<in> {[], U ''.'', U ''..''}) (split_on 47 f) \<or>
            list_ex (\<lambda>c. c \<in> {44, 13, 10, 0}) f) vs
      then Inl SyncFolderNotRelative else Inr (fromkeys_from [] vs))"

definition validate_device_name :: "str \<Rightarrow> settings_problem option" where
  "validate_device_name v =
     (if strip v = [] \<or> list_ex (\<lambda>c. c \<in> {13, 10, 0}) v then Some DeviceNameNotLine else None)"

definition file_limit_bytes :: "sync_settings \<Rightarrow> int" where
  "file_limit_bytes ss = (case ss_max_file_bytes ss of Some n \<Rightarrow> n
     | None \<Rightarrow> (if ss_plan ss = Standard then 5 else 200) * MIB)"

definition total_limit_bytes :: "sync_settings \<Rightarrow> int" where
  "total_limit_bytes ss = (case ss_max_total_bytes ss of Some n \<Rightarrow> n
     | None \<Rightarrow> (if ss_plan ss = Standard then 1 else 10) * 1024 * MIB)"

definition limits_problem :: "limit_settings \<Rightarrow> settings_problem option" where
  "limits_problem ls =
     (case in_range ''calendar_max_events'' 1 (Some 500000) (ls_calendar_max_events ls) of Some e \<Rightarrow> Some e | None \<Rightarrow>
      (case in_range ''calendar_import_memory_mib'' 128 (Some 2048) (ls_calendar_import_memory_mib ls) of
         Some e \<Rightarrow> Some e | None \<Rightarrow>
       (case in_range ''ingest_max_bytes'' 1 None (ls_ingest_max_bytes ls) of Some e \<Rightarrow> Some e | None \<Rightarrow>
        in_range ''artifact_max_bytes'' 1 None (ls_artifact_max_bytes ls))))"

definition retention_problem :: "int \<Rightarrow> settings_problem option" where
  "retention_problem days = in_range ''days'' 0 (Some 36500) days"

definition session_problem :: "int \<Rightarrow> settings_problem option" where
  "session_problem hours = in_range ''session_hours'' 1 (Some (24 * 365)) hours"

text \<open>\<open>read_settings\<close>: the state file without its revision, given to the model library.\<close>

definition read_settings ::
  "codec \<Rightarrow> (fmap \<Rightarrow> 'e + product_settings) \<Rightarrow> files \<Rightarrow> state_error + 'e + product_settings" where
  "read_settings c model fs =
     (case read_state c fs (U ''settings'') of Inl e \<Rightarrow> Inl e
      | Inr f \<Rightarrow> Inr (model (dict_pop (sf_body f) (U ''revision''))))"

section \<open>Wiring\<close>

record db_url =
  u_backend :: str
  u_driver :: str
  u_user :: "str option"
  u_password :: "str option"
  u_host :: str
  u_port :: int
  u_database :: str

record wiring =
  w_data_dir :: str
  w_database_url :: "str option"
  w_db_host :: str
  w_db_port :: int
  w_db_name :: str
  w_db_user :: str
  w_build_version :: "str option"

datatype wiring_error = UrlHasPassword | UrlHasNoUser

definition running_version :: "wiring \<Rightarrow> str \<Rightarrow> str" where
  "running_version w package = (case w_build_version w of Some v \<Rightarrow> if v = [] then package else v | None \<Rightarrow> package)"

definition notes_dir :: "wiring \<Rightarrow> str" where
  "notes_dir w = w_data_dir w @ U ''/notes''"

definition sources_dir :: "wiring \<Rightarrow> str" where
  "sources_dir w = w_data_dir w @ U ''/sources''"

definition artifacts_dir :: "wiring \<Rightarrow> str" where
  "artifacts_dir w = w_data_dir w @ U ''/artifacts''"

definition state_dir :: "wiring \<Rightarrow> str" where
  "state_dir w = w_data_dir w @ U ''/state''"

definition database_url_for :: "(str \<Rightarrow> db_url) \<Rightarrow> str \<Rightarrow> wiring \<Rightarrow> str \<Rightarrow> wiring_error + db_url" where
  "database_url_for make_url password_file w driver =
     (case (case w_database_url w of None \<Rightarrow> None | Some t \<Rightarrow> if t = [] then None else Some t) of
        Some t \<Rightarrow>
          (let url = make_url t
           in if u_password url \<noteq> None then Inl UrlHasPassword
              else if u_user url = None then Inl UrlHasNoUser
              else Inr (url\<lparr>u_driver := driver, u_password := Some (strip password_file)\<rparr>))
      | None \<Rightarrow> Inr \<lparr>u_backend = U ''postgresql'', u_driver = driver, u_user = Some (w_db_user w),
           u_password = Some (strip password_file), u_host = w_db_host w, u_port = w_db_port w,
           u_database = w_db_name w\<rparr>)"

section \<open>The notes root\<close>

text \<open>An accepted notes root is apart from every other root the store lays out and from the drop box,
  however a case-insensitive device compares names: neither holds the other.\<close>

theorem notes_root_apart:
  assumes "notes_problem uc ns = None" and "(label, other) \<in> set (reserved_roots ns)"
    and "casefold uc (sanitize_folder uc other) \<noteq> []"
  shows "\<not> roots_meet (casefold uc (ns_notes_folder ns)) (casefold uc (sanitize_folder uc other))"
  using assms unfolding notes_problem_def notes_folder_collision_def validate_notes_folder_def
  by (auto simp: Let_def split: option.splits if_splits)

lemma default_folders_portable:
  "sanitize_folder ascii_unicode (U ''Notes'') = U ''Notes''"
  "sanitize_folder ascii_unicode (U ''Review'') = U ''Review''"
  "sanitize_folder ascii_unicode (U ''_Trash'') = U ''_Trash''"
  "sanitize_folder ascii_unicode (U ''_Sources'') = U ''_Sources''"
  "sanitize_folder ascii_unicode (U ''Artifacts'') = U ''Artifacts''"
  "sanitize_folder ascii_unicode (U ''_Attachments'') = U ''_Attachments''"
  "sanitize_folder ascii_unicode (U ''Journal'') = U ''Journal''"
  "sanitize_folder ascii_unicode (U ''Dropbox'') = U ''Dropbox''"
  by (simp_all add: sanitize_folder_def sanitize_stem_def ascii_unicode_def U_def forbidden_def py_space_def
      strip_def strip_by_def lstrip_by_def rstrip_by_def dot_space_def upper_def reserved_names_list fit_def
      naming_limits trim_bytes.simps utf8_width_def Let_def)

lemma default_folders_folded:
  "casefold ascii_unicode (U ''Notes'') = U ''notes''"
  "casefold ascii_unicode (U ''Review'') = U ''review''"
  "casefold ascii_unicode (U ''_Trash'') = U ''_trash''"
  "casefold ascii_unicode (U ''_Sources'') = U ''_sources''"
  "casefold ascii_unicode (U ''Artifacts'') = U ''artifacts''"
  "casefold ascii_unicode (U ''_Attachments'') = U ''_attachments''"
  "casefold ascii_unicode (U ''Journal'') = U ''journal''"
  "casefold ascii_unicode (U ''Dropbox'') = U ''dropbox''"
  by (simp_all add: casefold_def ascii_unicode_def U_def)

lemma default_roots_apart:
  "list_all (\<lambda>r. \<not> roots_meet (U ''notes'') (U r))
     [''review'', ''_trash'', ''_sources'', ''_attachments'', ''artifacts'', ''journal'', ''dropbox'']"
  by (simp add: roots_meet_def startswith_def) (simp add: U_def)

lemma default_notes_accepted: "notes_problem ascii_unicode default_notes = None"
proof -
  have "split_on 47 (U ''Notes'') = [U ''Notes'']" "\<not> startswith (U ''Notes'') (U ''.'')"
    by (simp_all add: split_on_free U_def startswith_def)
  then show ?thesis
    using default_roots_apart
    by (simp add: notes_problem_def default_notes_def validate_notes_folder_def validate_sources_folder_def
        validate_artifacts_folder_def default_folders_portable default_folders_folded
        notes_folder_collision_def reserved_roots_def Let_def)
qed

theorem notes_root_apart_witness:
  "\<not> roots_meet (casefold ascii_unicode (U ''Notes'')) (casefold ascii_unicode (U ''Review''))"
proof -
  have "(U ''review_folder'', U ''Review'') \<in> set (reserved_roots default_notes)"
    by (simp add: reserved_roots_def default_notes_def)
  from notes_root_apart [OF default_notes_accepted this] show ?thesis
    by (simp add: default_folders_portable default_folders_folded default_notes_def)
qed

end
