(* ===== verification/SourcesFolder.thy ===== *)
theory SourcesFolder
  imports Settings GitRepo
begin

text \<open>
  The sources folder has two readers: the Store, through the product settings, and the Git helper,
  through its own reading of the same file.  A name the Store accepts is one both spell alike.
\<close>

lemma portable_segments:
  "sanitize_folder uc v = v \<Longrightarrow> v \<noteq> [] \<Longrightarrow> seg \<in> set (split_on 47 v) \<Longrightarrow> portable seg"
  using sanitize_folder_segments [of uc v seg] by simp

lemma join_portable:
  "segs \<noteq> [] \<Longrightarrow> \<forall>s \<in> set segs. portable s \<Longrightarrow>
     join [47] segs \<noteq> [] \<and> hd (join [47] segs) \<notin> {32, 47} \<and> last (join [47] segs) \<notin> {32, 47} \<and>
     (\<forall>c \<in> set (join [47] segs). 32 \<le> c \<and> (py_space c \<longrightarrow> c = 32))"
proof (induction segs)
  case (Cons s segs)
  have s: "s \<noteq> [] \<and> hd s \<notin> {32, 47} \<and> last s \<notin> {32, 47} \<and> (\<forall>c \<in> set s. 32 \<le> c \<and> (py_space c \<longrightarrow> c = 32))"
    using Cons.prems(2) portable_no_slash [of s] hd_in_set [of s] last_in_set [of s]
    by (auto simp: portable_def forbidden_def trimmed_by_def dot_space_def not_less)
  show ?case
  proof (cases "segs = []")
    case False
    with Cons have "join [47] segs \<noteq> [] \<and> last (join [47] segs) \<notin> {32, 47} \<and>
        (\<forall>c \<in> set (join [47] segs). 32 \<le> c \<and> (py_space c \<longrightarrow> c = 32))"
      by simp
    with s False show ?thesis
      by (auto simp: join_Cons py_space_def)
  qed (use s in simp)
qed simp

lemma portable_folder_line:
  assumes "sanitize_folder uc v = v" and "v \<noteq> []"
  shows "strip v = v" "strip_slashes v = v" "10 \<notin> set v" "13 \<notin> set v"
proof -
  have j: "hd v \<notin> {32, 47} \<and> last v \<notin> {32, 47} \<and> (\<forall>c \<in> set v. 32 \<le> c \<and> (py_space c \<longrightarrow> c = 32))"
    using join_portable [of "split_on 47 v"] portable_segments [OF assms] by (simp add: join_split_on)
  then show "strip v = v"
    unfolding strip_def using assms(2) hd_in_set last_in_set
    by (intro strip_by_id) (auto simp: trimmed_by_def)
  show "strip_slashes v = v"
    unfolding strip_slashes_def using j by (intro strip_by_id) (auto simp: trimmed_by_def)
  show "10 \<notin> set v" "13 \<notin> set v"
    using j by auto
qed

lemma folder_of_portable:
  assumes "sanitize_folder uc v = v" and "v \<noteq> []" and "value_of section (U dotted) (PStr d) = PStr v"
  shows "folder_of section dotted d = Inr v"
proof -
  have "strip part \<notin> {[], U ''.'', U ''..''}" if "part \<in> set (split_on 47 v)" for part
  proof -
    have p: "portable part"
      by (rule portable_segments [OF assms(1,2) that])
    moreover from p have "strip part = part"
      by (intro strip_no_ws) (auto simp: portable_def)
    ultimately show ?thesis
      using portable_not_dots by (auto simp: portable_def)
  qed
  with assms(2,3) portable_folder_line [OF assms(1,2)] show ?thesis
    by (auto simp: folder_of_def line_of_def list_ex_iff)
qed

lemma settings_of_sources:
  "settings_of document = Inr st \<Longrightarrow> fget document (U ''notes'') = PMap notes \<Longrightarrow>
     folder_of notes ''notes.sources_folder'' d = Inr v \<Longrightarrow> d = sources_folder shipped_settings \<Longrightarrow>
     sources_folder st = v"
  by (auto simp: settings_of_def section_of_def sbind_Inr_iff)

text \<open>The Store and the Git helper hold the sources folder by one name: a sources folder the Store's
  settings accept is the folder the Store writes projections to and, read from the same file by the
  helper, a folder the helper keeps out of history, so no generated transcript is committed.\<close>

theorem sources_folder_agrees:
  assumes "validate_sources_folder uc v = None"
    and "load_settings yaml (FileText t) = Inr st" and "yaml t = Some (PMap document)"
    and "fget document (U ''notes'') = PMap notes" and "fget notes (U ''sources_folder'') = PStr v"
  shows "sanitize_folder uc v = v \<and> v \<in> set (kept_out st)"
proof -
  have v: "sanitize_folder uc v = v" "v \<noteq> []"
    using assms(1) by (auto simp: validate_sources_folder_def Let_def split: if_splits)
  have "partition_on 46 (U ''notes.sources_folder'') = (U ''notes'', True, U ''sources_folder'')"
    by (simp add: partition_on_def U_def)
  then have "value_of notes (U ''notes.sources_folder'') (PStr (sources_folder shipped_settings)) = PStr v"
    using assms(5) by (simp add: value_of_def)
  from folder_of_portable [OF v this] settings_of_sources [OF _ assms(4)] assms(2,3)
  have "sources_folder st = v"
    by (auto simp: load_settings_def)
  with v portable_folder_line [OF v] show ?thesis
    by (simp add: kept_out_def)
qed

lemma plain_line:
  "value_of section (U n) (PStr d) = PStr v \<Longrightarrow> v \<noteq> [] \<Longrightarrow> list_all (\<lambda>c. \<not> py_space c \<and> c \<noteq> 10 \<and> c \<noteq> 13) v \<Longrightarrow>
     line_of section n d = Inr v"
  using strip_plain [of v] by (auto simp: line_of_def list_all_iff)

lemma plain_folder:
  "line_of section n d = Inr v \<Longrightarrow> 47 \<notin> set v \<Longrightarrow> v \<noteq> [] \<Longrightarrow> strip v \<notin> {[], U ''.'', U ''..''} \<Longrightarrow>
     folder_of section n d = Inr v"
proof -
  assume a: "line_of section n d = Inr v" "47 \<notin> set v" "v \<noteq> []" "strip v \<notin> {[], U ''.'', U ''..''}"
  then have "strip_slashes v = v"
    unfolding strip_slashes_def using hd_in_set last_in_set by (intro strip_by_id) (force simp: trimmed_by_def)
  with a show ?thesis
    by (simp add: folder_of_def split_on_free)
qed

lemma src_is_portable: "sanitize_folder ascii_unicode (U ''Src'') = U ''Src''"
  by (simp add: sanitize_folder_def sanitize_stem_def ascii_unicode_def U_def forbidden_def py_space_def
      strip_def strip_by_def lstrip_by_def rstrip_by_def dot_space_def upper_def reserved_names_list fit_def
      naming_limits trim_bytes.simps utf8_width_def Let_def)

lemma src_document_loads:
  "\<exists>st. settings_of [(U ''notes'', PMap [(U ''sources_folder'', PStr (U ''Src''))])] = Inr st"
proof -
  let ?n = "[(U ''sources_folder'', PStr (U ''Src''))]"
  have p: "partition_on 46 (U ''git.enabled'') = (U ''git'', True, U ''enabled'')"
    "partition_on 46 (U ''git.debounce_s'') = (U ''git'', True, U ''debounce_s'')"
    "partition_on 46 (U ''git.poll_interval_s'') = (U ''git'', True, U ''poll_interval_s'')"
    "partition_on 46 (U ''git.gc_auto'') = (U ''git'', True, U ''gc_auto'')"
    "partition_on 46 (U ''notes.sources_folder'') = (U ''notes'', True, U ''sources_folder'')"
    "partition_on 46 (U ''notes.trash_folder'') = (U ''notes'', True, U ''trash_folder'')"
    by (simp_all add: partition_on_def U_def)
  have g: "line_of [] ''git.identity_name'' (U ''Coppermind'') = Inr (U ''Coppermind'')"
    "line_of [] ''git.identity_email'' (U ''coppermind@localhost'') = Inr (U ''coppermind@localhost'')"
    by (rule plain_line; simp add: value_of_def fget_def U_def py_space_def)+
  have v: "value_of ?n (U ''notes.sources_folder'') d = PStr (U ''Src'')"
    "value_of ?n (U ''notes.trash_folder'') d = d" for d
    by (simp_all add: value_of_def fget_def p)
  have l: "line_of ?n ''notes.sources_folder'' (U ''_Sources'') = Inr (U ''Src'')"
    "line_of ?n ''notes.trash_folder'' (U ''_Trash'') = Inr (U ''_Trash'')"
    by (rule plain_line; (rule v)?; simp add: U_def py_space_def)+
  have "strip (U ''Src'') = U ''Src''" "strip (U ''_Trash'') = U ''_Trash''"
    by (rule strip_plain; simp add: U_def py_space_def)+
  then have f: "folder_of ?n ''notes.sources_folder'' (U ''_Sources'') = Inr (U ''Src'')"
    "folder_of ?n ''notes.trash_folder'' (U ''_Trash'') = Inr (U ''_Trash'')"
    using plain_folder [OF l(1)] plain_folder [OF l(2)] by (simp_all add: U_def)
  show ?thesis
    by (simp add: settings_of_def section_of_def fget_def flag_def whole_seconds_def value_of_def p
        shipped_settings_def g f)
qed

theorem sources_folder_agrees_witness:
  "\<exists>st. load_settings (\<lambda>t. Some (PMap [(U ''notes'', PMap [(U ''sources_folder'', PStr (U ''Src''))])])) (FileText []) = Inr st \<and>
     U ''Src'' \<in> set (kept_out st)"
proof -
  let ?d = "[(U ''notes'', PMap [(U ''sources_folder'', PStr (U ''Src''))])]"
  obtain st where st: "load_settings (\<lambda>t. Some (PMap ?d)) (FileText []) = Inr st"
    using src_document_loads by (auto simp: load_settings_def)
  from sources_folder_agrees [OF _ this, of ascii_unicode "U ''Src''" ?d] st show ?thesis
    by (simp add: validate_sources_folder_def src_is_portable fget_def)
qed

end
