(* ===== verification/Frontmatter.thy ===== *)
theory Frontmatter
  imports Lines Schema
begin

text \<open>
  \<open>coppermind/frontmatter.py\<close>: reading and editing the YAML block of a note.  The YAML
  library is the parameter \<open>yaml_lib\<close>: its round-trip document is a value of a type of its
  own, with the operations the code uses.  Everything about delimiters, lines, splicing
  and the checks is here.  A text is cut at the lines \<open>str.splitlines\<close> gives.
\<close>

datatype fm_error =
    UnterminatedBlock
  | UnsupportedLineEndings
  | NotAMapping
  | YamlProblem str "nat option" "nat option"

record style =
  st_mapping :: int
  st_sequence :: int
  st_offset :: int

definition house_style :: style where
  "house_style = \<lparr>st_mapping = 2, st_sequence = 4, st_offset = 2\<rparr>"

text \<open>What a load gives: a parser error, nothing, a mapping, or something else.\<close>

datatype 'd loaded = LoadError fm_error | Empty | Mapping 'd | Other

datatype 'd guessed = GuessIndexError | GuessYamlError fm_error | Guessed "'d loaded" "int option" "int option"

record 'd yaml_lib =
  yload :: "str \<Rightarrow> 'd loaded"
  yguess :: "str \<Rightarrow> 'd guessed"
  items :: "'d \<Rightarrow> fmap"
  empty_doc :: 'd
  doc_set :: "'d \<Rightarrow> str \<Rightarrow> pyval \<Rightarrow> 'd"
  doc_pop :: "'d \<Rightarrow> str \<Rightarrow> 'd"
  dump_doc :: "style \<Rightarrow> 'd \<Rightarrow> str"
  dump_map :: "style \<Rightarrow> fmap \<Rightarrow> str"
  dump_flow :: "style \<Rightarrow> str \<Rightarrow> pyval \<Rightarrow> str"
  key_line :: "'d \<Rightarrow> str \<Rightarrow> nat \<times> nat"
  flow_list :: "'d \<Rightarrow> str \<Rightarrow> bool"

definition DELIMITER :: str where
  "DELIMITER = U ''---''"

section \<open>Scalars\<close>

text \<open>\<open>_LOCAL_DATETIME\<close>: \<open>YYYY-MM-DDTHH:MM\<close> with optional seconds, then a real date and time.\<close>

definition local_datetime :: "str \<Rightarrow> (date \<times> ptime) option" where
  "local_datetime s =
     (if digits_at s 0 4 \<and> digits_at s 5 2 \<and> digits_at s 8 2 \<and> 10 < length s \<and>
         s ! 4 = 45 \<and> s ! 7 = 45 \<and> s ! 10 = 84 \<and> legacy_time_pattern (drop 11 s)
      then (case (parse_digits (take 4 s), parse_digits (take 2 (drop 5 s)), parse_digits (take 2 (drop 8 s)),
                  parse_digits (take 2 (drop 11 s)), parse_digits (take 2 (drop 14 s))) of
          (Some y, Some m, Some d, Some hh, Some mm) \<Rightarrow>
            (let ss = (if length s = 19 then the (parse_digits (drop 17 s)) else 0)
             in case mk_date y m d of None \<Rightarrow> None
                | Some day \<Rightarrow> if hh < 24 \<and> mm < 60 \<and> ss < 60 then Some (day, Time hh mm ss) else None)
        | _ \<Rightarrow> None)
      else None)"

text \<open>A date-and-time value is already the reader's own time stamp.\<close>

definition yaml_scalar :: "str \<Rightarrow> pyval \<Rightarrow> pyval" where
  "yaml_scalar key v =
     (if key \<noteq> U ''date'' \<and> key \<noteq> U ''time'' then v
      else case v of PStr s \<Rightarrow>
          (case local_datetime (strip s) of None \<Rightarrow> v | Some (d, t) \<Rightarrow> PDateTime d t 0 Naive)
        | _ \<Rightarrow> v)"

definition yaml_mapping :: "fmap \<Rightarrow> fmap" where
  "yaml_mapping fm = map (\<lambda>(k, v). (k, yaml_scalar k v)) fm"

section \<open>Splitting\<close>

fun closing_offset :: "str list \<Rightarrow> nat \<Rightarrow> nat option" where
  "closing_offset [] offset = None"
| "closing_offset (l # ls) offset =
     (if rstrip_by (\<lambda>c. c = 13 \<or> c = 10) l = DELIMITER then Some offset
      else closing_offset ls (offset + length l))"

definition find_closing_delimiter :: "str \<Rightarrow> nat option" where
  "find_closing_delimiter s = closing_offset (splitlines_keep s) 0"

definition removeprefix :: "str \<Rightarrow> str \<Rightarrow> str" where
  "removeprefix s p = (if startswith s p then drop (length p) s else s)"

text \<open>The block, the body, and the length of the opening line when there is a block.\<close>

definition split_parts :: "str \<Rightarrow> fm_error + str \<times> str \<times> nat option" where
  "split_parts s =
     (if \<not> startswith s DELIMITER then Inr ([], s, None)
      else let rest = drop (length DELIMITER) s
           in if take 1 rest \<noteq> [10] \<and> take 1 rest \<noteq> [13] then Inr ([], s, None)
              else let rest = removeprefix (lstrip_by (\<lambda>c. c = 13) rest) [10];
                       opening_length = length s - length rest
                   in case find_closing_delimiter rest of
                        None \<Rightarrow> Inl UnterminatedBlock
                      | Some n \<Rightarrow>
                          (let after = drop n rest;
                               after = (if 10 \<in> set after then tl (dropWhile (\<lambda>c. c \<noteq> 10) after) else [])
                           in Inr (take n rest, after, Some opening_length)))"

definition split_text :: "str \<Rightarrow> fm_error + str \<times> str" where
  "split_text s = sbind (split_parts s) (\<lambda>(block, body, n). Inr (block, body))"

section \<open>Parsing\<close>

definition mapping_of :: "'d yaml_lib \<Rightarrow> 'd loaded \<Rightarrow> fm_error + 'd" where
  "mapping_of y ld = (case ld of LoadError e \<Rightarrow> Inl e | Empty \<Rightarrow> Inr (empty_doc y)
     | Mapping d \<Rightarrow> Inr d | Other \<Rightarrow> Inl NotAMapping)"

definition parse_block :: "'d yaml_lib \<Rightarrow> str \<Rightarrow> fm_error + 'd" where
  "parse_block y block = (if strip block = [] then Inr (empty_doc y) else mapping_of y (yload y block))"

definition parse_text :: "'d yaml_lib \<Rightarrow> str \<Rightarrow> fm_error + fmap \<times> str" where
  "parse_text y s = sbind (split_text s) (\<lambda>(block, body).
     sbind (parse_block y block) (\<lambda>d. Inr (items y d, body)))"

text \<open>\<open>_ITEM_WITH_NO_VALUE.sub(r"\1 x", block)\<close>, line by line.\<close>

definition blank :: "cpoint \<Rightarrow> bool" where
  "blank c \<longleftrightarrow> c = 32 \<or> c = 9"

definition lend_value :: "str \<Rightarrow> str" where
  "lend_value l =
     (let lead = takeWhile blank l; rest = dropWhile blank l
      in if rest \<noteq> [] \<and> hd rest = 45 \<and> list_all blank (tl rest) then lead @ U ''- x'' else l)"

definition lend_values :: "str \<Rightarrow> str" where
  "lend_values block = join newline (map lend_value (split_on 10 block))"

definition indent_of :: "'d yaml_lib \<Rightarrow> str \<Rightarrow> int option \<times> int option" where
  "indent_of y block = (case yguess y block of Guessed ld i off \<Rightarrow>
       (case ld of LoadError e \<Rightarrow> (None, None) | _ \<Rightarrow> (i, off)) | _ \<Rightarrow> (None, None))"

definition load_guessing_indent :: "'d yaml_lib \<Rightarrow> str \<Rightarrow> fm_error + 'd loaded \<times> int option \<times> int option" where
  "load_guessing_indent y block =
     (case yguess y block of
        GuessYamlError e \<Rightarrow> Inl e
      | Guessed ld i off \<Rightarrow> (case ld of LoadError e \<Rightarrow> Inl e | _ \<Rightarrow> Inr (ld, i, off))
      | GuessIndexError \<Rightarrow>
          (case yload y block of LoadError e \<Rightarrow> Inl e
           | ld \<Rightarrow> (case indent_of y (lend_values block) of (i, off) \<Rightarrow> Inr (ld, i, off))))"

definition indent_like :: "style \<Rightarrow> int option \<Rightarrow> int option \<Rightarrow> style" where
  "indent_like st i off =
     (case i of None \<Rightarrow> st
      | Some n \<Rightarrow> if n < 2 then st
          else (case off of None \<Rightarrow> st\<lparr>st_mapping := n\<rparr>
            | Some k \<Rightarrow> if 0 \<le> k \<and> k \<le> n - 2 then st\<lparr>st_sequence := n, st_offset := k\<rparr> else st))"

text \<open>The document of a block with the style it is written back in; a blank block is no document.\<close>

definition load_styled :: "'d yaml_lib \<Rightarrow> str \<Rightarrow> fm_error + 'd \<times> style" where
  "load_styled y block =
     (if strip block = [] then Inr (empty_doc y, house_style)
      else sbind (load_guessing_indent y block) (\<lambda>(ld, i, off).
           sbind (mapping_of y ld) (\<lambda>d. Inr (d, indent_like house_style i off))))"

section \<open>Writing\<close>

definition dump_fm :: "'d yaml_lib \<Rightarrow> style \<Rightarrow> fmap \<Rightarrow> str" where
  "dump_fm y st fm = (if fm = [] then [] else dump_map y st (yaml_mapping fm))"

definition enclose :: "str \<Rightarrow> str \<Rightarrow> str" where
  "enclose block body =
     (if block = [] then body
      else let block = (if endswith block newline then block else block @ newline)
           in DELIMITER @ newline @ block @ DELIMITER @ newline @ body)"

definition compose :: "'d yaml_lib \<Rightarrow> fmap \<Rightarrow> str \<Rightarrow> str" where
  "compose y fm body = enclose (dump_fm y house_style fm) body"

definition patched :: "'d yaml_lib \<Rightarrow> str \<Rightarrow> str \<Rightarrow> fmap \<Rightarrow> str list \<Rightarrow> fm_error + str" where
  "patched y block body changes unset =
     sbind (load_styled y block) (\<lambda>(d, st).
       let d = foldl (doc_pop y) d unset;
           d = foldl (\<lambda>d (k, v). doc_set y d k (yaml_scalar k v)) d changes
       in Inr (enclose (if items y d = [] then [] else dump_doc y st d) body))"

definition patch_text :: "'d yaml_lib \<Rightarrow> str \<Rightarrow> fmap \<Rightarrow> str list \<Rightarrow> fm_error + str" where
  "patch_text y s changes unset =
     sbind (split_text s) (\<lambda>(block, body). patched y block body changes unset)"

text \<open>The block, the body and, when there is a block, where it starts and where its closing line is.\<close>

definition readable_block :: "str \<Rightarrow> fm_error + str \<times> str \<times> (nat \<times> nat) option" where
  "readable_block s =
     sbind (split_parts s) (\<lambda>(block, body, opening).
       case opening of None \<Rightarrow> Inr (block, body, None)
       | Some n \<Rightarrow>
          (case find_closing_delimiter (drop n s) of None \<Rightarrow> Inl UnterminatedBlock
           | Some k \<Rightarrow>
              (let after = drop (n + k + length DELIMITER) s;
                   opened_by = drop (length DELIMITER) (take n s)
               in if opened_by \<notin> {[10], [13, 10]} \<or>
                     (after \<noteq> [] \<and> \<not> startswith after [10] \<and> \<not> startswith after [13, 10])
                  then Inl UnsupportedLineEndings
                  else Inr (block, body, Some (n, k)))))"

text \<open>\<open>str.replace("\n", ending)\<close>.\<close>

definition with_ending :: "str \<Rightarrow> str \<Rightarrow> str" where
  "with_ending ending s = concat (map (\<lambda>c. if c = 10 then ending else [c]) s)"

definition appended ::
  "'d yaml_lib \<Rightarrow> str \<Rightarrow> fmap \<Rightarrow> str \<Rightarrow> str \<Rightarrow> (nat \<times> nat) option \<Rightarrow> fm_error + str" where
  "appended y s changes block body at =
     (case at of None \<Rightarrow> Inr (compose y changes body)
      | Some (n, k) \<Rightarrow>
          sbind (load_styled y block) (\<lambda>(d, st).
            let additions = filter (\<lambda>(key, v). dget (items y d) key = None) changes
            in if additions = [] then Inr s
               else let fragment = with_ending (drop (length DELIMITER) (take n s)) (dump_fm y st additions)
                    in Inr (take (n + k) s @ fragment @ drop (n + k) s)))"

definition fill_missing :: "'d yaml_lib \<Rightarrow> str \<Rightarrow> fmap \<Rightarrow> fm_error + str" where
  "fill_missing y s changes =
     sbind (readable_block s) (\<lambda>(block, body, at).
       if at = None then appended y s changes block body at
       else sbind (parse_block y block) (\<lambda>d.
         if list_ex (\<lambda>k. dget (items y d) k \<noteq> None) (dkeys changes)
         then patched y block body changes []
         else appended y s changes block body at))"

text \<open>\<open>_COMMENT.search\<close>: a hash that opens the line or follows whitespace.\<close>

fun comment_after :: "bool \<Rightarrow> str \<Rightarrow> bool" where
  "comment_after sp [] = False"
| "comment_after sp (c # s) = (c = 35 \<and> sp \<or> comment_after (py_space c) s)"

definition has_comment :: "str \<Rightarrow> bool" where
  "has_comment l = comment_after True l"

text \<open>The lines from \<open>line\<close> up to the next key, less blank and comment lines at their end.\<close>

definition value_span :: "str list \<Rightarrow> nat \<Rightarrow> nat list \<Rightarrow> str list" where
  "value_span ls line following =
     (let span = drop line (if following = [] then ls else take (Min (set following)) ls);
          trailing = (\<lambda>l. strip l = [] \<or> startswith (lstrip_by py_space l) [35])
      in take 1 span @ rev (dropWhile trailing (rev (drop 1 span))))"

definition same_keys :: "fmap \<Rightarrow> fmap \<Rightarrow> bool" where
  "same_keys a b \<longleftrightarrow> map fst a = map fst b"

text \<open>The lines of a key's value, and the block with them replaced.\<close>

definition key_span :: "'d yaml_lib \<Rightarrow> 'd \<Rightarrow> str \<Rightarrow> str \<Rightarrow> str list" where
  "key_span y d block key =
     (let line = fst (key_line y d key);
          following = filter (\<lambda>l. line < l) (map (\<lambda>other. fst (key_line y d other)) (dkeys (items y d)))
      in value_span (splitlines_keep block) line following)"

definition replaced_block :: "'d yaml_lib \<Rightarrow> 'd \<Rightarrow> style \<Rightarrow> str \<Rightarrow> str \<Rightarrow> pyval \<Rightarrow> str" where
  "replaced_block y d st block key v =
     (let line = fst (key_line y d key);
          ls = splitlines_keep block;
          span = key_span y d block key;
          ending = (if endswith (hd span) [13, 10] then [13, 10] else [10]);
          fragment = with_ending ending
            (if flow_list y d key \<and> is_list v then dump_flow y st key v else dump_fm y st [(key, v)])
      in concat (take line ls) @ fragment @ concat (drop (line + length span) ls))"

definition replace_value_in_place :: "'d yaml_lib \<Rightarrow> str \<Rightarrow> str \<Rightarrow> pyval \<Rightarrow> fm_error + str option" where
  "replace_value_in_place y s key v =
     sbind (readable_block s) (\<lambda>(block, body, at).
       case at of None \<Rightarrow> Inr None
       | Some (n, k) \<Rightarrow>
         if strip block = [] then Inr None
         else sbind (load_styled y block) (\<lambda>(d, st).
           if dget (items y d) key = None \<or> snd (key_line y d key) \<noteq> 0 then Inr None
           else if list_ex has_comment (key_span y d block key) then Inr None
           else case parse_block y (replaced_block y d st block key v) of
               Inl e \<Rightarrow> Inr None
             | Inr d' \<Rightarrow>
                 if same_keys (items y d') (items y d) \<and>
                    py_eq (PMap (items y d')) (PMap (dict_set (items y d) key v))
                 then Inr (Some (take n s @ replaced_block y d st block key v @ drop (n + k) s))
                 else Inr None))"

section \<open>Lines\<close>

lemma closing_offset_Some:
  "closing_offset ls n = Some k \<Longrightarrow> \<exists>pre l post. ls = pre @ l # post \<and> k = n + length (concat pre) \<and>
     rstrip_by (\<lambda>c. c = 13 \<or> c = 10) l = DELIMITER \<and>
     list_all (\<lambda>l. rstrip_by (\<lambda>c. c = 13 \<or> c = 10) l \<noteq> DELIMITER) pre"
proof (induction ls arbitrary: n)
  case (Cons a ls)
  show ?case
  proof (cases "rstrip_by (\<lambda>c. c = 13 \<or> c = 10) a = DELIMITER")
    case True
    with Cons.prems show ?thesis by (intro exI [of _ "[]"] exI [of _ a] exI [of _ ls]) simp
  next
    case False
    with Cons obtain pre l post where "ls = pre @ l # post" "k = n + length a + length (concat pre)"
        "rstrip_by (\<lambda>c. c = 13 \<or> c = 10) l = DELIMITER"
        "list_all (\<lambda>l. rstrip_by (\<lambda>c. c = 13 \<or> c = 10) l \<noteq> DELIMITER) pre"
      by fastforce
    with False show ?thesis by (intro exI [of _ "a # pre"] exI [of _ l] exI [of _ post]) simp
  qed
qed simp

lemma closing_offset_first:
  "list_all (\<lambda>l. rstrip_by (\<lambda>c. c = 13 \<or> c = 10) l \<noteq> DELIMITER) pre \<Longrightarrow>
     rstrip_by (\<lambda>c. c = 13 \<or> c = 10) l = DELIMITER \<Longrightarrow>
     closing_offset (pre @ l # post) n = Some (n + length (concat pre))"
  by (induction pre arbitrary: n) auto

text \<open>A text of whole lines, none of them a delimiter.\<close>

definition block_like :: "str \<Rightarrow> bool" where
  "block_like b \<longleftrightarrow> (b = [] \<or> last b = 10) \<and>
     list_all (\<lambda>l. rstrip_by (\<lambda>c. c = 13 \<or> c = 10) l \<noteq> DELIMITER) (splitlines_keep b)"

text \<open>Putting such a text in front of the closing line moves the closing line and nothing else.\<close>

lemma closing_inserted:
  assumes "find_closing_delimiter x = Some k" and "block_like f" and "f \<noteq> [] \<Longrightarrow> hd f \<noteq> 10"
  shows "find_closing_delimiter (take k x @ f @ drop k x) = Some (k + length f)"
proof -
  obtain pre l post where s: "splitlines_keep x = pre @ l # post" "k = length (concat pre)"
      "rstrip_by (\<lambda>c. c = 13 \<or> c = 10) l = DELIMITER"
      "list_all (\<lambda>l. rstrip_by (\<lambda>c. c = 13 \<or> c = 10) l \<noteq> DELIMITER) pre"
    using closing_offset_Some assms(1) unfolding find_closing_delimiter_def by fastforce
  have x: "x = concat pre @ concat (l # post)"
    using s(1) by (metis concat_append concat_splitlines_keep)
  have tk: "take k x = concat pre" "drop k x = concat (l # post)"
    using s(2) by (simp_all add: x)
  have l: "l \<noteq> []" "hd l = 45"
    using s(3) rstrip_by_hd [of "\<lambda>c. c = 13 \<or> c = 10" l] by (auto simp: DELIMITER_def U_def)
  have brk: "concat pre = [] \<or> line_break (last (concat pre))"
    using splitlines_prefix_break [OF s(1)] by auto
  have b: "splitlines_keep (concat pre @ f @ concat (l # post)) =
      splitlines_keep (concat pre) @ splitlines_keep (f @ concat (l # post))"
    using brk l assms(3) by (intro splitlines_keep_append) (cases f; auto)
  have c: "splitlines_keep (f @ concat (l # post)) = splitlines_keep f @ splitlines_keep (concat (l # post))"
    using assms(2) by (intro splitlines_keep_append) (auto simp: block_like_def line_break_def)
  have split: "splitlines_keep (concat pre) = pre \<and> splitlines_keep (concat (l # post)) = l # post"
    using splitlines_keep_pieces [OF s(1)] l by simp
  show ?thesis
    unfolding tk find_closing_delimiter_def b c using split s(3,4) assms(2)
      closing_offset_first [of "pre @ splitlines_keep f" l post 0]
    by (simp add: block_like_def s(2))
qed

section \<open>What a write keeps\<close>

text \<open>A text that opens its block with a line feed or a carriage return and line feed.\<close>

definition after_block :: "str \<Rightarrow> str" where
  "after_block a = (if 10 \<in> set a then tl (dropWhile (\<lambda>c. c \<noteq> 10) a) else [])"

lemma split_parts_opened:
  assumes "opened = [10] \<or> opened = [13, 10]"
  shows "split_parts (DELIMITER @ opened @ x) =
     (case find_closing_delimiter x of None \<Rightarrow> Inl UnterminatedBlock
      | Some n \<Rightarrow> Inr (take n x, after_block (drop n x), Some (length DELIMITER + length opened)))"
proof -
  have o: "removeprefix (lstrip_by (\<lambda>c. c = 13) (opened @ x)) [10] = x"
    "take 1 (opened @ x) = [10] \<or> take 1 (opened @ x) = [13]"
    using assms by (auto simp: removeprefix_def lstrip_by_def startswith_def)
  have "startswith (DELIMITER @ opened @ x) DELIMITER" "drop (length DELIMITER) (DELIMITER @ opened @ x) = opened @ x"
    by simp_all
  moreover have "\<not> (take 1 (opened @ x) \<noteq> [10] \<and> take 1 (opened @ x) \<noteq> [13])"
    using o(2) by blast
  moreover have "length (DELIMITER @ opened @ x) - length x = length DELIMITER + length opened"
    by simp
  ultimately show ?thesis
    unfolding split_parts_def Let_def after_block_def [symmetric] o(1)
    by (simp only: o(1) if_False if_True not_True_eq_False simp_thms)
qed

lemma split_parts_opening:
  assumes "split_parts s = Inr (block, body, Some n)"
  shows "\<exists>opened x k. s = DELIMITER @ opened @ x \<and> n = length DELIMITER + length opened \<and>
     find_closing_delimiter x = Some k \<and> block = take k x \<and> body = after_block (drop k x)"
proof -
  define rest0 where "rest0 = drop (length DELIMITER) s"
  define x where "x = removeprefix (lstrip_by (\<lambda>c. c = 13) rest0) [10]"
  have p: "startswith s DELIMITER" "n = length s - length x"
      "\<exists>k. find_closing_delimiter x = Some k \<and> block = take k x \<and> body = after_block (drop k x)"
    using assms by (auto simp: split_parts_def Let_def x_def rest0_def after_block_def
        split: if_splits option.splits)
  have s: "s = DELIMITER @ rest0"
    using p(1) by (auto simp: startswith_iff rest0_def)
  obtain o1 where o1: "rest0 = o1 @ lstrip_by (\<lambda>c. c = 13) rest0"
    using that [of "takeWhile (\<lambda>c. c = 13) rest0"] by (simp add: lstrip_by_def)
  obtain o2 where o2: "lstrip_by (\<lambda>c. c = 13) rest0 = o2 @ x"
  proof (cases "startswith (lstrip_by (\<lambda>c. c = 13) rest0) [10]")
    case True
    then have "lstrip_by (\<lambda>c. c = 13) rest0 = [10] @ x"
      by (auto simp: x_def removeprefix_def startswith_iff)
    then show ?thesis by (rule that)
  next
    case False
    then show ?thesis by (intro that [of "[]"]) (simp add: x_def removeprefix_def)
  qed
  have f: "s = DELIMITER @ (o1 @ o2) @ x"
    using s o1 o2 by (metis append.assoc)
  then have "length s = length DELIMITER + length (o1 @ o2) + length x"
    by simp
  then have "n = length DELIMITER + length (o1 @ o2)"
    using p(2) by simp
  with f p(3) show ?thesis by blast
qed

lemma readable_block_form:
  assumes "readable_block s = Inr (block, body, Some (n, k))"
  shows "\<exists>opened x. (opened = [10] \<or> opened = [13, 10]) \<and> s = DELIMITER @ opened @ x \<and>
     n = length DELIMITER + length opened \<and> find_closing_delimiter x = Some k \<and>
     block = take k x \<and> body = after_block (drop k x)"
proof -
  from assms have sp: "split_parts s = Inr (block, body, Some n)"
    and kk: "find_closing_delimiter (drop n s) = Some k"
    and op: "drop (length DELIMITER) (take n s) \<in> {[10], [13, 10]}"
    by (auto simp: readable_block_def sbind_Inr_iff Let_def split: option.splits if_splits)
  from split_parts_opening [OF sp] obtain opened x k' where f: "s = DELIMITER @ opened @ x"
      "n = length DELIMITER + length opened" "find_closing_delimiter x = Some k'" "block = take k' x"
      "body = after_block (drop k' x)" by blast
  then show ?thesis
    using kk op by auto
qed

text \<open>What is asked of a dump: whole lines, none a delimiter, the first not blank.\<close>

definition dumps_ok :: "'d yaml_lib \<Rightarrow> bool" where
  "dumps_ok y \<longleftrightarrow> (\<forall>st fm e. fm \<noteq> [] \<longrightarrow> e = [10] \<or> e = [13, 10] \<longrightarrow>
     (let t = with_ending e (dump_map y st fm) in t \<noteq> [] \<and> hd t \<noteq> 10 \<and> block_like t))"

lemma closing_bound: "find_closing_delimiter x = Some k \<Longrightarrow> k \<le> length x"
proof -
  assume "find_closing_delimiter x = Some k"
  then obtain pre l post where s: "splitlines_keep x = pre @ l # post" "k = length (concat pre)"
    using closing_offset_Some unfolding find_closing_delimiter_def by fastforce
  have "length x = length (concat (splitlines_keep x))"
    by simp
  then show ?thesis
    by (simp add: s)
qed

lemma splice_split:
  assumes "opened = [10] \<or> opened = [13, 10]" and "find_closing_delimiter x = Some k"
    and "f = [] \<or> hd f \<noteq> 10 \<and> block_like f"
  shows "split_parts (DELIMITER @ opened @ take k x @ f @ drop k x) =
     Inr (take k x @ f, after_block (drop k x), Some (length DELIMITER + length opened))"
proof (cases "f = []")
  case True
  with split_parts_opened [OF assms(1), of x] assms(2) show ?thesis by simp
next
  case False
  have k: "length (take k x) = k"
    using closing_bound [OF assms(2)] by simp
  have "find_closing_delimiter (take k x @ f @ drop k x) = Some (k + length f)"
    using assms False by (intro closing_inserted) auto
  then show ?thesis
    using split_parts_opened [OF assms(1), of "take k x @ f @ drop k x"] k by simp
qed

lemma load_styled_parse: "load_styled y block = Inr (d, st) \<Longrightarrow> strip block = [] \<Longrightarrow> parse_block y block = Inr d"
  by (simp add: load_styled_def parse_block_def)

text \<open>C36. Filling in keys a note lacks is byte exact: when none of the keys is in the block, the new text
  is the old one with a fragment put in just before the closing delimiter, so every byte the person
  wrote is still there in order; read again, the block has grown by that fragment and the body is the
  same.\<close>

theorem fill_missing_splices:
  assumes "dumps_ok y" and "readable_block s = Inr (block, body, Some (n, k))"
    and "parse_block y block = Inr d" and "list_all (\<lambda>key. dget (items y d) key = None) (dkeys changes)"
    and "fill_missing y s changes = Inr t"
  shows "\<exists>f. t = take (n + k) s @ f @ drop (n + k) s \<and> split_text t = Inr (block @ f, body)"
proof -
  obtain opened x where x: "opened = [10] \<or> opened = [13, 10]" "s = DELIMITER @ opened @ x"
      "n = length DELIMITER + length opened" "find_closing_delimiter x = Some k"
      "block = take k x" "body = after_block (drop k x)"
    using readable_block_form [OF assms(2)] by blast
  have none: "\<not> list_ex (\<lambda>key. dget (items y d) key \<noteq> None) (dkeys changes)"
    using assms(4) by (auto simp: list_ex_iff list_all_iff)
  have "appended y s changes block body (Some (n, k)) = Inr t"
    using assms(2,3,5) none by (simp add: fill_missing_def)
  then obtain dst where dst: "(case dst of (d', st) \<Rightarrow>
      let additions = filter (\<lambda>(key, v). dget (items y d') key = None) changes
      in if additions = [] then Inr s
         else let fragment = with_ending (drop (length DELIMITER) (take n s)) (dump_fm y st additions)
              in Inr (take (n + k) s @ fragment @ drop (n + k) s)) = (Inr t :: fm_error + str)"
    unfolding appended_def by (auto simp: sbind_Inr_iff)
  obtain d' st where "dst = (d', st)" by (cases dst)
  with dst have ap: "t = (let additions = filter (\<lambda>(key, v). dget (items y d') key = None) changes
      in if additions = [] then s
         else take (n + k) s @ with_ending (drop (length DELIMITER) (take n s)) (dump_fm y st additions) @ drop (n + k) s)"
    by (cases "filter (\<lambda>(key, v). dget (items y d') key = None) changes = []") (simp_all add: Let_def)
  have op: "drop (length DELIMITER) (take n s) = opened"
    by (simp add: x)
  define adds where "adds = filter (\<lambda>(key, v). dget (items y d') key = None) changes"
  define f where "f = (if adds = [] then [] else with_ending opened (dump_fm y st adds))"
  have t: "t = take (n + k) s @ f @ drop (n + k) s"
    using ap by (auto simp: f_def adds_def op Let_def)
  have "f = [] \<or> hd f \<noteq> 10 \<and> block_like f"
    using assms(1) x(1) by (auto simp: f_def dump_fm_def yaml_mapping_def dumps_ok_def Let_def)
  from splice_split [OF x(1,4) this] have "split_text t = Inr (block @ f, body)"
    by (simp add: split_text_def t x(2,3,5,6))
  with t show ?thesis by blast
qed

text \<open>A block put around a body reads back, and the body is exactly that body.\<close>

lemma enclosed_splits:
  assumes "b \<noteq> []" and "hd b \<noteq> 10" and "block_like b"
  shows "split_text (enclose b body) = Inr (b, body)"
proof -
  have "endswith b newline"
    using assms by (metis append_butlast_last_id block_like_def endswith_iff newline_def)
  then have c: "enclose b body = DELIMITER @ [10] @ b @ DELIMITER @ 10 # body"
    using assms(1) by (simp add: enclose_def newline_def)
  have u: "unbroken DELIMITER" "10 \<notin> set DELIMITER"
    by (simp_all add: unbroken_def DELIMITER_def U_def line_break_def)
  have r: "rstrip_by (\<lambda>c. c = 13 \<or> c = 10) (DELIMITER @ [10]) = DELIMITER"
    by (simp add: DELIMITER_def U_def rstrip_by_def)
  have "find_closing_delimiter (DELIMITER @ 10 # body) = Some 0"
    using r by (simp add: find_closing_delimiter_def splitlines_keep_line [OF u(1)] del: rstrip_by_snoc)
  from splice_split [of "[10]", OF _ this, of b] assms
  have "split_parts (DELIMITER @ [10] @ b @ DELIMITER @ 10 # body) =
      Inr (b, after_block (DELIMITER @ 10 # body), Some (length DELIMITER + 1))"
    by simp
  moreover have "after_block (DELIMITER @ 10 # body) = body"
    using u(2) by (simp add: after_block_def dropWhile_append DELIMITER_def U_def)
  ultimately show ?thesis
    unfolding c split_text_def by simp
qed

lemma with_ending_newline [simp]: "with_ending [10] t = t"
  by (induction t) (auto simp: with_ending_def)

text \<open>A note composed from a frontmatter and a body reads back as that block and exactly that body.\<close>

theorem compose_splits:
  assumes "dumps_ok y" and "fm \<noteq> []"
  shows "split_text (compose y fm body) = Inr (dump_map y house_style (yaml_mapping fm), body)"
proof -
  let ?b = "dump_map y house_style (yaml_mapping fm)"
  have "?b \<noteq> []" "hd ?b \<noteq> 10" "block_like ?b"
    using assms by (auto simp: dumps_ok_def Let_def yaml_mapping_def dest!: spec [of _ "[10]"])
  with assms(2) show ?thesis by (simp add: compose_def dump_fm_def enclosed_splits)
qed

lemma py_eq_items_get: "py_eq_items a b \<Longrightarrow> (k, v) \<in> set a \<Longrightarrow> \<exists>w. dget b k = Some w \<and> py_eq v w"
  by (induction a) (auto split: option.splits)

lemma py_eq_map_get:
  "py_eq (PMap a) (PMap b) \<Longrightarrow> dget a k = Some v \<Longrightarrow> \<exists>w. dget b k = Some w \<and> py_eq v w"
  using py_eq_items_get [of a b k v] by (auto dest: map_of_SomeD)

text \<open>Rewriting one value in place changes nothing else: everything before and after the block is
  kept byte for byte, the new block has the same keys in the same order, each other key reads as
  the value it had, and the key itself reads as the new value.\<close>

theorem replace_in_place_only:
  assumes "replace_value_in_place y s key v = Inr (Some t)"
  shows "\<exists>pre old_block new_block post d d'. s = pre @ old_block @ post \<and> t = pre @ new_block @ post \<and>
     parse_block y new_block = Inr d' \<and> map fst (items y d') = map fst (items y d) \<and>
     dget (items y d) key \<noteq> None \<and>
     (\<forall>k w. dget (items y d') k = Some w \<longrightarrow>
        (if k = key then py_eq w v else \<exists>w0. dget (items y d) k = Some w0 \<and> py_eq w w0))"
proof -
  obtain block body at where b: "readable_block s = Inr (block, body, at)"
      "(case at of None \<Rightarrow> Inr None | Some (n, k) \<Rightarrow>
         if strip block = [] then Inr None
         else sbind (load_styled y block) (\<lambda>(d, st).
           if dget (items y d) key = None \<or> snd (key_line y d key) \<noteq> 0 then Inr None
           else if list_ex has_comment (key_span y d block key) then Inr None
           else case parse_block y (replaced_block y d st block key v) of
               Inl e \<Rightarrow> Inr None
             | Inr d' \<Rightarrow>
                 if same_keys (items y d') (items y d) \<and>
                    py_eq (PMap (items y d')) (PMap (dict_set (items y d) key v))
                 then Inr (Some (take n s @ replaced_block y d st block key v @ drop (n + k) s))
                 else Inr None)) = (Inr (Some t) :: fm_error + str option)"
    using assms unfolding replace_value_in_place_def sbind_Inr_iff by auto
  obtain n k where at: "at = Some (n, k)"
    using b(2) by (cases at) auto
  obtain d st where ld: "load_styled y block = Inr (d, st)" "dget (items y d) key \<noteq> None"
      "(case parse_block y (replaced_block y d st block key v) of
               Inl e \<Rightarrow> Inr None
             | Inr d' \<Rightarrow>
                 if same_keys (items y d') (items y d) \<and>
                    py_eq (PMap (items y d')) (PMap (dict_set (items y d) key v))
                 then Inr (Some (take n s @ replaced_block y d st block key v @ drop (n + k) s))
                 else Inr None) = (Inr (Some t) :: fm_error + str option)"
    using b(2) unfolding at by (auto simp: sbind_Inr_iff split: if_splits)
  define replaced where "replaced = replaced_block y d st block key v"
  obtain d' where r: "readable_block s = Inr (block, body, Some (n, k))" "parse_block y replaced = Inr d'"
      "same_keys (items y d') (items y d)" "py_eq (PMap (items y d')) (PMap (dict_set (items y d) key v))"
      "t = take n s @ replaced @ drop (n + k) s" "dget (items y d) key \<noteq> None"
    using ld b(1) at by (auto simp: replaced_def [symmetric] simp del: py_eq.simps split: sum.splits if_splits)
  obtain opened x where x: "s = DELIMITER @ opened @ x" "n = length DELIMITER + length opened"
      "find_closing_delimiter x = Some k" "block = take k x"
    using readable_block_form [OF r(1)] by blast
  have s: "s = take n s @ block @ drop (n + k) s"
    using x by simp
  have "if key' = key then py_eq w v else \<exists>w0. dget (items y d) key' = Some w0 \<and> py_eq w w0"
    if "dget (items y d') key' = Some w" for key' w
    using py_eq_map_get [OF r(4) that] by (auto split: if_splits)
  with r s show ?thesis
    unfolding same_keys_def by blast
qed

section \<open>Concrete instances\<close>

text \<open>A library whose every dump is the line \<open>a: x\<close>, and which reads that line as its mapping and any
  other block as \<open>b\<close> alone.\<close>

definition one_line :: str where
  "one_line = [97, 58, 32, 120, 10]"

definition sample_yaml :: "fmap yaml_lib" where
  "sample_yaml = \<lparr>yload = (\<lambda>b. Mapping [(U ''b'', if b = one_line then PInt 2 else PInt 1)]),
     yguess = (\<lambda>b. Guessed (Mapping [(U ''b'', PInt 1)]) None None), items = (\<lambda>d. d), empty_doc = [],
     doc_set = dict_set, doc_pop = dict_pop, dump_doc = (\<lambda>st d. one_line), dump_map = (\<lambda>st d. one_line),
     dump_flow = (\<lambda>st k v. one_line), key_line = (\<lambda>d k. (0, 0)), flow_list = (\<lambda>d k. False)\<rparr>"

definition sample_note :: str where
  "sample_note = DELIMITER @ [10] @ U ''b: 1'' @ [10] @ DELIMITER @ [10] @ U ''hi''"

lemma sample_dumps_ok: "dumps_ok sample_yaml"
proof -
  have "block_like (with_ending [10] one_line)" "block_like (with_ending [13, 10] one_line)"
    by (simp_all add: block_like_def one_line_def with_ending_def line_break_def rstrip_by_def DELIMITER_def U_def)
  then show ?thesis
    by (auto simp: dumps_ok_def sample_yaml_def Let_def) (auto simp: one_line_def with_ending_def)
qed

lemma sample_readable:
  "readable_block sample_note = Inr (U ''b: 1'' @ [10], U ''hi'', Some (4, 5))"
  by (simp add: readable_block_def split_parts_def sample_note_def DELIMITER_def U_def startswith_def
      removeprefix_def lstrip_by_def find_closing_delimiter_def line_break_def rstrip_by_def Let_def)

lemma sample_parse: "parse_block sample_yaml (U ''b: 1'' @ [10]) = Inr [(U ''b'', PInt 1)]"
proof -
  have "strip (U ''b: 1'' @ [10]) \<noteq> []"
    by (simp add: strip_def strip_by_eq_Nil_iff U_def py_space_def)
  moreover have "U ''b: 1'' @ [10] \<noteq> one_line"
    by (simp add: one_line_def U_def)
  ultimately show ?thesis
    by (simp add: parse_block_def mapping_of_def sample_yaml_def)
qed

theorem fill_missing_splices_witness:
  "\<exists>t f. fill_missing sample_yaml sample_note [(U ''id'', PInt 7)] = Inr t \<and> t = take 9 sample_note @ f @ drop 9 sample_note \<and>
     split_text t = Inr ((U ''b: 1'' @ [10]) @ f, U ''hi'')"
proof -
  have l: "load_styled sample_yaml (U ''b: 1'' @ [10]) = Inr ([(U ''b'', PInt 1)], house_style)"
    using sample_parse
    by (simp add: load_styled_def load_guessing_indent_def mapping_of_def indent_like_def parse_block_def
        sample_yaml_def split: if_splits)
  have "\<exists>t. fill_missing sample_yaml sample_note [(U ''id'', PInt 7)] = Inr t"
    unfolding fill_missing_def sample_readable sbind_simps prod.case option.distinct if_False sample_parse
    by (simp add: appended_def l) (simp add: sample_yaml_def)
  then obtain t where t: "fill_missing sample_yaml sample_note [(U ''id'', PInt 7)] = Inr t" by blast
  have "list_all (\<lambda>key. dget (items sample_yaml [(U ''b'', PInt 1)]) key = None) (dkeys [(U ''id'', PInt 7)])"
    by (simp add: sample_yaml_def)
  from fill_missing_splices [OF sample_dumps_ok sample_readable sample_parse this t] t show ?thesis
    by auto
qed

theorem compose_splits_witness:
  "split_text (compose sample_yaml [(U ''b'', PInt 1)] (U ''hi'')) = Inr (one_line, U ''hi'')"
  using compose_splits [OF sample_dumps_ok, of "[(U ''b'', PInt 1)]" "U ''hi''"] by (simp add: sample_yaml_def)

theorem replace_in_place_only_witness:
  "\<exists>t pre new_block post. replace_value_in_place sample_yaml sample_note (U ''b'') (PInt 2) = Inr (Some t) \<and>
     t = pre @ new_block @ post"
proof -
  let ?d = "[(U ''b'', PInt 1)]"
  have l: "load_styled sample_yaml (U ''b: 1'' @ [10]) = Inr (?d, house_style)"
    using sample_parse
    by (simp add: load_styled_def load_guessing_indent_def mapping_of_def indent_like_def parse_block_def
        sample_yaml_def split: if_splits)
  have lines: "splitlines_keep (U ''b: 1'' @ [10]) = [U ''b: 1'' @ [10]]"
    by (simp add: U_def line_break_def)
  have span: "key_span sample_yaml ?d (U ''b: 1'' @ [10]) (U ''b'') = [U ''b: 1'' @ [10]]"
    unfolding key_span_def lines by (simp add: sample_yaml_def value_span_def)
  have comment: "\<not> has_comment (U ''b: 1'' @ [10])"
    by (simp add: has_comment_def U_def)
  have rb: "replaced_block sample_yaml ?d house_style (U ''b: 1'' @ [10]) (U ''b'') (PInt 2) = one_line"
    unfolding replaced_block_def span lines
    by (simp add: sample_yaml_def dump_fm_def yaml_mapping_def endswith_def startswith_def with_ending_def
        one_line_def U_def)
  have p: "parse_block sample_yaml one_line = Inr [(U ''b'', PInt 2)]"
    by (simp add: parse_block_def mapping_of_def sample_yaml_def strip_def strip_by_eq_Nil_iff)
      (simp add: one_line_def py_space_def)
  have st: "strip (U ''b: 1'' @ [10]) \<noteq> []"
    by (simp add: strip_def strip_by_eq_Nil_iff U_def py_space_def)
  have "\<exists>t. replace_value_in_place sample_yaml sample_note (U ''b'') (PInt 2) = Inr (Some t)"
    using st comment
    by (simp add: replace_value_in_place_def sample_readable l span rb p)
      (simp add: sample_yaml_def same_keys_def)
  then obtain t where t: "replace_value_in_place sample_yaml sample_note (U ''b'') (PInt 2) = Inr (Some t)" by blast
  from replace_in_place_only [OF t] t show ?thesis by blast
qed

end
