(* ===== verification/Utf8.thy ===== *)
theory Utf8
  imports Prelude
begin

text \<open>
  Python's strict UTF-8 codec, which every file and every mirrored text passes: a text with a lone
  surrogate does not encode, and bytes decode only when they are the shortest form of scalar
  values.  A byte is a \<open>nat\<close> below 256.  Encoding and decoding are inverse to each other.
\<close>

type_synonym bytes = "nat list"

definition scalar :: "cpoint \<Rightarrow> bool" where
  "scalar c \<longleftrightarrow> c < 55296 \<or> 57343 < c \<and> c < 1114112"

definition encode1 :: "cpoint \<Rightarrow> bytes" where
  "encode1 c =
     (if c < 128 then [c]
      else if c < 2048 then [192 + c div 64, 128 + c mod 64]
      else if c < 65536 then [224 + c div 4096, 128 + c div 64 mod 64, 128 + c mod 64]
      else [240 + c div 262144, 128 + c div 4096 mod 64, 128 + c div 64 mod 64, 128 + c mod 64])"

definition encode :: "str \<Rightarrow> bytes option" where
  "encode s = (if list_all scalar s then Some (concat (map encode1 s)) else None)"

definition cont :: "nat \<Rightarrow> bool" where
  "cont b \<longleftrightarrow> 128 \<le> b \<and> b < 192"

definition next_char :: "bytes \<Rightarrow> (cpoint \<times> bytes) option" where
  "next_char bs =
     (case bs of
        [] \<Rightarrow> None
      | b # r \<Rightarrow>
          if b < 128 then Some (b, r)
          else if b < 194 then None
          else if b < 224 then
            (case r of c # r' \<Rightarrow> if cont c then Some ((b - 192) * 64 + (c - 128), r') else None | _ \<Rightarrow> None)
          else if b < 240 then
            (case r of c # d # r' \<Rightarrow>
               (let v = (b - 224) * 4096 + (c - 128) * 64 + (d - 128)
                in if cont c \<and> cont d \<and> 2048 \<le> v \<and> scalar v then Some (v, r') else None)
             | _ \<Rightarrow> None)
          else if b < 245 then
            (case r of c # d # e # r' \<Rightarrow>
               (let v = (b - 240) * 262144 + (c - 128) * 4096 + (d - 128) * 64 + (e - 128)
                in if cont c \<and> cont d \<and> cont e \<and> 65536 \<le> v \<and> scalar v then Some (v, r') else None)
             | _ \<Rightarrow> None)
          else None)"

lemma next_char_shorter: "next_char bs = Some (c, r) \<Longrightarrow> length r < length bs"
  by (auto simp: next_char_def Let_def split: list.splits if_splits)

function decode :: "bytes \<Rightarrow> str option" where
  "decode bs =
     (if bs = [] then Some []
      else case next_char bs of None \<Rightarrow> None
        | Some (c, r) \<Rightarrow> (case decode r of None \<Rightarrow> None | Some s \<Rightarrow> Some (c # s)))"
  by pat_completeness auto
termination
  by (relation "measure length") (auto dest: next_char_shorter)

declare decode.simps [simp del]

lemma decode_Nil [simp]: "decode [] = Some []"
  by (simp add: decode.simps)

lemma next_char_encode1: "scalar c \<Longrightarrow> next_char (encode1 c @ bs) = Some (c, bs)"
proof -
  assume c: "scalar c"
  have two: "c div 64 * 64 + c mod 64 = c"
    by simp
  have three: "c div 4096 * 4096 + c div 64 mod 64 * 64 + c mod 64 = c"
  proof -
    have "c div 64 = c div 4096 * 64 + c div 64 mod 64"
      using div_mult_mod_eq [of "c div 64" 64] by (simp add: div_mult2_eq [symmetric])
    with two show ?thesis by linarith
  qed
  have four: "c div 262144 * 262144 + c div 4096 mod 64 * 4096 + c div 64 mod 64 * 64 + c mod 64 = c"
  proof -
    have "c div 4096 = c div 262144 * 64 + c div 4096 mod 64"
      using div_mult_mod_eq [of "c div 4096" 64] by (simp add: div_mult2_eq [symmetric])
    with three show ?thesis by linarith
  qed
  consider "c < 128" | "128 \<le> c" "c < 2048" | "2048 \<le> c" "c < 65536" | "65536 \<le> c" "c < 1114112"
    using c by (fastforce simp: scalar_def)
  then show ?thesis
  proof cases
    case 2
    then have "2 \<le> c div 64" "c div 64 < 32" by auto
    with 2 two show ?thesis by (simp add: next_char_def encode1_def cont_def)
  next
    case 3
    then have "c div 4096 < 16" by auto
    with 3 three c show ?thesis by (simp add: next_char_def encode1_def cont_def Let_def)
  next
    case 4
    then have "c div 262144 < 5" by auto
    with 4 four c show ?thesis by (simp add: next_char_def encode1_def cont_def Let_def)
  qed (simp add: next_char_def encode1_def)
qed

lemma six_bits: "v = a * 64 + b \<Longrightarrow> b < 64 \<Longrightarrow> v div 64 = a \<and> v mod 64 = b" for v a b :: nat
  by simp

lemma encode1_next_char: "next_char bs = Some (c, r) \<Longrightarrow> scalar c \<and> bs = encode1 c @ r"
proof -
  have split2: "encode1 ((b - 192) * 64 + (x - 128)) = [b, x]" if "194 \<le> b" "b < 224" "cont x" for b x
  proof -
    define v where "v = (b - 192) * 64 + (x - 128)"
    have l: "x - 128 < 64" using that by (auto simp: cont_def)
    then have "v div 64 = b - 192" "v mod 64 = x - 128" by (simp_all add: v_def)
    moreover have "128 \<le> v" "v < 2048" using that l by (auto simp: v_def)
    ultimately show ?thesis using that by (auto simp: encode1_def cont_def v_def [symmetric])
  qed
  have split3: "encode1 ((b - 224) * 4096 + (x - 128) * 64 + (y - 128)) = [b, x, y]"
    if "224 \<le> b" "b < 240" "cont x" "cont y" "2048 \<le> (b - 224) * 4096 + (x - 128) * 64 + (y - 128)" for b x y
  proof -
    define v where "v = (b - 224) * 4096 + (x - 128) * 64 + (y - 128)"
    have l: "x - 128 < 64" "y - 128 < 64" using that by (auto simp: cont_def)
    have v1: "v = ((b - 224) * 64 + (x - 128)) * 64 + (y - 128)" by (simp add: v_def)
    have a: "v div 64 = (b - 224) * 64 + (x - 128)" "v mod 64 = y - 128"
      using six_bits [OF v1] l by auto
    from six_bits [OF a(1)] l have "v div 64 mod 64 = x - 128" "v div 4096 = b - 224"
      using div_mult2_eq [of v 64 64] by auto
    moreover note a(2)
    moreover have "v < 65536" using that l by (auto simp: v_def)
    ultimately show ?thesis using that by (auto simp: encode1_def cont_def v_def [symmetric])
  qed
  have split4: "encode1 ((b - 240) * 262144 + (x - 128) * 4096 + (y - 128) * 64 + (z - 128)) = [b, x, y, z]"
    if "240 \<le> b" "b < 245" "cont x" "cont y" "cont z"
       "65536 \<le> (b - 240) * 262144 + (x - 128) * 4096 + (y - 128) * 64 + (z - 128)" for b x y z
  proof -
    define v where "v = (b - 240) * 262144 + (x - 128) * 4096 + (y - 128) * 64 + (z - 128)"
    have l: "x - 128 < 64" "y - 128 < 64" "z - 128 < 64" using that by (auto simp: cont_def)
    have v1: "v = (((b - 240) * 64 + (x - 128)) * 64 + (y - 128)) * 64 + (z - 128)" by (simp add: v_def)
    have a: "v div 64 = ((b - 240) * 64 + (x - 128)) * 64 + (y - 128)" "v mod 64 = z - 128"
      using six_bits [OF v1] l by auto
    from six_bits [OF a(1)] l have w: "v div 64 mod 64 = y - 128" "v div 4096 = (b - 240) * 64 + (x - 128)"
      using div_mult2_eq [of v 64 64] by auto
    from six_bits [OF w(2)] l have "v div 4096 mod 64 = x - 128" "v div 262144 = b - 240"
      using div_mult2_eq [of v 4096 64] by auto
    with a(2) w(1) that show ?thesis by (auto simp: encode1_def cont_def v_def [symmetric])
  qed
  assume n: "next_char bs = Some (c, r)"
  then obtain b t where bs: "bs = b # t" by (cases bs) (auto simp: next_char_def)
  consider "b < 128" | "194 \<le> b" "b < 224" | "224 \<le> b" "b < 240" | "240 \<le> b" "b < 245"
    using n bs by (auto simp: next_char_def not_less split: if_splits)
  then show ?thesis
  proof cases
    case 1
    with n bs show ?thesis by (auto simp: next_char_def encode1_def scalar_def)
  next
    case 2
    with n bs obtain x where "t = x # r" "cont x" "c = (b - 192) * 64 + (x - 128)"
      by (auto simp: next_char_def split: list.splits if_splits)
    moreover from this 2 have "c < 2048" by (auto simp: cont_def)
    ultimately show ?thesis using split2 [of b x] 2 bs by (simp add: scalar_def)
  next
    case 3
    with n bs obtain x y where "t = x # y # r" "cont x" "cont y" "scalar c" "2048 \<le> c"
      "c = (b - 224) * 4096 + (x - 128) * 64 + (y - 128)"
      by (auto simp: next_char_def Let_def split: list.splits if_splits)
    then show ?thesis using split3 [of b x y] 3 bs by simp
  next
    case 4
    with n bs obtain x y z where "t = x # y # z # r" "cont x" "cont y" "cont z" "scalar c" "65536 \<le> c"
      "c = (b - 240) * 262144 + (x - 128) * 4096 + (y - 128) * 64 + (z - 128)"
      by (auto simp: next_char_def Let_def split: list.splits if_splits)
    then show ?thesis using split4 [of b x y z] 4 bs by simp
  qed
qed

lemma decode_encode1: "scalar c \<Longrightarrow> decode (encode1 c @ bs) = map_option (Cons c) (decode bs)"
proof -
  assume c: "scalar c"
  have "encode1 c \<noteq> []" by (simp add: encode1_def)
  then show ?thesis
    using next_char_encode1 [OF c, of bs] by (auto simp: decode.simps [of "encode1 c @ bs"] split: option.splits)
qed

lemma decode_encode: "encode s = Some b \<Longrightarrow> decode b = Some s"
proof (induction s arbitrary: b)
  case (Cons c s)
  then have "encode s = Some (concat (map encode1 s))" "scalar c" "b = encode1 c @ concat (map encode1 s)"
    by (auto simp: encode_def split: if_splits)
  with Cons.IH show ?case by (simp add: decode_encode1)
qed (simp add: encode_def)

lemma encode_decode: "decode b = Some s \<Longrightarrow> encode s = Some b"
proof (induction b arbitrary: s rule: decode.induct)
  case (1 b)
  show ?case
  proof (cases "b = []")
    case True
    with 1 show ?thesis by (simp add: encode_def)
  next
    case False
    with 1(2) obtain c r t where n: "next_char b = Some (c, r)" "decode r = Some t" "s = c # t"
      by (auto simp: decode.simps [of b] split: option.splits)
    with 1(1) [OF False n(1) refl n(2)] encode1_next_char [OF n(1)] show ?thesis
      by (auto simp: encode_def split: if_splits)
  qed
qed

lemma encode_ascii: "list_all (\<lambda>c. c < 128) s \<Longrightarrow> encode s = Some s"
  by (induction s) (auto simp: encode_def encode1_def scalar_def split: if_splits)

lemma decode_ascii: "list_all (\<lambda>c. c < 128) s \<Longrightarrow> decode s = Some s"
  by (rule decode_encode [OF encode_ascii])

end
