(* ===== verification/NoteMeta.thy ===== *)
theory NoteMeta
  imports Frontmatter Settings Utf8
begin

text \<open>
  The pure part of \<open>coppermind_store/notes.py\<close>: the frontmatter a note is created, replaced, patched
  or adopted with, the columns mirrored from it, titles, headings and names.  \<open>objects\<close> says of a
  value that is no plain YAML value whether it is a float, whether it is finite, and its \<open>str\<close>.
  Mapping keys are texts.
\<close>

record objects =
  is_float :: "nat \<Rightarrow> bool"
  is_finite :: "nat \<Rightarrow> bool"
  py_str :: "pyval \<Rightarrow> str"

section \<open>Values the mirror can hold\<close>

definition storable :: "str \<Rightarrow> str" where
  "storable s = filter (\<lambda>c. c \<noteq> 0) s"

fun unstorable :: "objects \<Rightarrow> pyval \<Rightarrow> bool"
  and unstorable_list :: "objects \<Rightarrow> pyval list \<Rightarrow> bool"
  and unstorable_items :: "objects \<Rightarrow> (str \<times> pyval) list \<Rightarrow> bool" where
  "unstorable ob (PMap d) = unstorable_items ob d"
| "unstorable ob (PList vs) = unstorable_list ob vs"
| "unstorable ob (POther n) = (is_float ob n \<and> \<not> is_finite ob n)"
| "unstorable ob (PStr s) = (encode s = None)"
| "unstorable ob v = False"
| "unstorable_list ob [] = False"
| "unstorable_list ob (v # vs) = (unstorable ob v \<or> unstorable_list ob vs)"
| "unstorable_items ob [] = False"
| "unstorable_items ob (p # d) =
     (encode (fst p) = None \<or> unstorable ob (snd p) \<or> unstorable_items ob d)"

text \<open>The JSON form of a value: a comprehension keeps the last of two keys that become one.\<close>

fun jsonable :: "objects \<Rightarrow> pyval \<Rightarrow> pyval"
  and json_list :: "objects \<Rightarrow> pyval list \<Rightarrow> pyval list"
  and json_items :: "objects \<Rightarrow> (str \<times> pyval) list \<Rightarrow> fmap \<Rightarrow> fmap" where
  "jsonable ob (PMap d) = PMap (json_items ob d [])"
| "jsonable ob (PList vs) = PList (json_list ob vs)"
| "jsonable ob (PDate d) = PStr (date_iso d)"
| "jsonable ob (PDateTime d t us z) = PStr (datetime_text d t us z)"
| "jsonable ob (PStr s) = PStr (storable s)"
| "jsonable ob (POther n) = (if is_float ob n then POther n else PStr (storable (py_str ob (POther n))))"
| "jsonable ob v = v"
| "json_list ob [] = []"
| "json_list ob (v # vs) = jsonable ob v # json_list ob vs"
| "json_items ob [] out = out"
| "json_items ob (p # d) out = json_items ob d (dict_set out (storable (fst p)) (jsonable ob (snd p)))"

definition json_map :: "objects \<Rightarrow> fmap \<Rightarrow> fmap" where
  "json_map ob fm = json_items ob fm []"

definition text_value :: "pyval \<Rightarrow> str option" where
  "text_value v = (case v of PStr s \<Rightarrow> Some (storable s) | _ \<Rightarrow> None)"

definition as_int :: "pyval \<Rightarrow> int" where
  "as_int v = (case v of PInt i \<Rightarrow> i | _ \<Rightarrow> 1)"

definition as_date :: "pyval \<Rightarrow> date option" where
  "as_date v = (let parsed = parse_note_time v in if nt_valid parsed then date_value parsed else None)"

definition day_value :: "pyval \<Rightarrow> pyval" where
  "day_value v =
     (let parsed = parse_note_time v
      in if \<not> nt_valid parsed then v
         else case date_value parsed of None \<Rightarrow> v
           | Some d \<Rightarrow> (case time_value parsed of None \<Rightarrow> PDate d
               | Some t \<Rightarrow> PStr (format_note_time d t)))"

section \<open>Frontmatter to write\<close>

text \<open>\<open>{definition.name: definition.kind}\<close>: of two definitions with one name the last counts.\<close>

definition kind_of :: "schema \<Rightarrow> str \<Rightarrow> key_kind option" where
  "kind_of sc key = map_of (rev (map (\<lambda>kd. (kd_name kd, kd_kind kd)) (sc_keys sc))) key"

definition with_kind :: "schema \<Rightarrow> str \<Rightarrow> pyval \<Rightarrow> pyval" where
  "with_kind sc key v =
     (if kind_of sc key = Some KDate then day_value v
      else if key = role sc ''tags_key'' then
        (case v of PList vs \<Rightarrow> PList (normalize_tags sc vs) | _ \<Rightarrow> v)
      else v)"

definition with_kinds :: "schema \<Rightarrow> fmap \<Rightarrow> fmap" where
  "with_kinds sc vals = map (\<lambda>(key, v). (key, with_kind sc key v)) vals"

definition ordered :: "schema \<Rightarrow> fmap \<Rightarrow> fmap" where
  "ordered sc vals0 =
     (let vals = with_kinds sc vals0;
          known = foldl (\<lambda>out kd. if fget vals (kd_name kd) \<noteq> PNone
            then dict_set out (kd_name kd) (fget vals (kd_name kd)) else out) [] (sc_keys sc)
      in foldl (\<lambda>out p. if fst p \<notin> set (map kd_name (sc_keys sc)) then dict_set out (fst p) (snd p) else out)
           known vals)"

definition update_with :: "fmap \<Rightarrow> fmap \<Rightarrow> fmap" where
  "update_with d e = foldl (\<lambda>out p. dict_set out (fst p) (snd p)) d e"

text \<open>Truth of a value: \<open>None\<close>, the empty texts and collections, \<open>False\<close> and zero are false.\<close>

definition truthy :: "pyval \<Rightarrow> bool" where
  "truthy v = (case v of PNone \<Rightarrow> False | PBool b \<Rightarrow> b | PInt i \<Rightarrow> i \<noteq> 0 | PStr s \<Rightarrow> s \<noteq> []
     | PList vs \<Rightarrow> vs \<noteq> [] | PMap d \<Rightarrow> d \<noteq> [] | _ \<Rightarrow> True)"

text \<open>\<open>instant\<close> is the capture moment, or now, in the operator's timezone.\<close>

definition default_note_time :: "fmap \<Rightarrow> schema \<Rightarrow> date \<times> ptime \<Rightarrow> str" where
  "default_note_time fm sc instant =
     (case as_date (fget fm (role sc ''date_key'')) of
        Some d \<Rightarrow> format_note_time d (snd instant)
      | None \<Rightarrow> format_note_time (fst instant) (snd instant))"

definition build_frontmatter ::
  "objects \<Rightarrow> fmap \<Rightarrow> schema \<Rightarrow> date \<times> ptime \<Rightarrow> (date \<times> ptime) option \<Rightarrow> bool \<Rightarrow> str \<Rightarrow> fmap" where
  "build_frontmatter ob request sc now captured from_ingest note_id =
     (let instant = (case captured of Some c \<Rightarrow> c | None \<Rightarrow> now);
          vals = defaults sc;
          date_key = role sc ''date_key'';
          supplied = fget request date_key;
          given = parse_note_time supplied;
          legacy_time = fget request (U ''time'');
          legacy = parse_note_time legacy_time;
          needs_default =
            (\<not> truthy supplied \<and> \<not> truthy (fget vals date_key) \<and> \<not> truthy legacy_time \<or>
             from_ingest \<and> fget request (U ''time_unknown'') \<noteq> PBool True \<and> \<not> truthy legacy_time \<and>
               (\<not> truthy supplied \<or> nt_valid given \<and> time_value given = None));
          vals = update_with vals request;
          vals =
            (if needs_default then dict_set vals date_key (PStr (default_note_time request sc instant))
             else if from_ingest \<and> nt_valid given \<and> time_value given \<noteq> None then
               dict_set vals date_key (PStr (normalize_note_time (py_str ob) supplied (Some (fst now))))
             else if from_ingest \<and> \<not> truthy supplied \<and> nt_valid legacy \<and> time_value legacy \<noteq> None then
               dict_set vals date_key (PStr (normalize_note_time (py_str ob) legacy_time
                 (date_value (parse_note_time (PStr (default_note_time request sc instant))))))
             else vals);
          vals = dict_set vals (role sc ''id_key'') (PStr note_id);
          version_key = role sc ''schema_version_key'';
          vals = (if fhas vals version_key then vals else dict_set vals version_key (PInt 1))
      in ordered sc vals)"

datatype note_problem =
    IdChanged str
  | InBoth str
  | NullValue str
  | SourcesManaged str
  | IdRemoved str
  | RequiredRemoved str
  | DossierFolder
  | FolderReserved str

definition replacement_frontmatter :: "objects \<Rightarrow> fmap \<Rightarrow> schema \<Rightarrow> str \<Rightarrow> note_problem + fmap" where
  "replacement_frontmatter ob request sc note_id =
     (let id_key = role sc ''id_key''; carried = fget request id_key
      in if carried \<noteq> PNone \<and> (case carried of PStr s \<Rightarrow> s | _ \<Rightarrow> py_str ob carried) \<noteq> note_id
         then Inl (IdChanged id_key)
         else Inr (ordered sc (dict_set request id_key (PStr note_id))))"

text \<open>\<open>json.dumps\<close> of two JSON forms is the same text exactly when the forms are the same.\<close>

definition keeping_types :: "objects \<Rightarrow> fmap \<Rightarrow> fmap \<Rightarrow> fmap" where
  "keeping_types ob fm current =
     map (\<lambda>(key, v). (key, case dget current key of
         Some w \<Rightarrow> if jsonable ob v = jsonable ob w then w else v | None \<Rightarrow> v)) fm"

definition patch_problems :: "fmap \<Rightarrow> str list \<Rightarrow> schema \<Rightarrow> note_problem list" where
  "patch_problems changes unset sc =
     (let id_key = role sc ''id_key''; sources_key = role sc ''sources_key'';
          needed = map kd_name (filter required (sc_keys sc))
      in map InBoth (filter (\<lambda>key. key \<in> set unset) (dkeys changes)) @
         map (\<lambda>p. NullValue (fst p)) (filter (\<lambda>p. snd p = PNone) changes) @
         (if sources_key \<in> set (dkeys changes) \<or> sources_key \<in> set unset then [SourcesManaged sources_key] else []) @
         concat (map (\<lambda>key. if key = id_key then [IdRemoved key]
           else if key \<in> set needed then [RequiredRemoved key] else []) unset))"

section \<open>Adoption\<close>

text \<open>One round over the definitions, with the requirements found before it.\<close>

definition adoption_key ::
  "fmap \<Rightarrow> str list \<Rightarrow> fmap \<times> fmap \<times> bool \<Rightarrow> str \<Rightarrow> fmap \<times> fmap \<times> bool" where
  "adoption_key available needed st name =
     (let (changes, effective, added) = st
      in if name \<notin> set needed \<or> fget effective name \<noteq> PNone \<or> \<not> fhas available name then st
         else (dict_set changes name (fget available name),
               dict_set effective name (fget available name), True))"

definition adoption_round ::
  "schema \<Rightarrow> fmap \<Rightarrow> fmap \<Rightarrow> fmap \<Rightarrow> fmap \<times> fmap \<times> bool" where
  "adoption_round sc available changes effective =
     foldl (adoption_key available (required_keys sc effective)) (changes, effective, False)
       (map kd_name (sc_keys sc))"

text \<open>The \<open>while True\<close> loop; a loop that never settles is \<open>None\<close>.\<close>

partial_function (option) adoption_loop :: "schema \<Rightarrow> fmap \<Rightarrow> fmap \<Rightarrow> fmap \<Rightarrow> fmap option" where
  "adoption_loop sc available changes effective =
     (let r = adoption_round sc available changes effective
      in if snd (snd r) then adoption_loop sc available (fst r) (fst (snd r)) else Some changes)"

definition adoption_available :: "schema \<Rightarrow> date \<times> ptime \<Rightarrow> str \<Rightarrow> fmap" where
  "adoption_available sc now note_id =
     (let available = dict_set (defaults sc) (role sc ''id_key'') (PStr note_id);
          setdefault = (\<lambda>d key v. if fhas d key then d else dict_set d key v)
      in setdefault (setdefault available (role sc ''schema_version_key'') (PInt 1))
           (role sc ''date_key'') (PDate (fst now)))"

definition adoption_start :: "fmap \<Rightarrow> schema \<Rightarrow> date \<times> ptime \<Rightarrow> str \<Rightarrow> fmap" where
  "adoption_start fm sc now note_id =
     (let id_key = role sc ''id_key''; date_key = role sc ''date_key'';
          changes = (if fget fm id_key = PNone then [(id_key, PStr note_id)] else [])
      in if fget fm date_key = PNone \<and> note_date fm sc = None
         then dict_set changes date_key
           (if present (parse_note_time (fget fm (U ''time''))) then PDate (fst now)
            else PStr (default_note_time fm sc now))
         else changes)"

definition adoption_changes :: "fmap \<Rightarrow> schema \<Rightarrow> date \<times> ptime \<Rightarrow> str \<Rightarrow> fmap option" where
  "adoption_changes fm sc now note_id =
     (let changes = adoption_start fm sc now note_id
      in adoption_loop sc (adoption_available sc now note_id) changes (update_with fm changes))"

definition with_canonical_tags :: "'d yaml_lib \<Rightarrow> str \<Rightarrow> schema \<Rightarrow> fm_error + str" where
  "with_canonical_tags y text sc =
     sbind (parse_text y text) (\<lambda>(fm, body).
       case fget fm (role sc ''tags_key'') of
         PList vs \<Rightarrow>
           (if normalize_tags sc vs = vs then Inr text
            else sbind (replace_value_in_place y text (role sc ''tags_key'') (PList (normalize_tags sc vs)))
              (\<lambda>r. Inr (case r of Some t \<Rightarrow> if t = [] then text else t | None \<Rightarrow> text)))
       | _ \<Rightarrow> Inr text)"

section \<open>The mirror's columns\<close>

record mirror_cols =
  mc_source_ids :: "str list"
  mc_artifact_ids :: "str list"
  mc_schema_version :: int
  mc_type :: "str option"
  mc_context :: "str option"
  mc_account :: "str list"
  mc_date :: "date option"
  mc_reviewed :: bool
  mc_unfile :: bool
  mc_tags :: "str list"

definition str_items :: "pyval \<Rightarrow> str list" where
  "str_items v = concat (map (\<lambda>x. case x of PStr s \<Rightarrow> [s] | _ \<Rightarrow> []) (the_list v))"

definition text_of :: "objects \<Rightarrow> pyval \<Rightarrow> str" where
  "text_of ob v = (case v of PStr s \<Rightarrow> s | _ \<Rightarrow> py_str ob v)"

text \<open>\<open>mc_unfile\<close>: the columns also reset \<open>filed\<close>.\<close>

definition mirror_columns :: "objects \<Rightarrow> fmap \<Rightarrow> schema \<Rightarrow> mirror_cols" where
  "mirror_columns ob fm sc =
     \<lparr>mc_source_ids = sort (remdups (str_items (fget fm (role sc ''sources_key'')))),
      mc_artifact_ids = sort (remdups (str_items (fget fm (optional_role sc ''artifacts_key'')))),
      mc_schema_version = (if fhas fm (role sc ''schema_version_key'')
        then as_int (fget fm (role sc ''schema_version_key'')) else 1),
      mc_type = text_value (fget fm (role sc ''type_key'')),
      mc_context = text_value (fget fm (role sc ''context_key'')),
      mc_account = map storable (account_list (fget fm (role sc ''account_key''))),
      mc_date = note_date fm sc,
      mc_reviewed = (fget fm (role sc ''reviewed_key'') = PBool True),
      mc_unfile = (fget fm (role sc ''reviewed_key'') \<noteq> PBool True),
      mc_tags = map (\<lambda>t. storable (text_of ob t)) (the_list (fget fm (role sc ''tags_key'')))\<rparr>"

section \<open>Titles, headings and names\<close>

definition NOTE_SUFFIX :: str where
  "NOTE_SUFFIX = U ''.md''"

definition path_name :: "str \<Rightarrow> str" where
  "path_name p = last (split_on 47 p)"

text \<open>\<open>Path.stem\<close>: the name up to its last dot, unless that dot begins or ends the name.\<close>

definition path_stem :: "str \<Rightarrow> str" where
  "path_stem p =
     (let name = path_name p; (a, found, b) = rpartition_on 46 name
      in if found \<and> a \<noteq> [] \<and> b \<noteq> [] then a else name)"

definition terminated :: "str \<Rightarrow> str" where
  "terminated body = (if body = [] \<or> endswith body newline then body else body @ newline)"

definition body_with_heading :: "str \<Rightarrow> str \<Rightarrow> str" where
  "body_with_heading title body =
     (let heading = rstrip_by py_space (U ''# '' @ title);
          text = lstrip_by (\<lambda>c. c = 10) body
      in terminated (if text \<noteq> [] then heading @ newline @ newline @ text else heading @ newline))"

fun first_heading :: "str list \<Rightarrow> str option" where
  "first_heading [] = None"
| "first_heading (l # ls) =
     (if startswith l (U ''# '') then Some (storable (strip (drop 2 l))) else first_heading ls)"

definition title_of :: "str \<Rightarrow> str \<Rightarrow> str" where
  "title_of body path =
     (case first_heading (splitlines body) of Some t \<Rightarrow> t | None \<Rightarrow> storable (path_stem path))"

definition stem_for :: "unicode \<Rightarrow> str \<Rightarrow> fmap \<Rightarrow> schema \<Rightarrow> notes_settings \<Rightarrow> str" where
  "stem_for uc title fm sc ns =
     note_stem uc title (note_date fm sc)
       (case text_value (fget fm (role sc ''type_key'')) of None \<Rightarrow> False | Some t \<Rightarrow> t \<in> set (ns_dated_types ns))"

text \<open>The first heading line replaced, with the line ending it had; with no heading, one is put first.\<close>

definition line_ending :: "str \<Rightarrow> str" where
  "line_ending l = (if endswith l [13, 10] then [13, 10] else if endswith l newline then newline else [])"

fun retitle_lines :: "str \<Rightarrow> str list \<Rightarrow> str list option" where
  "retitle_lines title [] = None"
| "retitle_lines title (l # ls) =
     (if startswith l (U ''# '') then Some ((U ''# '' @ title @ line_ending l) # ls)
      else map_option (Cons l) (retitle_lines title ls))"

definition retitled_body :: "str \<Rightarrow> str \<Rightarrow> str" where
  "retitled_body title body =
     concat (case retitle_lines title (splitlines_keep body) of Some ls \<Rightarrow> ls
       | None \<Rightarrow> (U ''# '' @ title @ newline @ newline) # splitlines_keep body)"

definition renamed_text :: "str \<Rightarrow> str \<Rightarrow> fm_error + str \<times> str" where
  "renamed_text text title =
     sbind (split_text text) (\<lambda>(block, body).
       let new_body = retitled_body title body
       in Inr (take (length text - length body) text @ new_body, new_body))"

text \<open>A folder whose casefolded prefix is a reserved folder or lies in one is refused.\<close>

definition folder_prefixes :: "str list \<Rightarrow> str list" where
  "folder_prefixes parts = map (\<lambda>i. join (U ''/'') (take i parts)) [1..<length parts + 1]"

definition check_folder_safe :: "unicode \<Rightarrow> str \<Rightarrow> notes_settings \<Rightarrow> note_problem option" where
  "check_folder_safe uc folder ns =
     (if casefold uc (hd (split_on 47 folder)) \<in> {U ''people'', U ''companies''} then Some DossierFolder
      else first_error (\<lambda>reserved.
          let rf = casefold uc (sanitize_folder uc reserved)
          in if list_ex (\<lambda>p. let prefix = casefold uc p in prefix = rf \<or> startswith prefix (rf @ U ''/''))
               (folder_prefixes (filter (\<lambda>p. p \<noteq> []) (split_on 47 folder)))
             then Some (FolderReserved reserved) else None)
        [ns_sources_folder ns, ns_artifacts_folder ns])"

section \<open>The identity in a broken block\<close>

text \<open>\<open>^key\s*:\s*(.+)$\<close> on one line, comment removed, surrounding quotes taken off.\<close>

definition unquoted :: "str \<Rightarrow> str" where
  "unquoted v = (if 2 \<le> length v \<and> hd v = last v \<and> (hd v = 34 \<or> hd v = 39) then butlast (tl v) else v)"

definition id_in_line :: "str \<Rightarrow> str \<Rightarrow> str option" where
  "id_in_line id_key raw =
     (let line = hd (split_on 35 raw);
          rest = lstrip_by py_space (drop (length id_key) line)
      in if startswith line id_key \<and> rest \<noteq> [] \<and> hd rest = 58 \<and> tl rest \<noteq> []
         then Some (unquoted (strip (tl rest))) else None)"

fun first_some :: "('a \<Rightarrow> 'b option) \<Rightarrow> 'a list \<Rightarrow> 'b option" where
  "first_some f [] = None"
| "first_some f (x # xs) = (case f x of Some y \<Rightarrow> Some y | None \<Rightarrow> first_some f xs)"

definition recover_id_from_raw :: "str \<Rightarrow> str \<Rightarrow> str option" where
  "recover_id_from_raw text id_key =
     (case split_text text of Inl e \<Rightarrow> None
      | Inr (block, body) \<Rightarrow> if strip block = [] then None else first_some (id_in_line id_key) (splitlines block))"

datatype parse_failure = NotThisNote | Unparsed str

text \<open>\<open>_parse\<close>: the frontmatter and body of a note's bytes, if they are that note's; \<open>reason\<close> is the
  parser's own text.\<close>

definition parse_note ::
  "objects \<Rightarrow> 'd yaml_lib \<Rightarrow> (fm_error \<Rightarrow> str) \<Rightarrow> str \<Rightarrow> bytes \<Rightarrow> schema \<Rightarrow> parse_failure + fmap \<times> str" where
  "parse_note ob y reason note_id data sc =
     (case decode data of
        None \<Rightarrow> Inl (Unparsed (U ''undecodable''))
      | Some text \<Rightarrow>
          (case parse_text y text of
             Inl e \<Rightarrow>
               (case recover_id_from_raw text (role sc ''id_key'') of
                  Some i \<Rightarrow> if i \<noteq> note_id then Inl NotThisNote else Inl (Unparsed (reason e))
                | None \<Rightarrow> Inl (Unparsed (reason e)))
           | Inr (fm, body) \<Rightarrow>
               (let carried = fget fm (role sc ''id_key'')
                in if carried \<noteq> PNone \<and> text_of ob carried \<noteq> note_id then Inl NotThisNote
                   else Inr (fm, body))))"

end
