(* ===== verification/NoteMetaLaws.thy ===== *)
theory NoteMetaLaws
  imports NoteMeta
begin

text \<open>
  What the note helpers guarantee: adoption fills what the schema asks for and touches nothing a
  person wrote, the mirrored frontmatter holds only what the mirror can store, a document sent back
  unchanged keeps the file's own values, and a rename changes the heading alone.
\<close>

section \<open>Dictionaries\<close>

lemma fget_eqI: "dget a k = dget b k \<Longrightarrow> fget a k = fget b k"
  by (simp add: fget_def)

lemma update_with_Nil [simp]: "update_with d [] = d"
  by (simp add: update_with_def)

lemma update_with_Cons [simp]: "update_with d (p # e) = update_with (dict_set d (fst p) (snd p)) e"
  by (simp add: update_with_def)

lemma dget_update_with:
  "distinct (dkeys e) \<Longrightarrow> dget (update_with d e) k = (case dget e k of Some v \<Rightarrow> Some v | None \<Rightarrow> dget d k)"
proof (induction e arbitrary: d)
  case (Cons p e)
  then have "k = fst p \<Longrightarrow> dget e k = None"
    by (simp add: dget_None_iff)
  with Cons show ?case by (auto split: option.splits)
qed simp

lemma fget_update_with:
  "distinct (dkeys e) \<Longrightarrow> fget (update_with d e) k = (if fhas e k then fget e k else fget d k)"
  by (auto simp: fget_def fhas_def dget_update_with split: option.splits)

section \<open>Adoption\<close>

text \<open>The state of the loop: \<open>effective\<close> is the file's frontmatter with the changes, every change fills a
  key the file leaves open, and every value at hand is one.\<close>

definition adopting :: "fmap \<Rightarrow> fmap \<Rightarrow> fmap \<Rightarrow> bool" where
  "adopting fm changes effective \<longleftrightarrow> distinct (dkeys changes) \<and>
     (\<forall>k. dget effective k = dget (update_with fm changes) k) \<and>
     (\<forall>k. fhas changes k \<longrightarrow> fget fm k = PNone \<and> fget changes k \<noteq> PNone)"

definition full_values :: "fmap \<Rightarrow> bool" where
  "full_values d \<longleftrightarrow> (\<forall>k v. dget d k = Some v \<longrightarrow> v \<noteq> PNone)"

lemma adopting_set:
  assumes "adopting fm changes effective" and "v \<noteq> PNone" and "fget effective name = PNone"
  shows "adopting fm (dict_set changes name v) (dict_set effective name v)"
proof -
  have d: "distinct (dkeys changes)" using assms(1) by (simp add: adopting_def)
  have "fget fm name = PNone"
  proof -
    have "fget effective name = fget (update_with fm changes) name"
      using assms(1) by (intro fget_eqI) (simp add: adopting_def)
    with assms show ?thesis by (auto simp: fget_update_with [OF d] adopting_def split: if_splits)
  qed
  with assms d show ?thesis
    by (auto simp: adopting_def dget_update_with split: option.splits)
qed

lemma required_keys_cong:
  assumes "\<And>k. dget a k = dget b k"
  shows "required_keys sc a = required_keys sc b"
proof -
  have f: "fget a k = fget b k" for k
    using assms by (rule fget_eqI)
  have "requires_now kd a = requires_now kd b" for kd
    by (simp add: requires_now_def f split: option.split)
  then show ?thesis
    by (simp add: required_keys_def date_satisfied_by_time_def f)
qed

text \<open>What is still open among the defined names; a round that adds a key shrinks it.\<close>

definition open_names :: "schema \<Rightarrow> fmap \<Rightarrow> str set" where
  "open_names sc d = {k \<in> set (map kd_name (sc_keys sc)). fget d k = PNone}"

lemma finite_open_names [simp]: "finite (open_names sc d)"
  by (simp add: open_names_def)

lemma adoption_fold:
  assumes "adopting fm changes effective" and "full_values available"
    and "foldl (adoption_key available needed) (changes, effective, b) names = (changes', effective', b')"
    and "set names \<subseteq> set (map kd_name (sc_keys sc))"
  shows "adopting fm changes' effective' \<and> open_names sc effective' \<subseteq> open_names sc effective \<and>
     (b' \<longrightarrow> b \<or> open_names sc effective' \<subset> open_names sc effective) \<and> (b \<longrightarrow> b') \<and>
     (\<not> b' \<longrightarrow> changes' = changes \<and> effective' = effective \<and>
        list_all (\<lambda>n. n \<notin> set needed \<or> fget effective n \<noteq> PNone \<or> \<not> fhas available n) names)"
  using assms(1,3,4)
proof (induction names arbitrary: changes effective b)
  case (Cons n names)
  show ?case
  proof (cases "n \<notin> set needed \<or> fget effective n \<noteq> PNone \<or> \<not> fhas available n")
    case True
    then have "adoption_key available needed (changes, effective, b) n = (changes, effective, b)"
      by (auto simp: adoption_key_def)
    with Cons True show ?thesis by auto
  next
    case False
    define v where "v = fget available n"
    have v: "v \<noteq> PNone"
      using False assms(2) by (auto simp: v_def full_values_def fhas_def fget_def)
    have "adoption_key available needed (changes, effective, b) n =
        (dict_set changes n v, dict_set effective n v, True)"
      using False by (auto simp: adoption_key_def v_def)
    with Cons.prems(2) have f: "foldl (adoption_key available needed)
        (dict_set changes n v, dict_set effective n v, True) names = (changes', effective', b')"
      by simp
    have a: "adopting fm (dict_set changes n v) (dict_set effective n v)"
      using Cons.prems(1) v False by (intro adopting_set) auto
    have "n \<in> open_names sc effective" "n \<notin> open_names sc (dict_set effective n v)"
      "open_names sc (dict_set effective n v) \<subseteq> open_names sc effective"
      using False v Cons.prems(3) by (auto simp: open_names_def)
    with Cons.IH [OF a f] Cons.prems(3) show ?thesis
      by auto
  qed
qed simp

lemma adoption_round_cases:
  assumes "adopting fm changes effective" and "full_values available"
    and "adoption_round sc available changes effective = (changes', effective', b')"
  shows "adopting fm changes' effective' \<and>
     (b' \<longrightarrow> card (open_names sc effective') < card (open_names sc effective)) \<and>
     (\<not> b' \<longrightarrow> changes' = changes \<and> effective' = effective \<and>
        list_all (\<lambda>n. n \<notin> set (required_keys sc effective) \<or> fget effective n \<noteq> PNone \<or> \<not> fhas available n)
          (map kd_name (sc_keys sc)))"
  using adoption_fold [OF assms(1,2) assms(3) [unfolded adoption_round_def], of sc]
  by (auto intro: psubset_card_mono)

text \<open>Nothing required and at hand is left open.\<close>

definition unfilled :: "schema \<Rightarrow> fmap \<Rightarrow> fmap \<Rightarrow> str list" where
  "unfilled sc available fm = filter (\<lambda>k. fget fm k = PNone \<and> fhas available k) (required_keys sc fm)"

lemma adoption_loop_fills:
  assumes "adopting fm changes effective" and "full_values available"
  shows "\<exists>c. adoption_loop sc available changes effective = Some c \<and> distinct (dkeys c) \<and>
     (\<forall>k. fhas c k \<longrightarrow> fget fm k = PNone \<and> fget c k \<noteq> PNone) \<and> (\<forall>k. fhas changes k \<longrightarrow> fhas c k) \<and>
     unfilled sc available (update_with fm c) = []"
  using assms(1)
proof (induction "card (open_names sc effective)" arbitrary: changes effective rule: less_induct)
  case less
  obtain changes' effective' b' where r: "adoption_round sc available changes effective = (changes', effective', b')"
    by (cases "adoption_round sc available changes effective") auto
  note c = adoption_round_cases [OF less.prems assms(2) r]
  show ?case
  proof (cases b')
    case True
    then have "adoption_loop sc available changes effective = adoption_loop sc available changes' effective'"
      by (simp add: adoption_loop.simps [of sc available changes] r)
    moreover have "fhas changes k \<Longrightarrow> fhas changes' k" for k
    proof -
      have "fhas changes k \<Longrightarrow> fhas (fst (foldl (adoption_key available needed) (changes, e, b) names)) k"
        for needed e b names
        by (induction names arbitrary: changes e b) (auto simp: adoption_key_def)
      from this [of "required_keys sc effective" effective False "map kd_name (sc_keys sc)"] r
      show "fhas changes k \<Longrightarrow> fhas changes' k" by (simp add: adoption_round_def)
    qed
    ultimately show ?thesis
      using less.hyps [of effective' changes'] c True by auto
  next
    case False
    then have l: "adoption_loop sc available changes effective = Some changes"
      using c by (simp add: adoption_loop.simps [of sc available changes] r)
    have e: "\<And>k. dget effective k = dget (update_with fm changes) k"
      using less.prems by (simp add: adopting_def)
    then have "fget effective = fget (update_with fm changes)"
      by (auto simp: fun_eq_iff intro: fget_eqI)
    moreover note required_keys_cong [OF e, of sc]
    moreover have "set (required_keys sc effective) \<subseteq> set (map kd_name (sc_keys sc))"
      by (auto simp: required_keys_def)
    ultimately have "unfilled sc available (update_with fm changes) = []"
      using c False by (auto simp: unfilled_def filter_empty_conv list_all_iff)
    with l less.prems show ?thesis
      by (auto simp: adopting_def)
  qed
qed

lemma full_values_set: "full_values d \<Longrightarrow> v \<noteq> PNone \<Longrightarrow> full_values (dict_set d k v)"
  by (auto simp: full_values_def)

lemma full_values_defaults: "full_values (defaults sc)"
proof -
  have "full_values out \<Longrightarrow> full_values (foldl (\<lambda>out kd. if default_val kd \<noteq> PNone
      then dict_set out (kd_name kd) (default_val kd) else out) out kds)" for out kds
    by (induction kds arbitrary: out) (auto intro: full_values_set)
  moreover have "full_values []" by (simp add: full_values_def)
  ultimately show ?thesis
    by (simp only: defaults_def)
qed

lemma full_available: "full_values (adoption_available sc now note_id)"
  using full_values_defaults by (auto simp: adoption_available_def Let_def intro!: full_values_set)

lemma adopting_start: "adopting fm (adoption_start fm sc now i) (update_with fm (adoption_start fm sc now i))"
  by (auto simp: adopting_def adoption_start_def Let_def fhas_def fget_def split: if_splits option.splits)

text \<open>C33. Adoption settles whatever the schema asks: the loop ends, it gives a value only to keys the file
  leaves absent or blank, the identity is among them when the file carries none, and no key the schema
  then requires is left open when a default for it is at hand.\<close>

theorem adoption_fills:
  "\<exists>c. adoption_changes fm sc now i = Some c \<and>
     list_all (\<lambda>k. fget fm k = PNone \<and> fget c k \<noteq> PNone) (dkeys c) \<and>
     fget (update_with fm c) (role sc ''id_key'') \<noteq> PNone \<and>
     unfilled sc (adoption_available sc now i) (update_with fm c) = []"
proof -
  define start where "start = adoption_start fm sc now i"
  from adoption_loop_fills [OF adopting_start [of fm sc now i] full_available [of sc now i], of sc]
  obtain c where c: "adoption_changes fm sc now i = Some c" "distinct (dkeys c)"
    "\<forall>k. fhas c k \<longrightarrow> fget fm k = PNone \<and> fget c k \<noteq> PNone" "\<forall>k. fhas start k \<longrightarrow> fhas c k"
    "unfilled sc (adoption_available sc now i) (update_with fm c) = []"
    by (auto simp: adoption_changes_def start_def Let_def)
  have "fget fm (role sc ''id_key'') = PNone \<Longrightarrow> fhas start (role sc ''id_key'')"
    by (auto simp: start_def adoption_start_def Let_def fhas_def)
  with c have "fget (update_with fm c) (role sc ''id_key'') \<noteq> PNone"
    by (auto simp: fget_update_with)
  moreover have "list_all (\<lambda>k. fget fm k = PNone \<and> fget c k \<noteq> PNone) (dkeys c)"
    using c(3) by (auto simp: list_all_iff fhas_def dget_None_iff)
  ultimately show ?thesis
    using c(1,5) by blast
qed

section \<open>The mirrored frontmatter\<close>

text \<open>A JSON value the mirror's columns take: no date, no NUL, and of other objects only floats.\<close>

fun json_plain :: "objects \<Rightarrow> pyval \<Rightarrow> bool"
  and json_plain_list :: "objects \<Rightarrow> pyval list \<Rightarrow> bool"
  and json_plain_items :: "objects \<Rightarrow> (str \<times> pyval) list \<Rightarrow> bool" where
  "json_plain ob (PMap d) = (json_plain_items ob d \<and> distinct (dkeys d))"
| "json_plain ob (PList vs) = json_plain_list ob vs"
| "json_plain ob (PDate d) = False"
| "json_plain ob (PDateTime d t us z) = False"
| "json_plain ob (PStr s) = (0 \<notin> set s)"
| "json_plain ob (POther n) = is_float ob n"
| "json_plain ob v = True"
| "json_plain_list ob [] = True"
| "json_plain_list ob (v # vs) = (json_plain ob v \<and> json_plain_list ob vs)"
| "json_plain_items ob [] = True"
| "json_plain_items ob (p # d) = (0 \<notin> set (fst p) \<and> json_plain ob (snd p) \<and> json_plain_items ob d)"

lemma storable_plain [simp]: "0 \<notin> set (storable s)"
  by (simp add: storable_def)

lemma storable_id: "0 \<notin> set s \<Longrightarrow> storable s = s"
  unfolding storable_def by (rule filter_True) (metis)

lemma pad_plain [simp]: "0 \<notin> set (pad k n)"
  by (induction k n rule: pad.induct) auto

lemma date_text_plain [simp]: "0 \<notin> set (date_iso d)" "0 \<notin> set (datetime_text d t us z)"
  by (auto simp: date_iso_def datetime_text_def datetime_iso_def time_iso_def offset_text_def U_def Let_def
      split: zone.splits if_splits)

lemma json_plain_items_set:
  "json_plain_items ob d \<Longrightarrow> 0 \<notin> set k \<Longrightarrow> json_plain ob v \<Longrightarrow> json_plain_items ob (dict_set d k v)"
  by (induction d k v rule: dict_set.induct) auto

lemma json_forms_plain:
  "json_plain ob (jsonable ob v)"
  "json_plain_list ob (json_list ob vs)"
  "json_plain_items ob out \<and> distinct (dkeys out) \<Longrightarrow>
     json_plain_items ob (json_items ob d out) \<and> distinct (dkeys (json_items ob d out))"
proof (induction ob v and ob vs and ob d out rule: jsonable_json_list_json_items.induct)
qed (auto simp: json_plain_items_set)

lemma json_plain_fixed:
  "json_plain ob v \<Longrightarrow> jsonable ob v = v"
  "json_plain_list ob vs \<Longrightarrow> json_list ob vs = vs"
  "json_plain_items ob d \<Longrightarrow> distinct (dkeys (out @ d)) \<Longrightarrow> json_items ob d out = out @ d"
proof (induction ob v and ob vs and ob d out rule: jsonable_json_list_json_items.induct)
  case (11 ob p d out)
  have "dict_set out (fst p) (snd p) = out @ [p]"
    using 11(4) by (induction out) auto
  with 11 show ?case by (simp add: storable_id)
qed (auto simp: storable_id)

lemma jsonable_idem: "jsonable ob (jsonable ob v) = jsonable ob v"
  by (rule json_plain_fixed) (rule json_forms_plain)

text \<open>What a PostgreSQL JSON column and its driver take: no date, and of texts and keys only those that hold no NUL and
  that UTF-8 can encode (a lone surrogate cannot be sent), and of other objects only finite floats.\<close>

fun db_takes :: "objects \<Rightarrow> pyval \<Rightarrow> bool"
  and db_takes_list :: "objects \<Rightarrow> pyval list \<Rightarrow> bool"
  and db_takes_items :: "objects \<Rightarrow> (str \<times> pyval) list \<Rightarrow> bool" where
  "db_takes ob (PMap d) = db_takes_items ob d"
| "db_takes ob (PList vs) = db_takes_list ob vs"
| "db_takes ob (PDate d) = False"
| "db_takes ob (PDateTime d t us z) = False"
| "db_takes ob (PStr s) = (0 \<notin> set s \<and> encode s \<noteq> None)"
| "db_takes ob (POther n) = (is_float ob n \<and> is_finite ob n)"
| "db_takes ob v = True"
| "db_takes_list ob [] = True"
| "db_takes_list ob (v # vs) = (db_takes ob v \<and> db_takes_list ob vs)"
| "db_takes_items ob [] = True"
| "db_takes_items ob (p # d) = (0 \<notin> set (fst p) \<and> encode (fst p) \<noteq> None \<and> db_takes ob (snd p) \<and> db_takes_items ob d)"

lemma plain_takes:
  "json_plain ob v \<Longrightarrow> db_takes ob v \<longleftrightarrow> \<not> unstorable ob v"
  "json_plain_list ob vs \<Longrightarrow> db_takes_list ob vs \<longleftrightarrow> \<not> unstorable_list ob vs"
  "json_plain_items ob d \<Longrightarrow> db_takes_items ob d \<longleftrightarrow> \<not> unstorable_items ob d"
  by (induction ob v and ob vs and ob d rule: unstorable_unstorable_list_unstorable_items.induct) auto

lemma jsonable_plain_map: "json_plain ob (PMap (json_map ob fm))"
  using json_forms_plain(3) [of ob "[]" fm] by (simp add: json_map_def)

text \<open>C39. The check adoption makes before it rewrites a file is exact for the frontmatter column: whatever the file
  holds (dates, sets, NUL characters, lone surrogates, floats), what \<open>_jsonable\<close> makes of it is an object in which
  no key comes twice, and the JSON column takes it if and only if \<open>_unstorable\<close> finds nothing in it.  A NUL is
  taken out before; a lone surrogate and a float that is not finite are what is still refused.  The other columns
  of the row are not in question here: \<open>nul_reaches_a_column\<close> below shows that one of them is not covered.\<close>

theorem mirror_check_is_exact:
  "distinct (dkeys (json_map ob fm)) \<and> (db_takes ob (PMap (json_map ob fm)) \<longleftrightarrow> \<not> unstorable ob (PMap (json_map ob fm)))"
  using plain_takes(1) [OF jsonable_plain_map [of ob fm]] jsonable_plain_map [of ob fm] by simp

text \<open>The identifiers of the artifacts go to a column of their own as the file holds them: a NUL in one of
  them is not in what \<open>_unstorable\<close> looks at.\<close>

lemma nul_reaches_a_column:
  "0 \<in> set (mc_artifact_ids (mirror_columns ob [(optional_role sc ''artifacts_key'', PList [PStr [97, 0]])] sc) ! 0) \<and>
   \<not> unstorable ob (PMap (json_map ob [(U ''k'', PList [PStr [97, 0]])]))"
  by (simp add: mirror_columns_def str_items_def fget_def json_map_def storable_def U_def encode_def scalar_def)

lemma json_items_map:
  "distinct (dkeys (out @ d)) \<Longrightarrow> list_all (\<lambda>k. 0 \<notin> set k) (dkeys d) \<Longrightarrow>
     json_items ob d out = out @ map (\<lambda>(k, v). (k, jsonable ob v)) d"
proof (induction d arbitrary: out)
  case (Cons p d)
  have "dict_set out (fst p) v = out @ [(fst p, v)]" for v
    using Cons.prems(1) by (induction out) auto
  with Cons show ?case by (cases p) (simp add: storable_id)
qed simp

lemma json_map_plain_keys:
  "distinct (dkeys d) \<Longrightarrow> list_all (\<lambda>k. 0 \<notin> set k) (dkeys d) \<Longrightarrow>
     json_map ob d = map (\<lambda>(k, v). (k, jsonable ob v)) d"
  using json_items_map [of "[]" d ob] by (simp add: json_map_def)

lemma dget_json_map:
  assumes "distinct (dkeys d)" and "list_all (\<lambda>k. 0 \<notin> set k) (dkeys d)"
  shows "dget (json_map ob d) k = map_option (jsonable ob) (dget d k)"
  unfolding json_map_plain_keys [OF assms] by (induction d) auto

lemma dget_with_kinds: "dget (with_kinds sc d) k = map_option (with_kind sc k) (dget d k)"
  unfolding with_kinds_def by (induction d) auto

lemma dget_known:
  "dget (foldl (\<lambda>out kd. if fget vals (kd_name kd) \<noteq> PNone then dict_set out (kd_name kd) (fget vals (kd_name kd)) else out) out kds) k =
     (if k \<in> kd_name ` set kds \<and> fget vals k \<noteq> PNone then Some (fget vals k) else dget out k)"
  by (induction kds arbitrary: out) auto

lemma dget_unknown:
  "dget (foldl (\<lambda>out p. if fst p \<notin> K then dict_set out (fst p) (snd p) else out) out d) k =
     (if k \<in> K then dget out k else case dget (rev d) k of None \<Rightarrow> dget out k | Some v \<Rightarrow> Some v)"
  by (induction d rule: rev_induct) (auto split: option.splits)

lemma dget_rev: "distinct (dkeys d) \<Longrightarrow> dget (rev d) k = dget d k"
  by (rule fun_cong, subst map_of_inject_set) (simp_all flip: rev_map)

lemma dkeys_with_kinds: "dkeys (with_kinds sc d) = dkeys d"
  by (induction d) (auto simp: with_kinds_def)

lemma dget_ordered:
  assumes "distinct (dkeys d)"
  shows "dget (ordered sc d) k =
     (case dget d k of None \<Rightarrow> None
      | Some v \<Rightarrow> if k \<in> set (map kd_name (sc_keys sc)) \<and> with_kind sc k v = PNone then None else Some (with_kind sc k v))"
proof -
  have r: "dget (rev (with_kinds sc d)) k = dget (with_kinds sc d) k"
    using assms by (intro dget_rev) (simp only: dkeys_with_kinds)
  show ?thesis
    unfolding ordered_def Let_def dget_unknown r dget_known
    by (auto simp: dget_with_kinds fget_def split: option.splits)
qed

lemma dget_keeping:
  "dget (keeping_types ob fm current) k =
     (case dget fm k of None \<Rightarrow> None
      | Some v \<Rightarrow> Some (case dget current k of Some w \<Rightarrow> if jsonable ob v = jsonable ob w then w else v | None \<Rightarrow> v))"
  by (induction fm) (auto simp: keeping_types_def split: option.splits)

lemma pad_numeral: "pad (numeral n) m = pad (pred_numeral n) (m div 10) @ [48 + m mod 10]"
  by (subst numeral_eq_Suc) (rule pad.simps)

section \<open>The identity a write carries\<close>

lemma fget_ordered:
  assumes "key \<in> set (map kd_name (sc_keys sc))" and "with_kind sc key v = v" and "fget vals key = v" and "v \<noteq> PNone"
    and "distinct (dkeys vals)"
  shows "fget (ordered sc vals) key = v"
proof -
  let ?vs = "with_kinds sc vals"
  have vs: "fget ?vs key = v"
  proof -
    have "dget ?vs key = map_option (with_kind sc key) (dget vals key)"
      unfolding with_kinds_def by (induction vals) auto
    moreover have "dget vals key = Some v"
      using assms(3,4) by (auto simp: fget_def split: option.splits)
    ultimately show ?thesis using assms(2) by (simp add: fget_def)
  qed
  define step where "step = (\<lambda>out (kd :: key_def). if fget ?vs (kd_name kd) \<noteq> PNone
      then dict_set out (kd_name kd) (fget ?vs (kd_name kd)) else out)"
  have once: "fget out key = v \<Longrightarrow> fget (foldl step out kds) key = v" for out kds
    by (rule foldl_inv) (use vs in \<open>auto simp: step_def\<close>)
  have known: "key \<in> kd_name ` set kds \<Longrightarrow> fget (foldl step out kds) key = v" for out kds
  proof (induction kds arbitrary: out)
    case (Cons kd kds)
    show ?case
    proof (cases "key = kd_name kd")
      case True
      with vs assms(4) have "fget (step out kd) key = v" by (simp add: step_def)
      then show ?thesis by (simp add: once)
    next
      case False
      with Cons show ?thesis by auto
    qed
  qed simp
  have rest: "fget out key = v \<Longrightarrow> fget (foldl (\<lambda>out p. if fst p \<notin> set (map kd_name (sc_keys sc))
      then dict_set out (fst p) (snd p) else out) out ps) key = v" for out ps
    using assms(1) by (elim foldl_inv) auto
  show ?thesis
    unfolding ordered_def Let_def
    by (rule rest, rule known [unfolded step_def]) (use assms(1) in simp)
qed

text \<open>The identity key is one the schema defines, and neither its dates nor its tags.\<close>

definition id_key_plain :: "schema \<Rightarrow> bool" where
  "id_key_plain sc \<longleftrightarrow> role sc ''id_key'' \<in> set (map kd_name (sc_keys sc)) \<and>
     kind_of sc (role sc ''id_key'') \<noteq> Some KDate \<and> role sc ''id_key'' \<noteq> role sc ''tags_key''"

lemma fget_ordered_id:
  "id_key_plain sc \<Longrightarrow> distinct (dkeys vals) \<Longrightarrow> fget vals (role sc ''id_key'') = PStr i \<Longrightarrow>
     fget (ordered sc vals) (role sc ''id_key'') = PStr i"
  by (rule fget_ordered) (auto simp: id_key_plain_def with_kind_def)

lemma distinct_update_with: "distinct (dkeys d) \<Longrightarrow> distinct (dkeys (update_with d e))"
  unfolding update_with_def by (rule foldl_inv) auto

lemma distinct_defaults: "distinct (dkeys (defaults sc))"
  unfolding defaults_def by (rule foldl_inv) auto

lemma build_frontmatter_last:
  "\<exists>d. distinct (dkeys d) \<and> build_frontmatter ob request sc now captured from_ingest i =
     ordered sc (let d' = dict_set d (role sc ''id_key'') (PStr i)
       in if fhas d' (role sc ''schema_version_key'') then d' else dict_set d' (role sc ''schema_version_key'') (PInt 1))"
  unfolding build_frontmatter_def Let_def
  by (rule exI, rule conjI [rotated], rule refl)
    (simp add: distinct_update_with distinct_defaults split: if_split)

text \<open>Every whole document the store writes carries the identifier the store gave the note, whatever
  the caller sent under that key: a created note its new one, a replaced note the one it had.\<close>

theorem written_identity:
  assumes "id_key_plain sc" and "role sc ''schema_version_key'' \<noteq> role sc ''id_key''" and "distinct (dkeys request)"
  shows "fget (build_frontmatter ob request sc now captured from_ingest i) (role sc ''id_key'') = PStr i \<and>
     (case replacement_frontmatter ob request sc i of Inl e \<Rightarrow> e = IdChanged (role sc ''id_key'')
      | Inr fm \<Rightarrow> fget fm (role sc ''id_key'') = PStr i)"
proof
  show "fget (build_frontmatter ob request sc now captured from_ingest i) (role sc ''id_key'') = PStr i"
    using build_frontmatter_last [of ob request sc now captured from_ingest i] assms(1,2)
    by (auto simp: Let_def intro!: fget_ordered_id)
  show "case replacement_frontmatter ob request sc i of Inl e \<Rightarrow> e = IdChanged (role sc ''id_key'')
      | Inr fm \<Rightarrow> fget fm (role sc ''id_key'') = PStr i"
    using assms by (auto simp: replacement_frontmatter_def Let_def intro!: fget_ordered_id split: sum.splits)
qed

text \<open>A schema with an identity, a tags and a version key, for the examples.\<close>

definition small_schema :: schema where
  "small_schema = \<lparr>schema_version = 1,
     sc_keys = [(key_def0 (U ''id''))\<lparr>required := True\<rparr>, (key_def0 (U ''tags''))\<lparr>kd_kind := KList\<rparr>,
       (key_def0 (U ''v''))\<lparr>kd_kind := KInt\<rparr>],
     roles = [(U ''id_key'', U ''id''), (U ''date_key'', U ''date''), (U ''type_key'', U ''type''),
       (U ''context_key'', U ''context''), (U ''account_key'', U ''account''), (U ''reviewed_key'', U ''reviewed''),
       (U ''sources_key'', U ''sources''), (U ''tags_key'', U ''tags''), (U ''schema_version_key'', U ''v'')],
     tags = [], tag_aliases = [], sc_tag_mode = TagsOpen\<rparr>"

lemma small_roles:
  "role small_schema ''id_key'' = U ''id''" "role small_schema ''tags_key'' = U ''tags''"
  "role small_schema ''schema_version_key'' = U ''v''"
  by (simp_all add: small_schema_def role_def role_opt_def)

lemma small_id_plain: "id_key_plain small_schema"
  by (simp add: id_key_plain_def small_roles) (simp add: small_schema_def kind_of_def key_def0_def)

definition plain_objects :: objects where
  "plain_objects = \<lparr>is_float = (\<lambda>n. False), is_finite = (\<lambda>n. True), py_str = (\<lambda>v. [])\<rparr>"

theorem written_identity_witness:
  "replacement_frontmatter plain_objects [(U ''id'', PStr (U ''b''))] small_schema (U ''a'') = Inl (IdChanged (U ''id'')) \<and>
   fget (build_frontmatter plain_objects [(U ''id'', PStr (U ''b''))] small_schema (Date 2026 4 1, Time 9 0 0) None False (U ''a''))
     (U ''id'') = PStr (U ''a'')"
  using written_identity [OF small_id_plain, of "[(U ''id'', PStr (U ''b''))]" plain_objects "(Date 2026 4 1, Time 9 0 0)" None False "U ''a''"]
  by (simp add: small_roles replacement_frontmatter_def fget_def)

section \<open>A document that is sent back\<close>

text \<open>C34. A document that is read (its frontmatter as the JSON the reader gets) and sent back as it is, with every key
  the schema puts right on a replacement put right and then matched with the file: a key the file holds keeps the file's own
  value, a date staying the date though the reader saw its text, unless putting it right gives another JSON value (a
  date not in its canonical form, a tag that is an alias), which is then written; a key the schema defines whose value is null
  is left out; no other key appears.  The frontmatter is a dictionary whose keys and whose identifier hold
  no NUL, and its identity key holds the identifier of the note.\<close>

theorem sent_back_keeps_values:
  assumes "replacement_frontmatter ob (json_map ob current) sc note_id = Inr sent"
    and "distinct (dkeys current)" and "list_all (\<lambda>k. 0 \<notin> set k) (dkeys current)"
    and "fget current (role sc ''id_key'') = PStr note_id" and "0 \<notin> set note_id"
  shows "dget (keeping_types ob sent current) k =
     (case dget current k of None \<Rightarrow> None
      | Some w \<Rightarrow>
          let v = with_kind sc k (jsonable ob w)
          in if v = PNone \<and> k \<in> set (map kd_name (sc_keys sc)) then None
             else Some (if jsonable ob v = jsonable ob w then w else v))"
proof -
  have id: "dget (json_map ob current) (role sc ''id_key'') = Some (PStr note_id)"
    using assms(4,5) by (auto simp: dget_json_map [OF assms(2,3)] fget_def storable_id split: option.splits)
  have "dict_set d i v = d" if "dget d i = Some v" "distinct (dkeys d)" for d :: fmap and i v
    using that by (induction d) (auto split: if_splits)
  moreover have d: "distinct (dkeys (json_map ob current))" using jsonable_plain_map by simp
  ultimately have "dict_set (json_map ob current) (role sc ''id_key'') (PStr note_id) = json_map ob current" using id by blast
  with assms(1) have "sent = ordered sc (json_map ob current)"
    by (auto simp: replacement_frontmatter_def Let_def split: if_splits)
  then show ?thesis
    by (auto simp: dget_keeping dget_ordered [OF d] dget_json_map [OF assms(2,3)] Let_def split: option.splits)
qed

theorem sent_back_keeps_values_witness:
  "case replacement_frontmatter plain_objects (json_map plain_objects [(U ''id'', PStr (U ''A'')), (U ''due'', PDate (Date 2026 4 1))]) small_schema (U ''A'') of
     Inl e \<Rightarrow> False
   | Inr sent \<Rightarrow> dget (keeping_types plain_objects sent [(U ''id'', PStr (U ''A'')), (U ''due'', PDate (Date 2026 4 1))]) (U ''due'')
       = Some (PDate (Date 2026 4 1))"
proof -
  let ?c = "[(U ''id'', PStr (U ''A'')), (U ''due'', PDate (Date 2026 4 1))]"
  have c: "distinct (dkeys ?c)" "list_all (\<lambda>k. 0 \<notin> set k) (dkeys ?c)" "0 \<notin> set (U ''A'')" by (simp_all add: U_def)
  have g: "fget ?c (role small_schema ''id_key'') = PStr (U ''A'')" by (simp add: small_roles fget_def)
  have j: "dget (json_map plain_objects ?c) (U ''id'') = Some (PStr (U ''A''))"
    unfolding dget_json_map [OF c(1,2)] by (simp add: storable_id [OF c(3)])
  then obtain sent where s: "replacement_frontmatter plain_objects (json_map plain_objects ?c) small_schema (U ''A'') = Inr sent"
    by (auto simp: replacement_frontmatter_def small_roles fget_def Let_def)
  have "with_kind small_schema (U ''due'') v = v" for v
    by (simp add: with_kind_def kind_of_def small_roles) (simp add: small_schema_def key_def0_def)
  then have "dget (keeping_types plain_objects sent ?c) (U ''due'') = Some (PDate (Date 2026 4 1))"
    using sent_back_keeps_values [OF s c(1,2) g c(3), of "U ''due''"] by (simp add: Let_def storable_id)
  with s show ?thesis by simp
qed

end
