(* ===== verification/NoteRename.thy ===== *)
theory NoteRename
  imports NoteMetaLaws Contract
begin

text \<open>
  Renaming a note's heading in its text (\<open>_renamed_bytes\<close>): for a block closed by its own line and a
  heading line ended by a line feed the rename changes that line alone and the block stays as it is;
  two examples show what happens otherwise.
\<close>

section \<open>Titles\<close>

lemma words_from_chars: "\<lbrakk>list_all (\<lambda>c. \<not> py_space c) w; x \<in> set (words_from w s); c \<in> set x\<rbrakk> \<Longrightarrow>
    \<not> py_space c \<and> (c \<in> set w \<or> c \<in> set s)"
proof (induction s arbitrary: w)
  case Nil
  then show ?case by (auto simp: list_all_iff split: if_splits)
next
  case (Cons a s)
  show ?case
  proof (cases "py_space a")
    case True
    with Cons show ?thesis
      by (cases "w = []") (force simp: list_all_iff)+
  next
    case False
    with Cons.IH [of "w @ [a]"] Cons.prems show ?thesis by auto
  qed
qed

lemma words_from_nonempty: "x \<in> set (words_from w s) \<Longrightarrow> x \<noteq> []"
  by (induction s arbitrary: w) (auto split: if_splits)

lemma join_space_chars: "c \<in> set (join [32] xs) \<Longrightarrow> c = 32 \<or> (\<exists>x \<in> set xs. c \<in> set x)"
proof (induction xs)
  case (Cons x xs)
  then show ?case by (cases xs) auto
qed simp

lemma join_space_ends:
  "xs \<noteq> [] \<Longrightarrow> \<forall>x \<in> set xs. x \<noteq> [] \<and> (\<forall>c \<in> set x. \<not> py_space c) \<Longrightarrow>
     join [32] xs \<noteq> [] \<and> \<not> py_space (hd (join [32] xs)) \<and> \<not> py_space (last (join [32] xs))"
proof (induction xs)
  case (Cons x xs)
  have x: "x \<noteq> []" "\<not> py_space (hd x)" "\<not> py_space (last x)"
    using Cons.prems(2) by auto
  show ?case
    using Cons x by (cases "xs = []") (simp_all add: join_Cons)
qed simp

lemma rename_title_plain:
  assumes "rename_title raw = Inr title" and "title \<noteq> []"
  shows "unbroken title" "strip title = title" "storable title = title"
proof -
  have t: "title = join [32] (words raw)" "0 \<notin> set raw"
    using assms(1) by (auto simp: rename_title_def collapse_title_def U_def list_ex_iff split: if_splits)
  have w: "\<forall>x \<in> set (words raw). x \<noteq> [] \<and> (\<forall>c \<in> set x. \<not> py_space c \<and> c \<in> set raw)"
    using words_from_chars [of "[]" _ raw] words_from_nonempty [of _ "[]" raw] by (auto simp: words_def)
  have chars: "c \<in> set title \<Longrightarrow> c = 32 \<or> \<not> py_space c \<and> c \<in> set raw" for c
    using w by (auto simp: t(1) dest!: join_space_chars)
  show "unbroken title"
    using chars by (fastforce simp: unbroken_def list_all_iff line_break_def py_space_def)
  have "words raw \<noteq> []"
    using assms(2) by (auto simp: t(1))
  then have "\<not> py_space (hd title)" "\<not> py_space (last title)"
    using join_space_ends [of "words raw"] w by (auto simp: t(1))
  then show "strip title = title"
    unfolding strip_def by (intro strip_by_id) (simp add: trimmed_by_def)
  show "storable title = title"
    using chars t(2) by (intro storable_id) (metis zero_neq_numeral)
qed

section \<open>The heading\<close>

text \<open>The first heading line ends in a line feed, or ends the text.\<close>

fun heading_ends_plain :: "str list \<Rightarrow> bool" where
  "heading_ends_plain [] = True"
| "heading_ends_plain (l # ls) =
     (if startswith l (U ''# '') then drop_end l @ line_ending l = l \<and> (line_ending l = [] \<longrightarrow> ls = [])
      else heading_ends_plain ls)"

lemma retitle_lines_split:
  "retitle_lines title ls = Some ls' \<Longrightarrow> \<exists>pre l post. ls = pre @ l # post \<and> startswith l (U ''# '') \<and>
     list_all (\<lambda>l. \<not> startswith l (U ''# '')) pre \<and> ls' = pre @ (U ''# '' @ title @ line_ending l) # post"
proof (induction ls arbitrary: ls')
  case (Cons a ls)
  show ?case
  proof (cases "startswith a (U ''# '')")
    case True
    with Cons.prems show ?thesis by (intro exI [of _ "[]"] exI [of _ a] exI [of _ ls]) simp
  next
    case False
    with Cons obtain ls2 pre l post where "ls' = a # ls2" "ls = pre @ l # post" "startswith l (U ''# '')"
      "list_all (\<lambda>l. \<not> startswith l (U ''# '')) pre" "ls2 = pre @ (U ''# '' @ title @ line_ending l) # post"
      by (auto split: option.splits)
    with False show ?thesis by (intro exI [of _ "a # pre"] exI [of _ l] exI [of _ post]) simp
  qed
qed simp

lemma retitle_lines_None: "retitle_lines title ls = None \<Longrightarrow> list_all (\<lambda>l. \<not> startswith l (U ''# '')) ls"
  by (induction ls) (auto split: if_splits option.splits)

lemma heading_ends_split:
  "heading_ends_plain (pre @ l # post) \<Longrightarrow> list_all (\<lambda>l. \<not> startswith l (U ''# '')) pre \<Longrightarrow>
     startswith l (U ''# '') \<Longrightarrow> drop_end l @ line_ending l = l \<and> (line_ending l = [] \<longrightarrow> post = [])"
  by (induction pre) auto

lemma startswith_mark: "startswith l (U ''# '') \<longleftrightarrow> (\<exists>t. l = 35 # 32 # t)"
  by (auto simp: startswith_iff U_def)

lemma drop_end_prefix: "\<exists>e. l = drop_end l @ e"
proof (cases "endswith l [13, 10]")
  case True
  then show ?thesis
    by (intro exI [of _ "drop (length l - 2) l"]) (simp add: drop_end_def)
next
  case False
  then show ?thesis
    by (cases "l \<noteq> [] \<and> line_break (last l)")
      (auto simp: drop_end_def intro: exI [of _ "[last l]"] append_butlast_last_id [symmetric])
qed

lemma drop_end_mark: "\<not> startswith l (U ''# '') \<Longrightarrow> \<not> startswith (drop_end l) (U ''# '')"
  using drop_end_prefix [of l] by (auto simp: startswith_iff)

lemma first_heading_skip:
  "list_all (\<lambda>l. \<not> startswith l (U ''# '')) pre \<Longrightarrow> first_heading (pre @ ls) = first_heading ls"
  by (induction pre) auto

lemma line_ending_cases: "line_ending l \<in> {[13, 10], [10], []}"
  by (auto simp: line_ending_def newline_def)

lemma heading_line:
  assumes "unbroken title" and "e \<in> {[13, 10], [10]} \<or> e = [] \<and> rest = []"
  shows "splitlines_keep ((U ''# '' @ title @ e) @ rest) = (U ''# '' @ title @ e) # splitlines_keep rest"
    and "drop_end (U ''# '' @ title @ e) = U ''# '' @ title"
proof -
  have u: "unbroken (U ''# '' @ title)"
    using assms(1) by (simp add: unbroken_def U_def line_break_def)
  have single: "splitlines_keep m = [m]" if "unbroken m" "m \<noteq> []" for m
    using that
  proof (induction m)
    case (Cons c m)
    then show ?case by (cases "m = []") (auto simp: unbroken_def line_break_def)
  qed simp
  have crlf: "splitlines_keep (m @ 13 # 10 # r) = (m @ [13, 10]) # splitlines_keep r" if "unbroken m" for m r
    using that
  proof (induction m)
    case (Cons c m)
    then show ?case by (cases "splitlines_keep (m @ 13 # 10 # r)") (auto simp: unbroken_def line_break_def)
  qed (simp add: line_break_def)
  consider "e = [13, 10]" | "e = [10]" | "e = []" "rest = []"
    using assms(2) by auto
  then show "splitlines_keep ((U ''# '' @ title @ e) @ rest) = (U ''# '' @ title @ e) # splitlines_keep rest"
  proof cases
    case 1
    with crlf [OF u, of rest] show ?thesis by simp
  next
    case 2
    with splitlines_keep_line [OF u, of rest] show ?thesis by simp
  next
    case 3
    with single [OF u] show ?thesis by simp
  qed
  show "drop_end (U ''# '' @ title @ e) = U ''# '' @ title"
    using assms(2) drop_end_line [OF u] drop_end_kept [of "U ''# '' @ title"] u
  proof (elim disjE)
    assume "e \<in> {[13, 10], [10]}"
    then show ?thesis
      using drop_end_line [OF u] by (auto simp: drop_end_def endswith_iff)
  next
    assume "e = [] \<and> rest = []"
    moreover have "\<not> endswith (U ''# '' @ title) [13, 10]" "\<not> line_break (last (U ''# '' @ title))"
      using unbroken_no_crlf(1) [OF u] u by (auto simp: unbroken_def list_all_iff U_def line_break_def)
    ultimately show ?thesis by (simp add: drop_end_def)
  qed
qed

lemma keep_prefix:
  assumes "splitlines_keep s = pre @ l # post" and "hd l \<noteq> 10" and "r \<noteq> [] \<longrightarrow> hd r \<noteq> 10"
  shows "splitlines_keep (concat pre @ r) = pre @ splitlines_keep r"
  using splitlines_keep_pieces [OF assms(1,2)] splitlines_keep_append [of "concat pre" r] assms(3) by auto

lemma mark_hd: "startswith l (U ''# '') \<Longrightarrow> hd l = 35" "hd (U ''# '' @ t) = 35" "U ''# '' @ t \<noteq> []"
  by (auto simp: startswith_iff U_def)

text \<open>What a rename makes of a body: at most one line goes, the heading takes its place.\<close>

lemma retitled_form:
  assumes "heading_ends_plain (splitlines_keep body)" and "unbroken title"
  shows "\<exists>pre old e post. body = pre @ old @ post \<and> retitled_body title body = pre @ (U ''# '' @ title @ e) @ post \<and>
     (old \<in> set (splitlines_keep body) \<and> startswith old (U ''# '') \<or> old = [] \<and> pre = []) \<and>
     (pre = [] \<or> line_break (last pre)) \<and>
     first_heading (splitlines (retitled_body title body)) = Some (storable (strip title))"
proof (cases "retitle_lines title (splitlines_keep body)")
  case None
  have r: "retitled_body title body = (U ''# '' @ title @ [10]) @ 10 # body"
    using None by (simp add: retitled_body_def newline_def)
  have "splitlines_keep (retitled_body title body) = (U ''# '' @ title @ [10]) # splitlines_keep (10 # body)"
    unfolding r by (rule heading_line(1)) (simp_all add: assms(2))
  then have "first_heading (splitlines (retitled_body title body)) = Some (storable (strip title))"
    using heading_line(2) [OF assms(2), of "[10]"] by (simp add: splitlines_def)
  with r show ?thesis
    by (intro exI [of _ "[]"] exI [of _ "[10, 10]"] exI [of _ body]) simp
next
  case (Some ls)
  then obtain pre l post where s: "splitlines_keep body = pre @ l # post" "startswith l (U ''# '')"
      "list_all (\<lambda>l. \<not> startswith l (U ''# '')) pre" "ls = pre @ (U ''# '' @ title @ line_ending l) # post"
    using retitle_lines_split by blast
  have r: "retitled_body title body = concat pre @ (U ''# '' @ title @ line_ending l) @ concat post"
    using Some s(4) by (simp add: retitled_body_def)
  have ending: "line_ending l \<in> {[13, 10], [10]} \<or> line_ending l = [] \<and> concat post = []"
    using heading_ends_split [of pre l post] assms(1) s line_ending_cases [of l] by auto
  have b: "body = concat pre @ l @ concat post"
    using concat_splitlines_keep [of body] s(1) by simp
  have "splitlines_keep (retitled_body title body) =
      pre @ (U ''# '' @ title @ line_ending l) # splitlines_keep (concat post)"
    using keep_prefix [OF s(1), of "(U ''# '' @ title @ line_ending l) @ concat post"] mark_hd [of l]
      heading_line(1) [OF assms(2) ending] s(2) by (simp add: r U_def)
  moreover have "list_all (\<lambda>l. \<not> startswith l (U ''# '')) (map drop_end pre)"
    using s(3) drop_end_mark by (auto simp: list_all_iff)
  ultimately have "first_heading (splitlines (retitled_body title body)) = Some (storable (strip title))"
    using heading_line(2) [OF assms(2) ending] by (simp add: splitlines_def first_heading_skip)
  moreover have "concat pre = [] \<or> line_break (last (concat pre))"
    using splitlines_keep_pieces(3) [OF s(1)] mark_hd(1) [OF s(2)] by simp
  ultimately show ?thesis
    using b r s(1,2) by (intro exI [of _ "concat pre"] exI [of _ l] exI [of _ "line_ending l"] exI [of _ "concat post"]) simp
qed

section \<open>The block\<close>

lemma opening_kept:
  assumes "pre = [] \<or> line_break (last pre)" and "pre = [] \<longrightarrow> r \<noteq> [] \<and> hd r = 35"
    and "split_parts (pre @ q) = Inr (block, body, None)"
  shows "split_parts (pre @ r) = Inr ([], pre @ r, None)"
proof -
  define opens where "opens = (\<lambda>s. startswith s DELIMITER \<and> (take 1 (drop (length DELIMITER) s) = [10] \<or> take 1 (drop (length DELIMITER) s) = [13]))"
  have closed: "\<not> opens s \<longleftrightarrow> split_parts s = Inr ([], s, None)" for s
    by (auto simp: split_parts_def opens_def Let_def split: option.splits)
  have q: "\<not> opens (pre @ q)"
    using assms(3) unfolding closed by (auto simp: split_parts_def Let_def split: if_splits option.splits)
  have "\<not> opens (pre @ r)"
  proof
    assume o: "opens (pre @ r)"
    then obtain t where t: "pre @ r = 45 # 45 # 45 # t"
      by (auto simp: opens_def startswith_iff DELIMITER_def U_def)
    have "take 1 t = [10] \<or> take 1 t = [13]"
      using o unfolding opens_def t by (simp add: DELIMITER_def)
    with t obtain c t' where f: "pre @ r = 45 # 45 # 45 # c # t'" "c = 10 \<or> c = 13"
      by (cases t) auto
    show False
    proof (cases "length pre < 4")
      case True
      with f assms(1,2) show False
        by (cases pre rule: rev_cases) (auto simp: append_eq_Cons_conv Cons_eq_append_conv line_break_def)
    next
      case False
      then have "take 4 (pre @ q) = [45, 45, 45, c]"
        using f by (cases pre; cases "tl pre"; cases "tl (tl pre)"; cases "tl (tl (tl pre))") auto
      then have "opens (pre @ q)"
        using f(2) by (cases "pre @ q"; cases "tl (pre @ q)"; cases "tl (tl (pre @ q))"; cases "tl (tl (tl (pre @ q)))")
          (auto simp: opens_def startswith_def DELIMITER_def U_def numeral_eq_Suc)
      with q show False by simp
    qed
  qed
  then show ?thesis by (simp add: closed)
qed

lemma closing_kept:
  assumes "find_closing_delimiter (z @ b) = Some k" and "k < length z" and "z \<noteq> []" and "last z = 10"
  shows "find_closing_delimiter (z @ b') = Some k"
proof -
  have split: "splitlines_keep (z @ w) = splitlines_keep z @ splitlines_keep w" for w
    using assms(3,4) by (intro splitlines_keep_append) (simp add: line_break_def)
  obtain pre l post where p: "splitlines_keep z @ splitlines_keep b = pre @ l # post" "k = length (concat pre)"
      "rstrip_by (\<lambda>c. c = 13 \<or> c = 10) l = DELIMITER"
      "list_all (\<lambda>l. rstrip_by (\<lambda>c. c = 13 \<or> c = 10) l \<noteq> DELIMITER) pre"
    using assms(1) closing_offset_Some unfolding find_closing_delimiter_def split by fastforce
  obtain mid where "splitlines_keep z = pre @ l # mid"
  proof -
    from p(1) obtain us where us: "splitlines_keep z = pre @ us \<and> us @ splitlines_keep b = l # post \<or>
        splitlines_keep z @ us = pre"
      unfolding append_eq_append_conv2 by blast
    have "splitlines_keep z @ us \<noteq> pre"
      using assms(2) by (auto simp: p(2))
    with us have z: "splitlines_keep z = pre @ us" "us @ splitlines_keep b = l # post"
      by auto
    have "us \<noteq> []"
    proof
      assume "us = []"
      with z(1) have "concat pre = z" by (metis append_Nil2 concat_splitlines_keep)
      with assms(2) show False by (simp add: p(2))
    qed
    with z show ?thesis
      using that by (cases us) auto
  qed
  then show ?thesis
    unfolding find_closing_delimiter_def split using closing_offset_first [OF p(4,3), of "mid @ splitlines_keep b'" 0]
    by (simp add: p(2))
qed

lemma renamed_block:
  assumes "readable_block text = Inr (block, body, Some (n, k))" and "body \<noteq> []"
  shows "\<exists>P. text = P @ body \<and> (\<forall>body'. split_text (P @ body') = Inr (block, body'))"
proof -
  from readable_block_form [OF assms(1)] obtain opened x where
    f: "opened = [10] \<or> opened = [13, 10]" "text = DELIMITER @ opened @ x"
       "find_closing_delimiter x = Some k" "block = take k x" "body = after_block (drop k x)"
    by blast
  define c where "c = takeWhile (\<lambda>a. a \<noteq> 10) (drop k x)"
  have t: "10 \<in> set (drop k x)" "body = tl (dropWhile (\<lambda>a. a \<noteq> 10) (drop k x))"
    using assms(2) f(5) by (auto simp: after_block_def split: if_splits)
  have "dropWhile (\<lambda>a. a \<noteq> 10) (drop k x) \<noteq> []" "hd (dropWhile (\<lambda>a. a \<noteq> 10) (drop k x)) = 10"
    using t(1) hd_dropWhile [of "\<lambda>a. a \<noteq> 10" "drop k x"] by (auto simp: dropWhile_eq_Nil_conv)
  then have "dropWhile (\<lambda>a. a \<noteq> 10) (drop k x) = 10 # body"
    using t(2) by (metis list.collapse)
  then have "drop k x = c @ 10 # body"
    unfolding c_def by (metis takeWhile_dropWhile_id)
  then have x: "x = (take k x @ c @ [10]) @ body"
    by (metis append.assoc append_Cons append_Nil append_take_drop_id)
  define z where "z = take k x @ c @ [10]"
  have k: "length (take k x) = k"
    using closing_bound [OF f(3)] by simp
  have "find_closing_delimiter (z @ body') = Some k" for body'
  proof (rule closing_kept [of z body])
    show "find_closing_delimiter (z @ body) = Some k"
      using f(3) x by (simp only: z_def)
    show "k < length z" using k by (simp add: z_def)
  qed (simp_all add: z_def)
  moreover have "take k (z @ body') = block" "drop k (z @ body') = c @ 10 # body'" for body'
    using k by (simp_all add: z_def f(4))
  moreover have "after_block (c @ 10 # body') = body'" for body'
  proof -
    have "10 \<notin> set c" unfolding c_def using set_takeWhileD by fastforce
    then have "dropWhile (\<lambda>a. a \<noteq> 10) (c @ 10 # body') = 10 # body'"
      by (subst dropWhile_append2) auto
    then show ?thesis by (simp add: after_block_def)
  qed
  ultimately have "split_text (DELIMITER @ opened @ z @ body') = Inr (block, body')" for body'
    using split_parts_opened [OF f(1), of "z @ body'"] by (simp add: split_text_def)
  moreover have "text = (DELIMITER @ opened @ z) @ body"
    using f(2) x by (simp add: z_def)
  ultimately show ?thesis
    by (intro exI [of _ "DELIMITER @ opened @ z"]) simp
qed

text \<open>A rename keeps the note: for a readable block whose closing line ends in a line feed, and a heading
  line that does too, the renamed text has the same frontmatter block, its title is the new one, and
  at most the old heading line is gone from the body.\<close>

theorem rename_changes_heading:
  assumes "readable_block text = Inr (block, body, brk)" and "body \<noteq> []"
    and "heading_ends_plain (splitlines_keep body)" and "rename_title raw = Inr title" and "title \<noteq> []"
  shows "\<exists>text' body'. renamed_text text title = Inr (text', body') \<and> split_text text' = Inr (block, body') \<and>
     title_of body' path = title \<and>
     (\<exists>pre old e post. body = pre @ old @ post \<and> body' = pre @ (U ''# '' @ title @ e) @ post \<and>
        old \<in> set ([] # splitlines_keep body))"
proof -
  note t = rename_title_plain [OF assms(4,5)]
  define body' where "body' = retitled_body title body"
  from retitled_form [OF assms(3) t(1)] obtain pre old e post where
    r: "body = pre @ old @ post" "body' = pre @ (U ''# '' @ title @ e) @ post"
       "old \<in> set (splitlines_keep body) \<and> startswith old (U ''# '') \<or> old = [] \<and> pre = []"
       "pre = [] \<or> line_break (last pre)"
       "first_heading (splitlines body') = Some (storable (strip title))"
    unfolding body'_def by blast
  have P: "\<exists>P. text = P @ body \<and> split_text (P @ body') = Inr (block, body')"
  proof (cases brk)
    case None
    then have sp: "split_parts text = Inr (block, body, None)"
      using assms(1) unfolding readable_block_def sbind_Inr_iff
      by (elim exE conjE) (auto simp: Let_def split: prod.splits option.splits if_splits)
    then have b: "block = []" "body = text"
      by (auto simp: split_parts_def Let_def split: if_splits option.splits)
    have "split_parts (pre @ (U ''# '' @ title @ e) @ post) = Inr ([], pre @ (U ''# '' @ title @ e) @ post, None)"
    proof (rule opening_kept)
      show "split_parts (pre @ old @ post) = Inr (block, body, None)"
        using sp b(2) r(1) by simp
    qed (use r(4) in \<open>simp_all add: U_def\<close>)
    with b r(2) show ?thesis
      by (intro exI [of _ "[]"]) (simp add: split_text_def)
  next
    case (Some nk)
    with renamed_block [of "text" block body "fst nk" "snd nk"] assms(1,2) show ?thesis by auto
  qed
  then obtain P where P: "text = P @ body" "split_text (P @ body') = Inr (block, body')" by blast
  have "split_text text = Inr (block, body)"
    using assms(1) by (auto simp: readable_block_def split_text_def sbind_Inr_iff Let_def split: option.splits if_splits)
  then have "renamed_text text title = Inr (P @ body', body')"
    by (simp add: renamed_text_def body'_def [symmetric] P(1) Let_def)
  moreover have "title_of body' path = title"
    using r(5) t by (simp add: title_of_def)
  ultimately show ?thesis
    using P(2) r(1,2,3) by auto
qed

theorem rename_changes_heading_witness:
  "\<exists>text' body'. renamed_text (U ''# Old'' @ [10]) (U ''New'') = Inr (text', body') \<and> title_of body' [] = U ''New''"
proof -
  have r: "readable_block (U ''# Old'' @ [10]) = Inr ([], U ''# Old'' @ [10], None)"
    by (simp add: readable_block_def split_parts_def startswith_def DELIMITER_def U_def)
  have h: "heading_ends_plain (splitlines_keep (U ''# Old'' @ [10]))"
    by (simp add: U_def line_break_def startswith_def drop_end_def line_ending_def endswith_def newline_def)
  have "rename_title (U ''New'') = Inr (U ''New'')"
    by (simp add: rename_title_def collapse_title_def words_def U_def py_space_def)
  from rename_changes_heading [OF r _ h this, of "[]"] show ?thesis
    by (metis U_eq_Nil_iff append_is_Nil_conv list.discI)
qed

text \<open>A heading line ended by a bare carriage return loses its ending: the next line joins the title.\<close>

lemma rename_joins_lines:
  "retitled_body (U ''New'') (U ''# Old'' @ [13] @ U ''text'') = U ''# Newtext''"
  by (simp add: retitled_body_def U_def line_break_def startswith_def line_ending_def endswith_def newline_def)

text \<open>A note that ends with its closing delimiter, without a line feed, is renamed into one whose block is
  never closed: the heading is put on the delimiter's line.\<close>

lemma rename_unterminates:
  "split_text (U ''---'' @ [10] @ U ''a: 1'' @ [10] @ U ''---'') = Inr (U ''a: 1'' @ [10], []) \<and>
   (\<exists>text'. renamed_text (U ''---'' @ [10] @ U ''a: 1'' @ [10] @ U ''---'') (U ''New'') = Inr (text', U ''# New'' @ [10, 10]) \<and>
      split_text text' = Inl UnterminatedBlock)"
proof -
  have s: "split_text (U ''---'' @ [10] @ U ''a: 1'' @ [10] @ U ''---'') = Inr (U ''a: 1'' @ [10], [])"
    by (simp add: split_text_def split_parts_def startswith_def DELIMITER_def U_def removeprefix_def lstrip_by_def
        find_closing_delimiter_def line_break_def rstrip_by_def)
  moreover have "renamed_text (U ''---'' @ [10] @ U ''a: 1'' @ [10] @ U ''---'') (U ''New'') =
      Inr ((U ''---'' @ [10] @ U ''a: 1'' @ [10] @ U ''---'') @ U ''# New'' @ [10, 10], U ''# New'' @ [10, 10])"
    unfolding renamed_text_def s by (simp add: retitled_body_def newline_def U_def Let_def)
  moreover have "split_text ((U ''---'' @ [10] @ U ''a: 1'' @ [10] @ U ''---'') @ U ''# New'' @ [10, 10]) = Inl UnterminatedBlock"
    by (simp add: split_text_def split_parts_def startswith_def DELIMITER_def U_def removeprefix_def lstrip_by_def
        find_closing_delimiter_def line_break_def rstrip_by_def)
  ultimately show ?thesis by blast
qed

end
