(* ===== verification/StoreState.thy ===== *)
theory StoreState
  imports NoteMeta
begin

text \<open>
  The records of the store's other parts: dossiers (\<open>coppermind/entities.py\<close>), purge receipts
  (\<open>coppermind/purge.py\<close>, \<open>coppermind_store/purge.py\<close>) and the mirrored artifact
  (\<open>coppermind/db/models.py\<close>), with what the store keeps of them in its state directory and
  in the database.  An instant is its number of microseconds.
\<close>

section \<open>Dossiers\<close>

datatype entity_kind = Person | Company

datatype fact_origin = FromMetadata | FromProse | FromCorrection

record evidence =
  ev_note :: "str option"
  ev_hash :: str
  ev_path :: str
  ev_date :: str
  ev_quote :: str
  ev_version :: str

text \<open>\<open>fc_lapsed\<close> is \<open>withdrawn_for == "evidence"\<close>.\<close>

record dossier_fact =
  fc_id :: str
  fc_predicate :: str
  fc_value :: str
  fc_target :: "str option"
  fc_confirmed :: bool
  fc_lapsed :: bool
  fc_evidence :: evidence
  fc_origin :: fact_origin
  fc_supersedes :: "str option"
  fc_created :: int

record entity =
  en_kind :: entity_kind
  en_name :: str
  en_aliases :: "str list"
  en_emails :: "str list"
  en_id :: str
  en_path :: str
  en_version :: int
  en_facts :: "dossier_fact list"
  en_retired :: "int option"
  en_redirect :: "str option"
  en_automatic :: bool
  en_generated :: "str option"
  en_pending :: "str option"
  en_personal :: bool
  en_problem :: "str option"

record ledger =
  lg_revision :: int
  lg_entities :: "(str, entity) dict"
  lg_receipts :: "fmap list"
  lg_suppressed :: "str list"

definition empty_ledger :: ledger where
  "empty_ledger = \<lparr>lg_revision = 0, lg_entities = [], lg_receipts = [], lg_suppressed = []\<rparr>"

section \<open>Purges\<close>

datatype purge_kind = NoteItem | SourceItem | ArtifactItem | EntityItem

datatype purge_area = NotesArea | SourcesArea | ArtifactsArea | StateArea

record purge_file =
  pf_area :: purge_area
  pf_path :: str
  pf_hash :: str

record purge_candidate =
  pc_kind :: purge_kind
  pc_id :: str
  pc_title :: str
  pc_path :: str
  pc_origins :: "str list"
  pc_providers :: "str list"
  pc_deleted :: "int option"
  pc_leftover :: bool
  pc_reason :: "str option"

record purge_item =
  pi_candidate :: purge_candidate
  pi_row :: "str option"
  pi_opening :: "str option"
  pi_files :: "purge_file list"
  pi_dirs :: "str list"

record purge_kept =
  pk_notes :: nat
  pk_sources :: nat
  pk_artifacts :: nat

datatype purge_state = Preview | Applying | Failed | Complete | Abandoned

record purge_receipt =
  pr_token :: str
  pr_state :: purge_state
  pr_created :: int
  pr_days :: int
  pr_items :: "purge_item list"
  pr_kept :: purge_kept
  pr_completed :: "str list"
  pr_remaining :: "str list"
  pr_failed :: bool

text \<open>Where a receipt's file is: at the root, in \<open>done/\<close>, in \<open>abandoned/\<close> or in \<open>quarantine/\<close>.\<close>

datatype receipt_place = AtRoot | InDone | InAbandoned | InQuarantine

record damaged_bundle =
  dg_source :: str
  dg_provider :: str
  dg_external :: str
  dg_cause :: str

text \<open>The problems the last scan found: damaged bundles, receipts that cannot be read, and what abandoned purges left.\<close>

record left_over =
  lo_token :: str
  lo_removed :: nat
  lo_ids :: "str list"
  lo_titles :: "(str \<times> str) list"

record purge_problems =
  pp_damaged :: "damaged_bundle list"
  pp_unreadable :: "str list"
  pp_abandoned :: "left_over list"

definition no_problems :: purge_problems where
  "no_problems = \<lparr>pp_damaged = [], pp_unreadable = [], pp_abandoned = []\<rparr>"

section \<open>Artifacts\<close>

record artifact_rec =
  af_title :: str
  af_origin :: str
  af_received :: int
  af_filename :: "str option"
  af_mime :: "str option"
  af_sha :: "str option"
  af_size :: int
  af_url :: "str option"
  af_tags :: "str list"
  af_path :: "str option"
  af_revision :: int
  af_source :: "str option"
  af_source_name :: "str option"
  af_text_status :: str
  af_extractor :: str
  af_state :: str
  af_created :: int
  af_updated :: int

section \<open>What the state directory and the database hold of them\<close>

text \<open>
  A JSON file that cannot be read, or holds no object, is \<open>None\<close>; one that is not there is no entry.
  \<open>fl_catalog\<close> is the catalog of dossiers once it was saved, \<open>fl_context\<close> the files of the context
  folder by their name without the suffix, \<open>fl_problems\<close> the recorded problems of purges.
\<close>

record store_files =
  fl_records :: "(str, fmap option) dict"
  fl_catalog :: "ledger option"
  fl_purges :: "(receipt_place \<times> str, purge_receipt option) dict"
  fl_problems :: "purge_problems option"
  fl_context :: "(str, fmap) dict"
  fl_unreadable :: "(str, str) dict"

definition no_files :: store_files where
  "no_files = \<lparr>fl_records = [], fl_catalog = None, fl_purges = [], fl_problems = None, fl_context = [], fl_unreadable = []\<rparr>"

record entity_row =
  er_kind :: entity_kind
  er_name :: str
  er_version :: int
  er_active :: bool
  er_record :: entity

record entry_doc =
  ed_path :: str
  ed_title :: str
  ed_body :: str
  ed_version :: str

text \<open>The declared-field index: its generations, and for each note and field the value or that it is invalid.\<close>

record field_generation =
  fg_definitions :: "(str \<times> key_kind \<times> str list) list"
  fg_active :: bool

record field_value =
  fv_generation :: str
  fv_note :: str
  fv_field :: str
  fv_value :: pyval
  fv_date :: "date option"
  fv_invalid :: bool

text \<open>The search entries beside those of the notes, by kind.\<close>

record more_tables =
  mt_artifacts :: "(str, artifact_rec) dict"
  mt_artifact_docs :: "(str, entry_doc) dict"
  mt_source_docs :: "(str, entry_doc) dict"
  mt_entities :: "(str, entity_row) dict"
  mt_entity_docs :: "(str, entry_doc) dict"
  mt_generations :: "(str, field_generation) dict"
  mt_values :: "field_value list"

definition no_tables :: more_tables where
  "no_tables = \<lparr>mt_artifacts = [], mt_artifact_docs = [], mt_source_docs = [], mt_entities = [], mt_entity_docs = [],
     mt_generations = [], mt_values = []\<rparr>"

end
