(* ===== verification/NoteWorld.thy ===== *)
theory NoteWorld
  imports NoteMetaLaws Contract StoreState
begin

text \<open>
  What the note operations of \<open>coppermind_store/notes.py\<close> act on, and the steps they act by.  The
  world is the notes disk (names, hard links to nodes, folders), the metadata mirror, the open
  transaction and the store's own files; an action takes the world to a result or an exception and
  a world.  Before every step the others act: the devices on the disk, other requests on the
  mirror (\<open>others\<close>); every step may fail (\<open>os_fault\<close>, \<open>db_fault_at\<close>).  A transaction gathers
  its statements and applies them at its commit, which may fail and still have landed (\<open>landed\<close>).
  How one staged write reaches the disk, call by call, is \<open>Atomicio\<close>; here it is one step.
\<close>

section \<open>Identifiers\<close>

text \<open>\<open>^[0-7][0-9A-HJKMNP-TV-Z]{25}$\<close>: a \<open>$\<close> also matches before a line feed that ends the text.\<close>

definition ulid_char :: "cpoint \<Rightarrow> bool" where
  "ulid_char c \<longleftrightarrow> c \<in> set (U ''0123456789ABCDEFGHJKMNPQRSTVWXYZ'')"

definition ulid_text :: "str \<Rightarrow> bool" where
  "ulid_text s \<longleftrightarrow> length s = 26 \<and> 48 \<le> hd s \<and> hd s \<le> 55 \<and> list_all ulid_char s"

definition is_valid_id :: "pyval \<Rightarrow> bool" where
  "is_valid_id v = (case v of PStr s \<Rightarrow> ulid_text s \<or> ulid_text (butlast s) \<and> last s = 10 | _ \<Rightarrow> False)"

section \<open>The disk\<close>

record node =
  n_bytes :: bytes
  n_mtime :: int

record fsys =
  d_names :: "(str \<times> nat) list"
  d_nodes :: "nat \<Rightarrow> node"
  d_fresh :: nat
  d_dirs :: "str list"

definition node_at :: "fsys \<Rightarrow> str \<Rightarrow> node option" where
  "node_at d p = map_option (d_nodes d) (map_of (d_names d) p)"

definition file_at :: "fsys \<Rightarrow> str \<Rightarrow> bytes option" where
  "file_at d p = map_option n_bytes (node_at d p)"

definition occupied_name :: "fsys \<Rightarrow> str \<Rightarrow> bool" where
  "occupied_name d p \<longleftrightarrow> map_of (d_names d) p \<noteq> None \<or> p \<in> set (d_dirs d)"

definition parent_of :: "str \<Rightarrow> str" where
  "parent_of p = join (U ''/'') (butlast (split_on 47 p))"

definition path_join :: "str \<Rightarrow> str \<Rightarrow> str" where
  "path_join folder name = (if folder = [] then name else folder @ U ''/'' @ name)"

text \<open>\<open>Path.suffix\<close>.\<close>

definition path_suffix :: "str \<Rightarrow> str" where
  "path_suffix p = drop (length (path_stem p)) (path_name p)"

definition without_name :: "str \<Rightarrow> fsys \<Rightarrow> fsys" where
  "without_name p d = d\<lparr>d_names := filter (\<lambda>q. fst q \<noteq> p) (d_names d)\<rparr>"

definition with_name :: "str \<Rightarrow> nat \<Rightarrow> fsys \<Rightarrow> fsys" where
  "with_name p i d = d\<lparr>d_names := (p, i) # filter (\<lambda>q. fst q \<noteq> p) (d_names d)\<rparr>"

definition with_file :: "str \<Rightarrow> bytes \<Rightarrow> int \<Rightarrow> fsys \<Rightarrow> fsys" where
  "with_file p data now d = with_name p (d_fresh d)
     (d\<lparr>d_nodes := (d_nodes d)(d_fresh d := \<lparr>n_bytes = data, n_mtime = now\<rparr>), d_fresh := Suc (d_fresh d)\<rparr>)"

section \<open>Exceptions\<close>

text \<open>\<open>Refused\<close> is a \<open>ValidationFailed\<close> whose messages are the given problems.\<close>

datatype refusal =
    FrontmatterRefused "problem list" "pyval list"
  | NoteRefused "note_problem list"
  | FolderEscapes str
  | FolderEmpty
  | TargetNotRelative
  | TargetEmpty
  | TargetReserved str
  | ArtifactsUnknown "str list"
  | ValueRejected

datatype db_fault = DataRejected | Away str | Cancelled

datatype exn =
    Typed store_error
  | Refused refusal
  | FileExists
  | FileMissing
  | OsError str
  | DbFailed db_fault
  | BadFrontmatter fm_error
  | PyFault
  | Diverges
  | Unencodable
  | IdentityStale

text \<open>\<open>PyFault\<close> is a \<open>TypeError\<close> or \<open>ValueError\<close> no operation catches; \<open>Diverges\<close> stands for a loop over
  names that never ends.  \<open>is_oserror\<close> is \<open>isinstance(exc, OSError)\<close>.\<close>

fun is_oserror :: "exn \<Rightarrow> bool" where
  "is_oserror FileExists = True"
| "is_oserror FileMissing = True"
| "is_oserror (OsError m) = True"
| "is_oserror e = False"

text \<open>\<open>_metadata_failure\<close>; a rejected value is a \<open>DBAPIError\<close> of class 22.\<close>

definition metadata_failure :: "(exn \<Rightarrow> str) \<Rightarrow> exn \<Rightarrow> exn option" where
  "metadata_failure text_of_exn e =
     (case e of
        DbFailed DataRejected \<Rightarrow> Some (Refused ValueRejected)
      | DbFailed (Away m) \<Rightarrow> Some (Typed (MetadataUnavailable m))
      | _ \<Rightarrow> if is_oserror e then Some (Typed (MetadataUnavailable (text_of_exn e))) else None)"

section \<open>Folders\<close>

text \<open>\<open>mkdir(parents=True, exist_ok=True)\<close> of the folder of \<open>p\<close>, which fails where a file stands in its way.\<close>

definition folders_of :: "str \<Rightarrow> str list" where
  "folders_of p = folder_prefixes (butlast (split_on 47 p))"

definition with_parents :: "str \<Rightarrow> fsys \<Rightarrow> exn + fsys" where
  "with_parents p d =
     (if map_of (d_names d) (parent_of p) \<noteq> None then Inl FileExists
      else if list_ex (\<lambda>f. map_of (d_names d) f \<noteq> None) (folders_of p) then Inl (OsError (U ''not a directory''))
      else Inr (d\<lparr>d_dirs := remdups (folders_of p @ d_dirs d)\<rparr>))"

text \<open>A new file of its own, where nothing is.\<close>

definition make_file :: "str \<Rightarrow> str \<Rightarrow> bytes \<Rightarrow> int \<Rightarrow> fsys \<Rightarrow> exn + unit \<times> fsys" where
  "make_file beside p data now d =
     sbind (with_parents beside d) (\<lambda>d. if occupied_name d p then Inl FileExists else Inr ((), with_file p data now d))"

section \<open>The mirror\<close>

record row =
  r_path :: str
  r_title :: "str option"
  r_hash :: str
  r_size :: nat
  r_mtime :: "int option"
  r_frontmatter :: fmap
  r_cols :: mirror_cols
  r_filed :: bool
  r_filed_sources :: "str list"
  r_state :: str
  r_reason :: "str option"
  r_first_seen :: int
  r_updated :: int

record search_doc =
  sd_path :: str
  sd_title :: str
  sd_body :: str
  sd_version :: str
  sd_indexed_at :: int

record outbox_event =
  oe_type :: str
  oe_note :: str
  oe_from :: str
  oe_path :: str
  oe_at :: int

text \<open>The tables of sources, and the recorded rejections: an identity, a reference and a reason.\<close>

record source_row =
  so_provider :: str
  so_external :: str
  so_type :: str
  so_origin :: str
  so_current :: int
  so_identity :: str
  so_created :: int
  so_updated :: int

record revision_row =
  rr_identity :: str
  rr_ingested :: int
  rr_captured :: "int option"
  rr_metadata :: pyval

record artifact_row =
  ar_mime :: str
  ar_sha :: str
  ar_size :: int

record source_tables =
  t_sources :: "(str \<times> source_row) list"
  t_revisions :: "((str \<times> int) \<times> revision_row) list"
  t_artifacts :: "((str \<times> int \<times> str) \<times> artifact_row) list"
  t_links :: "(str \<times> str) list"
  t_rejections :: "(str \<times> str \<times> str) list"

definition no_sources :: source_tables where
  "no_sources = \<lparr>t_sources = [], t_revisions = [], t_artifacts = [], t_links = [], t_rejections = []\<rparr>"

record db =
  db_rows :: "(str \<times> row) list"
  db_docs :: "(str \<times> search_doc) list"
  db_unreadable :: "str list"
  db_outbox :: "outbox_event list"
  db_src :: source_tables
  db_more :: more_tables

definition row_of :: "db \<Rightarrow> str \<Rightarrow> row option" where
  "row_of b i = map_of (db_rows b) i"

text \<open>\<open>Note.state.not_in(("missing", "deleted"))\<close>.\<close>

definition live_row :: "row \<Rightarrow> bool" where
  "live_row r \<longleftrightarrow> r_state r \<noteq> U ''missing'' \<and> r_state r \<noteq> U ''deleted''"

definition holder_of :: "str \<Rightarrow> db \<Rightarrow> str option" where
  "holder_of p b = map_option fst (find (\<lambda>(i, r). r_path r = p \<and> live_row r) (db_rows b))"

definition update_row :: "str \<Rightarrow> (row \<Rightarrow> row) \<Rightarrow> db \<Rightarrow> db" where
  "update_row i f b = b\<lparr>db_rows := map (\<lambda>(j, r). (j, if j = i then f r else r)) (db_rows b)\<rparr>"

definition insert_row :: "str \<Rightarrow> row \<Rightarrow> db \<Rightarrow> db" where
  "insert_row i r b = b\<lparr>db_rows := db_rows b @ [(i, r)]\<rparr>"

definition add_event :: "outbox_event \<Rightarrow> db \<Rightarrow> db" where
  "add_event e b = b\<lparr>db_outbox := db_outbox b @ [e]\<rparr>"

section \<open>The world and its actions\<close>

record receipt =
  rc_error :: "str option"
  rc_attempts :: nat

record review =
  rv_reviewed :: bool
  rv_sources :: "(str \<times> int option) list"

record world =
  w_disk :: fsys
  w_db :: db
  w_tx :: "(db \<Rightarrow> db) list"
  w_tick :: nat
  w_archive :: "(str, fmap option) dict"
  w_files :: store_files
  w_manifests :: "(str \<times> int) list"
  w_reviews :: "(str \<times> review) list"
  w_receipts :: "(str \<times> receipt option) list"
  w_notices :: "(str \<times> (str \<times> str)) list"
  w_rejections :: "(str \<times> str \<times> str) list"
  w_found :: "(str \<times> str list) list option"
  w_built :: int

record 'd site =
  st_uc :: unicode
  st_objects :: objects
  st_yaml :: "'d yaml_lib"
  st_reason :: "fm_error \<Rightarrow> str"
  st_os_text :: "exn \<Rightarrow> str"
  st_schema :: schema
  st_settings :: product_settings
  st_hash :: "bytes \<Rightarrow> str"
  st_local :: "int \<Rightarrow> date \<times> ptime"
  st_resolve :: "str \<Rightarrow> str option"
  st_temp :: "nat \<Rightarrow> str \<Rightarrow> str"
  st_new_id :: "nat \<Rightarrow> str"
  st_clock :: "nat \<Rightarrow> int"
  st_mono :: "nat \<Rightarrow> int"
  others :: "nat \<Rightarrow> fsys \<times> db \<Rightarrow> fsys \<times> db"
  os_fault :: "nat \<Rightarrow> str option"
  db_fault_at :: "nat \<Rightarrow> db_fault option"
  landed :: "nat \<Rightarrow> bool"

type_synonym 'a act = "world \<Rightarrow> (exn + 'a) \<times> world"

definition ret :: "'a \<Rightarrow> 'a act" where
  "ret x w = (Inr x, w)"

definition raise_exn :: "exn \<Rightarrow> 'a act" where
  "raise_exn e w = (Inl e, w)"

definition bnd :: "'a act \<Rightarrow> ('a \<Rightarrow> 'b act) \<Rightarrow> 'b act" where
  "bnd m f w = (case m w of (Inl e, w') \<Rightarrow> (Inl e, w') | (Inr x, w') \<Rightarrow> f x w')"

text \<open>\<open>try: m except ...: h\<close>, where \<open>h\<close> re-raises what it does not catch.\<close>

definition catching :: "'a act \<Rightarrow> (exn \<Rightarrow> 'a act) \<Rightarrow> 'a act" where
  "catching m h w = (case m w of (Inl e, w') \<Rightarrow> h e w' | r \<Rightarrow> r)"

text \<open>\<open>try: m finally: c\<close>.\<close>

definition finally_do :: "'a act \<Rightarrow> unit act \<Rightarrow> 'a act" where
  "finally_do m c w = (case m w of (r, w1) \<Rightarrow> (case c w1 of (Inl e, w2) \<Rightarrow> (Inl e, w2) | (Inr u, w2) \<Rightarrow> (r, w2)))"

definition demand :: "bool \<Rightarrow> exn \<Rightarrow> unit act" where
  "demand ok e = (if ok then ret () else raise_exn e)"

text \<open>The time of the next step.\<close>

definition now_at :: "'d site \<Rightarrow> int act" where
  "now_at s w = (Inr (st_clock s (w_tick w)), w)"

text \<open>A step: the others act, time passes.\<close>

definition tick :: "'d site \<Rightarrow> world \<Rightarrow> world" where
  "tick s w =
     (let (d, b) = others s (w_tick w) (w_disk w, w_db w)
      in w\<lparr>w_disk := d, w_db := b, w_tick := Suc (w_tick w)\<rparr>)"

definition disk_step :: "'d site \<Rightarrow> (int \<Rightarrow> fsys \<Rightarrow> exn + 'a \<times> fsys) \<Rightarrow> 'a act" where
  "disk_step s f w =
     (let w1 = tick s w
      in case os_fault s (w_tick w) of Some m \<Rightarrow> (Inl (OsError m), w1)
       | None \<Rightarrow> (case f (st_clock s (w_tick w)) (w_disk w1) of Inl e \<Rightarrow> (Inl e, w1)
           | Inr (x, d) \<Rightarrow> (Inr x, w1\<lparr>w_disk := d\<rparr>)))"

text \<open>A file of the store's own state directory, whose faults are the disk's.\<close>

definition own_step :: "'d site \<Rightarrow> (world \<Rightarrow> 'a \<times> world) \<Rightarrow> 'a act" where
  "own_step s f w =
     (let w1 = tick s w
      in case os_fault s (w_tick w) of Some m \<Rightarrow> (Inl (OsError m), w1)
       | None \<Rightarrow> (Inr (fst (f w1)), snd (f w1)))"

subsection \<open>Statements and transactions\<close>

definition view :: "world \<Rightarrow> db" where
  "view w = foldl (\<lambda>b f. f b) (w_db w) (w_tx w)"

definition query :: "'d site \<Rightarrow> (db \<Rightarrow> 'a) \<Rightarrow> 'a act" where
  "query s f w =
     (let w1 = tick s w
      in case db_fault_at s (w_tick w) of Some e \<Rightarrow> (Inl (DbFailed e), w1) | None \<Rightarrow> (Inr (f (view w1)), w1))"

definition execute_with :: "'d site \<Rightarrow> (db \<Rightarrow> 'a) \<Rightarrow> (db \<Rightarrow> db) \<Rightarrow> 'a act" where
  "execute_with s q f w =
     (let w1 = tick s w
      in case db_fault_at s (w_tick w) of Some e \<Rightarrow> (Inl (DbFailed e), w1)
       | None \<Rightarrow> (Inr (q (view w1)), w1\<lparr>w_tx := w_tx w1 @ [f]\<rparr>))"

definition execute :: "'d site \<Rightarrow> (db \<Rightarrow> db) \<Rightarrow> unit act" where
  "execute s f = execute_with s (\<lambda>b. ()) f"

definition commit :: "'d site \<Rightarrow> unit act" where
  "commit s w =
     (let w1 = tick s w; done = w1\<lparr>w_db := view w1, w_tx := []\<rparr>
      in case db_fault_at s (w_tick w) of
           Some e \<Rightarrow> (Inl (DbFailed e), if landed s (w_tick w) then done else w1\<lparr>w_tx := []\<rparr>)
         | None \<Rightarrow> (Inr (), done))"

text \<open>\<open>async with transaction(...)\<close>: commit on a clean exit, roll back on an exception.\<close>

definition finish :: "'d site \<Rightarrow> 'a act \<Rightarrow> 'a act" where
  "finish s m w =
     (case m w of
        (Inl e, w1) \<Rightarrow> (Inl e, w1\<lparr>w_tx := []\<rparr>)
      | (Inr x, w1) \<Rightarrow> bnd (commit s) (\<lambda>u. ret x) w1)"

definition begin_tx :: "unit act" where
  "begin_tx w = (Inr (), w\<lparr>w_tx := []\<rparr>)"

definition transaction :: "'d site \<Rightarrow> 'a act \<Rightarrow> 'a act" where
  "transaction s m = bnd begin_tx (\<lambda>u. finish s m)"

text \<open>\<open>except BaseException\<close> around a transaction: a database failure becomes its typed error.\<close>

definition typed_db :: "'d site \<Rightarrow> exn \<Rightarrow> 'a act" where
  "typed_db s e = (case metadata_failure (st_os_text s) e of Some t \<Rightarrow> raise_exn t | None \<Rightarrow> raise_exn e)"

text \<open>\<open>except (SQLAlchemyError, OSError)\<close> around a read; a cancellation is neither.\<close>

definition metadata_read :: "'d site \<Rightarrow> exn \<Rightarrow> 'a act" where
  "metadata_read s e =
     raise_exn (case e of DbFailed DataRejected \<Rightarrow> Typed (MetadataUnavailable (st_os_text s e))
       | DbFailed (Away m) \<Rightarrow> Typed (MetadataUnavailable m)
       | _ \<Rightarrow> if is_oserror e then Typed (MetadataUnavailable (st_os_text s e)) else e)"

section \<open>Steps on the disk\<close>

text \<open>\<open>except OSError as exc: raise NotesFilesystemUnavailable(str(exc))\<close>.\<close>

definition notes_unavailable :: "'d site \<Rightarrow> exn \<Rightarrow> exn" where
  "notes_unavailable s e = (if is_oserror e then Typed (NotesFilesystemUnavailable (st_os_text s e)) else e)"

definition stat_regular :: "'d site \<Rightarrow> str \<Rightarrow> bool act" where
  "stat_regular s p = disk_step s (\<lambda>now d. Inr (map_of (d_names d) p \<noteq> None, d))"

definition is_note_file :: "'d site \<Rightarrow> str \<Rightarrow> bool act" where
  "is_note_file s p = catching (stat_regular s p) (\<lambda>e. raise_exn (notes_unavailable s e))"

definition stems_in :: "str \<Rightarrow> fsys \<Rightarrow> str list" where
  "stems_in folder d = map (\<lambda>q. path_stem (fst q))
     (filter (\<lambda>q. parent_of (fst q) = folder \<and> path_suffix (fst q) = NOTE_SUFFIX) (d_names d))"

definition existing_stems :: "'d site \<Rightarrow> str \<Rightarrow> str list act" where
  "existing_stems s folder =
     catching (disk_step s (\<lambda>now d. Inr (stems_in folder d, d))) (\<lambda>e. raise_exn (notes_unavailable s e))"

definition lookup_file :: "str \<Rightarrow> (node \<Rightarrow> 'a) \<Rightarrow> int \<Rightarrow> fsys \<Rightarrow> exn + 'a \<times> fsys" where
  "lookup_file p f now d = (case node_at d p of None \<Rightarrow> Inl FileMissing | Some n \<Rightarrow> Inr (f n, d))"

text \<open>\<open>_read\<close>: the bytes, then the stat.\<close>

definition read_note :: "'d site \<Rightarrow> str \<Rightarrow> str \<Rightarrow> (bytes \<times> int) act" where
  "read_note s note_id p =
     catching (bnd (disk_step s (lookup_file p n_bytes)) (\<lambda>data.
               bnd (disk_step s (lookup_file p n_mtime)) (\<lambda>m. ret (data, m))))
       (\<lambda>e. raise_exn (if e = FileMissing then Typed (NotFoundNote note_id) else notes_unavailable s e))"

definition note_failure :: "str \<Rightarrow> parse_failure \<Rightarrow> exn" where
  "note_failure note_id e = (case e of NotThisNote \<Rightarrow> Typed (NotFoundNote note_id)
     | Unparsed r \<Rightarrow> Typed (NoteUnparseable note_id r))"

definition parse_at :: "'d site \<Rightarrow> str \<Rightarrow> bytes \<Rightarrow> (fmap \<times> str) act" where
  "parse_at s note_id data =
     (case parse_note (st_objects s) (st_yaml s) (st_reason s) note_id data (st_schema s) of
        Inl e \<Rightarrow> raise_exn (note_failure note_id e) | Inr r \<Rightarrow> ret r)"

definition bytes_at :: "'d site \<Rightarrow> str \<Rightarrow> str \<Rightarrow> str option \<Rightarrow> (bytes \<times> fmap \<times> int) act" where
  "bytes_at s note_id p if_match =
     bnd (read_note s note_id p) (\<lambda>(current, m).
     bnd (parse_at s note_id current) (\<lambda>(fm, body).
     (case if_match of
        Some etag \<Rightarrow> if st_hash s current \<noteq> etag then raise_exn (Typed (VersionConflict (st_hash s current)))
                     else ret (current, fm, m)
      | None \<Rightarrow> ret (current, fm, m))))"

definition unlink_name :: "str \<Rightarrow> int \<Rightarrow> fsys \<Rightarrow> exn + unit \<times> fsys" where
  "unlink_name p now d = (case map_of (d_names d) p of None \<Rightarrow> Inl FileMissing | Some i \<Rightarrow> Inr ((), without_name p d))"

definition unlink :: "'d site \<Rightarrow> str \<Rightarrow> unit act" where
  "unlink s p = disk_step s (unlink_name p)"

definition unlink_missing_ok :: "'d site \<Rightarrow> str \<Rightarrow> unit act" where
  "unlink_missing_ok s p = disk_step s (\<lambda>now d. Inr ((), without_name p d))"

text \<open>\<open>stage_bytes\<close>: complete bytes under a name \<open>mkstemp\<close> found free beside \<open>p\<close>.\<close>

definition stage :: "'d site \<Rightarrow> str \<Rightarrow> bytes \<Rightarrow> str act" where
  "stage s p data =
     bnd (\<lambda>w. (Inr (st_temp s (w_tick w) p), w)) (\<lambda>tmp.
     bnd (disk_step s (make_file p tmp data)) (\<lambda>u. ret tmp))"

definition rename_name :: "str \<Rightarrow> str \<Rightarrow> int \<Rightarrow> fsys \<Rightarrow> exn + unit \<times> fsys" where
  "rename_name a b now d =
     (case map_of (d_names d) a of None \<Rightarrow> Inl FileMissing
      | Some i \<Rightarrow> if b \<in> set (d_dirs d) then Inl (OsError (U ''is a directory''))
                  else Inr ((), with_name b i (without_name a d)))"

definition link_name :: "str \<Rightarrow> str \<Rightarrow> int \<Rightarrow> fsys \<Rightarrow> exn + unit \<times> fsys" where
  "link_name a b now d =
     (case map_of (d_names d) a of None \<Rightarrow> Inl FileMissing
      | Some i \<Rightarrow> if occupied_name d b then Inl FileExists else Inr ((), with_name b i d))"

text \<open>Flushing a folder changes nothing a reader sees.\<close>

definition sync_folder :: "'d site \<Rightarrow> str \<Rightarrow> unit act" where
  "sync_folder s p = disk_step s (\<lambda>now d. Inr ((), d))"

definition replace_temp :: "'d site \<Rightarrow> str \<Rightarrow> str \<Rightarrow> unit act" where
  "replace_temp s tmp p =
     catching (disk_step s (rename_name tmp p))
       (\<lambda>e. bnd (unlink_missing_ok s tmp) (\<lambda>u. raise_exn e))"

definition commit_temp :: "'d site \<Rightarrow> str \<Rightarrow> str \<Rightarrow> unit act" where
  "commit_temp s tmp p = bnd (replace_temp s tmp p) (\<lambda>u. sync_folder s p)"

text \<open>\<open>_replace_if_unchanged\<close>.\<close>

definition replace_if_unchanged :: "'d site \<Rightarrow> str \<Rightarrow> str \<Rightarrow> bytes \<Rightarrow> str \<Rightarrow> unit act" where
  "replace_if_unchanged s note_id p data if_match =
     bnd (catching (stage s p data) (\<lambda>e. raise_exn (notes_unavailable s e))) (\<lambda>tmp.
     catching (bnd (bytes_at s note_id p (Some if_match)) (\<lambda>r. commit_temp s tmp p))
       (\<lambda>e. bnd (unlink_missing_ok s tmp) (\<lambda>u. raise_exn (notes_unavailable s e))))"

text \<open>\<open>os.path.lexists\<close>, which answers no when it cannot look.\<close>

definition lexists :: "'d site \<Rightarrow> str \<Rightarrow> bool act" where
  "lexists s p = catching (disk_step s (\<lambda>now d. Inr (occupied_name d p, d))) (\<lambda>e. ret False)"

text \<open>\<open>_move_file\<close>: \<open>retire\<close> is the old name when \<open>source\<close> is staged bytes.\<close>

definition move_file :: "'d site \<Rightarrow> str \<Rightarrow> str \<Rightarrow> str option \<Rightarrow> unit act" where
  "move_file s source target_path retire =
     (let original = (case retire of Some p \<Rightarrow> p | None \<Rightarrow> source)
      in bnd (disk_step s (\<lambda>now d. sbind (with_parents target_path d) (\<lambda>d. Inr ((), d)))) (\<lambda>u.
         bnd (disk_step s (link_name source target_path)) (\<lambda>u.
         catching
           (bnd (sync_folder s target_path) (\<lambda>u.
            bnd (unlink s original) (\<lambda>u.
            bnd (if retire \<noteq> None then unlink_missing_ok s source else ret ()) (\<lambda>u.
            sync_folder s original))))
           (\<lambda>e. bnd (lexists s original) (\<lambda>here.
                bnd (if here then unlink_missing_ok s target_path else ret ()) (\<lambda>u. raise_exn e))))))"

text \<open>\<open>_rename_file\<close>.\<close>

definition rename_file :: "'d site \<Rightarrow> str \<Rightarrow> str \<Rightarrow> str \<Rightarrow> bytes \<Rightarrow> str \<Rightarrow> unit act" where
  "rename_file s note_id p new_path data if_match =
     bnd (catching (stage s new_path data) (\<lambda>e. raise_exn (notes_unavailable s e))) (\<lambda>tmp.
     finally_do
       (catching (bnd (bytes_at s note_id p (Some if_match)) (\<lambda>r. move_file s tmp new_path (Some p)))
          (\<lambda>e. raise_exn (if e = FileExists then Typed (PathCollision new_path) else notes_unavailable s e)))
       (unlink_missing_ok s tmp))"

end
