(* ===== verification/Exclusions.thy ===== *)
theory Exclusions
  imports NoteWorld
begin

text \<open>
  The rules that keep a file out of adoption (\<open>coppermind_store/reconciler.py\<close>): folders, name
  patterns and plugin markers, with the glob matching of Python's \<open>fnmatch\<close>, and the identity a
  file's bytes carry (\<open>note_history.py\<close>).
\<close>

section \<open>Glob patterns\<close>

text \<open>The items of a bracket, \<open>a-c\<close> a range and everything else itself.\<close>

fun in_items :: "cpoint \<Rightarrow> str \<Rightarrow> bool" where
  "in_items c [] = False"
| "in_items c (a # r) =
     (case r of h # b # r' \<Rightarrow> if h = 45 then a \<le> c \<and> c \<le> b \<or> in_items c r' else c = a \<or> in_items c r
      | _ \<Rightarrow> c = a \<or> in_items c r)"

text \<open>The items up to the closing bracket, which may itself stand first, and what follows.\<close>

fun upto_bracket :: "str \<Rightarrow> (str \<times> str) option" where
  "upto_bracket [] = None"
| "upto_bracket (c # r) = (if c = 93 then Some ([], r) else map_option (\<lambda>(a, b). (c # a, b)) (upto_bracket r))"

definition bracket :: "str \<Rightarrow> (bool \<times> str \<times> str) option" where
  "bracket p =
     (let (negated, q) = (case p of c # r \<Rightarrow> if c = 33 then (True, r) else (False, p) | [] \<Rightarrow> (False, p))
      in case q of
           c # r \<Rightarrow> if c = 93 then map_option (\<lambda>(a, b). (negated, 93 # a, b)) (upto_bracket r)
                    else map_option (\<lambda>(a, b). (negated, a, b)) (upto_bracket q)
         | [] \<Rightarrow> None)"

lemma upto_bracket_shorter: "upto_bracket p = Some (a, b) \<Longrightarrow> length b < length p"
  by (induction p arbitrary: a) (auto split: if_splits)

lemma bracket_shorter: "bracket p = Some (n, a, b) \<Longrightarrow> length b < length p"
  by (force simp: bracket_def dest: upto_bracket_shorter split: list.splits if_splits)

function glob :: "str \<Rightarrow> str \<Rightarrow> bool" where
  "glob [] s \<longleftrightarrow> s = []"
| "glob (c # p) s \<longleftrightarrow>
     (if c = 42 then (if glob p s then True else if s = [] then False else glob (c # p) (tl s))
      else if s = [] then False
      else if c = 63 then glob p (tl s)
      else case (if c = 91 then bracket p else None) of
        Some (negated, its, rest) \<Rightarrow> (if in_items (hd s) its = negated then False else glob rest (tl s))
      | None \<Rightarrow> (if hd s = c then glob p (tl s) else False))"
  by pat_completeness auto
termination
  by (relation "measure (\<lambda>(p, s). length p + length s)") (auto dest!: bracket_shorter split: if_splits)

section \<open>Rules\<close>

definition IGNORED_DIRECTORIES :: "str list" where
  "IGNORED_DIRECTORIES = [U ''.git'', U ''.obsidian'', U ''.trash'']"

definition path_exclusion :: "str \<Rightarrow> str list \<Rightarrow> str list \<Rightarrow> str option" where
  "path_exclusion p folders patterns =
     (case find (\<lambda>folder. let parts = split_on 47 (rstrip_by (\<lambda>c. c = 47) folder)
                          in take (length parts) (split_on 47 p) = parts) folders of
        Some folder \<Rightarrow> Some (U ''folder: '' @ rstrip_by (\<lambda>c. c = 47) folder @ U ''/'')
      | None \<Rightarrow> (case find (\<lambda>pat. glob pat (if 47 \<in> set pat then p else path_name p)) patterns of
          Some pat \<Rightarrow> Some (U ''pattern: '' @ pat) | None \<Rightarrow> None))"

definition frontmatter_exclusion :: "'d yaml_lib \<Rightarrow> bytes \<Rightarrow> str option" where
  "frontmatter_exclusion y data =
     (case decode data of None \<Rightarrow> None | Some text \<Rightarrow>
      (case parse_text y text of Inl e \<Rightarrow> None
       | Inr (fm, body) \<Rightarrow>
          (case find (\<lambda>marker. fhas fm marker) [U ''excalidraw-plugin'', U ''kanban-plugin''] of
             Some marker \<Rightarrow> Some (U ''frontmatter: '' @ marker) | None \<Rightarrow> None)))"

definition identity_of :: "'d yaml_lib \<Rightarrow> bytes \<Rightarrow> str \<Rightarrow> str option" where
  "identity_of y data key =
     (case decode data of None \<Rightarrow> None | Some text \<Rightarrow>
      (case parse_text y text of Inl e \<Rightarrow> None
       | Inr (fm, body) \<Rightarrow> (case fget fm key of PStr v \<Rightarrow> if is_valid_id (PStr v) then Some v else None | _ \<Rightarrow> None)))"

text \<open>A pattern without a slash is tried on the name, wherever the file lies.\<close>

lemma glob_examples:
  "path_exclusion (U ''Work/a draft.md'') [] [U ''*draft*''] = Some (U ''pattern: *draft*'')"
  "path_exclusion (U ''Work/a.md'') [U ''Work/''] [] = Some (U ''folder: Work/'')"
  "path_exclusion (U ''Working/a.md'') [U ''Work''] [U ''[!a-c].md''] = None"
  by (simp_all add: path_exclusion_def path_name_def U_def rstrip_by_def bracket_def)

end
