(* ===== verification/NoteOps.thy ===== *)
theory NoteOps
  imports Exclusions
begin

text \<open>
  The note operations of \<open>coppermind_store/notes.py\<close> over the world of \<open>NoteWorld\<close>: locating a note
  by its row or by its identity, reading, creating, replacing, patching, moving, renaming and
  adopting.  Each holds the note's lock, so the only interference is that of devices and of requests
  on other notes.  A path names a file below the notes root.
\<close>

text \<open>The field problems and the tag problems of a frontmatter, refused together.\<close>

definition demand_valid :: "problem list \<Rightarrow> tag_outcome \<Rightarrow> unit act" where
  "demand_valid bad t = (case t of TagTypeError \<Rightarrow> raise_exn PyFault
     | TagProblems ts \<Rightarrow> demand (bad = [] \<and> ts = []) (Refused (FrontmatterRefused bad ts)))"

definition encoded :: "str \<Rightarrow> bytes act" where
  "encoded t = (case encode t of None \<Rightarrow> raise_exn Unencodable | Some d \<Rightarrow> ret d)"

section \<open>The identity index\<close>

text \<open>\<open>_IdentityIndex\<close>: a map from identities to the paths that carry them, with the time it was
  built.  Times are microseconds.\<close>

definition MISS_WINDOW :: int where
  "MISS_WINDOW = 5000000"

primrec filter_files :: "'d site \<Rightarrow> str list \<Rightarrow> str list act" where
  "filter_files s [] = ret []"
| "filter_files s (p # ps) =
     bnd (is_note_file s p) (\<lambda>yes. bnd (filter_files s ps) (\<lambda>r. ret (if yes then p # r else r)))"

definition scan_interval :: "'d site \<Rightarrow> int" where
  "scan_interval s = rs_scan_interval_s (ps_reconcile (st_settings s)) * 1000000"

definition index_lookup :: "'d site \<Rightarrow> str \<Rightarrow> str list option act" where
  "index_lookup s note_id w =
     (case w_found w of
        None \<Rightarrow> (Inr None, w)
      | Some found \<Rightarrow>
          (let age = st_mono s (w_tick w) - w_built w
           in bnd (filter_files s (case map_of found note_id of Some ps \<Rightarrow> ps | None \<Rightarrow> [])) (\<lambda>live_paths.
              ret (if live_paths \<noteq> [] \<and> age \<le> scan_interval s then Some live_paths
                   else if MISS_WINDOW < age then None else Some live_paths)) w))"

definition index_fresh :: "'d site \<Rightarrow> world \<Rightarrow> bool" where
  "index_fresh s w \<longleftrightarrow> w_found w \<noteq> None \<and> st_mono s (w_tick w) - w_built w \<le> MISS_WINDOW"

definition index_moved :: "str \<Rightarrow> str \<Rightarrow> unit act" where
  "index_moved note_id p w =
     (Inr (), w\<lparr>w_found := map_option (\<lambda>found. (note_id, [p]) # filter (\<lambda>q. fst q \<noteq> note_id) found) (w_found w)\<rparr>)"

text \<open>What \<open>_scan_identities\<close> takes from one file of the walk.\<close>

definition scanned_identity :: "'d site \<Rightarrow> fsys \<Rightarrow> str \<Rightarrow> (str \<times> str) option" where
  "scanned_identity s d p =
     (let rs = ps_reconcile (st_settings s)
      in if path_suffix p \<noteq> NOTE_SUFFIX \<or> list_ex (\<lambda>part. part \<in> set IGNORED_DIRECTORIES) (split_on 47 p)
            \<or> path_exclusion p (rs_excluded_folders rs) (rs_excluded_patterns rs) \<noteq> None
         then None
         else (case st_resolve s p of None \<Rightarrow> None
           | Some safe \<Rightarrow> (case file_at d safe of None \<Rightarrow> None
             | Some data \<Rightarrow> map_option (\<lambda>i. (i, safe))
                 (identity_of (st_yaml s) data (role (st_schema s) ''id_key'')))))"

definition add_found :: "(str \<times> str list) list \<Rightarrow> str \<times> str \<Rightarrow> (str \<times> str list) list" where
  "add_found found p = dict_set found (fst p) ((case map_of found (fst p) of Some ps \<Rightarrow> ps | None \<Rightarrow> []) @ [snd p])"

definition scan_identities :: "'d site \<Rightarrow> fsys \<Rightarrow> (str \<times> str list) list" where
  "scan_identities s d = foldl add_found [] (List.map_filter (scanned_identity s d) (map fst (d_names d)))"

text \<open>\<open>refresh\<close>, asked for at the time it starts.\<close>

definition index_refresh :: "'d site \<Rightarrow> unit act" where
  "index_refresh s w =
     (let requested = st_mono s (w_tick w)
      in if requested \<le> w_built w then (Inr (), w)
         else (case disk_step s (\<lambda>now d. Inr (scan_identities s d, d)) w of
             (Inl e, w1) \<Rightarrow> (Inl (notes_unavailable s e), w1)
           | (Inr found, w1) \<Rightarrow> (Inr (), w1\<lparr>w_found := Some found, w_built := requested\<rparr>)))"

definition followed :: "'d site \<Rightarrow> str \<Rightarrow> bool \<Rightarrow> str list act" where
  "followed s note_id inl =
     bnd (index_lookup s note_id) (\<lambda>m. case m of
       Some ps \<Rightarrow> ret ps
     | None \<Rightarrow> if \<not> inl then raise_exn IdentityStale
               else bnd (index_refresh s) (\<lambda>u. bnd (index_lookup s note_id) (\<lambda>m2.
                 ret (case m2 of Some ps \<Rightarrow> ps | None \<Rightarrow> []))))"

section \<open>Locating a note\<close>

definition record_path_notice :: "'d site \<Rightarrow> str \<Rightarrow> str \<Rightarrow> str \<Rightarrow> unit act" where
  "record_path_notice s note_id recorded seen_at =
     own_step s (\<lambda>w. ((), w\<lparr>w_notices := dict_set (w_notices w) note_id (recorded, seen_at)\<rparr>))"

definition clear_path_notice :: "'d site \<Rightarrow> str \<Rightarrow> unit act" where
  "clear_path_notice s note_id =
     own_step s (\<lambda>w. ((), w\<lparr>w_notices := filter (\<lambda>q. fst q \<noteq> note_id) (w_notices w)\<rparr>))"

definition may_repair :: "str \<Rightarrow> str \<Rightarrow> str \<Rightarrow> db \<Rightarrow> bool" where
  "may_repair note_id previous seen_at b \<longleftrightarrow>
     (case row_of b note_id of None \<Rightarrow> False
      | Some r \<Rightarrow> r_path r = previous \<and> r_state r = U ''ok'' \<and>
          \<not> list_ex (\<lambda>(i, r). i \<noteq> note_id \<and> r_path r = seen_at \<and> live_row r) (db_rows b))"

definition repair_row :: "str \<Rightarrow> str \<Rightarrow> str \<Rightarrow> int \<Rightarrow> db \<Rightarrow> db" where
  "repair_row note_id previous seen_at now b =
     (if may_repair note_id previous seen_at b
      then update_row note_id (\<lambda>r. r\<lparr>r_path := seen_at, r_mtime := None, r_updated := now\<rparr>) b else b)"

definition follow_doc :: "str \<Rightarrow> str \<Rightarrow> db \<Rightarrow> db" where
  "follow_doc note_id p b =
     b\<lparr>db_docs := map (\<lambda>(i, d). (i, if i = note_id then d\<lparr>sd_path := p\<rparr> else d)) (db_docs b)\<rparr>"

definition repair_location :: "'d site \<Rightarrow> str \<Rightarrow> str \<Rightarrow> str \<Rightarrow> unit act" where
  "repair_location s note_id previous seen_at =
     bnd (catching (transaction s
       (bnd (now_at s) (\<lambda>now.
        bnd (execute_with s (may_repair note_id previous seen_at) (repair_row note_id previous seen_at now)) (\<lambda>took.
        bnd (if took then execute s (follow_doc note_id seen_at) else ret ()) (\<lambda>u.
        bnd (query s (\<lambda>b. map_option r_path (row_of b note_id))) (\<lambda>here. ret (took, here)))))))
       (metadata_read s)) (\<lambda>(took, here).
     if took \<or> here = Some seen_at then clear_path_notice s note_id
     else if here = Some previous then record_path_notice s note_id previous seen_at
     else ret ())"

definition locate :: "'d site \<Rightarrow> str \<Rightarrow> bool \<Rightarrow> (str \<times> str) act" where
  "locate s note_id inl =
     bnd (catching (bnd begin_tx (\<lambda>u. query s (\<lambda>b. row_of b note_id))) (metadata_read s)) (\<lambda>r.
     case r of None \<Rightarrow> raise_exn (Typed (NotFoundNote note_id))
     | Some r \<Rightarrow>
        if \<not> live_row r then raise_exn (Typed (NotFoundNote note_id))
        else (case st_resolve s (r_path r) of
            None \<Rightarrow> raise_exn (Typed (NotFoundNote note_id))
          | Some p \<Rightarrow>
             bnd (is_note_file s p) (\<lambda>here.
             if here then ret (r_path r, p)
             else bnd (followed s note_id inl) (\<lambda>ps.
               case ps of
                 [q] \<Rightarrow> bnd (repair_location s note_id (r_path r) q) (\<lambda>u. ret (q, q))
               | _ \<Rightarrow> raise_exn (Typed (NotFoundNote note_id))))))"

section \<open>Documents\<close>

record document =
  dc_id :: str
  dc_path :: str
  dc_title :: str
  dc_frontmatter :: fmap
  dc_body :: str
  dc_hash :: str
  dc_size :: nat
  dc_updated :: int
  dc_sources :: "str list"
  dc_filed :: bool
  dc_filing_error :: "str option"
  dc_filing_attempts :: nat

definition sources_of :: "'d site \<Rightarrow> fmap \<Rightarrow> str list" where
  "sources_of s fm = (case fget fm (role (st_schema s) ''sources_key'') of
     PList vs \<Rightarrow> map (text_of (st_objects s)) vs | _ \<Rightarrow> [])"

definition document_of :: "'d site \<Rightarrow> str \<Rightarrow> str \<Rightarrow> str \<Rightarrow> fmap \<Rightarrow> str \<Rightarrow> bytes \<Rightarrow> int \<Rightarrow> document" where
  "document_of s note_id relative title fm body data updated =
     \<lparr>dc_id = note_id, dc_path = relative, dc_title = title, dc_frontmatter = json_map (st_objects s) fm,
      dc_body = body, dc_hash = st_hash s data, dc_size = length data, dc_updated = updated,
      dc_sources = sources_of s fm, dc_filed = False, dc_filing_error = None, dc_filing_attempts = 0\<rparr>"

text \<open>\<open>filing_state\<close> (\<open>filing.py\<close>): a receipt that cannot be read says so.\<close>

definition filing_state :: "'d site \<Rightarrow> str \<Rightarrow> (str option \<times> nat) act" where
  "filing_state s note_id =
     catching (own_step s (\<lambda>w. (case map_of (w_receipts w) note_id of
         None \<Rightarrow> (None, 0)
       | Some None \<Rightarrow> (Some (U ''Filing receipt is unreadable''), 0)
       | Some (Some r) \<Rightarrow> (rc_error r, rc_attempts r), w)))
     (\<lambda>e. ret (Some (U ''Filing receipt is unreadable''), 0))"

definition with_filing_state :: "'d site \<Rightarrow> document \<Rightarrow> document act" where
  "with_filing_state s doc =
     bnd (catching (bnd begin_tx (\<lambda>u. query s (\<lambda>b. row_of b (dc_id doc)))) (metadata_read s)) (\<lambda>r.
     bnd (filing_state s (dc_id doc)) (\<lambda>(err, n).
     ret (doc\<lparr>dc_filed := (case r of Some r \<Rightarrow> r_filed r | None \<Rightarrow> False),
              dc_filing_error := err, dc_filing_attempts := n\<rparr>)))"

definition read_located :: "'d site \<Rightarrow> str \<Rightarrow> bool \<Rightarrow> document act" where
  "read_located s note_id inl =
     bnd (locate s note_id inl) (\<lambda>(relative, p).
     bnd (read_note s note_id p) (\<lambda>(data, m).
     bnd (catching (bnd (parse_at s note_id data) (\<lambda>(fm, body). ret (relative, p, data, m, fm, body)))
        (\<lambda>e. if e \<noteq> Typed (NotFoundNote note_id) then raise_exn e
             else bnd (followed s note_id inl) (\<lambda>ps. case ps of
               [q] \<Rightarrow> bnd (repair_location s note_id relative q) (\<lambda>u.
                      bnd (read_note s note_id q) (\<lambda>(data, m).
                      bnd (parse_at s note_id data) (\<lambda>(fm, body). ret (q, q, data, m, fm, body))))
             | _ \<Rightarrow> raise_exn e)))
       (\<lambda>(relative, p, data, m, fm, body). ret (document_of s note_id relative (title_of body p) fm body data m))))"

definition read_current :: "'d site \<Rightarrow> str \<Rightarrow> document act" where
  "read_current s note_id =
     catching (read_located s note_id False)
       (\<lambda>e. if e \<noteq> IdentityStale then raise_exn e
            else bnd (index_refresh s) (\<lambda>u. read_located s note_id True))"

definition get_note :: "'d site \<Rightarrow> str \<Rightarrow> document act" where
  "get_note s note_id = bnd (read_current s note_id) (with_filing_state s)"

section \<open>Citations of artifacts\<close>

definition known_paths :: "'d site \<Rightarrow> str list \<Rightarrow> (str \<times> str option) list act" where
  "known_paths s ids =
     (let wanted = sort (remdups ids)
      in if wanted = [] then ret []
         else bnd (catching (bnd begin_tx (\<lambda>u. query s (\<lambda>b. map (\<lambda>(i, r). (i, af_path r)) (filter (\<lambda>q. fst q \<in> set wanted) (mt_artifacts (db_more b))))))
              (metadata_read s)) (\<lambda>found.
            (let unknown = filter (\<lambda>i. i \<notin> set (map fst found)) wanted
             in if unknown \<noteq> [] then raise_exn (Refused (ArtifactsUnknown unknown)) else ret found)))"

definition artifact_unreadable :: exn where
  "artifact_unreadable = Typed (ArtifactsFilesystemUnavailable (U ''the artifact manifest is unreadable''))"

text \<open>A manifest that is no JSON, or no object, is \<open>None\<close> in the archive; the message does not tell them apart.\<close>

definition read_manifest :: "'d site \<Rightarrow> str \<Rightarrow> fmap act" where
  "read_manifest s i =
     (if \<not> is_valid_id (PStr i) then raise_exn (Typed (ArtifactMissing i))
      else bnd (catching (own_step s (\<lambda>w. (map_of (w_archive w) i, w))) (\<lambda>e. raise_exn artifact_unreadable)) (\<lambda>m.
        case m of None \<Rightarrow> raise_exn (Typed (ArtifactMissing i))
        | Some None \<Rightarrow> raise_exn artifact_unreadable
        | Some (Some d) \<Rightarrow>
            if fget d (U ''artifact_id'') \<noteq> PStr i \<or> fget d (U ''kind'') \<noteq> PStr (U ''artifact'')
            then raise_exn (Typed (ArtifactsFilesystemUnavailable (U ''the artifact manifest names a different artifact'')))
            else ret d))"

definition link_for :: "str option \<Rightarrow> str \<Rightarrow> str option \<Rightarrow> str" where
  "link_for p title url =
     (case p of Some (c # cs) \<Rightarrow> U ''[['' @ (c # cs) @ U '']]''
      | _ \<Rightarrow> (case url of Some (c # cs) \<Rightarrow> U ''['' @ title @ U ''](''  @ (c # cs) @ U '')'' | _ \<Rightarrow> title))"

definition manifest_url :: "objects \<Rightarrow> fmap \<Rightarrow> str option" where
  "manifest_url ob m = (if truthy (fget m (U ''url'')) then Some (text_of ob (fget m (U ''url''))) else None)"

primrec links_for :: "'d site \<Rightarrow> (str \<times> str option) list \<Rightarrow> str list \<Rightarrow> str list act" where
  "links_for s paths [] = ret []"
| "links_for s paths (i # ids) =
     bnd (read_manifest s i) (\<lambda>m.
     case dget m (U ''title'') of None \<Rightarrow> raise_exn PyFault
     | Some title \<Rightarrow>
        bnd (links_for s paths ids) (\<lambda>ls.
        ret (link_for (case map_of paths i of Some p \<Rightarrow> p | None \<Rightarrow> None) (text_of (st_objects s) title)
               (manifest_url (st_objects s) m) # ls)))"

text \<open>\<open>_artifact_links\<close>: an empty mapping is no current frontmatter.\<close>

definition newly_cited :: "'d site \<Rightarrow> fmap \<Rightarrow> fmap option \<Rightarrow> str list" where
  "newly_cited s fm current =
     (let key = optional_role (st_schema s) ''artifacts_key'';
          held = (case current of Some cur \<Rightarrow> if cur = [] then PNone else fget cur key | None \<Rightarrow> PNone)
      in filter (\<lambda>i. i \<notin> set (str_items held)) (str_items (fget fm key)))"

definition artifact_links :: "'d site \<Rightarrow> fmap \<Rightarrow> fmap option \<Rightarrow> str list act" where
  "artifact_links s fm current =
     (case fget fm (optional_role (st_schema s) ''artifacts_key'') of
        PList (v # vs) \<Rightarrow>
          (let ids = newly_cited s fm current
           in bnd (known_paths s ids) (\<lambda>paths. links_for s paths ids))
      | _ \<Rightarrow> ret [])"

fun has_infix :: "str \<Rightarrow> str \<Rightarrow> bool" where
  "has_infix p [] \<longleftrightarrow> p = []"
| "has_infix p (c # s) \<longleftrightarrow> startswith (c # s) p \<or> has_infix p s"

definition body_with_links :: "str \<Rightarrow> str list \<Rightarrow> str" where
  "body_with_links body links =
     (let absent_links = filter (\<lambda>l. \<not> has_infix l body) links
      in if absent_links = [] then body
         else let text = (if endswith body newline \<or> body = [] then body else body @ newline);
                  text = (if has_infix (U ''## Artifacts'') text then text
                          else text @ newline @ U ''## Artifacts'' @ newline @ newline)
              in text @ join newline absent_links @ newline)"

end
