(* ===== verification/Eligibility.thy ===== *)
theory Eligibility
  imports NoteWorld
begin

text \<open>
  When a note may be found by search (\<open>coppermind_store/eligibility.py\<close>) and how an index entry is
  written (\<open>index_note\<close> of \<open>indexer.py\<close>).  \<open>db_docs\<close> and \<open>db_unreadable\<close> are the entries of kind
  \<open>note\<close>.
\<close>

definition notes_root_name :: "unicode \<Rightarrow> str \<Rightarrow> str" where
  "notes_root_name uc folder = (let root = sanitize_folder uc folder in if root = [] then U ''Notes'' else root)"

text \<open>\<open>{day:%Y}/{day:%Y-%m}\<close>, and \<open>to_char(day, 'YYYY/YYYY-MM')\<close>.\<close>

definition month_of :: "date \<Rightarrow> str" where
  "month_of d = take 7 (date_iso d)"

definition month_text :: "date \<Rightarrow> str" where
  "month_text d = take 4 (date_iso d) @ U ''/'' @ month_of d"

definition rendered_note_folder :: "unicode \<Rightarrow> str \<Rightarrow> date \<Rightarrow> str" where
  "rendered_note_folder uc folder day = notes_root_name uc folder @ U ''/'' @ month_text day"

definition four_digits :: "str \<Rightarrow> bool" where
  "four_digits s \<longleftrightarrow> length s = 4 \<and> list_all ascii_digit s"

text \<open>\<open>[0-9]{4}-(0[1-9]|1[0-2])/\<close> at the start of \<open>p\<close>.\<close>

definition month_folder :: "str \<Rightarrow> bool" where
  "month_folder p \<longleftrightarrow> four_digits (take 4 p) \<and> 8 \<le> length p \<and> p ! 4 = 45 \<and> p ! 7 = 47 \<and>
     (p ! 5 = 48 \<and> 49 \<le> p ! 6 \<and> p ! 6 \<le> 57 \<or> p ! 5 = 49 \<and> 48 \<le> p ! 6 \<and> p ! 6 \<le> 50)"

definition new_path_pattern :: "str \<Rightarrow> str \<Rightarrow> bool" where
  "new_path_pattern root p \<longleftrightarrow> startswith p (root @ U ''/'') \<and>
     (let r = drop (length root + 1) p
      in four_digits (take 4 r) \<and> 5 \<le> length r \<and> r ! 4 = 47 \<and> month_folder (drop 5 r))"

definition awaiting_refile :: "unicode \<Rightarrow> str \<Rightarrow> row \<Rightarrow> bool" where
  "awaiting_refile uc folder r \<longleftrightarrow> mc_reviewed (r_cols r) \<and> r_state r = U ''ok'' \<and>
     (case mc_date (r_cols r) of None \<Rightarrow> False
      | Some day \<Rightarrow> \<not> startswith (r_path r) (notes_root_name uc folder @ U ''/'' @ month_text day @ U ''/''))"

definition reviewed_note :: "unicode \<Rightarrow> str \<Rightarrow> row \<Rightarrow> bool" where
  "reviewed_note uc folder r \<longleftrightarrow>
     (let root = notes_root_name uc folder; p = r_path r
      in mc_reviewed (r_cols r) \<and> r_filed r \<and> mc_source_ids (r_cols r) = r_filed_sources r \<and> live_row r \<and>
         (case mc_date (r_cols r) of None \<Rightarrow> False
          | Some day \<Rightarrow>
              new_path_pattern root p \<and> startswith p (root @ U ''/'' @ month_text day @ U ''/'') \<or>
              month_folder p \<and> startswith p (month_of day @ U ''/'')))"

definition eligible_note :: "unicode \<Rightarrow> str \<Rightarrow> str \<Rightarrow> db \<Rightarrow> bool" where
  "eligible_note uc folder i b \<longleftrightarrow> list_ex (\<lambda>(j, r). j = i \<and> reviewed_note uc folder r) (db_rows b)"

definition MAX_INDEXED_CHARS :: nat where
  "MAX_INDEXED_CHARS = 250000"

definition indexable :: "str \<Rightarrow> str" where
  "indexable t = take MAX_INDEXED_CHARS (storable t)"

definition drop_unreadable :: "str \<Rightarrow> db \<Rightarrow> db" where
  "drop_unreadable i b = b\<lparr>db_unreadable := filter (\<lambda>j. j \<noteq> i) (db_unreadable b)\<rparr>"

definition drop_doc :: "str \<Rightarrow> db \<Rightarrow> db" where
  "drop_doc i b = b\<lparr>db_docs := filter (\<lambda>q. fst q \<noteq> i) (db_docs b)\<rparr>"

definition put_doc :: "str \<Rightarrow> search_doc \<Rightarrow> db \<Rightarrow> db" where
  "put_doc i d b = b\<lparr>db_docs := dict_set (db_docs b) i d\<rparr>"

definition withdraw_doc :: "unicode \<Rightarrow> str \<Rightarrow> str \<Rightarrow> db \<Rightarrow> db" where
  "withdraw_doc uc folder i b = (if eligible_note uc folder i b then b else drop_doc i b)"

definition publish_doc :: "unicode \<Rightarrow> str \<Rightarrow> str \<Rightarrow> search_doc \<Rightarrow> db \<Rightarrow> db" where
  "publish_doc uc folder i d b = (if eligible_note uc folder i b then put_doc i d b else b)"

text \<open>The three statements of \<open>_upsert\<close>.\<close>

definition index_note :: "'d site \<Rightarrow> str \<Rightarrow> str \<Rightarrow> str \<Rightarrow> str \<Rightarrow> str \<Rightarrow> int \<Rightarrow> unit act" where
  "index_note s i p title body version now =
     (let folder = ns_notes_folder (ps_notes (st_settings s));
          doc = \<lparr>sd_path = p, sd_title = indexable title, sd_body = indexable body, sd_version = version,
                 sd_indexed_at = now\<rparr>
      in bnd (execute s (drop_unreadable i)) (\<lambda>u.
         bnd (execute s (withdraw_doc (st_uc s) folder i)) (\<lambda>u.
         execute s (publish_doc (st_uc s) folder i doc))))"

section \<open>What is published is reviewed and filed\<close>

text \<open>Every entry of the search index belongs to a reviewed, filed and live note.\<close>

definition published_ok :: "unicode \<Rightarrow> str \<Rightarrow> db \<Rightarrow> bool" where
  "published_ok uc folder b \<longleftrightarrow> list_all (\<lambda>q. eligible_note uc folder (fst q) b) (db_docs b)"

lemma month_text_form:
  "month_text d = pad 4 (yr d) @ U ''/'' @ pad 4 (yr d) @ U ''-'' @ pad 2 (mo d)"
  by (simp add: month_text_def month_of_def date_iso_def U_def)

lemma four_digits_pad: "four_digits (pad 4 n)"
  by (auto simp: four_digits_def list_all_iff ascii_digit_def dest: pad_digit)

lemma month_folder_pad:
  assumes "valid_date d"
  shows "month_folder (pad 4 (yr d) @ U ''-'' @ pad 2 (mo d) @ U ''/'' @ t)"
proof -
  have "1 \<le> mo d" "mo d \<le> 12"
    using valid_date_bounds [OF assms] by auto
  then have "mo d \<in> {1,2,3,4,5,6,7,8,9,10,11,12}"
    unfolding insert_iff empty_iff by presburger
  moreover have "pad 2 n = [48 + n div 10 mod 10, 48 + n mod 10]" for n
    by (simp add: numeral_2_eq_2)
  ultimately show ?thesis
    using four_digits_pad [of "yr d"]
    by (auto simp: month_folder_def U_def nth_append simp del: pad.simps)
qed

text \<open>Filing and publication agree: a reviewed, live note filed with the sources it cites, placed in the
  folder its date renders to, is one search may find, and is not waiting to be filed again.\<close>

theorem filed_note_published:
  assumes "valid_date day" and "mc_date (r_cols r) = Some day"
    and "r_path r = rendered_note_folder uc folder day @ U ''/'' @ name"
    and "mc_reviewed (r_cols r)" and "r_filed r" and "mc_source_ids (r_cols r) = r_filed_sources r" and "live_row r"
  shows "reviewed_note uc folder r \<and> \<not> awaiting_refile uc folder r"
proof -
  let ?root = "notes_root_name uc folder"
  have p: "r_path r = (?root @ U ''/'' @ month_text day @ U ''/'') @ name"
    by (simp add: assms(3) rendered_note_folder_def)
  then have 1: "startswith (r_path r) (?root @ U ''/'' @ month_text day @ U ''/'')"
    by (simp add: startswith_def)
  have "new_path_pattern ?root (r_path r)"
    using month_folder_pad [OF assms(1), of name] four_digits_pad [of "yr day"]
    by (simp add: p new_path_pattern_def month_text_form startswith_def U_def nth_append)
  with 1 assms(2,4-7) show ?thesis
    by (simp add: reviewed_note_def awaiting_refile_def Let_def)
qed

definition filed_row :: row where
  "filed_row = \<lparr>r_path = U ''Notes/'' @ month_text (Date 2024 5 6) @ U ''/a.md'', r_title = None, r_hash = [], r_size = 0, r_mtime = None,
     r_frontmatter = [], r_cols = \<lparr>mc_source_ids = [], mc_artifact_ids = [], mc_schema_version = 1, mc_type = None,
       mc_context = None, mc_account = [], mc_date = Some (Date 2024 5 6), mc_reviewed = True, mc_unfile = False, mc_tags = []\<rparr>,
     r_filed = True, r_filed_sources = [], r_state = U ''ok'', r_reason = None, r_first_seen = 0, r_updated = 0\<rparr>"

theorem filed_note_published_witness:
  "reviewed_note ascii_unicode [] filed_row \<and> \<not> awaiting_refile ascii_unicode [] filed_row"
proof (rule filed_note_published [where day = "Date 2024 5 6" and name = "U ''a.md''"])
  show "valid_date (Date 2024 5 6)"
    by (simp add: valid_date_def mk_date_def days_in_month_def)
  have "notes_root_name ascii_unicode [] = U ''Notes''"
    by (simp add: notes_root_name_def sanitize_folder_def sanitize_stem_def ascii_unicode_def strip_def strip_by_def
        lstrip_by_def U_def)
  then show "r_path filed_row = rendered_note_folder ascii_unicode [] (Date 2024 5 6) @ U ''/'' @ U ''a.md''"
    by (simp add: filed_row_def rendered_note_folder_def U_def)
qed (simp_all add: filed_row_def live_row_def)

lemma eligible_update:
  "i \<noteq> j \<Longrightarrow> eligible_note uc folder j (update_row i f b) = eligible_note uc folder j b"
  by (auto simp: eligible_note_def update_row_def list_ex_iff split_beta)

lemma eligible_index [simp]:
  "eligible_note uc folder j (drop_unreadable i b) = eligible_note uc folder j b"
  "eligible_note uc folder j (withdraw_doc uc f i b) = eligible_note uc folder j b"
  "eligible_note uc folder j (publish_doc uc f i d b) = eligible_note uc folder j b"
  by (simp_all add: eligible_note_def drop_unreadable_def withdraw_doc_def drop_doc_def publish_doc_def put_doc_def)

text \<open>The statements of a write: the row's update, then those of its index entry.\<close>

definition indexed_update :: "unicode \<Rightarrow> str \<Rightarrow> str \<Rightarrow> (row \<Rightarrow> row) \<Rightarrow> search_doc \<Rightarrow> db \<Rightarrow> db" where
  "indexed_update uc folder i f d b =
     publish_doc uc folder i d (withdraw_doc uc folder i (drop_unreadable i (update_row i f b)))"

text \<open>C29. Nothing unreviewed or unfiled is published: a write that changes a note's row, in whatever way, and brings
  its index entry up to date in the same transaction keeps every entry of the search index one of a reviewed,
  filed and live note, and the note itself has an entry, the new one, exactly when it may be found.\<close>

theorem index_keeps_published:
  assumes "published_ok uc folder b"
  shows "published_ok uc folder (indexed_update uc folder i f d b) \<and>
     map_of (db_docs (indexed_update uc folder i f d b)) i =
       (if eligible_note uc folder i (update_row i f b) then Some d else None)"
proof (cases "eligible_note uc folder i (update_row i f b)")
  case True
  then have docs: "db_docs (indexed_update uc folder i f d b) = dict_set (db_docs b) i d"
    by (simp add: indexed_update_def publish_doc_def put_doc_def withdraw_doc_def drop_unreadable_def update_row_def
        eligible_note_def)
  have "eligible_note uc folder j (indexed_update uc folder i f d b)" if "j \<in> set (dkeys (dict_set (db_docs b) i d))" for j
    using that assms True by (cases "j = i") (auto simp: indexed_update_def published_ok_def list_all_iff eligible_update
        dkeys_dict_set split: if_splits)
  with docs True show ?thesis
    by (auto simp: published_ok_def list_all_iff)
next
  case False
  then have docs: "db_docs (indexed_update uc folder i f d b) = filter (\<lambda>q. fst q \<noteq> i) (db_docs b)"
    by (simp add: indexed_update_def publish_doc_def drop_doc_def withdraw_doc_def drop_unreadable_def update_row_def
        eligible_note_def)
  have "map_of (filter (\<lambda>q. fst q \<noteq> i) xs) i = None" for xs :: "(str \<times> search_doc) list"
    by (induction xs) auto
  with docs False assms show ?thesis
    by (auto simp: published_ok_def list_all_iff indexed_update_def eligible_update)
qed

theorem index_keeps_published_witness:
  "map_of (db_docs (indexed_update ascii_unicode [] (U ''a'') (\<lambda>r. r\<lparr>r_filed := False\<rparr>)
       \<lparr>sd_path = U ''p'', sd_title = U ''t'', sd_body = [], sd_version = [], sd_indexed_at = 0\<rparr>
       \<lparr>db_rows = [(U ''a'', filed_row)], db_docs = [], db_unreadable = [], db_outbox = [], db_src = no_sources, db_more = no_tables\<rparr>)) (U ''a'') = None"
  using index_keeps_published [of ascii_unicode "[]"
      "\<lparr>db_rows = [(U ''a'', filed_row)], db_docs = [], db_unreadable = [], db_outbox = [], db_src = no_sources, db_more = no_tables\<rparr>" "U ''a''"
      "\<lambda>r. r\<lparr>r_filed := False\<rparr>" "\<lparr>sd_path = U ''p'', sd_title = U ''t'', sd_body = [], sd_version = [], sd_indexed_at = 0\<rparr>"]
  by (simp add: published_ok_def eligible_note_def update_row_def reviewed_note_def Let_def)

end
