(* ===== verification/NoteWrites.thy ===== *)
theory NoteWrites
  imports NoteOps Eligibility
begin

text \<open>
  The writes of \<open>coppermind_store/notes.py\<close>: every operation that changes a note, in the order of its
  protocol: validate, open the transaction, write the file, commit.
\<close>

section \<open>Rows\<close>

text \<open>The columns every write of a readable note sets.\<close>

definition mirrored_row :: "'d site \<Rightarrow> str \<Rightarrow> fmap \<Rightarrow> bytes \<Rightarrow> int \<Rightarrow> int \<Rightarrow> row \<Rightarrow> row" where
  "mirrored_row s title fm data mtime now r =
     (let cols = mirror_columns (st_objects s) fm (st_schema s)
      in r\<lparr>r_title := Some title, r_hash := st_hash s data, r_size := length data, r_mtime := Some mtime,
           r_frontmatter := json_map (st_objects s) fm, r_cols := cols,
           r_filed := (if mc_unfile cols then False else r_filed r),
           r_state := U ''ok'', r_reason := None, r_updated := now\<rparr>)"

definition new_row :: "'d site \<Rightarrow> str \<Rightarrow> str \<Rightarrow> fmap \<Rightarrow> bytes \<Rightarrow> int \<Rightarrow> int \<Rightarrow> row" where
  "new_row s p title fm data mtime now =
     \<lparr>r_path = p, r_title = Some title, r_hash = st_hash s data, r_size = length data, r_mtime = Some mtime,
      r_frontmatter = json_map (st_objects s) fm, r_cols = mirror_columns (st_objects s) fm (st_schema s),
      r_filed = False, r_filed_sources = [], r_state = U ''ok'', r_reason = None, r_first_seen = now, r_updated = now\<rparr>"

text \<open>A second row of one identity is an integrity error of the database.\<close>

definition add_row :: "'d site \<Rightarrow> str \<Rightarrow> row \<Rightarrow> unit act" where
  "add_row s i r =
     bnd (query s (\<lambda>b. row_of b i)) (\<lambda>old. case old of
       Some x \<Rightarrow> raise_exn (DbFailed (Away (U ''duplicate key'')))
     | None \<Rightarrow> execute s (insert_row i r))"

section \<open>Reviews\<close>

definition cited_sources :: "'d site \<Rightarrow> fmap \<Rightarrow> str list option" where
  "cited_sources s fm =
     (case dget fm (role (st_schema s) ''sources_key'') of
        None \<Rightarrow> Some []
      | Some (PList vs) \<Rightarrow> if list_all is_str vs then Some (sort (remdups (str_items (PList vs)))) else None
      | Some (PStr t) \<Rightarrow> Some (map (\<lambda>c. [c]) (sort (remdups t)))
      | Some v \<Rightarrow> None)"

primrec source_revisions :: "'d site \<Rightarrow> str list \<Rightarrow> (str \<times> int option) list act" where
  "source_revisions s [] = ret []"
| "source_revisions s (i # is) =
     bnd (catching (own_step s (\<lambda>w. (map_of (w_manifests w) i, w))) (\<lambda>e. ret None)) (\<lambda>rev.
     bnd (source_revisions s is) (\<lambda>rs. ret ((i, rev) # rs)))"

definition save_review :: "'d site \<Rightarrow> str \<Rightarrow> review \<Rightarrow> unit act" where
  "save_review s i rv = own_step s (\<lambda>w. ((), w\<lparr>w_reviews := dict_set (w_reviews w) i rv\<rparr>))"

text \<open>\<open>record_review\<close> (\<open>filing.py\<close>).\<close>

definition record_review :: "'d site \<Rightarrow> str \<Rightarrow> fmap \<Rightarrow> unit act" where
  "record_review s note_id fm =
     (let reviewed = (fget fm (role (st_schema s) ''reviewed_key'') = PBool True)
      in bnd (if reviewed then (case cited_sources s fm of None \<Rightarrow> raise_exn PyFault | Some is \<Rightarrow> source_revisions s is)
              else ret []) (\<lambda>rs.
         save_review s note_id \<lparr>rv_reviewed = reviewed, rv_sources = rs\<rparr>))"

section \<open>Creating\<close>

definition create_folder :: "'d site \<Rightarrow> str option \<Rightarrow> (str \<times> str) act" where
  "create_folder s folder =
     (let ns = ps_notes (st_settings s); uc = st_uc s
      in case folder of
           Some asked \<Rightarrow>
             (let safe = sanitize_folder uc asked
              in if U ''..'' \<in> set (split_on 47 asked) then raise_exn (Refused (FolderEscapes asked))
                 else if safe = [] then raise_exn (Refused FolderEmpty)
                 else (case check_folder_safe uc safe ns of
                     Some e \<Rightarrow> raise_exn (Refused (NoteRefused [e]))
                   | None \<Rightarrow> (case st_resolve s safe of None \<Rightarrow> raise_exn (Refused (FolderEscapes asked))
                       | Some real \<Rightarrow> ret (safe, real))))
         | None \<Rightarrow>
             (let safe = sanitize_folder uc (ns_review_folder ns)
              in case st_resolve s safe of None \<Rightarrow> raise_exn PyFault | Some real \<Rightarrow> ret (safe, real)))"

definition free_stem :: "'d site \<Rightarrow> str \<Rightarrow> str list \<Rightarrow> str act" where
  "free_stem s stem taken = (case unique_stem (st_uc s) stem taken of None \<Rightarrow> raise_exn Diverges | Some t \<Rightarrow> ret t)"

definition create_exclusive :: "'d site \<Rightarrow> str \<Rightarrow> bytes \<Rightarrow> unit act" where
  "create_exclusive s p data =
     disk_step s (make_file p p data)"

text \<open>The attempts left; each loser of the exclusive create takes the next free name, and the last one names the path it tried.\<close>

primrec create_attempts ::
  "nat \<Rightarrow> 'd site \<Rightarrow> str \<Rightarrow> str \<Rightarrow> str \<Rightarrow> str \<Rightarrow> bytes \<Rightarrow> str \<Rightarrow> (str \<times> str) act" where
  "create_attempts 0 s folder real base stem data tried = raise_exn (Typed (PathCollision tried))"
| "create_attempts (Suc n) s folder real base stem data tried =
     (let relative = path_join folder (stem @ NOTE_SUFFIX); file = path_join real (stem @ NOTE_SUFFIX)
      in bnd (query s (holder_of relative)) (\<lambda>holder.
         if holder \<noteq> None then raise_exn (Typed (PathCollision relative))
         else bnd (catching (bnd (create_exclusive s file data) (\<lambda>u. ret True))
                (\<lambda>e. if e = FileExists then ret False else raise_exn (notes_unavailable s e))) (\<lambda>made.
              if made then ret (relative, file)
              else bnd (existing_stems s real) (\<lambda>taken. bnd (free_stem s base taken) (\<lambda>stem.
                create_attempts n s folder real base stem data relative)))))"

definition create_note :: "'d site \<Rightarrow> str \<Rightarrow> str \<Rightarrow> fmap \<Rightarrow> str option \<Rightarrow> document act" where
  "create_note s title body request folder =
     bnd (now_at s) (\<lambda>begun.
     bnd (\<lambda>w. (Inr (st_new_id s (w_tick w)), w)) (\<lambda>note_id.
     (let sc = st_schema s; fm = build_frontmatter (st_objects s) request sc (st_local s begun) None False note_id;
          bad = validate_frontmatter sc fm
      in bnd (demand_valid bad (tag_problems sc fm None)) (\<lambda>u.
         bnd (artifact_links s fm None) (\<lambda>links.
         (let composed = body_with_links (body_with_heading title body) links
          in bnd (create_folder s folder) (\<lambda>(safe, real).
             (let base = stem_for (st_uc s) title fm sc (ps_notes (st_settings s))
              in bnd (existing_stems s real) (\<lambda>taken.
                 bnd (free_stem s base taken) (\<lambda>stem.
                 bnd (encoded (compose (st_yaml s) fm composed)) (\<lambda>data.
                 bnd (catching
                        (bnd begin_tx (\<lambda>u. bnd (query s (\<lambda>b. ())) (\<lambda>u.
                         create_attempts 5 s safe real base stem data [])))
                        (\<lambda>e. bnd begin_tx (\<lambda>u. typed_db s e))) (\<lambda>(relative, file).
                    catching
                      (finish s
                        (bnd (now_at s) (\<lambda>now.
                         bnd (add_row s note_id (new_row s relative title fm data now now)) (\<lambda>u.
                         bnd (index_note s note_id relative title composed (st_hash s data) now) (\<lambda>u.
                         ret (document_of s note_id relative title fm composed data now))))))
                      (\<lambda>e. if metadata_failure (st_os_text s) e = Some (Refused ValueRejected)
                           then bnd (unlink_missing_ok s file) (\<lambda>u. raise_exn (Refused ValueRejected))
                           else typed_db s e)))))))))))))"

section \<open>Replacing\<close>

definition replace_note :: "'d site \<Rightarrow> str \<Rightarrow> fmap \<Rightarrow> str \<Rightarrow> str \<Rightarrow> document act" where
  "replace_note s note_id request asked_body if_match =
     (case replacement_frontmatter (st_objects s) request (st_schema s) note_id of
        Inl e \<Rightarrow> raise_exn (Refused (NoteRefused [e]))
      | Inr sent \<Rightarrow>
         (let sc = st_schema s; bad = validate_frontmatter sc sent; body = terminated asked_body;
              reviewed_key = role sc ''reviewed_key''
          in bnd (demand_valid bad (TagProblems [])) (\<lambda>u.
             bnd (locate s note_id True) (\<lambda>(relative, p).
             bnd (bytes_at s note_id p (Some if_match)) (\<lambda>(old, current, m).
             bnd (artifact_links s sent (Some current)) (\<lambda>links.
             bnd (demand_valid [] (tag_problems sc sent (Some current))) (\<lambda>u.
             (let fm = keeping_types (st_objects s) sent current
              in bnd (encoded (compose (st_yaml s) fm body)) (\<lambda>data.
                 bnd (now_at s) (\<lambda>now.
                 bnd (catching (transaction s
                   (bnd (execute s (update_row note_id (mirrored_row s (title_of body p) fm data now now))) (\<lambda>u.
                    bnd (index_note s note_id relative (title_of body p) body (st_hash s data) now) (\<lambda>u.
                    bnd (replace_if_unchanged s note_id p data if_match) (\<lambda>u.
                    if fget current reviewed_key \<noteq> fget fm reviewed_key then record_review s note_id fm else ret ())))))
                   (typed_db s)) (\<lambda>u.
                 with_filing_state s (document_of s note_id relative (title_of body p) fm body data now))))))))))))"

section \<open>Patching\<close>

definition fm_result :: "fm_error + 'a \<Rightarrow> 'a act" where
  "fm_result r = (case r of Inl e \<Rightarrow> raise_exn (BadFrontmatter e) | Inr x \<Rightarrow> ret x)"

definition decoded :: "bytes \<Rightarrow> str act" where
  "decoded d = (case decode d of None \<Rightarrow> raise_exn PyFault | Some t \<Rightarrow> ret t)"

definition patch_frontmatter :: "'d site \<Rightarrow> str \<Rightarrow> fmap \<Rightarrow> str list \<Rightarrow> str \<Rightarrow> document act" where
  "patch_frontmatter s note_id asked unset if_match =
     (let sc = st_schema s; asked_bad = patch_problems asked unset sc; wanted = with_kinds sc asked;
          id_key = role sc ''id_key''; reviewed_key = role sc ''reviewed_key''
      in bnd (demand (asked_bad = []) (Refused (NoteRefused asked_bad))) (\<lambda>u.
         bnd (locate s note_id True) (\<lambda>(relative, p).
         bnd (bytes_at s note_id p (Some if_match)) (\<lambda>(old, current, m).
         bnd (decoded old) (\<lambda>old_text.
         bnd (fm_result (patch_text (st_yaml s) old_text wanted unset)) (\<lambda>text.
         bnd (encoded text) (\<lambda>data.
         bnd (fm_result (parse_text (st_yaml s) text)) (\<lambda>(fm, body).
         bnd (demand (fget fm id_key = fget current id_key) (Refused (NoteRefused [IdChanged id_key]))) (\<lambda>u.
         bnd (demand_valid (validate_frontmatter sc fm) (tag_problems sc fm (Some current))) (\<lambda>u.
         bnd (if optional_role sc ''artifacts_key'' \<in> set (dkeys asked) then artifact_links s fm (Some current)
              else ret []) (\<lambda>links.
         bnd (now_at s) (\<lambda>now.
         (let file_mtime = (if data \<noteq> old then now else m)
          in bnd (catching (transaction s
               (bnd (execute s (update_row note_id (mirrored_row s (title_of body p) fm data file_mtime now))) (\<lambda>u.
                bnd (index_note s note_id relative (title_of body p) body (st_hash s data) now) (\<lambda>u.
                bnd (if data \<noteq> old then replace_if_unchanged s note_id p data if_match else ret ()) (\<lambda>u.
                if reviewed_key \<in> set (dkeys asked) \<or> reviewed_key \<in> set unset
                then record_review s note_id fm else ret ())))))
               (typed_db s)) (\<lambda>u.
             with_filing_state s
               (document_of s note_id relative (title_of body p) fm body data file_mtime)))))))))))))))"

section \<open>Moving\<close>

text \<open>\<open>_existing_folder\<close>, one segment at a time.\<close>

definition is_folder :: "fsys \<Rightarrow> str \<Rightarrow> bool" where
  "is_folder d p \<longleftrightarrow> p = [] \<or> p \<in> set (d_dirs d)"

definition spelled_as :: "unicode \<Rightarrow> fsys \<Rightarrow> str \<Rightarrow> str \<Rightarrow> str" where
  "spelled_as uc d current part =
     (if is_folder d current \<and> \<not> is_folder d (path_join current part)
      then (case find (\<lambda>name. casefold uc name = casefold uc part)
               (sort (map path_name (filter (\<lambda>q. parent_of q = current) (d_dirs d)))) of
              Some name \<Rightarrow> name | None \<Rightarrow> part)
      else part)"

primrec existing_parts :: "'d site \<Rightarrow> str \<Rightarrow> str list \<Rightarrow> str list act" where
  "existing_parts s current [] = ret []"
| "existing_parts s current (part # parts) =
     bnd (catching (disk_step s (\<lambda>now d. Inr (spelled_as (st_uc s) d current part, d)))
            (\<lambda>e. raise_exn (notes_unavailable s e))) (\<lambda>name.
     bnd (existing_parts s (path_join current name) parts) (\<lambda>names. ret (name # names)))"

definition existing_folder :: "'d site \<Rightarrow> str \<Rightarrow> str act" where
  "existing_folder s folder = bnd (existing_parts s [] (split_on 47 folder)) (\<lambda>ps. ret (join (U ''/'') ps))"

definition move_target :: "'d site \<Rightarrow> str \<Rightarrow> exn + str" where
  "move_target s asked =
     (let uc = st_uc s; ns = ps_notes (st_settings s);
          raw = map (\<lambda>c. if c = 92 then 47 else c) asked; folder = sanitize_folder uc asked
      in if startswith raw (U ''/'') \<or> list_ex (\<lambda>part. part = U ''.'' \<or> part = U ''..'') (split_on 47 raw)
         then Inl (Refused TargetNotRelative)
         else if folder = [] then Inl (Refused TargetEmpty)
         else (case check_folder_safe uc folder ns of Some e \<Rightarrow> Inl (Refused (NoteRefused [e]))
           | None \<Rightarrow>
              (case find (\<lambda>reserved. let rf = casefold uc (sanitize_folder uc reserved)
                   in casefold uc folder = rf \<or> startswith (casefold uc folder) (rf @ U ''/''))
                 [ns_sources_folder ns, ns_artifacts_folder ns] of
                 Some reserved \<Rightarrow> Inl (Refused (TargetReserved reserved)) | None \<Rightarrow> Inr folder)))"

definition refuse_taken :: "'d site \<Rightarrow> str \<Rightarrow> str list \<Rightarrow> str \<Rightarrow> unit act" where
  "refuse_taken s stem taken relative =
     demand (casefold (st_uc s) stem \<notin> set (map (casefold (st_uc s)) taken)) (Typed (PathCollision relative))"

definition refuse_held :: "'d site \<Rightarrow> str \<Rightarrow> unit act" where
  "refuse_held s relative =
     bnd (query s (holder_of relative)) (\<lambda>holder. demand (holder = None) (Typed (PathCollision relative)))"

definition moved_event :: "string \<Rightarrow> str \<Rightarrow> str \<Rightarrow> str \<Rightarrow> int \<Rightarrow> outbox_event" where
  "moved_event kind note_id from_path to_path now =
     \<lparr>oe_type = U kind, oe_note = note_id, oe_from = from_path, oe_path = to_path, oe_at = now\<rparr>"

definition move_note :: "'d site \<Rightarrow> str \<Rightarrow> str \<Rightarrow> str option \<Rightarrow> document act" where
  "move_note s note_id asked if_match =
     (case move_target s asked of Inl e \<Rightarrow> raise_exn e | Inr safe \<Rightarrow>
      bnd (existing_folder s safe) (\<lambda>folder.
      (case st_resolve s folder of None \<Rightarrow> raise_exn (Refused TargetNotRelative) | Some real \<Rightarrow>
       bnd (locate s note_id True) (\<lambda>(relative, p).
       bnd (bytes_at s note_id p if_match) (\<lambda>(data0, fm0, m0).
       (let new_relative = path_join folder (path_name p); new_target = path_join real (path_name p)
        in if new_target = p then
             bnd (decoded data0) (\<lambda>text. bnd (fm_result (parse_text (st_yaml s) text)) (\<lambda>(fm', body).
             with_filing_state s (document_of s note_id relative (title_of body p) fm0 body data0 m0)))
           else
             bnd (existing_stems s real) (\<lambda>taken.
             bnd (refuse_taken s (path_stem p) taken new_relative) (\<lambda>u.
             bnd (now_at s) (\<lambda>now.
             bnd (catching (transaction s
               (bnd (refuse_held s new_relative) (\<lambda>u.
                bnd (bytes_at s note_id p if_match) (\<lambda>(data, fm, m).
                bnd (decoded data) (\<lambda>text.
                bnd (fm_result (parse_text (st_yaml s) text)) (\<lambda>(fm', body).
                (let title = title_of body new_target
                 in bnd (execute s (update_row note_id (\<lambda>r. (mirrored_row s title fm data m now r)\<lparr>r_path := new_relative\<rparr>))) (\<lambda>u.
                    bnd (index_note s note_id new_relative title body (st_hash s data) now) (\<lambda>u.
                    bnd (execute s (add_event (moved_event ''note.moved'' note_id relative new_relative now))) (\<lambda>u.
                    bnd (catching (move_file s p new_target None)
                       (\<lambda>e. raise_exn (if e = FileExists then Typed (PathCollision new_relative) else notes_unavailable s e))) (\<lambda>u.
                    bnd (index_moved note_id new_target) (\<lambda>u.
                    ret (document_of s note_id new_relative title fm body data now)))))))))))))
               (typed_db s)) (\<lambda>doc. with_filing_state s doc))))))))))"

section \<open>Renaming\<close>

definition rename_note :: "'d site \<Rightarrow> str \<Rightarrow> str \<Rightarrow> bool \<Rightarrow> str option \<Rightarrow> document act" where
  "rename_note s note_id new_title preserve_body etag =
     (case etag of None \<Rightarrow> raise_exn (Typed PreconditionRequired) | Some if_match \<Rightarrow>
      (let sc = st_schema s
       in bnd (locate s note_id True) (\<lambda>(relative, p).
          bnd (bytes_at s note_id p (Some if_match)) (\<lambda>(old, fm, m).
          bnd (demand_valid (validate_frontmatter sc fm) (TagProblems [])) (\<lambda>u.
          bnd (decoded old) (\<lambda>old_text.
          bnd (if preserve_body then bnd (fm_result (parse_text (st_yaml s) old_text)) (\<lambda>(fm', body). ret (old, body))
               else bnd (fm_result (renamed_text old_text new_title)) (\<lambda>(text, body).
                    bnd (encoded text) (\<lambda>data. ret (data, body)))) (\<lambda>(data, body).
          (let title = (if preserve_body then title_of body p else new_title);
               stem = stem_for (st_uc s) new_title fm sc (ps_notes (st_settings s));
               new_path = path_join (parent_of p) (stem @ NOTE_SUFFIX)
           in bnd (if new_path \<noteq> p then bnd (existing_stems s (parent_of p)) (\<lambda>taken.
                     refuse_taken s stem (filter (\<lambda>t. t \<noteq> path_stem p) taken) new_path) else ret ()) (\<lambda>u.
              bnd (now_at s) (\<lambda>now.
              bnd (catching (transaction s
                (bnd (if new_path \<noteq> p then refuse_held s new_path else ret ()) (\<lambda>u.
                 bnd (execute s (update_row note_id (\<lambda>r. (mirrored_row s title fm data now now r)\<lparr>r_path := new_path\<rparr>))) (\<lambda>u.
                 bnd (index_note s note_id new_path title body (st_hash s data) now) (\<lambda>u.
                 bnd (execute s (add_event (moved_event ''note.renamed'' note_id relative new_path now))) (\<lambda>u.
                 if new_path = p then replace_if_unchanged s note_id p data if_match
                 else bnd (rename_file s note_id p new_path data if_match) (\<lambda>u. index_moved note_id new_path)))))))
                (typed_db s)) (\<lambda>u.
              with_filing_state s (document_of s note_id new_path title fm body data now))))))))))))"

section \<open>Adopting\<close>

datatype adoption = Adopted | Changed | Invalid | Collision

definition fm_category :: "(fm_error \<Rightarrow> str) \<Rightarrow> fm_error \<Rightarrow> str" where
  "fm_category yaml_category e =
     (case e of UnterminatedBlock \<Rightarrow> U ''unterminated_block'' | UnsupportedLineEndings \<Rightarrow> U ''unsupported_line_endings''
      | NotAMapping \<Rightarrow> U ''not_a_mapping'' | YamlProblem m l c \<Rightarrow> yaml_category e)"

text \<open>What the adoption of the bytes \<open>current\<close> decides before it asks for a connection: the identity,
  the text to write, its frontmatter and body.\<close>

definition adoption_plan ::
  "'d site \<Rightarrow> (fm_error \<Rightarrow> str) \<Rightarrow> date \<times> ptime \<Rightarrow> str \<Rightarrow> bytes \<Rightarrow> str + str \<times> str \<times> fmap \<times> str" where
  "adoption_plan s category now fresh_id current =
     (let sc = st_schema s; y = st_yaml s
      in case decode current of None \<Rightarrow> Inl (U ''the file is not valid UTF-8'') | Some text \<Rightarrow>
      (case parse_text y text of Inl e \<Rightarrow> Inl (fm_category category e) | Inr (fm, body) \<Rightarrow>
       (let carried = fget fm (role sc ''id_key'')
        in if (case fget fm (role sc ''sources_key'') of PList vs \<Rightarrow> vs \<noteq> [] | _ \<Rightarrow> False)
           then Inl (U ''the store generated this file, so it is not a note to adopt'')
           else if carried \<noteq> PNone \<and> \<not> is_valid_id carried then Inl (U ''the id it carries is not a valid identifier'')
           else (let note_id = (case carried of PStr i \<Rightarrow> i | _ \<Rightarrow> fresh_id)
                 in case adoption_changes fm sc now note_id of None \<Rightarrow> Inl (U ''diverges'') | Some fills \<Rightarrow>
                    (case sbind (fill_missing y text fills) (\<lambda>t. sbind (with_canonical_tags y t sc) (\<lambda>t.
                        sbind (parse_text y t) (\<lambda>r. Inr (t, r)))) of
                       Inl e \<Rightarrow> Inl (fm_category category e)
                     | Inr (adopted_text, adopted_fm, adopted_body) \<Rightarrow>
                         (if invalid_keys sc adopted_fm \<noteq> []
                          then Inl (U ''keys the schema refused: '' @ join (U '', '') (invalid_keys sc adopted_fm))
                          else if unstorable (st_objects s) (PMap (json_map (st_objects s) adopted_fm))
                          then Inl (U ''a value it carries is one the mirror cannot store'')
                          else Inr (note_id, adopted_text, adopted_fm, adopted_body)))))))"

text \<open>\<open>try: return ... except NotFound\<close> around the last read.\<close>

definition read_again :: "'d site \<Rightarrow> str \<Rightarrow> str \<Rightarrow> bytes option act" where
  "read_again s relative p =
     catching (bnd (read_note s relative p) (\<lambda>(latest, m). ret (Some latest)))
       (\<lambda>e. if e = Typed (NotFoundNote relative) then ret None else raise_exn e)"

definition gone_cause :: str where "gone_cause = U ''the file is no longer there''"
definition device_cause :: str where "device_cause = U ''a device wrote to the file first''"

text \<open>The conditional write of the adopted bytes: \<open>None\<close> when it was made, or the refusal.\<close>

definition adopt_write :: "'d site \<Rightarrow> str \<Rightarrow> str \<Rightarrow> bytes \<Rightarrow> str \<Rightarrow> (adoption \<times> str) option act" where
  "adopt_write s relative p data expected_hash =
     bnd (catching (stage s p data) (\<lambda>e. raise_exn (notes_unavailable s e))) (\<lambda>tmp.
     catching
       (bnd (read_note s relative p) (\<lambda>(latest, m).
        if st_hash s latest \<noteq> expected_hash
        then bnd (unlink_missing_ok s tmp) (\<lambda>u. ret (Some (Changed, device_cause)))
        else bnd (commit_temp s tmp p) (\<lambda>u. ret None)))
       (\<lambda>e. bnd (unlink_missing_ok s tmp) (\<lambda>u.
            if e = Typed (NotFoundNote relative) then ret (Some (Changed, gone_cause))
            else raise_exn (notes_unavailable s e))))"

definition adopt_check :: "'d site \<Rightarrow> str \<Rightarrow> str \<Rightarrow> str \<Rightarrow> (adoption \<times> str) option act" where
  "adopt_check s relative p expected_hash =
     bnd (read_again s relative p) (\<lambda>latest. ret (case latest of
       None \<Rightarrow> Some (Changed, gone_cause)
     | Some d \<Rightarrow> if st_hash s d \<noteq> expected_hash then Some (Changed, device_cause) else None))"

definition adopt_note :: "'d site \<Rightarrow> (fm_error \<Rightarrow> str) \<Rightarrow> str \<Rightarrow> str \<Rightarrow> (adoption \<times> str) act" where
  "adopt_note s category relative expected_hash =
     (case st_resolve s relative of None \<Rightarrow> ret (Invalid, U ''path is not inside the notes filesystem'') | Some p \<Rightarrow>
      bnd (read_again s relative p) (\<lambda>found. case found of None \<Rightarrow> ret (Changed, gone_cause) | Some current \<Rightarrow>
      if st_hash s current \<noteq> expected_hash then ret (Changed, U ''the file changed after it was read'') else
      bnd (now_at s) (\<lambda>now.
      bnd (\<lambda>w. (Inr (st_new_id s (w_tick w)), w)) (\<lambda>fresh_id.
      (case adoption_plan s category (st_local s now) fresh_id current of
         Inl cause \<Rightarrow> ret (Invalid, cause)
       | Inr (note_id, text, fm, body) \<Rightarrow>
          bnd (encoded text) (\<lambda>data.
          catching (transaction s
            (bnd (query s (\<lambda>b. row_of b note_id)) (\<lambda>row.
             if row \<noteq> None then ret (Collision, U ''the id it carries is already a note'') else
             bnd (query s (holder_of relative)) (\<lambda>holder.
             if holder \<noteq> None then ret (Collision, U ''another note already claims this path'') else
             bnd (if data \<noteq> current then adopt_write s relative p data expected_hash
                  else adopt_check s relative p expected_hash) (\<lambda>refused. case refused of
               Some outcome \<Rightarrow> ret outcome
             | None \<Rightarrow>
                bnd (catching (disk_step s (lookup_file p n_mtime)) (\<lambda>e. raise_exn (notes_unavailable s e))) (\<lambda>m.
                bnd (add_row s note_id (new_row s relative (title_of body p) fm data m now)) (\<lambda>u.
                bnd (index_note s note_id relative (title_of body p) body (st_hash s data) now) (\<lambda>u.
                ret (Adopted, U ''identity written into the file'')))))))))
            (typed_db s)))))))"

end
