(* ===== verification/NoteSafety.thy ===== *)
theory NoteSafety
  imports NoteWrites
begin

text \<open>
  What the note operations do to the files, whatever steps fail and whatever other requests do to the
  mirror meanwhile.  \<open>does G q m\<close> says that the action \<open>m\<close> relates what the file \<open>q\<close> held before and
  after by \<open>G\<close>; \<open>leaves\<close> is the case of equality.  The theorems say which bytes an operation may
  replace, for a file the devices leave alone while it runs.
\<close>

section \<open>Files\<close>

definition wf_fsys :: "fsys \<Rightarrow> bool" where
  "wf_fsys d \<longleftrightarrow> (\<forall>q i. map_of (d_names d) q = Some i \<longrightarrow> i < d_fresh d \<and> q \<notin> set (d_dirs d))"

lemma map_of_without [simp]: "map_of (filter (\<lambda>q. fst q \<noteq> p) xs) = (map_of xs)(p := None)"
  by (induction xs) auto

lemma node_at_without: "node_at (without_name p d) q = (if q = p then None else node_at d q)"
  by (simp add: node_at_def without_name_def)

lemma node_at_with_name: "node_at (with_name p i d) q = (if q = p then Some (d_nodes d i) else node_at d q)"
  by (simp add: node_at_def with_name_def)

lemma file_at_without [simp]: "file_at (without_name p d) q = (if q = p then None else file_at d q)"
  by (simp add: file_at_def node_at_without)

lemma file_at_with_name: "file_at (with_name p i d) q = (if q = p then Some (n_bytes (d_nodes d i)) else file_at d q)"
  by (simp add: file_at_def node_at_with_name)

lemma file_at_with_file:
  "wf_fsys d \<Longrightarrow> file_at (with_file p data now d) q = (if q = p then Some data else file_at d q)"
  unfolding wf_fsys_def
  by (cases "map_of (d_names d) q") (auto simp: with_file_def file_at_with_name, auto simp: file_at_def node_at_def)

lemma without_name_simps [simp]:
  "d_nodes (without_name p d) = d_nodes d" "d_fresh (without_name p d) = d_fresh d"
  "d_nodes (with_name p i d) = d_nodes d" "d_fresh (with_name p i d) = d_fresh d"
  "d_dirs (without_name p d) = d_dirs d" "d_dirs (with_name p i d) = d_dirs d"
  by (simp_all add: without_name_def with_name_def)

lemma wf_without [simp]: "wf_fsys d \<Longrightarrow> wf_fsys (without_name p d)"
  by (auto simp: wf_fsys_def without_name_def)

lemma wf_with_name: "wf_fsys d \<Longrightarrow> i < d_fresh d \<Longrightarrow> p \<notin> set (d_dirs d) \<Longrightarrow> wf_fsys (with_name p i d)"
  by (auto simp: wf_fsys_def with_name_def)

lemma wf_with_file: "wf_fsys d \<Longrightarrow> p \<notin> set (d_dirs d) \<Longrightarrow> wf_fsys (with_file p data now d)"
  unfolding with_file_def by (rule wf_with_name) (auto simp: wf_fsys_def less_SucI)

lemma with_parents_result:
  assumes "with_parents p d = Inr d'"
  shows "(wf_fsys d \<longrightarrow> wf_fsys d') \<and> file_at d' q = file_at d q"
  using assms by (auto simp: with_parents_def wf_fsys_def list_ex_iff file_at_def node_at_def split: if_splits)

lemma occupied_file: "file_at d p \<noteq> None \<Longrightarrow> occupied_name d p"
  by (auto simp: file_at_def node_at_def occupied_name_def)

lemma make_file_result:
  assumes "make_file b p data now d = Inr (u, d')" and "wf_fsys d"
  shows "wf_fsys d' \<and> file_at d p = None \<and> file_at d' q = (if q = p then Some data else file_at d q)"
proof -
  from assms(1) obtain e where e: "with_parents b d = Inr e" "\<not> occupied_name e p" "d' = with_file p data now e"
    by (auto simp: make_file_def sbind_Inr_iff split: if_splits)
  from with_parents_result [OF e(1)] assms(2) have "wf_fsys e" by blast
  moreover have "file_at e p = None"
    using e(2) occupied_file [of e p] by blast
  ultimately show ?thesis
    using e(2,3) with_parents_result [OF e(1), of p] with_parents_result [OF e(1), of q]
    by (simp add: file_at_with_file occupied_name_def wf_with_file)
qed

lemma link_file:
  "wf_fsys d \<Longrightarrow> map_of (d_names d) a = Some i \<Longrightarrow> file_at (with_name b i d) q = (if q = b then file_at d a else file_at d q)"
  by (simp add: file_at_with_name) (simp add: file_at_def node_at_def)

section \<open>Actions\<close>

text \<open>\<open>spared s q\<close>: the devices leave the file \<open>q\<close> alone.  \<open>apart s q\<close>: they leave it and the temporary
  files alone, and it is none of these.\<close>

definition spared :: "'d site \<Rightarrow> str \<Rightarrow> bool" where
  "spared s q \<longleftrightarrow> (\<forall>n d b. wf_fsys d \<longrightarrow> wf_fsys (fst (others s n (d, b))) \<and>
     file_at (fst (others s n (d, b))) q = file_at d q \<and>
     occupied_name (fst (others s n (d, b))) q = occupied_name d q)"

definition temps :: "'d site \<Rightarrow> str set" where
  "temps s = {t. \<exists>n p. t = st_temp s n p}"

definition apart :: "'d site \<Rightarrow> str \<Rightarrow> bool" where
  "apart s q \<longleftrightarrow> spared s q \<and> q \<notin> temps s \<and> (\<forall>t \<in> temps s. spared s t)"

lemma apart_spared: "apart s q \<Longrightarrow> spared s q"
  and apart_temps: "apart s q \<Longrightarrow> t \<in> temps s \<Longrightarrow> spared s t \<and> t \<noteq> q"
  by (auto simp: apart_def)

definition does :: "(bytes option \<Rightarrow> bytes option \<Rightarrow> bool) \<Rightarrow> str \<Rightarrow> 'a act \<Rightarrow> bool" where
  "does G q m \<longleftrightarrow> (\<forall>w r w'. m w = (r, w') \<longrightarrow> wf_fsys (w_disk w) \<longrightarrow>
     wf_fsys (w_disk w') \<and> G (file_at (w_disk w) q) (file_at (w_disk w') q))"

abbreviation leaves :: "str \<Rightarrow> 'a act \<Rightarrow> bool" where
  "leaves \<equiv> does (=)"

named_theorems leaves_intros \<open>actions that leave a file as it is\<close>

lemma doesD:
  "does G q m \<Longrightarrow> m w = (r, w') \<Longrightarrow> wf_fsys (w_disk w) \<Longrightarrow>
     wf_fsys (w_disk w') \<and> G (file_at (w_disk w) q) (file_at (w_disk w') q)"
  by (auto simp: does_def)

lemma does_bnd_after:
  assumes "leaves q m" and "\<And>x. does G q (f x)" and "\<And>v. G v v"
  shows "does G q (bnd m f)"
  unfolding does_def
proof (intro allI impI)
  fix w r w'
  assume b: "bnd m f w = (r, w')" and wf: "wf_fsys (w_disk w)"
  obtain r1 w1 where 1: "m w = (r1, w1)" by (cases "m w")
  from doesD [OF assms(1) 1 wf] have w1: "wf_fsys (w_disk w1)" "file_at (w_disk w) q = file_at (w_disk w1) q" by auto
  show "wf_fsys (w_disk w') \<and> G (file_at (w_disk w) q) (file_at (w_disk w') q)"
    using b 1 w1 assms(3) doesD [OF assms(2)] by (cases r1) (auto simp: bnd_def)
qed

lemma does_bnd_before:
  assumes "does G q m" and "\<And>x. leaves q (f x)"
  shows "does G q (bnd m f)"
  unfolding does_def
proof (intro allI impI)
  fix w r w'
  assume b: "bnd m f w = (r, w')" and wf: "wf_fsys (w_disk w)"
  obtain r1 w1 where 1: "m w = (r1, w1)" by (cases "m w")
  from doesD [OF assms(1) 1 wf] have w1: "wf_fsys (w_disk w1)" "G (file_at (w_disk w) q) (file_at (w_disk w1) q)" by auto
  show "wf_fsys (w_disk w') \<and> G (file_at (w_disk w) q) (file_at (w_disk w') q)"
    using b 1 w1 doesD [OF assms(2)] by (cases r1) (force simp: bnd_def)+
qed

lemma does_catching:
  assumes "does G q m" and "\<And>e. leaves q (h e)"
  shows "does G q (catching m h)"
  unfolding does_def
proof (intro allI impI)
  fix w r w'
  assume b: "catching m h w = (r, w')" and wf: "wf_fsys (w_disk w)"
  obtain r1 w1 where 1: "m w = (r1, w1)" by (cases "m w")
  from doesD [OF assms(1) 1 wf] have w1: "wf_fsys (w_disk w1)" "G (file_at (w_disk w) q) (file_at (w_disk w1) q)" by auto
  show "wf_fsys (w_disk w') \<and> G (file_at (w_disk w) q) (file_at (w_disk w') q)"
    using b 1 w1 doesD [OF assms(2)] by (cases r1) (force simp: catching_def)+
qed

lemma does_finally:
  assumes "does G q m" and "leaves q c"
  shows "does G q (finally_do m c)"
  unfolding does_def
proof (intro allI impI)
  fix w r w'
  assume b: "finally_do m c w = (r, w')" and wf: "wf_fsys (w_disk w)"
  obtain r1 w1 where 1: "m w = (r1, w1)" by (cases "m w")
  obtain r2 w2 where 2: "c w1 = (r2, w2)" by (cases "c w1")
  from doesD [OF assms(1) 1 wf] have w1: "wf_fsys (w_disk w1)" "G (file_at (w_disk w) q) (file_at (w_disk w1) q)" by auto
  from doesD [OF assms(2) 2 w1(1)] have "wf_fsys (w_disk w2)" "file_at (w_disk w1) q = file_at (w_disk w2) q" by auto
  with b 1 2 w1 show "wf_fsys (w_disk w') \<and> G (file_at (w_disk w) q) (file_at (w_disk w') q)"
    by (cases r2) (auto simp: finally_do_def)
qed

lemma leaves_bnd [leaves_intros]: "leaves q m \<Longrightarrow> (\<And>x. leaves q (f x)) \<Longrightarrow> leaves q (bnd m f)"
  by (rule does_bnd_after) auto

lemmas leaves_catching [leaves_intros] = does_catching [where G = "(=)"]
lemmas leaves_finally [leaves_intros] = does_finally [where G = "(=)"]

lemma leaves_pure: "(\<And>w. w_disk (snd (m w)) = w_disk w) \<Longrightarrow> leaves q m"
  unfolding does_def by (metis snd_conv)

lemma leaves_read_world [leaves_intros]: "leaves q (\<lambda>w. (Inr (f w), w))"
  by (rule leaves_pure) simp

lemma leaves_now [leaves_intros]: "leaves q (now_at s)"
  by (rule leaves_pure) (simp add: now_at_def)

lemma leaves_begin [leaves_intros]: "leaves q begin_tx"
  by (rule leaves_pure) (simp add: begin_tx_def)

lemma leaves_moved [leaves_intros]: "leaves q (index_moved i p)"
  by (rule leaves_pure) (simp add: index_moved_def)

lemma leaves_ret [leaves_intros]: "leaves q (ret x)"
  by (rule leaves_pure) (simp add: ret_def)

lemma leaves_raise [leaves_intros]: "leaves q (raise_exn e)"
  by (rule leaves_pure) (simp add: raise_exn_def)

lemma does_if: "does G q a \<Longrightarrow> does G q b \<Longrightarrow> does G q (if c then a else b)"
  by simp

lemma does_prod: "(\<And>a b. does G q (f a b)) \<Longrightarrow> does G q (case_prod f x)"
  by (cases x) simp

lemma does_option: "does G q n \<Longrightarrow> (\<And>a. does G q (f a)) \<Longrightarrow> does G q (case_option n f x)"
  by (cases x) auto

lemma does_sum: "(\<And>a. does G q (f a)) \<Longrightarrow> (\<And>a. does G q (g a)) \<Longrightarrow> does G q (case_sum f g x)"
  by (cases x) auto

lemma does_list: "does G q n \<Longrightarrow> (\<And>a as. does G q (f a as)) \<Longrightarrow> does G q (case_list n f x)"
  by (cases x) auto

lemma does_Let: "(\<And>a. does G q (f a)) \<Longrightarrow> does G q (Let x f)"
  by simp

lemmas does_cases = does_if does_prod does_option does_sum does_list does_Let
lemmas leaves_cases [leaves_intros] = does_cases [where G = "(=)"]

subsection \<open>Steps\<close>

lemma tick_leaves:
  assumes "spared s q" and "wf_fsys (w_disk w)"
  shows "wf_fsys (w_disk (tick s w)) \<and> file_at (w_disk (tick s w)) q = file_at (w_disk w) q"
    and "occupied_name (w_disk (tick s w)) q = occupied_name (w_disk w) q"
proof -
  obtain d b where o: "others s (w_tick w) (w_disk w, w_db w) = (d, b)" by fastforce
  then have "w_disk (tick s w) = d" by (simp add: tick_def)
  with assms o show "wf_fsys (w_disk (tick s w)) \<and> file_at (w_disk (tick s w)) q = file_at (w_disk w) q"
    and "occupied_name (w_disk (tick s w)) q = occupied_name (w_disk w) q"
    unfolding spared_def by (metis fst_conv)+
qed

lemma does_disk_step:
  assumes ap: "spared s q"
    and "\<And>now d x d'. f now d = Inr (x, d') \<Longrightarrow> wf_fsys d \<Longrightarrow> wf_fsys d' \<and> G (file_at d q) (file_at d' q)"
    and "\<And>v. G v v"
  shows "does G q (disk_step s f)"
  unfolding does_def
proof (intro allI impI)
  fix w r w'
  assume d: "disk_step s f w = (r, w')" and wf: "wf_fsys (w_disk w)"
  note t = tick_leaves [OF ap wf]
  from d t assms(3) show "wf_fsys (w_disk w') \<and> G (file_at (w_disk w) q) (file_at (w_disk w') q)"
    by (auto simp: disk_step_def Let_def split: option.splits sum.splits dest!: assms(2))
qed

lemmas leaves_disk_step = does_disk_step [where G = "(=)", OF _ _ refl]

lemma leaves_own_step:
  assumes ap: "spared s q" and "\<And>w. w_disk (snd (f w)) = w_disk w"
  shows "leaves q (own_step s f)"
  unfolding does_def own_step_def using tick_leaves [OF ap] assms(2)
  by (auto simp: Let_def split: option.splits)

lemma leaves_look [leaves_intros]:
  assumes ap: "spared s q"
  shows "leaves q (disk_step s (\<lambda>now d. Inr (f now d, d)))"
  by (rule leaves_disk_step [OF ap]) auto

lemma leaves_lookup [leaves_intros]:
  assumes ap: "spared s q"
  shows "leaves q (disk_step s (lookup_file p f))"
  by (rule leaves_disk_step [OF ap]) (auto simp: lookup_file_def split: option.splits)

lemma leaves_query [leaves_intros]:
  assumes ap: "spared s q"
  shows "leaves q (query s f)"
  unfolding does_def query_def using tick_leaves [OF ap] by (auto simp: Let_def split: option.splits)

lemma leaves_execute_with [leaves_intros]:
  assumes ap: "spared s q"
  shows "leaves q (execute_with s f g)"
  unfolding does_def execute_with_def using tick_leaves [OF ap] by (auto simp: Let_def split: option.splits)

lemma leaves_commit [leaves_intros]:
  assumes ap: "spared s q"
  shows "leaves q (commit s)"
  unfolding does_def commit_def using tick_leaves [OF ap] by (auto simp: Let_def split: option.splits)

lemma does_finish:
  assumes ap: "spared s q" and "does G q m"
  shows "does G q (finish s m)"
  unfolding does_def
proof (intro allI impI)
  fix w r w'
  assume b: "finish s m w = (r, w')" and wf: "wf_fsys (w_disk w)"
  obtain r1 w1 where 1: "m w = (r1, w1)" by (cases "m w")
  from doesD [OF assms(2) 1 wf] have w1: "wf_fsys (w_disk w1)" "G (file_at (w_disk w) q) (file_at (w_disk w1) q)" by auto
  have "leaves q (bnd (commit s) (\<lambda>u. ret x))" for x
    by (intro leaves_intros ap)
  from doesD [OF this] b 1 w1 show "wf_fsys (w_disk w') \<and> G (file_at (w_disk w) q) (file_at (w_disk w') q)"
    by (cases r1) (force simp: finish_def)+
qed

lemma does_transaction: "spared s q \<Longrightarrow> does G q m \<Longrightarrow> (\<And>v. G v v) \<Longrightarrow> does G q (transaction s m)"
  unfolding transaction_def by (intro does_bnd_after leaves_begin does_finish)

lemma leaves_transaction [leaves_intros]: "spared s q \<Longrightarrow> leaves q m \<Longrightarrow> leaves q (transaction s m)"
  by (rule does_transaction) simp_all

lemma leaves_execute [leaves_intros]:
  assumes ap: "spared s q"
  shows "leaves q (execute s f)"
  unfolding execute_def by (rule leaves_execute_with [OF ap])

subsection \<open>Operations that only look\<close>

lemma leaves_demand [leaves_intros]: "leaves q (demand ok e)"
  unfolding demand_def by (intro leaves_intros)

lemma leaves_demand_valid [leaves_intros]: "leaves q (demand_valid bad t)"
  unfolding demand_valid_def by (cases t) (auto intro: leaves_intros)

lemma leaves_fm_result [leaves_intros]: "leaves q (fm_result x)"
  unfolding fm_result_def by (intro leaves_intros)

lemma leaves_encoded [leaves_intros]: "leaves q (encoded t)"
  unfolding encoded_def by (intro leaves_intros)

lemma leaves_decoded [leaves_intros]: "leaves q (decoded t)"
  unfolding decoded_def by (intro leaves_intros)

lemma leaves_typed_db [leaves_intros]:
  assumes ap: "spared s q"
  shows "leaves q (typed_db s e)"
  unfolding typed_db_def by (intro leaves_intros ap)

lemma leaves_metadata_read [leaves_intros]:
  assumes ap: "spared s q"
  shows "leaves q (metadata_read s e)"
  unfolding metadata_read_def by (intro leaves_intros ap)

lemma leaves_is_note_file [leaves_intros]:
  assumes ap: "spared s q"
  shows "leaves q (is_note_file s p)"
  unfolding is_note_file_def stat_regular_def by (intro leaves_intros ap)

lemma leaves_existing_stems [leaves_intros]:
  assumes ap: "spared s q"
  shows "leaves q (existing_stems s p)"
  unfolding existing_stems_def by (intro leaves_intros ap)

lemma leaves_read_note [leaves_intros]:
  assumes ap: "spared s q"
  shows "leaves q (read_note s i p)"
  unfolding read_note_def by (intro leaves_intros ap)

lemma leaves_parse_at [leaves_intros]:
  assumes ap: "spared s q"
  shows "leaves q (parse_at s i data)"
  unfolding parse_at_def by (intro leaves_intros ap)

lemma leaves_bytes_at [leaves_intros]:
  assumes ap: "spared s q"
  shows "leaves q (bytes_at s i p e)"
  unfolding bytes_at_def by (intro leaves_intros ap)

lemma leaves_sync [leaves_intros]:
  assumes ap: "spared s q"
  shows "leaves q (sync_folder s p)"
  unfolding sync_folder_def by (intro leaves_intros ap)

lemma leaves_lexists [leaves_intros]:
  assumes ap: "spared s q"
  shows "leaves q (lexists s p)"
  unfolding lexists_def by (intro leaves_intros ap)

lemma leaves_filter_files [leaves_intros]:
  assumes ap: "spared s q"
  shows "leaves q (filter_files s ps)"
  by (induction ps) (simp_all, (intro leaves_intros ap; simp)+)

lemma leaves_index_lookup [leaves_intros]:
  assumes ap: "spared s q"
  shows "leaves q (index_lookup s i)"
proof -
  have "leaves q (bnd (filter_files s ps) (\<lambda>live_paths. ret (f live_paths)))" for ps and f :: "str list \<Rightarrow> str list option"
    by (intro leaves_intros ap)
  then show ?thesis
    unfolding does_def index_lookup_def Let_def by (fastforce split: option.splits)
qed

lemma leaves_index_refresh [leaves_intros]:
  assumes ap: "spared s q"
  shows "leaves q (index_refresh s)"
proof -
  have "leaves q (disk_step s (\<lambda>now d. Inr (scan_identities s d, d)))" by (rule leaves_look [OF ap])
  then show ?thesis
    unfolding does_def index_refresh_def Let_def by (fastforce split: prod.splits sum.splits if_splits)
qed

lemma leaves_followed [leaves_intros]:
  assumes ap: "spared s q"
  shows "leaves q (followed s i inl)"
  unfolding followed_def by (intro leaves_intros ap)

lemma leaves_repair [leaves_intros]:
  assumes ap: "spared s q"
  shows "leaves q (repair_location s i a b)"
  unfolding repair_location_def clear_path_notice_def record_path_notice_def
  by (intro leaves_intros ap leaves_own_step [OF ap]) simp_all

lemma leaves_locate [leaves_intros]:
  assumes ap: "spared s q"
  shows "leaves q (locate s i inl)"
  unfolding locate_def by (intro leaves_intros ap)

lemma leaves_filing_state [leaves_intros]:
  assumes ap: "spared s q"
  shows "leaves q (with_filing_state s doc)"
  unfolding with_filing_state_def filing_state_def by (intro leaves_intros ap leaves_own_step [OF ap]) simp_all

lemma leaves_read_manifest [leaves_intros]:
  assumes ap: "spared s q"
  shows "leaves q (read_manifest s i)"
  unfolding read_manifest_def by (intro leaves_intros ap leaves_own_step [OF ap]) simp_all

lemma leaves_links_for [leaves_intros]:
  assumes ap: "spared s q"
  shows "leaves q (links_for s paths ids)"
  by (induction ids) (simp_all, (intro leaves_intros ap; simp)+)

lemma leaves_artifact_links [leaves_intros]:
  assumes ap: "spared s q"
  shows "leaves q (artifact_links s fm cur)"
proof -
  have "leaves q (bnd (known_paths s ids) (\<lambda>paths. links_for s paths ids))" for ids
    unfolding known_paths_def by (intro leaves_intros ap)
  then show ?thesis
    by (auto simp: artifact_links_def Let_def leaves_ret split: pyval.splits list.splits)
qed

lemma leaves_index_note [leaves_intros]:
  assumes ap: "spared s q"
  shows "leaves q (index_note s i p t b v now)"
  unfolding index_note_def by (intro leaves_intros ap)

lemma leaves_source_revisions [leaves_intros]:
  assumes ap: "spared s q"
  shows "leaves q (source_revisions s is)"
  by (induction "is") (simp_all, (intro leaves_intros ap leaves_own_step [OF ap]; simp)+)

lemma leaves_record_review [leaves_intros]:
  assumes ap: "spared s q"
  shows "leaves q (record_review s i fm)"
  unfolding record_review_def save_review_def by (intro leaves_intros ap leaves_own_step [OF ap]) simp_all

lemma leaves_add_row [leaves_intros]:
  assumes ap: "spared s q"
  shows "leaves q (add_row s i r)"
  unfolding add_row_def by (intro leaves_intros ap)

lemma leaves_create_folder [leaves_intros]:
  assumes ap: "spared s q"
  shows "leaves q (create_folder s f)"
  unfolding create_folder_def by (intro leaves_intros ap)

lemma leaves_free_stem [leaves_intros]:
  assumes ap: "spared s q"
  shows "leaves q (free_stem s a b)"
  unfolding free_stem_def by (intro leaves_intros ap)

lemma leaves_existing_parts [leaves_intros]:
  assumes ap: "spared s q"
  shows "leaves q (existing_parts s cur parts)"
  by (induction parts arbitrary: cur) (simp_all, (intro leaves_intros ap; simp)+)

lemma leaves_existing_folder [leaves_intros]:
  assumes ap: "spared s q"
  shows "leaves q (existing_folder s f)"
  unfolding existing_folder_def by (intro leaves_intros ap)

lemma leaves_refuse [leaves_intros]:
  assumes ap: "spared s q"
  shows "leaves q (refuse_taken s a b c)" "leaves q (refuse_held s d)"
  unfolding refuse_taken_def refuse_held_def by (intro leaves_intros ap)+

lemma leaves_read_again [leaves_intros]:
  assumes ap: "spared s q"
  shows "leaves q (read_again s a b)"
  unfolding read_again_def by (intro leaves_intros ap)

lemma leaves_adopt_check [leaves_intros]:
  assumes ap: "spared s q"
  shows "leaves q (adopt_check s a b c)"
  unfolding adopt_check_def by (intro leaves_intros ap)

end
