(* ===== verification/NoteLaws.thy ===== *)
theory NoteLaws
  imports NoteSafety
begin

text \<open>
  Which bytes the note operations replace.  A conditional write (replace, patch, rename, adopt) only
  ever replaces bytes that hash to what the caller named and that are the note's; a create makes only
  names nothing held; a move or a rename never leaves a note without a file.  All of it holds for
  every failure of every step and every request running beside.
\<close>

section \<open>One step at a time\<close>

lemma bnd_result:
  assumes "bnd m f w = (r, w')"
  obtains (fails) e where "m w = (Inl e, w')" "r = Inl e"
    | (goes) x w1 where "m w = (Inr x, w1)" "f x w1 = (r, w')"
  using assms by (cases "m w"; cases "fst (m w)") (auto simp: bnd_def)

lemma catching_result:
  assumes "catching m h w = (r, w')"
  obtains (fine) x where "m w = (Inr x, w')" "r = Inr x"
    | (caught) e w1 where "m w = (Inl e, w1)" "h e w1 = (r, w')"
  using assms by (cases "m w"; cases "fst (m w)") (auto simp: catching_def)

lemma disk_step_result:
  assumes "disk_step s f w = (r, w')"
  obtains (fault) m where "r = Inl (OsError m)" "w' = tick s w"
    | (refused) e where "r = Inl e" "w' = tick s w" "f (st_clock s (w_tick w)) (w_disk (tick s w)) = Inl e"
    | (works) x d where "r = Inr x" "f (st_clock s (w_tick w)) (w_disk (tick s w)) = Inr (x, d)"
        "w' = (tick s w)\<lparr>w_disk := d\<rparr>"
proof (cases "os_fault s (w_tick w)")
  case None
  show thesis
  proof (cases "f (st_clock s (w_tick w)) (w_disk (tick s w))")
    case (Inr y)
    obtain x d where "y = (x, d)" by (cases y)
    with None Inr assms show thesis by (intro works [of x d]) (auto simp: disk_step_def Let_def)
  next
    case (Inl e)
    with None assms show thesis by (intro refused [of e]) (simp_all add: disk_step_def Let_def)
  qed
next
  case (Some m)
  with assms show thesis by (intro fault [of m]) (simp_all add: disk_step_def Let_def)
qed

lemma raise_result: "raise_exn e w = (r, w') \<longleftrightarrow> r = Inl e \<and> w' = w"
  by (auto simp: raise_exn_def)

lemma ret_result: "ret x w = (r, w') \<longleftrightarrow> r = Inr x \<and> w' = w"
  by (auto simp: ret_def)

section \<open>Temporary files\<close>

lemma apart_temp: "apart s q \<Longrightarrow> st_temp s n p \<noteq> q"
  by (auto simp: apart_def temps_def)

lemma leaves_unlink_temp:
  assumes "apart s q" and "t \<in> temps s"
  shows "leaves q (unlink_missing_ok s t)"
proof -
  have "t \<noteq> q" using assms by (auto simp: apart_def)
  then show ?thesis
    unfolding unlink_missing_ok_def by (intro leaves_disk_step [OF apart_spared [OF assms(1)]]) auto
qed

lemma leaves_make_file:
  assumes "spared s q" and "t \<noteq> q"
  shows "leaves q (disk_step s (make_file p t data))"
  using assms(2) by (intro leaves_disk_step [OF assms(1)]) (auto dest: make_file_result [where q = q])

lemma leaves_stage:
  assumes "apart s q"
  shows "leaves q (stage s p data)"
proof -
  have "leaves q (bnd (disk_step s (make_file p t data)) (\<lambda>u. ret t))" if "t \<noteq> q" for t
    using that by (intro leaves_intros leaves_make_file apart_spared assms)
  from this [OF apart_temp [OF assms]] show ?thesis
    unfolding does_def stage_def bnd_def by simp
qed

lemma stage_result:
  assumes "apart s q" and "stage s p data w = (Inr t, w')" and "wf_fsys (w_disk w)"
  shows "t \<in> temps s \<and> t \<noteq> q \<and> file_at (w_disk w') t = Some data"
proof -
  let ?t = "st_temp s (w_tick w) p"
  have t: "?t \<in> temps s" by (auto simp: temps_def)
  from assms(2) obtain u where "disk_step s (make_file p ?t data) w = (Inr u, w')" "t = ?t"
    by (auto simp: stage_def bnd_def ret_def split: prod.splits sum.splits)
  then show ?thesis
    using t apart_temps [OF assms(1) t] tick_leaves [OF conjunct1 [OF apart_temps [OF assms(1) t]] assms(3)]
    by (cases rule: disk_step_result) (auto dest!: make_file_result [where q = ?t])
qed

lemma rename_temp:
  assumes ap: "apart s q" and "disk_step s (rename_name t p) w = (r, w')" and wf: "wf_fsys (w_disk w)"
    and t: "t \<in> temps s" and "file_at (w_disk w) t = Some data"
  shows "wf_fsys (w_disk w') \<and> file_at (w_disk w') q = (if q = p \<and> r = Inr () then Some data else file_at (w_disk w) q)"
proof -
  note tq = tick_leaves [OF apart_spared [OF ap] wf]
  note tt = tick_leaves [OF conjunct1 [OF apart_temps [OF ap t]] wf]
  have tn: "t \<noteq> q" using t ap by (auto simp: apart_def)
  from assms(2) show ?thesis
  proof (cases rule: disk_step_result)
    case (works x d)
    let ?d = "w_disk (tick s w)"
    from works(2) obtain i where i: "map_of (d_names ?d) t = Some i" "d = with_name p i (without_name t ?d)"
      by (auto simp: rename_name_def split: option.splits if_splits)
    moreover have "p \<notin> set (d_dirs (without_name t ?d))"
      using works(2) i(1) by (auto simp: rename_name_def without_name_def split: if_splits)
    moreover have "i < d_fresh ?d" using tq i(1) by (auto simp: wf_fsys_def)
    moreover have "n_bytes (d_nodes ?d i) = data"
    proof -
      have "file_at ?d t = Some data" using tt assms(5) by simp
      then show ?thesis using i(1) by (simp add: file_at_def node_at_def)
    qed
    ultimately show ?thesis
      using tq works(1,3) tn by (simp add: i(2) file_at_with_name wf_with_name)
  qed (use tq in auto)
qed

text \<open>Renaming staged bytes over a file: afterwards it holds what it held or the staged bytes.\<close>

lemma commit_temp_result:
  assumes ap: "apart s q" and "commit_temp s t p w = (r, w')" and wf: "wf_fsys (w_disk w)"
    and t: "t \<in> temps s" and "file_at (w_disk w) t = Some data"
  shows "wf_fsys (w_disk w') \<and> (file_at (w_disk w') q = file_at (w_disk w) q \<or> q = p \<and> file_at (w_disk w') q = Some data) \<and>
     (r = Inr () \<longrightarrow> q = p \<longrightarrow> file_at (w_disk w') q = Some data)"
proof -
  note un = leaves_unlink_temp [OF ap t]
  note sp = apart_spared [OF ap]
  have rep: "wf_fsys (w_disk w1) \<and> file_at (w_disk w1) q = (if q = p \<and> r1 = Inr () then Some data else file_at (w_disk w) q)"
    if "replace_temp s t p w = (r1, w1)" for r1 w1
    using that [unfolded replace_temp_def]
  proof (cases rule: catching_result)
    case (fine x)
    with rename_temp [OF ap fine(1) wf t assms(5)] show ?thesis by simp
  next
    case (caught e w2)
    from rename_temp [OF ap caught(1) wf t assms(5)]
    have 2: "wf_fsys (w_disk w2)" "file_at (w_disk w2) q = file_at (w_disk w) q" by auto
    have "leaves q (bnd (unlink_missing_ok s t) (\<lambda>u. raise_exn e))"
      by (intro leaves_intros un)
    from doesD [OF this caught(2) 2(1)] 2(2) have "wf_fsys (w_disk w1) \<and> file_at (w_disk w1) q = file_at (w_disk w) q" by simp
    moreover have "r1 \<noteq> Inr ()"
      using caught(2) by (auto simp: bnd_def raise_exn_def split: prod.splits sum.splits)
    ultimately show ?thesis by simp
  qed
  from assms(2) [unfolded commit_temp_def] show ?thesis
  proof (cases rule: bnd_result)
    case (fails e)
    with rep [OF fails(1)] show ?thesis by simp
  next
    case (goes x w1)
    from rep [OF goes(1)] doesD [OF leaves_sync [OF sp] goes(2)] show ?thesis by (auto split: if_splits)
  qed
qed

section \<open>The conditional replace\<close>

text \<open>What a note's file may become: what it was, or the new bytes when it was this note at the ETag.\<close>

definition at_version :: "'d site \<Rightarrow> str \<Rightarrow> str option \<Rightarrow> bytes \<Rightarrow> bool" where
  "at_version s note_id etag old \<longleftrightarrow> (\<forall>e. etag = Some e \<longrightarrow> st_hash s old = e) \<and>
     (\<exists>fm body. parse_note (st_objects s) (st_yaml s) (st_reason s) note_id old (st_schema s) = Inr (fm, body))"

lemma read_note_result:
  assumes sp: "spared s p" and r: "read_note s i p w = (Inr (d, k), w1)" and wf: "wf_fsys (w_disk w)"
  shows "file_at (w_disk w) p = Some d"
  using r [unfolded read_note_def]
proof (cases rule: catching_result)
  case (fine x)
  from fine(1) show ?thesis
  proof (cases rule: bnd_result)
    case (goes y w2)
    from goes(2) fine(2) have "y = d"
      by (auto simp: bnd_def ret_def split: prod.splits sum.splits)
    moreover from goes(1) have "file_at (w_disk (tick s w)) p = Some y"
      by (cases rule: disk_step_result) (auto simp: lookup_file_def file_at_def split: option.splits)
    ultimately show ?thesis using tick_leaves [OF sp wf] by simp
  qed (use fine in auto)
qed (auto simp: raise_exn_def)

lemma bytes_at_result:
  assumes sp: "spared s p" and "bytes_at s i p etag w = (Inr (old, fm, m), w')" and wf: "wf_fsys (w_disk w)"
  shows "file_at (w_disk w) p = Some old \<and> at_version s i etag old \<and>
     (\<exists>body. parse_note (st_objects s) (st_yaml s) (st_reason s) i old (st_schema s) = Inr (fm, body))"
proof -
  obtain d k w1 where r: "read_note s i p w = (Inr (d, k), w1)"
    and c: "bnd (parse_at s i d) (\<lambda>(fm, body). case etag of
        Some e \<Rightarrow> if st_hash s d \<noteq> e then raise_exn (Typed (VersionConflict (st_hash s d))) else ret (d, fm, k)
      | None \<Rightarrow> ret (d, fm, k)) w1 = (Inr (old, fm, m), w')"
    using assms(2) [unfolded bytes_at_def] by (cases rule: bnd_result) auto
  from c obtain body where p: "parse_note (st_objects s) (st_yaml s) (st_reason s) i d (st_schema s) = Inr (fm, body)"
    and e: "\<forall>e. etag = Some e \<longrightarrow> st_hash s d = e" and "d = old"
    by (auto simp: parse_at_def raise_exn_def ret_def bnd_def split: sum.splits option.splits if_splits)
  with read_note_result [OF sp r wf] show ?thesis by (auto simp: at_version_def)
qed

definition may_write :: "'d site \<Rightarrow> str \<Rightarrow> str option \<Rightarrow> bytes option \<Rightarrow> bytes option \<Rightarrow> bool" where
  "may_write s note_id etag v v' \<longleftrightarrow> v' = v \<or> (\<exists>old. v = Some old \<and> at_version s note_id etag old)"

lemma may_write_refl [simp]: "may_write s i e v v"
  by (simp add: may_write_def)

text \<open>The replace is conditional: it changes a file only when, before, it was the note's at the ETag.\<close>

lemma replace_if_unchanged_result:
  assumes ap: "apart s q" and "replace_if_unchanged s i p data e w = (r, w')" and wf: "wf_fsys (w_disk w)"
  shows "wf_fsys (w_disk w') \<and>
     (file_at (w_disk w') q = file_at (w_disk w) q \<or>
      q = p \<and> file_at (w_disk w') q = Some data \<and>
      (\<exists>old. file_at (w_disk w) q = Some old \<and> at_version s i (Some e) old)) \<and>
     (r = Inr () \<longrightarrow> q = p \<longrightarrow> file_at (w_disk w') q = Some data)"
proof -
  note sp = apart_spared [OF ap]
  from assms(2) [unfolded replace_if_unchanged_def] show ?thesis
  proof (cases rule: bnd_result)
    case (fails x)
    have "leaves q (catching (stage s p data) (\<lambda>e. raise_exn (notes_unavailable s e)))"
      by (intro leaves_intros leaves_stage ap sp)
    from doesD [OF this fails(1) wf] fails(2) show ?thesis by simp
  next
    case (goes t w1)
    then have st: "stage s p data w = (Inr t, w1)"
      by (auto elim: catching_result simp: raise_exn_def)
    from doesD [OF leaves_stage [OF ap] st wf]
    have 1: "wf_fsys (w_disk w1)" "file_at (w_disk w1) q = file_at (w_disk w) q" by auto
    from stage_result [OF ap st wf] have t: "t \<in> temps s" "file_at (w_disk w1) t = Some data" by auto
    have ending: "leaves q (bnd (unlink_missing_ok s t) (\<lambda>u. raise_exn (notes_unavailable s x)))" for x
      by (intro leaves_intros leaves_unlink_temp [OF ap t(1)])
    have body: "wf_fsys (w_disk w2) \<and>
       (file_at (w_disk w2) q = file_at (w_disk w) q \<or>
        q = p \<and> file_at (w_disk w2) q = Some data \<and>
        (\<exists>old. file_at (w_disk w) q = Some old \<and> at_version s i (Some e) old)) \<and>
       (r2 = Inr () \<longrightarrow> q = p \<longrightarrow> file_at (w_disk w2) q = Some data)"
      if b: "bnd (bytes_at s i p (Some e)) (\<lambda>r. commit_temp s t p) w1 = (r2, w2)" for r2 w2
      using b
    proof (cases rule: bnd_result)
      case (fails x)
      from doesD [OF leaves_bytes_at [OF sp] fails(1) 1(1)] 1(2) fails(2) show ?thesis by simp
    next
      case (goes x w3)
      obtain old fm m where x: "x = (old, fm, m)" by (cases x)
      from doesD [OF leaves_bytes_at [OF sp] goes(1) 1(1)] 1(2)
      have 3: "wf_fsys (w_disk w3)" "file_at (w_disk w3) q = file_at (w_disk w) q" by auto
      have "file_at (w_disk w3) t = Some data"
        using doesD [OF leaves_bytes_at goes(1) 1(1)] apart_temps [OF ap t(1)] t(2) by auto
      moreover have "q = p \<Longrightarrow> \<exists>old. file_at (w_disk w) q = Some old \<and> at_version s i (Some e) old"
        using bytes_at_result [OF _ goes(1) [unfolded x] 1(1)] sp 1(2) by metis
      ultimately show ?thesis
        using commit_temp_result [OF ap goes(2) 3(1) t(1)] 3(2) by auto
    qed
    from goes(2) show ?thesis
    proof (cases rule: catching_result)
      case (fine x)
      with body [OF fine(1)] show ?thesis by simp
    next
      case (caught x w2)
      from body [OF caught(1)] doesD [OF ending caught(2)]
      have "r \<noteq> Inr ()" if "r = Inr ()"
        using caught(2) that by (auto simp: bnd_def raise_exn_def split: prod.splits sum.splits)
      with body [OF caught(1)] doesD [OF ending caught(2)] show ?thesis by auto
    qed
  qed
qed

section \<open>Replace and patch\<close>

lemma write_leaves: "leaves q m \<Longrightarrow> does (may_write s i e) q m"
  unfolding does_def by (metis may_write_refl)

lemma does_replace:
  assumes "apart s q"
  shows "does (may_write s i (Some e)) q (replace_if_unchanged s i p data e)"
  unfolding does_def may_write_def using replace_if_unchanged_result [OF assms] by blast

lemma does_conditional:
  assumes ap: "apart s q" and a: "leaves q a" and b: "\<And>u. leaves q (b u)" and c: "\<And>u. leaves q (c u)"
    and r: "\<And>u. does (may_write s i e) q (r u)"
  shows "does (may_write s i e) q
     (catching (transaction s (bnd a (\<lambda>u. bnd (b u) (\<lambda>u. bnd (r u) c)))) (typed_db s))"
  by (rule does_catching [OF does_transaction [OF apart_spared [OF ap]]], rule does_bnd_after [OF a],
      rule does_bnd_after [OF b], rule does_bnd_before [OF r c]) (auto intro: leaves_typed_db apart_spared ap)

lemma does_raise: "does (may_write s i e) q (raise_exn x)"
  by (intro write_leaves leaves_intros)

lemma does_replace_note:
  assumes ap: "apart s q"
  shows "does (may_write s i (Some e)) q (replace_note s i request body e)"
proof -
  note sp = apart_spared [OF ap]
  show ?thesis
    unfolding replace_note_def Let_def
    by ((rule does_raise | (rule does_bnd_after, (intro leaves_intros sp; fail)[1]) | rule does_cases)+,
        rule does_bnd_before [OF does_conditional [OF ap]])
      (intro leaves_intros sp does_replace ap may_write_refl)+
qed

lemma does_patch:
  assumes ap: "apart s q"
  shows "does (may_write s i (Some e)) q (patch_frontmatter s i asked unset e)"
proof -
  note sp = apart_spared [OF ap]
  show ?thesis
    unfolding patch_frontmatter_def Let_def
    by ((rule does_raise | (rule does_bnd_after, (intro leaves_intros sp; fail)[1]) | rule does_cases)+,
        rule does_bnd_before [OF does_conditional [OF ap]])
      (intro leaves_intros sp does_replace ap may_write_refl does_if write_leaves)+
qed

section \<open>Adoption\<close>

text \<open>What a check found out about the file before the rest ran.\<close>

lemma does_bnd_checked:
  assumes "leaves q m" and c: "\<And>w x w'. m w = (Inr x, w') \<Longrightarrow> wf_fsys (w_disk w) \<Longrightarrow> K x \<and> C x (file_at (w_disk w) q)"
    and f: "\<And>x. K x \<Longrightarrow> does (\<lambda>v v'. C x v \<longrightarrow> G v v') q (f x)" and "\<And>v. G v v"
  shows "does G q (bnd m f)"
  unfolding does_def
proof (intro allI impI)
  fix w r w'
  assume "bnd m f w = (r, w')" and wf: "wf_fsys (w_disk w)"
  then show "wf_fsys (w_disk w') \<and> G (file_at (w_disk w) q) (file_at (w_disk w') q)"
  proof (cases rule: bnd_result)
    case (goes x w1)
    from doesD [OF assms(1) goes(1) wf] c [OF goes(1) wf] doesD [OF f goes(2)] show ?thesis by auto
  qed (use doesD [OF assms(1)] wf assms(4) in auto)
qed

lemma does_weaken: "does G q m \<Longrightarrow> (\<And>v v'. G v v' \<Longrightarrow> G' v v') \<Longrightarrow> does G' q m"
  by (auto simp: does_def)

lemma leaves_does: "leaves q m \<Longrightarrow> (\<And>v. G v v) \<Longrightarrow> does G q m"
  by (rule does_weaken [of "(=)"]) auto

lemma does_commit_temp:
  assumes ap: "apart s q" and t: "t \<in> temps s"
  shows "does (\<lambda>v v'. q = p \<or> v' = v) q (commit_temp s t p)"
proof -
  have "does (\<lambda>v v'. q = p \<or> v' = v) q (disk_step s (rename_name t p))"
    by (rule does_disk_step [OF apart_spared [OF ap]])
      (use apart_temps [OF ap t] in \<open>auto simp: rename_name_def file_at_with_name split: option.splits if_splits
         intro!: wf_with_name\<close>, auto simp: wf_fsys_def)
  then show ?thesis
    unfolding commit_temp_def replace_temp_def
    by (intro does_bnd_before does_catching leaves_intros leaves_unlink_temp [OF ap t] apart_spared [OF ap])
qed

definition may_adopt :: "'d site \<Rightarrow> str \<Rightarrow> bytes option \<Rightarrow> bytes option \<Rightarrow> bool" where
  "may_adopt s expected v v' \<longleftrightarrow> v' = v \<or> (\<exists>old. v = Some old \<and> st_hash s old = expected)"

lemma may_adopt_refl [simp]: "may_adopt s e v v"
  by (simp add: may_adopt_def)

lemma does_staged:
  assumes ap: "apart s q" and f: "\<And>t. t \<in> temps s \<Longrightarrow> does G q (f t)" and "\<And>v. G v v"
  shows "does G q (bnd (catching (stage s p data) (\<lambda>e. raise_exn (h e))) f)"
proof (rule does_bnd_checked [where K = "\<lambda>t. t \<in> temps s" and C = "\<lambda>t v. True"])
  show "leaves q (catching (stage s p data) (\<lambda>e. raise_exn (h e)))"
    by (intro leaves_intros leaves_stage ap)
  fix w t w'
  assume "catching (stage s p data) (\<lambda>e. raise_exn (h e)) w = (Inr t, w')" "wf_fsys (w_disk w)"
  then show "t \<in> temps s \<and> True"
    by (cases rule: catching_result) (auto simp: raise_exn_def dest: stage_result [OF ap])
qed (use f assms(3) in auto)

lemma does_adopt_write:
  assumes ap: "apart s q"
  shows "does (may_adopt s e) q (adopt_write s i p data e)"
  unfolding adopt_write_def
proof (rule does_staged [OF ap])
  fix t
  assume t: "t \<in> temps s"
  note sp = apart_spared [OF ap] and un = leaves_unlink_temp [OF ap t]
  have "does (may_adopt s e) q (bnd (read_note s i p) (\<lambda>(latest, m).
        if st_hash s latest \<noteq> e
        then bnd (unlink_missing_ok s t) (\<lambda>u. ret (Some (Changed, device_cause)))
        else bnd (commit_temp s t p) (\<lambda>u. ret None)))"
  proof (rule does_bnd_checked [where K = "\<lambda>x. True" and C = "\<lambda>x v. q = p \<longrightarrow> v = Some (fst x)"])
    show "leaves q (read_note s i p)" by (rule leaves_read_note [OF sp])
    show "True \<and> (q = p \<longrightarrow> file_at (w_disk w) q = Some (fst x))"
      if "read_note s i p w = (Inr x, w')" "wf_fsys (w_disk w)" for w x w'
      using read_note_result [of s q i w "fst x" "snd x"] sp that by auto
    fix x :: "bytes \<times> int"
    obtain d m where x: "x = (d, m)" by (cases x)
    have 1: "leaves q (bnd (unlink_missing_ok s t) (\<lambda>u. ret (Some (Changed, device_cause))))"
      by (intro leaves_intros un)
    have 2: "does (\<lambda>v v'. q = p \<or> v' = v) q (bnd (commit_temp s t p) (\<lambda>u. ret (None :: (adoption \<times> str) option)))"
      by (intro does_bnd_before does_commit_temp ap t leaves_intros)
    show "does (\<lambda>v v'. (q = p \<longrightarrow> v = Some (fst x)) \<longrightarrow> may_adopt s e v v') q
       ((\<lambda>(latest, m). if st_hash s latest \<noteq> e
          then bnd (unlink_missing_ok s t) (\<lambda>u. ret (Some (Changed, device_cause)))
          else bnd (commit_temp s t p) (\<lambda>u. ret None)) x)"
    proof (cases "st_hash s d = e")
      case True
      then show ?thesis
        unfolding x prod.case by (simp, intro does_weaken [OF 2]) (auto simp: may_adopt_def)
    next
      case False
      then show ?thesis
        unfolding x prod.case by (simp, intro does_weaken [OF 1]) (auto simp: may_adopt_def)
    qed
  qed simp
  then show "does (may_adopt s e) q (catching (bnd (read_note s i p) (\<lambda>(latest, m).
        if st_hash s latest \<noteq> e
        then bnd (unlink_missing_ok s t) (\<lambda>u. ret (Some (Changed, device_cause)))
        else bnd (commit_temp s t p) (\<lambda>u. ret None)))
       (\<lambda>x. bnd (unlink_missing_ok s t) (\<lambda>u.
            if x = Typed (NotFoundNote i) then ret (Some (Changed, gone_cause))
            else raise_exn (notes_unavailable s x))))"
    by (intro does_catching leaves_intros un)
qed simp

lemma does_adopt:
  assumes ap: "apart s q"
  shows "does (may_adopt s e) q (adopt_note s category p e)"
proof -
  note sp = apart_spared [OF ap]
  have keep: "does (may_adopt s e) q m" if "leaves q m" for m :: "'b act"
    by (rule leaves_does [OF that]) simp
  have core: "does (may_adopt s e) q (if c then adopt_write s p f d e else adopt_check s p f e)" for c f d
    by (intro does_if does_adopt_write ap keep leaves_adopt_check sp)
  show ?thesis
    unfolding adopt_note_def
    by (intro does_cases keep leaves_ret does_bnd_after [OF leaves_read_again [OF sp]] does_bnd_after [OF leaves_now]
        does_bnd_after [OF leaves_read_world] does_bnd_after [OF leaves_encoded] does_catching [OF does_transaction [OF sp]]
        does_bnd_after [OF leaves_query [OF sp]] does_bnd_before [OF core] may_adopt_refl)
      (intro leaves_intros sp)+
qed

end
