(* ===== verification/NoteMoves.thy ===== *)
theory NoteMoves
  imports NoteLaws
begin

text \<open>
  Creating, moving and renaming: a create takes only names nothing holds, and a move or a rename
  leaves the note's bytes under the old name or the new one, whatever fails.
\<close>

section \<open>Several files at once\<close>

definition seen_in :: "str set \<Rightarrow> fsys \<Rightarrow> str \<Rightarrow> bytes option" where
  "seen_in S d = (\<lambda>q. if q \<in> S then file_at d q else None)"

definition does_all :: "((str \<Rightarrow> bytes option) \<Rightarrow> (str \<Rightarrow> bytes option) \<Rightarrow> bool) \<Rightarrow> str set \<Rightarrow> 'a act \<Rightarrow> bool" where
  "does_all G S m \<longleftrightarrow> (\<forall>w r w'. m w = (r, w') \<longrightarrow> wf_fsys (w_disk w) \<longrightarrow>
     wf_fsys (w_disk w') \<and> G (seen_in S (w_disk w)) (seen_in S (w_disk w')))"

lemma does_allD:
  "does_all G S m \<Longrightarrow> m w = (r, w') \<Longrightarrow> wf_fsys (w_disk w) \<Longrightarrow>
     wf_fsys (w_disk w') \<and> G (seen_in S (w_disk w)) (seen_in S (w_disk w'))"
  by (auto simp: does_all_def)

lemma leaves_all:
  assumes "S \<noteq> {}" and "\<And>q. q \<in> S \<Longrightarrow> leaves q m"
  shows "does_all (=) S m"
  unfolding does_all_def
proof (intro allI impI)
  fix w r w'
  assume m: "m w = (r, w')" "wf_fsys (w_disk w)"
  from assms(1) obtain q where "q \<in> S" by blast
  with doesD [OF assms(2) m] have "wf_fsys (w_disk w')" by blast
  moreover have "seen_in S (w_disk w) = seen_in S (w_disk w')"
    using doesD [OF assms(2) m] by (auto simp: seen_in_def)
  ultimately show "wf_fsys (w_disk w') \<and> seen_in S (w_disk w) = seen_in S (w_disk w')" ..
qed

lemma all_bnd_after:
  assumes m: "does_all (=) S m" and f: "\<And>x. does_all G S (f x)" and "\<And>v. G v v"
  shows "does_all G S (bnd m f)"
  unfolding does_all_def
proof (intro allI impI)
  fix w r w'
  assume "bnd m f w = (r, w')" and wf: "wf_fsys (w_disk w)"
  then show "wf_fsys (w_disk w') \<and> G (seen_in S (w_disk w)) (seen_in S (w_disk w'))"
  proof (cases rule: bnd_result)
    case (goes x w1)
    from does_allD [OF m goes(1) wf] does_allD [OF f goes(2)] show ?thesis by auto
  qed (use does_allD [OF m] wf assms(3) in auto)
qed

lemma all_bnd_before:
  assumes m: "does_all G S m" and f: "\<And>x. does_all (=) S (f x)"
  shows "does_all G S (bnd m f)"
  unfolding does_all_def
proof (intro allI impI)
  fix w r w'
  assume "bnd m f w = (r, w')" and wf: "wf_fsys (w_disk w)"
  then show "wf_fsys (w_disk w') \<and> G (seen_in S (w_disk w)) (seen_in S (w_disk w'))"
  proof (cases rule: bnd_result)
    case (goes x w1)
    from does_allD [OF m goes(1) wf] does_allD [OF f goes(2)] show ?thesis by auto
  qed (use does_allD [OF m] wf in auto)
qed

lemma all_catching:
  assumes m: "does_all G S m" and h: "\<And>e. does_all (=) S (h e)"
  shows "does_all G S (catching m h)"
  unfolding does_all_def
proof (intro allI impI)
  fix w r w'
  assume "catching m h w = (r, w')" and wf: "wf_fsys (w_disk w)"
  then show "wf_fsys (w_disk w') \<and> G (seen_in S (w_disk w)) (seen_in S (w_disk w'))"
  proof (cases rule: catching_result)
    case (caught e w1)
    from does_allD [OF m caught(1) wf] does_allD [OF h caught(2)] show ?thesis by auto
  qed (use does_allD [OF m] wf in auto)
qed

section \<open>Moving a file\<close>

lemma unlink_result:
  assumes "spared s q" and "unlink s p w = (r, w')" and "wf_fsys (w_disk w)"
  shows "wf_fsys (w_disk w') \<and> file_at (w_disk w') q = (if q = p \<and> r = Inr () then None else file_at (w_disk w) q)"
  using assms(2) [unfolded unlink_def] tick_leaves [OF assms(1,3)]
  by (cases rule: disk_step_result) (auto simp: unlink_name_def split: option.splits)

text \<open>A name that is gone stays free.\<close>

lemma free_after_unlink:
  assumes "unlink s a w = (Inr u, w')" and "spared s a" and "wf_fsys (w_disk w)"
  shows "\<not> occupied_name (w_disk w') a"
  using assms(1) [unfolded unlink_def] tick_leaves(1) [OF assms(2,3)]
  by (cases rule: disk_step_result)
    (auto simp: unlink_name_def occupied_name_def wf_fsys_def without_name_def split: option.splits)

definition keeps_free :: "str \<Rightarrow> 'a act \<Rightarrow> bool" where
  "keeps_free a m \<longleftrightarrow> (\<forall>w r w'. m w = (r, w') \<longrightarrow> wf_fsys (w_disk w) \<longrightarrow> \<not> occupied_name (w_disk w) a \<longrightarrow>
     wf_fsys (w_disk w') \<and> \<not> occupied_name (w_disk w') a)"

lemma keeps_free_step:
  assumes "spared s a"
    and "\<And>now d x d'. f now d = Inr (x, d') \<Longrightarrow> wf_fsys d \<Longrightarrow> \<not> occupied_name d a \<Longrightarrow> wf_fsys d' \<and> \<not> occupied_name d' a"
  shows "keeps_free a (disk_step s f)"
  unfolding keeps_free_def
proof (intro allI impI)
  fix w r w'
  assume d: "disk_step s f w = (r, w')" and wf: "wf_fsys (w_disk w)" and f: "\<not> occupied_name (w_disk w) a"
  from d tick_leaves [OF assms(1) wf] f show "wf_fsys (w_disk w') \<and> \<not> occupied_name (w_disk w') a"
    by (cases rule: disk_step_result) (auto dest: assms(2))
qed

lemma keeps_free_bnd: "keeps_free a m \<Longrightarrow> (\<And>x. keeps_free a (f x)) \<Longrightarrow> keeps_free a (bnd m f)"
  unfolding keeps_free_def by (blast elim: bnd_result)

lemma keeps_free_sync: "spared s a \<Longrightarrow> keeps_free a (sync_folder s p)"
  unfolding sync_folder_def by (rule keeps_free_step) auto

lemma keeps_free_unlink: "spared s a \<Longrightarrow> keeps_free a (unlink_missing_ok s p)"
  unfolding unlink_missing_ok_def
  by (rule keeps_free_step) (auto simp: occupied_name_def, auto simp: without_name_def)

lemma keeps_free_ret: "keeps_free a (ret x)"
  by (simp add: keeps_free_def ret_def)

lemma unlink_ok_result:
  assumes "spared s q" and "unlink_missing_ok s p w = (r, w')" and "wf_fsys (w_disk w)"
  shows "wf_fsys (w_disk w') \<and> file_at (w_disk w') q = (if q = p \<and> r = Inr () then None else file_at (w_disk w) q)"
  using assms(2) [unfolded unlink_missing_ok_def] tick_leaves [OF assms(1,3)]
  by (cases rule: disk_step_result) auto

lemma link_result:
  assumes "spared s q" and "spared s a" and "disk_step s (link_name a b) w = (r, w')" and "wf_fsys (w_disk w)"
  shows "wf_fsys (w_disk w') \<and>
     file_at (w_disk w') q = (if q = b \<and> r = Inr () then file_at (w_disk w) a else file_at (w_disk w) q) \<and>
     (q = b \<longrightarrow> file_at (w_disk w) b \<noteq> None \<longrightarrow> r \<noteq> Inr ())"
  using assms(3)
proof (cases rule: disk_step_result)
  case (works x d)
  note ta = tick_leaves [OF assms(2,4)] and tq = tick_leaves [OF assms(1,4)]
  let ?d = "w_disk (tick s w)"
  from works(2) obtain i where i: "map_of (d_names ?d) a = Some i" "\<not> occupied_name ?d b" "d = with_name b i ?d"
    by (auto simp: link_name_def split: option.splits if_splits)
  then have "i < d_fresh ?d" using tq by (auto simp: wf_fsys_def)
  then have "wf_fsys (with_name b i ?d)"
    using tq i(2) by (intro wf_with_name) (auto simp: occupied_name_def)
  moreover have "file_at ?d b = None" using i(2) occupied_file by blast
  ultimately show ?thesis
    using works(1,3) ta tq link_file [OF _ i(1), of b q] by (auto simp: i(3))
qed (use tick_leaves [OF assms(1,4)] in auto)

text \<open>The old name goes only once the new one holds the bytes; what cannot be finished is undone while the
  old name is still there.\<close>

lemma retire_result:
  assumes a: "spared s a" "spared s b" and tm: "\<And>t. retire = Some t \<Longrightarrow> src \<noteq> a \<and> src \<noteq> b" and ab: "a \<noteq> b"
    and wf: "wf_fsys (w_disk w)" and data: "file_at (w_disk w) b = Some data"
    and here: "file_at (w_disk w) a \<noteq> None"
    and run: "catching
           (bnd (sync_folder s b) (\<lambda>u.
            bnd (unlink s a) (\<lambda>u.
            bnd (if retire \<noteq> None then unlink_missing_ok s src else ret ()) (\<lambda>u.
            sync_folder s a))))
           (\<lambda>e. bnd (lexists s a) (\<lambda>here.
                bnd (if here then unlink_missing_ok s b else ret ()) (\<lambda>u. raise_exn e))) w = (r, w')"
  shows "wf_fsys (w_disk w') \<and>
     (file_at (w_disk w') a = file_at (w_disk w) a \<and> (file_at (w_disk w') b = Some data \<or> file_at (w_disk w') b = None) \<or>
      file_at (w_disk w') a = None \<and> file_at (w_disk w') b = Some data) \<and>
     (r = Inr () \<longrightarrow> file_at (w_disk w') a = None \<and> file_at (w_disk w') b = Some data)"
proof -
  let ?drop = "if retire \<noteq> None then unlink_missing_ok s src else ret ()"
  have tail: "leaves q (bnd ?drop (\<lambda>u. sync_folder s a))" if "q = a \<or> q = b" for q
  proof -
    have "leaves q ?drop"
    proof (cases retire)
      case (Some t)
      with tm that have "src \<noteq> q" by auto
      with unlink_ok_result [of s q src] a that Some show ?thesis by (auto simp: does_def)
    qed (simp add: leaves_ret)
    with that a show ?thesis by (auto intro!: leaves_bnd leaves_sync)
  qed
  have tail_free: "keeps_free a (bnd ?drop (\<lambda>u. sync_folder s a))"
    using a by (auto intro!: keeps_free_bnd keeps_free_sync keeps_free_unlink keeps_free_ret)
  have main: "wf_fsys (w_disk w1) \<and> file_at (w_disk w1) b = Some data \<and>
     (file_at (w_disk w1) a = file_at (w_disk w) a \<or>
      file_at (w_disk w1) a = None \<and> \<not> occupied_name (w_disk w1) a) \<and>
     (r1 = Inr () \<longrightarrow> file_at (w_disk w1) a = None)"
    if "bnd (sync_folder s b) (\<lambda>u. bnd (unlink s a) (\<lambda>u.
            bnd (if retire \<noteq> None then unlink_missing_ok s src else ret ()) (\<lambda>u. sync_folder s a))) w = (r1, w1)" for r1 w1
    using that
  proof (cases rule: bnd_result)
    case (fails e)
    from doesD [OF leaves_sync [OF a(1)] fails(1) wf] doesD [OF leaves_sync [OF a(2)] fails(1) wf] fails data
    show ?thesis by auto
  next
    case (goes x w2)
    from doesD [OF leaves_sync [OF a(1)] goes(1) wf] doesD [OF leaves_sync [OF a(2)] goes(1) wf]
    have 2: "wf_fsys (w_disk w2)" "file_at (w_disk w2) a = file_at (w_disk w) a" "file_at (w_disk w2) b = Some data"
      using data by auto
    from goes(2) show ?thesis
    proof (cases rule: bnd_result)
      case (fails e)
      from unlink_result [OF a(1) fails(1) 2(1)] unlink_result [OF a(2) fails(1) 2(1)] 2 fails(2) show ?thesis by simp
    next
      case (goes y w3)
      from unlink_result [OF a(1) goes(1) 2(1)] unlink_result [OF a(2) goes(1) 2(1)] 2 ab
      have 3: "wf_fsys (w_disk w3)" "file_at (w_disk w3) a = None" "file_at (w_disk w3) b = Some data" by auto
      have "\<not> occupied_name (w_disk w1) a"
        using tail_free goes(2) 3(1) free_after_unlink [OF goes(1) a(1) 2(1)] by (auto simp: keeps_free_def)
      with doesD [OF tail goes(2) 3(1), of a] doesD [OF tail goes(2) 3(1), of b] 3 show ?thesis by auto
    qed
  qed
  from run show ?thesis
  proof (cases rule: catching_result)
    case (fine x)
    with main [OF fine(1)] show ?thesis by auto
  next
    case (caught e w1)
    note m = main [OF caught(1)]
    have look: "leaves q (lexists s a)" if "q = a \<or> q = b" for q
      using that a by (auto intro: leaves_lexists)
    have sees: "\<not> here" if "lexists s a w1 = (Inr here, w2)" "\<not> occupied_name (w_disk w1) a" for here w2
      using that(1) [unfolded lexists_def]
    proof (cases rule: catching_result)
      case (fine x)
      from fine(1) m tick_leaves(2) [OF a(1), of w1] that(2) fine(2) show ?thesis
        by (cases rule: disk_step_result) auto
    qed (auto simp: ret_def)
    from caught(2) show ?thesis
    proof (cases rule: bnd_result)
      case (fails e')
      then show ?thesis by (auto simp: lexists_def catching_def ret_def split: prod.splits sum.splits)
    next
      case (goes here w2)
      from doesD [OF look goes(1), of a] doesD [OF look goes(1), of b] m
      have 2: "wf_fsys (w_disk w2)" "file_at (w_disk w2) a = file_at (w_disk w1) a" "file_at (w_disk w2) b = Some data"
        by auto
      have "r \<noteq> Inr ()"
        using goes(2) by (auto simp: bnd_def raise_exn_def split: prod.splits sum.splits)
      moreover have "wf_fsys (w_disk w') \<and> file_at (w_disk w') a = file_at (w_disk w2) a \<and>
          (file_at (w_disk w') b = Some data \<or> here \<and> file_at (w_disk w') b = None)"
      proof (cases here)
        case True
        with goes(2) have "bnd (unlink_missing_ok s b) (\<lambda>u. raise_exn e) w2 = (r, w')" by simp
        then show ?thesis
        proof (cases rule: bnd_result)
          case (fails e')
          with unlink_ok_result [OF a(1) fails(1) 2(1)] unlink_ok_result [OF a(2) fails(1) 2(1)] ab 2 show ?thesis by auto
        next
          case (goes u w3)
          with unlink_ok_result [OF a(1) goes(1) 2(1)] unlink_ok_result [OF a(2) goes(1) 2(1)] ab 2 True show ?thesis
            by (auto simp: raise_exn_def)
        qed
      next
        case False
        with goes(2) 2 show ?thesis by (auto simp: bnd_def ret_def raise_exn_def)
      qed
      ultimately show ?thesis
        using m sees [OF goes(1)] 2 by auto
    qed
  qed
qed

definition moved_or_kept :: "bytes option \<Rightarrow> bytes option \<Rightarrow> bytes \<Rightarrow> bytes option \<Rightarrow> bytes option \<Rightarrow> bool" where
  "moved_or_kept a b data a' b' \<longleftrightarrow>
     a' = a \<and> (b' = b \<or> b = None \<and> b' = Some data) \<or> a' = None \<and> b = None \<and> b' = Some data"

lemma move_result:
  assumes sp: "spared s a" "spared s b" "spared s src" and ab: "a \<noteq> b" and wf: "wf_fsys (w_disk w)"
    and src: "src = a \<and> retire = None \<or> src \<noteq> a \<and> src \<noteq> b \<and> retire = Some a"
    and data: "file_at (w_disk w) src = Some data" and here: "file_at (w_disk w) a \<noteq> None"
    and run: "move_file s src b retire w = (r, w')"
  shows "wf_fsys (w_disk w') \<and>
     moved_or_kept (file_at (w_disk w) a) (file_at (w_disk w) b) data (file_at (w_disk w') a) (file_at (w_disk w') b) \<and>
     (r = Inr () \<longrightarrow> file_at (w_disk w') a = None \<and> file_at (w_disk w) b = None \<and> file_at (w_disk w') b = Some data)"
proof -
  have orig: "(case retire of Some p \<Rightarrow> p | None \<Rightarrow> src) = a" using src by auto
  have mk: "leaves q (disk_step s (\<lambda>now d. sbind (with_parents b d) (\<lambda>d. Inr ((), d))))" if "spared s q" for q
    by (intro leaves_disk_step [OF that]) (auto simp: sbind_Inr_iff dest: with_parents_result [where q = q])
  from run [unfolded move_file_def orig Let_def] show ?thesis
  proof (cases rule: bnd_result)
    case (fails e)
    with doesD [OF mk [OF sp(1)] fails(1) wf] doesD [OF mk [OF sp(2)] fails(1) wf] show ?thesis
      by (auto simp: moved_or_kept_def)
  next
    case (goes u w1)
    from doesD [OF mk [OF sp(1)] goes(1) wf] doesD [OF mk [OF sp(2)] goes(1) wf] doesD [OF mk [OF sp(3)] goes(1) wf]
    have 1: "wf_fsys (w_disk w1)" "file_at (w_disk w1) a = file_at (w_disk w) a"
      "file_at (w_disk w1) b = file_at (w_disk w) b" "file_at (w_disk w1) src = Some data" using data by auto
    from goes(2) show ?thesis
    proof (cases rule: bnd_result)
      case (fails e)
      from link_result [OF sp(1,3) fails(1) 1(1)] link_result [OF sp(2,3) fails(1) 1(1)] 1 fails(2) show ?thesis
        by (auto simp: moved_or_kept_def)
    next
      case (goes u w2)
      from link_result [OF sp(1,3) goes(1) 1(1)] link_result [OF sp(2,3) goes(1) 1(1)] 1 ab
      have 2: "wf_fsys (w_disk w2)" "file_at (w_disk w2) a = file_at (w_disk w) a" "file_at (w_disk w) b = None"
        "file_at (w_disk w2) b = Some data" by auto
      have tm: "\<And>t. retire = Some t \<Longrightarrow> src \<noteq> a \<and> src \<noteq> b" using src by auto
      have "file_at (w_disk w2) a \<noteq> None" using 2(2) here by simp
      from retire_result [OF sp(1,2) tm ab 2(1,4) this goes(2)] 2 show ?thesis
        by (auto simp: moved_or_kept_def)
    qed
  qed
qed

text \<open>\<open>_rename_file\<close>: the old name is never rewritten.\<close>

lemma rename_file_result:
  assumes a: "apart s a" "apart s b" and ab: "a \<noteq> b" and wf: "wf_fsys (w_disk w)"
    and run: "rename_file s i a b data e w = (r, w')"
  shows "wf_fsys (w_disk w') \<and>
     (file_at (w_disk w') a = file_at (w_disk w) a \<and> file_at (w_disk w') b = file_at (w_disk w) b \<or>
      (\<exists>old. file_at (w_disk w) a = Some old \<and> at_version s i (Some e) old \<and>
        moved_or_kept (Some old) (file_at (w_disk w) b) data (file_at (w_disk w') a) (file_at (w_disk w') b))) \<and>
     (r = Inr () \<longrightarrow> file_at (w_disk w') a = None \<and> file_at (w_disk w') b = Some data)"
  using run [unfolded rename_file_def]
proof (cases rule: bnd_result)
  case (fails x)
  have "leaves q (catching (stage s b data) (\<lambda>e. raise_exn (notes_unavailable s e)))" if "apart s q" for q
    by (intro leaves_intros leaves_stage that)
  from doesD [OF this [OF a(1)] fails(1) wf] doesD [OF this [OF a(2)] fails(1) wf] fails(2) show ?thesis by simp
next
  case (goes t w1)
  have st: "stage s b data w = (Inr t, w1)"
    using goes(1) by (auto elim: catching_result simp: raise_exn_def)
  from doesD [OF leaves_stage [OF a(1)] st wf] doesD [OF leaves_stage [OF a(2)] st wf] stage_result [OF a(1) st wf]
  have 1: "wf_fsys (w_disk w1)" "file_at (w_disk w1) a = file_at (w_disk w) a"
    "file_at (w_disk w1) b = file_at (w_disk w) b" and t: "t \<in> temps s" "file_at (w_disk w1) t = Some data" by auto
  note sp = apart_spared [OF a(1)] apart_spared [OF a(2)] conjunct1 [OF apart_temps [OF a(1) t(1)]]
  let ?Q = "\<lambda>r2 w2. wf_fsys (w_disk w2) \<and>
     (file_at (w_disk w2) a = file_at (w_disk w) a \<and> file_at (w_disk w2) b = file_at (w_disk w) b \<or>
      (\<exists>old. file_at (w_disk w) a = Some old \<and> at_version s i (Some e) old \<and>
        moved_or_kept (Some old) (file_at (w_disk w) b) data (file_at (w_disk w2) a) (file_at (w_disk w2) b))) \<and>
     (r2 = Inr () \<longrightarrow> file_at (w_disk w2) a = None \<and> file_at (w_disk w2) b = Some data)"
  have body: "?Q r2 w2" if "bnd (bytes_at s i a (Some e)) (\<lambda>r. move_file s t b (Some a)) w1 = (r2, w2)" for r2 w2
    using that
  proof (cases rule: bnd_result)
    case (fails x)
    from doesD [OF leaves_bytes_at [OF sp(1)] fails(1) 1(1)] doesD [OF leaves_bytes_at [OF sp(2)] fails(1) 1(1)] 1 fails(2)
    show ?thesis by simp
  next
    case (goes x w3)
    obtain old fm m where x: "x = (old, fm, m)" by (cases x)
    from doesD [OF leaves_bytes_at [OF sp(1)] goes(1) 1(1)] doesD [OF leaves_bytes_at [OF sp(2)] goes(1) 1(1)]
      doesD [OF leaves_bytes_at [OF sp(3)] goes(1) 1(1)] 1 t(2)
    have 3: "wf_fsys (w_disk w3)" "file_at (w_disk w3) a = file_at (w_disk w) a"
      "file_at (w_disk w3) b = file_at (w_disk w) b" "file_at (w_disk w3) t = Some data" by auto
    from bytes_at_result [OF sp(1) goes(1) [unfolded x] 1(1)] 1(2)
    have v: "file_at (w_disk w) a = Some old" "at_version s i (Some e) old" by auto
    from move_result [OF sp ab 3(1) _ 3(4) _ goes(2)] v 3 apart_temps [OF a(1) t(1)] apart_temps [OF a(2) t(1)] show ?thesis by auto
  qed
  have drop: "leaves q (unlink_missing_ok s t)" if "apart s q" for q
    by (rule leaves_unlink_temp [OF that t(1)])
  have caught: "?Q r2 w2" if "catching (bnd (bytes_at s i a (Some e)) (\<lambda>r. move_file s t b (Some a)))
      (\<lambda>x. raise_exn (if x = FileExists then Typed (PathCollision b) else notes_unavailable s x)) w1 = (r2, w2)" for r2 w2
    using that
  proof (cases rule: catching_result)
    case (fine x)
    show ?thesis using body [OF fine(1)] unfolding fine(2) .
  next
    case (caught x w3)
    with body [OF caught(1)] show ?thesis by (auto simp: raise_exn_def)
  qed
  obtain r2 w2 where f1: "catching (bnd (bytes_at s i a (Some e)) (\<lambda>r. move_file s t b (Some a)))
      (\<lambda>x. raise_exn (if x = FileExists then Typed (PathCollision b) else notes_unavailable s x)) w1 = (r2, w2)"
    by (rule prod.exhaust)
  obtain r3 w3 where f2: "unlink_missing_ok s t w2 = (r3, w3)"
    by (rule prod.exhaust)
  note f = f1 f2
  with goes(2) have w: "w' = w3" and r: "r = Inr () \<Longrightarrow> r2 = Inr ()"
    by (auto simp: finally_do_def split: sum.splits)
  note c = caught [OF f(1)]
  from doesD [OF drop [OF a(1)] f(2)] doesD [OF drop [OF a(2)] f(2)] c
  have e: "wf_fsys (w_disk w3)" "file_at (w_disk w3) a = file_at (w_disk w2) a" "file_at (w_disk w3) b = file_at (w_disk w2) b"
    by simp_all
  show ?thesis
    unfolding w e(2,3) using c e(1) r by blast
qed

section \<open>Moving a note\<close>

text \<open>The devices touch no file.\<close>

definition idle :: "'d site \<Rightarrow> bool" where
  "idle s \<longleftrightarrow> (\<forall>q. spared s q)"

lemma idle_leaves: "(\<And>q. leaves q m) \<Longrightarrow> does_all (=) UNIV m"
  by (rule leaves_all) auto

lemma seen_in_UNIV [simp]: "seen_in UNIV d = file_at d"
  by (simp add: seen_in_def)

lemma all_transaction_idle:
  assumes ap: "idle s" and m: "does_all G UNIV m" and "\<And>v. G v v"
  shows "does_all G UNIV (transaction s m)"
proof -
  have l: "does_all (=) UNIV (bnd (commit s) (\<lambda>u. ret x))" for x
    using ap by (intro idle_leaves leaves_intros) (auto simp: idle_def)
  have "does_all G UNIV (finish s m)"
    unfolding does_all_def
  proof (intro allI impI)
    fix w r w'
    assume b: "finish s m w = (r, w')" and wf: "wf_fsys (w_disk w)"
    obtain r1 w1 where 1: "m w = (r1, w1)" by (cases "m w")
    from does_allD [OF m 1 wf] does_allD [OF l] b 1
    show "wf_fsys (w_disk w') \<and> G (seen_in UNIV (w_disk w)) (seen_in UNIV (w_disk w'))"
      by (cases r1) (force simp: finish_def)+
  qed
  then show ?thesis
    unfolding transaction_def by (intro all_bnd_after assms(3) idle_leaves leaves_intros)
qed

text \<open>No file is lost: what stood at \<open>q\<close> still does, or stands, whole, where nothing was.\<close>

definition not_lost :: "str \<Rightarrow> (str \<Rightarrow> bytes option) \<Rightarrow> (str \<Rightarrow> bytes option) \<Rightarrow> bool" where
  "not_lost q f g \<longleftrightarrow> (\<forall>data. f q = Some data \<longrightarrow>
     g q = Some data \<or> g q = None \<and> (\<exists>q'. f q' = None \<and> g q' = Some data))"

lemma not_lost_refl [simp]: "not_lost q f f"
  by (simp add: not_lost_def)

lemma does_link:
  assumes "spared s q"
  shows "does (\<lambda>v v'. v \<noteq> None \<or> q \<noteq> b \<longrightarrow> v' = v) q (disk_step s (link_name a b))"
proof (rule does_disk_step [OF assms])
  fix now d x d'
  assume l: "link_name a b now d = Inr (x, d')" and wf: "wf_fsys d"
  then obtain i where i: "map_of (d_names d) a = Some i" "\<not> occupied_name d b" "d' = with_name b i d"
    by (auto simp: link_name_def split: option.splits if_splits)
  then have "i < d_fresh d" "b \<notin> set (d_dirs d)" using wf by (auto simp: wf_fsys_def occupied_name_def)
  then have "wf_fsys d'" unfolding i(3) by (rule wf_with_name [OF wf])
  moreover have "file_at d b = None" using i(2) occupied_file by blast
  ultimately show "wf_fsys d' \<and> (file_at d q \<noteq> None \<or> q \<noteq> b \<longrightarrow> file_at d' q = file_at d q)"
    using link_file [OF wf i(1), of b q] by (auto simp: i(3))
qed simp

lemma link_free:
  assumes "spared s b" and "disk_step s (link_name a b) w = (Inr u, w')" and "wf_fsys (w_disk w)"
  shows "file_at (w_disk w) b = None"
  using assms(2)
proof (cases rule: disk_step_result)
  case (works x d)
  then have "\<not> occupied_name (w_disk (tick s w)) b"
    by (auto simp: link_name_def split: option.splits if_splits)
  then have "file_at (w_disk (tick s w)) b = None" using occupied_file by blast
  with tick_leaves [OF assms(1,3)] show ?thesis by simp
qed auto

text \<open>The part of it that needs no knowledge of the files.\<close>

abbreviation sound :: "str \<Rightarrow> 'a act \<Rightarrow> bool" where
  "sound \<equiv> does (\<lambda>v v'. True)"

lemma sound_bnd: "sound q m \<Longrightarrow> (\<And>x. sound q (f x)) \<Longrightarrow> sound q (bnd m f)"
  unfolding does_def by (blast elim: bnd_result)

lemma sound_catching: "sound q m \<Longrightarrow> (\<And>x. sound q (h x)) \<Longrightarrow> sound q (catching m h)"
  unfolding does_def by (blast elim: catching_result)

lemma sound_leaves: "leaves q m \<Longrightarrow> sound q m"
  by (rule leaves_does) simp_all

lemma sound_move:
  assumes sp: "spared s q"
  shows "sound q (move_file s src b retire)"
proof -
  have mk: "leaves q (disk_step s (\<lambda>now d. sbind (with_parents b d) (\<lambda>d. Inr ((), d))))"
    by (intro leaves_disk_step [OF sp]) (auto simp: sbind_Inr_iff dest: with_parents_result [where q = q])
  have ul: "sound q (unlink s p)" "sound q (unlink_missing_ok s p)" "sound q (disk_step s (link_name src b))" for p
    using unlink_result [OF sp] unlink_ok_result [OF sp] does_weaken [OF does_link [OF sp]] by (auto simp: does_def)
  show ?thesis
    unfolding move_file_def Let_def
    by (intro sound_bnd sound_catching does_if ul sound_leaves [OF mk])
      (intro sound_leaves leaves_intros sp)+
qed

lemma move_frame:
  assumes sp: "spared s q" and qa: "q \<noteq> src" "\<And>a. retire = Some a \<Longrightarrow> q \<noteq> a"
    and run: "move_file s src b retire w = (r, w')" and wf: "wf_fsys (w_disk w)"
    and there: "file_at (w_disk w) q \<noteq> None \<or> q \<noteq> b"
  shows "wf_fsys (w_disk w') \<and> file_at (w_disk w') q = file_at (w_disk w) q"
proof -
  have mk: "leaves q (disk_step s (\<lambda>now d. sbind (with_parents b d) (\<lambda>d. Inr ((), d))))"
    by (intro leaves_disk_step [OF sp]) (auto simp: sbind_Inr_iff dest: with_parents_result [where q = q])
  let ?orig = "case retire of Some p \<Rightarrow> p | None \<Rightarrow> src"
  have ul: "leaves q (unlink s ?orig)" "leaves q (if retire \<noteq> None then unlink_missing_ok s src else ret ())"
    using unlink_result [OF sp] unlink_ok_result [OF sp] qa by (auto simp: does_def ret_def split: option.split)
  show ?thesis
    using run [unfolded move_file_def Let_def]
  proof (cases rule: bnd_result)
    case (fails e)
    with doesD [OF mk fails(1) wf] show ?thesis by simp
  next
    case (goes u w1)
    from doesD [OF mk goes(1) wf] have 1: "wf_fsys (w_disk w1)" "file_at (w_disk w1) q = file_at (w_disk w) q" by auto
    from goes(2) show ?thesis
    proof (cases rule: bnd_result)
      case (fails e)
      with doesD [OF does_link [OF sp] fails(1) 1(1)] 1 there show ?thesis by (cases "q = b") auto
    next
      case (goes u w2)
      have qb: "q \<noteq> b"
        using link_free [OF _ goes(1) 1(1)] sp 1(2) there by auto
      from doesD [OF does_link [OF sp] goes(1) 1(1)] 1 qb
      have 2: "wf_fsys (w_disk w2)" "file_at (w_disk w2) q = file_at (w_disk w) q" by auto
      have ub: "leaves q (unlink_missing_ok s b)"
        using unlink_ok_result [OF sp] qb by (auto simp: does_def)
      from goes(2) show ?thesis
      proof -
        have "leaves q (catching
           (bnd (sync_folder s b) (\<lambda>u. bnd (unlink s ?orig) (\<lambda>u.
            bnd (if retire \<noteq> None then unlink_missing_ok s src else ret ()) (\<lambda>u. sync_folder s ?orig))))
           (\<lambda>e. bnd (lexists s ?orig) (\<lambda>here. bnd (if here then unlink_missing_ok s b else ret ()) (\<lambda>u. raise_exn e))))"
          by (intro leaves_intros ub ul sp)
        from doesD [OF this _ 2(1)] goes(2) 2(2) show ?thesis by simp
      qed
    qed
  qed
qed

lemma all_move_file:
  assumes "idle s" and ab: "a \<noteq> b"
  shows "does_all (not_lost q) UNIV (move_file s a b None)"
  unfolding does_all_def
proof (intro allI impI)
  fix w r w'
  assume run: "move_file s a b None w = (r, w')" and wf: "wf_fsys (w_disk w)"
  have sp: "\<And>q. spared s q" using assms(1) by (simp add: idle_def)
  have wf': "wf_fsys (w_disk w')"
  proof -
    obtain c where "c \<notin> {a, b}"
      using ex_new_if_finite [OF infinite_UNIV_listI, of "{a, b}"] by auto
    then show ?thesis using move_frame [OF sp _ _ run wf, of c] by simp
  qed
  moreover have "not_lost q (file_at (w_disk w)) (file_at (w_disk w'))"
    unfolding not_lost_def
  proof (intro allI impI)
    fix data
    assume d: "file_at (w_disk w) q = Some data"
    show "file_at (w_disk w') q = Some data \<or>
       file_at (w_disk w') q = None \<and> (\<exists>q'. file_at (w_disk w) q' = None \<and> file_at (w_disk w') q' = Some data)"
    proof (cases "q = a")
      case True
      with d move_result [OF sp sp sp ab wf _ _ _ run, of data] show ?thesis
        by (auto simp: moved_or_kept_def)
    next
      case False
      with move_frame [OF sp _ _ run wf, of q] d show ?thesis by auto
    qed
  qed
  ultimately show "wf_fsys (w_disk w') \<and> not_lost q (seen_in UNIV (w_disk w)) (seen_in UNIV (w_disk w'))"
    by simp
qed

lemma all_if: "(c \<Longrightarrow> does_all G S a) \<Longrightarrow> (\<not> c \<Longrightarrow> does_all G S b) \<Longrightarrow> does_all G S (if c then a else b)"
  by simp

lemma all_prod: "(\<And>a b. does_all G S (f a b)) \<Longrightarrow> does_all G S (case_prod f x)"
  by (cases x) simp

lemma all_option: "does_all G S n \<Longrightarrow> (\<And>a. does_all G S (f a)) \<Longrightarrow> does_all G S (case_option n f x)"
  by (cases x) auto

lemma all_sum: "(\<And>a. does_all G S (f a)) \<Longrightarrow> (\<And>a. does_all G S (g a)) \<Longrightarrow> does_all G S (case_sum f g x)"
  by (cases x) auto

lemma all_weaken: "does_all G S m \<Longrightarrow> (\<And>f g. G f g \<Longrightarrow> H f g) \<Longrightarrow> does_all H S m"
  unfolding does_all_def by blast

lemma keeps_all: "(\<And>q. leaves q m) \<Longrightarrow> (\<And>f. G f f) \<Longrightarrow> does_all G UNIV m"
  by (rule all_weaken [OF idle_leaves]) auto

lemmas all_cases = all_if all_prod all_option all_sum

lemma all_move_note:
  assumes "idle s"
  shows "does_all (not_lost q) UNIV (move_note s i asked etag)"
proof -
  have sp: "\<And>q. spared s q" using assms by (simp add: idle_def)
  show ?thesis
    unfolding move_note_def Let_def
    by ((rule not_lost_refl | rule refl
       | rule all_bnd_after, (rule idle_leaves, intro leaves_intros sp; fail)[1]
       | rule all_cases
       | rule all_bnd_before [OF all_catching [OF all_transaction_idle [OF assms]]]
       | rule all_bnd_before [OF all_catching [OF all_move_file [OF assms]]]
       | rule idle_leaves, (intro leaves_intros sp; fail)[1]
       | rule keeps_all, (intro leaves_intros sp; fail)[1], rule not_lost_refl
       | erule not_sym)+)
qed

section \<open>Renaming a note\<close>

text \<open>What a rename makes of the bytes of the note.\<close>

definition renamed_bytes :: "str \<Rightarrow> bool \<Rightarrow> bytes \<Rightarrow> bytes option" where
  "renamed_bytes title keep old =
     (if keep then Some old
      else case decode old of None \<Rightarrow> None
        | Some t \<Rightarrow> (case renamed_text t title of Inl e \<Rightarrow> None | Inr (text, body) \<Rightarrow> encode text))"

text \<open>A file keeps its bytes, or was the note's at the ETag and is now what the rename makes of it, in place or, whole,
  under a name that was free.\<close>

definition rewritten_ok :: "'d site \<Rightarrow> str \<Rightarrow> bool \<Rightarrow> str option \<Rightarrow> str \<Rightarrow> (str \<Rightarrow> bytes option) \<Rightarrow> (str \<Rightarrow> bytes option) \<Rightarrow> bool" where
  "rewritten_ok s title keep etag q f g \<longleftrightarrow> (\<forall>old. f q = Some old \<longrightarrow> g q = Some old \<or>
     etag = Some (st_hash s old) \<and> (\<exists>new. renamed_bytes title keep old = Some new \<and>
       (g q = Some new \<or> g q = None \<and> (\<exists>q'. f q' = None \<and> g q' = Some new))))"

lemma rewritten_ok_refl [simp]: "rewritten_ok s title keep e q f f"
  by (simp add: rewritten_ok_def)

text \<open>The same once the note's bytes were read.\<close>

definition rewritten_from :: "str \<Rightarrow> bytes \<Rightarrow> ((str \<Rightarrow> bytes option) \<Rightarrow> (str \<Rightarrow> bytes option) \<Rightarrow> bool)
    \<Rightarrow> (str \<Rightarrow> bytes option) \<Rightarrow> (str \<Rightarrow> bytes option) \<Rightarrow> bool" where
  "rewritten_from p old G f g \<longleftrightarrow> (f p = Some old \<longrightarrow> G f g)"

lemma rewritten_from_refl [simp]: "rewritten_from p old (rewritten_ok s title keep e q) f f"
  by (simp add: rewritten_from_def)

text \<open>Temporary names are no note names.\<close>

definition temps_apart :: "'d site \<Rightarrow> bool" where
  "temps_apart s \<longleftrightarrow> (\<forall>t \<in> temps s. \<not> endswith t NOTE_SUFFIX)"

lemma rename_frame:
  assumes ap: "apart s q" and qa: "q \<noteq> a"
  shows "does (\<lambda>v v'. v \<noteq> None \<longrightarrow> v' = v) q (rename_file s i a b data e)"
  unfolding rename_file_def
proof (rule does_staged [OF ap])
  note sp = apart_spared [OF ap]
  fix t
  assume t: "t \<in> temps s"
  have "does (\<lambda>v v'. v \<noteq> None \<longrightarrow> v' = v) q (move_file s t b (Some a))"
    unfolding does_def
  proof (intro allI impI conjI)
    fix w r w'
    assume run: "move_file s t b (Some a) w = (r, w')" and wf: "wf_fsys (w_disk w)"
    then show "wf_fsys (w_disk w')"
      using doesD [OF sound_move [OF sp]] by blast
    assume "file_at (w_disk w) q \<noteq> None"
    with move_frame [OF sp _ _ run wf] apart_temps [OF ap t] qa
    show "file_at (w_disk w') q = file_at (w_disk w) q" by auto
  qed
  then show "does (\<lambda>v v'. v \<noteq> None \<longrightarrow> v' = v) q (finally_do
       (catching (bnd (bytes_at s i a (Some e)) (\<lambda>r. move_file s t b (Some a)))
          (\<lambda>e. raise_exn (if e = FileExists then Typed (PathCollision b) else notes_unavailable s e)))
       (unlink_missing_ok s t))"
    by (intro does_finally does_catching does_bnd_after leaves_intros sp leaves_unlink_temp [OF ap t] impI refl)
qed simp

lemma stem_path_apart:
  assumes "temps_apart s" and "\<And>q. spared s q"
  shows "apart s (path_join folder (stem @ NOTE_SUFFIX))"
proof -
  have "endswith (path_join folder (stem @ NOTE_SUFFIX)) NOTE_SUFFIX"
    by (simp add: path_join_def endswith_def startswith_def NOTE_SUFFIX_def U_def)
  with assms show ?thesis by (auto simp: apart_def temps_apart_def)
qed

lemma all_rename_from:
  assumes sp: "\<And>q. spared s q" and ap: "apart s q" "apart s b" and ab: "b \<noteq> a" and new: "renamed_bytes title keep old = Some data"
  shows "does_all (rewritten_from a old (rewritten_ok s title keep (Some e) q)) UNIV (rename_file s i a b data e)"
  unfolding does_all_def
proof (intro allI impI)
  fix w r w'
  assume run: "rename_file s i a b data e w = (r, w')" and wf: "wf_fsys (w_disk w)"
  have fr: "wf_fsys (w_disk w') \<and> (file_at (w_disk w) p \<noteq> None \<longrightarrow> file_at (w_disk w') p = file_at (w_disk w) p)"
    if "p \<noteq> a" "apart s p" for p
    using doesD [OF rename_frame [OF that(2,1)] run wf] by auto
  have "rewritten_ok s title keep (Some e) q (file_at (w_disk w)) (file_at (w_disk w'))" if old: "file_at (w_disk w) a = Some old"
  proof (cases "q = a")
    case True
    with rename_file_result [OF ap(1) [unfolded True] ap(2) _ wf run] ab old new show ?thesis
      by (auto simp: rewritten_ok_def moved_or_kept_def at_version_def)
  next
    case False
    with fr [OF False ap(1)] show ?thesis by (auto simp: rewritten_ok_def)
  qed
  with fr [OF ab ap(2)] show "wf_fsys (w_disk w') \<and>
      rewritten_from a old (rewritten_ok s title keep (Some e) q) (seen_in UNIV (w_disk w)) (seen_in UNIV (w_disk w'))"
    by (simp add: rewritten_from_def)
qed

lemma all_replace_from:
  assumes sp: "\<And>q. spared s q" and ap: "apart s q" and new: "renamed_bytes title keep old = Some data"
  shows "does_all (rewritten_from p old (rewritten_ok s title keep (Some e) q)) UNIV (replace_if_unchanged s i p data e)"
  unfolding does_all_def
proof (intro allI impI)
  fix w r w'
  assume run: "replace_if_unchanged s i p data e w = (r, w')" and wf: "wf_fsys (w_disk w)"
  from replace_if_unchanged_result [OF ap run wf] new
  show "wf_fsys (w_disk w') \<and> rewritten_from p old (rewritten_ok s title keep (Some e) q) (seen_in UNIV (w_disk w)) (seen_in UNIV (w_disk w'))"
    by (auto simp: rewritten_ok_def rewritten_from_def at_version_def)
qed

lemma all_bnd_when:
  assumes m: "does_all (=) S m" and k: "\<And>w x w'. m w = (Inr x, w') \<Longrightarrow> K x" and f: "\<And>x. K x \<Longrightarrow> does_all G S (f x)" and "\<And>v. G v v"
  shows "does_all G S (bnd m f)"
  unfolding does_all_def
proof (intro allI impI)
  fix w r w'
  assume "bnd m f w = (r, w')" and wf: "wf_fsys (w_disk w)"
  then show "wf_fsys (w_disk w') \<and> G (seen_in S (w_disk w)) (seen_in S (w_disk w'))"
  proof (cases rule: bnd_result)
    case (goes x w1)
    from does_allD [OF m goes(1) wf] does_allD [OF f [OF k [OF goes(1)]] goes(2)] show ?thesis by auto
  qed (use does_allD [OF m] wf assms(4) in auto)
qed

lemma all_bnd_read:
  assumes sp: "\<And>q. spared s q" and f: "\<And>old fm m. does_all (rewritten_from p old G) UNIV (f (old, fm, m))" and "\<And>v. G v v"
  shows "does_all G UNIV (bnd (bytes_at s i p etag) f)"
  unfolding does_all_def
proof (intro allI impI)
  fix w r w'
  assume "bnd (bytes_at s i p etag) f w = (r, w')" and wf: "wf_fsys (w_disk w)"
  moreover have l: "does_all (=) UNIV (bytes_at s i p etag)" by (intro idle_leaves leaves_bytes_at sp)
  ultimately show "wf_fsys (w_disk w') \<and> G (seen_in UNIV (w_disk w)) (seen_in UNIV (w_disk w'))"
  proof (cases rule: bnd_result)
    case (goes x w1)
    obtain old fm m where x: "x = (old, fm, m)" by (cases x)
    from bytes_at_result [OF sp goes(1) [unfolded x] wf] have "file_at (w_disk w) p = Some old" by blast
    with does_allD [OF l goes(1) wf] does_allD [OF f goes(2) [unfolded x]] show ?thesis by (auto simp: rewritten_from_def)
  qed (use does_allD [OF l] wf assms(3) in auto)
qed

lemma all_bnd_pair:
  assumes "does_all (=) S m" and "\<And>w a b w'. m w = (Inr (a, b), w') \<Longrightarrow> K a" and "\<And>a b. K a \<Longrightarrow> does_all G S (f a b)" and "\<And>v. G v v"
  shows "does_all G S (bnd m (\<lambda>(a, b). f a b))"
  by (rule all_bnd_when [where K = "\<lambda>(a, b). K a"]) (use assms in \<open>auto split: prod.splits\<close>)

lemma all_rename_note:
  assumes "idle s" and tm: "temps_apart s" and q: "q \<notin> temps s"
  shows "does_all (rewritten_ok s title keep etag q) UNIV (rename_note s i title keep etag)"
proof (cases etag)
  case None
  show ?thesis
    unfolding rename_note_def None by (auto intro: keeps_all leaves_intros)
next
  case (Some e)
  have sp: "\<And>q. spared s q" using assms(1) by (simp add: idle_def)
  have ap: "apart s q" using q sp by (auto simp: apart_def)
  let ?G = "\<lambda>p old. rewritten_from p old (rewritten_ok s title keep (Some e) q)"
  define redo where "redo old old_text = (if keep then bnd (fm_result (parse_text (st_yaml s) old_text)) (\<lambda>(fm', body). ret (old, body))
      else bnd (fm_result (renamed_text old_text title)) (\<lambda>(text, body). bnd (encoded text) (\<lambda>data. ret (data, body))))" for old old_text
  have textl: "does_all (=) UNIV (redo old old_text)" for old old_text
    unfolding redo_def by (intro idle_leaves leaves_intros sp)
  have made: "renamed_bytes title keep old = Some a" if "redo old t w = (Inr (a, b), w')" "decode old = Some t" for old t w a b w'
    using that by (auto simp: redo_def renamed_bytes_def bnd_def fm_result_def encoded_def ret_def raise_exn_def split: if_splits sum.splits option.splits)
  have dec: "decode old = Some t" if "decoded old w = (Inr t, w')" for old t w w'
    using that by (auto simp: decoded_def ret_def raise_exn_def split: option.splits)
  note ren = all_rename_from [OF sp ap stem_path_apart [OF tm sp]]
  show ?thesis
    unfolding rename_note_def Let_def Some option.case redo_def [symmetric]
    apply (rule all_bnd_after, (rule idle_leaves, intro leaves_intros sp; fail)[1], rule all_prod, rule all_bnd_read [OF sp], unfold prod.case)
    subgoal for u relative p old fm m
      apply (rule all_bnd_after, (rule idle_leaves, intro leaves_intros sp; fail)[1])
       apply (rule all_bnd_when [where K = "\<lambda>t. decode old = Some t"], (rule idle_leaves, intro leaves_intros sp; fail)[1], erule dec)
        apply (rule all_bnd_pair [where K = "\<lambda>data. renamed_bytes title keep old = Some data"], rule textl, erule (1) made)
         apply ((rule rewritten_from_refl | rule refl
           | rule all_bnd_after, (rule idle_leaves, intro leaves_intros sp; fail)[1]
           | rule all_cases
           | rule all_bnd_before [OF all_catching [OF all_transaction_idle [OF assms(1)]]]
           | rule all_bnd_before [OF ren]
           | rule all_replace_from [OF sp ap]
           | rule idle_leaves, (intro leaves_intros sp; fail)[1]
           | rule keeps_all, (intro leaves_intros sp; fail)[1], rule rewritten_from_refl
           | assumption)+)
      done
    apply simp_all
    done
qed

section \<open>Creating a note\<close>

text \<open>A file that stands is not touched.\<close>

lemma does_create_exclusive:
  assumes "spared s q"
  shows "does (\<lambda>v v'. v \<noteq> None \<longrightarrow> v' = v) q (create_exclusive s p data)"
  unfolding create_exclusive_def
  by (intro does_disk_step [OF assms]) (auto dest!: make_file_result [where q = q])

lemma create_exclusive_result:
  assumes "spared s q" and "create_exclusive s p data w = (Inr u, w')" and "wf_fsys (w_disk w)"
  shows "file_at (w_disk w) q \<noteq> None \<longrightarrow> p \<noteq> q"
  using assms(2) [unfolded create_exclusive_def]
proof (cases rule: disk_step_result)
  case (works x d)
  note t = tick_leaves [OF assms(1,3)]
  from make_file_result [OF works(2)] t show ?thesis by auto
qed auto

abbreviation keeps_existing :: "bytes option \<Rightarrow> bytes option \<Rightarrow> bool" where
  "keeps_existing v v' \<equiv> v \<noteq> None \<longrightarrow> v' = v"

lemma keeps_bnd:
  assumes m: "does keeps_existing q m"
    and c: "\<And>w x w'. m w = (Inr x, w') \<Longrightarrow> wf_fsys (w_disk w) \<Longrightarrow> file_at (w_disk w) q \<noteq> None \<Longrightarrow> K x"
    and f: "\<And>x. sound q (f x)" "\<And>x. K x \<Longrightarrow> does keeps_existing q (f x)"
  shows "does keeps_existing q (bnd m f)"
  unfolding does_def
proof (intro allI impI)
  fix w r w'
  assume "bnd m f w = (r, w')" and wf: "wf_fsys (w_disk w)"
  then show "wf_fsys (w_disk w') \<and> keeps_existing (file_at (w_disk w) q) (file_at (w_disk w') q)"
  proof (cases rule: bnd_result)
    case (goes x w1)
    from doesD [OF m goes(1) wf] have 1: "wf_fsys (w_disk w1)" "keeps_existing (file_at (w_disk w) q) (file_at (w_disk w1) q)"
      by auto
    show ?thesis
    proof (cases "file_at (w_disk w) q = None")
      case True
      with doesD [OF f(1) goes(2) 1(1)] show ?thesis by simp
    next
      case False
      with doesD [OF f(2) [OF c [OF goes(1) wf False]] goes(2) 1(1)] 1 show ?thesis by simp
    qed
  qed (use doesD [OF m] wf in auto)
qed

lemma keeps_leaves: "leaves q m \<Longrightarrow> does keeps_existing q m"
  by (rule leaves_does) simp_all

lemma keeps_sound: "does keeps_existing q m \<Longrightarrow> sound q m"
  by (rule does_weaken) simp_all

lemma does_attempts:
  assumes sp: "spared s q"
  shows "does keeps_existing q (create_attempts n s folder real base stem data tried)"
proof (induction n arbitrary: stem tried)
  case 0
  show ?case unfolding create_attempts.simps by (intro keeps_leaves leaves_intros)
next
  case (Suc n)
  have made: "does keeps_existing q (catching (bnd (create_exclusive s p data) (\<lambda>u. ret True))
      (\<lambda>e. if e = FileExists then ret False else raise_exn (notes_unavailable s e)))" for p
    by (intro does_catching does_bnd_before does_create_exclusive sp leaves_intros)
  have rest: "does keeps_existing q (if made then ret y else bnd (existing_stems s real) (\<lambda>taken.
      bnd (free_stem s base taken) (\<lambda>stem. create_attempts n s folder real base stem data l)))" for made y l
    by (intro does_if keeps_leaves [OF leaves_ret] does_bnd_after [OF leaves_existing_stems [OF sp]]
        does_bnd_after [OF leaves_free_stem [OF sp]] Suc) simp_all
  show ?case
    by (simp only: create_attempts.simps Let_def, intro does_bnd_after [OF leaves_query [OF sp]] does_if
        keeps_bnd [OF made, where K = "\<lambda>x. True"] rest keeps_sound keeps_leaves leaves_intros) simp_all
qed

lemma attempts_result:
  assumes sp: "spared s q"
  shows "create_attempts n s folder real base stem data tried w = (Inr (rel, file), w') \<Longrightarrow> wf_fsys (w_disk w) \<Longrightarrow>
     file_at (w_disk w) q \<noteq> None \<Longrightarrow> file \<noteq> q"
proof (induction n arbitrary: stem tried w)
  case 0
  then show ?case by (simp add: raise_exn_def)
next
  case (Suc n)
  let ?file = "path_join real (stem @ NOTE_SUFFIX)" and ?last = "path_join folder (stem @ NOTE_SUFFIX)"
  let ?attempt = "catching (bnd (create_exclusive s ?file data) (\<lambda>u. ret True))
      (\<lambda>e. if e = FileExists then ret False else raise_exn (notes_unavailable s e))"
  let ?more = "\<lambda>made. if made then ret (path_join folder (stem @ NOTE_SUFFIX), ?file)
      else bnd (existing_stems s real) (\<lambda>taken. bnd (free_stem s base taken) (\<lambda>stem.
        create_attempts n s folder real base stem data ?last))"
  from Suc.prems(1) obtain h w1 where 1: "query s (holder_of (path_join folder (stem @ NOTE_SUFFIX))) w = (Inr h, w1)"
    and 2: "bnd ?attempt ?more w1 = (Inr (rel, file), w')"
    unfolding create_attempts.simps Let_def
    by (cases rule: bnd_result) (auto simp: raise_exn_def split: if_splits)
  from doesD [OF leaves_query [OF sp] 1 Suc.prems(2)] Suc.prems(3)
  have w1: "wf_fsys (w_disk w1)" "file_at (w_disk w1) q \<noteq> None" by auto
  from 2 show ?case
  proof (cases rule: bnd_result)
    case (goes made w2)
    have "does keeps_existing q ?attempt"
      by (intro does_catching does_bnd_before does_create_exclusive sp leaves_intros)
    from doesD [OF this goes(1) w1(1)] w1(2) have w2: "wf_fsys (w_disk w2)" "file_at (w_disk w2) q \<noteq> None" by auto
    show ?thesis
    proof (cases made)
      case True
      with goes(2) have f: "file = ?file" by (simp add: ret_def)
      from goes(1) True obtain u w3 where "create_exclusive s ?file data w1 = (Inr u, w3)"
        by (auto elim!: catching_result bnd_result simp: ret_def raise_exn_def split: if_splits)
      from create_exclusive_result [OF sp this w1(1)] w1(2) f show ?thesis by simp
    next
      case False
      with goes(2) have "bnd (existing_stems s real) (\<lambda>taken. bnd (free_stem s base taken) (\<lambda>stem.
        create_attempts n s folder real base stem data ?last)) w2 = (Inr (rel, file), w')" by simp
      then obtain taken w3 where 3: "existing_stems s real w2 = (Inr taken, w3)"
        "bnd (free_stem s base taken) (\<lambda>stem. create_attempts n s folder real base stem data ?last) w3 = (Inr (rel, file), w')"
        by (cases rule: bnd_result) auto
      from 3(2) obtain stem' w4 where 4: "free_stem s base taken w3 = (Inr stem', w4)"
        "create_attempts n s folder real base stem' data ?last w4 = (Inr (rel, file), w')"
        by (cases rule: bnd_result) auto
      from doesD [OF leaves_existing_stems [OF sp] 3(1) w2(1)] w2(2)
      have "wf_fsys (w_disk w3)" "file_at (w_disk w3) q \<noteq> None" by auto
      with doesD [OF leaves_free_stem [OF sp] 4(1)] have "wf_fsys (w_disk w4)" "file_at (w_disk w4) q \<noteq> None" by auto
      from Suc.IH [OF 4(2) this] show ?thesis .
    qed
  qed auto
qed

lemma unlink_ok_other: "spared s q \<Longrightarrow> p \<noteq> q \<Longrightarrow> leaves q (unlink_missing_ok s p)"
  using unlink_ok_result [of s q p] by (auto simp: does_def)

lemma unlink_ok_sound: "spared s q \<Longrightarrow> sound q (unlink_missing_ok s p)"
  using unlink_ok_result [of s q p] by (auto simp: does_def)

lemma attempts_opened:
  assumes sp: "spared s q" and run: "catching (bnd begin_tx (\<lambda>u. bnd (query s (\<lambda>b. ())) (\<lambda>u.
       create_attempts n s folder real base stem data tried))) (\<lambda>e. bnd begin_tx (\<lambda>u. typed_db s e)) w = (Inr x, w')"
    and wf: "wf_fsys (w_disk w)" and there: "file_at (w_disk w) q \<noteq> None"
  shows "snd x \<noteq> q"
  using run
proof (cases rule: catching_result)
  case (fine y)
  then obtain u w1 where 1: "query s (\<lambda>b. ()) (w\<lparr>w_tx := []\<rparr>) = (Inr u, w1)"
    "create_attempts n s folder real base stem data tried w1 = (Inr x, w')"
    by (auto simp: begin_tx_def elim!: bnd_result)
  from doesD [OF leaves_query [OF sp] 1(1)] wf there
  have "wf_fsys (w_disk w1)" "file_at (w_disk w1) q \<noteq> None" by auto
  from attempts_result [OF sp _ this, of n folder real base stem data tried "fst x" "snd x" w'] 1(2) show ?thesis by simp
next
  case (caught e w1)
  then show ?thesis
    by (auto simp: bnd_def begin_tx_def typed_db_def raise_exn_def split: option.splits)
qed

lemma does_create_note:
  assumes sp: "spared s q"
  shows "does keeps_existing q (create_note s title body request folder)"
proof -
  let ?open = "\<lambda>safe real base stem data. catching (bnd begin_tx (\<lambda>u. bnd (query s (\<lambda>b. ())) (\<lambda>u.
       create_attempts 5 s safe real base stem data []))) (\<lambda>e. bnd begin_tx (\<lambda>u. typed_db s e))"
  have opened: "does keeps_existing q (?open safe real base stem data)" for safe real base stem data
    by (intro does_catching does_bnd_after does_attempts sp leaves_intros) simp_all
  have tail: "does keeps_existing q (bnd (?open safe real base stem data) (\<lambda>(relative, file).
      catching (finish s (m relative)) (\<lambda>e. if b e then bnd (unlink_missing_ok s file) (\<lambda>u. raise_exn (Refused ValueRejected))
           else typed_db s e)))"
    if m: "\<And>relative. leaves q (m relative)" for safe real base stem data and m :: "str \<Rightarrow> document act" and b
  proof (rule keeps_bnd [OF opened, where K = "\<lambda>x. snd x \<noteq> q"])
    have fin: "leaves q (finish s (m relative))" for relative
      by (rule does_finish [OF sp m])
    fix x :: "str \<times> str"
    show "sound q (case x of (relative, file) \<Rightarrow> catching (finish s (m relative))
        (\<lambda>e. if b e then bnd (unlink_missing_ok s file) (\<lambda>u. raise_exn (Refused ValueRejected)) else typed_db s e))"
      by (intro does_prod sound_catching does_if sound_bnd unlink_ok_sound sp sound_leaves [OF fin])
        (intro sound_leaves leaves_intros sp)+
    show "does keeps_existing q (case x of (relative, file) \<Rightarrow> catching (finish s (m relative))
        (\<lambda>e. if b e then bnd (unlink_missing_ok s file) (\<lambda>u. raise_exn (Refused ValueRejected)) else typed_db s e))"
      if "snd x \<noteq> q"
    proof -
      obtain a c where x: "x = (a, c)" by (cases x)
      with that have "leaves q (unlink_missing_ok s c)" by (intro unlink_ok_other sp) simp
      then show ?thesis
        unfolding x prod.case by (intro keeps_leaves leaves_catching fin leaves_cases leaves_bnd leaves_raise leaves_typed_db sp)
    qed
  qed (rule attempts_opened [OF sp])
  have ref: "keeps_existing v v" for v by simp
  show ?thesis
    unfolding create_note_def Let_def
    by ((rule ref | rule does_bnd_after, (intro leaves_intros sp; fail)[1] | rule does_prod | rule tail)+)
      (intro leaves_intros sp refl ref)+
qed

end
