(* ===== verification/NoteMirror.thy ===== *)
theory NoteMirror
  imports NoteMoves
begin

text \<open>
  The mirror row is a projection of the file: whenever a patch changes a note's row, and even when it
  cannot tell whether its commit landed, the row says of the file exactly what its bytes say.
  \<open>still\<close> actions change no row and add no statement to the open transaction.
\<close>

section \<open>Actions that change no row\<close>

definition db_quiet :: "'d site \<Rightarrow> bool" where
  "db_quiet s \<longleftrightarrow> (\<forall>n d b. snd (others s n (d, b)) = b)"

definition still :: "'a act \<Rightarrow> bool" where
  "still m \<longleftrightarrow> (\<forall>w r w'. m w = (r, w') \<longrightarrow> w_db w' = w_db w \<and> w_tx w' = w_tx w)"

text \<open>Reads outside a transaction open one of their own.\<close>

definition db_still :: "'a act \<Rightarrow> bool" where
  "db_still m \<longleftrightarrow> (\<forall>w r w'. m w = (r, w') \<longrightarrow> w_db w' = w_db w)"

named_theorems still_intros \<open>actions that change no row\<close>
named_theorems db_still_intros \<open>actions that change no committed row\<close>

lemma stillD: "still m \<Longrightarrow> m w = (r, w') \<Longrightarrow> w_db w' = w_db w \<and> w_tx w' = w_tx w"
  by (auto simp: still_def)

lemma db_stillD: "db_still m \<Longrightarrow> m w = (r, w') \<Longrightarrow> w_db w' = w_db w"
  by (auto simp: db_still_def)

lemma still_bnd [still_intros]: "still m \<Longrightarrow> (\<And>x. still (f x)) \<Longrightarrow> still (bnd m f)"
  unfolding still_def by (metis (no_types, opaque_lifting) bnd_result)

lemma still_catching [still_intros]: "still m \<Longrightarrow> (\<And>e. still (h e)) \<Longrightarrow> still (catching m h)"
  unfolding still_def by (metis (no_types, opaque_lifting) catching_result)

lemma db_still_bnd [db_still_intros]: "db_still m \<Longrightarrow> (\<And>x. db_still (f x)) \<Longrightarrow> db_still (bnd m f)"
  unfolding db_still_def by (metis (no_types, opaque_lifting) bnd_result)

lemma db_still_catching [db_still_intros]: "db_still m \<Longrightarrow> (\<And>e. db_still (h e)) \<Longrightarrow> db_still (catching m h)"
  unfolding db_still_def by (metis (no_types, opaque_lifting) catching_result)

lemma still_cases [still_intros]:
  "still a \<Longrightarrow> still b \<Longrightarrow> still (if c then a else b)"
  "(\<And>u v. still (g u v)) \<Longrightarrow> still (case_prod g p)"
  "still a \<Longrightarrow> (\<And>y. still (f y)) \<Longrightarrow> still (case_option a f z)"
  "(\<And>y. still (k y)) \<Longrightarrow> (\<And>y. still (l y)) \<Longrightarrow> still (case_sum k l t)"
  "(\<And>y. still (h y)) \<Longrightarrow> still (Let v h)"
  by (auto split: prod.splits option.splits sum.splits)

lemma db_still_cases [db_still_intros]:
  "db_still a \<Longrightarrow> db_still b \<Longrightarrow> db_still (if c then a else b)"
  "(\<And>u v. db_still (g u v)) \<Longrightarrow> db_still (case_prod g p)"
  "db_still a \<Longrightarrow> (\<And>y. db_still (f y)) \<Longrightarrow> db_still (case_option a f z)"
  "(\<And>y. db_still (k y)) \<Longrightarrow> (\<And>y. db_still (l y)) \<Longrightarrow> db_still (case_sum k l t)"
  "(\<And>y. db_still (h y)) \<Longrightarrow> db_still (Let v h)"
  by (auto split: prod.splits option.splits sum.splits)

lemma still_pure [still_intros]:
  "still (ret x)" "still (raise_exn e)" "still (now_at s)" "still (\<lambda>w. (Inr (f w), w))"
  by (auto simp: still_def ret_def raise_exn_def now_at_def)

lemma db_still_begin [db_still_intros]: "db_still begin_tx"
  by (auto simp: db_still_def begin_tx_def)

lemma still_db: "still m \<Longrightarrow> db_still m"
  by (auto simp: still_def db_still_def)

lemma tick_db:
  assumes "db_quiet s"
  shows "w_db (tick s w) = w_db w" "w_tx (tick s w) = w_tx w"
proof -
  obtain d b where o: "others s (w_tick w) (w_disk w, w_db w) = (d, b)" by (rule prod.exhaust)
  have "b = w_db w" using assms o unfolding db_quiet_def by (metis snd_conv)
  with o show "w_db (tick s w) = w_db w" "w_tx (tick s w) = w_tx w" by (simp_all add: tick_def)
qed

lemma still_disk_step [still_intros]: "db_quiet s \<Longrightarrow> still (disk_step s f)"
  by (auto simp: still_def disk_step_def Let_def tick_db split: option.splits sum.splits)

lemma still_query [still_intros]: "db_quiet s \<Longrightarrow> still (query s f)"
  by (auto simp: still_def query_def Let_def tick_db split: option.splits)

lemma still_own_step:
  "db_quiet s \<Longrightarrow> (\<And>w. w_db (snd (f w)) = w_db w \<and> w_tx (snd (f w)) = w_tx w) \<Longrightarrow> still (own_step s f)"
  by (auto simp: still_def own_step_def Let_def tick_db split: option.splits)

lemma still_small [still_intros]:
  "still (demand ok e)" "still (demand_valid bad t)" "still (fm_result x)" "still (encoded u)" "still (decoded d)"
  "still (typed_db s e')" "still (metadata_read s e')"
  unfolding demand_def demand_valid_def fm_result_def encoded_def decoded_def typed_db_def metadata_read_def
  by (auto split: tag_outcome.splits sum.splits option.splits intro!: still_intros)

lemma still_bytes_at [still_intros]: "db_quiet s \<Longrightarrow> still (bytes_at s i p e)"
  unfolding bytes_at_def read_note_def parse_at_def by (intro still_intros)

lemma still_replace [still_intros]: "db_quiet s \<Longrightarrow> still (replace_if_unchanged s i p data e)"
  unfolding replace_if_unchanged_def stage_def commit_temp_def replace_temp_def sync_folder_def unlink_missing_ok_def
  by (intro still_intros)

lemma still_review [still_intros]: "db_quiet s \<Longrightarrow> still (record_review s i fm)"
proof -
  assume q: "db_quiet s"
  have "still (source_revisions s is)" for "is"
    by (induction "is") (simp_all, (intro still_intros still_own_step q; simp)+)
  then show ?thesis
    unfolding record_review_def save_review_def Let_def by (intro still_intros still_own_step q) simp_all
qed

lemma db_still_links [db_still_intros]: "db_quiet s \<Longrightarrow> db_still (artifact_links s fm cur)"
proof -
  assume q: "db_quiet s"
  have m: "still (read_manifest s i)" for i
    unfolding read_manifest_def by (intro still_intros still_own_step q) simp_all
  have "still (links_for s paths ids)" for paths ids
    by (induction ids) (simp_all, (intro still_intros m; simp)+)
  then have "db_still (bnd (known_paths s ids) (\<lambda>paths. links_for s paths ids))" for ids
    unfolding known_paths_def Let_def
    by (intro db_still_intros) (intro still_db still_intros q | assumption)+
  then show ?thesis
    by (auto simp: artifact_links_def Let_def still_db still_pure split: pyval.splits list.splits)
qed

lemma db_still_filing [db_still_intros]: "db_quiet s \<Longrightarrow> db_still (with_filing_state s doc)"
proof -
  assume q: "db_quiet s"
  have "still (filing_state s i)" for i
    unfolding filing_state_def by (intro still_intros still_own_step q) simp_all
  then show ?thesis
    unfolding with_filing_state_def
    by (intro db_still_intros) (intro still_db still_intros q | assumption)+
qed

section \<open>Transactions\<close>

text \<open>What a statement and a commit do to the rows.\<close>

lemma execute_result:
  assumes "db_quiet s" and "execute s f w = (r, w')"
  shows "w_db w' = w_db w \<and> (r = Inr () \<longrightarrow> w_tx w' = w_tx w @ [f])"
  using assms by (auto simp: execute_def execute_with_def Let_def tick_db split: option.splits)

lemma finish_result:
  assumes q: "db_quiet s" and run: "finish s m w = (r, w')"
    and keep: "\<And>r1 w1. m w = (r1, w1) \<Longrightarrow> w_db w1 = w_db w"
  shows "w_db w' = w_db w \<and> (\<forall>x. r \<noteq> Inr x) \<or>
     (\<exists>x w1. m w = (Inr x, w1) \<and> w_db w' = foldl (\<lambda>b f. f b) (w_db w) (w_tx w1) \<and> (\<exists>t. r = Inr x \<or> r = Inl t))"
proof (cases "m w")
  case (Pair r1 w1)
  note k = keep [OF Pair]
  show ?thesis
  proof (cases r1)
    case (Inl e)
    with Pair run k show ?thesis by (auto simp: finish_def)
  next
    case (Inr x)
    with Pair run have "bnd (commit s) (\<lambda>u. ret x) w1 = (r, w')" by (simp add: finish_def)
    then show ?thesis
      using Pair Inr k
      by (auto simp: bnd_def commit_def ret_def Let_def view_def tick_db [OF q] split: option.splits if_splits)
  qed
qed

lemma row_of_update: "row_of (update_row i f b) j = (if j = i then map_option f (row_of b j) else row_of b j)"
proof -
  have "map_of (map (\<lambda>(k, r). (k, if k = i then f r else r)) xs) j =
      (if j = i then map_option f (map_of xs j) else map_of xs j)" for xs
    by (induction xs) auto
  then show ?thesis by (simp add: row_of_def update_row_def)
qed

lemma row_of_index [simp]:
  "row_of (drop_unreadable i b) j = row_of b j" "row_of (withdraw_doc uc f i b) j = row_of b j"
  "row_of (publish_doc uc f i d b) j = row_of b j" "row_of (add_event e b) j = row_of b j"
  by (simp_all add: row_of_def drop_unreadable_def withdraw_doc_def drop_doc_def publish_doc_def put_doc_def add_event_def)

text \<open>The statements of an index entry, none of which touches a row.\<close>

definition rows_kept :: "(db \<Rightarrow> db) list \<Rightarrow> bool" where
  "rows_kept fs \<longleftrightarrow> (\<forall>f \<in> set fs. \<forall>b j. row_of (f b) j = row_of b j)"

lemma rows_kept_foldl: "rows_kept fs \<Longrightarrow> row_of (foldl (\<lambda>b f. f b) b fs) j = row_of b j"
  by (induction fs arbitrary: b) (auto simp: rows_kept_def)

lemma index_note_result:
  assumes q: "db_quiet s" and run: "index_note s i p t body v now w = (r, w')"
  shows "w_db w' = w_db w \<and> (r = Inr () \<longrightarrow> (\<exists>fs. rows_kept fs \<and> w_tx w' = w_tx w @ fs))"
  using run [unfolded index_note_def Let_def]
proof (cases rule: bnd_result)
  case (fails e)
  with execute_result [OF q fails(1)] show ?thesis by simp
next
  case (goes u w1)
  note 1 = execute_result [OF q goes(1)]
  from goes(2) show ?thesis
  proof (cases rule: bnd_result)
    case (fails e)
    with execute_result [OF q fails(1)] 1 show ?thesis by simp
  next
    case (goes u w2)
    note 2 = execute_result [OF q goes(1)] and 3 = execute_result [OF q goes(2)]
    let ?folder = "ns_notes_folder (ps_notes (st_settings s))"
    show ?thesis
      using 1 2 3
      by (auto simp: rows_kept_def intro!: exI [of _ "[drop_unreadable i, withdraw_doc (st_uc s) ?folder i,
         publish_doc (st_uc s) ?folder i \<lparr>sd_path = p, sd_title = indexable t, sd_body = indexable body,
           sd_version = v, sd_indexed_at = now\<rparr>]"])
  qed
qed

section \<open>Patching keeps the mirror\<close>

text \<open>The row of a note says what its file's bytes say.\<close>

definition describes :: "'d site \<Rightarrow> str \<Rightarrow> str \<Rightarrow> bytes \<Rightarrow> row \<Rightarrow> bool" where
  "describes s i p data r \<longleftrightarrow>
     (case parse_note (st_objects s) (st_yaml s) (st_reason s) i data (st_schema s) of Inl e \<Rightarrow> False
      | Inr (fm, body) \<Rightarrow> r_state r = U ''ok'' \<and> r_hash r = st_hash s data \<and> r_size r = length data \<and>
          r_frontmatter r = json_map (st_objects s) fm \<and> r_cols r = mirror_columns (st_objects s) fm (st_schema s) \<and>
          r_title r = Some (title_of body p))"

lemma describes_mirrored:
  "parse_note (st_objects s) (st_yaml s) (st_reason s) i data (st_schema s) = Inr (fm, body) \<Longrightarrow>
   describes s i p data (mirrored_row s (title_of body p) fm data mt now r)"
  by (simp add: describes_def mirrored_row_def Let_def)

lemma locate_direct:
  assumes q: "db_quiet s" and sp: "spared s p" and wf: "wf_fsys (w_disk w)"
    and row: "row_of (w_db w) i = Some r0" "live_row r0" "st_resolve s (r_path r0) = Some p"
    and there: "file_at (w_disk w) p \<noteq> None" and run: "locate s i inl w = (r, w')"
  shows "w_db w' = w_db w \<and> (\<forall>x. r = Inr x \<longrightarrow> x = (r_path r0, p))"
  using run [unfolded locate_def]
proof (cases rule: bnd_result)
  case (fails e)
  have "db_still (catching (bnd begin_tx (\<lambda>u. query s (\<lambda>b. row_of b i))) (metadata_read s))"
    by (intro db_still_intros) (intro still_db still_intros q)+
  from db_stillD [OF this fails(1)] fails(2) show ?thesis by simp
next
  case (goes x w1)
  have fine: "bnd begin_tx (\<lambda>u. query s (\<lambda>b. row_of b i)) w = (Inr x, w1)"
    using goes(1) by (auto elim!: catching_result simp: metadata_read_def raise_exn_def)
  then have x: "x = Some r0" and db: "w_db w1 = w_db w"
    using row(1) by (auto simp: bnd_def begin_tx_def query_def Let_def view_def tick_db [OF q] split: option.splits)
  have "leaves p (bnd begin_tx (\<lambda>u. query s (\<lambda>b. row_of b i)))"
    by (intro leaves_intros sp)
  from doesD [OF this fine wf] there have w1: "wf_fsys (w_disk w1)" "file_at (w_disk w1) p \<noteq> None" by auto
  from goes(2) x row(2,3) have "bnd (is_note_file s p) (\<lambda>here. if here then ret (r_path r0, p)
     else bnd (followed s i inl) (\<lambda>ps. case ps of [q] \<Rightarrow> bnd (repair_location s i (r_path r0) q) (\<lambda>u. ret (q, q))
       | _ \<Rightarrow> raise_exn (Typed (NotFoundNote i)))) w1 = (r, w')" by simp
  then show ?thesis
  proof (cases rule: bnd_result)
    case (fails e)
    have "still (is_note_file s p)"
      unfolding is_note_file_def stat_regular_def by (intro still_intros q)
    from stillD [OF this fails(1)] fails(2) db show ?thesis by simp
  next
    case (goes here w2)
    have st: "disk_step s (\<lambda>now d. Inr (map_of (d_names d) p \<noteq> None, d)) w1 = (Inr here, w2)"
      using goes(1) by (auto simp: is_note_file_def stat_regular_def elim!: catching_result simp: raise_exn_def)
    then have "here"
    proof (cases rule: disk_step_result)
      case (works y d)
      have "file_at (w_disk (tick s w1)) p \<noteq> None"
        using tick_leaves [OF sp w1(1)] w1(2) by simp
      with works show ?thesis by (auto simp: file_at_def node_at_def)
    qed auto
    with goes(2) stillD [OF still_disk_step [OF q] st] db show ?thesis by (auto simp: ret_def)
  qed
qed

text \<open>The rows and the file as they were, and the two ways an operation may end.\<close>

definition untouched :: "str \<Rightarrow> db \<Rightarrow> bytes option \<Rightarrow> world \<Rightarrow> bool" where
  "untouched p b0 v0 w \<longleftrightarrow> w_db w = b0 \<and> wf_fsys (w_disk w) \<and> file_at (w_disk w) p = v0"

definition settles :: "'d site \<Rightarrow> str \<Rightarrow> str \<Rightarrow> row \<Rightarrow> db \<Rightarrow> exn + 'a \<Rightarrow> world \<Rightarrow> bool" where
  "settles s i p r0 b0 r w' \<longleftrightarrow> w_db w' = b0 \<and> (\<forall>x. r \<noteq> Inr x) \<or>
     (\<exists>row data. row_of (w_db w') i = Some row \<and> r_path row = r_path r0 \<and> file_at (w_disk w') p = Some data \<and>
        describes s i p data row)"

text \<open>An action that settles from wherever the rows and the file are as they were.\<close>

definition steady :: "'d site \<Rightarrow> str \<Rightarrow> str \<Rightarrow> row \<Rightarrow> db \<Rightarrow> bytes option \<Rightarrow> 'a act \<Rightarrow> bool" where
  "steady s i p r0 b0 v m \<longleftrightarrow> (\<forall>w r w'. m w = (r, w') \<longrightarrow> untouched p b0 v w \<longrightarrow> settles s i p r0 b0 r w')"

lemma steady_bnd:
  assumes m: "db_still m" "leaves p m"
    and f: "\<And>x w w'. m w = (Inr x, w') \<Longrightarrow> untouched p b0 v w \<Longrightarrow> steady s i p r0 b0 v (f x)"
  shows "steady s i p r0 b0 v (bnd m f)"
  unfolding steady_def
proof (intro allI impI)
  fix w r w'
  assume b: "bnd m f w = (r, w')" and u: "untouched p b0 v w"
  from b show "settles s i p r0 b0 r w'"
  proof (cases rule: bnd_result)
    case (fails e)
    with db_stillD [OF m(1) fails(1)] u show ?thesis by (simp add: settles_def untouched_def)
  next
    case (goes x w1)
    have "untouched p b0 v w1"
      using db_stillD [OF m(1) goes(1)] doesD [OF m(2) goes(1)] u by (auto simp: untouched_def)
    with f [OF goes(1) u] goes(2) show ?thesis by (auto simp: steady_def)
  qed
qed

lemma steady_prod: "(\<And>a b. x = (a, b) \<Longrightarrow> steady s i p r0 b0 v (g a b)) \<Longrightarrow> steady s i p r0 b0 v (case_prod g x)"
  by (cases x) simp

lemma steady_locate:
  assumes q: "db_quiet s" and sp: "spared s p"
    and row: "row_of b0 i = Some r0" "live_row r0" "st_resolve s (r_path r0) = Some p"
    and f: "steady s i p r0 b0 (Some d) (f (r_path r0, p))"
  shows "steady s i p r0 b0 (Some d) (bnd (locate s i inl) f)"
  unfolding steady_def
proof (intro allI impI)
  fix w r w'
  assume b: "bnd (locate s i inl) f w = (r, w')" and u: "untouched p b0 (Some d) w"
  have loc: "w_db w1 = b0 \<and> (\<forall>x. r1 = Inr x \<longrightarrow> x = (r_path r0, p))" if "locate s i inl w = (r1, w1)" for r1 w1
    using locate_direct [OF q sp _ _ row(2,3) _ that] u row(1) by (simp add: untouched_def)
  from b show "settles s i p r0 b0 r w'"
  proof (cases rule: bnd_result)
    case (fails e)
    with loc [OF fails(1)] show ?thesis by (simp add: settles_def)
  next
    case (goes x w1)
    have "untouched p b0 (Some d) w1"
      using loc [OF goes(1)] doesD [OF leaves_locate [OF sp] goes(1)] u by (auto simp: untouched_def)
    with f goes(2) loc [OF goes(1)] show ?thesis by (auto simp: steady_def)
  qed
qed

text \<open>The transaction of a patch: its row update, then the file, then the commit.\<close>

lemma patch_transaction:
  assumes q: "db_quiet s" and ap: "apart s p" and u0: "untouched p b0 (Some old) w" and b0: "row_of b0 i = Some r0"
    and e: "st_hash s old = e" and fine: "parse_note (st_objects s) (st_yaml s) (st_reason s) i data (st_schema s) = Inr (fm, body)"
    and run: "catching (transaction s
        (bnd (execute s (update_row i (mirrored_row s (title_of body p) fm data mt now))) (\<lambda>u.
         bnd (index_note s i rel (title_of body p) body (st_hash s data) now) (\<lambda>u.
         bnd (if data \<noteq> old then replace_if_unchanged s i p data e else ret ()) (\<lambda>u.
         if rvw then record_review s i fm else ret ()))))) (typed_db s) w = (r, w')"
  shows "settles s i p r0 b0 r w' \<and> wf_fsys (w_disk w')"
proof -
  note sp = apart_spared [OF ap]
  let ?upd = "update_row i (mirrored_row s (title_of body p) fm data mt now)"
  let ?m = "bnd (execute s ?upd) (\<lambda>u.
         bnd (index_note s i rel (title_of body p) body (st_hash s data) now) (\<lambda>u.
         bnd (if data \<noteq> old then replace_if_unchanged s i p data e else ret ()) (\<lambda>u.
         if rvw then record_review s i fm else ret ())))"
  let ?w = "w\<lparr>w_tx := []\<rparr>"
  have w0: "w_db ?w = b0" "wf_fsys (w_disk ?w)" "file_at (w_disk ?w) p = Some old"
    using u0 by (auto simp: untouched_def)
  have rep: "wf_fsys (w_disk w2) \<and> w_db w2 = w_db w1 \<and> w_tx w2 = w_tx w1 \<and> (r2 = Inr () \<longrightarrow> file_at (w_disk w2) p = Some data)"
    if "(if data \<noteq> old then replace_if_unchanged s i p data e else ret ()) w1 = (r2, w2)"
      "wf_fsys (w_disk w1)" "file_at (w_disk w1) p = Some old" for w1 r2 w2
    using that replace_if_unchanged_result [OF ap, of i p data e w1 r2 w2] stillD [OF still_replace [OF q], of i p data e w1 r2 w2]
    by (cases "data = old") (auto simp: ret_def)
  have body: "w_db w1 = b0 \<and> wf_fsys (w_disk w1) \<and> (r1 = Inr () \<longrightarrow> file_at (w_disk w1) p = Some data \<and>
      (\<exists>fs. rows_kept fs \<and> w_tx w1 = ?upd # fs))" if "?m ?w = (r1, w1)" for r1 w1
    using that
  proof (cases rule: bnd_result)
    case (fails x)
    with execute_result [OF q fails(1)] doesD [OF leaves_execute [OF sp] fails(1) w0(2)] w0 show ?thesis by simp
  next
    case (goes u w2)
    from execute_result [OF q goes(1)] doesD [OF leaves_execute [OF sp] goes(1) w0(2)] w0
    have 2: "w_db w2 = b0" "w_tx w2 = [?upd]" "wf_fsys (w_disk w2)" "file_at (w_disk w2) p = Some old" by auto
    from goes(2) show ?thesis
    proof (cases rule: bnd_result)
      case (fails x)
      with index_note_result [OF q fails(1)] doesD [OF leaves_index_note [OF sp] fails(1) 2(3)] 2 show ?thesis by simp
    next
      case (goes u w3)
      from index_note_result [OF q goes(1)] doesD [OF leaves_index_note [OF sp] goes(1) 2(3)] 2
      obtain fs where 3: "w_db w3 = b0" "w_tx w3 = ?upd # fs" "rows_kept fs" "wf_fsys (w_disk w3)"
        "file_at (w_disk w3) p = Some old" by auto
      from goes(2) show ?thesis
      proof (cases rule: bnd_result)
        case (fails x)
        with rep [OF fails(1) 3(4,5)] 3 show ?thesis by simp
      next
        case (goes u w4)
        from rep [OF goes(1) 3(4,5)] 3
        have 4: "w_db w4 = b0" "w_tx w4 = ?upd # fs" "wf_fsys (w_disk w4)" "file_at (w_disk w4) p = Some data" by auto
        have l: "leaves p (if rvw then record_review s i fm else ret ())" "still (if rvw then record_review s i fm else ret ())"
          by (intro leaves_intros sp) (intro still_intros q)
        from doesD [OF l(1) goes(2) 4(3)] stillD [OF l(2) goes(2)] 3(3) 4 show ?thesis by auto
      qed
    qed
  qed
  have end_disk: "leaves p (bnd (commit s) (\<lambda>u. ret x))" for x :: unit
    by (intro leaves_intros sp)
  have tx: "settles s i p r0 b0 r1 w1 \<and> wf_fsys (w_disk w1)" if fin: "finish s ?m ?w = (r1, w1)" for r1 w1
  proof -
    obtain r2 w2 where m: "?m ?w = (r2, w2)" by (rule prod.exhaust)
    note bd = body [OF m]
    have wf1: "wf_fsys (w_disk w1) \<and> (r2 = Inr () \<longrightarrow> file_at (w_disk w1) p = Some data)"
      using fin m bd doesD [OF end_disk] by (cases r2) (force simp: finish_def)+
    have "w_db w1 = w_db ?w \<and> (\<forall>x. r1 \<noteq> Inr x) \<or>
        (\<exists>x w3. ?m ?w = (Inr x, w3) \<and> w_db w1 = foldl (\<lambda>b f. f b) (w_db ?w) (w_tx w3) \<and> (\<exists>t. r1 = Inr x \<or> r1 = Inl t))"
      by (rule finish_result [OF q fin]) (use body w0 in auto)
    then show ?thesis
    proof (elim disjE)
      show "settles s i p r0 b0 r1 w1 \<and> wf_fsys (w_disk w1)"
        if "w_db w1 = w_db ?w \<and> (\<forall>x. r1 \<noteq> Inr x)"
        using that wf1 w0(1) by (auto simp: settles_def)
      assume "\<exists>x w3. ?m ?w = (Inr x, w3) \<and> w_db w1 = foldl (\<lambda>b f. f b) (w_db ?w) (w_tx w3) \<and> (\<exists>t. r1 = Inr x \<or> r1 = Inl t)"
      then have r2: "r2 = Inr ()" and db: "w_db w1 = foldl (\<lambda>b f. f b) b0 (w_tx w2)" using m w0(1) by auto
      from bd r2 obtain fs where "rows_kept fs" "w_tx w2 = ?upd # fs" by auto
      with db have "row_of (w_db w1) i = Some (mirrored_row s (title_of body p) fm data mt now r0)"
        using b0 by (simp add: rows_kept_foldl row_of_update)
      moreover have "r_path (mirrored_row s (title_of body p) fm data mt now r0) = r_path r0"
        by (simp add: mirrored_row_def Let_def)
      ultimately show "settles s i p r0 b0 r1 w1 \<and> wf_fsys (w_disk w1)"
        using wf1 r2 describes_mirrored [OF fine] unfolding settles_def by blast
    qed
  qed
  have tr: "transaction s ?m w = finish s ?m ?w"
    by (simp add: transaction_def bnd_def begin_tx_def)
  from run show ?thesis
  proof (cases rule: catching_result)
    case (fine x)
    with tx show ?thesis by (simp add: tr)
  next
    case (caught x w1)
    from tx [of "Inl x" w1] caught have "settles s i p r0 b0 (Inl x :: exn + unit) w1 \<and> wf_fsys (w_disk w1)" by (simp add: tr)
    with caught(2) show ?thesis
      by (auto simp: settles_def typed_db_def raise_exn_def split: option.splits)
  qed
qed

lemma steady_patch:
  assumes q: "db_quiet s" and ap: "apart s p" and b0: "row_of b0 i = Some r0" and e: "st_hash s old = e"
    and fine: "parse_note (st_objects s) (st_yaml s) (st_reason s) i data (st_schema s) = Inr (fm, body)"
  shows "steady s i p r0 b0 (Some old) (bnd (catching (transaction s
        (bnd (execute s (update_row i (mirrored_row s (title_of body p) fm data mt now))) (\<lambda>u.
         bnd (index_note s i rel (title_of body p) body (st_hash s data) now) (\<lambda>u.
         bnd (if data \<noteq> old then replace_if_unchanged s i p data e else ret ()) (\<lambda>u.
         if rvw then record_review s i fm else ret ()))))) (typed_db s)) (\<lambda>u. with_filing_state s doc))"
  unfolding steady_def
proof (intro allI impI)
  note sp = apart_spared [OF ap]
  fix w r w'
  assume "bnd (catching (transaction s
        (bnd (execute s (update_row i (mirrored_row s (title_of body p) fm data mt now))) (\<lambda>u.
         bnd (index_note s i rel (title_of body p) body (st_hash s data) now) (\<lambda>u.
         bnd (if data \<noteq> old then replace_if_unchanged s i p data e else ret ()) (\<lambda>u.
         if rvw then record_review s i fm else ret ()))))) (typed_db s)) (\<lambda>u. with_filing_state s doc) w = (r, w')"
    and u: "untouched p b0 (Some old) w"
  then show "settles s i p r0 b0 r w'"
  proof (cases rule: bnd_result)
    case (fails x)
    with patch_transaction [OF q ap u b0 e fine fails(1)] show ?thesis by (auto simp: settles_def)
  next
    case (goes x w1)
    from patch_transaction [OF q ap u b0 e fine goes(1)] have 1: "settles s i p r0 b0 (Inr x :: exn + unit) w1" "wf_fsys (w_disk w1)"
      by auto
    have "leaves p (with_filing_state s doc)"
      by (intro leaves_intros sp)
    from doesD [OF this goes(2) 1(2)] db_stillD [OF db_still_filing [OF q] goes(2)] 1(1)
    show ?thesis by (auto simp: settles_def)
  qed
qed

lemma written_parses:
  assumes sp: "spared s p" and b: "bytes_at s i p e w = (Inr (old, cur, m), w1)" and wf: "wf_fsys (w_disk w)"
    and t: "encoded t w2 = (Inr data, w3)" "fm_result (parse_text (st_yaml s) t) w4 = (Inr (fm, body), w5)"
    and k: "demand (fget fm (role (st_schema s) ''id_key'') = fget cur (role (st_schema s) ''id_key'')) x w6 = (Inr u, w7)"
  shows "parse_note (st_objects s) (st_yaml s) (st_reason s) i data (st_schema s) = Inr (fm, body)"
proof -
  from t(1) have "encode t = Some data" by (simp add: encoded_def raise_exn_def ret_def split: option.splits)
  moreover from t(2) have "parse_text (st_yaml s) t = Inr (fm, body)"
    by (simp add: fm_result_def raise_exn_def ret_def split: sum.splits)
  moreover have "fget fm (role (st_schema s) ''id_key'') = fget cur (role (st_schema s) ''id_key'')"
    using k by (simp add: demand_def raise_exn_def split: if_splits)
  moreover obtain body0 where "parse_note (st_objects s) (st_yaml s) (st_reason s) i old (st_schema s) = Inr (cur, body0)"
    using bytes_at_result [OF sp b wf] by auto
  ultimately show ?thesis
    by (auto simp: parse_note_def Let_def decode_encode split: option.splits sum.splits if_splits)
qed

lemma steady_patched:
  assumes q: "db_quiet s" and ap: "apart s p" and b0: "row_of b0 i = Some r0"
    and facts: "untouched p b0 (Some d) w" "bytes_at s i p (Some e) w = (Inr (old, cur, m), w1)"
    "encoded t w2 = (Inr data, w3)" "fm_result (parse_text (st_yaml s) t) w4 = (Inr (fm, body), w5)"
    "demand (fget fm (role (st_schema s) ''id_key'') = fget cur (role (st_schema s) ''id_key'')) x w6 = (Inr u, w7)"
  shows "steady s i p r0 b0 (Some d) (bnd (catching (transaction s
        (bnd (execute s (update_row i (mirrored_row s (title_of body p) fm data mt now))) (\<lambda>u.
         bnd (index_note s i rel (title_of body p) body (st_hash s data) now) (\<lambda>u.
         bnd (if data \<noteq> old then replace_if_unchanged s i p data e else ret ()) (\<lambda>u.
         if rvw then record_review s i fm else ret ()))))) (typed_db s)) (\<lambda>u. with_filing_state s doc))"
proof -
  note sp = apart_spared [OF ap]
  from facts(1) have wf: "wf_fsys (w_disk w)" and d: "file_at (w_disk w) p = Some d" by (auto simp: untouched_def)
  from bytes_at_result [OF sp facts(2) wf] d have "d = old" "st_hash s old = e" by (auto simp: at_version_def)
  then show ?thesis
    by (simp only:) (rule steady_patch [OF q ap b0 _ written_parses [OF sp facts(2) wf facts(3-5)]])
qed

end
