(* ===== verification/NoteSample.thy ===== *)
theory NoteSample
  imports NoteWrites
begin

text \<open>
  A store with one note, on which the properties of the store are applied.
\<close>

section \<open>A store at work\<close>

definition sample_site :: "fmap site" where
  "sample_site = \<lparr>st_uc = ascii_unicode, st_objects = plain_objects,
     st_yaml = sample_yaml, st_reason = (\<lambda>e. []), st_os_text = (\<lambda>e. []), st_schema = small_schema,
     st_settings = default_settings, st_hash = (\<lambda>d. d), st_local = (\<lambda>t. (Date 2026 4 1, Time 9 0 0)),
     st_resolve = Some, st_temp = (\<lambda>n p. U ''.tmp''), st_new_id = (\<lambda>n. U ''new''), st_clock = int, st_mono = int,
     others = (\<lambda>n x. x), os_fault = (\<lambda>n. None), db_fault_at = (\<lambda>n. None), landed = (\<lambda>n. False)\<rparr>"

definition sample_row :: "str \<Rightarrow> row" where
  "sample_row p = \<lparr>r_path = p, r_title = None, r_hash = U ''# Plan'', r_size = 6, r_mtime = Some 0, r_frontmatter = [],
     r_cols = mirror_columns (st_objects sample_site) [] small_schema, r_filed = False, r_filed_sources = [],
     r_state = U ''ok'', r_reason = None, r_first_seen = 0, r_updated = 0\<rparr>"

definition sample_world :: world where
  "sample_world = \<lparr>w_disk = \<lparr>d_names = [(U ''In/plan.md'', 0)], d_nodes = (\<lambda>n. \<lparr>n_bytes = U ''# Plan'', n_mtime = 0\<rparr>),
       d_fresh = 1, d_dirs = [U ''In'']\<rparr>,
     w_db = \<lparr>db_rows = [(U ''a'', sample_row (U ''In/plan.md''))], db_docs = [], db_unreadable = [], db_outbox = [], db_src = no_sources, db_more = no_tables\<rparr>,
     w_tx = [], w_tick = 0, w_archive = [], w_files = no_files, w_manifests = [], w_reviews = [], w_receipts = [], w_notices = [], w_rejections = [],
     w_found = None, w_built = 0\<rparr>"

end
