(* ===== verification/NoteStore.thy ===== *)
theory NoteStore
  imports NoteMirror NoteSample
begin

text \<open>
  The properties of the note operations, with the store of \<open>NoteSample\<close> for their witnesses.
\<close>

section \<open>The sample store\<close>

lemma sample_apart [simp]: "apart sample_site q \<longleftrightarrow> q \<noteq> U ''.tmp''"
  by (auto simp: apart_def spared_def temps_def sample_site_def)

lemma sample_idle [simp]: "idle sample_site" "spared sample_site q" "db_quiet sample_site"
  by (simp_all add: idle_def spared_def db_quiet_def sample_site_def)

lemma sample_disk [simp]: "wf_fsys (w_disk sample_world)"
  "file_at (w_disk sample_world) q = (if q = U ''In/plan.md'' then Some (U ''# Plan'') else None)"
  by (simp_all add: wf_fsys_def sample_world_def file_at_def node_at_def)

lemma sample_hash [simp]: "st_hash sample_site d = d"
  by (simp add: sample_site_def)

section \<open>Conditional writes\<close>

text \<open>C24. A replace or a frontmatter patch is conditional on the ETag: whatever the disk and the database do to it,
  if it changes any file that no other device touches meanwhile, then that file held, when the call began, bytes
  whose hash is the ETag the caller named and which parse as this note. So a stale client never overwrites newer
  bytes, and no other note's file is written.\<close>

theorem stale_write_never_lands:
  assumes ap: "apart s q" and wf: "wf_fsys (w_disk w)"
    and run: "replace_note s i request body etag w = (r, w') \<or> patch_frontmatter s i asked unset etag w = (r, w')"
  shows "file_at (w_disk w') q = file_at (w_disk w) q \<or>
     (\<exists>old fm text. file_at (w_disk w) q = Some old \<and> st_hash s old = etag \<and>
        parse_note (st_objects s) (st_yaml s) (st_reason s) i old (st_schema s) = Inr (fm, text))"
  using run doesD [OF does_replace_note [OF ap] _ wf, of i request body etag r w']
    doesD [OF does_patch [OF ap] _ wf, of i asked unset etag r w']
  by (auto simp: may_write_def at_version_def)

theorem stale_write_never_lands_witness:
  "file_at (w_disk (snd (replace_note sample_site (U ''a'') [] (U ''x'') (U ''stale'') sample_world))) (U ''In/plan.md'')
     = Some (U ''# Plan'')"
proof -
  let ?run = "replace_note sample_site (U ''a'') [] (U ''x'') (U ''stale'') sample_world"
  have "replace_note sample_site (U ''a'') [] (U ''x'') (U ''stale'') sample_world = (fst ?run, snd ?run) \<or>
     patch_frontmatter sample_site (U ''a'') [] [] (U ''stale'') sample_world = (fst ?run, snd ?run)" by simp
  from stale_write_never_lands [OF _ _ this, of "U ''In/plan.md''"]
  show ?thesis by simp
qed

text \<open>Adoption writes an identity only into the bytes it was asked about: a file whose hash, when the call began,
  is not the expected one is left as it is, as is every other file.\<close>

theorem adoption_is_conditional:
  assumes ap: "apart s q" and wf: "wf_fsys (w_disk w)" and run: "adopt_note s category relative expected w = (r, w')"
  shows "file_at (w_disk w') q = file_at (w_disk w) q \<or>
     (\<exists>old. file_at (w_disk w) q = Some old \<and> st_hash s old = expected)"
  using doesD [OF does_adopt [OF ap] run wf] by (auto simp: may_adopt_def)

theorem adoption_is_conditional_witness:
  "file_at (w_disk (snd (adopt_note sample_site (\<lambda>e. []) (U ''In/plan.md'') (U ''stale'') sample_world))) (U ''In/plan.md'')
     = Some (U ''# Plan'')"
proof -
  let ?run = "adopt_note sample_site (\<lambda>e. []) (U ''In/plan.md'') (U ''stale'') sample_world"
  have "?run = (fst ?run, snd ?run)" by simp
  from adoption_is_conditional [OF _ _ this, of "U ''In/plan.md''"] show ?thesis by simp
qed

section \<open>Files that are not lost\<close>

text \<open>C28. Creating a note overwrites nothing: every file that existed keeps its bytes, however many attempts at a free
  name the create takes and however it ends, its clean-up after a rejected value included.\<close>

theorem create_overwrites_nothing:
  assumes "spared s q" and "wf_fsys (w_disk w)" and "create_note s title body request folder w = (r, w')"
    and "file_at (w_disk w) q = Some data"
  shows "file_at (w_disk w') q = Some data"
  using doesD [OF does_create_note [OF assms(1)] assms(3,2)] assms(4) by simp

theorem create_overwrites_nothing_witness:
  "file_at (w_disk (snd (create_note sample_site (U ''Plan'') (U ''hi'') [] (Some (U ''In'')) sample_world))) (U ''In/plan.md'')
     = Some (U ''# Plan'')"
proof -
  let ?run = "create_note sample_site (U ''Plan'') (U ''hi'') [] (Some (U ''In'')) sample_world"
  have "?run = (fst ?run, snd ?run)" by simp
  from create_overwrites_nothing [OF _ _ this, of "U ''In/plan.md''"] show ?thesis by simp
qed

text \<open>C26. While no device changes a file, a move loses no file: whatever faults the disk and the database have between
  linking the new name and retiring the old one, every file that existed still has its bytes under its old name, or has
  them, whole, under a name that was free.  A device that writes the old name back before the last flush fails is outside
  it (\<open>recreated_name_loses_note\<close>).\<close>

theorem move_loses_nothing:
  assumes "idle s" and "wf_fsys (w_disk w)" and "move_note s i folder etag w = (r, w')"
    and "file_at (w_disk w) q = Some data"
  shows "file_at (w_disk w') q = Some data \<or>
     file_at (w_disk w') q = None \<and> (\<exists>q'. file_at (w_disk w) q' = None \<and> file_at (w_disk w') q' = Some data)"
  using does_allD [OF all_move_note [OF assms(1)] assms(3,2)] assms(4) by (simp add: not_lost_def)

theorem move_loses_nothing_witness:
  "\<exists>q'. file_at (w_disk (snd (move_note sample_site (U ''a'') (U ''Work'') None sample_world))) q' = Some (U ''# Plan'')"
proof -
  let ?run = "move_note sample_site (U ''a'') (U ''Work'') None sample_world"
  have "?run = (fst ?run, snd ?run)" by simp
  from move_loses_nothing [OF _ _ this, of "U ''In/plan.md''"] show ?thesis by auto
qed

text \<open>C27. While no device changes a file, a rename touches only the note at the ETag: every file that existed keeps its
  bytes, or it had the hash the caller named, and then what the rename makes of exactly these bytes (the heading
  rewritten, or all of them where the body is kept) stands in its place or, whole, under a name that was free, whatever
  faults the disk and the database have.  The temporary names of staged writes are no note names.\<close>

theorem rename_loses_nothing:
  assumes "idle s" and "temps_apart s" and "q \<notin> temps s" and "wf_fsys (w_disk w)"
    and "rename_note s i title keep etag w = (r, w')" and "file_at (w_disk w) q = Some old"
  shows "file_at (w_disk w') q = Some old \<or>
     etag = Some (st_hash s old) \<and> (\<exists>new. renamed_bytes title keep old = Some new \<and>
       (file_at (w_disk w') q = Some new \<or>
        file_at (w_disk w') q = None \<and> (\<exists>q'. file_at (w_disk w) q' = None \<and> file_at (w_disk w') q' = Some new)))"
  using does_allD [OF all_rename_note [OF assms(1-3)] assms(5,4)] assms(6) by (simp add: rewritten_ok_def)

theorem rename_loses_nothing_witness:
  "file_at (w_disk (snd (rename_note sample_site (U ''a'') (U ''New'') False (Some (U ''stale'')) sample_world))) (U ''In/plan.md'')
     = Some (U ''# Plan'')"
proof -
  let ?run = "rename_note sample_site (U ''a'') (U ''New'') False (Some (U ''stale'')) sample_world"
  have run: "?run = (fst ?run, snd ?run)" by simp
  have "temps_apart sample_site" "U ''In/plan.md'' \<notin> temps sample_site"
    by (auto simp: temps_apart_def temps_def sample_site_def NOTE_SUFFIX_def endswith_def startswith_def U_def)
  from rename_loses_nothing [OF _ this _ run] show ?thesis by simp
qed

section \<open>The mirror\<close>

text \<open>C25. The mirror is a projection of the file: a patch of a note whose row is live and names the file leaves,
  whatever faults the disk and the database have on the way and whether or not a lost connection hides the
  commit, either the rows as they were, and then it does not report success, or a row that names the same file
  and says exactly what the file's bytes now say (hash, size, parsed frontmatter, mirrored columns, title).\<close>

theorem patch_mirrors:
  assumes q: "db_quiet s" and ap: "apart s p" and wf: "wf_fsys (w_disk w)"
    and row: "row_of (w_db w) i = Some r0" "live_row r0" "st_resolve s (r_path r0) = Some p"
    and there: "file_at (w_disk w) p \<noteq> None" and run: "patch_frontmatter s i asked unset etag w = (r, w')"
  shows "w_db w' = w_db w \<and> (\<forall>x. r \<noteq> Inr x) \<or>
     (\<exists>row data. row_of (w_db w') i = Some row \<and> r_path row = r_path r0 \<and> file_at (w_disk w') p = Some data \<and>
        describes s i p data row)"
proof -
  note sp = apart_spared [OF ap]
  from there obtain d where d: "file_at (w_disk w) p = Some d" by auto
  have u: "untouched p (w_db w) (Some d) w" using wf d by (simp add: untouched_def)
  have "steady s i p r0 (w_db w) (Some d) (patch_frontmatter s i asked unset etag)"
    unfolding patch_frontmatter_def Let_def
    by ((rule steady_bnd, ((intro still_db still_intros db_still_intros q)+; fail)[1], (intro leaves_intros sp; fail)[1]
      | rule steady_prod | rule steady_locate [OF q sp row])+)
      (clarify, rule steady_patched [OF q ap row(1)], assumption+)
  then show ?thesis using run u unfolding steady_def settles_def by blast
qed

theorem patch_mirrors_witness:
  "let (r, w) = patch_frontmatter sample_site (U ''a'') [(U ''tags'', PList [])] [] (U ''# Plan'') sample_world in
     w_db w = w_db sample_world \<and> (\<forall>x. r \<noteq> Inr x) \<or>
     (\<exists>row data. row_of (w_db w) (U ''a'') = Some row \<and> r_path row = U ''In/plan.md'' \<and>
        file_at (w_disk w) (U ''In/plan.md'') = Some data \<and> describes sample_site (U ''a'') (U ''In/plan.md'') data row)"
proof -
  let ?run = "patch_frontmatter sample_site (U ''a'') [(U ''tags'', PList [])] [] (U ''# Plan'') sample_world"
  have run: "?run = (fst ?run, snd ?run)" by simp
  have row: "row_of (w_db sample_world) (U ''a'') = Some (sample_row (U ''In/plan.md''))"
    "live_row (sample_row (U ''In/plan.md''))" "st_resolve sample_site (r_path (sample_row (U ''In/plan.md''))) = Some (U ''In/plan.md'')"
    by (simp_all add: sample_world_def row_of_def live_row_def sample_row_def sample_site_def U_def)
  have path: "r_path (sample_row (U ''In/plan.md'')) = U ''In/plan.md''" by (simp add: sample_row_def)
  from patch_mirrors [OF _ _ _ row _ run] show ?thesis by (simp add: path split_beta Let_def)
qed

section \<open>What the comments promise and the code does not\<close>

text \<open>A commit that fails keeps the rows of before and the files of after: a move it ends leaves a row that names a
  file that is not there.\<close>

lemma failed_commit_keeps_rows:
  assumes "db_quiet s" and "m (w\<lparr>w_tx := []\<rparr>) = (Inr x, w1)" and "w_db w1 = w_db w"
    and "db_fault_at s (w_tick w1) = Some f" and "\<not> landed s (w_tick w1)"
  shows "case transaction s m w of (r, w') \<Rightarrow> r = Inl (DbFailed f) \<and> w_db w' = w_db w \<and> w_disk w' = w_disk (tick s w1)"
  using assms by (simp add: transaction_def finish_def bnd_def begin_tx_def commit_def Let_def tick_db)

text \<open>A fault of the state volume, met by the record of a review, is reported as the metadata database being away.\<close>

lemma review_fault_blamed_on_metadata:
  assumes "os_fault s (w_tick w) = Some m" and "fget fm (role (st_schema s) ''reviewed_key'') \<noteq> PBool True"
  shows "fst (catching (record_review s i fm) (typed_db s) w) = Inl (Typed (MetadataUnavailable (st_os_text s (OsError m))))"
  using assms by (simp add: record_review_def Let_def bnd_def ret_def save_review_def own_step_def catching_def
      typed_db_def metadata_failure_def raise_exn_def)

text \<open>An identifier may end in a line feed.\<close>

lemma id_with_line_feed: "is_valid_id (PStr (U ''01ARZ3NDEKTSV4RRFFQ69G5FAV'' @ [10]))"
  by code_simp

text \<open>
  A device writes the old name back once it is gone, and the flush of its folder fails: the name that is there makes the
  rollback remove the new one, which alone held the note.
\<close>

definition recreating :: "fmap site" where
  "recreating = sample_site\<lparr>others := (\<lambda>n (d, b). (if n = 4 then with_file (U ''In/plan.md'') (U ''old'') 0 d else d, b)),
     os_fault := (\<lambda>n. if n = 4 then Some (U ''I/O error'') else None)\<rparr>"

lemma recreated_name_loses_note:
  "file_at (w_disk sample_world) (U ''In/plan.md'') = Some (U ''# Plan'') \<and>
   file_at (w_disk (snd (move_file recreating (U ''In/plan.md'') (U ''Work/plan.md'') None sample_world))) q \<noteq> Some (U ''# Plan'')"
proof -
  have u: "U ''In/plan.md'' \<noteq> U ''Work/plan.md''" "folders_of (U ''Work/plan.md'') = [U ''Work'']" "parent_of (U ''Work/plan.md'') = U ''Work''"
    by (simp_all add: folders_of_def parent_of_def) (simp_all add: U_def folder_prefixes_def)
  show ?thesis
    by (simp add: move_file_def bnd_def disk_step_def tick_def recreating_def sample_site_def sample_world_def with_parents_def u
        link_name_def sync_folder_def unlink_def unlink_name_def catching_def lexists_def occupied_name_def ret_def raise_exn_def
        unlink_missing_ok_def with_name_def without_name_def with_file_def file_at_def node_at_def Let_def)
qed

end
