(* ===== verification/Maintenance.thy ===== *)
theory Maintenance
  imports Prelude
begin

text \<open>
  The maintenance gate (\<open>coppermind_store/maintenance.py\<close>): writers overlap, a purge excludes them.
  A step is one critical section of the condition; a task that waits takes its step once its
  predicate holds.  \<open>asking\<close> are the tasks inside \<open>exclusive\<close> that wait, which the code counts.
\<close>

section \<open>The gate\<close>

type_synonym task = nat

record gate =
  holders :: "(task, nat) dict"
  owner :: "task option"
  waiting :: nat

definition fresh_gate :: gate where
  "fresh_gate = \<lparr>holders = [], owner = None, waiting = 0\<rparr>"

text \<open>The two predicates of \<open>wait_for\<close>.\<close>

definition shared_ready :: "task \<Rightarrow> gate \<Rightarrow> bool" where
  "shared_ready t g \<longleftrightarrow> Some t = owner g \<or> t \<in> set (dkeys (holders g)) \<or> owner g = None \<and> waiting g = 0"

definition exclusive_ready :: "gate \<Rightarrow> bool" where
  "exclusive_ready g \<longleftrightarrow> holders g = [] \<and> owner g = None"

definition hold :: "task \<Rightarrow> gate \<Rightarrow> gate" where
  "hold t g = g\<lparr>holders := dict_set (holders g) t ((case dget (holders g) t of Some n \<Rightarrow> n | None \<Rightarrow> 0) + 1)\<rparr>"

definition release :: "task \<Rightarrow> gate \<Rightarrow> gate" where
  "release t g =
     (case dget (holders g) t of None \<Rightarrow> g
      | Some n \<Rightarrow> g\<lparr>holders := (if n - 1 = 0 then dict_pop (holders g) t else dict_set (holders g) t (n - 1))\<rparr>)"

definition ask :: "gate \<Rightarrow> gate" where
  "ask g = g\<lparr>waiting := waiting g + 1\<rparr>"

definition win :: "task \<Rightarrow> gate \<Rightarrow> gate" where
  "win t g = g\<lparr>owner := Some t, waiting := waiting g - 1\<rparr>"

definition give_up :: "gate \<Rightarrow> gate" where
  "give_up g = g\<lparr>waiting := waiting g - 1\<rparr>"

definition finish_exclusive :: "gate \<Rightarrow> gate" where
  "finish_exclusive g = g\<lparr>owner := None\<rparr>"

section \<open>Tasks at the gate\<close>

text \<open>A task asks for the exclusive gate from outside it: the purge is no \<open>writer\<close> and is not nested.\<close>

datatype event = Enter task | Leave task | Ask task | Win task | GiveUp task | Finish task

inductive gate_step :: "gate \<times> task list \<Rightarrow> event \<Rightarrow> gate \<times> task list \<Rightarrow> bool" where
  enter: "shared_ready t g \<Longrightarrow> t \<notin> set asking \<Longrightarrow> gate_step (g, asking) (Enter t) (hold t g, asking)"
| leave: "t \<in> set (dkeys (holders g)) \<Longrightarrow> gate_step (g, asking) (Leave t) (release t g, asking)"
| ask: "t \<notin> set (dkeys (holders g)) \<Longrightarrow> owner g \<noteq> Some t \<Longrightarrow> t \<notin> set asking \<Longrightarrow>
    gate_step (g, asking) (Ask t) (ask g, t # asking)"
| win: "t \<in> set asking \<Longrightarrow> exclusive_ready g \<Longrightarrow> gate_step (g, asking) (Win t) (win t g, remove1 t asking)"
| give_up: "t \<in> set asking \<Longrightarrow> gate_step (g, asking) (GiveUp t) (give_up g, remove1 t asking)"
| finish: "owner g = Some t \<Longrightarrow> t \<notin> set (dkeys (holders g)) \<Longrightarrow>
    gate_step (g, asking) (Finish t) (finish_exclusive g, asking)"

inductive gate_run :: "gate \<times> task list \<Rightarrow> event list \<Rightarrow> gate \<times> task list \<Rightarrow> bool" where
  start: "gate_run x [] x"
| step: "gate_run x es y \<Longrightarrow> gate_step y e z \<Longrightarrow> gate_run x (es @ [e]) z"

inductive_cases gate_stepE: "gate_step x e y"

section \<open>The invariant\<close>

definition inside :: "gate \<Rightarrow> task set" where
  "inside g = set (dkeys (holders g))"

text \<open>How often the holders still have to leave.\<close>

definition holds_left :: "gate \<Rightarrow> nat" where
  "holds_left g = sum_list (map snd (holders g))"

definition gate_ok :: "gate \<times> task list \<Rightarrow> bool" where
  "gate_ok x \<longleftrightarrow> (case x of (g, asking) \<Rightarrow>
     distinct (dkeys (holders g)) \<and> list_all (\<lambda>p. 0 < snd p) (holders g) \<and> distinct asking \<and> waiting g = length asking \<and>
     (case owner g of None \<Rightarrow> True | Some t \<Rightarrow> inside g \<subseteq> {t} \<and> t \<notin> set asking) \<and> set asking \<inter> inside g = {})"

lemma dict_set_values: "list_all (\<lambda>p. 0 < snd p) d \<Longrightarrow> 0 < v \<Longrightarrow> list_all (\<lambda>p. 0 < snd p) (dict_set d k v)"
  for d :: "(task, nat) dict"
  by (induction d) auto

lemma dict_pop_keys: "dkeys (dict_pop d k) = filter (\<lambda>j. j \<noteq> k) (dkeys d)"
  by (induction d) (auto simp: dict_pop_def)

lemma dget_key: "dget d k = None \<longleftrightarrow> k \<notin> set (dkeys d)"
  by (induction d) auto

lemma dget_positive: "list_all (\<lambda>p. 0 < snd p) d \<Longrightarrow> dget d k = Some n \<Longrightarrow> 0 < n" for d :: "(task, nat) dict"
  by (induction d) (auto split: if_splits)

lemma key_set: "set (dkeys (dict_set d k v)) = insert k (set (dkeys d))"
  by (simp add: dkeys_dict_set del: set_map) auto

lemma hold_facts:
  "inside (hold t g) = insert t (inside g)" "owner (hold t g) = owner g" "waiting (hold t g) = waiting g"
  "distinct (dkeys (holders g)) \<Longrightarrow> distinct (dkeys (holders (hold t g)))"
  "list_all (\<lambda>p. 0 < snd p) (holders g) \<Longrightarrow> list_all (\<lambda>p. 0 < snd p) (holders (hold t g))"
  by (simp_all add: inside_def hold_def key_set dict_set_values del: set_map)

lemma release_facts:
  shows "inside (release t g) \<subseteq> inside g" "owner (release t g) = owner g" "waiting (release t g) = waiting g"
  and "distinct (dkeys (holders g)) \<Longrightarrow> distinct (dkeys (holders (release t g)))"
  and "list_all (\<lambda>p. 0 < snd p) (holders g) \<Longrightarrow> list_all (\<lambda>p. 0 < snd p) (holders (release t g))"
proof -
  have in_keys: "dget (holders g) t = Some n \<Longrightarrow> t \<in> set (dkeys (holders g))" for n
    using dget_key [of "holders g" t] by (cases "t \<in> set (dkeys (holders g))") simp_all
  show "inside (release t g) \<subseteq> inside g"
  proof (cases "dget (holders g) t")
    case (Some n)
    then have "inside (release t g) \<subseteq> insert t (inside g)"
      by (cases "n - 1 = 0") (auto simp add: inside_def release_def dict_pop_keys key_set simp del: set_map)
    with in_keys [OF Some] show ?thesis by (auto simp: inside_def)
  qed (simp add: release_def)
  show "owner (release t g) = owner g" "waiting (release t g) = waiting g"
    by (simp_all add: release_def split: option.split)
  show "distinct (dkeys (holders (release t g)))" if "distinct (dkeys (holders g))"
    using that by (simp add: release_def dict_pop_keys split: option.split)
  show "list_all (\<lambda>p. 0 < snd p) (holders (release t g))" if "list_all (\<lambda>p. 0 < snd p) (holders g)"
  proof (cases "dget (holders g) t")
    case (Some n)
    have "list_all (\<lambda>p. 0 < snd p) (dict_pop (holders g) t)" using that by (simp add: dict_pop_def list_all_iff)
    with Some that show ?thesis by (simp add: release_def dict_set_values)
  qed (use that in \<open>simp add: release_def\<close>)
qed

lemma gate_ok_fresh: "gate_ok (fresh_gate, [])"
  by (simp add: gate_ok_def fresh_gate_def inside_def)

lemma gate_ok_step: "gate_step x e y \<Longrightarrow> gate_ok x \<Longrightarrow> gate_ok y"
proof (induction rule: gate_step.induct)
  case (enter t g asking)
  then show ?case
    by (auto simp: gate_ok_def hold_facts shared_ready_def inside_def [symmetric] simp del: set_map split: option.splits)
next
  case (leave t g asking)
  then show ?case
    using release_facts(1) [of t g] by (auto simp: gate_ok_def release_facts(2-5) split: option.splits)
next
  case (ask t g asking)
  then show ?case
    by (auto simp: gate_ok_def ask_def inside_def split: option.splits)
next
  case (win t g asking)
  then show ?case
    by (auto simp: gate_ok_def win_def exclusive_ready_def inside_def length_remove1)
next
  case (give_up t g asking)
  then show ?case
    by (auto simp: gate_ok_def give_up_def inside_def length_remove1 dest: in_set_remove1 notin_set_remove1 split: option.splits)
next
  case (finish t g asking)
  then show ?case
    by (auto simp: gate_ok_def finish_exclusive_def inside_def)
qed

lemma gate_ok_run: "gate_run x es y \<Longrightarrow> gate_ok x \<Longrightarrow> gate_ok y"
  by (induction rule: gate_run.induct) (auto intro: gate_ok_step)

section \<open>What the gate promises\<close>

text \<open>C22. A purge runs alone: from a gate nobody uses, after any interleaving of writers entering, nesting and leaving
  and of purges asking, giving up, running and ending, while a purge owns the gate no other task is inside it, and
  every purge that waits is counted.\<close>

theorem purge_runs_alone:
  assumes "gate_run (fresh_gate, []) es (g, asking)"
  shows "waiting g = length asking \<and> (\<forall>t u. owner g = Some t \<longrightarrow> u \<in> inside g \<longrightarrow> u = t)"
  using gate_ok_run [OF assms gate_ok_fresh] by (auto simp: gate_ok_def)

theorem purge_runs_alone_witness:
  "owner (hold 1 (win 1 (ask fresh_gate))) = Some 1 \<and> waiting (hold 1 (win 1 (ask fresh_gate))) = 0"
proof -
  have 0: "gate_run (fresh_gate, []) [] (fresh_gate, [])" by (rule start)
  have 1: "gate_run (fresh_gate, []) ([] @ [Ask 1]) (ask fresh_gate, [1])"
    by (rule step [OF 0 ask]) (simp_all add: fresh_gate_def)
  have "gate_step (ask fresh_gate, [1]) (Win 1) (win 1 (ask fresh_gate), remove1 1 [1])"
    by (rule win) (simp_all add: exclusive_ready_def ask_def fresh_gate_def)
  from step [OF 1 this] have 2: "gate_run (fresh_gate, []) (([] @ [Ask 1]) @ [Win 1]) (win 1 (ask fresh_gate), [])"
    by simp
  have "gate_step (win 1 (ask fresh_gate), []) (Enter 1) (hold 1 (win 1 (ask fresh_gate)), [])"
    by (rule enter) (simp_all add: shared_ready_def win_def)
  from purge_runs_alone [OF step [OF 2 this]] show ?thesis
    by (simp add: hold_facts win_def)
qed

lemma waiting_shrinks: "gate_step x e y \<Longrightarrow> gate_ok x \<Longrightarrow> snd x \<noteq> [] \<Longrightarrow> owner (fst x) = None \<Longrightarrow> inside (fst y) \<subseteq> inside (fst x)"
proof (induction rule: gate_step.induct)
  case (enter t g asking)
  then have "t \<in> inside g" by (auto simp: shared_ready_def gate_ok_def inside_def)
  then show ?case by (auto simp: hold_facts)
next
  case (leave t g asking)
  then show ?case using release_facts(1) [of t g] by simp
qed (simp_all add: inside_def ask_def win_def give_up_def finish_exclusive_def)

lemma release_less:
  assumes "list_all (\<lambda>p. 0 < snd p) (holders g)" and "distinct (dkeys (holders g))" and "t \<in> inside g"
  shows "holds_left (release t g) < holds_left g"
proof -
  have key: "dict_pop d t = d" if "t \<notin> set (dkeys d)" for d :: "(task, nat) dict"
    using that by (induction d) (auto simp: dict_pop_def)
  have "t \<in> set (dkeys d) \<Longrightarrow> list_all (\<lambda>p. 0 < snd p) d \<Longrightarrow> distinct (dkeys d) \<Longrightarrow> \<exists>n. dget d t = Some n \<and> 0 < n \<and>
     sum_list (map snd (dict_pop d t)) + n = sum_list (map snd d) \<and>
     sum_list (map snd (dict_set d t (n - 1))) + 1 = sum_list (map snd d)" for d :: "(task, nat) dict"
  proof (induction d)
    case (Cons p d)
    show ?case
    proof (cases "fst p = t")
      case True
      with Cons.prems key [of d] show ?thesis by (cases p) (auto simp: dict_pop_def)
    next
      case False
      with Cons show ?thesis by (cases p) (auto simp: dict_pop_def)
    qed
  qed simp
  from this [of "holders g"] assms obtain n where "dget (holders g) t = Some n" "0 < n"
    "sum_list (map snd (dict_pop (holders g) t)) + n = sum_list (map snd (holders g))"
    "sum_list (map snd (dict_set (holders g) t (n - 1))) + 1 = sum_list (map snd (holders g))"
    by (auto simp: inside_def)
  then show ?thesis by (auto simp: holds_left_def release_def)
qed

lemma holders_drain:
  "gate_ok (g, asking) \<Longrightarrow> owner g = None \<Longrightarrow>
     \<exists>ts g'. gate_run (g, asking) (map Leave ts) (g', asking) \<and> holders g' = [] \<and> owner g' = None \<and> gate_ok (g', asking) \<and>
       set ts \<subseteq> inside g"
proof (induction "holds_left g" arbitrary: g rule: less_induct)
  case less
  show ?case
  proof (cases "holders g")
    case Nil
    with less.prems show ?thesis
      by (intro exI [of _ "[]"] exI [of _ g]) (simp add: start)
  next
    case (Cons p d)
    then have t: "fst p \<in> inside g" by (simp add: inside_def)
    then have st: "gate_step (g, asking) (Leave (fst p)) (release (fst p) g, asking)"
      by (intro leave) (simp add: inside_def)
    have "holds_left (release (fst p) g) < holds_left g"
      using release_less [OF _ _ t] less.prems(1) by (simp add: gate_ok_def)
    from less.hyps [OF this gate_ok_step [OF st less.prems(1)]] less.prems(2) obtain ts g' where
      r: "gate_run (release (fst p) g, asking) (map Leave ts) (g', asking)" "holders g' = []" "owner g' = None"
        "gate_ok (g', asking)" "set ts \<subseteq> inside (release (fst p) g)"
      by (auto simp: release_facts)
    have "gate_run x fs z" if "gate_run y es z" "gate_step x e y" "fs = e # es" for x y z es e fs
      using that
    proof (induction arbitrary: fs rule: gate_run.induct)
      case (start y)
      then show ?case using gate_run.step [OF gate_run.start, of x e y] by simp
    next
      case (step y es u f z)
      from gate_run.step [OF step.IH [OF step.prems(1) refl] step.hyps(2)] step.prems(2) show ?case by simp
    qed
    from this [OF r(1) st refl] have "gate_run (g, asking) (map Leave (fst p # ts)) (g', asking)" by simp
    then show ?thesis using r t release_facts(1) [of "fst p" g] by (intro exI [of _ "fst p # ts"] exI [of _ g']) auto
  qed
qed

text \<open>C21. A waiting purge is always let in: in every state the gate can reach, once the purge before it is over, the
  writers inside need only leave, nobody else has to act, and then the purge's predicate holds and it gets the gate;
  until it does, or is cancelled, no step of anybody brings a new writer in.\<close>

theorem purge_is_admitted:
  assumes run: "gate_run (fresh_gate, []) es (g, asking)" and "t \<in> set asking" and "owner g = None"
  shows "(\<exists>ts g'. gate_run (g, asking) (map Leave ts) (g', asking) \<and> set ts \<subseteq> inside g \<and> exclusive_ready g' \<and>
       gate_step (g', asking) (Win t) (win t g', remove1 t asking)) \<and>
     (\<forall>e y. gate_step (g, asking) e y \<longrightarrow> inside (fst y) \<subseteq> inside g)"
proof -
  have ok: "gate_ok (g, asking)" by (rule gate_ok_run [OF run gate_ok_fresh])
  obtain ts g' where d: "gate_run (g, asking) (map Leave ts) (g', asking)" "holders g' = []" "owner g' = None"
    "set ts \<subseteq> inside g"
    using holders_drain [OF ok assms(3)] by blast
  then have "exclusive_ready g'" by (simp add: exclusive_ready_def)
  with d win [OF assms(2) this] waiting_shrinks [OF _ ok] assms(2,3) show ?thesis by fastforce
qed

theorem purge_is_admitted_witness:
  "\<exists>ts g'. gate_run (ask (hold 2 fresh_gate), [1]) (map Leave ts) (g', [1]) \<and> exclusive_ready g'"
proof -
  have "gate_step (fresh_gate, []) (Enter 2) (hold 2 fresh_gate, [])"
    by (rule enter) (simp_all add: shared_ready_def fresh_gate_def)
  from step [OF start this] have 1: "gate_run (fresh_gate, []) ([] @ [Enter 2]) (hold 2 fresh_gate, [])" .
  have "gate_step (hold 2 fresh_gate, []) (Ask 1) (ask (hold 2 fresh_gate), [1])"
    by (rule ask) (simp_all add: hold_def fresh_gate_def)
  from purge_is_admitted [OF step [OF 1 this], of 1] show ?thesis
    by (auto simp: ask_def hold_def fresh_gate_def)
qed

end
