(* ===== verification/Reconciler.thy ===== *)
theory Reconciler
  imports NoteWrites
begin

text \<open>
  One pass of the reconciler (\<open>coppermind_store/reconciler.py\<close>): what the walk over the notes
  filesystem learns, which file speaks for each identity, and which notes nothing on disk carried.
  The walk is a list of \<open>probe\<close>s: each path in the order it is met, with what the stat, the clock and
  the read of it answered.  Times are microseconds.
\<close>

section \<open>What the walk meets\<close>

datatype file_kind = Regular | Directory | Special

datatype stat_seen = StatMissing | StatFails | StatOf nat int file_kind

text \<open>\<open>StatOf size mtime kind\<close>; \<open>StatFails\<close> also stands for a link out of the root and for a loop.\<close>

datatype read_seen = ReadMissing | ReadFails | ReadBytes bytes

record probe =
  pr_path :: str
  pr_stat :: stat_seen
  pr_clock :: int
  pr_read :: read_seen

record mirror_entry =
  me_id :: str
  me_path :: str
  me_state :: str
  me_reason :: "str option"
  me_size :: nat
  me_mtime :: "int option"

datatype seen_state = SeenOk | SeenUnparsed | SeenUnreadable

record observation =
  ob_id :: str
  ob_path :: str
  ob_state :: seen_state
  ob_hash :: str
  ob_size :: nat
  ob_mtime :: int
  ob_title :: str
  ob_fm :: fmap
  ob_body :: str
  ob_derived :: bool

text \<open>The fields of an unreadable file's observation beyond its path, and of an unparsed one's beyond its
  bytes, are not read.\<close>

type_synonym file_stat = "nat \<times> int"

record adoption_candidate =
  ca_path :: str
  ca_hash :: str
  ca_stat :: file_stat

datatype finding = Seen observation | Candidate adoption_candidate | NothingSeen

record scan_result =
  sc_observed :: "(str, observation list) dict"
  sc_seen :: "str list"
  sc_held :: "str list"
  sc_deferred :: nat
  sc_unidentified :: "(str, file_stat) dict"
  sc_candidates :: "adoption_candidate list"
  sc_unparsed :: nat
  sc_exclusions :: "(str, str) dict"

definition MISSING_REASON :: str where "MISSING_REASON = U ''not observed during reconciliation''"
definition DELETED_REASON :: str where "DELETED_REASON = U ''removal recorded in Git; recovery copy retained''"
definition UNPARSED_REASON :: str where "UNPARSED_REASON = U ''frontmatter could not be parsed''"
definition UNREADABLE_REASON :: str where "UNREADABLE_REASON = U ''file could not be read''"

definition CLOCK_SKEW_TOLERANCE :: int where "CLOCK_SKEW_TOLERANCE = 60000000"
definition UNIDENTIFIED_LIMIT :: nat where "UNIDENTIFIED_LIMIT = 10000"

text \<open>\<open>QuietWindow.holds\<close>: \<open>None\<close> is a pass without a quiet period.\<close>

definition quiet_holds :: "int option \<Rightarrow> int \<Rightarrow> int \<Rightarrow> bool" where
  "quiet_holds quiet clock mtime =
     (case quiet of None \<Rightarrow> False | Some earliest \<Rightarrow> earliest < mtime \<and> mtime \<le> clock + CLOCK_SKEW_TOLERANCE)"

section \<open>The mirror\<close>

definition entry_of :: "str \<times> row \<Rightarrow> str \<times> mirror_entry" where
  "entry_of p = (fst p, \<lparr>me_id = fst p, me_path = r_path (snd p), me_state = r_state (snd p), me_reason = r_reason (snd p),
     me_size = r_size (snd p), me_mtime = r_mtime (snd p)\<rparr>)"

definition mirror_index :: "db \<Rightarrow> (str, mirror_entry) dict" where
  "mirror_index b = map entry_of (db_rows b)"

definition occupies :: "mirror_entry \<Rightarrow> bool" where
  "occupies e \<longleftrightarrow> me_state e \<noteq> U ''missing'' \<and> me_state e \<noteq> U ''deleted''"

text \<open>\<open>_by_path\<close>: the last of the live rows of a path, unless two share it.\<close>

definition by_path :: "(str, mirror_entry) dict \<Rightarrow> (str, mirror_entry) dict" where
  "by_path by_id =
     (let entries = filter occupies (map snd by_id);
          occupied = foldl (\<lambda>d e. dict_set d (me_path e) e) [] entries
      in filter (\<lambda>q. length (filter (\<lambda>e. me_path e = fst q) entries) = 1) occupied)"

section \<open>What a file says\<close>

definition remember :: "(str, file_stat) dict \<Rightarrow> str \<Rightarrow> file_stat \<Rightarrow> (str, file_stat) dict" where
  "remember stats relative st = (if length stats < UNIDENTIFIED_LIMIT then dict_set stats relative st else stats)"

definition unchanged :: "mirror_entry \<Rightarrow> nat \<Rightarrow> int \<Rightarrow> bool" where
  "unchanged e sz mtime \<longleftrightarrow> me_reason e \<noteq> Some UNREADABLE_REASON \<and> me_size e = sz \<and> me_mtime e = Some mtime"

text \<open>A line \<open>key: value\<close> of one bare or quoted word.\<close>

definition quote_mark :: "cpoint \<Rightarrow> bool" where
  "quote_mark c \<longleftrightarrow> c = 39 \<or> c = 34"

definition broken_id_in_line :: "str \<Rightarrow> str \<Rightarrow> str option" where
  "broken_id_in_line key line =
     (if \<not> startswith line (key @ [58]) then None
      else let r = strip_by (\<lambda>c. c = 32 \<or> c = 9) (drop (length key + 1) line);
               r = (case r of c # t \<Rightarrow> if quote_mark c then t else r | [] \<Rightarrow> []);
               r = (if r \<noteq> [] \<and> quote_mark (last r) then butlast r else r)
           in if r \<noteq> [] \<and> list_all (\<lambda>c. \<not> quote_mark c \<and> c \<noteq> 32 \<and> c \<noteq> 9 \<and> c \<noteq> 13 \<and> c \<noteq> 10) r then Some r else None)"

definition identity_from_broken :: "str option \<Rightarrow> schema \<Rightarrow> str option" where
  "identity_from_broken text sc =
     (case text of None \<Rightarrow> None
      | Some t \<Rightarrow>
          if \<not> startswith t (U ''---'') then None
          else (case List.map_filter (broken_id_in_line (role sc ''id_key''))
                  (takeWhile (\<lambda>l. l \<noteq> U ''---'') (tl (splitlines t))) of
              [i] \<Rightarrow> Some i | _ \<Rightarrow> None))"

definition unreadable :: "mirror_entry option \<Rightarrow> str \<Rightarrow> observation option" where
  "unreadable entry relative = map_option (\<lambda>e. \<lparr>ob_id = me_id e, ob_path = relative, ob_state = SeenUnreadable, ob_hash = [],
     ob_size = 0, ob_mtime = 0, ob_title = [], ob_fm = [], ob_body = [], ob_derived = True\<rparr>) entry"

definition unparsed_seen :: "'d site \<Rightarrow> str \<Rightarrow> str \<Rightarrow> bytes \<Rightarrow> int \<Rightarrow> bool \<Rightarrow> finding" where
  "unparsed_seen s i relative data mtime derived = Seen \<lparr>ob_id = i, ob_path = relative, ob_state = SeenUnparsed,
     ob_hash = st_hash s data, ob_size = length data, ob_mtime = mtime, ob_title = [], ob_fm = [], ob_body = [], ob_derived = derived\<rparr>"

definition parsed_file :: "'d site \<Rightarrow> bytes \<Rightarrow> (fmap \<times> str) option" where
  "parsed_file s data = (case decode data of None \<Rightarrow> None
     | Some text \<Rightarrow> (case parse_text (st_yaml s) text of Inl e \<Rightarrow> None | Inr r \<Rightarrow> Some r))"

text \<open>The identity a parsed frontmatter names.\<close>

definition named_id :: "'d site \<Rightarrow> fmap \<Rightarrow> str" where
  "named_id s fm = (case dget fm (role (st_schema s) ''id_key'') of None \<Rightarrow> [] | Some v \<Rightarrow> text_of (st_objects s) v)"

definition observe ::
  "'d site \<Rightarrow> str \<Rightarrow> str \<Rightarrow> bytes \<Rightarrow> int \<Rightarrow> (str, mirror_entry) dict \<Rightarrow> mirror_entry option \<Rightarrow> finding" where
  "observe s safe_path relative data mtime by_id entry =
     (case parsed_file s data of
        None \<Rightarrow>
          (case identity_from_broken (decode data) (st_schema s) of
             Some i \<Rightarrow> if dget by_id i \<noteq> None then unparsed_seen s i relative data mtime False
                       else (case entry of None \<Rightarrow> NothingSeen | Some e \<Rightarrow> unparsed_seen s (me_id e) relative data mtime True)
           | None \<Rightarrow> (case entry of None \<Rightarrow> NothingSeen | Some e \<Rightarrow> unparsed_seen s (me_id e) relative data mtime True))
      | Some (fm, body) \<Rightarrow>
          (let i = named_id s fm
           in if dget by_id i = None
              then (case entry of
                  None \<Rightarrow> Candidate \<lparr>ca_path = relative, ca_hash = st_hash s data, ca_stat = (length data, mtime)\<rparr>
                | Some e \<Rightarrow> unparsed_seen s (me_id e) relative data mtime True)
              else Seen \<lparr>ob_id = i, ob_path = relative, ob_state = SeenOk, ob_hash = st_hash s data, ob_size = length data,
                     ob_mtime = mtime, ob_title = title_of body safe_path, ob_fm = json_map (st_objects s) fm,
                     ob_body = body, ob_derived = False\<rparr>))"

section \<open>The scan\<close>

definition put_off :: "scan_result \<Rightarrow> scan_result" where
  "put_off sc = sc\<lparr>sc_deferred := sc_deferred sc + 1\<rparr>"

definition hold_entry :: "mirror_entry option \<Rightarrow> scan_result \<Rightarrow> scan_result" where
  "hold_entry entry sc = (case entry of None \<Rightarrow> sc | Some e \<Rightarrow> sc\<lparr>sc_held := List.insert (me_id e) (sc_held sc)\<rparr>)"

definition see_entry :: "mirror_entry \<Rightarrow> scan_result \<Rightarrow> scan_result" where
  "see_entry e sc = sc\<lparr>sc_seen := List.insert (me_id e) (sc_seen sc)\<rparr>"

definition record_seen :: "observation \<Rightarrow> scan_result \<Rightarrow> scan_result" where
  "record_seen ob sc = sc\<lparr>sc_observed := dict_set (sc_observed sc) (ob_id ob)
       ((case dget (sc_observed sc) (ob_id ob) of Some l \<Rightarrow> l | None \<Rightarrow> []) @ [ob]),
     sc_seen := List.insert (ob_id ob) (sc_seen sc)\<rparr>"

text \<open>A file that cannot be opened: recorded for the row that names its path, or the pass is deferred.\<close>

definition record_unreadable :: "mirror_entry option \<Rightarrow> str \<Rightarrow> scan_result \<Rightarrow> scan_result" where
  "record_unreadable entry relative sc = (case unreadable entry relative of Some ob \<Rightarrow> record_seen ob sc | None \<Rightarrow> put_off sc)"

definition count_unparsed :: "scan_result \<Rightarrow> scan_result" where
  "count_unparsed sc = sc\<lparr>sc_unparsed := sc_unparsed sc + 1\<rparr>"

definition keep_stat :: "str \<Rightarrow> file_stat \<Rightarrow> scan_result \<Rightarrow> scan_result" where
  "keep_stat relative st sc = sc\<lparr>sc_unidentified := remember (sc_unidentified sc) relative st\<rparr>"

text \<open>\<open>_unadoptable_folders\<close>, as the segments of each.\<close>

definition unadoptable_folders :: "notes_settings \<Rightarrow> str list list" where
  "unadoptable_folders ns = filter (\<lambda>parts. parts \<noteq> [])
     (map (\<lambda>name. filter (\<lambda>part. part \<noteq> []) (split_on 47 name))
        [ns_trash_folder ns, ns_sources_folder ns, ns_artifacts_folder ns, ns_attachments_folder ns, U ''People'', U ''Companies''])"

definition store_owned :: "'d site \<Rightarrow> str \<Rightarrow> bool" where
  "store_owned s relative \<longleftrightarrow>
     (let parts = split_on 47 relative
      in casefold (st_uc s) (hd parts) \<in> {U ''people'', U ''companies''} \<or>
         list_ex (\<lambda>folder. take (length folder) parts = folder) (unadoptable_folders (ps_notes (st_settings s))))"

text \<open>What is done with the bytes of a file.\<close>

definition scan_bytes ::
  "'d site \<Rightarrow> (str, mirror_entry) dict \<Rightarrow> mirror_entry option \<Rightarrow> str option \<Rightarrow> bool \<Rightarrow> str \<Rightarrow> file_stat \<Rightarrow> bytes \<Rightarrow> scan_result \<Rightarrow> scan_result"
where
  "scan_bytes s by_id entry path_rule settling relative st data sc =
     (let markdown = (path_suffix relative = NOTE_SUFFIX);
          rule = (case path_rule of Some r \<Rightarrow> Some r | None \<Rightarrow> frontmatter_exclusion (st_yaml s) data)
      in case observe s (case st_resolve s relative of Some p \<Rightarrow> p | None \<Rightarrow> relative) relative data (snd st) by_id entry of
           Seen ob \<Rightarrow> record_seen ob sc
         | found \<Rightarrow>
             (case rule of
                Some r \<Rightarrow> (let sc = sc\<lparr>sc_exclusions := dict_set (sc_exclusions sc) relative r\<rparr>
                           in if settling then put_off sc else sc)
              | None \<Rightarrow>
                  if \<not> markdown then sc
                  else if settling then put_off sc
                  else (case found of
                      Candidate c \<Rightarrow> (if store_owned s relative then keep_stat relative st sc
                                      else sc\<lparr>sc_candidates := sc_candidates sc @ [c]\<rparr>)
                    | _ \<Rightarrow> keep_stat relative st (count_unparsed sc))))"

definition scan_read ::
  "'d site \<Rightarrow> (str, mirror_entry) dict \<Rightarrow> mirror_entry option \<Rightarrow> str option \<Rightarrow> bool \<Rightarrow> str \<Rightarrow> file_stat \<Rightarrow> read_seen \<Rightarrow> scan_result \<Rightarrow> scan_result"
where
  "scan_read s by_id entry path_rule settling relative st rd sc =
     (case rd of
        ReadMissing \<Rightarrow> hold_entry entry (put_off sc)
      | ReadFails \<Rightarrow> (let sc' = record_unreadable entry relative sc
                      in if entry = None \<and> \<not> settling then count_unparsed sc' else sc')
      | ReadBytes data \<Rightarrow> scan_bytes s by_id entry path_rule settling relative st data sc)"

text \<open>A path whose stat was taken.\<close>

definition scan_found ::
  "'d site \<Rightarrow> bool \<Rightarrow> int option \<Rightarrow> (str, mirror_entry) dict \<Rightarrow> (str, file_stat) dict \<Rightarrow> mirror_entry option \<Rightarrow> str option \<Rightarrow>
     probe \<Rightarrow> nat \<Rightarrow> int \<Rightarrow> file_kind \<Rightarrow> scan_result \<Rightarrow> scan_result"
where
  "scan_found s full quiet by_id memory entry path_rule pr sz mtime kind sc =
     (let relative = pr_path pr; st = (sz, mtime); settling = quiet_holds quiet (pr_clock pr) mtime
      in if kind = Directory \<and> path_suffix relative \<noteq> NOTE_SUFFIX \<and> entry = None then sc
         else if \<not> full \<and> (case entry of Some e \<Rightarrow> unchanged e sz mtime | None \<Rightarrow> False)
         then hold_entry entry (case entry of Some e \<Rightarrow> see_entry e sc | None \<Rightarrow> sc)
         else if \<not> full \<and> entry = None \<and> path_rule = None \<and> dget memory relative = Some st
         then (let sc = keep_stat relative st sc in if settling then put_off sc else sc)
         else if kind \<noteq> Regular
         then (let sc' = record_unreadable entry relative sc in if entry = None then count_unparsed sc' else sc')
         else if entry \<noteq> None \<and> settling then put_off (hold_entry entry sc)
         else scan_read s by_id entry path_rule settling relative st (pr_read pr) sc)"

definition scan_path ::
  "'d site \<Rightarrow> bool \<Rightarrow> int option \<Rightarrow> (str, mirror_entry) dict \<Rightarrow> (str, file_stat) dict \<Rightarrow> scan_result \<Rightarrow> probe \<Rightarrow> scan_result"
where
  "scan_path s full quiet by_id memory sc pr =
     (let relative = pr_path pr; rs = ps_reconcile (st_settings s); entry = dget (by_path by_id) relative;
          path_rule = path_exclusion relative (rs_excluded_folders rs) (rs_excluded_patterns rs)
      in if list_ex (\<lambda>part. part \<in> set IGNORED_DIRECTORIES) (split_on 47 relative) then sc
         else if path_suffix relative \<noteq> NOTE_SUFFIX \<and> path_suffix relative \<noteq> U ''.canvas'' \<and> path_rule = None \<and> entry = None
         then sc
         else (case pr_stat pr of
             StatMissing \<Rightarrow> hold_entry entry (put_off sc)
           | StatFails \<Rightarrow> record_unreadable entry relative sc
           | StatOf sz mtime kind \<Rightarrow>
               scan_found s full quiet by_id memory entry path_rule pr sz mtime kind sc))"

definition empty_scan :: scan_result where
  "empty_scan = \<lparr>sc_observed = [], sc_seen = [], sc_held = [], sc_deferred = 0, sc_unidentified = [], sc_candidates = [],
     sc_unparsed = 0, sc_exclusions = []\<rparr>"

definition scan_walk ::
  "'d site \<Rightarrow> bool \<Rightarrow> int option \<Rightarrow> (str, mirror_entry) dict \<Rightarrow> (str, file_stat) dict \<Rightarrow> probe list \<Rightarrow> scan_result" where
  "scan_walk s full quiet by_id memory walked = foldl (scan_path s full quiet by_id memory) empty_scan walked"

section \<open>Which file speaks for a note\<close>

definition choose_among :: "str \<Rightarrow> observation list \<Rightarrow> observation option" where
  "choose_among recorded candidates =
     (let named = filter (\<lambda>ob. \<not> ob_derived ob) candidates;
          ranked = (if named = [] then candidates else named);
          at_known_path = filter (\<lambda>ob. ob_path ob = recorded) ranked
      in case at_known_path of [ob] \<Rightarrow> Some ob | _ \<Rightarrow> (case ranked of [ob] \<Rightarrow> Some ob | _ \<Rightarrow> None))"

text \<open>The choice for one identity: an observation, or the paths of its collision.\<close>

definition chosen_for :: "scan_result \<Rightarrow> (str, mirror_entry) dict \<Rightarrow> str \<times> observation list \<Rightarrow> observation + str list" where
  "chosen_for sc by_id p =
     (let recorded = (case dget by_id (fst p) of Some e \<Rightarrow> me_path e | None \<Rightarrow> []);
          named = filter (\<lambda>ob. \<not> ob_derived ob) (snd p);
          ranked = (if named = [] then snd p else named)
      in if fst p \<in> set (sc_held sc) then Inr (recorded # map ob_path (snd p))
         else case choose_among recorded (snd p) of Some ob \<Rightarrow> Inl ob | None \<Rightarrow> Inr (map ob_path ranked))"

definition choose_observations ::
  "scan_result \<Rightarrow> (str, mirror_entry) dict \<Rightarrow> (str, observation) dict \<times> nat \<times> (str \<times> str) list" where
  "choose_observations sc by_id =
     (let picks = map (\<lambda>p. (fst p, chosen_for sc by_id p)) (sc_observed sc)
      in (List.map_filter (\<lambda>(i, c). case c of Inl ob \<Rightarrow> Some (i, ob) | Inr ps \<Rightarrow> None) picks,
          length (filter (\<lambda>(i, c). \<not> isl c) picks),
          concat (map (\<lambda>(i, c). case c of Inl ob \<Rightarrow> [] | Inr ps \<Rightarrow> map (Pair i) ps) picks)))"

text \<open>The notes no file carried.\<close>

definition absent_notes :: "scan_result \<Rightarrow> (str, mirror_entry) dict \<Rightarrow> str list" where
  "absent_notes sc by_id = (if sc_deferred sc \<noteq> 0 then [] else filter (\<lambda>i. i \<notin> set (sc_seen sc)) (dkeys by_id))"

end
