(* ===== verification/ReconcilePass.thy ===== *)
theory ReconcilePass
  imports Reconciler
begin

text \<open>
  The rest of a pass (\<open>coppermind_store/reconciler.py\<close>): adopting the candidates, bringing each row in
  line with the file that speaks for it, and the status that readiness asks.  What Git's history
  answers is the record \<open>history\<close>; the table of recorded collisions is not modelled.
\<close>

section \<open>Adopting\<close>

definition ADOPTIONS_PER_PASS :: nat where "ADOPTIONS_PER_PASS = 50"

record sweep =
  sw_adopted :: nat
  sw_rejected :: nat
  sw_unwritable :: nat
  sw_retry :: nat
  sw_memory :: "(str, file_stat) dict"

text \<open>\<open>except MetadataUnavailable: raise; except Exception\<close>: a cancellation is no \<open>Exception\<close>.\<close>

definition wedges :: "exn \<Rightarrow> bool" where
  "wedges e \<longleftrightarrow> (case e of Typed (MetadataUnavailable m) \<Rightarrow> True | DbFailed Cancelled \<Rightarrow> True | _ \<Rightarrow> False)"

definition count_outcome :: "adoption_candidate \<Rightarrow> exn + adoption \<times> str \<Rightarrow> sweep \<Rightarrow> sweep" where
  "count_outcome c out sw =
     (case out of
        Inl e \<Rightarrow> sw\<lparr>sw_unwritable := sw_unwritable sw + 1, sw_memory := remember (sw_memory sw) (ca_path c) (ca_stat c)\<rparr>
      | Inr (Adopted, cause) \<Rightarrow> sw\<lparr>sw_adopted := sw_adopted sw + 1\<rparr>
      | Inr (Changed, cause) \<Rightarrow> sw\<lparr>sw_retry := sw_retry sw + 1\<rparr>
      | Inr (_, cause) \<Rightarrow> sw\<lparr>sw_rejected := sw_rejected sw + 1, sw_memory := remember (sw_memory sw) (ca_path c) (ca_stat c)\<rparr>)"

text \<open>The sweep and how many candidates it left untried.\<close>

primrec adopt_candidates :: "(adoption_candidate \<Rightarrow> (adoption \<times> str) act) \<Rightarrow> adoption_candidate list \<Rightarrow> sweep \<Rightarrow> (sweep \<times> nat) act" where
  "adopt_candidates adopt [] sw = ret (sw, 0)"
| "adopt_candidates adopt (c # cs) sw =
     bnd (catching (bnd (adopt c) (\<lambda>r. ret (Inr r))) (\<lambda>e. if wedges e then raise_exn e else ret (Inl e))) (\<lambda>out.
     (let sw' = count_outcome c out sw
      in if sw_adopted sw' \<noteq> sw_adopted sw \<and> sw_adopted sw' = ADOPTIONS_PER_PASS then ret (sw', length cs)
         else adopt_candidates adopt cs sw'))"

section \<open>What a row becomes\<close>

text \<open>\<open>_values_for\<close>: the columns it sets; \<open>None\<close> when every one has its value already.\<close>

definition observed_row :: "'d site \<Rightarrow> observation option \<Rightarrow> row \<Rightarrow> row" where
  "observed_row s obs r =
     (case obs of
        None \<Rightarrow> r\<lparr>r_state := U ''missing'', r_reason := Some MISSING_REASON\<rparr>
      | Some ob \<Rightarrow>
         (case ob_state ob of
            SeenUnreadable \<Rightarrow> r\<lparr>r_path := ob_path ob, r_state := U ''unparsed'', r_reason := Some UNREADABLE_REASON\<rparr>
          | SeenUnparsed \<Rightarrow> r\<lparr>r_path := ob_path ob, r_hash := ob_hash ob, r_size := ob_size ob, r_mtime := Some (ob_mtime ob),
              r_state := U ''unparsed'', r_reason := Some UNPARSED_REASON\<rparr>
          | SeenOk \<Rightarrow>
             (let cols = mirror_columns (st_objects s) (ob_fm ob) (st_schema s)
              in r\<lparr>r_path := ob_path ob, r_title := Some (ob_title ob), r_hash := ob_hash ob, r_size := ob_size ob,
                   r_mtime := Some (ob_mtime ob), r_frontmatter := ob_fm ob, r_cols := cols,
                   r_filed := (if mc_unfile cols then False else r_filed r), r_state := U ''ok'', r_reason := None\<rparr>)))"

definition values_for :: "'d site \<Rightarrow> observation option \<Rightarrow> row \<Rightarrow> (row \<Rightarrow> row) option" where
  "values_for s obs r = (if observed_row s obs r = r then None else Some (observed_row s obs))"

text \<open>What \<open>note_history\<close> and \<open>filing.vanished_receipt\<close> answer; a receipt is the removal it records.\<close>

record history =
  hi_evidence :: "str \<Rightarrow> str \<Rightarrow> str \<Rightarrow> str option"
  hi_vanished :: "row \<Rightarrow> str option \<times> str option"
  hi_retained :: "str \<Rightarrow> str \<Rightarrow> bool"
  hi_removed :: "str \<Rightarrow> (str \<times> bytes) list"
  hi_available :: bool

text \<open>\<open>Change f receipt reviewed\<close>: the columns are set by \<open>f\<close>, and \<open>reviewed\<close> is one of them.\<close>

datatype fate = Untouched | Change "row \<Rightarrow> row" "str option" bool

definition deleted_fate :: "history \<Rightarrow> str \<Rightarrow> row \<Rightarrow> str \<Rightarrow> fate" where
  "deleted_fate h i r receipt =
     (if r_state r = U ''deleted'' \<and> hi_retained h i receipt then Untouched
      else Change (\<lambda>r. r\<lparr>r_state := U ''deleted'', r_reason := Some DELETED_REASON\<rparr>) (Some receipt) False)"

definition plain_fate :: "'d site \<Rightarrow> observation option \<Rightarrow> row \<Rightarrow> fate" where
  "plain_fate s obs r =
     (case values_for s obs r of None \<Rightarrow> Untouched
      | Some f \<Rightarrow> Change f None (mc_reviewed (r_cols (f r)) \<noteq> mc_reviewed (r_cols r)))"

text \<open>The removal a row is left with when neither history nor filing has a receipt for it.\<close>

definition latest_removed :: "'d site \<Rightarrow> str \<Rightarrow> bytes \<Rightarrow> fmap \<Rightarrow> str \<Rightarrow> row \<Rightarrow> row" where
  "latest_removed s p data fm body r =
     (let cols = mirror_columns (st_objects s) fm (st_schema s)
      in r\<lparr>r_path := p, r_hash := st_hash s data, r_size := length data, r_title := Some (title_of body p),
           r_frontmatter := json_map (st_objects s) fm, r_cols := cols,
           r_filed := (if mc_unfile cols then False else r_filed r),
           r_state := U ''deleted'', r_reason := Some DELETED_REASON\<rparr>)"

definition missing_fate :: "'d site \<Rightarrow> str option \<Rightarrow> row \<Rightarrow> fate" where
  "missing_fate s reason r =
     (case reason of
        Some (c # cs) \<Rightarrow>
          (let f = (\<lambda>r. r\<lparr>r_state := U ''missing'', r_reason := Some (c # cs)\<rparr>)
           in if f r = r then Untouched else Change f None False)
      | _ \<Rightarrow> plain_fate s None r)"

text \<open>A return and a newer deletion can both occur between scans; a Git outage leaves the row as it is.\<close>

definition unreceipted_fate :: "'d site \<Rightarrow> history \<Rightarrow> str \<Rightarrow> str option \<Rightarrow> row \<Rightarrow> exn + fate" where
  "unreceipted_fate s h i reason r =
     (if r_state r \<noteq> U ''deleted'' then Inr (missing_fate s reason r)
      else (case hi_removed h i of
          (p, data) # older \<Rightarrow>
            (case parsed_file s data of None \<Rightarrow> Inl PyFault
             | Some (fm, body) \<Rightarrow> Inr (Change (latest_removed s p data fm body) (hi_evidence h i p (st_hash s data)) True))
        | [] \<Rightarrow> Inr (if hi_available h then missing_fate s reason r else Untouched)))"

definition row_fate :: "'d site \<Rightarrow> history \<Rightarrow> str \<Rightarrow> observation option \<Rightarrow> row \<Rightarrow> exn + fate" where
  "row_fate s h i obs r =
     (case obs of
        Some ob \<Rightarrow> Inr (plain_fate s obs r)
      | None \<Rightarrow>
          (case hi_evidence h i (r_path r) (r_hash r) of
             Some receipt \<Rightarrow> Inr (deleted_fate h i r receipt)
           | None \<Rightarrow> (case hi_vanished h r of
               (Some receipt, reason) \<Rightarrow> Inr (deleted_fate h i r receipt)
             | (None, reason) \<Rightarrow> unreceipted_fate s h i reason r)))"

section \<open>Writing a row\<close>

datatype note_outcome = NowDeleted | NowMissing | NowUnparsed | NowMoved | NowChanged

definition outcome_of :: "observation option \<Rightarrow> str option \<Rightarrow> str \<Rightarrow> note_outcome" where
  "outcome_of obs receipt previous =
     (case obs of None \<Rightarrow> if receipt \<noteq> None then NowDeleted else NowMissing
      | Some ob \<Rightarrow> if ob_state ob \<noteq> SeenOk then NowUnparsed
                   else if previous \<noteq> ob_path ob then NowMoved else NowChanged)"

definition follow_in_index :: "'d site \<Rightarrow> str \<Rightarrow> observation option \<Rightarrow> int \<Rightarrow> unit act" where
  "follow_in_index s i obs now =
     (case obs of None \<Rightarrow> execute s (drop_doc i)
      | Some ob \<Rightarrow>
          if ob_state ob = SeenOk
          then index_note s i (ob_path ob) (if ob_title ob = [] then path_stem (ob_path ob) else ob_title ob) (ob_body ob)
                 (ob_hash ob) now
          else execute s (follow_doc i (ob_path ob)))"

text \<open>A row that was written since the scan began is left alone.\<close>

definition not_newer :: "str \<Rightarrow> int \<Rightarrow> db \<Rightarrow> bool" where
  "not_newer i started b \<longleftrightarrow> (case row_of b i of None \<Rightarrow> False | Some r \<Rightarrow> r_updated r \<le> started)"

definition guarded_update :: "str \<Rightarrow> int \<Rightarrow> int \<Rightarrow> (row \<Rightarrow> row) \<Rightarrow> db \<Rightarrow> db" where
  "guarded_update i started now f b =
     (if not_newer i started b then update_row i (\<lambda>r. (f r)\<lparr>r_updated := now\<rparr>) b else b)"

text \<open>\<open>keep\<close> saves a receipt, \<open>returned\<close> notes the return of a note: the files of \<open>note_history\<close>.\<close>

definition write_row ::
  "'d site \<Rightarrow> history \<Rightarrow> (str \<Rightarrow> str \<Rightarrow> unit act) \<Rightarrow> (str \<Rightarrow> unit act) \<Rightarrow> int \<Rightarrow> int \<Rightarrow> observation option \<Rightarrow> str \<Rightarrow> row \<Rightarrow>
     note_outcome option act"
where
  "write_row s h keep returned started now obs i r =
     (case row_fate s h i obs r of
        Inl e \<Rightarrow> raise_exn e
      | Inr Untouched \<Rightarrow> ret None
      | Inr (Change f receipt reviewed) \<Rightarrow>
          bnd (execute_with s (not_newer i started) (guarded_update i started now f)) (\<lambda>took.
          if \<not> took then ret None
          else bnd (clear_path_notice s i) (\<lambda>u.
               bnd (case receipt of Some t \<Rightarrow> keep i t | None \<Rightarrow> if obs \<noteq> None then returned i else ret ()) (\<lambda>u.
               bnd (case obs of Some ob \<Rightarrow> if reviewed \<and> ob_state ob = SeenOk then record_review s i (ob_fm ob) else ret ()
                    | None \<Rightarrow> ret ()) (\<lambda>u.
               bnd (follow_in_index s i obs now) (\<lambda>u.
               ret (Some (outcome_of obs receipt (r_path r)))))))))"

primrec write_rows ::
  "(str \<Rightarrow> row \<Rightarrow> note_outcome option act) \<Rightarrow> (str \<times> row) list \<Rightarrow> note_outcome list act" where
  "write_rows step [] = ret []"
| "write_rows step (p # ps) =
     bnd (step (fst p) (snd p)) (\<lambda>o1. bnd (write_rows step ps) (\<lambda>os. ret ((case o1 of Some x \<Rightarrow> [x] | None \<Rightarrow> []) @ os)))"

definition MIRROR_BATCH :: nat where "MIRROR_BATCH = 200"

function chunks :: "nat \<Rightarrow> 'a list \<Rightarrow> 'a list list" where
  "chunks n [] = []"
| "chunks n (x # xs) = take (Suc n) (x # xs) # chunks n (drop (Suc n) (x # xs))"
  by pat_completeness auto
termination
  by (relation "measure (\<lambda>(n, xs). length xs)") auto

primrec write_chunks ::
  "'d site \<Rightarrow> (str \<Rightarrow> row \<Rightarrow> note_outcome option act) \<Rightarrow> str list list \<Rightarrow> note_outcome list act" where
  "write_chunks s step [] = ret []"
| "write_chunks s step (c # cs) =
     bnd (query s (\<lambda>b. filter (\<lambda>q. fst q \<in> set c) (db_rows b))) (\<lambda>rows.
     bnd (write_rows step rows) (\<lambda>os. bnd (write_chunks s step cs) (\<lambda>os'. ret (os @ os'))))"

section \<open>The pass\<close>

record pass_result =
  pa_sweep :: sweep
  pa_backlog :: nat
  pa_duplicates :: nat
  pa_outcomes :: "note_outcome list"
  pa_deferred :: nat
  pa_excluded :: nat
  pa_collisions :: "(str \<times> str) list"

text \<open>\<open>walked\<close> is what the walk met, or the fault of the notes filesystem that ended it; \<open>purging\<close> are the notes a
  purge is about to remove.\<close>

definition reconcile_once ::
  "'d site \<Rightarrow> (fm_error \<Rightarrow> str) \<Rightarrow> (str list \<Rightarrow> history) \<Rightarrow> (str \<Rightarrow> str \<Rightarrow> unit act) \<Rightarrow> (str \<Rightarrow> unit act) \<Rightarrow> str list \<Rightarrow>
     bool \<Rightarrow> nat \<Rightarrow> (str, file_stat) dict \<Rightarrow> str + probe list \<Rightarrow> pass_result act"
where
  "reconcile_once s category history_of keep returned purging full quiet_period memory walked =
     bnd (now_at s) (\<lambda>started.
     bnd (catching (bnd begin_tx (\<lambda>u. query s mirror_index)) (metadata_read s)) (\<lambda>rows.
     (case walked of Inl m \<Rightarrow> raise_exn (Typed (NotesFilesystemUnavailable m)) | Inr probes \<Rightarrow>
     (let by_id = filter (\<lambda>q. fst q \<notin> set purging) rows;
          quiet = (if 0 < quiet_period then Some (started - int quiet_period * 1000000) else None);
          sc = scan_walk s full quiet by_id memory probes;
          (chosen, duplicates, collisions) = choose_observations sc by_id
      in bnd (adopt_candidates (\<lambda>c. adopt_note s category (ca_path c) (ca_hash c)) (sc_candidates sc)
               \<lparr>sw_adopted = 0, sw_rejected = sc_unparsed sc, sw_unwritable = 0, sw_retry = 0, sw_memory = sc_unidentified sc\<rparr>)
             (\<lambda>(sw, untried).
         (let missing = absent_notes sc by_id; h = history_of missing;
              todo = sort (remdups (dkeys chosen @ missing))
          in bnd (now_at s) (\<lambda>now.
             bnd (catching (transaction s
                    (write_chunks s (\<lambda>i. write_row s h keep returned started now (dget chosen i) i) (chunks (MIRROR_BATCH - 1) todo)))
                  (metadata_read s))
             (\<lambda>os. ret \<lparr>pa_sweep = sw, pa_backlog = sw_retry sw + untried, pa_duplicates = duplicates, pa_outcomes = os,
                     pa_deferred = sc_deferred sc, pa_excluded = length (sc_exclusions sc), pa_collisions = collisions\<rparr>))))))))"

section \<open>Status\<close>

text \<open>\<open>ReconcilerStatus\<close>; times and durations are microseconds, \<open>rt_interval\<close> seconds.\<close>

record reconciler_status =
  rt_started :: int
  rt_completed :: "int option"
  rt_scan :: "int option"
  rt_longest :: int
  rt_failures :: nat
  rt_reason :: str
  rt_interval :: nat

definition fresh_status :: "int \<Rightarrow> reconciler_status" where
  "fresh_status now = \<lparr>rt_started = now, rt_completed = None, rt_scan = None, rt_longest = 0, rt_failures = 0, rt_reason = [],
     rt_interval = 60\<rparr>"

datatype status_event = Scanning int | Completed int | Deferred str | Interval nat

fun status_step :: "reconciler_status \<Rightarrow> status_event \<Rightarrow> reconciler_status" where
  "status_step st (Scanning now) = st\<lparr>rt_scan := Some now\<rparr>"
| "status_step st (Completed now) =
     st\<lparr>rt_longest := (case rt_scan st of Some t \<Rightarrow> max (rt_longest st) (now - t) | None \<Rightarrow> rt_longest st),
        rt_scan := None, rt_completed := Some now, rt_failures := 0, rt_reason := []\<rparr>"
| "status_step st (Deferred reason) = st\<lparr>rt_scan := None, rt_failures := rt_failures st + 1, rt_reason := reason\<rparr>"
| "status_step st (Interval n) = st\<lparr>rt_interval := n\<rparr>"

definition WEDGED_AFTER :: nat where "WEDGED_AFTER = 3"
definition STALE_INTERVALS :: int where "STALE_INTERVALS = 3"
definition FIRST_SCAN_GRACE :: int where "FIRST_SCAN_GRACE = 1800000000"

datatype wedge = ScansFail nat str | NeverCompleted int | LastCompleted int

definition stale_deadline :: "reconciler_status \<Rightarrow> int" where
  "stale_deadline st = STALE_INTERVALS * max (int (rt_interval st) * 1000000) (rt_longest st)"

text \<open>\<open>problem\<close>: the silence counts from the last completion, or from the scan in flight.\<close>

definition quiet_since :: "reconciler_status \<Rightarrow> int" where
  "quiet_since st =
     (let base = (case rt_completed st of Some t \<Rightarrow> t | None \<Rightarrow> rt_started st)
      in case rt_scan st of Some t \<Rightarrow> if base < t then t else base | None \<Rightarrow> base)"

definition status_problem :: "int \<Rightarrow> reconciler_status \<Rightarrow> wedge option" where
  "status_problem now st =
     (if WEDGED_AFTER \<le> rt_failures st then Some (ScansFail (rt_failures st) (rt_reason st))
      else let quiet_for = now - quiet_since st
           in if rt_completed st = None \<and> quiet_for \<le> FIRST_SCAN_GRACE then None
              else if quiet_for \<le> stale_deadline st then None
              else Some (if rt_completed st = None then NeverCompleted quiet_for else LastCompleted quiet_for))"

text \<open>\<open>_rehash_due\<close> over the local date and clock.\<close>

definition rehash_due :: "date \<times> ptime \<Rightarrow> str \<Rightarrow> date option \<Rightarrow> bool" where
  "rehash_due now at last_day \<longleftrightarrow> last_day \<noteq> Some (fst now) \<and> at \<le> take 5 (time_iso (snd now))"

end
