(* ===== verification/ReconcilerLaws.thy ===== *)
theory ReconcilerLaws
  imports ReconcilePass NoteSample
begin

text \<open>
  What a scan may conclude: a note is missing only when no file carries it, and one file speaks for a
  note only when no other does.
\<close>

section \<open>The scan only adds\<close>

definition grows :: "scan_result \<Rightarrow> scan_result \<Rightarrow> bool" where
  "grows a b \<longleftrightarrow> set (sc_seen a) \<subseteq> set (sc_seen b) \<and> sc_deferred a \<le> sc_deferred b"

lemma grows_refl [simp]: "grows a a"
  by (simp add: grows_def)

lemma grows_trans: "grows a b \<Longrightarrow> grows b c \<Longrightarrow> grows a c"
  by (auto simp: grows_def)

lemmas scan_parts = put_off_def hold_entry_def see_entry_def record_seen_def record_unreadable_def count_unparsed_def
  keep_stat_def unreadable_def

lemma grows_parts:
  "grows a b \<Longrightarrow> grows a (put_off b)" "grows a b \<Longrightarrow> grows a (hold_entry e b)" "grows a b \<Longrightarrow> grows a (see_entry x b)"
  "grows a b \<Longrightarrow> grows a (record_seen ob b)" "grows a b \<Longrightarrow> grows a (record_unreadable e r b)"
  "grows a b \<Longrightarrow> grows a (count_unparsed b)" "grows a b \<Longrightarrow> grows a (keep_stat r st b)"
  "grows a b \<Longrightarrow> grows a (b\<lparr>sc_exclusions := ex\<rparr>)" "grows a b \<Longrightarrow> grows a (b\<lparr>sc_candidates := ca\<rparr>)"
  by (auto simp: grows_def scan_parts split: option.splits)

lemma grows_cases:
  "grows a b \<Longrightarrow> grows a c \<Longrightarrow> grows a (if g then b else c)"
  "grows a b \<Longrightarrow> (\<And>x. grows a (f x)) \<Longrightarrow> grows a (case_option b f z)"
  "(\<And>x. grows a (k x)) \<Longrightarrow> (\<And>x. grows a (l x)) \<Longrightarrow> grows a b \<Longrightarrow> grows a (case_finding k l b u)"
  "grows a b \<Longrightarrow> grows a c \<Longrightarrow> (\<And>x. grows a (h x)) \<Longrightarrow> grows a (case_read_seen b c h v)"
  "grows a b \<Longrightarrow> grows a c \<Longrightarrow> (\<And>x y z. grows a (m x y z)) \<Longrightarrow> grows a (case_stat_seen b c m t)"
  by (simp_all split: option.split finding.split read_seen.split stat_seen.split)

lemma grows_path: "grows a (scan_path s full quiet by_id memory a pr)"
  unfolding scan_path_def scan_found_def scan_read_def scan_bytes_def Let_def
  by (intro grows_parts grows_cases grows_refl)

lemma grows_walk: "grows a (foldl (scan_path s full quiet by_id memory) a walked)"
proof (induction walked arbitrary: a)
  case (Cons pr walked)
  then show ?case using grows_trans [OF grows_path Cons] by simp
qed simp

section \<open>What a file carries\<close>

text \<open>The known identity that bytes name, parsed or recovered from a broken block.\<close>

definition named_in :: "'d site \<Rightarrow> (str, mirror_entry) dict \<Rightarrow> bytes \<Rightarrow> str option" where
  "named_in s by_id data =
     (let i = (case parsed_file s data of Some (fm, body) \<Rightarrow> Some (named_id s fm)
               | None \<Rightarrow> identity_from_broken (decode data) (st_schema s))
      in case i of Some i \<Rightarrow> if dget by_id i \<noteq> None then Some i else None | None \<Rightarrow> None)"

definition recorded_at :: "(str, mirror_entry) dict \<Rightarrow> str \<Rightarrow> str option" where
  "recorded_at by_id relative = map_option me_id (dget (by_path by_id) relative)"

text \<open>The note a file stands for: the one its bytes name, or else the one the mirror records at its path.\<close>

definition stands_for :: "'d site \<Rightarrow> (str, mirror_entry) dict \<Rightarrow> probe \<Rightarrow> str option" where
  "stands_for s by_id pr =
     (case (pr_stat pr, pr_read pr) of
        (StatOf sz mtime Regular, ReadBytes data) \<Rightarrow>
          (case named_in s by_id data of Some i \<Rightarrow> Some i | None \<Rightarrow> recorded_at by_id (pr_path pr))
      | _ \<Rightarrow> recorded_at by_id (pr_path pr))"

definition scanned :: "probe \<Rightarrow> bool" where
  "scanned pr \<longleftrightarrow> \<not> list_ex (\<lambda>part. part \<in> set IGNORED_DIRECTORIES) (split_on 47 (pr_path pr)) \<and>
     path_suffix (pr_path pr) \<in> {NOTE_SUFFIX, U ''.canvas''}"

text \<open>What a cheap pass takes from a stat alone is true of the bytes: an unchanged file still stands for the note
  recorded at its path, a remembered one for none.\<close>

definition stat_tells :: "'d site \<Rightarrow> (str, mirror_entry) dict \<Rightarrow> (str, file_stat) dict \<Rightarrow> probe \<Rightarrow> bool" where
  "stat_tells s by_id memory pr \<longleftrightarrow>
     (case pr_stat pr of
        StatOf sz mtime kind \<Rightarrow>
          (case dget (by_path by_id) (pr_path pr) of
             Some e \<Rightarrow> if unchanged e sz mtime then stands_for s by_id pr = Some (me_id e) else True
           | None \<Rightarrow> if dget memory (pr_path pr) = Some (sz, mtime) then stands_for s by_id pr = None else True)
      | _ \<Rightarrow> True)"

lemma observe_named:
  "named_in s by_id data = Some i \<Longrightarrow> \<exists>ob. observe s safe relative data mtime by_id entry = Seen ob \<and> ob_id ob = i"
  by (auto simp: named_in_def observe_def unparsed_seen_def Let_def split: option.splits prod.splits if_splits)

lemma observe_recorded:
  "named_in s by_id data = None \<Longrightarrow>
     \<exists>ob. observe s safe relative data mtime by_id (Some e) = Seen ob \<and> ob_id ob = me_id e \<and> ob_derived ob"
  by (auto simp: named_in_def observe_def unparsed_seen_def Let_def split: option.splits prod.splits if_splits)

text \<open>A note is seen, or the pass is deferred.\<close>

definition accounted :: "str \<Rightarrow> scan_result \<Rightarrow> bool" where
  "accounted i sc \<longleftrightarrow> i \<in> set (sc_seen sc) \<or> 0 < sc_deferred sc"

lemma accounted_parts [simp]:
  "accounted i (put_off a)" "accounted i (hold_entry e (put_off a))" "accounted i (hold_entry e (see_entry x a)) = accounted i (see_entry x a)"
  "me_id x = i \<Longrightarrow> accounted i (see_entry x a)" "ob_id ob = i \<Longrightarrow> accounted i (record_seen ob a)"
  "accounted i (record_unreadable None r a)" "me_id x = i \<Longrightarrow> accounted i (record_unreadable (Some x) r a)"
  "accounted i (count_unparsed a) = accounted i a"
  by (auto simp: accounted_def scan_parts split: option.split)

lemma accounted_grows: "accounted i a \<Longrightarrow> grows a b \<Longrightarrow> accounted i b"
  by (auto simp: accounted_def grows_def)

lemma bytes_accounted:
  assumes "(case named_in s by_id data of Some i \<Rightarrow> Some i | None \<Rightarrow> map_option me_id entry) = Some i"
  shows "accounted i (scan_bytes s by_id entry rule settling relative st data a)"
proof (cases "named_in s by_id data")
  case None
  with assms obtain e where "entry = Some e" "me_id e = i" by auto
  with observe_recorded [OF None, of "case st_resolve s relative of None \<Rightarrow> relative | Some p \<Rightarrow> p" relative "snd st" e]
  show ?thesis by (auto simp: scan_bytes_def Let_def)
next
  case (Some j)
  with assms observe_named [OF Some, of "case st_resolve s relative of None \<Rightarrow> relative | Some p \<Rightarrow> p" relative "snd st" entry]
  show ?thesis by (auto simp: scan_bytes_def Let_def)
qed

lemma found_accounted:
  assumes tells: "full \<or> stat_tells s by_id memory pr" and st: "pr_stat pr = StatOf sz mtime kind"
    and stands: "stands_for s by_id pr = Some i" and suffix: "path_suffix (pr_path pr) \<in> {NOTE_SUFFIX, U ''.canvas''}"
    and entry: "entry = dget (by_path by_id) (pr_path pr)"
  shows "accounted i (scan_found s full quiet by_id memory entry rule pr sz mtime kind a)"
proof (cases entry)
  case None
  with stands st have reg: "kind = Regular"
    by (cases kind) (auto simp: stands_for_def recorded_at_def entry split: read_seen.splits)
  then obtain data where rd: "pr_read pr = ReadBytes data" and named: "named_in s by_id data = Some i"
    using stands st None by (cases "pr_read pr") (auto simp: stands_for_def recorded_at_def entry split: option.splits)
  have "accounted i (scan_bytes s by_id None r settling relative st data a)" for r settling relative st
    by (rule bytes_accounted) (simp add: named)
  moreover have "full \<or> dget memory (pr_path pr) \<noteq> Some (sz, mtime)"
    using tells st None stands by (auto simp: stat_tells_def entry split: if_splits)
  ultimately show ?thesis
    using reg None rd by (auto simp: scan_found_def scan_read_def Let_def)
next
  case (Some e)
  show ?thesis
  proof (cases "kind = Regular")
    case False
    with Some st have "stands_for s by_id pr = Some (me_id e)"
      by (cases kind) (auto simp: stands_for_def recorded_at_def entry)
    with stands False Some show ?thesis by (auto simp: scan_found_def Let_def)
  next
    case True
    have "me_id e = i" if "\<not> full" "unchanged e sz mtime"
      using that tells st Some stands by (auto simp: stat_tells_def entry)
    moreover have "accounted i (scan_read s by_id entry rule settling (pr_path pr) (sz, mtime) (pr_read pr) a)" for settling
      using stands st True Some
      by (cases "pr_read pr")
        (auto simp: scan_read_def stands_for_def recorded_at_def entry Let_def intro!: bytes_accounted split: option.splits)
    ultimately show ?thesis
      using True Some by (auto simp: scan_found_def Let_def)
  qed
qed

lemma path_accounted:
  assumes "full \<or> stat_tells s by_id memory pr" and "scanned pr" and "stands_for s by_id pr = Some i"
  shows "accounted i (scan_path s full quiet by_id memory a pr)"
proof (cases "pr_stat pr")
  case StatMissing
  with assms(2) show ?thesis by (auto simp: scanned_def scan_path_def Let_def)
next
  case StatFails
  with assms(2,3) show ?thesis
    by (auto simp: scanned_def scan_path_def Let_def stands_for_def recorded_at_def)
next
  case (StatOf sz mtime kind)
  with assms(2) found_accounted [OF assms(1) StatOf assms(3)] show ?thesis
    by (auto simp: scanned_def scan_path_def Let_def)
qed

lemma walk_accounted:
  assumes "pr \<in> set walked" and "full \<or> stat_tells s by_id memory pr" and "scanned pr" and "stands_for s by_id pr = Some i"
  shows "accounted i (foldl (scan_path s full quiet by_id memory) a walked)"
  using assms(1)
proof (induction walked arbitrary: a)
  case (Cons x walked)
  show ?case
  proof (cases "x = pr")
    case True
    with accounted_grows [OF path_accounted [OF assms(2-4)] grows_walk] show ?thesis by simp
  next
    case False
    with Cons show ?thesis by simp
  qed
qed simp

section \<open>What is missing\<close>

text \<open>C17. A note is reported missing only when no file stands for it: if the pass ends with a note absent, then no path
  the walk met below the notes root, a Markdown or canvas file outside the ignored folders, is one whose bytes
  name the note, and none is the path the mirror records for it, unless its bytes name another known note;
  neither a file that vanished or could not be opened, nor one left to settle is taken for an absence. A
  cheap pass needs that the stats it trusts tell the truth of the bytes behind them.\<close>

theorem missing_note_has_no_file:
  assumes "i \<in> set (absent_notes (scan_walk s full quiet by_id memory walked) by_id)"
    and "full \<or> list_all (stat_tells s by_id memory) walked" and "pr \<in> set walked" and "scanned pr"
  shows "stands_for s by_id pr \<noteq> Some i"
proof
  assume st: "stands_for s by_id pr = Some i"
  have "full \<or> stat_tells s by_id memory pr" using assms(2,3) by (auto simp: list_all_iff)
  from walk_accounted [OF assms(3) this assms(4) st, of quiet empty_scan] assms(1) show False
    by (auto simp: absent_notes_def scan_walk_def accounted_def split: if_splits)
qed

definition sample_entry :: "str \<Rightarrow> str \<Rightarrow> mirror_entry" where
  "sample_entry i p = \<lparr>me_id = i, me_path = p, me_state = U ''ok'', me_reason = None, me_size = 2, me_mtime = Some 7\<rparr>"

definition plain_site :: "fmap site" where
  "plain_site = sample_site\<lparr>st_settings := default_settings\<lparr>ps_reconcile := default_reconcile
     \<lparr>rs_excluded_folders := [], rs_excluded_patterns := []\<rparr>\<rparr>\<rparr>"

lemma plain_rules [simp]: "path_exclusion p [] [] = None"
  "rs_excluded_folders (ps_reconcile (st_settings plain_site)) = []"
  "rs_excluded_patterns (ps_reconcile (st_settings plain_site)) = []"
  by (simp_all add: path_exclusion_def plain_site_def)

lemma plain_path [simp]: "split_on 47 (U ''B.md'') = [U ''B.md'']" "path_suffix (U ''B.md'') = NOTE_SUFFIX"
  "U ''B.md'' \<notin> set IGNORED_DIRECTORIES"
  by (simp_all add: U_def path_suffix_def path_stem_def path_name_def NOTE_SUFFIX_def IGNORED_DIRECTORIES_def
      rpartition_on_def Let_def)

lemma plain_entry [simp]: "dget (by_path [(i, sample_entry i (U ''A.md''))]) (U ''B.md'') = None"
  by (simp add: by_path_def sample_entry_def occupies_def U_def)

lemma invalid_byte: "decode [255] = None"
  by (simp add: decode.simps next_char_def)

theorem missing_note_has_no_file_witness:
  "stands_for plain_site [(U ''a'', sample_entry (U ''a'') (U ''A.md''))]
     \<lparr>pr_path = U ''B.md'', pr_stat = StatOf 1 7 Regular, pr_clock = 9, pr_read = ReadBytes [255]\<rparr> \<noteq> Some (U ''a'')"
proof -
  let ?by = "[(U ''a'', sample_entry (U ''a'') (U ''A.md''))]"
  let ?pr = "\<lparr>pr_path = U ''B.md'', pr_stat = StatOf 1 7 Regular, pr_clock = 9, pr_read = ReadBytes [255]\<rparr>"
  have "scan_walk plain_site True None ?by [] [?pr] = keep_stat (U ''B.md'') (1, 7) (count_unparsed empty_scan)"
    by (simp add: scan_walk_def scan_path_def scan_found_def scan_read_def scan_bytes_def Let_def quiet_holds_def
        observe_def parsed_file_def identity_from_broken_def frontmatter_exclusion_def invalid_byte)
  then have "U ''a'' \<in> set (absent_notes (scan_walk plain_site True None ?by [] [?pr]) ?by)"
    by (simp add: absent_notes_def keep_stat_def count_unparsed_def empty_scan_def)
  from missing_note_has_no_file [OF this, of ?pr] show ?thesis
    by (simp add: scanned_def)
qed

text \<open>Two copies of one unknown identity: adopting the first makes the second a collision, whose stat is remembered.
  When the first is gone, cheap passes skip the copy that carries the note and report the note missing.\<close>

lemma remembered_copy_is_missed:
  assumes "named_in s by_id data = Some i" and "by_id = [(i, sample_entry i (U ''A.md''))]"
    and "rs_excluded_folders (ps_reconcile (st_settings s)) = []" and "rs_excluded_patterns (ps_reconcile (st_settings s)) = []"
    and "pr = \<lparr>pr_path = U ''B.md'', pr_stat = StatOf 2 7 Regular, pr_clock = 9, pr_read = ReadBytes data\<rparr>"
  shows "stands_for s by_id pr = Some i \<and> absent_notes (scan_walk s False None by_id [(U ''B.md'', (2, 7))] [pr]) by_id = [i]"
  using assms by (simp add: stands_for_def scan_walk_def scan_path_def scan_found_def Let_def quiet_holds_def
      keep_stat_def empty_scan_def absent_notes_def)

section \<open>Which file speaks\<close>

lemma single_filter: "filter P xs = [x] \<Longrightarrow> x \<in> set xs \<and> P x"
proof -
  assume "filter P xs = [x]"
  then have "x \<in> set (filter P xs)" by simp
  then show ?thesis by simp
qed

text \<open>C19. At most one file speaks for a note: an observation is chosen for an identity only when the note's own file was
  not found unread at its recorded path, when it is among what the scan saw, when no file that names the identity
  itself is passed over for one that only lies at the note's path, and when it is the only such file, or the
  only one at the recorded path.\<close>

theorem one_file_speaks:
  assumes "chosen_for sc by_id (i, obs) = Inl ob" and "dget by_id i = Some e"
  shows "i \<notin> set (sc_held sc) \<and> ob \<in> set obs \<and> (\<forall>x. x \<in> set obs \<and> \<not> ob_derived x \<longrightarrow> \<not> ob_derived ob) \<and>
     (filter (\<lambda>x. ob_derived x = ob_derived ob) obs = [ob] \<or>
      filter (\<lambda>x. ob_derived x = ob_derived ob \<and> ob_path x = me_path e) obs = [ob])"
proof -
  let ?named = "filter (\<lambda>x. \<not> ob_derived x) obs"
  let ?ranked = "if ?named = [] then obs else ?named"
  from assms have held: "i \<notin> set (sc_held sc)" and c: "choose_among (me_path e) obs = Some ob"
    by (auto simp: chosen_for_def Let_def split: if_splits option.splits)
  from c have one: "filter (\<lambda>x. ob_path x = me_path e) ?ranked = [ob] \<or> ?ranked = [ob]"
    by (auto simp: choose_among_def Let_def split: list.splits if_splits)
  have member: "ob \<in> set xs" if "filter P xs = [ob] \<or> xs = [ob]" for P xs
    using that single_filter [of P xs ob] by auto
  note mem = member [OF one]
  have ranked: "?ranked = filter (\<lambda>x. ob_derived x = ob_derived ob) obs"
  proof (cases "?named = []")
    case True
    then have all: "\<forall>x \<in> set obs. ob_derived x" by (simp add: filter_empty_conv)
    with mem True have "ob_derived ob" by simp
    with all have "filter (\<lambda>x. ob_derived x = ob_derived ob) obs = obs" by (simp add: filter_id_conv)
    with True show ?thesis by simp
  next
    case False
    with mem have "\<not> ob_derived ob" by auto
    with False show ?thesis by simp
  qed
  have "filter (\<lambda>x. ob_derived x = ob_derived ob) obs = [ob] \<or>
      filter (\<lambda>x. ob_derived x = ob_derived ob \<and> ob_path x = me_path e) obs = [ob]"
    using one [unfolded ranked filter_filter] by (auto simp only: conj_commute)
  moreover have "ob \<in> set obs" using mem by (auto split: if_splits)
  moreover have "\<not> ob_derived ob" if "x \<in> set obs" "\<not> ob_derived x" for x
  proof -
    have "x \<in> set ?named" using that by simp
    then have "?named \<noteq> []" by (metis list.distinct(1) list.set_cases)
    with mem show ?thesis by auto
  qed
  ultimately show ?thesis using held by blast
qed

definition sample_seen :: "str \<Rightarrow> str \<Rightarrow> observation" where
  "sample_seen i p = \<lparr>ob_id = i, ob_path = p, ob_state = SeenOk, ob_hash = [], ob_size = 2, ob_mtime = 7, ob_title = [], ob_fm = [],
     ob_body = [], ob_derived = False\<rparr>"

theorem one_file_speaks_witness:
  "filter (\<lambda>x. \<not> ob_derived x \<and> ob_path x = U ''A.md'') [sample_seen (U ''a'') (U ''A.md''), sample_seen (U ''a'') (U ''B.md'')] =
     [sample_seen (U ''a'') (U ''A.md'')]"
proof -
  let ?a = "sample_seen (U ''a'') (U ''A.md'')" and ?b = "sample_seen (U ''a'') (U ''B.md'')"
  let ?by = "[(U ''a'', sample_entry (U ''a'') (U ''A.md''))]"
  have ne: "U ''A.md'' \<noteq> U ''B.md''" by (simp add: U_def)
  then have "chosen_for empty_scan ?by (U ''a'', [?a, ?b]) = Inl ?a"
    by (simp add: chosen_for_def choose_among_def empty_scan_def sample_seen_def sample_entry_def)
  from one_file_speaks [OF this] show ?thesis
    using ne by (auto simp: sample_entry_def sample_seen_def)
qed

text \<open>With a copy of a note elsewhere, a pass that takes the note's own file at its stat reports both paths as a
  collision; a pass that reads it chooses it and reports nothing.\<close>

lemma copy_hidden_when_read:
  assumes "dget by_id i = Some e" and "me_path e = ob_path a" and "ob_path b \<noteq> ob_path a"
    and "\<not> ob_derived a" and "\<not> ob_derived b"
  shows "chosen_for (sc\<lparr>sc_held := []\<rparr>) by_id (i, [a, b]) = Inl a \<and>
     chosen_for (sc\<lparr>sc_held := [i]\<rparr>) by_id (i, [b]) = Inr [ob_path a, ob_path b]"
  using assms by (simp add: chosen_for_def choose_among_def)

section \<open>A row comes to rest\<close>

text \<open>C23. Reconciling comes to rest: a row that was brought in line with an observation needs no change for it again,
  and a later cheap pass takes the file at its stat exactly when the bytes were read; a file that could not be
  opened is tried again each time.\<close>

theorem reconciled_row_rests:
  "values_for s obs (observed_row s obs r) = None \<and>
   (case obs of None \<Rightarrow> me_state (snd (entry_of (i, observed_row s obs r))) = U ''missing''
    | Some ob \<Rightarrow> unchanged (snd (entry_of (i, observed_row s obs r))) (ob_size ob) (ob_mtime ob) =
        (ob_state ob \<noteq> SeenUnreadable))"
proof -
  have "observed_row s obs (observed_row s obs r) = observed_row s obs r"
    by (simp add: observed_row_def Let_def split: option.split seen_state.split)
  moreover have "UNPARSED_REASON \<noteq> UNREADABLE_REASON"
    by (simp add: UNPARSED_REASON_def UNREADABLE_REASON_def U_def)
  ultimately show ?thesis
    by (cases obs) (simp_all add: values_for_def unchanged_def entry_of_def,
      simp_all add: observed_row_def Let_def split: seen_state.split)
qed

section \<open>The adoption sweep\<close>

definition tried :: "sweep \<Rightarrow> nat" where
  "tried sw = sw_adopted sw + sw_rejected sw + sw_unwritable sw + sw_retry sw"

lemma tried_outcome: "tried (count_outcome c out sw) = tried sw + 1"
  by (auto simp: tried_def count_outcome_def split: sum.split adoption.split prod.split)

lemma adopted_outcome:
  "sw_adopted (count_outcome c out sw) = sw_adopted sw \<or> sw_adopted (count_outcome c out sw) = sw_adopted sw + 1"
  by (auto simp: count_outcome_def split: sum.split adoption.split prod.split)

lemma sweep_result:
  "adopt_candidates adopt cs sw w = (Inr (sw', left), w') \<Longrightarrow> sw_adopted sw < ADOPTIONS_PER_PASS \<Longrightarrow>
     tried sw' + left = tried sw + length cs \<and> sw_adopted sw' \<le> ADOPTIONS_PER_PASS \<and>
     (0 < left \<longrightarrow> sw_adopted sw' = ADOPTIONS_PER_PASS)"
proof (induction cs arbitrary: sw w)
  case Nil
  then show ?case by (auto simp: ret_def)
next
  case (Cons c cs)
  from Cons.prems(1) obtain out w1 where
    go: "(let sw1 = count_outcome c out sw
      in if sw_adopted sw1 \<noteq> sw_adopted sw \<and> sw_adopted sw1 = ADOPTIONS_PER_PASS then ret (sw1, length cs)
         else adopt_candidates adopt cs sw1) w1 = (Inr (sw', left), w')"
    by (auto simp: bnd_def split: prod.splits sum.splits)
  show ?case
  proof (cases "sw_adopted (count_outcome c out sw) \<noteq> sw_adopted sw \<and> sw_adopted (count_outcome c out sw) = ADOPTIONS_PER_PASS")
    case True
    with go tried_outcome [of c out sw] show ?thesis by (auto simp: Let_def ret_def)
  next
    case False
    with adopted_outcome [of c out sw] Cons.prems(2) have "sw_adopted (count_outcome c out sw) < ADOPTIONS_PER_PASS" by auto
    from Cons.IH [OF _ this, of w1] False go tried_outcome [of c out sw] show ?thesis by (auto simp: Let_def)
  qed
qed

text \<open>C30. The adoption sweep counts every candidate once and stops at its bound: of the candidates of a pass each is
  adopted, refused, unwritable, to be retried or left for the next pass; at most fifty are adopted, and any is left
  only when fifty were.\<close>

theorem sweep_is_bounded:
  assumes "adopt_candidates adopt cs \<lparr>sw_adopted = 0, sw_rejected = n, sw_unwritable = 0, sw_retry = 0, sw_memory = m\<rparr> w =
     (Inr (sw, left), w')"
  shows "sw_adopted sw + sw_rejected sw + sw_unwritable sw + sw_retry sw + left = n + length cs \<and> sw_adopted sw \<le> 50 \<and>
     (left = 0 \<or> sw_adopted sw = 50)"
  using sweep_result [OF assms] by (cases left) (simp_all add: tried_def ADOPTIONS_PER_PASS_def)

theorem sweep_is_bounded_witness:
  "let c = \<lparr>ca_path = [], ca_hash = [], ca_stat = (0, 0)\<rparr>
   in case adopt_candidates (\<lambda>c. ret (Adopted, [])) (replicate 51 c)
        \<lparr>sw_adopted = 0, sw_rejected = 0, sw_unwritable = 0, sw_retry = 0, sw_memory = []\<rparr> sample_world of
      (Inl e, w) \<Rightarrow> False | (Inr (sw, left), w) \<Rightarrow> sw_adopted sw \<le> 50 \<and> sw_adopted sw + sw_rejected sw + sw_unwritable sw + sw_retry sw + left = 51"
proof -
  let ?c = "\<lparr>ca_path = [], ca_hash = [], ca_stat = (0, 0)\<rparr>"
  let ?s = "\<lparr>sw_adopted = 0, sw_rejected = 0, sw_unwritable = 0, sw_retry = 0, sw_memory = []\<rparr>"
  have runs: "\<exists>x. adopt_candidates (\<lambda>c. ret (Adopted, [])) cs sw w = (Inr x, w)" for cs sw w
    by (induction cs arbitrary: sw) (auto simp: ret_def bnd_def catching_def Let_def)
  from runs [of "replicate 51 ?c" ?s sample_world] obtain sw left where
    r: "adopt_candidates (\<lambda>c. ret (Adopted, [])) (replicate 51 ?c) ?s sample_world = (Inr (sw, left), sample_world)"
    by (metis prod.exhaust)
  with sweep_is_bounded [OF r] show ?thesis by (simp only: Let_def r prod.case sum.case length_replicate) simp
qed

section \<open>Silence surfaces\<close>

definition is_deferral :: "status_event \<Rightarrow> bool" where
  "is_deferral e = (case e of Deferred r \<Rightarrow> True | _ \<Rightarrow> False)"

lemma failures_count:
  "\<forall>t. Completed t \<notin> set es \<Longrightarrow> rt_failures (foldl status_step st es) = rt_failures st + length (filter is_deferral es)"
proof (induction es arbitrary: st)
  case (Cons e es)
  then have "\<forall>t. Completed t \<notin> set es" by simp
  from Cons.IH [OF this, of "status_step st e"] Cons.prems show ?case
    by (cases e) (auto simp: is_deferral_def)
qed simp

definition status_times :: "reconciler_status \<Rightarrow> int set" where
  "status_times st = insert (rt_started st) (set_option (rt_completed st) \<union> set_option (rt_scan st))"

lemma times_from:
  "status_times (foldl status_step st es) \<subseteq> status_times st \<union> {t. Scanning t \<in> set es \<or> Completed t \<in> set es}"
proof (induction es arbitrary: st)
  case (Cons e es)
  have "status_times (status_step st e) \<subseteq> status_times st \<union> {t. Scanning t \<in> set (e # es) \<or> Completed t \<in> set (e # es)}"
    by (cases e) (auto simp: status_times_def)
  with Cons.IH [of "status_step st e"] show ?case by auto
qed simp

lemma quiet_since_time: "quiet_since st \<in> status_times st"
  by (auto simp: quiet_since_def status_times_def Let_def split: option.split)

text \<open>A reconciler that has stopped converging surfaces: after any course of scans, readiness finds nothing wrong only
  if fewer than three passes failed since the last one that completed, and the process started, a scan began or a
  scan completed within the last three intervals, or three times the longest scan, or half an hour at the first.\<close>

theorem silence_surfaces:
  assumes "\<forall>t. Completed t \<notin> set later" and "st = foldl status_step (fresh_status started) (earlier @ later)"
    and "status_problem now st = None"
  shows "length (filter is_deferral later) < 3 \<and>
     (\<exists>t. (t = started \<or> Scanning t \<in> set (earlier @ later) \<or> Completed t \<in> set earlier) \<and>
        now - t \<le> max FIRST_SCAN_GRACE (3 * max (int (rt_interval st) * 1000000) (rt_longest st)))"
proof -
  have few: "rt_failures st < 3" and quiet: "now - quiet_since st \<le> max FIRST_SCAN_GRACE (stale_deadline st)"
    using assms(3) by (auto simp: status_problem_def WEDGED_AFTER_def Let_def split: if_splits)
  have "length (filter is_deferral later) \<le> rt_failures st"
    using failures_count [OF assms(1), of "foldl status_step (fresh_status started) earlier"] assms(2) by simp
  moreover have "quiet_since st \<in> status_times (fresh_status started) \<union>
      {t. Scanning t \<in> set (earlier @ later) \<or> Completed t \<in> set (earlier @ later)}"
    using quiet_since_time [of st] times_from [of "fresh_status started" "earlier @ later"] assms(2) by auto
  ultimately show ?thesis
    using few quiet assms(1)
    by (intro conjI exI [of _ "quiet_since st"]) (auto simp: status_times_def fresh_status_def stale_deadline_def STALE_INTERVALS_def)
qed

theorem silence_surfaces_witness:
  "\<exists>t. (t = 0 \<or> t = 60000000 \<or> t = 61000000) \<and> 100000000 - t \<le> (1800000000 :: int)"
proof -
  let ?st = "foldl status_step (fresh_status 0) ([Scanning 60000000, Completed 61000000] @ [])"
  have "status_problem 100000000 ?st = None"
    by (simp add: status_problem_def fresh_status_def WEDGED_AFTER_def FIRST_SCAN_GRACE_def stale_deadline_def
        STALE_INTERVALS_def quiet_since_def)
  from silence_surfaces [OF _ refl this] show ?thesis
    by (fastforce simp: FIRST_SCAN_GRACE_def fresh_status_def)
qed

end
