(* ===== verification/JsonText.thy ===== *)
theory JsonText
  imports Utf8 "HOL-Library.Multiset" "HOL-Library.List_Lexorder" "HOL-Library.Product_Lexorder"
begin

text \<open>
  The compact JSON the program hashes: \<open>json.dumps(value, ensure_ascii=False, separators=(",", ":"))\<close> of
  strings and of lists of strings, character by character.  The text determines the strings, so a
  digest of it is a digest of them.
\<close>

section \<open>Printing\<close>

definition json_hex :: "nat \<Rightarrow> cpoint" where
  "json_hex n = (if n < 10 then 48 + n else 87 + n)"

definition json_char :: "cpoint \<Rightarrow> str" where
  "json_char c =
     (if c = 34 then [92, 34] else if c = 92 then [92, 92]
      else if c = 10 then [92, 110] else if c = 13 then [92, 114] else if c = 9 then [92, 116]
      else if c = 8 then [92, 98] else if c = 12 then [92, 102]
      else if c < 32 then [92, 117, 48, 48, json_hex (c div 16), json_hex (c mod 16)]
      else [c])"

definition json_string :: "str \<Rightarrow> str" where
  "json_string s = [34] @ concat (map json_char s) @ [34]"

definition json_array :: "str list \<Rightarrow> str" where
  "json_array ts = [91] @ join [44] ts @ [93]"

definition json_strings :: "str list \<Rightarrow> str" where
  "json_strings ss = json_array (map json_string ss)"

definition json_pairs :: "(str \<times> str) list \<Rightarrow> str" where
  "json_pairs ps = json_array (map (\<lambda>(a, b). json_strings [a, b]) ps)"

section \<open>The text determines the value\<close>

lemma json_hex_inject: "a < 16 \<Longrightarrow> b < 16 \<Longrightarrow> json_hex a = json_hex b \<longleftrightarrow> a = b"
  by (auto simp: json_hex_def)

definition short_escape :: "cpoint \<Rightarrow> cpoint option" where
  "short_escape c = map_of [(34, 34), (92, 92), (10, 110), (13, 114), (9, 116), (8, 98), (12, 102)] c"

lemma json_char_cases:
  "json_char c =
     (case short_escape c of Some k \<Rightarrow> [92, k]
      | None \<Rightarrow> if c < 32 then [92, 117, 48, 48, json_hex (c div 16), json_hex (c mod 16)] else [c])"
  by (simp add: json_char_def short_escape_def)

lemma short_escape_inject: "short_escape c = Some k \<Longrightarrow> short_escape d = Some k \<Longrightarrow> c = d"
  and short_escape_code: "short_escape c \<noteq> Some 117"
  and short_escape_92: "short_escape 92 = Some 92"
  by (auto simp: short_escape_def split: if_splits)

lemma hex_pair_inject:
  assumes "c < 32" "d < 32" "json_hex (c div 16) = json_hex (d div 16)" "json_hex (c mod 16) = json_hex (d mod 16)"
  shows "c = d"
proof -
  have "c div 16 = d div 16" "c mod 16 = d mod 16"
    using assms by (auto simp: json_hex_inject)
  then show ?thesis by (metis div_mult_mod_eq)
qed

lemma json_char_prefix:
  assumes "json_char c @ x = json_char d @ y"
  shows "c = d \<and> x = y"
proof (cases "short_escape c"; cases "short_escape d")
  assume "short_escape c = None" "short_escape d = None"
  with assms show ?thesis
    using short_escape_92 hex_pair_inject [of c d] by (cases "c < 32"; cases "d < 32") (auto simp: json_char_cases)
next
  fix k assume "short_escape c = None" "short_escape d = Some k"
  with assms show ?thesis
    using short_escape_92 short_escape_code [of d] by (cases "c < 32") (auto simp: json_char_cases)
next
  fix k assume "short_escape c = Some k" "short_escape d = None"
  with assms show ?thesis
    using short_escape_92 short_escape_code [of c] by (cases "d < 32") (auto simp: json_char_cases)
next
  fix k l assume "short_escape c = Some k" "short_escape d = Some l"
  with assms show ?thesis
    using short_escape_inject by (auto simp: json_char_cases)
qed

lemma json_char_start: "json_char c @ x \<noteq> 34 # y"
  by (auto simp: json_char_def)

lemma json_chars_prefix:
  "concat (map json_char s) @ 34 # x = concat (map json_char t) @ 34 # y \<Longrightarrow> s = t \<and> x = y"
proof (induction s arbitrary: t)
  case Nil
  then show ?case
    by (cases t) (use json_char_start in \<open>auto, metis\<close>)
next
  case (Cons c s)
  show ?case
  proof (cases t)
    case Nil
    with Cons.prems show ?thesis using json_char_start [of c] by (auto simp: append_assoc)
  next
    case (Cons d t')
    with Cons.prems have "json_char c @ (concat (map json_char s) @ 34 # x) = json_char d @ (concat (map json_char t') @ 34 # y)"
      by simp
    from json_char_prefix [OF this] Cons.IH [of t'] Cons show ?thesis by blast
  qed
qed

lemma json_string_prefix: "json_string s @ x = json_string t @ y \<Longrightarrow> s = t \<and> x = y"
  using json_chars_prefix [of s x t y] by (simp add: json_string_def)

lemma json_string_start: "\<exists>c r. json_string s = c # r \<and> c \<noteq> 93"
  by (simp add: json_string_def)

text \<open>An array of texts none of which is a proper prefix of another, and none of which starts with the
  closing bracket.\<close>

lemma json_items_prefix:
  assumes "\<And>a b x y. f a @ x = f b @ y \<Longrightarrow> a = b \<and> x = y" and "\<And>a. \<exists>c r. f a = c # r \<and> c \<noteq> 93"
  shows "join [44] (map f as) @ 93 # x = join [44] (map f bs) @ 93 # y \<Longrightarrow> as = bs \<and> x = y"
proof (induction as arbitrary: bs)
  case Nil
  then show ?case
  proof (cases bs)
    case (Cons b bs')
    then obtain c r where "f b = c # r" "c \<noteq> 93" using assms(2) by blast
    with Nil Cons show ?thesis by (cases bs') auto
  qed simp
next
  case (Cons a as)
  obtain ca ra where fa: "f a = ca # ra" "ca \<noteq> 93" using assms(2) by blast
  from Cons.prems fa obtain b bs' where bs: "bs = b # bs'"
    by (cases bs; cases as) auto
  define tail where "tail zs w = (if zs = [] then 93 # w else 44 # join [44] (map f zs) @ 93 # w)" for zs w
  have unroll: "join [44] (map f (z # zs)) @ 93 # w = f z @ tail zs w" for z zs w
    by (cases zs) (simp_all add: tail_def)
  from Cons.prems have "f a @ tail as x = f b @ tail bs' y"
    unfolding bs unroll by simp
  from assms(1) [OF this] have ab: "a = b" and t: "tail as x = tail bs' y" by auto
  show ?case
  proof (cases "as = [] \<or> bs' = []")
    case True
    with t ab bs show ?thesis by (auto simp: tail_def split: if_splits)
  next
    case False
    with t have "join [44] (map f as) @ 93 # x = join [44] (map f bs') @ 93 # y" by (simp add: tail_def)
    from Cons.IH [OF this] ab bs show ?thesis by simp
  qed
qed

lemma json_array_prefix:
  assumes "\<And>a b x y. f a @ x = f b @ y \<Longrightarrow> a = b \<and> x = y" and "\<And>a. \<exists>c r. f a = c # r \<and> c \<noteq> 93"
  shows "json_array (map f as) @ x = json_array (map f bs) @ y \<Longrightarrow> as = bs \<and> x = y"
  using json_items_prefix [where f = f and as = as and bs = bs and x = x and y = y, OF assms] by (simp add: json_array_def)

lemma json_strings_prefix: "json_strings as @ x = json_strings bs @ y \<Longrightarrow> as = bs \<and> x = y"
  unfolding json_strings_def
  by (rule json_array_prefix [where f = json_string, OF json_string_prefix json_string_start])

lemma json_strings_inject: "json_strings as = json_strings bs \<longleftrightarrow> as = bs"
  using json_strings_prefix [of as "[]" bs "[]"] by auto

lemma json_pair_start: "\<exists>c r. (\<lambda>(a, b). json_strings [a, b]) p = c # r \<and> c \<noteq> 93"
  by (cases p) (simp add: json_strings_def json_array_def)

lemma json_pair_prefix:
  "(\<lambda>(a, b). json_strings [a, b]) p @ x = (\<lambda>(a, b). json_strings [a, b]) q @ y \<Longrightarrow> p = q \<and> x = y"
  using json_strings_prefix [of "[fst p, snd p]" x "[fst q, snd q]" y] by (cases p; cases q) simp

lemma json_pairs_prefix: "json_pairs as @ x = json_pairs bs @ y \<Longrightarrow> as = bs \<and> x = y"
  unfolding json_pairs_def by (rule json_array_prefix [OF json_pair_prefix json_pair_start])

lemma json_pairs_inject: "json_pairs as = json_pairs bs \<longleftrightarrow> as = bs"
  using json_pairs_prefix [of as "[]" bs "[]"] by auto

text \<open>Sorting forgets the order and nothing else.\<close>

lemma sort_eq_iff_mset: "sort as = sort bs \<longleftrightarrow> mset as = mset (bs :: 'a::linorder list)"
  by (metis mset_sort properties_for_sort sorted_sort)

section \<open>Encoding determines the text\<close>

lemma encode_inject: "encode s = Some b \<Longrightarrow> encode t = Some b \<Longrightarrow> s = t"
  using decode_encode [of s b] decode_encode [of t b] by simp

end
