(* ===== verification/SourceDocs.thy ===== *)
theory SourceDocs
  imports JsonText NoteWorld
begin

text \<open>
  The documents of \<open>coppermind_store/sources.py\<close>: the claim on an external identifier, the manifest and
  its revisions, the identity of a set of artifacts, and the checks that read them back.  \<open>json\<close> with
  indentation, \<open>datetime\<close>'s ISO texts, SHA-256 and Pydantic's reading of a manifest are the parameter
  \<open>doc_lib\<close>; the compact JSON that is hashed is \<open>JsonText\<close>.  A \<open>PyFault\<close> here also stands for an
  \<open>AttributeError\<close> or a \<open>KeyError\<close>.
\<close>

section \<open>Requests\<close>

record incoming_artifact =
  in_name :: str
  in_mime :: str
  in_bytes :: bytes

text \<open>\<open>captured_at\<close> is an instant with its own ISO text.\<close>

record ingest_request =
  iq_provider :: str
  iq_external :: str
  iq_type :: str
  iq_origin :: str
  iq_captured :: "(int \<times> str) option"
  iq_metadata :: fmap
  iq_artifacts :: "incoming_artifact list"
  iq_title :: str
  iq_body :: str
  iq_frontmatter :: fmap
  iq_size :: nat

record source_manifest =
  sm_id :: str
  sm_provider :: str
  sm_external :: str
  sm_type :: str
  sm_origin :: str
  sm_current :: int
  sm_revisions :: "(int \<times> (str \<times> str \<times> str \<times> nat) list) list"
  sm_projection :: "str option"

text \<open>\<open>dl_text\<close> is \<open>_json_bytes\<close>; \<open>dl_read\<close> decodes and loads; \<open>dl_when\<close> is \<open>fromisoformat\<close> with whether the
  time has a zone; \<open>dl_int\<close> is \<open>int\<close> of a value; \<open>dl_local\<close> is the ISO text in the configured zone; \<open>dl_below\<close> is \<open>resolve\<close> in the
  sources filesystem.\<close>

record doc_lib =
  dl_text :: "pyval \<Rightarrow> bytes"
  dl_read :: "bytes \<Rightarrow> pyval option"
  dl_iso :: "int \<Rightarrow> str"
  dl_local :: "int \<Rightarrow> str"
  dl_when :: "pyval \<Rightarrow> (int \<times> bool) option"
  dl_sha :: "bytes \<Rightarrow> str"
  dl_int :: "pyval \<Rightarrow> int option"
  dl_manifest :: "fmap \<Rightarrow> source_manifest option"
  dl_below :: "str \<Rightarrow> str \<Rightarrow> str option"
  dl_source_id :: "nat \<Rightarrow> str"

definition bad_source :: "str \<Rightarrow> exn" where
  "bad_source m = Typed (SourcesFilesystemUnavailable m)"

definition artifact_meta :: "doc_lib \<Rightarrow> incoming_artifact \<Rightarrow> fmap" where
  "artifact_meta dl a =
     [(U ''name'', PStr (in_name a)), (U ''mime_type'', PStr (in_mime a)),
      (U ''sha256'', PStr (dl_sha dl (in_bytes a))), (U ''size_bytes'', PInt (int (length (in_bytes a))))]"

definition artifact_metas :: "doc_lib \<Rightarrow> ingest_request \<Rightarrow> fmap list" where
  "artifact_metas dl q = map (artifact_meta dl) (iq_artifacts q)"

section \<open>Identities\<close>

definition pairs_of :: "objects \<Rightarrow> fmap list \<Rightarrow> (str \<times> str) list" where
  "pairs_of ob arts = map (\<lambda>a. (text_of ob (fget a (U ''name'')), text_of ob (fget a (U ''sha256'')))) arts"

definition content_identity :: "doc_lib \<Rightarrow> (str \<times> str) list \<Rightarrow> exn + str" where
  "content_identity dl ps =
     (case encode (json_pairs (sort ps)) of None \<Rightarrow> Inl Unencodable | Some b \<Rightarrow> Inr (dl_sha dl b))"

definition SOURCES :: str where "SOURCES = U ''/sources''"

definition source_path :: "str \<Rightarrow> str" where
  "source_path i = path_join SOURCES i"

definition manifest_path :: "str \<Rightarrow> str" where
  "manifest_path i = path_join (source_path i) (U ''manifest.json'')"

text \<open>\<open>f"r{revision:04d}"\<close>: filled with zeros to four places, the sign among them.\<close>

definition zero_filled :: "int \<Rightarrow> str" where
  "zero_filled n =
     (let sign = (if n < 0 then U ''-'' else []); ds = dec (nat (abs n)) in sign @ replicate (4 - length (sign @ ds)) 48 @ ds)"

definition revision_path :: "str \<Rightarrow> int \<Rightarrow> str" where
  "revision_path i n = path_join (source_path i) (U ''r'' @ zero_filled n)"

definition claim_path :: "doc_lib \<Rightarrow> str \<Rightarrow> str \<Rightarrow> exn + str" where
  "claim_path dl provider external =
     (case encode (json_strings [provider, external]) of None \<Rightarrow> Inl Unencodable
      | Some b \<Rightarrow> Inr (path_join SOURCES (U ''.external-id-'' @ dl_sha dl b @ U ''.json'')))"

section \<open>The claim\<close>

definition claim_document :: "ingest_request \<Rightarrow> str \<Rightarrow> fmap" where
  "claim_document q i =
     [(U ''schema_version'', PInt 1), (U ''provider'', PStr (iq_provider q)),
      (U ''external_source_id'', PStr (iq_external q)), (U ''source_id'', PStr i)]"

definition claimed_source :: "doc_lib \<Rightarrow> bytes \<Rightarrow> ingest_request \<Rightarrow> exn + str" where
  "claimed_source dl data q =
     (case dl_read dl data of
        None \<Rightarrow> Inl (bad_source (U ''the external-id claim is unreadable''))
      | Some (PMap c) \<Rightarrow>
          if \<not> py_eq (fget c (U ''schema_version'')) (PInt 1) \<or> fget c (U ''provider'') \<noteq> PStr (iq_provider q)
             \<or> fget c (U ''external_source_id'') \<noteq> PStr (iq_external q) \<or> \<not> is_valid_id (fget c (U ''source_id''))
          then Inl (bad_source (U ''the external-id claim is invalid''))
          else (case fget c (U ''source_id'') of PStr i \<Rightarrow> Inr i | _ \<Rightarrow> Inl PyFault)
      | Some v \<Rightarrow> Inl PyFault)"

section \<open>The manifest\<close>

definition revision_document ::
  "objects \<Rightarrow> doc_lib \<Rightarrow> ingest_request \<Rightarrow> int \<Rightarrow> int \<Rightarrow> str \<Rightarrow> fmap list \<Rightarrow> fmap" where
  "revision_document ob dl q revision now identity arts =
     [(U ''revision'', PInt revision), (U ''ingested_at'', PStr (dl_iso dl now)),
      (U ''captured_at'', (case iq_captured q of None \<Rightarrow> PNone | Some (t, text) \<Rightarrow> PStr text)),
      (U ''content_identity'', PStr identity), (U ''metadata'', PMap (json_map ob (iq_metadata q))),
      (U ''artifacts'', PList (map PMap arts))]"

definition manifest_document ::
  "objects \<Rightarrow> doc_lib \<Rightarrow> ingest_request \<Rightarrow> str \<Rightarrow> int \<Rightarrow> str \<Rightarrow> fmap list \<Rightarrow> str \<Rightarrow> str \<Rightarrow> fmap" where
  "manifest_document ob dl q i now identity arts projection note_id =
     [(U ''schema_version'', PInt 1), (U ''source_id'', PStr i), (U ''provider'', PStr (iq_provider q)),
      (U ''external_source_id'', PStr (iq_external q)), (U ''source_type'', PStr (iq_type q)),
      (U ''origin'', PStr (iq_origin q)), (U ''note_id'', PStr note_id), (U ''current_revision'', PInt 1),
      (U ''revisions'', PList [PMap (revision_document ob dl q 1 now identity arts)]),
      (U ''projection_path'', PStr projection)]"

text \<open>\<open>manifest.update({...})\<close> with the new revision at the end; \<open>list(...)\<close> of a text or a mapping is not met
  here, for \<open>_manifest_revision\<close> has passed over the same value.\<close>

definition manifest_with_revision :: "fmap \<Rightarrow> ingest_request \<Rightarrow> int \<Rightarrow> fmap \<Rightarrow> str \<Rightarrow> fmap" where
  "manifest_with_revision m q revision doc projection =
     update_with m
       [(U ''source_type'', PStr (iq_type q)), (U ''origin'', PStr (iq_origin q)),
        (U ''current_revision'', PInt revision),
        (U ''revisions'', PList (the_list (fget m (U ''revisions'')) @ [PMap doc])),
        (U ''projection_path'', PStr projection)]"

definition positive_int :: "pyval \<Rightarrow> str \<Rightarrow> exn + int" where
  "positive_int v field =
     (let bad = Inl (bad_source (U ''the source manifest has an invalid '' @ field))
      in case v of PInt i \<Rightarrow> if i < 1 then bad else Inr i | _ \<Rightarrow> bad)"

fun is_map :: "pyval \<Rightarrow> bool" where
  "is_map (PMap d) = True"
| "is_map _ = False"

fun the_map :: "pyval \<Rightarrow> fmap" where
  "the_map (PMap d) = d"
| "the_map _ = []"

text \<open>\<open>_manifest_revision\<close>: what is not a mapping has no \<open>get\<close>, what is no collection cannot be gone over.\<close>

definition manifest_revision :: "fmap \<Rightarrow> int \<Rightarrow> exn + fmap" where
  "manifest_revision m revision =
     (let bad = Inl (bad_source (U ''the source manifest has inconsistent revisions''))
      in case (case dget m (U ''revisions'') of None \<Rightarrow> PList [] | Some v \<Rightarrow> v) of
        PList entries \<Rightarrow>
          if \<not> list_all is_map entries then Inl PyFault
          else (case filter (\<lambda>d. py_eq (fget d (U ''revision'')) (PInt revision)) (map the_map entries) of
              [d] \<Rightarrow> Inr d | _ \<Rightarrow> bad)
      | PMap d \<Rightarrow> if d = [] then bad else Inl PyFault
      | PStr t \<Rightarrow> if t = [] then bad else Inl PyFault
      | _ \<Rightarrow> Inl PyFault)"

definition manifest_artifacts :: "fmap \<Rightarrow> exn + fmap list" where
  "manifest_artifacts rv =
     (case fget rv (U ''artifacts'') of
        PList vs \<Rightarrow>
          if vs = [] \<or> \<not> list_all (\<lambda>v. is_map v \<and> is_str (fget (the_map v) (U ''name'')) \<and>
                                       is_str (fget (the_map v) (U ''sha256''))) vs
          then Inl (bad_source (U ''the source manifest has invalid artifacts''))
          else Inr (map the_map vs)
      | _ \<Rightarrow> Inl (bad_source (U ''the source manifest has invalid artifacts'')))"

definition manifest_time :: "doc_lib \<Rightarrow> pyval \<Rightarrow> str \<Rightarrow> exn + int" where
  "manifest_time dl v field =
     (case dl_when dl v of
        Some (t, aware) \<Rightarrow> if aware then Inr t else Inl (bad_source (U ''the source manifest has an invalid '' @ field))
      | None \<Rightarrow> Inl (bad_source (U ''the source manifest has an invalid '' @ field)))"

section \<open>What a replay sent differently\<close>

definition same_instant :: "doc_lib \<Rightarrow> (int \<times> str) option \<Rightarrow> pyval \<Rightarrow> bool" where
  "same_instant dl c stored =
     (case c of None \<Rightarrow> stored = PNone
      | Some (t, text) \<Rightarrow> (if stored = PNone then False
          else (case dl_when dl stored of None \<Rightarrow> False | Some (u, aware) \<Rightarrow> aware \<and> u = t)))"

definition stored_types :: "objects \<Rightarrow> fmap \<Rightarrow> (str, pyval) dict" where
  "stored_types ob current =
     foldl (\<lambda>d v. dict_set d (text_of ob (fget (the_map v) (U ''name''))) (fget (the_map v) (U ''mime_type''))) []
       (the_list (fget current (U ''artifacts'')))"

definition descriptive_differences ::
  "objects \<Rightarrow> doc_lib \<Rightarrow> ingest_request \<Rightarrow> fmap \<Rightarrow> fmap \<Rightarrow> fmap list \<Rightarrow> str list" where
  "descriptive_differences ob dl q m current arts =
     (let meta = fget current (U ''metadata''); held = stored_types ob current
      in (if same_instant dl (iq_captured q) (fget current (U ''captured_at'')) then [] else [U ''captured_at'']) @
         (if py_eq (PMap (json_map ob (iq_metadata q))) (if truthy meta then meta else PMap []) then [] else [U ''metadata'']) @
         (if py_eq (PStr (iq_type q)) (fget m (U ''source_type'')) then [] else [U ''source_type'']) @
         (if py_eq (PStr (iq_origin q)) (fget m (U ''origin'')) then [] else [U ''origin'']) @
         (if list_ex (\<lambda>a. \<not> py_eq (fget a (U ''mime_type'')) (fget held (text_of ob (fget a (U ''name''))))) arts
          then [U ''mime_type''] else []))"

section \<open>What the documents guarantee\<close>

text \<open>Two sets of artifacts have one identity exactly when they hold the same names with the same
  digests, whatever the order they were sent in.\<close>

lemma content_identity_names_artifacts:
  assumes "content_identity dl ps = Inr i" and "content_identity dl qs = Inr j"
    and free: "\<And>b c. encode (json_pairs (sort ps)) = Some b \<Longrightarrow> encode (json_pairs (sort qs)) = Some c \<Longrightarrow>
      dl_sha dl b = dl_sha dl c \<Longrightarrow> b = c"
  shows "i = j \<longleftrightarrow> mset ps = mset qs"
proof -
  obtain b c where b: "encode (json_pairs (sort ps)) = Some b" "i = dl_sha dl b"
    and c: "encode (json_pairs (sort qs)) = Some c" "j = dl_sha dl c"
    using assms(1,2) by (auto simp: content_identity_def split: option.splits)
  have "i = j \<longleftrightarrow> b = c" using free [OF b(1) c(1)] b(2) c(2) by blast
  also have "\<dots> \<longleftrightarrow> sort ps = sort qs"
    using b(1) c(1) encode_inject json_pairs_inject by (metis option.inject)
  finally show ?thesis by (simp add: sort_eq_iff_mset)
qed

lemma claim_path_names_source:
  assumes "claim_path dl p x = Inr c" and "claim_path dl p' x' = Inr c"
    and free: "\<And>b d. encode (json_strings [p, x]) = Some b \<Longrightarrow> encode (json_strings [p', x']) = Some d \<Longrightarrow>
      dl_sha dl b = dl_sha dl d \<Longrightarrow> b = d"
  shows "p = p' \<and> x = x'"
proof -
  obtain b d where b: "encode (json_strings [p, x]) = Some b" and d: "encode (json_strings [p', x']) = Some d"
    and "dl_sha dl b = dl_sha dl d"
    using assms(1,2) by (auto simp: claim_path_def path_join_def split: option.splits if_splits)
  with free [OF b d] b d encode_inject have "json_strings [p, x] = json_strings [p', x']" by metis
  then show ?thesis by (simp add: json_strings_inject)
qed

text \<open>The documented law of the JSON library: a document with text keys reads back.\<close>

definition reads_back :: "doc_lib \<Rightarrow> fmap \<Rightarrow> bool" where
  "reads_back dl d \<longleftrightarrow> (\<exists>e. dl_read dl (dl_text dl (PMap d)) = Some (PMap e) \<and> (\<forall>k. fget e k = fget d k))"

lemma claim_reads_back:
  assumes "reads_back dl (claim_document q i)" and "is_valid_id (PStr i)"
  shows "claimed_source dl (dl_text dl (PMap (claim_document q i))) q' =
    (if iq_provider q = iq_provider q' \<and> iq_external q = iq_external q' then Inr i
     else Inl (bad_source (U ''the external-id claim is invalid'')))"
proof -
  have g: "fget (claim_document q i) (U ''schema_version'') = PInt 1"
    "fget (claim_document q i) (U ''provider'') = PStr (iq_provider q)"
    "fget (claim_document q i) (U ''external_source_id'') = PStr (iq_external q)"
    "fget (claim_document q i) (U ''source_id'') = PStr i"
    by (simp_all add: claim_document_def fget_def)
  from assms g show ?thesis
    unfolding reads_back_def by (auto simp: claimed_source_def)
qed

text \<open>A new revision changes nothing the manifest says of the others.\<close>

lemma revision_appended:
  assumes rv: "fget m (U ''revisions'') = PList entries" "list_all is_map entries"
    and doc: "fget doc (U ''revision'') = PInt n"
    and old: "\<And>d. PMap d \<in> set entries \<Longrightarrow> \<not> py_eq (fget d (U ''revision'')) (PInt n)"
  shows "manifest_revision (manifest_with_revision m q n doc p) k =
    (if k = n then Inr doc else manifest_revision m k)"
proof -
  let ?m = "manifest_with_revision m q n doc p"
  have rm: "dget m (U ''revisions'') = Some (PList entries)"
    using rv(1) by (auto simp: fget_def split: option.splits)
  have new: "dget ?m (U ''revisions'') = Some (PList (entries @ [PMap doc]))"
    using rv(1) by (simp add: manifest_with_revision_def update_with_def)
  have none: "filter (\<lambda>d. py_eq (fget d (U ''revision'')) (PInt n)) (map the_map entries) = []"
    using old rv(2) by (auto simp: filter_empty_conv list_all_iff elim!: is_map.elims)
  show ?thesis
    using rm new none rv(2) doc by (simp add: manifest_revision_def)
qed

end
