(* ===== verification/Projections.thy ===== *)
theory Projections
  imports SourceDocs NoteWrites
begin

text \<open>
  The generated page of a source (\<open>coppermind_store/projections.py\<close>) and the disk steps an ingest uses
  beside those of \<open>NoteWorld\<close>: a folder made where nothing is, and a tree removed as far as it will go.
  The sources filesystem is part of the same disk, below \<open>SOURCES\<close>.
\<close>

section \<open>Folders and trees\<close>

text \<open>\<open>mkdir(parents=..., exist_ok=False)\<close>.\<close>

definition make_folder :: "bool \<Rightarrow> str \<Rightarrow> int \<Rightarrow> fsys \<Rightarrow> exn + unit \<times> fsys" where
  "make_folder parents p now d =
     (if occupied_name d p then Inl FileExists
      else if parents then sbind (with_parents p d) (\<lambda>d. Inr ((), d\<lparr>d_dirs := p # d_dirs d\<rparr>))
      else if parent_of p \<in> set (d_dirs d) then Inr ((), d\<lparr>d_dirs := p # d_dirs d\<rparr>)
      else Inl FileMissing)"

definition below :: "str \<Rightarrow> str \<Rightarrow> bool" where
  "below p q \<longleftrightarrow> startswith q (p @ U ''/'')"

primrec unlink_all :: "'d site \<Rightarrow> str list \<Rightarrow> unit act" where
  "unlink_all s [] = ret ()"
| "unlink_all s (p # ps) = bnd (catching (unlink s p) (\<lambda>e. ret ())) (\<lambda>u. unlink_all s ps)"

text \<open>\<open>shutil.rmtree(path, ignore_errors=True)\<close>: every file is tried, then the folders nothing is left in.\<close>

definition drop_folders :: "str \<Rightarrow> fsys \<Rightarrow> fsys" where
  "drop_folders p d =
     d\<lparr>d_dirs := filter (\<lambda>f. \<not> ((f = p \<or> below p f) \<and> \<not> list_ex (\<lambda>q. below f (fst q)) (d_names d))) (d_dirs d)\<rparr>"

definition remove_tree :: "'d site \<Rightarrow> str \<Rightarrow> unit act" where
  "remove_tree s p =
     bnd (catching (disk_step s (\<lambda>now d. Inr (filter (below p) (map fst (d_names d)), d))) (\<lambda>e. ret [])) (\<lambda>ps.
     bnd (unlink_all s ps) (\<lambda>u.
     catching (disk_step s (\<lambda>now d. Inr ((), drop_folders p d))) (\<lambda>e. ret ())))"

text \<open>\<open>read_bytes\<close>: a folder at the name is another failure than nothing.\<close>

definition read_bytes :: "'d site \<Rightarrow> str \<Rightarrow> bytes act" where
  "read_bytes s p =
     disk_step s (\<lambda>now d. case file_at d p of Some b \<Rightarrow> Inr (b, d)
       | None \<Rightarrow> Inl (if p \<in> set (d_dirs d) then OsError (U ''is a directory'') else FileMissing))"

text \<open>\<open>raise SourcesFilesystemUnavailable(str(exc))\<close> of an \<open>OSError\<close>.\<close>

definition sources_unavailable :: "'d site \<Rightarrow> exn \<Rightarrow> exn" where
  "sources_unavailable s e = (if is_oserror e then bad_source (st_os_text s e) else e)"

section \<open>Where a page goes\<close>

definition taken_stems :: "str \<Rightarrow> fsys \<Rightarrow> str list" where
  "taken_stems folder d = map path_stem (filter (\<lambda>p. parent_of p = folder \<and> path_suffix p = NOTE_SUFFIX)
     (map fst (d_names d) @ d_dirs d))"

definition new_projection_path :: "'d site \<Rightarrow> str \<Rightarrow> date \<Rightarrow> str act" where
  "new_projection_path s title day =
     (let parent = ns_sources_folder (ps_notes (st_settings s)) @ U ''/_Pending/'' @ month_text day
      in case st_resolve s parent of
           None \<Rightarrow> raise_exn (Typed (NotesFilesystemUnavailable (st_os_text s PyFault)))
         | Some real \<Rightarrow>
            bnd (catching (disk_step s (\<lambda>now d. Inr (taken_stems real d, d))) (\<lambda>e. raise_exn (notes_unavailable s e))) (\<lambda>taken.
            bnd (free_stem s (note_stem (st_uc s) title (Some day) True) taken) (\<lambda>stem.
            ret (parent @ U ''/'' @ stem @ NOTE_SUFFIX))))"

definition page_path :: "'d site \<Rightarrow> str \<Rightarrow> str option" where
  "page_path s relative =
     (let (parent, found, name) = rpartition_on 47 relative
      in if name \<in> {[], U ''.'', U ''..''} then None else map_option (\<lambda>real. path_join real name) (st_resolve s parent))"

section \<open>What the page says\<close>

definition artifact_lines :: "'d site \<Rightarrow> fmap \<times> bytes \<Rightarrow> str list" where
  "artifact_lines s p =
     (let ob = st_objects s; meta = fst p; mime = text_of ob (fget meta (U ''mime_type''))
      in [U ''### '' @ text_of ob (fget meta (U ''name'')), []] @
         (case artifact_text (casefold (st_uc s)) decode (snd p) mime of
            Some t \<Rightarrow> [rstrip_by py_space t, []]
          | None \<Rightarrow> [U ''Binary artifact: '' @ mime @ U '', '' @ text_of ob (fget meta (U ''size_bytes'')) @ U '' bytes, SHA-256 '' @
                      text_of ob (fget meta (U ''sha256'')), []]))"

definition projection_document ::
  "'d site \<Rightarrow> doc_lib \<Rightarrow> str \<Rightarrow> int \<Rightarrow> str \<Rightarrow> int \<Rightarrow> (fmap \<times> bytes) list \<Rightarrow> str" where
  "projection_document s dl i revision title at arts =
     (let ls = [U ''# '' @ title @ U '' (source)'', [], U ''## Artifacts'', []] @ concat (map (artifact_lines s) arts)
      in compose (st_yaml s)
           [(U ''schema_version'', PInt 1), (U ''managed'', PBool True), (U ''source_id'', PStr i),
            (U ''source_revision'', PInt revision), (U ''revision_ingested_at'', PStr (dl_local dl at))]
           (rstrip_by py_space (join newline ls) @ newline))"

text \<open>\<open>projection_revision\<close>: the revision the file at a path projects for a source, if it is that source's
  generated page.\<close>

definition page_revision :: "'d site \<Rightarrow> str \<Rightarrow> bytes \<Rightarrow> int option" where
  "page_revision s i data =
     (case decode data of None \<Rightarrow> None
      | Some text \<Rightarrow> (case parse_text (st_yaml s) text of Inl e \<Rightarrow> None
          | Inr (fm, body) \<Rightarrow>
             if fget fm (U ''managed'') \<noteq> PBool True \<or> fget fm (U ''source_id'') \<noteq> PStr i then None
             else (case fget fm (U ''source_revision'') of PInt n \<Rightarrow> Some n | PBool b \<Rightarrow> Some (of_bool b) | _ \<Rightarrow> None)))"

definition projection_revision :: "'d site \<Rightarrow> str \<Rightarrow> str \<Rightarrow> int option act" where
  "projection_revision s relative i =
     (if relative = [] then ret None
      else case st_resolve s relative of None \<Rightarrow> ret None
        | Some p \<Rightarrow>
           bnd (catching (disk_step s (\<lambda>now d. Inr (file_at d p, d))) (\<lambda>e. raise_exn (notes_unavailable s e))) (\<lambda>data.
           ret (case data of None \<Rightarrow> None | Some b \<Rightarrow> page_revision s i b)))"

section \<open>Writing it\<close>

definition replace_projection :: "'d site \<Rightarrow> str \<Rightarrow> bytes \<Rightarrow> str \<Rightarrow> int \<Rightarrow> str \<Rightarrow> unit act" where
  "replace_projection s page data i revision relative =
     bnd (stage s page data) (\<lambda>tmp.
     catching
       (bnd (projection_revision s relative i) (\<lambda>held.
        if held = None then raise_exn (Typed (ProjectionNotPlaced i revision relative)) else commit_temp s tmp page))
       (\<lambda>e. bnd (unlink_missing_ok s tmp) (\<lambda>u. raise_exn e)))"

text \<open>\<open>except (OSError, ValueError, FrontmatterError)\<close>.\<close>

definition projection_failure :: "'d site \<Rightarrow> exn \<Rightarrow> exn" where
  "projection_failure s e =
     (if is_oserror e \<or> e = PyFault \<or> e = Unencodable \<or> (case e of BadFrontmatter f \<Rightarrow> True | _ \<Rightarrow> False)
      then Typed (NotesFilesystemUnavailable (st_os_text s e)) else e)"

definition write_projection ::
  "'d site \<Rightarrow> doc_lib \<Rightarrow> str \<Rightarrow> int \<Rightarrow> str \<Rightarrow> int \<Rightarrow> (fmap \<times> bytes) list \<Rightarrow> str \<Rightarrow> bool act" where
  "write_projection s dl i revision title at arts relative =
     catching
       (case page_path s relative of
          None \<Rightarrow> raise_exn PyFault
        | Some page \<Rightarrow>
            bnd (encoded (projection_document s dl i revision title at arts)) (\<lambda>data.
            bnd (disk_step s (\<lambda>now d. Inr (occupied_name d page, d))) (\<lambda>there.
            if there then bnd (replace_projection s page data i revision relative) (\<lambda>u. ret False)
            else catching (bnd (create_exclusive s page data) (\<lambda>u. ret True))
                   (\<lambda>e. raise_exn (if e = FileExists then Typed (ProjectionNotPlaced i revision relative) else e)))))
       (\<lambda>e. raise_exn (projection_failure s e))"

end
