(* ===== verification/Sources.thy ===== *)
theory Sources
  imports Projections
begin

text \<open>
  Ingesting a source (\<open>coppermind_store/sources.py\<close>): the first ingest of an external identifier, a
  replay of what is stored, and a new revision, over the world of \<open>NoteWorld\<close>.  Each holds the lock of
  its claim.  What the code keeps in flags for its \<open>finally\<close> blocks (the claim made, the page made, the
  replacement of the manifest begun) is here the place of the handler: a handler stands around the
  steps its flag is set for.
\<close>

definition of_sum :: "exn + 'a \<Rightarrow> 'a act" where
  "of_sum r = (case r of Inl e \<Rightarrow> raise_exn e | Inr x \<Rightarrow> ret x)"

definition plain_error :: "string \<Rightarrow> exn" where
  "plain_error m = Typed (PlainStoreError (U m))"

section \<open>Rows\<close>

definition on_sources :: "(source_tables \<Rightarrow> source_tables) \<Rightarrow> db \<Rightarrow> db" where
  "on_sources f b = b\<lparr>db_src := f (db_src b)\<rparr>"

text \<open>An insert whose key is taken is an integrity error.\<close>

definition insert_new :: "'d site \<Rightarrow> (source_tables \<Rightarrow> exn option) \<Rightarrow> (source_tables \<Rightarrow> source_tables) \<Rightarrow> unit act" where
  "insert_new s taken f =
     bnd (query s (\<lambda>b. taken (db_src b))) (\<lambda>t. case t of Some e \<Rightarrow> raise_exn e | None \<Rightarrow> execute s (on_sources f))"

definition duplicate_key :: exn where
  "duplicate_key = DbFailed (Away (U ''duplicate key''))"

definition unless_held :: "bool \<Rightarrow> exn option" where
  "unless_held held = (if held then Some duplicate_key else None)"

definition holder_of_key :: "str \<Rightarrow> str \<Rightarrow> source_tables \<Rightarrow> str option" where
  "holder_of_key p x t = map_option fst (find (\<lambda>(i, r). so_provider r = p \<and> so_external r = x) (t_sources t))"

text \<open>\<open>uq_sources_provider_external_id\<close> answers with \<open>e\<close>.\<close>

definition add_source :: "'d site \<Rightarrow> str \<Rightarrow> source_row \<Rightarrow> exn \<Rightarrow> unit act" where
  "add_source s i r e =
     insert_new s (\<lambda>t. if map_of (t_sources t) i \<noteq> None then Some duplicate_key
                       else if holder_of_key (so_provider r) (so_external r) t \<noteq> None then Some e else None)
       (\<lambda>t. t\<lparr>t_sources := t_sources t @ [(i, r)]\<rparr>)"

definition add_revision :: "'d site \<Rightarrow> str \<Rightarrow> int \<Rightarrow> revision_row \<Rightarrow> unit act" where
  "add_revision s i n r =
     insert_new s (\<lambda>t. unless_held (map_of (t_revisions t) (i, n) \<noteq> None))
       (\<lambda>t. t\<lparr>t_revisions := t_revisions t @ [((i, n), r)]\<rparr>)"

definition add_artifact :: "'d site \<Rightarrow> (str \<times> int \<times> str) \<times> artifact_row \<Rightarrow> unit act" where
  "add_artifact s a =
     insert_new s (\<lambda>t. unless_held (map_of (t_artifacts t) (fst a) \<noteq> None))
       (\<lambda>t. t\<lparr>t_artifacts := t_artifacts t @ [a]\<rparr>)"

definition add_link :: "'d site \<Rightarrow> str \<Rightarrow> str \<Rightarrow> unit act" where
  "add_link s note_id i =
     insert_new s (\<lambda>t. unless_held ((note_id, i) \<in> set (t_links t))) (\<lambda>t. t\<lparr>t_links := t_links t @ [(note_id, i)]\<rparr>)"

primrec each_do :: "('a \<Rightarrow> unit act) \<Rightarrow> 'a list \<Rightarrow> unit act" where
  "each_do f [] = ret ()"
| "each_do f (x # xs) = bnd (f x) (\<lambda>u. each_do f xs)"

text \<open>\<open>_artifact_rows\<close>: a description without one of its four values is a \<open>KeyError\<close>.\<close>

definition artifact_row_of :: "objects \<Rightarrow> doc_lib \<Rightarrow> str \<Rightarrow> int \<Rightarrow> pyval \<Rightarrow> exn + (str \<times> int \<times> str) \<times> artifact_row" where
  "artifact_row_of ob dl i n v =
     (case v of PMap d \<Rightarrow>
        (case (dget d (U ''name''), dget d (U ''mime_type''), dget d (U ''sha256''), dget d (U ''size_bytes'')) of
           (Some nm, Some mt, Some sh, Some sz) \<Rightarrow>
             (case dl_int dl sz of None \<Rightarrow> Inl PyFault
              | Some z \<Rightarrow> Inr ((i, n, text_of ob nm), \<lparr>ar_mime = text_of ob mt, ar_sha = text_of ob sh, ar_size = z\<rparr>))
         | _ \<Rightarrow> Inl PyFault)
      | _ \<Rightarrow> Inl PyFault)"

primrec sum_list_of :: "('a \<Rightarrow> exn + 'b) \<Rightarrow> 'a list \<Rightarrow> exn + 'b list" where
  "sum_list_of f [] = Inr []"
| "sum_list_of f (x # xs) = (case f x of Inl e \<Rightarrow> Inl e
     | Inr y \<Rightarrow> (case sum_list_of f xs of Inl e \<Rightarrow> Inl e | Inr ys \<Rightarrow> Inr (y # ys)))"

definition artifact_rows :: "objects \<Rightarrow> doc_lib \<Rightarrow> str \<Rightarrow> int \<Rightarrow> pyval \<Rightarrow> exn + ((str \<times> int \<times> str) \<times> artifact_row) list" where
  "artifact_rows ob dl i n v =
     (case v of PList vs \<Rightarrow> sum_list_of (artifact_row_of ob dl i n) vs
      | PMap d \<Rightarrow> if d = [] then Inr [] else Inl PyFault
      | PStr t \<Rightarrow> if t = [] then Inr [] else Inl PyFault
      | _ \<Rightarrow> Inl PyFault)"

section \<open>Refusals\<close>

text \<open>A session of its own beside the one that is open.\<close>

definition separately :: "'d site \<Rightarrow> 'a act \<Rightarrow> 'a act" where
  "separately s m w = (case transaction s m w of (r, w') \<Rightarrow> (r, w'\<lparr>w_tx := w_tx w\<rparr>))"

definition write_rejection :: "'d site \<Rightarrow> str \<Rightarrow> str \<Rightarrow> (str \<times> str \<times> str) act" where
  "write_rejection s reference reason =
     bnd (\<lambda>w. (Inr (st_new_id s (w_tick w)), w)) (\<lambda>i.
     bnd (own_step s (\<lambda>w. ((), w\<lparr>w_rejections := w_rejections w @ [(i, reference, reason)]\<rparr>))) (\<lambda>u.
     ret (i, reference, reason)))"

definition mirror_rejection :: "'d site \<Rightarrow> str \<times> str \<times> str \<Rightarrow> unit act" where
  "mirror_rejection s r =
     execute s (on_sources (\<lambda>t. if fst r \<in> set (map fst (t_rejections t)) then t
                                else t\<lparr>t_rejections := t_rejections t @ [r]\<rparr>))"

definition record_rejection :: "'d site \<Rightarrow> ingest_request \<Rightarrow> string \<Rightarrow> unit act" where
  "record_rejection s q reason =
     catching
       (bnd (write_rejection s (iq_provider q @ U '':'' @ iq_external q) (U reason)) (\<lambda>r.
        separately s (mirror_rejection s r)))
       (\<lambda>e. if is_oserror e \<or> (case e of DbFailed Cancelled \<Rightarrow> False | DbFailed f \<Rightarrow> True | _ \<Rightarrow> False) then ret ()
            else raise_exn e)"

section \<open>Reading what is stored\<close>

definition read_json :: "'d site \<Rightarrow> doc_lib \<Rightarrow> str \<Rightarrow> string \<Rightarrow> fmap act" where
  "read_json s dl p label =
     (let unreadable = bad_source (U ''the '' @ U label @ U '' is unreadable'')
      in bnd (catching (read_bytes s p) (\<lambda>e. raise_exn (if is_oserror e then unreadable else e))) (\<lambda>data.
         case dl_read dl data of
           None \<Rightarrow> raise_exn unreadable
         | Some (PMap d) \<Rightarrow> ret d
         | Some v \<Rightarrow> raise_exn (bad_source (U ''the '' @ U label @ U '' is invalid''))))"

text \<open>\<open>resolve(revision_path, name)\<close> and the bytes there; an \<open>OSError\<close> or a \<open>ValueError\<close> becomes \<open>m\<close>.\<close>

definition stored_artifact_bytes :: "'d site \<Rightarrow> doc_lib \<Rightarrow> str \<Rightarrow> int \<Rightarrow> str \<Rightarrow> str \<Rightarrow> bytes act" where
  "stored_artifact_bytes s dl i n name m =
     (case dl_below dl (revision_path i n) name of
        None \<Rightarrow> raise_exn (bad_source m)
      | Some p \<Rightarrow> catching (read_bytes s p) (\<lambda>e. raise_exn (if is_oserror e then bad_source m else e)))"

definition verify_artifact :: "'d site \<Rightarrow> doc_lib \<Rightarrow> str \<Rightarrow> int \<Rightarrow> fmap \<Rightarrow> unit act" where
  "verify_artifact s dl i n a =
     (let name = text_of (st_objects s) (fget a (U ''name''))
      in bnd (stored_artifact_bytes s dl i n name (U ''the current source revision artifact is unreadable: '' @ name)) (\<lambda>data.
         if py_eq (PStr (dl_sha dl data)) (fget a (U ''sha256'')) then ret ()
         else raise_exn (bad_source (U ''the current source revision artifact failed verification: '' @ name))))"

definition verify_artifacts :: "'d site \<Rightarrow> doc_lib \<Rightarrow> str \<Rightarrow> int \<Rightarrow> fmap list \<Rightarrow> unit act" where
  "verify_artifacts s dl i n arts = each_do (verify_artifact s dl i n) arts"

primrec read_artifacts :: "'d site \<Rightarrow> doc_lib \<Rightarrow> str \<Rightarrow> int \<Rightarrow> fmap list \<Rightarrow> (fmap \<times> bytes) list act" where
  "read_artifacts s dl i n [] = ret []"
| "read_artifacts s dl i n (a # as) =
     bnd (stored_artifact_bytes s dl i n (text_of (st_objects s) (fget a (U ''name'')))
       (U ''the current source revision changed while it was being read'')) (\<lambda>data.
     bnd (read_artifacts s dl i n as) (\<lambda>rest. ret ((a, data) # rest)))"

definition get_source :: "'d site \<Rightarrow> doc_lib \<Rightarrow> str \<Rightarrow> source_manifest act" where
  "get_source s dl i =
     (if \<not> is_valid_id (PStr i) then raise_exn (Typed (SourceNotFound i))
      else bnd (catching (disk_step s (\<lambda>now d. if occupied_name d (manifest_path i) then Inr ((), d) else Inl FileMissing))
             (\<lambda>e. raise_exn (if e = FileMissing then Typed (SourceNotFound i)
                             else if is_oserror e then bad_source (U ''the source manifest is unreadable'') else e))) (\<lambda>u.
           bnd (read_json s dl (manifest_path i) ''source manifest'') (\<lambda>d.
           case dl_manifest dl d of
             None \<Rightarrow> raise_exn (bad_source (U ''the source manifest is invalid''))
           | Some m \<Rightarrow> if sm_id m \<noteq> i then raise_exn (bad_source (U ''the source manifest names a different source''))
                       else ret m)))"

text \<open>What a reader is given: name, media type, digest, size and the text if it has one.\<close>

definition get_source_artifact ::
  "'d site \<Rightarrow> doc_lib \<Rightarrow> str \<Rightarrow> int \<Rightarrow> str \<Rightarrow> (str \<times> str \<times> str \<times> nat \<times> str option) act" where
  "get_source_artifact s dl i n name =
     bnd (get_source s dl i) (\<lambda>m.
     case (case find (\<lambda>r. fst r = n) (sm_revisions m) of None \<Rightarrow> None
           | Some r \<Rightarrow> find (\<lambda>(nm, a). nm = name) (snd r)) of
       None \<Rightarrow> raise_exn (Typed (ArtifactNotFound i n name))
     | Some (nm, mime, sha, sz) \<Rightarrow>
         bnd (stored_artifact_bytes s dl i n name (U ''the source artifact is unreadable: '' @ name)) (\<lambda>data.
         if length data \<noteq> sz \<or> dl_sha dl data \<noteq> sha
         then raise_exn (bad_source (U ''the source artifact failed verification: '' @ path_name name))
         else ret (nm, mime, sha, sz, artifact_text (casefold (st_uc s)) decode data mime)))"

end
