(* ===== verification/SourceIngest.thy ===== *)
theory SourceIngest
  imports Sources
begin

text \<open>
  The ingest of \<open>coppermind_store/sources.py\<close>: a new source with its note, a replay, a new revision.
\<close>

record ingest_result =
  ir_source :: str
  ir_revision :: int
  ir_created :: bool
  ir_unstored :: "str list"
  ir_note :: str
  ir_note_path :: str
  ir_note_created :: bool
  ir_projection :: str

section \<open>The note a source belongs to\<close>

type_synonym snapshot = "bytes \<times> fmap \<times> str \<times> int"

definition linked_rows :: "str \<Rightarrow> pyval \<Rightarrow> db \<Rightarrow> (str \<times> str) list" where
  "linked_rows i original b =
     List.map_filter (\<lambda>(j, r). if (j, i) \<in> set (t_links (db_src b)) \<and> (original = PNone \<or> PStr j = original)
                               then Some (j, r_path r) else None) (db_rows b)"

definition cites_source :: "'d site \<Rightarrow> str \<Rightarrow> pyval \<Rightarrow> fmap \<Rightarrow> str option" where
  "cites_source s i original fm =
     (let note_id = fget fm (role (st_schema s) ''id_key'')
      in if py_in (PStr i) (the_list (fget fm (role (st_schema s) ''sources_key''))) \<and> is_valid_id note_id \<and>
            (original = PNone \<or> note_id = original)
         then Some (text_of (st_objects s) note_id) else None)"

text \<open>One file of the scan: what cannot be read or parsed is passed over.\<close>

definition scan_linked_file :: "'d site \<Rightarrow> str \<Rightarrow> pyval \<Rightarrow> str \<Rightarrow> (str \<times> str \<times> snapshot) option act" where
  "scan_linked_file s i original p =
     catching
       (bnd (read_bytes s p) (\<lambda>data.
        case decode data of None \<Rightarrow> ret None
        | Some text \<Rightarrow> (case parse_text (st_yaml s) text of Inl e \<Rightarrow> ret None
            | Inr (fm, body) \<Rightarrow>
                bnd (disk_step s (lookup_file p n_mtime)) (\<lambda>m.
                ret (map_option (\<lambda>note_id. (note_id, p, (data, fm, body, m))) (cites_source s i original fm))))))
       (\<lambda>e. if is_oserror e then ret None else raise_exn e)"

primrec scan_linked_files :: "'d site \<Rightarrow> str \<Rightarrow> pyval \<Rightarrow> str list \<Rightarrow> (str \<times> str \<times> snapshot) list act" where
  "scan_linked_files s i original [] = ret []"
| "scan_linked_files s i original (p # ps) =
     bnd (scan_linked_file s i original p) (\<lambda>m.
     bnd (scan_linked_files s i original ps) (\<lambda>ms. ret (case m of None \<Rightarrow> ms | Some x \<Rightarrow> x # ms)))"

definition scan_for_linked_note :: "'d site \<Rightarrow> str \<Rightarrow> pyval \<Rightarrow> (str \<times> str \<times> snapshot option) act" where
  "scan_for_linked_note s i original =
     bnd (catching
            (disk_step s (\<lambda>now d. Inr (filter (\<lambda>p. path_suffix p = NOTE_SUFFIX \<and> \<not> below SOURCES p) (map fst (d_names d)), d)))
            (\<lambda>e. raise_exn (notes_unavailable s e))) (\<lambda>ps.
     bnd (scan_linked_files s i original ps) (\<lambda>ms.
     case ms of [(note_id, p, snap)] \<Rightarrow> ret (note_id, p, Some snap)
     | _ \<Rightarrow> raise_exn (plain_error ''the durable source claim does not resolve to exactly one note'')))"

definition linked_note :: "'d site \<Rightarrow> str \<Rightarrow> pyval \<Rightarrow> (str \<times> str \<times> snapshot option) act" where
  "linked_note s i original =
     (if original \<noteq> PNone \<and> \<not> is_valid_id original then raise_exn (plain_error ''invalid original ingest note identity'')
      else bnd (query s (linked_rows i original)) (\<lambda>rows.
        case rows of [(note_id, p)] \<Rightarrow> ret (note_id, p, None) | _ \<Rightarrow> scan_for_linked_note s i original))"

section \<open>Repairing the mirror\<close>

definition text_or_empty :: "objects \<Rightarrow> fmap \<Rightarrow> string \<Rightarrow> str" where
  "text_or_empty ob m k = (case dget m (U k) of None \<Rightarrow> [] | Some v \<Rightarrow> text_of ob v)"

definition ensure_revision :: "'d site \<Rightarrow> doc_lib \<Rightarrow> str \<Rightarrow> pyval \<Rightarrow> unit act" where
  "ensure_revision s dl i v =
     (let d = the_map v; ob = st_objects s; captured = fget d (U ''captured_at'')
      in bnd (of_sum (positive_int (fget d (U ''revision'')) (U ''revision''))) (\<lambda>n.
         bnd (query s (\<lambda>b. map_of (t_revisions (db_src b)) (i, n))) (\<lambda>held.
         bnd (if held \<noteq> None then ret ()
              else bnd (of_sum (manifest_time dl (fget d (U ''ingested_at'')) (U ''ingested_at''))) (\<lambda>at.
                   bnd (if truthy captured then bnd (of_sum (manifest_time dl captured (U ''captured_at''))) (\<lambda>t. ret (Some t))
                        else ret None) (\<lambda>c.
                   add_revision s i n \<lparr>rr_identity = text_or_empty ob d ''content_identity'', rr_ingested = at, rr_captured = c,
                     rr_metadata = (case dget d (U ''metadata'') of None \<Rightarrow> PMap [] | Some v \<Rightarrow> v)\<rparr>))) (\<lambda>u.
         bnd (of_sum (artifact_rows ob dl i n (case dget d (U ''artifacts'') of None \<Rightarrow> PList [] | Some v \<Rightarrow> v))) (\<lambda>rows.
         each_do (\<lambda>a. bnd (query s (\<lambda>b. map_of (t_artifacts (db_src b)) (fst a))) (\<lambda>held.
                      if held \<noteq> None then ret () else add_artifact s a)) rows)))))"

definition ensure_source_mirror :: "'d site \<Rightarrow> doc_lib \<Rightarrow> fmap \<Rightarrow> unit act" where
  "ensure_source_mirror s dl m =
     (let ob = st_objects s; revisions = the_list (fget m (U ''revisions''));
          text = text_or_empty ob
      in case fget m (U ''source_id'') of
        PStr i \<Rightarrow>
          if \<not> is_valid_id (PStr i) \<or> revisions = [] then raise_exn (bad_source (U ''the source manifest is invalid''))
          else bnd (of_sum (positive_int (fget m (U ''current_revision'')) (U ''current_revision''))) (\<lambda>n.
          bnd (of_sum (manifest_revision m n)) (\<lambda>current.
          bnd (of_sum (manifest_time dl (fget (the_map (hd revisions)) (U ''ingested_at'')) (U ''ingested_at''))) (\<lambda>made.
          bnd (of_sum (manifest_time dl (fget current (U ''ingested_at'')) (U ''ingested_at''))) (\<lambda>at.
          bnd (query s (\<lambda>b. map_of (t_sources (db_src b)) i)) (\<lambda>row.
          bnd (if row = None then
                 bnd (query s (\<lambda>b. List.find (\<lambda>(j, r). PStr (so_provider r) = fget m (U ''provider'') \<and>
                                      PStr (so_external r) = fget m (U ''external_source_id'')) (t_sources (db_src b)))) (\<lambda>other.
                 if other \<noteq> None then raise_exn (plain_error ''the source mirror conflicts with the durable external-id claim'')
                 else add_source s i \<lparr>so_provider = text m ''provider'', so_external = text m ''external_source_id'',
                        so_type = text m ''source_type'', so_origin = text m ''origin'', so_current = n,
                        so_identity = text current ''content_identity'', so_created = made, so_updated = at\<rparr> duplicate_key)
               else execute s (on_sources (\<lambda>t. t\<lparr>t_sources := map (\<lambda>(j, r). (j, if j = i then
                        r\<lparr>so_type := text m ''source_type'', so_origin := text m ''origin'', so_current := n,
                          so_identity := text current ''content_identity'', so_updated := at\<rparr> else r)) (t_sources t)\<rparr>))) (\<lambda>u.
          each_do (ensure_revision s dl i) revisions))))))
      | _ \<Rightarrow> raise_exn (bad_source (U ''the source manifest is invalid'')))"

definition ensure_mirror :: "'d site \<Rightarrow> doc_lib \<Rightarrow> fmap \<Rightarrow> str \<Rightarrow> str \<Rightarrow> str \<Rightarrow> snapshot option \<Rightarrow> unit act" where
  "ensure_mirror s dl m i note_id note_path snapshot =
     bnd (ensure_source_mirror s dl m) (\<lambda>u.
     bnd (of_sum (manifest_time dl (fget (the_map (hd (the_list (fget m (U ''revisions''))))) (U ''ingested_at'')) (U ''ingested_at''))) (\<lambda>made.
     bnd (query s (\<lambda>b. row_of b note_id)) (\<lambda>row.
     bnd (if row \<noteq> None then ret ()
          else (case snapshot of None \<Rightarrow> raise_exn (plain_error ''the linked note mirror is incomplete'')
            | Some (data, fm, body, at) \<Rightarrow> add_row s note_id (new_row s note_path (title_of body note_path) fm data at at))) (\<lambda>u.
     bnd (query s (\<lambda>b. (note_id, i) \<in> set (t_links (db_src b)))) (\<lambda>linked.
     if linked then ret () else add_link s note_id i)))))"

section \<open>A new source\<close>

text \<open>The \<open>finally\<close> of \<open>_ingest_new\<close>: the source's directory, then the claim, then the page.\<close>

definition withdraw_ingest :: "'d site \<Rightarrow> str \<Rightarrow> str \<Rightarrow> str option \<Rightarrow> unit act" where
  "withdraw_ingest s i claim projection =
     bnd (remove_tree s (source_path i)) (\<lambda>u.
     finally_do (catching (unlink_missing_ok s claim) (\<lambda>e. raise_exn (sources_unavailable s e)))
       (case projection of None \<Rightarrow> ret ()
        | Some p \<Rightarrow> (case st_resolve s p of None \<Rightarrow> raise_exn PyFault
            | Some f \<Rightarrow> catching (unlink_missing_ok s f) (\<lambda>e. raise_exn (notes_unavailable s e)))))"

definition undoing :: "'d site \<Rightarrow> str \<Rightarrow> str \<Rightarrow> str option \<Rightarrow> 'a act \<Rightarrow> 'a act" where
  "undoing s i claim projection m =
     catching m (\<lambda>e. bnd (withdraw_ingest s i claim projection) (\<lambda>u. raise_exn (sources_unavailable s e)))"

definition write_artifacts :: "'d site \<Rightarrow> str \<Rightarrow> int \<Rightarrow> incoming_artifact list \<Rightarrow> unit act" where
  "write_artifacts s i n arts = each_do (\<lambda>a. create_exclusive s (path_join (revision_path i n) (in_name a)) (in_bytes a)) arts"

definition projection_artifacts :: "doc_lib \<Rightarrow> ingest_request \<Rightarrow> (fmap \<times> bytes) list" where
  "projection_artifacts dl q = map (\<lambda>a. (artifact_meta dl a, in_bytes a)) (iq_artifacts q)"

definition mirror_new_source ::
  "'d site \<Rightarrow> doc_lib \<Rightarrow> ingest_request \<Rightarrow> str \<Rightarrow> str \<Rightarrow> str \<Rightarrow> int \<Rightarrow> row \<Rightarrow> unit act" where
  "mirror_new_source s dl q identity i note_id now r =
     bnd (add_source s i \<lparr>so_provider = iq_provider q, so_external = iq_external q, so_type = iq_type q,
            so_origin = iq_origin q, so_current = 1, so_identity = identity, so_created = now, so_updated = now\<rparr>
            (Typed (SourceClaimMissing (iq_provider q) (iq_external q)))) (\<lambda>u.
     bnd (add_revision s i 1 \<lparr>rr_identity = identity, rr_ingested = now, rr_captured = map_option fst (iq_captured q),
            rr_metadata = PMap (json_map (st_objects s) (iq_metadata q))\<rparr>) (\<lambda>u.
     bnd (add_row s note_id r) (\<lambda>u.
     bnd (add_link s note_id i) (\<lambda>u.
     bnd (of_sum (artifact_rows (st_objects s) dl i 1 (PList (map PMap (artifact_metas dl q))))) (\<lambda>rows.
     each_do (add_artifact s) rows)))))"

definition new_note_body :: "ingest_request \<Rightarrow> str \<Rightarrow> str" where
  "new_note_body q projection =
     U ''# '' @ iq_title q @ newline @ newline @ U ''[['' @ removesuffix projection NOTE_SUFFIX @ U '']]'' @ newline @
     lstrip_by (\<lambda>c. c = 10) (iq_body q)"

definition begin_source ::
  "'d site \<Rightarrow> doc_lib \<Rightarrow> ingest_request \<Rightarrow> str \<Rightarrow> str \<Rightarrow> str \<Rightarrow> int \<Rightarrow> fmap \<Rightarrow> str \<Rightarrow> (str \<times> bool \<times> bytes) act" where
  "begin_source s dl q identity i note_id now fm relative =
     bnd (now_at s) (\<lambda>later.
     bnd (new_projection_path s (iq_title q)
            (case note_date fm (st_schema s) of Some d \<Rightarrow> d | None \<Rightarrow> fst (st_local s later))) (\<lambda>projection.
     bnd (encoded (compose (st_yaml s) fm (new_note_body q projection))) (\<lambda>data.
     bnd (mirror_new_source s dl q identity i note_id now (new_row s relative (iq_title q) fm data now now)) (\<lambda>u.
     bnd (disk_step s (make_folder True (revision_path i 1))) (\<lambda>u.
     bnd (write_artifacts s i 1 (iq_artifacts q)) (\<lambda>u.
     bnd (catching (write_projection s dl i 1 (iq_title q) now (projection_artifacts dl q) projection)
            (\<lambda>e. raise_exn (case e of Typed (ProjectionNotPlaced a b c) \<Rightarrow> Typed (PathCollision projection) | _ \<Rightarrow> e))) (\<lambda>created.
     ret (projection, created, data))))))))"

definition place_source ::
  "'d site \<Rightarrow> doc_lib \<Rightarrow> ingest_request \<Rightarrow> str \<Rightarrow> str \<Rightarrow> str \<Rightarrow> int \<Rightarrow> str \<Rightarrow> str \<Rightarrow> str \<Rightarrow> bytes \<Rightarrow> unit act" where
  "place_source s dl q identity i note_id now projection relative file data =
     bnd (create_exclusive s (manifest_path i)
       (dl_text dl (PMap (manifest_document (st_objects s) dl q i now identity (artifact_metas dl q) projection note_id)))) (\<lambda>u.
     catching (create_exclusive s file data)
       (\<lambda>e. raise_exn (if e = FileExists then Typed (PathCollision relative) else notes_unavailable s e)))"

definition ingest_frontmatter :: "'d site \<Rightarrow> ingest_request \<Rightarrow> str \<Rightarrow> str \<Rightarrow> int \<Rightarrow> fmap" where
  "ingest_frontmatter s q i note_id now =
     (let sc = st_schema s
      in build_frontmatter (st_objects s)
           (dict_set (dict_set (iq_frontmatter q) (role sc ''sources_key'') (PList [PStr i])) (role sc ''reviewed_key'') (PBool False))
           sc (st_local s now) (map_option (\<lambda>c. st_local s (fst c)) (iq_captured q)) True note_id)"

definition demand_ingestible :: "'d site \<Rightarrow> ingest_request \<Rightarrow> fmap \<Rightarrow> unit act" where
  "demand_ingestible s q fm =
     (let bad = validate_frontmatter (st_schema s) fm
      in case tag_problems (st_schema s) fm None of
           TagTypeError \<Rightarrow> raise_exn PyFault
         | TagProblems ts \<Rightarrow> if bad = [] \<and> ts = [] then ret ()
             else bnd (record_rejection s q ''validation_error'') (\<lambda>u. raise_exn (Refused (FrontmatterRefused bad ts))))"

definition ingest_new :: "'d site \<Rightarrow> doc_lib \<Rightarrow> ingest_request \<Rightarrow> str \<Rightarrow> str \<Rightarrow> ingest_result act" where
  "ingest_new s dl q identity claim =
     bnd (\<lambda>w. (Inr (dl_source_id dl (w_tick w), st_new_id s (w_tick w)), w)) (\<lambda>(i, note_id).
     bnd (now_at s) (\<lambda>now.
     (let fm = ingest_frontmatter s q i note_id now; ns = ps_notes (st_settings s); uc = st_uc s;
          folder = sanitize_folder uc (ns_review_folder ns)
      in bnd (demand_ingestible s q fm) (\<lambda>u.
         case st_resolve s folder of None \<Rightarrow> raise_exn PyFault
         | Some real \<Rightarrow>
            bnd (existing_stems s real) (\<lambda>taken.
            bnd (free_stem s (stem_for uc (iq_title q) fm (st_schema s) ns) taken) (\<lambda>stem.
            (let relative = path_join folder (stem @ NOTE_SUFFIX); file = path_join real (stem @ NOTE_SUFFIX)
             in bnd (query s (holder_of relative)) (\<lambda>holder.
                bnd (demand (holder = None) (Typed (PathCollision relative))) (\<lambda>u.
                bnd (catching (create_exclusive s claim (dl_text dl (PMap (claim_document q i))))
                       (\<lambda>e. raise_exn (sources_unavailable s e))) (\<lambda>u.
                bnd (undoing s i claim None (begin_source s dl q identity i note_id now fm relative)) (\<lambda>(projection, created, data).
                bnd (undoing s i claim (if created then Some projection else None)
                       (place_source s dl q identity i note_id now projection relative file data)) (\<lambda>u.
                ret \<lparr>ir_source = i, ir_revision = 1, ir_created = True, ir_unstored = [], ir_note = note_id,
                     ir_note_path = relative, ir_note_created = True, ir_projection = projection\<rparr>))))))))))))"

section \<open>A replay\<close>

definition save_manifest :: "'d site \<Rightarrow> doc_lib \<Rightarrow> str \<Rightarrow> fmap \<Rightarrow> unit act" where
  "save_manifest s dl i m =
     bnd (stage s (manifest_path i) (dl_text dl (PMap m))) (\<lambda>tmp. replace_temp s tmp (manifest_path i))"

text \<open>The title and the day of the note's row; a row without a title names no page.\<close>

definition new_page_for :: "'d site \<Rightarrow> row \<Rightarrow> str act" where
  "new_page_for s r =
     bnd (now_at s) (\<lambda>now.
     case r_title r of None \<Rightarrow> raise_exn PyFault
     | Some t \<Rightarrow> new_projection_path s t (case mc_date (r_cols r) of Some d \<Rightarrow> d | None \<Rightarrow> fst (st_local s now)))"

definition title_text :: "row \<Rightarrow> str" where
  "title_text r = (case r_title r of None \<Rightarrow> U ''None'' | Some t \<Rightarrow> t)"

text \<open>The page brought back when it is gone or shows another revision: where it is, and whether it was made.\<close>

definition restore_page ::
  "'d site \<Rightarrow> doc_lib \<Rightarrow> str \<Rightarrow> int \<Rightarrow> fmap \<Rightarrow> fmap list \<Rightarrow> str \<Rightarrow> str \<Rightarrow> (str \<times> bool) act" where
  "restore_page s dl i n current arts note_id recorded =
     bnd (projection_revision s recorded i) (\<lambda>held.
     (let page = (if held = None then [] else recorded)
      in if held = Some n then ret (page, False)
         else bnd (query s (\<lambda>b. row_of b note_id)) (\<lambda>row.
           case row of None \<Rightarrow> raise_exn (plain_error ''the linked note mirror is incomplete'')
           | Some r \<Rightarrow>
              bnd (if page \<noteq> [] then ret page else new_page_for s r) (\<lambda>page.
              bnd (of_sum (manifest_time dl (fget current (U ''ingested_at'')) (U ''ingested_at''))) (\<lambda>at.
              bnd (read_artifacts s dl i n arts) (\<lambda>contents.
              bnd (write_projection s dl i n (title_text r) at contents page) (\<lambda>created.
              ret (page, created))))))))"

definition replay ::
  "'d site \<Rightarrow> doc_lib \<Rightarrow> ingest_request \<Rightarrow> str \<Rightarrow> fmap \<Rightarrow> int \<Rightarrow> fmap \<Rightarrow> fmap list \<Rightarrow> str \<Rightarrow> str \<Rightarrow> ingest_result act" where
  "replay s dl q i m n current arts note_id note_path =
     bnd (restore_page s dl i n current arts note_id (case fget m (U ''projection_path'') of PStr p \<Rightarrow> p | _ \<Rightarrow> [])) (\<lambda>(page, created).
     bnd (if py_eq (fget m (U ''projection_path'')) (PStr page) then ret ()
          else bnd (catching (save_manifest s dl i (dict_set m (U ''projection_path'') (PStr page)))
                 (\<lambda>e. if \<not> is_oserror e then raise_exn e
                      else bnd (if \<not> created then ret ()
                                else (case st_resolve s page of None \<Rightarrow> raise_exn PyFault
                                  | Some f \<Rightarrow> catching (unlink_missing_ok s f) (\<lambda>e. raise_exn (notes_unavailable s e)))) (\<lambda>u.
                           raise_exn (sources_unavailable s e)))) (\<lambda>u.
               catching (sync_folder s (manifest_path i)) (\<lambda>e. raise_exn (sources_unavailable s e)))) (\<lambda>u.
     ret \<lparr>ir_source = i, ir_revision = n, ir_created = False,
          ir_unstored = descriptive_differences (st_objects s) dl q m current (artifact_metas dl q), ir_note = note_id,
          ir_note_path = note_path, ir_note_created = False, ir_projection = page\<rparr>))"

section \<open>A new revision\<close>

text \<open>The steps before the manifest names the revision.\<close>

definition store_revision ::
  "'d site \<Rightarrow> doc_lib \<Rightarrow> ingest_request \<Rightarrow> str \<Rightarrow> str \<Rightarrow> fmap \<Rightarrow> int \<Rightarrow> int \<Rightarrow> str \<Rightarrow> (str \<times> row) act" where
  "store_revision s dl q identity i m n now note_id =
     bnd (write_artifacts s i n (iq_artifacts q)) (\<lambda>u.
     bnd (query s (\<lambda>b. row_of b note_id)) (\<lambda>row.
     case row of None \<Rightarrow> raise_exn (plain_error ''the linked note mirror is incomplete'')
     | Some r \<Rightarrow>
        bnd (case fget m (U ''projection_path'') of
               PStr p \<Rightarrow> bnd (projection_revision s p i) (\<lambda>held. ret (if held = None then None else Some p))
             | _ \<Rightarrow> ret None) (\<lambda>kept.
        bnd (case kept of Some p \<Rightarrow> ret p | None \<Rightarrow> new_page_for s r) (\<lambda>page.
        bnd (save_manifest s dl i (manifest_with_revision m q n
               (revision_document (st_objects s) dl q n now identity (artifact_metas dl q)) page)) (\<lambda>u.
        ret (page, r))))))"

definition mirror_revision :: "'d site \<Rightarrow> doc_lib \<Rightarrow> ingest_request \<Rightarrow> str \<Rightarrow> str \<Rightarrow> int \<Rightarrow> int \<Rightarrow> unit act" where
  "mirror_revision s dl q identity i n now =
     bnd (query s (\<lambda>b. map_of (t_sources (db_src b)) i)) (\<lambda>row.
     bnd (demand (row \<noteq> None) (plain_error ''the source mirror could not be rebuilt'')) (\<lambda>u.
     bnd (execute s (on_sources (\<lambda>t. t\<lparr>t_sources := map (\<lambda>(j, r). (j, if j = i then
            r\<lparr>so_type := iq_type q, so_origin := iq_origin q, so_current := n, so_identity := identity, so_updated := now\<rparr>
            else r)) (t_sources t)\<rparr>))) (\<lambda>u.
     bnd (add_revision s i n \<lparr>rr_identity = identity, rr_ingested = now, rr_captured = map_option fst (iq_captured q),
            rr_metadata = PMap (json_map (st_objects s) (iq_metadata q))\<rparr>) (\<lambda>u.
     bnd (of_sum (artifact_rows (st_objects s) dl i n (PList (map PMap (artifact_metas dl q))))) (\<lambda>rows.
     each_do (add_artifact s) rows)))))"

definition revise ::
  "'d site \<Rightarrow> doc_lib \<Rightarrow> ingest_request \<Rightarrow> str \<Rightarrow> str \<Rightarrow> fmap \<Rightarrow> int \<Rightarrow> str \<Rightarrow> str \<Rightarrow> ingest_result act" where
  "revise s dl q identity i m n note_id note_path =
     bnd (now_at s) (\<lambda>now.
     bnd (catching (disk_step s (make_folder False (revision_path i n)))
            (\<lambda>e. raise_exn (if e = FileExists then Typed (IncompleteRevision (i @ U ''/'' @ path_name (revision_path i n)))
                            else sources_unavailable s e))) (\<lambda>u.
     bnd (catching (store_revision s dl q identity i m n now note_id)
            (\<lambda>e. bnd (remove_tree s (revision_path i n)) (\<lambda>u. raise_exn (sources_unavailable s e)))) (\<lambda>(page, r).
     bnd (catching (bnd (sync_folder s (manifest_path i)) (\<lambda>u.
              write_projection s dl i n (title_text r) now (projection_artifacts dl q) page))
            (\<lambda>e. raise_exn (sources_unavailable s e))) (\<lambda>created.
     bnd (mirror_revision s dl q identity i n now) (\<lambda>u.
     ret \<lparr>ir_source = i, ir_revision = n, ir_created = True, ir_unstored = [], ir_note = note_id,
          ir_note_path = note_path, ir_note_created = False, ir_projection = page\<rparr>)))))"

definition ingest_existing :: "'d site \<Rightarrow> doc_lib \<Rightarrow> ingest_request \<Rightarrow> str \<Rightarrow> bytes \<Rightarrow> ingest_result act" where
  "ingest_existing s dl q identity claim_data =
     bnd (of_sum (claimed_source dl claim_data q)) (\<lambda>i.
     bnd (read_json s dl (manifest_path i) ''source manifest'') (\<lambda>m.
     bnd (demand (fget m (U ''source_id'') = PStr i \<and> fget m (U ''provider'') = PStr (iq_provider q) \<and>
                  fget m (U ''external_source_id'') = PStr (iq_external q))
            (plain_error ''the external-id claim and source manifest disagree'')) (\<lambda>u.
     bnd (of_sum (positive_int (fget m (U ''current_revision'')) (U ''current_revision''))) (\<lambda>n.
     bnd (of_sum (manifest_revision m n)) (\<lambda>current.
     bnd (of_sum (manifest_artifacts current)) (\<lambda>arts.
     bnd (of_sum (content_identity dl (pairs_of (st_objects s) arts))) (\<lambda>held.
     bnd (if held = identity then verify_artifacts s dl i n arts else ret ()) (\<lambda>u.
     bnd (linked_note s i (fget m (U ''note_id''))) (\<lambda>(note_id, note_path, snapshot).
     bnd (ensure_mirror s dl m i note_id note_path snapshot) (\<lambda>u.
     if held = identity then replay s dl q i m n current arts note_id note_path
     else revise s dl q identity i m (n + 1) note_id note_path))))))))))"

section \<open>An ingest\<close>

definition read_claim :: "'d site \<Rightarrow> str \<Rightarrow> bytes option act" where
  "read_claim s claim =
     catching (bnd (read_bytes s claim) (\<lambda>d. ret (Some d)))
       (\<lambda>e. if e = FileMissing then ret None else raise_exn (sources_unavailable s e))"

definition ingest :: "'d site \<Rightarrow> doc_lib \<Rightarrow> ingest_request \<Rightarrow> nat option \<Rightarrow> ingest_result act" where
  "ingest s dl q sent =
     (let limit = ls_ingest_max_bytes (ps_limits (st_settings s));
          given = (case sent of None \<Rightarrow> 0 | Some n \<Rightarrow> n)
      in if int (max (iq_size q) given) > limit
         then bnd (record_rejection s q ''payload_too_large'') (\<lambda>u. raise_exn (Typed (PayloadTooLarge limit)))
         else bnd (of_sum (content_identity dl (pairs_of (st_objects s) (artifact_metas dl q)))) (\<lambda>identity.
              bnd (of_sum (claim_path dl (iq_provider q) (iq_external q))) (\<lambda>claim.
              catching
                (transaction s
                  (bnd (query s (\<lambda>b. ())) (\<lambda>u.
                   bnd (read_claim s claim) (\<lambda>data.
                   case data of None \<Rightarrow> ingest_new s dl q identity claim
                   | Some d \<Rightarrow> ingest_existing s dl q identity d))))
                (typed_db s))))"

end
