(* ===== verification/SourceSafety.thy ===== *)
theory SourceSafety
  imports SourceIngest NoteSafety
begin

text \<open>
  Triples for actions, read on the disk: \<open>triple P m Q E\<close> says that an action begun on a disk with \<open>P\<close>
  ends on one with \<open>Q\<close> of its result, or with \<open>E\<close> of its exception, for every failing step and whatever the
  others do meanwhile.  With them: an ingest leaves every file that was there as it was, but for the
  manifest and the page of its own source.
\<close>

section \<open>Triples\<close>

definition triple :: "(fsys \<Rightarrow> bool) \<Rightarrow> 'a act \<Rightarrow> ('a \<Rightarrow> fsys \<Rightarrow> bool) \<Rightarrow> (exn \<Rightarrow> fsys \<Rightarrow> bool) \<Rightarrow> bool" where
  "triple P m Q E \<longleftrightarrow> (\<forall>w r w'. m w = (r, w') \<longrightarrow> P (w_disk w) \<longrightarrow>
     (case r of Inl e \<Rightarrow> E e (w_disk w') | Inr x \<Rightarrow> Q x (w_disk w')))"

abbreviation keeps :: "(fsys \<Rightarrow> bool) \<Rightarrow> 'a act \<Rightarrow> bool" where
  "keeps P m \<equiv> triple P m (\<lambda>x. P) (\<lambda>e. P)"

text \<open>What the others leave as it is.\<close>

definition lasting :: "'d site \<Rightarrow> (fsys \<Rightarrow> bool) \<Rightarrow> bool" where
  "lasting s P \<longleftrightarrow> (\<forall>n d b. P d \<longrightarrow> P (fst (others s n (d, b))))"

named_theorems keeps_intros \<open>actions that keep what holds of the disk\<close>

lemma tripleI:
  "(\<And>w x w'. m w = (Inr x, w') \<Longrightarrow> P (w_disk w) \<Longrightarrow> Q x (w_disk w')) \<Longrightarrow>
   (\<And>w e w'. m w = (Inl e, w') \<Longrightarrow> P (w_disk w) \<Longrightarrow> E e (w_disk w')) \<Longrightarrow> triple P m Q E"
  by (auto simp: triple_def split: sum.splits)

lemma tripleD:
  "triple P m Q E \<Longrightarrow> m w = (Inr x, w') \<Longrightarrow> P (w_disk w) \<Longrightarrow> Q x (w_disk w')"
  "triple P m Q E \<Longrightarrow> m w = (Inl e, w') \<Longrightarrow> P (w_disk w) \<Longrightarrow> E e (w_disk w')"
  by (force simp: triple_def)+

lemma triple_weaken:
  "triple P m Q E \<Longrightarrow> (\<And>d. P' d \<Longrightarrow> P d) \<Longrightarrow> (\<And>x d. Q x d \<Longrightarrow> Q' x d) \<Longrightarrow> (\<And>e d. E e d \<Longrightarrow> E' e d) \<Longrightarrow>
   triple P' m Q' E'"
  by (rule tripleI) (blast dest: tripleD)+

lemma triple_assume: "(\<And>d. P d \<Longrightarrow> triple P m Q E) \<Longrightarrow> triple P m Q E"
  by (rule tripleI) (blast dest: tripleD)+

lemma triple_bnd:
  assumes "triple P m R E" and "\<And>x. triple (R x) (f x) Q E"
  shows "triple P (bnd m f) Q E"
proof (rule tripleI)
  fix w x w' assume b: "bnd m f w = (Inr x, w')" and P: "P (w_disk w)"
  then obtain y w1 where "m w = (Inr y, w1)" "f y w1 = (Inr x, w')"
    by (auto simp: bnd_def split: prod.splits sum.splits)
  with P assms show "Q x (w_disk w')" by (blast dest: tripleD)
next
  fix w e w' assume b: "bnd m f w = (Inl e, w')" and P: "P (w_disk w)"
  then consider "m w = (Inl e, w')" | y w1 where "m w = (Inr y, w1)" "f y w1 = (Inl e, w')"
    by (auto simp: bnd_def split: prod.splits sum.splits)
  then show "E e (w_disk w')" using P assms by cases (blast dest: tripleD)+
qed

lemma triple_catching:
  assumes "triple P m Q R" and "\<And>e. triple (R e) (h e) Q E"
  shows "triple P (catching m h) Q E"
proof (rule tripleI)
  fix w x w' assume b: "catching m h w = (Inr x, w')" and P: "P (w_disk w)"
  then consider "m w = (Inr x, w')" | e w1 where "m w = (Inl e, w1)" "h e w1 = (Inr x, w')"
    by (auto simp: catching_def split: prod.splits sum.splits)
  then show "Q x (w_disk w')" using P assms by cases (blast dest: tripleD)+
next
  fix w e w' assume b: "catching m h w = (Inl e, w')" and P: "P (w_disk w)"
  then obtain e1 w1 where "m w = (Inl e1, w1)" "h e1 w1 = (Inl e, w')"
    by (auto simp: catching_def split: prod.splits sum.splits)
  with P assms show "E e (w_disk w')" by (blast dest: tripleD)
qed

lemma keeps_finally [keeps_intros]:
  assumes "keeps P m" and "keeps P c"
  shows "keeps P (finally_do m c)"
proof -
  have "P (w_disk w')" if b: "finally_do m c w = (r, w')" and P: "P (w_disk w)" for w r w'
  proof -
    obtain r1 w1 where 1: "m w = (r1, w1)" by (cases "m w")
    obtain r2 w2 where 2: "c w1 = (r2, w2)" by (cases "c w1")
    have "P (w_disk w1)" using tripleD [OF assms(1)] 1 P by (cases r1) auto
    then have "P (w_disk w2)" using tripleD [OF assms(2)] 2 by (cases r2) auto
    with b 1 2 show ?thesis by (cases r2) (auto simp: finally_do_def)
  qed
  then show ?thesis by (blast intro: tripleI)
qed

lemma triple_ret: "(\<And>d. P d \<Longrightarrow> Q x d) \<Longrightarrow> triple P (ret x) Q E"
  by (rule tripleI) (auto simp: ret_def)

lemma triple_raise: "(\<And>d. P d \<Longrightarrow> E e d) \<Longrightarrow> triple P (raise_exn e) Q E"
  by (rule tripleI) (auto simp: raise_exn_def)

lemma keeps_seq [keeps_intros]: "keeps P m \<Longrightarrow> (\<And>x. keeps P (f x)) \<Longrightarrow> keeps P (bnd m f)"
  by (rule triple_bnd)

lemma keeps_catching [keeps_intros]: "keeps P m \<Longrightarrow> (\<And>e. keeps P (h e)) \<Longrightarrow> keeps P (catching m h)"
  by (rule triple_catching)

lemma keeps_ret [keeps_intros]: "keeps P (ret x)"
  by (rule triple_ret)

lemma keeps_raise [keeps_intros]: "keeps P (raise_exn e)"
  by (rule triple_raise)

lemma triple_if: "(c \<Longrightarrow> triple P a Q E) \<Longrightarrow> (\<not> c \<Longrightarrow> triple P b Q E) \<Longrightarrow> triple P (if c then a else b) Q E"
  by simp

lemma triple_prod: "(\<And>a b. triple P (f a b) Q E) \<Longrightarrow> triple P (case_prod f x) Q E"
  by (cases x) simp

lemma triple_option: "triple P n Q E \<Longrightarrow> (\<And>a. triple P (f a) Q E) \<Longrightarrow> triple P (case_option n f x) Q E"
  by (cases x) auto

lemma triple_list: "triple P n Q E \<Longrightarrow> (\<And>a as. triple P (f a as) Q E) \<Longrightarrow> triple P (case_list n f x) Q E"
  by (cases x) auto

lemma triple_sum: "(\<And>a. triple P (f a) Q E) \<Longrightarrow> (\<And>a. triple P (g a) Q E) \<Longrightarrow> triple P (case_sum f g x) Q E"
  by (cases x) auto

lemma triple_Let: "triple P (f x) Q E \<Longrightarrow> triple P (Let x f) Q E"
  by simp

lemmas triple_cases = triple_if triple_prod triple_option triple_list triple_sum triple_Let
lemmas keeps_cases [keeps_intros] = triple_cases [where Q = "\<lambda>x. P" and E = "\<lambda>e. P" and P = P for P]

section \<open>Steps\<close>

lemma lasting_tick: "lasting s P \<Longrightarrow> P (w_disk w) \<Longrightarrow> P (w_disk (tick s w))"
  unfolding lasting_def tick_def by (auto split: prod.splits) (metis fst_conv)

lemma triple_disk_step:
  assumes "lasting s P" and "\<And>now d x d'. f now d = Inr (x, d') \<Longrightarrow> P d \<Longrightarrow> Q x d'" and "\<And>e d. P d \<Longrightarrow> E e d"
  shows "triple P (disk_step s f) Q E"
  using lasting_tick [OF assms(1)] assms(2,3)
  by (auto simp: triple_def disk_step_def Let_def split: option.splits sum.splits)

lemma keeps_disk_step:
  assumes "lasting s P" and "\<And>now d x d'. f now d = Inr (x, d') \<Longrightarrow> P d \<Longrightarrow> P d'"
  shows "keeps P (disk_step s f)"
  by (rule triple_disk_step) (use assms in auto)

lemma keeps_look [keeps_intros]: "lasting s P \<Longrightarrow> keeps P (disk_step s (\<lambda>now d. Inr (f now d, d)))"
  by (rule keeps_disk_step) auto

lemma keeps_lookup [keeps_intros]: "lasting s P \<Longrightarrow> keeps P (disk_step s (lookup_file p f))"
  by (rule keeps_disk_step) (auto simp: lookup_file_def split: option.splits)

lemma keeps_own_step: "lasting s P \<Longrightarrow> (\<And>w. w_disk (snd (f w)) = w_disk w) \<Longrightarrow> keeps P (own_step s f)"
  using lasting_tick [of s P] by (auto simp: triple_def own_step_def Let_def split: option.splits)

lemma keeps_query [keeps_intros]: "lasting s P \<Longrightarrow> keeps P (query s f)"
  using lasting_tick [of s P] by (auto simp: triple_def query_def Let_def split: option.splits)

lemma keeps_execute [keeps_intros]: "lasting s P \<Longrightarrow> keeps P (execute s f)"
  using lasting_tick [of s P] by (auto simp: triple_def execute_def execute_with_def Let_def split: option.splits)

lemma keeps_commit [keeps_intros]: "lasting s P \<Longrightarrow> keeps P (commit s)"
  using lasting_tick [of s P] by (auto simp: triple_def commit_def Let_def split: option.splits)

lemma keeps_pure: "(\<And>w. w_disk (snd (m w)) = w_disk w) \<Longrightarrow> keeps P m"
  unfolding triple_def by (metis snd_conv sum.case_eq_if)

lemma keeps_read_world [keeps_intros]: "keeps P (\<lambda>w. (Inr (f w), w))"
  by (rule keeps_pure) simp

lemma keeps_now [keeps_intros]: "keeps P (now_at s)"
  by (rule keeps_pure) (simp add: now_at_def)

lemma keeps_begin [keeps_intros]: "keeps P begin_tx"
  by (rule keeps_pure) (simp add: begin_tx_def)

lemma triple_transaction:
  assumes "lasting s P" and "triple P m Q (\<lambda>e. P)" and "\<And>x d. Q x d \<Longrightarrow> P d" and last: "\<And>x. lasting s (Q x)"
  shows "triple P (transaction s m) Q (\<lambda>e. P)"
proof -
  have c: "triple (Q x) (bnd (commit s) (\<lambda>u. ret x)) Q (\<lambda>e. P)" for x
    by (rule triple_bnd [where R = "\<lambda>u. Q x"])
      (use keeps_commit [OF last [of x]] assms(3) in \<open>auto intro: triple_ret triple_weaken\<close>)
  have "triple P (finish s m) Q (\<lambda>e. P)"
  proof (rule tripleI)
    fix w x w' assume b: "finish s m w = (Inr x, w')" and P: "P (w_disk w)"
    then obtain y w1 where "m w = (Inr y, w1)" "bnd (commit s) (\<lambda>u. ret y) w1 = (Inr x, w')"
      by (auto simp: finish_def split: prod.splits sum.splits)
    with P c assms(2) show "Q x (w_disk w')" by (blast dest: tripleD)
  next
    fix w e w' assume b: "finish s m w = (Inl e, w')" and P: "P (w_disk w)"
    then consider w1 where "m w = (Inl e, w1)" "w_disk w' = w_disk w1"
      | y w1 where "m w = (Inr y, w1)" "bnd (commit s) (\<lambda>u. ret y) w1 = (Inl e, w')"
      by (auto simp: finish_def split: prod.splits sum.splits)
    then show "P (w_disk w')"
    proof cases
      case 1
      then show ?thesis using tripleD(2) [OF assms(2) 1(1) P] by simp
    next
      case 2
      then show ?thesis using tripleD(1) [OF assms(2) 2(1) P] tripleD(2) [OF c 2(2)] by blast
    qed
  qed
  then show ?thesis
    unfolding transaction_def by (rule triple_bnd [OF keeps_begin])
qed

lemma keeps_transaction [keeps_intros]: "lasting s P \<Longrightarrow> keeps P m \<Longrightarrow> keeps P (transaction s m)"
  by (rule triple_transaction) auto

end
