(* ===== verification/SourceLaws.thy ===== *)
theory SourceLaws
  imports SourceSafety
begin

text \<open>
  An ingest leaves alone what was there: every file, but for the manifest of a source and a page the
  program generated, holds after it the bytes it held before.
\<close>

section \<open>A file that is held\<close>

definition held :: "str list \<Rightarrow> str \<Rightarrow> bytes \<Rightarrow> fsys \<Rightarrow> bool" where
  "held F f b d \<longleftrightarrow> wf_fsys d \<and> file_at d f = Some b \<and> set F \<subseteq> set (d_dirs d)"

lemma folder_prefix_below:
  assumes "p \<in> set (folders_of f)"
  shows "below p f"
proof -
  obtain i where i: "1 \<le> i" "i \<le> length (butlast (split_on 47 f))" and p: "p = join (U ''/'') (take i (butlast (split_on 47 f)))"
    using assms by (auto simp: folders_of_def folder_prefixes_def)
  let ?ps = "split_on 47 f"
  have tk: "take i (butlast ?ps) = take i ?ps"
    using i by (simp add: butlast_conv_take)
  have ne: "take i ?ps \<noteq> []" "drop i ?ps \<noteq> []"
    using i by auto
  have slash: "U ''/'' = [47]" by (simp add: U_def)
  have glue: "join [47] (xs @ ys) = join [47] xs @ [47] @ join [47] ys" if "xs \<noteq> []" "ys \<noteq> []" for xs ys :: "str list"
    using that(1)
  proof (induction xs)
    case (Cons a xs)
    then show ?case using that(2) by (cases xs) (auto simp: join_Cons)
  qed simp
  have "f = join [47] (take i ?ps @ drop i ?ps)"
    by (simp add: join_split_on)
  also have "\<dots> = p @ [47] @ join [47] (drop i ?ps)"
    using glue [OF ne] p tk slash by simp
  finally show ?thesis unfolding below_def startswith_iff slash by auto
qed

text \<open>The devices leave the file and its folders alone, and it is no temporary file.\<close>

definition secure :: "'d site \<Rightarrow> str list \<Rightarrow> str \<Rightarrow> bytes \<Rightarrow> bool" where
  "secure s F f b \<longleftrightarrow> lasting s (held F f b) \<and> set F \<subseteq> set (folders_of f) \<and> (\<forall>n p. st_temp s n p \<noteq> f)"

lemma secure_lasting: "secure s F f b \<Longrightarrow> lasting s (held F f b)"
  by (simp add: secure_def)

lemma with_parents_held: "with_parents p d = Inr e \<Longrightarrow> held F f b d \<Longrightarrow> held F f b e"
  using with_parents_result [of p d e f]
  by (auto simp: held_def with_parents_def split: if_splits)

lemma make_file_held:
  assumes "make_file g p data now d = Inr (u, d')" and "held F f b d"
  shows "held F f b d' \<and> p \<noteq> f"
proof -
  from assms(1) obtain e where e: "with_parents g d = Inr e" "\<not> occupied_name e p" "d' = with_file p data now e"
    by (auto simp: make_file_def sbind_Inr_iff split: if_splits)
  have h: "held F f b e" by (rule with_parents_held [OF e(1) assms(2)])
  then have "p \<noteq> f" using e(2) occupied_file [of e f] by (auto simp: held_def)
  then show ?thesis
    using h e by (auto simp: held_def file_at_with_file wf_with_file occupied_name_def)
      (auto simp: with_file_def with_name_def)
qed

lemma triple_create_exclusive:
  "lasting s (held F f b) \<Longrightarrow> triple (held F f b) (create_exclusive s p data) (\<lambda>u d. held F f b d \<and> p \<noteq> f) (\<lambda>e. held F f b)"
  unfolding create_exclusive_def by (rule triple_disk_step) (auto dest: make_file_held)

lemma keeps_create_exclusive [keeps_intros]: "lasting s (held F f b) \<Longrightarrow> keeps (held F f b) (create_exclusive s p data)"
  by (rule triple_weaken [OF triple_create_exclusive]) auto

lemma triple_make_folder:
  assumes "lasting s (held F f b)"
  shows "triple (held F f b) (disk_step s (make_folder parents p)) (\<lambda>u d. held F f b d \<and> p \<notin> set F) (\<lambda>e. held F f b)"
proof (rule triple_disk_step [OF assms])
  fix now d x d'
  assume m: "make_folder parents p now d = Inr (x, d')" and h: "held F f b d"
  from m have "\<not> occupied_name d p" by (auto simp: make_folder_def split: if_splits)
  then have p: "p \<notin> set F" "p \<noteq> f"
    using h occupied_file [of d f] by (auto simp: held_def occupied_name_def)
  have "wf_fsys (e\<lparr>d_dirs := p # d_dirs e\<rparr>)" if "wf_fsys e" "map_of (d_names e) p = None" for e
    using that by (auto simp: wf_fsys_def)
  moreover have "file_at (e\<lparr>d_dirs := x\<rparr>) f = file_at e f" for e x
    by (simp add: file_at_def node_at_def)
  moreover have "map_of (d_names e) p = None" if "with_parents p d = Inr e" for e
    using that \<open>\<not> occupied_name d p\<close> by (auto simp: with_parents_def occupied_name_def split: if_splits)
  ultimately show "held F f b d' \<and> p \<notin> set F"
    using m h p \<open>\<not> occupied_name d p\<close> with_parents_held [of p d _ F f b]
    by (auto simp: make_folder_def sbind_Inr_iff held_def occupied_name_def split: if_splits)
qed auto

lemma unlink_held:
  "p \<noteq> f \<Longrightarrow> held F f b d \<Longrightarrow> held F f b (without_name p d)"
  by (simp add: held_def)

lemma keeps_unlink [keeps_intros]: "lasting s (held F f b) \<Longrightarrow> p \<noteq> f \<Longrightarrow> keeps (held F f b) (unlink s p)"
  unfolding unlink_def by (rule keeps_disk_step) (auto simp: unlink_name_def unlink_held split: option.splits)

lemma keeps_unlink_missing_ok [keeps_intros]:
  "lasting s (held F f b) \<Longrightarrow> p \<noteq> f \<Longrightarrow> keeps (held F f b) (unlink_missing_ok s p)"
  unfolding unlink_missing_ok_def by (rule keeps_disk_step) (auto simp: unlink_held)

lemma keeps_unlink_all: "lasting s (held F f b) \<Longrightarrow> f \<notin> set ps \<Longrightarrow> keeps (held F f b) (unlink_all s ps)"
  by (induction ps) (auto intro!: keeps_intros)

lemma drop_folders_held: "set F \<subseteq> set (folders_of f) \<Longrightarrow> held F f b d \<Longrightarrow> held F f b (drop_folders p d)"
proof -
  assume F: "set F \<subseteq> set (folders_of f)" and h: "held F f b d"
  then have "f \<in> set (map fst (d_names d))"
    by (auto simp: held_def file_at_def node_at_def dest: map_of_SomeD split: option.splits)
       (metis fst_conv imageI map_of_SomeD option.exhaust option.simps(3))
  then have "list_ex (\<lambda>q. below g (fst q)) (d_names d)" if "g \<in> set F" for g
    using folder_prefix_below [of g f] F that by (auto simp: list_ex_iff)
  then show ?thesis
    using h by (auto simp: held_def drop_folders_def wf_fsys_def file_at_def node_at_def)
qed

lemma keeps_remove_tree:
  assumes l: "lasting s (held F f b)" and F: "set F \<subseteq> set (folders_of f)" and "\<not> below p f"
  shows "keeps (held F f b) (remove_tree s p)"
proof -
  have "triple (held F f b) (catching (disk_step s (\<lambda>now d. Inr (filter (below p) (map fst (d_names d)), d))) (\<lambda>e. ret []))
     (\<lambda>ps d. held F f b d \<and> f \<notin> set ps) (\<lambda>e. held F f b)"
    by (rule triple_catching [where R = "\<lambda>e. held F f b"])
      (auto intro!: triple_disk_step [OF l] triple_ret simp: assms(3))
  moreover have "triple (\<lambda>d. held F f b d \<and> f \<notin> set ps)
      (bnd (unlink_all s ps) (\<lambda>u. catching (disk_step s (\<lambda>now d. Inr ((), drop_folders p d))) (\<lambda>e. ret ())))
      (\<lambda>x. held F f b) (\<lambda>e. held F f b)" for ps
    by (rule triple_assume)
      (auto intro!: triple_weaken [of "held F f b" _ "\<lambda>x. held F f b" "\<lambda>e. held F f b"] keeps_intros keeps_unlink_all l
        keeps_disk_step [OF l] drop_folders_held [OF F])
  ultimately show ?thesis
    unfolding remove_tree_def by (rule triple_bnd)
qed

lemma triple_stage:
  assumes "secure s F f b"
  shows "triple (held F f b) (stage s p data) (\<lambda>tmp d. held F f b d \<and> tmp \<noteq> f) (\<lambda>e. held F f b)"
  unfolding stage_def
proof (rule triple_bnd [where R = "\<lambda>tmp d. held F f b d \<and> tmp \<noteq> f"])
  show "triple (held F f b) (\<lambda>w. (Inr (st_temp s (w_tick w) p), w)) (\<lambda>tmp d. held F f b d \<and> tmp \<noteq> f) (\<lambda>e. held F f b)"
    using assms by (auto simp: triple_def secure_def)
next
  fix tmp
  show "triple (\<lambda>d. held F f b d \<and> tmp \<noteq> f) (bnd (disk_step s (make_file p tmp data)) (\<lambda>u. ret tmp))
      (\<lambda>tmp d. held F f b d \<and> tmp \<noteq> f) (\<lambda>e. held F f b)"
    by (rule triple_bnd [where R = "\<lambda>u d. held F f b d \<and> tmp \<noteq> f"])
      (auto intro!: triple_ret triple_weaken [OF triple_disk_step [OF secure_lasting [OF assms], where Q = "\<lambda>u d. held F f b d \<and> tmp \<noteq> f" and E = "\<lambda>e. held F f b"]]
        dest: make_file_held)
qed

lemma rename_held:
  assumes "rename_name a p now d = Inr (u, d')" and "held F f b d" and "a \<noteq> f" and "p \<noteq> f"
  shows "held F f b d'"
proof -
  from assms(1) obtain i where i: "map_of (d_names d) a = Some i" "p \<notin> set (d_dirs d)" "d' = with_name p i (without_name a d)"
    by (auto simp: rename_name_def split: option.splits if_splits)
  with assms(2) have "i < d_fresh d" by (auto simp: held_def wf_fsys_def)
  with i assms show ?thesis
    by (auto simp: held_def file_at_with_name intro!: wf_with_name)
qed

lemma keeps_replace_temp: "lasting s (held F f b) \<Longrightarrow> tmp \<noteq> f \<Longrightarrow> p \<noteq> f \<Longrightarrow> keeps (held F f b) (replace_temp s tmp p)"
  unfolding replace_temp_def by (intro keeps_intros keeps_disk_step) (auto dest: rename_held)

lemma keeps_sync [keeps_intros]: "lasting s P \<Longrightarrow> keeps P (sync_folder s p)"
  unfolding sync_folder_def by (intro keeps_intros)

lemma keeps_commit_temp: "lasting s (held F f b) \<Longrightarrow> tmp \<noteq> f \<Longrightarrow> p \<noteq> f \<Longrightarrow> keeps (held F f b) (commit_temp s tmp p)"
  unfolding commit_temp_def by (intro keeps_intros keeps_replace_temp) auto


section \<open>Operations that only look\<close>

lemma triple_pyval:
  "(v = PNone \<Longrightarrow> triple P a Q E) \<Longrightarrow> (\<And>x. triple P (b x) Q E) \<Longrightarrow> (\<And>x. triple P (c x) Q E) \<Longrightarrow>
   (\<And>x. v = PStr x \<Longrightarrow> triple P (d x) Q E) \<Longrightarrow> (\<And>x. triple P (e x) Q E) \<Longrightarrow> (\<And>x y z u. triple P (g x y z u) Q E) \<Longrightarrow>
   (\<And>x. triple P (h x) Q E) \<Longrightarrow> (\<And>x. triple P (i x) Q E) \<Longrightarrow> (\<And>x. triple P (j x) Q E) \<Longrightarrow>
   triple P (case_pyval a b c d e g h i j v) Q E"
  by (cases v) auto

lemma triple_tags: "triple P a Q E \<Longrightarrow> (\<And>x. triple P (b x) Q E) \<Longrightarrow> triple P (case_tag_outcome a b v) Q E"
  by (cases v) auto

lemmas keeps_values [keeps_intros] = triple_pyval [where Q = "\<lambda>x. P" and E = "\<lambda>e. P" and P = P for P]
  triple_tags [where Q = "\<lambda>x. P" and E = "\<lambda>e. P" and P = P for P]

lemma keeps_of_sum [keeps_intros]: "keeps P (of_sum r)"
  unfolding of_sum_def by (intro keeps_intros)

lemma keeps_encoded [keeps_intros]: "keeps P (encoded t)"
  unfolding encoded_def by (intro keeps_intros)

lemma keeps_demand [keeps_intros]: "keeps P (demand ok e)"
  unfolding demand_def by (intro keeps_intros)

lemma keeps_free_stem [keeps_intros]: "keeps P (free_stem s t taken)"
  unfolding free_stem_def by (intro keeps_intros)

lemma keeps_each_do: "(\<And>x. x \<in> set xs \<Longrightarrow> keeps P (f x)) \<Longrightarrow> keeps P (each_do f xs)"
  by (induction xs) (auto intro!: keeps_intros)

lemma keeps_existing_stems [keeps_intros]: "lasting s P \<Longrightarrow> keeps P (existing_stems s p)"
  unfolding existing_stems_def by (intro keeps_intros)

lemma keeps_insert_new [keeps_intros]: "lasting s P \<Longrightarrow> keeps P (insert_new s taken f)"
  unfolding insert_new_def by (intro keeps_intros)

lemma keeps_add_source [keeps_intros]: "lasting s P \<Longrightarrow> keeps P (add_source s i r e)"
  unfolding add_source_def by (intro keeps_intros)

lemma keeps_add_revision [keeps_intros]: "lasting s P \<Longrightarrow> keeps P (add_revision s i n r)"
  unfolding add_revision_def by (intro keeps_intros)

lemma keeps_add_artifact [keeps_intros]: "lasting s P \<Longrightarrow> keeps P (add_artifact s a)"
  unfolding add_artifact_def by (intro keeps_intros)

lemma keeps_add_link [keeps_intros]: "lasting s P \<Longrightarrow> keeps P (add_link s j i)"
  unfolding add_link_def by (intro keeps_intros)

lemma keeps_add_row [keeps_intros]: "lasting s P \<Longrightarrow> keeps P (add_row s i r)"
  unfolding add_row_def by (intro keeps_intros)

lemma keeps_read_bytes [keeps_intros]: "lasting s P \<Longrightarrow> keeps P (read_bytes s p)"
  unfolding read_bytes_def by (rule keeps_disk_step) (auto split: option.splits)

lemma keeps_read_json [keeps_intros]: "lasting s P \<Longrightarrow> keeps P (read_json s dl p label)"
  unfolding read_json_def by (intro keeps_intros)

lemma keeps_artifact_bytes [keeps_intros]: "lasting s P \<Longrightarrow> keeps P (stored_artifact_bytes s dl i n name m)"
  unfolding stored_artifact_bytes_def by (intro keeps_intros)

lemma keeps_verify_artifact [keeps_intros]: "lasting s P \<Longrightarrow> keeps P (verify_artifact s dl i n a)"
  unfolding verify_artifact_def by (intro keeps_intros)

lemma keeps_verify_artifacts [keeps_intros]: "lasting s P \<Longrightarrow> keeps P (verify_artifacts s dl i n as)"
  unfolding verify_artifacts_def by (intro keeps_intros keeps_each_do)

lemma keeps_read_artifacts [keeps_intros]: "lasting s P \<Longrightarrow> keeps P (read_artifacts s dl i n as)"
  by (induction as) (auto intro!: keeps_intros)

lemma keeps_write_rejection [keeps_intros]: "lasting s P \<Longrightarrow> keeps P (write_rejection s a b)"
  unfolding write_rejection_def by (intro keeps_intros keeps_own_step) simp_all

lemma keeps_separately [keeps_intros]:
  assumes "lasting s P" and "keeps P m"
  shows "keeps P (separately s m)"
  using keeps_transaction [OF assms] unfolding separately_def triple_def
  by (auto split: prod.splits)

lemma keeps_mirror_rejection [keeps_intros]: "lasting s P \<Longrightarrow> keeps P (mirror_rejection s r)"
  unfolding mirror_rejection_def by (intro keeps_intros)

lemma keeps_record_rejection [keeps_intros]: "lasting s P \<Longrightarrow> keeps P (record_rejection s q t)"
  unfolding record_rejection_def by (intro keeps_intros)

lemma keeps_typed_db [keeps_intros]: "lasting s P \<Longrightarrow> keeps P (typed_db s e)"
  unfolding typed_db_def by (intro keeps_intros)

lemma keeps_projection_revision [keeps_intros]: "lasting s P \<Longrightarrow> keeps P (projection_revision s rel i)"
  unfolding projection_revision_def by (intro keeps_intros)

lemma keeps_new_projection_path [keeps_intros]: "lasting s P \<Longrightarrow> keeps P (new_projection_path s t day)"
  unfolding new_projection_path_def by (intro keeps_intros)

lemma keeps_scan_linked_file [keeps_intros]: "lasting s P \<Longrightarrow> keeps P (scan_linked_file s i j p)"
  unfolding scan_linked_file_def by (intro keeps_intros)

lemma keeps_scan_linked_files [keeps_intros]: "lasting s P \<Longrightarrow> keeps P (scan_linked_files s i j ps)"
  by (induction ps) (auto intro!: keeps_intros)

lemma keeps_scan_for_linked_note [keeps_intros]: "lasting s P \<Longrightarrow> keeps P (scan_for_linked_note s i j)"
  unfolding scan_for_linked_note_def by (intro keeps_intros)

lemma keeps_linked_note [keeps_intros]: "lasting s P \<Longrightarrow> keeps P (linked_note s i j)"
  unfolding linked_note_def by (intro keeps_intros)

lemma keeps_ensure_revision [keeps_intros]: "lasting s P \<Longrightarrow> keeps P (ensure_revision s dl i v)"
  unfolding ensure_revision_def by (intro keeps_intros keeps_each_do)

lemma keeps_ensure_source_mirror [keeps_intros]: "lasting s P \<Longrightarrow> keeps P (ensure_source_mirror s dl m)"
  unfolding ensure_source_mirror_def by (intro keeps_intros keeps_each_do)

lemma keeps_ensure_mirror [keeps_intros]: "lasting s P \<Longrightarrow> keeps P (ensure_mirror s dl m i j p snap)"
  unfolding ensure_mirror_def by (intro keeps_intros)

lemma keeps_mirror_new_source [keeps_intros]: "lasting s P \<Longrightarrow> keeps P (mirror_new_source s dl q ident i j now r)"
  unfolding mirror_new_source_def by (intro keeps_intros keeps_each_do)

lemma keeps_mirror_revision [keeps_intros]: "lasting s P \<Longrightarrow> keeps P (mirror_revision s dl q ident i n now)"
  unfolding mirror_revision_def by (intro keeps_intros keeps_each_do)

lemma keeps_demand_ingestible [keeps_intros]: "lasting s P \<Longrightarrow> keeps P (demand_ingestible s q fm)"
  unfolding demand_ingestible_def by (intro keeps_intros)

lemma keeps_new_page_for [keeps_intros]: "lasting s P \<Longrightarrow> keeps P (new_page_for s r)"
  unfolding new_page_for_def by (intro keeps_intros)

lemma keeps_read_claim [keeps_intros]: "lasting s P \<Longrightarrow> keeps P (read_claim s c)"
  unfolding read_claim_def by (intro keeps_intros)

section \<open>The steps that write\<close>

lemma split_on_glue: "split_on c (p @ c # t) = split_on c p @ split_on c t"
  by (induction p) (auto split: list.splits)

lemma below_prefix: "below p f \<Longrightarrow> p \<in> set (folders_of f)"
proof -
  assume "below p f"
  then obtain t where f: "f = p @ 47 # t"
    by (auto simp: below_def startswith_iff U_def)
  let ?n = "length (split_on 47 p)"
  have n: "1 \<le> ?n" by (simp add: Suc_le_eq)
  have "split_on 47 f = split_on 47 p @ split_on 47 t"
    unfolding f by (rule split_on_glue)
  then have b: "butlast (split_on 47 f) = split_on 47 p @ butlast (split_on 47 t)"
    by (simp add: butlast_append)
  have "p = join (U ''/'') (take ?n (butlast (split_on 47 f)))"
    unfolding b by (simp add: join_split_on U_def)
  moreover have "?n \<le> length (butlast (split_on 47 f))"
    unfolding b by simp
  ultimately show ?thesis
    unfolding folders_of_def folder_prefixes_def using n by (auto intro!: image_eqI [where x = ?n])
qed

text \<open>A file no ingest is about: no manifest, not below the directory of an identifier still to be drawn, and,
  where a page could stand, no page the program generated; its name is no link and none links to it.\<close>

definition ordinary :: "'d site \<Rightarrow> str list \<Rightarrow> str \<Rightarrow> bytes \<Rightarrow> bool" where
  "ordinary s F f b \<longleftrightarrow> secure s F f b \<and> (\<forall>i. is_valid_id (PStr i) \<longrightarrow> manifest_path i \<noteq> f) \<and>
     (\<forall>rel. st_resolve s rel = Some f \<longleftrightarrow> page_path s rel = Some f) \<and>
     (\<forall>rel i. page_path s rel = Some f \<longrightarrow> page_revision s i b = None)"

definition unclaimed :: "'d site \<Rightarrow> doc_lib \<Rightarrow> str \<Rightarrow> bytes \<Rightarrow> bool" where
  "unclaimed s dl f b \<longleftrightarrow> ordinary s (folders_of f) f b \<and>
     (\<forall>n. is_valid_id (PStr (dl_source_id dl n)) \<and> \<not> below (source_path (dl_source_id dl n)) f)"

lemma ordinary_lasting: "ordinary s F f b \<Longrightarrow> lasting s (held F f b)"
  by (simp add: ordinary_def secure_def)

lemma ordinary_folders: "ordinary s F f b \<Longrightarrow> set F \<subseteq> set (folders_of f)"
  by (simp add: ordinary_def secure_def)

lemma keeps_write_artifacts [keeps_intros]:
  "lasting s (held F f b) \<Longrightarrow> keeps (held F f b) (write_artifacts s i n as)"
  unfolding write_artifacts_def by (intro keeps_intros keeps_each_do)

lemma triple_projection_revision:
  assumes l: "lasting s (held F f b)" and "\<And>i. st_resolve s rel = Some f \<Longrightarrow> page_revision s i b = None"
  shows "triple (held F f b) (projection_revision s rel i) (\<lambda>r d. held F f b d \<and> (st_resolve s rel = Some f \<longrightarrow> r = None)) (\<lambda>e. held F f b)"
proof -
  have "triple (held F f b) (bnd (catching (disk_step s (\<lambda>now d. Inr (file_at d p, d))) (\<lambda>e. raise_exn (notes_unavailable s e)))
      (\<lambda>data. ret (case data of None \<Rightarrow> None | Some b \<Rightarrow> page_revision s i b)))
      (\<lambda>r d. held F f b d \<and> (st_resolve s rel = Some f \<longrightarrow> r = None)) (\<lambda>e. held F f b)"
    if "st_resolve s rel = Some p" for p
  proof (rule triple_bnd [where R = "\<lambda>data d. held F f b d \<and> (p = f \<longrightarrow> data = Some b)"])
    show "triple (held F f b) (catching (disk_step s (\<lambda>now d. Inr (file_at d p, d))) (\<lambda>e. raise_exn (notes_unavailable s e)))
        (\<lambda>data d. held F f b d \<and> (p = f \<longrightarrow> data = Some b)) (\<lambda>e. held F f b)"
      by (rule triple_catching [where R = "\<lambda>e. held F f b"]) (auto intro!: triple_disk_step [OF l] triple_raise simp: held_def)
  next
    fix data
    show "triple (\<lambda>d. held F f b d \<and> (p = f \<longrightarrow> data = Some b)) (ret (case data of None \<Rightarrow> None | Some b \<Rightarrow> page_revision s i b))
        (\<lambda>r d. held F f b d \<and> (st_resolve s rel = Some f \<longrightarrow> r = None)) (\<lambda>e. held F f b)"
      by (rule triple_ret) (use that assms(2) in auto)
  qed
  then show ?thesis
    unfolding projection_revision_def by (auto split: option.splits intro: triple_ret)
qed

lemma keeps_replace_projection:
  assumes u: "ordinary s F f b" and p: "page_path s rel = Some page"
  shows "keeps (held F f b) (replace_projection s page data i n rel)"
  unfolding replace_projection_def
proof (rule triple_bnd [OF triple_stage])
  show "secure s F f b" using u by (simp add: ordinary_def)
  note l = ordinary_lasting [OF u]
  have link: "st_resolve s rel = Some f \<longleftrightarrow> page = f" and gen: "page = f \<Longrightarrow> page_revision s j b = None" for j
    using u p by (auto simp: ordinary_def)
  fix tmp
  have r: "triple (\<lambda>d. held F f b d \<and> tmp \<noteq> f) (projection_revision s rel i)
      (\<lambda>r d. (held F f b d \<and> (page = f \<longrightarrow> r = None)) \<and> tmp \<noteq> f) (\<lambda>e d. held F f b d \<and> tmp \<noteq> f)"
    by (rule triple_assume)
      (use triple_projection_revision [OF l, of rel i] link gen in \<open>auto elim!: triple_weaken\<close>)
  show "triple (\<lambda>d. held F f b d \<and> tmp \<noteq> f)
      (catching (bnd (projection_revision s rel i)
        (\<lambda>h. if h = None then raise_exn (Typed (ProjectionNotPlaced i n rel)) else commit_temp s tmp page))
        (\<lambda>e. bnd (unlink_missing_ok s tmp) (\<lambda>u. raise_exn e)))
      (\<lambda>x. held F f b) (\<lambda>e. held F f b)"
  proof (rule triple_catching [where R = "\<lambda>e d. held F f b d \<and> tmp \<noteq> f"])
    show "triple (\<lambda>d. held F f b d \<and> tmp \<noteq> f) (bnd (projection_revision s rel i)
        (\<lambda>h. if h = None then raise_exn (Typed (ProjectionNotPlaced i n rel)) else commit_temp s tmp page))
        (\<lambda>x. held F f b) (\<lambda>e d. held F f b d \<and> tmp \<noteq> f)"
    proof (rule triple_bnd [OF r])
      fix h
      show "triple (\<lambda>d. (held F f b d \<and> (page = f \<longrightarrow> h = None)) \<and> tmp \<noteq> f)
          (if h = None then raise_exn (Typed (ProjectionNotPlaced i n rel)) else commit_temp s tmp page)
          (\<lambda>x. held F f b) (\<lambda>e d. held F f b d \<and> tmp \<noteq> f)"
        by (rule triple_assume)
          (auto intro!: triple_raise triple_weaken [OF keeps_commit_temp [OF l]])
    qed
  next
    fix e
    show "triple (\<lambda>d. held F f b d \<and> tmp \<noteq> f) (bnd (unlink_missing_ok s tmp) (\<lambda>u. raise_exn e)) (\<lambda>x. held F f b) (\<lambda>e. held F f b)"
      by (rule triple_assume)
        (auto intro!: triple_weaken [of "held F f b" _ "\<lambda>x. held F f b" "\<lambda>e. held F f b"] keeps_intros l)
  qed
qed

lemma triple_write_projection:
  assumes u: "ordinary s F f b"
  shows "triple (held F f b) (write_projection s dl i n t at as rel)
    (\<lambda>made d. held F f b d \<and> (made \<longrightarrow> st_resolve s rel \<noteq> Some f)) (\<lambda>e. held F f b)"
proof -
  note l = ordinary_lasting [OF u]
  have "triple (held F f b)
      (bnd (disk_step s (\<lambda>now d. Inr (occupied_name d page, d))) (\<lambda>there.
        if there then bnd (replace_projection s page data i n rel) (\<lambda>u. ret False)
        else catching (bnd (create_exclusive s page data) (\<lambda>u. ret True))
               (\<lambda>e. raise_exn (if e = FileExists then Typed (ProjectionNotPlaced i n rel) else e))))
      (\<lambda>made d. held F f b d \<and> (made \<longrightarrow> st_resolve s rel \<noteq> Some f)) (\<lambda>e. held F f b)"
    if p: "page_path s rel = Some page" for page data
  proof (rule triple_bnd [where R = "\<lambda>there. held F f b"])
    show "keeps (held F f b) (disk_step s (\<lambda>now d. Inr (occupied_name d page, d)))"
      by (intro keeps_intros l)
    have link: "st_resolve s rel \<noteq> Some f \<longleftrightarrow> page \<noteq> f"
      using u p by (auto simp: ordinary_def)
    fix there
    have "triple (held F f b) (bnd (replace_projection s page data i n rel) (\<lambda>u. ret False))
        (\<lambda>made d. held F f b d \<and> (made \<longrightarrow> st_resolve s rel \<noteq> Some f)) (\<lambda>e. held F f b)"
      by (rule triple_bnd [OF keeps_replace_projection [OF u p]]) (simp add: triple_ret)
    moreover have "triple (held F f b)
        (catching (bnd (create_exclusive s page data) (\<lambda>u. ret True))
           (\<lambda>e. raise_exn (if e = FileExists then Typed (ProjectionNotPlaced i n rel) else e)))
        (\<lambda>made d. held F f b d \<and> (made \<longrightarrow> st_resolve s rel \<noteq> Some f)) (\<lambda>e. held F f b)"
      by (rule triple_catching [where R = "\<lambda>e. held F f b"], rule triple_bnd [OF triple_create_exclusive [OF l]])
        (auto intro!: triple_ret triple_raise simp: link)
    ultimately show "triple (held F f b)
        (if there then bnd (replace_projection s page data i n rel) (\<lambda>u. ret False)
         else catching (bnd (create_exclusive s page data) (\<lambda>u. ret True))
               (\<lambda>e. raise_exn (if e = FileExists then Typed (ProjectionNotPlaced i n rel) else e)))
        (\<lambda>made d. held F f b d \<and> (made \<longrightarrow> st_resolve s rel \<noteq> Some f)) (\<lambda>e. held F f b)"
      by simp
  qed
  then have body: "triple (held F f b)
      (case page_path s rel of None \<Rightarrow> raise_exn PyFault
       | Some page \<Rightarrow> bnd (encoded (projection_document s dl i n t at as)) (\<lambda>data.
            bnd (disk_step s (\<lambda>now d. Inr (occupied_name d page, d))) (\<lambda>there.
            if there then bnd (replace_projection s page data i n rel) (\<lambda>u. ret False)
            else catching (bnd (create_exclusive s page data) (\<lambda>u. ret True))
                   (\<lambda>e. raise_exn (if e = FileExists then Typed (ProjectionNotPlaced i n rel) else e)))))
      (\<lambda>made d. held F f b d \<and> (made \<longrightarrow> st_resolve s rel \<noteq> Some f)) (\<lambda>e. held F f b)"
    by (cases "page_path s rel") (auto intro!: triple_raise triple_bnd [OF keeps_encoded])
  show ?thesis
    unfolding write_projection_def
    by (rule triple_catching [OF body]) (rule triple_raise)
qed

lemma keeps_write_projection [keeps_intros]: "ordinary s F f b \<Longrightarrow> keeps (held F f b) (write_projection s dl i n t at as rel)"
  by (rule triple_weaken [OF triple_write_projection]) auto

lemma keeps_withdraw:
  assumes l: "lasting s (held F f b)" and F: "set F \<subseteq> set (folders_of f)" and "\<not> below (source_path i) f" and "claim \<noteq> f"
    and "\<And>p. projection = Some p \<Longrightarrow> st_resolve s p \<noteq> Some f"
  shows "keeps (held F f b) (withdraw_ingest s i claim projection)"
proof -
  have "keeps (held F f b) (case projection of None \<Rightarrow> ret ()
      | Some p \<Rightarrow> (case st_resolve s p of None \<Rightarrow> raise_exn PyFault
          | Some g \<Rightarrow> catching (unlink_missing_ok s g) (\<lambda>e. raise_exn (notes_unavailable s e))))"
    using assms(5) by (auto split: option.splits intro!: keeps_intros l)
  then show ?thesis
    unfolding withdraw_ingest_def
    by (intro keeps_seq [OF keeps_remove_tree [OF l F assms(3)]] keeps_finally
        keeps_catching [OF keeps_unlink_missing_ok [OF l assms(4)]] keeps_raise)
qed

lemma triple_undoing:
  assumes "lasting s (held F f b)" and "set F \<subseteq> set (folders_of f)" and "\<not> below (source_path i) f" and "claim \<noteq> f"
    and "\<And>p. projection = Some p \<Longrightarrow> st_resolve s p \<noteq> Some f"
    and "triple (held F f b) m Q (\<lambda>e. held F f b)"
  shows "triple (held F f b) (undoing s i claim projection m) Q (\<lambda>e. held F f b)"
proof -
  have w: "keeps (held F f b) (withdraw_ingest s i claim projection)"
    by (rule keeps_withdraw [OF assms(1-5)])
  show ?thesis
    unfolding undoing_def
    by (rule triple_catching [OF assms(6)], rule triple_bnd [where R = "\<lambda>u. held F f b", OF w]) (rule triple_raise)
qed

lemma triple_begin_source:
  assumes u: "ordinary s F f b"
  shows "triple (held F f b) (begin_source s dl q ident i j now fm rel)
    (\<lambda>(projection, made, data) d. held F f b d \<and> (made \<longrightarrow> st_resolve s projection \<noteq> Some f)) (\<lambda>e. held F f b)"
  unfolding begin_source_def
proof (rule triple_bnd [OF keeps_now], rule triple_bnd [OF keeps_new_projection_path], goal_cases)
  case 1
  show ?case by (rule ordinary_lasting [OF u])
next
  case (2 later projection)
  note l = ordinary_lasting [OF u]
  have w: "triple (held F f b)
      (catching (write_projection s dl i 1 (iq_title q) now (projection_artifacts dl q) projection)
        (\<lambda>e. raise_exn (case e of Typed (ProjectionNotPlaced a b c) \<Rightarrow> Typed (PathCollision projection) | _ \<Rightarrow> e)))
      (\<lambda>made d. held F f b d \<and> (made \<longrightarrow> st_resolve s projection \<noteq> Some f)) (\<lambda>e. held F f b)"
    by (rule triple_catching [OF triple_write_projection [OF u]]) (rule triple_raise)
  have m: "keeps (held F f b) (disk_step s (make_folder True (revision_path i 1)))"
    by (rule triple_weaken [OF triple_make_folder [OF l]]) auto
  show ?case
    by (rule triple_bnd [OF keeps_encoded], rule triple_bnd [OF keeps_mirror_new_source [OF l]], rule triple_bnd [OF m],
        rule triple_bnd [OF keeps_write_artifacts [OF l]], rule triple_bnd [OF w], rule triple_ret) auto
qed

lemma keeps_place_source [keeps_intros]: "ordinary s F f b \<Longrightarrow> keeps (held F f b) (place_source s dl q ident i j now p r g data)"
  unfolding place_source_def by (intro keeps_intros ordinary_lasting)

lemma keeps_ingest_new [keeps_intros]:
  assumes u: "unclaimed s dl f b"
  shows "keeps (held (folders_of f) f b) (ingest_new s dl q ident claim)"
proof -
  note o = u [unfolded unclaimed_def, THEN conjunct1]
  note l = ordinary_lasting [OF o]
  have tail: "triple (\<lambda>d. held (folders_of f) f b d \<and> claim \<noteq> f)
      (bnd (undoing s i claim None (begin_source s dl q ident i j now fm rel)) (\<lambda>(projection, created, data).
       bnd (undoing s i claim (if created then Some projection else None)
              (place_source s dl q ident i j now projection rel g data)) (\<lambda>u.
       ret \<lparr>ir_source = i, ir_revision = 1, ir_created = True, ir_unstored = [], ir_note = j,
            ir_note_path = rel, ir_note_created = True, ir_projection = projection\<rparr>)))
      (\<lambda>x. held (folders_of f) f b) (\<lambda>e. held (folders_of f) f b)"
    if i: "\<not> below (source_path i) f" for i j now fm rel g
  proof (rule triple_assume, rule triple_weaken [where P = "held (folders_of f) f b"])
    fix d assume "held (folders_of f) f b d \<and> claim \<noteq> f"
    then have c: "claim \<noteq> f" ..
    show "triple (held (folders_of f) f b)
      (bnd (undoing s i claim None (begin_source s dl q ident i j now fm rel)) (\<lambda>(projection, created, data).
       bnd (undoing s i claim (if created then Some projection else None)
              (place_source s dl q ident i j now projection rel g data)) (\<lambda>u.
       ret \<lparr>ir_source = i, ir_revision = 1, ir_created = True, ir_unstored = [], ir_note = j,
            ir_note_path = rel, ir_note_created = True, ir_projection = projection\<rparr>)))
      (\<lambda>x. held (folders_of f) f b) (\<lambda>e. held (folders_of f) f b)"
    proof (rule triple_bnd [OF triple_undoing [OF l subset_refl i c _ triple_begin_source [OF o]]], goal_cases)
      case (2 x)
      obtain projection created data where x: "x = (projection, created, data)" by (cases x)
      show ?case unfolding x prod.case
      proof (rule triple_assume, rule triple_weaken [where P = "held (folders_of f) f b"])
        fix d assume a: "held (folders_of f) f b d \<and> (created \<longrightarrow> st_resolve s projection \<noteq> Some f)"
        show "keeps (held (folders_of f) f b) (bnd (undoing s i claim (if created then Some projection else None)
              (place_source s dl q ident i j now projection rel g data)) (\<lambda>u.
           ret \<lparr>ir_source = i, ir_revision = 1, ir_created = True, ir_unstored = [], ir_note = j,
            ir_note_path = rel, ir_note_created = True, ir_projection = projection\<rparr>))"
          by (rule triple_bnd [OF triple_undoing [OF l subset_refl i c _ keeps_place_source [OF o]]])
            (use a in \<open>auto intro: keeps_intros split: if_splits\<close>)
      qed auto
    qed simp
  qed auto
  have create: "triple (held (folders_of f) f b) (catching (create_exclusive s claim data) (\<lambda>e. raise_exn (sources_unavailable s e)))
      (\<lambda>u d. held (folders_of f) f b d \<and> claim \<noteq> f) (\<lambda>e. held (folders_of f) f b)" for data
    by (rule triple_catching [OF triple_create_exclusive [OF l]]) (rule triple_raise)
  have drawn: "triple (held (folders_of f) f b) (\<lambda>w. (Inr (dl_source_id dl (w_tick w), st_new_id s (w_tick w)), w))
      (\<lambda>p d. held (folders_of f) f b d \<and> \<not> below (source_path (fst p)) f) (\<lambda>e. held (folders_of f) f b)"
    using u by (auto simp: triple_def unclaimed_def)
  show ?thesis
    unfolding ingest_new_def
  proof (rule triple_bnd [OF drawn], goal_cases)
    case (1 p)
    obtain i j where p: "p = (i, j)" by (cases p)
    have k: "lasting s (held (folders_of f) f b)" by (rule l)
    show ?case
      unfolding p prod.case fst_conv Let_def
      by (rule triple_assume, rule triple_weaken [where P = "held (folders_of f) f b" and Q = "\<lambda>x. held (folders_of f) f b" and E = "\<lambda>e. held (folders_of f) f b"],
          intro keeps_intros k triple_bnd [OF create] tail) auto
  qed
qed

lemma keeps_save_manifest [keeps_intros]:
  assumes u: "ordinary s F f b" and i: "is_valid_id (PStr i)"
  shows "keeps (held F f b) (save_manifest s dl i m)"
  unfolding save_manifest_def
proof (rule triple_bnd [OF triple_stage])
  show "secure s F f b" using u by (simp add: ordinary_def)
  have m: "manifest_path i \<noteq> f" using u i by (simp add: ordinary_def)
  fix tmp
  show "triple (\<lambda>d. held F f b d \<and> tmp \<noteq> f) (replace_temp s tmp (manifest_path i)) (\<lambda>x. held F f b) (\<lambda>e. held F f b)"
    by (rule triple_assume, rule triple_weaken [where P = "held F f b"])
      (auto intro: keeps_replace_temp [OF ordinary_lasting [OF u] _ m])
qed

lemma triple_restore_page:
  assumes u: "ordinary s F f b"
  shows "triple (held F f b) (restore_page s dl i n current as j recorded)
    (\<lambda>(page, made) d. held F f b d \<and> (made \<longrightarrow> st_resolve s page \<noteq> Some f)) (\<lambda>e. held F f b)"
proof -
  note l = ordinary_lasting [OF u]
  have w: "triple (held F f b) (bnd (write_projection s dl i n t at contents page) (\<lambda>made. ret (page, made)))
     (\<lambda>(page, made) d. held F f b d \<and> (made \<longrightarrow> st_resolve s page \<noteq> Some f)) (\<lambda>e. held F f b)" for t at contents page
    by (rule triple_bnd [OF triple_write_projection [OF u]]) (auto intro: triple_ret)
  show ?thesis
    unfolding restore_page_def Let_def
    by (rule triple_bnd [OF keeps_projection_revision [OF l]], rule triple_if,
        simp add: triple_ret, rule triple_bnd [OF keeps_query [OF l]], rule triple_option, rule triple_raise, assumption,
        rule triple_bnd [where R = "\<lambda>x. held F f b"], intro keeps_intros l,
        rule triple_bnd [OF keeps_of_sum], rule triple_bnd [OF keeps_read_artifacts [OF l]], rule w)
qed

lemma keeps_replay [keeps_intros]:
  assumes u: "ordinary s F f b" and i: "is_valid_id (PStr i)"
  shows "keeps (held F f b) (replay s dl q i m n current as j np)"
proof -
  note l = ordinary_lasting [OF u]
  have tail: "triple (\<lambda>d. held F f b d \<and> (made \<longrightarrow> st_resolve s page \<noteq> Some f))
     (bnd (if py_eq (fget m (U ''projection_path'')) (PStr page) then ret ()
          else bnd (catching (save_manifest s dl i (dict_set m (U ''projection_path'') (PStr page)))
                 (\<lambda>e. if \<not> is_oserror e then raise_exn e
                      else bnd (if \<not> made then ret ()
                                else (case st_resolve s page of None \<Rightarrow> raise_exn PyFault
                                  | Some f \<Rightarrow> catching (unlink_missing_ok s f) (\<lambda>e. raise_exn (notes_unavailable s e)))) (\<lambda>u.
                           raise_exn (sources_unavailable s e)))) (\<lambda>u.
               catching (sync_folder s (manifest_path i)) (\<lambda>e. raise_exn (sources_unavailable s e)))) (\<lambda>u. ret r))
     (\<lambda>x. held F f b) (\<lambda>e. held F f b)" for page made r
  proof (rule triple_assume, rule triple_weaken [where P = "held F f b" and Q = "\<lambda>x. held F f b" and E = "\<lambda>e. held F f b"])
    fix d assume a: "held F f b d \<and> (made \<longrightarrow> st_resolve s page \<noteq> Some f)"
    have c: "keeps (held F f b) (if \<not> made then ret () else (case st_resolve s page of None \<Rightarrow> raise_exn PyFault
         | Some f \<Rightarrow> catching (unlink_missing_ok s f) (\<lambda>e. raise_exn (notes_unavailable s e))))"
      using a by (auto split: option.splits intro!: keeps_intros l)
    show "keeps (held F f b)
     (bnd (if py_eq (fget m (U ''projection_path'')) (PStr page) then ret ()
          else bnd (catching (save_manifest s dl i (dict_set m (U ''projection_path'') (PStr page)))
                 (\<lambda>e. if \<not> is_oserror e then raise_exn e
                      else bnd (if \<not> made then ret ()
                                else (case st_resolve s page of None \<Rightarrow> raise_exn PyFault
                                  | Some f \<Rightarrow> catching (unlink_missing_ok s f) (\<lambda>e. raise_exn (notes_unavailable s e)))) (\<lambda>u.
                           raise_exn (sources_unavailable s e)))) (\<lambda>u.
               catching (sync_folder s (manifest_path i)) (\<lambda>e. raise_exn (sources_unavailable s e)))) (\<lambda>u. ret r))"
      by (intro c keeps_seq keeps_catching keeps_sync keeps_ret keeps_raise triple_if keeps_save_manifest [OF u i] l)
  qed auto
  show ?thesis
    unfolding replay_def
    by (rule triple_bnd [OF triple_restore_page [OF u]], simp only: split_paired_all prod.case, rule tail)
qed

lemma keeps_store_revision [keeps_intros]:
  assumes u: "ordinary s F f b" and i: "is_valid_id (PStr i)"
  shows "keeps (held F f b) (store_revision s dl q ident i m n now j)"
  unfolding store_revision_def by (intro keeps_intros keeps_save_manifest [OF u i] ordinary_lasting [OF u])

lemma keeps_revise [keeps_intros]:
  assumes u: "unclaimed s dl f b" and i: "is_valid_id (PStr i)"
  shows "keeps (held (folders_of f) f b) (revise s dl q ident i m n j np)"
proof -
  note o = u [unfolded unclaimed_def, THEN conjunct1]
  note l = ordinary_lasting [OF o]
  have made: "triple (held (folders_of f) f b) (catching (disk_step s (make_folder False (revision_path i n)))
      (\<lambda>e. raise_exn (if e = FileExists then Typed (IncompleteRevision (i @ U ''/'' @ path_name (revision_path i n)))
                      else sources_unavailable s e)))
      (\<lambda>u d. held (folders_of f) f b d \<and> revision_path i n \<notin> set (folders_of f)) (\<lambda>e. held (folders_of f) f b)"
    by (rule triple_catching [OF triple_make_folder [OF l]]) (rule triple_raise)
  show ?thesis
    unfolding revise_def
  proof (rule triple_bnd [OF keeps_now], rule triple_bnd [OF made], rule triple_assume,
      rule triple_weaken [where P = "held (folders_of f) f b" and Q = "\<lambda>x. held (folders_of f) f b" and E = "\<lambda>e. held (folders_of f) f b"], goal_cases)
    case (1 now u d)
    then have "\<not> below (revision_path i n) f" using below_prefix by blast
    then show ?case
      by (intro keeps_intros keeps_remove_tree l subset_refl o i)
  qed auto
qed

lemma triple_claimed: "triple P (of_sum (claimed_source dl data q)) (\<lambda>i d. P d \<and> is_valid_id (PStr i)) (\<lambda>e. P)"
  unfolding of_sum_def
  by (auto simp: claimed_source_def triple_def ret_def raise_exn_def split: option.splits pyval.splits if_splits sum.splits)

lemma keeps_ingest_existing [keeps_intros]:
  assumes u: "unclaimed s dl f b"
  shows "keeps (held (folders_of f) f b) (ingest_existing s dl q ident data)"
proof -
  note o = u [unfolded unclaimed_def, THEN conjunct1]
  note l = ordinary_lasting [OF o]
  show ?thesis
    unfolding ingest_existing_def
  proof (rule triple_bnd [OF triple_claimed], rule triple_assume,
      rule triple_weaken [where P = "held (folders_of f) f b" and Q = "\<lambda>x. held (folders_of f) f b" and E = "\<lambda>e. held (folders_of f) f b"], goal_cases)
    case (1 i d)
    then have "is_valid_id (PStr i)" ..
    then show ?case by (intro keeps_intros l o u)
  qed auto
qed

lemma keeps_ingest:
  assumes u: "unclaimed s dl f b"
  shows "keeps (held (folders_of f) f b) (ingest s dl q sent)"
  unfolding ingest_def Let_def by (intro keeps_intros ordinary_lasting [OF u [unfolded unclaimed_def, THEN conjunct1]] u)

end
