(* ===== verification/SourceStored.thy ===== *)
theory SourceStored
  imports SourceLaws
begin

text \<open>
  What an answered ingest has on disk: the claim that leads to its source, and below the revision it
  answers with a file for every artifact of the request, whose digest is that of the request's bytes.
\<close>

section \<open>What is on disk\<close>

definition artifact_path :: "str \<Rightarrow> int \<Rightarrow> str \<Rightarrow> str" where
  "artifact_path i n name = path_join (revision_path i n) name"

definition stored :: "doc_lib \<Rightarrow> str \<Rightarrow> int \<Rightarrow> incoming_artifact \<Rightarrow> fsys \<Rightarrow> bool" where
  "stored dl i n a d \<longleftrightarrow> (\<exists>data. held [] (artifact_path i n (in_name a)) data d \<and> dl_sha dl data = dl_sha dl (in_bytes a))"

definition claimed :: "doc_lib \<Rightarrow> ingest_request \<Rightarrow> str \<Rightarrow> str \<Rightarrow> fsys \<Rightarrow> bool" where
  "claimed dl q claim i d \<longleftrightarrow> (\<exists>data. held [] claim data d \<and> claimed_source dl data q = Inr i)"

definition present :: "doc_lib \<Rightarrow> ingest_request \<Rightarrow> str \<Rightarrow> str \<Rightarrow> int \<Rightarrow> incoming_artifact list \<Rightarrow> fsys \<Rightarrow> bool" where
  "present dl q claim i n as d \<longleftrightarrow> wf_fsys d \<and> claimed dl q claim i d \<and> (\<forall>a \<in> set as. stored dl i n a d)"

text \<open>The sources filesystem is the store's own: the others leave the claim and the artifacts alone, no page
  and no temporary file is among them, and a plain name resolves to the file of that name.\<close>

definition sources_quiet :: "'d site \<Rightarrow> doc_lib \<Rightarrow> ingest_request \<Rightarrow> str \<Rightarrow> bool" where
  "sources_quiet s dl q claim \<longleftrightarrow> lasting s wf_fsys \<and> (\<forall>data. ordinary s [] claim data) \<and>
     (\<forall>i n a data. is_valid_id (PStr i) \<longrightarrow> a \<in> set (iq_artifacts q) \<longrightarrow> ordinary s [] (artifact_path i n (in_name a)) data) \<and>
     (\<forall>i n a. a \<in> set (iq_artifacts q) \<longrightarrow> dl_below dl (revision_path i n) (in_name a) = Some (artifact_path i n (in_name a)))"

abbreviation yields :: "(fsys \<Rightarrow> bool) \<Rightarrow> 'a act \<Rightarrow> ('a \<Rightarrow> fsys \<Rightarrow> bool) \<Rightarrow> bool" where
  "yields P m Q \<equiv> triple P m Q (\<lambda>e d. True)"

lemma keeps_yields: "keeps P m \<Longrightarrow> yields P m (\<lambda>x. P)"
  by (erule triple_weaken) auto

lemma yields_raising: "yields P (bnd m (\<lambda>u. raise_exn e)) Q"
  by (rule triple_bnd [where R = "\<lambda>u d. True"]) (auto simp: triple_def raise_exn_def split: sum.splits)

lemma yields_catching: "yields P m Q \<Longrightarrow> (\<And>e. yields (\<lambda>d. True) (h e) Q) \<Longrightarrow> yields P (catching m h) Q"
  by (rule triple_catching)

lemma yields_raise: "yields P (raise_exn e) Q"
  by (rule triple_raise) simp

section \<open>What keeps it\<close>


lemma keeps_conj: "keeps P m \<Longrightarrow> keeps Q m \<Longrightarrow> keeps (\<lambda>d. P d \<and> Q d) m"
  by (rule tripleI) (blast dest: tripleD)+

lemma keeps_ex: "(\<And>x. keeps (P x) m) \<Longrightarrow> keeps (\<lambda>d. \<exists>x. P x d) m"
  by (rule tripleI) (blast dest: tripleD)+

lemma keeps_ball: "(\<And>x. x \<in> A \<Longrightarrow> keeps (P x) m) \<Longrightarrow> keeps (\<lambda>d. \<forall>x \<in> A. P x d) m"
  by (rule tripleI) (blast dest: tripleD)+

lemma keeps_const: "keeps (\<lambda>d. c) m"
  by (rule tripleI) auto

lemma keeps_present:
  assumes q: "sources_quiet s dl q claim" and i: "is_valid_id (PStr i)" and as: "set as \<subseteq> set (iq_artifacts q)"
    and k: "\<And>f b. ordinary s [] f b \<Longrightarrow> keeps (held [] f b) m"
  shows "keeps (present dl q claim i n as) m"
proof -
  have c: "keeps (claimed dl q claim i) m"
    unfolding claimed_def using q by (intro keeps_ex keeps_conj keeps_const k) (auto simp: sources_quiet_def)
  have a: "keeps (\<lambda>d. \<forall>a \<in> set as. stored dl i n a d) m"
    unfolding stored_def using q i as
    by (intro keeps_ball keeps_ex keeps_conj keeps_const k) (auto simp: sources_quiet_def)
  have "keeps (\<lambda>d. claimed dl q claim i d \<and> (\<forall>a \<in> set as. stored dl i n a d)) m"
    by (rule keeps_conj [OF c a])
  moreover have "present dl q claim i n as d \<longleftrightarrow> claimed dl q claim i d \<and> (\<forall>a \<in> set as. stored dl i n a d)" for d
    by (auto simp: present_def claimed_def held_def)
  ultimately show ?thesis by (simp add: fun_eq_iff [symmetric, of "present dl q claim i n as"] triple_def)
qed

lemma lasting_conj: "lasting s P \<Longrightarrow> lasting s Q \<Longrightarrow> lasting s (\<lambda>d. P d \<and> Q d)"
  by (auto simp: lasting_def)

lemma lasting_present:
  assumes q: "sources_quiet s dl q claim" and i: "is_valid_id (PStr i)" and as: "set as \<subseteq> set (iq_artifacts q)"
  shows "lasting s (present dl q claim i n as)"
proof -
  have "lasting s (held [] claim b)" for b
    using q by (auto simp: sources_quiet_def intro: ordinary_lasting)
  moreover have "lasting s (held [] (artifact_path i n (in_name a)) b)" if "a \<in> set as" for a b
    using q i as that ordinary_lasting unfolding sources_quiet_def by blast
  moreover have "lasting s wf_fsys" using q by (simp add: sources_quiet_def)
  ultimately show ?thesis
    unfolding lasting_def present_def claimed_def stored_def by meson
qed

lemma yields_artifact:
  assumes q: "sources_quiet s dl q claim" and i: "is_valid_id (PStr i)" and as: "set (a # as) \<subseteq> set (iq_artifacts q)"
  shows "yields (present dl q claim i n as) (create_exclusive s (path_join (revision_path i n) (in_name a)) (in_bytes a))
    (\<lambda>u. present dl q claim i n (a # as))"
proof -
  have l: "lasting s (present dl q claim i n as)"
    by (rule lasting_present [OF q i]) (use as in auto)
  show ?thesis
    unfolding create_exclusive_def
  proof (rule triple_disk_step [OF l])
    fix now d x d'
    assume m: "make_file (path_join (revision_path i n) (in_name a)) (path_join (revision_path i n) (in_name a)) (in_bytes a) now d = Inr (x, d')"
      and p: "present dl q claim i n as d"
    have "held [] (artifact_path i n (in_name a)) (in_bytes a) d'"
      using make_file_result [OF m, of "artifact_path i n (in_name a)"] p by (auto simp: held_def present_def artifact_path_def)
    then have "stored dl i n a d'" by (auto simp: stored_def)
    moreover have "stored dl i n y d'" if "stored dl i n y d" for y
      using that make_file_held [OF m] by (auto simp: stored_def)
    moreover have "claimed dl q claim i d'"
      using p make_file_held [OF m] by (auto simp: claimed_def present_def)
    moreover have "wf_fsys d'" using make_file_result [OF m] p by (auto simp: present_def)
    ultimately show "present dl q claim i n (a # as) d'" using p by (auto simp: present_def)
  qed simp
qed

lemma yields_write_artifacts:
  assumes q: "sources_quiet s dl q claim" and i: "is_valid_id (PStr i)" and as: "set (xs @ as) \<subseteq> set (iq_artifacts q)"
  shows "yields (present dl q claim i n xs) (write_artifacts s i n as) (\<lambda>u. present dl q claim i n (xs @ as))"
  using as
proof (induction as arbitrary: xs)
  case Nil
  then show ?case by (simp add: write_artifacts_def triple_ret)
next
  case (Cons a as)
  have "yields (present dl q claim i n (a # xs)) (write_artifacts s i n as) (\<lambda>u. present dl q claim i n ((a # xs) @ as))"
    by (rule Cons.IH) (use Cons.prems in auto)
  moreover have "present dl q claim i n ((a # xs) @ as) = present dl q claim i n (xs @ a # as)"
    by (auto simp: present_def)
  ultimately have rest: "yields (present dl q claim i n (a # xs)) (write_artifacts s i n as) (\<lambda>u. present dl q claim i n (xs @ a # as))"
    by simp
  have "yields (present dl q claim i n xs) (create_exclusive s (path_join (revision_path i n) (in_name a)) (in_bytes a))
      (\<lambda>u. present dl q claim i n (a # xs))"
    by (rule yields_artifact [OF q i]) (use Cons.prems in auto)
  then show ?case
    unfolding write_artifacts_def each_do.simps by (rule triple_bnd) (rule rest [unfolded write_artifacts_def])
qed

section \<open>An ingest that answers\<close>

lemma quiet_wf: "sources_quiet s dl q claim \<Longrightarrow> lasting s wf_fsys"
  and quiet_claim: "sources_quiet s dl q claim \<Longrightarrow> ordinary s [] claim data"
  by (auto simp: sources_quiet_def)

lemma lasting_claimed: "sources_quiet s dl q claim \<Longrightarrow> lasting s (\<lambda>d. wf_fsys d \<and> claimed dl q claim i d)"
  using ordinary_lasting [OF quiet_claim] quiet_wf unfolding lasting_def claimed_def by meson

lemma present_Nil: "present dl q claim i n [] = (\<lambda>d. wf_fsys d \<and> claimed dl q claim i d)"
  by (auto simp: present_def fun_eq_iff)

lemma keeps_present_folder:
  assumes q: "sources_quiet s dl q claim"
  shows "keeps (present dl q claim i n []) (disk_step s (make_folder parents p))"
proof -
  have k: "keeps (held [] claim data) (disk_step s (make_folder parents p))" for data
    by (rule triple_weaken [OF triple_make_folder]) (auto intro: ordinary_lasting quiet_claim [OF q])
  have "keeps (claimed dl q claim i) (disk_step s (make_folder parents p))"
    unfolding claimed_def by (intro keeps_ex keeps_conj keeps_const k)
  moreover have "present dl q claim i n [] = claimed dl q claim i"
    by (auto simp: present_def claimed_def held_def fun_eq_iff)
  ultimately show ?thesis by simp
qed

lemma yields_undoing: "yields P m Q \<Longrightarrow> yields P (undoing s i claim projection m) Q"
  unfolding undoing_def by (rule yields_catching) (auto intro: yields_raising)

lemma yields_begin_source:
  assumes q: "sources_quiet s dl q claim" and i: "is_valid_id (PStr i)"
  shows "yields (present dl q claim i 1 []) (begin_source s dl q ident i j now fm rel) (\<lambda>x. present dl q claim i 1 (iq_artifacts q))"
proof -
  note l = lasting_present [OF q i, of "[]" 1, simplified]
  have w: "keeps (present dl q claim i 1 (iq_artifacts q)) (write_projection s dl i 1 t now as projection)" for t as projection
    by (rule keeps_present [OF q i order_refl]) (rule keeps_write_projection)
  show ?thesis
    unfolding begin_source_def
    by (rule triple_bnd [OF keeps_yields [OF keeps_now]], rule triple_bnd [OF keeps_yields [OF keeps_new_projection_path [OF l]]],
        rule triple_bnd [OF keeps_yields [OF keeps_encoded]], rule triple_bnd [OF keeps_yields [OF keeps_mirror_new_source [OF l]]],
        rule triple_bnd [OF keeps_yields [OF keeps_present_folder [OF q]]],
        rule triple_bnd [OF yields_write_artifacts [OF q i, of "[]", simplified, OF order_refl]],
        rule triple_bnd [where R = "\<lambda>u. present dl q claim i 1 (iq_artifacts q)"])
      (auto intro: triple_ret yields_catching keeps_yields [OF w] yields_raise)
qed

lemma yields_place_source:
  assumes q: "sources_quiet s dl q claim" and i: "is_valid_id (PStr i)"
  shows "yields (present dl q claim i 1 (iq_artifacts q)) (place_source s dl q ident i j now p r g data)
    (\<lambda>u. present dl q claim i 1 (iq_artifacts q))"
  by (rule keeps_yields, rule keeps_present [OF q i order_refl], rule keeps_place_source)

text \<open>An ingest of a new identifier.\<close>

lemma yields_claim:
  assumes q: "sources_quiet s dl q claim" and r: "claimed_source dl data q = Inr i"
  shows "yields wf_fsys (create_exclusive s claim data) (\<lambda>u. present dl q claim i 1 [])"
  unfolding create_exclusive_def
proof (rule triple_disk_step [OF quiet_wf [OF q]])
  fix now d x d'
  assume m: "make_file claim claim data now d = Inr (x, d')" and wf: "wf_fsys d"
  have "held [] claim data d'"
    using make_file_result [OF m wf, of claim] by (auto simp: held_def)
  then show "present dl q claim i 1 [] d'"
    using r by (auto simp: present_def claimed_def held_def)
qed simp

definition answered :: "doc_lib \<Rightarrow> ingest_request \<Rightarrow> str \<Rightarrow> ingest_result \<Rightarrow> fsys \<Rightarrow> bool" where
  "answered dl q claim r = present dl q claim (ir_source r) (ir_revision r) (iq_artifacts q)"

lemma yields_ingest_new:
  assumes q: "sources_quiet s dl q claim"
    and ids: "\<And>n. is_valid_id (PStr (dl_source_id dl n))" and rb: "\<And>i. reads_back dl (claim_document q i)"
  shows "yields wf_fsys (ingest_new s dl q ident claim) (answered dl q claim)"
proof -
  note l = quiet_wf [OF q]
  have drawn: "yields wf_fsys (\<lambda>w. (Inr (dl_source_id dl (w_tick w), st_new_id s (w_tick w)), w))
      (\<lambda>p d. wf_fsys d \<and> is_valid_id (PStr (fst p)))"
    using ids by (auto simp: triple_def)
  have tail: "yields (present dl q claim i 1 [])
      (bnd (undoing s i claim None (begin_source s dl q ident i j now fm rel)) (\<lambda>(projection, created, data).
       bnd (undoing s i claim (if created then Some projection else None)
              (place_source s dl q ident i j now projection rel g data)) (\<lambda>u.
       ret \<lparr>ir_source = i, ir_revision = 1, ir_created = True, ir_unstored = [], ir_note = j,
            ir_note_path = rel, ir_note_created = True, ir_projection = projection\<rparr>))) (answered dl q claim)"
    if i: "is_valid_id (PStr i)" for i j now fm rel g
    by (rule triple_bnd [OF yields_undoing [OF yields_begin_source [OF q i]]], simp only: split_paired_all prod.case,
        rule triple_bnd [OF yields_undoing [OF yields_place_source [OF q i]]])
      (auto intro: triple_ret simp: answered_def)
  have create: "yields wf_fsys (catching (create_exclusive s claim (dl_text dl (PMap (claim_document q i))))
       (\<lambda>e. raise_exn (sources_unavailable s e))) (\<lambda>u. present dl q claim i 1 [])" if "is_valid_id (PStr i)" for i
    by (rule yields_catching [OF yields_claim [OF q]]) (auto intro: yields_raise simp: claim_reads_back [OF rb that])
  note step = triple_bnd [OF keeps_yields]
  show ?thesis
    unfolding ingest_new_def
  proof (rule triple_bnd [OF drawn], goal_cases)
    case (1 p)
    obtain i j where p: "p = (i, j)" by (cases p)
    show ?case
      unfolding p prod.case fst_conv Let_def
    proof (rule triple_assume, rule triple_weaken [where P = wf_fsys and Q = "answered dl q claim" and E = "\<lambda>e d. True"], goal_cases)
      case (1 d)
      then have i: "is_valid_id (PStr i)" ..
      show ?case
        by (rule step [OF keeps_now], rule step [OF keeps_demand_ingestible [OF l]], rule triple_option [OF yields_raise],
            rule step [OF keeps_existing_stems [OF l]], rule step [OF keeps_free_stem], rule step [OF keeps_query [OF l]],
            rule step [OF keeps_demand], rule triple_bnd [OF create [OF i]], rule tail [OF i])
    qed auto
  qed
qed

section \<open>An ingest of a known identifier\<close>

text \<open>An artifact of the manifest that was verified.\<close>

definition checked :: "'d site \<Rightarrow> doc_lib \<Rightarrow> ingest_request \<Rightarrow> str \<Rightarrow> int \<Rightarrow> fmap \<Rightarrow> fsys \<Rightarrow> bool" where
  "checked s dl q i n m d \<longleftrightarrow>
     (text_of (st_objects s) (fget m (U ''name'')) \<in> in_name ` set (iq_artifacts q) \<longrightarrow>
       (\<exists>data. held [] (artifact_path i n (text_of (st_objects s) (fget m (U ''name'')))) data d \<and>
               PStr (dl_sha dl data) = fget m (U ''sha256'')))"

definition verified :: "'d site \<Rightarrow> doc_lib \<Rightarrow> ingest_request \<Rightarrow> str \<Rightarrow> str \<Rightarrow> int \<Rightarrow> fmap list \<Rightarrow> fsys \<Rightarrow> bool" where
  "verified s dl q claim i n ms d \<longleftrightarrow> present dl q claim i n [] d \<and> (\<forall>m \<in> set ms. checked s dl q i n m d)"

lemma lasting_verified:
  assumes q: "sources_quiet s dl q claim" and i: "is_valid_id (PStr i)"
  shows "lasting s (verified s dl q claim i n ms)"
proof -
  have "lasting s (held [] (artifact_path i n name) b)" if "name \<in> in_name ` set (iq_artifacts q)" for name b
    using q i that ordinary_lasting unfolding sources_quiet_def by blast
  then have "lasting s (checked s dl q i n m)" for m
    unfolding lasting_def checked_def by blast
  then show ?thesis
    using lasting_present [OF q i, of "[]" n] unfolding lasting_def verified_def by simp
qed

lemma yields_artifact_bytes:
  assumes q: "sources_quiet s dl q claim" and l: "lasting s P" and a: "name \<in> in_name ` set (iq_artifacts q)"
    and wf: "\<And>d. P d \<Longrightarrow> wf_fsys d"
  shows "yields P (stored_artifact_bytes s dl i n name m) (\<lambda>data d. P d \<and> held [] (artifact_path i n name) data d)"
proof -
  have p: "dl_below dl (revision_path i n) name = Some (artifact_path i n name)"
    using q a by (auto simp: sources_quiet_def)
  have "yields P (read_bytes s (artifact_path i n name)) (\<lambda>data d. P d \<and> held [] (artifact_path i n name) data d)"
    unfolding read_bytes_def by (rule triple_disk_step [OF l]) (auto simp: held_def wf split: option.splits)
  then show ?thesis
    unfolding stored_artifact_bytes_def p option.case by (rule yields_catching) (rule yields_raise)
qed

lemma yields_verify_artifact:
  assumes q: "sources_quiet s dl q claim" and i: "is_valid_id (PStr i)"
  shows "yields (verified s dl q claim i n ms) (verify_artifact s dl i n m) (\<lambda>u. verified s dl q claim i n (m # ms))"
proof -
  let ?name = "text_of (st_objects s) (fget m (U ''name''))"
  note l = lasting_verified [OF q i, of n ms]
  show ?thesis
  proof (cases "?name \<in> in_name ` set (iq_artifacts q)")
    case True
    have b: "yields (verified s dl q claim i n ms) (stored_artifact_bytes s dl i n ?name t)
        (\<lambda>data d. verified s dl q claim i n ms d \<and> held [] (artifact_path i n ?name) data d)" for t
      by (rule yields_artifact_bytes [OF q l True]) (simp add: verified_def present_def)
    show ?thesis
      unfolding verify_artifact_def Let_def
      by (rule triple_bnd [OF b]) (auto intro!: triple_ret yields_raise simp: verified_def checked_def)
  next
    case False
    have "checked s dl q i n m d" for d
      using False by (auto simp: checked_def)
    then show ?thesis
      unfolding verify_artifact_def Let_def
      by (intro triple_bnd [OF keeps_yields [OF keeps_artifact_bytes [OF l]]])
        (auto intro!: triple_ret yields_raise simp: verified_def)
  qed
qed

lemma yields_verify_artifacts:
  assumes q: "sources_quiet s dl q claim" and i: "is_valid_id (PStr i)"
  shows "yields (verified s dl q claim i n ms) (verify_artifacts s dl i n arts) (\<lambda>u. verified s dl q claim i n (ms @ arts))"
proof (induction arts arbitrary: ms)
  case Nil
  then show ?case by (simp add: verify_artifacts_def triple_ret)
next
  case (Cons m arts)
  have "verified s dl q claim i n ((m # ms) @ arts) = verified s dl q claim i n (ms @ m # arts)"
    by (auto simp: verified_def fun_eq_iff)
  with Cons [of "m # ms"] have rest: "yields (verified s dl q claim i n (m # ms)) (each_do (verify_artifact s dl i n) arts)
      (\<lambda>u. verified s dl q claim i n (ms @ m # arts))"
    by (simp add: verify_artifacts_def)
  show ?case
    unfolding verify_artifacts_def each_do.simps by (rule triple_bnd [OF yields_verify_artifact [OF q i]]) (rule rest)
qed

text \<open>No two texts that are hashed for an identity collide.\<close>

definition collision_free :: "doc_lib \<Rightarrow> bool" where
  "collision_free dl \<longleftrightarrow> (\<forall>ps qs b c. encode (json_pairs ps) = Some b \<longrightarrow> encode (json_pairs qs) = Some c \<longrightarrow>
     dl_sha dl b = dl_sha dl c \<longrightarrow> b = c)"

lemma verified_present:
  assumes free: "collision_free dl" and h: "content_identity dl (pairs_of (st_objects s) arts) = Inr ident"
    and r: "content_identity dl (pairs_of (st_objects s) (artifact_metas dl q)) = Inr ident"
    and v: "verified s dl q claim i n arts d"
  shows "present dl q claim i n (iq_artifacts q) d"
proof -
  have "mset (pairs_of (st_objects s) arts) = mset (pairs_of (st_objects s) (artifact_metas dl q))"
    using content_identity_names_artifacts [OF h r] free unfolding collision_free_def by blast
  then have same: "set (pairs_of (st_objects s) arts) = set (pairs_of (st_objects s) (artifact_metas dl q))"
    by (metis set_mset_mset)
  have "stored dl i n a d" if a: "a \<in> set (iq_artifacts q)" for a
  proof -
    have "(in_name a, dl_sha dl (in_bytes a)) \<in> set (pairs_of (st_objects s) (artifact_metas dl q))"
      using a by (auto simp: pairs_of_def artifact_metas_def artifact_meta_def fget_def text_of_def image_iff)
    then obtain m where m: "m \<in> set arts" "text_of (st_objects s) (fget m (U ''name'')) = in_name a"
        "text_of (st_objects s) (fget m (U ''sha256'')) = dl_sha dl (in_bytes a)"
      unfolding same [symmetric] by (auto simp: pairs_of_def)
    with v a obtain data where "held [] (artifact_path i n (in_name a)) data d" "PStr (dl_sha dl data) = fget m (U ''sha256'')"
      unfolding verified_def checked_def by (metis image_eqI)
    with m(3) have "dl_sha dl data = dl_sha dl (in_bytes a)"
      by (cases "fget m (U ''sha256'')") (auto simp: text_of_def)
    with \<open>held [] _ _ _\<close> show ?thesis unfolding stored_def by blast
  qed
  with v show ?thesis by (simp add: verified_def present_def)
qed

lemma yields_anything: "yields P m (\<lambda>x d. True)"
  by (rule tripleI) auto

lemma yields_both: "yields P m Q \<Longrightarrow> yields P m R \<Longrightarrow> yields P m (\<lambda>x d. Q x d \<and> R x d)"
  by (rule tripleI) (blast dest: tripleD)+

lemma yields_replay:
  assumes q: "sources_quiet s dl q claim" and i: "is_valid_id (PStr i)"
  shows "yields (present dl q claim i n (iq_artifacts q)) (replay s dl q i m n current arts j np) (answered dl q claim)"
proof -
  have "yields P (replay s dl q i m n current arts j np) (\<lambda>r d. ir_source r = i \<and> ir_revision r = n)" for P
    unfolding replay_def
    by (rule triple_bnd [OF yields_anything], simp only: split_paired_all prod.case, rule triple_bnd [OF yields_anything])
      (simp add: triple_ret)
  moreover have "keeps (present dl q claim i n (iq_artifacts q)) (replay s dl q i m n current arts j np)"
    by (rule keeps_present [OF q i order_refl]) (rule keeps_replay [OF _ i])
  ultimately have "yields (present dl q claim i n (iq_artifacts q)) (replay s dl q i m n current arts j np)
      (\<lambda>r d. present dl q claim i n (iq_artifacts q) d \<and> ir_source r = i \<and> ir_revision r = n)"
    by (rule yields_both [OF keeps_yields, rotated])
  then show ?thesis
    by (rule triple_weaken) (auto simp: answered_def)
qed

lemma yields_store_revision:
  assumes q: "sources_quiet s dl q claim" and i: "is_valid_id (PStr i)"
  shows "yields (present dl q claim i n []) (store_revision s dl q ident i m n now j) (\<lambda>x. present dl q claim i n (iq_artifacts q))"
proof -
  note l = lasting_present [OF q i order_refl, of n]
  have k: "keeps (present dl q claim i n (iq_artifacts q)) (save_manifest s dl i doc)" for doc
    by (rule keeps_present [OF q i order_refl]) (rule keeps_save_manifest [OF _ i])
  have "keeps (present dl q claim i n (iq_artifacts q)) (
     bnd (query s (\<lambda>b. row_of b j)) (\<lambda>row.
     case row of None \<Rightarrow> raise_exn (plain_error ''the linked note mirror is incomplete'')
     | Some r \<Rightarrow>
        bnd (case fget m (U ''projection_path'') of
               PStr p \<Rightarrow> bnd (projection_revision s p i) (\<lambda>held. ret (if held = None then None else Some p))
             | _ \<Rightarrow> ret None) (\<lambda>kept.
        bnd (case kept of Some p \<Rightarrow> ret p | None \<Rightarrow> new_page_for s r) (\<lambda>page.
        bnd (save_manifest s dl i (manifest_with_revision m q n
               (revision_document (st_objects s) dl q n now ident (artifact_metas dl q)) page)) (\<lambda>u.
        ret (page, r))))))"
    by (intro k keeps_seq keeps_cases keeps_values keeps_query keeps_raise keeps_ret keeps_projection_revision keeps_new_page_for l)
  from keeps_yields [OF this] show ?thesis
    unfolding store_revision_def
    by (rule triple_bnd [OF yields_write_artifacts [OF q i, of "[]", simplified, OF order_refl]])
qed

lemma yields_revise:
  assumes q: "sources_quiet s dl q claim" and i: "is_valid_id (PStr i)"
  shows "yields (present dl q claim i k []) (revise s dl q ident i m n j np) (answered dl q claim)"
proof -
  note l = lasting_present [OF q i order_refl, of n]
  have same: "present dl q claim i k [] = present dl q claim i n []"
    by (simp add: present_Nil)
  have w: "keeps (present dl q claim i n (iq_artifacts q)) (bnd (sync_folder s (manifest_path i)) (\<lambda>u. write_projection s dl i n t now as page))"
    for t as page now
    by (intro keeps_seq keeps_sync l keeps_present [OF q i order_refl] keeps_write_projection)
  show ?thesis
    unfolding revise_def same
    by (rule triple_bnd [OF keeps_yields [OF keeps_now]],
        rule triple_bnd [OF yields_catching [OF keeps_yields [OF keeps_present_folder [OF q]] yields_raise]],
        rule triple_bnd [OF yields_catching [OF yields_store_revision [OF q i] yields_raising]],
        simp only: split_paired_all prod.case,
        rule triple_bnd [OF yields_catching [OF keeps_yields [OF w] yields_raise]],
        rule triple_bnd [OF keeps_yields [OF keeps_mirror_revision [OF l]]])
      (auto intro: triple_ret simp: answered_def)
qed

lemma yields_of_sum: "yields P (of_sum r) (\<lambda>x d. P d \<and> r = Inr x)"
  unfolding of_sum_def by (cases r) (auto intro: triple_ret yields_raise)

lemma yields_ingest_existing:
  assumes q: "sources_quiet s dl q claim" and free: "collision_free dl"
    and r: "content_identity dl (pairs_of (st_objects s) (artifact_metas dl q)) = Inr ident"
  shows "yields (\<lambda>d. held [] claim data d) (ingest_existing s dl q ident data) (answered dl q claim)"
  unfolding ingest_existing_def
proof (rule triple_bnd [OF yields_of_sum], rule triple_assume,
    rule triple_weaken [where P = "held [] claim data" and Q = "answered dl q claim" and E = "\<lambda>e d. True"], goal_cases)
  case (1 i d)
  then have c: "claimed_source dl data q = Inr i" by blast
  then have i: "is_valid_id (PStr i)"
    by (auto simp: claimed_source_def split: option.splits pyval.splits if_splits)
  note step = triple_bnd [OF keeps_yields]
  have start: "held [] claim data d \<Longrightarrow> present dl q claim i n [] d" for n d
    using c by (auto simp: present_def claimed_def held_def)
  show ?case
  proof (rule triple_weaken [where P = "present dl q claim i 0 []" and Q = "answered dl q claim" and E = "\<lambda>e d. True"], goal_cases)
    case 1
    have l: "lasting s (present dl q claim i n [])" for n by (rule lasting_present [OF q i]) simp
    have z: "present dl q claim i 0 [] = verified s dl q claim i n []" for n
      by (simp add: verified_def present_Nil fun_eq_iff)
    have v: "yields (present dl q claim i 0 []) (if h = ident then verify_artifacts s dl i n arts else ret ())
        (\<lambda>u d. if h = ident then verified s dl q claim i n arts d else present dl q claim i 0 [] d)" for h n arts
      unfolding z [of n] using yields_verify_artifacts [OF q i, of n "[]" arts] by (auto intro: triple_ret)
    have known: "yields (\<lambda>d. if h = ident then verified s dl q claim i n arts d else present dl q claim i 0 [] d)
        (bnd (linked_note s i (fget m (U ''note_id''))) (\<lambda>(note_id, note_path, snapshot).
         bnd (ensure_mirror s dl m i note_id note_path snapshot) (\<lambda>u.
         if h = ident then replay s dl q i m n current arts note_id note_path
         else revise s dl q ident i m (n + 1) note_id note_path)))
        (answered dl q claim)"
      if h: "content_identity dl (pairs_of (st_objects s) arts) = Inr h" for h n arts m current
    proof (cases "h = ident")
      case True
      have p: "verified s dl q claim i n arts d \<Longrightarrow> present dl q claim i n (iq_artifacts q) d" for d
        by (rule verified_present [OF free h [unfolded True] r])
      have l': "lasting s (present dl q claim i n (iq_artifacts q))" by (rule lasting_present [OF q i order_refl])
      have "yields (present dl q claim i n (iq_artifacts q))
         (bnd (linked_note s i (fget m (U ''note_id''))) (\<lambda>(note_id, note_path, snapshot).
          bnd (ensure_mirror s dl m i note_id note_path snapshot) (\<lambda>u.
          replay s dl q i m n current arts note_id note_path))) (answered dl q claim)"
        by (rule step [OF keeps_linked_note [OF l']], simp only: split_paired_all prod.case,
            rule step [OF keeps_ensure_mirror [OF l']], rule yields_replay [OF q i])
      then show ?thesis using True p by (auto elim: triple_weaken)
    next
      case False
      have "yields (present dl q claim i 0 [])
         (bnd (linked_note s i (fget m (U ''note_id''))) (\<lambda>(note_id, note_path, snapshot).
          bnd (ensure_mirror s dl m i note_id note_path snapshot) (\<lambda>u.
          revise s dl q ident i m (n + 1) note_id note_path))) (answered dl q claim)"
        by (rule step [OF keeps_linked_note [OF l]], simp only: split_paired_all prod.case,
            rule step [OF keeps_ensure_mirror [OF l]], rule yields_revise [OF q i])
      with False show ?thesis by simp
    qed
    show ?case
    proof (rule step [OF keeps_read_json [OF l]], rule step [OF keeps_demand], rule step [OF keeps_of_sum],
        rule step [OF keeps_of_sum], rule step [OF keeps_of_sum], rule triple_bnd [OF yields_of_sum], rule triple_assume, goal_cases)
      case (1 m u n current arts h d)
      then have h: "content_identity dl (pairs_of (st_objects s) arts) = Inr h" by blast
      show ?case
        by (rule triple_weaken [OF triple_bnd [OF v known [OF h]]]) auto
    qed
  qed (auto intro: start)
qed auto

lemma yields_transaction:
  assumes "lasting s P" and m: "yields P m Q" and last: "\<And>x. lasting s (Q x)"
  shows "yields P (transaction s m) Q"
proof -
  have c: "yields (Q x) (bnd (commit s) (\<lambda>u. ret x)) Q" for x
    by (rule triple_bnd [OF keeps_yields [OF keeps_commit [OF last]]]) (rule triple_ret)
  have "yields P (finish s m) Q"
  proof (rule tripleI)
    fix w x w' assume b: "finish s m w = (Inr x, w')" and P: "P (w_disk w)"
    then obtain y w1 where "m w = (Inr y, w1)" "bnd (commit s) (\<lambda>u. ret y) w1 = (Inr x, w')"
      by (auto simp: finish_def split: prod.splits sum.splits)
    with P c m show "Q x (w_disk w')" by (blast dest: tripleD)
  qed simp
  then show ?thesis
    unfolding transaction_def by (rule triple_bnd [OF keeps_yields [OF keeps_begin]])
qed

lemma lasting_answered:
  assumes q: "sources_quiet s dl q c"
  shows "lasting s (answered dl q c r)"
proof (cases "is_valid_id (PStr (ir_source r))")
  case True
  then show ?thesis unfolding answered_def by (rule lasting_present [OF q _ order_refl])
next
  case False
  then have "\<not> answered dl q c r d" for d
    by (auto simp: answered_def present_def claimed_def claimed_source_def split: option.splits pyval.splits if_splits)
  then show ?thesis by (simp add: lasting_def)
qed

lemma yields_ingest:
  assumes q: "\<And>c. claim_path dl (iq_provider q) (iq_external q) = Inr c \<Longrightarrow> sources_quiet s dl q c" and free: "collision_free dl"
    and ids: "\<And>n. is_valid_id (PStr (dl_source_id dl n))" and rb: "\<And>i. reads_back dl (claim_document q i)"
    and wf: "lasting s wf_fsys"
  shows "yields wf_fsys (ingest s dl q sent)
    (\<lambda>r d. \<exists>c. claim_path dl (iq_provider q) (iq_external q) = Inr c \<and> answered dl q c r d)"
proof -
  have body: "yields wf_fsys (catching (transaction s
       (bnd (query s (\<lambda>b. ())) (\<lambda>u. bnd (read_claim s c) (\<lambda>data.
        case data of None \<Rightarrow> ingest_new s dl q ident c | Some d \<Rightarrow> ingest_existing s dl q ident d)))) (typed_db s))
      (answered dl q c)"
    if c: "claim_path dl (iq_provider q) (iq_external q) = Inr c"
      and ident: "content_identity dl (pairs_of (st_objects s) (artifact_metas dl q)) = Inr ident" for c ident
  proof -
    note qc = q [OF c]
    have read: "yields wf_fsys (read_claim s c) (\<lambda>data d. case data of None \<Rightarrow> wf_fsys d | Some b \<Rightarrow> held [] c b d)"
      unfolding read_claim_def read_bytes_def
      by (rule triple_catching [where R = "\<lambda>e. wf_fsys"],
          rule triple_bnd [where R = "\<lambda>b d. held [] c b d", OF triple_disk_step [OF wf]])
        (auto intro: triple_ret yields_raise simp: held_def split: option.splits if_splits)
    have inner: "yields wf_fsys (bnd (query s (\<lambda>b. ())) (\<lambda>u. bnd (read_claim s c) (\<lambda>data.
        case data of None \<Rightarrow> ingest_new s dl q ident c | Some d \<Rightarrow> ingest_existing s dl q ident d))) (answered dl q c)"
    proof (rule triple_bnd [OF keeps_yields [OF keeps_query [OF wf]]], rule triple_bnd [OF read], goal_cases)
      case (1 u data)
      then show ?case
        using yields_ingest_new [OF qc ids rb] yields_ingest_existing [OF qc free ident] by (cases data) auto
    qed
    show ?thesis
      by (rule yields_catching [OF yields_transaction [OF wf inner]]) (auto simp: typed_db_def intro: yields_raise lasting_answered [OF qc] split: option.splits)
  qed
  show ?thesis
    unfolding ingest_def Let_def
    by (rule triple_if, rule yields_raising, rule triple_bnd [OF yields_of_sum], rule triple_bnd [OF yields_of_sum],
        rule triple_assume, rule triple_weaken [OF body]) auto
qed

end
