(* ===== verification/SourceClaims.thy ===== *)
theory SourceClaims
  imports SourceStored
begin

text \<open>
  A first ingest withdraws what it cannot finish: on a disk that does not fail, whatever the database
  and the notes do, a claim is left only beside the manifest of its source.
\<close>

section \<open>A disk that does not fail\<close>

definition disk_holds :: "'d site \<Rightarrow> bool" where
  "disk_holds s \<longleftrightarrow> (\<forall>n. os_fault s n = None)"

definition unclaimed_name :: "str \<Rightarrow> fsys \<Rightarrow> bool" where
  "unclaimed_name c d \<longleftrightarrow> file_at d c = None"

lemma triple_sure_step:
  assumes "disk_holds s" and "lasting s P" and "\<And>now d x d'. f now d = Inr (x, d') \<Longrightarrow> P d \<Longrightarrow> Q x d'"
    and "\<And>now d e. f now d = Inl e \<Longrightarrow> P d \<Longrightarrow> E e d"
  shows "triple P (disk_step s f) Q E"
  using lasting_tick [OF assms(2)] assms(1,3,4)
  by (auto simp: triple_def disk_step_def disk_holds_def Let_def split: option.splits sum.splits)

lemma lasting_true: "lasting s (\<lambda>d. True)"
  by (simp add: lasting_def)

lemma unlinked_name: "unclaimed_name c (without_name c d)"
  by (simp add: unclaimed_name_def)

lemma unlink_keeps_name: "unclaimed_name c d \<Longrightarrow> unclaimed_name c (without_name p d)"
  by (simp add: unclaimed_name_def)

lemma triple_swallowed: "triple (\<lambda>d. True) (catching m (\<lambda>e. ret z)) (\<lambda>x d. True) (\<lambda>e d. False)"
  by (rule triple_catching [where R = "\<lambda>e d. True"]) (auto intro: triple_ret tripleI)

lemma triple_unlink_all: "triple (\<lambda>d. True) (unlink_all s ps) (\<lambda>u d. True) (\<lambda>e d. False)"
  by (induction ps) (auto intro: triple_ret triple_bnd [OF triple_swallowed])

lemma triple_remove_tree: "triple (\<lambda>d. True) (remove_tree s p) (\<lambda>u d. True) (\<lambda>e d. False)"
  unfolding remove_tree_def
  by (rule triple_bnd [OF triple_swallowed], rule triple_bnd [OF triple_unlink_all], rule triple_swallowed)

lemma triple_finally:
  assumes "triple P m (\<lambda>x. R) (\<lambda>e. R)" and "keeps R c"
  shows "triple P (finally_do m c) (\<lambda>x. R) (\<lambda>e. R)"
proof -
  have "R (w_disk w')" if b: "finally_do m c w = (r, w')" and P: "P (w_disk w)" for w r w'
  proof -
    obtain r1 w1 where 1: "m w = (r1, w1)" by (cases "m w")
    obtain r2 w2 where 2: "c w1 = (r2, w2)" by (cases "c w1")
    have "R (w_disk w1)" using tripleD [OF assms(1)] 1 P by (cases r1) auto
    then have "R (w_disk w2)" using tripleD [OF assms(2)] 2 by (cases r2) auto
    with b 1 2 show ?thesis by (cases r2) (auto simp: finally_do_def)
  qed
  then show ?thesis by (blast intro: tripleI)
qed

lemma triple_withdraw:
  assumes sure: "disk_holds s" and l: "lasting s (unclaimed_name c)"
  shows "triple (\<lambda>d. True) (withdraw_ingest s i c projection) (\<lambda>u. unclaimed_name c) (\<lambda>e. unclaimed_name c)"
  unfolding withdraw_ingest_def
proof (rule triple_bnd [where R = "\<lambda>u d. True"])
  show "triple (\<lambda>d. True) (remove_tree s (source_path i)) (\<lambda>u d. True) (\<lambda>e. unclaimed_name c)"
    by (rule triple_weaken [OF triple_remove_tree]) auto
  have page: "keeps (unclaimed_name c) (case projection of None \<Rightarrow> ret ()
      | Some p \<Rightarrow> (case st_resolve s p of None \<Rightarrow> raise_exn PyFault
          | Some g \<Rightarrow> catching (unlink_missing_ok s g) (\<lambda>e. raise_exn (notes_unavailable s e))))"
    by (auto split: option.splits intro!: keeps_intros keeps_disk_step [OF l] unlink_keeps_name simp: unlink_missing_ok_def)
  have claim: "triple (\<lambda>d. True) (catching (unlink_missing_ok s c) (\<lambda>e. raise_exn (sources_unavailable s e)))
      (\<lambda>u. unclaimed_name c) (\<lambda>e. unclaimed_name c)"
    unfolding unlink_missing_ok_def
    by (rule triple_catching [where R = "\<lambda>e d. False", OF triple_sure_step [OF sure lasting_true]])
      (auto intro: unlinked_name triple_raise)
  show "triple (\<lambda>d. True) (finally_do (catching (unlink_missing_ok s c) (\<lambda>e. raise_exn (sources_unavailable s e)))
      (case projection of None \<Rightarrow> ret ()
      | Some p \<Rightarrow> (case st_resolve s p of None \<Rightarrow> raise_exn PyFault
          | Some g \<Rightarrow> catching (unlink_missing_ok s g) (\<lambda>e. raise_exn (notes_unavailable s e)))))
      (\<lambda>u. unclaimed_name c) (\<lambda>e. unclaimed_name c)" for u :: unit
    by (rule triple_finally [OF claim page])
qed

lemma triple_undone:
  assumes "disk_holds s" and "lasting s (unclaimed_name c)" and "yields P m Q"
  shows "triple P (undoing s i c projection m) Q (\<lambda>e. unclaimed_name c)"
  unfolding undoing_def
  by (rule triple_catching [OF assms(3)], rule triple_bnd [OF triple_withdraw [OF assms(1,2)]]) (rule triple_raise)

section \<open>A first ingest\<close>

text \<open>The claim is there with its source, and the manifest of that source.\<close>

definition founded :: "doc_lib \<Rightarrow> ingest_request \<Rightarrow> str \<Rightarrow> fsys \<Rightarrow> bool" where
  "founded dl q c d \<longleftrightarrow> (\<exists>i. claimed dl q c i d \<and> is_valid_id (PStr i) \<and> (\<exists>b. held [] (manifest_path i) b d))"

definition settled_claim :: "doc_lib \<Rightarrow> ingest_request \<Rightarrow> str \<Rightarrow> fsys \<Rightarrow> bool" where
  "settled_claim dl q c d \<longleftrightarrow> unclaimed_name c d \<or> founded dl q c d"

text \<open>The others bring no claim and take no manifest.\<close>

definition claims_quiet :: "'d site \<Rightarrow> doc_lib \<Rightarrow> ingest_request \<Rightarrow> str \<Rightarrow> bool" where
  "claims_quiet s dl q c \<longleftrightarrow> sources_quiet s dl q c \<and> lasting s (unclaimed_name c) \<and>
     (\<forall>i b. is_valid_id (PStr i) \<longrightarrow> lasting s (held [] (manifest_path i) b))"

lemma lasting_founded: "claims_quiet s dl q c \<Longrightarrow> lasting s (founded dl q c)"
proof -
  assume q: "claims_quiet s dl q c"
  have "lasting s (claimed dl q c i)" for i
    using q ordinary_lasting [OF quiet_claim] unfolding claims_quiet_def lasting_def claimed_def by meson
  with q show ?thesis unfolding claims_quiet_def lasting_def founded_def by meson
qed

lemma triple_place_founded:
  assumes q: "claims_quiet s dl q c" and i: "is_valid_id (PStr i)"
  shows "yields (present dl q c i 1 (iq_artifacts q)) (place_source s dl q ident i j now p r g data) (\<lambda>u. founded dl q c)"
proof -
  have sq: "sources_quiet s dl q c" and lm: "lasting s (held [] (manifest_path i) b)" for b
    using q i by (auto simp: claims_quiet_def)
  have made: "yields (present dl q c i 1 (iq_artifacts q)) (create_exclusive s (manifest_path i) data) (\<lambda>u. founded dl q c)" for data
    unfolding create_exclusive_def
  proof (rule triple_disk_step [OF lasting_present [OF sq i order_refl]])
    fix now d x d'
    assume m: "make_file (manifest_path i) (manifest_path i) data now d = Inr (x, d')" and p: "present dl q c i 1 (iq_artifacts q) d"
    then have "held [] (manifest_path i) data d'"
      using make_file_result [OF m, of "manifest_path i"] by (auto simp: held_def present_def)
    moreover have "claimed dl q c i d'" using p make_file_held [OF m] by (auto simp: claimed_def present_def)
    ultimately show "founded dl q c d'" using i by (auto simp: founded_def)
  qed simp
  have kept: "keeps (founded dl q c) (create_exclusive s g data)"
  proof -
    have c1: "keeps (held [] c b) (create_exclusive s g data)" for b
      by (intro keeps_create_exclusive ordinary_lasting [OF quiet_claim [OF sq]])
    have c2: "keeps (held [] (manifest_path k) b) (create_exclusive s g data)" if "is_valid_id (PStr k)" for k b
      using q that by (intro keeps_create_exclusive) (simp add: claims_quiet_def)
    have "keeps (\<lambda>d. claimed dl q c k d \<and> is_valid_id (PStr k) \<and> (\<exists>b. held [] (manifest_path k) b d)) (create_exclusive s g data)" for k
    proof (cases "is_valid_id (PStr k)")
      case True
      show ?thesis
        unfolding claimed_def by (intro keeps_conj keeps_ex keeps_const c1 c2 [OF True])
    next
      case False
      then show ?thesis by (simp add: triple_def split: sum.splits)
    qed
    then show ?thesis unfolding founded_def by (rule keeps_ex)
  qed
  show ?thesis
    unfolding place_source_def
    by (rule triple_bnd [OF made], rule yields_catching [OF keeps_yields [OF kept] yields_raise])
qed

lemma triple_ingest_new_settled:
  assumes sure: "disk_holds s" and q: "claims_quiet s dl q c" and ids: "\<And>n. is_valid_id (PStr (dl_source_id dl n))"
    and rb: "\<And>i. reads_back dl (claim_document q i)"
  shows "triple (\<lambda>d. wf_fsys d \<and> unclaimed_name c d) (ingest_new s dl q ident c) (\<lambda>r. founded dl q c) (\<lambda>e. unclaimed_name c)"
proof -
  let ?P = "\<lambda>d. wf_fsys d \<and> unclaimed_name c d"
  have sq: "sources_quiet s dl q c" and ln: "lasting s (unclaimed_name c)" using q by (auto simp: claims_quiet_def)
  have l: "lasting s ?P" by (rule lasting_conj [OF quiet_wf [OF sq] ln])
  note undone = triple_undone [OF sure ln]
  have tail: "triple (present dl q c i 1 [])
      (bnd (undoing s i c None (begin_source s dl q ident i j now fm rel)) (\<lambda>(projection, created, data).
       bnd (undoing s i c (if created then Some projection else None)
              (place_source s dl q ident i j now projection rel g data)) (\<lambda>u.
       ret \<lparr>ir_source = i, ir_revision = 1, ir_created = True, ir_unstored = [], ir_note = j,
            ir_note_path = rel, ir_note_created = True, ir_projection = projection\<rparr>)))
      (\<lambda>r. founded dl q c) (\<lambda>e. unclaimed_name c)"
    if i: "is_valid_id (PStr i)" for i j now fm rel g
    by (rule triple_bnd [OF undone [OF yields_begin_source [OF sq i]]], simp only: split_paired_all prod.case,
        rule triple_bnd [OF undone [OF triple_place_founded [OF q i]]]) (rule triple_ret)
  have create: "triple ?P (catching (create_exclusive s c (dl_text dl (PMap (claim_document q i))))
       (\<lambda>e. raise_exn (sources_unavailable s e))) (\<lambda>u. present dl q c i 1 []) (\<lambda>e. unclaimed_name c)" if "is_valid_id (PStr i)" for i
  proof (rule triple_catching [where R = "\<lambda>e. unclaimed_name c"])
    have ok: "yields wf_fsys (create_exclusive s c (dl_text dl (PMap (claim_document q i)))) (\<lambda>u. present dl q c i 1 [])"
      by (rule yields_claim [OF sq]) (simp add: claim_reads_back [OF rb that])
    have bad: "triple ?P (create_exclusive s c (dl_text dl (PMap (claim_document q i)))) (\<lambda>u d. True) (\<lambda>e. unclaimed_name c)"
      unfolding create_exclusive_def by (rule triple_disk_step [OF l]) auto
    show "triple ?P (create_exclusive s c (dl_text dl (PMap (claim_document q i)))) (\<lambda>u. present dl q c i 1 []) (\<lambda>e. unclaimed_name c)"
      by (rule tripleI) (use tripleD(1) [OF ok] tripleD(2) [OF bad] in blast)+
  qed (rule triple_raise)
  have step: "keeps ?P m \<Longrightarrow> (\<And>x. triple ?P (f x) Q (\<lambda>e. unclaimed_name c)) \<Longrightarrow> triple ?P (bnd m f) Q (\<lambda>e. unclaimed_name c)" for m f Q
    by (rule triple_bnd [where R = "\<lambda>x. ?P"]) (auto elim: triple_weaken)
  have drawn: "triple ?P (\<lambda>w. (Inr (dl_source_id dl (w_tick w), st_new_id s (w_tick w)), w))
      (\<lambda>p d. ?P d \<and> is_valid_id (PStr (fst p))) (\<lambda>e. unclaimed_name c)"
    using ids by (auto simp: triple_def)
  show ?thesis
    unfolding ingest_new_def
  proof (rule triple_bnd [OF drawn], goal_cases)
    case (1 p)
    obtain i j where p: "p = (i, j)" by (cases p)
    show ?case
      unfolding p prod.case fst_conv Let_def
    proof (rule triple_assume, rule triple_weaken [where P = ?P and Q = "\<lambda>r. founded dl q c" and E = "\<lambda>e. unclaimed_name c"], goal_cases)
      case (1 d)
      then have i: "is_valid_id (PStr i)" by blast
      show ?case
        by (rule step [OF keeps_now], rule step [OF keeps_demand_ingestible [OF l]], rule triple_option [OF triple_raise], blast,
            rule step [OF keeps_existing_stems [OF l]], rule step [OF keeps_free_stem], rule step [OF keeps_query [OF l]],
            rule step [OF keeps_demand], rule triple_bnd [OF create [OF i]], rule tail [OF i])
    qed auto
  qed
qed

lemma triple_settled_transaction:
  assumes l: "lasting s R" and m: "triple P m (\<lambda>x. R) (\<lambda>e. R)"
  shows "triple P (transaction s m) (\<lambda>x. R) (\<lambda>e. R)"
proof -
  have c: "keeps R (bnd (commit s) (\<lambda>u. ret x))" for x
    by (intro keeps_seq keeps_commit keeps_ret l)
  have "R (w_disk w')" if b: "finish s m w = (r, w')" and P: "P (w_disk w)" for w r w'
  proof -
    obtain r1 w1 where 1: "m w = (r1, w1)" by (cases "m w")
    have "R (w_disk w1)" using tripleD [OF m] 1 P by (cases r1) auto
    then show ?thesis using b 1 tripleD [OF c] by (cases r1; cases r) (auto simp: finish_def)
  qed
  then have "triple P (finish s m) (\<lambda>x. R) (\<lambda>e. R)" by (blast intro: tripleI)
  then show ?thesis
    unfolding transaction_def by (rule triple_bnd [where R = "\<lambda>u. P", rotated]) (auto simp: triple_def begin_tx_def)
qed

lemma triple_first_ingest:
  assumes sure: "disk_holds s" and q: "\<And>c. claim_path dl (iq_provider q) (iq_external q) = Inr c \<Longrightarrow> claims_quiet s dl q c"
    and ids: "\<And>n. is_valid_id (PStr (dl_source_id dl n))" and rb: "\<And>i. reads_back dl (claim_document q i)"
    and c: "claim_path dl (iq_provider q) (iq_external q) = Inr c"
  shows "triple (\<lambda>d. wf_fsys d \<and> unclaimed_name c d) (ingest s dl q sent)
    (\<lambda>r. settled_claim dl q c) (\<lambda>e. settled_claim dl q c)"
proof -
  let ?P = "\<lambda>d. wf_fsys d \<and> unclaimed_name c d" and ?S = "settled_claim dl q c"
  note qc = q [OF c]
  have sq: "sources_quiet s dl q c" and ln: "lasting s (unclaimed_name c)" using qc by (auto simp: claims_quiet_def)
  have l: "lasting s ?P" by (rule lasting_conj [OF quiet_wf [OF sq] ln])
  have ls: "lasting s ?S"
    using ln lasting_founded [OF qc] unfolding lasting_def settled_claim_def by blast
  have step: "keeps ?P m \<Longrightarrow> (\<And>x. triple ?P (f x) Q (\<lambda>e. ?S)) \<Longrightarrow> triple ?P (bnd m f) Q (\<lambda>e. ?S)" for m f Q
    by (rule triple_bnd [where R = "\<lambda>x. ?P"]) (auto elim: triple_weaken simp: settled_claim_def)
  have read: "triple ?P (read_claim s c) (\<lambda>data d. ?P d \<and> data = None) (\<lambda>e. ?S)"
    unfolding read_claim_def read_bytes_def
    by (rule triple_catching [where R = "\<lambda>e. ?P"], rule triple_bnd [where R = "\<lambda>b d. False", OF triple_disk_step [OF l]])
      (auto intro: triple_ret triple_raise tripleI simp: unclaimed_name_def settled_claim_def split: option.splits)
  have inner: "triple ?P (bnd (query s (\<lambda>b. ())) (\<lambda>u. bnd (read_claim s c) (\<lambda>data.
        case data of None \<Rightarrow> ingest_new s dl q ident c | Some d \<Rightarrow> ingest_existing s dl q ident d)))
      (\<lambda>r. ?S) (\<lambda>e. ?S)" for ident
  proof (rule step [OF keeps_query [OF l]], rule triple_bnd [OF read], goal_cases)
    case (1 u data)
    have "triple ?P (ingest_new s dl q ident c) (\<lambda>r. ?S) (\<lambda>e. ?S)"
      by (rule triple_weaken [OF triple_ingest_new_settled [OF sure qc ids rb]]) (auto simp: settled_claim_def)
    then show ?case
      by (cases data) (auto elim: triple_weaken simp: triple_def)
  qed
  have body: "triple ?P (catching (transaction s (bnd (query s (\<lambda>b. ())) (\<lambda>u. bnd (read_claim s c) (\<lambda>data.
        case data of None \<Rightarrow> ingest_new s dl q ident c | Some d \<Rightarrow> ingest_existing s dl q ident d)))) (typed_db s))
      (\<lambda>r. ?S) (\<lambda>e. ?S)" for ident
    by (rule triple_catching [OF triple_settled_transaction [OF ls inner] keeps_typed_db [OF ls]])
  have at: "triple (\<lambda>d. wf_fsys d \<and> unclaimed_name c d \<and> x = c)
      (catching (transaction s (bnd (query s (\<lambda>b. ())) (\<lambda>u. bnd (read_claim s x) (\<lambda>data.
        case data of None \<Rightarrow> ingest_new s dl q ident x | Some d \<Rightarrow> ingest_existing s dl q ident d)))) (typed_db s))
      (\<lambda>r. ?S) (\<lambda>e. ?S)" for x ident
    by (cases "x = c") (use body in \<open>auto simp: triple_def\<close>)
  show ?thesis
    unfolding ingest_def Let_def c
    by (rule triple_if, rule step [OF keeps_record_rejection [OF l] triple_raise], simp add: settled_claim_def,
        rule step [OF keeps_of_sum], rule triple_bnd [where R = "\<lambda>x d. ?P d \<and> x = c"])
      (auto simp: of_sum_def intro: triple_ret at)
qed

end
