(* ===== verification/SourceStore.thy ===== *)
theory SourceStore
  imports SourceClaims NoteSample
begin

text \<open>
  The properties of an ingest, with a store on which they are applied.
\<close>

section \<open>A store with a source\<close>

text \<open>Notes paths do not begin with a slash; the documents are framed by the lengths of their texts.\<close>

definition source_site :: "fmap site" where
  "source_site = sample_site\<lparr>st_resolve := (\<lambda>r. if r \<noteq> [] \<and> hd r = 47 then None else Some r)\<rparr>"

definition frame_claim :: "fmap \<Rightarrow> bytes" where
  "frame_claim d =
     (let p = text_of plain_objects (fget d (U ''provider'')); x = text_of plain_objects (fget d (U ''external_source_id''))
      in [length p] @ p @ [length x] @ x @ text_of plain_objects (fget d (U ''source_id'')))"

definition unframe_claim :: "bytes \<Rightarrow> pyval" where
  "unframe_claim b =
     (let n = hd b; p = take n (tl b); r = drop n (tl b); m = hd r
      in PMap [(U ''schema_version'', PInt 1), (U ''provider'', PStr p),
               (U ''external_source_id'', PStr (take m (tl r))), (U ''source_id'', PStr (drop m (tl r)))])"

definition sample_id :: str where
  "sample_id = U ''01ARZ3NDEKTSV4RRFFQ69G5FAV''"

definition sample_docs :: doc_lib where
  "sample_docs = \<lparr>dl_text = (\<lambda>v. frame_claim (the_map v)), dl_read = (\<lambda>b. Some (unframe_claim b)), dl_iso = (\<lambda>t. []),
     dl_local = (\<lambda>t. []), dl_when = (\<lambda>v. Some (0, True)), dl_sha = (\<lambda>b. b), dl_int = (\<lambda>v. Some 0),
     dl_manifest = (\<lambda>d. None), dl_below = (\<lambda>root name. Some (path_join root name)), dl_source_id = (\<lambda>n. sample_id)\<rparr>"

definition sample_request :: ingest_request where
  "sample_request = \<lparr>iq_provider = U ''mail'', iq_external = U ''42'', iq_type = U ''email'', iq_origin = [], iq_captured = None,
     iq_metadata = [], iq_artifacts = [\<lparr>in_name = U ''a.txt'', in_mime = U ''text/plain'', in_bytes = U ''hello''\<rparr>],
     iq_title = U ''Plan'', iq_body = [], iq_frontmatter = [], iq_size = 9\<rparr>"

definition old_artifact :: str where
  "old_artifact = U ''/sources/01BX5ZZKBKACTAV9WEVGEMMVRZ/r0001/a.txt''"

definition source_world :: world where
  "source_world = sample_world\<lparr>w_disk :=
     \<lparr>d_names = [(old_artifact, 0)], d_nodes = (\<lambda>n. \<lparr>n_bytes = U ''hello'', n_mtime = 0\<rparr>), d_fresh = 1,
      d_dirs = folders_of old_artifact\<rparr>\<rparr>"

lemma source_site_simps [simp]:
  "st_resolve source_site r = (if r \<noteq> [] \<and> hd r = 47 then None else Some r)"
  "others source_site n x = x" "st_temp source_site n p = U ''.tmp''"
  by (simp_all add: source_site_def sample_site_def)

lemma sample_docs_simps [simp]:
  "dl_text sample_docs v = frame_claim (the_map v)" "dl_read sample_docs b = Some (unframe_claim b)"
  "dl_sha sample_docs b = b" "dl_below sample_docs root name = Some (path_join root name)"
  "dl_source_id sample_docs n = sample_id"
  by (simp_all add: sample_docs_def)

lemma lasting_source_site [simp]: "lasting source_site P"
  by (simp add: lasting_def)

lemma sample_id_valid [simp]: "is_valid_id (PStr sample_id)"
  by (simp add: is_valid_id_def ulid_text_def ulid_char_def sample_id_def U_def)

lemma sample_reads_back: "reads_back sample_docs (claim_document q i)"
  unfolding reads_back_def by (auto simp: frame_claim_def unframe_claim_def claim_document_def fget_def text_of_def Let_def)

lemma last_part_plain: "rpartition_on c rel = (a, y, n) \<Longrightarrow> c \<notin> set n"
  by (auto simp: rpartition_on_def dest: set_takeWhileD split: if_splits)

lemma page_path_relative: "page_path source_site rel = Some f \<Longrightarrow> f \<noteq> [] \<and> hd f \<noteq> 47"
proof -
  assume p: "page_path source_site rel = Some f"
  obtain a y n where r: "rpartition_on 47 rel = (a, y, n)" by (cases "rpartition_on 47 rel") auto
  with p have n: "n \<noteq> []" "f = path_join a n" "a = [] \<or> hd a \<noteq> 47"
    by (auto simp: page_path_def split: if_splits)
  then have "hd n \<noteq> 47" using last_part_plain [OF r] by (metis list.set_sel(1))
  with n show ?thesis by (auto simp: path_join_def)
qed

lemma sources_are_no_pages:
  "hd f = 47 \<Longrightarrow> f \<noteq> [] \<Longrightarrow> st_resolve source_site rel \<noteq> Some f \<and> page_path source_site rel \<noteq> Some f"
  using page_path_relative [of rel f] by (auto split: if_splits)

lemma manifest_path_end: "take 14 (rev (manifest_path i)) = rev (U ''/manifest.json'')"
  by (simp add: manifest_path_def source_path_def path_join_def SOURCES_def U_def)

lemma sample_ordinary:
  assumes "hd f = 47" "f \<noteq> []" "f \<noteq> U ''.tmp''" "set F \<subseteq> set (folders_of f)" and "take 14 (rev f) \<noteq> rev (U ''/manifest.json'')"
  shows "ordinary source_site F f b"
  using sources_are_no_pages [OF assms(1,2)] assms manifest_path_end by (auto simp: ordinary_def secure_def)

lemma source_world_wf: "wf_fsys (w_disk source_world)"
  by (auto simp: source_world_def wf_fsys_def folders_of_def folder_prefixes_def old_artifact_def U_def upt_rec split: if_splits)

section \<open>The properties\<close>

text \<open>C1. An ingest changes no file that was there: whatever is sent, whichever steps fail and whatever others do to
  other files meanwhile, a note, a claim or an artifact of an earlier revision holds its bytes after it,
  whether the ingest answers or not.  Excepted are the manifest of a source and a page the program generated for one.\<close>

theorem ingest_leaves_files:
  assumes "unclaimed s dl f b" and "wf_fsys (w_disk w)" and "file_at (w_disk w) f = Some b"
    and "set (folders_of f) \<subseteq> set (d_dirs (w_disk w))"
  shows "file_at (w_disk (snd (ingest s dl q sent w))) f = Some b"
proof -
  obtain r w' where i: "ingest s dl q sent w = (r, w')" by fastforce
  have "held (folders_of f) f b (w_disk w)" using assms by (simp add: held_def)
  with keeps_ingest [OF assms(1)] i have "held (folders_of f) f b (w_disk w')"
    by (cases r) (blast dest: tripleD)+
  with i show ?thesis by (simp add: held_def)
qed

text \<open>A stored artifact and an ingest of something else.\<close>

lemma ingest_leaves_files_witness:
  "file_at (w_disk (snd (ingest source_site sample_docs sample_request None source_world))) old_artifact = Some (U ''hello'')"
proof (rule ingest_leaves_files)
  have "ordinary source_site (folders_of old_artifact) old_artifact (U ''hello'')"
    by (rule sample_ordinary) (simp_all add: old_artifact_def U_def)
  moreover have "\<not> below (source_path sample_id) old_artifact"
    by (simp add: below_def source_path_def path_join_def SOURCES_def sample_id_def old_artifact_def startswith_def U_def)
  ultimately show "unclaimed source_site sample_docs old_artifact (U ''hello'')"
    by (simp add: unclaimed_def)
  show "file_at (w_disk source_world) old_artifact = Some (U ''hello'')"
    by (simp add: source_world_def file_at_def node_at_def)
  show "wf_fsys (w_disk source_world)" by (rule source_world_wf)
qed (simp add: source_world_def)

text \<open>C2. What an ingest answers is on disk: the claim of the external identifier leads to the source it names, and
  the revision it names holds a file for every artifact of the request with the digest of the request's
  bytes, for a new source, a new revision and a replay alike.\<close>

theorem answered_ingest_is_stored:
  assumes "\<And>c. claim_path dl (iq_provider q) (iq_external q) = Inr c \<Longrightarrow> sources_quiet s dl q c" and "collision_free dl"
    and "\<And>n. is_valid_id (PStr (dl_source_id dl n))" and "\<And>i. reads_back dl (claim_document q i)"
    and "lasting s wf_fsys" and "wf_fsys (w_disk w)"
  shows "case ingest s dl q sent w of (Inl e, w') \<Rightarrow> True
    | (Inr r, w') \<Rightarrow>
       (case claim_path dl (iq_provider q) (iq_external q) of Inl e \<Rightarrow> False
        | Inr c \<Rightarrow> (case file_at (w_disk w') c of None \<Rightarrow> False | Some b \<Rightarrow> claimed_source dl b q = Inr (ir_source r))) \<and>
       list_all (\<lambda>a. case file_at (w_disk w') (artifact_path (ir_source r) (ir_revision r) (in_name a)) of
           None \<Rightarrow> False | Some b \<Rightarrow> dl_sha dl b = dl_sha dl (in_bytes a)) (iq_artifacts q)"
proof (cases "ingest s dl q sent w")
  case (Pair x w')
  show ?thesis
  proof (cases x)
    case (Inr r)
    from tripleD(1) [OF yields_ingest [OF assms(1-5)] Pair [unfolded Inr] assms(6)] obtain c where
      "claim_path dl (iq_provider q) (iq_external q) = Inr c" "answered dl q c r (w_disk w')"
      by blast
    moreover have "stored dl i n a d \<Longrightarrow> case file_at d (artifact_path i n (in_name a)) of
        None \<Rightarrow> False | Some b \<Rightarrow> dl_sha dl b = dl_sha dl (in_bytes a)" for i n a d
      by (auto simp: stored_def held_def)
    ultimately show ?thesis
      using Pair Inr by (auto simp: answered_def present_def claimed_def held_def list_all_iff)
  qed (simp add: Pair)
qed

text \<open>The store of the sample and its request.\<close>

lemma sample_claim_path:
  "claim_path sample_docs (iq_provider sample_request) (iq_external sample_request) =
     Inr (U ''/sources/.external-id-'' @ json_strings [U ''mail'', U ''42''] @ U ''.json'')"
proof -
  have "list_all (\<lambda>c. c < 128) (json_strings [U ''mail'', U ''42''])"
    by (simp add: json_strings_def json_array_def json_string_def json_char_def U_def)
  then have "encode (json_strings [U ''mail'', U ''42'']) = Some (json_strings [U ''mail'', U ''42''])"
    by (rule encode_ascii)
  then show ?thesis
    by (simp add: claim_path_def sample_request_def path_join_def SOURCES_def) (simp add: U_def)
qed

lemma sample_quiet:
  assumes "claim_path sample_docs (iq_provider sample_request) (iq_external sample_request) = Inr c"
  shows "sources_quiet source_site sample_docs sample_request c"
proof -
  have "ordinary source_site [] c data" for data
    using assms unfolding sample_claim_path
    by (intro sample_ordinary) (auto simp: U_def json_strings_def json_array_def json_string_def json_char_def)
  moreover have "ordinary source_site [] (artifact_path i n (U ''a.txt'')) data" for i n data
    by (rule sample_ordinary)
      (simp_all add: artifact_path_def revision_path_def source_path_def path_join_def SOURCES_def U_def)
  ultimately show ?thesis
    by (simp add: sources_quiet_def sample_request_def artifact_path_def)
qed

lemma answered_ingest_is_stored_witness:
  "case ingest source_site sample_docs sample_request None source_world of (Inl e, w') \<Rightarrow> True
    | (Inr r, w') \<Rightarrow>
       (case claim_path sample_docs (iq_provider sample_request) (iq_external sample_request) of Inl e \<Rightarrow> False
        | Inr c \<Rightarrow> (case file_at (w_disk w') c of None \<Rightarrow> False
           | Some b \<Rightarrow> claimed_source sample_docs b sample_request = Inr (ir_source r))) \<and>
       list_all (\<lambda>a. case file_at (w_disk w') (artifact_path (ir_source r) (ir_revision r) (in_name a)) of
           None \<Rightarrow> False | Some b \<Rightarrow> dl_sha sample_docs b = dl_sha sample_docs (in_bytes a)) (iq_artifacts sample_request)"
proof -
  show ?thesis
    by (rule answered_ingest_is_stored) (use sample_quiet sample_reads_back source_world_wf in \<open>auto simp: collision_free_def\<close>)
qed

text \<open>C7. A first ingest strands no claim: on a disk that does not fail, whatever the database answers, whoever takes the
  note's or the page's name and however the ingest ends, the claim is either gone or leads to a source
  whose manifest is there, so that a retry can go on from it.\<close>

theorem first_ingest_strands_no_claim:
  assumes "disk_holds s" and "\<And>c. claim_path dl (iq_provider q) (iq_external q) = Inr c \<Longrightarrow> claims_quiet s dl q c"
    and "\<And>n. is_valid_id (PStr (dl_source_id dl n))" and "\<And>i. reads_back dl (claim_document q i)"
    and "claim_path dl (iq_provider q) (iq_external q) = Inr c" and "wf_fsys (w_disk w)" and "file_at (w_disk w) c = None"
  shows "case file_at (w_disk (snd (ingest s dl q sent w))) c of None \<Rightarrow> True
    | Some b \<Rightarrow> (case claimed_source dl b q of Inl e \<Rightarrow> False
        | Inr i \<Rightarrow> file_at (w_disk (snd (ingest s dl q sent w))) (manifest_path i) \<noteq> None)"
proof -
  obtain r w' where i: "ingest s dl q sent w = (r, w')" by fastforce
  have "settled_claim dl q c (w_disk w')"
    using tripleD [OF triple_first_ingest [OF assms(1-5)]] i assms(6,7) by (cases r) (auto simp: unclaimed_name_def)
  with i show ?thesis
    by (auto simp: settled_claim_def unclaimed_name_def founded_def claimed_def held_def)
qed

text \<open>The request of the sample, whose claim is not there.\<close>

lemma first_ingest_strands_no_claim_witness:
  "case file_at (w_disk (snd (ingest source_site sample_docs sample_request None source_world)))
      (U ''/sources/.external-id-'' @ json_strings [U ''mail'', U ''42''] @ U ''.json'') of None \<Rightarrow> True
    | Some b \<Rightarrow> (case claimed_source sample_docs b sample_request of Inl e \<Rightarrow> False
        | Inr i \<Rightarrow> file_at (w_disk (snd (ingest source_site sample_docs sample_request None source_world))) (manifest_path i) \<noteq> None)"
proof (rule first_ingest_strands_no_claim)
  show "disk_holds source_site"
    by (simp add: disk_holds_def source_site_def sample_site_def)
  show "claims_quiet source_site sample_docs sample_request c"
    if "claim_path sample_docs (iq_provider sample_request) (iq_external sample_request) = Inr c" for c
    using sample_quiet [OF that] by (simp add: claims_quiet_def)
  show "wf_fsys (w_disk source_world)" by (rule source_world_wf)
  show "file_at (w_disk source_world) (U ''/sources/.external-id-'' @ json_strings [U ''mail'', U ''42''] @ U ''.json'') = None"
    by (simp add: source_world_def file_at_def node_at_def old_artifact_def U_def)
qed (simp_all add: sample_reads_back sample_claim_path)

end
