(* ===== verification/FieldFilters.thy ===== *)
theory FieldFilters
  imports SchemaLaws Utf8
begin

text \<open>
  Filters on declared fields (\<open>coppermind/field_filters.py\<close>), shared by listing and search: their JSON is
  read strictly, checked against the schema, and refused when a range of dates is empty.
\<close>

section \<open>Their JSON\<close>

text \<open>
  What \<open>json.loads\<close> meets before its hooks run: objects with their pairs in order, finite floats by
  equality class, floats out of range, and the constants \<open>NaN\<close> and \<open>Infinity\<close>.
\<close>

datatype raw =
    RNull
  | RBool bool
  | RInt int
  | RFloat nat
  | RInfinite
  | RConstant
  | RStr str
  | RList "raw list"
  | RObj "(str \<times> raw) list"

datatype filter_error =
    FilterTooLong
  | FilterUnencodable
  | FilterMalformed
  | DuplicateKeys
  | NotFinite
  | NonFiniteConstant
  | NullValue
  | FieldUndeclared str
  | OperatorInvalid str key_kind
  | ValueInvalid str key_kind
  | EmptyRange str

fun hooked :: "raw \<Rightarrow> filter_error + pyval"
  and hooked_list :: "raw list \<Rightarrow> filter_error + pyval list"
  and hooked_pairs :: "(str \<times> raw) list \<Rightarrow> filter_error + (str \<times> pyval) list" where
  "hooked RNull = Inr PNone"
| "hooked (RBool b) = Inr (PBool b)"
| "hooked (RInt i) = Inr (PInt i)"
| "hooked (RFloat n) = Inr (POther n)"
| "hooked RInfinite = Inl NotFinite"
| "hooked RConstant = Inl NonFiniteConstant"
| "hooked (RStr t) = Inr (PStr t)"
| "hooked (RList vs) = sbind (hooked_list vs) (\<lambda>xs. Inr (PList xs))"
| "hooked (RObj ps) = sbind (hooked_pairs ps) (\<lambda>d. if distinct (map fst d) then Inr (PMap d) else Inl DuplicateKeys)"
| "hooked_list [] = Inr []"
| "hooked_list (v # vs) = sbind (hooked v) (\<lambda>x. sbind (hooked_list vs) (\<lambda>xs. Inr (x # xs)))"
| "hooked_pairs [] = Inr []"
| "hooked_pairs (p # ps) = sbind (hooked (snd p)) (\<lambda>x. sbind (hooked_pairs ps) (\<lambda>xs. Inr ((fst p, x) # xs)))"

datatype filter_op = OpEq | OpContains | OpGte | OpLte

record filter_clause =
  fq_field :: str
  fq_op :: filter_op
  fq_value :: pyval

definition op_named :: "str \<Rightarrow> filter_op option" where
  "op_named t = map_of [(U ''eq'', OpEq), (U ''contains'', OpContains), (U ''gte'', OpGte), (U ''lte'', OpLte)] t"

text \<open>The models: no other key, and every key is there.\<close>

definition clause_of :: "pyval \<Rightarrow> filter_clause option" where
  "clause_of v =
     (case v of PMap d \<Rightarrow>
        if set (dkeys d) \<noteq> {U ''field'', U ''op'', U ''value''} then None
        else (case (fget d (U ''field''), fget d (U ''op'')) of
            (PStr f, PStr t) \<Rightarrow>
              if f = [] \<or> 200 < length f then None
              else map_option (\<lambda>p. \<lparr>fq_field = f, fq_op = p, fq_value = fget d (U ''value'')\<rparr>) (op_named t)
          | _ \<Rightarrow> None)
      | _ \<Rightarrow> None)"

definition clauses_of :: "pyval \<Rightarrow> filter_clause list option" where
  "clauses_of v =
     (case v of PMap d \<Rightarrow>
        if set (dkeys d) \<noteq> {U ''all''} then None
        else (case fget d (U ''all'') of
            PList vs \<Rightarrow> if vs = [] \<or> 20 < length vs then None else those (map clause_of vs)
          | _ \<Rightarrow> None)
      | _ \<Rightarrow> None)"

text \<open>\<open>len(quote(raw, safe=""))\<close>: a byte that is not unreserved takes three characters.\<close>

definition unreserved :: "nat \<Rightarrow> bool" where
  "unreserved b \<longleftrightarrow> 48 \<le> b \<and> b \<le> 57 \<or> 65 \<le> b \<and> b \<le> 90 \<or> 97 \<le> b \<and> b \<le> 122 \<or> b \<in> {45, 46, 95, 126}"

definition quoted_length :: "bytes \<Rightarrow> nat" where
  "quoted_length bs = sum_list (map (\<lambda>b. if unreserved b then 1 else 3) bs)"

definition parse_filter :: "(str \<Rightarrow> raw option) \<Rightarrow> str \<Rightarrow> filter_error + filter_clause list" where
  "parse_filter json text =
     (case encode text of None \<Rightarrow> Inl FilterUnencodable
      | Some bs \<Rightarrow>
         if 8192 < quoted_length bs then Inl FilterTooLong
         else (case json text of None \<Rightarrow> Inl FilterMalformed
           | Some r \<Rightarrow> sbind (hooked r) (\<lambda>v.
               case clauses_of v of None \<Rightarrow> Inl FilterMalformed
               | Some cs \<Rightarrow> if list_ex (\<lambda>c. fq_value c = PNone) cs then Inl NullValue else Inr cs)))"

section \<open>Against the schema\<close>

text \<open>Of keys with one name the last counts.\<close>

definition declared :: "schema \<Rightarrow> str \<Rightarrow> key_def option" where
  "declared sc f = find (\<lambda>k. kd_name k = f) (rev (sc_keys sc))"

definition operators :: "key_kind \<Rightarrow> filter_op list" where
  "operators k = (case k of KList \<Rightarrow> [OpContains] | KDate \<Rightarrow> [OpEq, OpGte, OpLte] | _ \<Rightarrow> [OpEq])"

definition iso_day :: "pyval \<Rightarrow> date option" where
  "iso_day v = (case v of PStr t \<Rightarrow> (case date_fromiso10 t of Some d \<Rightarrow> if date_iso d = t then Some d else None | None \<Rightarrow> None)
                | _ \<Rightarrow> None)"

definition value_fits :: "key_def \<Rightarrow> pyval \<Rightarrow> bool" where
  "value_fits k v =
     (case kd_kind k of
        KString \<Rightarrow> is_str v
      | KEnum \<Rightarrow> (case v of PStr t \<Rightarrow> vocabulary k = [] \<or> t \<in> set (vocabulary k) | _ \<Rightarrow> False)
      | KDate \<Rightarrow> iso_day v \<noteq> None
      | KBool \<Rightarrow> is_bool v
      | KInt \<Rightarrow> (case v of PInt i \<Rightarrow> True | _ \<Rightarrow> False)
      | KList \<Rightarrow> True)"

text \<open>The bounds gathered for a field: the greatest lower one and the least upper one.\<close>

type_synonym day_ranges = "(str, str option \<times> str option) dict"

definition tighter :: "(str \<Rightarrow> str \<Rightarrow> str) \<Rightarrow> str \<Rightarrow> str option \<Rightarrow> str option" where
  "tighter pick v old = Some (case old of None \<Rightarrow> v | Some w \<Rightarrow> pick w v)"

definition bounds_of :: "day_ranges \<Rightarrow> str \<Rightarrow> str option \<times> str option" where
  "bounds_of rs f = (case dget rs f of None \<Rightarrow> (None, None) | Some b \<Rightarrow> b)"

definition with_bound :: "key_def \<Rightarrow> filter_clause \<Rightarrow> day_ranges \<Rightarrow> day_ranges" where
  "with_bound k c rs =
     (if kd_kind k \<noteq> KDate then rs
      else (case (fq_op c, fq_value c, bounds_of rs (fq_field c)) of
          (OpGte, PStr v, lo, hi) \<Rightarrow> dict_set rs (fq_field c) (tighter max v lo, hi)
        | (OpLte, PStr v, lo, hi) \<Rightarrow> dict_set rs (fq_field c) (lo, tighter min v hi)
        | _ \<Rightarrow> rs))"

fun checked_clauses :: "schema \<Rightarrow> filter_clause list \<Rightarrow> day_ranges \<Rightarrow> filter_error + day_ranges" where
  "checked_clauses sc [] rs = Inr rs"
| "checked_clauses sc (c # cs) rs =
     (case declared sc (fq_field c) of
        None \<Rightarrow> Inl (FieldUndeclared (fq_field c))
      | Some k \<Rightarrow>
         if fq_op c \<notin> set (operators (kd_kind k)) then Inl (OperatorInvalid (fq_field c) (kd_kind k))
         else if \<not> value_fits k (fq_value c) then Inl (ValueInvalid (fq_field c) (kd_kind k))
         else checked_clauses sc cs (with_bound k c rs))"

definition empty_range :: "str option \<times> str option \<Rightarrow> bool" where
  "empty_range b \<longleftrightarrow>
     (case snd b of None \<Rightarrow> U ''9999-12-31'' | Some h \<Rightarrow> h) < (case fst b of None \<Rightarrow> [] | Some l \<Rightarrow> l)"

definition validate_filter :: "(str \<Rightarrow> raw option) \<Rightarrow> str \<Rightarrow> schema \<Rightarrow> filter_error + filter_clause list" where
  "validate_filter json text sc =
     sbind (parse_filter json text) (\<lambda>cs.
     sbind (checked_clauses sc cs []) (\<lambda>rs.
     case find (\<lambda>p. empty_range (snd p)) rs of Some p \<Rightarrow> Inl (EmptyRange (fst p)) | None \<Rightarrow> Inr cs))"

section \<open>What is accepted\<close>

definition clause_fits :: "schema \<Rightarrow> filter_clause \<Rightarrow> bool" where
  "clause_fits sc c =
     (case declared sc (fq_field c) of None \<Rightarrow> False
      | Some k \<Rightarrow> fq_op c \<in> set (operators (kd_kind k)) \<and> value_fits k (fq_value c))"

definition is_bound :: "schema \<Rightarrow> filter_op \<Rightarrow> filter_clause \<Rightarrow> bool" where
  "is_bound sc p c \<longleftrightarrow> fq_op c = p \<and> (case declared sc (fq_field c) of None \<Rightarrow> False | Some k \<Rightarrow> kd_kind k = KDate)"

text \<open>A lower bound and an upper bound of one field leave a day between them.\<close>

definition leave_a_day :: "schema \<Rightarrow> filter_clause \<Rightarrow> filter_clause \<Rightarrow> bool" where
  "leave_a_day sc a b =
     (if is_bound sc OpGte a \<and> is_bound sc OpLte b \<and> fq_field a = fq_field b
      then (case (iso_day (fq_value a), iso_day (fq_value b)) of (Some l, Some h) \<Rightarrow> l \<le> h | _ \<Rightarrow> False) else True)"

section \<open>The check is the specification\<close>

definition day_values :: "schema \<Rightarrow> filter_op \<Rightarrow> str \<Rightarrow> filter_clause list \<Rightarrow> str list" where
  "day_values sc p f cs =
     concat (map (\<lambda>c. if is_bound sc p c \<and> fq_field c = f then (case fq_value c of PStr v \<Rightarrow> [v] | _ \<Rightarrow> []) else []) cs)"

definition best :: "(str set \<Rightarrow> str) \<Rightarrow> str list \<Rightarrow> str option" where
  "best pick vs = (if vs = [] then None else Some (pick (set vs)))"

definition gathered :: "schema \<Rightarrow> filter_clause list \<Rightarrow> day_ranges \<Rightarrow> bool" where
  "gathered sc cs rs \<longleftrightarrow> distinct (dkeys rs) \<and>
     (\<forall>f. bounds_of rs f = (best Max (day_values sc OpGte f cs), best Min (day_values sc OpLte f cs)))"

lemma tighter_best:
  "tighter max v (best Max vs) = best Max (vs @ [v])" "tighter min v (best Min vs) = best Min (vs @ [v])"
  by (simp_all add: tighter_def best_def max.commute min.commute)

lemma day_values_append [simp]:
  "day_values sc p f (cs @ ds) = day_values sc p f cs @ day_values sc p f ds" "day_values sc p f [] = []"
  by (simp_all add: day_values_def)

lemma iso_day_text: "iso_day v \<noteq> None \<Longrightarrow> \<exists>t. v = PStr t"
  by (cases v) (auto simp: iso_day_def)

lemma day_values_one:
  assumes "declared sc (fq_field c) = Some k" and "value_fits k (fq_value c)"
  shows "day_values sc p f [c] =
    (if kd_kind k = KDate \<and> fq_op c = p \<and> fq_field c = f then (case fq_value c of PStr v \<Rightarrow> [v] | _ \<Rightarrow> []) else [])"
  using assms by (simp add: day_values_def is_bound_def)

lemma gathered_step:
  assumes g: "gathered sc cs rs" and d: "declared sc (fq_field c) = Some k" and v: "value_fits k (fq_value c)"
  shows "gathered sc (cs @ [c]) (with_bound k c rs)"
proof (cases "kd_kind k = KDate \<and> (fq_op c = OpGte \<or> fq_op c = OpLte)")
  case True
  then obtain t where t: "fq_value c = PStr t" using v iso_day_text [of "fq_value c"] by (auto simp: value_fits_def)
  obtain lo hi where b: "bounds_of rs (fq_field c) = (lo, hi)" by fastforce
  with g have lo: "lo = best Max (day_values sc OpGte (fq_field c) cs)" and hi: "hi = best Min (day_values sc OpLte (fq_field c) cs)"
    by (auto simp: gathered_def)
  from True g show ?thesis
    by (auto simp: gathered_def with_bound_def t b bounds_of_def lo hi tighter_best day_values_one [OF d v])
next
  case False
  then have "with_bound k c rs = rs" by (auto simp: with_bound_def split: filter_op.splits)
  moreover have "day_values sc OpGte f [c] = []" "day_values sc OpLte f [c] = []" for f
    using False by (auto simp: day_values_one [OF d v])
  ultimately show ?thesis using g by (simp add: gathered_def)
qed

lemma checked_gathered:
  "gathered sc old rs \<Longrightarrow>
    (case checked_clauses sc cs rs of Inl e \<Rightarrow> \<not> list_all (clause_fits sc) cs
     | Inr rs' \<Rightarrow> list_all (clause_fits sc) cs \<and> gathered sc (old @ cs) rs')"
proof (induction cs arbitrary: old rs)
  case (Cons c cs)
  show ?case
  proof (cases "clause_fits sc c")
    case True
    then obtain k where k: "declared sc (fq_field c) = Some k" "fq_op c \<in> set (operators (kd_kind k))" "value_fits k (fq_value c)"
      by (auto simp: clause_fits_def split: option.splits)
    from Cons.IH [OF gathered_step [OF Cons.prems k(1,3)]] k True show ?thesis by (simp split: sum.splits)
  next
    case False
    then show ?thesis by (auto simp: clause_fits_def split: option.splits)
  qed
qed simp

lemma gathered_start: "gathered sc [] []"
  by (simp add: gathered_def bounds_of_def best_def)

lemma no_empty_range:
  "distinct (dkeys rs) \<Longrightarrow> find (\<lambda>p. empty_range (snd p)) rs = None \<longleftrightarrow> (\<forall>f. \<not> empty_range (bounds_of rs f))"
  by (auto simp: find_None_iff bounds_of_def empty_range_def split: option.splits dest: map_of_SomeD)

lemma iso_day_le:
  assumes "iso_day (PStr a) = Some x" and "iso_day (PStr b) = Some y"
  shows "a \<le> b \<longleftrightarrow> x \<le> y"
  using assms date_iso_le_iff [of x y] by (auto simp: iso_day_def split: option.splits if_splits dest: date_fromiso10_valid)

lemma iso_day_last: "iso_day (PStr a) = Some x \<Longrightarrow> a \<le> U ''9999-12-31''"
proof -
  assume a: "iso_day (PStr a) = Some x"
  have l: "valid_date (Date 9999 12 31)" by (simp add: valid_date_def mk_date_def days_in_month_def)
  then have "iso_day (PStr (date_iso (Date 9999 12 31))) = Some (Date 9999 12 31)"
    by (simp add: iso_day_def date_fromiso10_iso)
  moreover have "valid_date x"
    using a by (auto simp: iso_day_def split: option.splits if_splits dest: date_fromiso10_valid)
  then have "x \<le> Date 9999 12 31"
    using valid_date_bounds [of x] by (simp add: less_eq_date_def) linarith
  moreover have four: "4 = Suc (Suc (Suc (Suc 0)))" and two: "2 = Suc (Suc 0)" by simp_all
  have "date_iso (Date 9999 12 31) = U ''9999-12-31''" unfolding date_iso_def four two by (simp add: U_def)
  ultimately show ?thesis using iso_day_le [OF a] by metis
qed

definition day_text :: "str \<Rightarrow> bool" where
  "day_text v \<longleftrightarrow> iso_day (PStr v) \<noteq> None"

lemma day_values_iff:
  "v \<in> set (day_values sc p f cs) \<longleftrightarrow> (\<exists>c \<in> set cs. is_bound sc p c \<and> fq_field c = f \<and> fq_value c = PStr v)"
proof -
  have "v \<in> set (case w of PStr v \<Rightarrow> [v] | _ \<Rightarrow> []) \<longleftrightarrow> w = PStr v" for w by (cases w) auto
  then show ?thesis by (auto simp: day_values_def split: if_splits)
qed

lemma fitting_bound:
  assumes "list_all (clause_fits sc) cs" and "c \<in> set cs" and "is_bound sc p c"
  shows "iso_day (fq_value c) \<noteq> None"
  using assms by (auto simp: list_all_iff clause_fits_def is_bound_def value_fits_def split: option.splits)

lemma day_values_text: "list_all (clause_fits sc) cs \<Longrightarrow> v \<in> set (day_values sc p f cs) \<Longrightarrow> day_text v"
  using fitting_bound by (fastforce simp: day_values_iff day_text_def)

lemma range_of_best:
  assumes "\<And>v. v \<in> set ls \<Longrightarrow> day_text v" and "\<And>v. v \<in> set hs \<Longrightarrow> day_text v"
  shows "\<not> empty_range (best Max ls, best Min hs) \<longleftrightarrow> (\<forall>l \<in> set ls. \<forall>h \<in> set hs. l \<le> h)"
proof (cases "ls = [] \<or> hs = []")
  case True
  moreover have "Max (set ls) \<le> U ''9999-12-31''" if "ls \<noteq> []"
    using assms(1) that iso_day_last by (auto simp: day_text_def)
  ultimately show ?thesis by (auto simp: empty_range_def best_def not_less)
next
  case False
  then have "Max (set ls) \<le> Min (set hs) \<longleftrightarrow> (\<forall>l \<in> set ls. \<forall>h \<in> set hs. l \<le> h)"
    by auto
  with False show ?thesis by (simp add: empty_range_def best_def not_less)
qed

lemma all_leave_a_day:
  assumes "list_all (clause_fits sc) cs"
  shows "list_all (\<lambda>a. list_all (leave_a_day sc a) cs) cs \<longleftrightarrow>
    (\<forall>f. \<forall>l \<in> set (day_values sc OpGte f cs). \<forall>h \<in> set (day_values sc OpLte f cs). l \<le> h)"
    (is "?l \<longleftrightarrow> ?r")
proof -
  have t: "\<exists>t x. fq_value c = PStr t \<and> iso_day (PStr t) = Some x" if "c \<in> set cs" "is_bound sc p c" for c p
    using fitting_bound [OF assms that] iso_day_text by force
  have pair: "leave_a_day sc a b \<longleftrightarrow> (\<forall>l h. fq_value a = PStr l \<longrightarrow> fq_value b = PStr h \<longrightarrow>
      is_bound sc OpGte a \<longrightarrow> is_bound sc OpLte b \<longrightarrow> fq_field a = fq_field b \<longrightarrow> l \<le> h)"
    if "a \<in> set cs" "b \<in> set cs" for a b
    using t [OF that(1), of OpGte] t [OF that(2), of OpLte] by (auto simp: leave_a_day_def iso_day_le)
  show ?thesis unfolding list_all_iff Ball_def day_values_iff using pair by blast
qed

text \<open>C16. A filter is accepted exactly when it is well formed, every clause names a declared field with an operator and
  a value of its kind, and every pair of a lower and an upper bound on one date field leaves a day
  between them: the bounds gathered in one pass miss no pair and refuse none that is satisfiable.\<close>

theorem filter_accepted_iff:
  "(case validate_filter json text sc of Inl e \<Rightarrow> False | Inr cs \<Rightarrow> True) \<longleftrightarrow>
   (case parse_filter json text of Inl e \<Rightarrow> False
    | Inr cs \<Rightarrow> list_all (clause_fits sc) cs \<and> list_all (\<lambda>a. list_all (leave_a_day sc a) cs) cs)"
proof (cases "parse_filter json text")
  case (Inr cs)
  note g = checked_gathered [OF gathered_start, of sc cs]
  show ?thesis
  proof (cases "checked_clauses sc cs []")
    case (Inl e)
    with g Inr show ?thesis by (simp add: validate_filter_def)
  next
    case i: (Inr rs)
    with g have fits: "list_all (clause_fits sc) cs" and "gathered sc cs rs" by simp_all
    then have "find (\<lambda>p. empty_range (snd p)) rs = None \<longleftrightarrow> list_all (\<lambda>a. list_all (leave_a_day sc a) cs) cs"
      by (simp add: no_empty_range gathered_def all_leave_a_day range_of_best day_values_text)
    with i Inr fits show ?thesis by (auto simp: validate_filter_def split: option.splits)
  qed
qed (simp add: validate_filter_def)

end
