(* ===== verification/Cursors.thy ===== *)
theory Cursors
  imports SourceDocs FieldFilters
begin

text \<open>
  The cursors of the listings: a version, what was listed last, and what was asked, as JSON in base64
  (\<open>notes.py\<close>, \<open>sources.py\<close>, \<open>artifacts.py\<close>, \<open>search.py\<close> of \<open>coppermind_store\<close>).  Writing and reading
  the text of a document are parameters.
\<close>

record cursor_lib =
  cu_text :: "fmap \<Rightarrow> str"
  cu_read :: "str \<Rightarrow> pyval option"
  cu_day :: "int \<Rightarrow> date"
  cu_float :: "int \<Rightarrow> pyval"
  cu_number :: "pyval \<Rightarrow> int option"
  cu_dumps :: "bool \<Rightarrow> pyval \<Rightarrow> str"
  cu_json :: "str \<Rightarrow> raw option"
  cu_revision :: "nat \<Rightarrow> int"

text \<open>
  \<open>cu_read\<close> is \<open>json.loads(base64.b64decode(...))\<close>, \<open>None\<close> where either raises; \<open>cu_day\<close> the day of an
  instant in the zone of the database session.  A rank is the place of its float among the floats:
  \<open>cu_float\<close> is the JSON number of a rank and \<open>cu_number\<close> the rank of a finite number.  \<open>cu_dumps\<close> is
  \<open>json.dumps(..., sort_keys=True)\<close>, with compact separators or not, \<open>cu_json\<close> reads a filter's JSON, and
  \<open>cu_revision\<close> is the revision the schema file holds when it is read.
\<close>

definition bad_cursor :: exn where
  "bad_cursor = Typed (ValidationFailed [U ''cursor: invalid or expired''])"

section \<open>An instant and an identity\<close>

definition instant_cursor :: "doc_lib \<Rightarrow> cursor_lib \<Rightarrow> int \<times> str \<Rightarrow> str" where
  "instant_cursor dl cl k =
     cu_text cl [(U ''v'', PInt 1), (U ''at'', PStr (dl_iso dl (fst k))), (U ''id'', PStr (snd k))]"

definition read_instant_cursor :: "doc_lib \<Rightarrow> cursor_lib \<Rightarrow> str \<Rightarrow> exn + int \<times> str" where
  "read_instant_cursor dl cl c =
     (case cu_read cl c of
        Some (PMap d) \<Rightarrow>
          if \<not> py_eq (fget d (U ''v'')) (PInt 1) then Inl bad_cursor
          else (case (fget d (U ''id''), fget d (U ''at'')) of
              (PStr i, PStr a) \<Rightarrow> (case dl_when dl (PStr a) of Some (t, True) \<Rightarrow> Inr (t, i) | _ \<Rightarrow> Inl bad_cursor)
            | _ \<Rightarrow> Inl bad_cursor)
      | _ \<Rightarrow> Inl bad_cursor)"

section \<open>A note\<close>

definition note_cursor :: "cursor_lib \<Rightarrow> str option \<Rightarrow> str \<Rightarrow> str" where
  "note_cursor cl context i =
     cu_text cl [(U ''v'', PInt (case context of Some (c # cs) \<Rightarrow> 3 | _ \<Rightarrow> 2)), (U ''id'', PStr i),
                 (U ''context'', (case context of None \<Rightarrow> PNone | Some c \<Rightarrow> PStr c))]"

definition read_note_cursor :: "cursor_lib \<Rightarrow> str option \<Rightarrow> str \<Rightarrow> exn + str" where
  "read_note_cursor cl context c =
     (case cu_read cl c of
        Some (PMap d) \<Rightarrow>
          if \<not> py_in (fget d (U ''v'')) [PInt 2, PInt 3] then Inl bad_cursor
          else (case fget d (U ''id'') of
              PStr i \<Rightarrow> if fget d (U ''context'') \<noteq> (case context of None \<Rightarrow> PNone | Some x \<Rightarrow> PStr x)
                        then Inl (Typed FilterCursorConflict) else Inr i
            | _ \<Rightarrow> Inl bad_cursor)
      | _ \<Rightarrow> Inl bad_cursor)"

section \<open>A hit\<close>

record hit_cursor =
  hc_digest :: str
  hc_rank :: int
  hc_kind :: str
  hc_ref :: str
  hc_filtered :: bool

definition query_digest :: "doc_lib \<Rightarrow> str \<Rightarrow> exn + str" where
  "query_digest dl q = (case encode q of None \<Rightarrow> Inl Unencodable | Some b \<Rightarrow> Inr (take 16 (dl_sha dl b)))"

definition hit_cursor_text :: "cursor_lib \<Rightarrow> hit_cursor \<Rightarrow> str" where
  "hit_cursor_text cl k =
     cu_text cl [(U ''v'', PInt (if hc_filtered k then 2 else 1)), (U ''q'', PStr (hc_digest k)),
                 (U ''r'', cu_float cl (hc_rank k)), (U ''k'', PStr (hc_kind k)), (U ''id'', PStr (hc_ref k))]"

definition SEARCH_KINDS :: "str list" where
  "SEARCH_KINDS = map U [''note'', ''source'', ''artifact'', ''entity'']"

definition another_question :: exn where
  "another_question = Typed (ValidationFailed [U ''cursor: it pages a different q''])"

definition read_hit_cursor :: "doc_lib \<Rightarrow> cursor_lib \<Rightarrow> str \<Rightarrow> str \<Rightarrow> exn + hit_cursor" where
  "read_hit_cursor dl cl c q =
     (case cu_read cl c of
        Some (PMap d) \<Rightarrow>
          if \<not> py_in (fget d (U ''v'')) [PInt 1, PInt 2] then Inl bad_cursor
          else (case (fget d (U ''q''), fget d (U ''k''), fget d (U ''id''), cu_number cl (fget d (U ''r''))) of
              (PStr g, PStr k, PStr i, Some r) \<Rightarrow>
                if k \<notin> set SEARCH_KINDS then Inl bad_cursor
                else sbind (query_digest dl q) (\<lambda>own.
                  if g \<noteq> own then Inl (if py_eq (fget d (U ''v'')) (PInt 2) then Typed FilterCursorConflict else another_question)
                  else Inr \<lparr>hc_digest = g, hc_rank = r, hc_kind = k, hc_ref = i, hc_filtered = False\<rparr>)
            | _ \<Rightarrow> Inl bad_cursor)
      | _ \<Rightarrow> Inl bad_cursor)"

section \<open>A cursor reads back\<close>

text \<open>Documents of numbers and of text that encodes are read back as they were written, instants to the microsecond.\<close>

definition plain_document :: "cursor_lib \<Rightarrow> fmap \<Rightarrow> bool" where
  "plain_document cl d \<longleftrightarrow> distinct (dkeys d) \<and>
     list_all (\<lambda>p. case snd p of PNone \<Rightarrow> True | PInt i \<Rightarrow> True | PStr t \<Rightarrow> encode t \<noteq> None
                   | v \<Rightarrow> cu_number cl v \<noteq> None) d"

definition faithful_cursors :: "doc_lib \<Rightarrow> cursor_lib \<Rightarrow> bool" where
  "faithful_cursors dl cl \<longleftrightarrow>
     (\<forall>d. cu_text cl d \<noteq> [] \<and> (plain_document cl d \<longrightarrow> cu_read cl (cu_text cl d) = Some (PMap d))) \<and>
     (\<forall>t. encode (dl_iso dl t) \<noteq> None \<and> dl_when dl (PStr (dl_iso dl t)) = Some (t, True)) \<and>
     (\<forall>r. cu_number cl (cu_float cl r) = Some r) \<and> (\<forall>r t. cu_float cl r \<noteq> PStr t)"

lemma instant_cursor_back:
  assumes "faithful_cursors dl cl" and "encode (snd k) \<noteq> None"
  shows "read_instant_cursor dl cl (instant_cursor dl cl k) = Inr k"
proof -
  let ?d = "[(U ''v'', PInt 1), (U ''at'', PStr (dl_iso dl (fst k))), (U ''id'', PStr (snd k))]"
  have "plain_document cl ?d" using assms by (simp add: plain_document_def faithful_cursors_def U_def)
  then have "cu_read cl (cu_text cl ?d) = Some (PMap ?d)" using assms(1) by (simp add: faithful_cursors_def)
  moreover have "dl_when dl (PStr (dl_iso dl (fst k))) = Some (fst k, True)" using assms(1) by (simp add: faithful_cursors_def)
  ultimately show ?thesis
    by (simp add: read_instant_cursor_def instant_cursor_def fget_def U_def)
qed

lemma note_cursor_back:
  assumes "faithful_cursors dl cl" and "encode i \<noteq> None" and "\<And>c. context = Some c \<Longrightarrow> encode c \<noteq> None"
  shows "read_note_cursor cl context (note_cursor cl context i) = Inr i"
proof -
  let ?d = "[(U ''v'', PInt (case context of Some (c # cs) \<Rightarrow> 3 | _ \<Rightarrow> 2)), (U ''id'', PStr i),
             (U ''context'', (case context of None \<Rightarrow> PNone | Some c \<Rightarrow> PStr c))]"
  have "plain_document cl ?d" using assms(2,3) by (auto simp: plain_document_def U_def split: option.splits)
  then have "cu_read cl (cu_text cl ?d) = Some (PMap ?d)" using assms(1) by (simp add: faithful_cursors_def)
  then show ?thesis
    by (auto simp: read_note_cursor_def note_cursor_def fget_def U_def py_in_def split: option.splits list.splits)
qed

text \<open>A cursor of another question is refused.\<close>

lemma note_cursor_elsewhere:
  assumes "faithful_cursors dl cl" and "encode i \<noteq> None" and "\<And>c. context = Some c \<Longrightarrow> encode c \<noteq> None" and "other \<noteq> context"
  shows "read_note_cursor cl other (note_cursor cl context i) = Inl (Typed FilterCursorConflict)"
proof -
  let ?d = "[(U ''v'', PInt (case context of Some (c # cs) \<Rightarrow> 3 | _ \<Rightarrow> 2)), (U ''id'', PStr i),
             (U ''context'', (case context of None \<Rightarrow> PNone | Some c \<Rightarrow> PStr c))]"
  have "plain_document cl ?d" using assms(2,3) by (auto simp: plain_document_def U_def split: option.splits)
  then have "cu_read cl (cu_text cl ?d) = Some (PMap ?d)" using assms(1) by (simp add: faithful_cursors_def)
  then show ?thesis using assms(4)
    by (auto simp: read_note_cursor_def note_cursor_def fget_def U_def py_in_def split: option.splits list.splits)
qed

lemma hit_cursor_back:
  assumes "faithful_cursors dl cl" and "encode (hc_ref k) \<noteq> None" and "hc_kind k \<in> set SEARCH_KINDS"
    and "query_digest dl q = Inr (hc_digest k)" and "encode (hc_digest k) \<noteq> None"
  shows "read_hit_cursor dl cl (hit_cursor_text cl k) q = Inr (k\<lparr>hc_filtered := False\<rparr>)"
proof -
  let ?d = "[(U ''v'', PInt (if hc_filtered k then 2 else 1)), (U ''q'', PStr (hc_digest k)),
             (U ''r'', cu_float cl (hc_rank k)), (U ''k'', PStr (hc_kind k)), (U ''id'', PStr (hc_ref k))]"
  have r: "cu_number cl (cu_float cl (hc_rank k)) = Some (hc_rank k)" using assms(1) by (simp add: faithful_cursors_def)
  have "encode (hc_kind k) \<noteq> None" using assms(3) encode_ascii [of "hc_kind k"] by (auto simp: SEARCH_KINDS_def U_def)
  moreover have "case cu_float cl (hc_rank k) of PNone \<Rightarrow> True | PInt i \<Rightarrow> True | PStr t \<Rightarrow> encode t \<noteq> None
      | v \<Rightarrow> cu_number cl v \<noteq> None" if "\<And>t. cu_float cl (hc_rank k) \<noteq> PStr t"
    using r that by (auto split: pyval.split)
  ultimately have "plain_document cl ?d" if "\<And>t. cu_float cl (hc_rank k) \<noteq> PStr t"
    using assms that by (simp add: plain_document_def U_def)
  then have "cu_read cl (cu_text cl ?d) = Some (PMap ?d)" if "\<And>t. cu_float cl (hc_rank k) \<noteq> PStr t"
    using assms(1) that by (simp add: faithful_cursors_def)
  moreover have "\<And>t. cu_float cl (hc_rank k) \<noteq> PStr t" using assms(1) by (simp add: faithful_cursors_def)
  ultimately show ?thesis using r assms(3,4)
    by (cases k) (auto simp: read_hit_cursor_def hit_cursor_text_def fget_def U_def py_in_def sbind_def)
qed

end
