(* ===== verification/Paging.thy ===== *)
theory Paging
  imports NoteMirror
begin

text \<open>
  Paging by keys: a page is the first rows past a key, and its cursor is the key of its last row when
  more follow.  The locale \<open>keyset_pages\<close> is the contract of a listing: rows in the order of their
  keys, and pages cut from what follows the cursor.  A reader that follows the cursors gets every row once.
\<close>

section \<open>The contract\<close>

locale keyset_pages =
  fixes before :: "'k \<Rightarrow> 'k \<Rightarrow> bool"
    and key :: "'r \<Rightarrow> 'k"
    and listing :: "'q \<Rightarrow> 'r list"
    and good :: "'q \<Rightarrow> bool"
    and page :: "'q \<Rightarrow> nat \<Rightarrow> 'k option \<Rightarrow> 'r list \<times> 'k option"
  assumes before_trans: "before a b \<Longrightarrow> before b c \<Longrightarrow> before a c"
    and before_irrefl: "\<not> before a a"
    and in_order: "good q \<Longrightarrow> sorted_wrt (\<lambda>x y. before (key x) (key y)) (listing q)"
    and page_from_start: "page q n None = (take n (listing q),
      if n < length (listing q) then Some (key (listing q ! (n - 1))) else None)"
    and page_after: "page q n (Some k) = (let rest = filter (\<lambda>r. before k (key r)) (listing q)
      in (take n rest, if n < length rest then Some (key (rest ! (n - 1))) else None))"
begin

primrec walk :: "nat \<Rightarrow> 'q \<Rightarrow> nat \<Rightarrow> 'k option \<Rightarrow> 'r list" where
  "walk 0 q n a = []"
| "walk (Suc m) q n a =
     (case page q n a of (rows, None) \<Rightarrow> rows | (rows, Some k) \<Rightarrow> rows @ walk m q n (Some k))"

lemma past_split:
  "sorted_wrt (\<lambda>x y. before (key x) (key y)) (xs @ [r] @ ys) \<Longrightarrow> filter (\<lambda>x. before (key r) (key x)) (xs @ [r] @ ys) = ys"
proof -
  assume s: "sorted_wrt (\<lambda>x y. before (key x) (key y)) (xs @ [r] @ ys)"
  then have x: "\<forall>x \<in> set xs. before (key x) (key r)" and y: "\<forall>y \<in> set ys. before (key r) (key y)"
    by (auto simp: sorted_wrt_append)
  have "\<not> before (key r) (key z)" if "z \<in> set xs" for z
    using x that before_trans [of "key z" "key r" "key z"] before_irrefl [of "key z"] by blast
  then have "filter (\<lambda>x. before (key r) (key x)) xs = []"
    by (simp add: filter_empty_conv)
  with y show ?thesis by (simp add: before_irrefl filter_id_conv)
qed

lemma past_position:
  assumes g: "good q" and "j < length (listing q)"
  shows "filter (\<lambda>r. before (key (listing q ! j)) (key r)) (listing q) = drop (Suc j) (listing q)"
  using past_split [of "take j (listing q)" "listing q ! j" "drop (Suc j) (listing q)"] in_order [OF g] assms(2)
  by (simp add: id_take_nth_drop [symmetric])

definition stands_at :: "'q \<Rightarrow> 'k option \<Rightarrow> nat \<Rightarrow> bool" where
  "stands_at q a j \<longleftrightarrow> (case a of None \<Rightarrow> j = 0
     | Some k \<Rightarrow> 0 < j \<and> j \<le> length (listing q) \<and> k = key (listing q ! (j - 1)))"

lemma page_at:
  assumes g: "good q" and "stands_at q a j"
  shows "page q n a = (take n (drop j (listing q)),
    if n < length (listing q) - j then Some (key (listing q ! (j + (n - 1)))) else None)"
proof (cases a)
  case None
  with assms(2) show ?thesis by (simp add: page_from_start stands_at_def)
next
  case (Some k)
  with assms(2) have j: "0 < j" "j \<le> length (listing q)" "k = key (listing q ! (j - 1))"
    by (auto simp: stands_at_def)
  then have "filter (\<lambda>r. before k (key r)) (listing q) = drop j (listing q)"
    using past_position [OF g, of "j - 1"] by simp
  with Some j show ?thesis by (simp add: page_after Let_def)
qed

lemma walk_from:
  "good q \<Longrightarrow> stands_at q a j \<Longrightarrow> 0 < n \<Longrightarrow> length (listing q) - j < m \<Longrightarrow> walk m q n a = drop j (listing q)"
proof (induction m arbitrary: a j)
  case (Suc m)
  show ?case
  proof (cases "n < length (listing q) - j")
    case True
    then have "stands_at q (Some (key (listing q ! (j + (n - 1))))) (j + n)"
      using Suc.prems(3) by (auto simp: stands_at_def)
    from Suc.IH [OF Suc.prems(1) this Suc.prems(3)] True Suc.prems
    have "walk m q n (Some (key (listing q ! (j + (n - 1))))) = drop (j + n) (listing q)" by simp
    moreover have "take n (drop j (listing q)) @ drop (j + n) (listing q) = drop j (listing q)"
      by (metis append_take_drop_id drop_drop add.commute)
    ultimately show ?thesis
      using True by (simp add: page_at [OF Suc.prems(1,2)])
  next
    case False
    then show ?thesis by (simp add: page_at [OF Suc.prems(1,2)])
  qed
qed simp

text \<open>Following the cursors gives every row once, in order, whatever the size of a page.\<close>

lemma walk_covers: "good q \<Longrightarrow> 0 < n \<Longrightarrow> walk (Suc (length (listing q))) q n None = listing q"
  using walk_from [of q None 0 n "Suc (length (listing q))"] by (simp add: stands_at_def)

lemma page_is_short: "length (fst (page q n a)) \<le> n"
  by (cases a) (simp_all add: page_from_start page_after Let_def)

end

end
