(* ===== verification/Listings.thy ===== *)
theory Listings
  imports Cursors Sources Paging
begin

text \<open>
  The listings of sources (\<open>list_sources\<close> of \<open>sources.py\<close>) and of artifacts (\<open>list_artifacts\<close> of
  \<open>artifacts.py\<close>), newest first, with the sources a note cites and the notes that cite an artifact.
\<close>

section \<open>Reading page after page\<close>

primrec follow :: "nat \<Rightarrow> (str option \<Rightarrow> ('a list \<times> str option) act) \<Rightarrow> str option \<Rightarrow> 'a list act" where
  "follow 0 f c = ret []"
| "follow (Suc m) f c =
     bnd (f c) (\<lambda>(xs, more).
     case more of None \<Rightarrow> ret xs | Some c' \<Rightarrow> bnd (follow m f (Some c')) (\<lambda>ys. ret (xs @ ys)))"

text \<open>The rows \<open>ORDER BY key DESC LIMIT n + 1\<close> answers past a key, and the page the code makes of them.\<close>

definition rows_past :: "('r \<Rightarrow> 'k::linorder) \<Rightarrow> nat \<Rightarrow> 'k option \<Rightarrow> 'r list \<Rightarrow> 'r list" where
  "rows_past key n after rows =
     take n (rev (sort_key key (filter (\<lambda>r. case after of None \<Rightarrow> True | Some k \<Rightarrow> key r < k) rows)))"

definition cut_page :: "('r \<Rightarrow> 'k) \<Rightarrow> nat \<Rightarrow> 'r list \<Rightarrow> 'r list \<times> 'k option" where
  "cut_page key n rows = (take n rows, if n < length rows then Some (key (rows ! (n - 1))) else None)"

lemma sort_key_filter: "sort_key f (filter P xs) = filter P (sort_key f xs)"
  by (rule filter_sort [symmetric])

lemma cut_rows_past:
  "cut_page key n (rows_past key (Suc n) after rows) =
     (let rest = filter (\<lambda>r. case after of None \<Rightarrow> True | Some k \<Rightarrow> key r < k) (rev (sort_key key rows))
      in (take n rest, if n < length rest then Some (key (rest ! (n - 1))) else None))"
proof -
  have "rows_past key (Suc n) after rows =
      take (Suc n) (filter (\<lambda>r. case after of None \<Rightarrow> True | Some k \<Rightarrow> key r < k) (rev (sort_key key rows)))"
    by (simp add: rows_past_def sort_key_filter rev_filter)
  then show ?thesis by (auto simp: cut_page_def Let_def min_def)
qed

text \<open>Rows with distinct keys are listed in the strict order of the keys.\<close>

lemma sorted_strict:
  assumes "distinct (map key rows)"
  shows "sorted_wrt (\<lambda>x y. key y < key x) (rev (sort_key key rows))"
proof -
  have "sorted (map key (sort_key key rows))" by simp
  moreover have "distinct (map key (sort_key key rows))"
    using assms by (metis mset_map mset_sort distinct_count_atmost_1 mset_eq_imp_distinct_iff)
  ultimately have "sorted_wrt (<) (map key (sort_key key rows))" by (simp add: strict_sorted_iff)
  then show ?thesis by (simp add: sorted_wrt_rev sorted_wrt_map)
qed

lemma newest_first_pages:
  assumes "\<And>q. distinct (map key (rows q)) \<or> \<not> good q"
  shows "keyset_pages (\<lambda>a b. b < (a :: 'k::linorder)) key (\<lambda>q. rev (sort_key key (rows q))) good
    (\<lambda>q n after. cut_page key n (rows_past key (Suc n) after (rows q)))"
proof
  show "good q \<Longrightarrow> sorted_wrt (\<lambda>x y. key y < key x) (rev (sort_key key (rows q)))" for q
    using assms [of q] sorted_strict by blast
qed (auto simp: cut_rows_past Let_def)

section \<open>Sources\<close>

record source_query =
  sq_cursor :: "str option"
  sq_limit :: nat
  sq_provider :: "str option"
  sq_from :: "date option"
  sq_to :: "date option"

record source_summary =
  ss_id :: str
  ss_provider :: str
  ss_external :: str
  ss_type :: str
  ss_origin :: str
  ss_revision :: int
  ss_created :: int

definition meets :: "('a \<Rightarrow> bool) \<Rightarrow> 'a option \<Rightarrow> bool" where
  "meets p wanted \<longleftrightarrow> (case wanted of None \<Rightarrow> True | Some x \<Rightarrow> p x)"

definition source_matches :: "cursor_lib \<Rightarrow> source_query \<Rightarrow> str \<times> source_row \<Rightarrow> bool" where
  "source_matches cl q r \<longleftrightarrow>
     meets (\<lambda>p. so_provider (snd r) = p) (sq_provider q) \<and>
     meets (\<lambda>d. d \<le> cu_day cl (so_created (snd r))) (sq_from q) \<and>
     meets (\<lambda>d. cu_day cl (so_created (snd r)) \<le> d) (sq_to q)"

definition source_key :: "str \<times> source_row \<Rightarrow> int \<times> str" where
  "source_key r = (so_created (snd r), fst r)"

definition source_summary_of :: "str \<times> source_row \<Rightarrow> source_summary" where
  "source_summary_of r =
     \<lparr>ss_id = fst r, ss_provider = so_provider (snd r), ss_external = so_external (snd r), ss_type = so_type (snd r),
      ss_origin = so_origin (snd r), ss_revision = so_current (snd r), ss_created = so_created (snd r)\<rparr>"

text \<open>An empty cursor is none.\<close>

definition given_cursor :: "str option \<Rightarrow> (str \<Rightarrow> exn + 'k) \<Rightarrow> exn + 'k option" where
  "given_cursor c read =
     (case c of Some (x # xs) \<Rightarrow> (case read (x # xs) of Inl e \<Rightarrow> Inl e | Inr k \<Rightarrow> Inr (Some k)) | _ \<Rightarrow> Inr None)"

definition list_sources :: "'d site \<Rightarrow> doc_lib \<Rightarrow> cursor_lib \<Rightarrow> source_query \<Rightarrow> (source_summary list \<times> str option) act" where
  "list_sources s dl cl q =
     bnd (of_sum (given_cursor (sq_cursor q) (read_instant_cursor dl cl))) (\<lambda>after.
     bnd (catching (bnd begin_tx (\<lambda>u. query s (\<lambda>b. rows_past source_key (Suc (sq_limit q)) after
            (filter (source_matches cl q) (t_sources (db_src b)))))) (metadata_read s)) (\<lambda>rows.
     let page = cut_page source_key (sq_limit q) rows
     in ret (map source_summary_of (fst page), map_option (instant_cursor dl cl) (snd page))))"

interpretation source_pages: keyset_pages "\<lambda>a b. b < (a :: int \<times> str)" source_key
  "\<lambda>(cl, q, t). rev (sort_key source_key (filter (source_matches cl q) (t_sources t)))"
  "\<lambda>(cl, q, t). distinct (map fst (t_sources t))"
  "\<lambda>(cl, q, t) n after. cut_page source_key n (rows_past source_key (Suc n) after (filter (source_matches cl q) (t_sources t)))"
proof -
  have "distinct (map source_key (filter P rows))" if "distinct (map fst rows)" for P and rows :: "(str \<times> source_row) list"
  proof -
    have "map fst rows = map snd (map source_key rows)" by (simp add: source_key_def)
    then have "distinct (map source_key rows)" using that by (metis distinct_map)
    then show ?thesis by (rule distinct_map_filter)
  qed
  then show "keyset_pages (\<lambda>a b. b < (a :: int \<times> str)) source_key
      (\<lambda>(cl, q, t). rev (sort_key source_key (filter (source_matches cl q) (t_sources t))))
      (\<lambda>(cl, q, t). distinct (map fst (t_sources t)))
      (\<lambda>(cl, q, t) n after. cut_page source_key n (rows_past source_key (Suc n) after (filter (source_matches cl q) (t_sources t))))"
    using newest_first_pages [of source_key "\<lambda>(cl, q, t). filter (source_matches cl q) (t_sources t)"
        "\<lambda>(cl, q, t). distinct (map fst (t_sources t))"]
    by (auto simp: case_prod_beta')
qed

section \<open>Artifacts\<close>

record artifact_query =
  aq_cursor :: "str option"
  aq_limit :: nat
  aq_tag :: "str option"
  aq_note :: "str option"
  aq_origin :: "str option"
  aq_from :: "date option"
  aq_to :: "date option"

record cited_note =
  cn_id :: str
  cn_title :: str
  cn_path :: str

record artifact_summary =
  as_id :: str
  as_row :: artifact_rec
  as_citing :: "cited_note list"

definition title_or_stem :: "row \<Rightarrow> str" where
  "title_or_stem r = (case r_title r of Some (c # cs) \<Rightarrow> c # cs | _ \<Rightarrow> path_stem (r_path r))"

text \<open>\<open>citing_notes\<close>: the live notes that cite an artifact, by identity.\<close>

definition citing_of :: "db \<Rightarrow> str \<Rightarrow> cited_note list" where
  "citing_of b i =
     map (\<lambda>(j, r). \<lparr>cn_id = j, cn_title = title_or_stem r, cn_path = r_path r\<rparr>)
       (sort_key fst (filter (\<lambda>(j, r). live_row r \<and> i \<in> set (mc_artifact_ids (r_cols r))) (db_rows b)))"

definition citing_notes :: "'d site \<Rightarrow> str list \<Rightarrow> (str \<times> cited_note list) list act" where
  "citing_notes s ids = (if ids = [] then ret [] else query s (\<lambda>b. map (\<lambda>i. (i, citing_of b i)) ids))"

definition artifact_matches :: "'d site \<Rightarrow> artifact_query \<Rightarrow> db \<Rightarrow> str \<times> artifact_rec \<Rightarrow> bool" where
  "artifact_matches s q b r \<longleftrightarrow>
     meets (\<lambda>t. t \<in> set (af_tags (snd r))) (aq_tag q) \<and> meets (\<lambda>t. af_origin (snd r) = t) (aq_origin q) \<and>
     meets (\<lambda>j. list_ex (\<lambda>(i, n). i = j \<and> fst r \<in> set (mc_artifact_ids (r_cols n))) (db_rows b)) (aq_note q) \<and>
     meets (\<lambda>d. d \<le> fst (st_local s (af_received (snd r)))) (aq_from q) \<and>
     meets (\<lambda>d. fst (st_local s (af_received (snd r))) \<le> d) (aq_to q)"

definition artifact_key :: "str \<times> artifact_rec \<Rightarrow> int \<times> str" where
  "artifact_key r = (af_received (snd r), fst r)"

definition artifact_summary_of :: "(str \<times> cited_note list) list \<Rightarrow> str \<times> artifact_rec \<Rightarrow> artifact_summary" where
  "artifact_summary_of citing r =
     \<lparr>as_id = fst r, as_row = snd r, as_citing = (case map_of citing (fst r) of None \<Rightarrow> [] | Some ns \<Rightarrow> ns)\<rparr>"

definition list_artifacts :: "'d site \<Rightarrow> doc_lib \<Rightarrow> cursor_lib \<Rightarrow> artifact_query \<Rightarrow> (artifact_summary list \<times> str option) act" where
  "list_artifacts s dl cl q =
     bnd (of_sum (given_cursor (aq_cursor q) (read_instant_cursor dl cl))) (\<lambda>after.
     bnd (catching
           (bnd begin_tx (\<lambda>u.
            bnd (query s (\<lambda>b. rows_past artifact_key (Suc (aq_limit q)) after
                   (filter (artifact_matches s q b) (mt_artifacts (db_more b))))) (\<lambda>rows.
            bnd (citing_notes s (map fst (take (aq_limit q) rows))) (\<lambda>citing. ret (rows, citing)))))
           (metadata_read s)) (\<lambda>(rows, citing).
     let page = cut_page artifact_key (aq_limit q) rows
     in ret (map (artifact_summary_of citing) (fst page), map_option (instant_cursor dl cl) (snd page))))"

interpretation artifact_pages: keyset_pages "\<lambda>a b. b < (a :: int \<times> str)" artifact_key
  "\<lambda>(s, q, b). rev (sort_key artifact_key (filter (artifact_matches s q b) (mt_artifacts (db_more b))))"
  "\<lambda>(s, q, b). distinct (map fst (mt_artifacts (db_more b)))"
  "\<lambda>(s, q, b) n after. cut_page artifact_key n
     (rows_past artifact_key (Suc n) after (filter (artifact_matches s q b) (mt_artifacts (db_more b))))"
proof -
  have "distinct (map artifact_key (filter P rows))" if "distinct (map fst rows)" for P and rows :: "(str \<times> artifact_rec) list"
  proof -
    have "map fst rows = map snd (map artifact_key rows)" by (simp add: artifact_key_def)
    then have "distinct (map artifact_key rows)" using that by (metis distinct_map)
    then show ?thesis by (rule distinct_map_filter)
  qed
  then show "keyset_pages (\<lambda>a b. b < (a :: int \<times> str)) artifact_key
      (\<lambda>(s, q, b). rev (sort_key artifact_key (filter (artifact_matches s q b) (mt_artifacts (db_more b)))))
      (\<lambda>(s, q, b). distinct (map fst (mt_artifacts (db_more b))))
      (\<lambda>(s, q, b) n after. cut_page artifact_key n
         (rows_past artifact_key (Suc n) after (filter (artifact_matches s q b) (mt_artifacts (db_more b)))))"
    using newest_first_pages [of artifact_key "\<lambda>(s, q, b). filter (artifact_matches s q b) (mt_artifacts (db_more b))"
        "\<lambda>(s, q, b). distinct (map fst (mt_artifacts (db_more b)))"]
    by (auto simp: case_prod_beta')
qed

section \<open>The sources of a note\<close>

primrec manifests_of :: "'d site \<Rightarrow> doc_lib \<Rightarrow> str list \<Rightarrow> (str \<times> source_manifest) list act" where
  "manifests_of s dl [] = ret []"
| "manifests_of s dl (i # is) =
     bnd (get_source s dl i) (\<lambda>m. bnd (manifests_of s dl is) (\<lambda>ms. ret ((i, m) # ms)))"

definition cited_in_row :: "'d site \<Rightarrow> row \<Rightarrow> str list" where
  "cited_in_row s r = sort (remdups (str_items (fget (r_frontmatter r) (role (st_schema s) ''sources_key''))))"

definition get_note_sources :: "'d site \<Rightarrow> doc_lib \<Rightarrow> str \<Rightarrow> (str \<times> source_manifest) list act" where
  "get_note_sources s dl note_id =
     bnd (catching (bnd begin_tx (\<lambda>u. query s (\<lambda>b. row_of b note_id))) (metadata_read s)) (\<lambda>row.
     case row of None \<Rightarrow> raise_exn (Typed (NotFoundNote note_id))
     | Some r \<Rightarrow> manifests_of s dl (cited_in_row s r))"

section \<open>Nothing is missed\<close>

context keyset_pages
begin

lemma page_cursor: "snd (page q n a) = Some k \<Longrightarrow> k \<in> key ` set (listing q)"
proof (cases a)
  case None
  then show "snd (page q n a) = Some k \<Longrightarrow> ?thesis" by (auto simp: page_from_start split: if_splits)
next
  case (Some b)
  assume k: "snd (page q n a) = Some k"
  let ?rest = "filter (\<lambda>r. before b (key r)) (listing q)"
  have "n < length ?rest" "k = key (?rest ! (n - 1))" using k Some by (auto simp: page_after Let_def split: if_splits)
  moreover have "?rest ! (n - 1) \<in> set ?rest" using \<open>n < length ?rest\<close> by (intro nth_mem) simp
  ultimately show ?thesis by auto
qed

text \<open>A request answers with the page past what its cursor says.\<close>

definition answers :: "(str option \<Rightarrow> ('a list \<times> str option) act) \<Rightarrow> (world \<Rightarrow> bool) \<Rightarrow> ('k \<Rightarrow> str) \<Rightarrow> ('r \<Rightarrow> 'a) \<Rightarrow> 'q \<Rightarrow> nat \<Rightarrow> bool" where
  "answers f ok cursor shown q n \<longleftrightarrow>
     (\<forall>w a. ok w \<longrightarrow> (a = None \<or> the a \<in> key ` set (listing q)) \<longrightarrow>
        (case f (map_option cursor a) w of (r, w') \<Rightarrow> ok w' \<and>
           r = Inr (map shown (fst (page q n a)), map_option cursor (snd (page q n a)))))"

lemma answersD:
  assumes "answers f ok cursor shown q n" and "ok w" and "a = None \<or> the a \<in> key ` set (listing q)"
    and "f (map_option cursor a) w = (r, w')"
  shows "ok w'" and "r = Inr (map shown (fst (page q n a)), map_option cursor (snd (page q n a)))"
  using assms(1) [unfolded answers_def, rule_format, OF assms(2,3)] assms(4) by simp_all

lemma follow_walk:
  assumes f: "answers f ok cursor shown q n"
  shows "ok w \<Longrightarrow> a = None \<or> the a \<in> key ` set (listing q) \<Longrightarrow>
    fst (follow m f (map_option cursor a) w) = Inr (map shown (walk m q n a))"
proof (induction m arbitrary: a w)
  case 0
  then show ?case by (simp add: ret_def)
next
  case (Suc m)
  obtain r w' where r: "f (map_option cursor a) w = (r, w')" by fastforce
  note ok = answersD(1) [OF f Suc.prems r] and page = answersD(2) [OF f Suc.prems r]
  show ?case
  proof (cases "snd (page q n a)")
    case None
    with r page show ?thesis by (simp add: bnd_def ret_def case_prod_beta')
  next
    case (Some k)
    obtain u v where u: "follow m f (Some (cursor k)) w' = (u, v)" by fastforce
    have "fst (follow m f (map_option cursor (Some k)) w') = Inr (map shown (walk m q n (Some k)))"
      using Suc.IH [OF ok, of "Some k"] page_cursor [OF Some] by simp
    then have "u = Inr (map shown (walk m q n (Some k)))" using u by simp
    with r page Some u show ?thesis by (simp add: bnd_def ret_def case_prod_beta')
  qed
qed

lemma follow_covers:
  assumes "answers f ok cursor shown q n" and "good q" and "0 < n" and "ok w" and "length (listing q) < m"
  shows "fst (follow m f None w) = Inr (map shown (listing q))"
  using follow_walk [OF assms(1,4), of None m] walk_from [OF assms(2) _ assms(3), of None 0 m] assms(5)
  by (simp add: stands_at_def)

end

end
