(* ===== verification/NoteListing.thy ===== *)
theory NoteListing
  imports Listings
begin

text \<open>
  Listing notes from the mirror (\<open>list_notes\<close> and \<open>list_tags\<close> of \<open>notes.py\<close>), with the declared-field
  conditions of \<open>field_index.py\<close>.  Rows come in batches resumed by identity; a note whose file cannot be
  read now is left out.  The others may change the mirror between any two statements, also where a
  filter asks for a repeatable read, whose runs are among these.
\<close>

record note_query =
  nq_filter :: "str option"
  nq_cursor :: "str option"
  nq_limit :: nat
  nq_folder :: "str option"
  nq_reviewed :: "bool option"
  nq_type :: "str option"
  nq_context :: "str option"
  nq_account :: "str option"
  nq_from :: "date option"
  nq_to :: "date option"
  nq_tag :: "str option"
  nq_state :: "str option"

record note_summary =
  nm_id :: str
  nm_row :: row
  nm_title :: str
  nm_updated :: int
  nm_error :: "str option"
  nm_attempts :: nat

definition mirrored_summary :: "str \<Rightarrow> row \<Rightarrow> note_summary" where
  "mirrored_summary i r =
     \<lparr>nm_id = i, nm_row = r, nm_title = title_or_stem r,
      nm_updated = (case r_mtime r of Some m \<Rightarrow> m | None \<Rightarrow> r_updated r), nm_error = None, nm_attempts = 0\<rparr>"

definition matches_query :: "note_query \<Rightarrow> row \<Rightarrow> bool" where
  "matches_query q r \<longleftrightarrow>
     (let c = r_cols r
      in meets (\<lambda>f. startswith (r_path r) (f @ U ''/'')) (nq_folder q) \<and> meets (\<lambda>b. mc_reviewed c = b) (nq_reviewed q) \<and>
         meets (\<lambda>t. mc_type c = Some t) (nq_type q) \<and> meets (\<lambda>x. mc_context c = Some x) (nq_context q) \<and>
         meets (\<lambda>a. a \<in> set (mc_account c)) (nq_account q) \<and>
         meets (\<lambda>d. case mc_date c of None \<Rightarrow> False | Some day \<Rightarrow> d \<le> day) (nq_from q) \<and>
         meets (\<lambda>d. case mc_date c of None \<Rightarrow> False | Some day \<Rightarrow> day \<le> d) (nq_to q) \<and>
         meets (\<lambda>t. t \<in> set (mc_tags c)) (nq_tag q) \<and> meets (\<lambda>s. r_state r = s) (nq_state q))"

section \<open>Declared fields\<close>

definition kind_name :: "key_kind \<Rightarrow> str" where
  "kind_name k = U (case k of KString \<Rightarrow> ''string'' | KInt \<Rightarrow> ''int'' | KDate \<Rightarrow> ''date'' | KBool \<Rightarrow> ''bool''
     | KEnum \<Rightarrow> ''enum'' | KList \<Rightarrow> ''list'')"

definition filter_message :: "'d site \<Rightarrow> filter_error \<Rightarrow> str" where
  "filter_message s e =
     (case e of
        FilterTooLong \<Rightarrow> U ''filter: exceeds 8 KiB URL-encoded limit''
      | FilterUnencodable \<Rightarrow> st_os_text s Unencodable
      | FilterMalformed \<Rightarrow> U ''filter: expected {\"all\": [{\"field\": name, \"op\": operator, \"value\": value}]} with 1 to 20 clauses''
      | DuplicateKeys \<Rightarrow> U ''filter: duplicate JSON keys are not allowed''
      | NotFinite \<Rightarrow> U ''filter: numbers must be finite''
      | NonFiniteConstant \<Rightarrow> U ''filter: non-finite numbers are not allowed''
      | NullValue \<Rightarrow> U ''filter: null is not a filter value''
      | FieldUndeclared f \<Rightarrow> U ''filter.'' @ f @ U '': field is not declared in the schema''
      | OperatorInvalid f k \<Rightarrow> U ''filter.'' @ f @ U '': operator is not valid for '' @ kind_name k
      | ValueInvalid f k \<Rightarrow> U ''filter.'' @ f @ U '': expected a valid '' @ kind_name k @ U '' value without coercion''
      | EmptyRange f \<Rightarrow> U ''filter.'' @ f @ U '': lower date bound is after upper bound'')"

definition definition_of :: "key_def \<Rightarrow> str \<times> key_kind \<times> str list" where
  "definition_of k = (kd_name k, kd_kind k, vocabulary k)"

definition definitions :: "schema \<Rightarrow> (str \<times> key_kind \<times> str list) list" where
  "definitions sc = map definition_of (sc_keys sc)"

definition filter_digest :: "doc_lib \<Rightarrow> cursor_lib \<Rightarrow> pyval \<Rightarrow> str" where
  "filter_digest dl cl v = (case encode (cu_dumps cl True v) of None \<Rightarrow> [] | Some b \<Rightarrow> dl_sha dl b)"

definition definition_value :: "str \<times> key_kind \<times> str list \<Rightarrow> pyval" where
  "definition_value d = (case d of (n, k, v) \<Rightarrow>
     PMap [(U ''name'', PStr n), (U ''kind'', PStr (kind_name k)), (U ''vocabulary'', PList (map PStr v))])"

definition target_id :: "doc_lib \<Rightarrow> cursor_lib \<Rightarrow> schema \<Rightarrow> str" where
  "target_id dl cl sc = filter_digest dl cl (PList (map definition_value (definitions sc)))"

definition clause_value :: "filter_clause \<Rightarrow> pyval" where
  "clause_value c = PMap [(U ''field'', PStr (fq_field c)),
     (U ''op'', PStr (U (case fq_op c of OpEq \<Rightarrow> ''eq'' | OpContains \<Rightarrow> ''contains'' | OpGte \<Rightarrow> ''gte'' | OpLte \<Rightarrow> ''lte''))),
     (U ''value'', fq_value c)]"

definition canonical_filter :: "cursor_lib \<Rightarrow> filter_clause list \<Rightarrow> pyval list" where
  "canonical_filter cl cs = sort_key (cu_dumps cl False) (map clause_value cs)"

definition optional_text :: "str option \<Rightarrow> pyval" where
  "optional_text v = (case v of None \<Rightarrow> PNone | Some t \<Rightarrow> PStr t)"

text \<open>\<open>query_context\<close>: what is asked, without the cursor and the limit.\<close>

definition query_context :: "doc_lib \<Rightarrow> cursor_lib \<Rightarrow> note_query \<Rightarrow> filter_clause list \<Rightarrow> int \<Rightarrow> str" where
  "query_context dl cl q cs revision = filter_digest dl cl
     (PMap [(U ''query'', PMap
        [(U ''filter'', PList (canonical_filter cl cs)), (U ''folder'', optional_text (nq_folder q)),
         (U ''reviewed'', (case nq_reviewed q of None \<Rightarrow> PNone | Some b \<Rightarrow> PBool b)),
         (U ''type'', optional_text (nq_type q)), (U ''context'', optional_text (nq_context q)),
         (U ''account'', optional_text (nq_account q)), (U ''from'', optional_text (map_option date_iso (nq_from q))),
         (U ''to'', optional_text (map_option date_iso (nq_to q))), (U ''tag'', optional_text (nq_tag q)),
         (U ''state'', optional_text (nq_state q))]),
       (U ''schema_revision'', PInt revision)])"

text \<open>Equality of JSON values in the database: a boolean is no number, the order of keys does not count.\<close>

fun jsonb_eq :: "pyval \<Rightarrow> pyval \<Rightarrow> bool"
  and jsonb_eq_list :: "pyval list \<Rightarrow> pyval list \<Rightarrow> bool"
  and jsonb_eq_items :: "(str \<times> pyval) list \<Rightarrow> (str \<times> pyval) list \<Rightarrow> bool" where
  "jsonb_eq (PList xs) (PList ys) = jsonb_eq_list xs ys"
| "jsonb_eq (PMap d) (PMap e) = (length d = length e \<and> jsonb_eq_items d e)"
| "jsonb_eq v w = (v = w)"
| "jsonb_eq_list [] ys = (ys = [])"
| "jsonb_eq_list (x # xs) ys = (case ys of [] \<Rightarrow> False | y # ys' \<Rightarrow> jsonb_eq x y \<and> jsonb_eq_list xs ys')"
| "jsonb_eq_items [] e = True"
| "jsonb_eq_items (p # d) e =
     ((case map_of e (fst p) of None \<Rightarrow> False | Some w \<Rightarrow> jsonb_eq (snd p) w) \<and> jsonb_eq_items d e)"

definition day_holds :: "filter_op \<Rightarrow> date \<Rightarrow> date option \<Rightarrow> bool" where
  "day_holds p day v =
     (case v of None \<Rightarrow> False | Some d \<Rightarrow> (case p of OpGte \<Rightarrow> day \<le> d | OpLte \<Rightarrow> d \<le> day | _ \<Rightarrow> d = day))"

definition field_value_of :: "str \<Rightarrow> str \<Rightarrow> str \<Rightarrow> field_value \<Rightarrow> bool" where
  "field_value_of gen i f v \<longleftrightarrow> fv_generation v = gen \<and> fv_note v = i \<and> fv_field v = f"

definition clause_holds :: "schema \<Rightarrow> str \<Rightarrow> db \<Rightarrow> str \<Rightarrow> row \<Rightarrow> filter_clause \<Rightarrow> bool" where
  "clause_holds sc gen b i r c \<longleftrightarrow>
     (let vs = filter (field_value_of gen i (fq_field c)) (mt_values (db_more b))
      in case iso_day (fq_value c) of
           Some day \<Rightarrow>
             if \<not> (case declared sc (fq_field c) of None \<Rightarrow> False | Some k \<Rightarrow> kd_kind k = KDate)
             then list_ex (\<lambda>v. \<not> fv_invalid v \<and> jsonb_eq (fv_value v) (fq_value c)) vs
             else if fq_field c = role sc ''date_key''
             then \<not> list_ex fv_invalid vs \<and> day_holds (fq_op c) day (mc_date (r_cols r))
             else list_ex (\<lambda>v. \<not> fv_invalid v \<and> day_holds (fq_op c) day (fv_date v)) vs
         | None \<Rightarrow> list_ex (\<lambda>v. \<not> fv_invalid v \<and> jsonb_eq (fv_value v) (fq_value c)) vs)"

definition active_generation :: "db \<Rightarrow> (str \<times> field_generation) option" where
  "active_generation b = find (\<lambda>g. fg_active (snd g)) (mt_generations (db_more b))"

text \<open>The field is indexed as the schema declares it now.\<close>

definition indexed_as_declared :: "schema \<Rightarrow> field_generation \<Rightarrow> filter_clause \<Rightarrow> bool" where
  "indexed_as_declared sc g c \<longleftrightarrow>
     find (\<lambda>d. fst d = fq_field c) (rev (fg_definitions g)) = map_option definition_of (declared sc (fq_field c))"

definition conditions :: "'d site \<Rightarrow> doc_lib \<Rightarrow> cursor_lib \<Rightarrow> note_query \<Rightarrow> (db \<Rightarrow> str \<Rightarrow> row \<Rightarrow> bool) act" where
  "conditions s dl cl q =
     (case nq_filter q of None \<Rightarrow> ret (\<lambda>b i r. True)
      | Some text \<Rightarrow>
         (case validate_filter (cu_json cl) text (st_schema s) of
            Inl e \<Rightarrow> raise_exn (Typed (ValidationFailed [filter_message s e]))
          | Inr cs \<Rightarrow>
             bnd (query s active_generation) (\<lambda>g.
             case g of None \<Rightarrow> raise_exn (Typed (FieldIndexNotReady (target_id dl cl (st_schema s))))
             | Some (gen, g) \<Rightarrow>
                if \<not> list_all (indexed_as_declared (st_schema s) g) cs
                then raise_exn (Typed (FieldIndexNotReady (target_id dl cl (st_schema s))))
                else ret (\<lambda>b i r. list_all (clause_holds (st_schema s) gen b i r) cs))))"

section \<open>Batches of rows\<close>

text \<open>\<open>WHERE conditions AND id > after ORDER BY id LIMIT n\<close>; the identity is the primary key.\<close>

definition rows_after :: "(db \<Rightarrow> str \<Rightarrow> row \<Rightarrow> bool) \<Rightarrow> str option \<Rightarrow> nat \<Rightarrow> db \<Rightarrow> (str \<times> row) list" where
  "rows_after held after n b =
     take n (filter (\<lambda>(i, r). held b i r)
       (List.map_filter (\<lambda>i. map_option (Pair i) (row_of b i))
         (filter (\<lambda>i. case after of None \<Rightarrow> True | Some a \<Rightarrow> a < i) (sort (remdups (map fst (db_rows b)))))))"

fun take_matching :: "note_query \<Rightarrow> nat \<Rightarrow> (str \<times> row) list \<Rightarrow> note_summary list \<Rightarrow> str option
    \<Rightarrow> note_summary list \<times> str option \<times> bool" where
  "take_matching q needed [] acc after = (acc, after, False)"
| "take_matching q needed ((i, r) # rows) acc after =
     (if matches_query q r
      then (if Suc (length acc) = needed then (acc @ [mirrored_summary i r], Some i, True)
            else take_matching q needed rows (acc @ [mirrored_summary i r]) (Some i))
      else take_matching q needed rows acc (Some i))"

primrec gather :: "nat \<Rightarrow> 'd site \<Rightarrow> (db \<Rightarrow> str \<Rightarrow> row \<Rightarrow> bool) \<Rightarrow> note_query \<Rightarrow> nat \<Rightarrow> nat \<Rightarrow> note_summary list
    \<Rightarrow> str option \<Rightarrow> (note_summary list \<times> str option \<times> bool) act" where
  "gather 0 s held q batch needed acc after = raise_exn Diverges"
| "gather (Suc m) s held q batch needed acc after =
     (if needed \<le> length acc then ret (acc, after, False)
      else bnd (query s (rows_after held after batch)) (\<lambda>rows.
        case take_matching q needed rows acc after of (acc', after', full) \<Rightarrow>
          if full then ret (acc', after', False)
          else if length rows < batch then ret (acc', after', True)
          else gather m s held q batch needed acc' after'))"

section \<open>What can be read\<close>

definition require_notes_root :: "'d site \<Rightarrow> unit act" where
  "require_notes_root s =
     catching (disk_step s (\<lambda>now d. Inr ((), d)))
       (\<lambda>e. raise_exn (Typed (NotesFilesystemUnavailable (U ''notes storage unavailable, retry shortly''))))"

definition record_unreadable_notice :: "'d site \<Rightarrow> str \<Rightarrow> str \<Rightarrow> unit act" where
  "record_unreadable_notice s i p =
     own_step s (\<lambda>w. ((), w\<lparr>w_files := (w_files w)\<lparr>fl_unreadable := dict_set (fl_unreadable (w_files w)) i p\<rparr>\<rparr>))"

text \<open>Whether a candidate is listed: its file is read where the mirror says it is in order.\<close>

definition readable :: "'d site \<Rightarrow> note_summary \<Rightarrow> bool act" where
  "readable s m =
     (if r_state (nm_row m) \<noteq> U ''ok'' then ret True
      else catching (bnd (read_current s (nm_id m)) (\<lambda>d. ret True))
        (\<lambda>e. case e of Typed (NotFoundNote i) \<Rightarrow> ret False
          | Typed (NoteUnparseable i t) \<Rightarrow> ret False
          | Typed (NotesFilesystemUnavailable t) \<Rightarrow>
              bnd (require_notes_root s) (\<lambda>u.
              bnd (record_unreadable_notice s (nm_id m) (r_path (nm_row m))) (\<lambda>u. ret False))
          | _ \<Rightarrow> raise_exn e))"

primrec read_candidates :: "'d site \<Rightarrow> note_summary list \<Rightarrow> note_summary list act" where
  "read_candidates s [] = ret []"
| "read_candidates s (m # ms) =
     bnd (readable s m) (\<lambda>here.
     if \<not> here then read_candidates s ms
     else bnd (filing_state s (nm_id m)) (\<lambda>(err, n).
          bnd (read_candidates s ms) (\<lambda>rest. ret (m\<lparr>nm_error := err, nm_attempts := n\<rparr> # rest))))"

section \<open>The page\<close>

primrec fill_page :: "nat \<Rightarrow> 'd site \<Rightarrow> doc_lib \<Rightarrow> cursor_lib \<Rightarrow> note_query \<Rightarrow> note_summary list \<Rightarrow> str option \<Rightarrow> note_summary list act" where
  "fill_page 0 s dl cl q matched after = raise_exn Diverges"
| "fill_page (Suc m) s dl cl q matched after =
     (let wanted = Suc (nq_limit q); batch = max wanted 200
      in if wanted \<le> length matched then ret matched
         else bnd (transaction s (bnd (conditions s dl cl q) (\<lambda>held.
                gather (Suc m) s held q batch (wanted - length matched) [] after))) (\<lambda>(found, after', exhausted).
              bnd (require_notes_root s) (\<lambda>u.
              bnd (\<lambda>w. if index_fresh s w then (Inr (), w) else index_refresh s w) (\<lambda>u.
              bnd (read_candidates s found) (\<lambda>ms.
              if exhausted then ret (matched @ ms) else fill_page m s dl cl q (matched @ ms) after')))))"

definition schema_revision_now :: "cursor_lib \<Rightarrow> int act" where
  "schema_revision_now cl w = (Inr (cu_revision cl (w_tick w)), w)"

text \<open>The question a cursor belongs to, where a filter makes it one.\<close>

definition question :: "doc_lib \<Rightarrow> cursor_lib \<Rightarrow> note_query \<Rightarrow> int \<Rightarrow> exn + str option" where
  "question dl cl q revision =
     (case nq_filter q of None \<Rightarrow> Inr None
      | Some text \<Rightarrow> (case parse_filter (cu_json cl) text of Inl e \<Rightarrow> Inl PyFault
          | Inr cs \<Rightarrow> Inr (Some (query_context dl cl q cs revision))))"

text \<open>\<open>except (SQLAlchemyError, OSError)\<close>, which a typed error passes.\<close>

definition list_notes :: "nat \<Rightarrow> 'd site \<Rightarrow> doc_lib \<Rightarrow> cursor_lib \<Rightarrow> note_query \<Rightarrow> (note_summary list \<times> str option) act" where
  "list_notes fuel s dl cl q =
     bnd (schema_revision_now cl) (\<lambda>revision.
     bnd (of_sum (question dl cl q revision)) (\<lambda>context.
     bnd (of_sum (given_cursor (nq_cursor q) (read_note_cursor cl context))) (\<lambda>after.
     bnd (catching (fill_page fuel s dl cl q [] after) (metadata_read s)) (\<lambda>matched.
     bnd (schema_revision_now cl) (\<lambda>again.
     if nq_filter q \<noteq> None \<and> again \<noteq> revision then raise_exn (Typed FilterCursorConflict)
     else ret (take (nq_limit q) matched,
               if nq_limit q < length matched
               then Some (note_cursor cl context (nm_id (last (take (nq_limit q) matched)))) else None))))))"

section \<open>Tags\<close>

definition tag_counts :: "db \<Rightarrow> (str \<times> nat) list" where
  "tag_counts b =
     (let live = filter (\<lambda>(i, r). live_row r) (db_rows b)
      in map (\<lambda>t. (t, length (remdups (map fst (filter (\<lambda>(i, r). t \<in> set (mc_tags (r_cols r))) live)))))
           (sort (remdups (concat (map (\<lambda>(i, r). mc_tags (r_cols r)) live)))))"

definition list_tags :: "'d site \<Rightarrow> (str \<times> nat) list act" where
  "list_tags s = catching (bnd begin_tx (\<lambda>u. query s tag_counts)) (metadata_read s)"

end
