(* ===== verification/ListingLaws.thy ===== *)
theory ListingLaws
  imports Listings SourceStore
begin

text \<open>
  What a reader of the listings sees of a mirror that stands still.
\<close>

definition mirror_holds :: "'d site \<Rightarrow> bool" where
  "mirror_holds s \<longleftrightarrow> db_quiet s \<and> (\<forall>n. db_fault_at s n = None)"

lemma query_holds:
  "mirror_holds s \<Longrightarrow> w_tx w = [] \<Longrightarrow> query s f w = (Inr (f (w_db w)), tick s w)"
  by (simp add: mirror_holds_def query_def view_def tick_db Let_def)

lemma begun_query_holds:
  "mirror_holds s \<Longrightarrow> catching (bnd begin_tx (\<lambda>u. query s f)) h w = (Inr (f (w_db w)), tick s (w\<lparr>w_tx := []\<rparr>))"
  by (simp add: catching_def bnd_def begin_tx_def query_holds)

lemma tick_keeps: "mirror_holds s \<Longrightarrow> w_db (tick s w) = w_db w" "mirror_holds s \<Longrightarrow> w_tx (tick s w) = w_tx w"
  by (simp_all add: mirror_holds_def tick_db)

lemma own_cursor:
  assumes "faithful_cursors dl cl" and "a = None \<or> the a \<in> K" and "\<forall>k \<in> K. encode (snd k) \<noteq> None"
  shows "given_cursor (map_option (instant_cursor dl cl) a) (read_instant_cursor dl cl) = Inr a"
proof (cases a)
  case (Some k)
  with assms have "read_instant_cursor dl cl (instant_cursor dl cl k) = Inr k" by (simp add: instant_cursor_back)
  moreover have "instant_cursor dl cl k \<noteq> []" using assms(1) by (simp add: instant_cursor_def faithful_cursors_def)
  ultimately show ?thesis using Some by (auto simp: given_cursor_def split: list.splits)
qed (simp add: given_cursor_def)

lemma sources_answer:
  assumes m: "mirror_holds s" and c: "faithful_cursors dl cl" and e: "list_all (\<lambda>r. encode (fst r) \<noteq> None) (t_sources t)"
  shows "source_pages.answers (\<lambda>c. list_sources s dl cl (q\<lparr>sq_cursor := c, sq_limit := n\<rparr>)) (\<lambda>w. db_src (w_db w) = t)
    (instant_cursor dl cl) source_summary_of (cl, q, t) n"
proof -
  have g: "given_cursor (map_option (instant_cursor dl cl) a) (read_instant_cursor dl cl) = Inr a"
    if "a = None \<or> the a \<in> source_key ` set (rev (sort_key source_key (filter (source_matches cl q) (t_sources t))))" for a
    using e by (intro own_cursor [OF c that]) (auto simp: source_key_def list_all_iff)
  have "source_matches cl (q\<lparr>sq_cursor := c, sq_limit := n\<rparr>) = source_matches cl q" for c
    by (rule ext) (simp add: source_matches_def)
  then show ?thesis
    unfolding source_pages.answers_def list_sources_def
    using g m by (simp add: bnd_def [of "of_sum _"] of_sum_def ret_def)
      (simp add: bnd_def begun_query_holds tick_keeps ret_def Let_def)
qed

definition artifact_shown :: "db \<Rightarrow> str \<times> artifact_rec \<Rightarrow> artifact_summary" where
  "artifact_shown b r = \<lparr>as_id = fst r, as_row = snd r, as_citing = citing_of b (fst r)\<rparr>"

lemma summary_shown:
  "r \<in> set rows \<Longrightarrow> artifact_summary_of (map ((\<lambda>i. (i, citing_of b i)) \<circ> fst) rows) r = artifact_shown b r"
proof -
  have "map ((\<lambda>i. (i, citing_of b i)) \<circ> fst) rows = map (\<lambda>i. (i, citing_of b i)) (map fst rows)" by simp
  then show "r \<in> set rows \<Longrightarrow> ?thesis"
    unfolding artifact_summary_of_def artifact_shown_def by (simp add: map_of_map_restrict del: map_map)
qed

lemma citing_notes_holds:
  assumes "mirror_holds s" and "w_tx w = []"
  shows "\<exists>w'. citing_notes s ids w = (Inr (map (\<lambda>i. (i, citing_of (w_db w) i)) ids), w') \<and> w_db w' = w_db w"
  using assms by (cases "ids = []") (simp_all add: citing_notes_def ret_def query_holds tick_keeps)

lemma artifacts_answer:
  assumes m: "mirror_holds s" and c: "faithful_cursors dl cl"
    and e: "list_all (\<lambda>r. encode (fst r) \<noteq> None) (mt_artifacts (db_more b))"
  shows "artifact_pages.answers (\<lambda>c. list_artifacts s dl cl (q\<lparr>aq_cursor := c, aq_limit := n\<rparr>)) (\<lambda>w. w_db w = b)
    (instant_cursor dl cl) (artifact_shown b) (s, q, b) n"
  unfolding artifact_pages.answers_def prod.case
proof (intro allI impI)
  fix w :: world and a
  assume w: "w_db w = b"
    and "a = None \<or> the a \<in> artifact_key ` set (rev (sort_key artifact_key (filter (artifact_matches s q b) (mt_artifacts (db_more b)))))"
  then have g: "given_cursor (map_option (instant_cursor dl cl) a) (read_instant_cursor dl cl) = Inr a"
    using e by (intro own_cursor [OF c]) (auto simp: artifact_key_def list_all_iff)
  have same: "artifact_matches s (q\<lparr>aq_cursor := c, aq_limit := n\<rparr>) = artifact_matches s q" for c
    by (intro ext) (simp add: artifact_matches_def)
  define rows where "rows = rows_past artifact_key (Suc n) a (filter (artifact_matches s q b) (mt_artifacts (db_more b)))"
  define w1 where "w1 = tick s (w\<lparr>w_tx := []\<rparr>)"
  have w1: "w_db w1 = b" "w_tx w1 = []" using m w by (simp_all add: w1_def tick_keeps)
  obtain w2 where w2: "citing_notes s (map fst (take n rows)) w1 =
      (Inr (map (\<lambda>i. (i, citing_of b i)) (map fst (take n rows))), w2)" "w_db w2 = b"
    using citing_notes_holds [OF m w1(2), of "map fst (take n rows)"] w1(1) by auto
  have "query s (\<lambda>b. rows_past artifact_key (Suc n) a (filter (artifact_matches s q b) (mt_artifacts (db_more b)))) (w\<lparr>w_tx := []\<rparr>)
      = (Inr rows, w1)"
    using m w by (simp add: query_holds w1_def rows_def)
  with w2 g show "case list_artifacts s dl cl (q\<lparr>aq_cursor := map_option (instant_cursor dl cl) a, aq_limit := n\<rparr>) w of
      (r, w') \<Rightarrow> w_db w' = b \<and> r = Inr (map (artifact_shown b) (fst (cut_page artifact_key n
          (rows_past artifact_key (Suc n) a (filter (artifact_matches s q b) (mt_artifacts (db_more b)))))),
        map_option (instant_cursor dl cl) (snd (cut_page artifact_key n
          (rows_past artifact_key (Suc n) a (filter (artifact_matches s q b) (mt_artifacts (db_more b)))))))"
    by (simp add: list_artifacts_def bnd_def catching_def begin_tx_def of_sum_def ret_def Let_def same rows_def [symmetric]
        cut_page_def summary_shown)
qed

section \<open>The properties\<close>

text \<open>C18. Following the cursors of \<open>list_sources\<close> over a mirror that stands still answers every source that matches the
  filters exactly once, newest first, whatever the size of a page.\<close>

theorem sources_listed_once:
  assumes "mirror_holds s" and "faithful_cursors dl cl" and "distinct (map fst (t_sources (db_src (w_db w))))"
    and "list_all (\<lambda>r. encode (fst r) \<noteq> None) (t_sources (db_src (w_db w)))" and "0 < n"
  shows "case fst (follow (Suc (length (t_sources (db_src (w_db w))))) (\<lambda>c. list_sources s dl cl (q\<lparr>sq_cursor := c, sq_limit := n\<rparr>)) None w) of
      Inl e \<Rightarrow> False
    | Inr found \<Rightarrow> distinct (map ss_id found) \<and>
        set found = source_summary_of ` set (filter (source_matches cl q) (t_sources (db_src (w_db w)))) \<and>
        sorted_wrt (\<lambda>a b. (ss_created b, ss_id b) < (ss_created a, ss_id a)) found"
proof -
  define t where "t = db_src (w_db w)"
  define rows where "rows = filter (source_matches cl q) (t_sources t)"
  let ?all = "rev (sort_key source_key rows)"
  have d: "distinct (map fst rows)" using assms(3) by (simp add: rows_def t_def distinct_map_filter)
  have "length ?all < Suc (length (t_sources t))" by (simp add: rows_def le_imp_less_Suc)
  then have f: "fst (follow (Suc (length (t_sources t))) (\<lambda>c. list_sources s dl cl (q\<lparr>sq_cursor := c, sq_limit := n\<rparr>)) None w) =
      Inr (map source_summary_of ?all)"
    using source_pages.follow_covers [OF sources_answer [OF assms(1,2), where t = t and q = q and n = n]] assms(3-5)
    by (simp add: t_def rows_def del: follow.simps)
  have "ss_id \<circ> source_summary_of = fst" by (simp add: fun_eq_iff source_summary_of_def)
  moreover have "distinct (map fst ?all)"
    using d by (simp add: rev_map [symmetric]) (metis mset_map mset_sort mset_eq_imp_distinct_iff)
  moreover have "sorted_wrt (\<lambda>x y. source_key y < source_key x) ?all"
  proof (rule sorted_strict)
    have "map fst rows = map snd (map source_key rows)" by (simp add: source_key_def)
    then show "distinct (map source_key rows)" using d by (metis distinct_map)
  qed
  ultimately show ?thesis
    unfolding t_def [symmetric] f
    by (simp add: rows_def sorted_wrt_map source_summary_of_def source_key_def image_image)
qed

text \<open>A codec of flat documents: every field is its key and its value, each text after its length.\<close>

fun write_value :: "pyval \<Rightarrow> str" where
  "write_value (PInt i) = [1, if 0 \<le> i then 0 else 1, nat (abs i)]"
| "write_value (PStr t) = [2, length t] @ t"
| "write_value (POther n) = [3, n]"
| "write_value v = [0]"

primrec write_fields :: "fmap \<Rightarrow> str" where
  "write_fields [] = []"
| "write_fields (p # d) = [length (fst p)] @ fst p @ write_value (snd p) @ write_fields d"

definition read_value :: "str \<Rightarrow> pyval \<times> str" where
  "read_value t =
     (case t of
        Suc 0 # sg # n # r \<Rightarrow> (PInt (if sg = 0 then int n else - int n), r)
      | Suc (Suc 0) # n # r \<Rightarrow> (PStr (take n r), drop n r)
      | Suc (Suc (Suc 0)) # n # r \<Rightarrow> (POther n, r)
      | _ \<Rightarrow> (PNone, tl t))"

primrec read_fields :: "nat \<Rightarrow> str \<Rightarrow> fmap" where
  "read_fields 0 t = []"
| "read_fields (Suc m) t =
     (let n = hd t; k = take n (tl t); (v, r) = read_value (drop n (tl t)) in (k, v) # read_fields m r)"

definition sample_cursors :: cursor_lib where
  "sample_cursors = \<lparr>cu_text = (\<lambda>d. length d # write_fields d), cu_read = (\<lambda>t. Some (PMap (read_fields (hd t) (tl t)))),
     cu_day = (\<lambda>t. Date 2026 1 1), cu_float = (\<lambda>r. POther (if 0 \<le> r then 2 * nat r else 2 * nat (- r) - 1)),
     cu_number = (\<lambda>v. case v of POther n \<Rightarrow> Some (if even n then int (n div 2) else - int (Suc n div 2)) | _ \<Rightarrow> None),
     cu_dumps = (\<lambda>b v. []), cu_json = (\<lambda>t. None), cu_revision = (\<lambda>n. 0)\<rparr>"

definition clock_docs :: doc_lib where
  "clock_docs = sample_docs\<lparr>dl_iso := (\<lambda>t. replicate (nat (abs t)) (if 0 \<le> t then 43 else 45)),
     dl_when := (\<lambda>v. case v of PStr a \<Rightarrow> Some (if 45 \<in> set a then - int (length a) else int (length a), True) | _ \<Rightarrow> None)\<rparr>"

lemma read_fields_written: "plain_document sample_cursors d \<Longrightarrow> read_fields (length d) (write_fields d) = d"
proof (induction d)
  case (Cons p d)
  obtain k v where p: "p = (k, v)" by fastforce
  have "read_value (write_value v @ write_fields d) = (v, write_fields d)"
    using Cons.prems by (cases v) (auto simp: p plain_document_def sample_cursors_def read_value_def numeral_2_eq_2 numeral_3_eq_3)
  then show ?case using Cons by (simp add: p plain_document_def)
qed simp

lemma sample_faithful: "faithful_cursors clock_docs sample_cursors"
proof -
  have "encode (replicate n c) \<noteq> None" if "c < 128" for n c
    using encode_ascii [of "replicate n c"] that by (simp add: list_all_iff)
  then show ?thesis
    unfolding faithful_cursors_def
    by (auto simp: sample_cursors_def clock_docs_def read_fields_written [unfolded sample_cursors_def])
qed

text \<open>A mirror of three sources, read one by one.\<close>

definition listed_source :: "int \<Rightarrow> source_row" where
  "listed_source t = \<lparr>so_provider = U ''mail'', so_external = [], so_type = U ''email'', so_origin = [], so_current = 1,
     so_identity = [], so_created = t, so_updated = t\<rparr>"

definition listed_world :: world where
  "listed_world = source_world\<lparr>w_db := (w_db source_world)\<lparr>db_src := no_sources\<lparr>t_sources :=
     [(U ''B'', listed_source 7), (U ''A'', listed_source 7), (U ''C'', listed_source 9)]\<rparr>\<rparr>\<rparr>"

definition all_sources :: source_query where
  "all_sources = \<lparr>sq_cursor = None, sq_limit = 1, sq_provider = None, sq_from = None, sq_to = None\<rparr>"

lemma sources_listed_once_witness:
  "case fst (follow (Suc (length (t_sources (db_src (w_db listed_world)))))
      (\<lambda>c. list_sources source_site clock_docs sample_cursors (all_sources\<lparr>sq_cursor := c, sq_limit := 1\<rparr>)) None listed_world) of
      Inl e \<Rightarrow> False
    | Inr found \<Rightarrow> distinct (map ss_id found) \<and>
        set found = source_summary_of ` set (filter (source_matches sample_cursors all_sources) (t_sources (db_src (w_db listed_world)))) \<and>
        sorted_wrt (\<lambda>a b. (ss_created b, ss_id b) < (ss_created a, ss_id a)) found"
proof (rule sources_listed_once)
  show "mirror_holds source_site"
    by (simp add: mirror_holds_def db_quiet_def source_site_def sample_site_def)
  show "list_all (\<lambda>r. encode (fst r) \<noteq> None) (t_sources (db_src (w_db listed_world)))"
    using encode_ascii [of "U ''A''"] encode_ascii [of "U ''B''"] encode_ascii [of "U ''C''"]
    by (simp add: listed_world_def source_world_def no_sources_def U_def)
qed (simp_all add: sample_faithful listed_world_def source_world_def no_sources_def U_def)

text \<open>So does \<open>list_artifacts\<close>, and each artifact comes with the live notes that cite it.\<close>

lemma artifacts_listed_once:
  assumes "mirror_holds s" and "faithful_cursors dl cl" and "distinct (map fst (mt_artifacts (db_more (w_db w))))"
    and "list_all (\<lambda>r. encode (fst r) \<noteq> None) (mt_artifacts (db_more (w_db w)))" and "0 < n"
  shows "fst (follow (Suc (length (mt_artifacts (db_more (w_db w))))) (\<lambda>c. list_artifacts s dl cl (q\<lparr>aq_cursor := c, aq_limit := n\<rparr>)) None w) =
    Inr (map (artifact_shown (w_db w))
      (rev (sort_key artifact_key (filter (artifact_matches s q (w_db w)) (mt_artifacts (db_more (w_db w)))))))"
proof -
  have "length (rev (sort_key artifact_key (filter (artifact_matches s q (w_db w)) (mt_artifacts (db_more (w_db w)))))) <
      Suc (length (mt_artifacts (db_more (w_db w))))" by (simp add: le_imp_less_Suc)
  then show ?thesis
    using artifact_pages.follow_covers [OF artifacts_answer [OF assms(1,2,4), where q = q and n = n]] assms(3,5)
    by (simp del: follow.simps)
qed

end
