(* ===== verification/NoteListingLaws.thy ===== *)
theory NoteListingLaws
  imports NoteListing ListingLaws "HOL-Library.Sublist"
begin

text \<open>
  What a page of \<open>list_notes\<close> is, whatever the others do to the mirror and the files while it is put
  together.  \<open>gives P m\<close> is partial: a result of \<open>m\<close> satisfies \<open>P\<close>.
\<close>

section \<open>What an action gives\<close>

definition gives :: "('a \<Rightarrow> bool) \<Rightarrow> 'a act \<Rightarrow> bool" where
  "gives P m \<longleftrightarrow> (\<forall>w. case fst (m w) of Inl e \<Rightarrow> True | Inr x \<Rightarrow> P x)"

named_theorems gives_intros

lemma givesD: "gives P m \<Longrightarrow> m w = (Inr x, w') \<Longrightarrow> P x"
  by (auto simp: gives_def dest!: spec [of _ w])

lemma gives_anything: "gives (\<lambda>x. True) m"
  by (auto simp: gives_def split: sum.splits)

lemma gives_weaken: "gives Q m \<Longrightarrow> (\<And>x. Q x \<Longrightarrow> P x) \<Longrightarrow> gives P m"
  by (auto simp: gives_def split: sum.splits)

lemma gives_ret [gives_intros]: "P x \<Longrightarrow> gives P (ret x)"
  by (simp add: gives_def ret_def)

lemma gives_raise [gives_intros]: "gives P (raise_exn e)"
  by (simp add: gives_def raise_exn_def)

lemma gives_bnd: "gives Q m \<Longrightarrow> (\<And>x. Q x \<Longrightarrow> gives P (f x)) \<Longrightarrow> gives P (bnd m f)"
  unfolding gives_def bnd_def by (auto split: prod.splits sum.splits) (metis fst_conv sum.inject(2) sum.simps(6))+

lemma gives_step [gives_intros]: "(\<And>x. gives P (f x)) \<Longrightarrow> gives P (bnd m f)"
  by (rule gives_bnd [OF gives_anything])

lemma gives_catching: "gives P m \<Longrightarrow> (\<And>e. gives P (h e)) \<Longrightarrow> gives P (catching m h)"
  unfolding gives_def catching_def by (auto split: prod.splits sum.splits) (metis fst_conv sum.simps(6))+

lemma gives_transaction: "gives P m \<Longrightarrow> gives P (transaction s m)"
  unfolding gives_def transaction_def bnd_def begin_tx_def finish_def ret_def
  by (auto split: prod.splits sum.splits) (metis fst_conv sum.simps(6))+

lemma gives_metadata_read [gives_intros]: "gives P (metadata_read s e)"
  by (simp add: metadata_read_def gives_raise)

lemma gives_if: "(c \<Longrightarrow> gives P a) \<Longrightarrow> (\<not> c \<Longrightarrow> gives P b) \<Longrightarrow> gives P (if c then a else b)"
  by simp

section \<open>A stretch of the listing\<close>

definition past :: "str option \<Rightarrow> str \<Rightarrow> bool" where
  "past a i \<longleftrightarrow> (case a of None \<Rightarrow> True | Some x \<Rightarrow> x < i)"

definition reaches :: "str option \<Rightarrow> str \<Rightarrow> bool" where
  "reaches a i \<longleftrightarrow> (case a of None \<Rightarrow> False | Some x \<Rightarrow> i \<le> x)"

text \<open>\<open>ms\<close> lies strictly in order past \<open>lo\<close> and up to \<open>hi\<close>, and asks the query nothing it does not hold.\<close>

definition stretch :: "note_query \<Rightarrow> str option \<Rightarrow> note_summary list \<Rightarrow> str option \<Rightarrow> bool" where
  "stretch q lo ms hi \<longleftrightarrow>
     sorted_wrt (<) (map nm_id ms) \<and>
     list_all (\<lambda>m. past lo (nm_id m) \<and> reaches hi (nm_id m) \<and> matches_query q (nm_row m)) ms \<and>
     (case lo of None \<Rightarrow> True | Some l \<Rightarrow> reaches hi l)"

lemma stretch_empty [simp]: "stretch q lo [] lo"
  by (simp add: stretch_def reaches_def split: option.split)

lemma upto_past: "reaches hi i \<Longrightarrow> past hi j \<Longrightarrow> i < j"
  by (auto simp: reaches_def past_def split: option.splits)

lemma stretch_append:
  assumes "stretch q lo xs mid" and "stretch q mid ys hi"
  shows "stretch q lo (xs @ ys) hi"
proof -
  have "nm_id x < nm_id y" if "x \<in> set xs" "y \<in> set ys" for x y
    using assms that upto_past [of mid "nm_id x" "nm_id y"] by (simp add: stretch_def list_all_iff)
  moreover have "past lo (nm_id y)" if "y \<in> set ys" for y
  proof (cases lo)
    case (Some l)
    then have "reaches mid l" using assms(1) by (simp add: stretch_def)
    moreover have "past mid (nm_id y)" using assms(2) that by (simp add: stretch_def list_all_iff)
    ultimately show ?thesis using Some upto_past [of mid l "nm_id y"] by (simp add: past_def)
  qed (simp add: past_def)
  moreover have up: "reaches hi i" if "reaches mid i" for i
    using that assms(2) by (auto simp: stretch_def reaches_def split: option.splits)
  moreover have "case lo of None \<Rightarrow> True | Some l \<Rightarrow> reaches hi l"
    using assms(1) up by (auto simp: stretch_def split: option.splits)
  ultimately show ?thesis
    using assms by (auto simp: stretch_def sorted_wrt_append list_all_iff)
qed

text \<open>Leaving notes out keeps a stretch.\<close>

lemma subseq_set: "subseq xs ys \<Longrightarrow> set xs \<subseteq> set ys"
  by (induction rule: list_emb.induct) auto

lemma sorted_wrt_sub: "subseq xs ys \<Longrightarrow> sorted_wrt R ys \<Longrightarrow> sorted_wrt R xs"
proof (induction rule: list_emb.induct)
  case (list_emb_Cons2 x y xs ys)
  moreover have "set xs \<subseteq> set ys" using list_emb_Cons2(2) by (rule subseq_set)
  ultimately show ?case by auto
qed auto


definition name_and_row :: "note_summary \<Rightarrow> str \<times> row" where
  "name_and_row m = (nm_id m, nm_row m)"

lemma stretch_sub:
  assumes "stretch q lo ms hi" and "subseq (map name_and_row ns) (map name_and_row ms)"
  shows "stretch q lo ns hi"
proof -
  define P where "P = (\<lambda>x. past lo (fst x) \<and> reaches hi (fst x) \<and> matches_query q (snd x))"
  have ids: "map nm_id xs = map fst (map name_and_row xs)" for xs by (simp add: name_and_row_def)
  have all: "list_all (\<lambda>m. past lo (nm_id m) \<and> reaches hi (nm_id m) \<and> matches_query q (nm_row m)) xs =
      list_all P (map name_and_row xs)" for xs
    by (simp add: P_def name_and_row_def list_all_iff)
  have "subseq (map fst (map name_and_row ns)) (map fst (map name_and_row ms))"
    using assms(2) by (rule subseq_map)
  then have "sorted_wrt (<) (map nm_id ns)"
    using assms(1) unfolding stretch_def ids by (blast intro: sorted_wrt_sub)
  moreover have "set (map name_and_row ns) \<subseteq> set (map name_and_row ms)"
    using assms(2) by (rule subseq_set)
  ultimately show ?thesis
    using assms(1) unfolding stretch_def all by (auto simp: list_all_iff)
qed

section \<open>The steps of a page\<close>

lemma rows_after_order:
  "sorted_wrt (<) (map fst (rows_after cond after n b)) \<and> list_all (\<lambda>p. past after (fst p)) (rows_after cond after n b)"
proof -
  define ids where "ids = filter (\<lambda>i. case after of None \<Rightarrow> True | Some a \<Rightarrow> a < i) (sort (remdups (map fst (db_rows b))))"
  define rows where "rows = List.map_filter (\<lambda>i. map_option (Pair i) (row_of b i)) ids"
  have "subseq (map fst rows) ids"
    unfolding rows_def by (induction ids) (auto simp: map_filter_simps split: option.splits)
  moreover have "sorted_wrt (<) ids"
    unfolding ids_def by (intro sorted_wrt_filter) (simp add: strict_sorted_iff)
  moreover have "list_all (past after) ids" by (auto simp: ids_def past_def list_all_iff split: option.splits)
  moreover have "subseq (map fst (rows_after cond after n b)) (map fst rows)"
    unfolding rows_after_def rows_def [unfolded ids_def, symmetric]
    by (rule subseq_map) (metis subseq_filter_left subseq_order.trans prefix_imp_subseq take_is_prefix)
  ultimately have "subseq (map fst (rows_after cond after n b)) ids" by (meson subseq_order.trans)
  from subseq_set [OF this] sorted_wrt_sub [OF this \<open>sorted_wrt (<) ids\<close>] \<open>list_all (past after) ids\<close>
  show ?thesis by (auto simp: list_all_iff)
qed

lemma take_matching_stretch:
  assumes "take_matching q needed rows acc after = (acc', after', full)"
    and "stretch q lo acc after" and "sorted_wrt (<) (map fst rows)" and "list_all (\<lambda>p. past after (fst p)) rows"
  shows "stretch q lo acc' after'"
  using assms
proof (induction q needed rows acc after arbitrary: acc' after' full rule: take_matching.induct)
  case (2 q needed i r rows acc after)
  have one: "stretch q after [mirrored_summary i r] (Some i)" if "matches_query q r"
    using 2(6) that by (auto simp: stretch_def mirrored_summary_def reaches_def past_def split: option.splits)
  have none: "stretch q after [] (Some i)"
    using 2(6) by (auto simp: stretch_def reaches_def past_def split: option.splits)
  have past: "list_all (\<lambda>p. past (Some i) (fst p)) rows" using 2(5) by (auto simp: past_def list_all_iff)
  show ?case
    using 2 stretch_append [OF 2(4) one] stretch_append [OF 2(4) none] past
    by (auto split: if_splits)
qed simp

lemma gather_stretch:
  "stretch q lo acc after \<Longrightarrow> gives (\<lambda>(ms, hi, e). stretch q lo ms hi) (gather m s cond q batch needed acc after)"
proof (induction m arbitrary: acc after)
  case (Suc m)
  have "gives (\<lambda>(ms, hi, e). stretch q lo ms hi)
      (case take_matching q needed rows acc after of (acc', after', full) \<Rightarrow>
          if full then ret (acc', after', False)
          else if length rows < batch then ret (acc', after', True)
          else gather m s cond q batch needed acc' after')" 
    if "sorted_wrt (<) (map fst rows) \<and> list_all (\<lambda>p. past after (fst p)) rows" for rows
    using take_matching_stretch [of q needed rows acc after] that Suc
    by (auto intro!: gives_ret split: prod.split)
  moreover have "gives (\<lambda>rows. sorted_wrt (<) (map fst rows) \<and> list_all (\<lambda>p. past after (fst p)) rows)
      (query s (rows_after cond after batch))"
    by (simp add: gives_def query_def Let_def rows_after_order split: option.split)
  ultimately show ?case
    using Suc.prems by (auto intro!: gives_ret gives_bnd)
qed (simp add: gives_raise)

lemma read_candidates_sub:
  "gives (\<lambda>ns. subseq (map name_and_row ns) (map name_and_row ms)) (read_candidates s ms)"
proof (induction ms)
  case (Cons m ms)
  have same: "name_and_row (m\<lparr>nm_error := e, nm_attempts := n\<rparr>) = name_and_row m" for e n by (simp add: name_and_row_def)
  have "gives (\<lambda>ns. subseq (map name_and_row ns) (map name_and_row (m # ms)))
      (bnd (filing_state s (nm_id m)) (\<lambda>(err, n).
        bnd (read_candidates s ms) (\<lambda>rest. ret (m\<lparr>nm_error := err, nm_attempts := n\<rparr> # rest))))"
    by (rule gives_step) (auto intro!: gives_bnd [OF Cons.IH] gives_ret simp: same split: prod.split)
  moreover have "gives (\<lambda>ns. subseq (map name_and_row ns) (map name_and_row (m # ms))) (read_candidates s ms)"
    by (rule gives_weaken [OF Cons.IH]) (auto intro: list_emb_Cons)
  ultimately show ?case by (auto intro!: gives_step)
qed (simp add: gives_ret)

lemma fill_page_stretch:
  "stretch q lo matched after \<Longrightarrow> gives (\<lambda>ms. \<exists>hi. stretch q lo ms hi) (fill_page m s dl cl q matched after)"
proof (induction m arbitrary: matched after)
  case (Suc m)
  have found: "gives (\<lambda>(ms, hi, e). stretch q after ms hi) (transaction s (bnd (conditions s dl cl q) (\<lambda>cond.
      gather (Suc m) s cond q batch needed [] after)))" for batch needed
    by (rule gives_transaction, rule gives_step, rule gather_stretch) simp
  have rest: "gives (\<lambda>ms. \<exists>hi. stretch q lo ms hi) (bnd (require_notes_root s) (\<lambda>u.
      bnd (\<lambda>w. if index_fresh s w then (Inr (), w) else index_refresh s w) (\<lambda>u.
      bnd (read_candidates s found) (\<lambda>ms.
      if exhausted then ret (matched @ ms) else fill_page m s dl cl q (matched @ ms) after'))))"
    if f: "stretch q after found after'" for found after' exhausted
  proof (rule gives_step, rule gives_step, rule gives_bnd [OF read_candidates_sub])
    fix ns assume "subseq (map name_and_row ns) (map name_and_row found)"
    then have "stretch q lo (matched @ ns) after'"
      using stretch_append [OF Suc.prems] stretch_sub [OF f] by blast
    then show "gives (\<lambda>ms. \<exists>hi. stretch q lo ms hi)
        (if exhausted then ret (matched @ ns) else fill_page m s dl cl q (matched @ ns) after')"
      using Suc.IH by (auto intro!: gives_ret)
  qed
  show ?case
    using Suc.prems unfolding fill_page.simps Let_def
    by (intro gives_if gives_bnd [OF found]) (auto intro!: gives_ret rest split: prod.split)
qed (simp add: gives_raise)

section \<open>The page\<close>

definition list_after :: "nat \<Rightarrow> 'd site \<Rightarrow> doc_lib \<Rightarrow> cursor_lib \<Rightarrow> note_query \<Rightarrow> int \<Rightarrow> str option \<Rightarrow> str option
    \<Rightarrow> (note_summary list \<times> str option) act" where
  "list_after fuel s dl cl q revision context after =
     bnd (catching (fill_page fuel s dl cl q [] after) (metadata_read s)) (\<lambda>matched.
     bnd (schema_revision_now cl) (\<lambda>again.
     if nq_filter q \<noteq> None \<and> again \<noteq> revision then raise_exn (Typed FilterCursorConflict)
     else ret (take (nq_limit q) matched,
               if nq_limit q < length matched
               then Some (note_cursor cl context (nm_id (last (take (nq_limit q) matched)))) else None)))"

lemma stretch_take: "stretch q lo ms hi \<Longrightarrow> stretch q lo (take n ms) hi"
  by (erule stretch_sub) (metis prefix_imp_subseq subseq_map take_is_prefix)

lemma list_after_page:
  "gives (\<lambda>(page, onward). sorted_wrt (<) (map nm_id page) \<and> length page \<le> nq_limit q \<and>
      list_all (\<lambda>m. matches_query q (nm_row m)) page \<and> list_all (\<lambda>m. past after (nm_id m)) page \<and>
      (case onward of None \<Rightarrow> True
       | Some c \<Rightarrow> length page = nq_limit q \<and> c = note_cursor cl context (nm_id (last page))))
    (list_after fuel s dl cl q revision context after)"
proof -
  have "gives (\<lambda>ms. \<exists>hi. stretch q after ms hi) (catching (fill_page fuel s dl cl q [] after) (metadata_read s))"
    by (intro gives_catching fill_page_stretch gives_metadata_read) simp
  then have "gives (\<lambda>ms. \<exists>hi. stretch q after (take (nq_limit q) ms) hi) (catching (fill_page fuel s dl cl q [] after) (metadata_read s))"
    by (rule gives_weaken) (blast intro: stretch_take)
  then show ?thesis
    unfolding list_after_def
    by (auto intro!: gives_bnd [where P = "case_prod _"] gives_step [where m = "schema_revision_now cl"] gives_if gives_raise gives_ret
        simp: stretch_def list_all_iff)
qed

end
