(* ===== verification/NoteListingSeen.thy ===== *)
theory NoteListingSeen
  imports NoteListingLaws
begin

text \<open>
  What a page of notes was read from: each row is one the mirror had at a moment of the listing, where it also met the
  filter of the query.
\<close>

section \<open>The mirror a listing reads\<close>

text \<open>
  Where the clock, the files and the mirror stand.  While notes are listed they change by what the others do, and by the Store's own
  repair of a recorded path (\<open>repair_location\<close>); a listing writes nothing else.
\<close>

type_synonym point = "nat \<times> fsys \<times> db"

inductive passes :: "'d site \<Rightarrow> point \<Rightarrow> point \<Rightarrow> bool" for s where
  stays: "passes s x x"
| others_step: "passes s x (t, d, b) \<Longrightarrow> passes s x (Suc t, others s t (d, b))"
| repaired: "passes s x (t, d, b) \<Longrightarrow> passes s x (t, d, repair_row i previous p now b)"
| followed: "passes s x (t, d, b) \<Longrightarrow> passes s x (t, d, follow_doc i p b)"

definition point_of :: "world \<Rightarrow> point" where
  "point_of w = (w_tick w, w_disk w, w_db w)"

definition mirror_at :: "point \<Rightarrow> db" where
  "mirror_at x = snd (snd x)"

lemma passes_trans: "passes s x y \<Longrightarrow> passes s y z \<Longrightarrow> passes s x z"
  by (rotate_tac 1, induction rule: passes.induct) (auto intro: passes.intros)

definition path_repairs :: "(db \<Rightarrow> db) set" where
  "path_repairs = {f. (\<exists>i previous p now. f = repair_row i previous p now) \<or> (\<exists>i p. f = follow_doc i p)}"

definition repairs_open :: "world \<Rightarrow> bool" where
  "repairs_open w \<longleftrightarrow> set (w_tx w) \<subseteq> path_repairs"

definition course :: "'d site \<Rightarrow> 'a act \<Rightarrow> bool" where
  "course s m \<longleftrightarrow> (\<forall>w. repairs_open w \<longrightarrow> repairs_open (snd (m w)) \<and> passes s (point_of w) (point_of (snd (m w))))"

named_theorems course_intros

lemma passes_tick: "passes s (point_of w) (point_of (tick s w))"
proof -
  obtain d b where o: "others s (w_tick w) (w_disk w, w_db w) = (d, b)" by fastforce
  from passes.others_step [OF passes.stays, of s "w_tick w" "w_disk w" "w_db w"]
  show ?thesis by (simp add: point_of_def tick_def o)
qed

lemma tx_tick [simp]: "w_tx (tick s w) = w_tx w" "repairs_open (tick s w) = repairs_open w"
  by (simp_all add: tick_def repairs_open_def split: prod.splits)

lemma course_pure: "(\<And>w. point_of (snd (m w)) = point_of w \<and> (repairs_open w \<longrightarrow> repairs_open (snd (m w)))) \<Longrightarrow> course s m"
  by (simp add: course_def passes.stays)

lemma course_small [course_intros]: "course s (ret x)" "course s (raise_exn e)" "course s (now_at s')" "course s begin_tx"
  "course s (\<lambda>w. (Inr (g w), w))"
  by (rule course_pure, simp add: ret_def raise_exn_def now_at_def begin_tx_def point_of_def repairs_open_def)+

lemma course_after: "course s m \<Longrightarrow> repairs_open w1 \<Longrightarrow> passes s (point_of w) (point_of w1) \<Longrightarrow>
    repairs_open (snd (m w1)) \<and> passes s (point_of w) (point_of (snd (m w1)))"
  by (auto simp: course_def intro: passes_trans)

lemma course_bnd [course_intros]: "course s m \<Longrightarrow> (\<And>x. course s (f x)) \<Longrightarrow> course s (bnd m f)"
  unfolding course_def bnd_def
  by (auto split: prod.splits sum.splits) (metis snd_conv passes_trans)+

lemma course_catching [course_intros]: "course s m \<Longrightarrow> (\<And>e. course s (h e)) \<Longrightarrow> course s (catching m h)"
  unfolding course_def catching_def
  by (auto split: prod.splits sum.splits) (metis snd_conv passes_trans)+

lemma course_cases [course_intros]:
  "course s a \<Longrightarrow> course s b \<Longrightarrow> course s (if c then a else b)"
  "(\<And>u v. course s (g u v)) \<Longrightarrow> course s (case_prod g p)"
  "course s a \<Longrightarrow> (\<And>y. course s (f y)) \<Longrightarrow> course s (case_option a f z)"
  "(\<And>y. course s (k y)) \<Longrightarrow> (\<And>y. course s (l y)) \<Longrightarrow> course s (case_sum k l t)"
  "course s n \<Longrightarrow> (\<And>y ys. course s (u' y ys)) \<Longrightarrow> course s (case_list n u' zs)"
  "course s (h v') \<Longrightarrow> course s (Let v' h)"
  by (auto split: prod.splits option.splits sum.splits list.splits)

lemma course_look: "(\<And>now d x d'. f now d = Inr (x, d') \<Longrightarrow> d' = d) \<Longrightarrow> course s (disk_step s f)"
proof -
  assume same: "\<And>now d x d'. f now d = Inr (x, d') \<Longrightarrow> d' = d"
  have "(tick s w)\<lparr>w_disk := w_disk (tick s w)\<rparr> = tick s w" for w by simp
  then show ?thesis
    unfolding course_def disk_step_def Let_def
    by (auto split: option.split sum.split dest!: same simp: passes_tick)
qed

lemma course_query [course_intros]: "course s (query s f)"
  by (simp add: course_def query_def Let_def passes_tick split: option.split)

lemma course_execute: "f \<in> path_repairs \<Longrightarrow> course s (execute_with s q f)"
  unfolding course_def execute_with_def Let_def
  using passes_tick by (auto simp: repairs_open_def point_of_def split: option.split) 

lemma passes_repairs: "set fs \<subseteq> path_repairs \<Longrightarrow> passes s x (t, d, b) \<Longrightarrow> passes s x (t, d, foldl (\<lambda>b f. f b) b fs)"
proof (induction fs arbitrary: b)
  case (Cons f fs)
  then have "passes s x (t, d, f b)" by (auto simp: path_repairs_def intro: passes.intros)
  with Cons show ?case by simp
qed simp

lemma course_commit [course_intros]: "course s (commit s)"
proof -
  have "passes s (point_of w) (point_of ((tick s w)\<lparr>w_db := view (tick s w), w_tx := []\<rparr>))" if "repairs_open w" for w
    using that passes_repairs [of "w_tx w" s "point_of w" "w_tick (tick s w)" "w_disk (tick s w)" "w_db (tick s w)"] passes_tick [of s w]
    by (simp add: repairs_open_def point_of_def view_def)
  moreover have "point_of ((tick s w)\<lparr>w_tx := []\<rparr>) = point_of (tick s w)" for w by (simp add: point_of_def)
  ultimately show ?thesis
    by (auto simp: course_def commit_def Let_def repairs_open_def passes_tick split: option.split)
qed

lemma course_transaction [course_intros]: "course s m \<Longrightarrow> course s (transaction s m)"
proof -
  assume m: "course s m"
  have c: "course s (bnd (commit s) (\<lambda>u. ret x))" for x by (intro course_intros)
  have "course s (finish s m)"
    unfolding course_def
  proof (intro allI impI)
    fix w assume w: "repairs_open w"
    obtain r w1 where r: "m w = (r, w1)" by fastforce
    have w1: "repairs_open w1" "passes s (point_of w) (point_of w1)" using m w r by (auto simp: course_def dest!: spec [of _ w])
    show "repairs_open (snd (finish s m w)) \<and> passes s (point_of w) (point_of (snd (finish s m w)))"
      using w1 course_after [OF c w1]
      by (cases r) (simp_all add: finish_def r, simp add: repairs_open_def point_of_def)
  qed
  then show ?thesis unfolding transaction_def by (intro course_intros)
qed

lemma course_own: "(\<And>w. point_of (snd (g w)) = point_of w \<and> w_tx (snd (g w)) = w_tx w) \<Longrightarrow> course s (own_step s g)"
  by (auto simp: course_def own_step_def Let_def passes_tick repairs_open_def split: option.split)

section \<open>A listing only reads\<close>

lemma course_self: "(\<And>w. course s (g w)) \<Longrightarrow> course s (\<lambda>w. g w w)"
  by (simp add: course_def)

lemma course_files [course_intros]: "course s (is_note_file s p)" "course s (read_note s i p)" "course s (require_notes_root s)"
  unfolding is_note_file_def stat_regular_def read_note_def require_notes_root_def
  by (intro course_intros course_look; auto simp: lookup_file_def split: option.splits)+

lemma course_notices [course_intros]: "course s (record_path_notice s i p p')" "course s (clear_path_notice s i)"
  "course s (record_unreadable_notice s i p)"
  unfolding record_path_notice_def clear_path_notice_def record_unreadable_notice_def
  by (intro course_own; simp add: point_of_def)+

lemma course_filing [course_intros]: "course s (filing_state s i)"
  unfolding filing_state_def by (intro course_intros course_own) simp

lemma course_texts [course_intros]: "course s (metadata_read s e)" "course s (parse_at s i data)"
  unfolding metadata_read_def parse_at_def by (intro course_intros)+

lemma course_lookup [course_intros]: "course s (index_lookup s i)"
proof -
  have "course s (filter_files s ps)" for ps by (induction ps) (simp_all, (intro course_intros)+)
  then have c: "course s (case w_found w of None \<Rightarrow> ret None
      | Some found \<Rightarrow> (let age = st_mono s (w_tick w) - w_built w
           in bnd (filter_files s (case map_of found i of Some ps \<Rightarrow> ps | None \<Rightarrow> [])) (\<lambda>live_paths.
              ret (if live_paths \<noteq> [] \<and> age \<le> scan_interval s then Some live_paths
                   else if MISS_WINDOW < age then None else Some live_paths))))" for w
    by (intro course_intros)
  have "index_lookup s i = (\<lambda>w. (case w_found w of None \<Rightarrow> ret None
      | Some found \<Rightarrow> (let age = st_mono s (w_tick w) - w_built w
           in bnd (filter_files s (case map_of found i of Some ps \<Rightarrow> ps | None \<Rightarrow> [])) (\<lambda>live_paths.
              ret (if live_paths \<noteq> [] \<and> age \<le> scan_interval s then Some live_paths
                   else if MISS_WINDOW < age then None else Some live_paths)))) w)"
    by (rule ext) (simp add: index_lookup_def ret_def Let_def split: option.split)
  with course_self [OF c] show ?thesis by simp
qed

lemma course_refresh [course_intros]: "course s (index_refresh s)"
proof -
  have l: "course s (disk_step s (\<lambda>now d. Inr (scan_identities s d, d)))" by (rule course_look) simp
  have "repairs_open (snd (index_refresh s w)) \<and> passes s (point_of w) (point_of (snd (index_refresh s w)))" if "repairs_open w" for w
    using course_after [OF l that passes.stays] that
    by (auto simp: index_refresh_def Let_def passes.stays repairs_open_def point_of_def split: prod.splits sum.splits)
  then show ?thesis by (simp add: course_def)
qed

lemma course_followed [course_intros]: "course s (followed s i inl)"
  unfolding followed_def by (intro course_intros)

lemma course_repair [course_intros]: "course s (repair_location s i p q)"
proof -
  have "course s (execute_with s g (repair_row i p q now))" "course s (execute s (follow_doc i q))" for g now
    unfolding execute_def by (intro course_execute, auto simp: path_repairs_def)+
  then show ?thesis unfolding repair_location_def by (intro course_intros)
qed

lemma course_read [course_intros]: "course s (read_current s i)"
  unfolding read_current_def read_located_def locate_def by (intro course_intros)

lemma course_candidates [course_intros]: "course s (read_candidates s ms)"
proof -
  have "course s (readable s m)" for m
  proof -
    have "course s (case e of Typed (NotFoundNote i) \<Rightarrow> ret False | Typed (NoteUnparseable i t) \<Rightarrow> ret False
        | Typed (NotesFilesystemUnavailable t) \<Rightarrow> bnd (require_notes_root s) (\<lambda>u.
            bnd (record_unreadable_notice s (nm_id m) (r_path (nm_row m))) (\<lambda>u. ret False))
        | _ \<Rightarrow> raise_exn e)" for e
      by (auto split: exn.split store_error.split intro!: course_intros)
    then show ?thesis unfolding readable_def by (intro course_intros)
  qed
  then show ?thesis by (induction ms) (simp_all, (intro course_intros; assumption)+)
qed

section \<open>The rows of a page\<close>

text \<open>The filter of the query, as the index active in the mirror \<open>b0\<close> answers it of a row of the mirror \<open>b\<close>.\<close>

definition filter_held :: "'d site \<Rightarrow> cursor_lib \<Rightarrow> note_query \<Rightarrow> db \<Rightarrow> db \<Rightarrow> str \<Rightarrow> row \<Rightarrow> bool" where
  "filter_held s cl q b0 b i r \<longleftrightarrow>
     (case nq_filter q of None \<Rightarrow> True
      | Some text \<Rightarrow>
         (case validate_filter (cu_json cl) text (st_schema s) of Inl e \<Rightarrow> False
          | Inr cs \<Rightarrow> (case active_generation b0 of None \<Rightarrow> False
              | Some (gen, g) \<Rightarrow> list_all (indexed_as_declared (st_schema s) g) cs \<and> list_all (clause_holds (st_schema s) gen b i r) cs)))"

definition row_listed :: "'d site \<Rightarrow> cursor_lib \<Rightarrow> note_query \<Rightarrow> point \<Rightarrow> point \<Rightarrow> str \<times> row \<Rightarrow> bool" where
  "row_listed s cl q from to p \<longleftrightarrow>
     (\<exists>x y. passes s from x \<and> passes s x y \<and> passes s y to \<and> row_of (mirror_at y) (fst p) = Some (snd p) \<and>
        matches_query q (snd p) \<and> filter_held s cl q (mirror_at x) (mirror_at y) (fst p) (snd p))"

lemma row_listed_later: "row_listed s cl q a b p \<Longrightarrow> passes s b c \<Longrightarrow> row_listed s cl q a c p"
  unfolding row_listed_def by (blast intro: passes_trans)

lemma row_listed_earlier: "row_listed s cl q b c p \<Longrightarrow> passes s a b \<Longrightarrow> row_listed s cl q a c p"
  unfolding row_listed_def by (blast intro: passes_trans)

lemma rows_after_in: "(i, r) \<in> set (rows_after cond after n b) \<Longrightarrow> row_of b i = Some r \<and> cond b i r"
  unfolding rows_after_def by (auto simp: List.map_filter_def dest!: in_set_takeD)

lemma take_matching_in:
  "take_matching q needed rows acc after = (acc', after', full) \<Longrightarrow>
     m \<in> set acc' \<Longrightarrow> m \<in> set acc \<or> name_and_row m \<in> set rows \<and> matches_query q (nm_row m)"
proof (induction q needed rows acc after arbitrary: acc' after' full rule: take_matching.induct)
  case (2 q needed i r rows acc after)
  then show ?case
    by (auto simp: name_and_row_def mirrored_summary_def split: if_splits)
qed simp

abbreviation all_listed_rows :: "'d site \<Rightarrow> cursor_lib \<Rightarrow> note_query \<Rightarrow> point \<Rightarrow> point \<Rightarrow> note_summary list \<Rightarrow> bool" where
  "all_listed_rows s cl q a b ms \<equiv> list_all (\<lambda>m. row_listed s cl q a b (name_and_row m)) ms"

lemma listed_later: "all_listed_rows s cl q a b ms \<Longrightarrow> passes s b c \<Longrightarrow> all_listed_rows s cl q a c ms"
  by (auto simp: list_all_iff intro: row_listed_later)

lemma course_gather: "course s (gather m s cond q batch needed acc after)"
proof (induction m arbitrary: acc after)
  case (Suc m)
  then show ?case unfolding gather.simps by (intro course_intros)
qed (simp add: course_small)

lemma no_tx: "w_tx w = [] \<Longrightarrow> repairs_open w" and view_no_tx: "w_tx w = [] \<Longrightarrow> view w = w_db w"
  by (simp_all add: repairs_open_def view_def)

lemma query_no_tx:
  assumes "query s f w = (Inr x, w1)" and "w_tx w = []"
  shows "x = f (mirror_at (point_of w1))" "w_tx w1 = []" "passes s (point_of w) (point_of w1)"
  using assms passes_tick [of s w]
  by (auto simp: query_def Let_def mirror_at_def point_of_def view_no_tx split: option.splits)

lemma gather_listed:
  assumes "\<And>b i r. cond b i r \<Longrightarrow> filter_held s cl q (mirror_at x) b i r" and "passes s from x"
  shows "passes s x (point_of w) \<Longrightarrow> w_tx w = [] \<Longrightarrow> all_listed_rows s cl q from (point_of w) acc \<Longrightarrow>
    gather m s cond q batch needed acc after w = (Inr (ms, hi, e), w') \<Longrightarrow>
    all_listed_rows s cl q from (point_of w') ms \<and> w_tx w' = []"
proof (induction m arbitrary: acc after w)
  case (Suc m)
  show ?case
  proof (cases "needed \<le> length acc")
    case True
    with Suc.prems show ?thesis by (simp add: ret_def)
  next
    case False
    with Suc.prems(4) obtain rows w1 where rows: "query s (rows_after cond after batch) w = (Inr rows, w1)"
      and rest: "(case take_matching q needed rows acc after of (acc', after', full) \<Rightarrow>
          if full then ret (acc', after', False)
          else if length rows < batch then ret (acc', after', True)
          else gather m s cond q batch needed acc' after') w1 = (Inr (ms, hi, e), w')"
      by (auto simp: bnd_def split: prod.splits sum.splits)
    obtain acc' after' full where t: "take_matching q needed rows acc after = (acc', after', full)" by (cases "take_matching q needed rows acc after") auto
    note w1 = query_no_tx [OF rows Suc.prems(2)]
    have xw: "passes s x (point_of w1)" by (rule passes_trans [OF Suc.prems(1) w1(3)])
    have "row_listed s cl q from (point_of w1) (name_and_row m)" if "m \<in> set acc'" for m
      using take_matching_in [OF t that]
    proof
      assume "m \<in> set acc"
      with listed_later [OF Suc.prems(3) w1(3)] show ?thesis by (simp add: list_all_iff)
    next
      assume m: "name_and_row m \<in> set rows \<and> matches_query q (nm_row m)"
      with rows_after_in [of "nm_id m" "nm_row m" cond after batch "mirror_at (point_of w1)"] w1(1)
      have "row_of (mirror_at (point_of w1)) (nm_id m) = Some (nm_row m)" "cond (mirror_at (point_of w1)) (nm_id m) (nm_row m)"
        by (simp_all add: name_and_row_def)
      with assms m xw show ?thesis
        unfolding row_listed_def name_and_row_def fst_conv snd_conv
        by (intro exI [of _ x] exI [of _ "point_of w1"] conjI passes.stays) (simp_all add: name_and_row_def)
    qed
    then have acc': "all_listed_rows s cl q from (point_of w1) acc'" by (simp add: list_all_iff)
    show ?thesis
      using rest Suc.IH [OF xw w1(2) acc'] acc' w1(2) by (auto simp: t ret_def split: if_splits)
  qed
qed (simp add: raise_exn_def)

lemma conditions_held:
  assumes "conditions s dl cl q w = (Inr cond, w')" and "w_tx w = []"
  shows "\<exists>x. passes s (point_of w) x \<and> passes s x (point_of w') \<and> w_tx w' = [] \<and>
    (\<forall>b i r. cond b i r \<longrightarrow> filter_held s cl q (mirror_at x) b i r)"
proof (cases "nq_filter q")
  case None
  with assms show ?thesis
    by (intro exI [of _ "point_of w"]) (auto simp: conditions_def filter_held_def ret_def passes.stays)
next
  case (Some asked)
  show ?thesis
  proof (cases "validate_filter (cu_json cl) asked (st_schema s)")
    case (Inl e)
    with assms Some show ?thesis by (simp add: conditions_def raise_exn_def)
  next
    case (Inr cs)
    with assms Some obtain g w1 where g: "query s active_generation w = (Inr g, w1)" and
      rest: "(case g of None \<Rightarrow> raise_exn (Typed (FieldIndexNotReady (target_id dl cl (st_schema s))))
             | Some (gen, g) \<Rightarrow>
                if \<not> list_all (indexed_as_declared (st_schema s) g) cs
                then raise_exn (Typed (FieldIndexNotReady (target_id dl cl (st_schema s))))
                else ret (\<lambda>b i r. list_all (clause_holds (st_schema s) gen b i r) cs)) w1 = (Inr cond, w')"
      by (auto simp: conditions_def bnd_def split: prod.splits sum.splits)
    note w1 = query_no_tx [OF g assms(2)]
    from rest obtain gen gn where gn: "g = Some (gen, gn)" "list_all (indexed_as_declared (st_schema s) gn) cs"
      "cond = (\<lambda>b i r. list_all (clause_holds (st_schema s) gen b i r) cs)" "w' = w1"
      by (auto simp: raise_exn_def ret_def split: option.splits if_splits)
    have "active_generation (mirror_at (point_of w1)) = Some (gen, gn)" using w1(1) gn(1) by simp
    with gn(2,3) Some Inr have "\<forall>b i r. cond b i r \<longrightarrow> filter_held s cl q (mirror_at (point_of w1)) b i r"
      by (simp add: filter_held_def)
    with w1 gn(4) show ?thesis by (blast intro: passes.stays)
  qed
qed

lemma transaction_result:
  assumes "transaction s m w = (Inr x, w')"
  shows "\<exists>w1. m (w\<lparr>w_tx := []\<rparr>) = (Inr x, w1) \<and> (w_tx w1 = [] \<longrightarrow> passes s (point_of w1) (point_of w') \<and> repairs_open w')"
proof -
  obtain r w1 where m: "m (w\<lparr>w_tx := []\<rparr>) = (r, w1)" by fastforce
  with assms obtain w2 where r: "r = Inr x" and c: "commit s w1 = (Inr (), w')"
    by (cases r) (auto simp: transaction_def begin_tx_def bnd_def finish_def ret_def split: prod.splits sum.splits)
  from course_commit [of s, unfolded course_def, rule_format, of w1] c m r show ?thesis by (auto simp: no_tx)
qed

lemma fill_page_listed:
  "all_listed_rows s cl q from (point_of w) matched \<Longrightarrow> passes s from (point_of w) \<Longrightarrow> repairs_open w \<Longrightarrow>
   fill_page m s dl cl q matched after w = (Inr ms, w') \<Longrightarrow> all_listed_rows s cl q from (point_of w') ms"
proof (induction m arbitrary: matched after w)
  case (Suc m)
  show ?case
  proof (cases "Suc (nq_limit q) \<le> length matched")
    case True
    with Suc.prems show ?thesis by (simp add: ret_def Let_def)
  next
    case False
    define batch where "batch = max (Suc (nq_limit q)) 200"
    define after_found where "after_found = (\<lambda>(found, after', exhausted).
        bnd (require_notes_root s) (\<lambda>u.
        bnd (\<lambda>w. if index_fresh s w then (Inr (), w) else index_refresh s w) (\<lambda>u.
        bnd (read_candidates s found) (\<lambda>ms.
        if exhausted then ret (matched @ ms) else fill_page m s dl cl q (matched @ ms) after'))))"
    from Suc.prems(4) False obtain t w1 where t: "transaction s (bnd (conditions s dl cl q) (\<lambda>cond.
          gather (Suc m) s cond q batch (Suc (nq_limit q) - length matched) [] after)) w = (Inr t, w1)"
      and rest: "after_found t w1 = (Inr ms, w')"
      unfolding fill_page.simps Let_def batch_def [symmetric] after_found_def [symmetric]
      by (auto simp: bnd_def split: prod.splits sum.splits)
    let ?w = "w\<lparr>w_tx := []\<rparr>"
    obtain found after' exhausted where te: "t = (found, after', exhausted)" by (cases t) auto
    from transaction_result [OF t] obtain w2 where w2:
      "bnd (conditions s dl cl q) (\<lambda>cond. gather (Suc m) s cond q batch (Suc (nq_limit q) - length matched) [] after) ?w = (Inr t, w2)"
      "w_tx w2 = [] \<longrightarrow> passes s (point_of w2) (point_of w1) \<and> repairs_open w1" by blast
    then obtain cond w3 where c: "conditions s dl cl q ?w = (Inr cond, w3)" and
      g: "gather (Suc m) s cond q batch (Suc (nq_limit q) - length matched) [] after w3 = (Inr (found, after', exhausted), w2)"
      by (auto simp: te bnd_def split: prod.splits sum.splits)
    have same: "point_of ?w = point_of w" by (simp add: point_of_def)
    from conditions_held [OF c] same obtain x where x: "passes s (point_of w) x" "passes s x (point_of w3)" "w_tx w3 = []"
      "\<And>b i r. cond b i r \<Longrightarrow> filter_held s cl q (mirror_at x) b i r" by auto
    have fx: "passes s from x" by (rule passes_trans [OF Suc.prems(2) x(1)])
    from gather_listed [OF x(4) fx x(2) x(3) _ g]
    have found: "all_listed_rows s cl q from (point_of w2) found" and tx: "w_tx w2 = []" by simp_all
    with w2(2) have w1: "passes s (point_of w2) (point_of w1)" "repairs_open w1" by auto
    have "passes s (point_of w3) (point_of w2)"
      using course_gather [of s "Suc m" cond q batch "Suc (nq_limit q) - length matched" "[]" after] g no_tx [OF x(3)]
      by (auto simp: course_def dest!: spec [of _ w3])
    with x w1 have w: "passes s (point_of w) (point_of w1)" by (blast intro: passes_trans)
    have "course s (\<lambda>w. if index_fresh s w then (Inr (), w) else index_refresh s w)"
      using course_refresh [of s] by (simp add: course_def passes.stays)
    note r = course_files(3) [of s] this course_candidates [of s found]
    from rest te obtain w4 w5 w6 ns where
      w4: "require_notes_root s w1 = (Inr (), w4)" and
      w5: "(if index_fresh s w4 then (Inr (), w4) else index_refresh s w4) = (Inr (), w5)" and
      w6: "read_candidates s found w5 = (Inr ns, w6)" and
      last: "(if exhausted then ret (matched @ ns) else fill_page m s dl cl q (matched @ ns) after') w6 = (Inr ms, w')"
      unfolding after_found_def by (auto simp: bnd_def split: prod.splits sum.splits)
    have p4: "repairs_open w4 \<and> passes s (point_of w1) (point_of w4)"
      using r(1) w4 w1(2) by (auto simp: course_def dest!: spec [of _ w1])
    have p5: "repairs_open w5 \<and> passes s (point_of w4) (point_of w5)"
      using r(2) w5 p4 unfolding course_def by (metis snd_conv)
    have p6: "repairs_open w6 \<and> passes s (point_of w5) (point_of w6)"
      using r(3) w6 p5 by (auto simp: course_def dest!: spec [of _ w5])
    have on: "passes s (point_of w1) (point_of w6)" using p4 p5 p6 by (blast intro: passes_trans)
    have "set (map name_and_row ns) \<subseteq> set (map name_and_row found)"
      using givesD [OF read_candidates_sub w6] by (rule subseq_set)
    moreover have "all_listed_rows s cl q from (point_of w6) found"
      by (rule listed_later [OF found passes_trans [OF w1(1) on]])
    ultimately have "all_listed_rows s cl q from (point_of w6) ns"
      by (fastforce simp: list_all_iff)
    moreover have "all_listed_rows s cl q from (point_of w6) matched"
      by (rule listed_later [OF Suc.prems(1) passes_trans [OF w on]])
    ultimately have all: "all_listed_rows s cl q from (point_of w6) (matched @ ns)" by simp
    have "passes s from (point_of w6)" using Suc.prems(2) w on by (blast intro: passes_trans)
    with Suc.IH [OF all] p6 last all show ?thesis by (auto simp: ret_def split: if_splits)
  qed
qed (simp add: raise_exn_def)

lemma fill_page_fresh: "fill_page m s dl cl q [] after w = (Inr ms, w') \<Longrightarrow>
    fill_page m s dl cl q [] after (w\<lparr>w_tx := []\<rparr>) = (Inr ms, w')"
  by (cases m) (simp_all add: raise_exn_def Let_def transaction_def begin_tx_def bnd_def)

lemma list_after_rows:
  assumes "list_after fuel s dl cl q revision context after w = (Inr (page, onward), w')"
  shows "all_listed_rows s cl q (point_of w) (point_of w') page"
proof -
  from assms obtain matched where "catching (fill_page fuel s dl cl q [] after) (metadata_read s) w = (Inr matched, w')"
    and page: "page = take (nq_limit q) matched"
    by (auto simp: list_after_def bnd_def schema_revision_now_def raise_exn_def ret_def split: prod.splits sum.splits if_splits)
  moreover have "metadata_read s e w1 \<noteq> (Inr matched, w')" for e w1 by (simp add: metadata_read_def raise_exn_def)
  ultimately have "fill_page fuel s dl cl q [] after w = (Inr matched, w')"
    by (auto simp: catching_def split: prod.splits sum.splits)
  from fill_page_listed [OF _ _ _ fill_page_fresh [OF this], of "point_of w"]
  have "all_listed_rows s cl q (point_of w) (point_of w') matched"
    by (simp add: no_tx) (simp add: point_of_def passes.stays)
  then show ?thesis using set_take_subset [of "nq_limit q" matched] by (auto simp: page list_all_iff)
qed

text \<open>C20. However the mirror and the files change while a page of notes is put together, its notes stand strictly in the
  order of their identities, all past the cursor that was given; there are at most \<open>limit\<close>, and the next cursor is the identity
  of the last of them.  The row of each is the row its note had in the mirror at some moment of the listing (between any two
  moments the others changed the mirror, or the Store repaired a recorded path), that row meets every parameter of the query, and at
  that moment it met every clause of the filter: by the values of a generation of the field index that was active at an
  earlier moment of the same listing and indexes each field of the filter as the schema declares it.\<close>

theorem note_page_in_order:
  "case list_notes fuel s dl cl q w of
      (Inl e, w') \<Rightarrow> True
    | (Inr (page, onward), w') \<Rightarrow>
        sorted_wrt (<) (map nm_id page) \<and> length page \<le> nq_limit q \<and>
        list_all (\<lambda>m. row_listed s cl q (point_of w) (point_of w') (nm_id m, nm_row m)) page \<and>
        (case question dl cl q (cu_revision cl (w_tick w)) of
           Inl e \<Rightarrow> False
         | Inr context \<Rightarrow>
             (case given_cursor (nq_cursor q) (read_note_cursor cl context) of
                Inl e \<Rightarrow> False | Inr after \<Rightarrow> list_all (\<lambda>m. past after (nm_id m)) page) \<and>
             (case onward of None \<Rightarrow> True | Some c \<Rightarrow> length page = nq_limit q \<and> c = note_cursor cl context (nm_id (last page))))"
proof -
  let ?asked = "question dl cl q (cu_revision cl (w_tick w))"
  have list: "list_notes fuel s dl cl q w =
      bnd (of_sum ?asked) (\<lambda>context. bnd (of_sum (given_cursor (nq_cursor q) (read_note_cursor cl context))) (\<lambda>after.
        list_after fuel s dl cl q (cu_revision cl (w_tick w)) context after)) w"
    by (simp add: list_notes_def list_after_def bnd_def schema_revision_now_def)
  have page: "sorted_wrt (<) (map nm_id page) \<and> length page \<le> nq_limit q \<and> list_all (\<lambda>m. past after (nm_id m)) page \<and>
      list_all (\<lambda>m. row_listed s cl q (point_of w) (point_of w') (nm_id m, nm_row m)) page \<and>
      (case onward of None \<Rightarrow> True | Some c \<Rightarrow> length page = nq_limit q \<and> c = note_cursor cl asked (nm_id (last page)))"
    if "list_after fuel s dl cl q revision asked after w = (Inr (page, onward), w')" for revision asked after page onward w'
    using givesD [OF list_after_page that] list_after_rows [OF that] by (simp add: name_and_row_def)
  show ?thesis
    unfolding list by (auto simp: bnd_def of_sum_def ret_def raise_exn_def dest!: page split: sum.splits prod.splits)
qed

end
