(* ===== verification/DossierText.thy ===== *)
theory DossierText
  imports StoreState NoteMetaLaws
begin

text \<open>
  The text of a dossier page (\<open>coppermind_store/entities.py\<close>): addresses and labels, the generated block
  that is rendered of an entity's facts, the head that is the owner's, and the fact lines an owner may edit.
  What the code takes from Python's tables and from its surroundings is the parameter \<open>dossier_lib\<close>: \<open>digest\<close> of
  a document, \<open>str.lower\<close>, \<open>html.unescape\<close>, the text of an instant, the identifiers drawn in a step, the
  two fields the enrichment assignment names, and the addresses of a contact of the calendar archive.
\<close>

record dossier_lib =
  de_digest :: "pyval \<Rightarrow> str"
  de_lower :: "str \<Rightarrow> str"
  de_unescape :: "str \<Rightarrow> str"
  de_iso :: "int \<Rightarrow> str"
  de_fresh :: "nat \<Rightarrow> nat \<Rightarrow> str"
  de_fields :: "nat \<Rightarrow> str option \<times> str option"
  de_addresses :: "nat \<Rightarrow> str \<Rightarrow> str list"

section \<open>Parts of a text\<close>

text \<open>The first occurrence of a nonempty text: what stands before it and after it.\<close>

fun cut_at :: "str \<Rightarrow> str \<Rightarrow> (str \<times> str) option" where
  "cut_at d [] = None"
| "cut_at d (c # s) =
     (if startswith (c # s) d then Some ([], drop (length d) (c # s))
      else map_option (\<lambda>(a, b). (c # a, b)) (cut_at d s))"

lemma cut_at_parts: "cut_at d s = Some (a, b) \<Longrightarrow> s = a @ d @ b"
proof (induction d s arbitrary: a rule: cut_at.induct)
  case (2 d c s)
  then show ?case
    by (auto simp: startswith_def split: if_splits) (metis append_take_drop_id)
qed simp

text \<open>\<open>text.split(DELIMITER)\<close> where \<open>text.count(DELIMITER) == 1\<close>.\<close>

definition cut_once :: "str \<Rightarrow> str \<Rightarrow> (str \<times> str) option" where
  "cut_once d s =
     (case cut_at d s of None \<Rightarrow> None | Some (a, b) \<Rightarrow> (if cut_at d b = None then Some (a, b) else None))"

definition BLOCK_MARK :: str where
  "BLOCK_MARK = U ''<!-- coppermind:dossier -->'' @ newline"

text \<open>What \<open>Path.read_text\<close> makes of line ends.\<close>

fun newlines_after :: "bool \<Rightarrow> str \<Rightarrow> str" where
  "newlines_after cr [] = []"
| "newlines_after cr (c # s) =
     (if cr \<and> c = 10 then newlines_after False s else (if c = 13 then 10 else c) # newlines_after (c = 13) s)"

definition universal_newlines :: "str \<Rightarrow> str" where
  "universal_newlines s = newlines_after False s"

section \<open>Addresses and labels\<close>

definition email :: "dossier_lib \<Rightarrow> str \<Rightarrow> str option" where
  "email de v =
     (case rpartition_on 64 (strip v) of (l, found, domain) \<Rightarrow>
        if \<not> found \<or> l = [] \<or> domain = [] \<or> list_ex py_space v then None
        else if 200 < length (strip v) then None
        else if list_ex (\<lambda>c. c \<in> {60, 62, 91, 93, 0}) v then None
        else Some (l @ [64] @ de_lower de domain))"

text \<open>\<open>html.escape(..., quote=False)\<close> of the value on one line.\<close>

definition escaped :: "cpoint \<Rightarrow> str" where
  "escaped c = (if c = 38 then U ''&amp;'' else if c = 60 then U ''&lt;'' else if c = 62 then U ''&gt;'' else [c])"

definition label :: "str \<Rightarrow> str" where
  "label v = concat (map (\<lambda>c. escaped (if c = 10 \<or> c = 13 then 32 else c)) v)"

section \<open>The head of a page\<close>

definition kind_text :: "entity_kind \<Rightarrow> str" where
  "kind_text k = U (case k of Person \<Rightarrow> ''person'' | Company \<Rightarrow> ''company'')"

definition title_line :: "entity \<Rightarrow> str" where
  "title_line e = U ''# '' @ label (en_name e) @ newline @ newline"

definition alias_value :: "entity \<Rightarrow> pyval" where
  "alias_value e = PList (map PStr (en_aliases e))"

definition header :: "'d yaml_lib \<Rightarrow> entity \<Rightarrow> str" where
  "header y e =
     compose y [(U ''entity_id'', PStr (en_id e)), (U ''type'', PStr (kind_text (en_kind e))), (U ''aliases'', alias_value e)]
       (title_line e) @ BLOCK_MARK"

text \<open>\<open># [^\n]*\n\n?\<close> at the start of a text: its length.\<close>

definition title_match :: "str \<Rightarrow> nat option" where
  "title_match s =
     (if \<not> startswith s (U ''# '') then None
      else (case dropWhile (\<lambda>c. c \<noteq> 10) s of [] \<Rightarrow> None
            | c # r \<Rightarrow> Some (length s - length r + (if startswith r newline then 1 else 0))))"

definition GENERATED_KEYS :: "str list" where
  "GENERATED_KEYS = [U ''entity_id'', U ''type'', U ''aliases'']"

definition after_title :: "str \<Rightarrow> str" where
  "after_title s = (case title_match s of None \<Rightarrow> s | Some n \<Rightarrow> drop n s)"

definition owner_wrote :: "'d yaml_lib \<Rightarrow> str \<Rightarrow> fm_error + bool" where
  "owner_wrote y head =
     sbind (parse_text y head) (\<lambda>(fields, body).
       Inr (list_ex (\<lambda>k. k \<notin> set GENERATED_KEYS) (dkeys fields) \<or> strip (after_title body) \<noteq> []))"

definition regenerate :: "'d yaml_lib \<Rightarrow> entity \<Rightarrow> str \<Rightarrow> fm_error + str" where
  "regenerate y e head =
     sbind (parse_text y head) (\<lambda>(fields, body).
       if py_eq (fget fields (U ''aliases'')) (alias_value e) \<and> fget fields (U ''type'') = PStr (kind_text (en_kind e)) \<and>
          (case title_match body of None \<Rightarrow> True | Some n \<Rightarrow> strip (take n body) = strip (title_line e))
       then Inr head
       else sbind (patch_text y head [(U ''type'', PStr (kind_text (en_kind e))), (U ''aliases'', alias_value e)] []) (\<lambda>patched.
            sbind (split_text patched) (\<lambda>(block, body').
              let front = take (length patched - length body') patched
              in Inr (front @ (case title_match body of None \<Rightarrow> body' | Some n \<Rightarrow> title_line e @ drop n body')))))"

section \<open>The generated block\<close>

definition entity_at :: "ledger \<Rightarrow> str \<Rightarrow> entity option" where
  "entity_at l i = dget (lg_entities l) i"

definition active_facts :: "entity \<Rightarrow> ledger \<Rightarrow> dossier_fact list" where
  "active_facts e l = filter (\<lambda>f. fc_confirmed f \<and>
     (case fc_target f of None \<Rightarrow> True
      | Some t \<Rightarrow> (case entity_at l t of None \<Rightarrow> False | Some o' \<Rightarrow> en_retired o' = None))) (en_facts e)"

definition linked :: "str \<Rightarrow> str" where
  "linked p = U ''[['' @ removesuffix p (U ''.md'') @ U '']]''"

text \<open>A target that is the empty text counts as none.\<close>

definition has_target :: "dossier_fact \<Rightarrow> bool" where
  "has_target f \<longleftrightarrow> fc_target f \<noteq> None \<and> fc_target f \<noteq> Some []"

definition other_values :: "dossier_fact list \<Rightarrow> dossier_fact \<Rightarrow> bool" where
  "other_values fs f \<longleftrightarrow> list_ex (\<lambda>g. fc_predicate g = fc_predicate f \<and> fc_value g \<noteq> fc_value f) fs \<and>
     fc_predicate f \<notin> {U ''interest'', U ''mentioned'', U ''note''}"

definition fact_line :: "dossier_fact \<Rightarrow> str" where
  "fact_line f = U ''- '' @ label (fc_predicate f) @ U '': '' @ label (fc_value f) @ U '' <!-- fact:'' @ fc_id f @ U '' -->''"

definition fact_lines :: "bool \<Rightarrow> ledger \<Rightarrow> dossier_fact list \<Rightarrow> dossier_fact \<Rightarrow> str list" where
  "fact_lines search l members f =
     [fact_line f] @
     (if has_target f then [U ''  - '' @ linked (case entity_at l (the (fc_target f)) of None \<Rightarrow> [] | Some t \<Rightarrow> en_path t)] else []) @
     (if other_values members f then [U ''  - Other recorded values are shown with their evidence.''] else []) @
     (if search then []
      else let ev = fc_evidence f
           in [U ''  - Evidence: '' @ linked (ev_path ev) @ U '' '' @ label (ev_date ev)] @
              (if ev_quote ev \<noteq> [] then [U ''  - '' @ label (ev_quote ev)] else []))"

definition fact_group :: "bool \<Rightarrow> ledger \<Rightarrow> str \<Rightarrow> dossier_fact list \<Rightarrow> str list" where
  "fact_group search l heading members =
     [U ''## '' @ heading, []] @ concat (map (fact_lines search l members) members) @ [[]]"

definition supporting :: "dossier_fact list \<Rightarrow> str list" where
  "supporting fs = sort (remdups (map (\<lambda>f. ev_path (fc_evidence f))
     (filter (\<lambda>f. case ev_note (fc_evidence f) of None \<Rightarrow> False | Some i \<Rightarrow> i \<noteq> []) fs)))"

definition listed_labels :: "string \<Rightarrow> str list \<Rightarrow> str list" where
  "listed_labels name vs = (if vs = [] then [] else [U name @ U '': '' @ join (U '', '') (map label vs), []])"

definition render :: "bool \<Rightarrow> entity \<Rightarrow> ledger \<Rightarrow> str" where
  "render search e l =
     (if en_retired e \<noteq> None
      then newline @ U ''Retired dossier. Restore through the entities API to use it again.'' @ newline
      else case en_redirect e of
        Some r \<Rightarrow> (case entity_at l r of
            Some t \<Rightarrow> newline @ U ''See '' @ linked (en_path t) @ U ''.'' @ newline
          | None \<Rightarrow> newline @ U ''Retired identity.'' @ newline)
      | None \<Rightarrow>
          let facts = active_facts e l
          in join newline (
            [[], U ''## '' @ label (en_name e), []] @
            listed_labels ''Aliases'' (en_aliases e) @ listed_labels ''Email'' (en_emails e) @
            fact_group search l (U ''Facts'') (filter (\<lambda>f. \<not> has_target f \<and> fc_predicate f \<noteq> U ''interest'') facts) @
            fact_group search l (U ''Relationships'') (filter has_target facts) @
            fact_group search l (U ''Interests'') (filter (\<lambda>f. \<not> has_target f \<and> fc_predicate f = U ''interest'') facts) @
            (if search then []
             else [U ''## Supporting notes'', []] @ map (\<lambda>p. U ''- '' @ linked p) (supporting facts) @
                  [[], U ''Edit a fact above to correct it; delete its line to withdraw it.'', []])))"

section \<open>Fact lines\<close>

text \<open>\<open>[A-Za-z0-9_-]\<close>.\<close>

definition fact_id_char :: "cpoint \<Rightarrow> bool" where
  "fact_id_char c \<longleftrightarrow> 65 \<le> c \<and> c \<le> 90 \<or> 97 \<le> c \<and> c \<le> 122 \<or> ascii_digit c \<or> c = 95 \<or> c = 45"

definition fact_mark :: str where
  "fact_mark = U '' <!-- fact:''"

text \<open>The end of a fact line: its identity.\<close>

definition marked_id :: "str \<Rightarrow> str option" where
  "marked_id s =
     (let r = drop (length fact_mark) s; i = takeWhile fact_id_char r
      in if startswith s fact_mark \<and> i \<noteq> [] \<and> drop (length i) r = U '' -->'' then Some i else None)"

fun fact_text :: "str \<Rightarrow> (str \<times> str) option" where
  "fact_text [] = None"
| "fact_text (c # s) =
     (case marked_id (c # s) of Some i \<Rightarrow> Some ([], i) | None \<Rightarrow> map_option (\<lambda>(a, i). (c # a, i)) (fact_text s))"

text \<open>\<open>FACT_LINE\<close> on one line: the text and the identity.\<close>

definition read_fact_line :: "str \<Rightarrow> (str \<times> str) option" where
  "read_fact_line s = (if startswith s (U ''- '') then fact_text (drop 2 s) else None)"

text \<open>\<open>{identity: text for text, identity in FACT_LINE.findall(block)}\<close>; a line ends at a line feed only.\<close>

definition facts_in :: "str \<Rightarrow> (str, str) dict" where
  "facts_in block = foldl (\<lambda>d (t, i). dict_set d i t) [] (List.map_filter read_fact_line (split_on 10 block))"

end
