(* ===== verification/Dossiers.thy ===== *)
theory Dossiers
  imports DossierText NoteWorld
begin

text \<open>
  The catalog of dossiers and what the service does to it in memory (\<open>EntityService\<close> of
  \<open>coppermind_store/entities.py\<close>): making a dossier, taking an owner's edits of its page, the mentions and
  the evidence that notes contribute, merging and splitting identities, and the scrubbing of a purge.
  A catalog is a value; one reading of the clock stands for those of one step.
\<close>

section \<open>The catalog\<close>

definition set_entity :: "entity \<Rightarrow> ledger \<Rightarrow> ledger" where
  "set_entity e l = l\<lparr>lg_entities := dict_set (lg_entities l) (en_id e) e\<rparr>"

definition add_receipt :: "fmap \<Rightarrow> ledger \<Rightarrow> ledger" where
  "add_receipt r l = l\<lparr>lg_receipts := lg_receipts l @ [r]\<rparr>"

definition newer :: "entity \<Rightarrow> entity" where
  "newer e = e\<lparr>en_version := en_version e + 1\<rparr>"

text \<open>\<open>EntityService.receipt\<close>.\<close>

definition with_receipt :: "dossier_lib \<Rightarrow> int \<Rightarrow> entity \<Rightarrow> string \<Rightarrow> fmap \<Rightarrow> ledger \<Rightarrow> ledger" where
  "with_receipt de now e action details l =
     add_receipt ([(U ''entity_id'', PStr (en_id e)), (U ''action'', PStr (U action)),
         (U ''version'', PInt (en_version e + 1)), (U ''at'', PStr (de_iso de now))] @ details)
       (set_entity (newer e) l)"

definition refused :: "string \<Rightarrow> exn" where
  "refused m = Typed (ValidationFailed [U m])"

section \<open>Making a dossier\<close>

record entity_input =
  ei_kind :: entity_kind
  ei_name :: str
  ei_aliases :: "str list"
  ei_emails :: "str list"

text \<open>\<open>EntityInput.single_line\<close>.\<close>

definition single_line :: "str \<Rightarrow> str option" where
  "single_line v = (if strip v = [] \<or> list_ex (\<lambda>c. c = 10 \<or> c = 13 \<or> c = 0) v then None else Some (strip v))"

definition sorted_labels :: "str list \<Rightarrow> str list option" where
  "sorted_labels vs =
     (if 100 < length vs \<or> list_ex (\<lambda>v. 200 < length v \<or> single_line v = None) vs then None
      else Some (sort (remdups (map strip vs))))"

text \<open>\<open>EntityInput(...)\<close>; a rejected one is a \<open>ValidationError\<close>, which no operation catches.\<close>

definition entity_input_of :: "entity_kind \<Rightarrow> str \<Rightarrow> str list \<Rightarrow> str list \<Rightarrow> entity_input option" where
  "entity_input_of k n aliases emails =
     (if n = [] \<or> 200 < length n then None
      else case (single_line n, sorted_labels aliases, sorted_labels emails) of
        (Some n', Some a, Some e) \<Rightarrow> Some \<lparr>ei_kind = k, ei_name = n', ei_aliases = a, ei_emails = e\<rparr>
      | _ \<Rightarrow> None)"

definition held_emails :: "ledger \<Rightarrow> str list" where
  "held_emails l = concat (map (\<lambda>(i, e). if en_redirect e = None then en_emails e else []) (lg_entities l))"

definition folder_for :: "entity_kind \<Rightarrow> str" where
  "folder_for k = U (case k of Person \<Rightarrow> ''People'' | Company \<Rightarrow> ''Companies'')"

definition page_name :: "unicode \<Rightarrow> entity_kind \<Rightarrow> str \<Rightarrow> str \<Rightarrow> str" where
  "page_name uc k n i =
     folder_for k @ U ''/'' @ trim_bytes 220 (take 90 (sanitize_stem uc n untitled)) @ U '' '' @ i @ U ''.md''"

definition make_dossier :: "unicode \<Rightarrow> dossier_lib \<Rightarrow> str \<Rightarrow> entity_input \<Rightarrow> bool \<Rightarrow> ledger \<Rightarrow> exn + entity \<times> ledger" where
  "make_dossier uc de i rq automatic l =
     (if list_ex (\<lambda>v. email de v = None) (ei_emails rq) then Inl (refused ''emails must be exact email addresses'')
      else let emails = sort (remdups (List.map_filter (email de) (ei_emails rq)))
        in if list_ex (\<lambda>a. a \<in> set (held_emails l)) emails
           then Inl (refused ''email already belongs to a dossier; use an identity preview'')
           else if sorted_labels emails = None then Inl PyFault
           else let e = \<lparr>en_kind = ei_kind rq, en_name = ei_name rq, en_aliases = ei_aliases rq, en_emails = emails,
                   en_id = i, en_path = page_name uc (ei_kind rq) (ei_name rq) i, en_version = 1, en_facts = [],
                   en_retired = None, en_redirect = None, en_automatic = automatic, en_generated = None,
                   en_pending = None, en_personal = False, en_problem = None\<rparr>
                in Inr (e, set_entity e l))"

section \<open>Corrections\<close>

definition withdrawn :: "dossier_fact \<Rightarrow> dossier_fact" where
  "withdrawn f = f\<lparr>fc_confirmed := False, fc_lapsed := False\<rparr>"

text \<open>The fact that \<open>correction\<close> adds; the fact it supersedes is withdrawn beside it.\<close>

definition correction :: "str \<Rightarrow> int \<Rightarrow> entity \<Rightarrow> str \<Rightarrow> str \<Rightarrow> str \<Rightarrow> str option \<Rightarrow> str option \<Rightarrow> dossier_fact" where
  "correction i now e predicate val h previous aim =
     \<lparr>fc_id = i, fc_predicate = predicate, fc_value = val, fc_target = aim, fc_confirmed = True, fc_lapsed = False,
      fc_evidence = \<lparr>ev_note = None, ev_hash = h, ev_path = en_path e, ev_date = [], ev_quote = val, ev_version = U ''operator-v1''\<rparr>,
      fc_origin = FromCorrection, fc_supersedes = previous, fc_created = now\<rparr>"

text \<open>What the owner's page says of one generated fact: nothing new, its withdrawal, or other text.\<close>

datatype fact_edit = KeepFact | DropFact | SayFact str str

definition edit_of :: "dossier_lib \<Rightarrow> (str, str) dict \<Rightarrow> (str, str) dict \<Rightarrow> dossier_fact \<Rightarrow> fact_edit" where
  "edit_of de old changed f =
     (case dget old (fc_id f) of None \<Rightarrow> KeepFact
      | Some was \<Rightarrow>
         if \<not> fc_confirmed f then KeepFact
         else case dget changed (fc_id f) of None \<Rightarrow> DropFact
           | Some line \<Rightarrow>
               if line = was then KeepFact
               else case cut_at (U '': '') (de_unescape de line) of
                   Some (p, v) \<Rightarrow> SayFact p v
                 | None \<Rightarrow> SayFact (U ''note'') (de_unescape de line))"

definition edited_fact :: "fact_edit \<Rightarrow> dossier_fact \<Rightarrow> dossier_fact" where
  "edited_fact d f = (case d of KeepFact \<Rightarrow> f | _ \<Rightarrow> withdrawn f)"

text \<open>The corrections in the order they are made, each with the number of identifiers drawn before it.\<close>

fun said_facts :: "(nat \<Rightarrow> str) \<Rightarrow> int \<Rightarrow> entity \<Rightarrow> str \<Rightarrow> (dossier_fact \<times> fact_edit) list \<Rightarrow> nat \<Rightarrow> dossier_fact list" where
  "said_facts fresh now e h [] k = []"
| "said_facts fresh now e h ((f, d) # r) k =
     (case d of SayFact p v \<Rightarrow> correction (fresh k) now e p v h (Some (fc_id f)) (fc_target f) # said_facts fresh now e h r (Suc k)
      | _ \<Rightarrow> said_facts fresh now e h r k)"

definition added_lines :: "str \<Rightarrow> str \<Rightarrow> str list" where
  "added_lines was block =
     filter (\<lambda>x. strip x \<noteq> [] \<and> x \<notin> set (splitlines was) \<and> read_fact_line x = None) (splitlines block)"

text \<open>The edits that \<open>observe\<close> imports from a page whose block is not the one it generated.\<close>

definition take_edits :: "dossier_lib \<Rightarrow> (nat \<Rightarrow> str) \<Rightarrow> int \<Rightarrow> str \<Rightarrow> str \<Rightarrow> str \<Rightarrow> entity \<Rightarrow> entity" where
  "take_edits de fresh now h was block e =
     (let edits = map (\<lambda>f. (f, edit_of de (facts_in was) (facts_in block) f)) (en_facts e);
          said = said_facts fresh now e h edits 0; added = added_lines was block
      in e\<lparr>en_facts := map (\<lambda>(f, d). edited_fact d f) edits @ said @
             (if added = [] then [] else [correction (fresh (length said)) now e (U ''note'') (join newline added) h None None]),
           en_generated := Some block, en_pending := None\<rparr>)"

section \<open>What notes contribute\<close>

record note_ref =
  nr_id :: str
  nr_title :: str
  nr_path :: str
  nr_hash :: str
  nr_frontmatter :: fmap

text \<open>\<open>while entity and entity.redirect\<close>, which a cycle of redirects never ends.\<close>

partial_function (option) resolved :: "ledger \<Rightarrow> entity \<Rightarrow> entity option option" where
  "resolved l e =
     (case en_redirect e of None \<Rightarrow> Some (Some e)
      | Some r \<Rightarrow> (case entity_at l r of None \<Rightarrow> Some None | Some e' \<Rightarrow> resolved l e'))"

definition by_email :: "ledger \<Rightarrow> (str, str) dict" where
  "by_email l = foldl (\<lambda>d (i, e). if en_redirect e = None then foldl (\<lambda>d a. dict_set d a i) d (en_emails e) else d) [] (lg_entities l)"

definition by_page :: "ledger \<Rightarrow> (str, str) dict" where
  "by_page l = foldl (\<lambda>d (i, e). dict_set d (removesuffix (en_path e) (U ''.md'')) i) [] (lg_entities l)"

definition link_target :: "str \<Rightarrow> str option" where
  "link_target v =
     (if startswith v (U ''[['') \<and> endswith v (U '']]'')
      then Some (removesuffix (fst (partition_on 124 (take (length v - 4) (drop 2 v)))) (U ''.md'')) else None)"

text \<open>While a note is read: the catalog, the addresses known, how many dossiers were made, and who is mentioned.\<close>

record mention_state =
  ms_ledger :: ledger
  ms_emails :: "(str, str) dict"
  ms_made :: nat
  ms_mentions :: "str list"

definition mention :: "entity option \<Rightarrow> mention_state \<Rightarrow> exn + mention_state" where
  "mention e st =
     (case e of None \<Rightarrow> Inr st
      | Some e \<Rightarrow> (case resolved (ms_ledger st) e of
           None \<Rightarrow> Inl Diverges
         | Some None \<Rightarrow> Inr st
         | Some (Some t) \<Rightarrow>
             Inr (if en_retired t = None \<and> en_id t \<notin> set (ms_mentions st)
                  then st\<lparr>ms_mentions := ms_mentions st @ [en_id t]\<rparr> else st)))"

definition from_address :: "unicode \<Rightarrow> dossier_lib \<Rightarrow> (nat \<Rightarrow> str) \<Rightarrow> str \<Rightarrow> mention_state \<Rightarrow> exn + entity option \<times> mention_state" where
  "from_address uc de fresh a st =
     (case dget (ms_emails st) a of
        Some i \<Rightarrow> Inr (entity_at (ms_ledger st) i, st)
      | None \<Rightarrow>
          if de_digest de (PStr a) \<in> set (lg_suppressed (ms_ledger st)) then Inr (None, st)
          else (case entity_input_of Person a [] [a] of None \<Rightarrow> Inl PyFault
            | Some rq \<Rightarrow> sbind (make_dossier uc de (fresh (ms_made st)) rq True (ms_ledger st)) (\<lambda>(e, l).
                Inr (Some e, st\<lparr>ms_ledger := l, ms_emails := dict_set (ms_emails st) a (en_id e), ms_made := Suc (ms_made st)\<rparr>))))"

definition read_mention :: "unicode \<Rightarrow> dossier_lib \<Rightarrow> (nat \<Rightarrow> str) \<Rightarrow> (str, str) dict \<Rightarrow> bool \<Rightarrow> pyval \<Rightarrow> mention_state \<Rightarrow> exn + mention_state" where
  "read_mention uc de fresh paths mails v st =
     (case v of PStr t \<Rightarrow>
        (case link_target t of
           Some p \<Rightarrow> mention (case dget paths p of None \<Rightarrow> None | Some i \<Rightarrow> entity_at (ms_ledger st) i) st
         | None \<Rightarrow> (case (if mails then email de t else None) of None \<Rightarrow> Inr st
             | Some a \<Rightarrow> sbind (from_address uc de fresh a st) (\<lambda>(e, st'). mention e st')))
      | _ \<Rightarrow> Inr st)"

fun each_of :: "('a \<Rightarrow> 's \<Rightarrow> exn + 's) \<Rightarrow> 'a list \<Rightarrow> 's \<Rightarrow> exn + 's" where
  "each_of f [] st = Inr st"
| "each_of f (x # xs) st = sbind (f x st) (each_of f xs)"

definition read_field :: "unicode \<Rightarrow> dossier_lib \<Rightarrow> (nat \<Rightarrow> str) \<Rightarrow> (str, str) dict \<Rightarrow> str list \<Rightarrow> str \<times> pyval \<Rightarrow> mention_state \<Rightarrow> exn + mention_state" where
  "read_field uc de fresh paths mail_keys p st =
     (case snd p of PList vs \<Rightarrow> each_of (read_mention uc de fresh paths (fst p \<in> set mail_keys)) vs st | _ \<Rightarrow> Inr st)"

definition mention_id :: "dossier_lib \<Rightarrow> note_ref \<Rightarrow> str \<Rightarrow> str" where
  "mention_id de n i = de_digest de (PList [PStr (nr_id n), PStr (nr_hash n), PStr i, PStr (U ''metadata-v1'')])"

definition mention_fact :: "objects \<Rightarrow> dossier_lib \<Rightarrow> int \<Rightarrow> note_ref \<Rightarrow> str \<Rightarrow> dossier_fact" where
  "mention_fact ob de now n i =
     \<lparr>fc_id = mention_id de n i, fc_predicate = U ''mentioned'', fc_value = nr_title n, fc_target = None, fc_confirmed = True,
      fc_lapsed = False,
      fc_evidence = \<lparr>ev_note = Some (nr_id n), ev_hash = nr_hash n, ev_path = nr_path n,
        ev_date = (case dget (nr_frontmatter n) (U ''date'') of None \<Rightarrow> [] | Some v \<Rightarrow> text_of ob v),
        ev_quote = [], ev_version = U ''metadata-v1''\<rparr>,
      fc_origin = FromMetadata, fc_supersedes = None, fc_created = now\<rparr>"

definition add_mention :: "objects \<Rightarrow> dossier_lib \<Rightarrow> int \<Rightarrow> note_ref \<Rightarrow> ledger \<Rightarrow> str \<Rightarrow> ledger" where
  "add_mention ob de now n l i =
     (case entity_at l i of None \<Rightarrow> l
      | Some e \<Rightarrow> if list_ex (\<lambda>f. fc_id f = mention_id de n i) (en_facts e) then l
                  else set_entity (newer (e\<lparr>en_facts := en_facts e @ [mention_fact ob de now n i]\<rparr>)) l)"

definition read_note_ref :: "unicode \<Rightarrow> objects \<Rightarrow> dossier_lib \<Rightarrow> (nat \<Rightarrow> str) \<Rightarrow> int \<Rightarrow> (str, str) dict \<Rightarrow> str list \<Rightarrow> note_ref
    \<Rightarrow> mention_state \<Rightarrow> exn + mention_state" where
  "read_note_ref uc ob de fresh now paths mail_keys n st =
     sbind (each_of (read_field uc de fresh paths mail_keys) (nr_frontmatter n) (st\<lparr>ms_mentions := []\<rparr>)) (\<lambda>st.
       Inr (st\<lparr>ms_ledger := foldl (add_mention ob de now n) (ms_ledger st) (ms_mentions st)\<rparr>))"

subsection \<open>Evidence\<close>

text \<open>A fact and its note as it is now: the fact, and by how much the dossier's version grows.\<close>

definition note_named :: "note_ref list \<Rightarrow> str \<Rightarrow> note_ref option" where
  "note_named notes i = find (\<lambda>n. nr_id n = i) notes"

definition weigh :: "note_ref list \<Rightarrow> dossier_fact \<Rightarrow> dossier_fact \<times> int" where
  "weigh notes f =
     (case ev_note (fc_evidence f) of None \<Rightarrow> (f, 0)
      | Some i \<Rightarrow>
         if i = [] then (f, 0)
         else case note_named notes i of
           None \<Rightarrow> if fc_confirmed f then (f\<lparr>fc_confirmed := False, fc_lapsed := True\<rparr>, 1) else (f, 0)
         | Some n \<Rightarrow>
             if nr_hash n \<noteq> ev_hash (fc_evidence f)
             then (if fc_confirmed f then (f\<lparr>fc_confirmed := False, fc_lapsed := True\<rparr>, 1) else (f, 0))
             else let back = \<not> fc_confirmed f \<and> fc_lapsed f;
                      g = (if back then f\<lparr>fc_confirmed := True, fc_lapsed := False\<rparr> else f)
                  in (if fc_confirmed g then g\<lparr>fc_evidence := (fc_evidence g)\<lparr>ev_path := nr_path n\<rparr>\<rparr> else g,
                      if back then 1 else 0))"

definition weigh_entity :: "note_ref list \<Rightarrow> entity \<Rightarrow> entity" where
  "weigh_entity notes e =
     e\<lparr>en_facts := map (fst \<circ> weigh notes) (en_facts e),
       en_version := en_version e + sum_list (map (snd \<circ> weigh notes) (en_facts e))\<rparr>"

definition map_entities :: "(entity \<Rightarrow> entity) \<Rightarrow> ledger \<Rightarrow> ledger" where
  "map_entities f l = l\<lparr>lg_entities := map (\<lambda>(i, e). (i, f e)) (lg_entities l)\<rparr>"

definition mail_keys_of :: "str option \<times> str option \<Rightarrow> str list" where
  "mail_keys_of p = U ''attendees'' # filter (\<lambda>k. k \<noteq> []) (List.map_filter id [fst p, snd p])"

definition contribute :: "unicode \<Rightarrow> objects \<Rightarrow> dossier_lib \<Rightarrow> (nat \<Rightarrow> str) \<Rightarrow> int \<Rightarrow> str list \<Rightarrow> note_ref list \<Rightarrow> ledger \<Rightarrow> exn + ledger" where
  "contribute uc ob de fresh now mail_keys notes l =
     sbind (each_of (read_note_ref uc ob de fresh now (by_page l) mail_keys) notes
         \<lparr>ms_ledger = l, ms_emails = by_email l, ms_made = 0, ms_mentions = []\<rparr>) (\<lambda>st.
       Inr (map_entities (weigh_entity notes) (ms_ledger st)))"

end
