(* ===== verification/DossierTextLaws.thy ===== *)
theory DossierTextLaws
  imports Dossiers
begin

text \<open>
  The generated block reads back: the fact lines \<open>FACT_LINE\<close> finds in what \<open>render\<close> wrote are the lines of
  the active facts, each under its identity, and nothing else; a line its owner deletes withdraws that fact alone.
\<close>

section \<open>One line\<close>

definition fact_says :: "dossier_fact \<Rightarrow> str" where
  "fact_says f = label (fc_predicate f) @ U '': '' @ label (fc_value f)"

definition good_id :: "str \<Rightarrow> bool" where
  "good_id i \<longleftrightarrow> i \<noteq> [] \<and> list_all fact_id_char i"

lemma label_plain: "60 \<notin> set (label v)" "10 \<notin> set (label v)"
  by (auto simp: label_def escaped_def U_def)

lemma takeWhile_id: "list_all fact_id_char i \<Longrightarrow> takeWhile fact_id_char (i @ U '' -->'') = i"
  by (induction i) (auto simp: U_def fact_id_char_def ascii_digit_def)

lemma marked_id_mark: "good_id i \<Longrightarrow> marked_id (fact_mark @ i @ U '' -->'') = Some i"
  by (simp add: marked_id_def takeWhile_id good_id_def)

lemma fact_text_mark:
  assumes "good_id i" and "60 \<notin> set t"
  shows "fact_text (t @ fact_mark @ i @ U '' -->'') = Some (t, i)"
  using assms(2)
proof (induction t)
  case Nil
  then show ?case using marked_id_mark [OF assms(1)] by (simp add: fact_mark_def U_def)
next
  case (Cons c t)
  have "\<not> startswith ((c # t) @ fact_mark @ i @ U '' -->'') fact_mark"
    using Cons.prems by (cases t) (auto simp: startswith_def fact_mark_def U_def)
  then have "marked_id (c # t @ fact_mark @ i @ U '' -->'') = None"
    by (simp add: marked_id_def)
  with Cons show ?case by simp
qed

lemma fact_line_says: "fact_line f = U ''- '' @ fact_says f @ fact_mark @ fc_id f @ U '' -->''"
  by (simp add: fact_line_def fact_says_def fact_mark_def)

lemma read_fact_line_written: "good_id (fc_id f) \<Longrightarrow> read_fact_line (fact_line f) = Some (fact_says f, fc_id f)"
proof -
  assume g: "good_id (fc_id f)"
  have "60 \<notin> set (fact_says f)" by (simp add: fact_says_def label_plain) (simp add: U_def)
  moreover have "read_fact_line (U ''- '' @ s) = fact_text s" for s
    by (simp add: read_fact_line_def startswith_def U_def)
  ultimately show ?thesis using fact_text_mark [OF g, of "fact_says f"] by (simp add: fact_line_says)
qed

section \<open>The other lines\<close>

lemma no_fact_line: "\<not> startswith s (U ''- '') \<Longrightarrow> read_fact_line s = None"
  by (simp add: read_fact_line_def)

lemma fact_text_ends: "fact_text s = Some (t, i) \<Longrightarrow> last s = 62"
proof (induction s arbitrary: t)
  case (Cons c s)
  have "last s' = 62" if "marked_id s' = Some i" for s'
  proof -
    define r where "r = drop (length fact_mark) s'"
    have r: "drop (length (takeWhile fact_id_char r)) r = U '' -->''"
      using that by (auto simp: marked_id_def Let_def r_def split: if_splits)
    then have "last r = 62" and "r \<noteq> []" by (auto simp: last_drop U_def) (metis last_drop length_drop list.size(3) last.simps less_numeral_extra(3) length_greater_0_conv drop_eq_Nil not_le list.distinct(1))
    then show ?thesis by (metis drop_eq_Nil last_drop not_le r_def)
  qed
  note marked = this [of "c # s"]
  show ?case
  proof (cases "marked_id (c # s)")
    case None
    with Cons.prems obtain a where a: "fact_text s = Some (a, i)" by auto
    moreover have "s \<noteq> []" using a by auto
    ultimately show ?thesis using Cons.IH [OF a] by simp
  next
    case (Some j)
    with Cons.prems marked show ?thesis by simp
  qed
qed simp

lemma linked_no_fact: "read_fact_line (U ''- '' @ linked p) = None"
proof -
  have "last (linked p) = 93" "linked p \<noteq> []" by (simp_all add: linked_def U_def)
  moreover have "read_fact_line (U ''- '' @ linked p) = fact_text (linked p)"
    by (simp add: read_fact_line_def startswith_def U_def)
  ultimately show ?thesis using fact_text_ends [of "linked p"] by (cases "fact_text (linked p)") auto
qed

lemma other_starts [simp]:
  "read_fact_line (U ''  - '' @ s) = None" "read_fact_line (U ''## '' @ s) = None" "read_fact_line [] = None"
  "read_fact_line (U ''Aliases'' @ s) = None" "read_fact_line (U ''Email'' @ s) = None"
  "read_fact_line (U ''  - Evidence: '' @ s) = None" "read_fact_line (U ''  - Other recorded values are shown with their evidence.'') = None"
  "read_fact_line (U ''## Supporting notes'') = None"
  "read_fact_line (U ''Edit a fact above to correct it; delete its line to withdraw it.'') = None"
  by (simp_all add: read_fact_line_def startswith_def U_def)

abbreviation facts_of :: "str list \<Rightarrow> (str \<times> str) list" where
  "facts_of \<equiv> List.map_filter read_fact_line"

lemma facts_of_simps [simp]:
  "facts_of [] = []" "facts_of (x # xs) = (case read_fact_line x of None \<Rightarrow> facts_of xs | Some p \<Rightarrow> p # facts_of xs)"
  "facts_of (xs @ ys) = facts_of xs @ facts_of ys"
  by (simp_all add: List.map_filter_def split: option.split)

lemma facts_of_lines:
  "good_id (fc_id f) \<Longrightarrow> facts_of (fact_lines False l ms f) = [(fact_says f, fc_id f)]"
  by (simp add: fact_lines_def read_fact_line_written Let_def del: U_append)

lemma facts_of_group:
  "list_all (\<lambda>f. good_id (fc_id f)) fs \<Longrightarrow>
     facts_of (concat (map (fact_lines False l ms) fs)) = map (\<lambda>f. (fact_says f, fc_id f)) fs"
  by (induction fs) (simp_all add: facts_of_lines)

lemma facts_of_links: "facts_of (map (\<lambda>p. U ''- '' @ linked p) ps) = []"
  by (induction ps) (simp_all add: linked_no_fact)

section \<open>Lines that hold no line feed\<close>

lemma plain_text [simp]: "10 \<notin> set (U ''## '')" "10 \<notin> set (U ''- '')" "10 \<notin> set (U ''  - '')" "10 \<notin> set (U '': '')" "10 \<notin> set (U '', '')"
  "10 \<notin> set (U ''  - Evidence: '')" "10 \<notin> set (U '' '')" "10 \<notin> set (U '' -->'')" "10 \<notin> set fact_mark"
  "10 \<notin> set (U ''  - Other recorded values are shown with their evidence.'')" "10 \<notin> set (U ''## Supporting notes'')"
  "10 \<notin> set (U ''Edit a fact above to correct it; delete its line to withdraw it.'')" "10 \<notin> set (U ''Aliases'')" "10 \<notin> set (U ''Email'')"
  by (simp_all add: U_def fact_mark_def)

lemma join_plain: "\<forall>x \<in> set xs. 10 \<notin> set x \<Longrightarrow> 10 \<notin> set sep \<Longrightarrow> 10 \<notin> set (join sep xs)"
  by (induction sep xs rule: join.induct) auto

lemma linked_plain: "10 \<notin> set p \<Longrightarrow> 10 \<notin> set (linked p)"
  by (auto simp: linked_def removesuffix_def U_def dest: in_set_takeD)

lemma good_id_plain: "good_id i \<Longrightarrow> 10 \<notin> set i"
  by (auto simp: good_id_def list_all_iff fact_id_char_def ascii_digit_def)

text \<open>The paths of the catalog and of the evidence are one line.\<close>

definition plain_paths :: "ledger \<Rightarrow> entity \<Rightarrow> bool" where
  "plain_paths l e \<longleftrightarrow> list_all (\<lambda>(i, o'). 10 \<notin> set (en_path o')) (lg_entities l) \<and>
     list_all (\<lambda>f. good_id (fc_id f) \<and> 10 \<notin> set (ev_path (fc_evidence f))) (active_facts e l)"

lemma fact_lines_plain:
  assumes "plain_paths l e" and "f \<in> set (active_facts e l)"
  shows "\<forall>x \<in> set (fact_lines False l ms f). 10 \<notin> set x"
proof -
  have "10 \<notin> set (case entity_at l i of None \<Rightarrow> [] | Some t \<Rightarrow> en_path t)" for i
    using assms(1) by (auto simp: plain_paths_def list_all_iff entity_at_def split: option.split dest!: map_of_SomeD [OF sym])
  then show ?thesis
    using assms by (auto simp: fact_lines_def fact_line_says fact_says_def label_plain linked_plain good_id_plain plain_paths_def
        list_all_iff Let_def simp del: U_append)
qed

section \<open>The block\<close>

definition block_lines :: "entity \<Rightarrow> ledger \<Rightarrow> str list" where
  "block_lines e l = (let facts = active_facts e l in
     [[], U ''## '' @ label (en_name e), []] @
     listed_labels ''Aliases'' (en_aliases e) @ listed_labels ''Email'' (en_emails e) @
     fact_group False l (U ''Facts'') (filter (\<lambda>f. \<not> has_target f \<and> fc_predicate f \<noteq> U ''interest'') facts) @
     fact_group False l (U ''Relationships'') (filter has_target facts) @
     fact_group False l (U ''Interests'') (filter (\<lambda>f. \<not> has_target f \<and> fc_predicate f = U ''interest'') facts) @
     [U ''## Supporting notes'', []] @ map (\<lambda>p. U ''- '' @ linked p) (supporting facts) @
     [[], U ''Edit a fact above to correct it; delete its line to withdraw it.'', []])"

lemma block_of_lines: "\<not> en_retired e \<noteq> None \<Longrightarrow> en_redirect e = None \<Longrightarrow> render False e l = join newline (block_lines e l)"
  by (simp add: render_def block_lines_def Let_def)

definition shown_facts :: "entity \<Rightarrow> ledger \<Rightarrow> dossier_fact list" where
  "shown_facts e l = (let facts = active_facts e l in
     filter (\<lambda>f. \<not> has_target f \<and> fc_predicate f \<noteq> U ''interest'') facts @ filter has_target facts @
     filter (\<lambda>f. \<not> has_target f \<and> fc_predicate f = U ''interest'') facts)"

lemma set_shown [simp]: "set (shown_facts e l) = set (active_facts e l)"
  by (auto simp: shown_facts_def Let_def)

lemma facts_of_block:
  assumes "plain_paths l e"
  shows "facts_of (block_lines e l) = map (\<lambda>f. (fact_says f, fc_id f)) (shown_facts e l)"
proof -
  have g: "list_all (\<lambda>f. good_id (fc_id f)) (filter P (active_facts e l))" for P
    using assms by (auto simp: plain_paths_def list_all_iff)
  show ?thesis
    by (simp add: block_lines_def fact_group_def listed_labels_def facts_of_group [OF g] facts_of_links shown_facts_def Let_def del: U_append)
qed

lemma block_lines_plain: "plain_paths l e \<Longrightarrow> x \<in> set (block_lines e l) \<Longrightarrow> 10 \<notin> set x"
proof -
  assume p: "plain_paths l e" and x: "x \<in> set (block_lines e l)"
  have s: "10 \<notin> set q" if "q \<in> set (supporting (active_facts e l))" for q
    using p that by (auto simp: supporting_def plain_paths_def list_all_iff)
  have j: "10 \<notin> set (join (U '', '') (map label vs))" for vs by (rule join_plain) (auto simp: label_plain)
  show ?thesis
    using x fact_lines_plain [OF p] s j
    by (auto simp: block_lines_def fact_group_def listed_labels_def label_plain linked_plain Let_def simp del: U_append split: if_splits)
      (simp_all add: U_def)
qed

lemma facts_in_lines: "(\<And>x. x \<in> set xs \<Longrightarrow> 10 \<notin> set x) \<Longrightarrow> xs \<noteq> [] \<Longrightarrow>
    facts_in (join newline xs) = foldl (\<lambda>d (t, i). dict_set d i t) [] (facts_of xs)"
  by (simp add: facts_in_def newline_def split_on_join)

lemma found: "find P xs = Some x \<Longrightarrow> x \<in> set xs \<and> P x"
  by (auto simp: find_Some_iff)

lemma dget_folded: "dget (foldl (\<lambda>d (t, i). dict_set d i t) d ps) k =
    (case find (\<lambda>p. snd p = k) (rev ps) of None \<Rightarrow> dget d k | Some p \<Rightarrow> Some (fst p))"
  by (induction ps rule: rev_induct) auto

text \<open>The lines \<open>FACT_LINE\<close> finds in the block of a dossier are the lines of its active facts, each under its identity with its
  predicate and value.\<close>

lemma dossier_block_reads_back:
  assumes "en_retired e = None" and "en_redirect e = None" and "plain_paths l e" and "distinct (map fc_id (active_facts e l))"
  shows "dget (facts_in (render False e l)) i = map_option fact_says (find (\<lambda>f. fc_id f = i) (active_facts e l))"
proof -
  let ?ps = "map (\<lambda>f. (fact_says f, fc_id f)) (shown_facts e l)"
  have block: "facts_in (render False e l) = foldl (\<lambda>d (t, i). dict_set d i t) [] ?ps"
    using assms(1-3) facts_in_lines [of "block_lines e l"] block_lines_plain [OF assms(3)]
    by (simp add: block_of_lines facts_of_block) (simp add: block_lines_def Let_def)
  have inj: "f = g" if "f \<in> set (active_facts e l)" "g \<in> set (active_facts e l)" "fc_id f = fc_id g" for f g
    using assms(4) that by (simp add: distinct_map inj_on_def)
  have "find (\<lambda>p. snd p = i) (rev ?ps) = map_option (\<lambda>f. (fact_says f, fc_id f)) (find (\<lambda>f. fc_id f = i) (active_facts e l))"
  proof (cases "find (\<lambda>f. fc_id f = i) (active_facts e l)")
    case None
    then have "find (\<lambda>p. snd p = i) (rev ?ps) = None" by (auto simp: find_None_iff)
    with None show ?thesis by simp
  next
    case (Some f)
    then have f: "f \<in> set (active_facts e l)" "fc_id f = i" by (auto simp: find_Some_iff)
    have "(fact_says f, fc_id f) \<in> set (rev ?ps)" using f(1) by auto
    then have "find (\<lambda>p. snd p = i) (rev ?ps) \<noteq> None" using f(2) unfolding find_None_iff by fastforce
    then obtain p where p: "find (\<lambda>p. snd p = i) (rev ?ps) = Some p" by blast
    then have "p \<in> set (rev ?ps)" "snd p = i" using found [of _ "rev ?ps" p] by blast+
    then obtain g where "g \<in> set (active_facts e l)" "p = (fact_says g, fc_id g)" "fc_id g = i" by auto
    moreover have "g = f" using inj [of g f] calculation f by simp
    ultimately show ?thesis using p Some by simp
  qed
  then show ?thesis by (simp add: block dget_folded option.map_comp comp_def split: option.split)
qed

section \<open>Lines taken away\<close>

definition others_than :: "str list \<Rightarrow> str \<Rightarrow> bool" where
  "others_than D x \<longleftrightarrow> (case read_fact_line x of None \<Rightarrow> True | Some (t, i) \<Rightarrow> i \<notin> set D)"

text \<open>The block as its owner leaves it when the lines of the facts \<open>D\<close> are deleted.\<close>

definition without_facts :: "str list \<Rightarrow> str \<Rightarrow> str" where
  "without_facts D block = join newline (filter (others_than D) (split_on 10 block))"

lemma facts_of_others: "facts_of (filter (others_than D) xs) = filter (\<lambda>(t, i). i \<notin> set D) (facts_of xs)"
  by (induction xs) (auto simp: others_than_def split: option.split)

lemma find_filtered: "find (\<lambda>p. snd p = k) (filter (\<lambda>(t, i). i \<notin> S) ps) = (if k \<in> S then None else find (\<lambda>p. snd p = k) ps)"
  by (induction ps) auto

lemma facts_in_without:
  "dget (facts_in (without_facts D block)) i = (if i \<in> set D then None else dget (facts_in block) i)"
proof -
  have n: "10 \<notin> set x" if "x \<in> set (split_on 10 block)" for x
    using that by (rule split_on_no_sep)
  have "facts_in (without_facts D block) = foldl (\<lambda>d (t, i). dict_set d i t) [] (facts_of (filter (others_than D) (split_on 10 block)))"
  proof (cases "filter (others_than D) (split_on 10 block) = []")
    case True
    then show ?thesis by (simp add: facts_in_def without_facts_def read_fact_line_def startswith_def U_def)
  next
    case False
    with n show ?thesis unfolding without_facts_def by (intro facts_in_lines) auto
  qed
  then show ?thesis
    by (simp add: facts_of_others dget_folded facts_in_def find_filtered rev_filter split: option.split)
qed

lemma nothing_added:
  assumes "split_on 10 block = ls @ [[]]"
  shows "added_lines block (without_facts D block) = []"
proof -
  have "block = join newline (ls @ [[]])" using join_split_on [of 10 block] assms by (simp add: newline_def)
  then have was: "splitlines block = concat (map (\<lambda>x. splitlines (x @ newline)) ls)" by (simp add: splitlines_joined)
  have "without_facts D block = join newline (filter (others_than D) ls @ [[]])"
    by (simp add: without_facts_def assms others_than_def read_fact_line_def startswith_def U_def)
  then have "splitlines (without_facts D block) = concat (map (\<lambda>x. splitlines (x @ newline)) (filter (others_than D) ls))"
    by (simp only: splitlines_joined)
  with was have "set (splitlines (without_facts D block)) \<subseteq> set (splitlines block)" by auto
  then show ?thesis by (auto simp: added_lines_def filter_empty_conv)
qed

section \<open>A deleted line\<close>

lemma block_ends:
  assumes "plain_paths l e"
  obtains ls where "split_on 10 (join newline (block_lines e l)) = ls @ [[]]"
proof -
  have "block_lines e l \<noteq> []" "last (block_lines e l) = []" by (simp_all add: block_lines_def Let_def)
  moreover have "split_on 10 (join newline (block_lines e l)) = block_lines e l"
    using block_lines_plain [OF assms] calculation(1) unfolding newline_def by (intro split_on_join) auto
  ultimately have "split_on 10 (join newline (block_lines e l)) = butlast (block_lines e l) @ [[]]" by (metis append_butlast_last_id)
  then show thesis by (rule that)
qed

lemma facts_in_block:
  assumes "en_retired e = None" and "en_redirect e = None" and "plain_paths l e"
  shows "dget (facts_in (render False e l)) i = None \<longleftrightarrow> i \<notin> fc_id ` set (active_facts e l)"
proof -
  have "facts_in (render False e l) = foldl (\<lambda>d (t, i). dict_set d i t) [] (map (\<lambda>f. (fact_says f, fc_id f)) (shown_facts e l))"
    using assms facts_in_lines [of "block_lines e l"] block_lines_plain [OF assms(3)]
    by (simp add: block_of_lines facts_of_block) (simp add: block_lines_def Let_def)
  moreover have "find (\<lambda>p. snd p = i) (rev (map (\<lambda>f. (fact_says f, fc_id f)) (shown_facts e l))) = None \<longleftrightarrow>
      i \<notin> fc_id ` set (active_facts e l)"
    unfolding find_None_iff by (auto simp flip: set_shown)
  ultimately show ?thesis by (auto simp: dget_folded split: option.splits)
qed

text \<open>C14. Deleting fact lines withdraws those facts alone.  A block was generated for a dossier, neither retired nor a redirect,
  and its owner deleted the lines of some of the facts it shows (all the other lines, those of evidence included, are
  there): the edits \<open>observe\<close> takes from the page, whatever the dossier holds by then, withdraw the facts of the deleted lines
  that are still confirmed, change no other fact, add no correction and no note, and record the block.  No path the block shows
  holds a line feed and every fact identifier is of the form the Store makes; nothing in the code rules out a device's
  file name with a line feed, which could forge a fact line.\<close>

theorem deleted_lines_withdraw:
  assumes "en_retired e0 = None" and "en_redirect e0 = None" and "plain_paths l0 e0"
  shows "take_edits de fresh now h (render False e0 l0) (without_facts D (render False e0 l0)) e =
    e\<lparr>en_facts := map (\<lambda>f. if fc_confirmed f \<and> fc_id f \<in> set D \<and> fc_id f \<in> fc_id ` set (active_facts e0 l0) then withdrawn f else f) (en_facts e),
      en_generated := Some (without_facts D (render False e0 l0)), en_pending := None\<rparr>"
proof -
  let ?was = "render False e0 l0" and ?now = "without_facts D (render False e0 l0)"
  have none: "dget (facts_in ?was) i = None \<longleftrightarrow> i \<notin> fc_id ` set (active_facts e0 l0)" for i by (rule facts_in_block [OF assms])
  have edit: "edit_of de (facts_in ?was) (facts_in ?now) f =
      (if fc_confirmed f \<and> fc_id f \<in> set D \<and> fc_id f \<in> fc_id ` set (active_facts e0 l0) then DropFact else KeepFact)" for f
    using none [of "fc_id f"] by (auto simp: edit_of_def facts_in_without split: option.split)
  have said: "said_facts fresh now e h (map (\<lambda>f. (f, edit_of de (facts_in ?was) (facts_in ?now) f)) fs) k = []" for fs k
    by (induction fs) (simp_all add: edit)
  obtain ls where "split_on 10 ?was = ls @ [[]]"
    using block_ends [OF assms(3)] assms(1,2) by (auto simp: block_of_lines)
  then have "added_lines ?was ?now = []" by (rule nothing_added)
  moreover have "(\<lambda>(f, d). edited_fact d f) (f, edit_of de (facts_in ?was) (facts_in ?now) f) =
      (if fc_confirmed f \<and> fc_id f \<in> set D \<and> fc_id f \<in> fc_id ` set (active_facts e0 l0) then withdrawn f else f)" for f
    by (simp add: edit edited_fact_def)
  ultimately show ?thesis
    unfolding take_edits_def Let_def said map_map comp_def by simp
qed

text \<open>A dossier with a fact, a relation to another dossier and an interest.\<close>

definition plain_fact :: "string \<Rightarrow> string \<Rightarrow> string \<Rightarrow> str option \<Rightarrow> dossier_fact" where
  "plain_fact i p v t =
     \<lparr>fc_id = U i, fc_predicate = U p, fc_value = U v, fc_target = t, fc_confirmed = True, fc_lapsed = False,
      fc_evidence = \<lparr>ev_note = Some (U ''N1''), ev_hash = U ''h1'', ev_path = U ''Notes/talk.md'', ev_date = [], ev_quote = [],
        ev_version = U ''agent-v1''\<rparr>,
      fc_origin = FromProse, fc_supersedes = None, fc_created = 0\<rparr>"

definition plain_entity :: "string \<Rightarrow> string \<Rightarrow> string list \<Rightarrow> dossier_fact list \<Rightarrow> entity" where
  "plain_entity i n mails fs =
     \<lparr>en_kind = Person, en_name = U n, en_aliases = [], en_emails = map U mails, en_id = U i, en_path = U (''People/'' @ n @ '' '' @ i @ ''.md''),
      en_version = 1, en_facts = fs, en_retired = None, en_redirect = None, en_automatic = False, en_generated = None,
      en_pending = None, en_personal = False, en_problem = None\<rparr>"

definition ada :: entity where
  "ada = plain_entity ''A'' ''Ada'' [''ada@x.org'']
     [plain_fact ''f1'' ''role'' ''head of <R&D>'' None, plain_fact ''f2'' ''knows'' ''Bob'' (Some (U ''B'')), plain_fact ''f3'' ''interest'' ''chess'' None]"

definition small_catalog :: ledger where
  "small_catalog = empty_ledger\<lparr>lg_entities := [(U ''A'', ada), (U ''B'', plain_entity ''B'' ''Bob'' [''bob@x.org''] [])]\<rparr>"

lemma dossier_block_reads_back_witness:
  "dget (facts_in (render False ada small_catalog)) (U ''f1'') = Some (U ''role: head of &lt;R&amp;D&gt;'')"
proof -
  have "active_facts ada small_catalog = en_facts ada"
    by (simp add: active_facts_def small_catalog_def ada_def plain_entity_def plain_fact_def entity_at_def)
  then have "dget (facts_in (render False ada small_catalog)) (U ''f1'') = map_option fact_says (find (\<lambda>f. fc_id f = U ''f1'') (en_facts ada))"
    using dossier_block_reads_back [of ada small_catalog "U ''f1''"]
    by (simp add: ada_def small_catalog_def plain_entity_def plain_fact_def plain_paths_def good_id_def fact_id_char_def ascii_digit_def)
      (simp add: U_def fact_id_char_def ascii_digit_def)
  then show ?thesis
    by (simp add: ada_def plain_entity_def plain_fact_def fact_says_def) (simp add: label_def escaped_def U_def)
qed

definition block_lib :: dossier_lib where
  "block_lib = \<lparr>de_digest = (\<lambda>v. []), de_lower = id, de_unescape = id, de_iso = (\<lambda>t. []), de_fresh = (\<lambda>n k. []), de_fields = (\<lambda>n. (None, None)),
     de_addresses = (\<lambda>n c. [])\<rparr>"

lemma deleted_lines_withdraw_witness:
  "map fc_confirmed (en_facts (take_edits block_lib (\<lambda>k. U ''n'') 1700000000 (U ''h'') (render False ada small_catalog)
     (without_facts [U ''f1''] (render False ada small_catalog)) ada)) = [False, True, True]"
proof -
  have "plain_paths small_catalog ada"
    by (simp add: plain_paths_def small_catalog_def ada_def plain_entity_def plain_fact_def good_id_def active_facts_def entity_at_def)
      (simp add: U_def fact_id_char_def ascii_digit_def)
  moreover have "active_facts ada small_catalog = en_facts ada"
    by (simp add: active_facts_def small_catalog_def ada_def plain_entity_def plain_fact_def entity_at_def)
  ultimately show ?thesis
    using deleted_lines_withdraw [of ada small_catalog block_lib "\<lambda>k. U ''n''" 1700000000 "U ''h''" "[U ''f1'']" ada]
    by (simp add: ada_def plain_entity_def) (simp add: plain_fact_def withdrawn_def)
qed

end
