(* ===== verification/DossierSafety.thy ===== *)
theory DossierSafety
  imports DossierTextLaws
begin

text \<open>
  What the dossier service does to the notes disk: it replaces nothing but pages that are a dossier's, and
  what an owner wrote above the mark of a page survives every projection.
\<close>

section \<open>The head of a page\<close>

text \<open>What the code relies on in the YAML writer: a document that was given a key is not empty, and its text is whole lines
  without a delimiter.\<close>

definition documents_ok :: "'d yaml_lib \<Rightarrow> bool" where
  "documents_ok y \<longleftrightarrow> (\<forall>d k v. items y (doc_set y d k v) \<noteq> []) \<and>
     (\<forall>st d. items y d \<noteq> [] \<longrightarrow> (let t = dump_doc y st d in t \<noteq> [] \<and> hd t \<noteq> 10 \<and> block_like t))"

lemma patched_splits:
  assumes "documents_ok y" and "split_text head = Inr (block, body)" and "patch_text y head changes [] = Inr t" and "changes \<noteq> []"
  shows "\<exists>b. t = enclose b body \<and> b \<noteq> [] \<and> hd b \<noteq> 10 \<and> block_like b"
proof -
  obtain d st where t: "t = enclose (if items y (foldl (\<lambda>d (k, v). doc_set y d k (yaml_scalar k v)) d changes) = [] then []
      else dump_doc y st (foldl (\<lambda>d (k, v). doc_set y d k (yaml_scalar k v)) d changes)) body"
    using assms(2,3) by (auto simp: patch_text_def patched_def sbind_Inr_iff Let_def)
  obtain cs k v where "changes = cs @ [(k, v)]" using assms(4) by (metis append_butlast_last_id surj_pair)
  then have "items y (foldl (\<lambda>d (k, v). doc_set y d k (yaml_scalar k v)) d changes) \<noteq> []"
    using assms(1) by (simp add: documents_ok_def)
  with t assms(1) show ?thesis by (auto simp: documents_ok_def Let_def)
qed

lemma title_line_match: "title_match (title_line e @ s) = Some (length (title_line e))"
proof -
  have "dropWhile (\<lambda>c. c \<noteq> 10) (U ''# '' @ label n @ 10 # r) = 10 # r" for n r
    using label_plain(2) [of n] by (simp add: dropWhile_append U_def dropWhile_eq_Nil_conv)
  from this [of "en_name e" "10 # s"] show ?thesis
    by (simp add: title_match_def title_line_def newline_def startswith_def)
qed

text \<open>C13. What an owner wrote above the mark of a dossier page survives: whatever the name and the aliases have become, the head
  the Store writes back reads as frontmatter and a body whose text after the title is, character for character, the one
  it read.\<close>

theorem owner_text_survives:
  assumes "documents_ok y" and "regenerate y e head = Inr head'"
  shows "case (split_text head, split_text head') of
      (Inr (b, body), Inr (b', body')) \<Rightarrow> after_title body' = after_title body | _ \<Rightarrow> False"
proof -
  obtain block body fields where h: "split_text head = Inr (block, body)" "parse_text y head = Inr (fields, body)"
    using assms(2) by (auto simp: regenerate_def sbind_Inr_iff parse_text_def)
  show ?thesis
  proof (cases "head' = head")
    case True
    with h show ?thesis by simp
  next
    case False
    let ?changes = "[(U ''type'', PStr (kind_text (en_kind e))), (U ''aliases'', alias_value e)]"
    obtain t b where t: "patch_text y head ?changes [] = Inr t" "t = enclose b body" "b \<noteq> []" "hd b \<noteq> 10" "block_like b"
      using assms(2) False h patched_splits [OF assms(1) h(1), of ?changes] 
      by (auto simp: regenerate_def sbind_Inr_iff split: if_splits)
    have s: "split_text t = Inr (b, body)" using t by (simp add: enclosed_splits)
    define body' where "body' = (case title_match body of None \<Rightarrow> body | Some n \<Rightarrow> title_line e @ drop n body)"
    have "take (length t - length body) t @ x = enclose b x" for x
      using t(2,3) by (simp add: enclose_def)
    then have "head' = enclose b body'"
      using assms(2) False h t(1) s
      by (auto simp: regenerate_def body'_def Let_def split: if_splits option.splits)
    then have "split_text head' = Inr (b, body')" using t by (simp add: enclosed_splits)
    moreover have "after_title body' = after_title body"
      by (simp add: body'_def after_title_def title_line_match split: option.split)
    ultimately show ?thesis using h(1) by simp
  qed
qed

lemma one_line_block: "block_like one_line" "one_line \<noteq> []" "hd one_line \<noteq> 10"
  by (simp_all add: block_like_def one_line_def line_break_def rstrip_by_def DELIMITER_def U_def)

lemma sample_documents: "documents_ok sample_yaml"
proof -
  have "dict_set d k v \<noteq> []" for d :: fmap and k v
    by (cases d) (auto split: if_splits)
  then show ?thesis
    by (simp add: documents_ok_def sample_yaml_def Let_def one_line_block)
qed

definition old_head :: str where
  "old_head = U ''# Old'' @ [10, 10] @ U ''Met at the fair.''"

lemma owner_text_survives_witness:
  "\<exists>head'. regenerate sample_yaml ada old_head = Inr head' \<and>
     (case split_text head' of Inr (b, body) \<Rightarrow> after_title body = U ''Met at the fair.'' | _ \<Rightarrow> False)"
proof -
  have t: "after_title old_head = U ''Met at the fair.''"
    by (simp add: after_title_def title_match_def old_head_def U_def startswith_def newline_def)
  have s: "split_text old_head = Inr ([], old_head)"
    by (simp add: split_text_def split_parts_def old_head_def U_def startswith_def removeprefix_def DELIMITER_def Let_def)
  have e: "strip [] = []" by (simp add: strip_def strip_by_eq_Nil_iff)
  have p: "parse_block sample_yaml [] = Inr []"
    by (simp add: parse_block_def e) (simp add: sample_yaml_def)
  have q: "patched sample_yaml [] old_head [(k, v), (k', v')] [] = Inr (enclose one_line old_head)" for k v k' v'
    using sample_documents
    by (simp add: patched_def load_styled_def e documents_ok_def) (simp add: sample_yaml_def)
  have "\<exists>head'. regenerate sample_yaml ada old_head = Inr head'"
    by (simp add: regenerate_def parse_text_def s p patch_text_def q enclosed_splits one_line_block Let_def)
  then obtain head' where h: "regenerate sample_yaml ada old_head = Inr head'" ..
  with owner_text_survives [OF sample_documents h] show ?thesis
    by (auto simp: s t split: sum.splits prod.splits)
qed

end
