(* ===== verification/DossierIdentity.thy ===== *)
theory DossierIdentity
  imports Dossiers
begin

text \<open>
  Identity decisions over the catalog (\<open>EntityService.identity\<close>, \<open>change\<close>, \<open>purge\<close> and \<open>migrate\<close>): merging two
  dossiers, splitting one, the single-dossier changes, the scrubbing of purged notes and dossiers, and
  the corrections carried over from the old contact view.
\<close>

datatype change_action =
    RenameIt | AliasesOf | ClaimFact | CorrectFact | WithdrawFact | RestoreIt | RetireIt
  | MergePreview | MergeThem | SplitPreview | SplitIt

record entity_change =
  ec_version :: int
  ec_action :: change_action
  ec_name :: "str option"
  ec_aliases :: "str list option"
  ec_emails :: "str list option"
  ec_fact :: "str option"
  ec_predicate :: str
  ec_value :: str
  ec_target :: "str option"
  ec_note :: "str option"
  ec_quote :: str
  ec_facts :: "str list"
  ec_preview :: "str option"
  ec_json :: bytes

text \<open>\<open>ec_json\<close> is the change as its JSON text; \<open>or ""\<close> and truth of an optional text.\<close>

definition or_empty :: "str option \<Rightarrow> str" where
  "or_empty v = (case v of None \<Rightarrow> [] | Some t \<Rightarrow> t)"

definition splitting :: "change_action \<Rightarrow> bool" where
  "splitting a \<longleftrightarrow> a = SplitPreview \<or> a = SplitIt"

definition inactive :: "entity \<Rightarrow> bool" where
  "inactive e \<longleftrightarrow> en_retired e \<noteq> None \<or> en_redirect e \<noteq> None"

section \<open>Merging and splitting\<close>

definition selected_facts :: "entity \<Rightarrow> entity_change \<Rightarrow> dossier_fact list" where
  "selected_facts e c = filter (\<lambda>f. \<not> splitting (ec_action c) \<or> fc_id f \<in> set (ec_facts c)) (en_facts e)"

definition merge_target :: "ledger \<Rightarrow> entity \<Rightarrow> entity_change \<Rightarrow> entity option" where
  "merge_target l e c =
     (case entity_at l (or_empty (ec_target c)) of None \<Rightarrow> None
      | Some t \<Rightarrow> if en_id t = en_id e \<or> inactive t \<or> en_kind t \<noteq> en_kind e then None else Some t)"

definition optional_str :: "str option \<Rightarrow> pyval" where
  "optional_str v = (case v of None \<Rightarrow> PNone | Some t \<Rightarrow> PStr t)"

definition evidence_notes :: "dossier_fact list \<Rightarrow> str list" where
  "evidence_notes fs = sort (remdups (filter (\<lambda>i. i \<noteq> []) (List.map_filter (\<lambda>f. ev_note (fc_evidence f)) fs)))"

definition preview_of :: "ledger \<Rightarrow> entity \<Rightarrow> entity_change \<Rightarrow> pyval" where
  "preview_of l e c =
     (let chosen = selected_facts e c in PMap
       [(U ''subject'', PStr (en_id e)), (U ''target'', optional_str (map_option en_id (entity_at l (or_empty (ec_target c))))),
        (U ''name'', optional_str (ec_name c)),
        (U ''emails'', (case ec_emails c of None \<Rightarrow> PNone | Some es \<Rightarrow> PList (map PStr es))),
        (U ''facts'', PList (map (\<lambda>f. PStr (fc_id f)) chosen)), (U ''notes'', PList (map PStr (evidence_notes chosen))),
        (U ''revision'', PInt (lg_revision l))])"

text \<open>The checks before a preview or its application: the token of the preview.\<close>

definition identity_checked :: "dossier_lib \<Rightarrow> ledger \<Rightarrow> entity \<Rightarrow> entity_change \<Rightarrow> exn + str" where
  "identity_checked de l e c =
     (if \<not> splitting (ec_action c) \<and> merge_target l e c = None
      then Inl (refused ''choose another active dossier of the same kind'')
      else if splitting (ec_action c) \<and>
        (or_empty (ec_name c) = [] \<or> ec_facts c = [] \<or> \<not> list_all (\<lambda>i. i \<in> fc_id ` set (en_facts e)) (ec_facts c))
      then Inl (refused ''split requires a new name and facts from this dossier'')
      else Inr (de_digest de (preview_of l e c)))"

text \<open>\<open>positions\<close> names the last fact of each identity; a withdrawn copy gives way to a confirmed fact.\<close>

fun replace_last :: "dossier_fact \<Rightarrow> dossier_fact list \<Rightarrow> dossier_fact list option" where
  "replace_last f [] = None"
| "replace_last f (g # gs) =
     (case replace_last f gs of Some gs' \<Rightarrow> Some (g # gs')
      | None \<Rightarrow> if fc_id g = fc_id f then Some ((if \<not> fc_confirmed g \<and> fc_confirmed f then f else g) # gs) else None)"

definition merge_fact :: "dossier_fact list \<Rightarrow> dossier_fact \<Rightarrow> dossier_fact list" where
  "merge_fact ts f = (case replace_last f ts of Some ts' \<Rightarrow> ts' | None \<Rightarrow> ts @ [f])"

definition union_sorted :: "str list \<Rightarrow> str list \<Rightarrow> str list" where
  "union_sorted xs ys = sort (remdups (xs @ ys))"

definition absorb :: "entity \<Rightarrow> entity \<Rightarrow> entity" where
  "absorb e t = t\<lparr>en_facts := foldl merge_fact (en_facts t) (en_facts e),
     en_aliases := union_sorted (en_aliases t) (en_aliases e @ [en_name e]),
     en_emails := union_sorted (en_emails t) (en_emails e)\<rparr>"

definition aims_at :: "str \<Rightarrow> dossier_fact \<Rightarrow> bool" where
  "aims_at i f \<longleftrightarrow> fc_target f = Some i"

definition retarget :: "str \<Rightarrow> str \<Rightarrow> entity \<Rightarrow> entity" where
  "retarget a b e =
     e\<lparr>en_facts := map (\<lambda>f. if aims_at a f then f\<lparr>fc_target := Some b\<rparr> else f) (en_facts e),
       en_version := en_version e + int (length (filter (aims_at a) (en_facts e)))\<rparr>"

definition merge_into :: "entity \<Rightarrow> entity \<Rightarrow> ledger \<Rightarrow> ledger" where
  "merge_into e t l =
     map_entities (retarget (en_id e) (en_id t))
       (set_entity (e\<lparr>en_redirect := Some (en_id t)\<rparr>) (set_entity (absorb e t) l))"

definition split_off :: "unicode \<Rightarrow> dossier_lib \<Rightarrow> str \<Rightarrow> entity \<Rightarrow> entity_change \<Rightarrow> ledger \<Rightarrow> exn + str \<times> ledger" where
  "split_off uc de i e c l =
     (case entity_input_of (en_kind e) (or_empty (ec_name c)) [] [] of None \<Rightarrow> Inl PyFault
      | Some rq \<Rightarrow> sbind (make_dossier uc de i rq False l) (\<lambda>(t, l).
          let t = t\<lparr>en_facts := selected_facts e c\<rparr>;
              e = e\<lparr>en_facts := map (\<lambda>f. if fc_id f \<in> set (ec_facts c) then withdrawn f else f) (en_facts e)\<rparr>;
              moved = (case ec_emails c of None \<Rightarrow> [] | Some es \<Rightarrow> es)
          in if \<not> list_all (\<lambda>a. a \<in> set (en_emails e)) moved
             then Inl (refused ''split emails must belong to the original dossier'')
             else Inr (i, set_entity (if moved = [] then t else t\<lparr>en_emails := sort (remdups moved)\<rparr>)
                 (set_entity (e\<lparr>en_emails := filter (\<lambda>a. a \<notin> set moved) (en_emails e)\<rparr>) l))))"

definition receipt_at :: "dossier_lib \<Rightarrow> int \<Rightarrow> str \<Rightarrow> string \<Rightarrow> fmap \<Rightarrow> ledger \<Rightarrow> ledger" where
  "receipt_at de now i action details l =
     (case entity_at l i of None \<Rightarrow> l | Some e \<Rightarrow> with_receipt de now e action details l)"

definition action_name :: "change_action \<Rightarrow> string" where
  "action_name a =
     (case a of RenameIt \<Rightarrow> ''rename'' | AliasesOf \<Rightarrow> ''aliases'' | ClaimFact \<Rightarrow> ''claim'' | CorrectFact \<Rightarrow> ''correct''
      | WithdrawFact \<Rightarrow> ''withdraw'' | RestoreIt \<Rightarrow> ''restore'' | RetireIt \<Rightarrow> ''retire'' | MergePreview \<Rightarrow> ''merge-preview''
      | MergeThem \<Rightarrow> ''merge'' | SplitPreview \<Rightarrow> ''split-preview'' | SplitIt \<Rightarrow> ''split'')"

text \<open>The application of a confirmed preview: the dossier it leads to, and the catalog before it is saved.\<close>

definition identity_applied :: "unicode \<Rightarrow> dossier_lib \<Rightarrow> int \<Rightarrow> str \<Rightarrow> entity \<Rightarrow> entity_change \<Rightarrow> str \<Rightarrow> ledger \<Rightarrow> exn + str \<times> ledger" where
  "identity_applied uc de now i e c token l =
     (if ec_preview c \<noteq> Some token then Inl (refused ''identity preview changed; preview again before applying'')
      else sbind (if splitting (ec_action c) then split_off uc de i e c l
                  else case merge_target l e c of None \<Rightarrow> Inl PyFault | Some t \<Rightarrow> Inr (en_id t, merge_into e t l)) (\<lambda>(t, l).
        Inr (t, receipt_at de now t (action_name (ec_action c)) [(U ''source'', PStr (en_id e))]
           (receipt_at de now (en_id e) (action_name (ec_action c)) [(U ''target'', PStr t), (U ''preview'', PStr token)] l))))"

section \<open>Changes of one dossier\<close>

definition fact_named :: "entity \<Rightarrow> str option \<Rightarrow> dossier_fact option" where
  "fact_named e i = find (\<lambda>f. Some (fc_id f) = i) (en_facts e)"

text \<open>The first fact of an identity, changed where it stands.\<close>

fun update_first :: "str \<Rightarrow> (dossier_fact \<Rightarrow> dossier_fact) \<Rightarrow> dossier_fact list \<Rightarrow> dossier_fact list" where
  "update_first i f [] = []"
| "update_first i f (g # gs) = (if fc_id g = i then f g # gs else g # update_first i f gs)"

definition active_target :: "ledger \<Rightarrow> str option \<Rightarrow> bool" where
  "active_target l i \<longleftrightarrow>
     or_empty i = [] \<or> (case entity_at l (or_empty i) of None \<Rightarrow> False | Some t \<Rightarrow> \<not> inactive t)"

definition others_hold :: "ledger \<Rightarrow> str \<Rightarrow> str \<Rightarrow> bool" where
  "others_hold l i a \<longleftrightarrow> list_ex (\<lambda>(j, e). en_id e \<noteq> i \<and> en_redirect e = None \<and> a \<in> set (en_emails e)) (lg_entities l)"

definition relabelled :: "dossier_lib \<Rightarrow> entity_change \<Rightarrow> ledger \<Rightarrow> entity \<Rightarrow> exn + entity" where
  "relabelled de c l e =
     (case entity_input_of (en_kind e) (en_name e) (case ec_aliases c of None \<Rightarrow> en_aliases e | Some v \<Rightarrow> v)
         (case ec_emails c of None \<Rightarrow> en_emails e | Some v \<Rightarrow> v) of
        None \<Rightarrow> Inl PyFault
      | Some rq \<Rightarrow>
          let addresses = map (email de) (ei_emails rq)
          in if None \<in> set addresses \<or> list_ex (others_hold l (en_id e)) (List.map_filter id addresses)
             then Inl (refused ''email is invalid or already belongs to another dossier'')
             else Inr (e\<lparr>en_aliases := ei_aliases rq, en_emails := List.map_filter id addresses\<rparr>))"

text \<open>The note a claim quotes: its identity, path, hash, body and frontmatter.\<close>

record quoted_note =
  qn_id :: str
  qn_path :: str
  qn_hash :: str
  qn_body :: str
  qn_frontmatter :: fmap

definition claimed_fact :: "objects \<Rightarrow> int \<Rightarrow> str \<Rightarrow> entity_change \<Rightarrow> quoted_note \<Rightarrow> dossier_fact" where
  "claimed_fact ob now i c n =
     \<lparr>fc_id = i, fc_predicate = ec_predicate c, fc_value = ec_value c, fc_target = ec_target c, fc_confirmed = True, fc_lapsed = False,
      fc_evidence = \<lparr>ev_note = Some (qn_id n), ev_hash = qn_hash n, ev_path = qn_path n,
        ev_date = (case dget (qn_frontmatter n) (U ''date'') of None \<Rightarrow> [] | Some v \<Rightarrow> text_of ob v),
        ev_quote = ec_quote c, ev_version = U ''agent-v1''\<rparr>,
      fc_origin = FromProse, fc_supersedes = None, fc_created = now\<rparr>"

definition corrected :: "(bytes \<Rightarrow> str) \<Rightarrow> int \<Rightarrow> str \<Rightarrow> entity_change \<Rightarrow> entity \<Rightarrow> entity" where
  "corrected hash now i c e =
     e\<lparr>en_facts := update_first (or_empty (ec_fact c)) withdrawn (en_facts e) @
         [correction i now e (ec_predicate c) (ec_value c) (hash (ec_json c)) (ec_fact c) (ec_target c)]\<rparr>"

section \<open>Scrubbing\<close>

definition scrubbed_entity :: "int \<Rightarrow> str list \<Rightarrow> str list \<Rightarrow> entity \<Rightarrow> entity" where
  "scrubbed_entity now note_ids entity_ids e =
     (let e = e\<lparr>en_facts := filter (\<lambda>f. \<not> (case ev_note (fc_evidence f) of None \<Rightarrow> False | Some i \<Rightarrow> i \<in> set note_ids) \<and>
                  \<not> (case fc_target f of None \<Rightarrow> False | Some i \<Rightarrow> i \<in> set entity_ids)) (en_facts e)\<rparr>;
          e = (case en_redirect e of Some r \<Rightarrow> if r \<in> set entity_ids then e\<lparr>en_retired := Some now, en_redirect := None\<rparr> else e
               | None \<Rightarrow> e)
      in newer e)"

definition purge_done :: "str \<Rightarrow> ledger \<Rightarrow> bool" where
  "purge_done token l \<longleftrightarrow> list_ex (\<lambda>r. fget r (U ''purge'') = PStr token) (lg_receipts l)"

definition names_any :: "str list \<Rightarrow> fmap \<Rightarrow> string \<Rightarrow> bool" where
  "names_any ids r k = (case fget r (U k) of PStr i \<Rightarrow> i \<in> set ids | _ \<Rightarrow> False)"

definition scrubbed :: "dossier_lib \<Rightarrow> int \<Rightarrow> str list \<Rightarrow> str list \<Rightarrow> ledger \<Rightarrow> ledger" where
  "scrubbed de now note_ids entity_ids l =
     (let gone = filter (\<lambda>(i, e). i \<in> set entity_ids) (lg_entities l);
          kept = filter (\<lambda>(i, e). i \<notin> set entity_ids) (lg_entities l)
      in l\<lparr>lg_entities := map (\<lambda>(i, e). (i, scrubbed_entity now note_ids entity_ids e)) kept,
           lg_receipts := filter (\<lambda>r. \<not> names_any entity_ids r ''entity_id'' \<and> \<not> names_any entity_ids r ''target'' \<and>
             \<not> names_any entity_ids r ''source'') (lg_receipts l),
           lg_suppressed := sort (remdups (lg_suppressed l @
             concat (map (\<lambda>(i, e). map (\<lambda>a. de_digest de (PStr a)) (en_emails e)) gone)))\<rparr>)"

section \<open>The old contact view\<close>

definition legacy_keys :: "ledger \<Rightarrow> pyval list" where
  "legacy_keys l = filter truthy (map (\<lambda>r. fget r (U ''legacy'')) (lg_receipts l))"

definition legacy_dossiers :: "(str, str) dict \<Rightarrow> pyval list \<Rightarrow> fmap \<Rightarrow> ledger \<Rightarrow> ledger" where
  "legacy_dossiers mails migrated old l =
     foldl (\<lambda>l (k, r). if PStr k \<in> set migrated then l
        else case r of PMap d \<Rightarrow> (case fget d (U ''address'') of PStr a \<Rightarrow> (case dget mails a of None \<Rightarrow> l
               | Some i \<Rightarrow> add_receipt [(U ''legacy'', PStr k), (U ''entity_id'', PStr i)] l) | _ \<Rightarrow> l)
             | _ \<Rightarrow> l) l old"

text \<open>The one dossier the addresses of a contact lead to, by the map made before the corrections.\<close>

definition sole_dossier :: "(str, str) dict \<Rightarrow> str list \<Rightarrow> str option" where
  "sole_dossier mails addresses = (case remdups (List.map_filter (dget mails) addresses) of [i] \<Rightarrow> Some i | _ \<Rightarrow> None)"

definition same_person :: "entity \<Rightarrow> entity \<Rightarrow> ledger \<Rightarrow> ledger" where
  "same_person e t l =
     set_entity (e\<lparr>en_redirect := Some (en_id t)\<rparr>) (set_entity (newer (t\<lparr>en_emails := union_sorted (en_emails t) (en_emails e),
        en_aliases := union_sorted (en_aliases t) (en_aliases e @ [en_name e]), en_facts := en_facts t @ en_facts e\<rparr>)) l)"

definition field_text :: "fmap \<Rightarrow> string \<Rightarrow> str" where
  "field_text d k = (case fget d (U k) of PStr t \<Rightarrow> t | _ \<Rightarrow> [])"

definition legacy_contact :: "dossier_lib \<Rightarrow> nat \<Rightarrow> int \<Rightarrow> (str, str) dict \<Rightarrow> pyval list \<Rightarrow> ledger \<Rightarrow> str \<times> pyval \<Rightarrow> ledger" where
  "legacy_contact de at now mails migrated l p =
     (let key = U ''contact:'' @ fst p @ U '':'' @ de_digest de (snd p)
      in case (snd p, sole_dossier mails (de_addresses de at (fst p))) of
           (PMap d, Some i) \<Rightarrow>
             if PStr key \<in> set migrated then l
             else (case entity_at l i of None \<Rightarrow> l
               | Some e \<Rightarrow>
                   let e = (if field_text d ''name'' \<noteq> [] then e\<lparr>en_name := field_text d ''name''\<rparr> else e);
                       l = set_entity e l;
                       l = (if field_text d ''same_as'' = [] then l
                            else case sole_dossier mails (de_addresses de at (field_text d ''same_as'')) of None \<Rightarrow> l
                              | Some j \<Rightarrow> (case entity_at l j of None \<Rightarrow> l | Some t \<Rightarrow> if en_id t = en_id e then l else same_person e t l))
                   in receipt_at de now (en_id e) ''legacy contact correction'' [(U ''legacy'', PStr key)] l)
         | _ \<Rightarrow> l)"

definition migrated_ledger :: "dossier_lib \<Rightarrow> nat \<Rightarrow> int \<Rightarrow> fmap \<Rightarrow> fmap \<Rightarrow> ledger \<Rightarrow> ledger" where
  "migrated_ledger de at now old corrections l =
     (let mails = by_email l; migrated = legacy_keys l
      in foldl (legacy_contact de at now mails migrated) (legacy_dossiers mails migrated old l) corrections)"

end
