(* ===== verification/DossierPages.thy ===== *)
theory DossierPages
  imports DossierIdentity SourceIngest
begin

text \<open>
  Dossier pages and the catalog on disk (\<open>EntityService\<close> of \<open>coppermind_store/entities.py\<close>): what is observed
  of a page, the projection that replaces it, the refresh that joins both with the notes, and the
  mirror in the database.  The caller holds the lock of the service; a page is one name on the notes
  disk, so a link in its way is a file the page is not.
\<close>

section \<open>The catalog on disk\<close>

definition load_catalog :: "'d site \<Rightarrow> ledger act" where
  "load_catalog s = own_step s (\<lambda>w. (case fl_catalog (w_files w) of None \<Rightarrow> empty_ledger | Some l \<Rightarrow> l, w))"

text \<open>\<open>save\<close> raises the revision before it writes.\<close>

definition bumped :: "ledger \<Rightarrow> ledger" where
  "bumped l = l\<lparr>lg_revision := lg_revision l + 1\<rparr>"

definition store_catalog :: "'d site \<Rightarrow> ledger \<Rightarrow> unit act" where
  "store_catalog s l = own_step s (\<lambda>w. ((), w\<lparr>w_files := (w_files w)\<lparr>fl_catalog := Some l\<rparr>\<rparr>))"

definition save_catalog :: "'d site \<Rightarrow> ledger \<Rightarrow> ledger act" where
  "save_catalog s l = bnd (store_catalog s (bumped l)) (\<lambda>u. ret (bumped l))"

text \<open>\<open>_load\<close> and \<open>records\<close> of \<open>purge.py\<close>: the receipts of a folder that can be read and are the receipt of their name.\<close>

definition load_receipt :: "receipt_place \<times> str \<Rightarrow> purge_receipt option \<Rightarrow> purge_receipt option" where
  "load_receipt k r = (case r of None \<Rightarrow> None | Some v \<Rightarrow> if pr_token v = snd k then Some v else None)"

definition records_at :: "receipt_place \<Rightarrow> store_files \<Rightarrow> purge_receipt list" where
  "records_at p f =
     List.map_filter (\<lambda>(k, r). if fst k = p then load_receipt k r else None) (sort_key (snd \<circ> fst) (fl_purges f))"

definition unfinished :: "purge_receipt \<Rightarrow> bool" where
  "unfinished r \<longleftrightarrow> pr_state r = Applying \<or> pr_state r = Failed"

definition purge_pending :: "'d site \<Rightarrow> bool act" where
  "purge_pending s = own_step s (\<lambda>w. (list_ex unfinished (records_at AtRoot (w_files w)), w))"

section \<open>A page\<close>

text \<open>\<open>purge.resolve\<close>: the parts of a relative path, none of which leads out or into Git's folder.\<close>

definition path_parts :: "str \<Rightarrow> str list" where
  "path_parts p = filter (\<lambda>x. x \<noteq> [] \<and> x \<noteq> U ''.'') (split_on 47 p)"

definition safe_path :: "str \<Rightarrow> exn + str" where
  "safe_path p =
     (if path_parts p = [] \<or> startswith p (U ''/'') \<or> list_ex (\<lambda>x. x = U ''..'' \<or> x = U ''.git'') (path_parts p)
      then Inl PyFault else Inr (join (U ''/'') (path_parts p)))"

definition there :: "'d site \<Rightarrow> str \<Rightarrow> bool act" where
  "there s p = disk_step s (\<lambda>now d. Inr (occupied_name d p, d))"

definition read_page :: "'d site \<Rightarrow> str \<Rightarrow> bytes act" where
  "read_page s p = disk_step s (lookup_file p n_bytes)"

definition fm_sum :: "fm_error + 'a \<Rightarrow> exn + 'a" where
  "fm_sum r = (case r of Inl e \<Rightarrow> Inl (BadFrontmatter e) | Inr x \<Rightarrow> Inr x)"

text \<open>A page of the dossier: whether its head is the owner's writing, and its block.\<close>

definition page_parts :: "'d yaml_lib \<Rightarrow> str \<Rightarrow> bytes \<Rightarrow> exn + bool \<times> str" where
  "page_parts y i raw =
     (case decode raw of None \<Rightarrow> Inl PyFault
      | Some t \<Rightarrow>
         if 0 \<in> set t then Inl PyFault
         else sbind (fm_sum (parse_text y t)) (\<lambda>(fm, b).
           if fget fm (U ''entity_id'') \<noteq> PStr i then Inl PyFault
           else case cut_once BLOCK_MARK t of None \<Rightarrow> Inl PyFault
             | Some (head, block) \<Rightarrow> sbind (fm_sum (owner_wrote y head)) (\<lambda>own. Inr (own, block))))"

text \<open>What a page read in order does to its dossier.\<close>

definition seen_entity :: "bool \<Rightarrow> str \<Rightarrow> entity \<Rightarrow> entity" where
  "seen_entity own block e =
     (let e = e\<lparr>en_personal := own\<rparr>
      in if en_pending e = Some block then e\<lparr>en_generated := Some block, en_pending := None\<rparr> else e)"

definition observed :: "dossier_lib \<Rightarrow> (nat \<Rightarrow> str) \<Rightarrow> int \<Rightarrow> str \<Rightarrow> bool \<Rightarrow> str \<Rightarrow> entity \<Rightarrow> ledger \<Rightarrow> ledger" where
  "observed de fresh now h own block e l =
     (let e = seen_entity own block e
      in case en_generated e of
           Some was \<Rightarrow>
             if block = was then set_entity e l
             else with_receipt de now (take_edits de fresh now h was block e) ''page correction'' [(U ''note_hash'', PStr h)] l
         | None \<Rightarrow> set_entity e l)"

definition page_gone :: "dossier_lib \<Rightarrow> int \<Rightarrow> entity \<Rightarrow> ledger \<Rightarrow> ledger" where
  "page_gone de now e l =
     (if en_generated e \<noteq> None \<and> en_retired e = None
      then with_receipt de now (e\<lparr>en_retired := Some now\<rparr>) ''page deleted'' [] l else l)"

definition step_number :: "nat act" where
  "step_number w = (Inr (w_tick w), w)"

definition observe_page :: "'d site \<Rightarrow> dossier_lib \<Rightarrow> ledger \<Rightarrow> entity \<Rightarrow> (ledger \<times> bytes option) act" where
  "observe_page s de l e =
     bnd (of_sum (safe_path (en_path e))) (\<lambda>p.
     bnd (there s p) (\<lambda>here.
     if \<not> here then bnd (now_at s) (\<lambda>now. ret (page_gone de now e l, None))
     else bnd (read_page s p) (\<lambda>raw.
          bnd (of_sum (page_parts (st_yaml s) (en_id e) raw)) (\<lambda>(own, block).
          bnd (now_at s) (\<lambda>now.
          bnd step_number (\<lambda>n.
          ret (observed de (de_fresh de n) now (st_hash s raw) own block e l, Some raw)))))))"

section \<open>The projection\<close>

text \<open>\<open>except (OSError, ValueError, UnicodeError, fm.FrontmatterError)\<close>: what was raised, as a value.\<close>

definition page_trouble :: "exn \<Rightarrow> bool" where
  "page_trouble e \<longleftrightarrow> is_oserror e \<or> e = PyFault \<or> e = Unencodable \<or> (case e of BadFrontmatter f \<Rightarrow> True | _ \<Rightarrow> False)"

definition attempt :: "'a act \<Rightarrow> (exn + 'a) act" where
  "attempt m = catching (bnd m (\<lambda>x. ret (Inr x))) (\<lambda>e. if page_trouble e then ret (Inl e) else raise_exn e)"

definition troubled :: "string \<Rightarrow> str \<Rightarrow> ledger \<Rightarrow> ledger" where
  "troubled m i l = (case entity_at l i of None \<Rightarrow> l | Some e \<Rightarrow> set_entity (e\<lparr>en_problem := Some (U m)\<rparr>) l)"

definition not_projected :: string where
  "not_projected = ''Dossier page could not be projected; check its identity, delimiter and path''"

text \<open>\<open>prefix\<close>: the head of the page with its title and labels brought up to date.\<close>

definition page_prefix :: "'d yaml_lib \<Rightarrow> entity \<Rightarrow> bytes option \<Rightarrow> exn + str" where
  "page_prefix y e raw =
     (case raw of None \<Rightarrow> Inr (header y e)
      | Some b \<Rightarrow> (case decode b of None \<Rightarrow> Inl PyFault
          | Some t \<Rightarrow> sbind (fm_sum (regenerate y e (case cut_at BLOCK_MARK t of None \<Rightarrow> t | Some (h, r) \<Rightarrow> h)))
                        (\<lambda>head. Inr (head @ BLOCK_MARK))))"

definition page_bytes :: "'d yaml_lib \<Rightarrow> entity \<Rightarrow> bytes option \<Rightarrow> str \<Rightarrow> exn + bytes" where
  "page_bytes y e raw block =
     sbind (page_prefix y e raw) (\<lambda>p. case encode (p @ block) of None \<Rightarrow> Inl Unencodable | Some b \<Rightarrow> Inr b)"

text \<open>Whether the page was written: a page that no longer holds what was read is left alone.\<close>

definition write_page :: "'d site \<Rightarrow> str \<Rightarrow> bytes option \<Rightarrow> bytes \<Rightarrow> bool act" where
  "write_page s p raw wanted =
     (case raw of
        None \<Rightarrow> bnd (create_exclusive s p wanted) (\<lambda>u. ret True)
      | Some was \<Rightarrow>
          bnd (stage s p wanted) (\<lambda>tmp.
          finally_do
            (bnd (read_page s p) (\<lambda>now. if now \<noteq> was then ret False else bnd (commit_temp s tmp p) (\<lambda>u. ret True)))
            (unlink_missing_ok s tmp)))"

definition place_page :: "'d site \<Rightarrow> ledger \<Rightarrow> entity \<Rightarrow> bytes option \<Rightarrow> ledger act" where
  "place_page s l e raw =
     (let block = render False e l
      in if en_retired e \<noteq> None \<and> raw = None then ret l
         else case page_bytes (st_yaml s) e raw block of
           Inl x \<Rightarrow> if page_trouble x then ret (troubled not_projected (en_id e) l) else raise_exn x
         | Inr wanted \<Rightarrow>
             if raw = Some wanted then ret (set_entity (e\<lparr>en_problem := None\<rparr>) l)
             else let e = e\<lparr>en_pending := Some block\<rparr>; l = bumped (set_entity e l)
                  in bnd (attempt (bnd (store_catalog s l) (\<lambda>u.
                           bnd (of_sum (safe_path (en_path e))) (\<lambda>p. write_page s p raw wanted)))) (\<lambda>r.
                     ret (case r of Inl x \<Rightarrow> troubled not_projected (en_id e) l | Inr False \<Rightarrow> l
                       | Inr True \<Rightarrow> set_entity (e\<lparr>en_generated := Some block, en_pending := None, en_problem := None\<rparr>) l)))"

type_synonym pages = "(str, bytes option) dict"

definition remember_page :: "str \<Rightarrow> bytes option \<Rightarrow> pages option \<Rightarrow> pages option" where
  "remember_page i raw read = map_option (\<lambda>d. dict_set d i raw) read"

definition project :: "'d site \<Rightarrow> dossier_lib \<Rightarrow> str \<Rightarrow> ledger \<times> pages option \<Rightarrow> (ledger \<times> pages option) act" where
  "project s de i st =
     (case st of (l, read) \<Rightarrow> case entity_at l i of None \<Rightarrow> ret (l, read)
      | Some e \<Rightarrow>
          bnd (case (case read of None \<Rightarrow> None | Some d \<Rightarrow> dget d i) of
                 Some raw \<Rightarrow> ret (Inr (l, raw, read))
               | None \<Rightarrow> bnd (attempt (observe_page s de l e)) (\<lambda>r.
                    ret (case r of Inl x \<Rightarrow> Inl x | Inr (l, raw) \<Rightarrow> Inr (l, raw, remember_page i raw read)))) (\<lambda>r.
          case r of Inl x \<Rightarrow> ret (troubled not_projected i l, read)
          | Inr (l, raw, read) \<Rightarrow> (case entity_at l i of None \<Rightarrow> ret (l, read)
              | Some e \<Rightarrow> bnd (place_page s l e raw) (\<lambda>l. ret (l, read)))))"

primrec each_in :: "('a \<Rightarrow> 's \<Rightarrow> 's act) \<Rightarrow> 'a list \<Rightarrow> 's \<Rightarrow> 's act" where
  "each_in f [] st = ret st"
| "each_in f (x # xs) st = bnd (f x st) (each_in f xs)"

definition project_all :: "'d site \<Rightarrow> dossier_lib \<Rightarrow> ledger \<times> pages option \<Rightarrow> (ledger \<times> pages option) act" where
  "project_all s de st = each_in (project s de) (dkeys (lg_entities (fst st))) st"

section \<open>The mirror\<close>

text \<open>\<open>public\<close>: a record without its page receipts.\<close>

definition public :: "entity \<Rightarrow> entity" where
  "public e = e\<lparr>en_generated := None, en_pending := None\<rparr>"

text \<open>\<open>personal_text\<close>: of the page as it was seen, or as it is now, where a page out of order has none.\<close>

definition own_text :: "'d yaml_lib \<Rightarrow> str \<Rightarrow> bytes \<Rightarrow> str option" where
  "own_text y i raw =
     (case map_option universal_newlines (decode raw) of None \<Rightarrow> None
      | Some t \<Rightarrow> (case parse_text y t of Inl e \<Rightarrow> None
          | Inr (fm, b) \<Rightarrow>
              if fget fm (U ''entity_id'') \<noteq> PStr i then None
              else case cut_once BLOCK_MARK t of None \<Rightarrow> None
                | Some (head, block) \<Rightarrow> (case parse_text y head of Inl e \<Rightarrow> None | Inr (f, body) \<Rightarrow> Some body)))"

definition personal_text :: "'d site \<Rightarrow> pages option \<Rightarrow> entity \<Rightarrow> str act" where
  "personal_text s read e =
     (case (case read of None \<Rightarrow> None | Some d \<Rightarrow> dget d (en_id e)) of
        Some raw \<Rightarrow> of_sum (sbind (page_prefix (st_yaml s) e raw) (\<lambda>p.
          sbind (fm_sum (parse_text (st_yaml s) (removesuffix p BLOCK_MARK))) (\<lambda>(f, body). Inr body)))
      | None \<Rightarrow>
          catching (bnd (of_sum (safe_path (en_path e))) (\<lambda>p.
            bnd (read_page s p) (\<lambda>raw. ret (case own_text (st_yaml s) (en_id e) raw of None \<Rightarrow> [] | Some t \<Rightarrow> t))))
          (\<lambda>x. if page_trouble x then ret [] else raise_exn x))"

definition on_more :: "(more_tables \<Rightarrow> more_tables) \<Rightarrow> db \<Rightarrow> db" where
  "on_more f b = b\<lparr>db_more := f (db_more b)\<rparr>"

definition listed_only :: "str list \<Rightarrow> (str, 'v) dict \<Rightarrow> (str, 'v) dict" where
  "listed_only ids d = filter (\<lambda>(i, v). i \<in> set ids) d"

definition entity_row_of :: "entity \<Rightarrow> entity_row" where
  "entity_row_of e = \<lparr>er_kind = en_kind e, er_name = en_name e, er_version = en_version e, er_active = \<not> inactive e, er_record = public e\<rparr>"

definition mirror_entity :: "'d site \<Rightarrow> ledger \<Rightarrow> pages option \<Rightarrow> (str, entity_row) dict \<Rightarrow> (str, entry_doc) dict \<Rightarrow> entity \<Rightarrow> unit act" where
  "mirror_entity s l read rows docs e =
     bnd (if inactive e then ret None
          else bnd (personal_text s read e) (\<lambda>t. ret (Some (t @ render True e l)))) (\<lambda>body.
     bnd (if dget rows (en_id e) = Some (entity_row_of e) then ret ()
          else execute s (on_more (\<lambda>m. m\<lparr>mt_entities := dict_set (mt_entities m) (en_id e) (entity_row_of e)\<rparr>))) (\<lambda>u.
     case body of
       None \<Rightarrow> execute s (on_more (\<lambda>m. m\<lparr>mt_entity_docs := dict_pop (mt_entity_docs m) (en_id e)\<rparr>))
     | Some t \<Rightarrow>
         let doc = \<lparr>ed_path = en_path e, ed_title = en_name e, ed_body = t, ed_version = int_str (en_version e)\<rparr>
         in if dget docs (en_id e) = Some doc then ret ()
            else execute s (on_more (\<lambda>m. m\<lparr>mt_entity_docs := dict_set (mt_entity_docs m) (en_id e) doc\<rparr>))))"

definition mirror_catalog :: "'d site \<Rightarrow> ledger \<Rightarrow> pages option \<Rightarrow> unit act" where
  "mirror_catalog s l read =
     (let ids = dkeys (lg_entities l)
      in transaction s (
        bnd (execute s (on_more (\<lambda>m. m\<lparr>mt_entities := listed_only ids (mt_entities m)\<rparr>))) (\<lambda>u.
        bnd (execute s (on_more (\<lambda>m. m\<lparr>mt_entity_docs := listed_only ids (mt_entity_docs m)\<rparr>))) (\<lambda>u.
        bnd (query s (\<lambda>b. mt_entities (db_more b))) (\<lambda>rows.
        bnd (query s (\<lambda>b. mt_entity_docs (db_more b))) (\<lambda>docs.
        each_do (mirror_entity s l read rows docs) (map snd (lg_entities l))))))))"

section \<open>The refresh\<close>

text \<open>\<open>notes\<close>: the reviewed notes in order, as the mirror has them.\<close>

definition reviewed_refs :: "db \<Rightarrow> note_ref list" where
  "reviewed_refs b = List.map_filter (\<lambda>(i, r).
     if mc_reviewed (r_cols r) \<and> r_state r = U ''ok''
     then Some \<lparr>nr_id = i, nr_title = (case r_title r of None \<Rightarrow> r_path r | Some [] \<Rightarrow> r_path r | Some t \<Rightarrow> t),
       nr_path = r_path r, nr_hash = r_hash r, nr_frontmatter = r_frontmatter r\<rparr>
     else None) (db_rows b)"

definition observe_one :: "'d site \<Rightarrow> dossier_lib \<Rightarrow> str \<Rightarrow> ledger \<times> pages \<Rightarrow> (ledger \<times> pages) act" where
  "observe_one s de i st =
     (case st of (l, read) \<Rightarrow> case entity_at l i of None \<Rightarrow> ret (l, read)
      | Some e \<Rightarrow> bnd (attempt (observe_page s de l e)) (\<lambda>r.
          ret (case r of
            Inl x \<Rightarrow> (troubled ''Dossier page identity, delimiter or path needs repair'' i l, read)
          | Inr (l, raw) \<Rightarrow> (l, dict_set read i raw))))"

definition context_of :: "store_files \<Rightarrow> string \<Rightarrow> fmap" where
  "context_of f name = (case dget (fl_context f) (U name) of None \<Rightarrow> [] | Some d \<Rightarrow> d)"

definition migrate :: "'d site \<Rightarrow> dossier_lib \<Rightarrow> ledger \<Rightarrow> ledger act" where
  "migrate s de l =
     bnd (own_step s (\<lambda>w. (context_of (w_files w) ''dossiers'', w))) (\<lambda>old.
     bnd (own_step s (\<lambda>w. (context_of (w_files w) ''contact_corrections'', w))) (\<lambda>corrections.
     bnd (now_at s) (\<lambda>now. bnd step_number (\<lambda>n. ret (migrated_ledger de n now old corrections l)))))"

definition refresh_locked :: "'d site \<Rightarrow> dossier_lib \<Rightarrow> ledger \<Rightarrow> ledger act" where
  "refresh_locked s de before =
     bnd (purge_pending s) (\<lambda>p. bnd (demand (\<not> p) (refused ''Finish or abandon the interrupted retention purge first'')) (\<lambda>u.
     bnd (each_in (observe_one s de) (dkeys (lg_entities before)) (before, [])) (\<lambda>(l, read).
     bnd (bnd begin_tx (\<lambda>u. query s reviewed_refs)) (\<lambda>notes.
     bnd (now_at s) (\<lambda>now. bnd step_number (\<lambda>n.
     bnd (of_sum (contribute (st_uc s) (st_objects s) de (de_fresh de n) now (mail_keys_of (de_fields de n)) notes l)) (\<lambda>l.
     bnd (migrate s de l) (\<lambda>l.
     bnd (project_all s de (l, Some read)) (\<lambda>(l, read).
     bnd (if l = before then ret l else save_catalog s l) (\<lambda>l.
     bnd (mirror_catalog s l read) (\<lambda>u. ret l)))))))))))"

definition refresh :: "'d site \<Rightarrow> dossier_lib \<Rightarrow> unit act" where
  "refresh s de =
     bnd (purge_pending s) (\<lambda>p. if p then ret () else
     bnd (load_catalog s) (\<lambda>l. bnd (refresh_locked s de l) (\<lambda>l. ret ())))"

end
