(* ===== verification/DossierService.thy ===== *)
theory DossierService
  imports DossierPages
begin

text \<open>
  The operations of \<open>EntityService\<close>: listing, reading, creating and changing dossiers, following a filed
  note, and the purge, with what a retention preview says of dossiers.
\<close>

definition free_of_purge :: "'d site \<Rightarrow> unit act" where
  "free_of_purge s = bnd (purge_pending s) (\<lambda>p. demand (\<not> p) (refused ''Finish or abandon the interrupted retention purge first''))"

section \<open>Reading\<close>

record entity_query =
  eq_kind :: "entity_kind option"
  eq_text :: str
  eq_alias :: "str option"
  eq_relationship :: "str option"
  eq_target :: "str option"
  eq_cursor :: "str option"
  eq_limit :: nat
  eq_retired :: bool

definition query_signature :: "dossier_lib \<Rightarrow> entity_query \<Rightarrow> str" where
  "query_signature de q = take 16 (de_digest de (PMap
     [(U ''kind'', (case eq_kind q of None \<Rightarrow> PNone | Some k \<Rightarrow> PStr (kind_text k))), (U ''q'', PStr (eq_text q)),
      (U ''alias'', optional_str (eq_alias q)), (U ''relationship'', optional_str (eq_relationship q)),
      (U ''target'', optional_str (eq_target q)), (U ''retired'', PBool (eq_retired q))]))"

definition entity_matches :: "unicode \<Rightarrow> ledger \<Rightarrow> entity_query \<Rightarrow> entity \<Rightarrow> bool" where
  "entity_matches uc l q e \<longleftrightarrow>
     inactive e = eq_retired q \<and>
     (case eq_kind q of None \<Rightarrow> True | Some k \<Rightarrow> en_kind e = k) \<and>
     (or_empty (eq_alias q) = [] \<or> list_ex (\<lambda>a. casefold uc a = casefold uc (or_empty (eq_alias q))) (en_aliases e)) \<and>
     has_infix (casefold uc (eq_text q)) (casefold uc (join (U '' '') (en_name e # en_aliases e @ en_emails e))) \<and>
     (or_empty (eq_relationship q) = [] \<and> or_empty (eq_target q) = [] \<or>
      list_ex (\<lambda>f. (or_empty (eq_relationship q) = [] \<or> fc_predicate f = or_empty (eq_relationship q)) \<and>
                   (or_empty (eq_target q) = [] \<or> fc_target f = Some (or_empty (eq_target q)))) (active_facts e l))"

definition entities_page :: "unicode \<Rightarrow> dossier_lib \<Rightarrow> ledger \<Rightarrow> entity_query \<Rightarrow> str \<Rightarrow> entity list \<times> str option" where
  "entities_page uc de l q after =
     (let items = map public (filter (\<lambda>e. after < en_id e \<and> entity_matches uc l q e) (sort_key en_id (map snd (lg_entities l))))
      in (take (eq_limit q) items,
          if eq_limit q < length items
          then Some (query_signature de q @ U '':'' @ en_id (last (take (eq_limit q) items))) else None))"

definition list_entities :: "'d site \<Rightarrow> dossier_lib \<Rightarrow> entity_query \<Rightarrow> (entity list \<times> str option) act" where
  "list_entities s de q =
     bnd (free_of_purge s) (\<lambda>u. bnd (load_catalog s) (\<lambda>l.
     case eq_cursor q of
       Some (c # cs) \<Rightarrow>
         (case partition_on 58 (c # cs) of (prefix, found, after) \<Rightarrow>
            if prefix \<noteq> query_signature de q then raise_exn (refused ''cursor belongs to different entity filters'')
            else ret (entities_page (st_uc s) de l q after))
     | _ \<Rightarrow> ret (entities_page (st_uc s) de l q [])))"

definition get_entity :: "'d site \<Rightarrow> str \<Rightarrow> (entity \<times> str) act" where
  "get_entity s i =
     bnd (free_of_purge s) (\<lambda>u. bnd (load_catalog s) (\<lambda>l.
     case entity_at l i of None \<Rightarrow> raise_exn (Typed (NotFoundNote i))
     | Some e \<Rightarrow> bnd (personal_text s None e) (\<lambda>t. ret (public e, t))))"

section \<open>Creating and changing\<close>

text \<open>What every operation ends with: save, project, save, mirror.\<close>

definition published :: "'d site \<Rightarrow> dossier_lib \<Rightarrow> str list \<Rightarrow> ledger \<Rightarrow> ledger act" where
  "published s de ids l =
     bnd (save_catalog s l) (\<lambda>l.
     bnd (each_in (project s de) ids (l, None)) (\<lambda>(l, read).
     bnd (save_catalog s l) (\<lambda>l.
     bnd (mirror_catalog s l None) (\<lambda>u. ret l))))"

definition answered :: "str \<Rightarrow> ledger \<Rightarrow> entity act" where
  "answered i l = (case entity_at l i of None \<Rightarrow> raise_exn PyFault | Some e \<Rightarrow> ret (public e))"

definition create_entity :: "'d site \<Rightarrow> dossier_lib \<Rightarrow> entity_input \<Rightarrow> entity act" where
  "create_entity s de rq =
     bnd (free_of_purge s) (\<lambda>u. bnd (load_catalog s) (\<lambda>l.
     bnd step_number (\<lambda>n. bnd (now_at s) (\<lambda>now.
     bnd (of_sum (make_dossier (st_uc s) de (de_fresh de n 0) rq False l)) (\<lambda>(e, l).
     bnd (published s de [en_id e] (with_receipt de now e ''created'' [] l)) (\<lambda>l. answered (en_id e) l))))))"

text \<open>The change of one dossier, before its receipt.\<close>

definition quoted :: "document \<Rightarrow> quoted_note" where
  "quoted d = \<lparr>qn_id = dc_id d, qn_path = dc_path d, qn_hash = dc_hash d, qn_body = dc_body d, qn_frontmatter = dc_frontmatter d\<rparr>"

definition claim_checked :: "'d site \<Rightarrow> entity_change \<Rightarrow> quoted_note act" where
  "claim_checked s c =
     bnd (demand (or_empty (ec_note c) \<noteq> [] \<and> strip (ec_quote c) \<noteq> [])
            (refused ''claims need a reviewed note and an exact prose quotation'')) (\<lambda>u.
     bnd (get_note s (or_empty (ec_note c))) (\<lambda>d.
     bnd (demand (fget (dc_frontmatter d) (role (st_schema s) ''reviewed_key'') = PBool True \<and> has_infix (ec_quote c) (dc_body d))
            (refused ''claim evidence must quote the current reviewed note'')) (\<lambda>u. ret (quoted d))))"

definition restored :: "'d site \<Rightarrow> entity \<Rightarrow> entity act" where
  "restored s e =
     bnd (demand (en_redirect e = None) (refused ''merged IDs remain redirects; preview a split to separate facts'')) (\<lambda>u.
     bnd (of_sum (safe_path (en_path e))) (\<lambda>p.
     bnd (there s p) (\<lambda>here.
     let e = e\<lparr>en_retired := None\<rparr>
     in ret (if here then e else e\<lparr>en_generated := None, en_pending := None\<rparr>))))"

definition changed_entity :: "'d site \<Rightarrow> dossier_lib \<Rightarrow> entity_change \<Rightarrow> ledger \<Rightarrow> entity \<Rightarrow> entity act" where
  "changed_entity s de c l e =
     bnd (now_at s) (\<lambda>now. bnd step_number (\<lambda>n.
     (case ec_action c of
        RenameIt \<Rightarrow> (case single_line (or_empty (ec_name c)) of None \<Rightarrow> raise_exn PyFault | Some v \<Rightarrow> ret (e\<lparr>en_name := v\<rparr>))
      | AliasesOf \<Rightarrow> of_sum (relabelled de c l e)
      | ClaimFact \<Rightarrow> bnd (claim_checked s c) (\<lambda>q.
          ret (e\<lparr>en_facts := en_facts e @ [claimed_fact (st_objects s) now (de_fresh de n 0) c q]\<rparr>))
      | CorrectFact \<Rightarrow> ret (corrected (st_hash s) now (de_fresh de n 0) c e)
      | WithdrawFact \<Rightarrow> ret (e\<lparr>en_facts := update_first (or_empty (ec_fact c)) withdrawn (en_facts e)\<rparr>)
      | RetireIt \<Rightarrow> ret (e\<lparr>en_retired := Some now\<rparr>)
      | RestoreIt \<Rightarrow> restored s e
      | _ \<Rightarrow> ret e)))"

datatype change_answer = Previewed str pyval int | Changed entity

definition identity_change :: "'d site \<Rightarrow> dossier_lib \<Rightarrow> ledger \<Rightarrow> entity \<Rightarrow> entity_change \<Rightarrow> change_answer act" where
  "identity_change s de l e c =
     bnd (of_sum (identity_checked de l e c)) (\<lambda>token.
     if ec_action c = MergePreview \<or> ec_action c = SplitPreview
     then ret (Previewed token (preview_of l e c) (en_version e))
     else bnd (now_at s) (\<lambda>now. bnd step_number (\<lambda>n.
          bnd (of_sum (identity_applied (st_uc s) de now (de_fresh de n 0) e c token l)) (\<lambda>(t, l).
          bnd (published s de (dkeys (lg_entities l)) l) (\<lambda>l. bnd (answered t l) (\<lambda>e. ret (Changed e)))))))"

definition is_identity :: "change_action \<Rightarrow> bool" where
  "is_identity a \<longleftrightarrow> a \<in> {MergePreview, MergeThem, SplitPreview, SplitIt}"

definition change_entity :: "'d site \<Rightarrow> dossier_lib \<Rightarrow> str \<Rightarrow> entity_change \<Rightarrow> change_answer act" where
  "change_entity s de i c =
     bnd (load_catalog s) (\<lambda>l. bnd (refresh_locked s de l) (\<lambda>l.
     case entity_at l i of None \<Rightarrow> raise_exn (Typed (NotFoundNote i))
     | Some e \<Rightarrow>
         bnd (demand (en_version e = ec_version c) (Typed (VersionConflict (int_str (en_version e))))) (\<lambda>u.
         bnd (demand (\<not> inactive e \<or> ec_action c = RestoreIt) (refused ''restore this dossier before changing it'')) (\<lambda>u.
         if is_identity (ec_action c) then identity_change s de l e c
         else bnd (demand (ec_action c \<notin> {CorrectFact, WithdrawFact} \<or> fact_named e (ec_fact c) \<noteq> None)
                     (refused ''fact_id must name a fact on this dossier'')) (\<lambda>u.
              bnd (demand (active_target l (ec_target c)) (refused ''target must name an active dossier'')) (\<lambda>u.
              bnd (changed_entity s de c l e) (\<lambda>e.
              bnd (now_at s) (\<lambda>now.
              bnd (published s de [i] (with_receipt de now e (action_name (ec_action c)) [(U ''fact_id'', optional_str (ec_fact c))] l)) (\<lambda>l.
              bnd (answered i l) (\<lambda>e. ret (Changed e)))))))))))"

section \<open>Following a filed note\<close>

text \<open>A rewrite by the Store carries the claims whose quotation is still there to the new bytes.\<close>

definition carried :: "quoted_note \<Rightarrow> str \<Rightarrow> dossier_fact \<Rightarrow> bool" where
  "carried n before f \<longleftrightarrow>
     (let ev = fc_evidence f
      in ev_note ev = Some (qn_id n) \<and> ev_hash ev = before \<and> (ev_quote ev = [] \<or> has_infix (ev_quote ev) (qn_body n)))"

definition carry_fact :: "quoted_note \<Rightarrow> str \<Rightarrow> dossier_fact \<Rightarrow> dossier_fact" where
  "carry_fact n before f =
     (if carried n before f then f\<lparr>fc_evidence := (fc_evidence f)\<lparr>ev_hash := qn_hash n, ev_path := qn_path n\<rparr>\<rparr> else f)"

definition carry_entity :: "quoted_note \<Rightarrow> str \<Rightarrow> entity \<Rightarrow> entity" where
  "carry_entity n before e =
     e\<lparr>en_facts := map (carry_fact n before) (en_facts e),
       en_version := en_version e + int (length (filter (carried n before) (en_facts e)))\<rparr>"

definition carries_any :: "quoted_note \<Rightarrow> str \<Rightarrow> ledger \<Rightarrow> bool" where
  "carries_any n before l \<longleftrightarrow> list_ex (\<lambda>(i, e). list_ex (carried n before) (en_facts e)) (lg_entities l)"

definition follow_note :: "'d site \<Rightarrow> quoted_note \<Rightarrow> str \<Rightarrow> unit act" where
  "follow_note s n before =
     bnd (purge_pending s) (\<lambda>p. if p then ret () else
     bnd (load_catalog s) (\<lambda>l.
     if carries_any n before l
     then bnd (save_catalog s (map_entities (carry_entity n before) l)) (\<lambda>l. ret ()) else ret ()))"

section \<open>The purge\<close>

definition context_step :: "'d site \<Rightarrow> ((str, fmap) dict \<Rightarrow> (str, fmap) dict) \<Rightarrow> unit act" where
  "context_step s f = own_step s (\<lambda>w. ((), w\<lparr>w_files := (w_files w)\<lparr>fl_context := f (fl_context (w_files w))\<rparr>\<rparr>))"

definition without_keys :: "str list \<Rightarrow> fmap \<Rightarrow> fmap" where
  "without_keys ids d = filter (\<lambda>(k, v). k \<notin> set ids) d"

definition forget_in :: "str list \<Rightarrow> string \<Rightarrow> (str, fmap) dict \<Rightarrow> (str, fmap) dict" where
  "forget_in ids name d = dict_set d (U name) (without_keys ids (case dget d (U name) of None \<Rightarrow> [] | Some r \<Rightarrow> r))"

text \<open>The files of a folder whose record names one of the notes.\<close>

definition drop_about :: "string \<Rightarrow> str list \<Rightarrow> (str, fmap) dict \<Rightarrow> (str, fmap) dict" where
  "drop_about folder ids d = filter (\<lambda>(k, r). \<not> (startswith k (U folder) \<and> names_any ids r ''note_id'')) d"

definition project_purged :: "'d site \<Rightarrow> dossier_lib \<Rightarrow> str \<Rightarrow> ledger \<times> pages option \<Rightarrow> (ledger \<times> pages option) act" where
  "project_purged s de i st =
     bnd (project s de i st) (\<lambda>(l, read).
     ret (case entity_at l i of None \<Rightarrow> l
        | Some e \<Rightarrow> if en_retired e = None then l else set_entity (e\<lparr>en_generated := None, en_pending := None\<rparr>) l, read))"

definition purge_dossiers :: "'d site \<Rightarrow> dossier_lib \<Rightarrow> str list \<Rightarrow> str list \<Rightarrow> str \<Rightarrow> unit act" where
  "purge_dossiers s de note_ids entity_ids token =
     bnd (load_catalog s) (\<lambda>l.
     if purge_done token l then ret ()
     else bnd (now_at s) (\<lambda>now.
          let l = scrubbed de now note_ids entity_ids l in
          bnd (each_do (\<lambda>name. context_step s (forget_in note_ids name)) [''finalized'', ''associations'', ''calendar-followups'']) (\<lambda>u.
          bnd (each_do (\<lambda>i. context_step s (\<lambda>d. dict_pop d (U ''review-completions/'' @ i))) note_ids) (\<lambda>u.
          bnd (context_step s (drop_about ''association-corrections/'' note_ids)) (\<lambda>u.
          bnd (context_step s (drop_about ''jobs/'' note_ids)) (\<lambda>u.
          bnd (context_step s (\<lambda>d. dict_set d (U ''dossiers'') [])) (\<lambda>u.
          bnd (save_catalog s l) (\<lambda>l.
          bnd (each_in (project_purged s de) (dkeys (lg_entities l)) (l, None)) (\<lambda>(l, read).
          bnd (save_catalog s (add_receipt [(U ''purge'', PStr token)] l)) (\<lambda>l. ret ()))))))))))"

subsection \<open>What a preview lists\<close>

definition unsupported :: "str list \<Rightarrow> entity \<Rightarrow> bool" where
  "unsupported note_ids e \<longleftrightarrow>
     en_automatic e \<and> \<not> en_personal e \<and> en_redirect e = None \<and> en_facts e \<noteq> [] \<and>
     list_all (\<lambda>f. fc_origin f \<noteq> FromCorrection \<and> (case ev_note (fc_evidence f) of None \<Rightarrow> False | Some i \<Rightarrow> i \<in> set note_ids)) (en_facts e)"

definition long_retired :: "int \<Rightarrow> entity \<Rightarrow> bool" where
  "long_retired cutoff e \<longleftrightarrow> (case en_retired e of None \<Rightarrow> False | Some t \<Rightarrow> t \<le> cutoff)"

text \<open>A page with writing of its owner, or a block the service did not write, keeps an unsupported dossier.\<close>

definition page_is_generated :: "'d yaml_lib \<Rightarrow> entity \<Rightarrow> str \<Rightarrow> bool" where
  "page_is_generated y e t =
     (case cut_once BLOCK_MARK t of None \<Rightarrow> False
      | Some (head, block) \<Rightarrow> (case owner_wrote y head of Inl x \<Rightarrow> False
          | Inr own \<Rightarrow> \<not> own \<and> (Some block = en_generated e \<or> Some block = en_pending e)))"

definition entity_candidate :: "entity \<Rightarrow> purge_candidate" where
  "entity_candidate e = \<lparr>pc_kind = EntityItem, pc_id = en_id e, pc_title = en_name e, pc_path = en_path e, pc_origins = [U ''Dossiers''],
     pc_providers = [U ''Local notes''], pc_deleted = en_retired e, pc_leftover = False, pc_reason = None\<rparr>"

text \<open>The volumes a purge touches are folders of the one disk.\<close>

definition area_root :: "purge_area \<Rightarrow> str" where
  "area_root a = (case a of NotesArea \<Rightarrow> [] | SourcesArea \<Rightarrow> SOURCES | ArtifactsArea \<Rightarrow> U ''/artifacts'' | StateArea \<Rightarrow> U ''/state'')"

definition area_path :: "purge_area \<Rightarrow> str \<Rightarrow> str" where
  "area_path a p = path_join (area_root a) p"

definition hashed_file :: "'d site \<Rightarrow> doc_lib \<Rightarrow> purge_area \<Rightarrow> str \<Rightarrow> purge_file act" where
  "hashed_file s dl a p =
     bnd (of_sum (safe_path p)) (\<lambda>q.
     bnd (catching (read_page s (area_path a q)) (\<lambda>e. raise_exn (if e = FileMissing then PyFault else e))) (\<lambda>b.
     ret \<lparr>pf_area = a, pf_path = p, pf_hash = dl_sha dl b\<rparr>))"

definition entity_item :: "'d site \<Rightarrow> doc_lib \<Rightarrow> (entity \<Rightarrow> str) \<Rightarrow> entity \<Rightarrow> str option \<Rightarrow> purge_item act" where
  "entity_item s dl fingerprint e page =
     bnd (case page of None \<Rightarrow> ret [] | Some p \<Rightarrow> bnd (hashed_file s dl NotesArea p) (\<lambda>f. ret [f])) (\<lambda>files.
     ret \<lparr>pi_candidate = entity_candidate e, pi_row = Some (fingerprint e), pi_opening = None, pi_files = files, pi_dirs = []\<rparr>)"

definition purge_item_of :: "'d site \<Rightarrow> doc_lib \<Rightarrow> (entity \<Rightarrow> str) \<Rightarrow> int \<Rightarrow> str list \<Rightarrow> entity \<Rightarrow> purge_item list \<Rightarrow> purge_item list act" where
  "purge_item_of s dl fingerprint cutoff note_ids e found =
     (if \<not> long_retired cutoff e \<and> \<not> unsupported note_ids e then ret found
      else bnd (of_sum (safe_path (en_path e))) (\<lambda>p.
           bnd (there s p) (\<lambda>here.
           bnd (if unsupported note_ids e \<and> \<not> long_retired cutoff e \<and> here
                then bnd (read_page s p) (\<lambda>b. case decode b of None \<Rightarrow> raise_exn PyFault
                  | Some t \<Rightarrow> ret (page_is_generated (st_yaml s) e (universal_newlines t))) else ret True) (\<lambda>listed.
           if \<not> listed then ret found
           else bnd (entity_item s dl fingerprint e (if here then Some p else None)) (\<lambda>item. ret (found @ [item]))))))"

definition entity_items :: "'d site \<Rightarrow> doc_lib \<Rightarrow> (entity \<Rightarrow> str) \<Rightarrow> int \<Rightarrow> str list \<Rightarrow> purge_item list act" where
  "entity_items s dl fingerprint cutoff note_ids =
     bnd (load_catalog s) (\<lambda>l. each_in (purge_item_of s dl fingerprint cutoff note_ids) (map snd (lg_entities l)) [])"

end
