(* ===== verification/DossierInv.thy ===== *)
theory DossierInv
  imports DossierService DossierTextLaws
begin

text \<open>
  The catalog as a state machine: every way the service changes it is a step, and the catalogs reached
  from the empty one keep their addresses apart and have no circle of redirects.
\<close>

section \<open>Looking up\<close>

lemma entity_at_set [simp]: "entity_at (set_entity e l) i = (if i = en_id e then Some e else entity_at l i)"
  by (simp add: entity_at_def set_entity_def)

lemma entity_at_map: "entity_at (map_entities f l) i = map_option f (entity_at l i)"
  by (simp add: entity_at_def map_entities_def map_of_map)

definition keyed :: "ledger \<Rightarrow> bool" where
  "keyed l \<longleftrightarrow> distinct (dkeys (lg_entities l)) \<and> list_all (\<lambda>(i, e). en_id e = i) (lg_entities l)"

lemma keyed_at: "keyed l \<Longrightarrow> entity_at l i = Some e \<Longrightarrow> en_id e = i"
  by (auto simp: keyed_def list_all_iff entity_at_def dest!: map_of_SomeD)

lemma keyed_in: "keyed l \<Longrightarrow> (i, e) \<in> set (lg_entities l) \<Longrightarrow> entity_at l i = Some e"
  by (simp add: keyed_def entity_at_def)

lemma list_all_dict_set: "list_all P d \<Longrightarrow> P (k, v) \<Longrightarrow> list_all P (dict_set d k v)"
  by (induction d k v rule: dict_set.induct) auto

lemma keyed_set [simp]: "keyed l \<Longrightarrow> keyed (set_entity e l)"
  by (simp add: keyed_def set_entity_def list_all_dict_set)

lemma keyed_map: "keyed l \<Longrightarrow> (\<And>e. en_id (f e) = en_id e) \<Longrightarrow> keyed (map_entities f l)"
  by (auto simp: keyed_def map_entities_def list_all_iff comp_def case_prod_unfold)

section \<open>Addresses and redirects\<close>

text \<open>\<open>holds l i a\<close>: the dossier \<open>i\<close> is no redirect and has the address \<open>a\<close>.\<close>

definition holds :: "ledger \<Rightarrow> str \<Rightarrow> str \<Rightarrow> bool" where
  "holds l i a \<longleftrightarrow> (case entity_at l i of None \<Rightarrow> False | Some e \<Rightarrow> en_redirect e = None \<and> a \<in> set (en_emails e))"

definition emails_apart :: "ledger \<Rightarrow> bool" where
  "emails_apart l \<longleftrightarrow> (\<forall>i j a. holds l i a \<longrightarrow> holds l j a \<longrightarrow> i = j)"

definition redirect_at :: "ledger \<Rightarrow> str \<Rightarrow> str option" where
  "redirect_at l i = (case entity_at l i of None \<Rightarrow> None | Some e \<Rightarrow> en_redirect e)"

inductive ends_at :: "ledger \<Rightarrow> str \<Rightarrow> bool" for l where
  here: "redirect_at l i = None \<Longrightarrow> ends_at l i"
| onward: "redirect_at l i = Some r \<Longrightarrow> ends_at l r \<Longrightarrow> ends_at l i"

definition settled :: "ledger \<Rightarrow> bool" where
  "settled l \<longleftrightarrow> (\<forall>i. ends_at l i)"

text \<open>The catalog is in order.\<close>

definition sound :: "ledger \<Rightarrow> bool" where
  "sound l \<longleftrightarrow> keyed l \<and> emails_apart l \<and> settled l"

lemma resolved_ends: "ends_at l i \<Longrightarrow> keyed l \<Longrightarrow> entity_at l i = Some e \<Longrightarrow> resolved l e \<noteq> None"
proof (induction arbitrary: e rule: ends_at.induct)
  case (here i)
  then show ?case by (subst resolved.simps) (simp add: redirect_at_def)
next
  case (onward i r)
  then show ?case
    by (subst resolved.simps) (auto simp: redirect_at_def split: option.split)
qed

lemma settled_fewer:
  assumes "settled l" and "\<And>i. redirect_at l' i = None \<or> redirect_at l' i = redirect_at l i"
  shows "settled l'"
proof -
  have "ends_at l' i" if "ends_at l i" for i
    using that
  proof (induction rule: ends_at.induct)
    case (here i)
    then show ?case using assms(2) [of i] by (auto intro: ends_at.here)
  next
    case (onward i r)
    then show ?case using assms(2) [of i] by (auto intro: ends_at.intros)
  qed
  with assms(1) show ?thesis by (simp add: settled_def)
qed

lemma settled_redirected:
  assumes "settled l" and "redirect_at l i = None" and "redirect_at l j = None" and "i \<noteq> j"
    and "\<And>k. redirect_at l' k = (if k = i then Some j else redirect_at l k)"
  shows "settled l'"
proof -
  have j: "ends_at l' j" using assms by (intro ends_at.here) simp
  have "ends_at l' k" if "ends_at l k" for k
    using that
  proof (induction rule: ends_at.induct)
    case (here k)
    then show ?case using assms(5) [of k] j by (cases "k = i") (auto intro: ends_at.intros)
  next
    case (onward k r)
    then have "redirect_at l' k = Some r" using assms(2) assms(5) [of k] by auto
    with onward show ?case by (auto intro: ends_at.intros)
  qed
  with assms(1) show ?thesis by (simp add: settled_def)
qed

text \<open>A change that grows neither the addresses nor the redirects.\<close>

lemma sound_fewer:
  assumes "sound l" and "keyed l'" and "\<And>i a. holds l' i a \<Longrightarrow> holds l i a"
    and "\<And>i. redirect_at l' i = None \<or> redirect_at l' i = redirect_at l i"
  shows "sound l'"
  using assms settled_fewer [of l l'] unfolding sound_def emails_apart_def by blast

lemma sound_touched:
  assumes "sound l" and "entity_at l (en_id e') = Some e" and "en_redirect e' = en_redirect e" and "set (en_emails e') \<subseteq> set (en_emails e)"
  shows "sound (set_entity e' l)"
  using assms by (intro sound_fewer [OF assms(1)]) (auto simp: sound_def holds_def redirect_at_def split: if_splits)

lemma sound_mapped:
  assumes "sound l" and "\<And>e. en_id (f e) = en_id e" and "\<And>e. en_emails (f e) = en_emails e" and "\<And>e. en_redirect (f e) = en_redirect e"
  shows "sound (map_entities f l)"
  using assms
  by (intro sound_fewer [OF assms(1)]) (auto simp: sound_def keyed_map holds_def redirect_at_def entity_at_map split: option.splits)

lemma sound_same: "sound l \<Longrightarrow> lg_entities l' = lg_entities l \<Longrightarrow> sound l'"
  by (rule sound_fewer) (auto simp: sound_def keyed_def holds_def redirect_at_def entity_at_def)

lemma apart_replaced:
  assumes "emails_apart l" and "\<And>j a. a \<in> A \<Longrightarrow> j \<noteq> i \<Longrightarrow> \<not> holds l j a"
    and "\<And>j a. holds l' j a \<Longrightarrow> (if j = i then a \<in> A else holds l j a)"
  shows "emails_apart l'"
  unfolding emails_apart_def
proof (intro allI impI)
  fix x y a assume h: "holds l' x a" "holds l' y a"
  show "x = y"
    using assms(3) [OF h(1)] assms(3) [OF h(2)] assms(2) [of a x] assms(2) [of a y] assms(1) [unfolded emails_apart_def, rule_format, of x a y]
    by (auto split: if_splits)
qed

section \<open>Making a dossier\<close>

lemma held_emails_holds: "keyed l \<Longrightarrow> holds l i a \<Longrightarrow> a \<in> set (held_emails l)"
  by (force simp: holds_def held_emails_def entity_at_def split: option.splits dest: map_of_SomeD)

lemma make_sound:
  assumes "sound l" and "make_dossier uc de i rq automatic l = Inr (e, l')" and "entity_at l i = None"
  shows "sound l' \<and> l' = set_entity e l \<and> en_id e = i \<and> en_redirect e = None \<and> en_facts e = []"
proof -
  have e: "l' = set_entity e l" "en_id e = i" "en_redirect e = None" "en_facts e = []"
    and new: "\<forall>a \<in> set (en_emails e). a \<notin> set (held_emails l)"
    using assms(2) by (auto simp: make_dossier_def Let_def list_ex_iff split: if_splits)
  have k: "keyed l" using assms(1) by (simp add: sound_def)
  have free: "\<not> holds l j a" if "a \<in> set (en_emails e)" for j a
    using new that held_emails_holds [OF k] by blast
  have at: "holds l' j a \<Longrightarrow> (if j = i then a \<in> set (en_emails e) else holds l j a)" for j a
    using e by (auto simp: holds_def split: if_splits)
  have "emails_apart l" using assms(1) by (simp add: sound_def)
  from apart_replaced [OF this free at] have "emails_apart l'" .
  moreover have "settled l'"
  proof (rule settled_fewer)
    show "settled l" using assms(1) by (simp add: sound_def)
    show "redirect_at l' j = None \<or> redirect_at l' j = redirect_at l j" for j
      using e by (simp add: redirect_at_def)
  qed
  ultimately show ?thesis using e k by (simp add: sound_def)
qed

section \<open>What notes contribute\<close>

definition runs :: "('s \<Rightarrow> bool) \<Rightarrow> exn + 's \<Rightarrow> bool" where
  "runs P r \<longleftrightarrow> (case r of Inl e \<Rightarrow> e \<noteq> Diverges | Inr x \<Rightarrow> P x)"

lemma runs_simps [simp]: "runs P (Inl e) \<longleftrightarrow> e \<noteq> Diverges" "runs P (Inr x) \<longleftrightarrow> P x"
  by (simp_all add: runs_def)

lemma runs_sbind: "runs Q r \<Longrightarrow> (\<And>x. Q x \<Longrightarrow> runs P (f x)) \<Longrightarrow> runs P (sbind r f)"
  by (cases r) auto

lemma each_of_runs: "(\<And>x st. P st \<Longrightarrow> runs P (f x st)) \<Longrightarrow> P st \<Longrightarrow> runs P (each_of f xs st)"
  by (induction xs arbitrary: st) (auto intro: runs_sbind)

definition mentions_sound :: "(nat \<Rightarrow> str) \<Rightarrow> mention_state \<Rightarrow> bool" where
  "mentions_sound fresh st \<longleftrightarrow> sound (ms_ledger st) \<and> (\<forall>k \<ge> ms_made st. entity_at (ms_ledger st) (fresh k) = None)"

lemma mention_runs:
  assumes "mentions_sound fresh st" and "\<And>e'. e = Some e' \<Longrightarrow> entity_at (ms_ledger st) (en_id e') = Some e'"
  shows "runs (mentions_sound fresh) (mention e st)"
proof (cases e)
  case (Some e')
  have "resolved (ms_ledger st) e' \<noteq> None"
    using assms Some by (intro resolved_ends [where i = "en_id e'"]) (auto simp: mentions_sound_def sound_def settled_def)
  with assms(1) Some show ?thesis by (auto simp: mention_def mentions_sound_def split: option.split)
qed (use assms in \<open>simp add: mention_def\<close>)

lemma at_keyed: "mentions_sound fresh st \<Longrightarrow> entity_at (ms_ledger st) i = Some e \<Longrightarrow> entity_at (ms_ledger st) (en_id e) = Some e"
  using keyed_at by (fastforce simp: mentions_sound_def sound_def)

lemma from_address_runs:
  assumes "mentions_sound fresh st" and "inj fresh"
  shows "runs (\<lambda>(e, st'). mentions_sound fresh st' \<and> (\<forall>e'. e = Some e' \<longrightarrow> entity_at (ms_ledger st') (en_id e') = Some e'))
    (from_address uc de fresh a st)"
proof -
  have new: "entity_at (ms_ledger st) (fresh (ms_made st)) = None" and s: "sound (ms_ledger st)"
    using assms(1) by (auto simp: mentions_sound_def)
  have "runs (\<lambda>(e, l). mentions_sound fresh (st\<lparr>ms_ledger := l, ms_emails := d e, ms_made := Suc (ms_made st)\<rparr>) \<and> entity_at l (en_id e) = Some e)
      (make_dossier uc de (fresh (ms_made st)) rq True (ms_ledger st))" for d rq
  proof (cases "make_dossier uc de (fresh (ms_made st)) rq True (ms_ledger st)")
    case (Inl x)
    then show ?thesis by (auto simp: make_dossier_def refused_def Let_def split: if_splits)
  next
    case (Inr p)
    then obtain e l where p: "p = (e, l)" by fastforce
    from make_sound [OF s Inr [unfolded p] new]
    have "sound l" "l = set_entity e (ms_ledger st)" "en_id e = fresh (ms_made st)" by auto
    with assms Inr p show ?thesis by (auto simp: mentions_sound_def inj_eq)
  qed
  then show ?thesis
    using assms(1) at_keyed [OF assms(1)]
    by (auto simp: from_address_def split: option.split intro!: runs_sbind)
qed

lemma read_mention_runs:
  assumes "mentions_sound fresh st" and "inj fresh"
  shows "runs (mentions_sound fresh) (read_mention uc de fresh paths mails v st)"
proof -
  have a: "runs (mentions_sound fresh) (sbind (from_address uc de fresh a st) (\<lambda>(e, st'). mention e st'))" for a
    by (rule runs_sbind [OF from_address_runs [OF assms]]) (auto intro: mention_runs)
  show ?thesis
    using assms(1) a at_keyed [OF assms(1)]
    by (auto simp: read_mention_def split: pyval.split option.split intro!: mention_runs)
qed

lemma add_mentions_sound:
  "sound l \<Longrightarrow> sound (foldl (add_mention ob de now n) l is) \<and>
     (\<forall>i. entity_at (foldl (add_mention ob de now n) l is) i = None \<longleftrightarrow> entity_at l i = None)"
proof (induction "is" arbitrary: l)
  case (Cons i "is")
  have "sound (add_mention ob de now n l i) \<and> (\<forall>j. entity_at (add_mention ob de now n l i) j = None \<longleftrightarrow> entity_at l j = None)"
  proof (cases "entity_at l i")
    case (Some e)
    then have "en_id e = i" using Cons.prems keyed_at by (auto simp: sound_def)
    with Some Cons.prems show ?thesis
      by (auto simp: add_mention_def newer_def intro!: sound_touched)
  qed (use Cons.prems in \<open>simp add: add_mention_def\<close>)
  with Cons.IH [of "add_mention ob de now n l i"] show ?case by simp
qed simp

lemma read_note_runs:
  assumes "mentions_sound fresh st" and "inj fresh"
  shows "runs (mentions_sound fresh) (read_note_ref uc ob de fresh now paths mail_keys n st)"
proof -
  have "runs (mentions_sound fresh) (read_field uc de fresh paths mail_keys p st)" if "mentions_sound fresh st" for p st
    using that assms(2) by (auto simp: read_field_def split: pyval.split intro!: each_of_runs read_mention_runs)
  then have "runs (mentions_sound fresh) (each_of (read_field uc de fresh paths mail_keys) (nr_frontmatter n) (st\<lparr>ms_mentions := []\<rparr>))"
    using assms(1) by (intro each_of_runs) (auto simp: mentions_sound_def)
  then show ?thesis
    unfolding read_note_ref_def by (rule runs_sbind) (auto simp: mentions_sound_def add_mentions_sound)
qed

lemma contribute_runs:
  assumes "sound l" and "inj fresh" and "\<And>k. entity_at l (fresh k) = None"
  shows "runs sound (contribute uc ob de fresh now mail_keys notes l)"
proof -
  have "runs (mentions_sound fresh) (each_of (read_note_ref uc ob de fresh now (by_page l) mail_keys) notes
      \<lparr>ms_ledger = l, ms_emails = by_email l, ms_made = 0, ms_mentions = []\<rparr>)"
    using assms by (intro each_of_runs read_note_runs) (auto simp: mentions_sound_def)
  then show ?thesis
    unfolding contribute_def
    by (rule runs_sbind) (auto simp: mentions_sound_def weigh_entity_def intro!: sound_mapped)
qed

section \<open>Merging and splitting\<close>

lemma set_union_sorted [simp]: "set (union_sorted xs ys) = set xs \<union> set ys"
  by (simp add: union_sorted_def)

lemma entity_at_merged:
  "en_id e \<noteq> en_id t \<Longrightarrow> entity_at (merge_into e t l) i = map_option (retarget (en_id e) (en_id t))
     (if i = en_id e then Some (e\<lparr>en_redirect := Some (en_id t)\<rparr>) else if i = en_id t then Some (absorb e t) else entity_at l i)"
  by (auto simp: merge_into_def entity_at_map absorb_def)

lemma merge_sound:
  assumes "sound l" and "entity_at l i = Some e" and "\<not> inactive e" and "merge_target l e c = Some t"
  shows "sound (merge_into e t l)"
proof -
  have k: "keyed l" using assms(1) by (simp add: sound_def)
  have e: "en_id e = i" using keyed_at [OF k assms(2)] .
  have t: "entity_at l (en_id t) = Some t" "en_id t \<noteq> i" "en_redirect t = None" and er: "en_redirect e = None"
    using assms(3,4) keyed_at [OF k] e by (auto simp: merge_target_def inactive_def split: option.splits if_splits)
  have at: "entity_at (merge_into e t l) j = map_option (retarget i (en_id t))
      (if j = i then Some (e\<lparr>en_redirect := Some (en_id t)\<rparr>) else if j = en_id t then Some (absorb e t) else entity_at l j)" for j
    using entity_at_merged [of e t l j] e t(2) by simp
  have keyed: "keyed (merge_into e t l)"
    using k by (auto simp: merge_into_def retarget_def intro!: keyed_map)
  have was: "\<exists>j'. holds l j' a \<and> (j' = j \<or> j = en_id t \<and> j' = i)" if "holds (merge_into e t l) j a" for j a
    using that at [of j] t er assms(2)
    by (auto simp: holds_def retarget_def absorb_def split: if_splits option.splits)
  have no: "\<not> holds (merge_into e t l) i a" for a
    using at [of i] by (simp add: holds_def retarget_def)
  have "emails_apart (merge_into e t l)"
    unfolding emails_apart_def
  proof (intro allI impI)
    fix j j' a assume h: "holds (merge_into e t l) j a" "holds (merge_into e t l) j' a"
    then have n: "j \<noteq> i" "j' \<noteq> i" using no by auto
    from was [OF h(1)] was [OF h(2)] n assms(1) show "j = j'"
      unfolding sound_def emails_apart_def by metis
  qed
  moreover have "settled (merge_into e t l)"
    by (rule settled_redirected [of l i "en_id t"])
      (use assms(1,2) t er at in \<open>auto simp: sound_def redirect_at_def retarget_def absorb_def split: option.splits\<close>)
  ultimately show ?thesis using keyed by (simp add: sound_def)
qed

lemma split_sound:
  assumes "sound l" and "entity_at l i = Some e" and "\<not> inactive e" and "entity_at l j = None" and "split_off uc de j e c l = Inr (t, l')"
  shows "sound l'"
proof -
  have k: "keyed l" using assms(1) by (simp add: sound_def)
  have e: "en_id e = i" "en_redirect e = None" using keyed_at [OF k assms(2)] assms(3) by (auto simp: inactive_def)
  obtain rq where rq: "entity_input_of (en_kind e) (or_empty (ec_name c)) [] [] = Some rq"
    using assms(5) by (auto simp: split_off_def split: option.splits)
  obtain n l1 where mk: "make_dossier uc de j rq False l = Inr (n, l1)"
    using assms(5) rq by (auto simp: split_off_def sbind_Inr_iff)
  from make_sound [OF assms(1) mk assms(4)]
  have n: "sound l1" "l1 = set_entity n l" "en_id n = j" "en_redirect n = None" by auto
  define moved where "moved = (case ec_emails c of None \<Rightarrow> [] | Some es \<Rightarrow> es)"
  have ij: "i \<noteq> j" using assms(2,4) by auto
  have own: "set moved \<subseteq> set (en_emails e)" and
    at: "entity_at l' x = (if x = j then Some (if moved = [] then n\<lparr>en_facts := selected_facts e c\<rparr>
        else n\<lparr>en_facts := selected_facts e c, en_emails := sort (remdups moved)\<rparr>)
      else if x = i then Some (e\<lparr>en_facts := map (\<lambda>f. if fc_id f \<in> set (ec_facts c) then withdrawn f else f) (en_facts e),
        en_emails := filter (\<lambda>a. a \<notin> set moved) (en_emails e)\<rparr>)
      else entity_at l x)" and keyed: "keyed l'" for x
    using assms(5) n e ij k unfolding split_off_def rq option.case mk sbind_simps prod.case moved_def [symmetric]
    by (auto simp: Let_def list_all_iff split: if_splits)
  have was: "holds l1 x a \<and> a \<notin> set moved \<or> x = j \<and> a \<in> set moved \<or> x \<notin> {i, j} \<and> holds l1 x a" if "holds l' x a" for x a
    using that at [of x] n e ij assms(2) by (auto simp: holds_def split: if_splits)
  have moved: "holds l1 i a" if "a \<in> set moved" for a
    using own that n e ij assms(2) by (auto simp: holds_def)
  have "emails_apart l'"
    unfolding emails_apart_def
  proof (intro allI impI)
    fix x x' a assume h: "holds l' x a" "holds l' x' a"
    from n(1) have one: "y = y'" if "holds l1 y a" "holds l1 y' a" for y y'
      using that by (auto simp: sound_def emails_apart_def)
    show "x = x'"
      using was [OF h(1)] was [OF h(2)] one moved by blast
  qed
  moreover have "settled l'"
  proof (rule settled_fewer [of l1])
    show "redirect_at l' x = None \<or> redirect_at l' x = redirect_at l1 x" for x
      using at [of x] n e ij assms(2) by (auto simp: redirect_at_def)
  qed (use n in \<open>simp add: sound_def\<close>)
  ultimately show ?thesis using keyed by (simp add: sound_def)
qed

lemma relabel_sound:
  assumes "sound l" and "entity_at l i = Some e" and "relabelled de c l e = Inr e'"
  shows "sound (set_entity e' l)"
proof -
  have k: "keyed l" and i: "en_id e = i" using assms(1,2) keyed_at by (auto simp: sound_def)
  have e': "en_id e' = i" "en_redirect e' = en_redirect e" and free: "\<forall>a \<in> set (en_emails e'). \<not> others_hold l i a"
    using assms(3) i by (auto simp: relabelled_def Let_def list_ex_iff split: option.splits if_splits)
  have free: "\<not> holds l j a" if "a \<in> set (en_emails e')" "j \<noteq> i" for j a
  proof
    assume "holds l j a"
    then obtain o' where "(j, o') \<in> set (lg_entities l)" "entity_at l j = Some o'" "en_redirect o' = None" "a \<in> set (en_emails o')"
      by (auto simp: holds_def entity_at_def split: option.splits dest: map_of_SomeD)
    with keyed_at [OF k] that free show False by (force simp: others_hold_def list_ex_iff)
  qed
  have at: "holds (set_entity e' l) j a \<Longrightarrow> (if j = i then a \<in> set (en_emails e') else holds l j a)" for j a
    using e' by (auto simp: holds_def split: if_splits)
  have "emails_apart l" using assms(1) by (simp add: sound_def)
  from apart_replaced [OF this free at] have "emails_apart (set_entity e' l)" .
  moreover have "settled (set_entity e' l)"
  proof (rule settled_fewer)
    show "settled l" using assms(1) by (simp add: sound_def)
    show "redirect_at (set_entity e' l) j = None \<or> redirect_at (set_entity e' l) j = redirect_at l j" for j
      using e' assms(2) by (simp add: redirect_at_def)
  qed
  ultimately show ?thesis using k by (simp add: sound_def)
qed

section \<open>Scrubbing\<close>

lemma map_of_kept: "map_of (filter (\<lambda>(k, v). k \<notin> S) d) i = (if i \<in> S then None else map_of d i)"
  by (induction d) auto

lemma entity_at_scrubbed:
  "entity_at (scrubbed de now ns es l) i =
     (if i \<in> set es then None else map_option (scrubbed_entity now ns es) (entity_at l i))"
  by (simp add: scrubbed_def entity_at_def Let_def map_of_map map_of_kept)

section \<open>The old contact view\<close>

text \<open>The two dossiers a new correction joins, by the addresses the catalog had before the corrections.\<close>

definition joined_by :: "dossier_lib \<Rightarrow> nat \<Rightarrow> (str, str) dict \<Rightarrow> pyval list \<Rightarrow> str \<times> pyval \<Rightarrow> (str \<times> str) option" where
  "joined_by de at mails migrated p =
     (case (snd p, sole_dossier mails (de_addresses de at (fst p))) of
        (PMap d, Some i) \<Rightarrow>
          if PStr (U ''contact:'' @ fst p @ U '':'' @ de_digest de (snd p)) \<in> set migrated \<or> field_text d ''same_as'' = [] then None
          else (case sole_dossier mails (de_addresses de at (field_text d ''same_as'')) of None \<Rightarrow> None
            | Some j \<Rightarrow> if i = j then None else Some (i, j))
      | _ \<Rightarrow> None)"

text \<open>No dossier is joined to two others, or to one that is joined away itself.\<close>

definition plain_joins :: "(str \<times> str) list \<Rightarrow> bool" where
  "plain_joins ps \<longleftrightarrow> distinct (map fst ps) \<and> set (map fst ps) \<inter> set (map snd ps) = {}"

lemma legacy_dossiers_entities: "lg_entities (legacy_dossiers mails migrated old l) = lg_entities l"
proof -
  have "lg_entities (foldl (\<lambda>l (k, r). if PStr k \<in> set migrated then l
        else case r of PMap d \<Rightarrow> (case fget d (U ''address'') of PStr a \<Rightarrow> (case dget mails a of None \<Rightarrow> l
               | Some i \<Rightarrow> add_receipt [(U ''legacy'', PStr k), (U ''entity_id'', PStr i)] l) | _ \<Rightarrow> l)
             | _ \<Rightarrow> l) l old) = lg_entities l" for l
    by (induction old arbitrary: l) (auto simp: add_receipt_def split: pyval.split option.split)
  then show ?thesis by (simp add: legacy_dossiers_def)
qed

lemma by_email_one:
  "dget (foldl (\<lambda>d a. dict_set d a i) d as) a = Some k \<Longrightarrow> k = i \<or> dget d a = Some k"
  by (induction as arbitrary: d) (fastforce split: if_splits)+

lemma by_email_in:
  "dget (foldl (\<lambda>d (i, e). if en_redirect e = None then foldl (\<lambda>d a. dict_set d a i) d (en_emails e) else d) d es) a = Some k \<Longrightarrow>
     dget d a = Some k \<or> (\<exists>e. (k, e) \<in> set es \<and> en_redirect e = None)"
proof (induction es arbitrary: d)
  case (Cons p es)
  obtain i e where p: "p = (i, e)" by fastforce
  from Cons.IH Cons.prems [unfolded p] show ?case
    by (fastforce simp: p split: if_splits dest: by_email_one)
qed simp

lemma by_email_live: "keyed l \<Longrightarrow> dget (by_email l) a = Some i \<Longrightarrow> redirect_at l i = None"
  using by_email_in [of "[]" "lg_entities l" a i] keyed_in [of l i] by (auto simp: by_email_def redirect_at_def)

lemma sole_live: "keyed l \<Longrightarrow> sole_dossier (by_email l) as = Some i \<Longrightarrow> redirect_at l i = None"
proof -
  assume k: "keyed l" and "sole_dossier (by_email l) as = Some i"
  then have "i \<in> set (List.map_filter (dget (by_email l)) as)"
    unfolding sole_dossier_def by (auto split: list.splits) (metis list.set_intros(1) set_remdups)
  then show ?thesis using by_email_live [OF k] by (auto simp: List.map_filter_def)
qed

lemma same_person_sound:
  assumes "sound l" and "entity_at l i = Some e" and "entity_at l j = Some t" and "i \<noteq> j"
    and "redirect_at l i = None" and "redirect_at l j = None"
  shows "sound (same_person e t l) \<and> (\<forall>k. redirect_at (same_person e t l) k = (if k = i then Some j else redirect_at l k))"
proof -
  have k: "keyed l" using assms(1) by (simp add: sound_def)
  have ids: "en_id e = i" "en_id t = j" using keyed_at [OF k] assms(2,3) by auto
  have red: "en_redirect e = None" "en_redirect t = None" using assms(2,3,5,6) by (auto simp: redirect_at_def)
  let ?l = "same_person e t l"
  have rd: "redirect_at ?l k = (if k = i then Some j else redirect_at l k)" for k
    using ids assms(3,4) red by (auto simp: same_person_def redirect_at_def newer_def)
  have was: "\<exists>j'. holds l j' a \<and> (j' = k \<or> k = j \<and> j' = i)" and no: "\<not> holds ?l i a" if "holds ?l k a" for k a
    using that ids assms(2-4) red by (auto simp: same_person_def holds_def newer_def split: if_splits option.splits)
  have "emails_apart ?l"
    unfolding emails_apart_def
  proof (intro allI impI)
    fix x x' a assume h: "holds ?l x a" "holds ?l x' a"
    have "\<not> holds ?l i a" by (rule no [OF h(1)])
    then have "x \<noteq> i" "x' \<noteq> i" using h by auto
    with was [OF h(1)] was [OF h(2)] assms(1) show "x = x'" unfolding sound_def emails_apart_def by metis
  qed
  moreover have "settled ?l"
    by (rule settled_redirected [OF _ assms(5,6,4) rd]) (use assms(1) in \<open>simp add: sound_def\<close>)
  moreover have "keyed ?l" using k by (simp add: same_person_def)
  ultimately show ?thesis using rd by (simp add: sound_def)
qed

lemma like_sound:
  assumes "sound l" and "entity_at l i = Some e" and "en_id e' = en_id e" and "en_emails e' = en_emails e" and "en_redirect e' = en_redirect e"
  shows "sound (set_entity e' l)" and "redirect_at (set_entity e' l) = redirect_at l"
proof -
  have i: "en_id e = i" using assms(1,2) keyed_at by (auto simp: sound_def)
  show "sound (set_entity e' l)" by (rule sound_touched [OF assms(1)]) (use assms i in auto)
  show "redirect_at (set_entity e' l) = redirect_at l" using assms i by (simp add: redirect_at_def fun_eq_iff)
qed

lemma receipt_at_sound:
  assumes "sound l"
  shows "sound (receipt_at de now i action d l) \<and> redirect_at (receipt_at de now i action d l) = redirect_at l"
proof (cases "entity_at l i")
  case (Some e)
  then have r: "lg_entities (receipt_at de now i action d l) = lg_entities (set_entity (newer e) l)"
    by (simp add: receipt_at_def with_receipt_def add_receipt_def)
  have n: "sound (set_entity (newer e) l)" "redirect_at (set_entity (newer e) l) = redirect_at l"
    using like_sound [OF assms Some, of "newer e"] by (simp_all add: newer_def)
  have "redirect_at (receipt_at de now i action d l) = redirect_at (set_entity (newer e) l)"
    unfolding redirect_at_def entity_at_def r ..
  with sound_same [OF n(1) r] n(2) show ?thesis by simp
qed (use assms in \<open>simp add: receipt_at_def\<close>)

lemma legacy_contact_sound:
  assumes "sound l" and "\<And>as i. sole_dossier mails as = Some i \<Longrightarrow> redirect_at l0 i = None"
    and "\<And>k. k \<notin> S \<Longrightarrow> redirect_at l k = redirect_at l0 k"
    and "\<And>i j. joined_by de at mails migrated p = Some (i, j) \<Longrightarrow> i \<notin> S \<and> j \<notin> S"
  shows "sound (legacy_contact de at now mails migrated l p) \<and>
    (\<forall>k. k \<notin> S \<union> (case joined_by de at mails migrated p of None \<Rightarrow> {} | Some (i, j) \<Rightarrow> {i}) \<longrightarrow>
       redirect_at (legacy_contact de at now mails migrated l p) k = redirect_at l0 k)"
proof (cases "\<exists>d i e. snd p = PMap d \<and> sole_dossier mails (de_addresses de at (fst p)) = Some i \<and>
    PStr (U ''contact:'' @ fst p @ U '':'' @ de_digest de (snd p)) \<notin> set migrated \<and> entity_at l i = Some e")
  case False
  then have "legacy_contact de at now mails migrated l p = l"
    by (auto simp: legacy_contact_def Let_def split: pyval.split option.split)
  with assms show ?thesis by simp
next
  case True
  then obtain d i e where p: "snd p = PMap d" "sole_dossier mails (de_addresses de at (fst p)) = Some i"
    "PStr (U ''contact:'' @ fst p @ U '':'' @ de_digest de (PMap d)) \<notin> set migrated" and e: "entity_at l i = Some e" by auto
  define e' where "e' = (if field_text d ''name'' \<noteq> [] then e\<lparr>en_name := field_text d ''name''\<rparr> else e)"
  define l1 where "l1 = set_entity e' l"
  have i: "en_id e' = i" "en_id e = i" using keyed_at [of l i e] assms(1) e by (auto simp: e'_def sound_def)
  have l1: "sound l1" "redirect_at l1 = redirect_at l"
    unfolding l1_def by (rule like_sound [OF assms(1) e]; simp add: e'_def)+
  define l2 where "l2 = (case joined_by de at mails migrated p of None \<Rightarrow> l1 | Some (a, j) \<Rightarrow>
      (case entity_at l1 j of None \<Rightarrow> l1 | Some t \<Rightarrow> same_person e' t l1))"
  have same: "(en_id t = en_id e') = (j = i)" if "entity_at l1 j = Some t" for j t
    using keyed_at [OF _ that] l1(1) i(1) by (auto simp: sound_def)
  have "(if field_text d ''same_as'' = [] then l1
      else case sole_dossier mails (de_addresses de at (field_text d ''same_as'')) of None \<Rightarrow> l1
        | Some j \<Rightarrow> (case entity_at l1 j of None \<Rightarrow> l1 | Some t \<Rightarrow> if en_id t = en_id e' then l1 else same_person e' t l1)) = l2"
    using same p by (auto simp: l2_def joined_by_def split: option.split)
  then have c: "legacy_contact de at now mails migrated l p = receipt_at de now i ''legacy contact correction''
      [(U ''legacy'', PStr (U ''contact:'' @ fst p @ U '':'' @ de_digest de (PMap d)))] l2"
    using p(3) i unfolding legacy_contact_def Let_def p(1,2) e pyval.case option.case prod.case e'_def [symmetric] l1_def [symmetric]
    by simp
  have l2: "sound l2 \<and> (\<forall>k. k \<notin> S \<union> (case joined_by de at mails migrated p of None \<Rightarrow> {} | Some (i, j) \<Rightarrow> {i}) \<longrightarrow>
      redirect_at l2 k = redirect_at l0 k)"
  proof (cases "joined_by de at mails migrated p")
    case None
    with l1 assms(3) show ?thesis by (simp add: l2_def)
  next
    case (Some q)
    then obtain j where q: "q = (i, j)" "i \<noteq> j" "redirect_at l0 j = None"
      using p assms(2) by (auto simp: joined_by_def split: if_splits option.splits)
    with assms(4) Some have "i \<notin> S" "j \<notin> S" by auto
    then have free: "redirect_at l1 i = None" "redirect_at l1 j = None" using assms(2) [OF p(2)] assms(3) q(3) l1(2) by simp_all
    show ?thesis
    proof (cases "entity_at l1 j")
      case None
      with l1 assms(3) Some q show ?thesis by (simp add: l2_def)
    next
      case at: (Some t)
      have "entity_at l1 i = Some e'" using i by (simp add: l1_def)
      from same_person_sound [OF l1(1) this at q(2) free] at l1(2) assms(3) Some q show ?thesis by (simp add: l2_def)
    qed
  qed
  then show ?thesis using receipt_at_sound [of l2] by (simp add: c)
qed

lemma migrated_sound:
  assumes "sound l" and "plain_joins (List.map_filter (joined_by de at (by_email l) (legacy_keys l)) corrections)"
  shows "sound (migrated_ledger de at now old corrections l)"
proof -
  let ?j = "joined_by de at (by_email l) (legacy_keys l)" and ?c = "legacy_contact de at now (by_email l) (legacy_keys l)"
  have k: "keyed l" using assms(1) by (simp add: sound_def)
  have "sound (foldl ?c l1 ps)"
    if "sound l1" "\<And>k. k \<notin> S \<Longrightarrow> redirect_at l1 k = redirect_at l k" "distinct (map fst (List.map_filter ?j ps))"
      "(S \<union> set (map fst (List.map_filter ?j ps))) \<inter> set (map snd (List.map_filter ?j ps)) = {}" "S \<inter> set (map fst (List.map_filter ?j ps)) = {}" for l1 ps S
    using that
  proof (induction ps arbitrary: l1 S)
    case (Cons p ps)
    define S' where "S' = S \<union> (case ?j p of None \<Rightarrow> {} | Some (i, j) \<Rightarrow> {i})"
    have n: "\<And>i j. ?j p = Some (i, j) \<Longrightarrow> i \<notin> S \<and> j \<notin> S" using Cons.prems(4,5) by (auto simp: map_filter_simps)
    from legacy_contact_sound [OF Cons.prems(1) sole_live [OF k] Cons.prems(2) n]
    have s: "sound (?c l1 p)" "\<And>k. k \<notin> S' \<Longrightarrow> redirect_at (?c l1 p) k = redirect_at l k" by (simp_all add: S'_def)
    have "sound (foldl ?c (?c l1 p) ps)"
    proof (cases "?j p")
      case None
      with Cons.prems(3-5) show ?thesis by (intro Cons.IH [where S = S', OF s]) (simp_all add: map_filter_simps S'_def)
    next
      case (Some q)
      then obtain i j where q: "?j p = Some (i, j)" by (cases q) simp
      define M where "M = List.map_filter ?j ps"
      have S': "S' = insert i S" and m: "List.map_filter ?j (p # ps) = (i, j) # M" using q by (simp_all add: S'_def M_def map_filter_simps)
      have d: "distinct (map fst ((i, j) # M))" "(S \<union> set (map fst ((i, j) # M))) \<inter> set (map snd ((i, j) # M)) = {}"
        "S \<inter> set (map fst ((i, j) # M)) = {}" using Cons.prems(3-5) unfolding m .
      show ?thesis
        by (rule Cons.IH [where S = S', OF s]) (use d in \<open>auto simp: S' simp flip: M_def simp del: map_map\<close>)
    qed
    then show ?case by simp
  qed simp
  note run = this
  let ?l = "legacy_dossiers (by_email l) (legacy_keys l) old l"
  have "redirect_at ?l k = redirect_at l k" for k
    unfolding redirect_at_def entity_at_def legacy_dossiers_entities ..
  moreover have "sound ?l" by (rule sound_same [OF assms(1) legacy_dossiers_entities])
  ultimately show ?thesis
    unfolding migrated_ledger_def Let_def
    by (intro run [where S = "{}"]) (use assms(2) in \<open>simp_all add: plain_joins_def\<close>)
qed

end
