(* ===== verification/DossierLaws.thy ===== *)
theory DossierLaws
  imports DossierInv
begin

text \<open>
  The properties of the catalog: addresses, redirects, evidence and merging.
\<close>

section \<open>The steps of the catalog\<close>

text \<open>
  Two steps are bounded by a premise, for the code goes wrong beyond it.  \<open>scrubbed\<close>: no kept dossier leads to a
  purged one; the retention list can take a dossier merged into another once the deletion of its page has retired it
  (\<open>purge_doubles_an_address\<close>).  \<open>migrated\<close>: the corrections of the old contact view that one refresh takes over join
  no dossier to two others, or to one that is joined away itself (\<open>legacy_circle\<close>).
\<close>

inductive catalog_step :: "unicode \<Rightarrow> objects \<Rightarrow> dossier_lib \<Rightarrow> ledger \<Rightarrow> ledger \<Rightarrow> bool" for uc ob de where
  created: "make_dossier uc de i rq automatic l = Inr (e, l') \<Longrightarrow> entity_at l i = None \<Longrightarrow> catalog_step uc ob de l l'"
| contributed: "contribute uc ob de fresh now mail_keys notes l = Inr l' \<Longrightarrow> inj fresh \<Longrightarrow> (\<And>k. entity_at l (fresh k) = None) \<Longrightarrow>
    catalog_step uc ob de l l'"
| merged: "entity_at l i = Some e \<Longrightarrow> \<not> inactive e \<Longrightarrow> merge_target l e c = Some t \<Longrightarrow> catalog_step uc ob de l (merge_into e t l)"
| split: "entity_at l i = Some e \<Longrightarrow> \<not> inactive e \<Longrightarrow> entity_at l j = None \<Longrightarrow> split_off uc de j e c l = Inr (t, l') \<Longrightarrow>
    catalog_step uc ob de l l'"
| relabelled: "entity_at l i = Some e \<Longrightarrow> relabelled de c l e = Inr e' \<Longrightarrow> catalog_step uc ob de l (set_entity e' l)"
| touched: "entity_at l (en_id e') = Some e \<Longrightarrow> en_emails e' = en_emails e \<Longrightarrow> en_redirect e' = en_redirect e \<Longrightarrow>
    catalog_step uc ob de l (set_entity e' l)"
| carried: "catalog_step uc ob de l (map_entities (carry_entity n before) l)"
| noted: "lg_entities l' = lg_entities l \<Longrightarrow> catalog_step uc ob de l l'"
| migrated: "plain_joins (List.map_filter (joined_by de at (by_email l) (legacy_keys l)) corrections) \<Longrightarrow>
    catalog_step uc ob de l (migrated_ledger de at now old corrections l)"
| scrubbed: "(\<And>i e r. entity_at l i = Some e \<Longrightarrow> en_redirect e = Some r \<Longrightarrow> i \<in> set entity_ids \<or> r \<notin> set entity_ids) \<Longrightarrow>
    catalog_step uc ob de l (scrubbed de now note_ids entity_ids l)"

abbreviation catalog_run :: "unicode \<Rightarrow> objects \<Rightarrow> dossier_lib \<Rightarrow> ledger \<Rightarrow> ledger \<Rightarrow> bool" where
  "catalog_run uc ob de \<equiv> rtranclp (catalog_step uc ob de)"

lemma scrubbed_sound:
  assumes "sound l" and "\<And>i e r. entity_at l i = Some e \<Longrightarrow> en_redirect e = Some r \<Longrightarrow> i \<in> set es \<or> r \<notin> set es"
  shows "sound (scrubbed de now ns es l)"
proof (rule sound_fewer [OF assms(1)])
  have "list_all (\<lambda>(i, e). en_id (scrubbed_entity now ns es e) = i) (filter (\<lambda>(i, e). i \<notin> set es) (lg_entities l))"
    using assms(1) by (auto simp: sound_def keyed_def list_all_iff scrubbed_entity_def newer_def Let_def split: option.split)
  moreover have "distinct (dkeys (filter (\<lambda>(i, e). i \<notin> set es) (lg_entities l)))"
    using assms(1) by (simp add: sound_def keyed_def distinct_map_filter)
  ultimately show "keyed (scrubbed de now ns es l)"
    by (auto simp: keyed_def scrubbed_def Let_def list_all_iff comp_def case_prod_unfold)
  fix i a
  have e: "en_redirect (scrubbed_entity now ns es e) = en_redirect e \<and> en_emails (scrubbed_entity now ns es e) = en_emails e"
    if "entity_at l i = Some e" "i \<notin> set es" for e
    using assms(2) [OF that(1)] that(2) by (auto simp: scrubbed_entity_def newer_def Let_def split: option.split)
  show "holds (scrubbed de now ns es l) i a \<Longrightarrow> holds l i a"
    using e by (auto simp: holds_def entity_at_scrubbed split: if_splits option.splits)
  show "redirect_at (scrubbed de now ns es l) i = None \<or> redirect_at (scrubbed de now ns es l) i = redirect_at l i"
    using e by (auto simp: redirect_at_def entity_at_scrubbed split: option.splits)
qed

lemma step_sound: "catalog_step uc ob de l l' \<Longrightarrow> sound l \<Longrightarrow> sound l'"
proof (induction rule: catalog_step.induct)
  case (created i rq automatic l e l')
  then show ?case using make_sound by blast
next
  case (contributed fresh now mail_keys ns l l')
  then show ?case using contribute_runs [of l fresh uc ob de now mail_keys ns] by simp
next
  case (carried l n before)
  then show ?case by (intro sound_mapped) (auto simp: carry_entity_def)
next
  case (touched l e' e)
  then show ?case by (intro sound_touched) auto
qed (auto intro: merge_sound split_sound relabel_sound sound_same migrated_sound scrubbed_sound)

lemma sound_empty: "sound empty_ledger"
  by (auto simp: sound_def keyed_def empty_ledger_def emails_apart_def holds_def settled_def entity_at_def redirect_at_def intro: ends_at.here)

lemma run_sound: "catalog_run uc ob de empty_ledger l \<Longrightarrow> sound l"
  by (induction rule: rtranclp_induct) (auto intro: step_sound sound_empty)

subsection \<open>What the service does is such a step\<close>

lemma receipt_run:
  assumes "entity_at l (en_id e') = Some e" and "en_emails e' = en_emails e" and "en_redirect e' = en_redirect e"
  shows "catalog_run uc ob de l (with_receipt dx now e' action d l)"
proof -
  have "catalog_step uc ob de l (set_entity (newer e') l)" using assms by (intro touched) (auto simp: newer_def)
  moreover have "catalog_step uc ob de (set_entity (newer e') l) (with_receipt dx now e' action d l)"
    by (rule noted) (simp add: with_receipt_def add_receipt_def)
  ultimately show ?thesis by auto
qed

lemma touched_run:
  assumes "keyed l" and "entity_at l i = Some e" and "en_id e' = en_id e" and "en_emails e' = en_emails e" and "en_redirect e' = en_redirect e"
  shows "catalog_run uc ob de l (set_entity e' l)"
  using assms keyed_at [OF assms(1,2)] by (intro r_into_rtranclp touched) auto

lemma observed_run:
  assumes "keyed l" and "entity_at l i = Some e"
  shows "catalog_run uc ob de l (observed dx fresh now h own block e l)"
proof -
  have i: "en_id e = i" using keyed_at [OF assms] .
  have s: "en_id (seen_entity own block e) = i" "en_emails (seen_entity own block e) = en_emails e" "en_redirect (seen_entity own block e) = en_redirect e"
    using i by (simp_all add: seen_entity_def Let_def)
  show ?thesis
    using assms i s
    by (auto simp: observed_def Let_def take_edits_def split: option.split intro!: receipt_run touched_run)
qed

lemma page_gone_run: "keyed l \<Longrightarrow> entity_at l i = Some e \<Longrightarrow> catalog_run uc ob de l (page_gone dx now e l)"
  using keyed_at [of l i e] by (auto simp: page_gone_def intro!: receipt_run)

lemma troubled_run: "keyed l \<Longrightarrow> catalog_run uc ob de l (troubled m i l)"
  by (auto simp: troubled_def split: option.split intro!: touched_run)

section \<open>Addresses\<close>

text \<open>C8. An address belongs to at most one dossier that is no redirect, in every catalog the service reaches from the empty one
  by creating, contributing, merging, splitting, relabelling, observing, following, migrating and scrubbing in any order, given
  that no scrubbing removes a dossier to which a kept one redirects, and that the corrections of the old contact
  view one migration takes over join no dossier to two others or to one that is joined away itself.  Beyond the first condition
  the code breaks the property (\<open>purge_doubles_an_address\<close>); beyond the second it makes circles (\<open>legacy_circle\<close>).\<close>

theorem addresses_stay_apart:
  assumes "catalog_run uc ob de empty_ledger l" and "holds l i a" and "holds l j a"
  shows "i = j"
  using run_sound [OF assms(1)] assms(2,3) by (auto simp: sound_def emails_apart_def)

text \<open>C9. Redirects end, so the contribution of the reviewed notes does not hang whatever the notes say, in every catalog
  the service reaches from the empty one by creating, contributing, merging, splitting, relabelling, observing, following, migrating
  and scrubbing in any order, given that no scrubbing removes a dossier to which a kept one redirects, and that the
  corrections of the old contact view one migration takes over join no dossier to two others or to one that is joined away
  itself.  Without the latter the loop can be infinite (\<open>legacy_circle\<close>, \<open>circle_never_returns\<close>).\<close>

theorem contribution_returns:
  assumes "catalog_run uc ob de empty_ledger l" and "inj fresh" and "\<And>k. entity_at l (fresh k) = None"
  shows "contribute uc ob de fresh now mail_keys ns l \<noteq> Inl Diverges"
  using contribute_runs [OF run_sound [OF assms(1)] assms(2,3), of uc ob de now mail_keys ns]
  by (cases "contribute uc ob de fresh now mail_keys ns l") auto

subsection \<open>A catalog of one dossier\<close>

definition crossing :: dossier_lib where
  "crossing = \<lparr>de_digest = (\<lambda>v. []), de_lower = id, de_unescape = id, de_iso = (\<lambda>t. []), de_fresh = (\<lambda>n k. []), de_fields = (\<lambda>n. (None, None)),
     de_addresses = (\<lambda>n c. if c \<in> {U ''x'', U ''w''} then [U ''a@x.org''] else [U ''b@x.org''])\<rparr>"

definition first_entity :: entity where
  "first_entity = (plain_entity ''A'' ''Ada'' [''a@x.org''] [])\<lparr>en_path := page_name ascii_unicode Person (U ''Ada'') (U ''A'')\<rparr>"

lemma first_made:
  "make_dossier ascii_unicode crossing (U ''A'') \<lparr>ei_kind = Person, ei_name = U ''Ada'', ei_aliases = [], ei_emails = [U ''a@x.org'']\<rparr> False
     empty_ledger = Inr (first_entity, set_entity first_entity empty_ledger)"
proof -
  have "email crossing (U ''a@x.org'') = Some (U ''a@x.org'')"
    by (simp add: email_def U_def strip_def strip_by_def lstrip_by_def rstrip_by_def py_space_def rpartition_on_def crossing_def)
  moreover have "sorted_labels [U ''a@x.org''] \<noteq> None"
    by (simp add: sorted_labels_def single_line_def U_def strip_def strip_by_def lstrip_by_def rstrip_by_def py_space_def)
  ultimately show ?thesis
    by (simp add: make_dossier_def map_filter_simps held_emails_def empty_ledger_def first_entity_def plain_entity_def Let_def)
qed

lemma first_run: "catalog_run ascii_unicode ob crossing empty_ledger (set_entity first_entity empty_ledger)"
  by (rule r_into_rtranclp, rule created [OF first_made]) (simp add: entity_at_def empty_ledger_def)

lemma first_at: "entity_at (set_entity first_entity empty_ledger) i = (if i = U ''A'' then Some first_entity else None)"
  by (simp add: first_entity_def plain_entity_def) (simp add: entity_at_def empty_ledger_def)

lemma addresses_stay_apart_witness:
  "holds (set_entity first_entity empty_ledger) (U ''A'') (U ''a@x.org'') \<and>
     \<not> holds (set_entity first_entity empty_ledger) (U ''B'') (U ''a@x.org'')"
proof -
  have a: "holds (set_entity first_entity empty_ledger) (U ''A'') (U ''a@x.org'')"
    by (simp add: holds_def first_at) (simp add: first_entity_def plain_entity_def)
  with addresses_stay_apart [OF first_run a, of "U ''B''"] show ?thesis by auto
qed

lemma contribution_returns_witness:
  "contribute ascii_unicode plain_objects crossing (\<lambda>k. 1 # replicate k 0) 0 [U ''attendees'']
     [\<lparr>nr_id = U ''N'', nr_title = U ''Talk'', nr_path = U ''Talk.md'', nr_hash = U ''h'',
       nr_frontmatter = [(U ''attendees'', PList [PStr (U ''b@x.org''), PStr (U ''[[People/Ada A]]'')])]\<rparr>]
     (set_entity first_entity empty_ledger) \<noteq> Inl Diverges"
proof (rule contribution_returns [OF first_run])
  have "length (1 # replicate k 0) = Suc k" for k by simp
  then show "inj (\<lambda>k. 1 # replicate k (0::nat))" by (auto simp: inj_def dest: arg_cong [where f = length])
  show "entity_at (set_entity first_entity empty_ledger) (1 # replicate k 0) = None" for k
    by (simp add: first_at U_def del: entity_at_set)
qed

section \<open>Evidence\<close>

definition evidence_stands :: "note_ref list \<Rightarrow> dossier_fact \<Rightarrow> bool" where
  "evidence_stands notes f \<longleftrightarrow>
     (case ev_note (fc_evidence f) of None \<Rightarrow> True
      | Some i \<Rightarrow> i = [] \<or> (case note_named notes i of None \<Rightarrow> False
          | Some n \<Rightarrow> nr_hash n = ev_hash (fc_evidence f) \<and> nr_path n = ev_path (fc_evidence f)))"

lemma weigh_stands: "fc_confirmed (fst (weigh notes f)) \<Longrightarrow> evidence_stands notes (fst (weigh notes f))"
  by (auto simp: weigh_def evidence_stands_def Let_def split: option.splits if_splits)

text \<open>C15. After the contribution of the notes, every confirmed fact that rests on a note rests on that note as it is now: the
  note is reviewed and in order, has the content hash the evidence names, and stands at the path it names; a fact whose
  note changed, left review or is gone is withdrawn.\<close>

theorem confirmed_facts_are_supported:
  "case contribute uc ob de fresh now mail_keys notes l of Inl e \<Rightarrow> True
   | Inr l' \<Rightarrow> list_all (\<lambda>(i, e). list_all (evidence_stands notes) (filter fc_confirmed (en_facts e))) (lg_entities l')"
  by (auto simp: contribute_def map_entities_def weigh_entity_def list_all_iff weigh_stands sbind_def split: sum.split)

section \<open>Merging\<close>

lemma replace_last_confirms:
  "replace_last f ts = Some ts' \<Longrightarrow> fc_confirmed f \<or> fc_confirmed g \<Longrightarrow> g \<in> set ts \<or> g = f \<Longrightarrow>
     fc_confirmed g \<Longrightarrow> \<exists>g' \<in> set ts'. fc_confirmed g' \<and> fc_id g' = fc_id g"
  by (induction f ts arbitrary: ts' rule: replace_last.induct) (force split: option.splits if_splits)+

lemma replace_last_None: "replace_last f ts = None \<longleftrightarrow> fc_id f \<notin> fc_id ` set ts"
  by (induction f ts rule: replace_last.induct) (auto split: option.splits)

lemma merge_fact_confirms:
  "g \<in> set ts \<or> g = f \<Longrightarrow> fc_confirmed g \<Longrightarrow> \<exists>g' \<in> set (merge_fact ts f). fc_confirmed g' \<and> fc_id g' = fc_id g"
  using replace_last_confirms [of f ts _ g] by (auto simp: merge_fact_def split: option.split)

lemma merge_facts_confirm:
  "\<exists>g' \<in> set ts. fc_confirmed g' \<and> fc_id g' = i \<Longrightarrow> \<exists>g' \<in> set (foldl merge_fact ts fs). fc_confirmed g' \<and> fc_id g' = i"
proof (induction fs arbitrary: ts)
  case (Cons f fs)
  then obtain g where "g \<in> set ts" "fc_confirmed g" "fc_id g = i" by blast
  then have "\<exists>g' \<in> set (merge_fact ts f). fc_confirmed g' \<and> fc_id g' = i" using merge_fact_confirms [of g ts f] by auto
  with Cons.IH show ?case by simp
qed simp

lemma merged_confirms:
  "f \<in> set fs \<Longrightarrow> fc_confirmed f \<Longrightarrow> \<exists>g' \<in> set (foldl merge_fact ts fs). fc_confirmed g' \<and> fc_id g' = fc_id f"
proof (induction fs arbitrary: ts)
  case (Cons f' fs)
  then show ?case
    using merge_facts_confirm [of "merge_fact ts f'" "fc_id f" fs] merge_fact_confirms [of f ts f'] by auto
qed simp

text \<open>C11. Merging loses nothing that is known: every confirmed fact of either dossier is a confirmed fact of the one they become,
  which also answers to every address of both, and to the name and the aliases of the one that is gone.\<close>

theorem merge_loses_nothing:
  assumes "entity_at l i = Some e" and "keyed l" and "merge_target l e c = Some t"
    and "f \<in> set (en_facts e) \<union> set (en_facts t)" and "fc_confirmed f"
  shows "case entity_at (merge_into e t l) (en_id t) of None \<Rightarrow> False
    | Some m \<Rightarrow> (\<exists>g \<in> set (en_facts m). fc_confirmed g \<and> fc_id g = fc_id f) \<and>
        set (en_emails m) = set (en_emails e) \<union> set (en_emails t) \<and>
        set (en_aliases m) = insert (en_name e) (set (en_aliases e) \<union> set (en_aliases t))"
proof -
  have ne: "en_id e \<noteq> en_id t" using assms(3) by (auto simp: merge_target_def split: option.splits if_splits)
  let ?fs = "foldl merge_fact (en_facts t) (en_facts e)" and ?r = "\<lambda>g. if aims_at (en_id e) g then g\<lparr>fc_target := Some (en_id t)\<rparr> else g"
  obtain g where g: "g \<in> set ?fs" "fc_confirmed g" "fc_id g = fc_id f"
    using assms(4,5) merged_confirms [of f "en_facts e" "en_facts t"] merge_facts_confirm [of "en_facts t" "fc_id f" "en_facts e"] by auto
  have "?r g \<in> set (map ?r ?fs)" unfolding set_map using g(1) by (rule imageI)
  moreover have "fc_confirmed (?r g)" "fc_id (?r g) = fc_id f" using g by simp_all
  ultimately have "\<exists>g \<in> set (map ?r ?fs). fc_confirmed g \<and> fc_id g = fc_id f" by blast
  then show ?thesis
    using ne by (simp add: entity_at_merged [OF ne] retarget_def absorb_def del: set_map) auto
qed

text \<open>Ada becomes Bob.\<close>

definition ada_is_bob :: entity_change where
  "ada_is_bob = \<lparr>ec_version = 1, ec_action = MergeThem, ec_name = None, ec_aliases = None, ec_emails = None, ec_fact = None, ec_predicate = [],
     ec_value = [], ec_target = Some (U ''B''), ec_note = None, ec_quote = [], ec_facts = [], ec_preview = None, ec_json = []\<rparr>"

lemma merge_loses_nothing_witness:
  "case entity_at (merge_into ada (plain_entity ''B'' ''Bob'' [''bob@x.org''] []) small_catalog) (U ''B'') of None \<Rightarrow> False
    | Some m \<Rightarrow> (\<exists>g \<in> set (en_facts m). fc_confirmed g \<and> fc_id g = U ''f1'') \<and>
        set (en_emails m) = {U ''ada@x.org'', U ''bob@x.org''} \<and> set (en_aliases m) = {U ''Ada''}"
proof -
  define bob where "bob = plain_entity ''B'' ''Bob'' [''bob@x.org''] []"
  have "case entity_at (merge_into ada bob small_catalog) (en_id bob) of None \<Rightarrow> False
    | Some m \<Rightarrow> (\<exists>g \<in> set (en_facts m). fc_confirmed g \<and> fc_id g = fc_id (plain_fact ''f1'' ''role'' ''head of <R&D>'' None)) \<and>
        set (en_emails m) = set (en_emails ada) \<union> set (en_emails bob) \<and>
        set (en_aliases m) = insert (en_name ada) (set (en_aliases ada) \<union> set (en_aliases bob))"
  proof (rule merge_loses_nothing)
    show "entity_at small_catalog (U ''A'') = Some ada" by (simp add: small_catalog_def entity_at_def)
    show "keyed small_catalog" by (simp add: small_catalog_def keyed_def ada_def plain_entity_def)
    show "merge_target small_catalog ada ada_is_bob = Some bob"
      by (simp add: merge_target_def small_catalog_def ada_is_bob_def or_empty_def entity_at_def ada_def plain_entity_def bob_def inactive_def)
  qed (simp_all add: ada_def plain_entity_def plain_fact_def)
  moreover have "en_id bob = U ''B''" "fc_id (plain_fact ''f1'' ''role'' ''head of <R&D>'' None) = U ''f1''"
    "set (en_emails ada) \<union> set (en_emails bob) = {U ''ada@x.org'', U ''bob@x.org''}"
    "insert (en_name ada) (set (en_aliases ada) \<union> set (en_aliases bob)) = {U ''Ada''}"
    by (auto simp: bob_def plain_entity_def ada_def plain_fact_def)
  ultimately show ?thesis by (simp only: bob_def)
qed

section \<open>What modelling showed\<close>

text \<open>
  B was merged into C after A was merged into B, and B's page was deleted, so that the retention list takes B: A is no
  redirect any more, and both A and C have A's address.
\<close>

definition merged_chain :: ledger where
  "merged_chain = empty_ledger\<lparr>lg_entities :=
     [(U ''A'', (plain_entity ''A'' ''Ada'' [''a@x.org''] [])\<lparr>en_redirect := Some (U ''B'')\<rparr>),
      (U ''B'', (plain_entity ''B'' ''Bee'' [''a@x.org''] [])\<lparr>en_redirect := Some (U ''C''), en_retired := Some 1\<rparr>),
      (U ''C'', plain_entity ''C'' ''Cid'' [''a@x.org''] [])]\<rparr>"

lemma purge_doubles_an_address:
  "emails_apart merged_chain \<and>
   holds (scrubbed de 2 [] [U ''B''] merged_chain) (U ''A'') (U ''a@x.org'') \<and>
   holds (scrubbed de 2 [] [U ''B''] merged_chain) (U ''C'') (U ''a@x.org'')"
  by (auto simp: emails_apart_def holds_def entity_at_scrubbed split: if_splits option.splits)
    (auto simp: merged_chain_def plain_entity_def entity_at_def empty_ledger_def scrubbed_entity_def newer_def split: if_splits)

text \<open>Two corrections of the contact view whose contacts share addresses crosswise redirect two dossiers to each other.\<close>

definition crossed :: ledger where
  "crossed = empty_ledger\<lparr>lg_entities :=
     [(U ''A'', (plain_entity ''A'' ''Ada'' [''a@x.org''] [])\<lparr>en_redirect := Some (U ''B'')\<rparr>),
      (U ''B'', (plain_entity ''B'' ''Bee'' [''b@x.org''] [])\<lparr>en_redirect := Some (U ''A'')\<rparr>)]\<rparr>"

definition crosses :: "entity \<Rightarrow> bool" where
  "crosses e \<longleftrightarrow> en_redirect e = Some (U ''A'') \<or> en_redirect e = Some (U ''B'')"

lemma crossed_on: "crosses e \<Longrightarrow> \<exists>r e'. en_redirect e = Some r \<and> entity_at crossed r = Some e' \<and> crosses e'"
  unfolding crosses_def by (elim disjE) (simp_all add: crossed_def entity_at_def empty_ledger_def)

lemma circle_never_returns: "crosses e \<Longrightarrow> resolved crossed e = None"
proof -
  have "l = crossed \<longrightarrow> \<not> crosses e" if "resolved l e = Some r" for l e r
  proof (rule resolved.raw_induct [where P = "\<lambda>l e r. l = crossed \<longrightarrow> \<not> crosses e", OF _ that])
    fix f :: "ledger \<Rightarrow> entity \<Rightarrow> entity option option" and l e r
    assume smaller: "\<And>l e r. f l e = Some r \<Longrightarrow> l = crossed \<longrightarrow> \<not> crosses e"
      and body: "(case en_redirect e of None \<Rightarrow> Some (Some e)
        | Some q \<Rightarrow> (case entity_at l q of None \<Rightarrow> Some None | Some e' \<Rightarrow> f l e')) = Some r"
    show "l = crossed \<longrightarrow> \<not> crosses e"
    proof (intro impI notI)
      assume l: "l = crossed" and "crosses e"
      then obtain q e' where e': "en_redirect e = Some q" "entity_at crossed q = Some e'" "crosses e'"
        using crossed_on by blast
      with body l have "f crossed e' = Some r" by simp
      with smaller e'(3) show False by blast
    qed
  qed
  then show "crosses e \<Longrightarrow> ?thesis" by (cases "resolved crossed e") auto
qed

lemma legacy_circle:
  "case migrated_ledger crossing 0 0 [] [(U ''x'', PMap [(U ''same_as'', PStr (U ''y''))]), (U ''z'', PMap [(U ''same_as'', PStr (U ''w''))])]
     (empty_ledger\<lparr>lg_entities := [(U ''A'', plain_entity ''A'' ''Ada'' [''a@x.org''] []), (U ''B'', plain_entity ''B'' ''Bee'' [''b@x.org''] [])]\<rparr>) of
   l \<Rightarrow> redirect_at l (U ''A'') = Some (U ''B'') \<and> redirect_at l (U ''B'') = Some (U ''A'')"
  by (simp add: migrated_ledger_def legacy_keys_def legacy_dossiers_def legacy_contact_def crossing_def by_email_def plain_entity_def
      empty_ledger_def sole_dossier_def map_filter_simps fget_def field_text_def same_person_def receipt_at_def with_receipt_def add_receipt_def
      newer_def redirect_at_def entity_at_def set_entity_def)

end
