(* ===== verification/DossierPagesSafe.thy ===== *)
theory DossierPagesSafe
  imports DossierLaws SourceLaws NoteSample
begin

text \<open>
  What the dossier service does to the notes disk: it replaces nothing but a page whose text, when it was read,
  was a page of the dossier.
\<close>

section \<open>Operations that only look\<close>

lemma leaves_get_note [leaves_intros]:
  assumes ap: "spared s q"
  shows "leaves q (get_note s i)"
  unfolding get_note_def read_current_def read_located_def by (intro leaves_intros ap)

lemma leaves_keeps:
  assumes "leaves f m"
  shows "keeps (held [] f b) m"
  using assms by (auto simp: does_def triple_def held_def split: sum.splits)

lemma spared_lasting: "spared s f \<Longrightarrow> lasting s (held [] f b)"
  by (auto simp: spared_def lasting_def held_def)

lemma apart_secure: "apart s f \<Longrightarrow> secure s [] f b"
  by (auto simp: secure_def apart_def temps_def intro: spared_lasting)

lemma triple_given: "(c \<Longrightarrow> triple P m Q E) \<Longrightarrow> triple (\<lambda>d. P d \<and> c) m Q E"
  by (cases c) (auto simp: triple_def)

lemma keeps_step_number [keeps_intros]: "keeps P step_number"
  by (rule keeps_pure) (simp add: step_number_def)

lemma keeps_each_in: "(\<And>x st. x \<in> set xs \<Longrightarrow> keeps P (f x st)) \<Longrightarrow> keeps P (each_in f xs st)"
  by (induction xs arbitrary: st) (auto intro!: keeps_intros)

lemma triple_each_in:
  "(\<And>x st. triple (R st) (f x st) R (\<lambda>e. P)) \<Longrightarrow> (\<And>st d. R st d \<Longrightarrow> P d) \<Longrightarrow> triple (R st) (each_in f xs st) R (\<lambda>e. P)"
  by (induction xs arbitrary: st) (auto intro: triple_ret triple_bnd)

lemma keeps_own_read [keeps_intros]: "lasting s P \<Longrightarrow> keeps P (own_step s (\<lambda>w. (f w, w)))"
  by (rule keeps_own_step) simp_all

lemma keeps_catalog [keeps_intros]:
  assumes "lasting s P"
  shows "keeps P (load_catalog s)" and "keeps P (store_catalog s l)" and "keeps P (save_catalog s l)" and "keeps P (purge_pending s)"
  unfolding load_catalog_def store_catalog_def save_catalog_def purge_pending_def
  by (intro keeps_intros keeps_own_step assms; simp)+

lemma keeps_there [keeps_intros]: "lasting s P \<Longrightarrow> keeps P (there s p)"
  unfolding there_def by (intro keeps_intros)

lemma keeps_read_page [keeps_intros]: "lasting s P \<Longrightarrow> keeps P (read_page s p)"
  unfolding read_page_def by (intro keeps_intros)

lemma triple_read_page:
  "lasting s (held F f b) \<Longrightarrow> triple (held F f b) (read_page s p) (\<lambda>raw d. held F f b d \<and> (p = f \<longrightarrow> raw = b)) (\<lambda>e. held F f b)"
  unfolding read_page_def
  by (rule triple_disk_step) (auto simp: lookup_file_def held_def file_at_def split: option.splits)

lemma keeps_personal_text [keeps_intros]: "lasting s P \<Longrightarrow> keeps P (personal_text s read e)"
  unfolding personal_text_def by (intro keeps_intros)

lemma keeps_mirror_catalog [keeps_intros]: "lasting s P \<Longrightarrow> keeps P (mirror_catalog s l read)"
  unfolding mirror_catalog_def mirror_entity_def Let_def by (intro keeps_intros keeps_each_do)

lemma keeps_migrate [keeps_intros]: "lasting s P \<Longrightarrow> keeps P (migrate s de l)"
  unfolding migrate_def by (intro keeps_intros)

lemma triple_attempt:
  assumes "triple P m Q (\<lambda>e. P)"
  shows "triple P (attempt m) (\<lambda>r d. case r of Inl x \<Rightarrow> P d | Inr x \<Rightarrow> Q x d) (\<lambda>e. P)"
  unfolding attempt_def
  by (intro triple_catching [where R = "\<lambda>e. P"] triple_bnd [OF assms] triple_if triple_ret triple_raise) simp_all

section \<open>A file that is no page\<close>

definition no_page :: "'d site \<Rightarrow> bytes \<Rightarrow> bool" where
  "no_page s b \<longleftrightarrow> (\<forall>i own block. page_parts (st_yaml s) i b \<noteq> Inr (own, block))"

text \<open>The bytes read of pages do not include the file's.\<close>

definition clean :: "bytes \<Rightarrow> pages option \<Rightarrow> bool" where
  "clean b read \<longleftrightarrow> (case read of None \<Rightarrow> True | Some d \<Rightarrow> \<forall>i. dget d i \<noteq> Some (Some b))"

definition held_clean :: "str \<Rightarrow> bytes \<Rightarrow> ledger \<times> pages option \<Rightarrow> fsys \<Rightarrow> bool" where
  "held_clean f b st d \<longleftrightarrow> held [] f b d \<and> clean b (snd st)"

lemma triple_of_sum: "(\<And>x. r = Inr x \<Longrightarrow> triple P (g x) Q E) \<Longrightarrow> (\<And>e d. P d \<Longrightarrow> E e d) \<Longrightarrow> triple P (bnd (of_sum r) g) Q E"
  by (cases r) (auto simp: of_sum_def bnd_def ret_def raise_exn_def triple_def)

lemma triple_observe_page:
  assumes "no_page s b" and l: "lasting s (held [] f b)"
  shows "triple (held [] f b) (observe_page s de c e) (\<lambda>(c, raw) d. held [] f b d \<and> raw \<noteq> Some b) (\<lambda>e. held [] f b)"
  unfolding observe_page_def
  by (intro triple_of_sum triple_bnd [OF keeps_there] triple_bnd [OF keeps_read_page] triple_bnd [OF keeps_now]
      triple_bnd [OF keeps_step_number] triple_if triple_ret triple_prod l)
    (use assms(1) in \<open>auto simp: no_page_def\<close>)

lemma keeps_write_page:
  assumes "raw \<noteq> Some b" and sec: "secure s [] f b"
  shows "keeps (held [] f b) (write_page s p raw wanted)"
proof (cases raw)
  case None
  then show ?thesis
    unfolding write_page_def by (auto intro!: keeps_intros secure_lasting [OF sec])
next
  case (Some was)
  note l = secure_lasting [OF sec]
  have put_back: "keeps (held [] f b)
      (finally_do (bnd (read_page s p) (\<lambda>now. if now \<noteq> was then ret False else bnd (commit_temp s tmp p) (\<lambda>u. ret True)))
        (unlink_missing_ok s tmp))" if "tmp \<noteq> f" for tmp
  proof (intro keeps_finally keeps_unlink_missing_ok l that, rule triple_bnd [OF triple_read_page [OF l]], rule triple_given)
    fix x assume "p = f \<longrightarrow> x = b"
    then have "p \<noteq> f" if "x = was" using Some assms(1) that by auto
    then show "keeps (held [] f b) (if x \<noteq> was then ret False else bnd (commit_temp s tmp p) (\<lambda>u. ret True))"
      using that by (intro keeps_intros keeps_commit_temp l) simp_all
  qed
  have "keeps (held [] f b) (write_page s p (Some was) wanted)"
    unfolding write_page_def option.case by (intro triple_bnd [OF triple_stage [OF sec]] triple_given put_back)
  then show ?thesis using Some by simp
qed

lemma keeps_attempt [keeps_intros]: "keeps P m \<Longrightarrow> keeps P (attempt m)"
  unfolding attempt_def by (intro keeps_intros)

lemma keeps_place_page:
  assumes "raw \<noteq> Some b" and sec: "secure s [] f b"
  shows "keeps (held [] f b) (place_page s l e raw)"
  unfolding place_page_def Let_def
  by (intro keeps_intros keeps_write_page assms secure_lasting [OF sec])

lemma clean_remember: "clean b read \<Longrightarrow> raw \<noteq> Some b \<Longrightarrow> clean b (remember_page i raw read)"
  by (auto simp: clean_def remember_page_def split: option.splits)

lemma triple_project:
  assumes np: "no_page s b" and sec: "secure s [] f b"
  shows "triple (held_clean f b st) (project s de i st) (held_clean f b) (\<lambda>e. held [] f b)"
proof (rule triple_assume)
  fix d assume "held_clean f b st d"
  then have c: "clean b (snd st)" by (simp add: held_clean_def)
  note l = secure_lasting [OF sec]
  obtain cat read where st: "st = (cat, read)" by (cases st)
  let ?R = "\<lambda>r d. held [] f b d \<and> (case r of Inl x \<Rightarrow> True | Inr (c, raw, rd) \<Rightarrow> raw \<noteq> Some b \<and> clean b rd)"
  have look: "triple (held [] f b) (bnd (attempt (observe_page s de cat e)) (\<lambda>r.
        ret (case r of Inl x \<Rightarrow> Inl x | Inr (l, raw) \<Rightarrow> Inr (l, raw, remember_page i raw read)))) ?R (\<lambda>e. held [] f b)" for e
    by (rule triple_bnd [OF triple_attempt [OF triple_observe_page [OF np l]]], rule triple_ret)
      (use c st in \<open>auto intro!: clean_remember split: sum.splits\<close>)
  have seen: "triple (held [] f b) (case (case read of None \<Rightarrow> None | Some d \<Rightarrow> dget d i) of
        Some raw \<Rightarrow> ret (Inr (cat, raw, read))
      | None \<Rightarrow> bnd (attempt (observe_page s de cat e)) (\<lambda>r.
          ret (case r of Inl x \<Rightarrow> Inl x | Inr (l, raw) \<Rightarrow> Inr (l, raw, remember_page i raw read)))) ?R (\<lambda>e. held [] f b)" for e
    using look c st by (auto split: option.split intro!: triple_ret simp: clean_def)
  have place: "triple (?R r) (case r of Inl x \<Rightarrow> ret (troubled not_projected i cat, read)
      | Inr (l, raw, read) \<Rightarrow> (case entity_at l i of None \<Rightarrow> ret (l, read)
          | Some e \<Rightarrow> bnd (place_page s l e raw) (\<lambda>l. ret (l, read)))) (held_clean f b) (\<lambda>e. held [] f b)" for r
  proof (cases r)
    case (Inl x)
    then show ?thesis using c st by (auto intro!: triple_ret simp: held_clean_def)
  next
    case (Inr y)
    obtain c' raw rd where y: "y = (c', raw, rd)" by (cases y)
    show ?thesis
    proof (rule triple_assume)
      fix d assume "?R r d"
      then have "raw \<noteq> Some b" "clean b rd" using Inr y by auto
      then have "triple (held [] f b) (case entity_at c' i of None \<Rightarrow> ret (c', rd)
          | Some e \<Rightarrow> bnd (place_page s c' e raw) (\<lambda>l. ret (l, rd))) (held_clean f b) (\<lambda>e. held [] f b)"
        by (intro triple_option triple_bnd [OF keeps_place_page] sec triple_ret) (simp_all add: held_clean_def)
      then show "triple (?R r) (case r of Inl x \<Rightarrow> ret (troubled not_projected i cat, read)
          | Inr (l, raw, read) \<Rightarrow> (case entity_at l i of None \<Rightarrow> ret (l, read)
          | Some e \<Rightarrow> bnd (place_page s l e raw) (\<lambda>l. ret (l, read)))) (held_clean f b) (\<lambda>e. held [] f b)"
        using Inr y by (auto elim: triple_weaken)
    qed
  qed
  show "triple (held_clean f b st) (project s de i st) (held_clean f b) (\<lambda>e. held [] f b)"
  proof (cases "entity_at cat i")
    case None
    then show ?thesis using st by (auto simp: project_def intro: triple_ret triple_weaken)
  next
    case (Some e)
    have "triple (held [] f b) (project s de i st) (held_clean f b) (\<lambda>e. held [] f b)"
      unfolding st project_def prod.case Some option.case by (rule triple_bnd [OF seen place])
    then show ?thesis by (rule triple_weaken) (auto simp: held_clean_def)
  qed
qed

lemma triple_project_all:
  assumes "no_page s b" and "secure s [] f b"
  shows "triple (held_clean f b st) (project_all s de st) (held_clean f b) (\<lambda>e. held [] f b)"
  unfolding project_all_def
  by (rule triple_each_in [OF triple_project [OF assms]]) (simp add: held_clean_def)

lemma keeps_published:
  assumes "no_page s b" and sec: "secure s [] f b"
  shows "keeps (held [] f b) (published s de ids l)"
proof -
  note l = secure_lasting [OF sec]
  have "triple (held [] f b) (each_in (project s de) ids (c, None)) (held_clean f b) (\<lambda>e. held [] f b)" for c
    by (rule triple_weaken [OF triple_each_in [OF triple_project [OF assms]]]) (auto simp: held_clean_def clean_def)
  then have "keeps (held [] f b) (each_in (project s de) ids (c, None))" for c
    by (rule triple_weaken) (auto simp: held_clean_def)
  then show ?thesis
    unfolding published_def by (intro keeps_intros l)
qed

lemma triple_observe_one:
  assumes np: "no_page s b" and l: "lasting s (held [] f b)"
  shows "triple (\<lambda>d. held_clean f b (fst st, Some (snd st)) d) (observe_one s de i st)
    (\<lambda>st d. held_clean f b (fst st, Some (snd st)) d) (\<lambda>e. held [] f b)"
proof (rule triple_assume)
  fix d assume "held_clean f b (fst st, Some (snd st)) d"
  then have c: "clean b (Some (snd st))" by (simp add: held_clean_def)
  obtain cat read where st: "st = (cat, read)" by (cases st)
  have "triple (held [] f b) (bnd (attempt (observe_page s de cat e)) (\<lambda>r. ret (case r of
          Inl x \<Rightarrow> (troubled ''Dossier page identity, delimiter or path needs repair'' i cat, read)
        | Inr (l, raw) \<Rightarrow> (l, dict_set read i raw))))
      (\<lambda>st d. held_clean f b (fst st, Some (snd st)) d) (\<lambda>e. held [] f b)" for e
    by (rule triple_bnd [OF triple_attempt [OF triple_observe_page [OF np l]]], rule triple_ret)
      (use c st in \<open>auto simp: held_clean_def clean_def split: sum.splits\<close>)
  then have "triple (held [] f b) (observe_one s de i st) (\<lambda>st d. held_clean f b (fst st, Some (snd st)) d) (\<lambda>e. held [] f b)"
    using c st by (auto simp: observe_one_def held_clean_def split: option.split intro!: triple_ret)
  then show "triple (\<lambda>d. held_clean f b (fst st, Some (snd st)) d) (observe_one s de i st)
      (\<lambda>st d. held_clean f b (fst st, Some (snd st)) d) (\<lambda>e. held [] f b)"
    by (rule triple_weaken) (auto simp: held_clean_def)
qed

lemma keeps_refresh_locked:
  assumes np: "no_page s b" and sec: "secure s [] f b"
  shows "keeps (held [] f b) (refresh_locked s de before)"
proof -
  note l = secure_lasting [OF sec]
  have look: "triple (held [] f b) (each_in (observe_one s de) ids (before, []))
      (\<lambda>st d. held [] f b d \<and> clean b (Some (snd st))) (\<lambda>e. held [] f b)" for ids
    by (rule triple_weaken [OF triple_each_in [OF triple_observe_one [OF np l]]]) (auto simp: held_clean_def clean_def)
  have "keeps (held [] f b) (project_all s de (c, Some rd))" if "clean b (Some rd)" for c rd
    by (rule triple_weaken [OF triple_project_all [OF np sec]]) (auto simp: held_clean_def that)
  note done' = this
  show ?thesis
    unfolding refresh_locked_def
    by (intro triple_bnd [OF keeps_catalog(4)] triple_bnd [OF keeps_demand] triple_bnd [OF look] l triple_given)
      (auto split: prod.split intro!: keeps_intros l done')
qed

lemma keeps_refresh:
  assumes "no_page s b" and "secure s [] f b"
  shows "keeps (held [] f b) (refresh s de)"
  unfolding refresh_def by (intro keeps_intros keeps_refresh_locked assms secure_lasting [OF assms(2)])

lemma keeps_create_entity:
  assumes "no_page s b" and "secure s [] f b"
  shows "keeps (held [] f b) (create_entity s de rq)"
  unfolding create_entity_def free_of_purge_def answered_def
  by (intro keeps_intros keeps_published assms secure_lasting [OF assms(2)])

lemma keeps_changed_entity:
  assumes "spared s f" and l: "lasting s (held [] f b)"
  shows "keeps (held [] f b) (changed_entity s de c cat e)"
proof -
  have "keeps (held [] f b) (claim_checked s c)"
    unfolding claim_checked_def by (intro keeps_intros leaves_keeps leaves_get_note assms)
  moreover have "keeps (held [] f b) (restored s e)"
    unfolding restored_def Let_def by (intro keeps_intros l)
  ultimately show ?thesis
    unfolding changed_entity_def by (intro keeps_intros) (cases "ec_action c"; auto intro!: keeps_intros split: option.split)
qed

lemma keeps_change_entity:
  assumes "no_page s b" and "apart s f"
  shows "keeps (held [] f b) (change_entity s de i c)"
proof -
  note sec = apart_secure [OF assms(2)]
  have "keeps (held [] f b) (identity_change s de cat e c)" for cat e
    unfolding identity_change_def answered_def by (intro keeps_intros keeps_published assms(1) sec)
  then show ?thesis
    unfolding change_entity_def answered_def
    by (intro keeps_intros keeps_refresh_locked keeps_published keeps_changed_entity assms(1) sec secure_lasting [OF sec] apart_spared [OF assms(2)])
qed

lemma keeps_purge_dossiers:
  assumes np: "no_page s b" and sec: "secure s [] f b"
  shows "keeps (held [] f b) (purge_dossiers s de ns es token)"
proof -
  note l = secure_lasting [OF sec]
  have "triple (held_clean f b st) (project_purged s de i st) (held_clean f b) (\<lambda>e. held [] f b)" for i st
    unfolding project_purged_def
    by (rule triple_bnd [OF triple_project [OF assms]]) (auto intro!: triple_ret simp: held_clean_def)
  then have "triple (held [] f b) (each_in (project_purged s de) ids (c, None)) (held_clean f b) (\<lambda>e. held [] f b)" for ids c
    by (rule triple_weaken [OF triple_each_in]) (auto simp: held_clean_def clean_def)
  then have "keeps (held [] f b) (each_in (project_purged s de) ids (c, None))" for ids c
    by (rule triple_weaken) (auto simp: held_clean_def)
  moreover have "keeps (held [] f b) (context_step s g)" for g
    unfolding context_step_def by (rule keeps_own_step [OF l]) simp
  ultimately show ?thesis
    unfolding purge_dossiers_def Let_def by (intro keeps_intros keeps_each_do l)
qed

lemma keeps_file:
  assumes "keeps (held [] f b) m" and "wf_fsys (w_disk w)" and "file_at (w_disk w) f = Some b"
  shows "file_at (w_disk (snd (m w))) f = Some b"
  using assms by (cases "m w") (auto simp: triple_def held_def split: sum.splits)

text \<open>C10. The dossier service replaces nothing but dossier pages.\<close>

theorem dossiers_leave_notes:
  assumes "apart s f" and "wf_fsys (w_disk w)" and "file_at (w_disk w) f = Some b" and "no_page s b"
  shows "file_at (w_disk (snd (refresh s de w))) f = Some b \<and>
    file_at (w_disk (snd (create_entity s de rq w))) f = Some b \<and>
    file_at (w_disk (snd (change_entity s de i c w))) f = Some b \<and>
    file_at (w_disk (snd (purge_dossiers s de ns es token w))) f = Some b"
  using assms apart_secure [OF assms(1), of b]
  by (simp add: keeps_file keeps_refresh keeps_create_entity keeps_change_entity keeps_purge_dossiers)

lemma sample_page_apart: "apart sample_site (U ''In/plan.md'')"
  by (auto simp: apart_def spared_def temps_def sample_site_def U_def)

lemma sample_disk_ok: "wf_fsys (w_disk sample_world)" "file_at (w_disk sample_world) (U ''In/plan.md'') = Some (U ''# Plan'')"
  by (simp_all add: wf_fsys_def sample_world_def file_at_def node_at_def U_def)

lemma sample_no_page: "no_page sample_site (U ''# Plan'')"
proof -
  have "decode (U ''# Plan'') = Some (U ''# Plan'')"
    by (rule decode_ascii) (simp add: U_def)
  moreover have "split_text (U ''# Plan'') = Inr ([], U ''# Plan'')"
    by (simp add: split_text_def split_parts_def U_def startswith_def DELIMITER_def)
  moreover have "strip [] = []" by (simp add: strip_def strip_by_eq_Nil_iff)
  ultimately show ?thesis
    by (auto simp: no_page_def page_parts_def parse_text_def parse_block_def fm_sum_def fget_def) (simp_all add: sample_site_def sample_yaml_def)
qed

lemma dossiers_leave_notes_witness:
  "file_at (w_disk (snd (refresh sample_site crossing sample_world))) (U ''In/plan.md'') = Some (U ''# Plan'')"
  using dossiers_leave_notes [OF sample_page_apart sample_disk_ok sample_no_page] by simp

end
