(* ===== verification/Purges.thy ===== *)
theory Purges
  imports DossierService
begin

text \<open>
  The receipts of a purge (\<open>coppermind_store/purge.py\<close>, \<open>coppermind/purge.py\<close>): where a receipt is kept, what is
  answered of one, and the recorded problems.  The four volumes a purge touches are folders of the one disk: the notes
  at its root, the others below \<open>area_root\<close>.
\<close>

text \<open>
  What the code takes from elsewhere: JSON and digests (\<open>pl_docs\<close>), \<open>Receipt.model_validate_json\<close> with its decoded content,
  the fingerprint of a row and of a dossier, \<open>datetime.fromisoformat\<close> with whether there is an offset, a token,
  \<open>timedelta(days=n)\<close> on the clock, and whether the file an exception names is below the sources.
\<close>

record recovery =
  rv_note :: str
  rv_path :: str
  rv_hash :: str
  rv_data :: bytes
  rv_at :: int

record purge_lib =
  pl_docs :: doc_lib
  pl_receipt :: "bytes \<Rightarrow> recovery option"
  pl_note_row :: "str \<Rightarrow> row \<Rightarrow> str"
  pl_source_row :: "str \<Rightarrow> source_row \<Rightarrow> str"
  pl_entity_row :: "entity \<Rightarrow> str"
  pl_instant :: "pyval \<Rightarrow> (int \<times> bool) option"
  pl_token :: "nat \<Rightarrow> str"
  pl_days :: "int \<Rightarrow> int"
  pl_in_sources :: "exn \<Rightarrow> bool"

section \<open>Where a receipt is\<close>

definition receipt_folder :: "purge_state \<Rightarrow> receipt_place" where
  "receipt_folder st = (case st of Complete \<Rightarrow> InDone | Abandoned \<Rightarrow> InAbandoned | _ \<Rightarrow> AtRoot)"

definition PLACES :: "receipt_place list" where
  "PLACES = [AtRoot, InDone, InAbandoned]"

definition on_purges :: "((receipt_place \<times> str, purge_receipt option) dict \<Rightarrow> (receipt_place \<times> str, purge_receipt option) dict) \<Rightarrow> store_files \<Rightarrow> store_files" where
  "on_purges f x = x\<lparr>fl_purges := f (fl_purges x)\<rparr>"

definition purges_step :: "'d site \<Rightarrow> ((receipt_place \<times> str, purge_receipt option) dict \<Rightarrow> (receipt_place \<times> str, purge_receipt option) dict) \<Rightarrow> unit act" where
  "purges_step s f = own_step s (\<lambda>w. ((), w\<lparr>w_files := on_purges f (w_files w)\<rparr>))"

text \<open>\<open>save\<close>: the receipt in the folder of its state, then away from the others.\<close>

definition drop_elsewhere :: "'d site \<Rightarrow> purge_receipt \<Rightarrow> receipt_place \<Rightarrow> unit act" where
  "drop_elsewhere s r p =
     (if p = receipt_folder (pr_state r) then ret () else purges_step s (\<lambda>d. dict_pop d (p, pr_token r)))"

definition save_receipt :: "'d site \<Rightarrow> purge_receipt \<Rightarrow> unit act" where
  "save_receipt s r =
     bnd (purges_step s (\<lambda>d. dict_set d (receipt_folder (pr_state r), pr_token r) (Some r))) (\<lambda>u.
     each_do (drop_elsewhere s r) PLACES)"

definition records :: "'d site \<Rightarrow> receipt_place \<Rightarrow> purge_receipt list act" where
  "records s p = own_step s (\<lambda>w. (records_at p (w_files w), w))"

definition unreadable_at :: "receipt_place \<Rightarrow> store_files \<Rightarrow> str list" where
  "unreadable_at p f =
     List.map_filter (\<lambda>(k, r). if fst k = p \<and> load_receipt k r = None then Some (snd k) else None)
       (sort_key (snd \<circ> fst) (fl_purges f))"

definition unreadable_receipts :: "'d site \<Rightarrow> receipt_place list \<Rightarrow> str list act" where
  "unreadable_receipts s ps = own_step s (\<lambda>w. (concat (map (\<lambda>p. unreadable_at p (w_files w)) ps), w))"

text \<open>\<open>_locate\<close> and \<open>read\<close>.\<close>

definition is_receipt_token :: "str \<Rightarrow> bool" where
  "is_receipt_token t \<longleftrightarrow> length t = 64 \<and> list_all (\<lambda>c. c \<in> set (U ''0123456789abcdef'')) t"

primrec first_place :: "'d site \<Rightarrow> str \<Rightarrow> receipt_place list \<Rightarrow> receipt_place act" where
  "first_place s t [] = raise_exn (refused ''Purge receipt not found. Run a new preview.'')"
| "first_place s t (p # ps) =
     bnd (own_step s (\<lambda>w. (dget (fl_purges (w_files w)) (p, t) \<noteq> None, w))) (\<lambda>here.
     if here then ret p else first_place s t ps)"

definition locate_receipt :: "'d site \<Rightarrow> str \<Rightarrow> receipt_place act" where
  "locate_receipt s t =
     bnd (demand (is_receipt_token t) (refused ''Invalid purge receipt. Run a new preview.'')) (\<lambda>u. first_place s t PLACES)"

definition receipt_here :: "receipt_place \<times> str \<Rightarrow> store_files \<Rightarrow> purge_receipt option" where
  "receipt_here k f = (case dget (fl_purges f) k of None \<Rightarrow> None | Some r \<Rightarrow> load_receipt k r)"

definition try_receipt :: "'d site \<Rightarrow> receipt_place \<Rightarrow> str \<Rightarrow> purge_receipt option act" where
  "try_receipt s p t =
     catching (own_step s (\<lambda>w. (receipt_here (p, t) (w_files w), w))) (\<lambda>e. if is_oserror e then ret None else raise_exn e)"

definition read_receipt :: "'d site \<Rightarrow> str \<Rightarrow> purge_receipt act" where
  "read_receipt s t =
     bnd (locate_receipt s t) (\<lambda>p. bnd (try_receipt s p t) (\<lambda>r.
     case r of None \<Rightarrow> raise_exn (refused ''This purge receipt is unreadable. Abandon it from Problems.'') | Some r \<Rightarrow> ret r))"

text \<open>\<open>pending_ids\<close>.\<close>

definition ids_of :: "purge_kind \<Rightarrow> purge_item list \<Rightarrow> str list" where
  "ids_of k xs = map (\<lambda>i. pc_id (pi_candidate i)) (filter (\<lambda>i. pc_kind (pi_candidate i) = k) xs)"

definition pending_ids :: "'d site \<Rightarrow> purge_kind \<Rightarrow> str list act" where
  "pending_ids s k = bnd (records s AtRoot) (\<lambda>rs. ret (concat (map (\<lambda>r. ids_of k (pr_items r)) (filter unfinished rs))))"

section \<open>The recorded problems\<close>

definition recorded :: "'d site \<Rightarrow> purge_problems act" where
  "recorded s = own_step s (\<lambda>w. (case fl_problems (w_files w) of None \<Rightarrow> no_problems | Some v \<Rightarrow> v, w))"

definition store_recorded :: "'d site \<Rightarrow> purge_problems \<Rightarrow> unit act" where
  "store_recorded s v = own_step s (\<lambda>w. ((), w\<lparr>w_files := (w_files w)\<lparr>fl_problems := Some v\<rparr>\<rparr>))"

definition change_recorded :: "'d site \<Rightarrow> (purge_problems \<Rightarrow> purge_problems option) \<Rightarrow> unit act" where
  "change_recorded s f =
     catching (bnd (recorded s) (\<lambda>v. case f v of None \<Rightarrow> ret () | Some v' \<Rightarrow> store_recorded s v'))
       (\<lambda>e. if is_oserror e then ret () else raise_exn e)"

definition with_damage :: "damaged_bundle \<Rightarrow> purge_problems \<Rightarrow> purge_problems option" where
  "with_damage e v =
     (let others = filter (\<lambda>d. (dg_source d, dg_cause d) \<noteq> (dg_source e, dg_cause e)) (pp_damaged v)
      in if Suc (length others) = length (pp_damaged v) \<and> e \<in> set (pp_damaged v) then None
         else Some (v\<lparr>pp_damaged := others @ [e]\<rparr>))"

definition note_damaged :: "'d site \<Rightarrow> damaged_bundle \<Rightarrow> unit act" where
  "note_damaged s e = change_recorded s (with_damage e)"

definition without_damage :: "str \<Rightarrow> str option \<Rightarrow> purge_problems \<Rightarrow> purge_problems option" where
  "without_damage i cause v =
     (let kept = filter (\<lambda>d. dg_source d \<noteq> i \<or> (case cause of None \<Rightarrow> False | Some [] \<Rightarrow> False | Some c \<Rightarrow> dg_cause d \<noteq> c)) (pp_damaged v)
      in if length kept = length (pp_damaged v) then None else Some (v\<lparr>pp_damaged := kept\<rparr>))"

definition note_repaired :: "'d site \<Rightarrow> str \<Rightarrow> str option \<Rightarrow> unit act" where
  "note_repaired s i cause = change_recorded s (without_damage i cause)"

text \<open>\<open>live_ids\<close>: the notes among the ids that are not deleted, and the sources a note that is not deleted has.\<close>

definition not_deleted :: "row \<Rightarrow> bool" where
  "not_deleted r \<longleftrightarrow> r_state r \<noteq> U ''deleted''"

definition linked_sources :: "db \<Rightarrow> str list" where
  "linked_sources b = map snd (filter (\<lambda>(j, i). case row_of b j of None \<Rightarrow> False | Some r \<Rightarrow> not_deleted r) (t_links (db_src b)))"

definition cited_by_rows :: "db \<Rightarrow> str list" where
  "cited_by_rows b = concat (map (\<lambda>(j, r). if not_deleted r then mc_source_ids (r_cols r) else []) (db_rows b))"

definition live_ids :: "'d site \<Rightarrow> str list \<Rightarrow> str list act" where
  "live_ids s ids =
     (if ids = [] then ret []
      else bnd begin_tx (\<lambda>u.
           bnd (query s (\<lambda>b. filter (\<lambda>i. case row_of b i of None \<Rightarrow> False | Some r \<Rightarrow> not_deleted r) ids)) (\<lambda>found.
           bnd (query s (\<lambda>b. filter (\<lambda>i. i \<in> set ids) (linked_sources b))) (\<lambda>linked.
           bnd (query s (\<lambda>b. concat (map (\<lambda>(j, r). if not_deleted r \<and> list_ex (\<lambda>i. i \<in> set ids) (mc_source_ids (r_cols r))
                  then mc_source_ids (r_cols r) else []) (db_rows b)))) (\<lambda>mirrored.
           ret (found @ filter (\<lambda>i. i \<in> set ids) (linked @ mirrored)))))))"

section \<open>What is answered\<close>

record purge_breakdown =
  pb_notes :: nat
  pb_sources :: nat
  pb_artifacts :: nat
  pb_entities :: nat

definition no_counts :: purge_breakdown where
  "no_counts = \<lparr>pb_notes = 0, pb_sources = 0, pb_artifacts = 0, pb_entities = 0\<rparr>"

definition counted :: "purge_kind \<Rightarrow> purge_breakdown \<Rightarrow> purge_breakdown" where
  "counted k b =
     (case k of NoteItem \<Rightarrow> b\<lparr>pb_notes := Suc (pb_notes b)\<rparr> | ArtifactItem \<Rightarrow> b\<lparr>pb_artifacts := Suc (pb_artifacts b)\<rparr>
      | SourceItem \<Rightarrow> b\<lparr>pb_sources := Suc (pb_sources b)\<rparr> | EntityItem \<Rightarrow> b\<lparr>pb_entities := Suc (pb_entities b)\<rparr>)"

definition count_under :: "purge_kind \<Rightarrow> str \<Rightarrow> (str, purge_breakdown) dict \<Rightarrow> (str, purge_breakdown) dict" where
  "count_under k v d = dict_set d v (counted k (case dget d v of None \<Rightarrow> no_counts | Some b \<Rightarrow> b))"

definition breakdown :: "(purge_candidate \<Rightarrow> str list) \<Rightarrow> purge_candidate list \<Rightarrow> (str, purge_breakdown) dict" where
  "breakdown field cs = foldl (\<lambda>d c. foldl (\<lambda>d v. count_under (pc_kind c) v d) d (field c)) [] cs"

record purge_result =
  pu_token :: str
  pu_state :: purge_state
  pu_created :: int
  pu_days :: int
  pu_candidates :: "purge_candidate list"
  pu_counts :: purge_breakdown
  pu_origins :: "(str, purge_breakdown) dict"
  pu_providers :: "(str, purge_breakdown) dict"
  pu_kept :: purge_kept
  pu_completed :: nat
  pu_remaining :: "str list"
  pu_failed :: bool

definition purge_answer :: "purge_receipt \<Rightarrow> purge_result" where
  "purge_answer r =
     (let cs = map pi_candidate (pr_items r)
      in \<lparr>pu_token = pr_token r, pu_state = pr_state r, pu_created = pr_created r, pu_days = pr_days r, pu_candidates = cs,
          pu_counts = foldl (\<lambda>b c. counted (pc_kind c) b) no_counts cs,
          pu_origins = breakdown pc_origins cs, pu_providers = breakdown pc_providers cs, pu_kept = pr_kept r,
          pu_completed = length (pr_completed r), pu_remaining = pr_remaining r, pu_failed = pr_failed r\<rparr>)"

end
