(* ===== verification/PurgePlan.thy ===== *)
theory PurgePlan
  imports Purges
begin

text \<open>
  What a purge may remove (\<open>candidates\<close> and \<open>_plan\<close> of \<open>purge.py\<close>): the notes, sources and archives past their retention
  that nothing on the disk or in the mirror holds, each with every file it has and the hash of that file.
\<close>

definition purge_conflict :: exn where
  "purge_conflict = Typed PurgeConflict"

section \<open>Files of a volume\<close>

definition relative_to :: "purge_area \<Rightarrow> str \<Rightarrow> str" where
  "relative_to a p = (if area_root a = [] then p else drop (length (area_root a) + 1) p)"

text \<open>\<open>sorted(folder.rglob("*"))\<close>: the files, or the folders, below it; a \<open>Path\<close> is ordered by its parts.\<close>

definition by_parts :: "str list \<Rightarrow> str list" where
  "by_parts ps = sort_key (split_on 47) ps"

definition files_below :: "'d site \<Rightarrow> str \<Rightarrow> str list act" where
  "files_below s p = disk_step s (\<lambda>now d. Inr (by_parts (filter (below p) (map fst (d_names d))), d))"

definition dirs_below :: "'d site \<Rightarrow> str \<Rightarrow> str list act" where
  "dirs_below s p = disk_step s (\<lambda>now d. Inr (by_parts (filter (below p) (remdups (d_dirs d))), d))"

definition each_safe :: "purge_area \<Rightarrow> str list \<Rightarrow> unit act" where
  "each_safe a ps = each_do (\<lambda>p. bnd (of_sum (safe_path (relative_to a p))) (\<lambda>u. ret ())) ps"

primrec each_map :: "('a \<Rightarrow> 'b act) \<Rightarrow> 'a list \<Rightarrow> 'b list act" where
  "each_map f [] = ret []"
| "each_map f (x # xs) = bnd (f x) (\<lambda>y. bnd (each_map f xs) (\<lambda>ys. ret (y # ys)))"

definition hashed_files :: "'d site \<Rightarrow> purge_lib \<Rightarrow> purge_area \<Rightarrow> str list \<Rightarrow> purge_file list act" where
  "hashed_files s pl a ps = each_map (\<lambda>p. hashed_file s (pl_docs pl) a (relative_to a p)) ps"

section \<open>What the notes on the disk hold\<close>

text \<open>The identities, the sources that are cited, and the generated pages by the source they show.\<close>

type_synonym references = "str list \<times> str list \<times> (str \<times> str) list"

definition purge_text :: "bytes \<Rightarrow> exn + str" where
  "purge_text b = (case decode b of None \<Rightarrow> Inl PyFault | Some t \<Rightarrow> Inr (universal_newlines t))"

definition note_cites :: "schema \<Rightarrow> fmap \<Rightarrow> exn + str list" where
  "note_cites sc fm =
     (case dget fm (role sc ''sources_key'') of
        None \<Rightarrow> Inr []
      | Some (PList vs) \<Rightarrow>
          if list_all (\<lambda>v. case v of PStr t \<Rightarrow> True | _ \<Rightarrow> False) vs then Inr (str_items (PList vs))
          else Inl (refused ''A note has unreadable source references. Fix Problems first.'')
      | _ \<Rightarrow> Inl (refused ''A note has unreadable source references. Fix Problems first.''))"

definition references_of :: "'d site \<Rightarrow> str \<Rightarrow> bytes \<Rightarrow> references \<Rightarrow> exn + references" where
  "references_of s p raw found =
     (case found of (ids, cited, pages) \<Rightarrow>
        sbind (purge_text raw) (\<lambda>t. sbind (fm_sum (parse_text (st_yaml s) t)) (\<lambda>(fm, body).
        let sc = st_schema s
        in case fget fm (U ''source_id'') of
             PStr i \<Rightarrow>
               if fget fm (U ''managed'') = PBool True \<and> is_valid_id (PStr i) \<and> \<not> is_valid_id (fget fm (role sc ''id_key''))
               then Inr (ids, cited, pages @ [(i, p)])
               else sbind (note_cites sc fm) (\<lambda>cs. Inr (ids @ str_items (PList [fget fm (role sc ''id_key'')]), cited @ cs, pages))
           | _ \<Rightarrow> sbind (note_cites sc fm) (\<lambda>cs. Inr (ids @ str_items (PList [fget fm (role sc ''id_key'')]), cited @ cs, pages)))))"

text \<open>Every Markdown name at the notes' root: other volumes are absolute.\<close>

definition is_markdown :: "str \<Rightarrow> bool" where
  "is_markdown p \<longleftrightarrow> endswith p (U ''.md'') \<and> \<not> startswith p (U ''/'')"

definition add_references :: "'d site \<Rightarrow> str \<Rightarrow> references \<Rightarrow> references act" where
  "add_references s p found =
     (if list_ex (\<lambda>x. x = U ''.git'' \<or> x = U ''.obsidian'') (split_on 47 p) then ret found
      else bnd (of_sum (safe_path p)) (\<lambda>q. bnd (read_page s q) (\<lambda>raw. of_sum (references_of s p raw found))))"

definition disk_references :: "'d site \<Rightarrow> references act" where
  "disk_references s =
     bnd (disk_step s (\<lambda>now d. Inr (SOURCES \<in> set (d_dirs d), d))) (\<lambda>here.
     bnd (demand here (Typed (NotesFilesystemUnavailable (U ''Notes or sources volume unavailable'')))) (\<lambda>u.
     bnd (disk_step s (\<lambda>now d. Inr (by_parts (filter is_markdown (map fst (d_names d) @ remdups (d_dirs d))), d))) (\<lambda>ps.
     each_in (add_references s) ps ([], [], []))))"

definition pages_of :: "str \<Rightarrow> references \<Rightarrow> str list" where
  "pages_of i found = map snd (filter (\<lambda>q. fst q = i) (snd (snd found)))"

section \<open>Bundles\<close>

datatype bundle_state = EmptyBundle | GoodBundle fmap | DamagedBundle

definition bundle_at :: "'d site \<Rightarrow> doc_lib \<Rightarrow> str \<Rightarrow> bundle_state act" where
  "bundle_at s dl i =
     bnd (files_below s (source_path i)) (\<lambda>ps.
     if ps = [] then ret EmptyBundle
     else catching (bnd (read_json s dl (manifest_path i) ''source manifest'') (\<lambda>m. ret (GoodBundle m)))
            (\<lambda>e. if is_oserror e \<or> (case e of Typed (SourcesFilesystemUnavailable m) \<Rightarrow> True | _ \<Rightarrow> False) then ret DamagedBundle else raise_exn e))"

definition damaged_bundles :: "'d site \<Rightarrow> doc_lib \<Rightarrow> str list \<Rightarrow> str list act" where
  "damaged_bundles s dl ids =
     each_in (\<lambda>i found. if \<not> is_valid_id (PStr i) then ret found
       else bnd (bundle_at s dl i) (\<lambda>st. ret (if st = DamagedBundle then found @ [i] else found))) ids []"

section \<open>Notes past their retention\<close>

text \<open>\<open>note_history.receipts\<close>: the newest copy of each note.\<close>

definition HISTORY :: str where
  "HISTORY = path_join (area_root StateArea) (U ''note-recovery'')"

definition json_in :: "str \<Rightarrow> str \<Rightarrow> str \<Rightarrow> bool" where
  "json_in folder prefix p \<longleftrightarrow> parent_of p = folder \<and> startswith (path_name p) prefix \<and> endswith p (U ''.json'')"

definition note_copies :: "str \<Rightarrow> fsys \<Rightarrow> str list" where
  "note_copies prefix d = by_parts (filter (json_in HISTORY prefix) (map fst (d_names d)))"

definition history_unreadable :: exn where
  "history_unreadable = Typed (NotesFilesystemUnavailable (U ''note recovery evidence is unreadable''))"

definition read_copy :: "'d site \<Rightarrow> purge_lib \<Rightarrow> str \<Rightarrow> (str, recovery) dict \<Rightarrow> (str, recovery) dict act" where
  "read_copy s pl p found =
     bnd (read_page s p) (\<lambda>raw.
     case pl_receipt pl raw of None \<Rightarrow> raise_exn PyFault
     | Some r \<Rightarrow>
         if \<not> is_valid_id (PStr (rv_note r)) \<or> st_resolve s (rv_path r) = None \<or> st_hash s (rv_data r) \<noteq> rv_hash r then raise_exn PyFault
         else ret (case dget found (rv_note r) of
             Some o' \<Rightarrow> if rv_at o' < rv_at r then dict_set found (rv_note r) r else found
           | None \<Rightarrow> dict_set found (rv_note r) r))"

definition saved_copies :: "'d site \<Rightarrow> purge_lib \<Rightarrow> (str, recovery) dict act" where
  "saved_copies s pl =
     catching (bnd (disk_step s (\<lambda>now d. Inr (note_copies [] d, d))) (\<lambda>ps. each_in (read_copy s pl) ps []))
       (\<lambda>e. if is_oserror e \<or> e = PyFault then raise_exn history_unreadable else raise_exn e)"

record purge_view =
  pv_refs :: references
  pv_openings :: "(str, str) dict"
  pv_saved :: "(str, recovery) dict"
  pv_purged :: "str list"
  pv_notes :: "(str \<times> row) list"
  pv_sources :: "(str \<times> source_row) list"
  pv_linked :: "str list"
  pv_abandoned :: "purge_receipt list"
  pv_artifacts :: "str list"

definition protected :: "purge_view \<Rightarrow> str list" where
  "protected v = fst (snd (pv_refs v)) @ pv_linked v @
     concat (map (\<lambda>(j, r). if not_deleted r then mc_source_ids (r_cols r) else []) (pv_notes v))"

definition on_disk :: "purge_view \<Rightarrow> str \<Rightarrow> bool" where
  "on_disk v i \<longleftrightarrow> i \<in> set (fst (pv_refs v))"

text \<open>Whether a row is of a note that is there to the mirror, which absence of its file does not disprove.\<close>

definition row_lives :: "purge_view \<Rightarrow> str \<Rightarrow> bool" where
  "row_lives v i \<longleftrightarrow> (case map_of (pv_notes v) i of None \<Rightarrow> False | Some r \<Rightarrow> not_deleted r)"

definition origins_or :: "string \<Rightarrow> str list \<Rightarrow> str list" where
  "origins_or d xs = (if xs = [] then [U d] else sort (remdups xs))"

definition or_unspecified :: "str \<Rightarrow> str" where
  "or_unspecified t = (if t = [] then U ''Unspecified'' else t)"

definition note_candidate :: "purge_view \<Rightarrow> str \<Rightarrow> row \<Rightarrow> int \<Rightarrow> bool \<Rightarrow> purge_candidate" where
  "note_candidate v i r at leftover =
     (let cited = List.map_filter (map_of (pv_sources v)) (mc_source_ids (r_cols r))
      in \<lparr>pc_kind = NoteItem, pc_id = i, pc_title = (case r_title r of None \<Rightarrow> path_stem (r_path r) | Some [] \<Rightarrow> path_stem (r_path r) | Some t \<Rightarrow> t),
          pc_path = r_path r, pc_origins = origins_or ''Local notes'' (map (\<lambda>x. or_unspecified (so_origin x)) cited),
          pc_providers = origins_or ''Local notes'' (map so_provider cited), pc_deleted = Some at, pc_leftover = leftover, pc_reason = None\<rparr>)"

definition if_there :: "'d site \<Rightarrow> str \<Rightarrow> str list act" where
  "if_there s p = bnd (there s p) (\<lambda>here. ret (if here then [p] else []))"

definition note_item :: "'d site \<Rightarrow> purge_lib \<Rightarrow> purge_view \<Rightarrow> str \<Rightarrow> row \<Rightarrow> int \<Rightarrow> bool \<Rightarrow> purge_item act" where
  "note_item s pl v i r at leftover =
     bnd (disk_step s (\<lambda>now d. Inr (note_copies (i @ U ''-'') d, d))) (\<lambda>ps.
     bnd (if_there s (path_join HISTORY (U ''observed/'' @ i @ U ''.json''))) (\<lambda>seen'.
     bnd (if_there s (path_join (area_root StateArea) (U ''filing/'' @ i @ U ''.json''))) (\<lambda>journal.
     bnd (hashed_files s pl StateArea (ps @ seen' @ journal)) (\<lambda>files.
     ret \<lparr>pi_candidate = note_candidate v i r at leftover, pi_row = Some (pl_note_row pl i r), pi_opening = None, pi_files = files, pi_dirs = []\<rparr>))))"

text \<open>The items, and how many notes are still within their retention.\<close>

definition plan_note :: "'d site \<Rightarrow> purge_lib \<Rightarrow> int \<Rightarrow> purge_view \<Rightarrow> str \<times> row \<Rightarrow> purge_item list \<times> nat \<Rightarrow> (purge_item list \<times> nat) act" where
  "plan_note s pl cutoff v q found =
     (case q of (i, r) \<Rightarrow>
        if not_deleted r \<or> on_disk v i then ret found
        else case dget (pv_saved v) i of
          None \<Rightarrow> if cutoff < r_updated r then ret (fst found, Suc (snd found))
                  else bnd (note_item s pl v i r (r_updated r) True) (\<lambda>x. ret (fst found @ [x], snd found))
        | Some c \<Rightarrow>
            if rv_hash c \<noteq> r_hash r \<or> rv_path c \<noteq> r_path r then ret found
            else if cutoff < max (r_updated r) (rv_at c) then ret (fst found, Suc (snd found))
            else bnd (note_item s pl v i r (max (r_updated r) (rv_at c)) False) (\<lambda>x. ret (fst found @ [x], snd found)))"

section \<open>Sources nothing holds\<close>

text \<open>The opening note of a bundle whose source nothing can need any more.\<close>

definition spent_opening :: "purge_view \<Rightarrow> str \<Rightarrow> bundle_state \<Rightarrow> exn + str option" where
  "spent_opening v i st =
     (case st of
        GoodBundle m \<Rightarrow>
          (case fget m (U ''note_id'') of
             PStr j \<Rightarrow>
               if \<not> is_valid_id (PStr j) \<or> on_disk v j then Inr None
               else if (if map_of (pv_notes v) j = None then j \<notin> set (pv_purged v) else row_lives v j) then Inr None
               else if fget m (U ''source_id'') \<noteq> PStr i then Inl PyFault
               else Inr (Some j)
           | _ \<Rightarrow> Inr None)
      | _ \<Rightarrow>
          (case dget (pv_openings v) i of None \<Rightarrow> Inr None
           | Some j \<Rightarrow> if j = [] \<or> map_of (pv_notes v) j = None \<or> row_lives v j \<or> on_disk v j then Inr None else Inr (Some j)))"

definition recorded_page :: "bundle_state \<Rightarrow> exn + str list" where
  "recorded_page st =
     (case st of GoodBundle m \<Rightarrow>
        (case fget m (U ''projection_path'') of PStr p \<Rightarrow> Inr (if p = [] then [] else [p])
         | x \<Rightarrow> if truthy x then Inl PyFault else Inr [])
      | _ \<Rightarrow> Inr [])"

definition page_file :: "'d site \<Rightarrow> purge_lib \<Rightarrow> str \<Rightarrow> str \<Rightarrow> purge_file list act" where
  "page_file s pl i p =
     bnd (of_sum (safe_path p)) (\<lambda>q. bnd (there s q) (\<lambda>here.
     if \<not> here then ret []
     else bnd (read_page s q) (\<lambda>raw.
          bnd (of_sum (sbind (purge_text raw) (\<lambda>t. fm_sum (parse_text (st_yaml s) t)))) (\<lambda>(fm, body).
          bnd (demand (fget fm (U ''managed'') = PBool True \<and> fget fm (U ''source_id'') = PStr i) PyFault) (\<lambda>u.
          bnd (hashed_file s (pl_docs pl) NotesArea q) (\<lambda>f. ret [f]))))))"

definition claim_file :: "'d site \<Rightarrow> purge_lib \<Rightarrow> str \<Rightarrow> str \<Rightarrow> purge_file list act" where
  "claim_file s pl i c =
     bnd (there s c) (\<lambda>here.
     if \<not> here then ret []
     else bnd (read_page s c) (\<lambda>raw.
          bnd (demand (case dl_read (pl_docs pl) raw of Some (PMap d) \<Rightarrow> fget d (U ''source_id'') = PStr i | _ \<Rightarrow> False) PyFault) (\<lambda>u.
          bnd (hashed_file s (pl_docs pl) SourcesArea (relative_to SourcesArea c)) (\<lambda>f. ret [f]))))"

definition source_candidate :: "str \<Rightarrow> source_row \<Rightarrow> str list \<Rightarrow> bool \<Rightarrow> purge_candidate" where
  "source_candidate i r pages leftover =
     \<lparr>pc_kind = SourceItem, pc_id = i, pc_title = (case pages of [] \<Rightarrow> so_external r | p # ps \<Rightarrow> path_stem p),
      pc_path = (case pages of [] \<Rightarrow> [] | p # ps \<Rightarrow> p), pc_origins = [or_unspecified (so_origin r)], pc_providers = [so_provider r],
      pc_deleted = None, pc_leftover = leftover, pc_reason = None\<rparr>"

definition source_item :: "'d site \<Rightarrow> purge_lib \<Rightarrow> purge_view \<Rightarrow> str \<Rightarrow> source_row \<Rightarrow> str \<Rightarrow> bundle_state \<Rightarrow> str \<Rightarrow> purge_item act" where
  "source_item s pl v i r c st opening =
     bnd (files_below s (source_path i)) (\<lambda>ps.
     bnd (hashed_files s pl SourcesArea ps) (\<lambda>files.
     bnd (dirs_below s (source_path i)) (\<lambda>dirs.
     bnd (claim_file s pl i c) (\<lambda>claim.
     bnd (of_sum (recorded_page st)) (\<lambda>rec.
     let pages = sort (remdups (pages_of i (pv_refs v) @ rec)) in
     bnd (each_map (page_file s pl i) pages) (\<lambda>shown.
     bnd (there s c) (\<lambda>claimed.
     ret \<lparr>pi_candidate = source_candidate i r pages (st = EmptyBundle \<or> \<not> claimed), pi_row = Some (pl_source_row pl i r),
          pi_opening = Some opening, pi_files = files @ claim @ concat shown, pi_dirs = map (relative_to SourcesArea) dirs @ [i]\<rparr>)))))))"

definition plan_source :: "'d site \<Rightarrow> purge_lib \<Rightarrow> purge_view \<Rightarrow> str \<times> source_row \<Rightarrow> purge_item list \<Rightarrow> purge_item list act" where
  "plan_source s pl v q found =
     (case q of (i, r) \<Rightarrow>
        if i \<in> set (protected v) then ret found
        else bnd (demand (is_valid_id (PStr i)) PyFault) (\<lambda>u.
             bnd (of_sum (safe_path i)) (\<lambda>u.
             bnd (files_below s (source_path i)) (\<lambda>ps. bnd (each_safe SourcesArea ps) (\<lambda>u.
             bnd (dirs_below s (source_path i)) (\<lambda>ps. bnd (each_safe SourcesArea ps) (\<lambda>u.
             bnd (of_sum (claim_path (pl_docs pl) (so_provider r) (so_external r))) (\<lambda>c.
             bnd (bundle_at s (pl_docs pl) i) (\<lambda>st.
             if st = DamagedBundle
             then bnd (note_damaged s \<lparr>dg_source = i, dg_provider = so_provider r, dg_external = so_external r, dg_cause = U ''manifest''\<rparr>) (\<lambda>u. ret found)
             else bnd (note_repaired s i (Some (U ''manifest''))) (\<lambda>u.
                  bnd (of_sum (spent_opening v i st)) (\<lambda>o'.
                  case o' of None \<Rightarrow> ret found
                  | Some opening \<Rightarrow> bnd (source_item s pl v i r c st opening) (\<lambda>x. ret (found @ [x])))))))))))))"

section \<open>Archives that were removed\<close>

definition OWNER_REMOVAL_REASONS :: "str list" where
  "OWNER_REMOVAL_REASONS = [U ''removed in Admin'', U ''removed through the API'', U ''deleted in Obsidian'']"

definition archive_path :: "str \<Rightarrow> str" where
  "archive_path i = path_join (area_root ArtifactsArea) i"

text \<open>The manifest of an archive its owner removed: the time and the reason.\<close>

definition removal_of :: "purge_lib \<Rightarrow> str \<Rightarrow> bytes \<Rightarrow> (fmap \<times> int \<times> str) option" where
  "removal_of pl i raw =
     (case dl_read (pl_docs pl) raw of
        Some (PMap m) \<Rightarrow>
          (case (pl_instant pl (fget m (U ''removed_at'')), fget m (U ''removed_reason'')) of
             (Some (at, True), PStr why) \<Rightarrow>
               if fget m (U ''artifact_id'') = PStr i \<and> fget m (U ''kind'') = PStr (U ''artifact'') \<and> why \<in> set OWNER_REMOVAL_REASONS
               then Some (m, at, why) else None
           | _ \<Rightarrow> None)
      | _ \<Rightarrow> None)"

definition first_text :: "objects \<Rightarrow> pyval list \<Rightarrow> str" where
  "first_text ob vs = (case filter truthy vs of [] \<Rightarrow> [] | v # r \<Rightarrow> text_of ob v)"

definition archive_candidate :: "objects \<Rightarrow> str \<Rightarrow> fmap \<Rightarrow> int \<Rightarrow> str \<Rightarrow> purge_candidate" where
  "archive_candidate ob i m at why =
     \<lparr>pc_kind = ArtifactItem, pc_id = i, pc_title = first_text ob [fget m (U ''title''), fget m (U ''filename''), PStr i],
      pc_path = [], pc_origins = [first_text ob [fget m (U ''origin''), PStr (U ''Unspecified'')]], pc_providers = [U ''Artifacts''],
      pc_deleted = Some at, pc_leftover = False, pc_reason = Some why\<rparr>"

definition plan_archive :: "'d site \<Rightarrow> purge_lib \<Rightarrow> int \<Rightarrow> str list \<Rightarrow> str \<Rightarrow> purge_item list \<times> nat \<Rightarrow> (purge_item list \<times> nat) act" where
  "plan_archive s pl cutoff alive i found =
     (if \<not> is_valid_id (PStr i) \<or> i \<in> set alive then ret found
      else bnd (catching (bnd (read_page s (path_join (archive_path i) (U ''manifest.json''))) (\<lambda>raw. ret (removal_of pl i raw)))
             (\<lambda>e. if is_oserror e then ret None else raise_exn e)) (\<lambda>m.
           case m of None \<Rightarrow> ret found
           | Some (m, at, why) \<Rightarrow>
               if cutoff < at then ret (fst found, Suc (snd found))
               else bnd (files_below s (archive_path i)) (\<lambda>ps. bnd (dirs_below s (archive_path i)) (\<lambda>dirs.
                    bnd (each_safe ArtifactsArea (ps @ dirs)) (\<lambda>u.
                    bnd (hashed_files s pl ArtifactsArea ps) (\<lambda>files.
                    ret (fst found @ [\<lparr>pi_candidate = archive_candidate (st_objects s) i m at why, pi_row = None, pi_opening = None,
                          pi_files = files, pi_dirs = map (relative_to ArtifactsArea) dirs @ [i]\<rparr>], snd found)))))))"

text \<open>\<open>artifacts_root.glob("*/manifest.json")\<close>: the names of the archives.\<close>

definition archives :: "fsys \<Rightarrow> str list" where
  "archives d =
     map (\<lambda>p. path_name (parent_of p))
       (by_parts (filter (\<lambda>p. path_name p = U ''manifest.json'' \<and> parent_of (parent_of p) = area_root ArtifactsArea) (map fst (d_names d))))"

definition removed_archives :: "'d site \<Rightarrow> purge_lib \<Rightarrow> int \<Rightarrow> str list \<Rightarrow> (purge_item list \<times> nat) act" where
  "removed_archives s pl cutoff alive =
     bnd (disk_step s (\<lambda>now d. Inr (archives d, d))) (\<lambda>ids. each_in (plan_archive s pl cutoff alive) ids ([], 0))"

end
