(* ===== verification/PurgeService.thy ===== *)
theory PurgeService
  imports PurgePlan
begin

text \<open>
  Preview, confirmation, abandonment and the scan for problems (\<open>purge.py\<close>).  The caller holds the exclusive gate of
  \<open>Maintenance\<close>.
\<close>

section \<open>The files of an item\<close>

definition file_path :: "purge_file \<Rightarrow> exn + str" where
  "file_path f = sbind (safe_path (pf_path f)) (\<lambda>p. Inr (area_path (pf_area f) p))"

text \<open>\<open>_directory_root\<close>.\<close>

definition directory_area :: "purge_item \<Rightarrow> purge_area" where
  "directory_area x = (if pc_kind (pi_candidate x) = ArtifactItem then ArtifactsArea else SourcesArea)"

definition directory_path :: "purge_item \<Rightarrow> str \<Rightarrow> exn + str" where
  "directory_path x d = sbind (safe_path d) (\<lambda>p. Inr (area_path (directory_area x) p))"

text \<open>\<open>_digest\<close>: only of a regular file.\<close>

definition file_digest :: "'d site \<Rightarrow> purge_lib \<Rightarrow> str \<Rightarrow> str act" where
  "file_digest s pl p =
     bnd (catching (read_page s p) (\<lambda>e. raise_exn (if e = FileMissing then PyFault else e))) (\<lambda>b. ret (dl_sha (pl_docs pl) b))"

definition unchanged_file :: "'d site \<Rightarrow> purge_lib \<Rightarrow> purge_file \<Rightarrow> unit act" where
  "unchanged_file s pl f =
     bnd (of_sum (file_path f)) (\<lambda>p. bnd (there s p) (\<lambda>here.
     if \<not> here then ret () else bnd (file_digest s pl p) (\<lambda>h. demand (h = pf_hash f) purge_conflict)))"

definition listed_in :: "purge_item \<Rightarrow> purge_area \<Rightarrow> str \<Rightarrow> bool" where
  "listed_in x a p \<longleftrightarrow> list_ex (\<lambda>f. pf_area f = a \<and> pf_path f = relative_to a p) (pi_files x)"

definition all_listed :: "'d site \<Rightarrow> purge_item \<Rightarrow> purge_area \<Rightarrow> (fsys \<Rightarrow> str list) \<Rightarrow> unit act" where
  "all_listed s x a f =
     bnd (disk_step s (\<lambda>now d. Inr (f d, d))) (\<lambda>ps. demand (list_all (listed_in x a) ps) purge_conflict)"

definition verify_files :: "'d site \<Rightarrow> purge_lib \<Rightarrow> purge_item \<Rightarrow> unit act" where
  "verify_files s pl x =
     bnd (each_do (unchanged_file s pl) (pi_files x)) (\<lambda>u.
     let i = pc_id (pi_candidate x) in
     case pc_kind (pi_candidate x) of
       SourceItem \<Rightarrow> all_listed s x SourcesArea (\<lambda>d. filter (below (source_path i)) (map fst (d_names d)))
     | ArtifactItem \<Rightarrow> all_listed s x ArtifactsArea (\<lambda>d. filter (below (archive_path i)) (map fst (d_names d)))
     | NoteItem \<Rightarrow> all_listed s x StateArea (note_copies (i @ U ''-''))
     | EntityItem \<Rightarrow> ret ())"

definition remove_file :: "'d site \<Rightarrow> purge_lib \<Rightarrow> purge_file \<Rightarrow> unit act" where
  "remove_file s pl f =
     bnd (of_sum (file_path f)) (\<lambda>p. bnd (there s p) (\<lambda>here.
     if \<not> here then ret ()
     else bnd (file_digest s pl p) (\<lambda>h.
          bnd (demand (h = pf_hash f) purge_conflict) (\<lambda>u.
          bnd (unlink s p) (\<lambda>u. sync_folder s p)))))"

text \<open>\<open>rmdir\<close>, which refuses a folder that holds anything.\<close>

definition remove_dir :: "str \<Rightarrow> int \<Rightarrow> fsys \<Rightarrow> exn + unit \<times> fsys" where
  "remove_dir p now d =
     (if p \<notin> set (d_dirs d) then Inl (OsError (U ''not a directory''))
      else if list_ex (below p) (map fst (d_names d) @ d_dirs d) then Inl (OsError (U ''directory not empty''))
      else Inr ((), d\<lparr>d_dirs := filter (\<lambda>f. f \<noteq> p) (d_dirs d)\<rparr>))"

definition remove_folder :: "'d site \<Rightarrow> purge_item \<Rightarrow> str \<Rightarrow> unit act" where
  "remove_folder s x f =
     bnd (of_sum (directory_path x f)) (\<lambda>p. bnd (there s p) (\<lambda>here.
     if \<not> here then ret () else bnd (disk_step s (remove_dir p)) (\<lambda>u. sync_folder s p)))"

text \<open>\<open>_unlink\<close>: the files, then the folders, the deepest first.\<close>

definition unlink_item :: "'d site \<Rightarrow> purge_lib \<Rightarrow> purge_item \<Rightarrow> unit act" where
  "unlink_item s pl x =
     bnd (each_do (remove_file s pl) (pi_files x)) (\<lambda>u.
     each_do (remove_folder s x) (sort_key (\<lambda>p. - int (length (path_parts p))) (pi_dirs x)))"

section \<open>The list\<close>

text \<open>\<open>_residual\<close>: what an abandoned purge left of an item.\<close>

definition still_there :: "'d site \<Rightarrow> ('a \<Rightarrow> exn + str) \<Rightarrow> 'a list \<Rightarrow> 'a list act" where
  "still_there s path xs =
     each_in (\<lambda>x found. bnd (of_sum (path x)) (\<lambda>p. bnd (there s p) (\<lambda>here. ret (if here then found @ [x] else found)))) xs []"

definition residual :: "'d site \<Rightarrow> purge_lib \<Rightarrow> purge_item \<Rightarrow> purge_item option act" where
  "residual s pl x =
     bnd (still_there s file_path (pi_files x)) (\<lambda>files.
     bnd (still_there s (directory_path x) (pi_dirs x)) (\<lambda>dirs.
     if files = [] \<and> dirs = [] then ret None
     else let y = x\<lparr>pi_candidate := (pi_candidate x)\<lparr>pc_leftover := True\<rparr>, pi_row := None, pi_files := files, pi_dirs := dirs\<rparr>
          in catching (bnd (verify_files s pl y) (\<lambda>u. ret (Some y))) (\<lambda>e. if e = purge_conflict then ret None else raise_exn e)))"

definition gone_for_good :: "'d site \<Rightarrow> purge_view \<Rightarrow> purge_item \<Rightarrow> bool act" where
  "gone_for_good s v x =
     (let i = pc_id (pi_candidate x) in
      case pc_kind (pi_candidate x) of
        NoteItem \<Rightarrow> ret (map_of (pv_notes v) i = None \<and> \<not> on_disk v i)
      | ArtifactItem \<Rightarrow> ret (i \<notin> set (pv_artifacts v))
      | EntityItem \<Rightarrow> bnd (load_catalog s) (\<lambda>l. ret (entity_at l i = None))
      | SourceItem \<Rightarrow> ret (map_of (pv_sources v) i = None \<and> i \<notin> set (protected v) \<and>
          (case pi_opening x of None \<Rightarrow> True | Some j \<Rightarrow> \<not> on_disk v j \<and> \<not> row_lives v j)))"

definition plan_residual :: "'d site \<Rightarrow> purge_lib \<Rightarrow> purge_view \<Rightarrow> str list \<Rightarrow> purge_item \<Rightarrow> purge_item list \<Rightarrow> purge_item list act" where
  "plan_residual s pl v kept x found =
     (let i = pc_id (pi_candidate x) in
      if i \<notin> set kept \<or> i \<in> set (map (\<lambda>y. pc_id (pi_candidate y)) found) then ret found
      else bnd (gone_for_good s v x) (\<lambda>gone.
           if \<not> gone then ret found
           else bnd (residual s pl x) (\<lambda>y. ret (case y of None \<Rightarrow> found | Some y \<Rightarrow> found @ [y]))))"

definition purge_plan :: "'d site \<Rightarrow> purge_lib \<Rightarrow> int \<Rightarrow> purge_view \<Rightarrow> (purge_item list \<times> purge_kept) act" where
  "purge_plan s pl cutoff v =
     bnd (each_in (plan_note s pl cutoff v) (pv_notes v) ([], 0)) (\<lambda>(xs, within).
     bnd (each_in (plan_source s pl v) (pv_sources v) xs) (\<lambda>xs.
     bnd (removed_archives s pl cutoff (pv_artifacts v)) (\<lambda>(removed, recent).
     bnd (each_in (\<lambda>r. each_in (plan_residual s pl v (pr_remaining r)) (pr_items r)) (pv_abandoned v) (xs @ removed)) (\<lambda>xs.
     ret (xs, \<lparr>pk_notes = within, pk_sources = length (filter (\<lambda>(i, r). i \<in> set (protected v)) (pv_sources v)), pk_artifacts = recent\<rparr>)))))"

text \<open>The notes whose removal a receipt proves.\<close>

definition purged_ids :: "purge_receipt list \<Rightarrow> purge_receipt list \<Rightarrow> str list" where
  "purged_ids done' left =
     concat (map (\<lambda>r. ids_of NoteItem (pr_items r)) done') @
     concat (map (\<lambda>r. filter (\<lambda>i. i \<in> set (pr_completed r)) (ids_of NoteItem (pr_items r))) left)"

definition first_links :: "(str \<times> str) list \<Rightarrow> (str, str) dict" where
  "first_links ls = foldl (\<lambda>d (j, i). if dget d i = None then dict_set d i j else d) [] ls"

definition purge_candidates :: "'d site \<Rightarrow> purge_lib \<Rightarrow> int \<Rightarrow> (purge_item list \<times> purge_kept) act" where
  "purge_candidates s pl now =
     (let cutoff = now - pl_days pl (ps_retention_days (st_settings s)) in
      bnd (disk_references s) (\<lambda>refs.
      bnd (saved_copies s pl) (\<lambda>saved.
      bnd (records s InDone) (\<lambda>complete.
      bnd (records s InAbandoned) (\<lambda>abandoned.
      bnd begin_tx (\<lambda>u.
      bnd (query s (\<lambda>b. sort_key fst (db_rows b))) (\<lambda>rows.
      bnd (query s (\<lambda>b. sort_key fst (t_sources (db_src b)))) (\<lambda>sources.
      bnd (query s (\<lambda>b. dkeys (mt_artifacts (db_more b)))) (\<lambda>arts.
      bnd (query s (\<lambda>b. t_links (db_src b))) (\<lambda>links.
      bnd (query s linked_sources) (\<lambda>linked.
      bnd (purge_plan s pl cutoff \<lparr>pv_refs = refs, pv_openings = first_links links, pv_saved = saved, pv_purged = purged_ids complete abandoned,
             pv_notes = rows, pv_sources = sources, pv_linked = linked, pv_abandoned = abandoned, pv_artifacts = arts\<rparr>) (\<lambda>(xs, kept).
      bnd (entity_items s (pl_docs pl) (pl_entity_row pl) cutoff (ids_of NoteItem xs)) (\<lambda>more'.
      ret (xs @ more', kept))))))))))))))"

section \<open>Problems\<close>

definition item_present :: "'d site \<Rightarrow> purge_item \<Rightarrow> bool act" where
  "item_present s x =
     disk_step s (\<lambda>now d. Inr (list_ex (occupied_name d)
       (map (\<lambda>f. area_path (pf_area f) (pf_path f)) (pi_files x) @ map (area_path (directory_area x)) (pi_dirs x)), d))"

definition item_row :: "'d site \<Rightarrow> purge_item \<Rightarrow> bool act" where
  "item_row s x =
     (let i = pc_id (pi_candidate x) in
      case pc_kind (pi_candidate x) of
        EntityItem \<Rightarrow> bnd (load_catalog s) (\<lambda>l. ret (entity_at l i \<noteq> None))
      | NoteItem \<Rightarrow> query s (\<lambda>b. row_of b i \<noteq> None)
      | SourceItem \<Rightarrow> query s (\<lambda>b. map_of (t_sources (db_src b)) i \<noteq> None)
      | ArtifactItem \<Rightarrow> query s (\<lambda>b. dget (mt_artifacts (db_more b)) i \<noteq> None))"

text \<open>\<open>outcome\<close>: what is gone, and what still has a row or a file.\<close>

definition judge_item :: "'d site \<Rightarrow> purge_item \<Rightarrow> str list \<times> str list \<Rightarrow> (str list \<times> str list) act" where
  "judge_item s x found =
     bnd (item_row s x) (\<lambda>row. bnd (if row then ret True else item_present s x) (\<lambda>kept.
     ret (if kept then (fst found, snd found @ [pc_id (pi_candidate x)]) else (fst found @ [pc_id (pi_candidate x)], snd found))))"

definition outcome :: "'d site \<Rightarrow> purge_item list \<Rightarrow> (str list \<times> str list) act" where
  "outcome s xs = bnd begin_tx (\<lambda>u. each_in (judge_item s) xs ([], []))"

definition left_over_of :: "'d site \<Rightarrow> purge_receipt \<Rightarrow> left_over list \<Rightarrow> left_over list act" where
  "left_over_of s r found =
     bnd (live_ids s (sort (remdups (pr_remaining r)))) (\<lambda>live.
     bnd (outcome s (filter (\<lambda>x. pc_id (pi_candidate x) \<in> set (pr_remaining r) \<and> pc_id (pi_candidate x) \<notin> set live) (pr_items r))) (\<lambda>(gone, remaining).
     ret (if remaining = [] then found
          else found @ [\<lparr>lo_token = pr_token r, lo_removed = length (pr_completed r), lo_ids = remaining,
                 lo_titles = filter (\<lambda>q. fst q \<in> set (take 50 remaining)) (map (\<lambda>x. (pc_id (pi_candidate x), pc_title (pi_candidate x))) (pr_items r))\<rparr>])))"

definition scan_bundles :: "'d site \<Rightarrow> purge_lib \<Rightarrow> damaged_bundle list act" where
  "scan_bundles s pl =
     bnd (bnd begin_tx (\<lambda>u. query s (\<lambda>b. sort_key fst (t_sources (db_src b))))) (\<lambda>named.
     bnd (damaged_bundles s (pl_docs pl) (map fst named)) (\<lambda>damaged.
     ret (map (\<lambda>i. case the (map_of named i) of r \<Rightarrow>
        \<lparr>dg_source = i, dg_provider = so_provider r, dg_external = so_external r, dg_cause = U ''manifest''\<rparr>) damaged)))"

definition kept_verification :: "'d site \<Rightarrow> damaged_bundle list act" where
  "kept_verification s =
     bnd (recorded s) (\<lambda>v. each_in (\<lambda>d found. if dg_cause d \<noteq> U ''recovery'' then ret found
       else bnd (there s (source_path (dg_source d))) (\<lambda>here. ret (if here then found @ [d] else found))) (pp_damaged v) [])"

definition scan_state :: "'d site \<Rightarrow> purge_lib \<Rightarrow> unit act" where
  "scan_state s pl =
     bnd (scan_bundles s pl) (\<lambda>damaged.
     bnd (records s InAbandoned) (\<lambda>rs.
     bnd (each_in (left_over_of s) rs []) (\<lambda>abandoned.
     bnd (kept_verification s) (\<lambda>verification.
     bnd (unreadable_receipts s [InDone, InAbandoned]) (\<lambda>bad.
     store_recorded s \<lparr>pp_damaged = damaged @ verification, pp_unreadable = bad, pp_abandoned = abandoned\<rparr>)))))"

text \<open>\<open>_rescan\<close>: a stale list must not undo a finished action; a cancellation is no \<open>Exception\<close>.\<close>

definition rescan :: "'d site \<Rightarrow> purge_lib \<Rightarrow> unit act" where
  "rescan s pl = catching (scan_state s pl) (\<lambda>e. if e = DbFailed Cancelled then raise_exn e else ret ())"

section \<open>A preview\<close>

definition drop_preview :: "'d site \<Rightarrow> purge_receipt \<Rightarrow> unit act" where
  "drop_preview s r = (if pr_state r = Preview then purges_step s (\<lambda>d. dict_pop d (AtRoot, pr_token r)) else ret ())"

definition purge_preview :: "'d site \<Rightarrow> dossier_lib \<Rightarrow> purge_lib \<Rightarrow> purge_result act" where
  "purge_preview s de pl =
     bnd (records s AtRoot) (\<lambda>existing.
     case filter unfinished existing of r # rs \<Rightarrow> ret (purge_answer r)
     | [] \<Rightarrow>
        bnd (refresh s de) (\<lambda>u.
        bnd (now_at s) (\<lambda>now.
        bnd (purge_candidates s pl now) (\<lambda>(xs, kept).
        bnd step_number (\<lambda>n.
        let r = \<lparr>pr_token = pl_token pl n, pr_state = Preview, pr_created = now, pr_days = ps_retention_days (st_settings s),
              pr_items = xs, pr_kept = kept, pr_completed = [], pr_remaining = [], pr_failed = False\<rparr> in
        bnd (save_receipt s r) (\<lambda>u.
        bnd (each_do (drop_preview s) existing) (\<lambda>u.
        bnd (rescan s pl) (\<lambda>u. ret (purge_answer r)))))))))"

section \<open>A confirmation\<close>

text \<open>\<open>_verify_resume\<close>: an interrupted list is checked item by item.\<close>

definition resume_ok :: "'d site \<Rightarrow> purge_lib \<Rightarrow> references \<Rightarrow> purge_view \<Rightarrow> purge_item \<Rightarrow> unit act" where
  "resume_ok s pl refs v x =
     (let i = pc_id (pi_candidate x) in
      bnd (case pc_kind (pi_candidate x) of
          EntityItem \<Rightarrow> bnd (load_catalog s) (\<lambda>l.
            demand (case entity_at l i of None \<Rightarrow> True | Some e \<Rightarrow> Some (pl_entity_row pl e) = pi_row x) purge_conflict)
        | NoteItem \<Rightarrow> bnd (demand (\<not> on_disk v i \<and> \<not> row_lives v i) purge_conflict) (\<lambda>u.
            demand (case map_of (pv_notes v) i of None \<Rightarrow> True | Some r \<Rightarrow> Some (pl_note_row pl i r) = pi_row x) purge_conflict)
        | ArtifactItem \<Rightarrow> bnd (query s (\<lambda>b. dget (mt_artifacts (db_more b)) i)) (\<lambda>r. demand (r = None) purge_conflict)
        | SourceItem \<Rightarrow> bnd (query s (\<lambda>b. map_of (t_sources (db_src b)) i)) (\<lambda>row.
            bnd (demand (i \<notin> set (protected v) \<and> (case pi_opening x of None \<Rightarrow> True | Some j \<Rightarrow> \<not> on_disk v j \<and> \<not> row_lives v j)) purge_conflict) (\<lambda>u.
            demand (case row of None \<Rightarrow> True | Some r \<Rightarrow> Some (pl_source_row pl i r) = pi_row x) purge_conflict)))
        (\<lambda>u. verify_files s pl x))"

definition verify_resume :: "'d site \<Rightarrow> purge_lib \<Rightarrow> purge_item list \<Rightarrow> unit act" where
  "verify_resume s pl xs =
     bnd (disk_references s) (\<lambda>refs.
     bnd begin_tx (\<lambda>u.
     bnd (query s db_rows) (\<lambda>rows.
     bnd (query s linked_sources) (\<lambda>linked.
     let v = \<lparr>pv_refs = refs, pv_openings = [], pv_saved = [], pv_purged = [], pv_notes = rows, pv_sources = [], pv_linked = linked,
           pv_abandoned = [], pv_artifacts = []\<rparr>
     in each_do (resume_ok s pl refs v) xs))))"

text \<open>Whether the item came back since the list was made.\<close>

definition came_back :: "references \<Rightarrow> str list \<Rightarrow> purge_item \<Rightarrow> bool" where
  "came_back refs arts x \<longleftrightarrow>
     (let i = pc_id (pi_candidate x) in
      case pc_kind (pi_candidate x) of
        NoteItem \<Rightarrow> i \<in> set (fst refs)
      | ArtifactItem \<Rightarrow> i \<in> set arts
      | SourceItem \<Rightarrow> i \<in> set (fst (snd refs)) \<or> (case pi_opening x of None \<Rightarrow> False | Some j \<Rightarrow> j \<in> set (fst refs))
      | EntityItem \<Rightarrow> False)"

text \<open>A row goes with what the schema cascades to.\<close>

definition delete_note :: "str \<Rightarrow> db \<Rightarrow> db" where
  "delete_note i b =
     b\<lparr>db_rows := filter (\<lambda>q. fst q \<noteq> i) (db_rows b),
       db_src := (db_src b)\<lparr>t_links := filter (\<lambda>q. fst q \<noteq> i) (t_links (db_src b))\<rparr>,
       db_more := (db_more b)\<lparr>mt_values := filter (\<lambda>v. fv_note v \<noteq> i) (mt_values (db_more b))\<rparr>\<rparr>"

definition delete_source :: "str \<Rightarrow> db \<Rightarrow> db" where
  "delete_source i = on_sources (\<lambda>t. t\<lparr>t_sources := filter (\<lambda>q. fst q \<noteq> i) (t_sources t),
     t_revisions := filter (\<lambda>q. fst (fst q) \<noteq> i) (t_revisions t), t_artifacts := filter (\<lambda>q. fst (fst q) \<noteq> i) (t_artifacts t),
     t_links := filter (\<lambda>q. snd q \<noteq> i) (t_links t)\<rparr>)"

text \<open>\<open>drop_source\<close> and \<open>drop_note\<close> of the indexer, then the row.\<close>

definition drop_row :: "'d site \<Rightarrow> purge_item \<Rightarrow> unit act" where
  "drop_row s x =
     (let i = pc_id (pi_candidate x) in
      case pc_kind (pi_candidate x) of
        NoteItem \<Rightarrow> bnd (execute s (drop_doc i)) (\<lambda>u. execute s (delete_note i))
      | ArtifactItem \<Rightarrow> ret ()
      | EntityItem \<Rightarrow> bnd (execute s (on_more (\<lambda>m. m\<lparr>mt_entities := dict_pop (mt_entities m) i\<rparr>))) (\<lambda>u.
          execute s (on_more (\<lambda>m. m\<lparr>mt_entity_docs := dict_pop (mt_entity_docs m) i\<rparr>)))
      | SourceItem \<Rightarrow> bnd (execute s (on_more (\<lambda>m. m\<lparr>mt_source_docs := dict_pop (mt_source_docs m) i\<rparr>))) (\<lambda>u. execute s (delete_source i)))"

definition drop_rows :: "'d site \<Rightarrow> purge_item list \<Rightarrow> unit act" where
  "drop_rows s xs =
     transaction s (
       bnd (query s (\<lambda>b. ())) (\<lambda>u.
       bnd (disk_references s) (\<lambda>refs.
       bnd (query s (\<lambda>b. dkeys (mt_artifacts (db_more b)))) (\<lambda>arts.
       bnd (demand (\<not> list_ex (came_back refs arts) xs) purge_conflict) (\<lambda>u.
       each_do (drop_row s) xs)))))"

text \<open>What \<open>except BaseException\<close> sees.\<close>

definition captured :: "'a act \<Rightarrow> (exn + 'a) act" where
  "captured m w = (case m w of (r, w') \<Rightarrow> (Inr r, w'))"

definition purge_failed :: "'d site \<Rightarrow> purge_receipt \<Rightarrow> bool \<Rightarrow> exn \<Rightarrow> 'a act" where
  "purge_failed s r after e =
     bnd (save_receipt s (r\<lparr>pr_state := (if after then Failed else Preview), pr_failed := True\<rparr>)) (\<lambda>u. raise_exn e)"

definition remove_listed :: "'d site \<Rightarrow> dossier_lib \<Rightarrow> purge_lib \<Rightarrow> purge_receipt \<Rightarrow> unit act" where
  "remove_listed s de pl r =
     bnd (each_do (unlink_item s pl) (pr_items r)) (\<lambda>u.
     bnd (purge_dossiers s de (ids_of NoteItem (pr_items r)) (ids_of EntityItem (pr_items r)) (pr_token r)) (\<lambda>u.
     bnd (load_catalog s) (\<lambda>l. mirror_catalog s l None)))"

definition apply_purge :: "'d site \<Rightarrow> dossier_lib \<Rightarrow> purge_lib \<Rightarrow> bool \<Rightarrow> purge_receipt \<Rightarrow> purge_receipt act" where
  "apply_purge s de pl resuming r =
     bnd (captured (drop_rows s (pr_items r))) (\<lambda>x. case x of Inl e \<Rightarrow> purge_failed s r resuming e | Inr u \<Rightarrow>
     bnd (captured (remove_listed s de pl r)) (\<lambda>x. case x of Inl e \<Rightarrow> purge_failed s r True e | Inr u \<Rightarrow>
     let r' = r\<lparr>pr_state := Complete, pr_completed := map (\<lambda>x. pc_id (pi_candidate x)) (pr_items r)\<rparr> in
     bnd (captured (save_receipt s r')) (\<lambda>x. case x of Inl e \<Rightarrow> purge_failed s r' True e | Inr u \<Rightarrow> ret r')))"

definition purge_admitted :: "'d site \<Rightarrow> purge_lib \<Rightarrow> purge_receipt \<Rightarrow> unit act" where
  "purge_admitted s pl r =
     (if pr_state r = Preview
      then bnd (demand (pr_days r = ps_retention_days (st_settings s)) purge_conflict) (\<lambda>u.
           bnd (now_at s) (\<lambda>now. bnd (purge_candidates s pl now) (\<lambda>(xs, kept).
           demand (xs = pr_items r) purge_conflict)))
      else verify_resume s pl (pr_items r))"

text \<open>What a confirmation does with the receipt it read: the guards, the list again, and the removal.\<close>

definition carry_out :: "'d site \<Rightarrow> dossier_lib \<Rightarrow> purge_lib \<Rightarrow> purge_receipt \<Rightarrow> purge_result act" where
  "carry_out s de pl r =
     (let r' = r\<lparr>pr_state := Applying, pr_failed := False\<rparr>
      in bnd (save_receipt s r') (\<lambda>u.
         bnd (apply_purge s de pl (pr_state r \<noteq> Preview) r') (\<lambda>r''.
         bnd (rescan s pl) (\<lambda>u. ret (purge_answer r'')))))"

definition confirm_receipt :: "'d site \<Rightarrow> dossier_lib \<Rightarrow> purge_lib \<Rightarrow> str \<Rightarrow> purge_receipt \<Rightarrow> purge_result act" where
  "confirm_receipt s de pl t r =
     bnd (records s AtRoot) (\<lambda>rs.
     bnd (demand (\<not> list_ex (\<lambda>q. pr_token q \<noteq> t \<and> unfinished q) rs)
            (refused ''Finish the interrupted purge before confirming another list.'')) (\<lambda>u.
     if pr_state r = Complete then ret (purge_answer r)
     else if pr_state r = Abandoned then raise_exn (refused ''This purge was abandoned. Run a new preview.'')
     else bnd (purge_admitted s pl r) (\<lambda>u. carry_out s de pl r)))"

definition confirm_purge :: "'d site \<Rightarrow> dossier_lib \<Rightarrow> purge_lib \<Rightarrow> str \<Rightarrow> purge_result act" where
  "confirm_purge s de pl t = bnd (read_receipt s t) (confirm_receipt s de pl t)"

section \<open>Giving up\<close>

definition quarantine_receipt :: "'d site \<Rightarrow> receipt_place \<Rightarrow> str \<Rightarrow> purge_result act" where
  "quarantine_receipt s p t =
     bnd (purges_step s (\<lambda>d. case dget d (p, t) of None \<Rightarrow> d | Some r \<Rightarrow> dict_set (dict_pop d (p, t)) (InQuarantine, t) r)) (\<lambda>u.
     bnd (now_at s) (\<lambda>now.
     ret (purge_answer \<lparr>pr_token = t, pr_state = Abandoned, pr_created = now, pr_days = ps_retention_days (st_settings s), pr_items = [],
            pr_kept = \<lparr>pk_notes = 0, pk_sources = 0, pk_artifacts = 0\<rparr>, pr_completed = [], pr_remaining = [], pr_failed = False\<rparr>)))"

definition abandon_purge :: "'d site \<Rightarrow> purge_lib \<Rightarrow> str \<Rightarrow> purge_result act" where
  "abandon_purge s pl t =
     bnd (locate_receipt s t) (\<lambda>p.
     bnd (try_receipt s p t) (\<lambda>x. case x of
       None \<Rightarrow> bnd (quarantine_receipt s p t) (\<lambda>a. bnd (rescan s pl) (\<lambda>u. ret a))
     | Some r \<Rightarrow>
         bnd (demand (unfinished r) (refused ''Only an unfinished purge can be abandoned.'')) (\<lambda>u.
         bnd (outcome s (pr_items r)) (\<lambda>(removed, remaining).
         let r' = r\<lparr>pr_state := Abandoned, pr_completed := removed, pr_remaining := remaining\<rparr> in
         bnd (save_receipt s r') (\<lambda>u. bnd (rescan s pl) (\<lambda>u. ret (purge_answer r')))))))"

section \<open>The operation\<close>

datatype purge_request = PreviewPurge | ConfirmPurge str | AbandonPurge str

definition preview_failure :: "'d site \<Rightarrow> purge_lib \<Rightarrow> unit act" where
  "preview_failure s pl =
     catching (bnd (now_at s) (\<lambda>now. bnd step_number (\<lambda>n.
       save_receipt s \<lparr>pr_token = pl_token pl n, pr_state = Preview, pr_created = now, pr_days = ps_retention_days (st_settings s), pr_items = [],
         pr_kept = \<lparr>pk_notes = 0, pk_sources = 0, pk_artifacts = 0\<rparr>, pr_completed = [], pr_remaining = [], pr_failed = True\<rparr>)))
       (\<lambda>e. if is_oserror e \<or> e = PyFault then ret () else raise_exn e)"

definition unsafe_purge :: str where
  "unsafe_purge = U ''Purge could not safely read or remove files. Inspect Problems and retry.''"

definition purge_error :: "purge_lib \<Rightarrow> exn \<Rightarrow> exn option" where
  "purge_error pl e =
     (case e of
        DbFailed Cancelled \<Rightarrow> None
      | DbFailed x \<Rightarrow> Some (Typed (MetadataUnavailable (U ''purge metadata unavailable'')))
      | _ \<Rightarrow> if page_trouble e
             then Some (Typed (if pl_in_sources pl e then SourcesFilesystemUnavailable unsafe_purge else NotesFilesystemUnavailable unsafe_purge))
             else None)"

definition purge_operation :: "'d site \<Rightarrow> dossier_lib \<Rightarrow> purge_lib \<Rightarrow> purge_request \<Rightarrow> purge_result act" where
  "purge_operation s de pl q =
     catching (case q of PreviewPurge \<Rightarrow> purge_preview s de pl | ConfirmPurge t \<Rightarrow> confirm_purge s de pl t | AbandonPurge t \<Rightarrow> abandon_purge s pl t)
       (\<lambda>e. case purge_error pl e of None \<Rightarrow> raise_exn e
          | Some e' \<Rightarrow> bnd (if q = PreviewPurge then preview_failure s pl else ret ()) (\<lambda>u. raise_exn e'))"

end
