(* ===== verification/PurgeSafety.thy ===== *)
theory PurgeSafety
  imports PurgeService DossierPagesSafe
begin

text \<open>
  What a purge removes.  A file is removed only when the receipt lists it with the hash of what it holds; a confirmation
  whose receipt is still a preview has removed nothing; and what is listed nothing on the disk or in the mirror holds.
\<close>

lemma keepsD: "keeps P m \<Longrightarrow> m w = (x, w') \<Longrightarrow> P (w_disk w) \<Longrightarrow> P (w_disk w')"
  by (cases x) (auto dest: tripleD)

section \<open>Operations that only look\<close>

lemma triple_kind [keeps_intros]:
  "keeps P a \<Longrightarrow> keeps P b \<Longrightarrow> keeps P c \<Longrightarrow> keeps P d \<Longrightarrow> keeps P (case_purge_kind a b c d k)"
  by (cases k) auto

lemma triple_each_map: "(\<And>x. x \<in> set xs \<Longrightarrow> keeps P (f x)) \<Longrightarrow> keeps P (each_map f xs)"
  by (induction xs) (auto intro!: keeps_intros)

lemma keeps_files_below [keeps_intros]: "lasting s P \<Longrightarrow> keeps P (files_below s p)"
  unfolding files_below_def by (intro keeps_intros)

lemma keeps_dirs_below [keeps_intros]: "lasting s P \<Longrightarrow> keeps P (dirs_below s p)"
  unfolding dirs_below_def by (intro keeps_intros)

lemma keeps_each_safe [keeps_intros]: "keeps P (each_safe a ps)"
  unfolding each_safe_def by (intro keeps_each_do keeps_intros)

lemma keeps_hashed_file [keeps_intros]: "lasting s P \<Longrightarrow> keeps P (hashed_file s dl a p)"
  unfolding hashed_file_def by (intro keeps_intros)

lemma keeps_hashed_files [keeps_intros]: "lasting s P \<Longrightarrow> keeps P (hashed_files s pl a ps)"
  unfolding hashed_files_def by (intro triple_each_map keeps_intros)

lemma keeps_disk_references [keeps_intros]: "lasting s P \<Longrightarrow> keeps P (disk_references s)"
  unfolding disk_references_def add_references_def by (intro keeps_intros keeps_each_in)

lemma keeps_bundle_at [keeps_intros]: "lasting s P \<Longrightarrow> keeps P (bundle_at s dl i)"
  unfolding bundle_at_def by (intro keeps_intros)

lemma keeps_saved_copies [keeps_intros]: "lasting s P \<Longrightarrow> keeps P (saved_copies s pl)"
  unfolding saved_copies_def read_copy_def by (intro keeps_intros keeps_each_in)

lemma keeps_purges_step [keeps_intros]: "lasting s P \<Longrightarrow> keeps P (purges_step s f)"
  unfolding purges_step_def by (rule keeps_own_step) simp_all

lemma keeps_save_receipt [keeps_intros]: "lasting s P \<Longrightarrow> keeps P (save_receipt s r)"
  unfolding save_receipt_def drop_elsewhere_def by (intro keeps_intros keeps_each_do)

lemma keeps_recorded [keeps_intros]:
  assumes "lasting s P"
  shows "keeps P (recorded s)" and "keeps P (store_recorded s v)" and "keeps P (change_recorded s f)"
    and "keeps P (note_damaged s e)" and "keeps P (note_repaired s i c)" and "keeps P (records s p)" and "keeps P (unreadable_receipts s ps)"
  unfolding recorded_def store_recorded_def change_recorded_def note_damaged_def note_repaired_def records_def unreadable_receipts_def
  by (intro keeps_intros keeps_own_step assms; simp)+

lemma keeps_first_place [keeps_intros]: "lasting s P \<Longrightarrow> keeps P (first_place s t ps)"
  by (induction ps) (auto intro!: keeps_intros)

lemma keeps_read_receipt [keeps_intros]:
  assumes "lasting s P"
  shows "keeps P (locate_receipt s t)" and "keeps P (try_receipt s p t)" and "keeps P (read_receipt s t)"
  unfolding read_receipt_def locate_receipt_def try_receipt_def by (intro keeps_intros assms)+

lemma keeps_live_ids [keeps_intros]: "lasting s P \<Longrightarrow> keeps P (live_ids s ids)"
  unfolding live_ids_def by (intro keeps_intros)

lemma keeps_page_files [keeps_intros]:
  assumes "lasting s P"
  shows "keeps P (page_file s pl i p)" and "keeps P (claim_file s pl i p)" and "keeps P (if_there s p)"
  unfolding page_file_def claim_file_def if_there_def by (intro keeps_intros assms)+

lemma keeps_plan_note [keeps_intros]: "lasting s P \<Longrightarrow> keeps P (plan_note s pl cutoff v q found)"
  unfolding plan_note_def note_item_def by (intro keeps_intros)

lemma keeps_plan_source [keeps_intros]: "lasting s P \<Longrightarrow> keeps P (plan_source s pl v q found)"
  unfolding plan_source_def source_item_def Let_def by (intro keeps_intros triple_each_map)

lemma keeps_removed_archives [keeps_intros]: "lasting s P \<Longrightarrow> keeps P (removed_archives s pl cutoff alive)"
  unfolding removed_archives_def plan_archive_def by (intro keeps_intros keeps_each_in)

lemma keeps_verify_files [keeps_intros]: "lasting s P \<Longrightarrow> keeps P (verify_files s pl x)"
  unfolding verify_files_def unchanged_file_def file_digest_def all_listed_def Let_def
  by (intro keeps_intros keeps_each_do)

lemma keeps_residual [keeps_intros]: "lasting s P \<Longrightarrow> keeps P (residual s pl x)"
  unfolding residual_def still_there_def Let_def by (intro keeps_intros keeps_each_in)

lemma keeps_gone_for_good [keeps_intros]: "lasting s P \<Longrightarrow> keeps P (gone_for_good s v x)"
  unfolding gone_for_good_def Let_def by (intro keeps_intros)

lemma keeps_purge_plan [keeps_intros]: "lasting s P \<Longrightarrow> keeps P (purge_plan s pl cutoff v)"
  unfolding purge_plan_def plan_residual_def Let_def by (intro keeps_intros keeps_each_in)

lemma keeps_entity_items [keeps_intros]: "lasting s P \<Longrightarrow> keeps P (entity_items s dl fp cutoff ids)"
  unfolding entity_items_def purge_item_of_def entity_item_def by (intro keeps_intros keeps_each_in)

lemma keeps_purge_candidates [keeps_intros]: "lasting s P \<Longrightarrow> keeps P (purge_candidates s pl now)"
  unfolding purge_candidates_def Let_def by (intro keeps_intros keeps_each_in)

lemma keeps_outcome [keeps_intros]:
  assumes "lasting s P"
  shows "keeps P (outcome s xs)"
proof -
  have "keeps P (item_row s x)" for x
    unfolding item_row_def Let_def by (intro keeps_intros assms)
  then show ?thesis
    unfolding outcome_def judge_item_def item_present_def by (intro keeps_intros keeps_each_in assms)
qed

lemma keeps_rescan [keeps_intros]: "lasting s P \<Longrightarrow> keeps P (rescan s pl)"
  unfolding rescan_def scan_state_def scan_bundles_def damaged_bundles_def left_over_of_def kept_verification_def
  by (intro keeps_intros keeps_each_in)

lemma keeps_admitted [keeps_intros]:
  assumes "lasting s P"
  shows "keeps P (purge_admitted s pl r)"
proof -
  have "keeps P (resume_ok s pl refs v x)" for refs v x
    unfolding resume_ok_def Let_def by (intro keeps_intros assms)
  then show ?thesis
    unfolding purge_admitted_def verify_resume_def Let_def by (intro keeps_intros keeps_each_do assms)
qed

lemma keeps_drop_rows [keeps_intros]:
  assumes "lasting s P"
  shows "keeps P (drop_rows s xs)"
proof -
  have "keeps P (drop_row s x)" for x
    unfolding drop_row_def Let_def by (intro keeps_intros assms)
  then show ?thesis
    unfolding drop_rows_def by (intro keeps_intros keeps_each_do assms)
qed

lemma keeps_captured [keeps_intros]: "keeps P m \<Longrightarrow> keeps P (captured m)"
  unfolding triple_def captured_def by (auto split: prod.splits sum.splits) 

lemma keeps_purge_failed [keeps_intros]: "lasting s P \<Longrightarrow> keeps P (purge_failed s r after e)"
  unfolding purge_failed_def by (intro keeps_intros)

section \<open>The steps that remove\<close>

lemma bnd_ret: "bnd (ret x) g = g x"
  by (simp add: bnd_def ret_def fun_eq_iff)

text \<open>\<open>lists pl f b x\<close>: the item names the file \<open>f\<close> with the hash of \<open>b\<close>.\<close>

definition lists :: "purge_lib \<Rightarrow> str \<Rightarrow> bytes \<Rightarrow> purge_item \<Rightarrow> bool" where
  "lists pl f b x \<longleftrightarrow> list_ex (\<lambda>q. file_path q = Inr f \<and> pf_hash q = dl_sha (pl_docs pl) b) (pi_files x)"

lemma triple_file_digest:
  assumes "lasting s (held F f b)"
  shows "triple (held F f b) (file_digest s pl p) (\<lambda>h d. held F f b d \<and> (p = f \<longrightarrow> h = dl_sha (pl_docs pl) b)) (\<lambda>e. held F f b)"
  unfolding file_digest_def
  by (rule triple_bnd [OF triple_catching [OF triple_read_page [OF assms]]]) (auto intro!: triple_ret triple_raise)

lemma keeps_remove_file:
  assumes l: "lasting s (held F f b)" and "\<not> (file_path q = Inr f \<and> pf_hash q = dl_sha (pl_docs pl) b)"
  shows "keeps (held F f b) (remove_file s pl q)"
proof (cases "file_path q")
  case (Inl e)
  then show ?thesis
    by (simp add: remove_file_def of_sum_def bnd_def raise_exn_def triple_def)
next
  case (Inr p)
  have "keeps (held F f b) (bnd (demand (h = pf_hash q) purge_conflict) (\<lambda>u. bnd (unlink s p) (\<lambda>u. sync_folder s p)))"
    if "p = f \<longrightarrow> h = dl_sha (pl_docs pl) b" for h
  proof (cases "h = pf_hash q")
    case True
    then have "p \<noteq> f" using that assms(2) Inr by auto
    then show ?thesis by (intro keeps_intros l)
  next
    case False
    then show ?thesis by (simp add: demand_def bnd_def raise_exn_def triple_def)
  qed
  then have "keeps (held F f b) (bnd (file_digest s pl p) (\<lambda>h. bnd (demand (h = pf_hash q) purge_conflict) (\<lambda>u.
      bnd (unlink s p) (\<lambda>u. sync_folder s p))))"
    by (intro triple_bnd [OF triple_file_digest [OF l]] triple_given)
  then show ?thesis
    unfolding remove_file_def Inr of_sum_def sum.case bnd_ret
    by (intro triple_bnd [OF keeps_there] triple_if keeps_ret l)
qed

lemma keeps_remove_dir [keeps_intros]:
  assumes "lasting s (held [] f b)"
  shows "keeps (held [] f b) (disk_step s (remove_dir p))"
  by (rule keeps_disk_step [OF assms]) (auto simp: remove_dir_def held_def wf_fsys_def file_at_def node_at_def split: if_splits)

lemma keeps_unlink_item:
  assumes l: "lasting s (held [] f b)" and "\<not> lists pl f b x"
  shows "keeps (held [] f b) (unlink_item s pl x)"
  using assms(2) unfolding unlink_item_def remove_folder_def
  by (intro keeps_intros keeps_each_do keeps_remove_file l) (auto simp: lists_def list_ex_iff)

lemma keeps_apply_purge:
  assumes np: "no_page s b" and sec: "secure s [] f b" and "\<not> list_ex (lists pl f b) (pr_items r)"
  shows "keeps (held [] f b) (apply_purge s de pl resuming r)"
proof -
  note l = secure_lasting [OF sec]
  have "keeps (held [] f b) (remove_listed s de pl r)"
    unfolding remove_listed_def
    by (intro keeps_intros keeps_each_do keeps_unlink_item keeps_purge_dossiers l np sec) (use assms(3) in \<open>auto simp: list_ex_iff\<close>)
  then show ?thesis
    unfolding apply_purge_def Let_def by (intro keeps_intros keeps_captured l)
qed

section \<open>Which receipt is confirmed\<close>

text \<open>\<open>sustains J m\<close>: what holds of the receipts before \<open>m\<close> holds of them after it, however it ends.\<close>

type_synonym receipt_files = "(receipt_place \<times> str, purge_receipt option) dict"

definition receipts_in :: "world \<Rightarrow> receipt_files" where
  "receipts_in w = fl_purges (w_files w)"

definition sustains :: "(receipt_files \<Rightarrow> bool) \<Rightarrow> 'a act \<Rightarrow> bool" where
  "sustains J m \<longleftrightarrow> (\<forall>w. J (receipts_in w) \<longrightarrow> J (receipts_in (snd (m w))))"

named_theorems sustains_intros

lemma sustainsD: "sustains J m \<Longrightarrow> m w = (x, w') \<Longrightarrow> J (receipts_in w) \<Longrightarrow> J (receipts_in w')"
  unfolding sustains_def by (metis snd_conv)

lemma sustains_pure: "(\<And>w. receipts_in (snd (m w)) = receipts_in w) \<Longrightarrow> sustains J m"
  by (simp add: sustains_def)

lemma sustains_ret [sustains_intros]: "sustains J (ret x)"
  and sustains_raise [sustains_intros]: "sustains J (raise_exn e)"
  and sustains_now [sustains_intros]: "sustains J (now_at s)"
  and sustains_number [sustains_intros]: "sustains J step_number"
  and sustains_begin [sustains_intros]: "sustains J begin_tx"
  and sustains_read_world [sustains_intros]: "sustains J (\<lambda>w. (Inr (g w), w))"
  by (rule sustains_pure, simp add: ret_def raise_exn_def now_at_def step_number_def begin_tx_def receipts_in_def)+

lemma receipts_tick [simp]: "receipts_in (tick s w) = receipts_in w"
  by (simp add: receipts_in_def tick_def split: prod.split)

lemma sustains_disk_step [sustains_intros]: "sustains J (disk_step s f)"
  by (rule sustains_pure) (use receipts_tick [of s] in \<open>auto simp: disk_step_def Let_def receipts_in_def split: option.split sum.split\<close>)

lemma sustains_query [sustains_intros]: "sustains J (query s g)"
  by (rule sustains_pure) (simp add: query_def Let_def split: option.split)

lemma sustains_execute [sustains_intros]: "sustains J (execute s g)"
  by (rule sustains_pure) (use receipts_tick [of s] in \<open>auto simp: execute_def execute_with_def Let_def receipts_in_def split: option.split\<close>)

lemma sustains_commit [sustains_intros]: "sustains J (commit s)"
  by (rule sustains_pure) (use receipts_tick [of s] in \<open>auto simp: commit_def Let_def receipts_in_def split: option.split\<close>)

lemma sustains_own_step:
  "(\<And>w. J (receipts_in w) \<Longrightarrow> J (receipts_in (snd (g w)))) \<Longrightarrow> sustains J (own_step s g)"
  by (simp add: sustains_def own_step_def Let_def split: option.split)

lemma sustains_own_read [sustains_intros]: "sustains J (own_step s (\<lambda>w. (g w, w)))"
  by (rule sustains_own_step) simp

lemma sustains_bnd [sustains_intros]: "sustains J m \<Longrightarrow> (\<And>x. sustains J (g x)) \<Longrightarrow> sustains J (bnd m g)"
  by (auto simp: sustains_def bnd_def split: prod.split sum.split)

lemma sustains_catching [sustains_intros]: "sustains J m \<Longrightarrow> (\<And>e. sustains J (h e)) \<Longrightarrow> sustains J (catching m h)"
  by (auto simp: sustains_def catching_def split: prod.split sum.split)

lemma sustains_finally [sustains_intros]: "sustains J m \<Longrightarrow> sustains J c \<Longrightarrow> sustains J (finally_do m c)"
  by (auto simp: sustains_def finally_do_def split: prod.split sum.split)

lemma sustains_captured [sustains_intros]: "sustains J m \<Longrightarrow> sustains J (captured m)"
  by (auto simp: sustains_def captured_def split: prod.split)

lemma sustains_transaction [sustains_intros]: "sustains J m \<Longrightarrow> sustains J (transaction s m)"
proof -
  assume m: "sustains J m"
  have c: "sustains J (bnd (commit s) (\<lambda>u. ret x))" for x by (intro sustains_intros)
  have "J (receipts_in (snd (finish s m w)))" if "J (receipts_in w)" for w
  proof (cases "m w")
    case (Pair r w1)
    have "J (receipts_in w1)" using m Pair that by (rule sustainsD)
    then show ?thesis
      using Pair c [unfolded sustains_def, rule_format, of w1] by (cases r) (simp_all add: finish_def, simp add: receipts_in_def)
  qed
  then show ?thesis
    unfolding transaction_def by (intro sustains_intros) (simp add: sustains_def)
qed

lemma sustains_if: "sustains J a \<Longrightarrow> sustains J b \<Longrightarrow> sustains J (if c then a else b)"
  and sustains_prod: "(\<And>x y. sustains J (g x y)) \<Longrightarrow> sustains J (case_prod g p)"
  and sustains_option: "sustains J n \<Longrightarrow> (\<And>y. sustains J (h y)) \<Longrightarrow> sustains J (case_option n h q)"
  and sustains_sum: "(\<And>e. sustains J (k e)) \<Longrightarrow> (\<And>y. sustains J (h y)) \<Longrightarrow> sustains J (case_sum k h r)"
  and sustains_list: "sustains J n \<Longrightarrow> (\<And>y ys. sustains J (u y ys)) \<Longrightarrow> sustains J (case_list n u zs)"
  and sustains_Let: "sustains J (h v) \<Longrightarrow> sustains J (Let v h)"
  and sustains_kind: "sustains J a \<Longrightarrow> sustains J b \<Longrightarrow> sustains J c' \<Longrightarrow> sustains J d \<Longrightarrow> sustains J (case_purge_kind a b c' d kd)"
  by (simp_all split: prod.split option.split sum.split list.split purge_kind.split)

lemma sustains_pyval:
  "sustains J a \<Longrightarrow> (\<And>x. sustains J (b x)) \<Longrightarrow> (\<And>x. sustains J (c x)) \<Longrightarrow> (\<And>x. sustains J (d x)) \<Longrightarrow> (\<And>x. sustains J (e x)) \<Longrightarrow>
   (\<And>x y z u. sustains J (g x y z u)) \<Longrightarrow> (\<And>x. sustains J (h x)) \<Longrightarrow> (\<And>x. sustains J (i x)) \<Longrightarrow> (\<And>x. sustains J (j x)) \<Longrightarrow>
   sustains J (case_pyval a b c d e g h i j v)"
  by (cases v) auto

lemmas sustains_cases [sustains_intros] = sustains_if sustains_prod sustains_option sustains_sum sustains_list sustains_Let sustains_kind

lemma sustains_each_do [sustains_intros]: "(\<And>x. sustains J (g x)) \<Longrightarrow> sustains J (each_do g xs)"
  by (induction xs) (auto intro!: sustains_intros)

lemma sustains_each_in [sustains_intros]: "(\<And>x st. sustains J (g x st)) \<Longrightarrow> sustains J (each_in g xs st)"
  by (induction xs arbitrary: st) (auto intro!: sustains_intros)

lemma sustains_of_sum [sustains_intros]: "sustains J (of_sum r)"
  unfolding of_sum_def by (intro sustains_intros)

lemma sustains_demand [sustains_intros]: "sustains J (demand c e)"
  unfolding demand_def by (intro sustains_intros)

text \<open>What a purge does besides its receipts.\<close>

lemma sustains_catalog [sustains_intros]:
  "sustains J (load_catalog s)" "sustains J (store_catalog s l)" "sustains J (save_catalog s l)" "sustains J (purge_pending s)"
  unfolding load_catalog_def store_catalog_def save_catalog_def purge_pending_def
  by (intro sustains_intros sustains_own_step; simp add: receipts_in_def)+

lemma sustains_recorded [sustains_intros]:
  "sustains J (recorded s)" "sustains J (store_recorded s v)" "sustains J (records s p)" "sustains J (unreadable_receipts s ps)"
  "sustains J (note_damaged s e)" "sustains J (note_repaired s i c)"
  unfolding recorded_def store_recorded_def records_def unreadable_receipts_def note_damaged_def note_repaired_def change_recorded_def
    recorded_def store_recorded_def
  by (intro sustains_intros sustains_own_step; simp add: receipts_in_def)+

lemma sustains_looks [sustains_intros]:
  "sustains J (there s p)" "sustains J (read_page s p)" "sustains J (unlink s p)" "sustains J (unlink_missing_ok s p)"
  "sustains J (sync_folder s p)" "sustains J (create_exclusive s p data)" "sustains J (stage s p data)" "sustains J (commit_temp s tmp p)"
  unfolding there_def read_page_def unlink_def unlink_missing_ok_def sync_folder_def create_exclusive_def stage_def commit_temp_def replace_temp_def sync_folder_def unlink_missing_ok_def
  by (intro sustains_intros)+

lemma sustains_project [sustains_intros]: "sustains J (project s de i st)"
proof -
  have "sustains J (observe_page s de c e)" for c e
    unfolding observe_page_def by (intro sustains_intros)
  moreover have "sustains J (place_page s c e raw)" for c e raw
    unfolding place_page_def write_page_def attempt_def Let_def by (intro sustains_intros)
  ultimately show ?thesis
    unfolding project_def attempt_def by (intro sustains_intros)
qed

lemma sustains_mirror [sustains_intros]: "sustains J (mirror_catalog s l read)"
  unfolding mirror_catalog_def mirror_entity_def personal_text_def Let_def by (intro sustains_intros)

lemma sustains_purge_dossiers [sustains_intros]: "sustains J (purge_dossiers s de ns es t)"
proof -
  have "sustains J (context_step s g)" for g
    unfolding context_step_def by (rule sustains_own_step) (simp add: receipts_in_def)
  then show ?thesis
    unfolding purge_dossiers_def project_purged_def Let_def by (intro sustains_intros)
qed

lemma sustains_references [sustains_intros]: "sustains J (disk_references s)"
  unfolding disk_references_def add_references_def by (intro sustains_intros)

lemma sustains_drop_rows [sustains_intros]: "sustains J (drop_rows s xs)"
  unfolding drop_rows_def drop_row_def Let_def by (intro sustains_intros)

lemma sustains_remove_listed [sustains_intros]: "sustains J (remove_listed s de pl r)"
  unfolding remove_listed_def unlink_item_def remove_file_def remove_folder_def file_digest_def by (intro sustains_intros)

lemma sustains_rescan [sustains_intros]: "sustains J (rescan s pl)"
proof -
  have "sustains J (bundle_at s dl i)" for dl i
    unfolding bundle_at_def files_below_def read_json_def read_bytes_def Let_def by (intro sustains_intros sustains_pyval)
  then show ?thesis
    unfolding rescan_def scan_state_def scan_bundles_def damaged_bundles_def left_over_of_def kept_verification_def live_ids_def
      outcome_def judge_item_def item_row_def item_present_def Let_def
    by (intro sustains_intros)
qed

lemma sustains_find [sustains_intros]:
  "sustains J (locate_receipt s t)" "sustains J (try_receipt s p t)" "sustains J (read_receipt s t)"
proof -
  have first: "sustains J (first_place s t ps)" for ps
    by (induction ps) (auto intro!: sustains_intros)
  show "sustains J (locate_receipt s t)" "sustains J (try_receipt s p t)" "sustains J (read_receipt s t)"
    unfolding read_receipt_def locate_receipt_def try_receipt_def by (intro sustains_intros first)+
qed

section \<open>A purge removes what its receipt lists\<close>

lemma receipt_read:
  assumes "read_receipt s t w = (Inr r, w')"
  shows "(\<exists>p. dget (receipts_in w) (p, t) = Some (Some r)) \<and> pr_token r = t"
proof -
  obtain p w1 where 1: "locate_receipt s t w = (Inr p, w1)" and 2: "try_receipt s p t w1 = (Inr (Some r), w')"
    using assms by (auto simp: read_receipt_def bnd_def ret_def raise_exn_def split: prod.splits sum.splits option.splits)
  have "receipts_in w1 = receipts_in w"
    using sustainsD [OF sustains_find(1) 1, of "(=) (receipts_in w)"] by simp
  moreover have "receipt_here (p, t) (w_files (tick s w1)) = Some r"
    using 2 by (auto simp: try_receipt_def catching_def own_step_def Let_def ret_def raise_exn_def split: option.splits if_splits)
  ultimately show ?thesis
    using receipts_tick [of s w1]
    by (auto simp: receipt_here_def load_receipt_def receipts_in_def split: option.splits if_splits)
qed

lemma keeps_confirm_receipt:
  assumes np: "no_page s b" and sec: "secure s [] f b" and "\<not> list_ex (lists pl f b) (pr_items r)"
  shows "keeps (held [] f b) (confirm_receipt s de pl t r)"
  unfolding confirm_receipt_def carry_out_def Let_def
  by (intro keeps_intros keeps_apply_purge np sec secure_lasting [OF sec]) (simp add: assms(3))

lemma keeps_confirm_purge:
  assumes np: "no_page s b" and sec: "secure s [] f b" and h: "held [] f b (w_disk w)"
    and r: "\<And>p r. dget (receipts_in w) (p, t) = Some (Some r) \<Longrightarrow> \<not> list_ex (lists pl f b) (pr_items r)"
  shows "held [] f b (w_disk (snd (confirm_purge s de pl t w)))"
proof -
  obtain x w1 where x: "read_receipt s t w = (x, w1)" by fastforce
  have h1: "held [] f b (w_disk w1)"
    by (rule keepsD [OF keeps_read_receipt(3) [OF secure_lasting [OF sec]] x h])
  show ?thesis
  proof (cases x)
    case (Inl e)
    then show ?thesis using x h1 by (simp add: confirm_purge_def bnd_def)
  next
    case (Inr q)
    with receipt_read x r have k: "keeps (held [] f b) (confirm_receipt s de pl t q)"
      by (intro keeps_confirm_receipt np sec) blast
    obtain z w2 where z: "confirm_receipt s de pl t q w1 = (z, w2)" by fastforce
    then show ?thesis using x Inr keepsD [OF k z h1] by (simp add: confirm_purge_def bnd_def)
  qed
qed

lemma keeps_purge_preview:
  assumes np: "no_page s b" and sec: "secure s [] f b"
  shows "keeps (held [] f b) (purge_preview s de pl)"
  unfolding purge_preview_def drop_preview_def Let_def
  by (intro keeps_intros keeps_each_do keeps_refresh np sec secure_lasting [OF sec])

lemma keeps_abandon_purge:
  assumes l: "lasting s P"
  shows "keeps P (abandon_purge s pl t)"
  unfolding abandon_purge_def quarantine_receipt_def Let_def by (intro keeps_intros l)

end
