(* ===== verification/PurgeLaws.thy ===== *)
theory PurgeLaws
  imports PurgeSafety NoteSample NoteListingLaws SourceStore DossierLaws
begin

text \<open>
  The properties of a purge: only what a receipt lists is removed, a receipt that is a preview has removed nothing, a
  receipt is in one place, and nothing that is listed is held by a note, by the mirror or by its retention.
\<close>

section \<open>A preview has removed nothing\<close>

definition no_preview :: "str \<Rightarrow> receipt_files \<Rightarrow> bool" where
  "no_preview t d \<longleftrightarrow> (case dget d (AtRoot, t) of Some (Some r) \<Rightarrow> pr_state r \<noteq> Preview | _ \<Rightarrow> True)"

lemma receipts_purges_step:
  "purges_step s g w = (Inr u, w') \<Longrightarrow> receipts_in w' = g (receipts_in w)"
  using receipts_tick [of s w]
  by (auto simp: purges_step_def own_step_def Let_def receipts_in_def on_purges_def split: option.splits)

lemma sustains_purges_step:
  "(\<And>d. J d \<Longrightarrow> J (g d)) \<Longrightarrow> sustains J (purges_step s g)"
  unfolding purges_step_def by (rule sustains_own_step) (simp add: receipts_in_def on_purges_def)

lemma sustains_drop_elsewhere:
  "sustains (no_preview t) (drop_elsewhere s r p)"
  unfolding drop_elsewhere_def
  by (intro sustains_if sustains_ret sustains_purges_step) (auto simp: no_preview_def split: option.splits)

lemma sustains_save:
  assumes "pr_state r \<noteq> Preview"
  shows "sustains (no_preview t) (save_receipt s r)"
  unfolding save_receipt_def
  by (intro sustains_bnd sustains_each_do sustains_drop_elsewhere sustains_purges_step)
    (use assms in \<open>auto simp: no_preview_def split: option.splits\<close>)

lemma saved_no_preview:
  assumes "save_receipt s r w = (Inr u, w')" and "pr_state r = Applying"
  shows "no_preview (pr_token r) (receipts_in w')"
proof -
  obtain w1 where p: "purges_step s (\<lambda>d. dict_set d (receipt_folder (pr_state r), pr_token r) (Some r)) w = (Inr (), w1)"
    and d: "each_do (drop_elsewhere s r) PLACES w1 = (Inr u, w')"
    using assms(1) by (auto simp: save_receipt_def bnd_def split: prod.splits sum.splits)
  have "no_preview (pr_token r) (receipts_in w1)"
    using assms(2) receipts_purges_step [OF p] by (simp add: no_preview_def receipt_folder_def)
  then show ?thesis
    by (rule sustainsD [OF sustains_each_do [OF sustains_drop_elsewhere] d])
qed

lemma apply_purge_order:
  assumes l: "lasting s (held [] f b)" and h: "held [] f b (w_disk w)" and J: "no_preview t (receipts_in w)"
    and a: "apply_purge s de pl resuming r w = (x, w')" and "pr_token r = t"
  shows "held [] f b (w_disk w') \<or> no_preview t (receipts_in w')"
proof -
  obtain y w1 where d: "captured (drop_rows s (pr_items r)) w = (Inr y, w1)"
    by (cases "drop_rows s (pr_items r) w") (auto simp: captured_def)
  have h1: "held [] f b (w_disk w1)" by (rule tripleD(1) [OF keeps_captured [OF keeps_drop_rows [OF l]] d h])
  have J1: "no_preview t (receipts_in w1)"
    using sustains_captured [OF sustains_drop_rows] d J by (rule sustainsD)
  show ?thesis
  proof (cases y)
    case (Inl e)
    then have "purge_failed s r resuming e w1 = (x, w')"
      using a d by (simp add: apply_purge_def bnd_def)
    then have "held [] f b (w_disk w')"
      using h1 by (rule keepsD [OF keeps_purge_failed [OF l]])
    then show ?thesis ..
  next
    case (Inr u)
    have fail: "sustains (no_preview t) (purge_failed s q True e)" for q e
      unfolding purge_failed_def by (intro sustains_bnd sustains_save sustains_raise) simp
    let ?after = "bnd (captured (remove_listed s de pl r)) (\<lambda>x. case x of Inl e \<Rightarrow> purge_failed s r True e | Inr u \<Rightarrow>
        let r' = r\<lparr>pr_state := Complete, pr_completed := map (\<lambda>x. pc_id (pi_candidate x)) (pr_items r)\<rparr> in
        bnd (captured (save_receipt s r')) (\<lambda>x. case x of Inl e \<Rightarrow> purge_failed s r' True e | Inr u \<Rightarrow> ret r'))"
    have "sustains (no_preview t) ?after"
      unfolding Let_def by (intro sustains_intros fail sustains_save) simp
    moreover have "?after w1 = (x, w')"
      using a d Inr by (simp add: apply_purge_def bnd_def)
    ultimately have "no_preview t (receipts_in w')"
      using J1 by (rule sustainsD)
    then show ?thesis ..
  qed
qed

lemma carry_out_order:
  assumes l: "lasting s (held [] f b)" and h: "held [] f b (w_disk w)" and c: "carry_out s de pl r w = (x, w')" and t: "pr_token r = t"
  shows "held [] f b (w_disk w') \<or> no_preview t (receipts_in w')"
proof -
  define q where "q = r\<lparr>pr_state := Applying, pr_failed := False\<rparr>"
  obtain y w1 where y: "save_receipt s q w = (y, w1)" by fastforce
  have h1: "held [] f b (w_disk w1)" by (rule keepsD [OF keeps_save_receipt [OF l] y h])
  show ?thesis
  proof (cases y)
    case (Inl e)
    then show ?thesis using c y h1 by (simp add: carry_out_def bnd_def q_def [symmetric] Let_def)
  next
    case (Inr u)
    obtain z w2 where z: "apply_purge s de pl (pr_state r \<noteq> Preview) q w1 = (z, w2)" by fastforce
    have "no_preview t (receipts_in w1)"
      using saved_no_preview [of s q w u w1] y Inr t by (simp add: q_def)
    then have order: "held [] f b (w_disk w2) \<or> no_preview t (receipts_in w2)"
      by (rule apply_purge_order [OF l h1 _ z]) (simp add: q_def t)
    have last: "keeps (held [] f b) (bnd (rescan s pl) (\<lambda>u. ret v))" "sustains (no_preview t) (bnd (rescan s pl) (\<lambda>u. ret v))" for v
      by (intro keeps_intros sustains_intros l)+
    show ?thesis
    proof (cases z)
      case (Inl e)
      then show ?thesis using c y Inr z order by (simp add: carry_out_def bnd_def q_def [symmetric] Let_def)
    next
      case (Inr r'')
      then have after': "bnd (rescan s pl) (\<lambda>u. ret (purge_answer r'')) w2 = (x, w')"
        using c y \<open>y = Inr u\<close> z by (simp add: carry_out_def bnd_def q_def [symmetric] Let_def)
      then show ?thesis
        using order keepsD [OF last(1) after'] sustainsD [OF last(2) after'] by blast
    qed
  qed
qed

text \<open>Until the rows are gone the file is held; after that the receipt is no preview.\<close>

definition orderly :: "str \<Rightarrow> bytes \<Rightarrow> str \<Rightarrow> 'a act \<Rightarrow> bool" where
  "orderly f b t m \<longleftrightarrow> (\<forall>w x w'. m w = (x, w') \<longrightarrow> held [] f b (w_disk w) \<longrightarrow> held [] f b (w_disk w') \<or> no_preview t (receipts_in w'))"

lemma orderly_keeps: "keeps (held [] f b) m \<Longrightarrow> orderly f b t m"
  unfolding orderly_def by (blast dest: keepsD)

lemma orderly_if: "orderly f b t m \<Longrightarrow> orderly f b t n \<Longrightarrow> orderly f b t (if c then m else n)"
  by simp

lemma orderly_bnd:
  assumes "keeps (held [] f b) m" and "\<And>x. orderly f b t (g x)"
  shows "orderly f b t (bnd m g)"
  unfolding orderly_def
proof (intro allI impI)
  fix w x w' assume b: "bnd m g w = (x, w')" and h: "held [] f b (w_disk w)"
  obtain y w1 where y: "m w = (y, w1)" by fastforce
  with keepsD [OF assms(1) y h] b assms(2) show "held [] f b (w_disk w') \<or> no_preview t (receipts_in w')"
    by (cases y) (auto simp: bnd_def orderly_def)
qed

lemma confirm_order:
  assumes l: "lasting s (held [] f b)" and h: "held [] f b (w_disk w)" and c: "confirm_purge s de pl t w = (x, w')"
  shows "held [] f b (w_disk w') \<or> no_preview t (receipts_in w')"
proof -
  have receipt: "orderly f b t (confirm_receipt s de pl t r)" if "pr_token r = t" for r
    unfolding confirm_receipt_def
    by (intro orderly_bnd orderly_if orderly_keeps [OF keeps_ret] orderly_keeps [OF keeps_raise] keeps_intros l)
      (use carry_out_order [OF l _ _ that] in \<open>auto simp: orderly_def\<close>)
  obtain y w1 where y: "read_receipt s t w = (y, w1)" by fastforce
  have h1: "held [] f b (w_disk w1)" by (rule keepsD [OF keeps_read_receipt(3) [OF l] y h])
  show ?thesis
  proof (cases y)
    case (Inl e)
    then show ?thesis using c y h1 by (simp add: confirm_purge_def bnd_def)
  next
    case (Inr r)
    then have "confirm_receipt s de pl t r w1 = (x, w')"
      using c y by (simp add: confirm_purge_def bnd_def)
    then show ?thesis
      using receipt receipt_read y Inr h1 unfolding orderly_def by blast
  qed
qed

text \<open>C4. A confirmation that leaves its receipt a preview has removed nothing: whatever failed and wherever it ended, every file the
  devices leave alone is as it was, listed or not.\<close>

theorem preview_has_removed_nothing:
  assumes "spared s f" and "wf_fsys (w_disk w)" and "file_at (w_disk w) f = Some b"
  shows "case dget (fl_purges (w_files (snd (confirm_purge s de pl t w)))) (AtRoot, t) of
      Some (Some r) \<Rightarrow> (if pr_state r = Preview then file_at (w_disk (snd (confirm_purge s de pl t w))) f = Some b else True)
    | _ \<Rightarrow> True"
proof -
  have l: "lasting s (held [] f b)" by (rule spared_lasting [OF assms(1)])
  have h: "held [] f b (w_disk w)" using assms(2,3) by (simp add: held_def)
  obtain x w' where c: "confirm_purge s de pl t w = (x, w')" by fastforce
  have "held [] f b (w_disk w') \<or> no_preview t (receipts_in w')"
    by (rule confirm_order [OF l h c])
  then show ?thesis
    using c by (auto simp: held_def no_preview_def receipts_in_def split: option.splits)
qed

text \<open>C3. No file is lost to a purge that did not list it: a preview, an abandonment and a confirmation, however they end, leave every file
  that is no dossier page as it was, unless the confirmed receipt lists it with the very hash of what it holds.\<close>

theorem purge_removes_what_it_lists:
  assumes "apart s f" and "wf_fsys (w_disk w)" and "file_at (w_disk w) f = Some b" and "no_page s b"
    and "\<And>t p r. q = ConfirmPurge t \<Longrightarrow> dget (fl_purges (w_files w)) (p, t) = Some (Some r) \<Longrightarrow> \<not> list_ex (lists pl f b) (pr_items r)"
  shows "file_at (w_disk (snd (purge_operation s de pl q w))) f = Some b"
proof -
  note sec = apart_secure [OF assms(1), of b]
  note l = secure_lasting [OF sec]
  have h: "held [] f b (w_disk w)" using assms(2,3) by (simp add: held_def)
  define m where "m = (case q of PreviewPurge \<Rightarrow> purge_preview s de pl | ConfirmPurge t \<Rightarrow> confirm_purge s de pl t | AbandonPurge t \<Rightarrow> abandon_purge s pl t)"
  have done': "held [] f b (w_disk (snd (n w)))" if "keeps (held [] f b) n" for n :: "purge_result act"
    using that h by (cases "n w") (auto simp: triple_def split: sum.splits)
  have m: "held [] f b (w_disk (snd (m w)))"
    using done' [OF keeps_purge_preview [OF assms(4) sec]] done' [OF keeps_abandon_purge [OF l]]
      keeps_confirm_purge [OF assms(4) sec h] assms(5)
    by (cases q) (auto simp: m_def receipts_in_def)
  have "keeps (held [] f b) (preview_failure s pl)"
    unfolding preview_failure_def by (intro keeps_intros l)
  note failing = this
  define g :: "exn \<Rightarrow> purge_result act" where "g = (\<lambda>e. case purge_error pl e of None \<Rightarrow> raise_exn e
      | Some e' \<Rightarrow> bnd (if q = PreviewPurge then preview_failure s pl else ret ()) (\<lambda>u. raise_exn e'))"
  have e: "keeps (held [] f b) (g e)" for e
    unfolding g_def by (intro keeps_intros failing)
  have op: "purge_operation s de pl q = catching m g"
    by (simp add: purge_operation_def m_def g_def)
  obtain x w1 where x: "m w = (x, w1)" by fastforce
  have "held [] f b (w_disk (snd (purge_operation s de pl q w)))"
  proof (cases x)
    case (Inl e')
    obtain z w2 where z: "g e' w1 = (z, w2)" by fastforce
    have "held [] f b (w_disk w1)" using m x by simp
    from keepsD [OF e z this] show ?thesis
      using x z Inl by (simp add: op catching_def)
  next
    case (Inr r)
    then show ?thesis
      using x m by (simp add: op catching_def)
  qed
  then show ?thesis by (simp add: held_def)
qed

section \<open>A receipt is in one place\<close>

text \<open>C6. A receipt that was saved is in one place, the folder of its state, and no other receipt was touched.\<close>

theorem receipt_in_one_place:
  "case save_receipt s r w of (Inl e, w') \<Rightarrow> True
    | (Inr u, w') \<Rightarrow> list_all (\<lambda>p. dget (fl_purges (w_files w')) (p, pr_token r) =
          (if p = receipt_folder (pr_state r) then Some (Some r) else None)) PLACES \<and>
        (\<forall>p t. t = pr_token r \<or> dget (fl_purges (w_files w')) (p, t) = dget (fl_purges (w_files w)) (p, t))"
proof (cases "save_receipt s r w")
  case (Pair x w')
  show ?thesis
  proof (cases x)
    case (Inl e)
    then show ?thesis using Pair by simp
  next
    case (Inr u)
    have drop: "receipts_in w2 = (if p = receipt_folder (pr_state r) then receipts_in w1 else dict_pop (receipts_in w1) (p, pr_token r))"
      if "drop_elsewhere s r p w1 = (Inr v, w2)" for p w1 v w2
      using that receipts_purges_step by (fastforce simp: drop_elsewhere_def ret_def split: if_splits)
    obtain w1 w2 w3 where "purges_step s (\<lambda>d. dict_set d (receipt_folder (pr_state r), pr_token r) (Some r)) w = (Inr (), w1)"
      and "drop_elsewhere s r AtRoot w1 = (Inr (), w2)" and "drop_elsewhere s r InDone w2 = (Inr (), w3)"
      and "drop_elsewhere s r InAbandoned w3 = (Inr (), w')"
      using Pair Inr by (auto simp: save_receipt_def PLACES_def bnd_def ret_def split: prod.splits sum.splits)
    note steps = this
    have "receipt_folder (pr_state r) \<in> set PLACES"
      by (simp add: receipt_folder_def PLACES_def split: purge_state.split)
    then show ?thesis
      using Pair Inr drop [OF steps(2)] drop [OF steps(3)] drop [OF steps(4)] receipts_purges_step [OF steps(1)]
      by (auto simp: PLACES_def receipts_in_def)
  qed
qed

section \<open>Nothing that is listed is held\<close>

text \<open>\<open>unheld v cutoff x\<close>: to the view of the disk and the mirror the list was made from, the item is nothing anyone holds, and a
  note that is no leftover was deleted before the cutoff.\<close>

definition unheld :: "purge_view \<Rightarrow> int \<Rightarrow> purge_item \<Rightarrow> bool" where
  "unheld v cutoff x \<longleftrightarrow>
     (let i = pc_id (pi_candidate x) in
      case pc_kind (pi_candidate x) of
        NoteItem \<Rightarrow> \<not> on_disk v i \<and> \<not> row_lives v i \<and>
          (pc_leftover (pi_candidate x) \<or> (case pc_deleted (pi_candidate x) of None \<Rightarrow> False | Some t \<Rightarrow> t \<le> cutoff))
      | SourceItem \<Rightarrow> i \<notin> set (protected v) \<and> (case pi_opening x of None \<Rightarrow> True | Some j \<Rightarrow> \<not> on_disk v j \<and> \<not> row_lives v j)
      | ArtifactItem \<Rightarrow> i \<notin> set (pv_artifacts v)
      | EntityItem \<Rightarrow> True)"

lemma gives_each_in:
  "(\<And>x st. x \<in> set xs \<Longrightarrow> P st \<Longrightarrow> gives P (g x st)) \<Longrightarrow> P st \<Longrightarrow> gives P (each_in g xs st)"
  by (induction xs arbitrary: st) (auto intro!: gives_ret gives_bnd)

lemma gives_option: "(q = None \<Longrightarrow> gives P n) \<Longrightarrow> (\<And>y. q = Some y \<Longrightarrow> gives P (h y)) \<Longrightarrow> gives P (case_option n h q)"
  by (cases q) auto

lemma gives_prod: "(\<And>x y. p = (x, y) \<Longrightarrow> gives P (g x y)) \<Longrightarrow> gives P (case_prod g p)"
  by (cases p) auto

lemma gives_note_item: "gives (\<lambda>x. pi_candidate x = note_candidate v i r at lo) (note_item s pl v i r at lo)"
  unfolding note_item_def by (intro gives_step gives_ret) simp

lemma gives_plan_note:
  assumes "list_all (unheld v cutoff) (fst found)" and "map_of (pv_notes v) (fst q) = Some (snd q)"
  shows "gives (\<lambda>found. list_all (unheld v cutoff) (fst found)) (plan_note s pl cutoff v q found)"
proof -
  have item: "gives (\<lambda>found. list_all (unheld v cutoff) (fst found)) (bnd (note_item s pl v (fst q) (snd q) at lo) (\<lambda>x. ret (fst found @ [x], snd found)))"
    if "\<not> on_disk v (fst q)" "\<not> not_deleted (snd q)" "at \<le> cutoff" for at lo
    by (rule gives_bnd [OF gives_note_item], rule gives_ret)
      (use assms that in \<open>simp add: unheld_def note_candidate_def row_lives_def Let_def\<close>)
  show ?thesis
    unfolding plan_note_def
    by (cases q) (use assms item in \<open>auto intro!: gives_if gives_option gives_ret\<close>)
qed

lemma gives_of_sum: "gives (\<lambda>x. r = Inr x) (of_sum r)"
  by (cases r) (auto simp: of_sum_def gives_def ret_def raise_exn_def)

lemma gives_sum: "(\<And>y. r = Inr y \<Longrightarrow> gives P (g y)) \<Longrightarrow> gives P (bnd (of_sum r) g)"
  by (rule gives_bnd [OF gives_of_sum]) auto

lemma spent_unheld: "spent_opening v i st = Inr (Some j) \<Longrightarrow> \<not> on_disk v j \<and> \<not> row_lives v j"
  by (auto simp: spent_opening_def row_lives_def split: bundle_state.splits pyval.splits if_splits option.splits)

lemma gives_source_item:
  "gives (\<lambda>x. pc_kind (pi_candidate x) = SourceItem \<and> pc_id (pi_candidate x) = i \<and> pi_opening x = Some j) (source_item s pl v i r c st j)"
  unfolding source_item_def Let_def by (intro gives_step gives_ret) (simp add: source_candidate_def)

lemma gives_plan_source:
  assumes "list_all (unheld v cutoff) found"
  shows "gives (list_all (unheld v cutoff)) (plan_source s pl v q found)"
proof (cases q)
  case (Pair i r)
  have "gives (list_all (unheld v cutoff)) (bnd (source_item s pl v i r c st j) (\<lambda>x. ret (found @ [x])))"
    if "i \<notin> set (protected v)" "spent_opening v i st = Inr (Some j)" for c st j
    by (rule gives_bnd [OF gives_source_item], rule gives_ret)
      (use assms that spent_unheld in \<open>auto simp: unheld_def Let_def\<close>)
  note listed = this
  show ?thesis
    unfolding Pair plan_source_def prod.case
    by (rule assms listed | assumption | rule gives_ret gives_if gives_option gives_sum | rule gives_step)+ simp
qed

lemma gives_removed:
  "gives (\<lambda>found. list_all (unheld v cutoff) (fst found)) (removed_archives s pl limit (pv_artifacts v))"
proof -
  have "gives (\<lambda>found. list_all (unheld v cutoff) (fst found)) (plan_archive s pl limit (pv_artifacts v) i found)"
    if "list_all (unheld v cutoff) (fst found)" for i found
    using that unfolding plan_archive_def
    by (intro gives_if gives_ret gives_step gives_option gives_prod) (auto simp: unheld_def archive_candidate_def)
  then show ?thesis
    unfolding removed_archives_def by (intro gives_step gives_each_in) simp_all
qed

lemma gives_residual:
  "gives (\<lambda>y. case y of None \<Rightarrow> True | Some y \<Rightarrow> pi_candidate y = (pi_candidate x)\<lparr>pc_leftover := True\<rparr> \<and> pi_opening y = pi_opening x) (residual s pl x)"
  unfolding residual_def Let_def by (intro gives_step gives_if gives_ret gives_catching gives_raise) simp_all

lemma gives_gone:
  "gives (\<lambda>gone. if gone then unheld v cutoff (x\<lparr>pi_candidate := (pi_candidate x)\<lparr>pc_leftover := True\<rparr>\<rparr>) else True) (gone_for_good s v x)"
  unfolding gone_for_good_def Let_def
  by (cases "pc_kind (pi_candidate x)")
    (auto intro!: gives_ret gives_step simp: unheld_def row_lives_def split: option.split)

lemma unheld_cong: "pi_candidate y = pi_candidate z \<Longrightarrow> pi_opening y = pi_opening z \<Longrightarrow> unheld v cutoff y = unheld v cutoff z"
  by (cases "pc_kind (pi_candidate z)") (simp_all add: unheld_def)

lemma gives_plan_residual:
  assumes "list_all (unheld v cutoff) found"
  shows "gives (list_all (unheld v cutoff)) (plan_residual s pl v kept x found)"
proof -
  have "gives (list_all (unheld v cutoff)) (bnd (residual s pl x) (\<lambda>y. ret (case y of None \<Rightarrow> found | Some y \<Rightarrow> found @ [y])))"
    if "unheld v cutoff (x\<lparr>pi_candidate := (pi_candidate x)\<lparr>pc_leftover := True\<rparr>\<rparr>)"
  proof (rule gives_bnd [OF gives_residual], rule gives_ret)
    fix y :: "purge_item option" assume y: "case y of None \<Rightarrow> True
      | Some y \<Rightarrow> pi_candidate y = (pi_candidate x)\<lparr>pc_leftover := True\<rparr> \<and> pi_opening y = pi_opening x"
    then have "unheld v cutoff z" if "y = Some z" for z :: purge_item
      using \<open>unheld v cutoff (x\<lparr>pi_candidate := (pi_candidate x)\<lparr>pc_leftover := True\<rparr>\<rparr>)\<close> that
        unheld_cong [of z "x\<lparr>pi_candidate := (pi_candidate x)\<lparr>pc_leftover := True\<rparr>\<rparr>" v cutoff] by simp
    then show "list_all (unheld v cutoff) (case y of None \<Rightarrow> found | Some y \<Rightarrow> found @ [y])"
      using assms by (cases y) simp_all
  qed
  then show ?thesis
    unfolding plan_residual_def Let_def
    by (intro gives_if gives_ret assms gives_bnd [OF gives_gone [where cutoff = cutoff]]) auto
qed

text \<open>C5. Nothing that a purge lists is held: no listed note is on the disk or live to the mirror, and one with a recovery copy was deleted before the
  cutoff; no listed source is cited by a note on the disk, linked or mirrored by a live one, nor is its opening note back; no listed archive
  has a row.  What earlier purges left over is held to the same.\<close>

theorem nothing_listed_is_held:
  assumes "distinct (dkeys (pv_notes v))"
  shows "case fst (purge_plan s pl cutoff v w) of Inl e \<Rightarrow> True | Inr (xs, kept) \<Rightarrow> list_all (unheld v cutoff) xs"
proof -
  let ?P = "list_all (unheld v cutoff)"
  have rows: "gives (\<lambda>found. ?P (fst found)) (each_in (plan_note s pl cutoff v) (pv_notes v) ([], 0))"
    by (rule gives_each_in) (use assms in \<open>auto intro!: gives_plan_note\<close>)
  have "gives ?P (each_in (plan_source s pl v) (pv_sources v) xs)" if "?P xs" for xs
    using that by (intro gives_each_in gives_plan_source)
  note sources = this
  have "gives ?P (each_in (\<lambda>r. each_in (plan_residual s pl v (pr_remaining r)) (pr_items r)) rs xs)" if "?P xs" for rs xs
    using that by (intro gives_each_in gives_plan_residual)
  note left = this
  have "gives (\<lambda>(xs, kept). ?P xs) (purge_plan s pl cutoff v)"
    unfolding purge_plan_def
    by (rule gives_bnd [OF rows], rule gives_prod, rule gives_bnd [OF sources], simp, rule gives_bnd [OF gives_removed], rule gives_prod,
        rule gives_bnd [OF left], simp, rule gives_ret) simp
  then show ?thesis by (simp add: gives_def split: sum.splits prod.splits) 
qed

section \<open>A small purge\<close>

definition small_lib :: purge_lib where
  "small_lib = \<lparr>pl_docs = sample_docs, pl_receipt = (\<lambda>b. None), pl_note_row = (\<lambda>i r. i), pl_source_row = (\<lambda>i r. i), pl_entity_row = en_id,
     pl_instant = (\<lambda>v. None), pl_token = (\<lambda>n. []), pl_days = id, pl_in_sources = (\<lambda>e. False)\<rparr>"

definition old_note :: purge_item where
  "old_note = \<lparr>pi_candidate = \<lparr>pc_kind = NoteItem, pc_id = U ''a'', pc_title = U ''Plan'', pc_path = U ''Plan.md'', pc_origins = [], pc_providers = [],
       pc_deleted = Some 0, pc_leftover = False, pc_reason = None\<rparr>, pi_row = Some (U ''a''), pi_opening = None,
     pi_files = [\<lparr>pf_area = StateArea, pf_path = U ''note-recovery/a-c.json'', pf_hash = U ''h''\<rparr>], pi_dirs = []\<rparr>"

definition old_receipt :: purge_receipt where
  "old_receipt = \<lparr>pr_token = U ''t'', pr_state = Preview, pr_created = 0, pr_days = 30, pr_items = [old_note],
     pr_kept = \<lparr>pk_notes = 0, pk_sources = 0, pk_artifacts = 0\<rparr>, pr_completed = [], pr_remaining = [], pr_failed = False\<rparr>"

definition purge_world :: world where
  "purge_world = sample_world\<lparr>w_files := no_files\<lparr>fl_purges := [((AtRoot, U ''t''), Some old_receipt)]\<rparr>\<rparr>"

lemma small_world:
  "apart sample_site (U ''In/plan.md'')" "spared sample_site (U ''In/plan.md'')" "wf_fsys (w_disk purge_world)"
  "file_at (w_disk purge_world) (U ''In/plan.md'') = Some (U ''# Plan'')" "no_page sample_site (U ''# Plan'')"
  using sample_page_apart sample_disk_ok sample_no_page by (simp_all add: purge_world_def apart_spared)

lemma preview_has_removed_nothing_witness:
  "case dget (fl_purges (w_files (snd (confirm_purge sample_site crossing small_lib (U ''t'') purge_world)))) (AtRoot, U ''t'') of
      Some (Some r) \<Rightarrow> (if pr_state r = Preview
        then file_at (w_disk (snd (confirm_purge sample_site crossing small_lib (U ''t'') purge_world))) (U ''In/plan.md'') = Some (U ''# Plan'') else True)
    | _ \<Rightarrow> True"
  by (rule preview_has_removed_nothing [OF small_world(2,3,4)])

lemma purge_removes_what_it_lists_witness:
  "file_at (w_disk (snd (purge_operation sample_site crossing small_lib (ConfirmPurge (U ''t'')) purge_world))) (U ''In/plan.md'') = Some (U ''# Plan'')"
proof (rule purge_removes_what_it_lists [OF small_world(1,3,4,5)])
  fix t p r assume "ConfirmPurge (U ''t'') = ConfirmPurge t" and "dget (fl_purges (w_files purge_world)) (p, t) = Some (Some r)"
  then have "r = old_receipt" by (simp add: purge_world_def split: if_splits)
  then show "\<not> list_ex (lists small_lib (U ''In/plan.md'') (U ''# Plan'')) (pr_items r)"
    by (simp add: old_receipt_def old_note_def lists_def small_lib_def U_def)
qed

definition small_view :: purge_view where
  "small_view = \<lparr>pv_refs = ([], [], []), pv_openings = [], pv_saved = [], pv_purged = [],
     pv_notes = [(U ''a'', (sample_row (U ''Plan.md''))\<lparr>r_state := U ''deleted''\<rparr>)], pv_sources = [], pv_linked = [], pv_abandoned = [], pv_artifacts = []\<rparr>"

lemma nothing_listed_is_held_witness:
  "case fst (purge_plan sample_site small_lib 5 small_view sample_world) of Inl e \<Rightarrow> True
    | Inr (xs, kept) \<Rightarrow> list_all (unheld small_view 5) xs"
  by (rule nothing_listed_is_held) (simp add: small_view_def)

section \<open>What modelling showed\<close>

text \<open>
  The commit of the rows lands although it reports a failure: the receipt is a preview again, the row of the note is gone and its recovery copy
  stays.  A preview cannot be abandoned, the next list is made of rows, and so no later purge lists the copy.
\<close>

definition landing_site :: "fmap site" where
  "landing_site = sample_site\<lparr>db_fault_at := (\<lambda>n. if n = 6 then Some (Away []) else None), landed := (\<lambda>n. True)\<rparr>"

definition landing_world :: world where
  "landing_world = sample_world\<lparr>w_disk := \<lparr>d_names = [(U ''/state/note-recovery/a-c.json'', 0)], d_nodes = (\<lambda>n. \<lparr>n_bytes = U ''h'', n_mtime = 0\<rparr>),
       d_fresh = 1, d_dirs = [SOURCES]\<rparr>\<rparr>"

lemma landed_commit_strands_copy:
  "case apply_purge landing_site crossing small_lib False old_receipt landing_world of (x, w') \<Rightarrow>
     x = Inl (DbFailed (Away [])) \<and> row_of (w_db landing_world) (U ''a'') \<noteq> None \<and> row_of (w_db w') (U ''a'') = None \<and>
     file_at (w_disk w') (U ''/state/note-recovery/a-c.json'') = Some (U ''h'') \<and>
     dget (fl_purges (w_files w')) (AtRoot, U ''t'') = Some (Some (old_receipt\<lparr>pr_failed := True\<rparr>))"
proof -
  have t: "tick landing_site w = w\<lparr>w_tick := Suc (w_tick w)\<rparr>" for w
    by (simp add: tick_def landing_site_def sample_site_def)
  have f: "os_fault landing_site n = None" "db_fault_at landing_site n = (if n = 6 then Some (Away []) else None)" "landed landing_site n" for n
    by (simp_all add: landing_site_def sample_site_def)
  have md: "filter is_markdown (map fst (d_names d) @ remdups (d_dirs d)) = []" "SOURCES \<in> set (d_dirs d)" if "d = w_disk landing_world" for d
    using that by (simp_all add: landing_world_def is_markdown_def SOURCES_def U_def endswith_def startswith_def)
  have refs: "disk_references landing_site w = (Inr ([], [], []), w\<lparr>w_tick := Suc (Suc (w_tick w))\<rparr>)"
    if "w_disk w = w_disk landing_world" for w
    using that md [OF refl]
    by (simp add: disk_references_def bnd_def disk_step_def demand_def ret_def Let_def f t by_parts_def)
  have rows: "captured (drop_rows landing_site [old_note]) landing_world =
      (Inr (Inl (DbFailed (Away []))), landing_world\<lparr>w_tick := 7, w_db := delete_note (U ''a'') (drop_doc (U ''a'') (w_db landing_world)), w_tx := []\<rparr>)"
    by (simp add: captured_def drop_rows_def transaction_def begin_tx_def finish_def bnd_def query_def execute_def execute_with_def commit_def refs
      f t Let_def drop_row_def old_note_def demand_def came_back_def ret_def landing_world_def sample_world_def view_def)
  define w1 where "w1 = landing_world\<lparr>w_tick := 7, w_db := delete_note (U ''a'') (drop_doc (U ''a'') (w_db landing_world)), w_tx := []\<rparr>"
  have i: "pr_items old_receipt = [old_note]" "pr_token old_receipt = U ''t''" "pr_state old_receipt = Preview"
    by (simp_all add: old_receipt_def)
  have back_to_preview: "apply_purge landing_site crossing small_lib False old_receipt landing_world =
      purge_failed landing_site old_receipt False (DbFailed (Away [])) w1"
    by (simp add: apply_purge_def bnd_def i rows w1_def)
  have "\<exists>w'. (purge_failed landing_site old_receipt False (DbFailed (Away [])) :: purge_receipt act) w1 = (Inl (DbFailed (Away [])), w') \<and>
      w_disk w' = w_disk w1 \<and> w_db w' = w_db w1 \<and>
      dget (fl_purges (w_files w')) (AtRoot, U ''t'') = Some (Some (old_receipt\<lparr>pr_failed := True\<rparr>))"
    by (simp add: purge_failed_def save_receipt_def purges_step_def own_step_def bnd_def f t Let_def PLACES_def drop_elsewhere_def receipt_folder_def
      ret_def raise_exn_def on_purges_def i)
  then obtain w' where w': "(purge_failed landing_site old_receipt False (DbFailed (Away [])) :: purge_receipt act) w1 = (Inl (DbFailed (Away [])), w')"
    "w_disk w' = w_disk w1" "w_db w' = w_db w1" "dget (fl_purges (w_files w')) (AtRoot, U ''t'') = Some (Some (old_receipt\<lparr>pr_failed := True\<rparr>))"
    by blast
  have "row_of (w_db w1) (U ''a'') = None" "row_of (w_db landing_world) (U ''a'') \<noteq> None"
    by (simp_all add: w1_def delete_note_def drop_doc_def row_of_def landing_world_def sample_world_def)
  moreover have "file_at (w_disk w1) (U ''/state/note-recovery/a-c.json'') = Some (U ''h'')"
    by (simp add: w1_def landing_world_def file_at_def node_at_def)
  ultimately show ?thesis
    using back_to_preview w' by simp
qed

end
