(* ===== verification/DossierPurge.thy ===== *)
theory DossierPurge
  imports PurgeLaws
begin

text \<open>
  What the purge of dossiers as a whole leaves in the catalog and in the records about notes.
\<close>

section \<open>A catalog that has forgotten\<close>

text \<open>A fact that rests on a purged note or points to a purged dossier.\<close>

definition rests_on :: "str list \<Rightarrow> str list \<Rightarrow> dossier_fact \<Rightarrow> bool" where
  "rests_on ns es f \<longleftrightarrow>
     (case ev_note (fc_evidence f) of None \<Rightarrow> False | Some i \<Rightarrow> i \<in> set ns) \<or> (case fc_target f of None \<Rightarrow> False | Some i \<Rightarrow> i \<in> set es)"

definition unmentioning :: "str list \<Rightarrow> str list \<Rightarrow> entity \<Rightarrow> bool" where
  "unmentioning ns es e \<longleftrightarrow>
     list_all (\<lambda>f. \<not> rests_on ns es f) (en_facts e) \<and> (case en_redirect e of None \<Rightarrow> True | Some r \<Rightarrow> r \<notin> set es)"

text \<open>Every fact is still there, at most withdrawn.\<close>

definition facts_kept :: "dossier_fact list \<Rightarrow> dossier_fact list \<Rightarrow> bool" where
  "facts_kept fs gs \<longleftrightarrow> list_all (\<lambda>f. f \<in> set gs \<or> withdrawn f \<in> set gs) fs"

definition silent_receipt :: "str list \<Rightarrow> fmap \<Rightarrow> bool" where
  "silent_receipt es r \<longleftrightarrow> \<not> names_any es r ''entity_id'' \<and> \<not> names_any es r ''target'' \<and> \<not> names_any es r ''source''"

text \<open>The catalog \<open>l'\<close> is what a purge may make of \<open>l\<close>.\<close>

definition forgotten :: "dossier_lib \<Rightarrow> str list \<Rightarrow> str list \<Rightarrow> ledger \<Rightarrow> ledger \<Rightarrow> bool" where
  "forgotten de ns es l l' \<longleftrightarrow>
     map fst (lg_entities l') = filter (\<lambda>i. i \<notin> set es) (map fst (lg_entities l)) \<and>
     list_all (\<lambda>(i, e). unmentioning ns es e) (lg_entities l') \<and>
     list_all (silent_receipt es) (lg_receipts l') \<and>
     list_all (\<lambda>(i, e). if i \<in> set es then list_all (\<lambda>a. de_digest de (PStr a) \<in> set (lg_suppressed l')) (en_emails e)
       else case entity_at l' i of None \<Rightarrow> False | Some e' \<Rightarrow> facts_kept (filter (\<lambda>f. \<not> rests_on ns es f) (en_facts e)) (en_facts e')) (lg_entities l)"

text \<open>A change of one dossier keeps that.\<close>

definition fact_growth :: "entity \<Rightarrow> entity \<Rightarrow> bool" where
  "fact_growth e e' \<longleftrightarrow> en_id e' = en_id e \<and> en_redirect e' = en_redirect e \<and> facts_kept (en_facts e) (en_facts e') \<and>
     list_all (\<lambda>g. ev_note (fc_evidence g) = None \<and> fc_target g = None \<or>
       list_ex (\<lambda>f. fc_target g = fc_target f \<and> ev_note (fc_evidence g) \<in> {None, ev_note (fc_evidence f)}) (en_facts e)) (en_facts e')"

lemma withdrawn_twice [simp]: "withdrawn (withdrawn f) = withdrawn f"
  and withdrawn_rests [simp]: "rests_on ns es (withdrawn f) = rests_on ns es f"
  and withdrawn_target [simp]: "fc_target (withdrawn f) = fc_target f"
  and withdrawn_evidence [simp]: "fc_evidence (withdrawn f) = fc_evidence f"
  by (simp_all add: withdrawn_def rests_on_def)

lemma facts_kept_refl [simp]: "facts_kept fs fs"
  by (simp add: facts_kept_def list_all_iff)

lemma facts_kept_trans: "facts_kept fs gs \<Longrightarrow> facts_kept gs hs \<Longrightarrow> facts_kept fs hs"
  by (fastforce simp: facts_kept_def list_all_iff)

lemma growth_same: "en_id e' = en_id e \<Longrightarrow> en_redirect e' = en_redirect e \<Longrightarrow> en_facts e' = en_facts e \<Longrightarrow> fact_growth e e'"
  by (auto simp: fact_growth_def list_all_iff list_ex_iff)

lemma growth_unmentioning: "fact_growth e e' \<Longrightarrow> unmentioning ns es e \<Longrightarrow> unmentioning ns es e'"
  by (fastforce simp: fact_growth_def unmentioning_def rests_on_def list_all_iff list_ex_iff split: option.splits)

lemma forgotten_set:
  assumes "forgotten de ns es l l'" and "keyed l'" and "entity_at l' i = Some e" and "fact_growth e e'"
  shows "forgotten de ns es l (set_entity e' l')"
proof -
  have i: "en_id e' = i" using keyed_at [OF assms(2,3)] assms(4) by (simp add: fact_growth_def)
  have in_l: "(i, e) \<in> set (lg_entities l')" using assms(3) by (auto simp: entity_at_def dest: map_of_SomeD)
  then have "i \<in> set (dkeys (lg_entities l'))" by (force simp: image_iff)
  then have keys: "dkeys (lg_entities (set_entity e' l')) = dkeys (lg_entities l')"
    by (simp add: set_entity_def dkeys_dict_set i)
  have "unmentioning ns es e" using assms(1) in_l by (auto simp: forgotten_def list_all_iff)
  then have "unmentioning ns es e'" by (rule growth_unmentioning [OF assms(4)])
  then have "list_all (\<lambda>(i, e). unmentioning ns es e) (lg_entities (set_entity e' l'))"
    using assms(1) unfolding forgotten_def set_entity_def by (simp add: list_all_dict_set)
  moreover have "case entity_at (set_entity e' l') k of None \<Rightarrow> False | Some e' \<Rightarrow> facts_kept fs (en_facts e')"
    if "case entity_at l' k of None \<Rightarrow> False | Some e' \<Rightarrow> facts_kept fs (en_facts e')" for k fs
    using that assms(3,4) i by (auto simp: fact_growth_def split: option.splits intro: facts_kept_trans)
  ultimately show ?thesis
    using assms(1) keys unfolding forgotten_def by (simp add: list_all_iff set_entity_def split: prod.splits if_splits)
qed

lemma forgotten_same:
  assumes "forgotten de ns es l l'" and "lg_entities l2 = lg_entities l'" and "lg_suppressed l2 = lg_suppressed l'"
    and "list_all (silent_receipt es) (lg_receipts l2)"
  shows "forgotten de ns es l l2"
proof -
  have "entity_at l2 = entity_at l'" by (rule ext) (simp add: entity_at_def assms(2))
  with assms show ?thesis by (simp only: forgotten_def)
qed

lemma forgotten_receipt: "forgotten de ns es l l' \<Longrightarrow> silent_receipt es r \<Longrightarrow> forgotten de ns es l (add_receipt r l')"
  by (rule forgotten_same) (auto simp: forgotten_def add_receipt_def)

lemma forgotten_scrubbed:
  assumes "keyed l"
  shows "forgotten de ns es l (scrubbed de now ns es l) \<and> keyed (scrubbed de now ns es l)"
proof -
  let ?f = "scrubbed_entity now ns es"
  have keys: "map fst (map (\<lambda>(i, e). (i, ?f e)) (filter (\<lambda>(i, e). i \<notin> set es) d)) = filter (\<lambda>i. i \<notin> set es) (map fst d)" for d
    by (induction d) auto
  have ids: "en_id (?f e) = en_id e" and facts: "en_facts (?f e) = filter (\<lambda>f. \<not> rests_on ns es f) (en_facts e)" for e
    by (simp_all add: scrubbed_entity_def newer_def Let_def rests_on_def split: option.split)
  have clean: "unmentioning ns es (?f e)" for e
    by (auto simp: unmentioning_def facts list_all_iff) (auto simp: scrubbed_entity_def newer_def Let_def split: option.splits if_splits)
  have "keyed (scrubbed de now ns es l)"
    using assms keys [of "lg_entities l"] by (auto simp: keyed_def scrubbed_def Let_def list_all_iff ids simp del: map_map)
  moreover have "de_digest de (PStr a) \<in> set (lg_suppressed (scrubbed de now ns es l))"
    if "(i, e) \<in> set (lg_entities l)" "i \<in> set es" "a \<in> set (en_emails e)" for i e a
    using that by (auto simp: scrubbed_def Let_def intro!: bexI [where x = "(i, e)"])
  then have "forgotten de ns es l (scrubbed de now ns es l)"
    using keyed_in [OF assms]
    by (auto simp: forgotten_def list_all_iff entity_at_scrubbed facts clean)
      (auto simp: scrubbed_def Let_def keys clean silent_receipt_def simp del: map_map)
  ultimately show ?thesis by simp
qed

section \<open>What the projections do to it\<close>

text \<open>Of one dossier, and no other.\<close>

definition forgets_at :: "dossier_lib \<Rightarrow> str list \<Rightarrow> str list \<Rightarrow> ledger \<Rightarrow> str \<Rightarrow> ledger \<Rightarrow> ledger \<Rightarrow> bool" where
  "forgets_at de ns es l i l1 l2 \<longleftrightarrow> keyed l2 \<and> forgotten de ns es l l2 \<and> (\<forall>j. j \<noteq> i \<longrightarrow> entity_at l2 j = entity_at l1 j)"

lemma forgets_refl: "keyed l1 \<Longrightarrow> forgotten de ns es l l1 \<Longrightarrow> forgets_at de ns es l i l1 l1"
  by (simp add: forgets_at_def)

lemma forgets_trans: "forgets_at de ns es l i l1 l2 \<Longrightarrow> forgets_at de ns es l i l2 l3 \<Longrightarrow> forgets_at de ns es l i l1 l3"
  by (simp add: forgets_at_def)

lemma forgets_set:
  "forgets_at de ns es l i l1 l2 \<Longrightarrow> entity_at l2 i = Some e \<Longrightarrow> fact_growth e e' \<Longrightarrow> forgets_at de ns es l i l1 (set_entity e' l2)"
  using keyed_at [of l2 i e] forgotten_set [of de ns es l l2 i e e'] by (auto simp: forgets_at_def fact_growth_def)

lemma forgets_same:
  "forgets_at de ns es l i l1 l2 \<Longrightarrow> lg_entities l3 = lg_entities l2 \<Longrightarrow> lg_suppressed l3 = lg_suppressed l2 \<Longrightarrow>
     list_all (silent_receipt es) (lg_receipts l3) \<Longrightarrow> forgets_at de ns es l i l1 l3"
  using forgotten_same [of de ns es l l2 l3] unfolding forgets_at_def keyed_def entity_at_def by simp

lemma kept_key: "forgotten de ns es l l' \<Longrightarrow> entity_at l' i = Some e \<Longrightarrow> i \<notin> set es"
proof -
  assume f: "forgotten de ns es l l'" and "entity_at l' i = Some e"
  then have i: "i \<in> set (dkeys (lg_entities l'))" unfolding entity_at_def by (rule_tac image_eqI [where x = "(i, e)", THEN set_map [THEN equalityD2, THEN subsetD]]) (auto dest: map_of_SomeD)
  have "dkeys (lg_entities l') = filter (\<lambda>i. i \<notin> set es) (dkeys (lg_entities l))" using f by (simp add: forgotten_def)
  with i show ?thesis by (simp del: set_map)
qed

lemma forgets_receipt:
  assumes "forgets_at de ns es l i l1 l2" and "entity_at l2 i = Some e" and "fact_growth e e'" and "d = [] \<or> d = [(U ''note_hash'', PStr h)]"
  shows "forgets_at de ns es l i l1 (with_receipt dx now e' action d l2)"
proof -
  have "fact_growth e (newer e')" using assms(3) by (simp add: fact_growth_def newer_def)
  then have s: "forgets_at de ns es l i l1 (set_entity (newer e') l2)" by (rule forgets_set [OF assms(1,2)])
  have i: "en_id e' = i" "i \<notin> set es"
    using keyed_at [of l2 i e] assms(1-3) kept_key [of de ns es l l2 i e] by (auto simp: forgets_at_def fact_growth_def)
  have r: "list_all (silent_receipt es) (lg_receipts l2)" using assms(1) by (simp add: forgets_at_def forgotten_def)
  have "silent_receipt es ([(U ''entity_id'', PStr i), (U ''action'', PStr (U action)), (U ''version'', v), (U ''at'', t)] @ d)" for v t
    using assms(4) i by (auto simp: silent_receipt_def names_any_def fget_def)
  with r i show ?thesis
    unfolding with_receipt_def by (intro forgets_same [OF s]) (simp_all add: add_receipt_def set_entity_def)
qed

lemma growth_seen: "fact_growth e (seen_entity own block e)"
  by (rule growth_same) (simp_all add: seen_entity_def Let_def)

lemma said_targets:
  "g \<in> set (said_facts fresh now e h ps k) \<Longrightarrow> ev_note (fc_evidence g) = None \<and> (\<exists>p \<in> set ps. fc_target g = fc_target (fst p))"
  by (induction fresh now e h ps k rule: said_facts.induct) (auto simp: correction_def split: fact_edit.splits)

lemma edited_either: "edited_fact d f = f \<or> edited_fact d f = withdrawn f"
  by (cases d) (simp_all add: edited_fact_def)

lemma edited_same [simp]: "fc_target (edited_fact d f) = fc_target f" "fc_evidence (edited_fact d f) = fc_evidence f"
  using edited_either [of d f] by auto

lemma growth_appended:
  assumes "en_id e' = en_id e" and "en_redirect e' = en_redirect e" and "en_facts e' = map (\<lambda>f. edited_fact (d f) f) (en_facts e) @ new"
    and "\<And>g. g \<in> set new \<Longrightarrow> ev_note (fc_evidence g) = None \<and> (fc_target g = None \<or> (\<exists>f \<in> set (en_facts e). fc_target g = fc_target f))"
  shows "fact_growth e e'"
proof -
  have "facts_kept (en_facts e) (en_facts e')"
    unfolding facts_kept_def list_all_iff assms(3)
  proof
    fix f assume "f \<in> set (en_facts e)"
    then have "edited_fact (d f) f \<in> set (map (\<lambda>f. edited_fact (d f) f) (en_facts e) @ new)" by simp
    with edited_either [of "d f" f] show "f \<in> set (map (\<lambda>f. edited_fact (d f) f) (en_facts e) @ new) \<or>
        withdrawn f \<in> set (map (\<lambda>f. edited_fact (d f) f) (en_facts e) @ new)" by metis
  qed
  then show ?thesis
    using assms(1,2,4) by (fastforce simp: fact_growth_def assms(3) list_all_iff list_ex_iff)
qed

lemma growth_edits: "fact_growth e (take_edits de fresh now h was block e)"
proof -
  let ?d = "\<lambda>f. edit_of de (facts_in was) (facts_in block) f"
  have m: "map (\<lambda>(f, d). edited_fact d f) (map (\<lambda>f. (f, ?d f)) fs) = map (\<lambda>f. edited_fact (?d f) f) fs" for fs
    by simp
  show ?thesis
    unfolding take_edits_def Let_def m
  proof (rule growth_appended [where d = ?d])
    fix g assume "g \<in> set (said_facts fresh now e h (map (\<lambda>f. (f, ?d f)) (en_facts e)) 0 @
        (if added_lines was block = [] then []
         else [correction (fresh (length (said_facts fresh now e h (map (\<lambda>f. (f, ?d f)) (en_facts e)) 0))) now e (U ''note'')
            (join newline (added_lines was block)) h None None]))"
    then show "ev_note (fc_evidence g) = None \<and> (fc_target g = None \<or> (\<exists>f \<in> set (en_facts e). fc_target g = fc_target f))"
      using said_targets [of g fresh now e h "map (\<lambda>f. (f, ?d f)) (en_facts e)" 0]
      by (auto simp: correction_def split: if_splits)
  qed simp_all
qed

lemma growth_trans_seen: "fact_growth e (take_edits de fresh now h was block (seen_entity own block e))"
proof -
  have "en_facts (seen_entity own block e) = en_facts e" "en_id (seen_entity own block e) = en_id e"
    "en_redirect (seen_entity own block e) = en_redirect e" by (simp_all add: seen_entity_def Let_def)
  with growth_edits [of "seen_entity own block e"] show ?thesis by (simp add: fact_growth_def)
qed

lemma observed_forgets:
  "forgets_at de ns es l i l1 l2 \<Longrightarrow> entity_at l2 i = Some e \<Longrightarrow> forgets_at de ns es l i l1 (observed dx fresh now h own block e l2)"
  by (auto simp: observed_def Let_def growth_seen growth_trans_seen intro!: forgets_set forgets_receipt split: option.split)

lemma page_gone_forgets:
  "forgets_at de ns es l i l1 l2 \<Longrightarrow> entity_at l2 i = Some e \<Longrightarrow> forgets_at de ns es l i l1 (page_gone dx now e l2)"
  by (auto simp: page_gone_def intro!: forgets_receipt growth_same)

lemma troubled_forgets: "forgets_at de ns es l i l1 l2 \<Longrightarrow> forgets_at de ns es l i l1 (troubled m i l2)"
  by (auto simp: troubled_def split: option.split intro!: forgets_set growth_same)

lemma bumped_forgets: "forgets_at de ns es l i l1 l2 \<Longrightarrow> forgets_at de ns es l i l1 (bumped l2)"
  by (rule forgets_same) (auto simp: bumped_def forgets_at_def forgotten_def)

subsection \<open>The projection of a page\<close>

lemma gives_attempt: "gives P m \<Longrightarrow> gives (\<lambda>r. case r of Inl e \<Rightarrow> True | Inr x \<Rightarrow> P x) (attempt m)"
  unfolding attempt_def by (intro gives_catching gives_bnd [of P] gives_if gives_ret gives_raise) simp_all

lemma gives_case: "(\<And>x. gives P (g x)) \<Longrightarrow> (\<And>y. gives P (h y)) \<Longrightarrow> gives P (case_sum g h r)"
  by (cases r) auto

lemma observe_forgets:
  assumes "forgets_at de ns es l i l1 l2" and "entity_at l2 i = Some e"
  shows "gives (\<lambda>(l3, raw). forgets_at de ns es l i l1 l3) (observe_page s dx l2 e)"
  unfolding observe_page_def
  by (intro gives_step gives_if gives_prod gives_ret) (simp_all add: assms page_gone_forgets observed_forgets split: prod.split)

lemma place_forgets:
  assumes "forgets_at de ns es l i l1 l2" and "entity_at l2 i = Some e"
  shows "gives (forgets_at de ns es l i l1) (place_page s l2 e raw)"
proof -
  have i: "en_id e = i" using keyed_at assms by (auto simp: forgets_at_def)
  have set: "forgets_at de ns es l i l1 (set_entity e' l2)" "entity_at (set_entity e' l2) i = Some e'" if "fact_growth e e'" for e'
    using forgets_set [OF assms that] that i by (simp_all add: fact_growth_def)
  have b: "entity_at (bumped l3) i = entity_at l3 i" for l3 by (simp add: bumped_def entity_at_def)
  have g: "fact_growth e (e\<lparr>en_problem := q\<rparr>)" "fact_growth e (e\<lparr>en_pending := q\<rparr>)" "fact_growth (e\<lparr>en_pending := q\<rparr>) (e\<lparr>en_generated := r, en_pending := r', en_problem := q'\<rparr>)"
    "fact_growth (e\<lparr>en_pending := q\<rparr>) (e\<lparr>en_pending := q, en_generated := r\<rparr>)" for q r r' q'
    by (simp_all add: growth_same)
  have written: "forgets_at de ns es l i l1 (set_entity (e\<lparr>en_pending := q, en_generated := r, en_pending := r', en_problem := q'\<rparr>)
      (bumped (set_entity (e\<lparr>en_pending := q\<rparr>) l2)))" for q r r' q'
    by (rule forgets_set [OF bumped_forgets [OF set(1) [OF g(2)]], where e = "e\<lparr>en_pending := q\<rparr>"])
      (simp_all add: b i growth_same)
  have last: "forgets_at de ns es l i l1 (case r of Inl x \<Rightarrow> troubled not_projected i (bumped (set_entity (e\<lparr>en_pending := q\<rparr>) l2))
      | Inr False \<Rightarrow> bumped (set_entity (e\<lparr>en_pending := q\<rparr>) l2)
      | Inr True \<Rightarrow> set_entity (e\<lparr>en_pending := q, en_generated := q, en_pending := None, en_problem := None\<rparr>)
          (bumped (set_entity (e\<lparr>en_pending := q\<rparr>) l2)))" for r :: "exn + bool" and q
    using written [where q = q and r = q and r' = None and q' = None] by (auto split: sum.split bool.split intro: troubled_forgets bumped_forgets set(1) g)
  have ids: "en_id (e\<lparr>en_pending := q\<rparr>) = i" for q using i by simp
  show ?thesis
    unfolding place_page_def Let_def i ids
    by (intro gives_if gives_ret gives_case gives_raise gives_step assms(1) troubled_forgets set(1) g last)
qed

lemma project_forgets:
  assumes "keyed l1" and "forgotten de ns es l l1"
  shows "gives (\<lambda>(l2, read). forgets_at de ns es l i l1 l2) (project s dx i (l1, read))"
proof (cases "entity_at l1 i")
  case None
  with assms show ?thesis by (auto simp: project_def forgets_refl intro: gives_ret)
next
  case (Some e)
  note r = forgets_refl [OF assms, of i]
  let ?P = "\<lambda>r :: exn + ledger \<times> bytes option \<times> pages option. case r of Inl x \<Rightarrow> True | Inr (l2, raw, read) \<Rightarrow> forgets_at de ns es l i l1 l2"
  have seen: "gives ?P (case (case read of None \<Rightarrow> None | Some d \<Rightarrow> dget d i) of
        Some raw \<Rightarrow> ret (Inr (l1, raw, read))
      | None \<Rightarrow> bnd (attempt (observe_page s dx l1 e)) (\<lambda>r.
          ret (case r of Inl x \<Rightarrow> Inl x | Inr (l, raw) \<Rightarrow> Inr (l, raw, remember_page i raw read))))" for read
    by (intro gives_option gives_ret gives_bnd [OF gives_attempt [OF observe_forgets [OF r Some]]])
      (auto simp: r split: sum.splits)
  show ?thesis
    unfolding project_def Some prod.case option.case
  proof (rule gives_bnd [OF seen])
    fix x assume x: "?P x"
    show "gives (\<lambda>(l2, read). forgets_at de ns es l i l1 l2)
       (case x of Inl x \<Rightarrow> ret (troubled not_projected i l1, read)
        | Inr (l, raw, read) \<Rightarrow> (case entity_at l i of None \<Rightarrow> ret (l, read)
            | Some e \<Rightarrow> bnd (place_page s l e raw) (\<lambda>l. ret (l, read))))"
      using x
      by (cases x) (auto simp: r split: option.split prod.splits
          intro!: gives_ret troubled_forgets gives_bnd [OF place_forgets])
  qed
qed

text \<open>A retired dossier has no memory of its page.\<close>

definition no_cache :: "ledger \<Rightarrow> str \<Rightarrow> bool" where
  "no_cache l i \<longleftrightarrow> (case entity_at l i of None \<Rightarrow> True
     | Some e \<Rightarrow> en_retired e = None \<or> en_generated e = None \<and> en_pending e = None)"

lemma project_purged_forgets:
  assumes "keyed l1" and "forgotten de ns es l l1" and "list_all (no_cache l1) js"
  shows "gives (\<lambda>(l2, read). keyed l2 \<and> forgotten de ns es l l2 \<and> list_all (no_cache l2) (i # js)) (project_purged s dx i (l1, read))"
  unfolding project_purged_def
proof (rule gives_bnd [OF project_forgets [OF assms(1,2)]])
  fix x :: "ledger \<times> pages option"
  assume "case x of (l2, read) \<Rightarrow> forgets_at de ns es l i l1 l2"
  then obtain l2 r where x: "x = (l2, r)" and f: "forgets_at de ns es l i l1 l2" by (cases x) simp
  define l3 where "l3 = (case entity_at l2 i of None \<Rightarrow> l2 | Some e \<Rightarrow> if en_retired e = None then l2 else set_entity (e\<lparr>en_generated := None, en_pending := None\<rparr>) l2)"
  have k: "keyed l2" using f by (simp add: forgets_at_def)
  have l3: "forgets_at de ns es l i l1 l3"
    unfolding l3_def using f by (auto split: option.split intro!: forgets_set growth_same)
  have "no_cache l3 i"
    using keyed_at [OF k, of i] by (auto simp: l3_def no_cache_def split: option.splits)
  moreover have "no_cache l3 j" if "j \<in> set js" "j \<noteq> i" for j
    using l3 that assms(3) by (simp add: forgets_at_def no_cache_def list_all_iff)
  ultimately have "list_all (no_cache l3) (i # js)" by (auto simp: list_all_iff)
  with l3 have "gives (\<lambda>(l2, read). keyed l2 \<and> forgotten de ns es l l2 \<and> list_all (no_cache l2) (i # js)) (ret (l3, r))"
    by (intro gives_ret) (simp add: forgets_at_def)
  then show "gives (\<lambda>(l2, read). keyed l2 \<and> forgotten de ns es l l2 \<and> list_all (no_cache l2) (i # js))
      ((\<lambda>(l, read). ret (case entity_at l i of None \<Rightarrow> l
        | Some e \<Rightarrow> if en_retired e = None then l else set_entity (e\<lparr>en_generated := None, en_pending := None\<rparr>) l, read)) x)"
    by (simp add: x l3_def)
qed

lemma purged_pages_forget:
  assumes "keyed l1" and "forgotten de ns es l l1" and "list_all (no_cache l1) js"
  shows "gives (\<lambda>(l2, read). keyed l2 \<and> forgotten de ns es l l2 \<and> list_all (no_cache l2) (rev is @ js))
    (each_in (project_purged s dx) is (l1, read))"
  using assms
proof (induction "is" arbitrary: l1 js read)
  case (Cons i "is")
  show ?case
    unfolding each_in.simps
  proof (rule gives_bnd [OF project_purged_forgets [OF Cons.prems]])
    fix x :: "ledger \<times> pages option"
    assume "case x of (l2, read) \<Rightarrow> keyed l2 \<and> forgotten de ns es l l2 \<and> list_all (no_cache l2) (i # js)"
    with Cons.IH [of "fst x" "i # js" "snd x"]
    show "gives (\<lambda>(l2, read). keyed l2 \<and> forgotten de ns es l l2 \<and> list_all (no_cache l2) (rev (i # is) @ js)) (each_in (project_purged s dx) is x)"
      by (cases x) simp
  qed
qed (auto intro: gives_ret)

section \<open>The records about the notes\<close>

text \<open>\<open>context_kept m\<close>: \<open>m\<close> does not touch the records.\<close>

definition context_records :: "world \<Rightarrow> (str, fmap) dict" where
  "context_records w = fl_context (w_files w)"

definition context_kept :: "'a act \<Rightarrow> bool" where
  "context_kept m \<longleftrightarrow> (\<forall>w. context_records (snd (m w)) = context_records w)"

named_theorems context_intros

lemma records_tick [simp]: "context_records (tick s w) = context_records w"
  by (simp add: context_records_def tick_def split: prod.split)

lemma context_ret [context_intros]: "context_kept (ret x)"
  and context_raise [context_intros]: "context_kept (raise_exn e)"
  and context_now [context_intros]: "context_kept (now_at s)"
  and context_number [context_intros]: "context_kept step_number"
  and context_look [context_intros]: "context_kept (\<lambda>w. (Inr (g w), w))"
  by (simp_all add: context_kept_def ret_def raise_exn_def now_at_def step_number_def)

lemma context_disk [context_intros]: "context_kept (disk_step s f)"
proof -
  have "context_records ((tick s w)\<lparr>w_disk := d\<rparr>) = context_records w" for w d
    using records_tick [of s w] by (simp add: context_records_def del: records_tick)
  then show ?thesis by (auto simp: context_kept_def disk_step_def Let_def split: option.split sum.split)
qed

lemma context_own: "(\<And>w. context_records (snd (g w)) = context_records w) \<Longrightarrow> context_kept (own_step s g)"
  by (simp add: context_kept_def own_step_def Let_def split: option.split)

lemma context_bnd [context_intros]: "context_kept m \<Longrightarrow> (\<And>x. context_kept (f x)) \<Longrightarrow> context_kept (bnd m f)"
  by (simp add: context_kept_def bnd_def split: prod.split sum.split) (metis snd_conv)

lemma context_catching [context_intros]: "context_kept m \<Longrightarrow> (\<And>e. context_kept (h e)) \<Longrightarrow> context_kept (catching m h)"
  by (simp add: context_kept_def catching_def split: prod.split sum.split) (metis snd_conv)

lemma context_finally [context_intros]: "context_kept m \<Longrightarrow> context_kept c \<Longrightarrow> context_kept (finally_do m c)"
  by (simp add: context_kept_def finally_do_def split: prod.split sum.split) (metis snd_conv)

lemma context_cases [context_intros]:
  "context_kept a \<Longrightarrow> context_kept b \<Longrightarrow> context_kept (if c then a else b)"
  "(\<And>x y. context_kept (g x y)) \<Longrightarrow> context_kept (case_prod g p)"
  "context_kept a \<Longrightarrow> (\<And>y. context_kept (h y)) \<Longrightarrow> context_kept (case_option a h q)"
  "(\<And>e. context_kept (k e)) \<Longrightarrow> (\<And>y. context_kept (h' y)) \<Longrightarrow> context_kept (case_sum k h' r)"
  "context_kept (f v) \<Longrightarrow> context_kept (Let v f)"
  by (simp_all split: prod.split option.split sum.split)

lemma context_each_in [context_intros]: "(\<And>x st. context_kept (f x st)) \<Longrightarrow> context_kept (each_in f xs st)"
  by (induction xs arbitrary: st) (auto intro: context_intros)

lemma context_attempt [context_intros]: "context_kept m \<Longrightarrow> context_kept (attempt m)"
  unfolding attempt_def by (intro context_intros)

lemma context_save [context_intros]: "context_kept (store_catalog s l)" "context_kept (save_catalog s l)"
  unfolding save_catalog_def store_catalog_def by (intro context_intros context_own; simp add: context_records_def)+

lemma context_write [context_intros]: "context_kept (write_page s p raw wanted)"
  unfolding write_page_def create_exclusive_def stage_def read_page_def commit_temp_def replace_temp_def sync_folder_def unlink_missing_ok_def
  by (intro context_intros)

lemma context_sum [context_intros]: "context_kept (of_sum r)"
  unfolding of_sum_def by (intro context_intros)

lemma context_project [context_intros]: "context_kept (project_purged s de i st)"
  unfolding project_purged_def project_def place_page_def observe_page_def there_def read_page_def
  by (intro context_intros)

text \<open>No record is about one of the notes.\<close>

definition records_silent :: "str list \<Rightarrow> (str, fmap) dict \<Rightarrow> bool" where
  "records_silent ns d \<longleftrightarrow>
     list_all (\<lambda>name. case dget d (U name) of None \<Rightarrow> False | Some r \<Rightarrow> list_all (\<lambda>i. dget r i = None) ns)
       [''finalized'', ''associations'', ''calendar-followups''] \<and>
     list_all (\<lambda>i. dget d (U ''review-completions/'' @ i) = None) ns \<and>
     list_all (\<lambda>(k, r). (startswith k (U ''association-corrections/'') \<or> startswith k (U ''jobs/'')) \<longrightarrow> \<not> names_any ns r ''note_id'') d \<and>
     dget d (U ''dossiers'') = Some []"

definition records_after :: "str list \<Rightarrow> (str, fmap) dict \<Rightarrow> (str, fmap) dict" where
  "records_after ns d =
     dict_set (drop_about ''jobs/'' ns (drop_about ''association-corrections/'' ns
       (foldl (\<lambda>d i. dict_pop d (U ''review-completions/'' @ i))
          (forget_in ns ''calendar-followups'' (forget_in ns ''associations'' (forget_in ns ''finalized'' d))) ns))) (U ''dossiers'') []"

lemma dget_drop_about:
  "\<not> startswith k (U f) \<Longrightarrow> dget (drop_about f ns d) k = dget d k"
  "dget d k = None \<Longrightarrow> dget (drop_about f ns d) k = None"
  unfolding drop_about_def by (induction d) auto

lemma dget_completions: "\<not> startswith k (U ''review-completions/'') \<Longrightarrow>
   dget (foldl (\<lambda>d i. dict_pop d (U ''review-completions/'' @ i)) d ns) k = dget d k"
  by (induction ns arbitrary: d) auto

lemma dget_completed: "k \<in> (\<lambda>i. U ''review-completions/'' @ i) ` set ns \<or> dget d k = None \<Longrightarrow>
   dget (foldl (\<lambda>d i. dict_pop d (U ''review-completions/'' @ i)) d ns) k = None"
  by (induction ns arbitrary: d) auto

lemma dget_forget: "dget (forget_in ns name d) k =
   (if k = U name then Some (without_keys ns (case dget d (U name) of None \<Rightarrow> [] | Some r \<Rightarrow> r)) else dget d k)"
  by (simp add: forget_in_def)

lemma without_keys_none: "i \<in> set ns \<Longrightarrow> dget (without_keys ns r) i = None"
  unfolding without_keys_def by (induction r) auto

lemma records_after_silent: "records_silent ns (records_after ns d)"
proof -
  have pre: "\<not> startswith (U name) (U f)" if "name \<in> {''finalized'', ''associations'', ''calendar-followups''}"
    "f \<in> {''jobs/'', ''association-corrections/'', ''review-completions/''}" for name f
    using that by (auto simp: startswith_def U_def)
  have done': "dget (records_after ns d) (U ''review-completions/'' @ i) = None" if "i \<in> set ns" for i
  proof -
    have "U ''review-completions/'' @ i \<noteq> U ''dossiers''" by (simp add: U_def)
    with that show ?thesis by (simp add: records_after_def dget_drop_about(2) dget_completed)
  qed
  have named: "case dget (records_after ns d) (U name) of None \<Rightarrow> False | Some r \<Rightarrow> list_all (\<lambda>i. dget r i = None) ns"
    if "name \<in> {''finalized'', ''associations'', ''calendar-followups''}" for name
    using that pre
    by (auto simp: records_after_def dget_drop_about dget_completions dget_forget list_all_iff without_keys_none)
  have "list_all (\<lambda>(k, r). (startswith k (U ''association-corrections/'') \<or> startswith k (U ''jobs/'')) \<longrightarrow> \<not> names_any ns r ''note_id'')
      (records_after ns d)"
    unfolding records_after_def
    by (rule list_all_dict_set) (auto simp: drop_about_def list_all_iff, simp_all add: startswith_def U_def)
  with done' named show ?thesis by (simp add: records_silent_def records_after_def list_all_iff)
qed

lemma context_step_records: "context_step s f w = (Inr u, w1) \<Longrightarrow> context_records w1 = f (context_records w)"
  using records_tick [of s w]
  by (auto simp: context_step_def own_step_def Let_def context_records_def split: option.splits)

lemma context_steps_records:
  "each_do (\<lambda>x. context_step s (f x)) xs w = (Inr u, w1) \<Longrightarrow> context_records w1 = foldl (\<lambda>d x. f x d) (context_records w) xs"
proof (induction xs arbitrary: w)
  case (Cons x xs)
  then show ?case
    by (auto simp: bnd_def split: prod.splits sum.splits dest: context_step_records)
qed (simp add: ret_def)

lemma saved_catalog: "save_catalog s l w = (Inr l', w') \<Longrightarrow> l' = bumped l \<and> fl_catalog (w_files w') = Some (bumped l)"
  by (auto simp: save_catalog_def store_catalog_def own_step_def bnd_def ret_def Let_def split: option.splits)

lemma context_keptD: "context_kept m \<Longrightarrow> m w = (r, w') \<Longrightarrow> context_records w' = context_records w"
  unfolding context_kept_def by (metis snd_conv)

lemma bnd_InrD: "bnd m f w = (Inr y, w') \<Longrightarrow> \<exists>x w1. m w = (Inr x, w1) \<and> f x w1 = (Inr y, w')"
  by (auto simp: bnd_def split: prod.splits sum.splits)

lemma bumped_parts [simp]: "lg_entities (bumped l) = lg_entities l" "lg_receipts (bumped l) = lg_receipts l"
    "lg_suppressed (bumped l) = lg_suppressed l" "entity_at (bumped l) i = entity_at l i"
  by (simp_all add: bumped_def entity_at_def)

lemma cleared_records:
  assumes "bnd (each_do (\<lambda>name. context_step s (forget_in ns name)) [''finalized'', ''associations'', ''calendar-followups'']) (\<lambda>u.
      bnd (each_do (\<lambda>i. context_step s (\<lambda>d. dict_pop d (U ''review-completions/'' @ i))) ns) (\<lambda>u.
      bnd (context_step s (drop_about ''association-corrections/'' ns)) (\<lambda>u.
      bnd (context_step s (drop_about ''jobs/'' ns)) (\<lambda>u.
      bnd (context_step s (\<lambda>d. dict_set d (U ''dossiers'') [])) (\<lambda>u. m))))) w = (Inr x, w')"
  shows "\<exists>w1. context_records w1 = records_after ns (context_records w) \<and> m w1 = (Inr x, w')"
  using assms by (auto dest!: bnd_InrD context_steps_records context_step_records simp: records_after_def simp del: each_do.simps)

lemma stored_forgotten:
  assumes "bnd (save_catalog s l1) (\<lambda>l. bnd (each_in (project_purged s de) (dkeys (lg_entities l)) (l, None)) (\<lambda>(l, read).
      bnd (save_catalog s (add_receipt [(U ''purge'', PStr token)] l)) (\<lambda>l. ret ()))) w = (Inr u, w')"
    and "keyed l1" and "forgotten de ns es l l1"
  shows "\<exists>l'. fl_catalog (w_files w') = Some l' \<and> forgotten de ns es l l' \<and> list_all (no_cache l') (dkeys (lg_entities l')) \<and>
    purge_done token l' \<and> context_records w' = context_records w"
proof -
  from assms(1) obtain l0 l2 r w1 w2 l3 where w0: "save_catalog s l1 w = (Inr l0, w1)" and
    w12: "each_in (project_purged s de) (dkeys (lg_entities l0)) (l0, None) w1 = (Inr (l2, r), w2)" and
    w3: "save_catalog s (add_receipt [(U ''purge'', PStr token)] l2) w2 = (Inr l3, w')"
    by (auto dest!: bnd_InrD simp: ret_def)
  have l0: "l0 = bumped l1" using saved_catalog [OF w0] by simp
  note w1 = w0 [unfolded l0] and w2 = w12 [unfolded l0 bumped_parts]
  let ?l = "bumped (add_receipt [(U ''purge'', PStr token)] l2)"
  have b: "keyed (bumped l1)" "forgotten de ns es l (bumped l1)"
    using assms(2) forgotten_same [OF assms(3), of "bumped l1"] assms(3) by (simp_all add: keyed_def forgotten_def)
  have l2: "keyed l2" "forgotten de ns es l l2" "list_all (no_cache l2) (dkeys (lg_entities l1))"
    using givesD [OF purged_pages_forget [OF b, of "[]"] w2] by (simp_all add: list_all_iff)
  have keys: "dkeys (lg_entities l2) = dkeys (lg_entities l1)" using assms(3) l2(2) by (simp add: forgotten_def)
  have "silent_receipt es [(U ''purge'', PStr token)]" by (simp add: silent_receipt_def names_any_def fget_def)
  from forgotten_receipt [OF l2(2) this] have a: "forgotten de ns es l (add_receipt [(U ''purge'', PStr token)] l2)" .
  have f: "forgotten de ns es l ?l" by (rule forgotten_same [OF a]) (use a in \<open>simp_all add: forgotten_def\<close>)
  have "no_cache ?l = no_cache l2" by (simp add: no_cache_def fun_eq_iff) (simp add: add_receipt_def entity_at_def)
  moreover have "purge_done token ?l" by (simp add: purge_done_def add_receipt_def fget_def)
  moreover have "context_records w' = context_records w"
  proof -
    have "context_kept (save_catalog s l1)" and "context_kept (each_in (project_purged s de) (dkeys (lg_entities l1)) (bumped l1, None))"
      and "context_kept (save_catalog s (add_receipt [(U ''purge'', PStr token)] l2))" by (intro context_intros)+
    from context_keptD [OF this(1) w1] context_keptD [OF this(2) w2] context_keptD [OF this(3) w3] show ?thesis by simp
  qed
  ultimately show ?thesis
    using saved_catalog [OF w3] f l2(3) keys by (simp add: add_receipt_def)
qed

text \<open>C12. When the purge of a set of notes and dossiers returns, and had not been carried out before, the catalog it saved has
  forgotten them: the purged dossiers are gone and no other; no remaining fact rests on a purged note or points to a purged dossier,
  and no redirect leads to one; no receipt is about one; every address of a purged dossier is suppressed; and every
  other fact of a remaining dossier is still there, at most withdrawn (when its owner took it off the page or rewrote it).
  A remaining dossier that is retired has no memory of its page; of one that is not retired and whose page cannot be written the
  catalog may still hold the block last generated.  No record of the context store (\<open>finalized\<close>, \<open>associations\<close>,
  \<open>calendar-followups\<close>, review completions, corrections, jobs) is about a purged note.  The catalog that was loaded has each dossier
  under its identifier.\<close>

theorem purge_forgets:
  assumes "fl_catalog (w_files w) = Some l" and "keyed l" and "\<not> purge_done token l"
  shows "case purge_dossiers s de ns es token w of (Inl e, w') \<Rightarrow> True
    | (Inr u, w') \<Rightarrow> (case fl_catalog (w_files w') of None \<Rightarrow> False
        | Some l' \<Rightarrow> forgotten de ns es l l' \<and> list_all (no_cache l') (dkeys (lg_entities l')) \<and> purge_done token l') \<and>
        records_silent ns (fl_context (w_files w'))"
proof (cases "purge_dossiers s de ns es token w")
  case (Pair r w')
  show ?thesis
  proof (cases r)
    case (Inr u)
    have "fl_catalog (w_files (tick s w)) = Some l" using assms(1) by (simp add: tick_def split: prod.split)
    then have load: "load_catalog s w = (Inr x, w0) \<Longrightarrow> x = l" for x w0
      by (auto simp: load_catalog_def own_step_def Let_def split: option.splits)
    have now: "bnd (now_at s) f w0 = f (st_clock s (w_tick w0)) w0" for f :: "int \<Rightarrow> unit act" and w0
      by (simp add: bnd_def now_at_def)
    from bnd_InrD [OF Pair [unfolded Inr purge_dossiers_def]] load obtain w0 where
      "(if purge_done token l then ret () else bnd (now_at s) (\<lambda>now. let l = scrubbed de now ns es l in
          bnd (each_do (\<lambda>name. context_step s (forget_in ns name)) [''finalized'', ''associations'', ''calendar-followups'']) (\<lambda>u.
          bnd (each_do (\<lambda>i. context_step s (\<lambda>d. dict_pop d (U ''review-completions/'' @ i))) ns) (\<lambda>u.
          bnd (context_step s (drop_about ''association-corrections/'' ns)) (\<lambda>u.
          bnd (context_step s (drop_about ''jobs/'' ns)) (\<lambda>u.
          bnd (context_step s (\<lambda>d. dict_set d (U ''dossiers'') [])) (\<lambda>u.
          bnd (save_catalog s l) (\<lambda>l.
          bnd (each_in (project_purged s de) (dkeys (lg_entities l)) (l, None)) (\<lambda>(l, read).
          bnd (save_catalog s (add_receipt [(U ''purge'', PStr token)] l)) (\<lambda>l. ret ())))))))))) w0 = (Inr u, w')"
      by blast
    then obtain now where
      "bnd (each_do (\<lambda>name. context_step s (forget_in ns name)) [''finalized'', ''associations'', ''calendar-followups'']) (\<lambda>u.
        bnd (each_do (\<lambda>i. context_step s (\<lambda>d. dict_pop d (U ''review-completions/'' @ i))) ns) (\<lambda>u.
        bnd (context_step s (drop_about ''association-corrections/'' ns)) (\<lambda>u.
        bnd (context_step s (drop_about ''jobs/'' ns)) (\<lambda>u.
        bnd (context_step s (\<lambda>d. dict_set d (U ''dossiers'') [])) (\<lambda>u.
        bnd (save_catalog s (scrubbed de now ns es l)) (\<lambda>l.
        bnd (each_in (project_purged s de) (dkeys (lg_entities l)) (l, None)) (\<lambda>(l, read).
        bnd (save_catalog s (add_receipt [(U ''purge'', PStr token)] l)) (\<lambda>l. ret ())))))))) w0 = (Inr u, w')"
      unfolding now Let_def using assms(3) by (simp only: if_False)
    from cleared_records [OF this] obtain w1 where w1: "context_records w1 = records_after ns (context_records w0)" and
      "bnd (save_catalog s (scrubbed de now ns es l)) (\<lambda>l.
        bnd (each_in (project_purged s de) (dkeys (lg_entities l)) (l, None)) (\<lambda>(l, read).
        bnd (save_catalog s (add_receipt [(U ''purge'', PStr token)] l)) (\<lambda>l. ret ()))) w1 = (Inr u, w')" by blast
    from stored_forgotten [OF this(2)] forgotten_scrubbed [OF assms(2)] obtain l' where
      "fl_catalog (w_files w') = Some l'" "forgotten de ns es l l'" "list_all (no_cache l') (dkeys (lg_entities l'))"
      "purge_done token l'" "context_records w' = context_records w1" by blast
    with w1 records_after_silent [of ns "context_records w0"] show ?thesis by (simp add: Pair Inr context_records_def)
  qed (simp add: Pair)
qed

text \<open>Bee, to whom Ada was merged and whom Ada knows, is purged.\<close>

definition forgetting_catalog :: ledger where
  "forgetting_catalog = empty_ledger\<lparr>lg_entities :=
     [(U ''A'', (plain_entity ''A'' ''Ada'' []
         [plain_fact ''f1'' ''role'' ''head'' None, plain_fact ''f2'' ''knows'' ''Bee'' (Some (U ''B''))])\<lparr>en_redirect := Some (U ''B'')\<rparr>),
      (U ''B'', plain_entity ''B'' ''Bee'' [''a@x.org''] [])]\<rparr>"

definition forgetting_world :: world where
  "forgetting_world = sample_world\<lparr>w_files := no_files\<lparr>fl_catalog := Some forgetting_catalog\<rparr>\<rparr>"

lemma forgetting_returns: "fst (purge_dossiers sample_site crossing [U ''N2''] [U ''B''] (U ''T'') forgetting_world) = Inr ()"
proof -
  have p: "safe_path (U ''People/Ada A.md'') = Inr (U ''People/Ada A.md'')"
    by (simp add: safe_path_def path_parts_def U_def startswith_def)
  have n: "U ''In/plan.md'' \<noteq> U ''People/Ada A.md''" "U ''In'' \<noteq> U ''People/Ada A.md''" by (simp_all add: U_def)
  show ?thesis
    by (simp add: purge_dossiers_def bnd_def load_catalog_def own_step_def now_at_def context_step_def save_catalog_def store_catalog_def
        tick_def sample_site_def forgetting_world_def sample_world_def Let_def ret_def no_files_def forgetting_catalog_def scrubbed_def
        purge_done_def empty_ledger_def plain_entity_def plain_fact_def scrubbed_entity_def newer_def bumped_def project_purged_def project_def
        entity_at_def attempt_def catching_def observe_page_def of_sum_def p n there_def disk_step_def occupied_name_def page_gone_def
        place_page_def)
qed

lemma purge_forgets_witness:
  "case purge_dossiers sample_site crossing [U ''N2''] [U ''B''] (U ''T'') forgetting_world of (Inl e, w') \<Rightarrow> False
    | (Inr u, w') \<Rightarrow> (case fl_catalog (w_files w') of None \<Rightarrow> False
        | Some l' \<Rightarrow> map fst (lg_entities l') = [U ''A''] \<and> entity_at l' (U ''A'') \<noteq> None \<and> redirect_at l' (U ''A'') \<noteq> Some (U ''B''))"
proof -
  have "fl_catalog (w_files forgetting_world) = Some forgetting_catalog" by (simp add: forgetting_world_def)
  moreover have "keyed forgetting_catalog" by (simp add: forgetting_catalog_def keyed_def plain_entity_def)
  moreover have "\<not> purge_done (U ''T'') forgetting_catalog" by (simp add: purge_done_def forgetting_catalog_def empty_ledger_def)
  ultimately have "case purge_dossiers sample_site crossing [U ''N2''] [U ''B''] (U ''T'') forgetting_world of (Inl e, w') \<Rightarrow> True
    | (Inr u, w') \<Rightarrow> (case fl_catalog (w_files w') of None \<Rightarrow> False
        | Some l' \<Rightarrow> forgotten crossing [U ''N2''] [U ''B''] forgetting_catalog l' \<and> list_all (no_cache l') (dkeys (lg_entities l')) \<and>
            purge_done (U ''T'') l') \<and> records_silent [U ''N2''] (fl_context (w_files w'))"
    by (rule purge_forgets)
  then show ?thesis
    using forgetting_returns
    by (auto simp: forgotten_def forgetting_catalog_def redirect_at_def entity_at_def unmentioning_def Cons_eq_map_conv map_eq_Cons_conv
        split: prod.splits sum.splits option.splits)
qed

end
