(* ===== verification/Recovery.thy ===== *)
theory Recovery
  imports PurgeLaws Reconciler
begin

text \<open>
  The recovery of the mirror from the files (\<open>coppermind_store/recovery.py\<close>): every archive is verified, then one
  transaction writes the rows of the sources, of the notes that cite them, and of the links.  No path of the modelled disk is a symbolic
  link.  The caller holds the writer's gate of \<open>Maintenance\<close>.  A recovery changes no file, and takes no source a purge is removing.
\<close>

section \<open>The verification of an archive\<close>

text \<open>
  Nothing has looked at the manifest yet.  An answer \<open>Some e\<close> is an exception the handler of the verification
  catches (a missing key, a value of the wrong format, a file that differs); what is raised goes past it (a \<open>TypeError\<close>).
\<close>

primrec until_defect :: "('a \<Rightarrow> exn option act) \<Rightarrow> 'a list \<Rightarrow> exn option act" where
  "until_defect f [] = ret None"
| "until_defect f (x # xs) = bnd (f x) (\<lambda>d. case d of None \<Rightarrow> until_defect f xs | Some e \<Rightarrow> ret (Some e))"

text \<open>What a \<open>for\<close> goes over; \<open>None\<close> is a \<open>TypeError\<close>.\<close>

definition iterated :: "pyval \<Rightarrow> pyval list option" where
  "iterated v =
     (case v of PList vs \<Rightarrow> Some vs | PMap d \<Rightarrow> Some (map (\<lambda>q. PStr (fst q)) d) | PStr t \<Rightarrow> Some (map (\<lambda>c. PStr [c]) t) | _ \<Rightarrow> None)"

definition artifact_defect :: "'d site \<Rightarrow> doc_lib \<Rightarrow> str \<Rightarrow> pyval \<Rightarrow> exn option act" where
  "artifact_defect s dl folder v =
     (case v of PMap a \<Rightarrow>
        (case dget a (U ''name'') of None \<Rightarrow> ret (Some PyFault)
         | Some x \<Rightarrow>
            let name = text_of (st_objects s) x; gone = bad_source (U ''the current source revision artifact is unreadable: '' @ name)
            in case dl_below dl folder name of None \<Rightarrow> ret (Some gone)
               | Some p \<Rightarrow>
                   catching (bnd (read_bytes s p) (\<lambda>data. ret (case dget a (U ''sha256'') of None \<Rightarrow> Some PyFault
                       | Some h \<Rightarrow> if py_eq (PStr (dl_sha dl data)) h then None
                                   else Some (bad_source (U ''the current source revision artifact failed verification: '' @ name)))))
                     (\<lambda>e. if is_oserror e then ret (Some gone) else raise_exn e))
      | _ \<Rightarrow> raise_exn PyFault)"

text \<open>\<open>f"r{revision:04d}"\<close> of any value: a text or a float has no such format, what is no number has none at all.\<close>

definition revision_folder :: "'d site \<Rightarrow> str \<Rightarrow> pyval \<Rightarrow> (exn + str) act" where
  "revision_folder s i v =
     (case v of PInt n \<Rightarrow> ret (Inr (revision_path i n)) | PBool b \<Rightarrow> ret (Inr (revision_path i (if b then 1 else 0)))
      | PStr t \<Rightarrow> ret (Inl PyFault) | POther k \<Rightarrow> if is_float (st_objects s) k then ret (Inl PyFault) else raise_exn PyFault
      | _ \<Rightarrow> raise_exn PyFault)"

definition revision_defect :: "'d site \<Rightarrow> doc_lib \<Rightarrow> str \<Rightarrow> pyval \<Rightarrow> exn option act" where
  "revision_defect s dl i v =
     (case v of PMap r \<Rightarrow>
        (case (dget r (U ''revision''), dget r (U ''artifacts'')) of
           (Some n, Some arts) \<Rightarrow>
             bnd (revision_folder s i n) (\<lambda>x. case x of Inl e \<Rightarrow> ret (Some e)
             | Inr folder \<Rightarrow> (case iterated arts of None \<Rightarrow> raise_exn PyFault | Some vs \<Rightarrow> until_defect (artifact_defect s dl folder) vs))
         | _ \<Rightarrow> ret (Some PyFault))
      | _ \<Rightarrow> raise_exn PyFault)"

definition archive_defect :: "'d site \<Rightarrow> doc_lib \<Rightarrow> str \<Rightarrow> fmap \<Rightarrow> exn option act" where
  "archive_defect s dl i m =
     (if fget m (U ''source_id'') \<noteq> PStr i then ret (Some PyFault)
      else case dget m (U ''revisions'') of None \<Rightarrow> ret (Some PyFault)
        | Some rs \<Rightarrow> (case iterated rs of None \<Rightarrow> raise_exn PyFault | Some vs \<Rightarrow> until_defect (revision_defect s dl i) vs))"

definition read_archive :: "'d site \<Rightarrow> doc_lib \<Rightarrow> str \<Rightarrow> (exn + fmap) act" where
  "read_archive s dl i =
     catching
       (bnd (disk_step s (\<lambda>now d. if occupied_name d (manifest_path i) then Inr ((), d) else Inl FileMissing)) (\<lambda>u.
        bnd (read_json s dl (manifest_path i) ''source manifest'') (\<lambda>m. ret (Inr m))))
       (\<lambda>e. if is_oserror e \<or> (case e of Typed (SourcesFilesystemUnavailable t) \<Rightarrow> True | _ \<Rightarrow> False) then ret (Inl e) else raise_exn e)"

text \<open>The bundle is recorded as damaged, with what is known of it, and the exception goes on.\<close>

definition report_damage :: "'d site \<Rightarrow> str \<Rightarrow> fmap \<Rightarrow> exn \<Rightarrow> 'a act" where
  "report_damage s i m e =
     bnd (note_damaged s \<lparr>dg_source = i, dg_provider = text_or_empty (st_objects s) m ''provider'',
            dg_external = text_or_empty (st_objects s) m ''external_source_id'', dg_cause = U ''recovery''\<rparr>) (\<lambda>u. raise_exn e)"

definition verify_archive :: "'d site \<Rightarrow> doc_lib \<Rightarrow> str \<Rightarrow> fmap act" where
  "verify_archive s dl i =
     bnd (read_archive s dl i) (\<lambda>x. case x of
       Inl e \<Rightarrow> report_damage s i [] e
     | Inr m \<Rightarrow> bnd (archive_defect s dl i m) (\<lambda>d. case d of
         Some e \<Rightarrow> report_damage s i m e
       | None \<Rightarrow> bnd (note_repaired s i None) (\<lambda>u. ret m)))"

text \<open>\<open>sources_root.glob("*/manifest.json")\<close>: the names of the bundles.\<close>

definition bundles :: "fsys \<Rightarrow> str list" where
  "bundles d =
     map (\<lambda>p. path_name (parent_of p))
       (by_parts (filter (\<lambda>p. path_name p = U ''manifest.json'' \<and> parent_of (parent_of p) = SOURCES) (map fst (d_names d) @ remdups (d_dirs d))))"

definition take_archive :: "'d site \<Rightarrow> doc_lib \<Rightarrow> str list \<Rightarrow> str \<Rightarrow> (str, fmap) dict \<Rightarrow> (str, fmap) dict act" where
  "take_archive s dl purging i found =
     (if i \<in> set purging then ret found
      else bnd (demand (is_valid_id (PStr i)) PyFault) (\<lambda>u. bnd (verify_archive s dl i) (\<lambda>m. ret (dict_set found i m))))"

definition sound_archives :: "'d site \<Rightarrow> doc_lib \<Rightarrow> (str, fmap) dict act" where
  "sound_archives s dl =
     bnd (pending_ids s SourceItem) (\<lambda>purging.
     bnd (disk_step s (\<lambda>now d. Inr (bundles d, d))) (\<lambda>ids. each_in (take_archive s dl purging) ids []))"

section \<open>The notes on the disk\<close>

record found_note =
  fo_path :: str
  fo_data :: bytes
  fo_fm :: fmap
  fo_body :: str
  fo_mtime :: int

definition passed_over :: "'d site \<Rightarrow> str \<Rightarrow> bool" where
  "passed_over s p \<longleftrightarrow>
     list_ex (\<lambda>part. startswith part (U ''.'') \<or> part = ns_trash_folder (ps_notes (st_settings s))) (split_on 47 p)"

text \<open>What cannot be read or parsed is passed over.\<close>

definition read_candidate :: "'d site \<Rightarrow> str \<Rightarrow> (bytes \<times> fmap \<times> str) option act" where
  "read_candidate s p =
     (case st_resolve s p of None \<Rightarrow> ret None
      | Some f \<Rightarrow>
          catching (bnd (read_bytes s f) (\<lambda>data. ret (map_option (Pair data) (parsed_file s data))))
            (\<lambda>e. if is_oserror e then ret None else raise_exn e))"

text \<open>The last file of each identity, and the identities met twice.\<close>

definition take_candidate :: "'d site \<Rightarrow> str \<Rightarrow> (str, found_note) dict \<times> str list \<Rightarrow> ((str, found_note) dict \<times> str list) act" where
  "take_candidate s p found =
     (if passed_over s p then ret found
      else bnd (read_candidate s p) (\<lambda>x. case x of None \<Rightarrow> ret found
        | Some (data, fm, body) \<Rightarrow>
            (case fget fm (role (st_schema s) ''id_key'') of
               PStr j \<Rightarrow>
                 if truthy (fget fm (U ''managed'')) \<or> \<not> is_valid_id (PStr j) then ret found
                 else bnd (disk_step s (lookup_file p n_mtime)) (\<lambda>t.
                      ret (dict_set (fst found) j \<lparr>fo_path = p, fo_data = data, fo_fm = fm, fo_body = body, fo_mtime = t\<rparr>,
                           if dget (fst found) j = None then snd found else List.insert j (snd found)))
             | _ \<Rightarrow> ret found)))"

definition note_candidates :: "'d site \<Rightarrow> ((str, found_note) dict \<times> str list) act" where
  "note_candidates s =
     bnd (disk_step s (\<lambda>now d. Inr (by_parts (filter is_markdown (map fst (d_names d) @ remdups (d_dirs d))), d))) (\<lambda>ps.
     each_in (take_candidate s) ps ([], []))"

section \<open>The rows\<close>

text \<open>The messages of \<open>validate_frontmatter\<close>; \<open>repr\<close> is \<open>repr\<close> of a text.\<close>

definition problem_text :: "(str \<Rightarrow> str) \<Rightarrow> str \<times> problem \<Rightarrow> str" where
  "problem_text repr q =
     fst q @ U '': '' @
     (case snd q of
        ExpectedList \<Rightarrow> U ''expected a list''
      | ExpectedTextEntries \<Rightarrow> U ''expected text entries''
      | Required \<Rightarrow> U ''required''
      | RequiredWhen k vs \<Rightarrow> U ''required when '' @ k @ U '' is one of '' @ join (U '', '') vs
      | ExpectedBool \<Rightarrow> U ''expected true or false''
      | ExpectedInt \<Rightarrow> U ''expected a whole number''
      | OffsetDate \<Rightarrow> U ''must be a local date or date-and-time without a UTC offset''
      | ExpectedDate \<Rightarrow> U ''expected a date as YYYY-MM-DD or YYYY-MM-DDTHH:MM:SS''
      | ExpectedText \<Rightarrow> U ''expected text''
      | NotOneOf t vs \<Rightarrow> repr t @ U '' is not one of '' @ join (U '', '') vs
      | ArtifactNeverNote \<Rightarrow> U ''an artifact is never a note; store the file or link through POST /v1/artifacts and cite it from the note instead'')"

definition restored_row :: "'d site \<Rightarrow> (str \<Rightarrow> str) \<Rightarrow> int \<Rightarrow> found_note \<Rightarrow> row" where
  "restored_row s repr now n =
     (let bad = problems (st_schema s) (fo_fm n);
          r = new_row s (fo_path n) (title_of (fo_body n) (fo_path n)) (fo_fm n) (fo_data n) (fo_mtime n) (fo_mtime n)
      in r\<lparr>r_updated := now, r_state := (if bad = [] then U ''ok'' else U ''unparsed''),
           r_reason := (if bad = [] then None else Some (join (U ''; '') (map (problem_text repr) bad)))\<rparr>)"

text \<open>The sources a note cites, when every one of them was verified.\<close>

definition cites_verified :: "schema \<Rightarrow> (str, fmap) dict \<Rightarrow> fmap \<Rightarrow> str list option" where
  "cites_verified sc ms fm =
     (case dget fm (role sc ''sources_key'') of
        None \<Rightarrow> Some []
      | Some (PList vs) \<Rightarrow>
          if list_all (\<lambda>v. case v of PStr t \<Rightarrow> dget ms t \<noteq> None | _ \<Rightarrow> False) vs then Some (str_items (PList vs)) else None
      | _ \<Rightarrow> None)"

definition unlink_note :: "str \<Rightarrow> db \<Rightarrow> db" where
  "unlink_note j = on_sources (\<lambda>t. t\<lparr>t_links := filter (\<lambda>q. fst q \<noteq> j) (t_links t)\<rparr>)"

definition restore_note :: "'d site \<Rightarrow> (str \<Rightarrow> str) \<Rightarrow> (str, fmap) dict \<Rightarrow> int \<Rightarrow> str \<times> found_note \<Rightarrow> nat \<Rightarrow> nat act" where
  "restore_note s repr ms now q done_so_far =
     (case q of (j, n) \<Rightarrow>
        case cites_verified (st_schema s) ms (fo_fm n) of None \<Rightarrow> ret done_so_far
        | Some cited \<Rightarrow>
            bnd (query s (\<lambda>b. row_of b j)) (\<lambda>old.
            bnd (if old \<noteq> None then ret done_so_far
                 else bnd (add_row s j (restored_row s repr now n)) (\<lambda>u. ret (Suc done_so_far))) (\<lambda>done_so_far.
            bnd (execute s (unlink_note j)) (\<lambda>u.
            bnd (each_do (add_link s j) (sort (remdups cited))) (\<lambda>u. ret done_so_far)))))"

definition restore_rows :: "'d site \<Rightarrow> doc_lib \<Rightarrow> (str \<Rightarrow> str) \<Rightarrow> (str, fmap) dict \<Rightarrow> int \<Rightarrow> (str, found_note) dict \<times> str list \<Rightarrow> nat act" where
  "restore_rows s dl repr ms now found =
     bnd (each_do (\<lambda>q. ensure_source_mirror s dl (snd q)) ms) (\<lambda>u.
     each_in (restore_note s repr ms now) (filter (\<lambda>q. fst q \<notin> set (snd found)) (fst found)) 0)"

text \<open>How many sources and notes were restored.\<close>

definition recover_sources :: "'d site \<Rightarrow> doc_lib \<Rightarrow> (str \<Rightarrow> str) \<Rightarrow> (nat \<times> nat) act" where
  "recover_sources s dl repr =
     bnd (sound_archives s dl) (\<lambda>ms.
     bnd (note_candidates s) (\<lambda>found.
     bnd (now_at s) (\<lambda>now.
     bnd (transaction s (restore_rows s dl repr ms now found)) (\<lambda>n. ret (length ms, n)))))"

section \<open>A recovery changes no file\<close>

lemma keeps_until_defect [keeps_intros]: "(\<And>x. keeps P (f x)) \<Longrightarrow> keeps P (until_defect f xs)"
  by (induction xs) (simp_all, (intro keeps_intros; assumption)+)

lemma keeps_archive_defect [keeps_intros]: "lasting s P \<Longrightarrow> keeps P (archive_defect s dl i m)"
proof -
  assume l: "lasting s P"
  have "keeps P (artifact_defect s dl folder v)" for folder v
    unfolding artifact_defect_def Let_def by (intro keeps_intros l)
  moreover have "keeps P (revision_folder s i v)" for v
    unfolding revision_folder_def by (intro keeps_intros l)
  ultimately have "keeps P (revision_defect s dl i v)" for v
    unfolding revision_defect_def by (intro keeps_intros l) auto
  then show ?thesis unfolding archive_defect_def by (intro keeps_intros l) auto
qed

lemma keeps_verify_archive [keeps_intros]: "lasting s P \<Longrightarrow> keeps P (verify_archive s dl i)"
  unfolding verify_archive_def read_archive_def report_damage_def
  by (intro keeps_intros keeps_disk_step) (auto split: if_splits)

lemma keeps_sound_archives [keeps_intros]: "lasting s P \<Longrightarrow> keeps P (sound_archives s dl)"
proof -
  assume l: "lasting s P"
  have "keeps P (take_archive s dl purging i found)" for purging i found
    unfolding take_archive_def by (intro keeps_intros l)
  then have "keeps P (each_in (take_archive s dl purging) ids found)" for purging ids found
    by (intro keeps_each_in)
  then show ?thesis unfolding sound_archives_def pending_ids_def by (intro keeps_intros l)
qed

lemma keeps_note_candidates [keeps_intros]: "lasting s P \<Longrightarrow> keeps P (note_candidates s)"
proof -
  assume l: "lasting s P"
  have "keeps P (take_candidate s p found)" for p found
    unfolding take_candidate_def read_candidate_def by (intro keeps_intros l)
  then have "keeps P (each_in (take_candidate s) ps found)" for ps found
    by (intro keeps_each_in)
  then show ?thesis unfolding note_candidates_def by (intro keeps_intros l)
qed

lemma recovery_leaves_files: "lasting s P \<Longrightarrow> keeps P (recover_sources s dl repr)"
proof -
  assume l: "lasting s P"
  have "keeps P (restore_note s repr ms now q n)" for ms now q n
    unfolding restore_note_def by (intro keeps_intros keeps_each_do l)
  then have "keeps P (each_in (restore_note s repr ms now) qs n)" for ms now qs n
    by (intro keeps_each_in)
  then show ?thesis unfolding recover_sources_def restore_rows_def by (intro keeps_intros keeps_each_do l)
qed

section \<open>A source that is being purged\<close>

lemma purging_not_taken: "gives (\<lambda>ms. list_all (\<lambda>i. dget ms i = None) purging) (each_in (take_archive s dl purging) ids [])"
proof -
  have "gives (\<lambda>ms. list_all (\<lambda>i. dget ms i = None) purging) (each_in (take_archive s dl purging) ids ms)"
    if "list_all (\<lambda>i. dget ms i = None) purging" for ms
    using that
  proof (induction ids arbitrary: ms)
    case (Cons i ids)
    have "gives (\<lambda>ms. list_all (\<lambda>i. dget ms i = None) purging) (take_archive s dl purging i ms)"
      unfolding take_archive_def using Cons.prems
      by (intro gives_if gives_step gives_ret) (auto simp: list_all_iff)
    then show ?case unfolding each_in.simps by (rule gives_bnd) (rule Cons.IH)
  qed (simp add: gives_ret)
  then show ?thesis by (simp add: list_all_iff)
qed

end
