(* ===== verification/Spec2Isabelle.thy ===== *)
theory Spec2Isabelle
  imports Naming SchemaLaws ApiAuth AdminAuth GitHelper Contract SourcesFolder NoteRename NoteStore Maintenance ReconcilerLaws SourceStore NoteListingSeen DossierSafety DossierPagesSafe PurgeLaws DossierPurge Recovery
begin

text \<open>
  A verification library for Coppermind: a notes service whose files are the truth, with a metadata
  mirror beside them.

  The program.  The Store (\<open>src/services/store/coppermind_store/\<close>) owns the notes filesystem, the
  sources, the artifacts and the mirror in the database; the public API and the Admin pages
  (\<open>src/services/api\<close>, \<open>src/services/admin\<close>) reach it only through its internal contract; the Git
  helper (\<open>src/services/git\<close>) commits the notes filesystem; what they share is \<open>src/coppermind\<close>.
  A note is a Markdown file with YAML frontmatter, and its identity is in the frontmatter.  Devices
  and Git write the same files, so every operation of the Store must live with a file that changes
  under it, with a disk and a database that fail, and with a commit whose fate is not known.

  Shared vocabulary.  \<open>Prelude\<close> has Python's text (a \<open>str\<close> is a list of code points), results as sums
  with the error on the left, and insertion-ordered dictionaries as association lists.  \<open>PyDate\<close> has dates
  and times of day as text (\<open>datetime\<close>), \<open>Lines\<close> \<open>str.splitlines\<close>, \<open>Utf8\<close> the strict UTF-8 codec and
  \<open>Values\<close> what a frontmatter holds.

  Files and configuration.  \<open>Naming\<close> is \<open>coppermind/naming.py\<close>: names every device accepts.
  \<open>Atomicio\<close> is \<open>atomicio.py\<close>: the staged write call by call, every call of which may fail or be the
  last before a crash.  \<open>StateFiles\<close> is \<open>statefiles.py\<close>: revisioned control files; the locale
  \<open>revisioned_store\<close> is what its clients rest on (one winner per revision).  \<open>Settings\<close> is \<open>settings.py\<close>,
  and \<open>SourcesFolder\<close> that it and the Git helper read one folder name alike.  \<open>GitSettings\<close>, \<open>GitRepo\<close>
  and \<open>GitHelper\<close> are \<open>coppermind_git\<close>: a step relation over the scans and the ticks of the helper.

  Access.  \<open>ApiKeys\<close> is \<open>api_keys.py\<close> with the bootstrap key, \<open>ApiAuth\<close> the public API's check as a step
  relation in which keys are revoked while a request is examined, \<open>AdminAuth\<close> the one claim of an
  installation and its signed sessions.  \<open>Contract\<close> is the error envelope, the client's reading of it
  and the request checks of \<open>store_protocol.py\<close>.

  Notes as text.  \<open>Schema\<close>, \<open>SchemaShipped\<close> and \<open>SchemaLaws\<close> are \<open>schema.py\<close>: validation of a
  frontmatter, tags, upgrades of shipped definitions.  \<open>Frontmatter\<close> is \<open>frontmatter.py\<close>: splitting, composing, and
  the two edits that leave every other byte of the text alone.  \<open>NoteMeta\<close>, \<open>NoteMetaLaws\<close> and
  \<open>NoteRename\<close> are the pure helpers of \<open>notes.py\<close>: what adoption fills in, what the JSON column of the mirror takes, and what
  a document that is read and sent back does to the values of the file.

  Notes in the Store.  \<open>NoteWorld\<close> is the world an operation acts on: the notes disk, the mirror, the open
  transaction and the Store's own state.  Interference is explicit: before every step the others act
  (\<open>others\<close>, any function of the step's number and the world), every disk call and every statement may fail
  (\<open>os_fault\<close>, \<open>db_fault_at\<close>), and a commit that fails may still have landed (\<open>landed\<close>).  \<open>NoteOps\<close> locates and
  reads notes, \<open>NoteWrites\<close> has create, replace, patch, move, rename and adopt in the order of their
  protocol.  \<open>NoteSafety\<close> and \<open>NoteLaws\<close> say which bytes an operation may replace, \<open>NoteMoves\<close> that a
  move or a rename always leaves a file with the note's bytes or the rewritten ones while no device changes files, \<open>NoteMirror\<close> that the row a patch writes is the projection of the file;
  \<open>NoteStore\<close> states the properties, with the run in which a device's new file at the old name makes a move lose the note, and
  \<open>NoteSample\<close> has the store they are applied on.
  \<open>Eligibility\<close> is \<open>eligibility.py\<close> with the index entry of a note.

  Keeping in step.  \<open>Exclusions\<close>, \<open>Reconciler\<close> and \<open>ReconcilePass\<close> are \<open>reconciler.py\<close>: what the walk learns,
  which file speaks for an identity, what becomes of each row, and the status readiness asks;
  \<open>ReconcilerLaws\<close> has its laws.  \<open>Maintenance\<close> is the gate by which a purge excludes the writers.

  Sources.  \<open>JsonText\<close>, \<open>SourceDocs\<close>, \<open>Projections\<close>, \<open>Sources\<close> and \<open>SourceIngest\<close> are \<open>sources.py\<close> and
  \<open>projections.py\<close>: a first ingest, a replay, a new revision, the claim that makes an external identity
  one source.  \<open>SourceSafety\<close>, \<open>SourceLaws\<close>, \<open>SourceStored\<close> and \<open>SourceClaims\<close> prove, and \<open>SourceStore\<close> states, that no
  file is replaced, that what is answered is on disk, and that a failed first ingest strands no claim.

  Listings.  \<open>FieldFilters\<close> is \<open>field_filters.py\<close>, \<open>Cursors\<close> the four cursors, \<open>Listings\<close> and \<open>NoteListing\<close> the lists of
  sources, artifacts and notes; \<open>Paging\<close> is the contract of a list read page by page (\<open>keyset_pages\<close>), \<open>ListingLaws\<close>
  and \<open>NoteListingLaws\<close> what a reader is given, \<open>NoteListingSeen\<close> that each row of a page of notes is one the mirror had
  while the page was put together, and met the filter then.  \<open>StoreState\<close> has the records of the other parts.

  Dossiers.  A dossier is an entry of a catalog and a page among the notes whose lower part is generated.
  \<open>DossierText\<close> is the text of a page, \<open>Dossiers\<close> the catalog and what the notes contribute, \<open>DossierIdentity\<close> merges,
  splits, scrubbing and the old contact view, \<open>DossierPages\<close> the pages and the refresh, \<open>DossierService\<close> the
  operations (\<open>entities.py\<close>).  \<open>DossierInv\<close> has the invariant of the catalog (no address in two dossiers, redirects
  that end), \<open>DossierLaws\<close> that every change keeps it, so that following redirects returns, under two conditions on scrubbing and
  migrating beyond which the code breaks it (with the states in which it does); \<open>DossierTextLaws\<close>, \<open>DossierSafety\<close> and \<open>DossierPagesSafe\<close> that
  a page reads back and a deleted line withdraws its own fact, that the owner's part of it survives and that no other file is replaced;
  \<open>DossierPurge\<close> what the purge of notes and dossiers leaves in the catalog and in the records about notes.

  Purges.  \<open>Purges\<close> has the receipts of \<open>purge.py\<close> and where each is kept, \<open>PurgePlan\<close> what may be removed (\<open>candidates\<close>, \<open>_plan\<close>),
  \<open>PurgeService\<close> preview, confirmation, abandonment and the scan for problems.  The four volumes are folders of the one
  disk (\<open>area_root\<close>).  \<open>PurgeSafety\<close> and \<open>PurgeLaws\<close> show that only what a receipt lists is removed, that a receipt that is a preview has
  removed nothing, that nothing is listed that a note or the mirror holds, and how a commit that lands while it reports a failure strands a copy.
  \<open>Recovery\<close> is \<open>recovery.py\<close>: the mirror rebuilt from verified archives and the notes that cite them; it changes no file, and
  takes no source that a purge is removing.

  Bounds.  A create tries five names (the argument 5 of \<open>create_attempts\<close>), a pass adopts fifty files
  (\<open>ADOPTIONS_PER_PASS\<close>), as the code does.  A loop without a bound in the code is a \<open>partial_function\<close> with a theorem that
  it returns: \<open>unique_from\<close> (a finite directory leaves a name free) and \<open>adoption_loop\<close> (each round
  settles one more key).

  Parameters.  The code outside the repository is an argument: YAML and JSON reading and printing, Unicode tables,
  Argon2 and HMAC, SHA-256 (a function, no assumption of injectivity unless a theorem names it), the
  \<open>git\<close> program, clocks and random identifiers, and the directory walk, which is a list of probes with
  what each stat and read answered.

  Not modelled: the HTTP frameworks and the routes that only forward a request, the HTML of the Admin pages, the SQL
  of the queries and the migrations (a table is a list of rows), process start-up, logging and health;
  the manifest gives the reason for each part left out.
\<close>

end
